(* ===== verification/Prelude.thy ===== *)
theory Prelude
  imports Main "HOL-Library.Word"
begin

text \<open>
  Shared vocabulary of the development: the machine integer types of \<open>types.h\<close>, C strings and
  fixed character buffers, the faults a C++ operation of the mod can run into (each one undefined
  behaviour of the source), the result type of operations that may fault, and the list and
  option lemmas that several components use.
\<close>

section \<open>Machine integers\<close>

text \<open>The integer names of \<open>src/mod/src/types.h\<close>. Signed types are words read with \<open>sint\<close>.\<close>

type_synonym u8 = "8 word"
type_synonym u16 = "16 word"
type_synonym u32 = "32 word"
type_synonym u64 = "64 word"
type_synonym s16 = "16 word"
type_synonym s32 = "32 word"
type_synonym s64 = "64 word"

text \<open>
  C++ integer division and remainder of signed operands truncate towards zero.
\<close>

definition cdiv :: "int \<Rightarrow> int \<Rightarrow> int" where
  "cdiv a b = sgn a * sgn b * (\<bar>a\<bar> div \<bar>b\<bar>)"

definition cmod :: "int \<Rightarrow> int \<Rightarrow> int" where
  "cmod a b = a - cdiv a b * b"

text \<open>Signed 32-bit arithmetic is exact while the result is in range.\<close>

lemma sint_range32: "- (2 ^ 31) \<le> sint (w :: s32) \<and> sint w < 2 ^ 31"
  using sint_ge [of w] sint_lt [of w] by simp

lemma sint_add32:
  "- (2 ^ 31) \<le> sint (v :: s32) + sint w \<Longrightarrow> sint v + sint w < 2 ^ 31 \<Longrightarrow> sint (v + w) = sint v + sint w"
  by (simp add: sint_word_ariths signed_take_bit_int_eq_self)

lemma sint_sub32:
  "- (2 ^ 31) \<le> sint (v :: s32) - sint w \<Longrightarrow> sint v - sint w < 2 ^ 31 \<Longrightarrow> sint (v - w) = sint v - sint w"
  by (simp add: sint_word_ariths signed_take_bit_int_eq_self)

lemma sint_succ32: "sint (w :: s32) + 1 < 2 ^ 31 \<Longrightarrow> sint (w + 1) = sint w + 1"
  using sint_add32 [of w 1] sint_range32 [of w] by simp

lemma sint_pred32: "- (2 ^ 31) < sint (w :: s32) \<Longrightarrow> sint (w - 1) = sint w - 1"
  using sint_sub32 [of w 1] sint_range32 [of w] by simp

lemma unat_pred32: "0 < unat (n :: u32) \<Longrightarrow> unat (n - 1) = unat n - 1"
  by (rule unat_minus_one) auto

lemma sint_small32: "unat (w :: s32) < 2 ^ 31 \<Longrightarrow> sint w = int (unat w)"
proof -
  assume "unat w < 2 ^ 31"
  then have "int (unat w) < int (2 ^ 31)" by (simp only: of_nat_less_iff)
  then have "uint w < 2 ^ 31" unfolding uint_nat by simp
  moreover have "- (2 ^ 31) \<le> uint w" by (rule order_trans [OF _ uint_ge_0]) simp
  ultimately have "signed_take_bit 31 (uint w) = uint w"
    by (intro signed_take_bit_int_eq_self)
  then show ?thesis by (simp add: sint_uint)
qed

lemma unat_scast64: "0 \<le> sint (w :: s32) \<Longrightarrow> unat (scast w :: u64) = nat (sint w)"
proof -
  assume nn: "0 \<le> sint w"
  have "sint w < 2 ^ 31" using sint_range32 [of w] by (rule conjunct2)
  also have "(2::int) ^ 31 < 2 ^ 64" by simp
  finally have "take_bit 64 (sint w) = sint w" using nn by (intro take_bit_int_eq_self)
  then have "take_bit LENGTH(64) (sint w) = sint w" by (simp only: len_num0 len_bit0 len_num1) simp
  then show ?thesis unfolding unat_eq_nat_uint scast_eq uint_word_of_int_eq by (rule arg_cong)
qed

section \<open>Faults and results\<close>

text \<open>
  What the source does when it leaves the defined behaviour of C++: a write past a fixed buffer,
  an index past an array, a null dereference, freeing an address the heap did not hand out, and
  reading an object through a pointer of the wrong class.
\<close>

datatype fault =
    BufferOverflow
  | OutOfBounds
  | NullDeref
  | BadFree
  | WrongClass
  | UseAfterFree

type_synonym 'a res = "fault + 'a"

named_theorems res_simps \<open>rewrite rules for results that may be faults\<close>

definition rbind :: "'a res \<Rightarrow> ('a \<Rightarrow> 'b res) \<Rightarrow> 'b res" where
  "rbind r f = (case r of Inl e \<Rightarrow> Inl e | Inr x \<Rightarrow> f x)"

lemma rbind_Inl [simp, res_simps]: "rbind (Inl e) f = Inl e"
  by (simp add: rbind_def)

lemma rbind_Inr [simp, res_simps]: "rbind (Inr x) f = f x"
  by (simp add: rbind_def)

lemma rbind_eq_Inr: "rbind r f = Inr y \<longleftrightarrow> (\<exists>x. r = Inr x \<and> f x = Inr y)"
  by (cases r) (auto simp: rbind_def)

lemma rbind_eq_Inl: "rbind r f = Inl e \<longleftrightarrow> r = Inl e \<or> (\<exists>x. r = Inr x \<and> f x = Inl e)"
  by (cases r) (auto simp: rbind_def)

lemma rbind_InrE:
  assumes "rbind r f = Inr y"
  obtains x where "r = Inr x" and "f x = Inr y"
  using assms by (auto simp: rbind_eq_Inr)

text \<open>
  \<open>res_spec E P r\<close>: a fault of \<open>r\<close> satisfies \<open>E\<close>, and its value \<open>P\<close>. The rules take a sequence of
  calls apart, so that an operation is verified from what is known of its parts.
\<close>

definition res_spec :: "(fault \<Rightarrow> bool) \<Rightarrow> ('a \<Rightarrow> bool) \<Rightarrow> 'a res \<Rightarrow> bool" where
  "res_spec E P r = (case r of Inl e \<Rightarrow> E e | Inr x \<Rightarrow> P x)"

named_theorems spec_intro \<open>what the operations guarantee, as rules for \<open>res_spec\<close>\<close>

lemma res_spec_Inl [simp]: "res_spec E P (Inl e) = E e"
  by (simp add: res_spec_def)

lemma res_spec_Inr [simp]: "res_spec E P (Inr x) = P x"
  by (simp add: res_spec_def)

lemma res_spec_rbind: "res_spec E P (rbind r f) = res_spec E (\<lambda>x. res_spec E P (f x)) r"
  by (cases r) simp_all

lemma res_spec_mono: "res_spec E P r \<Longrightarrow> (\<And>x. P x \<Longrightarrow> Q x) \<Longrightarrow> res_spec E Q r"
  by (cases r) simp_all

lemma res_spec_seq:
  "res_spec E P r \<Longrightarrow> (\<And>x. P x \<Longrightarrow> res_spec E Q (f x)) \<Longrightarrow> res_spec E Q (rbind r f)"
  by (cases r) simp_all

lemma res_specD_Inr: "res_spec E P r \<Longrightarrow> r = Inr x \<Longrightarrow> P x"
  by simp

lemma res_specD_Inl: "res_spec E P r \<Longrightarrow> r = Inl e \<Longrightarrow> E e"
  by simp

section \<open>C strings\<close>

text \<open>
  A \<open>std::string\<close> is a list of characters, NULs included; \<open>c_str\<close> is the C string a reader of
  its \<open>c_str()\<close> sees, which ends at the first NUL. A character array that holds a C string is
  modelled by that C string.
\<close>

definition nul :: char where
  "nul = CHR 0x00"

definition c_str :: "string \<Rightarrow> string" where
  "c_str s = takeWhile (\<lambda>c. c \<noteq> nul) s"

text \<open>\<open>strcpy\<close> into an array of \<open>n\<close> characters: the terminating NUL has to fit.\<close>

definition strcpy :: "nat \<Rightarrow> string \<Rightarrow> string res" where
  "strcpy n s = (if length (c_str s) < n then Inr (c_str s) else Inl BufferOverflow)"

definition no_nul :: "string \<Rightarrow> bool" where
  "no_nul s \<longleftrightarrow> nul \<notin> set s"

lemma c_str_no_nul [simp]: "no_nul s \<Longrightarrow> c_str s = s"
  by (auto simp: c_str_def no_nul_def takeWhile_eq_all_conv)

lemma no_nul_c_str [simp]: "no_nul (c_str s)"
  by (auto simp: c_str_def no_nul_def dest: set_takeWhileD)

lemma c_str_idem [simp]: "c_str (c_str s) = c_str s"
  by simp

lemma c_str_Nil [simp]: "c_str [] = []"
  by (simp add: c_str_def)

lemma length_c_str_le: "length (c_str s) \<le> length s"
  by (simp add: c_str_def length_takeWhile_le)

lemma strcpy_Inr_iff: "strcpy n s = Inr t \<longleftrightarrow> length (c_str s) < n \<and> t = c_str s"
  by (auto simp: strcpy_def)

lemma strcpy_fits [simp]: "length (c_str s) < n \<Longrightarrow> strcpy n s = Inr (c_str s)"
  by (simp add: strcpy_def)

lemma strcpy_fault: "\<not> length (c_str s) < n \<Longrightarrow> strcpy n s = Inl BufferOverflow"
  by (simp add: strcpy_def)

section \<open>Lists\<close>

text \<open>The first index at which a predicate holds, as the search loops of the source compute it.\<close>

fun first_index :: "('a \<Rightarrow> bool) \<Rightarrow> 'a list \<Rightarrow> nat option" where
  "first_index p [] = None"
| "first_index p (x # xs) = (if p x then Some 0 else map_option Suc (first_index p xs))"

lemma first_index_None_iff: "first_index p xs = None \<longleftrightarrow> (\<forall>x \<in> set xs. \<not> p x)"
  by (induction xs) auto

lemma first_index_Some_iff:
  "first_index p xs = Some i \<longleftrightarrow> i < length xs \<and> p (xs ! i) \<and> (\<forall>j < i. \<not> p (xs ! j))"
proof (induction xs arbitrary: i)
  case Nil
  then show ?case by simp
next
  case (Cons x xs)
  show ?case
  proof (cases "p x")
    case True
    then show ?thesis by (auto simp: nth_Cons split: nat.splits)
  next
    case False
    then show ?thesis
      by (cases i) (auto simp: Cons.IH less_Suc_eq_0_disj)
  qed
qed

lemma first_index_less: "first_index p xs = Some i \<Longrightarrow> i < length xs"
  by (simp add: first_index_Some_iff)

lemma first_index_holds: "first_index p xs = Some i \<Longrightarrow> p (xs ! i)"
  by (simp add: first_index_Some_iff)

lemma first_index_cong:
  "(\<And>x. x \<in> set xs \<Longrightarrow> p x = q x) \<Longrightarrow> first_index p xs = first_index q xs"
  by (induction xs) auto

end
