(* ===== verification/Capture_Types.thy ===== *)
theory Capture_Types
  imports Crc32
begin

text \<open>
  \<open>algorithms/CaptureTypes.h\<close>: the table of the enemies that can be captured and the two lookups
  between their names and the enumeration. The enumeration is its \<open>s16\<close> value; \<open>FindType\<close> goes
  through the CRC-32 hash array, \<open>FindStr\<close> indexes the table. The theory proves that the hashes of
  the table are distinct, so that the two lookups are inverse to each other.
\<close>

definition capture_strs :: "string list" where
  "capture_strs =
  [''AnagramAlphabetCharacter'',
   ''Byugo'',
   ''Bubble'',
   ''Bull'',
   ''Car'',
   ''ElectricWire'',
   ''KillerLauncherMagnum'',
   ''KuriboPossessed'',
   ''WanwanBig'',
   ''KillerLauncher'',
   ''Koopa'',
   ''Wanwan'',
   ''Pukupuku'',
   ''PukupukuSnow'',
   ''Gamane'',
   ''FireBrosPossessed'',
   ''PackunFire'',
   ''Frog'',
   ''Kakku'',
   ''Hosui'',
   ''HammerBrosPossessed'',
   ''Megane'',
   ''KaronWing'',
   ''KuriboWing'',
   ''PackunPoison'',
   ''Radicon'',
   ''Tank'',
   ''Tsukkun'',
   ''TRex'',
   ''TRexSleep'',
   ''TRexPatrol'',
   ''Imomu'',
   ''SenobiGeneratePoint'']"

definition capture_Unknown :: s16 where
  "capture_Unknown = -1"

text \<open>\<open>FindType\<close>: the index, an \<open>int64\<close>, is narrowed to \<open>uint16\<close> and cast to the \<open>s16\<close> enumeration.\<close>

definition capture_FindType :: "string \<Rightarrow> s16" where
  "capture_FindType str = word_of_int (FindIndex capture_strs str)"

definition capture_FindStr :: "s16 \<Rightarrow> string" where
  "capture_FindStr t =
     (if 0 \<le> sint t \<and> sint t < int (length capture_strs)
      then capture_strs ! nat (sint t) else [])"

definition isInCaptureList :: "string \<Rightarrow> bool" where
  "isInCaptureList capture \<longleftrightarrow> capture_FindType capture \<noteq> capture_Unknown"

lemma length_capture_strs: "length capture_strs = 33"
  by (simp add: capture_strs_def)

lemma capture_hash_values: "map HashStr capture_strs =
  [0xdfa5093e, 0x57ad3830, 0xec8cf4c1, 0xcf2fecc9, 0x4f70a07d, 0x48723455, 0xe70f31ed, 0xed02b143,
   0x4a893183, 0x2f99ec56, 0xdc45dd35, 0x58b02f4d, 0x42367efd, 0xad1c3064, 0x413298bd, 0xbde410d2,
   0x6216e82d, 0xf9fde750, 0x887f1d3d, 0xfd758186, 0x7137cb82, 0x7a94fd7f, 0x3bace996, 0xa895b6cb,
   0x42316001, 0xc2ecdc55, 0x0d201807, 0xa6959725, 0x4c47dbdb, 0xe89b0634, 0xf5c890c3, 0xe93afebf,
   0x1e530416]"
  by code_simp

lemma distinct_capture_hashes: "distinct (map HashStr capture_strs)"
  unfolding capture_hash_values by simp

lemma sint_of_small_nat: "n < 2 ^ 15 \<Longrightarrow> sint (word_of_int (int n) :: s16) = int n"
  by (simp add: sint_sbintrunc' signed_take_bit_int_eq_self del: of_int_of_nat_eq)

lemma capture_FindType_strs:
  "i < length capture_strs \<Longrightarrow> capture_FindType (capture_strs ! i) = word_of_int (int i)"
  by (simp add: capture_FindType_def FindIndex_found distinct_capture_hashes)

lemma capture_FindStr_index:
  "i < length capture_strs \<Longrightarrow> capture_FindStr (word_of_int (int i)) = capture_strs ! i"
  using sint_of_small_nat [of i]
  by (simp add: capture_FindStr_def length_capture_strs del: of_int_of_nat_eq)

text \<open>
  The two lookups of the capture table are inverse to each other on it: the type found for
  the name of a capture enumeration value (0 to 32) is that value, so no two capture names of the
  table share a CRC-32 hash; and every such name is recognised by \<open>isInCaptureList\<close>.
\<close>

theorem capture_lookup_roundtrip:
  assumes "0 \<le> sint t" and "sint t < 33"
  shows "capture_FindType (capture_FindStr t) = t \<and> isInCaptureList (capture_FindStr t)"
proof -
  define i where "i = nat (sint t)"
  have i: "i < length capture_strs" "int i = sint t"
    using assms by (simp_all add: i_def length_capture_strs)
  then have t: "t = word_of_int (int i)" by simp
  have find: "capture_FindType (capture_FindStr t) = t"
    unfolding t by (simp only: capture_FindStr_index capture_FindType_strs i(1))
  moreover have "t \<noteq> capture_Unknown"
    using assms(1) by (auto simp: capture_Unknown_def)
  ultimately show ?thesis by (simp add: isInCaptureList_def)
qed

theorem capture_lookup_roundtrip_witness:
  "capture_FindType (capture_FindStr 28) = 28 \<and> isInCaptureList (capture_FindStr 28)"
  using capture_lookup_roundtrip [of 28] by simp

end
