(* ===== verification/Float32.thy ===== *)
theory Float32
  imports Prelude Complex_Main
begin

text \<open>
  The \<open>f32\<close> of the source (\<open>float\<close>, IEEE 754 binary32) by value: a finite float is the rational it
  denotes, so the two zeros, which every comparison of the source identifies, are one value. The
  comparisons are the IEEE ones (false on a NaN operand), and addition and subtraction round the
  exact result to nearest, ties to even, with subnormals and overflow to infinity.
\<close>

datatype f32 = NaN | PosInf | NegInf | Fin rat

section \<open>Comparisons\<close>

fun f32_lt :: "f32 \<Rightarrow> f32 \<Rightarrow> bool" where
  "f32_lt (Fin a) (Fin b) = (a < b)"
| "f32_lt (Fin a) PosInf = True"
| "f32_lt NegInf (Fin b) = True"
| "f32_lt NegInf PosInf = True"
| "f32_lt _ _ = False"

fun f32_eq :: "f32 \<Rightarrow> f32 \<Rightarrow> bool" where
  "f32_eq NaN _ = False"
| "f32_eq _ NaN = False"
| "f32_eq a b = (a = b)"

definition f32_le :: "f32 \<Rightarrow> f32 \<Rightarrow> bool" where
  "f32_le a b \<longleftrightarrow> f32_lt a b \<or> f32_eq a b"

fun f32_abs :: "f32 \<Rightarrow> f32" where
  "f32_abs (Fin a) = Fin \<bar>a\<bar>"
| "f32_abs NegInf = PosInf"
| "f32_abs a = a"

lemma f32_le_Fin [simp]: "f32_le (Fin a) (Fin b) \<longleftrightarrow> a \<le> b"
  by (auto simp: f32_le_def)

lemma f32_le_NaN [simp]: "\<not> f32_le NaN b" "\<not> f32_le a NaN"
  by (cases b; simp add: f32_le_def) (cases a; simp add: f32_le_def)

lemma f32_le_Inf [simp]: "f32_le (Fin a) PosInf" "\<not> f32_le PosInf (Fin a)"
  "f32_le NegInf (Fin a)" "\<not> f32_le (Fin a) NegInf"
  by (simp_all add: f32_le_def)

lemma f32_between_Fin: "f32_le (Fin a) x \<Longrightarrow> f32_le x (Fin b) \<Longrightarrow> \<exists>c. x = Fin c \<and> a \<le> c \<and> c \<le> b"
  by (cases x) auto

section \<open>Rounding\<close>

text \<open>
  \<open>f32_binade 253 a\<close> is the number \<open>n\<close> of the binade of a positive \<open>a\<close>: the binade \<open>n\<close> starts at
  \<open>2 ^ n / 2 ^ 126\<close>, binade 0 also holds the subnormals, and its floats are the multiples of
  \<open>2 ^ n / 2 ^ 149\<close>.
\<close>

fun f32_binade :: "nat \<Rightarrow> rat \<Rightarrow> nat" where
  "f32_binade 0 a = 0"
| "f32_binade (Suc n) a = (if 2 ^ Suc n / 2 ^ 126 \<le> a then Suc n else f32_binade n a)"

definition f32_ulp :: "rat \<Rightarrow> rat" where
  "f32_ulp a = 2 ^ f32_binade 253 \<bar>a\<bar> / 2 ^ 149"

definition round_half_even :: "rat \<Rightarrow> int" where
  "round_half_even x =
     (let f = \<lfloor>x\<rfloor>; d = x - of_int f
      in if d < 1 / 2 then f else if d > 1 / 2 then f + 1 else if even f then f else f + 1)"

definition f32_round :: "rat \<Rightarrow> f32" where
  "f32_round a =
     (let r = of_int (round_half_even (a / f32_ulp a)) * f32_ulp a
      in if r \<ge> 2 ^ 128 then PosInf else if r \<le> - (2 ^ 128) then NegInf else Fin r)"

text \<open>The floats: finite values that rounding leaves alone.\<close>

fun f32_ok :: "f32 \<Rightarrow> bool" where
  "f32_ok (Fin a) \<longleftrightarrow> f32_round a = Fin a"
| "f32_ok _ \<longleftrightarrow> True"

fun f32_neg :: "f32 \<Rightarrow> f32" where
  "f32_neg (Fin a) = Fin (- a)"
| "f32_neg PosInf = NegInf"
| "f32_neg NegInf = PosInf"
| "f32_neg NaN = NaN"

fun f32_add :: "f32 \<Rightarrow> f32 \<Rightarrow> f32" where
  "f32_add (Fin a) (Fin b) = f32_round (a + b)"
| "f32_add NaN _ = NaN"
| "f32_add _ NaN = NaN"
| "f32_add PosInf NegInf = NaN"
| "f32_add NegInf PosInf = NaN"
| "f32_add PosInf _ = PosInf"
| "f32_add _ PosInf = PosInf"
| "f32_add NegInf _ = NegInf"
| "f32_add _ NegInf = NegInf"

definition f32_sub :: "f32 \<Rightarrow> f32 \<Rightarrow> f32" where
  "f32_sub a b = f32_add a (f32_neg b)"

lemma f32_sub_Fin [simp]: "f32_sub (Fin a) (Fin b) = f32_round (a - b)"
  by (simp add: f32_sub_def)

section \<open>Bounds on rounding\<close>

lemma round_half_even_of_int [simp]: "round_half_even (of_int k) = k"
  by (simp add: round_half_even_def)

lemma round_half_even_le: "x \<le> of_int k \<Longrightarrow> round_half_even x \<le> k"
proof -
  assume le: "x \<le> of_int k"
  show ?thesis
  proof (cases "x = of_int k")
    case True
    then show ?thesis by simp
  next
    case False
    with le have "\<lfloor>x\<rfloor> < k" by (metis floor_less_iff order_le_less)
    then show ?thesis by (auto simp: round_half_even_def Let_def)
  qed
qed

lemma round_half_even_ge: "of_int k \<le> x \<Longrightarrow> k \<le> round_half_even x"
proof -
  assume "of_int k \<le> x"
  then have "k \<le> \<lfloor>x\<rfloor>" by (simp add: le_floor_iff)
  then show ?thesis by (auto simp: round_half_even_def Let_def)
qed

lemma f32_binade_le: "f32_binade n a \<le> n"
  by (induction n) auto

lemma f32_binade_upper:
  "a < 2 ^ Suc n / 2 ^ 126 \<Longrightarrow> a < 2 ^ Suc (f32_binade n a) / 2 ^ 126"
  by (induction n) auto

lemma f32_binade_lower:
  "f32_binade n a \<noteq> 0 \<Longrightarrow> 2 ^ f32_binade n a / 2 ^ 126 \<le> a"
  by (induction n) (auto split: if_splits)

lemma f32_binade_bound: "a < 2 ^ k / 2 ^ 126 \<Longrightarrow> 0 < k \<Longrightarrow> f32_binade n a < k"
proof -
  assume lt: "a < 2 ^ k / 2 ^ 126" and k: "0 < k"
  show ?thesis
  proof (cases "f32_binade n a = 0")
    case True
    with k show ?thesis by simp
  next
    case False
    then have "2 ^ f32_binade n a / 2 ^ 126 \<le> a" by (rule f32_binade_lower)
    with lt have "(2::rat) ^ f32_binade n a / 2 ^ 126 < 2 ^ k / 2 ^ 126" by (rule le_less_trans [rotated])
    then have "(2::rat) ^ f32_binade n a < 2 ^ k" by (simp add: divide_less_cancel)
    then show ?thesis by (rule power_less_imp_less_exp [rotated]) simp
  qed
qed

lemma f32_ulp_pos [simp]: "0 < f32_ulp a"
  by (simp add: f32_ulp_def)


text \<open>A float grid point bounds the rounded value of everything below it.\<close>

lemma f32_round_le_grid:
  assumes "0 \<le> a" and "a \<le> of_int k * f32_ulp a" and "of_int k * f32_ulp a < 2 ^ 128"
  shows "\<exists>r. f32_round a = Fin r \<and> 0 \<le> r \<and> r \<le> of_int k * f32_ulp a"
proof -
  let ?u = "f32_ulp a" and ?m = "round_half_even (a / f32_ulp a)"
  have "a / ?u \<le> of_int k" using assms(2) by (simp add: pos_divide_le_eq)
  then have "?m \<le> k" by (rule round_half_even_le)
  then have up: "of_int ?m * ?u \<le> of_int k * ?u"
    by (intro mult_right_mono) (simp_all add: less_imp_le)
  have "of_int 0 \<le> a / ?u" using assms(1) by (simp add: less_imp_le)
  then have "0 \<le> ?m" by (rule round_half_even_ge)
  then have lo: "0 \<le> of_int ?m * ?u" by (simp add: less_imp_le)
  have "\<not> of_int ?m * ?u \<ge> 2 ^ 128" using up assms(3) by linarith
  moreover have "\<not> of_int ?m * ?u \<le> - (2 ^ 128)" using lo by simp
  ultimately show ?thesis using lo up by (simp add: f32_round_def Let_def)
qed

lemma f32_binade_eqI:
  "2 ^ Suc k / 2 ^ 126 \<le> a \<Longrightarrow> a < 2 ^ Suc (Suc k) / 2 ^ 126 \<Longrightarrow> Suc k \<le> n \<Longrightarrow> f32_binade n a = Suc k"
proof (induction n)
  case 0
  then show ?case by simp
next
  case (Suc n)
  show ?case
  proof (cases "n = k")
    case True
    with Suc.prems show ?thesis by simp
  next
    case False
    then have "Suc (Suc k) \<le> Suc n" using Suc.prems by simp
    then have "(2::rat) ^ Suc (Suc k) / 2 ^ 126 \<le> 2 ^ Suc n / 2 ^ 126"
      by (intro divide_right_mono power_increasing) simp_all
    then have "\<not> 2 ^ Suc n / 2 ^ 126 \<le> a" using Suc.prems by linarith
    with Suc.IH Suc.prems False show ?thesis by simp
  qed
qed

lemma f32_ulp_below_one:
  assumes "0 \<le> a" and "a < 1"
  obtains b where "b \<le> 125" and "f32_ulp a = 2 ^ b / 2 ^ 149" and "a < 2 ^ Suc b / 2 ^ 126"
proof -
  have "f32_binade 253 \<bar>a\<bar> < 126"
    using assms by (intro f32_binade_bound) simp_all
  moreover have "a < 2 ^ Suc (f32_binade 253 \<bar>a\<bar>) / 2 ^ 126"
    using f32_binade_upper [of a 253] assms by simp
  ultimately show ?thesis using that [of "f32_binade 253 \<bar>a\<bar>"] by (simp add: f32_ulp_def)
qed

lemma f32_round_below_one:
  assumes "0 \<le> a" and "a < 1" and "a \<le> 1 - c / 2 ^ 24" and "c \<in> {0, 1, 2}"
  shows "\<exists>r. f32_round a = Fin r \<and> 0 \<le> r \<and> r \<le> 1 - c / 2 ^ 24"
proof -
  obtain b where b: "b \<le> 125" and u: "f32_ulp a = 2 ^ b / 2 ^ 149"
    using f32_ulp_below_one [OF assms(1,2)] .
  obtain d :: int where d: "c = of_int d" using assms(4) that [of 0] that [of 1] that [of 2] by auto
  let ?k = "(2 ^ 24 - d) * 2 ^ (125 - b)"
  have "(2::rat) ^ (125 - b) * 2 ^ b = 2 ^ 125" using b by (simp flip: power_add)
  then have k: "of_int ?k * f32_ulp a = 1 - c / 2 ^ 24"
    by (simp add: u d divide_simps) (simp add: algebra_simps)
  show ?thesis
    using f32_round_le_grid [OF assms(1), of ?k] assms(3,4) unfolding k by auto
qed

lemma f32_round_below_two:
  assumes "0 \<le> a" and "a \<le> 2 - 1 / 2 ^ 23"
  shows "\<exists>r. f32_round a = Fin r \<and> 0 \<le> r \<and> r \<le> 2 - 1 / 2 ^ 23"
proof (cases "a < 1")
  case True
  with f32_round_below_one [of a 0] assms show ?thesis by force
next
  case False
  then have "f32_binade 253 \<bar>a\<bar> = 126"
    using f32_binade_eqI [of 125 a 253] assms by simp
  then have u: "f32_ulp a = 1 / 2 ^ 23" by (simp add: f32_ulp_def)
  show ?thesis using f32_round_le_grid [OF assms(1), of "2 ^ 24 - 1"] assms unfolding u by simp
qed

lemma f32_round_lower_one:
  assumes "1 \<le> a" and "a < 2" and "f32_round a = Fin r"
  shows "1 \<le> r"
proof -
  have "f32_binade 253 \<bar>a\<bar> = 126"
    using f32_binade_eqI [of 125 a 253] assms by simp
  then have u: "f32_ulp a = 1 / 2 ^ 23" by (simp add: f32_ulp_def)
  have "of_int (2 ^ 23) \<le> a / f32_ulp a" unfolding u using assms(1) by simp
  then have "2 ^ 23 \<le> round_half_even (a / f32_ulp a)" by (rule round_half_even_ge)
  then have "of_int (2 ^ 23) \<le> (of_int (round_half_even (a / f32_ulp a)) :: rat)"
    by (simp only: of_int_le_iff)
  moreover have "r = of_int (round_half_even (a / f32_ulp a)) * f32_ulp a"
    using assms(3) by (simp add: f32_round_def Let_def split: if_splits)
  ultimately show ?thesis unfolding u by simp
qed

text \<open>There is no float strictly between \<open>1 - 2 ^ -24\<close> and 1.\<close>

lemma f32_round_gap_one:
  assumes "f32_round a = Fin r" and "0 \<le> a" and "a < 2" and "r < 1"
  shows "r \<le> 1 - 1 / 2 ^ 24"
proof -
  let ?m = "round_half_even (a / f32_ulp a)"
  have "a < 1" using f32_round_lower_one [of a r] assms by force
  obtain b where b: "b \<le> 125" and u: "f32_ulp a = 2 ^ b / 2 ^ 149" and up: "a < 2 ^ Suc b / 2 ^ 126"
    using f32_ulp_below_one [OF assms(2) \<open>a < 1\<close>] .
  have r: "r = of_int ?m * f32_ulp a"
    using assms(1) by (simp add: f32_round_def Let_def split: if_splits)
  show ?thesis
  proof (cases "b = 125")
    case True
    have u: "f32_ulp a = 1 / 2 ^ 24" using u True by simp
    from r have m: "r = of_int ?m / 2 ^ 24" unfolding u by simp
    then have "of_int ?m < (of_int (2 ^ 24) :: rat)" using assms(4) by (simp add: divide_simps)
    then have "?m \<le> 2 ^ 24 - 1" by (simp only: of_int_less_iff zle_diff1_eq)
    then have "of_int ?m \<le> (of_int (2 ^ 24 - 1) :: rat)" by (simp only: of_int_le_iff)
    then show ?thesis by (subst m) (simp add: divide_simps)
  next
    case False
    with b have "Suc b \<le> 125" by simp
    then have "(2::rat) ^ Suc b / 2 ^ 126 \<le> 2 ^ 125 / 2 ^ 126"
      by (intro divide_right_mono power_increasing) simp_all
    with up have "a \<le> 1 - 1 / 2 ^ 24" by simp
    then show ?thesis
      using f32_round_below_one [OF assms(2) \<open>a < 1\<close>, of 1] assms(1) by auto
  qed
qed

lemma f32_ok_below_one: "f32_ok (Fin a) \<Longrightarrow> 0 \<le> a \<Longrightarrow> a < 1 \<Longrightarrow> a \<le> 1 - 1 / 2 ^ 24"
  using f32_round_gap_one [of a a] by simp

section \<open>Exact values\<close>

lemma f32_round_exact:
  assumes "a = of_int k * f32_ulp a" and "\<bar>a\<bar> < 2 ^ 128"
  shows "f32_round a = Fin a"
proof -
  have "a / f32_ulp a = of_int k"
    using assms(1) by (metis f32_ulp_pos less_irrefl nonzero_mult_div_cancel_right)
  then have "of_int (round_half_even (a / f32_ulp a)) * f32_ulp a = a" using assms(1) by simp
  then show ?thesis using assms(2) by (auto simp: f32_round_def)
qed

lemma f32_ulp_eqI:
  "2 ^ Suc k / 2 ^ 126 \<le> \<bar>a\<bar> \<Longrightarrow> \<bar>a\<bar> < 2 ^ Suc (Suc k) / 2 ^ 126 \<Longrightarrow> Suc k \<le> 253 \<Longrightarrow>
   f32_ulp a = 2 ^ Suc k / 2 ^ 149"
  by (simp only: f32_ulp_def f32_binade_eqI)

lemma f32_round_half: "f32_round (1 / 2) = Fin (1 / 2)"
proof -
  have "f32_ulp (1 / 2) = 1 / 2 ^ 24" using f32_ulp_eqI [of 124 "1 / 2"] by simp
  then show ?thesis using f32_round_exact [of "1 / 2" "2 ^ 23"] by simp
qed

lemma f32_round_one: "f32_round 1 = Fin 1"
proof -
  have "f32_ulp 1 = 1 / 2 ^ 23" using f32_ulp_eqI [of 125 1] by simp
  then show ?thesis using f32_round_exact [of 1 "2 ^ 23"] by simp
qed

end
