(* ===== verification/Timer.thy ===== *)
theory Timer
  imports Float32
begin

text \<open>
  The game mode timer of \<open>server/gamemode/GameModeTimer.hpp\<close> and
  \<open>server/hns/GameModeTimer.cpp\<close>: a stopwatch in hours, minutes, seconds and a \<open>float\<close> fraction
  of a second (the field the source calls milliseconds) that a frame's delta time advances, in
  either direction. The delta time and the pad are inputs of a step.
\<close>

section \<open>State\<close>

record GameTime =
  mMilliseconds :: f32
  mSeconds :: s32
  mMinutes :: s32
  mHours :: s32

record GameModeTimer =
  mIsCountUp :: bool
  mIsEnabled :: bool
  mIsUseControl :: bool
  mTime :: GameTime

text \<open>The pad queries of \<open>al/util/ControllerUtil.h\<close> that \<open>timerControl\<close> makes, answered for one frame.\<close>

record pad =
  isPadHoldL :: bool
  isPadTriggerDown :: bool
  isPadHoldRight :: bool
  isPadTriggerLeft :: bool

text \<open>The members as their initialisers leave them, before a constructor body runs.\<close>

definition GameTime_init :: GameTime where
  "GameTime_init = \<lparr>mMilliseconds = Fin 0, mSeconds = 0, mMinutes = 0, mHours = 0\<rparr>"

definition GameModeTimer_init :: GameModeTimer where
  "GameModeTimer_init =
     \<lparr>mIsCountUp = True, mIsEnabled = False, mIsUseControl = True, mTime = GameTime_init\<rparr>"

section \<open>Operations\<close>

definition setTime :: "f32 \<Rightarrow> s32 \<Rightarrow> s32 \<Rightarrow> s32 \<Rightarrow> GameModeTimer \<Rightarrow> GameModeTimer" where
  "setTime milli seconds minutes hours t =
     (let g = mTime t;
          g = (if f32_le (Fin 0) milli then g\<lparr>mMilliseconds := milli\<rparr> else g);
          g = (if sint seconds \<ge> 0 then g\<lparr>mSeconds := seconds\<rparr> else g);
          g = (if sint minutes \<ge> 0 then g\<lparr>mMinutes := minutes\<rparr> else g);
          g = (if sint hours \<ge> 0 then g\<lparr>mHours := hours\<rparr> else g)
      in t\<lparr>mTime := g\<rparr>)"

definition setTime_struct :: "GameTime \<Rightarrow> GameModeTimer \<Rightarrow> GameModeTimer" where
  "setTime_struct g t = t\<lparr>mTime := g\<rparr>"

definition resetTime :: "GameModeTimer \<Rightarrow> GameModeTimer" where
  "resetTime = setTime (Fin 0) 0 0 0"

definition GameModeTimer_full :: "bool \<Rightarrow> f32 \<Rightarrow> s32 \<Rightarrow> s32 \<Rightarrow> s32 \<Rightarrow> GameModeTimer" where
  "GameModeTimer_full isCountUp milli seconds minutes hours =
     setTime milli seconds minutes hours (GameModeTimer_init\<lparr>mIsCountUp := isCountUp\<rparr>)"

definition GameModeTimer_from :: "f32 \<Rightarrow> s32 \<Rightarrow> s32 \<Rightarrow> s32 \<Rightarrow> GameModeTimer" where
  "GameModeTimer_from milli seconds minutes hours =
     setTime milli seconds minutes hours (GameModeTimer_init\<lparr>mIsCountUp := False\<rparr>)"

definition GameModeTimer_of_time :: "GameTime \<Rightarrow> GameModeTimer" where
  "GameModeTimer_of_time g = setTime_struct g (GameModeTimer_init\<lparr>mIsCountUp := True\<rparr>)"

definition GameModeTimer_default :: GameModeTimer where
  "GameModeTimer_default = resetTime (GameModeTimer_init\<lparr>mIsCountUp := True\<rparr>)"

definition toggleTimer :: "GameModeTimer \<Rightarrow> GameModeTimer" where
  "toggleTimer t = t\<lparr>mIsEnabled := \<not> mIsEnabled t\<rparr>"

definition enableTimer :: "GameModeTimer \<Rightarrow> GameModeTimer" where
  "enableTimer t = t\<lparr>mIsEnabled := True\<rparr>"

definition disableTimer :: "GameModeTimer \<Rightarrow> GameModeTimer" where
  "disableTimer t = t\<lparr>mIsEnabled := False\<rparr>"

definition enableControl :: "GameModeTimer \<Rightarrow> GameModeTimer" where
  "enableControl t = t\<lparr>mIsUseControl := True\<rparr>"

definition disableControl :: "GameModeTimer \<Rightarrow> GameModeTimer" where
  "disableControl t = t\<lparr>mIsUseControl := False\<rparr>"

text \<open>The carry that both the running clock and the pad apply after a second is added.\<close>

definition add_second :: "GameTime \<Rightarrow> GameTime" where
  "add_second g =
     (let g = g\<lparr>mSeconds := mSeconds g + 1\<rparr>
      in if sint (mSeconds g) \<ge> 60
         then let g = g\<lparr>mSeconds := 0, mMinutes := mMinutes g + 1\<rparr>
              in if sint (mMinutes g) \<ge> 60 then g\<lparr>mMinutes := 0, mHours := mHours g + 1\<rparr> else g
         else g)"

definition timerControl :: "pad \<Rightarrow> GameTime \<Rightarrow> GameTime" where
  "timerControl p g =
     (if isPadHoldL p
      then (if isPadTriggerDown p then GameTime_init else g)
      else
        let g = (if isPadHoldRight p then add_second (g\<lparr>mMilliseconds := Fin 0\<rparr>) else g)
        in if isPadTriggerLeft p
           then let g = g\<lparr>mMilliseconds := Fin 0\<rparr>
                in if mMinutes g \<noteq> 0
                   then let g = g\<lparr>mSeconds := mSeconds g - 1\<rparr>
                        in if sint (mSeconds g) < 0
                           then let g = g\<lparr>mSeconds := 59, mMinutes := mMinutes g - 1\<rparr>
                                in if sint (mMinutes g) < 0
                                   then (if sint (mHours g) > 0
                                         then g\<lparr>mMinutes := 59, mHours := mHours g - 1\<rparr>
                                         else g\<lparr>mMinutes := 0\<rparr>)
                                   else g
                           else g
                   else g
           else g)"

text \<open>One second less; the flag says whether the timer keeps running.\<close>

definition sub_second :: "GameTime \<Rightarrow> GameTime \<times> bool" where
  "sub_second g =
     (let g = g\<lparr>mSeconds := mSeconds g - 1\<rparr>
      in if sint (mSeconds g) < 0
         then let g = g\<lparr>mSeconds := 59, mMinutes := mMinutes g - 1\<rparr>
              in if sint (mMinutes g) < 0
                 then (if sint (mHours g) > 0
                       then (g\<lparr>mMinutes := 59, mHours := mHours g - 1\<rparr>, True)
                       else (g, False))
                 else (g, True)
         else (g, True))"

definition updateTimer :: "pad \<Rightarrow> f32 \<Rightarrow> GameModeTimer \<Rightarrow> GameModeTimer" where
  "updateTimer p deltaTime t =
     (let t = (if mIsUseControl t then t\<lparr>mTime := timerControl p (mTime t)\<rparr> else t)
      in if mIsEnabled t
         then let g = mTime t;
                  g = g\<lparr>mMilliseconds := f32_add (mMilliseconds g) deltaTime\<rparr>
              in if f32_le (Fin 1) (mMilliseconds g)
                 then let g = g\<lparr>mMilliseconds := f32_sub (mMilliseconds g) (Fin 1)\<rparr>
                      in if mIsCountUp t
                         then t\<lparr>mTime := add_second g\<rparr>
                         else (case sub_second g of (g, on) \<Rightarrow> t\<lparr>mTime := g, mIsEnabled := on\<rparr>)
                 else t\<lparr>mTime := g\<rparr>
         else t)"

section \<open>Normal times\<close>

text \<open>
  A displayed time is normal when the fraction is in \<open>[0, 1)\<close> (at most the largest float below 1),
  the seconds and minutes are in \<open>[0, 60)\<close> and the hours are not negative.
\<close>

definition frac_ok :: "f32 \<Rightarrow> bool" where
  "frac_ok x \<longleftrightarrow> f32_le (Fin 0) x \<and> f32_le x (Fin (1 - 1 / 2 ^ 24))"

definition time_ok :: "GameTime \<Rightarrow> bool" where
  "time_ok g \<longleftrightarrow> frac_ok (mMilliseconds g) \<and> 0 \<le> sint (mSeconds g) \<and> sint (mSeconds g) < 60 \<and>
     0 \<le> sint (mMinutes g) \<and> sint (mMinutes g) < 60 \<and> 0 \<le> sint (mHours g)"

text \<open>The time in whole seconds, and the delta times a frame of less than a second has.\<close>

definition total_seconds :: "GameTime \<Rightarrow> int" where
  "total_seconds g = 3600 * sint (mHours g) + 60 * sint (mMinutes g) + sint (mSeconds g)"

definition delta_ok :: "f32 \<Rightarrow> bool" where
  "delta_ok d \<longleftrightarrow> f32_ok d \<and> f32_le (Fin 0) d \<and> f32_lt d (Fin 1)"

lemma frac_ok_E:
  assumes "frac_ok x"
  obtains a where "x = Fin a" and "0 \<le> a" and "a \<le> 1 - 1 / 2 ^ 24"
  using f32_between_Fin [of 0 x "1 - 1 / 2 ^ 24"] assms by (auto simp: frac_ok_def)

lemma delta_ok_frac: "delta_ok d \<Longrightarrow> frac_ok d"
  using f32_ok_below_one by (cases d) (auto simp: delta_ok_def frac_ok_def)

lemma frac_ok_step:
  assumes "frac_ok x" and "frac_ok d"
  shows "(f32_le (Fin 1) (f32_add x d) \<longrightarrow> frac_ok (f32_sub (f32_add x d) (Fin 1))) \<and>
    (\<not> f32_le (Fin 1) (f32_add x d) \<longrightarrow> frac_ok (f32_add x d))"
proof -
  obtain a where a: "x = Fin a" "0 \<le> a" "a \<le> 1 - 1 / 2 ^ 24" using assms(1) by (rule frac_ok_E)
  obtain c where c: "d = Fin c" "0 \<le> c" "c \<le> 1 - 1 / 2 ^ 24" using assms(2) by (rule frac_ok_E)
  have sum: "0 \<le> a + c" "a + c \<le> 2 - 1 / 2 ^ 23" using a c by auto
  obtain r where r: "f32_round (a + c) = Fin r" "0 \<le> r" "r \<le> 2 - 1 / 2 ^ 23"
    using f32_round_below_two [OF sum] by auto
  show ?thesis
  proof (cases "1 \<le> r")
    case True
    then have "\<exists>q. f32_round (r - 1) = Fin q \<and> 0 \<le> q \<and> q \<le> 1 - 2 / 2 ^ 24"
      using r by (intro f32_round_below_one) auto
    then show ?thesis using a c r True by (auto simp: frac_ok_def)
  next
    case False
    then have "r \<le> 1 - 1 / 2 ^ 24" using f32_round_gap_one [OF r(1)] sum by simp
    then show ?thesis using a c r False by (auto simp: frac_ok_def)
  qed
qed

section \<open>Seconds\<close>

lemma add_second_total:
  assumes "time_ok g" and "sint (mHours g) + 1 < 2 ^ 31"
  shows "total_seconds (add_second g) = total_seconds g + 1 \<and>
    (frac_ok (mMilliseconds (add_second g)) \<longrightarrow> time_ok (add_second g))"
  using assms
  by (auto simp: add_second_def time_ok_def total_seconds_def Let_def sint_succ32)


lemma sub_second_total:
  assumes "time_ok g" and "sub_second g = (g', on)"
  shows "total_seconds g' = total_seconds g - 1 \<and> on = (total_seconds g \<noteq> 0) \<and>
    mMilliseconds g' = mMilliseconds g \<and>
    (on \<longrightarrow> 0 \<le> sint (mSeconds g') \<and> sint (mSeconds g') < 60 \<and>
       0 \<le> sint (mMinutes g') \<and> sint (mMinutes g') < 60 \<and> 0 \<le> sint (mHours g')) \<and>
    (\<not> on \<longrightarrow> sint (mSeconds g') = 59 \<and> sint (mMinutes g') = -1 \<and> sint (mHours g') = 0)"
  using assms
  by (auto simp: sub_second_def time_ok_def total_seconds_def Let_def sint_pred32
      split: if_splits)

lemma mMilliseconds_add_second [simp]: "mMilliseconds (add_second g) = mMilliseconds g"
  by (simp add: add_second_def Let_def)

lemma frac_ok_zero [simp]: "frac_ok (Fin 0)"
  by (simp add: frac_ok_def)

lemma time_ok_init: "time_ok GameTime_init"
  by (simp add: time_ok_def GameTime_init_def)

lemma time_ok_milli: "time_ok g \<Longrightarrow> frac_ok x \<Longrightarrow> time_ok (g\<lparr>mMilliseconds := x\<rparr>)"
  by (simp add: time_ok_def)

lemma time_ok_add_second: "time_ok g \<Longrightarrow> sint (mHours g) + 1 < 2 ^ 31 \<Longrightarrow> time_ok (add_second g)"
  using add_second_total [of g] by (simp add: time_ok_def)

lemma total_seconds_milli [simp]: "total_seconds (g\<lparr>mMilliseconds := x\<rparr>) = total_seconds g"
  by (simp add: total_seconds_def)

text \<open>What \<open>timerControl\<close> does on the left trigger.\<close>

definition pad_left :: "GameTime \<Rightarrow> GameTime" where
  "pad_left g =
     (if mMinutes g \<noteq> 0 then fst (sub_second (g\<lparr>mMilliseconds := Fin 0\<rparr>))
      else g\<lparr>mMilliseconds := Fin 0\<rparr>)"

lemma pos_of_nonzero: "0 \<le> sint (w :: s32) \<Longrightarrow> w \<noteq> 0 \<Longrightarrow> 1 \<le> sint w"
  by (metis linorder_not_less order_antisym signed_0 signed_word_eqI zless_imp_add1_zle add_0)

lemma pad_left_ok:
  assumes "time_ok g"
  shows "time_ok (pad_left g)"
proof (cases "mMinutes g = 0")
  case True
  then show ?thesis using assms by (simp add: pad_left_def time_ok_milli)
next
  case False
  let ?g = "g\<lparr>mMilliseconds := Fin 0\<rparr>"
  obtain g' on where sub: "sub_second ?g = (g', on)" by fastforce
  have "1 \<le> sint (mMinutes g)" using assms False by (simp add: time_ok_def pos_of_nonzero)
  then have "total_seconds g \<noteq> 0" using assms by (simp add: total_seconds_def time_ok_def)
  then show ?thesis
    using sub_second_total [OF time_ok_milli [OF assms frac_ok_zero] sub] False sub
    by (simp add: pad_left_def time_ok_def)
qed

lemma timerControl_pad_left:
  assumes "\<not> isPadHoldL p"
    and "time_ok (if isPadHoldRight p then add_second (g\<lparr>mMilliseconds := Fin 0\<rparr>) else g)"
  shows "timerControl p g =
    (let g = (if isPadHoldRight p then add_second (g\<lparr>mMilliseconds := Fin 0\<rparr>) else g)
     in if isPadTriggerLeft p then pad_left g else g)"
proof -
  have "\<not> sint (mMinutes g - 1) < 0" if "time_ok g" and "mMinutes g \<noteq> 0" for g :: GameTime
    using that pos_of_nonzero [of "mMinutes g"] by (simp add: time_ok_def sint_pred32)
  note nn = this [OF assms(2)]
  obtain h where h: "h = (if isPadHoldRight p then add_second (g\<lparr>mMilliseconds := Fin 0\<rparr>) else g)"
    by simp
  show ?thesis
    using assms(1) nn unfolding timerControl_def pad_left_def sub_second_def h [symmetric]
    by (simp add: Let_def)
qed

section \<open>Properties\<close>

text \<open>Counting up without pad control, a frame of less than a second keeps the displayed time
  normal (fraction, seconds and minutes in range, in exact binary32 arithmetic), keeps the timer
  running, and adds exactly one second when the fraction carries and none otherwise.\<close>

theorem timer_counts_up:
  assumes "mIsCountUp t" and "mIsEnabled t" and "\<not> mIsUseControl t" and "time_ok (mTime t)"
    and "sint (mHours (mTime t)) + 1 < 2 ^ 31" and "delta_ok d"
  shows "time_ok (mTime (updateTimer p d t)) \<and> mIsEnabled (updateTimer p d t) \<and>
    total_seconds (mTime (updateTimer p d t)) =
      total_seconds (mTime t) + (if f32_le (Fin 1) (f32_add (mMilliseconds (mTime t)) d) then 1 else 0)"
proof -
  let ?m = "mMilliseconds (mTime t)"
  have fr: "frac_ok ?m" using assms(4) by (simp add: time_ok_def)
  note step = frac_ok_step [OF fr delta_ok_frac [OF assms(6)]]
  show ?thesis
  proof (cases "f32_le (Fin 1) (f32_add ?m d)")
    case True
    let ?g = "mTime t\<lparr>mMilliseconds := f32_sub (f32_add ?m d) (Fin 1)\<rparr>"
    have "time_ok ?g" using step True assms(4) by (simp add: time_ok_milli)
    then show ?thesis
      using True assms(1-3,5) add_second_total [of ?g]
      by (simp add: updateTimer_def Let_def time_ok_add_second)
  next
    case False
    then show ?thesis using assms(1-4) step by (simp add: updateTimer_def Let_def time_ok_milli)
  qed
qed

theorem timer_counts_up_witness:
  "time_ok (mTime (updateTimer \<lparr>isPadHoldL = False, isPadTriggerDown = False, isPadHoldRight = False,
       isPadTriggerLeft = False\<rparr> (Fin (1 / 2))
     \<lparr>mIsCountUp = True, mIsEnabled = True, mIsUseControl = False,
      mTime = \<lparr>mMilliseconds = Fin (3 / 4), mSeconds = 59, mMinutes = 59, mHours = 0\<rparr>\<rparr>))"
proof -
  have "delta_ok (Fin (1 / 2))" by (simp add: delta_ok_def f32_round_half)
  then show ?thesis by (intro timer_counts_up [THEN conjunct1]) (simp_all add: time_ok_def frac_ok_def)
qed

text \<open>Counting down without pad control, a frame takes one second off exactly when the fraction
  carries. The timer runs on, with a normal time, until the second after 0:00:00; there it stops
  and keeps the time 0 hours, -1 minutes and 59 seconds.\<close>

theorem timer_counts_down:
  assumes "\<not> mIsCountUp t" and "mIsEnabled t" and "\<not> mIsUseControl t" and "time_ok (mTime t)"
    and "delta_ok d"
    and "t' = updateTimer p d t"
    and "carry = f32_le (Fin 1) (f32_add (mMilliseconds (mTime t)) d)"
  shows "total_seconds (mTime t') = total_seconds (mTime t) - (if carry then 1 else 0) \<and>
    mIsEnabled t' = (\<not> (carry \<and> total_seconds (mTime t) = 0)) \<and>
    (if mIsEnabled t' then time_ok (mTime t')
     else sint (mHours (mTime t')) = 0 \<and> sint (mMinutes (mTime t')) = -1 \<and> sint (mSeconds (mTime t')) = 59)"
proof -
  let ?m = "mMilliseconds (mTime t)"
  have fr: "frac_ok ?m" using assms(4) by (simp add: time_ok_def)
  note step = frac_ok_step [OF fr delta_ok_frac [OF assms(5)]]
  show ?thesis
  proof (cases carry)
    case True
    let ?g = "mTime t\<lparr>mMilliseconds := f32_sub (f32_add ?m d) (Fin 1)\<rparr>"
    obtain g' on where sub: "sub_second ?g = (g', on)" by fastforce
    have g: "time_ok ?g" using step True assms(4,7) by (simp add: time_ok_milli)
    have t': "t' = t\<lparr>mTime := g', mIsEnabled := on\<rparr>"
      using True assms(1-3,6,7) sub by (simp add: updateTimer_def Let_def)
    from sub_second_total [OF g sub] g show ?thesis using True by (simp add: t' time_ok_def)
  next
    case False
    then show ?thesis using assms step by (simp add: updateTimer_def Let_def time_ok_milli)
  qed
qed

theorem timer_counts_down_witness:
  "\<not> mIsEnabled (updateTimer \<lparr>isPadHoldL = False, isPadTriggerDown = False, isPadHoldRight = False,
       isPadTriggerLeft = False\<rparr> (Fin (1 / 2))
     \<lparr>mIsCountUp = False, mIsEnabled = True, mIsUseControl = False,
      mTime = \<lparr>mMilliseconds = Fin (1 / 2), mSeconds = 0, mMinutes = 0, mHours = 0\<rparr>\<rparr>)"
proof -
  have d: "delta_ok (Fin (1 / 2))" by (simp add: delta_ok_def f32_round_half)
  have c: "f32_le (Fin 1) (f32_add (Fin (1 / 2)) (Fin (1 / 2)))" by (simp add: f32_round_one)
  show ?thesis
    by (subst timer_counts_down [OF _ _ _ _ d refl refl, THEN conjunct2, THEN conjunct1])
      (simp_all add: time_ok_def frac_ok_def total_seconds_def c del: f32_add.simps)
qed

text \<open>Whatever the players press, the pad control of the timer turns a normal time into a normal
  time, as long as the hours do not overflow.\<close>

theorem timerControl_ok:
  assumes "time_ok g" and "sint (mHours g) + 1 < 2 ^ 31"
  shows "time_ok (timerControl p g)"
proof (cases "isPadHoldL p")
  case True
  then show ?thesis using assms(1) by (simp add: timerControl_def time_ok_init)
next
  case False
  let ?g = "if isPadHoldRight p then add_second (g\<lparr>mMilliseconds := Fin 0\<rparr>) else g"
  have "time_ok ?g" using assms by (simp add: time_ok_add_second time_ok_milli)
  then show ?thesis
    unfolding timerControl_pad_left [OF False \<open>time_ok ?g\<close>] Let_def
    using pad_left_ok [of ?g] by (cases "isPadTriggerLeft p") (simp_all only: if_True if_False)
qed

theorem timerControl_ok_witness:
  "time_ok (timerControl \<lparr>isPadHoldL = False, isPadTriggerDown = False, isPadHoldRight = True,
      isPadTriggerLeft = True\<rparr> \<lparr>mMilliseconds = Fin (1 / 2), mSeconds = 59, mMinutes = 59, mHours = 3\<rparr>)"
  by (rule timerControl_ok) (simp_all add: time_ok_def frac_ok_def)

end
