(* ===== verification/Packets.thy ===== *)
theory Packets
  imports Float32
begin

text \<open>
  The messages the client and the server exchange, as \<open>proto/packets/*.proto\<close> and
  \<open>proto/util/Math.proto\<close> declare them, and the conversions of \<open>packets/Packet.cpp\<close> between
  message fields and the game's own types. A message field that holds a message is an option
  (it may be absent, and its accessor then returns the default message); a \<open>oneof\<close> is an optional
  datatype value; strings and bytes are character lists.
\<close>

section \<open>Geometry and identifiers\<close>

text \<open>\<open>sead::Vector3f\<close>, \<open>sead::Quatf\<close> and the messages that carry them.\<close>

record Vector3f =
  v_x :: f32
  v_y :: f32
  v_z :: f32

record Quatf =
  q_x :: f32
  q_y :: f32
  q_z :: f32
  q_w :: f32

record pb_Vector3 =
  pv_x :: f32
  pv_y :: f32
  pv_z :: f32

record pb_Quaternion =
  pq_x :: f32
  pq_y :: f32
  pq_z :: f32
  pq_w :: f32

definition convert_vec_to_pb :: "Vector3f \<Rightarrow> pb_Vector3" where
  "convert_vec_to_pb value = \<lparr>pv_x = v_x value, pv_y = v_y value, pv_z = v_z value\<rparr>"

definition convert_vec :: "pb_Vector3 \<Rightarrow> Vector3f" where
  "convert_vec value = \<lparr>v_x = pv_x value, v_y = pv_y value, v_z = pv_z value\<rparr>"

definition convert_quat_to_pb :: "Quatf \<Rightarrow> pb_Quaternion" where
  "convert_quat_to_pb value =
     \<lparr>pq_x = q_x value, pq_y = q_y value, pq_z = q_z value, pq_w = q_w value\<rparr>"

definition convert_quat :: "pb_Quaternion \<Rightarrow> Quatf" where
  "convert_quat value = \<lparr>q_x = pq_x value, q_y = pq_y value, q_z = pq_z value, q_w = pq_w value\<rparr>"

definition Vector3f_zero :: Vector3f where
  "Vector3f_zero = \<lparr>v_x = Fin 0, v_y = Fin 0, v_z = Fin 0\<rparr>"

definition Quatf_zero :: Quatf where
  "Quatf_zero = \<lparr>q_x = Fin 0, q_y = Fin 0, q_z = Fin 0, q_w = Fin 0\<rparr>"

definition Quatf_unit :: Quatf where
  "Quatf_unit = \<lparr>q_x = Fin 0, q_y = Fin 0, q_z = Fin 0, q_w = Fin 1\<rparr>"

text \<open>The default messages, what an accessor of an absent field returns.\<close>

definition pb_Vector3_default :: pb_Vector3 where
  "pb_Vector3_default = \<lparr>pv_x = Fin 0, pv_y = Fin 0, pv_z = Fin 0\<rparr>"

definition pb_Quaternion_default :: pb_Quaternion where
  "pb_Quaternion_default = \<lparr>pq_x = Fin 0, pq_y = Fin 0, pq_z = Fin 0, pq_w = Fin 0\<rparr>"

definition vec_of :: "pb_Vector3 option \<Rightarrow> Vector3f" where
  "vec_of v = convert_vec (case v of None \<Rightarrow> pb_Vector3_default | Some m \<Rightarrow> m)"

definition quat_of :: "pb_Quaternion option \<Rightarrow> Quatf" where
  "quat_of q = convert_quat (case q of None \<Rightarrow> pb_Quaternion_default | Some m \<Rightarrow> m)"

text \<open>\<open>google.protobuf.BoolValue\<close> read with \<open>.value()\<close>.\<close>

definition bool_value :: "bool option \<Rightarrow> bool" where
  "bool_value b = (b = Some True)"

text \<open>
  \<open>nn::account::Uid\<close> is 16 bytes (\<open>char data[0x10]\<close>), compared with \<open>memcmp\<close>; \<open>packets::Uid\<close> carries
  any number of bytes. The conversion from a message clears the 16 bytes and copies what fits.
\<close>

type_synonym uid = string

definition uid_size :: nat where
  "uid_size = 16"

definition EmptyId :: uid where
  "EmptyId = replicate uid_size nul"

definition uid_ok :: "uid \<Rightarrow> bool" where
  "uid_ok u \<longleftrightarrow> length u = uid_size"

definition convert_uid_to_pb :: "uid \<Rightarrow> string" where
  "convert_uid_to_pb value = take uid_size value"

definition convert_uid :: "string \<Rightarrow> uid" where
  "convert_uid value =
     (let n = min (length value) uid_size in take n value @ drop n EmptyId)"

lemma length_EmptyId [simp]: "length EmptyId = uid_size"
  by (simp add: EmptyId_def)

lemma uid_ok_convert [simp]: "uid_ok (convert_uid b)"
  by (simp add: uid_ok_def convert_uid_def Let_def)

lemma uid_ok_EmptyId [simp]: "uid_ok EmptyId"
  by (simp add: uid_ok_def)

section \<open>System packets\<close>

record CaptureInf =
  hack_name :: string

record ChangeStage =
  change_stage :: string
  change_id :: string
  cs_scenario_num :: s32
  sub_scenario_type :: s32

record CostumeInf =
  body_model :: string
  cap_model :: string

record GameInf =
  gi_is_2d :: "bool option"
  gi_scenario_num :: s32
  gi_stage_name :: string

record HackCapInf =
  cap_pos :: "pb_Vector3 option"
  cap_quat :: "pb_Quaternion option"
  is_cap_visible :: "bool option"
  cap_anim :: string

record Init =
  max_players :: u32

text \<open>Enumerations of proto3 are open: a field holds any 32-bit value.\<close>

type_synonym ConnectionTypes = s32

record PlayerConnect =
  con_type :: ConnectionTypes
  max_player_count :: u32
  client_name :: string

record PlayerInf =
  player_pos :: "pb_Vector3 option"
  player_rot :: "pb_Quaternion option"
  anim_blend_weights :: "f32 list"
  act_name :: s32
  sub_act_name :: s32

record ServerCommand =
  srv_cmd :: string

record ShineCollect =
  shine_id :: s32
  is_grand :: "bool option"

record TagInf =
  update_type :: u32
  is_it :: "bool option"
  ti_seconds :: u32
  ti_minutes :: u32

text \<open>The values of \<open>TagUpdateType\<close>: the enumeration declares 0 and 1, the client uses them as flags.\<close>

definition TagUpdate_TIME :: u32 where
  "TagUpdate_TIME = 0"

definition TagUpdate_STATE :: u32 where
  "TagUpdate_STATE = 1"

text \<open>\<open>PlayerDC\<close> has no fields.\<close>

datatype SystemPacket =
    Capture_inf CaptureInf
  | Change_stage ChangeStage
  | Costume_inf CostumeInf
  | Game_inf GameInf
  | Hack_cap_inf HackCapInf
  | Sys_init Init
  | Player_connect PlayerConnect
  | Player_dc
  | Player_inf PlayerInf
  | Server_command ServerCommand
  | Shine_collect ShineCollect
  | Tag_inf TagInf

section \<open>Capture the flag packets\<close>

type_synonym FlagTeam = s32

definition INVALID :: FlagTeam where
  "INVALID = 0"

definition RED :: FlagTeam where
  "RED = 1"

definition BLUE :: FlagTeam where
  "BLUE = 2"

definition FlagTeam_COUNT :: FlagTeam where
  "FlagTeam_COUNT = 3"

lemma FlagTeam_distinct [simp]:
  "INVALID \<noteq> RED" "RED \<noteq> INVALID" "INVALID \<noteq> BLUE" "BLUE \<noteq> INVALID" "RED \<noteq> BLUE" "BLUE \<noteq> RED"
  by (simp_all add: INVALID_def RED_def BLUE_def)

record GameState =
  gs_seconds :: u32
  gs_minutes :: u32
  reset_game :: "bool option"

record PlayerTeamAssignment =
  team :: FlagTeam
  should_hold_team_flag :: "bool option"

record Win =
  winning_team :: FlagTeam

record FlagHoldState =
  is_held :: "bool option"
  fh_flag_team :: FlagTeam

record FlagDroppedPosition =
  fd_flag_team :: FlagTeam
  fd_pos :: "pb_Vector3 option"
  fd_rot :: "pb_Quaternion option"
  fd_scenario_num :: s32
  fd_stage_name :: string

datatype CTFPacket =
    Game_state GameState
  | Player_team_assignment PlayerTeamAssignment
  | Ctf_win Win
  | Flag_hold_state FlagHoldState
  | Flag_dropped_position FlagDroppedPosition

section \<open>Packets\<close>

text \<open>
  The \<open>oneof\<close> of a packet, and the \<open>oneof\<close> inside it, may be unset. The metadata may be absent, and
  so may the user id in it.
\<close>

datatype packet_body =
    System_packet "SystemPacket option"
  | Ctf_packet "CTFPacket option"

record PacketMetadata =
  user_id :: "string option"

record Packet =
  metadata :: "PacketMetadata option"
  body :: "packet_body option"

text \<open>\<open>packets::convert(packet.metadata().user_id())\<close>.\<close>

definition packet_uid :: "Packet \<Rightarrow> uid" where
  "packet_uid p =
     convert_uid (case metadata p of None \<Rightarrow> [] | Some m \<Rightarrow>
                    (case user_id m of None \<Rightarrow> [] | Some b \<Rightarrow> b))"

text \<open>A default-constructed packet, and a packet the client builds for its own user.\<close>

definition Packet_empty :: Packet where
  "Packet_empty = \<lparr>metadata = None, body = None\<rparr>"

definition set_user :: "uid \<Rightarrow> Packet \<Rightarrow> Packet" where
  "set_user u p = p\<lparr>metadata := Some \<lparr>user_id = Some (convert_uid_to_pb u)\<rparr>\<rparr>"

definition system_packet_of :: "uid \<Rightarrow> SystemPacket \<Rightarrow> Packet" where
  "system_packet_of u m = set_user u (Packet_empty\<lparr>body := Some (System_packet (Some m))\<rparr>)"

definition ctf_packet_of :: "uid \<Rightarrow> CTFPacket \<Rightarrow> Packet" where
  "ctf_packet_of u m = set_user u (Packet_empty\<lparr>body := Some (Ctf_packet (Some m))\<rparr>)"

lemma packet_uid_ok [simp]: "uid_ok (packet_uid p)"
  by (simp add: packet_uid_def)

lemma uid_roundtrip: "uid_ok u \<Longrightarrow> convert_uid (convert_uid_to_pb u) = u"
  by (simp add: uid_ok_def convert_uid_def convert_uid_to_pb_def Let_def)

lemma packet_uid_set_user [simp]: "uid_ok u \<Longrightarrow> packet_uid (set_user u p) = u"
  by (simp add: packet_uid_def set_user_def uid_roundtrip)

lemma packet_uid_system [simp]: "uid_ok u \<Longrightarrow> packet_uid (system_packet_of u m) = u"
  by (simp add: system_packet_of_def)

lemma packet_uid_ctf [simp]: "uid_ok u \<Longrightarrow> packet_uid (ctf_packet_of u m) = u"
  by (simp add: ctf_packet_of_def)

end
