(* ===== verification/Puppet_Table.thy ===== *)
theory Puppet_Table
  imports Packets Player_Anims
begin

text \<open>
  The table of the other players: \<open>PuppetInfo\<close> (\<open>puppets/PuppetInfo.h\<close>), the part of the client's
  state that holds it (\<open>server/Client.hpp\<close>: \<open>mPuppetInfoArr\<close>, \<open>mConnectCount\<close>, \<open>maxPuppets\<close>) and the
  packet handlers of \<open>server/Client.cpp\<close> that update it. A slot is named by its index. A handler
  returns the new state or the fault its code runs into: a \<open>strcpy\<close> past a buffer, or a read past
  the 32 slots when the server announced more players.
\<close>

section \<open>State\<close>

record PuppetInfo =
  puppetName :: string
  isConnected :: bool
  playerID :: uid
  playerPos :: Vector3f
  playerRot :: Quatf
  scenarioNo :: u8
  stageName :: string
  isInSameStage :: bool
  costumeBody :: string
  costumeHead :: string
  curHack :: string
  isCaptured :: bool
  isStartCapture :: bool
  curAnim :: s16
  curSubAnim :: s16
  curAnimStr :: string
  curSubAnimStr :: string
  blendWeights :: "f32 list"
  animRate :: f32
  is2D :: bool
  capPos :: Vector3f
  capRot :: Quatf
  capAnim :: string
  isCapThrow :: bool
  isHoldThrow :: bool
  isIt :: bool
  seconds :: u8
  minutes :: u16
  ctfTeam :: FlagTeam

text \<open>The sizes of the character arrays of the record.\<close>

definition puppetName_size :: nat where "puppetName_size = 0x10"
definition stageName_size :: nat where "stageName_size = 0x40"
definition costume_size :: nat where "costume_size = 0x20"
definition curHack_size :: nat where "curHack_size = 0x40"
definition PACKBUFSIZE :: nat where "PACKBUFSIZE = 0x30"

definition MAXPUPINDEX :: nat where "MAXPUPINDEX = 32"

lemmas buffer_sizes =
  puppetName_size_def stageName_size_def costume_size_def curHack_size_def PACKBUFSIZE_def

definition PuppetInfo_new :: PuppetInfo where
  "PuppetInfo_new =
     \<lparr>puppetName = [], isConnected = False, playerID = EmptyId, playerPos = Vector3f_zero,
      playerRot = Quatf_zero, scenarioNo = -1, stageName = [], isInSameStage = False,
      costumeBody = [], costumeHead = [], curHack = [], isCaptured = False, isStartCapture = False,
      curAnim = 0, curSubAnim = 0, curAnimStr = [], curSubAnimStr = [],
      blendWeights = replicate 6 (Fin 0), animRate = Fin 0, is2D = False,
      capPos = Vector3f_zero, capRot = Quatf_zero, capAnim = [], isCapThrow = False,
      isHoldThrow = False, isIt = False, seconds = 0, minutes = 0, ctfTeam = INVALID\<rparr>"

record puppet_table =
  mPuppetInfoArr :: "PuppetInfo list"
  mConnectCount :: s32
  maxPuppets :: s32

text \<open>\<open>sprintf("Puppet%zu", i)\<close> for an index below 100.\<close>

definition digit :: "nat \<Rightarrow> char" where
  "digit n = char_of (48 + n mod 10)"

definition puppet_default_name :: "nat \<Rightarrow> string" where
  "puppet_default_name i = ''Puppet'' @ (if i < 10 then [digit i] else [digit (i div 10), digit i])"

definition puppet_table_init :: puppet_table where
  "puppet_table_init =
     \<lparr>mPuppetInfoArr =
        map (\<lambda>i. PuppetInfo_new\<lparr>puppetName := puppet_default_name i\<rparr>) [0..<MAXPUPINDEX],
      mConnectCount = 0, maxPuppets = 9\<rparr>"

section \<open>Finding a slot\<close>

text \<open>
  The loop bound is \<open>getMaxPlayerCount() - 1\<close>, an \<open>int\<close> that the comparison with the \<open>size_t\<close>
  index converts to 64 bits: a negative bound is a huge one. Reading past the array is a fault.
\<close>

definition find_bound :: "puppet_table \<Rightarrow> nat" where
  "find_bound s = unat (scast (maxPuppets s + 1 - 1) :: u64)"

fun findPuppetInfo_loop ::
  "uid \<Rightarrow> bool \<Rightarrow> nat \<Rightarrow> nat \<Rightarrow> PuppetInfo list \<Rightarrow> nat option \<Rightarrow> nat option res" where
  "findPuppetInfo_loop who isFindAvailable n i [] firstAvailable =
     (if i < n then Inl OutOfBounds else Inr firstAvailable)"
| "findPuppetInfo_loop who isFindAvailable n i (curInfo # rest) firstAvailable =
     (if i < n
      then if playerID curInfo = who then Inr (Some i)
           else findPuppetInfo_loop who isFindAvailable n (Suc i) rest
                  (if isFindAvailable \<and> firstAvailable = None \<and> \<not> isConnected curInfo
                   then Some i else firstAvailable)
      else Inr firstAvailable)"

definition findPuppetInfo :: "uid \<Rightarrow> bool \<Rightarrow> puppet_table \<Rightarrow> nat option res" where
  "findPuppetInfo who isFindAvailable s =
     findPuppetInfo_loop who isFindAvailable (find_bound s) 0 (mPuppetInfoArr s) None"

definition update_info :: "nat \<Rightarrow> (PuppetInfo \<Rightarrow> PuppetInfo) \<Rightarrow> puppet_table \<Rightarrow> puppet_table" where
  "update_info i f s = s\<lparr>mPuppetInfoArr := (mPuppetInfoArr s)[i := f (mPuppetInfoArr s ! i)]\<rparr>"

text \<open>
  The shape of every handler: find the sender's slot, do nothing without one, else update it.
\<close>

definition with_info ::
  "uid \<Rightarrow> (PuppetInfo \<Rightarrow> PuppetInfo res) \<Rightarrow> puppet_table \<Rightarrow> puppet_table res" where
  "with_info who f s =
     rbind (findPuppetInfo who False s) (\<lambda>r.
       case r of
         None \<Rightarrow> Inr s
       | Some i \<Rightarrow> rbind (f (mPuppetInfoArr s ! i)) (\<lambda>p. Inr (update_info i (\<lambda>_. p) s)))"

section \<open>Handlers\<close>

definition rot_accepted :: "Quatf \<Rightarrow> bool" where
  "rot_accepted r \<longleftrightarrow>
     (f32_lt (Fin 0) (f32_abs (q_x r)) \<or> f32_lt (Fin 0) (f32_abs (q_y r)) \<or>
      f32_lt (Fin 0) (f32_abs (q_z r)) \<or> f32_lt (Fin 0) (f32_abs (q_w r))) \<and>
     (f32_le (f32_abs (q_x r)) (Fin 1) \<or> f32_le (f32_abs (q_y r)) (Fin 1) \<or>
      f32_le (f32_abs (q_z r)) (Fin 1) \<or> f32_le (f32_abs (q_w r)) (Fin 1))"

text \<open>The first six weights of the packet replace the stored ones where they are in \<open>[0, 1]\<close>.\<close>

fun copy_weights :: "f32 list \<Rightarrow> f32 list \<Rightarrow> f32 list" where
  "copy_weights (old # olds) (new # news) =
     (if f32_le (Fin 0) new \<and> f32_le new (Fin 1) then new else old) # copy_weights olds news"
| "copy_weights olds _ = olds"

text \<open>\<open>packets::convert(int32_t)\<close> narrows an action number to the \<open>s16\<close> enumeration.\<close>

definition convert_anim :: "s32 \<Rightarrow> s16" where
  "convert_anim v = ucast v"

definition set_playerInf :: "PlayerInf \<Rightarrow> PuppetInfo \<Rightarrow> PuppetInfo res" where
  "set_playerInf packet curInfo =
     (let curInfo = (if \<not> isConnected curInfo then curInfo\<lparr>isConnected := True\<rparr> else curInfo);
          curInfo = curInfo\<lparr>playerPos := vec_of (player_pos packet)\<rparr>;
          rot = quat_of (player_rot packet);
          curInfo = (if rot_accepted rot then curInfo\<lparr>playerRot := rot\<rparr> else curInfo)
      in rbind (if convert_anim (act_name packet) \<noteq> anim_Unknown
                then strcpy PACKBUFSIZE (anim_FindStr (convert_anim (act_name packet)))
                else strcpy PACKBUFSIZE ''Wait'') (\<lambda>anim.
         rbind (if convert_anim (sub_act_name packet) \<noteq> anim_Unknown
                then strcpy PACKBUFSIZE (anim_FindStr (convert_anim (sub_act_name packet)))
                else strcpy PACKBUFSIZE '''') (\<lambda>subAnim.
         let curInfo = curInfo\<lparr>curAnimStr := anim, curSubAnimStr := subAnim,
                               curAnim := convert_anim (act_name packet),
                               curSubAnim := convert_anim (sub_act_name packet),
                               blendWeights := copy_weights (blendWeights curInfo)
                                                 (anim_blend_weights packet)\<rparr>
         in Inr (if \<not> isCapThrow curInfo
                 then curInfo\<lparr>capPos := vec_of (player_pos packet)\<rparr> else curInfo))))"

definition updatePlayerInfo :: "uid \<Rightarrow> PlayerInf \<Rightarrow> puppet_table \<Rightarrow> puppet_table res" where
  "updatePlayerInfo who packet = with_info who (set_playerInf packet)"

definition set_hackCapInf :: "HackCapInf \<Rightarrow> PuppetInfo \<Rightarrow> PuppetInfo res" where
  "set_hackCapInf packet curInfo =
     rbind (strcpy PACKBUFSIZE (cap_anim packet)) (\<lambda>anim.
       Inr (curInfo\<lparr>capPos := vec_of (cap_pos packet), capRot := quat_of (cap_quat packet),
                    isCapThrow := bool_value (is_cap_visible packet), capAnim := anim\<rparr>))"

definition updateHackCapInfo :: "uid \<Rightarrow> HackCapInf \<Rightarrow> puppet_table \<Rightarrow> puppet_table res" where
  "updateHackCapInfo who packet = with_info who (set_hackCapInf packet)"

definition set_captureInf :: "CaptureInf \<Rightarrow> PuppetInfo \<Rightarrow> PuppetInfo res" where
  "set_captureInf packet curInfo =
     (let curInfo = curInfo\<lparr>isCaptured := length (hack_name packet) > 0\<rparr>
      in if isCaptured curInfo
         then rbind (strcpy curHack_size (hack_name packet)) (\<lambda>h. Inr (curInfo\<lparr>curHack := h\<rparr>))
         else Inr curInfo)"

definition updateCaptureInfo :: "uid \<Rightarrow> CaptureInf \<Rightarrow> puppet_table \<Rightarrow> puppet_table res" where
  "updateCaptureInfo who packet = with_info who (set_captureInf packet)"

definition set_costumeInf :: "CostumeInf \<Rightarrow> PuppetInfo \<Rightarrow> PuppetInfo res" where
  "set_costumeInf packet curInfo =
     rbind (strcpy costume_size (body_model packet)) (\<lambda>b.
     rbind (strcpy costume_size (cap_model packet)) (\<lambda>c.
       Inr (curInfo\<lparr>costumeBody := b, costumeHead := c\<rparr>)))"

definition updateCostumeInfo :: "uid \<Rightarrow> CostumeInf \<Rightarrow> puppet_table \<Rightarrow> puppet_table res" where
  "updateCostumeInfo who packet = with_info who (set_costumeInf packet)"

definition updatePlayerConnect :: "uid \<Rightarrow> PlayerConnect \<Rightarrow> puppet_table \<Rightarrow> puppet_table res" where
  "updatePlayerConnect who packet s =
     rbind (findPuppetInfo who True s) (\<lambda>r.
       case r of
         None \<Rightarrow> Inr s
       | Some i \<Rightarrow>
           if isConnected (mPuppetInfoArr s ! i) then Inr s
           else rbind (strcpy puppetName_size (client_name packet)) (\<lambda>n.
             let s = update_info i (\<lambda>p. p\<lparr>playerID := who, isConnected := True, puppetName := n\<rparr>) s
             in Inr (s\<lparr>mConnectCount := mConnectCount s + 1\<rparr>)))"

definition set_gameInf :: "GameInf \<Rightarrow> PuppetInfo \<Rightarrow> PuppetInfo res" where
  "set_gameInf packet curInfo =
     (if isConnected curInfo
      then let curInfo = curInfo\<lparr>scenarioNo := ucast (gi_scenario_num packet)\<rparr>
           in rbind (if c_str (gi_stage_name packet) \<noteq> [] \<and> length (c_str (gi_stage_name packet)) > 3
                     then strcpy stageName_size (gi_stage_name packet)
                     else Inr (stageName curInfo)) (\<lambda>st.
              Inr (curInfo\<lparr>stageName := st, is2D := bool_value (gi_is_2d packet)\<rparr>))
      else Inr curInfo)"

definition updateGameInfo :: "uid \<Rightarrow> GameInf \<Rightarrow> puppet_table \<Rightarrow> puppet_table res" where
  "updateGameInfo who packet = with_info who (set_gameInf packet)"

text \<open>\<open>updateTagInfo\<close> for a packet of another player (the own player's case is in the read loop).\<close>

definition set_tagInf :: "TagInf \<Rightarrow> PuppetInfo \<Rightarrow> PuppetInfo res" where
  "set_tagInf packet curInfo =
     Inr (curInfo\<lparr>isIt := bool_value (is_it packet), seconds := ucast (ti_seconds packet),
                  minutes := ucast (ti_minutes packet)\<rparr>)"

definition updateTagInfo_puppet :: "uid \<Rightarrow> TagInf \<Rightarrow> puppet_table \<Rightarrow> puppet_table res" where
  "updateTagInfo_puppet who packet = with_info who (set_tagInf packet)"

text \<open>\<open>updateCTFPlayerTeamAssignment\<close> for a packet of another player.\<close>

definition set_ctfTeam :: "PlayerTeamAssignment \<Rightarrow> PuppetInfo \<Rightarrow> PuppetInfo res" where
  "set_ctfTeam packet curInfo =
     Inr (curInfo\<lparr>ctfTeam := team packet\<rparr>)"

definition updateCTFTeam_puppet :: "uid \<Rightarrow> PlayerTeamAssignment \<Rightarrow> puppet_table \<Rightarrow> puppet_table res" where
  "updateCTFTeam_puppet who packet = with_info who (set_ctfTeam packet)"

definition disconnectPlayer :: "uid \<Rightarrow> puppet_table \<Rightarrow> puppet_table res" where
  "disconnectPlayer who s =
     rbind (findPuppetInfo who False s) (\<lambda>r.
       case r of
         None \<Rightarrow> Inr s
       | Some i \<Rightarrow>
           if \<not> isConnected (mPuppetInfoArr s ! i) then Inr s
           else let s = update_info i (\<lambda>p. p\<lparr>isConnected := False, scenarioNo := -1,
                                             stageName := [], isInSameStage := False\<rparr>) s
                in Inr (s\<lparr>mConnectCount := mConnectCount s - 1\<rparr>))"

text \<open>The init packet: \<open>maxPuppets = initPacket.max_players() - 1\<close>, computed in 32 bits.\<close>

definition updateMaxPuppets :: "Init \<Rightarrow> puppet_table \<Rightarrow> puppet_table" where
  "updateMaxPuppets packet s = s\<lparr>maxPuppets := max_players packet - 1\<rparr>"

text \<open>\<open>getPuppetInfo\<close> indexes the array without a check (its null test never fires inside it).\<close>

definition getPuppetInfo :: "s32 \<Rightarrow> puppet_table \<Rightarrow> PuppetInfo res" where
  "getPuppetInfo idx s =
     (if 0 \<le> sint idx \<and> nat (sint idx) < length (mPuppetInfoArr s)
      then Inr (mPuppetInfoArr s ! nat (sint idx)) else Inl OutOfBounds)"

definition isPlayerConnected :: "s32 \<Rightarrow> puppet_table \<Rightarrow> bool res" where
  "isPlayerConnected index s = rbind (getPuppetInfo index s) (\<lambda>p. Inr (isConnected p))"

text \<open>The messages that reach the table, as the read loop dispatches them.\<close>

definition puppet_step :: "uid \<Rightarrow> SystemPacket \<Rightarrow> puppet_table \<Rightarrow> puppet_table res" where
  "puppet_step who m s =
     (case m of
        Player_inf p \<Rightarrow> updatePlayerInfo who p s
      | Game_inf p \<Rightarrow> updateGameInfo who p s
      | Hack_cap_inf p \<Rightarrow> updateHackCapInfo who p s
      | Capture_inf p \<Rightarrow> updateCaptureInfo who p s
      | Player_connect p \<Rightarrow> updatePlayerConnect who p s
      | Costume_inf p \<Rightarrow> updateCostumeInfo who p s
      | Player_dc \<Rightarrow> disconnectPlayer who s
      | Tag_inf p \<Rightarrow> updateTagInfo_puppet who p s
      | Sys_init p \<Rightarrow> Inr (updateMaxPuppets p s)
      | _ \<Rightarrow> Inr s)"

lemma getPuppetInfo_nat:
  assumes "k < length (mPuppetInfoArr tab)" and "k < 2 ^ 31"
  shows "getPuppetInfo (of_nat k) tab = Inr (mPuppetInfoArr tab ! k)"
proof -
  have u: "unat (of_nat k :: s32) = k"
    using assms(2) by (simp add: unsigned_of_nat take_bit_nat_eq_self)
  then have "sint (of_nat k :: s32) = int k"
    using assms(2) sint_small32 [of "of_nat k"] by simp
  then show ?thesis using assms(1) by (simp add: getPuppetInfo_def)
qed

section \<open>The slot search\<close>

lemma plus_Suc_fun: "(+) (Suc i) = (\<lambda>x. Suc (i + x))"
  by auto

lemma plus_zero_fun: "(+) (0::nat) = (\<lambda>x. x)"
  by auto

lemma findPuppetInfo_loop_eq:
  "findPuppetInfo_loop who av n i xs fa =
    (case first_index (\<lambda>p. playerID p = who) (take (n - i) xs) of
       Some k \<Rightarrow> Inr (Some (i + k))
     | None \<Rightarrow>
         if length xs < n - i then Inl OutOfBounds
         else Inr (if fa \<noteq> None \<or> \<not> av then fa
                   else map_option ((+) i) (first_index (\<lambda>p. \<not> isConnected p) (take (n - i) xs))))"
proof (induction xs arbitrary: i fa)
  case Nil
  then show ?case by auto
next
  case (Cons x xs)
  show ?case
  proof (cases "i < n")
    case True
    then obtain d where d: "n - i = Suc d" "n - Suc i = d" by (metis Suc_diff_Suc)
    show ?thesis using True d
      by (auto simp: Cons.IH option.map_comp comp_def plus_Suc_fun split: option.splits)
  next
    case False
    then show ?thesis by simp
  qed
qed

abbreviation slots :: "puppet_table \<Rightarrow> PuppetInfo list" where
  "slots s \<equiv> take (find_bound s) (mPuppetInfoArr s)"

lemma findPuppetInfo_eq:
  "findPuppetInfo who av s =
    (case first_index (\<lambda>p. playerID p = who) (slots s) of
       Some k \<Rightarrow> Inr (Some k)
     | None \<Rightarrow>
         if length (mPuppetInfoArr s) < find_bound s then Inl OutOfBounds
         else Inr (if av then first_index (\<lambda>p. \<not> isConnected p) (slots s) else None))"
  by (simp add: findPuppetInfo_def findPuppetInfo_loop_eq plus_zero_fun option.map_ident
      split: option.splits)

text \<open>With the bound inside the array, the search reads no slot past it.\<close>

definition bound_ok :: "puppet_table \<Rightarrow> bool" where
  "bound_ok s \<longleftrightarrow> find_bound s \<le> length (mPuppetInfoArr s)"

lemma slots_all:
  "bound_ok s \<Longrightarrow> (\<forall>p \<in> set (slots s). P p) \<longleftrightarrow> (\<forall>j < find_bound s. P (mPuppetInfoArr s ! j))"
  by (simp add: all_set_conv_all_nth bound_ok_def)

lemma findPuppetInfo_ok:
  "bound_ok s \<Longrightarrow> \<exists>r. findPuppetInfo who av s = Inr r"
  by (auto simp: findPuppetInfo_eq bound_ok_def split: option.splits)

text \<open>
  What the search gives: the first slot of the id, or, if a free one may be taken and no slot has the id, the
  first that is not connected.
\<close>

definition is_slot :: "uid \<Rightarrow> bool \<Rightarrow> puppet_table \<Rightarrow> nat \<Rightarrow> bool" where
  "is_slot who av s i \<longleftrightarrow> i < find_bound s \<and> i < length (mPuppetInfoArr s) \<and>
    (playerID (mPuppetInfoArr s ! i) = who \<and> (\<forall>j < i. playerID (mPuppetInfoArr s ! j) \<noteq> who) \<or>
     av \<and> bound_ok s \<and> \<not> isConnected (mPuppetInfoArr s ! i) \<and>
     (\<forall>j < find_bound s. playerID (mPuppetInfoArr s ! j) \<noteq> who) \<and>
     (\<forall>j < i. isConnected (mPuppetInfoArr s ! j)))"

lemma findPuppetInfo_Some_iff: "findPuppetInfo who av s = Inr (Some i) \<longleftrightarrow> is_slot who av s i"
proof (cases "first_index (\<lambda>p. playerID p = who) (slots s)")
  case None
  then have none: "playerID (mPuppetInfoArr s ! j) \<noteq> who"
    if "j < find_bound s" "j < length (mPuppetInfoArr s)" for j
  proof -
    from that have "mPuppetInfoArr s ! j \<in> set (slots s)" by (auto simp: in_set_conv_nth intro!: exI [of _ j])
    with None show ?thesis by (auto simp: first_index_None_iff)
  qed
  have "findPuppetInfo who av s = Inr (Some i) \<longleftrightarrow>
      bound_ok s \<and> av \<and> first_index (\<lambda>p. \<not> isConnected p) (slots s) = Some i"
    using None by (simp add: findPuppetInfo_eq bound_ok_def not_less [symmetric])
  also have "\<dots> \<longleftrightarrow> is_slot who av s i"
  proof -
    have "playerID (mPuppetInfoArr s ! i) \<noteq> who" if "i < find_bound s" "i < length (mPuppetInfoArr s)"
      using none that by blast
    moreover have "\<forall>j < find_bound s. playerID (mPuppetInfoArr s ! j) \<noteq> who" if "bound_ok s"
      using none that by (auto simp: bound_ok_def)
    ultimately show ?thesis by (auto simp: is_slot_def first_index_Some_iff)
  qed
  finally show ?thesis .
next
  case (Some k)
  then have k: "k < find_bound s" "k < length (mPuppetInfoArr s)" "playerID (mPuppetInfoArr s ! k) = who"
    "\<forall>j < k. playerID (mPuppetInfoArr s ! j) \<noteq> who" by (auto simp: first_index_Some_iff)
  have "findPuppetInfo who av s = Inr (Some i) \<longleftrightarrow> k = i" using Some by (simp add: findPuppetInfo_eq)
  also have "\<dots> \<longleftrightarrow> is_slot who av s i" using k by (auto simp: is_slot_def) (metis linorder_neqE_nat)
  finally show ?thesis .
qed

lemma findPuppetInfo_Some:
  assumes "findPuppetInfo who av s = Inr (Some i)"
  shows "i < find_bound s \<and> i < length (mPuppetInfoArr s) \<and>
    (playerID (mPuppetInfoArr s ! i) = who \<and> (\<forall>j < i. playerID (mPuppetInfoArr s ! j) \<noteq> who) \<or>
     av \<and> \<not> isConnected (mPuppetInfoArr s ! i) \<and>
     (\<forall>j < find_bound s. playerID (mPuppetInfoArr s ! j) \<noteq> who) \<and>
     (\<forall>j < i. isConnected (mPuppetInfoArr s ! j)))"
  using assms unfolding findPuppetInfo_Some_iff is_slot_def by blast

text \<open>The search leaves the array exactly if its bound is past the end and no slot has the id.\<close>

lemma findPuppetInfo_fault:
  "findPuppetInfo who av s = Inl e \<longleftrightarrow> e = OutOfBounds \<and> length (mPuppetInfoArr s) < find_bound s \<and>
     (\<forall>p \<in> set (mPuppetInfoArr s). playerID p \<noteq> who)"
proof (cases "length (mPuppetInfoArr s) < find_bound s")
  case True
  then have "slots s = mPuppetInfoArr s" by simp
  with True show ?thesis
    by (auto simp: findPuppetInfo_eq first_index_None_iff first_index_Some_iff split: option.splits)
next
  case False
  then show ?thesis by (simp add: findPuppetInfo_eq split: option.splits)
qed

lemma findPuppetInfo_None:
  assumes "bound_ok s" and "findPuppetInfo who av s = Inr None"
  shows "(\<forall>j < find_bound s. playerID (mPuppetInfoArr s ! j) \<noteq> who) \<and>
    (av \<longrightarrow> (\<forall>j < find_bound s. isConnected (mPuppetInfoArr s ! j)))"
  using assms
  by (simp add: findPuppetInfo_eq first_index_None_iff slots_all split: option.splits if_splits)

lemma findPuppetInfo_match:
  assumes "bound_ok s" and "i < find_bound s" and "playerID (mPuppetInfoArr s ! i) = who"
    and "\<forall>j < i. playerID (mPuppetInfoArr s ! j) \<noteq> who"
  shows "findPuppetInfo who av s = Inr (Some i)"
proof -
  have "first_index (\<lambda>p. playerID p = who) (slots s) = Some i"
    using assms by (auto simp: first_index_Some_iff bound_ok_def)
  then show ?thesis by (simp add: findPuppetInfo_eq)
qed

section \<open>What a handler changes\<close>

text \<open>The strings of a slot fit their buffers, its id has 16 bytes and it has six weights.\<close>

definition info_ok :: "PuppetInfo \<Rightarrow> bool" where
  "info_ok p \<longleftrightarrow> uid_ok (playerID p) \<and> length (blendWeights p) = 6 \<and>
     length (puppetName p) < puppetName_size \<and> length (stageName p) < stageName_size \<and>
     length (costumeBody p) < costume_size \<and> length (costumeHead p) < costume_size \<and>
     length (curHack p) < curHack_size \<and> length (curAnimStr p) < PACKBUFSIZE \<and>
     length (curSubAnimStr p) < PACKBUFSIZE \<and> length (capAnim p) < PACKBUFSIZE"

lemma length_copy_weights [simp]: "length (copy_weights olds news) = length olds"
  by (induction olds news rule: copy_weights.induct) auto

lemma strcpy_anim [simp]: "strcpy PACKBUFSIZE (anim_FindStr t) = Inr (c_str (anim_FindStr t))"
  by (simp add: PACKBUFSIZE_def)

lemma length_c_str_anim: "length (c_str (anim_FindStr t)) < 48"
  using strcpy_FindStr [of t] unfolding strcpy_Inr_iff by simp

lemma strcpy_short [simp]: "strcpy PACKBUFSIZE ''Wait'' = Inr ''Wait''" "strcpy PACKBUFSIZE [] = Inr []"
  "strcpy 48 ''Wait'' = Inr ''Wait''" "strcpy 48 [] = Inr []"
  by (simp_all add: strcpy_def PACKBUFSIZE_def c_str_def nul_def)

text \<open>A player update never faults: the action names are short.\<close>

lemma set_playerInf_effect:
  "\<exists>q. set_playerInf m p = Inr q \<and> playerID q = playerID p \<and> isConnected q \<and> (info_ok p \<longrightarrow> info_ok q)"
  by (cases "isConnected p"; cases "isCapThrow p"; cases "convert_anim (act_name m) = anim_Unknown";
      cases "convert_anim (sub_act_name m) = anim_Unknown";
      simp add: set_playerInf_def Let_def info_ok_def length_c_str_anim buffer_sizes)

lemma with_info_Inr:
  assumes "with_info who f s = Inr s'"
  shows "s' = s \<or> (\<exists>i p. i < find_bound s \<and> i < length (mPuppetInfoArr s) \<and>
    playerID (mPuppetInfoArr s ! i) = who \<and> f (mPuppetInfoArr s ! i) = Inr p \<and>
    s' = s\<lparr>mPuppetInfoArr := (mPuppetInfoArr s)[i := p]\<rparr>)"
proof -
  obtain r where r: "findPuppetInfo who False s = Inr r" using assms by (auto simp: with_info_def rbind_eq_Inr)
  show ?thesis
  proof (cases r)
    case None
    with r assms show ?thesis by (simp add: with_info_def)
  next
    case (Some i)
    with r have "findPuppetInfo who False s = Inr (Some i)" by simp
    note f = findPuppetInfo_Some [OF this]
    from r Some assms obtain p where "f (mPuppetInfoArr s ! i) = Inr p"
      and "s' = update_info i (\<lambda>_. p) s"
      by (auto simp: with_info_def rbind_eq_Inr)
    with f show ?thesis by (auto simp: update_info_def)
  qed
qed

section \<open>The table invariant\<close>

text \<open>
  32 well-formed slots (\<open>slots_wf\<close>), no user id in two slots and none in a slot past the bound of the search
  (\<open>ids_ok\<close>), and this bound inside the array. Slots no player has used yet hold the empty id.
\<close>

definition slots_wf :: "puppet_table \<Rightarrow> bool" where
  "slots_wf s \<longleftrightarrow> length (mPuppetInfoArr s) = MAXPUPINDEX \<and> (\<forall>i < MAXPUPINDEX. info_ok (mPuppetInfoArr s ! i))"

definition ids_ok :: "puppet_table \<Rightarrow> bool" where
  "ids_ok s \<longleftrightarrow>
     (\<forall>i < MAXPUPINDEX. find_bound s \<le> i \<longrightarrow> playerID (mPuppetInfoArr s ! i) = EmptyId) \<and>
     (\<forall>i < MAXPUPINDEX. \<forall>j < MAXPUPINDEX.
        playerID (mPuppetInfoArr s ! i) = playerID (mPuppetInfoArr s ! j) \<longrightarrow>
        i = j \<or> playerID (mPuppetInfoArr s ! i) = EmptyId)"

definition table_inv :: "puppet_table \<Rightarrow> bool" where
  "table_inv s \<longleftrightarrow> length (mPuppetInfoArr s) = MAXPUPINDEX \<and> find_bound s \<le> MAXPUPINDEX \<and>
     (\<forall>i < MAXPUPINDEX. info_ok (mPuppetInfoArr s ! i)) \<and>
     (\<forall>i < MAXPUPINDEX. find_bound s \<le> i \<longrightarrow> playerID (mPuppetInfoArr s ! i) = EmptyId) \<and>
     (\<forall>i < MAXPUPINDEX. \<forall>j < MAXPUPINDEX.
        playerID (mPuppetInfoArr s ! i) = playerID (mPuppetInfoArr s ! j) \<longrightarrow>
        i = j \<or> playerID (mPuppetInfoArr s ! i) = EmptyId)"

lemma table_inv_iff: "table_inv s \<longleftrightarrow> slots_wf s \<and> ids_ok s \<and> find_bound s \<le> MAXPUPINDEX"
  by (auto simp: table_inv_def slots_wf_def ids_ok_def)

lemma table_inv_wf: "table_inv s \<Longrightarrow> slots_wf s"
  by (simp add: table_inv_iff)

definition connected_count :: "puppet_table \<Rightarrow> nat" where
  "connected_count s = length (filter isConnected (mPuppetInfoArr s))"

lemma table_inv_bound: "table_inv s \<Longrightarrow> bound_ok s"
  by (simp add: table_inv_def bound_ok_def)

lemma find_bound_max:
  assumes "0 < unat n" and "unat n \<le> Suc MAXPUPINDEX"
  shows "find_bound (s\<lparr>maxPuppets := n - 1\<rparr>) = unat n - 1"
proof -
  have le: "unat (n - 1) = unat n - 1" using assms(1) by (rule unat_pred32)
  then have "unat (n - 1) < 2 ^ 31" using assms(2) by (simp add: MAXPUPINDEX_def)
  then have "sint (n - 1) = int (unat n - 1)" unfolding le [symmetric] by (rule sint_small32)
  then show ?thesis by (simp add: find_bound_def unat_scast64)
qed

lemma find_bound_arr [simp]:
  "find_bound (s\<lparr>mPuppetInfoArr := a\<rparr>) = find_bound s"
  "find_bound (s\<lparr>mConnectCount := c\<rparr>) = find_bound s"
  by (simp_all add: find_bound_def)

lemma length_filter_upd:
  "i < length xs \<Longrightarrow> length (filter P (xs[i := y])) + (if P (xs ! i) then 1 else 0) =
     length (filter P xs) + (if P y then 1 else 0)"
proof (induction xs arbitrary: i)
  case Nil
  then show ?case by simp
next
  case (Cons x xs)
  then show ?case by (cases i) auto
qed

text \<open>
  Every message does one of three things to the table: nothing, setting the player count, or
  replacing the sender's slot, which the sender's id names or which is a free one that takes it.
\<close>

definition slot_effect :: "uid \<Rightarrow> puppet_table \<Rightarrow> nat \<Rightarrow> PuppetInfo \<Rightarrow> puppet_table \<Rightarrow> bool" where
  "slot_effect who s i q s' \<longleftrightarrow>
     i < find_bound s \<and> i < MAXPUPINDEX \<and> info_ok q \<and> playerID q = who \<and>
     (playerID (mPuppetInfoArr s ! i) = who \<or>
      \<not> isConnected (mPuppetInfoArr s ! i) \<and>
        (\<forall>j < find_bound s. playerID (mPuppetInfoArr s ! j) \<noteq> who)) \<and>
     mPuppetInfoArr s' = (mPuppetInfoArr s)[i := q] \<and> maxPuppets s' = maxPuppets s"

text \<open>A handler that only fills fields of its sender's slot.\<close>

definition fills :: "(PuppetInfo \<Rightarrow> PuppetInfo res) \<Rightarrow> bool" where
  "fills f \<longleftrightarrow> (\<forall>p q. f p = Inr q \<longrightarrow>
     playerID q = playerID p \<and> isConnected q = isConnected p \<and> (info_ok p \<longrightarrow> info_ok q))"

lemma strcpy_length: "strcpy n t = Inr u \<Longrightarrow> length u < n"
  by (simp add: strcpy_Inr_iff)

lemma fills_hackCapInf: "fills (set_hackCapInf m)"
  by (auto simp: fills_def set_hackCapInf_def rbind_eq_Inr info_ok_def strcpy_length)

lemma fills_captureInf: "fills (set_captureInf m)"
  by (auto simp: fills_def set_captureInf_def Let_def rbind_eq_Inr info_ok_def strcpy_length
      split: if_splits)

lemma fills_costumeInf: "fills (set_costumeInf m)"
  by (auto simp: fills_def set_costumeInf_def rbind_eq_Inr info_ok_def strcpy_length)

lemma fills_gameInf: "fills (set_gameInf m)"
  by (auto simp: fills_def set_gameInf_def Let_def rbind_eq_Inr info_ok_def strcpy_length
      split: if_splits)

lemma fills_tagInf: "fills (set_tagInf m)"
  by (auto simp: fills_def set_tagInf_def info_ok_def)

lemma fills_ctfTeam: "fills (set_ctfTeam m)"
  by (auto simp: fills_def set_ctfTeam_def info_ok_def)

lemma slots_wf_length: "slots_wf s \<Longrightarrow> length (mPuppetInfoArr s) = MAXPUPINDEX"
  by (simp add: slots_wf_def)

lemma slots_wf_info: "slots_wf s \<Longrightarrow> i < MAXPUPINDEX \<Longrightarrow> info_ok (mPuppetInfoArr s ! i)"
  by (simp add: slots_wf_def)

lemmas table_inv_length = slots_wf_length [OF table_inv_wf]

lemma with_info_effect:
  assumes "slots_wf s" and "with_info who f s = Inr s'"
    and "\<And>p q. f p = Inr q \<Longrightarrow> info_ok p \<Longrightarrow> info_ok q \<and> playerID q = playerID p"
  shows "s' = s \<or> (\<exists>i q. f (mPuppetInfoArr s ! i) = Inr q \<and> slot_effect who s i q s' \<and>
    mConnectCount s' = mConnectCount s)"
  using with_info_Inr [OF assms(2)]
proof (elim disjE exE conjE)
  fix i p
  assume i: "i < find_bound s" "i < length (mPuppetInfoArr s)"
    and who: "playerID (mPuppetInfoArr s ! i) = who" and p: "f (mPuppetInfoArr s ! i) = Inr p"
    and s': "s' = s\<lparr>mPuppetInfoArr := (mPuppetInfoArr s)[i := p]\<rparr>"
  have "info_ok (mPuppetInfoArr s ! i)"
    using slots_wf_info [OF assms(1)] i(2) by (simp add: slots_wf_length [OF assms(1)])
  from assms(3) [OF p this] have "slot_effect who s i p s'"
    using i who s' by (simp add: slot_effect_def slots_wf_length [OF assms(1)])
  with p s' show ?thesis by auto
qed simp

text \<open>The messages whose handler only fills fields of a known sender.\<close>

definition plain_message :: "SystemPacket \<Rightarrow> bool" where
  "plain_message m \<longleftrightarrow>
     (case m of Player_inf _ \<Rightarrow> False | Player_connect _ \<Rightarrow> False | Player_dc \<Rightarrow> False
      | Sys_init _ \<Rightarrow> False | _ \<Rightarrow> True)"

lemma fills_effect:
  assumes "slots_wf s" and "fills f" and "with_info who f s = Inr s'"
  shows "s' = s \<or> (\<exists>i q. slot_effect who s i q s' \<and> mConnectCount s' = mConnectCount s \<and>
    isConnected q = isConnected (mPuppetInfoArr s ! i))"
  using with_info_effect [OF assms(1,3)] assms(2) unfolding fills_def by metis

lemma plain_message_effect:
  assumes "slots_wf s" and "plain_message m" and "puppet_step who m s = Inr s'"
  shows "s' = s \<or> (\<exists>i q. slot_effect who s i q s' \<and> mConnectCount s' = mConnectCount s \<and>
    isConnected q = isConnected (mPuppetInfoArr s ! i))"
proof -
  note eff = fills_effect [OF assms(1)]
  show ?thesis
  proof (cases m)
    case (Capture_inf c)
    show ?thesis
      by (rule eff [OF fills_captureInf [of c]])
        (use assms(3) in \<open>simp add: Capture_inf puppet_step_def updateCaptureInfo_def\<close>)
  next
    case (Costume_inf c)
    show ?thesis
      by (rule eff [OF fills_costumeInf [of c]])
        (use assms(3) in \<open>simp add: Costume_inf puppet_step_def updateCostumeInfo_def\<close>)
  next
    case (Game_inf c)
    show ?thesis
      by (rule eff [OF fills_gameInf [of c]])
        (use assms(3) in \<open>simp add: Game_inf puppet_step_def updateGameInfo_def\<close>)
  next
    case (Hack_cap_inf c)
    show ?thesis
      by (rule eff [OF fills_hackCapInf [of c]])
        (use assms(3) in \<open>simp add: Hack_cap_inf puppet_step_def updateHackCapInfo_def\<close>)
  next
    case (Tag_inf c)
    show ?thesis
      by (rule eff [OF fills_tagInf [of c]])
        (use assms(3) in \<open>simp add: Tag_inf puppet_step_def updateTagInfo_puppet_def\<close>)
  qed (use assms(2,3) in \<open>simp_all add: plain_message_def puppet_step_def\<close>)
qed

text \<open>The three messages that change who is connected.\<close>

lemma playerInf_effect:
  assumes "slots_wf s" and "puppet_step who (Player_inf p) s = Inr s'"
  shows "s' = s \<or> (\<exists>i q. slot_effect who s i q s' \<and> mConnectCount s' = mConnectCount s \<and>
    isConnected q)"
proof -
  have "with_info who (set_playerInf p) s = Inr s'"
    using assms(2) by (simp add: puppet_step_def updatePlayerInfo_def)
  moreover have "info_ok b \<and> playerID b = playerID a \<and> isConnected b"
    if "set_playerInf p a = Inr b" "info_ok a" for a b
    using set_playerInf_effect [of p a] that by auto
  ultimately show ?thesis
    using with_info_effect [OF assms(1), of who "set_playerInf p" s'] slots_wf_info [OF assms(1)]
    by (metis slot_effect_def)
qed

lemma connect_effect:
  assumes "slots_wf s" and "uid_ok who" and "updatePlayerConnect who p s = Inr s'"
  shows "s' = s \<or> (\<exists>i q. slot_effect who s i q s' \<and> \<not> isConnected (mPuppetInfoArr s ! i) \<and>
    isConnected q \<and> puppetName q = c_str (client_name p) \<and> mConnectCount s' = mConnectCount s + 1)"
proof -
  obtain r where r: "findPuppetInfo who True s = Inr r"
    using assms(3) by (auto simp: updatePlayerConnect_def rbind_eq_Inr)
  show ?thesis
  proof (cases r)
    case None
    with r assms(3) show ?thesis by (simp add: updatePlayerConnect_def)
  next
    case (Some i)
    with r have find: "findPuppetInfo who True s = Inr (Some i)" by simp
    note i = findPuppetInfo_Some [OF find]
    have inf: "info_ok (mPuppetInfoArr s ! i)"
      using i slots_wf_info [OF assms(1)] by (simp add: slots_wf_length [OF assms(1)])
    show ?thesis
    proof (cases "isConnected (mPuppetInfoArr s ! i)")
      case True
      with find assms(3) show ?thesis by (simp add: updatePlayerConnect_def)
    next
      case False
      then obtain n where n: "strcpy puppetName_size (client_name p) = Inr n"
        and s': "s' = (update_info i (\<lambda>q. q\<lparr>playerID := who, isConnected := True, puppetName := n\<rparr>) s)
          \<lparr>mConnectCount := mConnectCount s + 1\<rparr>"
        using find assms(3)
        by (auto simp: updatePlayerConnect_def rbind_eq_Inr Let_def update_info_def)
      let ?q = "(mPuppetInfoArr s ! i)\<lparr>playerID := who, isConnected := True, puppetName := n\<rparr>"
      have "info_ok ?q" using inf assms(2) strcpy_length [OF n] by (simp add: info_ok_def)
      then have "slot_effect who s i ?q s'"
        using i False s' by (auto simp: slot_effect_def update_info_def slots_wf_length [OF assms(1)])
      then show ?thesis
        using False n s' by (intro disjI2 exI [of _ i] exI [of _ ?q]) (simp add: strcpy_Inr_iff)
    qed
  qed
qed

lemma disconnect_effect:
  assumes "slots_wf s" and "disconnectPlayer who s = Inr s'"
  shows "s' = s \<or> (\<exists>i q. slot_effect who s i q s' \<and> isConnected (mPuppetInfoArr s ! i) \<and>
    \<not> isConnected q \<and> stageName q = [] \<and> mConnectCount s' = mConnectCount s - 1)"
proof -
  obtain r where r: "findPuppetInfo who False s = Inr r"
    using assms(2) by (auto simp: disconnectPlayer_def rbind_eq_Inr)
  show ?thesis
  proof (cases r)
    case None
    with r assms(2) show ?thesis by (simp add: disconnectPlayer_def)
  next
    case (Some i)
    with r have find: "findPuppetInfo who False s = Inr (Some i)" by simp
    note i = findPuppetInfo_Some [OF find]
    have inf: "info_ok (mPuppetInfoArr s ! i)"
      using i slots_wf_info [OF assms(1)] by (simp add: slots_wf_length [OF assms(1)])
    let ?q = "(mPuppetInfoArr s ! i)\<lparr>isConnected := False, scenarioNo := -1, stageName := [],
      isInSameStage := False\<rparr>"
    show ?thesis
    proof (cases "isConnected (mPuppetInfoArr s ! i)")
      case True
      then have s': "s' = (update_info i (\<lambda>_. ?q) s)\<lparr>mConnectCount := mConnectCount s - 1\<rparr>"
        using find assms(2) by (simp add: disconnectPlayer_def Let_def update_info_def)
      have "info_ok ?q" using inf by (simp add: info_ok_def stageName_size_def)
      then have "slot_effect who s i ?q s'"
        using i s' by (auto simp: slot_effect_def update_info_def slots_wf_length [OF assms(1)])
      then show ?thesis using True s' by (intro disjI2 exI [of _ i] exI [of _ ?q]) simp
    next
      case False
      with find assms(2) show ?thesis by (simp add: disconnectPlayer_def)
    qed
  qed
qed

lemma puppet_step_effect:
  assumes "slots_wf s" and "uid_ok who" and "puppet_step who m s = Inr s'"
  shows "s' = s \<or> (\<exists>p. m = Sys_init p \<and> s' = updateMaxPuppets p s) \<or> (\<exists>i q. slot_effect who s i q s')"
proof (cases "plain_message m")
  case True
  from plain_message_effect [OF assms(1) this assms(3)] show ?thesis by blast
next
  case False
  show ?thesis
  proof (cases m)
    case (Player_connect p)
    with connect_effect [OF assms(1,2), of p s'] assms(3) show ?thesis
      by (auto simp: puppet_step_def)
  next
    case Player_dc
    with disconnect_effect [OF assms(1), of who s'] assms(3) show ?thesis
      by (auto simp: puppet_step_def)
  next
    case (Player_inf p)
    with playerInf_effect [OF assms(1), of who p s'] assms(3) show ?thesis by auto
  qed (use False assms(3) in \<open>simp_all add: plain_message_def puppet_step_def\<close>)
qed

section \<open>Properties of the table\<close>

lemma slot_effect_wf: "slots_wf s \<Longrightarrow> slot_effect who s i q s' \<Longrightarrow> slots_wf s'"
  by (auto simp: slots_wf_def slot_effect_def nth_list_update)

lemma slot_effect_ids:
  assumes wf: "slots_wf s" and ids: "ids_ok s" and eff: "slot_effect who s i q s'"
  shows "ids_ok s'"
proof -
  let ?a = "mPuppetInfoArr s"
  have b: "find_bound s' = find_bound s" using eff by (simp add: slot_effect_def find_bound_def)
  have a': "mPuppetInfoArr s' = ?a[i := q]" and i: "i < MAXPUPINDEX" "i < find_bound s"
    and q: "playerID q = who"
    and hit: "playerID (?a ! i) = who \<or> (\<forall>j < find_bound s. playerID (?a ! j) \<noteq> who)"
    using eff by (auto simp: slot_effect_def)
  have other: "j = i \<or> who = EmptyId" if "playerID (?a ! j) = who" "j < MAXPUPINDEX" for j
  proof (cases "j < find_bound s")
    case True
    with hit that ids i show ?thesis unfolding ids_ok_def by metis
  next
    case False
    with that ids show ?thesis unfolding ids_ok_def by (metis not_less)
  qed
  have uniq: "x = y \<or> playerID (?a[i := q] ! x) = EmptyId"
    if "x < MAXPUPINDEX" "y < MAXPUPINDEX" "playerID (?a[i := q] ! x) = playerID (?a[i := q] ! y)" for x y
  proof -
    consider "x = i" "y = i" | "x = i" "y \<noteq> i" | "x \<noteq> i" "y = i" | "x \<noteq> i" "y \<noteq> i" by blast
    then show ?thesis
    proof cases
      case 4
      then show ?thesis using that ids by (simp add: ids_ok_def)
    qed (use that q i other [of x] other [of y] in \<open>auto simp: slots_wf_length [OF wf]\<close>)
  qed
  have "playerID (?a[i := q] ! j) = EmptyId" if "j < MAXPUPINDEX" "find_bound s \<le> j" for j
    using that i ids by (simp add: ids_ok_def)
  then show ?thesis using uniq unfolding ids_ok_def b a' by simp
qed

lemma table_inv_init: "table_inv puppet_table_init"
proof -
  have "find_bound puppet_table_init = 9"
    unfolding find_bound_def puppet_table_init_def by simp
  moreover have "info_ok (PuppetInfo_new\<lparr>puppetName := puppet_default_name i\<rparr>)" for i
    by (simp add: info_ok_def PuppetInfo_new_def puppet_default_name_def buffer_sizes)
  ultimately show ?thesis
    by (simp add: table_inv_def puppet_table_init_def MAXPUPINDEX_def PuppetInfo_new_def)
qed

text \<open>The search bound an init packet sets; the first one in force is that of ten players.\<close>

definition announced :: "Init \<Rightarrow> nat" where
  "announced p = unat (scast (max_players p - 1 + 1 - 1) :: u64)"

lemma find_bound_announced [simp]: "find_bound (updateMaxPuppets p s) = announced p"
  by (simp add: find_bound_def updateMaxPuppets_def announced_def)

lemma find_bound_init: "find_bound puppet_table_init = 9"
  unfolding find_bound_def puppet_table_init_def by simp

text \<open>Runs: a sequence of messages with their senders, stopped by a fault.\<close>

fun puppet_run :: "(uid \<times> SystemPacket) list \<Rightarrow> puppet_table \<Rightarrow> puppet_table res" where
  "puppet_run [] s = Inr s"
| "puppet_run ((who, m) # ms) s = rbind (puppet_step who m s) (puppet_run ms)"

text \<open>The bounds the messages of a run leave behind, from \<open>b\<close> on, and whether they never shrink.\<close>

fun bound_after :: "SystemPacket \<Rightarrow> nat \<Rightarrow> nat" where
  "bound_after (Sys_init p) b = announced p"
| "bound_after _ b = b"

fun grows :: "nat \<Rightarrow> (uid \<times> SystemPacket) list \<Rightarrow> bool" where
  "grows b [] \<longleftrightarrow> True"
| "grows b ((who, m) # ms) \<longleftrightarrow> b \<le> bound_after m b \<and> grows (bound_after m b) ms"

definition senders_ok :: "(uid \<times> SystemPacket) list \<Rightarrow> bool" where
  "senders_ok ms \<longleftrightarrow> (\<forall>(who, m) \<in> set ms. uid_ok who)"

lemma step_wf:
  assumes "slots_wf s" and "uid_ok who" and "puppet_step who m s = Inr s'"
  shows "slots_wf s'"
  using puppet_step_effect [OF assms]
proof (elim disjE exE conjE)
  fix i q
  assume "slot_effect who s i q s'"
  then show ?thesis by (rule slot_effect_wf [OF assms(1)])
qed (use assms(1) in \<open>simp_all add: slots_wf_def updateMaxPuppets_def\<close>)

lemma step_bound:
  assumes "slots_wf s" and "uid_ok who" and "puppet_step who m s = Inr s'"
  shows "find_bound s' = bound_after m (find_bound s)"
proof (cases "\<exists>p. m = Sys_init p")
  case True
  then show ?thesis using assms(3) by (auto simp: puppet_step_def)
next
  case False
  then have "bound_after m (find_bound s) = find_bound s" by (cases m) auto
  with puppet_step_effect [OF assms] False show ?thesis by (auto simp: slot_effect_def find_bound_def)
qed

lemma step_ids:
  assumes "slots_wf s" and "ids_ok s" and "uid_ok who" and "puppet_step who m s = Inr s'"
    and "find_bound s \<le> bound_after m (find_bound s)"
  shows "ids_ok s'"
  using puppet_step_effect [OF assms(1,3,4)]
proof (elim disjE exE conjE)
  fix p
  assume "m = Sys_init p" and s': "s' = updateMaxPuppets p s"
  then have "find_bound s \<le> find_bound s'" using assms(5) by simp
  with assms(2) show ?thesis unfolding ids_ok_def by (auto simp: s' updateMaxPuppets_def)
next
  fix i q
  assume "slot_effect who s i q s'"
  then show ?thesis by (rule slot_effect_ids [OF assms(1,2)])
qed (use assms(2) in simp)

lemma puppet_run_inv:
  assumes "slots_wf s" and "senders_ok ms" and "puppet_run ms s = Inr s'"
  shows "slots_wf s' \<and> (ids_ok s \<and> grows (find_bound s) ms \<longrightarrow> ids_ok s')"
  using assms
proof (induction ms arbitrary: s)
  case (Cons a ms)
  obtain who m where a: "a = (who, m)" by (cases a)
  from Cons.prems(3) obtain t where t: "puppet_step who m s = Inr t" "puppet_run ms t = Inr s'"
    by (auto simp: a rbind_eq_Inr)
  have m: "uid_ok who" "senders_ok ms" using Cons.prems(2) by (auto simp: senders_ok_def a)
  note b = step_wf [OF Cons.prems(1) m(1) t(1)] step_bound [OF Cons.prems(1) m(1) t(1)]
  note ih = Cons.IH [OF b(1) m(2) t(2)]
  have "ids_ok s'" if "ids_ok s" "grows (find_bound s) (a # ms)"
  proof -
    have g: "find_bound s \<le> bound_after m (find_bound s)" "grows (find_bound t) ms" using that(2) b(2) by (simp_all add: a)
    have "ids_ok t" by (rule step_ids [OF Cons.prems(1) that(1) m(1) t(1) g(1)])
    with ih g(2) show ?thesis by simp
  qed
  with ih show ?case by simp
qed simp

text \<open>C1: From the client's initial table, whatever messages arrive from senders with ids of 16 bytes, init packets
  with any player count among them, the table keeps its 32 slots and every string of a slot fits its buffer,
  as long as no handler faults. As long as the announced search bound (one less than the count, a negative one
  being a huge one) never shrinks, no user id is in two slots either, and none is in a slot past the bound.\<close>

theorem puppet_run_table_inv:
  assumes "senders_ok ms" and "puppet_run ms puppet_table_init = Inr s"
  shows "slots_wf s \<and> (grows 9 ms \<longrightarrow> ids_ok s)"
  using puppet_run_inv [OF table_inv_wf [OF table_inv_init] assms] table_inv_init
  by (simp add: find_bound_init table_inv_iff)

theorem puppet_run_table_inv_witness:
  "case puppet_run [(replicate 16 (CHR ''a''), Player_connect
       \<lparr>con_type = 0, max_player_count = 10, client_name = ''Mario''\<rparr>),
       (replicate 16 (CHR ''a''), Sys_init \<lparr>max_players = 12\<rparr>)] puppet_table_init of
     Inl _ \<Rightarrow> False | Inr s \<Rightarrow> slots_wf s \<and> ids_ok s"
  (is "case puppet_run ?ms _ of Inl _ \<Rightarrow> False | Inr s \<Rightarrow> ?P s")
proof -
  have "case puppet_run ?ms puppet_table_init of Inl _ \<Rightarrow> False | Inr s \<Rightarrow> True" by code_simp
  moreover have "senders_ok ?ms" by (simp add: senders_ok_def uid_ok_def uid_size_def)
  moreover have "grows 9 ?ms" by (simp add: announced_def)
  ultimately show ?thesis
    using puppet_run_table_inv [of ?ms] by (simp split: sum.splits)
qed

text \<open>C3: Messages are isolated: whatever a player sends, no field of the slot of another connected
  player changes.\<close>

theorem puppet_step_isolation:
  assumes "table_inv s" and "uid_ok who" and "puppet_step who m s = Inr s'"
    and "i < MAXPUPINDEX" and "isConnected (mPuppetInfoArr s ! i)" and "playerID (mPuppetInfoArr s ! i) \<noteq> who"
  shows "mPuppetInfoArr s' ! i = mPuppetInfoArr s ! i"
  using puppet_step_effect [OF table_inv_wf [OF assms(1)] assms(2,3)]
proof (elim disjE exE conjE)
  fix k q
  assume eff: "slot_effect who s k q s'"
  then have "k \<noteq> i" using assms(5,6) by (auto simp: slot_effect_def)
  then show ?thesis using eff by (simp add: slot_effect_def)
qed (simp_all add: updateMaxPuppets_def)

section \<open>The number of connected players\<close>

definition count_ok :: "puppet_table \<Rightarrow> bool" where
  "count_ok s \<longleftrightarrow> mConnectCount s = of_nat (connected_count s)"

lemma connected_count_upd:
  assumes "i < length (mPuppetInfoArr s)" and "mPuppetInfoArr s' = (mPuppetInfoArr s)[i := q]"
  shows "of_nat (connected_count s') + (if isConnected (mPuppetInfoArr s ! i) then 1 else 0) =
    (of_nat (connected_count s) + (if isConnected q then 1 else 0) :: s32)"
proof -
  let ?a = "if isConnected (mPuppetInfoArr s ! i) then 1 else (0::nat)"
  let ?b = "if isConnected q then 1 else (0::nat)"
  have "connected_count s' + ?a = connected_count s + ?b"
    using length_filter_upd [OF assms(1), of isConnected q] assms(2) unfolding connected_count_def by simp
  then have "of_nat (connected_count s' + ?a) = (of_nat (connected_count s + ?b) :: s32)"
    by (rule arg_cong)
  then show ?thesis by (simp split: if_splits)
qed

lemma slot_effect_count:
  assumes "slots_wf s" and "slot_effect who s i q s'" and "count_ok s"
    and "mConnectCount s' = mConnectCount s + (if isConnected q then 1 else 0)
           - (if isConnected (mPuppetInfoArr s ! i) then 1 else 0)"
  shows "count_ok s'"
proof -
  have "i < length (mPuppetInfoArr s)" "mPuppetInfoArr s' = (mPuppetInfoArr s)[i := q]"
    using assms(2) by (simp_all add: slot_effect_def slots_wf_length [OF assms(1)])
  from connected_count_upd [OF this] assms(3,4) show ?thesis
    unfolding count_ok_def by (metis add_diff_cancel_right')
qed


text \<open>A player update of a known player who is not connected.\<close>

definition revives :: "uid \<Rightarrow> SystemPacket \<Rightarrow> puppet_table \<Rightarrow> bool" where
  "revives who m s \<longleftrightarrow>
     (case m of Player_inf _ \<Rightarrow>
        (case findPuppetInfo who False s of Inr (Some i) \<Rightarrow> \<not> isConnected (mPuppetInfoArr s ! i)
         | _ \<Rightarrow> False)
      | _ \<Rightarrow> False)"

lemma playerInf_count:
  assumes "table_inv s" and "count_ok s" and "\<not> revives who (Player_inf p) s"
    and "puppet_step who (Player_inf p) s = Inr s'"
  shows "count_ok s'"
proof -
  obtain r where r: "findPuppetInfo who False s = Inr r"
    using findPuppetInfo_ok [OF table_inv_bound [OF assms(1)]] by blast
  show ?thesis
  proof (cases r)
    case None
    with r assms(2,4) show ?thesis by (simp add: puppet_step_def updatePlayerInfo_def with_info_def)
  next
    case (Some i)
    with r assms(3) have c: "isConnected (mPuppetInfoArr s ! i)" by (simp add: revives_def)
    obtain q where q: "set_playerInf p (mPuppetInfoArr s ! i) = Inr q" "isConnected q"
      using set_playerInf_effect by blast
    have s': "s' = update_info i (\<lambda>_. q) s"
      using r Some q assms(4) by (simp add: puppet_step_def updatePlayerInfo_def with_info_def)
    have "i < length (mPuppetInfoArr s)"
      using findPuppetInfo_Some r Some by blast
    from connected_count_upd [OF this, of s' q] c q assms(2) show ?thesis
      by (simp add: s' count_ok_def update_info_def)
  qed
qed

text \<open>C9: \<open>mConnectCount\<close> stays the number of connected slots under every message except a player
  update of a known player who is not connected.\<close>

theorem connect_count_kept:
  assumes "table_inv s" and "uid_ok who" and "count_ok s" and "\<not> revives who m s"
    and "puppet_step who m s = Inr s'"
  shows "count_ok s'"
proof -
  note wf = table_inv_wf [OF assms(1)]
  show ?thesis
  proof (cases "plain_message m")
  case True
  from plain_message_effect [OF wf this assms(5)] assms(3) slot_effect_count [OF wf]
  show ?thesis by auto
next
  case False
  show ?thesis
  proof (cases m)
    case (Player_connect p)
    then have "updatePlayerConnect who p s = Inr s'" using assms(5) by (simp add: puppet_step_def)
    from connect_effect [OF wf assms(2) this] assms(3) slot_effect_count [OF wf]
    show ?thesis by auto
  next
    case Player_dc
    then have "disconnectPlayer who s = Inr s'" using assms(5) by (simp add: puppet_step_def)
    from disconnect_effect [OF wf this] assms(3) slot_effect_count [OF wf]
    show ?thesis by auto
  next
    case (Player_inf p)
    with playerInf_count [OF assms(1,3)] assms(4,5) show ?thesis by simp
  next
    case (Sys_init p)
    with assms(3,5) show ?thesis
      by (auto simp: puppet_step_def updateMaxPuppets_def count_ok_def connected_count_def)
  qed (use False in \<open>simp_all add: plain_message_def\<close>)
qed
qed

text \<open>The excepted update does break the count: it connects the slot without counting it, and the
  player's next disconnect then takes off one that was never added, so the count is one less than
  the number of connected slots.\<close>

theorem connect_count_drift:
  assumes "table_inv s" and "count_ok s" and "revives who (Player_inf p) s"
  shows "\<exists>t u. puppet_step who (Player_inf p) s = Inr t \<and> connected_count t = connected_count s + 1 \<and>
    mConnectCount t = mConnectCount s \<and>
    puppet_step who Player_dc t = Inr u \<and> connected_count u = connected_count s \<and>
    mConnectCount u = of_nat (connected_count u) - 1"
proof -
  obtain i where find: "findPuppetInfo who False s = Inr (Some i)"
    and nc: "\<not> isConnected (mPuppetInfoArr s ! i)"
    using assms(3) by (auto simp: revives_def split: sum.splits option.splits)
  note i = findPuppetInfo_Some [OF find]
  obtain q where q: "set_playerInf p (mPuppetInfoArr s ! i) = Inr q" "isConnected q"
    "playerID q = playerID (mPuppetInfoArr s ! i)"
    using set_playerInf_effect by blast
  let ?t = "update_info i (\<lambda>_. q) s"
  have t: "puppet_step who (Player_inf p) s = Inr ?t"
    using find q by (simp add: puppet_step_def updatePlayerInfo_def with_info_def)
  have ct: "connected_count ?t = connected_count s + 1"
    using length_filter_upd [of i "mPuppetInfoArr s" isConnected q] i nc q
    by (simp add: connected_count_def update_info_def)
  have b: "bound_ok ?t" and fb: "find_bound ?t = find_bound s"
    using table_inv_bound [OF assms(1)] by (simp_all add: bound_ok_def update_info_def)
  have "findPuppetInfo who False ?t = Inr (Some i)"
    by (rule findPuppetInfo_match [OF b]) (use i q fb in \<open>auto simp: update_info_def\<close>)
  then have u: "puppet_step who Player_dc ?t = Inr ((update_info i (\<lambda>p. p\<lparr>isConnected := False,
      scenarioNo := -1, stageName := [], isInSameStage := False\<rparr>) ?t)\<lparr>mConnectCount := mConnectCount s - 1\<rparr>)"
    (is "_ = Inr ?u")
    using i q by (simp add: puppet_step_def disconnectPlayer_def Let_def update_info_def)
  have cu: "connected_count ?u = connected_count s"
    using length_filter_upd [of i "mPuppetInfoArr ?t" isConnected "mPuppetInfoArr ?u ! i"] i q ct
    by (simp add: connected_count_def update_info_def)
  show ?thesis
    using t ct u cu assms(2) by (intro exI [of _ ?t] exI [of _ ?u]) (simp add: count_ok_def update_info_def)
qed

section \<open>Connecting and disconnecting\<close>

lemma connect_eq:
  assumes "bound_ok s" and "findPuppetInfo who True s = Inr (Some i)"
    and "\<not> isConnected (mPuppetInfoArr s ! i)"
    and "\<forall>j < i. playerID (mPuppetInfoArr s ! j) \<noteq> who"
    and "length (c_str (client_name p)) < puppetName_size"
  shows "\<exists>t. updatePlayerConnect who p s = Inr t \<and> findPuppetInfo who False t = Inr (Some i) \<and>
    mPuppetInfoArr t = (mPuppetInfoArr s)[i := (mPuppetInfoArr s ! i)\<lparr>playerID := who,
      isConnected := True, puppetName := c_str (client_name p)\<rparr>] \<and>
    mConnectCount t = mConnectCount s + 1 \<and> maxPuppets t = maxPuppets s"
proof -
  note i = findPuppetInfo_Some [OF assms(2)]
  let ?t = "(update_info i (\<lambda>q. q\<lparr>playerID := who, isConnected := True,
      puppetName := c_str (client_name p)\<rparr>) s)\<lparr>mConnectCount := mConnectCount s + 1\<rparr>"
  have "updatePlayerConnect who p s = Inr ?t"
    using assms(2,3,5) by (simp add: updatePlayerConnect_def Let_def update_info_def)
  moreover have "findPuppetInfo who False ?t = Inr (Some i)"
    by (rule findPuppetInfo_match)
      (use assms(1,4) i in \<open>auto simp: bound_ok_def update_info_def\<close>)
  ultimately show ?thesis by (intro exI [of _ ?t]) (simp add: update_info_def)
qed

lemma disconnect_eq:
  assumes "bound_ok s" and "findPuppetInfo who False s = Inr (Some i)"
    and "isConnected (mPuppetInfoArr s ! i)"
  shows "\<exists>u. disconnectPlayer who s = Inr u \<and> findPuppetInfo who True u = Inr (Some i) \<and>
    mPuppetInfoArr u = (mPuppetInfoArr s)[i := (mPuppetInfoArr s ! i)\<lparr>isConnected := False,
      scenarioNo := -1, stageName := [], isInSameStage := False\<rparr>] \<and>
    mConnectCount u = mConnectCount s - 1 \<and> maxPuppets u = maxPuppets s"
proof -
  note i = findPuppetInfo_Some [OF assms(2)]
  let ?u = "(update_info i (\<lambda>q. q\<lparr>isConnected := False, scenarioNo := -1, stageName := [],
      isInSameStage := False\<rparr>) s)\<lparr>mConnectCount := mConnectCount s - 1\<rparr>"
  have "disconnectPlayer who s = Inr ?u"
    using assms(2,3) by (simp add: disconnectPlayer_def Let_def update_info_def)
  moreover have "findPuppetInfo who True ?u = Inr (Some i)"
    by (rule findPuppetInfo_match)
      (use assms(1) i in \<open>auto simp: bound_ok_def update_info_def\<close>)
  ultimately show ?thesis by (intro exI [of _ ?u]) (simp add: update_info_def)
qed

lemma bound_ok_cong:
  "bound_ok s \<Longrightarrow> maxPuppets t = maxPuppets s \<Longrightarrow> length (mPuppetInfoArr t) = length (mPuppetInfoArr s) \<Longrightarrow>
   bound_ok t"
  by (simp add: bound_ok_def find_bound_def)

text \<open>C5: Connecting a new player with a short enough name takes the first free slot, the first that is not
  connected, and counts it; disconnecting frees the slot, clears its stage and takes the count back, but
  leaves the id in it, so that the player gets the same slot again when connecting next. No other slot
  and no other field changes.\<close>

theorem connect_disconnect_reconnect:
  assumes "bound_ok s" and "length (c_str (client_name p)) < puppetName_size"
    and new: "\<forall>j < find_bound s. playerID (mPuppetInfoArr s ! j) \<noteq> who"
    and "i < find_bound s" and "\<not> isConnected (mPuppetInfoArr s ! i)"
    and "\<forall>j < i. isConnected (mPuppetInfoArr s ! j)"
  shows "\<exists>t u v. updatePlayerConnect who p s = Inr t \<and>
    mPuppetInfoArr t = (mPuppetInfoArr s)[i := (mPuppetInfoArr s ! i)\<lparr>playerID := who,
      isConnected := True, puppetName := c_str (client_name p)\<rparr>] \<and>
    mConnectCount t = mConnectCount s + 1 \<and>
    disconnectPlayer who t = Inr u \<and>
    mPuppetInfoArr u = (mPuppetInfoArr t)[i := (mPuppetInfoArr t ! i)\<lparr>isConnected := False,
      scenarioNo := -1, stageName := [], isInSameStage := False\<rparr>] \<and>
    mConnectCount u = mConnectCount s \<and>
    updatePlayerConnect who p u = Inr v \<and>
    mPuppetInfoArr v = (mPuppetInfoArr u)[i := (mPuppetInfoArr u ! i)\<lparr>isConnected := True\<rparr>] \<and>
    mConnectCount v = mConnectCount s + 1"
proof -
  have i: "i < length (mPuppetInfoArr s)" using assms(1,4) by (simp add: bound_ok_def)
  have find: "findPuppetInfo who True s = Inr (Some i)"
    unfolding findPuppetInfo_Some_iff is_slot_def using assms i by simp
  have below: "\<forall>j < i. playerID (mPuppetInfoArr s ! j) \<noteq> who" using new assms(4) by simp
  obtain t where t: "updatePlayerConnect who p s = Inr t" "findPuppetInfo who False t = Inr (Some i)"
    "mPuppetInfoArr t = (mPuppetInfoArr s)[i := (mPuppetInfoArr s ! i)\<lparr>playerID := who,
      isConnected := True, puppetName := c_str (client_name p)\<rparr>]"
    "mConnectCount t = mConnectCount s + 1" "maxPuppets t = maxPuppets s"
    using connect_eq [OF assms(1) find assms(5) below assms(2)] by blast
  have bt: "bound_ok t" using bound_ok_cong [OF assms(1) t(5)] t(3) by simp
  have ct: "isConnected (mPuppetInfoArr t ! i)" using i t(3) by simp
  obtain u where u: "disconnectPlayer who t = Inr u" "findPuppetInfo who True u = Inr (Some i)"
    "mPuppetInfoArr u = (mPuppetInfoArr t)[i := (mPuppetInfoArr t ! i)\<lparr>isConnected := False,
      scenarioNo := -1, stageName := [], isInSameStage := False\<rparr>]"
    "mConnectCount u = mConnectCount t - 1" "maxPuppets u = maxPuppets t"
    using disconnect_eq [OF bt t(2) ct] by blast
  have bu: "bound_ok u" using bound_ok_cong [OF bt u(5)] u(3) by simp
  have cu: "\<not> isConnected (mPuppetInfoArr u ! i)" using i t(3) u(3) by simp
  have below_u: "\<forall>j < i. playerID (mPuppetInfoArr u ! j) \<noteq> who" using below t(3) u(3) by simp
  obtain v where v: "updatePlayerConnect who p u = Inr v"
    "mPuppetInfoArr v = (mPuppetInfoArr u)[i := (mPuppetInfoArr u ! i)\<lparr>playerID := who,
      isConnected := True, puppetName := c_str (client_name p)\<rparr>]"
    "mConnectCount v = mConnectCount u + 1"
    using connect_eq [OF bu u(2) cu below_u assms(2)] by blast
  have "(mPuppetInfoArr u ! i)\<lparr>playerID := who, isConnected := True, puppetName := c_str (client_name p)\<rparr> =
      (mPuppetInfoArr u ! i)\<lparr>isConnected := True\<rparr>"
    using i t(3) u(3) by simp
  with v t(1,3,4) u(1,3,4) show ?thesis by (intro exI [of _ t] exI [of _ u] exI [of _ v]) simp
qed

section \<open>Faults\<close>

text \<open>The messages whose handler searches the table; all but the connection search without taking a free slot.\<close>

definition searches :: "SystemPacket \<Rightarrow> bool" where
  "searches m \<longleftrightarrow>
     (case m of Player_inf _ \<Rightarrow> True | Game_inf _ \<Rightarrow> True | Hack_cap_inf _ \<Rightarrow> True | Capture_inf _ \<Rightarrow> True
      | Player_connect _ \<Rightarrow> True | Costume_inf _ \<Rightarrow> True | Player_dc \<Rightarrow> True | Tag_inf _ \<Rightarrow> True | _ \<Rightarrow> False)"

definition takes_free :: "SystemPacket \<Rightarrow> bool" where
  "takes_free m \<longleftrightarrow> (case m of Player_connect _ \<Rightarrow> True | _ \<Rightarrow> False)"

definition too_long :: "SystemPacket \<Rightarrow> PuppetInfo \<Rightarrow> bool" where
  "too_long m q \<longleftrightarrow>
     (case m of
        Hack_cap_inf p \<Rightarrow> 48 \<le> length (c_str (cap_anim p))
      | Capture_inf p \<Rightarrow> 64 \<le> length (c_str (hack_name p))
      | Costume_inf p \<Rightarrow> 32 \<le> length (c_str (body_model p)) \<or> 32 \<le> length (c_str (cap_model p))
      | Game_inf p \<Rightarrow> isConnected q \<and> 64 \<le> length (c_str (gi_stage_name p))
      | Player_connect p \<Rightarrow> \<not> isConnected q \<and> 16 \<le> length (c_str (client_name p))
      | _ \<Rightarrow> False)"

lemma step_search_fault:
  "searches m \<Longrightarrow> findPuppetInfo who (takes_free m) s = Inl e \<Longrightarrow> puppet_step who m s = Inl e"
  by (cases m) (simp_all add: searches_def takes_free_def puppet_step_def updatePlayerInfo_def updateGameInfo_def
      updateHackCapInfo_def updateCaptureInfo_def updatePlayerConnect_def updateCostumeInfo_def disconnectPlayer_def
      updateTagInfo_puppet_def with_info_def)

lemma step_found_fault:
  assumes "findPuppetInfo who (takes_free m) s = Inr r"
  shows "puppet_step who m s = Inl e \<longleftrightarrow> e = BufferOverflow \<and>
    (case r of None \<Rightarrow> False | Some i \<Rightarrow> too_long m (mPuppetInfoArr s ! i))"
proof (cases m)
  case (Player_inf p)
  obtain g where g: "\<And>q. set_playerInf p q = Inr (g q)" using set_playerInf_effect by metis
  with Player_inf assms show ?thesis
    by (simp add: takes_free_def too_long_def puppet_step_def updatePlayerInfo_def with_info_def split: option.splits)
next
  case (Capture_inf p)
  have "length (c_str (hack_name p)) = 0" if "hack_name p = []" using that by simp
  with Capture_inf assms show ?thesis
    by (auto simp: takes_free_def too_long_def puppet_step_def updateCaptureInfo_def set_captureInf_def with_info_def Let_def
        rbind_eq_Inl strcpy_def curHack_size_def split: option.splits)
next
  case (Costume_inf p)
  with assms show ?thesis
    by (auto simp: takes_free_def too_long_def puppet_step_def updateCostumeInfo_def set_costumeInf_def with_info_def
        rbind_eq_Inl strcpy_def costume_size_def split: option.splits)
next
  case (Game_inf p)
  with assms show ?thesis
    by (auto simp: takes_free_def too_long_def puppet_step_def updateGameInfo_def set_gameInf_def with_info_def Let_def
        rbind_eq_Inl strcpy_def stageName_size_def split: option.splits)
next
  case (Hack_cap_inf p)
  with assms show ?thesis
    by (auto simp: takes_free_def too_long_def puppet_step_def updateHackCapInfo_def set_hackCapInf_def with_info_def
        rbind_eq_Inl strcpy_def PACKBUFSIZE_def split: option.splits)
next
  case (Player_connect p)
  with assms show ?thesis
    by (auto simp: takes_free_def too_long_def puppet_step_def updatePlayerConnect_def Let_def
        rbind_eq_Inl strcpy_def puppetName_size_def split: option.splits)
next
  case Player_dc
  with assms show ?thesis
    by (auto simp: takes_free_def too_long_def puppet_step_def disconnectPlayer_def Let_def rbind_eq_Inl split: option.splits)
next
  case (Tag_inf p)
  with assms show ?thesis
    by (auto simp: takes_free_def too_long_def puppet_step_def updateTagInfo_puppet_def set_tagInf_def with_info_def
        rbind_eq_Inl split: option.splits)
qed (use assms in \<open>auto simp: takes_free_def too_long_def puppet_step_def split: option.splits\<close>)


text \<open>C11: A message faults in exactly two ways. Its sender is looked for past the end of the table: the announced
  player count is above 33 (or not positive) and no slot has the sender's id. Or a string is copied into the
  sender's slot that does not fit its buffer: a cap animation of 48 characters or more, a captured enemy's name
  of 64, a costume part of 32, the stage name (of a connected player) of 64, or the name of a newly connecting
  player of 16. The sender's slot is the first with its id, else, for a connection, the first free one.\<close>

theorem puppet_step_faults:
  "puppet_step who m s = Inl e \<longleftrightarrow>
     e = OutOfBounds \<and> searches m \<and> length (mPuppetInfoArr s) < find_bound s \<and>
       (\<forall>p \<in> set (mPuppetInfoArr s). playerID p \<noteq> who) \<or>
     e = BufferOverflow \<and> (\<exists>i. is_slot who (takes_free m) s i \<and> too_long m (mPuppetInfoArr s ! i))"
proof (cases "findPuppetInfo who (takes_free m) s")
  case (Inl e')
  then have f: "e' = OutOfBounds" "length (mPuppetInfoArr s) < find_bound s"
    "\<forall>p \<in> set (mPuppetInfoArr s). playerID p \<noteq> who" by (simp_all add: findPuppetInfo_fault)
  have none: "\<not> is_slot who (takes_free m) s i" for i using Inl by (simp add: findPuppetInfo_Some_iff [symmetric])
  show ?thesis
  proof (cases "searches m")
    case True
    with step_search_fault [OF True Inl] f none show ?thesis by auto
  next
    case False
    then show ?thesis using none by (cases m) (simp_all add: searches_def puppet_step_def)
  qed
next
  case (Inr r)
  have "\<not> (length (mPuppetInfoArr s) < find_bound s \<and> (\<forall>p \<in> set (mPuppetInfoArr s). playerID p \<noteq> who))"
  proof
    assume "length (mPuppetInfoArr s) < find_bound s \<and> (\<forall>p \<in> set (mPuppetInfoArr s). playerID p \<noteq> who)"
    then have "findPuppetInfo who (takes_free m) s = Inl OutOfBounds" by (simp add: findPuppetInfo_fault)
    with Inr show False by simp
  qed
  moreover have "is_slot who (takes_free m) s i \<longleftrightarrow> r = Some i" for i
    using Inr by (simp add: findPuppetInfo_Some_iff [symmetric])
  ultimately show ?thesis unfolding step_found_fault [OF Inr] by (auto split: option.splits)
qed


section \<open>Witnesses\<close>

definition run_state :: "(uid \<times> SystemPacket) list \<Rightarrow> puppet_table" where
  "run_state ms = (case puppet_run ms puppet_table_init of Inr s \<Rightarrow> s | Inl _ \<Rightarrow> puppet_table_init)"

definition uid_a :: uid where
  "uid_a = replicate 16 (CHR ''a'')"

definition uid_b :: uid where
  "uid_b = replicate 16 (CHR ''b'')"

definition hello :: "string \<Rightarrow> SystemPacket" where
  "hello n = Player_connect \<lparr>con_type = 0, max_player_count = 10, client_name = n\<rparr>"

definition still :: PlayerInf where
  "still = \<lparr>player_pos = None, player_rot = None, anim_blend_weights = [], act_name = 3,
            sub_act_name = -1\<rparr>"

lemma senders_ok_ab [simp]:
  "senders_ok []" "senders_ok [(uid_a, hello n)]" "senders_ok [(uid_a, hello n), (uid_b, hello k)]"
  "senders_ok [(uid_a, hello n), (uid_a, Player_dc)]"
  by (simp_all add: senders_ok_def uid_ok_def uid_size_def uid_a_def uid_b_def)

lemma bound_hello [simp]: "bound_after (hello n) b = b"
  by (simp add: hello_def)

lemma run_state_inv:
  assumes "senders_ok ms" and "grows 9 ms" and "find_bound (run_state ms) \<le> MAXPUPINDEX"
  shows "table_inv (run_state ms)"
proof (cases "puppet_run ms puppet_table_init")
  case (Inr s)
  from puppet_run_inv [OF table_inv_wf [OF table_inv_init] assms(1) Inr] assms(2,3) Inr table_inv_init
  show ?thesis by (simp add: find_bound_init table_inv_iff run_state_def)
qed (simp add: run_state_def table_inv_init)

lemma run_bound:
  "slots_wf s \<Longrightarrow> senders_ok ms \<Longrightarrow> puppet_run ms s = Inr s' \<Longrightarrow> \<forall>(who, m) \<in> set ms. bound_after m (find_bound s) = find_bound s \<Longrightarrow>
   find_bound s' = find_bound s"
proof (induction ms arbitrary: s)
  case (Cons a ms)
  obtain who m where a: "a = (who, m)" by (cases a)
  then obtain t where t: "puppet_step who m s = Inr t" "puppet_run ms t = Inr s'"
    using Cons.prems(3) by (auto simp: rbind_eq_Inr)
  have m: "uid_ok who" "senders_ok ms" using Cons.prems(2) by (auto simp: senders_ok_def a)
  have b: "find_bound t = find_bound s"
    using step_bound [OF Cons.prems(1) m(1) t(1)] Cons.prems(4) by (simp add: a)
  then show ?case using Cons.IH [OF step_wf [OF Cons.prems(1) m(1) t(1)] m(2) t(2)] Cons.prems(4) by simp
qed simp

lemma run_state_bound:
  assumes "senders_ok ms" and "\<forall>(who, m) \<in> set ms. bound_after m 9 = 9"
  shows "find_bound (run_state ms) = 9"
  using run_bound [OF table_inv_wf [OF table_inv_init] assms(1)] assms(2)
  by (simp add: run_state_def find_bound_init split: sum.splits)

lemma run_state_ab [simp]:
  "table_inv (run_state [(uid_a, hello n)])"
  "table_inv (run_state [(uid_a, hello n), (uid_b, hello k)])"
  "table_inv (run_state [(uid_a, hello n), (uid_a, Player_dc)])"
  "find_bound (run_state [(uid_a, hello n)]) = 9"
  by (simp_all add: run_state_inv run_state_bound MAXPUPINDEX_def)

lemma uid_ok_ab [simp]: "uid_ok uid_a" "uid_ok uid_b"
  by (simp_all add: uid_ok_def uid_size_def uid_a_def uid_b_def)

theorem puppet_step_isolation_witness:
  "case puppet_step uid_b (Player_inf still) (run_state [(uid_a, hello ''Mario''), (uid_b, hello ''Luigi'')]) of
     Inl _ \<Rightarrow> False
   | Inr t \<Rightarrow> mPuppetInfoArr t ! 0 =
       mPuppetInfoArr (run_state [(uid_a, hello ''Mario''), (uid_b, hello ''Luigi'')]) ! 0"
  (is "case puppet_step uid_b ?m ?s of Inl _ \<Rightarrow> False | Inr t \<Rightarrow> mPuppetInfoArr t ! 0 = _")
proof -
  have "case puppet_step uid_b ?m ?s of Inl _ \<Rightarrow> False | Inr _ \<Rightarrow> True" by code_simp
  moreover have "isConnected (mPuppetInfoArr ?s ! 0) \<and> playerID (mPuppetInfoArr ?s ! 0) \<noteq> uid_b"
    by code_simp
  moreover have "table_inv ?s" by (simp add: run_state_inv)
  ultimately show ?thesis
    using puppet_step_isolation [of ?s uid_b ?m _ 0]
    by (simp add: MAXPUPINDEX_def split: sum.splits)
qed

theorem connect_count_kept_witness:
  "case puppet_step uid_a (hello ''Mario'') puppet_table_init of Inl _ \<Rightarrow> False | Inr t \<Rightarrow> count_ok t"
proof -
  have "case puppet_step uid_a (hello ''Mario'') puppet_table_init of Inl _ \<Rightarrow> False | Inr _ \<Rightarrow> True"
    by code_simp
  moreover have "count_ok puppet_table_init" by code_simp
  moreover have "\<not> revives uid_a (hello ''Mario'') puppet_table_init"
    by (simp add: revives_def hello_def)
  ultimately show ?thesis
    using connect_count_kept [OF table_inv_init, of uid_a "hello ''Mario''"] by (simp split: sum.splits)
qed

theorem connect_count_drift_witness:
  "\<exists>t u. puppet_step uid_a (Player_inf still) (run_state [(uid_a, hello ''Mario''), (uid_a, Player_dc)]) = Inr t \<and>
     puppet_step uid_a Player_dc t = Inr u \<and> mConnectCount u = -1"
  (is "\<exists>t u. puppet_step uid_a ?m ?s = _ \<and> _ t u \<and> _ u")
proof -
  have "table_inv ?s" by (simp add: run_state_inv)
  moreover have "count_ok ?s \<and> revives uid_a ?m ?s \<and> connected_count ?s = 0" by code_simp
  ultimately show ?thesis using connect_count_drift [of ?s uid_a still] by auto
qed

theorem connect_disconnect_reconnect_witness:
  "\<exists>t u. updatePlayerConnect uid_b \<lparr>con_type = 0, max_player_count = 10, client_name = ''Luigi''\<rparr>
     (run_state [(uid_a, hello ''Mario'')]) = Inr t \<and> puppetName (mPuppetInfoArr t ! 1) = ''Luigi'' \<and>
     disconnectPlayer uid_b t = Inr u \<and> mConnectCount u = 1"
  (is "\<exists>t u. updatePlayerConnect uid_b ?p ?s = _ \<and> _ t u")
proof -
  have b: "bound_ok ?s" by (simp add: table_inv_bound)
  have l: "length (mPuppetInfoArr ?s) = 32" using table_inv_length [of ?s] by (simp add: MAXPUPINDEX_def)
  have new: "\<forall>j < find_bound ?s. playerID (mPuppetInfoArr ?s ! j) \<noteq> uid_b" by code_simp
  have "\<not> isConnected (mPuppetInfoArr ?s ! 1) \<and> isConnected (mPuppetInfoArr ?s ! 0) \<and> mConnectCount ?s = 1" by code_simp
  moreover have "c_str ''Luigi'' = ''Luigi''" by (simp add: c_str_def nul_def)
  ultimately show ?thesis
    using connect_disconnect_reconnect [OF b _ new, of ?p 1] l by (auto simp: puppetName_size_def)
qed

theorem puppet_step_faults_witness:
  "puppet_step uid_b Player_dc (run_state [(uid_a, Sys_init \<lparr>max_players = 34\<rparr>)]) = Inl OutOfBounds \<and>
   puppet_step uid_a (Game_inf \<lparr>gi_is_2d = Some False, gi_scenario_num = 1, gi_stage_name = replicate 64 (CHR ''a'')\<rparr>)
     (run_state [(uid_a, hello ''Mario'')]) = Inl BufferOverflow"
  (is "puppet_step _ _ ?s = _ \<and> puppet_step _ ?m ?t = _")
proof
  have "searches Player_dc \<and> length (mPuppetInfoArr ?s) < find_bound ?s \<and>
      (\<forall>p \<in> set (mPuppetInfoArr ?s). playerID p \<noteq> uid_b)" by code_simp
  then show "puppet_step uid_b Player_dc ?s = Inl OutOfBounds"
    using puppet_step_faults [of uid_b Player_dc ?s OutOfBounds] by blast
  have "0 < find_bound ?t \<and> 0 < length (mPuppetInfoArr ?t) \<and> playerID (mPuppetInfoArr ?t ! 0) = uid_a" by code_simp
  then have "is_slot uid_a (takes_free ?m) ?t 0" by (simp add: is_slot_def)
  moreover have "too_long ?m (mPuppetInfoArr ?t ! 0)" by code_simp
  ultimately show "puppet_step uid_a ?m ?t = Inl BufferOverflow"
    using puppet_step_faults [of uid_a ?m ?t BufferOverflow] by blast
qed

text \<open>
  Announcing fewer players than before breaks the table: a player in a slot past the new bound is not found any
  more and gets a second slot. Announcing more than 33 lets an unknown sender's search leave the array.
\<close>

theorem shrunk_table_duplicates:
  "let s = run_state [(uid_a, hello ''Mario''), (uid_b, hello ''Luigi''), (uid_a, Sys_init \<lparr>max_players = 2\<rparr>),
                      (uid_a, Player_dc), (uid_b, hello ''Luigi'')]
   in playerID (mPuppetInfoArr s ! 0) = uid_b \<and> playerID (mPuppetInfoArr s ! 1) = uid_b"
  by code_simp

theorem announced_too_many:
  "puppet_run [(uid_a, Sys_init \<lparr>max_players = 34\<rparr>), (uid_b, Player_dc)] puppet_table_init = Inl OutOfBounds"
  by code_simp

end
