(* ===== verification/Ptr_Array.thy ===== *)
theory Ptr_Array
  imports Prelude
begin

text \<open>
  \<open>sead/container/seadPtrArray.h\<close>: the bounded array of pointers that holds the puppets and the
  stage's shines. The operations with a body in the header are modelled on the array's three
  fields; a pointer is an option (null is \<open>None\<close>), sizes are the \<open>s32\<close> values as integers. The
  locale \<open>bounded_seq\<close> states what the clients rely on, a list of bounded length that grows at its
  end and is read by index, and the array is shown to provide it.
\<close>

section \<open>The array\<close>

record 'a ptr_array =
  mPtrNum :: int
  mPtrNumMax :: int
  mPtrs :: "'a option list option"

definition PtrArray_empty :: "'a ptr_array" where
  "PtrArray_empty = \<lparr>mPtrNum = 0, mPtrNumMax = 0, mPtrs = None\<rparr>"

definition u32_of :: "int \<Rightarrow> int" where
  "u32_of i = i mod 2 ^ 32"

text \<open>Reading and writing \<open>mPtrs[i]\<close> unchecked.\<close>

definition ptr_get :: "'a ptr_array \<Rightarrow> int \<Rightarrow> 'a option res" where
  "ptr_get pa i =
     (case mPtrs pa of
        None \<Rightarrow> Inl NullDeref
      | Some buf \<Rightarrow> if 0 \<le> i \<and> i < int (length buf) then Inr (buf ! nat i) else Inl OutOfBounds)"

definition ptr_set :: "'a ptr_array \<Rightarrow> int \<Rightarrow> 'a option \<Rightarrow> 'a ptr_array res" where
  "ptr_set pa i p =
     (case mPtrs pa of
        None \<Rightarrow> Inl NullDeref
      | Some buf \<Rightarrow> if 0 \<le> i \<and> i < int (length buf) then Inr (pa\<lparr>mPtrs := Some (buf[nat i := p])\<rparr>)
                    else Inl OutOfBounds)"

definition pa_isBufferReady :: "'a ptr_array \<Rightarrow> bool" where
  "pa_isBufferReady pa \<longleftrightarrow> mPtrs pa \<noteq> None"

definition pa_isEmpty :: "'a ptr_array \<Rightarrow> bool" where
  "pa_isEmpty pa \<longleftrightarrow> mPtrNum pa = 0"

definition pa_isFull :: "'a ptr_array \<Rightarrow> bool" where
  "pa_isFull pa \<longleftrightarrow> mPtrNum pa \<ge> mPtrNumMax pa"

definition pa_size :: "'a ptr_array \<Rightarrow> int" where
  "pa_size pa = mPtrNum pa"

definition pa_capacity :: "'a ptr_array \<Rightarrow> int" where
  "pa_capacity pa = mPtrNumMax pa"

definition pa_clear :: "'a ptr_array \<Rightarrow> 'a ptr_array" where
  "pa_clear pa = pa\<lparr>mPtrNum := 0\<rparr>"

definition pa_swap :: "int \<Rightarrow> int \<Rightarrow> 'a ptr_array \<Rightarrow> 'a ptr_array res" where
  "pa_swap pos1 pos2 pa =
     rbind (ptr_get pa pos1) (\<lambda>ptr.
     rbind (ptr_get pa pos2) (\<lambda>q.
     rbind (ptr_set pa pos1 q) (\<lambda>pa. ptr_set pa pos2 ptr)))"

definition pa_at :: "'a ptr_array \<Rightarrow> int \<Rightarrow> 'a option res" where
  "pa_at pa idx =
     (if u32_of (mPtrNum pa) \<le> u32_of idx then Inr None else ptr_get pa idx)"

definition pa_front :: "'a ptr_array \<Rightarrow> 'a option res" where
  "pa_front pa = pa_at pa 0"

definition pa_back :: "'a ptr_array \<Rightarrow> 'a option res" where
  "pa_back pa = pa_at pa (mPtrNum pa - 1)"

definition pa_pushBack :: "'a option \<Rightarrow> 'a ptr_array \<Rightarrow> 'a ptr_array res" where
  "pa_pushBack ptr pa =
     (if pa_isFull pa then Inr pa
      else rbind (ptr_set pa (mPtrNum pa) ptr) (\<lambda>pa. Inr (pa\<lparr>mPtrNum := mPtrNum pa + 1\<rparr>)))"

definition pa_popBack :: "'a ptr_array \<Rightarrow> ('a option \<times> 'a ptr_array) res" where
  "pa_popBack pa =
     (if pa_isEmpty pa then Inr (None, pa)
      else let pa = pa\<lparr>mPtrNum := mPtrNum pa - 1\<rparr>
           in rbind (ptr_get pa (mPtrNum pa)) (\<lambda>p. Inr (p, pa)))"

definition pa_replace :: "int \<Rightarrow> 'a option \<Rightarrow> 'a ptr_array \<Rightarrow> 'a ptr_array res" where
  "pa_replace idx ptr pa = ptr_set pa idx ptr"

text \<open>\<open>search\<close> and, with pointer equality for the comparison, \<open>indexOf\<close>; \<open>find\<close> returns the element.\<close>

fun search_loop :: "nat \<Rightarrow> ('a option \<Rightarrow> bool) \<Rightarrow> 'a ptr_array \<Rightarrow> int \<Rightarrow> int res" where
  "search_loop 0 hit pa i = Inr (-1)"
| "search_loop (Suc n) hit pa i =
     rbind (ptr_get pa i) (\<lambda>p. if hit p then Inr i else search_loop n hit pa (i + 1))"

definition pa_search :: "('a option \<Rightarrow> bool) \<Rightarrow> 'a ptr_array \<Rightarrow> int res" where
  "pa_search hit pa = search_loop (nat (mPtrNum pa)) hit pa 0"

definition pa_indexOf :: "'a option \<Rightarrow> 'a ptr_array \<Rightarrow> int res" where
  "pa_indexOf ptr pa = pa_search (\<lambda>p. p = ptr) pa"

definition pa_find :: "('a option \<Rightarrow> bool) \<Rightarrow> 'a ptr_array \<Rightarrow> 'a option res" where
  "pa_find hit pa =
     rbind (pa_search hit pa) (\<lambda>i. if i = -1 then Inr None else ptr_get pa i)"

fun equal_loop :: "nat \<Rightarrow> ('a option \<Rightarrow> 'a option \<Rightarrow> int) \<Rightarrow> 'a ptr_array \<Rightarrow> 'a ptr_array \<Rightarrow> int \<Rightarrow> bool res" where
  "equal_loop 0 cmp a b i = Inr True"
| "equal_loop (Suc n) cmp a b i =
     rbind (ptr_get a i) (\<lambda>p. rbind (ptr_get b i) (\<lambda>q.
       if cmp p q \<noteq> 0 then Inr False else equal_loop n cmp a b (i + 1)))"

definition pa_equal :: "('a option \<Rightarrow> 'a option \<Rightarrow> int) \<Rightarrow> 'a ptr_array \<Rightarrow> 'a ptr_array \<Rightarrow> bool res" where
  "pa_equal cmp a b =
     (if mPtrNum a \<noteq> mPtrNum b then Inr False else equal_loop (nat (mPtrNum a)) cmp a b 0)"

text \<open>
  \<open>binarySearch\<close> with \<open>cmp\<close> the sign of the comparison of an element with the sought one. The two
  bounds are never negative: they start at 0 and at the last index.
\<close>

function bsearch_loop :: "('a option \<Rightarrow> int) \<Rightarrow> 'a ptr_array \<Rightarrow> nat \<Rightarrow> nat \<Rightarrow> int res" where
  "bsearch_loop cmp pa a b =
     (if a < b
      then let m = (a + b) div 2
           in (case ptr_get pa (int m) of
                 Inl e \<Rightarrow> Inl e
               | Inr p \<Rightarrow>
                   if cmp p = 0 then Inr (int m)
                   else if cmp p < 0 then bsearch_loop cmp pa (m + 1) b
                   else bsearch_loop cmp pa a m)
      else rbind (ptr_get pa (int a)) (\<lambda>p. if cmp p = 0 then Inr (int a) else Inr (-1)))"
  by pat_completeness auto
termination
  by (relation "measure (\<lambda>(cmp, pa, a, b). b - a)") auto

declare bsearch_loop.simps [simp del]

definition pa_binarySearch :: "('a option \<Rightarrow> int) \<Rightarrow> 'a ptr_array \<Rightarrow> int res" where
  "pa_binarySearch cmp pa =
     (if mPtrNum pa = 0 then Inr (-1) else bsearch_loop cmp pa 0 (nat (mPtrNum pa - 1)))"

section \<open>The array as a list\<close>

text \<open>The buffer has the announced capacity and the used part is inside it.\<close>

definition pa_ok :: "'a ptr_array \<Rightarrow> bool" where
  "pa_ok pa \<longleftrightarrow> 0 \<le> mPtrNum pa \<and> mPtrNum pa \<le> mPtrNumMax pa \<and> mPtrNumMax pa < 2 ^ 31 \<and>
     (case mPtrs pa of None \<Rightarrow> mPtrNumMax pa = 0 | Some buf \<Rightarrow> int (length buf) = mPtrNumMax pa)"

definition pa_list :: "'a ptr_array \<Rightarrow> 'a option list" where
  "pa_list pa = (case mPtrs pa of None \<Rightarrow> [] | Some buf \<Rightarrow> take (nat (mPtrNum pa)) buf)"

lemma pa_ok_empty: "pa_ok PtrArray_empty \<and> pa_list PtrArray_empty = []"
  by (simp add: pa_ok_def PtrArray_empty_def pa_list_def)

lemma length_pa_list: "pa_ok pa \<Longrightarrow> int (length (pa_list pa)) = mPtrNum pa"
  by (auto simp: pa_ok_def pa_list_def split: option.splits)

lemma ptr_get_list:
  "pa_ok pa \<Longrightarrow> k < length (pa_list pa) \<Longrightarrow> ptr_get pa (int k) = Inr (pa_list pa ! k)"
  by (auto simp: ptr_get_def pa_ok_def pa_list_def split: option.splits)

lemma u32_of_small: "0 \<le> i \<Longrightarrow> i < 2 ^ 31 \<Longrightarrow> u32_of i = i"
  by (simp add: u32_of_def)

text \<open>A negative index becomes one of at least \<open>2 ^ 31\<close>.\<close>

lemma u32_of_negative: "- (2 ^ 31) \<le> i \<Longrightarrow> i < 0 \<Longrightarrow> 2 ^ 31 \<le> u32_of i"
proof -
  assume "- (2 ^ 31) \<le> i" and "i < 0"
  then have "(i + 2 ^ 32) mod 2 ^ 32 = i + 2 ^ 32" by (intro mod_pos_pos_trivial) simp_all
  then have "u32_of i = i + 2 ^ 32" by (simp add: u32_of_def)
  then show ?thesis using \<open>- (2 ^ 31) \<le> i\<close> by simp
qed

lemma pa_at_spec:
  assumes "pa_ok pa" and "- (2 ^ 31) \<le> i" and "i < 2 ^ 31"
  shows "pa_at pa i =
    Inr (if 0 \<le> i \<and> nat i < length (pa_list pa) then pa_list pa ! nat i else None)"
proof -
  have n: "u32_of (mPtrNum pa) = mPtrNum pa" "mPtrNum pa < 2 ^ 31" "0 \<le> mPtrNum pa"
    using assms(1) by (auto simp: pa_ok_def intro!: u32_of_small)
  show ?thesis
  proof (cases "0 \<le> i")
    case True
    then have i: "u32_of i = i" using assms(3) by (rule u32_of_small)
    show ?thesis
    proof (cases "i < mPtrNum pa")
      case less: True
      then have "nat i < length (pa_list pa)" using True length_pa_list [OF assms(1)] by linarith
      then show ?thesis using ptr_get_list [OF assms(1), of "nat i"] True less n i by (simp add: pa_at_def)
    next
      case False
      then have "\<not> nat i < length (pa_list pa)" using True length_pa_list [OF assms(1)] by linarith
      then show ?thesis using False n i by (simp add: pa_at_def)
    qed
  next
    case False
    then have "2 ^ 31 \<le> u32_of i" using u32_of_negative [OF assms(2)] by simp
    then show ?thesis using False n by (simp add: pa_at_def)
  qed
qed

lemma pa_pushBack_spec:
  assumes "pa_ok pa"
  shows "\<exists>pa'. pa_pushBack p pa = Inr pa' \<and> pa_ok pa' \<and> mPtrNumMax pa' = mPtrNumMax pa \<and>
    pa_list pa' = (if int (length (pa_list pa)) < mPtrNumMax pa then pa_list pa @ [p] else pa_list pa)"
proof (cases "pa_isFull pa")
  case True
  then show ?thesis using assms length_pa_list [OF assms] by (simp add: pa_pushBack_def pa_isFull_def)
next
  case False
  then obtain buf where buf: "mPtrs pa = Some buf" "int (length buf) = mPtrNumMax pa"
    using assms by (auto simp: pa_ok_def pa_isFull_def split: option.splits)
  have n: "0 \<le> mPtrNum pa" "mPtrNum pa < int (length buf)"
    using False buf assms by (simp_all add: pa_ok_def pa_isFull_def)
  let ?pa' = "pa\<lparr>mPtrs := Some (buf[nat (mPtrNum pa) := p]), mPtrNum := mPtrNum pa + 1\<rparr>"
  have "nat (mPtrNum pa) < length buf" "nat (mPtrNum pa + 1) = Suc (nat (mPtrNum pa))" using n by simp_all
  then have "pa_list ?pa' = pa_list pa @ [p]"
    by (simp add: pa_list_def buf take_Suc_conv_app_nth)
  moreover have "pa_pushBack p pa = Inr ?pa'"
    using False n by (simp add: pa_pushBack_def ptr_set_def buf)
  moreover have "pa_ok ?pa'" using assms n buf by (simp add: pa_ok_def)
  ultimately show ?thesis
    using False length_pa_list [OF assms] by (simp add: pa_isFull_def)
qed

lemma pa_popBack_spec:
  assumes "pa_ok pa"
  shows "pa_popBack pa =
    (if pa_list pa = [] then Inr (None, pa)
     else Inr (last (pa_list pa), pa\<lparr>mPtrNum := mPtrNum pa - 1\<rparr>)) \<and>
    (pa_list pa \<noteq> [] \<longrightarrow> pa_ok (pa\<lparr>mPtrNum := mPtrNum pa - 1\<rparr>) \<and>
       pa_list (pa\<lparr>mPtrNum := mPtrNum pa - 1\<rparr>) = butlast (pa_list pa))"
proof (cases "mPtrNum pa = 0")
  case True
  then have "pa_list pa = []" using length_pa_list [OF assms] by simp
  then show ?thesis using True by (simp add: pa_popBack_def pa_isEmpty_def)
next
  case False
  then obtain buf where buf: "mPtrs pa = Some buf" "int (length buf) = mPtrNumMax pa"
    using assms by (auto simp: pa_ok_def split: option.splits)
  have n: "0 < mPtrNum pa" "mPtrNum pa \<le> int (length buf)"
    using False buf assms by (simp_all add: pa_ok_def)
  obtain k where k: "nat (mPtrNum pa) = Suc k" "nat (mPtrNum pa - 1) = k" "k < length buf"
    using n by (cases "nat (mPtrNum pa)") auto
  then have l: "pa_list pa = take k buf @ [buf ! k]"
    by (simp add: pa_list_def buf take_Suc_conv_app_nth)
  then show ?thesis
    using False n k assms buf by (simp add: pa_popBack_def pa_isEmpty_def ptr_get_def pa_ok_def pa_list_def)
qed

lemma search_loop_spec:
  assumes "pa_ok pa" and "n + k = length (pa_list pa)"
  shows "search_loop n hit pa (int k) =
    Inr (case first_index hit (drop k (pa_list pa)) of None \<Rightarrow> -1 | Some i \<Rightarrow> int (k + i))"
  using assms(2)
proof (induction n arbitrary: k)
  case 0
  then show ?case by simp
next
  case (Suc n)
  then have k: "k < length (pa_list pa)" by simp
  then have d: "drop k (pa_list pa) = pa_list pa ! k # drop (Suc k) (pa_list pa)"
    by (simp add: Cons_nth_drop_Suc)
  have "search_loop n hit pa (1 + int k) =
    Inr (case first_index hit (drop (Suc k) (pa_list pa)) of None \<Rightarrow> -1 | Some i \<Rightarrow> int (Suc k + i))"
    using Suc.IH [of "Suc k"] Suc.prems by simp
  then show ?case
    by (auto simp: ptr_get_list [OF assms(1) k] d add.commute split: option.splits)
qed

lemma pa_search_spec:
  assumes "pa_ok pa"
  shows "pa_search hit pa =
     Inr (case first_index hit (pa_list pa) of None \<Rightarrow> -1 | Some i \<Rightarrow> int i)"
proof -
  have "nat (mPtrNum pa) + 0 = length (pa_list pa)" using length_pa_list [OF assms] by simp
  from search_loop_spec [OF assms this, of hit] show ?thesis
    unfolding pa_search_def by (simp split: option.splits)
qed

section \<open>Binary search\<close>

text \<open>The array is sorted with respect to the comparison with the sought element.\<close>

definition cmp_sorted :: "('a option \<Rightarrow> int) \<Rightarrow> 'a option list \<Rightarrow> bool" where
  "cmp_sorted cmp xs \<longleftrightarrow> (\<forall>i j. i < j \<longrightarrow> j < length xs \<longrightarrow>
     (cmp (xs ! j) < 0 \<longrightarrow> cmp (xs ! i) < 0) \<and> (cmp (xs ! i) > 0 \<longrightarrow> cmp (xs ! j) > 0))"

lemma cmp_sorted_low:
  "cmp_sorted cmp xs \<Longrightarrow> m < length xs \<Longrightarrow> cmp (xs ! m) < 0 \<Longrightarrow> k \<le> m \<Longrightarrow> cmp (xs ! k) < 0"
  unfolding cmp_sorted_def by (metis le_neq_implies_less)

lemma cmp_sorted_high:
  "cmp_sorted cmp xs \<Longrightarrow> k < length xs \<Longrightarrow> cmp (xs ! m) > 0 \<Longrightarrow> m \<le> k \<Longrightarrow> cmp (xs ! k) > 0"
  unfolding cmp_sorted_def by (metis le_neq_implies_less)

lemma bsearch_loop_spec:
  assumes "pa_ok pa" and "cmp_sorted cmp (pa_list pa)" and "a \<le> b" and "b < length (pa_list pa)"
    and "\<forall>k < length (pa_list pa). cmp (pa_list pa ! k) = 0 \<longrightarrow> a \<le> k \<and> k \<le> b"
  shows "\<exists>r. bsearch_loop cmp pa a b = Inr r \<and>
    (if r = -1 then \<forall>k < length (pa_list pa). cmp (pa_list pa ! k) \<noteq> 0
     else \<exists>k < length (pa_list pa). r = int k \<and> cmp (pa_list pa ! k) = 0)"
  using assms(3-5)
proof (induction "b - a" arbitrary: a b rule: less_induct)
  case less
  show ?case
  proof (cases "a < b")
    case False
    then have "a = b" using less.prems by simp
    then show ?thesis
      using less.prems ptr_get_list [OF assms(1), of a]
      by (subst bsearch_loop.simps) (auto intro!: exI [of _ a])
  next
    case True
    let ?m = "(a + b) div 2"
    have m: "a \<le> ?m" "?m < b" using True by simp_all
    then have ml: "?m < length (pa_list pa)" using less.prems by simp
    note get = ptr_get_list [OF assms(1) ml]
    consider "cmp (pa_list pa ! ?m) = 0" | "cmp (pa_list pa ! ?m) < 0" | "cmp (pa_list pa ! ?m) > 0"
      by linarith
    then show ?thesis
    proof cases
      case 1
      then show ?thesis
        using True get ml by (subst bsearch_loop.simps) (auto simp: Let_def intro!: exI [of _ ?m])
    next
      case 2
      have "\<forall>k < length (pa_list pa). cmp (pa_list pa ! k) = 0 \<longrightarrow> Suc ?m \<le> k \<and> k \<le> b"
        using less.prems cmp_sorted_low [OF assms(2) ml 2] by (metis not_less_eq_eq order_less_irrefl)
      from less.hyps [of b "Suc ?m", OF _ _ less.prems(2) this] m
      show ?thesis using True get 2 by (subst bsearch_loop.simps) (simp add: Let_def)
    next
      case 3
      have "\<forall>k < length (pa_list pa). cmp (pa_list pa ! k) = 0 \<longrightarrow> a \<le> k \<and> k \<le> ?m"
        using less.prems cmp_sorted_high [OF assms(2) _ 3] by (metis nat_le_linear order_less_irrefl)
      from less.hyps [of ?m a, OF _ _ ml this] m
      show ?thesis using True get 3 by (subst bsearch_loop.simps) (simp add: Let_def)
    qed
  qed
qed

text \<open>On a sorted array the binary search terminates inside the array and returns the index of an
  element that compares equal if there is one, and -1 otherwise.\<close>

theorem pa_binarySearch_spec:
  assumes "pa_ok pa" and "cmp_sorted cmp (pa_list pa)"
  shows "\<exists>r. pa_binarySearch cmp pa = Inr r \<and>
    (if r = -1 then \<forall>k < length (pa_list pa). cmp (pa_list pa ! k) \<noteq> 0
     else \<exists>k < length (pa_list pa). r = int k \<and> cmp (pa_list pa ! k) = 0)"
proof (cases "mPtrNum pa = 0")
  case True
  then have "pa_list pa = []" using length_pa_list [OF assms(1)] by simp
  then show ?thesis using True by (simp add: pa_binarySearch_def)
next
  case False
  then have n: "nat (mPtrNum pa - 1) < length (pa_list pa)"
    "\<forall>k < length (pa_list pa). k \<le> nat (mPtrNum pa - 1)"
    using length_pa_list [OF assms(1)] assms(1) by (auto simp: pa_ok_def)
  from bsearch_loop_spec [OF assms, of 0 "nat (mPtrNum pa - 1)"] n False show ?thesis
    by (simp add: pa_binarySearch_def)
qed

theorem pa_binarySearch_spec_witness:
  "\<exists>r. pa_binarySearch (\<lambda>p. case p of None \<Rightarrow> 0 | Some v \<Rightarrow> v - 5)
     \<lparr>mPtrNum = 3, mPtrNumMax = 4, mPtrs = Some [Some 2, Some 5, Some 9, None]\<rparr> = Inr r \<and> r \<noteq> -1"
  (is "\<exists>r. pa_binarySearch ?c ?pa = Inr r \<and> _")
proof -
  have l: "pa_list ?pa = [Some 2, Some 5, Some 9]" by (simp add: pa_list_def)
  have "pa_ok ?pa" by (simp add: pa_ok_def)
  moreover have "cmp_sorted ?c (pa_list ?pa)"
    unfolding l cmp_sorted_def by (auto simp: less_Suc_eq nth_Cons split: nat.splits)
  ultimately obtain r where "pa_binarySearch ?c ?pa = Inr r"
    "if r = -1 then \<forall>k < length (pa_list ?pa). ?c (pa_list ?pa ! k) \<noteq> 0
     else \<exists>k < length (pa_list ?pa). r = int k \<and> ?c (pa_list ?pa ! k) = 0"
    using pa_binarySearch_spec by blast
  then show ?thesis unfolding l by (auto split: if_splits)
qed

section \<open>Bounded sequences\<close>

text \<open>
  What the holders of actors rely on: a sequence with a capacity that says when it is full and
  otherwise grows by one element at its end.
\<close>

locale bounded_seq =
  fixes inv :: "'s \<Rightarrow> bool"
    and elems :: "'s \<Rightarrow> 'e list"
    and cap :: "'s \<Rightarrow> nat"
    and full :: "'s \<Rightarrow> bool"
    and push :: "'e \<Rightarrow> 's \<Rightarrow> 's res"
  assumes full_iff: "inv s \<Longrightarrow> full s \<longleftrightarrow> cap s \<le> length (elems s)"
    and push_ok: "inv s \<Longrightarrow> \<not> full s \<Longrightarrow>
      \<exists>s'. push x s = Inr s' \<and> inv s' \<and> elems s' = elems s @ [x] \<and> cap s' = cap s"
    and cap_ok: "inv s \<Longrightarrow> length (elems s) \<le> cap s"
begin

text \<open>The shape of the clients' registration: refuse when full, else push.\<close>

lemma try_push:
  assumes "inv s"
  shows "\<exists>s'. (if \<not> full s then rbind (push x s) (\<lambda>t. Inr (True, t)) else Inr (False, s)) =
      Inr (length (elems s) < cap s, s') \<and>
    inv s' \<and> cap s' = cap s \<and> elems s' = take (cap s) (elems s @ [x])"
proof (cases "full s")
  case True
  then show ?thesis
    using full_iff [OF assms] cap_ok [OF assms] assms by auto
next
  case False
  then obtain s' where "push x s = Inr s'" "inv s'" "elems s' = elems s @ [x]" "cap s' = cap s"
    using push_ok [OF assms] by blast
  then show ?thesis using False full_iff [OF assms] by auto
qed

end

definition pa_cap :: "'a ptr_array \<Rightarrow> nat" where
  "pa_cap pa = nat (mPtrNumMax pa)"

interpretation pa: bounded_seq pa_ok pa_list pa_cap pa_isFull pa_pushBack
proof
  fix pa :: "'a ptr_array" and x
  assume ok: "pa_ok pa"
  note l = length_pa_list [OF ok]
  show "pa_isFull pa \<longleftrightarrow> pa_cap pa \<le> length (pa_list pa)"
    using l by (auto simp: pa_isFull_def pa_cap_def)
  show "length (pa_list pa) \<le> pa_cap pa"
    using l ok by (auto simp: pa_cap_def pa_ok_def)
  show "\<exists>pa'. pa_pushBack x pa = Inr pa' \<and> pa_ok pa' \<and> pa_list pa' = pa_list pa @ [x] \<and>
      pa_cap pa' = pa_cap pa" if "\<not> pa_isFull pa"
    using pa_pushBack_spec [OF ok, of x] l that by (auto simp: pa_isFull_def pa_cap_def)
qed

end
