(* ===== verification/Helpers.thy ===== *)
theory Helpers
  imports Puppet_Table
begin

text \<open>
  The string helpers of \<open>helpers.cpp\<close> and their tables in \<open>helpers.hpp\<close>: the substring test, the
  character search, the costume list that decides which costume a puppet is built with, and the
  table that turns a placed enemy's class name into the name of its capture. C strings are lists
  without NUL; reading past a terminator is a fault.
\<close>

section \<open>Substring test\<close>

text \<open>The inner loop: advance through both strings while they agree and the second one lasts.\<close>

fun strip_common :: "string \<Rightarrow> string \<Rightarrow> string \<times> string" where
  "strip_common (a # as) (b # bs) = (if a = b then strip_common as bs else (a # as, b # bs))"
| "strip_common as bs = (as, bs)"

lemma length_strip_common: "length (fst (strip_common as bs)) \<le> length as"
  by (induction as bs rule: strip_common.induct) auto

text \<open>
  The outer loop, on the rest of \<open>w1\<close> from index \<open>i\<close>. After a partial match the index has moved to
  the mismatch and moves one further; when the mismatch is the terminator of \<open>w1\<close>, the loop
  condition reads behind it.
\<close>

function isPartOf_loop :: "string \<Rightarrow> string \<Rightarrow> bool res" where
  "isPartOf_loop [] w2 = Inr False"
| "isPartOf_loop (c # cs) w2 =
     (if w2 \<noteq> [] \<and> c = hd w2
      then (case strip_common cs (tl w2) of
              (r1, r2) \<Rightarrow>
                if r2 = [] then Inr True
                else (case r1 of [] \<Rightarrow> Inl OutOfBounds | _ # r \<Rightarrow> isPartOf_loop r w2))
      else isPartOf_loop cs w2)"
  by pat_completeness auto
termination
proof (relation "measure (\<lambda>(w1, w2). length w1)")
  fix c cs w2 r1 r2 and x :: char and r
  assume "(r1, r2) = strip_common cs (tl w2)" and "r1 = x # r"
  then have "Suc (length r) \<le> length cs"
    using length_strip_common [of cs "tl w2"] by (metis fst_conv length_Cons)
  then show "((r, w2), c # cs, w2) \<in> measure (\<lambda>(w1, w2). length w1)" by simp
qed auto

definition isPartOf :: "string \<Rightarrow> string \<Rightarrow> bool res" where
  "isPartOf w1 w2 = (if length w1 \<le> 0 then Inr False else isPartOf_loop w1 w2)"

definition indexOf :: "string \<Rightarrow> char \<Rightarrow> int" where
  "indexOf w1 c1 = (case first_index (\<lambda>c. c = c1) w1 of None \<Rightarrow> -1 | Some i \<Rightarrow> int i)"

section \<open>Costumes\<close>

definition costumeNames :: "string list" where
  "costumeNames =
  [''Mario'', ''Mario64'', ''Mario64Metal'', ''MarioAloha'', ''MarioArmor'', ''MarioBone'',
   ''MarioClown'', ''MarioColorClassic'', ''MarioColorGold'', ''MarioColorLuigi'',
   ''MarioColorWaluigi'', ''MarioColorWario'', ''MarioCook'', ''MarioDiddyKong'', ''MarioDoctor'',
   ''MarioExplorer'', ''MarioFootball'', ''MarioGolf'', ''MarioGunman'', ''MarioHakama'',
   ''MarioHappi'', ''MarioKing'', ''MarioKoopa'', ''MarioMaker'', ''MarioMechanic'',
   ''MarioNew3DS'', ''MarioPainter'', ''MarioPeach'', ''MarioPilot'', ''MarioPirate'',
   ''MarioPoncho'', ''MarioPrimitiveMan'', ''MarioSailor'', ''MarioScientist'', ''MarioShopman'',
   ''MarioSnowSuit'', ''MarioSpaceSuit'', ''MarioSuit'', ''MarioSwimwear'', ''MarioTailCoat'',
   ''MarioTuxedo'', ''MarioUnderwear'']"

definition isInCostumeList :: "string \<Rightarrow> bool" where
  "isInCostumeList costumeName \<longleftrightarrow> costumeName \<in> set costumeNames"

definition tryGetPuppetCapName :: "PuppetInfo \<Rightarrow> string" where
  "tryGetPuppetCapName info =
     (if isInCostumeList (costumeHead info) then costumeHead info else ''Mario'')"

definition tryGetPuppetBodyName :: "PuppetInfo \<Rightarrow> string" where
  "tryGetPuppetBodyName info =
     (if isInCostumeList (costumeBody info) then costumeBody info else ''Mario'')"

section \<open>Capture names\<close>

definition classHackNames :: "(string \<times> string) list" where
  "classHackNames =
  [(''SenobiGeneratePoint'', ''Senobi''), (''KuriboPossessed'', ''Kuribo''),
   (''KillerLauncher'', ''Killer''), (''KillerLauncherMagnum'', ''KillerMagnum''),
   (''FireBrosPossessed'', ''FireBros''), (''HammerBrosPossessed'', ''HammerBros''),
   (''ElectricWire'', ''ElectricWireMover''), (''TRexSleep'', ''TRex''), (''TRexPatrol'', ''TRex''),
   (''WanwanBig'', ''Wanwan''), (''Koopa'', ''KoopaHack'')]"

definition tryConvertName :: "string \<Rightarrow> string" where
  "tryConvertName className =
     (case map_of classHackNames className of Some hackName \<Rightarrow> hackName | None \<Rightarrow> className)"

section \<open>Properties\<close>

lemma strip_common_done:
  "strip_common as bs = (r1, []) \<Longrightarrow> as = bs @ r1"
  by (induction as bs rule: strip_common.induct) (auto split: if_splits)

lemma strip_common_prefix:
  "\<exists>pre. as = pre @ fst (strip_common as bs) \<and> bs = pre @ snd (strip_common as bs)"
proof (induction as bs rule: strip_common.induct)
  case (1 a as b bs)
  show ?case
  proof (cases "a = b")
    case True
    with 1 obtain pre where "as = pre @ fst (strip_common as bs)" "bs = pre @ snd (strip_common as bs)"
      by blast
    with True show ?thesis by (intro exI [of _ "a # pre"]) simp
  qed simp
qed simp_all

lemma isPartOf_loop_sound:
  "isPartOf_loop w1 w2 = Inr True \<Longrightarrow> \<exists>pre post. w1 = pre @ w2 @ post"
proof (induction w1 w2 rule: isPartOf_loop.induct)
  case (1 w2)
  then show ?case by simp
next
  case (2 c cs w2)
  show ?case
  proof (cases "w2 \<noteq> [] \<and> c = hd w2")
    case True
    obtain r1 r2 where st: "strip_common cs (tl w2) = (r1, r2)" by fastforce
    show ?thesis
    proof (cases "r2 = []")
      case r2: True
      then have "cs = tl w2 @ r1" using strip_common_done st by simp
      then have "c # cs = [] @ w2 @ r1" using True by (cases w2) auto
      then show ?thesis by blast
    next
      case False
      then obtain x r where r: "r1 = x # r" "isPartOf_loop r w2 = Inr True"
        using 2(3) True st by (auto split: list.splits)
      then obtain pre post where "r = pre @ w2 @ post"
        using 2(1) [OF True st [symmetric] False r] by blast
      moreover obtain p where "cs = p @ r1"
        using strip_common_prefix [of cs "tl w2"] st by auto
      ultimately have "c # cs = (c # p @ [x] @ pre) @ w2 @ post" using r(1) by simp
      then show ?thesis by blast
    qed
  next
    case False
    with 2(2) [OF False] 2(3) obtain pre post where "cs = pre @ w2 @ post" by auto
    then have "c # cs = (c # pre) @ w2 @ post" by simp
    then show ?thesis by blast
  qed
qed

text \<open>When \<open>isPartOf\<close> answers yes, the second string really occurs in the first.\<close>

theorem isPartOf_sound:
  assumes "isPartOf w1 w2 = Inr True"
  shows "\<exists>pre post. w1 = pre @ w2 @ post"
  using assms isPartOf_loop_sound by (auto simp: isPartOf_def split: if_splits)

theorem isPartOf_sound_witness: "\<exists>pre post. ''ForestWorldHomeStage'' = pre @ ''Home'' @ post"
proof -
  have "isPartOf ''ForestWorldHomeStage'' ''Home'' = Inr True" by (simp add: isPartOf_def)
  then show ?thesis by (rule isPartOf_sound)
qed

text \<open>It is not a complete substring test: it restarts behind a partial match, so it misses
  occurrences that overlap one, it finds no empty string, and it reads past the terminator of the
  first string when that string ends inside a partial match.\<close>

theorem isPartOf_incomplete:
  "isPartOf ''aaab'' ''aab'' = Inr False \<and> ''aaab'' = ''a'' @ ''aab'' \<and>
   isPartOf ''Stage'' [] = Inr False \<and>
   isPartOf ''World'' ''ldHome'' = Inl OutOfBounds"
  by (simp add: isPartOf_def)

text \<open>The body and cap a puppet is built with are always costumes of the list, whatever the packet
  said, and are the received ones when those are in the list.\<close>

theorem puppet_costume_known:
  "isInCostumeList (tryGetPuppetBodyName info) \<and> isInCostumeList (tryGetPuppetCapName info) \<and>
   (isInCostumeList (costumeBody info) \<longrightarrow> tryGetPuppetBodyName info = costumeBody info) \<and>
   (isInCostumeList (costumeHead info) \<longrightarrow> tryGetPuppetCapName info = costumeHead info)"
proof -
  have "isInCostumeList ''Mario''" by (simp add: isInCostumeList_def costumeNames_def)
  then show ?thesis by (simp add: tryGetPuppetBodyName_def tryGetPuppetCapName_def)
qed

theorem puppet_costume_known_witness:
  "isInCostumeList ''MarioKing'' \<and>
   tryGetPuppetBodyName (PuppetInfo_new\<lparr>costumeBody := ''MarioKing''\<rparr>) = ''MarioKing'' \<and>
   \<not> isInCostumeList ''Luigi'' \<and>
   isInCostumeList (tryGetPuppetCapName (PuppetInfo_new\<lparr>costumeHead := ''Luigi''\<rparr>))"
  using puppet_costume_known [of "PuppetInfo_new\<lparr>costumeBody := ''MarioKing''\<rparr>"]
    puppet_costume_known [of "PuppetInfo_new\<lparr>costumeHead := ''Luigi''\<rparr>"]
  by (simp add: isInCostumeList_def costumeNames_def)

end
