(* ===== verification/Hack_Models.thy ===== *)
theory Hack_Models
  imports Helpers Capture_Types
begin

text \<open>
  The captures a puppet can turn into: \<open>HackModelHolder\<close> (\<open>puppets/HackModelHolder.hpp\<close>,
  \<open>server/HackModelHolder.cpp\<close>), a table of at most 128 actors under the names of their captures,
  and its filling from the stage's objects in \<open>server/captureSync.cpp\<close>. An actor pointer is an
  option of a number that names the actor, the pointer to the current capture is an index into
  the table.
\<close>

section \<open>State\<close>

record capture_entry =
  ce_actor :: "nat option"
  className :: string

record HackModelHolder =
  mCaptureCount :: int
  mCurCapture :: "nat option"
  mOnlineCaptures :: "capture_entry list"

definition className_size :: nat where
  "className_size = 0x16"

definition max_captures :: nat where
  "max_captures = 128"

text \<open>\<open>new HackModelHolder()\<close> value-initialises the object: zeros and null pointers.\<close>

definition HackModelHolder_new :: HackModelHolder where
  "HackModelHolder_new =
     \<lparr>mCaptureCount = 0, mCurCapture = None,
      mOnlineCaptures = replicate max_captures \<lparr>ce_actor = None, className = []\<rparr>\<rparr>"

text \<open>The search all name operations share: the first of the counted entries with the name.\<close>

definition capture_index :: "string \<Rightarrow> HackModelHolder \<Rightarrow> nat option" where
  "capture_index hackName h =
     first_index (\<lambda>e. className e = hackName) (take (nat (mCaptureCount h)) (mOnlineCaptures h))"

section \<open>Operations\<close>

definition getCapture :: "string \<Rightarrow> HackModelHolder \<Rightarrow> nat option" where
  "getCapture hackName h =
     (case capture_index hackName h of
        Some i \<Rightarrow> ce_actor (mOnlineCaptures h ! i)
      | None \<Rightarrow> None)"

definition entry_at :: "int \<Rightarrow> HackModelHolder \<Rightarrow> capture_entry res" where
  "entry_at index h =
     (if 0 \<le> index \<and> index < int (length (mOnlineCaptures h))
      then Inr (mOnlineCaptures h ! nat index) else Inl OutOfBounds)"

definition getCapture_at :: "int \<Rightarrow> HackModelHolder \<Rightarrow> nat option res" where
  "getCapture_at index h =
     (if index \<le> mCaptureCount h then rbind (entry_at index h) (\<lambda>e. Inr (ce_actor e))
      else Inr None)"

definition getCaptureClass :: "int \<Rightarrow> HackModelHolder \<Rightarrow> string res" where
  "getCaptureClass index h =
     (if index \<le> mCaptureCount h then rbind (entry_at index h) (\<lambda>e. Inr (className e))
      else Inr ''Unknown'')"

definition addCapture :: "nat \<Rightarrow> string \<Rightarrow> HackModelHolder \<Rightarrow> (bool \<times> HackModelHolder) res" where
  "addCapture capture hackName h =
     (if mCaptureCount h < int max_captures
      then rbind (entry_at (mCaptureCount h) h) (\<lambda>_.
           rbind (strcpy className_size hackName) (\<lambda>n.
             Inr (True, h\<lparr>mOnlineCaptures := (mOnlineCaptures h)
                            [nat (mCaptureCount h) := \<lparr>ce_actor = Some capture, className = n\<rparr>],
                          mCaptureCount := mCaptureCount h + 1\<rparr>)))
      else Inr (False, h))"

definition removeCapture :: "string \<Rightarrow> HackModelHolder \<Rightarrow> bool \<times> HackModelHolder" where
  "removeCapture hackName h =
     (case capture_index hackName h of
        Some i \<Rightarrow> (True, h\<lparr>mOnlineCaptures :=
                           (mOnlineCaptures h)[i := \<lparr>ce_actor = None, className = []\<rparr>]\<rparr>)
      | None \<Rightarrow> (False, h))"

definition resetList :: "HackModelHolder \<Rightarrow> HackModelHolder" where
  "resetList h =
     h\<lparr>mOnlineCaptures :=
         replicate (nat (mCaptureCount h)) \<lparr>ce_actor = None, className = []\<rparr> @
         drop (nat (mCaptureCount h)) (mOnlineCaptures h),
       mCaptureCount := 0\<rparr>"

definition setCurrent :: "string \<Rightarrow> HackModelHolder \<Rightarrow> bool \<times> HackModelHolder" where
  "setCurrent hackName h =
     (case capture_index hackName h of
        Some i \<Rightarrow> (True, h\<lparr>mCurCapture := Some i\<rparr>)
      | None \<Rightarrow> (False, h\<lparr>mCurCapture := None\<rparr>))"

definition getCurrentActor :: "HackModelHolder \<Rightarrow> nat option" where
  "getCurrentActor h =
     (case mCurCapture h of Some i \<Rightarrow> ce_actor (mOnlineCaptures h ! i) | None \<Rightarrow> None)"

definition getCurrentActorName :: "HackModelHolder \<Rightarrow> string option" where
  "getCurrentActorName h =
     (case mCurCapture h of Some i \<Rightarrow> Some (className (mOnlineCaptures h ! i)) | None \<Rightarrow> None)"

section \<open>Filling the table from the stage\<close>

text \<open>
  \<open>createPuppetHackActorFromFactory\<close> makes an actor only for at most eight players, and not in the
  forest stage when there are exactly eight. \<open>creator\<close> says whether the factory has one, and
  \<open>fresh\<close> is the actor it makes.
\<close>

definition createPuppetHackActor ::
  "int \<Rightarrow> string option \<Rightarrow> bool \<Rightarrow> nat \<Rightarrow> nat option" where
  "createPuppetHackActor serverMaxPlayers stage creator fresh =
     (if serverMaxPlayers = 8 \<and> stage = Some ''ForestWorldHomeStage'' then None
      else if serverMaxPlayers > 8 then None
      else if creator then Some fresh else None)"

text \<open>What \<open>initObjHook\<close> does to one puppet for an object of the stage.\<close>

definition register_capture ::
  "string \<Rightarrow> (string \<Rightarrow> nat option) \<Rightarrow> HackModelHolder \<Rightarrow> HackModelHolder res" where
  "register_capture cls create h =
     (let hackName = tryConvertName cls
      in if getCapture hackName h \<noteq> None then Inr h
         else (case create hackName of
                 Some dupliActor \<Rightarrow>
                   rbind (addCapture dupliActor hackName h) (\<lambda>(_, h'). Inr h')
               | None \<Rightarrow> Inr h))"

fun register_all ::
  "string \<Rightarrow> (string \<Rightarrow> nat option) list \<Rightarrow> HackModelHolder list \<Rightarrow> HackModelHolder list res" where
  "register_all cls (c # cs) (h # hs) =
     rbind (register_capture cls c h) (\<lambda>h'. rbind (register_all cls cs hs) (\<lambda>hs'. Inr (h' # hs')))"
| "register_all cls _ hs = Inr hs"

definition initObjHook ::
  "string \<Rightarrow> (string \<Rightarrow> nat option) list \<Rightarrow> HackModelHolder list \<Rightarrow> HackModelHolder list res" where
  "initObjHook cls creators puppets =
     (if isInCaptureList cls then register_all cls creators puppets else Inr puppets)"

section \<open>Well-formed tables\<close>

definition names_fit :: "capture_entry list \<Rightarrow> bool" where
  "names_fit es \<longleftrightarrow> (\<forall>e \<in> set es. length (className e) < className_size)"

definition captures_ok :: "HackModelHolder \<Rightarrow> bool" where
  "captures_ok h \<longleftrightarrow> length (mOnlineCaptures h) = max_captures \<and>
     0 \<le> mCaptureCount h \<and> mCaptureCount h \<le> int max_captures \<and>
     names_fit (mOnlineCaptures h) \<and>
     (case mCurCapture h of None \<Rightarrow> True | Some i \<Rightarrow> i < max_captures)"

lemma captures_ok_new: "captures_ok HackModelHolder_new"
  by (simp add: captures_ok_def HackModelHolder_new_def max_captures_def className_size_def names_fit_def)

lemma capture_index_less:
  "captures_ok h \<Longrightarrow> capture_index n h = Some i \<Longrightarrow> i < nat (mCaptureCount h) \<and> i < max_captures"
  by (auto simp: capture_index_def captures_ok_def dest!: first_index_less)

lemma capture_index_name:
  "captures_ok h \<Longrightarrow> capture_index n h = Some i \<Longrightarrow> className (mOnlineCaptures h ! i) = n"
  by (auto simp: capture_index_def first_index_Some_iff)

lemma names_fit_update:
  "names_fit es \<Longrightarrow> length (className e) < className_size \<Longrightarrow> names_fit (es[i := e])"
  using set_update_subset_insert [of es i e] by (auto simp: names_fit_def)

lemma addCapture_ok:
  assumes "captures_ok h" and "addCapture a n h = Inr (b, h')"
  shows "captures_ok h' \<and> b = (mCaptureCount h < int max_captures)"
proof (cases "mCaptureCount h < int max_captures")
  case True
  then obtain m where m: "strcpy className_size n = Inr m" "b = True"
    and h': "h' = h\<lparr>mOnlineCaptures := (mOnlineCaptures h)
        [nat (mCaptureCount h) := \<lparr>ce_actor = Some a, className = m\<rparr>],
      mCaptureCount := mCaptureCount h + 1\<rparr>"
    using assms(2) by (auto simp: addCapture_def rbind_eq_Inr)
  have "names_fit (mOnlineCaptures h')"
    unfolding h' using assms(1) strcpy_length [OF m(1)]
    by (simp add: captures_ok_def names_fit_update)
  then show ?thesis using True m assms(1) by (simp add: captures_ok_def h')
next
  case False
  then show ?thesis using assms by (simp add: addCapture_def)
qed

lemma removeCapture_ok: "captures_ok h \<Longrightarrow> captures_ok (snd (removeCapture n h))"
  by (auto simp: removeCapture_def captures_ok_def className_size_def intro!: names_fit_update
      split: option.split)

lemma resetList_ok: "captures_ok h \<Longrightarrow> captures_ok (resetList h)"
  by (auto simp: resetList_def captures_ok_def className_size_def names_fit_def split: option.split
      dest: in_set_dropD)

lemma setCurrent_ok: "captures_ok h \<Longrightarrow> captures_ok (snd (setCurrent n h))"
  using capture_index_less [of h n] by (auto simp: setCurrent_def captures_ok_def split: option.split)

section \<open>Properties\<close>

lemma first_index_append:
  "first_index p (xs @ ys) =
    (case first_index p xs of Some i \<Rightarrow> Some i | None \<Rightarrow> map_option ((+) (length xs)) (first_index p ys))"
  by (induction xs)
    (auto simp: option.map_comp comp_def option.map_ident plus_Suc_fun plus_zero_fun split: option.splits)

text \<open>A capture that was added under a new name is found under it, becomes the current actor when
  set current, and leaves every other name's lookup alone; the table stays well formed.\<close>

theorem addCapture_lookup:
  assumes "captures_ok h" and "no_nul n" and "length n < className_size"
    and "mCaptureCount h < int max_captures" and "capture_index n h = None"
  shows "\<exists>h'. addCapture a n h = Inr (True, h') \<and> captures_ok h' \<and> getCapture n h' = Some a \<and>
    setCurrent n h' = (True, snd (setCurrent n h')) \<and>
    getCurrentActor (snd (setCurrent n h')) = Some a \<and>
    (\<forall>m. m \<noteq> n \<longrightarrow> getCapture m h' = getCapture m h)"
proof -
  let ?k = "nat (mCaptureCount h)" and ?e = "\<lparr>ce_actor = Some a, className = n\<rparr>"
  let ?h' = "h\<lparr>mOnlineCaptures := (mOnlineCaptures h)[?k := ?e], mCaptureCount := mCaptureCount h + 1\<rparr>"
  have k: "?k < length (mOnlineCaptures h)" "nat (mCaptureCount h + 1) = Suc ?k"
    using assms(1,4) by (auto simp: captures_ok_def)
  have add: "addCapture a n h = Inr (True, ?h')"
    using assms(1-4) k by (simp add: addCapture_def entry_at_def captures_ok_def)
  have used: "take (nat (mCaptureCount ?h')) (mOnlineCaptures ?h') = take ?k (mOnlineCaptures h) @ [?e]"
    using k by (simp add: take_Suc_conv_app_nth)
  have idx: "capture_index m ?h' =
      (case capture_index m h of Some i \<Rightarrow> Some i | None \<Rightarrow> if n = m then Some ?k else None)" for m
    unfolding capture_index_def used first_index_append using k by (auto split: option.split)
  have "?k \<noteq> i" if "capture_index m h = Some i" for m i
    using capture_index_less [OF assms(1) that] by simp
  then have get: "getCapture m ?h' = (if m = n then Some a else getCapture m h)" for m
    using assms(5) k by (auto simp: getCapture_def idx split: option.split)
  have cur: "setCurrent n ?h' = (True, ?h'\<lparr>mCurCapture := Some ?k\<rparr>)"
    using assms(5) by (simp add: setCurrent_def idx)
  have "captures_ok ?h'" using addCapture_ok [OF assms(1) add] by simp
  then show ?thesis
    using add get cur k by (intro exI [of _ ?h']) (simp add: getCurrentActor_def)
qed

theorem addCapture_lookup_witness:
  "\<exists>h'. addCapture 7 ''Kuribo'' HackModelHolder_new = Inr (True, h') \<and> getCapture ''Kuribo'' h' = Some 7"
proof -
  have "no_nul ''Kuribo''" by (simp add: no_nul_def nul_def)
  moreover have "capture_index ''Kuribo'' HackModelHolder_new = None"
    by (simp add: capture_index_def HackModelHolder_new_def)
  ultimately show ?thesis
    using addCapture_lookup [OF captures_ok_new, of "''Kuribo''" 7]
    by (auto simp: HackModelHolder_new_def max_captures_def className_size_def)
qed

lemma capture_names_fit:
  "list_all (\<lambda>c. length (c_str (tryConvertName c)) < className_size \<longleftrightarrow>
      c \<noteq> ''AnagramAlphabetCharacter'') capture_strs"
  by (simp add: capture_strs_def tryConvertName_def classHackNames_def c_str_def nul_def className_size_def)

text \<open>Of the captures the table knows, exactly one name does not fit the 22 characters of an entry
  once converted: registering a placed \<open>AnagramAlphabetCharacter\<close> for a puppet that has not got it
  yet overflows the entry; every other capture is registered without a fault.\<close>

theorem capture_name_overflow:
  assumes "captures_ok h" and "i < length capture_strs" and "c = capture_strs ! i"
    and "getCapture (tryConvertName c) h = None"
    and "create (tryConvertName c) = Some a" and "mCaptureCount h < int max_captures"
  shows "(\<exists>h'. register_capture c create h = Inr h') \<longleftrightarrow> c \<noteq> ''AnagramAlphabetCharacter''"
proof -
  have e: "\<exists>e. entry_at (mCaptureCount h) h = Inr e"
    using assms(1,6) by (simp add: entry_at_def captures_ok_def)
  have "c \<in> set capture_strs" using assms(2,3) by simp
  with capture_names_fit have "length (c_str (tryConvertName c)) < className_size \<longleftrightarrow> c \<noteq> ''AnagramAlphabetCharacter''"
    by (simp add: list_all_iff)
  then show ?thesis
    using e assms(4-6) by (auto simp: register_capture_def Let_def addCapture_def strcpy_def)
qed

theorem capture_name_overflow_witness:
  "\<not> (\<exists>h'. register_capture ''AnagramAlphabetCharacter'' (\<lambda>_. Some 1) HackModelHolder_new = Inr h')"
proof -
  have none: "getCapture (tryConvertName ''AnagramAlphabetCharacter'') HackModelHolder_new = None"
    by (auto simp: getCapture_def capture_index_def HackModelHolder_new_def split: option.split)
  have first: "0 < length capture_strs" "''AnagramAlphabetCharacter'' = capture_strs ! 0"
    by (simp_all add: capture_strs_def)
  have count: "mCaptureCount HackModelHolder_new < int max_captures"
    by (simp add: HackModelHolder_new_def max_captures_def)
  show ?thesis
    using capture_name_overflow [OF captures_ok_new first none, of "\<lambda>_. Some 1" 1] count by simp
qed

text \<open>The index lookups accept the index one past the last capture: with a full table that reads
  behind the array, with fewer it returns an entry that was never added.\<close>

theorem getCapture_off_by_one:
  assumes "captures_ok h" and "- (2 ^ 31) \<le> index"
  shows "getCapture_at index h = Inl OutOfBounds \<longleftrightarrow>
    index < 0 \<or> index = int max_captures \<and> mCaptureCount h = int max_captures"
  using assms by (auto simp: getCapture_at_def entry_at_def captures_ok_def)

theorem getCapture_off_by_one_witness:
  "getCapture_at 128 (HackModelHolder_new\<lparr>mCaptureCount := 128\<rparr>) = Inl OutOfBounds"
  by (subst getCapture_off_by_one)
    (simp_all add: captures_ok_def HackModelHolder_new_def max_captures_def className_size_def names_fit_def)

end
