(* ===== verification/Puppet_Actor.thy ===== *)
theory Puppet_Actor
  imports Hack_Models
begin

text \<open>
  The actor that shows another player (\<open>puppets/PuppetActor.cpp\<close>): which of its models is current,
  which models are alive, its cap and its name tag. A model is the normal one, the flat one or the
  actor of a capture; \<open>alive\<close> is the set of models the engine draws. The engine's own effects
  (animation, effects, pose) are outside; the flag an actor's \<open>makeActorAlive\<close> and
  \<open>makeActorDead\<close> set is what \<open>al::isDead\<close> reads.
\<close>

section \<open>State\<close>

datatype model = Normal | Normal2D | Capture nat

record puppet_actor =
  mIs2DModel :: bool
  mIsCaptureModel :: bool
  mCaptures :: HackModelHolder
  mCurCaptureType :: s16
  currentModel :: model
  alive :: "model set"
  actor_dead :: bool
  cap_dead :: bool
  cap_trans :: Vector3f
  name_tag :: "(string \<times> bool) option"
  join_effects :: nat

text \<open>What the name tag is told about the game mode, and the join and leave of the cap model.\<close>

datatype tag_mode =
    Tag_hide_and_seek bool
  | Tag_capture_the_flag FlagTeam
  | Tag_other

definition getCurrentModel :: "puppet_actor \<Rightarrow> model" where
  "getCurrentModel a =
     (if mIsCaptureModel a
      then (case getCurrentActor (mCaptures a) of Some c \<Rightarrow> Capture c | None \<Rightarrow> currentModel a)
      else currentModel a)"

definition model_alive :: "model \<Rightarrow> puppet_actor \<Rightarrow> puppet_actor" where
  "model_alive m a = a\<lparr>alive := insert m (alive a)\<rparr>"

definition model_dead :: "model \<Rightarrow> puppet_actor \<Rightarrow> puppet_actor" where
  "model_dead m a = a\<lparr>alive := alive a - {m}\<rparr>"

section \<open>Operations\<close>

definition changeModel :: "model \<Rightarrow> puppet_actor \<Rightarrow> puppet_actor" where
  "changeModel newModel a =
     (let a = model_dead (getCurrentModel a) a;
          a = a\<lparr>currentModel := newModel\<rparr>
      in model_alive (getCurrentModel a) a)"

definition setCapture :: "string \<Rightarrow> puppet_actor \<Rightarrow> bool \<times> puppet_actor" where
  "setCapture captureName a =
     (case setCurrent captureName (mCaptures a) of
        (found, h) \<Rightarrow>
          let a = a\<lparr>mCaptures := h\<rparr>
          in if found then (True, a\<lparr>mCurCaptureType := capture_FindType captureName\<rparr>)
             else (False, a\<lparr>mCurCaptureType := capture_Unknown\<rparr>))"

definition control_model :: "PuppetInfo \<Rightarrow> puppet_actor \<Rightarrow> puppet_actor" where
  "control_model info a =
     (if \<not> mIs2DModel a \<and> is2D info then (changeModel Normal2D a)\<lparr>mIs2DModel := True\<rparr>
      else if mIs2DModel a \<and> \<not> is2D info then (changeModel Normal a)\<lparr>mIs2DModel := False\<rparr>
      else a)"

definition control_capture :: "PuppetInfo \<Rightarrow> puppet_actor \<Rightarrow> puppet_actor" where
  "control_capture info a =
     (if isCaptured info \<and> \<not> mIsCaptureModel a
      then let a = model_dead (getCurrentModel a) a;
               a = snd (setCapture (curHack info) a);
               a = a\<lparr>mIsCaptureModel := True\<rparr>
           in model_alive (getCurrentModel a) a
      else if \<not> isCaptured info \<and> mIsCaptureModel a
      then let a = model_dead (getCurrentModel a) a;
               a = a\<lparr>currentModel := Normal\<rparr>;
               a = a\<lparr>mIsCaptureModel := False\<rparr>
           in model_alive (getCurrentModel a) a
      else a)"

definition control_cap :: "PuppetInfo \<Rightarrow> puppet_actor \<Rightarrow> puppet_actor" where
  "control_cap info a =
     (if isCapThrow info
      then (if cap_dead a then a\<lparr>cap_dead := False, cap_trans := PuppetInfo.capPos info\<rparr> else a)
      else (if \<not> cap_dead a then a\<lparr>cap_dead := True\<rparr> else a))"

definition control_tag :: "tag_mode \<Rightarrow> PuppetInfo \<Rightarrow> puppet_actor \<Rightarrow> puppet_actor" where
  "control_tag mode info a =
     (case name_tag a of
        None \<Rightarrow> a
      | Some (txt, shown) \<Rightarrow>
          (case mode of
             Tag_hide_and_seek isPlayerIt \<Rightarrow> a\<lparr>name_tag := Some (txt, isPlayerIt \<and> isIt info)\<rparr>
           | Tag_capture_the_flag mPlayerTeam \<Rightarrow>
               a\<lparr>name_tag := Some (txt, mPlayerTeam = ctfTeam info)\<rparr>
           | Tag_other \<Rightarrow> if \<not> shown then a\<lparr>name_tag := Some (txt, True)\<rparr> else a))"

definition puppet_control :: "tag_mode \<Rightarrow> PuppetInfo option \<Rightarrow> puppet_actor \<Rightarrow> puppet_actor" where
  "puppet_control mode mInfo a =
     (case mInfo of
        None \<Rightarrow> a
      | Some info \<Rightarrow>
          control_tag mode info (control_cap info (control_capture info (control_model info a))))"

definition puppet_makeActorAlive :: "PuppetInfo option \<Rightarrow> puppet_actor \<Rightarrow> puppet_actor" where
  "puppet_makeActorAlive mInfo a =
     (let cur = getCurrentModel a;
          a = (if cur \<notin> alive a then model_alive cur a else a);
          a = (case (mInfo, name_tag a) of
                 (Some info, Some (_, shown)) \<Rightarrow> a\<lparr>name_tag := Some (puppetName info, shown)\<rparr>
               | _ \<Rightarrow> a)
      in a\<lparr>actor_dead := False\<rparr>)"

definition puppet_makeActorDead :: "puppet_actor \<Rightarrow> puppet_actor" where
  "puppet_makeActorDead a =
     (let cur = getCurrentModel a;
          a = (if cur \<in> alive a then model_dead cur a else a)
      in a\<lparr>cap_dead := True, actor_dead := True\<rparr>)"

definition emitJoinEffect :: "puppet_actor \<Rightarrow> puppet_actor" where
  "emitJoinEffect a = a\<lparr>join_effects := join_effects a + 1\<rparr>"

definition puppet_isInCaptureList :: "string \<Rightarrow> puppet_actor \<Rightarrow> bool" where
  "puppet_isInCaptureList hackName a \<longleftrightarrow> getCapture hackName (mCaptures a) \<noteq> None"

definition puppet_addCapture :: "nat \<Rightarrow> string \<Rightarrow> puppet_actor \<Rightarrow> (bool \<times> puppet_actor) res" where
  "puppet_addCapture capture hackType a =
     rbind (addCapture capture hackType (mCaptures a)) (\<lambda>(b, h). Inr (b, a\<lparr>mCaptures := h\<rparr>))"

text \<open>The messages an actor answers: a trample or a hip drop on its body, with a hit reaction.\<close>

definition puppet_receiveMsg :: "bool \<Rightarrow> bool \<Rightarrow> string \<Rightarrow> bool" where
  "puppet_receiveMsg isTrampleReflect isHipDropReflectAll target \<longleftrightarrow>
     (isTrampleReflect \<or> isHipDropReflectAll) \<and> target = ''Body''"

section \<open>One model at a time\<close>

text \<open>At most the current model is alive.\<close>

definition one_model :: "puppet_actor \<Rightarrow> bool" where
  "one_model a \<longleftrightarrow> alive a \<subseteq> {getCurrentModel a}"

lemmas model_simps =
  one_model_def getCurrentModel_def model_alive_def model_dead_def changeModel_def Let_def

lemma setCapture_parts [simp]:
  "alive (snd (setCapture n a)) = alive a"
  "currentModel (snd (setCapture n a)) = currentModel a"
  "mIs2DModel (snd (setCapture n a)) = mIs2DModel a"
  by (auto simp: setCapture_def Let_def split: prod.split)

lemma control_model_one: "one_model a \<Longrightarrow> one_model (control_model info a)"
  by (auto simp: control_model_def model_simps split: option.splits)

lemma control_capture_one: "one_model a \<Longrightarrow> one_model (control_capture info a)"
  by (auto simp: control_capture_def model_simps split: option.splits)

lemma control_cap_one: "one_model a \<Longrightarrow> one_model (control_cap info a)"
  by (auto simp: control_cap_def model_simps split: option.splits)

lemma control_tag_one: "one_model a \<Longrightarrow> one_model (control_tag mode info a)"
  by (auto simp: control_tag_def model_simps split: option.splits tag_mode.splits)

lemma control_flags:
  "mIs2DModel (control_model info a) = is2D info"
  "mIsCaptureModel (control_capture info a) = isCaptured info"
  "mIsCaptureModel (control_model info a) = mIsCaptureModel a"
  "mIs2DModel (control_capture info a) = mIs2DModel a"
  by (auto simp: control_model_def control_capture_def model_simps)

lemma control_tail:
  "mIs2DModel (control_tag mode info (control_cap info a)) = mIs2DModel a"
  "mIsCaptureModel (control_tag mode info (control_cap info a)) = mIsCaptureModel a"
  "currentModel (control_tag mode info (control_cap info a)) = currentModel a"
  "cap_dead (control_tag mode info (control_cap info a)) = (\<not> isCapThrow info)"
  by (auto simp: control_tag_def control_cap_def split: option.splits tag_mode.splits)

lemma control_one: "one_model a \<Longrightarrow> one_model (puppet_control mode mInfo a)"
  by (simp add: puppet_control_def control_tag_one control_cap_one control_capture_one
      control_model_one split: option.split)

text \<open>A puppet never shows two models: at most its current model is alive, through every frame and
  every appearance and disappearance; after a frame its capture, 2D and cap flags are the ones
  the player's packets set.\<close>

theorem puppet_one_model:
  assumes "one_model a"
  shows "one_model (puppet_control mode mInfo a) \<and> one_model (puppet_makeActorAlive mInfo a) \<and>
    one_model (puppet_makeActorDead a) \<and>
    (mInfo = Some info \<longrightarrow>
       mIsCaptureModel (puppet_control mode mInfo a) = isCaptured info \<and>
       mIs2DModel (puppet_control mode mInfo a) = is2D info \<and>
       cap_dead (puppet_control mode mInfo a) = (\<not> isCapThrow info))"
proof (intro conjI)
  show "one_model (puppet_control mode mInfo a)"
    using assms by (rule control_one)
  show "one_model (puppet_makeActorAlive mInfo a)"
    using assms by (auto simp: puppet_makeActorAlive_def model_simps split: option.splits)
  show "one_model (puppet_makeActorDead a)"
    using assms by (auto simp: puppet_makeActorDead_def model_simps split: option.splits)
  show "mInfo = Some info \<longrightarrow> mIsCaptureModel (puppet_control mode mInfo a) = isCaptured info \<and>
       mIs2DModel (puppet_control mode mInfo a) = is2D info \<and>
       cap_dead (puppet_control mode mInfo a) = (\<not> isCapThrow info)"
    by (simp add: puppet_control_def control_tail control_flags)
qed

definition puppet_actor_new :: puppet_actor where
  "puppet_actor_new =
     \<lparr>mIs2DModel = False, mIsCaptureModel = False, mCaptures = HackModelHolder_new,
      mCurCaptureType = capture_Unknown, currentModel = Normal, alive = {}, actor_dead = True,
      cap_dead = True, cap_trans = Vector3f_zero, name_tag = None, join_effects = 0\<rparr>"

theorem puppet_one_model_witness:
  "one_model (puppet_control Tag_other (Some PuppetInfo_new) puppet_actor_new)"
proof -
  have "one_model puppet_actor_new" by (simp add: one_model_def puppet_actor_new_def)
  from puppet_one_model [OF this] show ?thesis by blast
qed

text \<open>The regular model goes with the 2D flag.\<close>

definition model_matches :: "puppet_actor \<Rightarrow> bool" where
  "model_matches a \<longleftrightarrow> currentModel a = (if mIs2DModel a then Normal2D else Normal)"

lemma control_model_matches: "model_matches a \<Longrightarrow> model_matches (control_model info a)"
  by (auto simp: model_matches_def control_model_def changeModel_def model_alive_def model_dead_def Let_def)

lemma currentModel_capture:
  "currentModel (control_capture info a) =
     (if \<not> isCaptured info \<and> mIsCaptureModel a then Normal else currentModel a)"
  by (auto simp: control_capture_def model_alive_def model_dead_def Let_def)

text \<open>The flat model is shown for a 2D player and the normal one otherwise, and a frame keeps it
  so, except when a capture ends while the player is 2D: then the puppet goes on with the normal
  model under a set 2D flag, and later frames of the 2D player do not repair it.\<close>

theorem puppet_model_matches:
  assumes "model_matches a"
  shows "model_matches (puppet_control mode (Some info) a) \<longleftrightarrow>
    \<not> (mIsCaptureModel a \<and> \<not> isCaptured info \<and> is2D info)"
proof -
  have m: "model_matches (control_model info a)" using assms by (rule control_model_matches)
  then have "currentModel (control_model info a) = (if is2D info then Normal2D else Normal)"
    by (simp add: model_matches_def control_flags)
  then show ?thesis
    by (auto simp: puppet_control_def model_matches_def control_tail control_flags currentModel_capture)
qed

theorem puppet_model_matches_witness:
  "\<not> model_matches (puppet_control Tag_other (Some (PuppetInfo_new\<lparr>is2D := True\<rparr>))
     (puppet_actor_new\<lparr>mIsCaptureModel := True\<rparr>))"
  by (subst puppet_model_matches)
    (simp_all add: model_matches_def puppet_actor_new_def PuppetInfo_new_def)

theorem puppet_model_stuck:
  assumes "currentModel a = Normal" and "mIs2DModel a" and "\<not> mIsCaptureModel a"
    and "is2D info" and "\<not> isCaptured info"
  shows "currentModel (puppet_control mode (Some info) a) = Normal"
  using assms by (simp add: puppet_control_def control_tail currentModel_capture control_model_def)

end
