(* ===== verification/Puppet_Holder.thy ===== *)
theory Puppet_Holder
  imports Puppet_Actor Ptr_Array
begin

text \<open>
  The holder of the puppets of a stage (\<open>puppets/PuppetHolder.cpp\<close>) and the client functions that
  go through it. Actors are numbers; the stage keeps the state of each actor and the slot of the
  player table its \<open>mInfo\<close> points to. The buffers come from the engine's heap: \<open>alloc n\<close> is the
  array \<open>tryAllocBuffer\<close> builds for a capacity of \<open>n\<close>, if it can.
\<close>

section \<open>State\<close>

record puppet_holder =
  mPuppetArr :: "nat ptr_array"
  mDebugPuppet :: "nat option"
  ph_stageName :: string
  ph_scenarioNo :: u8

record stage_puppets =
  sp_actors :: "puppet_actor list"
  sp_info :: "nat option list"
  sp_table :: puppet_table

definition PuppetHolder_new :: "(int \<Rightarrow> nat ptr_array option) \<Rightarrow> int \<Rightarrow> u8 \<Rightarrow> nat option \<Rightarrow> puppet_holder" where
  "PuppetHolder_new alloc n scenario debug =
     \<lparr>mPuppetArr = (case alloc n of Some pa \<Rightarrow> pa | None \<Rightarrow> PtrArray_empty), mDebugPuppet = debug,
      ph_stageName = [], ph_scenarioNo = scenario\<rparr>"

section \<open>Registration\<close>

definition tryRegisterPuppet :: "nat option \<Rightarrow> puppet_holder \<Rightarrow> (bool \<times> puppet_holder) res" where
  "tryRegisterPuppet puppet h =
     (if \<not> pa_isFull (mPuppetArr h)
      then rbind (pa_pushBack puppet (mPuppetArr h)) (\<lambda>pa. Inr (True, h\<lparr>mPuppetArr := pa\<rparr>))
      else Inr (False, h))"

definition tryRegisterDebugPuppet :: "nat option \<Rightarrow> puppet_holder \<Rightarrow> bool \<times> puppet_holder" where
  "tryRegisterDebugPuppet puppet h = (True, h\<lparr>mDebugPuppet := puppet\<rparr>)"

definition getDebugPuppet :: "puppet_holder \<Rightarrow> nat option" where
  "getDebugPuppet h = mDebugPuppet h"

definition getPuppetActor :: "int \<Rightarrow> puppet_holder \<Rightarrow> nat option res" where
  "getPuppetActor idx h = pa_at (mPuppetArr h) idx"

definition holder_getSize :: "puppet_holder \<Rightarrow> int" where
  "holder_getSize h = pa_size (mPuppetArr h)"

definition clearPuppets :: "puppet_holder \<Rightarrow> puppet_holder" where
  "clearPuppets h = h\<lparr>mPuppetArr := pa_clear (mPuppetArr h)\<rparr>"

text \<open>\<open>sead::FixedSafeString<0x40>\<close> keeps at most 63 characters.\<close>

definition holder_setStageInfo :: "string \<Rightarrow> u8 \<Rightarrow> puppet_holder \<Rightarrow> puppet_holder" where
  "holder_setStageInfo stage scenario h =
     h\<lparr>ph_stageName := take 63 stage, ph_scenarioNo := scenario\<rparr>"

section \<open>Update\<close>

definition checkInfoIsInStage :: "puppet_holder \<Rightarrow> PuppetInfo \<Rightarrow> bool" where
  "checkInfoIsInStage h info =
     (if isConnected info
      then if scenarioNo info < 15 then ph_stageName h = stageName info
           else ph_stageName h = stageName info \<and> scenarioNo info = ph_scenarioNo h
      else False)"

text \<open>One puppet: whether it is in the stage now, and the appearance or disappearance that follows.\<close>

definition appear_or_leave :: "PuppetInfo \<Rightarrow> puppet_actor \<Rightarrow> puppet_actor" where
  "appear_or_leave info a =
     (if isInSameStage info \<and> actor_dead a
      then emitJoinEffect (puppet_makeActorAlive (Some info) a)
      else if \<not> isInSameStage info \<and> \<not> actor_dead a
      then emitJoinEffect (puppet_makeActorDead a)
      else a)"

definition update_puppet :: "puppet_holder \<Rightarrow> nat option \<Rightarrow> stage_puppets \<Rightarrow> stage_puppets res" where
  "update_puppet h p w =
     (case p of
        None \<Rightarrow> Inl NullDeref
      | Some a \<Rightarrow>
          (case sp_info w ! a of
             None \<Rightarrow> Inl NullDeref
           | Some i \<Rightarrow>
               let info = mPuppetInfoArr (sp_table w) ! i;
                   info' = info\<lparr>isInSameStage := checkInfoIsInStage h info\<rparr>
               in Inr (w\<lparr>sp_table := update_info i (\<lambda>_. info') (sp_table w),
                         sp_actors := (sp_actors w)[a := appear_or_leave info' (sp_actors w ! a)]\<rparr>)))"

fun update_loop :: "nat \<Rightarrow> int \<Rightarrow> puppet_holder \<Rightarrow> stage_puppets \<Rightarrow> stage_puppets res" where
  "update_loop 0 i h w = Inr w"
| "update_loop (Suc n) i h w =
     rbind (pa_at (mPuppetArr h) i) (\<lambda>p. rbind (update_puppet h p w) (update_loop n (i + 1) h))"

definition holder_update :: "puppet_holder \<Rightarrow> stage_puppets \<Rightarrow> stage_puppets res" where
  "holder_update h w = update_loop (nat (pa_size (mPuppetArr h))) 0 h w"

section \<open>Resizing\<close>

text \<open>
  The copy loop of \<open>resizeHolder\<close>. Its condition \<open>i < curPupCount > size ? size : curPupCount\<close>
  parses as \<open>((i < curPupCount) > size) ? size : curPupCount\<close>, so the loop goes on while the chosen
  number is not zero. The loop gets fuel; \<open>None\<close> is running out of it.
\<close>

definition resize_condition :: "int \<Rightarrow> int \<Rightarrow> int \<Rightarrow> bool" where
  "resize_condition i curPupCount newSize =
     ((if (if i < curPupCount then 1 else 0) > newSize then newSize else curPupCount) \<noteq> 0)"

fun resize_loop ::
  "nat \<Rightarrow> int \<Rightarrow> int \<Rightarrow> int \<Rightarrow> nat ptr_array \<Rightarrow> nat ptr_array \<Rightarrow> nat ptr_array res option" where
  "resize_loop 0 i curPupCount newSize old new = None"
| "resize_loop (Suc fuel) i curPupCount newSize old new =
     (if resize_condition i curPupCount newSize
      then (case rbind (pa_at old i) (\<lambda>p. pa_pushBack p new) of
              Inl e \<Rightarrow> Some (Inl e)
            | Inr new' \<Rightarrow> resize_loop fuel (i + 1) curPupCount newSize old new')
      else Some (Inr new))"

definition resizeHolder ::
  "nat \<Rightarrow> (int \<Rightarrow> nat ptr_array option) \<Rightarrow> int \<Rightarrow> puppet_holder \<Rightarrow> (bool \<times> puppet_holder) res option" where
  "resizeHolder fuel alloc newSize h =
     (if pa_capacity (mPuppetArr h) = newSize then Some (Inr (True, h))
      else if \<not> pa_isBufferReady (mPuppetArr h)
      then (case alloc newSize of
              Some pa \<Rightarrow> Some (Inr (True, h\<lparr>mPuppetArr := pa\<rparr>))
            | None \<Rightarrow> Some (Inr (False, h)))
      else (case alloc newSize of
              None \<Rightarrow> Some (Inr (False, h))
            | Some new \<Rightarrow>
                (case resize_loop fuel 0 (pa_size (mPuppetArr h)) newSize (mPuppetArr h) new of
                   None \<Rightarrow> None
                 | Some (Inl e) \<Rightarrow> Some (Inl e)
                 | Some (Inr new') \<Rightarrow> Some (Inr (True, h\<lparr>mPuppetArr := new'\<rparr>)))))"

section \<open>The client's shines\<close>

text \<open>\<open>Client::tryRegisterShine\<close> keeps the stage's uncollected shines in an array of 100.\<close>

definition tryRegisterShine :: "nat \<Rightarrow> bool \<Rightarrow> nat ptr_array \<Rightarrow> (bool \<times> nat ptr_array) res" where
  "tryRegisterShine shine isGot mShineArray =
     (if \<not> pa_isFull mShineArray
      then if \<not> isGot
           then rbind (pa_pushBack (Some shine) mShineArray) (\<lambda>pa. Inr (True, pa))
           else Inr (False, mShineArray)
      else Inr (False, mShineArray))"

text \<open>\<open>findStageShine\<close>: \<open>uniqueID\<close> reads the id of a shine's hint from the game's data.\<close>

fun find_shine_loop :: "nat \<Rightarrow> int \<Rightarrow> (nat \<Rightarrow> int) \<Rightarrow> int \<Rightarrow> nat ptr_array \<Rightarrow> nat option res" where
  "find_shine_loop 0 i uniqueID shineID arr = Inr None"
| "find_shine_loop (Suc n) i uniqueID shineID arr =
     rbind (pa_at arr i) (\<lambda>p. case p of
        Some curShine \<Rightarrow>
          if uniqueID curShine = shineID then Inr (Some curShine)
          else find_shine_loop n (i + 1) uniqueID shineID arr
      | None \<Rightarrow> find_shine_loop n (i + 1) uniqueID shineID arr)"

definition findStageShine :: "(nat \<Rightarrow> int) \<Rightarrow> int \<Rightarrow> nat ptr_array \<Rightarrow> nat option res" where
  "findStageShine uniqueID shineID mShineArray =
     find_shine_loop (nat (pa_size mShineArray)) 0 uniqueID shineID mShineArray"

section \<open>Updating all puppets\<close>

fun update_all :: "puppet_holder \<Rightarrow> nat option list \<Rightarrow> stage_puppets \<Rightarrow> stage_puppets res" where
  "update_all h [] w = Inr w"
| "update_all h (p # ps) w = rbind (update_puppet h p w) (update_all h ps)"

lemma update_loop_all:
  assumes "pa_ok (mPuppetArr h)" and "n + k = length (pa_list (mPuppetArr h))"
  shows "update_loop n (int k) h w = update_all h (drop k (pa_list (mPuppetArr h))) w"
  using assms(2)
proof (induction n arbitrary: k w)
  case 0
  then show ?case by simp
next
  case (Suc n)
  let ?l = "pa_list (mPuppetArr h)"
  have k: "k < length ?l" using Suc.prems by simp
  have "int k < 2 ^ 31"
    using k length_pa_list [OF assms(1)] assms(1) by (simp add: pa_ok_def)
  then have at: "pa_at (mPuppetArr h) (int k) = Inr (?l ! k)"
    using pa_at_spec [OF assms(1), of "int k"] k by simp
  have d: "drop k ?l = ?l ! k # drop (Suc k) ?l" using k by (simp add: Cons_nth_drop_Suc)
  have "update_loop n (int k + 1) h = update_all h (drop (Suc k) ?l)"
    using Suc.IH [of "Suc k"] Suc.prems by (auto simp: fun_eq_iff add.commute)
  then show ?case by (simp add: at d)
qed

lemma holder_update_all:
  assumes "pa_ok (mPuppetArr h)"
  shows "holder_update h w = update_all h (pa_list (mPuppetArr h)) w"
proof -
  have "nat (mPtrNum (mPuppetArr h)) + 0 = length (pa_list (mPuppetArr h))"
    using length_pa_list [OF assms] by simp
  from update_loop_all [OF assms this] show ?thesis by (simp add: holder_update_def pa_size_def)
qed

text \<open>The registered actors exist, belong to slots of the table, and no two share an actor or a slot.\<close>

definition slot_of :: "stage_puppets \<Rightarrow> nat \<Rightarrow> nat" where
  "slot_of w a = the (sp_info w ! a)"

lemma slot_of_upd [simp]: "slot_of (w\<lparr>sp_table := t, sp_actors := x\<rparr>) = slot_of w"
  by (simp add: slot_of_def fun_eq_iff)

definition puppets_ok :: "nat list \<Rightarrow> stage_puppets \<Rightarrow> bool" where
  "puppets_ok ids w \<longleftrightarrow> distinct ids \<and> distinct (map (slot_of w) ids) \<and>
     (\<forall>a \<in> set ids. a < length (sp_actors w) \<and> sp_info w ! a \<noteq> None \<and>
        slot_of w a < length (mPuppetInfoArr (sp_table w)))"

abbreviation info_at :: "stage_puppets \<Rightarrow> nat \<Rightarrow> PuppetInfo" where
  "info_at w a \<equiv> mPuppetInfoArr (sp_table w) ! slot_of w a"

text \<open>What one update leaves behind for a puppet.\<close>

definition updated :: "puppet_holder \<Rightarrow> stage_puppets \<Rightarrow> stage_puppets \<Rightarrow> nat \<Rightarrow> bool" where
  "updated h w w' a \<longleftrightarrow>
     (let info' = (info_at w a)\<lparr>isInSameStage := checkInfoIsInStage h (info_at w a)\<rparr>
      in info_at w' a = info' \<and> sp_actors w' ! a = appear_or_leave info' (sp_actors w ! a))"

lemma update_all_spec:
  assumes "puppets_ok ids w"
  shows "\<exists>w'. update_all h (map Some ids) w = Inr w' \<and> sp_info w' = sp_info w \<and>
    length (sp_actors w') = length (sp_actors w) \<and>
    length (mPuppetInfoArr (sp_table w')) = length (mPuppetInfoArr (sp_table w)) \<and>
    (\<forall>a \<in> set ids. updated h w w' a) \<and>
    (\<forall>a. a \<notin> set ids \<longrightarrow> sp_actors w' ! a = sp_actors w ! a) \<and>
    (\<forall>i. i \<notin> slot_of w ` set ids \<longrightarrow>
       mPuppetInfoArr (sp_table w') ! i = mPuppetInfoArr (sp_table w) ! i)"
  using assms
proof (induction ids arbitrary: w)
  case Nil
  then show ?case by simp
next
  case (Cons a ids)
  have a: "a < length (sp_actors w)" "slot_of w a < length (mPuppetInfoArr (sp_table w))"
    "sp_info w ! a = Some (slot_of w a)" "a \<notin> set ids" "slot_of w a \<notin> slot_of w ` set ids"
    using Cons.prems by (auto simp: puppets_ok_def slot_of_def)
  let ?info = "(info_at w a)\<lparr>isInSameStage := checkInfoIsInStage h (info_at w a)\<rparr>"
  let ?v = "w\<lparr>sp_table := update_info (slot_of w a) (\<lambda>_. ?info) (sp_table w),
      sp_actors := (sp_actors w)[a := appear_or_leave ?info (sp_actors w ! a)]\<rparr>"
  have v: "update_puppet h (Some a) w = Inr ?v"
    using a(3) by (simp add: update_puppet_def Let_def)
  have sl: "slot_of ?v = slot_of w" by simp
  have "puppets_ok ids ?v"
    using Cons.prems by (auto simp: puppets_ok_def sl update_info_def)
  from Cons.IH [OF this] obtain w' where w': "update_all h (map Some ids) ?v = Inr w'"
    "sp_info w' = sp_info ?v" "length (sp_actors w') = length (sp_actors ?v)"
    "length (mPuppetInfoArr (sp_table w')) = length (mPuppetInfoArr (sp_table ?v))"
    "\<forall>b \<in> set ids. updated h ?v w' b"
    "\<forall>b. b \<notin> set ids \<longrightarrow> sp_actors w' ! b = sp_actors ?v ! b"
    "\<forall>i. i \<notin> slot_of w ` set ids \<longrightarrow>
       mPuppetInfoArr (sp_table w') ! i = mPuppetInfoArr (sp_table ?v) ! i"
    unfolding sl by blast
  have sl': "slot_of w' = slot_of w" using w'(2) by (simp add: slot_of_def fun_eq_iff)
  have "updated h w w' b" if "b \<in> set ids" for b
  proof -
    have "b \<noteq> a" using a(4) that by auto
    moreover have "slot_of w b \<noteq> slot_of w a" using a(5) that by (metis imageI)
    ultimately show ?thesis
      using w'(5) that by (simp add: updated_def Let_def sl sl' update_info_def)
  qed
  moreover have "updated h w w' a"
    using w'(6,7) a by (simp add: updated_def Let_def sl' update_info_def)
  ultimately show ?case
    using v w' a by (intro exI [of _ w']) (auto simp: update_info_def)
qed

lemma appear_or_leave_dead:
  "actor_dead (appear_or_leave info a) = (\<not> isInSameStage info)"
  by (auto simp: appear_or_leave_def emitJoinEffect_def puppet_makeActorAlive_def
      puppet_makeActorDead_def Let_def)

lemma appear_or_leave_effects:
  "join_effects (appear_or_leave info a) =
     join_effects a + (if actor_dead a = isInSameStage info then 1 else 0)"
  by (auto simp: appear_or_leave_def emitJoinEffect_def puppet_makeActorAlive_def
      puppet_makeActorDead_def model_alive_def model_dead_def Let_def split: option.splits)

lemma appear_or_leave_again:
  "actor_dead a = (\<not> isInSameStage info) \<Longrightarrow> appear_or_leave info a = a"
  by (auto simp: appear_or_leave_def)

lemma check_stage_idem [simp]:
  "checkInfoIsInStage h (info\<lparr>isInSameStage := b\<rparr>) = checkInfoIsInStage h info"
  by (simp add: checkInfoIsInStage_def)

text \<open>An update of the holder gives every registered puppet its presence: its slot's
  \<open>isInSameStage\<close> is what the stage check says, the actor is alive exactly when it is in the stage,
  and the join effect is played exactly for the puppets that appeared or left.\<close>

theorem holder_update_presence:
  assumes "pa_ok (mPuppetArr h)" and "pa_list (mPuppetArr h) = map Some ids" and "puppets_ok ids w"
  shows "\<exists>w'. holder_update h w = Inr w' \<and> (\<forall>a \<in> set ids.
    isInSameStage (info_at w' a) = checkInfoIsInStage h (info_at w a) \<and>
    actor_dead (sp_actors w' ! a) = (\<not> checkInfoIsInStage h (info_at w a)) \<and>
    join_effects (sp_actors w' ! a) = join_effects (sp_actors w ! a) +
      (if actor_dead (sp_actors w ! a) = checkInfoIsInStage h (info_at w a) then 1 else 0))"
  using update_all_spec [OF assms(3), of h] holder_update_all [OF assms(1)] assms(2)
  by (auto simp: updated_def Let_def appear_or_leave_dead appear_or_leave_effects)

definition two_puppets :: stage_puppets where
  "two_puppets =
     \<lparr>sp_actors = [puppet_actor_new, puppet_actor_new], sp_info = [Some 0, Some 1],
      sp_table = run_state [(uid_a, hello ''Mario'')]\<rparr>"

definition two_holder :: puppet_holder where
  "two_holder =
     \<lparr>mPuppetArr = \<lparr>mPtrNum = 2, mPtrNumMax = 9,
        mPtrs = Some [Some 0, Some 1, None, None, None, None, None, None, None]\<rparr>,
      mDebugPuppet = None, ph_stageName = [], ph_scenarioNo = 255\<rparr>"

theorem holder_update_presence_witness:
  "\<exists>w'. holder_update two_holder two_puppets = Inr w' \<and> \<not> actor_dead (sp_actors w' ! 0) \<and>
     actor_dead (sp_actors w' ! 1)"
proof -
  have l: "length (mPuppetInfoArr (run_state [(uid_a, hello ''Mario'')])) = MAXPUPINDEX"
    by (rule table_inv_length) (simp add: run_state_inv)
  have ok: "pa_ok (mPuppetArr two_holder)" "pa_list (mPuppetArr two_holder) = map Some [0, 1]"
    "puppets_ok [0, 1] two_puppets"
    by (simp_all add: pa_ok_def pa_list_def two_holder_def puppets_ok_def two_puppets_def slot_of_def
        l MAXPUPINDEX_def)
  have "checkInfoIsInStage two_holder (info_at two_puppets 0) \<and>
      \<not> checkInfoIsInStage two_holder (info_at two_puppets 1)" by code_simp
  with holder_update_presence [OF ok] show ?thesis by auto
qed

lemma same_stage_id: "isInSameStage p = b \<Longrightarrow> p\<lparr>isInSameStage := b\<rparr> = p"
  by (cases p) simp

lemma update_all_fixed:
  assumes "\<forall>a \<in> set ids. sp_info w ! a \<noteq> None \<and>
    isInSameStage (info_at w a) = checkInfoIsInStage h (info_at w a) \<and>
    actor_dead (sp_actors w ! a) = (\<not> isInSameStage (info_at w a))"
  shows "update_all h (map Some ids) w = Inr w"
  using assms
proof (induction ids)
  case Nil
  then show ?case by simp
next
  case (Cons a ids)
  then have a: "sp_info w ! a = Some (slot_of w a)"
    "isInSameStage (info_at w a) = checkInfoIsInStage h (info_at w a)"
    "actor_dead (sp_actors w ! a) = (\<not> isInSameStage (info_at w a))"
    by (auto simp: slot_of_def)
  have same: "(info_at w a)\<lparr>isInSameStage := checkInfoIsInStage h (info_at w a)\<rparr> = info_at w a"
    using a(2) by (rule same_stage_id)
  have "update_info (slot_of w a) (\<lambda>_. info_at w a) (sp_table w) = sp_table w"
    by (simp add: update_info_def)
  then have "update_puppet h (Some a) w = Inr w"
    unfolding update_puppet_def option.case a(1) Let_def same appear_or_leave_again [OF a(3)] by simp
  then show ?case using Cons by simp
qed

text \<open>The update is idempotent: a second one right after changes nothing and plays no effect.\<close>

theorem holder_update_idem:
  assumes "pa_ok (mPuppetArr h)" and "pa_list (mPuppetArr h) = map Some ids" and "puppets_ok ids w"
    and "holder_update h w = Inr w'"
  shows "holder_update h w' = Inr w'"
proof -
  from update_all_spec [OF assms(3), of h] assms(4) holder_update_all [OF assms(1)] assms(2)
  have w': "sp_info w' = sp_info w" "\<forall>a \<in> set ids. updated h w w' a" by auto
  have "sp_info w' ! a \<noteq> None \<and> isInSameStage (info_at w' a) = checkInfoIsInStage h (info_at w' a) \<and>
      actor_dead (sp_actors w' ! a) = (\<not> isInSameStage (info_at w' a))" if "a \<in> set ids" for a
  proof -
    have "updated h w w' a" using w'(2) that by blast
    then have "isInSameStage (info_at w' a) = checkInfoIsInStage h (info_at w' a)"
      "actor_dead (sp_actors w' ! a) = (\<not> isInSameStage (info_at w' a))"
      by (simp_all add: updated_def Let_def appear_or_leave_dead)
    then show ?thesis using assms(3) that w'(1) by (simp add: puppets_ok_def)
  qed
  then have "update_all h (map Some ids) w' = Inr w'" by (intro update_all_fixed) blast
  then show ?thesis using holder_update_all [OF assms(1)] assms(2) by simp
qed

theorem holder_update_idem_witness:
  "case holder_update two_holder two_puppets of Inl _ \<Rightarrow> False
   | Inr w' \<Rightarrow> holder_update two_holder w' = Inr w'"
proof -
  have l: "length (mPuppetInfoArr (run_state [(uid_a, hello ''Mario'')])) = MAXPUPINDEX"
    by (rule table_inv_length) (simp add: run_state_inv)
  have ok: "pa_ok (mPuppetArr two_holder)" "pa_list (mPuppetArr two_holder) = map Some [0, 1]"
    "puppets_ok [0, 1] two_puppets"
    by (simp_all add: pa_ok_def pa_list_def two_holder_def puppets_ok_def two_puppets_def slot_of_def
        l MAXPUPINDEX_def)
  obtain w' where "holder_update two_holder two_puppets = Inr w'"
    using update_all_spec [OF ok(3), of two_holder] holder_update_all [OF ok(1)] ok(2) by auto
  with holder_update_idem [OF ok this] show ?thesis by simp
qed

section \<open>Resizing never ends\<close>

lemma resize_loop_None:
  assumes "pa_ok old" and "1 \<le> newSize" and "cur \<noteq> 0"
  shows "pa_ok new \<Longrightarrow> 0 \<le> i \<Longrightarrow> i + int fuel \<le> 2 ^ 31 \<Longrightarrow> resize_loop fuel i cur newSize old new = None"
proof (induction fuel arbitrary: i new)
  case 0
  then show ?case by simp
next
  case (Suc fuel)
  obtain p where p: "pa_at old i = Inr p" using pa_at_spec [OF assms(1), of i] Suc.prems by auto
  obtain new' where new': "pa_pushBack p new = Inr new'" "pa_ok new'"
    using pa_pushBack_spec [OF Suc.prems(1), of p] by blast
  have "resize_condition i cur newSize" using assms(2,3) by (simp add: resize_condition_def)
  then show ?case using Suc.IH [OF new'(2), of "i + 1"] Suc.prems p new' by simp
qed

text \<open>C33: Resizing a holder that has puppets, to a positive size other than its capacity for which the new buffer is
  allocated, does not stop once the puppets are copied: the precedence of the loop's condition makes it hold in
  every round, so the loop is still running after any number of rounds up to \<open>2 ^ 31\<close>, when its
  signed counter overflows. What an overflow does is not defined by the language and not claimed here.\<close>

theorem resizeHolder_diverges:
  assumes "pa_ok (mPuppetArr h)" and "mPtrNum (mPuppetArr h) \<noteq> 0"
    and "1 \<le> newSize" and "newSize \<noteq> pa_capacity (mPuppetArr h)"
    and "alloc newSize = Some new" and "pa_ok new" and "fuel \<le> 2 ^ 31"
  shows "resizeHolder fuel alloc newSize h = None"
proof -
  have "mPtrs (mPuppetArr h) \<noteq> None"
    using assms(1,2) by (auto simp: pa_ok_def split: option.splits)
  moreover have "int fuel \<le> 2 ^ 31" using assms(7) by simp
  ultimately show ?thesis
    using assms resize_loop_None [OF assms(1,3,2) assms(6), of 0 fuel]
    by (auto simp: resizeHolder_def pa_isBufferReady_def pa_size_def)
qed

definition four_slots :: "nat ptr_array" where
  "four_slots = \<lparr>mPtrNum = 0, mPtrNumMax = 4, mPtrs = Some [None, None, None, None]\<rparr>"

theorem resizeHolder_diverges_witness:
  "resizeHolder 1000000 (\<lambda>n. Some four_slots) 4 two_holder = None"
proof (rule resizeHolder_diverges)
  show "pa_ok (mPuppetArr two_holder)" by (simp add: two_holder_def pa_ok_def)
  show "pa_ok four_slots" by (simp add: four_slots_def pa_ok_def)
qed (simp_all add: two_holder_def pa_capacity_def)

section \<open>Registration properties\<close>

text \<open>Registering a puppet in a well-formed holder never faults: it is appended while there is
  room, refused with the holder unchanged when it is full, and the return value says which.\<close>

theorem tryRegisterPuppet_spec:
  assumes "pa_ok (mPuppetArr h)"
  shows "\<exists>h'. tryRegisterPuppet p h = Inr (length (pa_list (mPuppetArr h)) < pa_cap (mPuppetArr h), h') \<and>
    pa_ok (mPuppetArr h') \<and> pa_cap (mPuppetArr h') = pa_cap (mPuppetArr h) \<and>
    pa_list (mPuppetArr h') = take (pa_cap (mPuppetArr h)) (pa_list (mPuppetArr h) @ [p])"
proof -
  obtain pa' where pa': "(if \<not> pa_isFull (mPuppetArr h)
      then rbind (pa_pushBack p (mPuppetArr h)) (\<lambda>t. Inr (True, t)) else Inr (False, mPuppetArr h)) =
      Inr (length (pa_list (mPuppetArr h)) < pa_cap (mPuppetArr h), pa')"
    "pa_ok pa'" "pa_cap pa' = pa_cap (mPuppetArr h)"
    "pa_list pa' = take (pa_cap (mPuppetArr h)) (pa_list (mPuppetArr h) @ [p])"
    using pa.try_push [OF assms] by blast
  have "tryRegisterPuppet p h =
      Inr (length (pa_list (mPuppetArr h)) < pa_cap (mPuppetArr h), h\<lparr>mPuppetArr := pa'\<rparr>)"
    using pa'(1) by (auto simp: tryRegisterPuppet_def rbind_def split: if_splits sum.splits)
  then show ?thesis using pa'(2-4) by (intro exI [of _ "h\<lparr>mPuppetArr := pa'\<rparr>"]) simp
qed

theorem tryRegisterPuppet_spec_witness:
  "\<exists>h'. tryRegisterPuppet (Some 4)
     \<lparr>mPuppetArr = \<lparr>mPtrNum = 1, mPtrNumMax = 2, mPtrs = Some [Some 3, None]\<rparr>, mDebugPuppet = None,
      ph_stageName = [], ph_scenarioNo = 0\<rparr> = Inr (True, h') \<and> pa_list (mPuppetArr h') = [Some 3, Some 4]"
  (is "\<exists>h'. tryRegisterPuppet _ ?h = _ \<and> _")
proof -
  have "pa_ok (mPuppetArr ?h)" by (simp add: pa_ok_def)
  from tryRegisterPuppet_spec [OF this, of "Some 4"] show ?thesis
    by (auto simp: pa_list_def pa_cap_def)
qed

end
