(* ===== verification/Shine_Sync.thy ===== *)
theory Shine_Sync
  imports Packets
begin

text \<open>
  The moons other players collected (\<open>server/Client.cpp\<close>: \<open>updateShineInfo\<close>, \<open>isShineCollected\<close>,
  \<open>removeShine\<close>, \<open>resetCollectedShines\<close>, \<open>updateShines\<close>): an array of 128 ids with a count of the
  ids in it. The read thread adds ids as packets arrive, the game thread marks them as collected in
  the game data and empties the array.
\<close>

section \<open>State and operations\<close>

record shine_sync =
  curCollectedShines :: "s32 list"
  collectedShineCount :: s32

definition shine_array_size :: nat where
  "shine_array_size = 128"

definition shine_sync_init :: shine_sync where
  "shine_sync_init =
     \<lparr>curCollectedShines = replicate shine_array_size (-1), collectedShineCount = 0\<rparr>"

text \<open>\<open>sead::SafeArray\<close> answers an index out of range with its element 0.\<close>

definition safe_index :: "s32 \<Rightarrow> nat" where
  "safe_index idx = (if unat idx < shine_array_size then unat idx else 0)"

definition updateShineInfo :: "ShineCollect \<Rightarrow> shine_sync \<Rightarrow> shine_sync" where
  "updateShineInfo packet s =
     (if sint (collectedShineCount s) < int shine_array_size - 1
      then s\<lparr>curCollectedShines :=
               (curCollectedShines s)[safe_index (collectedShineCount s) := shine_id packet],
             collectedShineCount := collectedShineCount s + 1\<rparr>
      else s)"

definition isShineCollected :: "s32 \<Rightarrow> shine_sync \<Rightarrow> bool" where
  "isShineCollected shineId s \<longleftrightarrow>
     list_ex (\<lambda>v. sint v \<ge> 0 \<and> v = shineId) (curCollectedShines s)"

definition resetCollectedShines :: "shine_sync \<Rightarrow> shine_sync" where
  "resetCollectedShines s =
     s\<lparr>collectedShineCount := 0, curCollectedShines := replicate shine_array_size (-1)\<rparr>"

fun remove_loop :: "s32 \<Rightarrow> s32 list \<Rightarrow> s32 \<Rightarrow> s32 list \<times> s32" where
  "remove_loop shineId [] n = ([], n)"
| "remove_loop shineId (v # vs) n =
     (if v = shineId then (case remove_loop shineId vs (n - 1) of (ws, m) \<Rightarrow> (-1 # ws, m))
      else (case remove_loop shineId vs n of (ws, m) \<Rightarrow> (v # ws, m)))"

definition removeShine :: "s32 \<Rightarrow> shine_sync \<Rightarrow> shine_sync" where
  "removeShine shineId s =
     (case remove_loop shineId (curCollectedShines s) (collectedShineCount s) of
        (vs, n) \<Rightarrow> s\<lparr>curCollectedShines := vs, collectedShineCount := n\<rparr>)"

definition isNeedUpdateShines :: "shine_sync \<Rightarrow> bool" where
  "isNeedUpdateShines s \<longleftrightarrow> sint (collectedShineCount s) > 0"

definition getShineID :: "s32 \<Rightarrow> shine_sync \<Rightarrow> s32" where
  "getShineID index s =
     (if sint index < int shine_array_size then curCollectedShines s ! safe_index index else -1)"

text \<open>
  \<open>updateShines\<close>. The game data \<open>'g\<close> belongs to the game: \<open>hint\<close> looks a moon up by its id,
  \<open>isGot\<close> and \<open>setGot\<close> read and write its collected flag. The moons of the stage that are collected
  on the way are returned in order.
\<close>

fun updateShines_loop ::
  "(s32 \<Rightarrow> 'h option) \<Rightarrow> ('g \<Rightarrow> 'h \<Rightarrow> bool) \<Rightarrow> ('h \<Rightarrow> 'g \<Rightarrow> 'g) \<Rightarrow> (s32 \<Rightarrow> nat option) \<Rightarrow>
   s32 list \<Rightarrow> 'g \<Rightarrow> 'g \<times> nat list" where
  "updateShines_loop hint isGot setGot stageShine [] g = (g, [])"
| "updateShines_loop hint isGot setGot stageShine (shineID # ids) g =
     (if sint shineID < 0 then updateShines_loop hint isGot setGot stageShine ids g
      else (case hint shineID of
              None \<Rightarrow> updateShines_loop hint isGot setGot stageShine ids g
            | Some shineInfo \<Rightarrow>
                if isGot g shineInfo then updateShines_loop hint isGot setGot stageShine ids g
                else (case updateShines_loop hint isGot setGot stageShine ids (setGot shineInfo g) of
                        (g', taken) \<Rightarrow>
                          (g', (case stageShine shineID of Some sh \<Rightarrow> sh # taken | None \<Rightarrow> taken)))))"

definition updateShines ::
  "(s32 \<Rightarrow> 'h option) \<Rightarrow> ('g \<Rightarrow> 'h \<Rightarrow> bool) \<Rightarrow> ('h \<Rightarrow> 'g \<Rightarrow> 'g) \<Rightarrow> (s32 \<Rightarrow> nat option) \<Rightarrow>
   string \<Rightarrow> u8 \<Rightarrow> shine_sync \<Rightarrow> 'g \<Rightarrow> shine_sync \<times> 'g \<times> nat list" where
  "updateShines hint isGot setGot stageShine stage scenario s g =
     (if stage = ''CapWorldHomeStage'' \<and> (scenario = 0 \<or> scenario = 1) then (s, g, [])
      else (case updateShines_loop hint isGot setGot stageShine (curCollectedShines s) g of
              (g', taken) \<Rightarrow> (resetCollectedShines s, g', taken)))"

text \<open>The client's own collection: a packet unless the moon is the last one it sent.\<close>

definition sendShineCollect :: "s32 \<Rightarrow> s32 \<Rightarrow> ShineCollect option \<times> s32" where
  "sendShineCollect shineID lastCollectedShine =
     (if lastCollectedShine \<noteq> shineID then (Some \<lparr>shine_id = shineID, is_grand = None\<rparr>, shineID)
      else (None, lastCollectedShine))"

section \<open>The array as a list of ids\<close>

text \<open>The state in which the ids \<open>xs\<close> have arrived since the array was last emptied.\<close>

definition shine_list :: "s32 list \<Rightarrow> shine_sync" where
  "shine_list xs =
     \<lparr>curCollectedShines = xs @ replicate (shine_array_size - length xs) (-1),
      collectedShineCount = of_nat (length xs)\<rparr>"

lemma shine_list_init: "shine_list [] = shine_sync_init"
  by (simp add: shine_list_def shine_sync_init_def)

lemma count_small:
  "n < 2 ^ 31 \<Longrightarrow> unat (of_nat n :: s32) = n \<and> sint (of_nat n :: s32) = int n"
proof -
  assume n: "n < 2 ^ 31"
  then have u: "unat (of_nat n :: s32) = n" by (simp add: unsigned_of_nat take_bit_nat_eq_self)
  with n have "unat (of_nat n :: s32) < 2 ^ 31" by simp
  from sint_small32 [OF this] u show ?thesis by simp
qed

lemma updateShineInfo_list:
  "length xs \<le> 127 \<Longrightarrow> updateShineInfo p (shine_list xs) =
     (if length xs < 127 then shine_list (xs @ [shine_id p]) else shine_list xs)"
proof -
  assume le: "length xs \<le> 127"
  have c: "unat (of_nat (length xs) :: s32) = length xs" "sint (of_nat (length xs) :: s32) = int (length xs)"
    using count_small [of "length xs"] le by simp_all
  show ?thesis
  proof (cases "length xs < 127")
    case True
    then obtain k where k: "shine_array_size - length xs = Suc k"
      "shine_array_size - Suc (length xs) = k"
      by (cases "shine_array_size - length xs") (auto simp: shine_array_size_def)
    have "(xs @ replicate (Suc k) (-1))[length xs := shine_id p] = (xs @ [shine_id p]) @ replicate k (-1)"
      by simp
    with True k c show ?thesis
      by (simp add: updateShineInfo_def shine_list_def safe_index_def shine_array_size_def
          add.commute del: append_assoc)
  next
    case False
    with le c show ?thesis by (simp add: updateShineInfo_def shine_list_def shine_array_size_def)
  qed
qed

lemma isShineCollected_list:
  "isShineCollected x (shine_list xs) \<longleftrightarrow> 0 \<le> sint x \<and> x \<in> set xs"
  by (auto simp: isShineCollected_def shine_list_def list_ex_iff)

lemma fold_updateShineInfo:
  "length xs + length ps \<le> 127 \<Longrightarrow>
   fold updateShineInfo ps (shine_list xs) = shine_list (xs @ map shine_id ps)"
proof (induction ps arbitrary: xs)
  case Nil
  then show ?case by simp
next
  case (Cons p ps)
  then show ?case using updateShineInfo_list [of xs p] Cons.IH [of "xs @ [shine_id p]"] by simp
qed

section \<open>Properties\<close>

text \<open>After any run of at most 127 collection packets, exactly the non-negative ids of the packets are
  reported as collected; the 128th packet and all later ones are dropped.\<close>

theorem shines_collected:
  assumes "length ps \<le> 127"
  shows "(isShineCollected x (fold updateShineInfo ps shine_sync_init) \<longleftrightarrow>
      0 \<le> sint x \<and> x \<in> shine_id ` set ps) \<and>
    (length ps = 127 \<longrightarrow> updateShineInfo p (fold updateShineInfo ps shine_sync_init) =
      fold updateShineInfo ps shine_sync_init)"
  using assms fold_updateShineInfo [of "[]" ps] updateShineInfo_list [of "map shine_id ps" p]
  by (simp add: shine_list_init isShineCollected_list)

theorem shines_collected_witness:
  "isShineCollected 7 (fold updateShineInfo [\<lparr>shine_id = 3, is_grand = None\<rparr>,
     \<lparr>shine_id = 7, is_grand = None\<rparr>] shine_sync_init)"
  by (subst shines_collected [THEN conjunct1]) simp_all

lemma remove_loop_eq:
  "remove_loop r vs n = (map (\<lambda>v. if v = r then -1 else v) vs, n - of_nat (count_list vs r))"
  by (induction vs arbitrary: n) (auto simp: algebra_simps)

lemma count_list_distinct: "distinct xs \<Longrightarrow> x \<in> set xs \<Longrightarrow> count_list xs x = 1"
  by (induction xs) (auto simp: count_notin)

text \<open>Removing one moon loses another: the removed id leaves a hole but the count drops, so the
  next moon that arrives overwrites the last one, which then is no longer reported.\<close>

theorem removeShine_loses_last:
  assumes "length xs \<le> 126" and "distinct (xs @ [z])" and "r \<in> set xs"
    and "0 \<le> sint r" and "0 \<le> sint z" and "shine_id p \<noteq> z"
  shows "isShineCollected z (removeShine r (shine_list (xs @ [z]))) \<and>
    \<not> isShineCollected z (updateShineInfo p (removeShine r (shine_list (xs @ [z]))))"
proof -
  let ?n = "length xs"
  let ?f = "\<lambda>v. if v = r then -1 else (v :: s32)"
  have z: "z \<noteq> r" "z \<notin> set xs" "z \<noteq> -1" "r \<noteq> -1" using assms by auto
  have "count_list (xs @ [z] @ replicate (shine_array_size - Suc ?n) (-1)) r = 1"
    using assms(2-4) z by (auto simp: count_list_append count_list_distinct count_notin)
  then have rem: "removeShine r (shine_list (xs @ [z])) =
      \<lparr>curCollectedShines = map ?f xs @ [z] @ replicate (shine_array_size - Suc ?n) (-1),
       collectedShineCount = of_nat ?n\<rparr>"
    using assms(4) z by (auto simp: removeShine_def shine_list_def remove_loop_eq)
  have c: "unat (of_nat ?n :: s32) = ?n" "sint (of_nat ?n :: s32) = int ?n"
    using count_small [of ?n] assms(1) by simp_all
  have "updateShineInfo p (removeShine r (shine_list (xs @ [z]))) =
      \<lparr>curCollectedShines = map ?f xs @ [shine_id p] @ replicate (shine_array_size - Suc ?n) (-1),
       collectedShineCount = of_nat ?n + 1\<rparr>"
    unfolding rem updateShineInfo_def
    using c assms(1) by (simp add: safe_index_def shine_array_size_def list_update_append)
  then show ?thesis
    unfolding rem isShineCollected_def using assms z by (auto simp: list_ex_iff split: if_splits)
qed

theorem removeShine_loses_last_witness:
  "\<not> isShineCollected 3 (updateShineInfo \<lparr>shine_id = 4, is_grand = None\<rparr>
     (removeShine 1 (shine_list ([1, 2] @ [3]))))"
  by (rule removeShine_loses_last [THEN conjunct2]) simp_all

lemma updateShines_loop_got:
  assumes "\<And>h g k. isGot (setGot h g) k \<longleftrightarrow> k = h \<or> isGot g k"
    and "updateShines_loop hint isGot setGot stageShine ids g = (g', taken)"
  shows "isGot g' k \<longleftrightarrow> isGot g k \<or> (\<exists>x \<in> set ids. 0 \<le> sint x \<and> hint x = Some k)"
  using assms(2)
proof (induction ids arbitrary: g g' taken)
  case Nil
  then show ?case by simp
next
  case (Cons a ids)
  show ?case
  proof (cases "sint a < 0 \<or> hint a = None \<or> isGot g (the (hint a))")
    case True
    then have "updateShines_loop hint isGot setGot stageShine ids g = (g', taken)"
      using Cons.prems by (cases "sint a < 0"; cases "hint a") (auto split: if_splits)
    from Cons.IH [OF this] True show ?thesis by (cases "hint a") auto
  next
    case False
    then obtain h t where h: "hint a = Some h" "\<not> isGot g h" "0 \<le> sint a"
      and "updateShines_loop hint isGot setGot stageShine ids (setGot h g) = (g', t)"
      using Cons.prems by (auto split: prod.splits)
    from Cons.IH [OF this(4)] h assms(1) show ?thesis by auto
  qed
qed

text \<open>Outside the two opening scenarios, one update marks in the game data exactly the moons whose
  ids are in the array and known to the game, keeps the ones already marked, and empties the array.
  (The game data is any store whose flag reads back what was set.)\<close>

theorem updateShines_marks:
  assumes "\<And>h g k. isGot (setGot h g) k \<longleftrightarrow> k = h \<or> isGot g k"
    and "stage \<noteq> ''CapWorldHomeStage''"
    and "updateShines hint isGot setGot stageShine stage scenario s g = (s', g', taken)"
  shows "(isGot g' k \<longleftrightarrow> isGot g k \<or> (\<exists>x. isShineCollected x s \<and> hint x = Some k)) \<and>
    curCollectedShines s' = replicate shine_array_size (-1) \<and> collectedShineCount s' = 0 \<and>
    \<not> isShineCollected x s'"
proof -
  obtain t where loop: "updateShines_loop hint isGot setGot stageShine (curCollectedShines s) g = (g', t)"
    and s': "s' = resetCollectedShines s"
    using assms(2,3) by (auto simp: updateShines_def split: prod.splits)
  have "isGot g' k \<longleftrightarrow> isGot g k \<or> (\<exists>x. isShineCollected x s \<and> hint x = Some k)"
    using updateShines_loop_got [OF assms(1) loop] by (auto simp: isShineCollected_def list_ex_iff)
  then show ?thesis
    by (auto simp: s' resetCollectedShines_def isShineCollected_def list_ex_iff)
qed

theorem updateShines_marks_witness:
  "case updateShines (\<lambda>i. Some i) (\<lambda>g k. k \<in> g) insert (\<lambda>_. None) ''ForestWorldHomeStage'' 2
     (shine_list [5, 9]) {1 :: s32} of (s', g', _) \<Rightarrow> (5 \<in> g') \<and> \<not> isShineCollected 5 s'"
proof -
  obtain s' g' t where u: "updateShines (\<lambda>i. Some i) (\<lambda>g k. k \<in> g) insert (\<lambda>_. None)
      ''ForestWorldHomeStage'' 2 (shine_list [5, 9]) {1 :: s32} = (s', g', t)"
    by (metis prod_cases3)
  have "(5 \<in> g') = (5 \<in> {1 :: s32} \<or> (\<exists>x. isShineCollected x (shine_list [5, 9]) \<and> Some x = Some (5 :: s32))) \<and>
      curCollectedShines s' = replicate shine_array_size (-1) \<and> collectedShineCount s' = 0 \<and>
      \<not> isShineCollected 5 s'"
    by (rule updateShines_marks [OF _ _ u]) auto
  then show ?thesis unfolding u by (simp add: isShineCollected_list)
qed

end
