(* ===== verification/Socket_Client.thy ===== *)
theory Socket_Client
  imports Packets
begin

text \<open>
  The TCP client (\<open>SocketBase.hpp\<close>, \<open>server/SocketBase.cpp\<close>, \<open>server/SocketClient.cpp\<close>): its
  connection state, the framing of packets as a length and a JSON text, reconnecting, and the two
  queues between the socket threads and the client with the ownership of the packets in them.

  What the operating system answers is a list of events that each call consumes in order; an
  operation that needs an answer the list does not have blocks (\<open>None\<close>). The JSON text of a message
  (\<open>to_json\<close>, \<open>from_json\<close>) and the message comparison are the protobuf library's. A queue is a list
  with at most 100 addresses, first in first out (\<open>sead::MessageQueue\<close> is the engine's). An address
  is a packet of the client's heap or one of the packets the \<open>Client\<close> object holds as a member;
  freeing anything that is not a live heap address is a fault.
\<close>

section \<open>State\<close>

datatype sock_state =
    SOCKET_LOG_UNINITIALIZED
  | SOCKET_LOG_CONNECTED
  | SOCKET_LOG_UNAVAILABLE
  | SOCKET_LOG_DISCONNECTED

datatype member =
    LastPlayerInf
  | LastGameInf
  | LastCostumeInf
  | LastFlagHoldState
  | LastCTFWin

datatype addr = Heap nat | Member member

record sock =
  socket_log_state :: sock_state
  socket_errno :: u32
  socket_log_socket :: s32
  mIsFirstConnect :: bool
  mSendQueue :: "addr list"
  mRecvQueue :: "addr list"
  heap :: "nat \<Rightarrow> Packet option"
  next_addr :: nat
  members :: "member \<Rightarrow> Packet"
  threads_idle :: bool
  wire :: string

datatype os_event =
    Ev_close bool
  | Ev_network bool u32
  | Ev_socket s32 u32
  | Ev_resolve bool u32
  | Ev_connect bool u32
  | Ev_send int u32
  | Ev_recv string u32
  | Ev_alloc bool
  | Ev_errno u32

record sock_cfg =
  to_json :: "Packet \<Rightarrow> string"
  from_json :: "string \<Rightarrow> Packet"
  msg_Equals :: "Packet \<Rightarrow> Packet \<Rightarrow> bool"
  my_uid :: uid
  my_name :: string

text \<open>An operation returns a value, the new state and the events left, or faults, or blocks.\<close>

type_synonym 'a os_result = "('a \<times> sock \<times> os_event list) res option"

definition maxBufSize :: nat where
  "maxBufSize = 100"

definition sendQueue_full :: "sock \<Rightarrow> bool" where
  "sendQueue_full s \<longleftrightarrow> length (mSendQueue s) = maxBufSize"

definition recvQueue_full :: "sock \<Rightarrow> bool" where
  "recvQueue_full s \<longleftrightarrow> length (mRecvQueue s) = maxBufSize"

definition isConnected_sock :: "sock \<Rightarrow> bool" where
  "isConnected_sock s \<longleftrightarrow> socket_log_state s = SOCKET_LOG_CONNECTED"

section \<open>The heap\<close>

definition packet_at :: "addr \<Rightarrow> sock \<Rightarrow> Packet res" where
  "packet_at a s =
     (case a of
        Member m \<Rightarrow> Inr (members s m)
      | Heap k \<Rightarrow> (case heap s k of Some p \<Rightarrow> Inr p | None \<Rightarrow> Inl UseAfterFree))"

definition heap_free :: "addr \<Rightarrow> sock \<Rightarrow> sock res" where
  "heap_free a s =
     (case a of
        Member m \<Rightarrow> Inl BadFree
      | Heap k \<Rightarrow> (case heap s k of Some p \<Rightarrow> Inr (s\<lparr>heap := (heap s)(k := None)\<rparr>) | None \<Rightarrow> Inl BadFree))"

definition heap_new :: "Packet \<Rightarrow> sock \<Rightarrow> addr \<times> sock" where
  "heap_new p s =
     (Heap (next_addr s), s\<lparr>heap := (heap s)(next_addr s := Some p), next_addr := next_addr s + 1\<rparr>)"

section \<open>Queues\<close>

text \<open>\<open>queuePacket\<close> takes over the packet: it is queued or freed.\<close>

definition queuePacket :: "addr \<Rightarrow> sock \<Rightarrow> (bool \<times> sock) res" where
  "queuePacket packet s =
     (if isConnected_sock s \<and> \<not> sendQueue_full s
      then Inr (True, s\<lparr>mSendQueue := mSendQueue s @ [packet]\<rparr>)
      else rbind (heap_free packet s) (\<lambda>s. Inr (False, s)))"

text \<open>\<open>tryGetPacket\<close> blocks on an empty queue; without a connection it returns a null pointer.\<close>

definition tryGetPacket :: "sock \<Rightarrow> (addr option \<times> sock) option" where
  "tryGetPacket s =
     (if isConnected_sock s
      then (case mRecvQueue s of
              [] \<Rightarrow> None
            | a # q \<Rightarrow> Some (Some a, s\<lparr>mRecvQueue := q\<rparr>))
      else Some (None, s))"

definition resendInitPackets :: "sock_cfg \<Rightarrow> sock \<Rightarrow> sock res" where
  "resendInitPackets cfg s =
     rbind (if packet_uid (members s LastCostumeInf) = my_uid cfg
            then rbind (queuePacket (Member LastCostumeInf) s) (\<lambda>(_, s). Inr s) else Inr s) (\<lambda>s.
     if \<not> msg_Equals cfg (members s LastGameInf) Packet_empty
     then rbind (queuePacket (Member LastGameInf) s) (\<lambda>(_, s). Inr s) else Inr s)"

section \<open>Framing\<close>

text \<open>The length prefix is an \<open>int32_t\<close> in the byte order of the machine (little endian).\<close>

definition le32 :: "nat \<Rightarrow> string" where
  "le32 n = map (\<lambda>i. char_of ((n div 256 ^ i) mod 256)) [0..<4]"

definition le32_read :: "string \<Rightarrow> int" where
  "le32_read bs =
     (let u = (\<Sum>i\<leftarrow>[0..<4]. of_char (bs ! i) * (256::int) ^ i)
      in if u < 2 ^ 31 then u else u - 2 ^ 32)"

section \<open>Sending and reconnecting\<close>

definition connect_packet :: "sock_cfg \<Rightarrow> bool \<Rightarrow> Packet" where
  "connect_packet cfg first =
     system_packet_of (my_uid cfg) (Player_connect
       \<lparr>con_type = (if first then 0 else 1), max_player_count = 0, client_name = my_name cfg\<rparr>)"

definition close_sock :: "sock \<Rightarrow> os_event list \<Rightarrow> bool os_result" where
  "close_sock s evs =
     (case evs of
        Ev_close ok # evs \<Rightarrow>
          Some (Inr (ok, s\<lparr>socket_log_state := SOCKET_LOG_DISCONNECTED\<rparr>, evs))
      | _ \<Rightarrow> None)"

definition startThreads :: "sock \<Rightarrow> bool \<times> sock" where
  "startThreads s = (if threads_idle s then (True, s\<lparr>threads_idle := False\<rparr>) else (False, s))"

definition unavailable :: "u32 \<Rightarrow> sock \<Rightarrow> sock" where
  "unavailable errno s = s\<lparr>socket_errno := errno, socket_log_state := SOCKET_LOG_UNAVAILABLE\<rparr>"

text \<open>The part of \<open>init\<close> up to the connection; the flag says whether \<open>Connect\<close> succeeded.\<close>

definition open_sock :: "sock \<Rightarrow> os_event list \<Rightarrow> bool os_result" where
  "open_sock s evs =
     (case evs of
        Ev_network up errno # evs \<Rightarrow>
          if \<not> up then Some (Inr (False, unavailable errno s, evs))
          else (case evs of
            Ev_socket fd errno # evs \<Rightarrow>
              let s = s\<lparr>socket_log_socket := fd\<rparr>
              in if sint fd < 0 then Some (Inr (False, unavailable errno s, evs))
                 else (case evs of
                   Ev_resolve ok errno # evs \<Rightarrow>
                     if \<not> ok then Some (Inr (False, unavailable errno s, evs))
                     else (case evs of
                       Ev_connect ok errno # evs \<Rightarrow>
                         if \<not> ok then Some (Inr (False, unavailable errno s, evs))
                         else Some (Inr (True,
                                snd (startThreads (s\<lparr>socket_log_state := SOCKET_LOG_CONNECTED\<rparr>)), evs))
                     | _ \<Rightarrow> None)
                 | _ \<Rightarrow> None)
          | _ \<Rightarrow> None)
      | _ \<Rightarrow> None)"

definition os_bind :: "'a os_result \<Rightarrow> ('a \<Rightarrow> sock \<Rightarrow> os_event list \<Rightarrow> 'b os_result) \<Rightarrow> 'b os_result" where
  "os_bind r f =
     (case r of
        None \<Rightarrow> None
      | Some (Inl e) \<Rightarrow> Some (Inl e)
      | Some (Inr (x, s, evs)) \<Rightarrow> f x s evs)"

lemma os_bind_cong [fundef_cong]:
  "r = r' \<Longrightarrow> (\<And>x s evs. r' = Some (Inr (x, s, evs)) \<Longrightarrow> f x s evs = g x s evs) \<Longrightarrow>
   os_bind r f = os_bind r' g"
  by (auto simp: os_bind_def split: option.splits sum.splits)

lemma open_sock_less:
  "open_sock s evs = Some (Inr (b, t, rest)) \<Longrightarrow> length rest < length evs"
  by (auto simp: open_sock_def Let_def split: list.splits os_event.splits if_splits)

lemma close_sock_less:
  "close_sock s evs = Some (Inr (b, t, rest)) \<Longrightarrow> length rest < length evs"
  by (auto simp: close_sock_def split: list.splits os_event.splits)

text \<open>
  One call of the \<open>sendData\<close> lambda before its reconnection: \<open>Send\<close> may take only a part of the data,
  and any positive result counts as success.
\<close>

definition os_send :: "string \<Rightarrow> sock \<Rightarrow> os_event list \<Rightarrow> bool os_result" where
  "os_send data s evs =
     (case evs of
        Ev_send n errno # evs \<Rightarrow>
          if n > 0 then Some (Inr (True, s\<lparr>wire := wire s @ take (nat n) data\<rparr>, evs))
          else Some (Inr (False, s\<lparr>socket_errno := errno\<rparr>, evs))
      | _ \<Rightarrow> None)"

lemma os_send_less:
  "os_send data s evs = Some (Inr (b, t, rest)) \<Longrightarrow> length rest < length evs"
  by (auto simp: os_send_def split: list.splits os_event.splits if_splits)

text \<open>
  \<open>send\<close>, \<open>tryReconnect\<close> and \<open>init\<close> call one another: a failed \<open>Send\<close> reconnects, a reconnection
  opens the socket again and sends the connect packet with \<open>send\<close>. Every round consumes events.
\<close>

function sock_send :: "sock_cfg \<Rightarrow> addr \<Rightarrow> sock \<Rightarrow> os_event list \<Rightarrow> bool os_result"
  and tryReconnect :: "sock_cfg \<Rightarrow> sock \<Rightarrow> os_event list \<Rightarrow> bool os_result"
  and sock_init :: "sock_cfg \<Rightarrow> sock \<Rightarrow> os_event list \<Rightarrow> bool os_result"
where
  "sock_send cfg packet s evs =
     (if \<not> isConnected_sock s then Some (Inr (False, s, evs))
      else (case packet_at packet s of
              Inl e \<Rightarrow> Some (Inl e)
            | Inr p \<Rightarrow>
                os_bind (os_send (le32 (length (to_json cfg p))) s evs) (\<lambda>ok s evs.
                  if \<not> ok
                  then os_bind (tryReconnect cfg s evs) (\<lambda>_ s evs. Some (Inr (False, s, evs)))
                  else os_bind (os_send (to_json cfg p) s evs) (\<lambda>ok s evs.
                    if \<not> ok
                    then os_bind (tryReconnect cfg s evs) (\<lambda>_ s evs. Some (Inr (False, s, evs)))
                    else Some (Inr (True, s, evs))))))"
| "tryReconnect cfg s evs =
     os_bind (close_sock s evs) (\<lambda>closed s evs.
       if closed then sock_init cfg s evs else Some (Inr (False, s, evs)))"
| "sock_init cfg s evs =
     os_bind (open_sock s evs) (\<lambda>opened s evs.
       if \<not> opened then Some (Inr (False, s, evs))
       else os_bind (sock_send cfg (fst (heap_new (connect_packet cfg (mIsFirstConnect s)) s))
                       (snd (heap_new (connect_packet cfg (mIsFirstConnect s)) s)
                          \<lparr>mIsFirstConnect := False\<rparr>) evs)
              (\<lambda>_ s' evs.
                 if mIsFirstConnect s then Some (Inr (True, s', evs))
                 else (case resendInitPackets cfg s' of
                         Inl e \<Rightarrow> Some (Inl e)
                       | Inr s'' \<Rightarrow> Some (Inr (True, s'', evs)))))"
  by pat_completeness auto
termination
  by (relation "measure (\<lambda>x. case x of
        Inl (_, _, _, evs) \<Rightarrow> 2 * length evs
      | Inr (Inl (_, _, evs)) \<Rightarrow> 2 * length evs + 1
      | Inr (Inr (_, _, evs)) \<Rightarrow> 2 * length evs)")
    (auto dest!: open_sock_less close_sock_less os_send_less)

section \<open>Receiving\<close>

text \<open>
  A read loop: calls of \<open>Recv\<close> for the bytes still missing, until \<open>need\<close> are there or a call fails
  (no bytes). The outcome says whether it is complete, what was read and the last error number.
\<close>

fun read_loop :: "nat \<Rightarrow> string \<Rightarrow> u32 \<Rightarrow> os_event list \<Rightarrow> (bool \<times> string \<times> u32 \<times> os_event list) option" where
  "read_loop need acc errno evs =
     (if length acc \<ge> need then Some (True, acc, errno, evs)
      else (case evs of
              Ev_recv bs e # evs' \<Rightarrow>
                if bs = [] then Some (False, acc, e, evs')
                else read_loop need (acc @ take (need - length acc) bs) e evs'
            | _ \<Rightarrow> None))"

declare read_loop.simps [simp del]

definition headerSize :: nat where
  "headerSize = 4"

text \<open>
  The buffer of the body: \<open>fresh n\<close> is what a newly allocated block of \<open>n\<close> bytes holds. The read
  into it starts behind the header's length, at offset 4.
\<close>

definition packet_text :: "(nat \<Rightarrow> string) \<Rightarrow> nat \<Rightarrow> string \<Rightarrow> string" where
  "packet_text fresh n got = take n (take headerSize (fresh n) @ got)"

definition finish_recv :: "sock_cfg \<Rightarrow> string \<Rightarrow> sock \<Rightarrow> os_event list \<Rightarrow> bool os_result" where
  "finish_recv cfg packetJson s evs =
     (case evs of
        Ev_alloc ok # evs \<Rightarrow>
          if \<not> ok then Some (Inr (False, s, evs))
          else (case heap_new (from_json cfg packetJson) s of
                  (packet, s) \<Rightarrow>
                    if \<not> recvQueue_full s
                    then Some (Inr (True, s\<lparr>mRecvQueue := mRecvQueue s @ [packet]\<rparr>, evs))
                    else (case heap_free packet s of
                            Inl e \<Rightarrow> Some (Inl e)
                          | Inr s \<Rightarrow> Some (Inr (True, s, evs))))
      | _ \<Rightarrow> None)"

definition EWOULDBLOCK :: u32 where
  "EWOULDBLOCK = 11"

definition sock_recv :: "sock_cfg \<Rightarrow> (nat \<Rightarrow> string) \<Rightarrow> sock \<Rightarrow> os_event list \<Rightarrow> bool os_result" where
  "sock_recv cfg fresh s evs =
     (if \<not> isConnected_sock s
      then (case evs of
              Ev_errno e # evs \<Rightarrow> tryReconnect cfg (s\<lparr>socket_errno := e\<rparr>) evs
            | _ \<Rightarrow> None)
      else (case read_loop headerSize [] (socket_errno s) evs of
              None \<Rightarrow> None
            | Some (full_read, header, errno, evs) \<Rightarrow>
                let s = s\<lparr>socket_errno := errno\<rparr>
                in if \<not> full_read
                   then if errno = EWOULDBLOCK then Some (Inr (True, s, evs)) else tryReconnect cfg s evs
                   else let packetSize = le32_read header
                        in (case evs of
                              Ev_alloc ok # evs \<Rightarrow>
                                if \<not> ok then Some (Inr (True, s, evs))
                                else (case read_loop (nat (packetSize - int headerSize)) [] errno evs of
                                        None \<Rightarrow> None
                                      | Some (full_read, got, errno, evs) \<Rightarrow>
                                          let s = s\<lparr>socket_errno := errno\<rparr>
                                          in if \<not> full_read then tryReconnect cfg s evs
                                             else if packetSize < 0 then Some (Inl OutOfBounds)
                                             else finish_recv cfg (packet_text fresh (nat packetSize) got) s evs)
                            | _ \<Rightarrow> None)))"

section \<open>The send thread\<close>

text \<open>\<open>trySendQueue\<close> blocks on an empty queue; it frees what it sent.\<close>

definition trySendQueue :: "sock_cfg \<Rightarrow> sock \<Rightarrow> os_event list \<Rightarrow> bool os_result" where
  "trySendQueue cfg s evs =
     (case mSendQueue s of
        [] \<Rightarrow> None
      | curPacket # q \<Rightarrow>
          os_bind (sock_send cfg curPacket (s\<lparr>mSendQueue := q\<rparr>) evs) (\<lambda>sent s evs.
            case heap_free curPacket s of
              Inl e \<Rightarrow> Some (Inl e)
            | Inr s \<Rightarrow> Some (Inr (sent, s, evs))))"

text \<open>\<open>startThreads\<close> starts both threads when both are idle; \<open>endThreads\<close> destroys them.\<close>

definition endThreads :: "sock \<Rightarrow> sock" where
  "endThreads s = s\<lparr>threads_idle := True\<rparr>"

definition getStateChar :: "sock \<Rightarrow> string" where
  "getStateChar s =
     (case socket_log_state s of
        SOCKET_LOG_CONNECTED \<Rightarrow> ''Socket Connected''
      | SOCKET_LOG_UNAVAILABLE \<Rightarrow> ''Socket Unavailable''
      | SOCKET_LOG_UNINITIALIZED \<Rightarrow> ''Socket Unitialized''
      | SOCKET_LOG_DISCONNECTED \<Rightarrow> ''Socket Disconnected'')"

definition getFd :: "sock \<Rightarrow> s32" where
  "getFd s = (if isConnected_sock s then socket_log_socket s else -1)"

section \<open>Reading loops\<close>

lemma read_loop_chunks:
  assumes "\<forall>c \<in> set cs. c \<noteq> []" and "length acc + length (concat cs) = need"
  shows "read_loop need acc errno (map (\<lambda>c. Ev_recv c e) cs @ evs) =
    Some (True, acc @ concat cs, if cs = [] then errno else e, evs)"
  using assms
proof (induction cs arbitrary: acc errno)
  case Nil
  then show ?case by (subst read_loop.simps) simp
next
  case (Cons c cs)
  then have lt: "length acc < need" by (cases c) auto
  have fits: "take (need - length acc) c = c" using Cons.prems by simp
  have "read_loop need acc errno (map (\<lambda>c. Ev_recv c e) (c # cs) @ evs) =
      read_loop need (acc @ c) e (map (\<lambda>c. Ev_recv c e) cs @ evs)"
    using lt Cons.prems(1) fits by (subst read_loop.simps) simp
  also have "\<dots> = Some (True, (acc @ c) @ concat cs, e, evs)"
    using Cons.IH [of "acc @ c" e] Cons.prems by simp
  finally show ?case by simp
qed

lemma length_le32 [simp]: "length (le32 n) = 4"
  by (simp add: le32_def)

lemma bytes_sum:
  "n mod 256 + n div 256 mod 256 * 256 + n div 65536 mod 256 * 65536 + n div 16777216 * 16777216 = (n::nat)"
proof -
  have 1: "n div 65536 = n div 256 div 256" by (simp add: div_mult2_eq [symmetric])
  have 2: "n div 16777216 = n div 256 div 256 div 256" by (simp add: div_mult2_eq [symmetric])
  have "n mod 256 + n div 256 * 256 = n" by simp
  moreover have "n div 256 mod 256 + n div 256 div 256 * 256 = n div 256" by simp
  moreover have "n div 256 div 256 mod 256 + n div 256 div 256 div 256 * 256 = n div 256 div 256" by simp
  ultimately show ?thesis unfolding 1 2 by linarith
qed

lemma of_char_byte: "(of_char (char_of (n::nat)) :: int) = int (n mod 256)"
  by (metis of_char_of of_nat_of_char)

lemma le32_sum:
  assumes "n < 2 ^ 32"
  shows "(\<Sum>i\<leftarrow>[0..<4]. of_char (le32 n ! i) * (256::int) ^ i) = int n"
proof -
  have top: "n div 16777216 mod 256 = n div 16777216" using assms by simp
  have "int (n mod 256) + int (n div 256 mod 256) * 256 + int (n div 65536 mod 256) * 65536 +
      int (n div 16777216 mod 256) * 16777216 = int n"
    unfolding top using bytes_sum [of n] by linarith
  then show ?thesis
    by (simp add: le32_def upt_conv_Cons of_char_byte top)
qed

lemma le32_roundtrip:
  assumes "n < 2 ^ 31"
  shows "le32_read (le32 n) = int n"
  using assms le32_sum [of n] by (simp add: le32_read_def Let_def)

section \<open>What a call keeps\<close>

text \<open>
  Sending, reconnecting and opening may add packets to the heap and members of the client to the
  send queue; they change no packet that is there.
\<close>

definition keeps :: "sock \<Rightarrow> sock \<Rightarrow> bool" where
  "keeps s t \<longleftrightarrow>
     (\<forall>k < next_addr s. heap t k = heap s k) \<and> next_addr s \<le> next_addr t \<and>
     mRecvQueue t = mRecvQueue s \<and> members t = members s \<and>
     (\<exists>ms. mSendQueue t = mSendQueue s @ map Member ms)"

lemma keeps_refl [simp]: "keeps s s"
  by (auto simp: keeps_def intro: exI [of _ "[]"])

lemma keeps_trans: "keeps s t \<Longrightarrow> keeps t u \<Longrightarrow> keeps s u"
  unfolding keeps_def by (auto simp flip: map_append)

lemma keeps_fields:
  assumes "heap t = heap s" "next_addr t = next_addr s" "mRecvQueue t = mRecvQueue s"
    "members t = members s" "mSendQueue t = mSendQueue s"
  shows "keeps s t"
  using assms by (auto simp: keeps_def intro: exI [of _ "[]"])

lemma keeps_new:
  assumes "heap t = (heap s)(next_addr s := x)" "next_addr t = next_addr s + 1"
    "mRecvQueue t = mRecvQueue s" "members t = members s" "mSendQueue t = mSendQueue s"
  shows "keeps s t"
  using assms by (auto simp: keeps_def intro: exI [of _ "[]"])

lemma queuePacket_member_keeps:
  "queuePacket (Member m) s = Inr (b, t) \<Longrightarrow> keeps s t"
  by (auto simp: queuePacket_def heap_free_def rbind_def keeps_def
      intro: exI [of _ "[m]"] split: if_splits)

lemma resendInitPackets_keeps:
  "resendInitPackets cfg s = Inr t \<Longrightarrow> keeps s t"
  by (auto simp: resendInitPackets_def rbind_def split: if_splits sum.splits
      dest!: queuePacket_member_keeps intro: keeps_trans)

lemma os_send_keeps: "os_send d s evs = Some (Inr (b, t, rest)) \<Longrightarrow> keeps s t"
  by (auto simp: os_send_def split: list.splits os_event.splits if_splits intro!: keeps_fields)

lemma close_sock_keeps: "close_sock s evs = Some (Inr (b, t, rest)) \<Longrightarrow> keeps s t"
  by (auto simp: close_sock_def split: list.splits os_event.splits intro!: keeps_fields)

lemma open_sock_keeps: "open_sock s evs = Some (Inr (b, t, rest)) \<Longrightarrow> keeps s t"
  by (auto simp: open_sock_def Let_def unavailable_def startThreads_def
      split: list.splits os_event.splits if_splits intro!: keeps_fields)

lemma os_bind_Inr:
  "os_bind r f = Some (Inr (y, t, rest)) \<longleftrightarrow>
   (\<exists>x s evs. r = Some (Inr (x, s, evs)) \<and> f x s evs = Some (Inr (y, t, rest)))"
  by (auto simp: os_bind_def split: option.splits sum.splits)

text \<open>The same as a property of an operation's outcome, with a rule for sequences of calls.\<close>

definition outcome_keeps :: "sock \<Rightarrow> 'a os_result \<Rightarrow> bool" where
  "outcome_keeps s r \<longleftrightarrow> (\<forall>x t rest. r = Some (Inr (x, t, rest)) \<longrightarrow> keeps s t)"

lemma outcome_keepsD: "outcome_keeps s r \<Longrightarrow> r = Some (Inr (x, t, rest)) \<Longrightarrow> keeps s t"
  by (simp add: outcome_keeps_def)

lemma outcome_keeps_simps [simp]:
  "outcome_keeps s (Some (Inr (x, t, rest))) = keeps s t"
  "outcome_keeps s (Some (Inl e))" "outcome_keeps s None"
  by (simp_all add: outcome_keeps_def)

lemma outcome_keeps_bind:
  assumes "outcome_keeps s r"
    and "\<And>x t evs. r = Some (Inr (x, t, evs)) \<Longrightarrow> outcome_keeps t (f x t evs)"
  shows "outcome_keeps s (os_bind r f)"
  using assms unfolding outcome_keeps_def os_bind_Inr by (blast intro: keeps_trans)

lemma outcome_keeps_mono:
  "keeps s t \<Longrightarrow> outcome_keeps t r \<Longrightarrow> outcome_keeps s r"
  by (auto simp: outcome_keeps_def intro: keeps_trans)

lemma outcome_keeps_steps:
  "outcome_keeps s (os_send d s evs)" "outcome_keeps s (close_sock s evs)"
  "outcome_keeps s (open_sock s evs)"
  by (auto simp: outcome_keeps_def dest: os_send_keeps close_sock_keeps open_sock_keeps)

declare sock_send.simps [simp del] tryReconnect.simps [simp del] sock_init.simps [simp del]

lemma sock_keeps:
  "outcome_keeps s (sock_send cfg p s evs)"
  "outcome_keeps s (tryReconnect cfg s evs)"
  "outcome_keeps s (sock_init cfg s evs)"
proof (induction cfg p s evs and cfg s evs and cfg s evs rule: sock_send_tryReconnect_sock_init.induct)
  case (1 cfg p s evs)
  show ?case
  proof (cases "isConnected_sock s \<and> (\<exists>q. packet_at p s = Inr q)")
    case False
    then show ?thesis by (auto simp: sock_send.simps split: sum.splits)
  next
    case True
    then obtain q where c: "isConnected_sock s" "packet_at p s = Inr q" by blast
    have done_: "outcome_keeps t (os_bind (tryReconnect cfg t evs') (\<lambda>_ s evs. Some (Inr (False, s, evs))))"
      if "outcome_keeps t (tryReconnect cfg t evs')" for t evs'
      using that by (rule outcome_keeps_bind) simp
    show ?thesis
      unfolding sock_send.simps [of cfg p s evs]
      apply (simp add: c)
      apply (rule outcome_keeps_bind [OF outcome_keeps_steps(1)])
      apply (rule if_split [THEN iffD2], intro conjI impI)
       apply (rule done_, rule "1.IH"(1))
           apply (simp_all add: c)[4]
       apply simp
      apply (rule outcome_keeps_bind [OF outcome_keeps_steps(1)])
      apply (rule if_split [THEN iffD2], intro conjI impI)
       apply (rule done_, rule "1.IH"(2))
            apply (simp_all add: c)[6]
       apply simp
      apply (simp_all add: c)
      done
  qed
next
  case (2 cfg s evs)
  show ?case
    unfolding tryReconnect.simps
    by (auto intro!: outcome_keeps_bind outcome_keeps_steps "2.IH")
next
  case (3 cfg s evs)
  show ?case
    unfolding sock_init.simps
  proof (rule outcome_keeps_bind [OF outcome_keeps_steps(3)])
    fix opened t evs'
    assume o: "open_sock s evs = Some (Inr (opened, t, evs'))"
    let ?c = "connect_packet cfg (mIsFirstConnect t)"
    let ?t = "(snd (heap_new ?c t))\<lparr>mIsFirstConnect := False\<rparr>"
    have new: "keeps t ?t" by (rule keeps_new) (simp_all add: heap_new_def)
    have "outcome_keeps t (os_bind (sock_send cfg (fst (heap_new ?c t)) ?t evs')
      (\<lambda>_ s' evs. if mIsFirstConnect t then Some (Inr (True, s', evs))
         else (case resendInitPackets cfg s' of Inl e \<Rightarrow> Some (Inl e) | Inr s'' \<Rightarrow> Some (Inr (True, s'', evs)))))"
      if opened
      using "3.IH" [OF o] that
      by (intro outcome_keeps_mono [OF new] outcome_keeps_bind)
        (auto dest: resendInitPackets_keeps split: sum.splits)
    then show "outcome_keeps t (if \<not> opened then Some (Inr (False, t, evs'))
       else os_bind (sock_send cfg (fst (heap_new ?c t)) ?t evs')
         (\<lambda>_ s' evs. if mIsFirstConnect t then Some (Inr (True, s', evs))
           else (case resendInitPackets cfg s' of Inl e \<Rightarrow> Some (Inl e) | Inr s'' \<Rightarrow> Some (Inr (True, s'', evs)))))"
      by simp
  qed
qed

lemma sum_case_Inr:
  "(case r of Inl e \<Rightarrow> Some (Inl e) | Inr x \<Rightarrow> Some (Inr (f x))) = Some (Inr y) \<longleftrightarrow>
   (\<exists>x. r = Inr x \<and> f x = y)"
  by (cases r) auto

section \<open>The state after opening and closing\<close>

lemma close_sock_state:
  "close_sock s evs = Some (Inr (b, t, rest)) \<Longrightarrow> socket_log_state t = SOCKET_LOG_DISCONNECTED"
  by (auto simp: close_sock_def split: list.splits os_event.splits)

lemma open_sock_state:
  "open_sock s evs = Some (Inr (b, t, rest)) \<Longrightarrow>
   socket_log_state t = (if b then SOCKET_LOG_CONNECTED else SOCKET_LOG_UNAVAILABLE)"
  by (auto simp: open_sock_def Let_def unavailable_def startThreads_def
      split: list.splits os_event.splits if_splits)

lemma sock_init_failed:
  assumes "sock_init cfg s evs = Some (Inr (False, t, rest))"
  shows "socket_log_state t = SOCKET_LOG_UNAVAILABLE"
proof -
  obtain opened u evs' where o: "open_sock s evs = Some (Inr (opened, u, evs'))"
    using assms by (auto simp: sock_init.simps os_bind_Inr)
  with assms have "\<not> opened" "t = u"
    by (auto simp: sock_init.simps os_bind_def sum_case_Inr split: if_splits option.splits sum.splits)
  with open_sock_state [OF o] show ?thesis by simp
qed

section \<open>Properties\<close>

text \<open>C22: a packet whose two \<open>Send\<close> calls are taken whole goes to the wire as the length of its JSON
  text, four bytes that read back as that length, and then the text; nothing else changes.\<close>

theorem sock_send_frames:
  assumes "isConnected_sock s" and "packet_at a s = Inr p" and "j = to_json cfg p"
    and "0 < length j" and "length j < 2 ^ 31" and "4 \<le> n1" and "int (length j) \<le> n2"
  shows "sock_send cfg a s (Ev_send n1 e1 # Ev_send n2 e2 # evs) =
      Some (Inr (True, s\<lparr>wire := wire s @ le32 (length j) @ j\<rparr>, evs)) \<and>
    le32_read (take headerSize (le32 (length j) @ j)) = int (length j)"
proof -
  have n2: "0 < n2" using assms(4,7) by linarith
  have "take (nat n2) j = j" "take (nat n1) (le32 (length j)) = le32 (length j)"
    using assms(6,7) by simp_all
  then show ?thesis
    using assms(1,2,6) n2 le32_roundtrip [OF assms(5)]
    by (simp add: sock_send.simps os_send_def os_bind_def headerSize_def isConnected_sock_def
        flip: assms(3))
qed

lemma finish_recv_queued:
  assumes "length (mRecvQueue s) < maxBufSize"
  shows "finish_recv cfg txt s (Ev_alloc True # evs) =
    Some (Inr (True, s\<lparr>heap := (heap s)(next_addr s := Some (from_json cfg txt)),
       next_addr := next_addr s + 1, mRecvQueue := mRecvQueue s @ [Heap (next_addr s)]\<rparr>, evs))"
  using assms by (simp add: finish_recv_def heap_new_def recvQueue_full_def)

text \<open>C18: however the network splits a frame, \<open>recv\<close> reads four bytes of length \<open>n\<close> and \<open>n - 4\<close> bytes
  of body and queues the packet parsed from the four bytes a fresh buffer happens to hold and that
  body; what follows those bytes stays unread.\<close>

theorem recv_frame:
  assumes "isConnected_sock s" and "length (mRecvQueue s) < maxBufSize"
    and "\<forall>c \<in> set (hs @ bs). c \<noteq> []" and "concat hs = le32 n" and "4 \<le> n" and "n < 2 ^ 31"
    and "length (concat bs) = n - 4" and "\<And>m. length (fresh m) = m"
  shows "\<exists>t. sock_recv cfg fresh s (map (\<lambda>c. Ev_recv c 0) hs @ Ev_alloc True #
                map (\<lambda>c. Ev_recv c 0) bs @ Ev_alloc True # rest) = Some (Inr (True, t, rest)) \<and>
      mRecvQueue t = mRecvQueue s @ [Heap (next_addr s)] \<and>
      heap t (next_addr s) = Some (from_json cfg (take 4 (fresh n) @ concat bs)) \<and>
      socket_log_state t = SOCKET_LOG_CONNECTED"
proof -
  have hs: "hs \<noteq> []" using assms(4) length_le32 [of n] by fastforce
  have 1: "read_loop headerSize [] (socket_errno s) (map (\<lambda>c. Ev_recv c 0) hs @ es) =
      Some (True, le32 n, 0, es)" for es
    using read_loop_chunks [of hs "[]" 4 "socket_errno s" 0 es] assms(3,4) hs
    by (simp add: headerSize_def)
  have 2: "read_loop (n - 4) [] 0 (map (\<lambda>c. Ev_recv c 0) bs @ es) = Some (True, concat bs, 0, es)" for es
    using read_loop_chunks [of bs "[]" "n - 4" 0 0 es] assms(3,7) by simp
  have 3: "nat (int n - int headerSize) = n - 4" by (simp add: headerSize_def)
  have 4: "packet_text fresh n (concat bs) = take 4 (fresh n) @ concat bs"
    using assms(5,7,8) by (simp add: packet_text_def headerSize_def)
  show ?thesis
    using assms(1,2)
    by (simp add: sock_recv_def 1 2 3 4 le32_roundtrip [OF assms(6)] finish_recv_queued
        isConnected_sock_def)
qed

text \<open>when \<open>tryReconnect\<close> reports failure, the socket is not connected: the close failed and the
  state is disconnected, or opening it failed and the state is unavailable.\<close>

theorem tryReconnect_failed:
  assumes "tryReconnect cfg s evs = Some (Inr (False, t, rest))"
  shows "socket_log_state t = SOCKET_LOG_DISCONNECTED \<or> socket_log_state t = SOCKET_LOG_UNAVAILABLE"
proof -
  obtain closed u evs' where close: "close_sock s evs = Some (Inr (closed, u, evs'))"
    and rest: "(if closed then sock_init cfg u evs' else Some (Inr (False, u, evs'))) = Some (Inr (False, t, rest))"
    using assms by (auto simp: tryReconnect.simps os_bind_Inr)
  show ?thesis
    using close rest by (cases closed) (auto dest: close_sock_state sock_init_failed)
qed

text \<open>every connection that opens leaves its connect packet on the heap: it is in no queue, so
  nothing frees it.\<close>

lemma sock_init_leaks:
  assumes "open_sock s evs = Some (Inr (True, u, evs'))"
    and "sock_init cfg s evs = Some (Inr (b, t, rest))"
    and "\<forall>k. Heap k \<in> set (mSendQueue s @ mRecvQueue s) \<longrightarrow> k < next_addr s"
  shows "heap t (next_addr s) = Some (connect_packet cfg (mIsFirstConnect u)) \<and>
    Heap (next_addr s) \<notin> set (mSendQueue t @ mRecvQueue t)"
proof -
  let ?c = "connect_packet cfg (mIsFirstConnect u)"
  let ?u = "(snd (heap_new ?c u))\<lparr>mIsFirstConnect := False\<rparr>"
  have na: "next_addr u = next_addr s" "mSendQueue u = mSendQueue s" "mRecvQueue u = mRecvQueue s"
    using assms(1)
    by (auto simp: open_sock_def Let_def startThreads_def split: list.splits os_event.splits if_splits)
  obtain b' u' evs'' where send: "sock_send cfg (fst (heap_new ?c u)) ?u evs' = Some (Inr (b', u', evs''))"
    and end_: "keeps u' t"
    using assms(2) unfolding sock_init.simps assms(1)
    by (auto simp: os_bind_Inr os_bind_def [of "Some (Inr (True, u, evs'))"]
        split: if_splits sum.splits dest: resendInitPackets_keeps)
  have "keeps ?u t"
    using outcome_keepsD [OF sock_keeps(1) send] end_ by (rule keeps_trans)
  then show ?thesis
    using assms(3) na by (auto simp: keeps_def heap_new_def)
qed

text \<open>C24: the send thread takes the first packet of its queue, sends it and frees it, also when the
  sending fails; no other packet of the heap is freed and the received packets stay queued.\<close>

theorem trySendQueue_frees:
  assumes "mSendQueue s = Heap k # q" and "k < next_addr s"
    and "trySendQueue cfg s evs = Some (Inr (b, t, rest))"
  shows "heap t k = None \<and> (\<forall>j < next_addr s. j \<noteq> k \<longrightarrow> heap t j = heap s j) \<and>
    mRecvQueue t = mRecvQueue s \<and> (\<exists>ms. mSendQueue t = q @ map Member ms)"
proof -
  obtain u where send: "sock_send cfg (Heap k) (s\<lparr>mSendQueue := q\<rparr>) evs = Some (Inr (b, u, rest))"
    and t: "heap_free (Heap k) u = Inr t"
    using assms(1,3) by (auto simp: trySendQueue_def os_bind_Inr sum_case_Inr)
  show ?thesis
    using outcome_keepsD [OF sock_keeps(1) send] t
    by (auto simp: keeps_def heap_free_def split: option.splits)
qed

text \<open>
  A header that arrives in two parts with a would-block in between is lost: the bytes read so far
  are dropped and the next call takes the rest as the start of a header.
\<close>

lemma recv_header_dropped:
  assumes "isConnected_sock s" and "hs \<noteq> []" and "\<forall>c \<in> set hs. c \<noteq> []" and "length (concat hs) < 4"
  shows "sock_recv cfg fresh s (map (\<lambda>c. Ev_recv c 0) hs @ Ev_recv [] EWOULDBLOCK # rest) =
    Some (Inr (True, s\<lparr>socket_errno := EWOULDBLOCK\<rparr>, rest))"
proof -
  have "read_loop need acc errno (map (\<lambda>c. Ev_recv c 0) cs @ Ev_recv [] e # es) =
      Some (False, acc @ concat cs, e, es)"
    if "\<forall>c \<in> set cs. c \<noteq> []" and "length acc + length (concat cs) < need" for cs acc need errno e es
    using that
  proof (induction cs arbitrary: acc errno)
    case Nil
    then show ?case by (subst read_loop.simps) simp
  next
    case (Cons c cs)
    then show ?case by (subst read_loop.simps) simp
  qed
  then have "read_loop headerSize [] (socket_errno s) (map (\<lambda>c. Ev_recv c 0) hs @ Ev_recv [] EWOULDBLOCK # rest) =
      Some (False, concat hs, EWOULDBLOCK, rest)"
    using assms(3,4) by (simp add: headerSize_def)
  then show ?thesis using assms(1) by (simp add: sock_recv_def)
qed

text \<open>a packet that the client queued by the address of one of its own members (the resent
  initial packets) is freed by the send thread after it was sent: the heap never gave that address out.\<close>

theorem trySendQueue_member_fault:
  assumes "mSendQueue s = Member m # q" and "isConnected_sock s" and "members s m = p"
    and "to_json cfg p = j" and "j \<noteq> []" and "4 \<le> n1" and "int (length j) \<le> n2"
  shows "trySendQueue cfg s (Ev_send n1 e1 # Ev_send n2 e2 # evs) = Some (Inl BadFree)"
proof -
  have "0 < n2" using assms(5,7) by (cases j) auto
  then show ?thesis
    using assms
    by (simp add: trySendQueue_def sock_send.simps os_send_def os_bind_def isConnected_sock_def
        packet_at_def heap_free_def)
qed

section \<open>Witnesses\<close>

definition cfg0 :: sock_cfg where
  "cfg0 = \<lparr>to_json = (\<lambda>_. ''{}''), from_json = (\<lambda>_. Packet_empty), msg_Equals = (\<lambda>p q. True),
     my_uid = replicate 16 CHR ''a'', my_name = ''me''\<rparr>"

definition sock0 :: sock where
  "sock0 =
     \<lparr>socket_log_state = SOCKET_LOG_CONNECTED, socket_errno = 0, socket_log_socket = 3,
      mIsFirstConnect = True, mSendQueue = [Heap 0, Heap 1], mRecvQueue = [],
      heap = [0 \<mapsto> Packet_empty, 1 \<mapsto> Packet_empty], next_addr = 2, members = (\<lambda>_. Packet_empty),
      threads_idle = True, wire = []\<rparr>"

theorem sock_send_frames_witness:
  "sock_send cfg0 (Heap 0) sock0 [Ev_send 4 0, Ev_send 2 0] =
     Some (Inr (True, sock0\<lparr>wire := wire sock0 @ le32 (length ''{}'') @ ''{}''\<rparr>, [])) \<and>
   le32_read (take headerSize (le32 (length ''{}'') @ ''{}'')) = int (length ''{}'')"
  by (rule sock_send_frames [where p = Packet_empty])
    (simp_all add: sock0_def cfg0_def isConnected_sock_def packet_at_def)

theorem recv_frame_witness:
  "\<exists>t. sock_recv cfg0 (\<lambda>n. replicate n CHR ''?'') sock0
      (map (\<lambda>c. Ev_recv c 0) [take 1 (le32 6), drop 1 (le32 6)] @ Ev_alloc True #
       map (\<lambda>c. Ev_recv c 0) [''{}''] @ Ev_alloc True # [Ev_recv ''x'' 0]) =
        Some (Inr (True, t, [Ev_recv ''x'' 0])) \<and>
      mRecvQueue t = mRecvQueue sock0 @ [Heap (next_addr sock0)] \<and>
      heap t (next_addr sock0) =
        Some (from_json cfg0 (take 4 (replicate 6 CHR ''?'') @ concat [''{}''])) \<and>
      socket_log_state t = SOCKET_LOG_CONNECTED"
  by (rule recv_frame [where fresh = "\<lambda>n. replicate n CHR ''?''" and n = 6])
    (simp_all add: sock0_def isConnected_sock_def maxBufSize_def le32_def upt_conv_Cons)

theorem tryReconnect_failed_witness:
  "\<exists>t rest. tryReconnect cfg0 sock0 [Ev_close True, Ev_network False 5] = Some (Inr (False, t, rest)) \<and>
     (socket_log_state t = SOCKET_LOG_DISCONNECTED \<or> socket_log_state t = SOCKET_LOG_UNAVAILABLE)"
proof -
  have "tryReconnect cfg0 sock0 [Ev_close True, Ev_network False 5] =
    Some (Inr (False, unavailable 5 (sock0\<lparr>socket_log_state := SOCKET_LOG_DISCONNECTED\<rparr>), []))"
    by (simp add: tryReconnect.simps sock_init.simps os_bind_def close_sock_def open_sock_def)
  with tryReconnect_failed [OF this] show ?thesis by blast
qed

text \<open>A reported success does not mean a connection: the connect packet may have failed to go out.\<close>

theorem tryReconnect_success_not_connected:
  "\<exists>t. tryReconnect cfg0 sock0
      [Ev_close True, Ev_network True 0, Ev_socket 4 0, Ev_resolve True 0, Ev_connect True 0,
       Ev_send (-1) 5, Ev_close False] = Some (Inr (True, t, [])) \<and> \<not> isConnected_sock t"
  by (simp add: tryReconnect.simps sock_init.simps sock_send.simps os_bind_def close_sock_def open_sock_def
      os_send_def heap_new_def packet_at_def startThreads_def isConnected_sock_def sock0_def)

theorem trySendQueue_frees_witness:
  "\<exists>t rest. trySendQueue cfg0 sock0 [Ev_send 4 0, Ev_send 2 0] = Some (Inr (True, t, rest)) \<and>
     heap t 0 = None \<and> (\<forall>j < next_addr sock0. j \<noteq> 0 \<longrightarrow> heap t j = heap sock0 j) \<and>
     mRecvQueue t = mRecvQueue sock0 \<and> (\<exists>ms. mSendQueue t = [Heap 1] @ map Member ms)"
proof -
  have "trySendQueue cfg0 sock0 [Ev_send 4 0, Ev_send 2 0] =
    Some (Inr (True, sock0\<lparr>mSendQueue := [Heap 1], wire := le32 (length ''{}'') @ ''{}'',
      heap := [1 \<mapsto> Packet_empty]\<rparr>, []))"
    by (simp add: trySendQueue_def sock_send.simps os_bind_def os_send_def packet_at_def heap_free_def
        isConnected_sock_def sock0_def cfg0_def fun_eq_iff)
  with trySendQueue_frees [OF _ _ this, of 0 "[Heap 1]"] show ?thesis
    by (simp add: sock0_def)
qed

theorem trySendQueue_member_fault_witness:
  "trySendQueue cfg0 (sock0\<lparr>mSendQueue := [Member LastGameInf]\<rparr>) [Ev_send 4 0, Ev_send 2 0] = Some (Inl BadFree)"
  by (rule trySendQueue_member_fault [where m = LastGameInf and q = "[]" and j = "''{}''"])
    (simp_all add: sock0_def cfg0_def isConnected_sock_def)

end
