(* ===== verification/Float_Vec.thy ===== *)
theory Float_Vec
  imports Packets
begin

text \<open>
  Multiplication, reciprocal and square root of \<open>f32\<close> values, and the vector operations of
  \<open>sead/math/seadVectorCalcCommon.hpp\<close> the mod uses: difference, dot product, length and
  normalisation, each operation rounded as the source writes it.
\<close>

section \<open>Arithmetic\<close>

fun f32_sgn :: "f32 \<Rightarrow> rat" where
  "f32_sgn (Fin a) = sgn a"
| "f32_sgn PosInf = 1"
| "f32_sgn NegInf = -1"
| "f32_sgn NaN = 0"

definition f32_inf :: "rat \<Rightarrow> f32" where
  "f32_inf s = (if s > 0 then PosInf else if s < 0 then NegInf else NaN)"

fun f32_mul :: "f32 \<Rightarrow> f32 \<Rightarrow> f32" where
  "f32_mul (Fin a) (Fin b) = f32_round (a * b)"
| "f32_mul NaN _ = NaN"
| "f32_mul _ NaN = NaN"
| "f32_mul a b = f32_inf (f32_sgn a * f32_sgn b)"

text \<open>\<open>1 / len\<close> for a positive \<open>len\<close>.\<close>

fun f32_recip :: "f32 \<Rightarrow> f32" where
  "f32_recip (Fin a) = (if a = 0 then PosInf else f32_round (1 / a))"
| "f32_recip NaN = NaN"
| "f32_recip _ = Fin 0"

text \<open>
  The square root rounds the exact root to nearest. \<open>isqrt\<close> is the integer root, bit by bit. A
  positive float is at least \<open>2 ^ -149\<close> and a multiple of it, so the root of \<open>a * 2 ^ 400\<close> is an
  integer with more than 100 bits and a fraction; where it is not exact, a half in place of the
  fraction rounds the same way.
\<close>

fun isqrt :: "nat \<Rightarrow> nat" where
  "isqrt n = (if n = 0 then 0
              else let r = 2 * isqrt (n div 4) in if (r + 1) * (r + 1) \<le> n then r + 1 else r)"

declare isqrt.simps [simp del]

fun f32_sqrt :: "f32 \<Rightarrow> f32" where
  "f32_sqrt (Fin a) =
     (if a < 0 then NaN
      else let n = nat \<lfloor>a * 2 ^ 400\<rfloor>; t = isqrt n
           in f32_round (if t * t = n then of_nat t / 2 ^ 200 else (2 * of_nat t + 1) / 2 ^ 201))"
| "f32_sqrt PosInf = PosInf"
| "f32_sqrt _ = NaN"

definition f32_lit :: "rat \<Rightarrow> f32" where
  "f32_lit r = f32_round r"

section \<open>Vectors\<close>

definition vec_sub :: "Vector3f \<Rightarrow> Vector3f \<Rightarrow> Vector3f" where
  "vec_sub a b =
     \<lparr>v_x = f32_sub (v_x a) (v_x b), v_y = f32_sub (v_y a) (v_y b), v_z = f32_sub (v_z a) (v_z b)\<rparr>"

definition vec_dot :: "Vector3f \<Rightarrow> Vector3f \<Rightarrow> f32" where
  "vec_dot a b =
     f32_add (f32_add (f32_mul (v_x a) (v_x b)) (f32_mul (v_y a) (v_y b))) (f32_mul (v_z a) (v_z b))"

definition vec_squaredLength :: "Vector3f \<Rightarrow> f32" where
  "vec_squaredLength v =
     f32_add (f32_add (f32_mul (v_x v) (v_x v)) (f32_mul (v_y v) (v_y v))) (f32_mul (v_z v) (v_z v))"

definition vec_length :: "Vector3f \<Rightarrow> f32" where
  "vec_length v = f32_sqrt (vec_squaredLength v)"

definition vec_normalize :: "Vector3f \<Rightarrow> Vector3f" where
  "vec_normalize v =
     (let len = vec_length v
      in if f32_lt (Fin 0) len
         then let inv_len = f32_recip len
              in \<lparr>v_x = f32_mul (v_x v) inv_len, v_y = f32_mul (v_y v) inv_len,
                  v_z = f32_mul (v_z v) inv_len\<rparr>
         else v)"

section \<open>The integer root\<close>

lemma isqrt_bounds: "isqrt n * isqrt n \<le> n \<and> n < (isqrt n + 1) * (isqrt n + 1)"
proof (induction n rule: isqrt.induct)
  case (1 n)
  show ?case
  proof (cases "n = 0")
    case True
    then show ?thesis by (simp add: isqrt.simps)
  next
    case False
    let ?r = "isqrt (n div 4)"
    from 1 [OF False] have lo: "?r * ?r \<le> n div 4" and hi: "n div 4 < (?r + 1) * (?r + 1)" by auto
    have "4 * (n div 4) \<le> n" by simp
    with lo have lo': "4 * (?r * ?r) \<le> n" by linarith
    have "n < 4 * (n div 4) + 4" by simp
    with hi have "n < 4 * ((?r + 1) * (?r + 1))" by linarith
    then have hi': "n < (2 * ?r + 2) * (2 * ?r + 2)" by (simp add: algebra_simps)
    show ?thesis
      using False lo' hi' by (subst (1 2 3 4) isqrt.simps) (auto simp: Let_def algebra_simps)
  qed
qed

section \<open>Signs\<close>

text \<open>A value that is not negative (or not a number), and one that is not positive.\<close>

definition f32_nonneg :: "f32 \<Rightarrow> bool" where
  "f32_nonneg a \<longleftrightarrow> \<not> f32_lt a (Fin 0)"

definition f32_nonpos :: "f32 \<Rightarrow> bool" where
  "f32_nonpos a \<longleftrightarrow> \<not> f32_lt (Fin 0) a"

lemma f32_nonneg_simps [simp]:
  "f32_nonneg (Fin a) \<longleftrightarrow> 0 \<le> a" "f32_nonneg PosInf" "f32_nonneg NaN" "\<not> f32_nonneg NegInf"
  by (auto simp: f32_nonneg_def)

lemma f32_nonpos_simps [simp]:
  "f32_nonpos (Fin a) \<longleftrightarrow> a \<le> 0" "f32_nonpos NegInf" "f32_nonpos NaN" "\<not> f32_nonpos PosInf"
  by (auto simp: f32_nonpos_def)

lemma f32_round_nonneg:
  assumes "0 \<le> a"
  shows "f32_nonneg (f32_round a)"
proof -
  have "of_int 0 \<le> a / f32_ulp a" using assms by (simp add: less_imp_le)
  then have "0 \<le> round_half_even (a / f32_ulp a)" by (rule round_half_even_ge)
  then have "0 \<le> of_int (round_half_even (a / f32_ulp a)) * f32_ulp a" by (simp add: less_imp_le)
  then show ?thesis by (auto simp: f32_round_def Let_def)
qed

lemma f32_round_nonpos:
  assumes "a \<le> 0"
  shows "f32_nonpos (f32_round a)"
proof -
  have "a / f32_ulp a \<le> of_int 0" using assms by (simp add: divide_le_0_iff less_imp_le)
  then have "round_half_even (a / f32_ulp a) \<le> 0" by (rule round_half_even_le)
  then have "of_int (round_half_even (a / f32_ulp a)) * f32_ulp a \<le> 0"
    by (simp add: mult_nonpos_nonneg less_imp_le)
  then show ?thesis by (auto simp: f32_round_def Let_def)
qed

lemma f32_inf_sign:
  "0 \<le> s \<Longrightarrow> f32_nonneg (f32_inf s)" "s \<le> 0 \<Longrightarrow> f32_nonpos (f32_inf s)"
  by (auto simp: f32_inf_def)

lemma f32_mul_nonneg: "f32_nonneg a \<Longrightarrow> f32_nonneg b \<Longrightarrow> f32_nonneg (f32_mul a b)"
  by (cases a; cases b) (auto intro!: f32_round_nonneg f32_inf_sign(1) simp: sgn_if)

lemma f32_mul_nonpos: "f32_nonpos a \<Longrightarrow> f32_nonneg b \<Longrightarrow> f32_nonpos (f32_mul a b)"
  by (cases a; cases b) (auto intro!: f32_round_nonpos f32_inf_sign(2) mult_nonpos_nonneg simp: mult_le_0_iff sgn_if)

lemma f32_mul_nonpos_nonpos: "f32_nonpos a \<Longrightarrow> f32_nonpos b \<Longrightarrow> f32_nonneg (f32_mul a b)"
  by (cases a; cases b) (auto intro!: f32_round_nonneg f32_inf_sign(1) mult_nonpos_nonpos simp: sgn_if)

lemma f32_add_nonneg: "f32_nonneg a \<Longrightarrow> f32_nonneg b \<Longrightarrow> f32_nonneg (f32_add a b)"
  by (cases a; cases b) (auto intro!: f32_round_nonneg)

lemma f32_add_nonpos: "f32_nonpos a \<Longrightarrow> f32_nonpos b \<Longrightarrow> f32_nonpos (f32_add a b)"
  by (cases a; cases b) (auto intro!: f32_round_nonpos)

lemma f32_sqrt_nonneg: "f32_nonneg (f32_sqrt a)"
  by (cases a) (auto simp: Let_def intro!: f32_round_nonneg)

lemma f32_recip_nonneg: "f32_nonneg a \<Longrightarrow> f32_nonneg (f32_recip a)"
  by (cases a) (auto intro!: f32_round_nonneg)

lemma f32_mul_zero_left:
  "f32_mul (Fin 0) b = Fin 0 \<or> f32_mul (Fin 0) b = NaN"
  by (cases b) (auto simp: f32_round_def f32_inf_def round_half_even_def)

lemma vec_normalize_sign:
  "f32_nonneg (v_x v) \<Longrightarrow> f32_nonneg (v_x (vec_normalize v))"
  "f32_nonneg (v_z v) \<Longrightarrow> f32_nonneg (v_z (vec_normalize v))"
  "f32_nonpos (v_x v) \<Longrightarrow> f32_nonpos (v_x (vec_normalize v))"
  "f32_nonpos (v_z v) \<Longrightarrow> f32_nonpos (v_z (vec_normalize v))"
proof -
  have "f32_nonneg (f32_recip (vec_length v))"
    by (intro f32_recip_nonneg) (simp add: vec_length_def f32_sqrt_nonneg)
  then show
    "f32_nonneg (v_x v) \<Longrightarrow> f32_nonneg (v_x (vec_normalize v))"
    "f32_nonneg (v_z v) \<Longrightarrow> f32_nonneg (v_z (vec_normalize v))"
    "f32_nonpos (v_x v) \<Longrightarrow> f32_nonpos (v_x (vec_normalize v))"
    "f32_nonpos (v_z v) \<Longrightarrow> f32_nonpos (v_z (vec_normalize v))"
    by (simp_all add: vec_normalize_def Let_def f32_mul_nonneg f32_mul_nonpos)
qed

end
