(* ===== verification/Stage_Manager.thy ===== *)
theory Stage_Manager
  imports Float_Vec
begin

text \<open>
  The stages capture the flag is played in (\<open>server/capturetheflag/StageManager.cpp\<close>): the border
  between the two sides of a kingdom, the sub areas with the position of their entrance in the
  kingdom, the teleport targets, and the side of the border a position is on
  (\<open>CaptureTheFlagMode::getTeamSide\<close>).
\<close>

section \<open>Stages\<close>

record StageData =
  sd_stageName :: string
  sd_scenarioNum :: u8

record BorderTransform =
  bt_position :: Vector3f

text \<open>\<open>operator==\<close> compares the scenarios only when the left one is at least 15.\<close>

definition StageData_eq :: "StageData \<Rightarrow> StageData \<Rightarrow> bool" where
  "StageData_eq lhs rhs =
     (if sd_scenarioNum lhs < 15 then sd_stageName lhs = sd_stageName rhs
      else sd_stageName lhs = sd_stageName rhs \<and> sd_scenarioNum lhs = sd_scenarioNum rhs)"

record SubAreaEntranceLocation =
  parentStageName :: string
  sa_stageData :: StageData
  entrancePosition :: Vector3f

definition vec3 :: "rat \<Rightarrow> rat \<Rightarrow> rat \<Rightarrow> Vector3f" where
  "vec3 x y z = \<lparr>v_x = f32_lit x, v_y = f32_lit y, v_z = f32_lit z\<rparr>"

definition sub_area :: "string \<Rightarrow> string \<Rightarrow> rat \<Rightarrow> rat \<Rightarrow> rat \<Rightarrow> SubAreaEntranceLocation" where
  "sub_area parent stage x y z =
     \<lparr>parentStageName = parent, sa_stageData = \<lparr>sd_stageName = stage, sd_scenarioNum = 0\<rparr>,
      entrancePosition = vec3 x y z\<rparr>"

definition getSubAreas :: "SubAreaEntranceLocation list" where
  "getSubAreas =
    [sub_area ''WaterfallWorldHomeStage'' ''WindBlowExStage''
       (-(3889088134765625 / 10 ^ 13)) 1650 (441941748046875 / 10 ^ 11),
     sub_area ''WaterfallWorldHomeStage'' ''WanwanClashExStage''
       (-(1039446875 / 10 ^ 5)) 3590 (-(91923876953125 / 10 ^ 11)),
     sub_area ''WaterfallWorldHomeStage'' ''Lift2DExStage''
       (1148769287109375 / 10 ^ 12) 2750 (-(3552932373046875 / 10 ^ 12)),
     sub_area ''WaterfallWorldHomeStage'' ''TrexPoppunExStage''
       (4702259765625 / 10 ^ 9) 2250 (82377939453125 / 10 ^ 10),
     sub_area ''WaterfallWorldHomeStage'' ''CapAppearExStage''
       (-(537401123046875 / 10 ^ 11)) (3267029296875 / 10 ^ 9) (-(14849241943359375 / 10 ^ 13))]"

definition searchForSubAreaData :: "StageData \<Rightarrow> SubAreaEntranceLocation option" where
  "searchForSubAreaData stageData =
     find (\<lambda>subArea. StageData_eq stageData (sa_stageData subArea)) getSubAreas"

definition getSubAreaCount :: nat where
  "getSubAreaCount = length getSubAreas"

text \<open>Out of range, \<open>sead::SafeArray\<close> answers with its first element.\<close>

definition sub_area_at :: "nat \<Rightarrow> SubAreaEntranceLocation" where
  "sub_area_at index = getSubAreas ! (if index < length getSubAreas then index else 0)"

definition getSubAreaName :: "nat \<Rightarrow> string" where
  "getSubAreaName index = sd_stageName (sa_stageData (sub_area_at index))"

definition getSubAreaLocation :: "nat \<Rightarrow> Vector3f" where
  "getSubAreaLocation index = entrancePosition (sub_area_at index)"

definition getParentStageName :: "StageData \<Rightarrow> string option" where
  "getParentStageName stageData = map_option parentStageName (searchForSubAreaData stageData)"

definition isSubArea :: "StageData \<Rightarrow> bool" where
  "isSubArea stageData \<longleftrightarrow> searchForSubAreaData stageData \<noteq> None"

definition getSubAreaEntranceLocation :: "StageData \<Rightarrow> Vector3f option" where
  "getSubAreaEntranceLocation stageData = map_option entrancePosition (searchForSubAreaData stageData)"

definition replacePosition :: "Vector3f \<Rightarrow> StageData \<Rightarrow> Vector3f" where
  "replacePosition pos stageData =
     (case getSubAreaEntranceLocation stageData of Some p \<Rightarrow> p | None \<Rightarrow> pos)"

definition BORDER_TRANSFORMS :: "(string \<times> BorderTransform) list" where
  "BORDER_TRANSFORMS =
     [(''WaterfallWorldHomeStage'',
       \<lparr>bt_position = \<lparr>v_x = f32_lit (-(144166 / 100)), v_y = f32_sub (f32_lit 2602) (f32_lit 50000),
                    v_z = f32_lit 440\<rparr>\<rparr>)]"

definition getBorderTransform :: "StageData \<Rightarrow> BorderTransform option" where
  "getBorderTransform stageData = map_of BORDER_TRANSFORMS (sd_stageName stageData)"

definition HOME_LOCATIONS :: "(string \<times> FlagTeam \<times> string) list" where
  "HOME_LOCATIONS =
     [(''WaterfallWorldHomeStage'', RED, ''CapAppearExExit''),
      (''WaterfallWorldHomeStage'', BLUE, [])]"

definition getHomeTeleport :: "StageData \<Rightarrow> FlagTeam \<Rightarrow> (StageData \<times> string) option" where
  "getHomeTeleport inStageData flagTeam =
     (case (if isSubArea inStageData
            then map_option (\<lambda>parent. \<lparr>sd_stageName = parent, sd_scenarioNum = -1\<rparr>)
                   (getParentStageName inStageData)
            else Some inStageData) of
        None \<Rightarrow> None
      | Some stageData \<Rightarrow>
          map_option (\<lambda>(_, _, target). (stageData, target))
            (find (\<lambda>(stage, t, _). stage = sd_stageName stageData \<and> t = flagTeam) HOME_LOCATIONS))"

section \<open>Sides of the border\<close>

definition borderPlaneNormal :: Vector3f where
  "borderPlaneNormal = vec3 (-(71 / 100)) 0 (-(71 / 100))"

definition team_side :: "Vector3f \<Rightarrow> BorderTransform \<Rightarrow> FlagTeam" where
  "team_side pos borderTransform =
     (let relativePos = vec_normalize (vec_sub pos (bt_position borderTransform))
      in if f32_lt (Fin 0) (vec_dot borderPlaneNormal relativePos) then RED else BLUE)"

text \<open>\<open>CaptureTheFlagMode::getTeamSide\<close> of a player at a position in a stage.\<close>

definition side_in_stage :: "Vector3f \<Rightarrow> StageData \<Rightarrow> FlagTeam" where
  "side_in_stage playerTrans stageData =
     (let pos = replacePosition playerTrans stageData
      in (case getBorderTransform stageData of
            Some b \<Rightarrow> team_side pos b
          | None \<Rightarrow>
              (case getParentStageName stageData of
                 None \<Rightarrow> INVALID
               | Some parent \<Rightarrow>
                   (case getBorderTransform (stageData\<lparr>sd_stageName := parent\<rparr>) of
                      Some b \<Rightarrow> team_side pos b
                    | None \<Rightarrow> INVALID))))"

section \<open>Properties\<close>

lemma f32_lit_nonpos: "f32_nonpos (f32_lit (-(71 / 100)))"
  by (simp add: f32_lit_def f32_round_nonpos)

lemma f32_lit_zero: "f32_lit 0 = Fin 0"
  by (simp add: f32_lit_def f32_round_def round_half_even_def)

lemma f32_add_zero_left: "f32_nonpos a \<Longrightarrow> f32_nonpos (f32_add a (f32_mul (Fin 0) b))"
  using f32_mul_zero_left [of b] by (auto intro: f32_add_nonpos)

lemma f32_sub_sign:
  "f32_le (Fin b) (Fin a) \<Longrightarrow> f32_nonneg (f32_sub (Fin a) (Fin b))"
  by (simp add: f32_round_nonneg)

text \<open>A position that lies beyond the border in both horizontal directions is on the blue side,
  whatever its height and however far away it is.\<close>

theorem team_side_blue:
  assumes "v_x (bt_position b) = Fin bx" and "v_z (bt_position b) = Fin bz"
    and "v_x pos = Fin px" and "v_z pos = Fin pz" and "bx \<le> px" and "bz \<le> pz"
  shows "team_side pos b = BLUE"
proof -
  let ?r = "vec_normalize (vec_sub pos (bt_position b))"
  have x: "f32_nonneg (v_x ?r)" and z: "f32_nonneg (v_z ?r)"
    using assms by (auto intro!: vec_normalize_sign f32_round_nonneg simp: vec_sub_def)
  have mul: "f32_nonpos (f32_mul (f32_lit (-(71 / 100))) c)" if "f32_nonneg c" for c
    using that f32_lit_nonpos by (rule f32_mul_nonpos [rotated])
  have "f32_nonpos (vec_dot borderPlaneNormal ?r)"
    unfolding vec_dot_def borderPlaneNormal_def vec3_def Vector3f.simps f32_lit_zero
    by (intro f32_add_nonpos [OF f32_add_zero_left] mul x z)
  then show ?thesis by (simp add: team_side_def f32_nonpos_def Let_def)
qed

theorem team_side_blue_witness:
  "team_side (vec3 0 0 0) \<lparr>bt_position = vec3 0 0 0\<rparr> = BLUE"
  by (rule team_side_blue [where bx = 0 and bz = 0 and px = 0 and pz = 0])
    (simp_all add: vec3_def f32_lit_zero)

definition cascade_border :: BorderTransform where
  "cascade_border = snd (hd BORDER_TRANSFORMS)"

lemma team_side_cases: "team_side p b = RED \<or> team_side p b = BLUE"
  by (simp add: team_side_def Let_def)

lemma sub_area_names:
  "map (\<lambda>a. sd_stageName (sa_stageData a)) getSubAreas =
    [''WindBlowExStage'', ''WanwanClashExStage'', ''Lift2DExStage'', ''TrexPoppunExStage'', ''CapAppearExStage'']"
  by (simp add: getSubAreas_def sub_area_def)

lemma sub_area_fields:
  "a \<in> set getSubAreas \<Longrightarrow> sd_scenarioNum (sa_stageData a) = 0 \<and>
     parentStageName a = ''WaterfallWorldHomeStage''"
  by (auto simp: getSubAreas_def sub_area_def)

lemma find_distinct_map:
  "distinct (map f xs) \<Longrightarrow> a \<in> set xs \<Longrightarrow> find (\<lambda>x. f a = f x) xs = Some a"
  by (induction xs) (auto simp: rev_image_eqI)

lemma searchForSubAreaData_known:
  assumes "a \<in> set getSubAreas" and "sd_stageName sd = sd_stageName (sa_stageData a)"
    and "sd_scenarioNum sd < 15"
  shows "searchForSubAreaData sd = Some a"
proof -
  have "distinct (map (\<lambda>a. sd_stageName (sa_stageData a)) getSubAreas)"
    unfolding sub_area_names by simp
  from find_distinct_map [OF this assms(1)] show ?thesis
    using assms(2,3) by (simp add: searchForSubAreaData_def StageData_eq_def)
qed

lemma searchForSubAreaData_high:
  assumes "\<not> sd_scenarioNum sd < 15"
  shows "searchForSubAreaData sd = None"
proof -
  have "\<not> StageData_eq sd (sa_stageData a)" if "a \<in> set getSubAreas" for a
    using assms sub_area_fields [OF that] by (auto simp: StageData_eq_def)
  then show ?thesis by (auto simp: searchForSubAreaData_def find_None_iff)
qed

text \<open>In a sub area the side is the side of the area's entrance in the kingdom, wherever in the
  sub area the player stands; but a scenario number of 15 or more makes the sub area unknown, and
  the player is on no side at all.\<close>

theorem side_in_sub_area:
  assumes "a \<in> set getSubAreas" and "sd_stageName sd = sd_stageName (sa_stageData a)"
  shows "side_in_stage p sd =
      (if sd_scenarioNum sd < 15 then team_side (entrancePosition a) cascade_border else INVALID)"
proof -
  have "sd_stageName (sa_stageData a) \<noteq> ''WaterfallWorldHomeStage''"
    using assms(1) by (auto simp: getSubAreas_def sub_area_def)
  then have none: "getBorderTransform sd = None"
    using assms(2) by (simp add: getBorderTransform_def BORDER_TRANSFORMS_def)
  have parent: "getBorderTransform (sd\<lparr>sd_stageName := ''WaterfallWorldHomeStage''\<rparr>) = Some cascade_border"
    by (simp add: getBorderTransform_def BORDER_TRANSFORMS_def cascade_border_def)
  show ?thesis
  proof (cases "sd_scenarioNum sd < 15")
    case True
    with searchForSubAreaData_known [OF assms] sub_area_fields [OF assms(1)] none parent show ?thesis
      by (simp add: side_in_stage_def replacePosition_def getSubAreaEntranceLocation_def
          getParentStageName_def)
  next
    case False
    with searchForSubAreaData_high [OF False] none show ?thesis
      by (simp add: side_in_stage_def getParentStageName_def)
  qed
qed

theorem side_in_sub_area_witness:
  "side_in_stage (vec3 1 2 3) \<lparr>sd_stageName = ''Lift2DExStage'', sd_scenarioNum = 255\<rparr> = INVALID \<and>
   side_in_stage (vec3 1 2 3) \<lparr>sd_stageName = ''Lift2DExStage'', sd_scenarioNum = 1\<rparr> =
     team_side (entrancePosition (getSubAreas ! 2)) cascade_border"
  using side_in_sub_area [of "getSubAreas ! 2" "\<lparr>sd_stageName = ''Lift2DExStage'', sd_scenarioNum = 255\<rparr>"]
    side_in_sub_area [of "getSubAreas ! 2" "\<lparr>sd_stageName = ''Lift2DExStage'', sd_scenarioNum = 1\<rparr>"]
  by (simp add: getSubAreas_def sub_area_def)

end
