(* ===== verification/Flag_Actor.thy ===== *)
theory Flag_Actor
  imports Packets
begin

text \<open>
  The two flags of capture the flag (\<open>actors/FlagActor.h\<close>, \<open>actors/FlagActor.cpp\<close>) and the border
  (\<open>actors/BorderActor.h\<close>, \<open>actors/BorderActor.cpp\<close>). The static array \<open>teamFlags\<close> has one actor per
  team, the static array \<open>flagInfos\<close> one info per team; an actor points to an info. Of an actor the
  model keeps whether the engine has it dead, its position and its texture animation.
\<close>

section \<open>State\<close>

record FlagInfo =
  fi_team :: FlagTeam
  fi_isHeld :: bool
  holderUserId :: uid
  fi_pos :: Vector3f
  fi_rot :: Quatf

definition FlagInfo_new :: FlagInfo where
  "FlagInfo_new =
     \<lparr>fi_team = INVALID, fi_isHeld = False, holderUserId = EmptyId,
      fi_pos = Vector3f_zero, fi_rot = Quatf_zero\<rparr>"

record flag_actor =
  fa_dead :: bool
  fa_trans :: Vector3f
  fa_quat :: Quatf
  fa_anim :: string
  fa_info :: "nat option"

record flag_world =
  teamFlags :: "flag_actor option list"
  flagInfos :: "FlagInfo list"
  latestReceivedPosition :: Vector3f
  latestReceivedFlagTeam :: FlagTeam
  latestReceivedStage :: string

definition team_count :: nat where
  "team_count = 3"

definition flag_world_init :: flag_world where
  "flag_world_init =
     \<lparr>teamFlags = replicate team_count None, flagInfos = replicate team_count FlagInfo_new,
      latestReceivedPosition = Vector3f_zero, latestReceivedFlagTeam = INVALID, latestReceivedStage = []\<rparr>"

section \<open>Operations\<close>

text \<open>The index of a team: \<open>static_cast<unsigned char>(team)\<close>.\<close>

definition team_index :: "FlagTeam \<Rightarrow> nat" where
  "team_index t = unat (ucast t :: u8)"

definition getFlagActorForTeam :: "FlagTeam \<Rightarrow> flag_world \<Rightarrow> flag_actor option res" where
  "getFlagActorForTeam t w =
     (if team_index t < length (teamFlags w) then Inr (teamFlags w ! team_index t) else Inl OutOfBounds)"

definition flag_set :: "nat \<Rightarrow> flag_actor \<Rightarrow> flag_world \<Rightarrow> flag_world" where
  "flag_set i f w = w\<lparr>teamFlags := (teamFlags w)[i := Some f]\<rparr>"

definition info_of :: "flag_actor \<Rightarrow> flag_world \<Rightarrow> FlagInfo option" where
  "info_of f w = map_option (\<lambda>k. flagInfos w ! k) (fa_info f)"

definition info_update :: "flag_actor \<Rightarrow> (FlagInfo \<Rightarrow> FlagInfo) \<Rightarrow> flag_world \<Rightarrow> flag_world" where
  "info_update f g w =
     (case fa_info f of
        None \<Rightarrow> w
      | Some k \<Rightarrow> w\<lparr>flagInfos := (flagInfos w)[k := g (flagInfos w ! k)]\<rparr>)"

definition getTeam :: "flag_actor \<Rightarrow> flag_world \<Rightarrow> FlagTeam" where
  "getTeam f w = (case info_of f w of Some i \<Rightarrow> fi_team i | None \<Rightarrow> INVALID)"

definition isHeld :: "flag_actor \<Rightarrow> flag_world \<Rightarrow> bool" where
  "isHeld f w = (case info_of f w of Some i \<Rightarrow> fi_isHeld i | None \<Rightarrow> False)"

definition setIsHeld :: "bool \<Rightarrow> flag_actor \<Rightarrow> flag_world \<Rightarrow> flag_world" where
  "setIsHeld held f w = info_update f (\<lambda>i. i\<lparr>fi_isHeld := held\<rparr>) w"

definition getHeldPlayer :: "flag_actor \<Rightarrow> flag_world \<Rightarrow> uid option" where
  "getHeldPlayer f w =
     (if info_of f w = None \<or> \<not> isHeld f w then None
      else map_option holderUserId (info_of f w))"

definition setHeldPlayer :: "uid \<Rightarrow> flag_actor \<Rightarrow> flag_world \<Rightarrow> flag_world" where
  "setHeldPlayer userID f w = info_update f (\<lambda>i. i\<lparr>holderUserId := userID\<rparr>) w"

text \<open>\<open>setTransform\<close> of the flag in slot \<open>i\<close>: the actor's position, and the info's pose.\<close>

definition setTransform :: "Vector3f \<Rightarrow> Quatf \<Rightarrow> nat \<Rightarrow> flag_actor \<Rightarrow> flag_world \<Rightarrow> flag_world" where
  "setTransform pos rot i f w =
     info_update f (\<lambda>k. k\<lparr>fi_pos := pos, fi_rot := rot\<rparr>) (flag_set i (f\<lparr>fa_trans := pos\<rparr>) w)"

definition flag_makeActorAlive :: "flag_actor \<Rightarrow> flag_actor" where
  "flag_makeActorAlive f = (if fa_dead f then f\<lparr>fa_dead := False\<rparr> else f)"

text \<open>\<open>makeActorDead\<close> of a live flag calls itself, not the engine's function.\<close>

partial_function (option) flag_makeActorDead :: "flag_actor \<Rightarrow> flag_actor option" where
  "flag_makeActorDead f = (if \<not> fa_dead f then flag_makeActorDead f else Some f)"

definition flag_control :: "flag_actor \<Rightarrow> flag_world \<Rightarrow> flag_actor" where
  "flag_control f w =
     (case info_of f w of
        None \<Rightarrow> f
      | Some i \<Rightarrow> f\<lparr>fa_trans := fi_pos i, fa_quat := fi_rot i\<rparr>)"

text \<open>
  \<open>setTeam\<close> of the flag in slot \<open>i\<close>; \<open>has_anim\<close> says whether the model has the texture animation.
\<close>

definition setTeam :: "(string \<Rightarrow> bool) \<Rightarrow> FlagTeam \<Rightarrow> nat \<Rightarrow> flag_actor \<Rightarrow> flag_world \<Rightarrow> flag_world" where
  "setTeam has_anim t i f w =
     (let f = f\<lparr>fa_info := Some (unat t)\<rparr>;
          w = info_update f (\<lambda>k. k\<lparr>fi_team := t\<rparr>) w;
          anim = (if t = RED then ''After'' else ''Before'');
          f = (if has_anim anim then f\<lparr>fa_anim := anim\<rparr> else f)
      in flag_set i f w)"

text \<open>
  \<open>createFromFactory\<close> makes an actor if the stage's factory has a creator for it (\<open>creator\<close> is the
  new actor); \<open>initFlagActors\<close> uses the result without looking.
\<close>

definition init_flag ::
  "(string \<Rightarrow> bool) \<Rightarrow> flag_actor option \<Rightarrow> FlagTeam \<Rightarrow> flag_world \<Rightarrow> flag_world res" where
  "init_flag has_anim creator t w =
     (case creator of
        None \<Rightarrow> Inl NullDeref
      | Some f \<Rightarrow> Inr (setTeam has_anim t (team_index t) f w))"

definition initFlagActors ::
  "(string \<Rightarrow> bool) \<Rightarrow> flag_actor option \<Rightarrow> flag_world \<Rightarrow> flag_world res" where
  "initFlagActors has_anim creator w =
     rbind (init_flag has_anim creator RED w) (init_flag has_anim creator BLUE)"

section \<open>The border\<close>

record border_actor =
  ba_dead :: bool
  ba_trans :: Vector3f
  ba_quat :: Quatf
  ba_info :: "(Vector3f \<times> Quatf) option"

definition border_control :: "border_actor \<Rightarrow> border_actor" where
  "border_control b =
     (case ba_info b of None \<Rightarrow> b | Some (pos, rot) \<Rightarrow> b\<lparr>ba_trans := pos, ba_quat := rot\<rparr>)"

definition border_makeActorAlive :: "border_actor \<Rightarrow> border_actor" where
  "border_makeActorAlive b = (if ba_dead b then b\<lparr>ba_dead := False\<rparr> else b)"

definition border_makeActorDead :: "border_actor \<Rightarrow> border_actor" where
  "border_makeActorDead b = (if \<not> ba_dead b then b\<lparr>ba_dead := True\<rparr> else b)"

definition border_setTransform :: "Vector3f \<Rightarrow> Quatf \<Rightarrow> border_actor \<Rightarrow> border_actor" where
  "border_setTransform pos rot b =
     (case ba_info b of None \<Rightarrow> b | Some _ \<Rightarrow> b\<lparr>ba_info := Some (pos, rot)\<rparr>)"

definition border_create :: "border_actor option \<Rightarrow> border_actor option" where
  "border_create creator = map_option (\<lambda>b. b\<lparr>ba_info := Some (Vector3f_zero, Quatf_zero)\<rparr>) creator"

section \<open>Well-formed flags\<close>

text \<open>
  The arrays have one slot per team, the slot of no team is empty, and a flag points to the info of
  its own slot.
\<close>

definition flags_ok :: "flag_world \<Rightarrow> bool" where
  "flags_ok w \<longleftrightarrow> length (teamFlags w) = team_count \<and> length (flagInfos w) = team_count \<and>
     teamFlags w ! 0 = None \<and>
     (\<forall>i < team_count. \<forall>f. teamFlags w ! i = Some f \<longrightarrow> fa_info f = Some i)"

lemma team_index_simps [simp]:
  "team_index INVALID = 0" "team_index RED = 1" "team_index BLUE = 2" "unat RED = 1" "unat BLUE = 2"
  by (simp_all add: team_index_def INVALID_def RED_def BLUE_def)

lemma flags_ok_init: "flags_ok flag_world_init"
  by (simp add: flags_ok_def flag_world_init_def team_count_def nth_Cons' numeral_3_eq_3)

lemma flags_ok_lengths: "flags_ok w \<Longrightarrow> length (teamFlags w) = 3 \<and> length (flagInfos w) = 3"
  by (simp add: flags_ok_def team_count_def)

lemma flags_ok_info: "flags_ok w \<Longrightarrow> i < 3 \<Longrightarrow> teamFlags w ! i = Some f \<Longrightarrow> fa_info f = Some i"
  by (simp add: flags_ok_def team_count_def)

lemma flags_ok_info_update [simp]:
  "flags_ok (info_update f g w) = flags_ok w"
  by (simp add: info_update_def flags_ok_def split: option.splits)

lemma teamFlags_info_update [simp]: "teamFlags (info_update f g w) = teamFlags w"
  by (simp add: info_update_def split: option.splits)

lemma flags_ok_flag_set:
  assumes "flags_ok w" and "0 < i" and "i < 3" and "fa_info f = Some i"
  shows "flags_ok (flag_set i f w)"
  using assms by (auto simp: flags_ok_def flag_set_def team_count_def nth_list_update)

lemma flags_ok_setTeam:
  assumes "flags_ok w" and "t = RED \<or> t = BLUE"
  shows "flags_ok (setTeam has_anim t (team_index t) f w)"
  using assms by (auto simp: setTeam_def Let_def intro!: flags_ok_flag_set)

lemma initFlagActors_Some:
  "initFlagActors has_anim (Some f) w =
     Inr (setTeam has_anim BLUE 2 f (setTeam has_anim RED 1 f w))"
  by (simp add: initFlagActors_def init_flag_def)

lemma info_of_update_same:
  assumes "fa_info f = Some k" and "k < length (flagInfos w)"
  shows "info_of f (info_update f g w) = Some (g (flagInfos w ! k))"
  using assms by (simp add: info_of_def info_update_def)

text \<open>A live flag can never be made dead: \<open>makeActorDead\<close> does not return.\<close>

theorem flag_makeActorDead_diverges:
  "(flag_makeActorDead f = None) = (\<not> fa_dead f)"
proof
  show "flag_makeActorDead f = None" if "\<not> fa_dead f"
  proof -
    have "flag_makeActorDead f = Some y \<Longrightarrow> fa_dead f" for y
      by (rule flag_makeActorDead.raw_induct [of "\<lambda>f y. fa_dead f"]) (auto split: if_splits)
    with that show ?thesis by (cases "flag_makeActorDead f") auto
  qed
  show "\<not> fa_dead f" if "flag_makeActorDead f = None"
    using that by (subst (asm) flag_makeActorDead.simps) (auto split: if_splits)
qed

end
