(* ===== verification/Game_Mode.thy ===== *)
theory Game_Mode
  imports Timer Packets
begin

text \<open>
  What the game modes share: the mode numbers and their names (\<open>GameModeBase.hpp\<close>,
  \<open>GameModeFactory.hpp\<close>), the game information each mode keeps across scenes, the icon with its
  three nerves (\<open>layouts/HideAndSeekIcon.cpp\<close>, \<open>layouts/CaptureTheFlagIcon.cpp\<close>), and the counters of
  the scene a mode hides while it is active.
\<close>

section \<open>Modes\<close>

type_synonym GameMode = "8 word"

definition NONE :: GameMode where "NONE = -1"
definition HIDEANDSEEK :: GameMode where "HIDEANDSEEK = 0"
definition CAPTURE_THE_FLAG :: GameMode where "CAPTURE_THE_FLAG = 1"

lemma GameMode_distinct [simp]:
  "NONE \<noteq> HIDEANDSEEK" "HIDEANDSEEK \<noteq> NONE" "NONE \<noteq> CAPTURE_THE_FLAG" "CAPTURE_THE_FLAG \<noteq> NONE"
  "HIDEANDSEEK \<noteq> CAPTURE_THE_FLAG" "CAPTURE_THE_FLAG \<noteq> HIDEANDSEEK"
  by (simp_all add: NONE_def HIDEANDSEEK_def CAPTURE_THE_FLAG_def)

definition modeTable :: "string list" where
  "modeTable = [''HideAndSeek'', ''CaptureTheFlag'']"

definition modeNames :: "string list" where
  "modeNames = [''Hide and Seek'', ''Capture the Flag'']"

definition getModeString :: "GameMode \<Rightarrow> string option" where
  "getModeString m =
     (if sint m \<ge> 0 \<and> nat (sint m) < length modeTable then Some (modeTable ! nat (sint m)) else None)"

definition getModeName :: "GameMode \<Rightarrow> string option" where
  "getModeName m =
     (if sint m \<ge> 0 \<and> nat (sint m) < length modeNames then Some (modeNames ! nat (sint m)) else None)"

definition getModeName_idx :: "s32 \<Rightarrow> string option" where
  "getModeName_idx idx =
     (if sint idx \<ge> 0 \<and> nat (sint idx) < length modeNames then Some (modeNames ! nat (sint idx)) else None)"

definition getModeCount :: nat where
  "getModeCount = length modeTable"

text \<open>The player actor of a scene: none, the bound bowl racer (no player info), or the normal one.\<close>

datatype player_kind = NoPlayer | Yukimaru | Hakoniwa

section \<open>Game information\<close>

record HideAndSeekInfo =
  mIsPlayerIt :: bool
  hs_mIsUseGravity :: bool
  hs_mIsUseGravityCam :: bool
  mHidingTime :: GameTime

definition HideAndSeekInfo_new :: HideAndSeekInfo where
  "HideAndSeekInfo_new =
     \<lparr>mIsPlayerIt = False, hs_mIsUseGravity = False, hs_mIsUseGravityCam = False,
      mHidingTime = GameTime_init\<rparr>"

record CaptureTheFlagInfo =
  mPlayerTeam :: FlagTeam
  ctf_mIsUseGravity :: bool
  ctf_mIsUseGravityCam :: bool
  mHeldFlag :: FlagTeam
  mWinningTeam :: FlagTeam
  mRoundTime :: GameTime

definition CaptureTheFlagInfo_new :: CaptureTheFlagInfo where
  "CaptureTheFlagInfo_new =
     \<lparr>mPlayerTeam = INVALID, ctf_mIsUseGravity = False, ctf_mIsUseGravityCam = False,
      mHeldFlag = INVALID, mWinningTeam = INVALID, mRoundTime = GameTime_init\<rparr>"

text \<open>The constructor tells the class; \<open>mMode\<close> is set by it and never changed.\<close>

datatype mode_info = Hns_info HideAndSeekInfo | Ctf_info CaptureTheFlagInfo

definition info_mMode :: "mode_info \<Rightarrow> GameMode" where
  "info_mMode i = (case i of Hns_info _ \<Rightarrow> HIDEANDSEEK | Ctf_info _ \<Rightarrow> CAPTURE_THE_FLAG)"

section \<open>The counters of the scene\<close>

record scene_counters =
  coinCounter_alive :: bool
  coinCollect_alive :: bool
  compass_alive :: bool
  playGuide_alive :: bool

datatype counter_call =
    CoinCounter_tryEnd | CoinCollect_tryEnd | Compass_end | PlayGuide_end
  | CoinCounter_tryStart | CoinCollect_tryStart | Compass_appearSlideIn | PlayGuide_appear

definition hide_counters :: "scene_counters \<Rightarrow> counter_call list" where
  "hide_counters s =
     (if coinCounter_alive s then [CoinCounter_tryEnd] else []) @
     (if coinCollect_alive s then [CoinCollect_tryEnd] else []) @
     (if compass_alive s then [Compass_end] else []) @
     (if playGuide_alive s then [PlayGuide_end] else [])"

definition show_counters :: "scene_counters \<Rightarrow> counter_call list" where
  "show_counters s =
     (if \<not> coinCounter_alive s then [CoinCounter_tryStart] else []) @
     (if \<not> coinCollect_alive s then [CoinCollect_tryStart] else []) @
     (if \<not> compass_alive s then [Compass_appearSlideIn] else []) @
     (if \<not> playGuide_alive s then [PlayGuide_appear] else [])"

section \<open>The icon\<close>

datatype icon_nerve = IconAppear | IconWait | IconEnd

text \<open>The two icon panes are the seeking and hiding icons, or the red and blue flag icons.\<close>

record mode_icon =
  ic_nerve :: icon_nerve
  ic_alive :: bool
  ic_first :: bool
  ic_second :: bool
  ic_offsides :: bool

definition icon_new :: "bool \<Rightarrow> mode_icon" where
  "icon_new offsides =
     \<lparr>ic_nerve = IconEnd, ic_alive = False, ic_first = False, ic_second = False, ic_offsides = offsides\<rparr>"

definition icon_appear :: "mode_icon \<Rightarrow> mode_icon" where
  "icon_appear c = c\<lparr>ic_nerve := IconAppear, ic_alive := True\<rparr>"

definition icon_tryEnd :: "mode_icon \<Rightarrow> bool \<times> mode_icon" where
  "icon_tryEnd c = (if ic_nerve c \<noteq> IconEnd then (True, c\<lparr>ic_nerve := IconEnd\<rparr>) else (False, c))"

definition icon_tryStart :: "mode_icon \<Rightarrow> bool \<times> mode_icon" where
  "icon_tryStart c =
     (if ic_nerve c \<noteq> IconWait \<and> ic_nerve c \<noteq> IconAppear then (True, icon_appear c) else (False, c))"

text \<open>\<open>action_end\<close> is the engine's answer whether the current animation has ended.\<close>

definition icon_exeAppear :: "bool \<Rightarrow> mode_icon \<Rightarrow> mode_icon" where
  "icon_exeAppear action_end c = (if action_end then c\<lparr>ic_nerve := IconWait\<rparr> else c)"

definition icon_exeEnd :: "bool \<Rightarrow> mode_icon \<Rightarrow> mode_icon" where
  "icon_exeEnd action_end c = (if action_end then c\<lparr>ic_alive := False\<rparr> else c)"

definition showSeeking :: "mode_icon \<Rightarrow> mode_icon" where
  "showSeeking c = c\<lparr>ic_second := False, ic_first := True\<rparr>"

definition showHiding :: "mode_icon \<Rightarrow> mode_icon" where
  "showHiding c = c\<lparr>ic_first := False, ic_second := True\<rparr>"

definition showRedTeam :: "mode_icon \<Rightarrow> mode_icon" where
  "showRedTeam c = c\<lparr>ic_second := False, ic_first := True\<rparr>"

definition showBlueTeam :: "mode_icon \<Rightarrow> mode_icon" where
  "showBlueTeam c = c\<lparr>ic_first := False, ic_second := True\<rparr>"

definition showTeam :: "FlagTeam \<Rightarrow> mode_icon \<Rightarrow> mode_icon" where
  "showTeam t c =
     (if t = BLUE then showBlueTeam c
      else if t = RED then showRedTeam c
      else c\<lparr>ic_first := False, ic_second := False\<rparr>)"

definition showOffsidesWarning :: "mode_icon \<Rightarrow> mode_icon" where
  "showOffsidesWarning c = c\<lparr>ic_offsides := True\<rparr>"

definition hideOffsidesWarning :: "mode_icon \<Rightarrow> mode_icon" where
  "hideOffsidesWarning c = c\<lparr>ic_offsides := False\<rparr>"

text \<open>The offsides warning of \<open>CaptureTheFlagIcon::exeWait\<close> and its win text.\<close>

definition ctf_icon_exeWait :: "FlagTeam \<Rightarrow> CaptureTheFlagInfo \<Rightarrow> mode_icon \<Rightarrow> mode_icon \<times> string" where
  "ctf_icon_exeWait teamSide info c =
     ((if teamSide \<noteq> mPlayerTeam info \<and> mPlayerTeam info \<noteq> INVALID
       then showOffsidesWarning c else hideOffsidesWarning c),
      (if mWinningTeam info \<noteq> INVALID
       then ''You '' @ (if mPlayerTeam info = mWinningTeam info then ''won'' else ''lost'') @ ''!'' @ [CHR 10]
       else []))"

text \<open>
  A living icon is appearing or waiting until it is told to end; at most one of its panes is shown.
\<close>

definition icon_ok :: "mode_icon \<Rightarrow> bool" where
  "icon_ok c \<longleftrightarrow> (ic_nerve c \<noteq> IconEnd \<longrightarrow> ic_alive c) \<and> \<not> (ic_first c \<and> ic_second c)"

lemma icon_ok_new: "icon_ok (icon_new b)"
  by (simp add: icon_ok_def icon_new_def)

lemma icon_ok_ops [simp]:
  "icon_ok c \<Longrightarrow> icon_ok (icon_appear c)"
  "icon_ok c \<Longrightarrow> icon_ok (snd (icon_tryEnd c))"
  "icon_ok c \<Longrightarrow> icon_ok (snd (icon_tryStart c))"
  "icon_ok c \<Longrightarrow> ic_nerve c = IconAppear \<Longrightarrow> icon_ok (icon_exeAppear e c)"
  "icon_ok c \<Longrightarrow> ic_nerve c = IconEnd \<Longrightarrow> icon_ok (icon_exeEnd e c)"
  "icon_ok c \<Longrightarrow> icon_ok (showSeeking c)"
  "icon_ok c \<Longrightarrow> icon_ok (showHiding c)"
  "icon_ok c \<Longrightarrow> icon_ok (showTeam t c)"
  by (auto simp: icon_ok_def icon_appear_def icon_tryEnd_def icon_tryStart_def icon_exeAppear_def
      icon_exeEnd_def showSeeking_def showHiding_def showTeam_def showRedTeam_def showBlueTeam_def)

section \<open>The tag message\<close>

text \<open>\<open>sendTagInfPacket\<close>'s message. The message keeps minutes and seconds as unsigned numbers.\<close>

definition tag_message :: "HideAndSeekInfo \<Rightarrow> TagInf" where
  "tag_message i =
     \<lparr>update_type = or TagUpdate_STATE TagUpdate_TIME, is_it = Some (mIsPlayerIt i),
      ti_seconds = mSeconds (mHidingTime i), ti_minutes = mMinutes (mHidingTime i)\<rparr>"

end
