(* ===== verification/Hide_Seek.thy ===== *)
theory Hide_Seek
  imports Game_Mode Puppet_Table
begin

text \<open>
  Hide and seek (\<open>server/hns/HideAndSeekMode.cpp\<close>). The mode object and the game information are
  separate: the information outlives the scene. Every frame gets what the engine answers: the
  player, its distances to the other players, the pad, the time since the last frame. The result
  names what the mode asks of the engine and the messages it sends.
\<close>

section \<open>State and inputs\<close>

record hns_mode =
  hm_mMode :: GameMode
  hm_mIsActive :: bool
  hm_mIsFirstFrame :: bool
  hm_mInvulnTime :: f32
  mModeTimer :: GameModeTimer
  hm_mModeLayout :: mode_icon
  hm_mTicket :: bool

record hns_frame =
  fr_player :: player_kind
  fr_dist :: "nat \<Rightarrow> f32"
  fr_is2DModel :: bool
  fr_isDead :: "nat \<Rightarrow> bool"
  fr_deltaTime :: f32
  fr_onGround :: bool
  fr_cameraActive :: bool
  fr_holdL :: bool
  fr_holdZL :: bool
  fr_trigRight :: bool
  fr_trigZL :: bool
  fr_trigLeft :: bool
  fr_trigUp :: bool
  fr_timerPad :: pad
  fr_isHideAndSeek :: bool

datatype hns_effect =
    StartCamera
  | EndCamera
  | TagDeath
  | SendTag TagInf
  | SetGravity
  | KillMainPlayer

text \<open>\<open>isHideAndSeek\<close> is \<open>GameModeManager::isMode(HIDEANDSEEK)\<close>: else \<open>sendTagInfPacket\<close> sends nothing.\<close>

definition send_tag :: "bool \<Rightarrow> HideAndSeekInfo \<Rightarrow> hns_effect list" where
  "send_tag isHideAndSeek i = (if isHideAndSeek then [SendTag (tag_message i)] else [])"

section \<open>Scenes\<close>

text \<open>
  \<open>init\<close> keeps the manager's information when it belongs to this mode, and makes a new one otherwise.
  The timer gets the time of the information, or counts from zero.
\<close>

definition hns_init :: "GameMode \<Rightarrow> mode_info option \<Rightarrow> hns_mode \<Rightarrow> (HideAndSeekInfo \<times> hns_mode) res" where
  "hns_init infoMode curGameInfo m =
     rbind (case curGameInfo of
              None \<Rightarrow> Inr None
            | Some g \<Rightarrow>
                if info_mMode g = infoMode
                then (case g of Hns_info i \<Rightarrow> Inr (Some i) | Ctf_info _ \<Rightarrow> Inl WrongClass)
                else Inr None)
       (\<lambda>kept.
          case (case kept of
                  Some i \<Rightarrow> (i, GameModeTimer_of_time (mHidingTime i))
                | None \<Rightarrow> (HideAndSeekInfo_new, GameModeTimer_default)) of
            (i, t) \<Rightarrow>
              Inr (i, m\<lparr>hm_mMode := infoMode, hm_mModeLayout := showSeeking (icon_new False),
                        mModeTimer := disableTimer t\<rparr>))"

definition hns_new :: hns_mode where
  "hns_new =
     \<lparr>hm_mMode = NONE, hm_mIsActive = False, hm_mIsFirstFrame = True, hm_mInvulnTime = Fin 0,
      mModeTimer = GameModeTimer_default, hm_mModeLayout = icon_new False, hm_mTicket = False\<rparr>"

definition hns_begin :: "scene_counters \<Rightarrow> HideAndSeekInfo \<Rightarrow> hns_mode \<Rightarrow> hns_mode \<times> counter_call list" where
  "hns_begin scene i m =
     (let m = m\<lparr>hm_mModeLayout := icon_appear (hm_mModeLayout m), hm_mIsFirstFrame := True\<rparr>;
          m = (if \<not> mIsPlayerIt i
               then m\<lparr>mModeTimer := enableTimer (mModeTimer m),
                      hm_mModeLayout := showHiding (hm_mModeLayout m)\<rparr>
               else m\<lparr>mModeTimer := disableTimer (mModeTimer m),
                      hm_mModeLayout := showSeeking (hm_mModeLayout m)\<rparr>)
      in (m\<lparr>hm_mInvulnTime := Fin 0, hm_mIsActive := True\<rparr>, hide_counters scene))"

definition hns_end :: "scene_counters \<Rightarrow> hns_mode \<Rightarrow> hns_mode \<times> counter_call list" where
  "hns_end scene m =
     (m\<lparr>hm_mModeLayout := snd (icon_tryEnd (hm_mModeLayout m)),
        mModeTimer := disableTimer (mModeTimer m), hm_mInvulnTime := Fin 0, hm_mIsActive := False\<rparr>,
      show_counters scene)"

section \<open>Tagging\<close>

text \<open>What happens to the player when another one that is it is looked at.\<close>

definition become_it ::
  "bool \<Rightarrow> hns_effect list \<Rightarrow> HideAndSeekInfo \<times> hns_mode \<Rightarrow> (HideAndSeekInfo \<times> hns_mode) \<times> hns_effect list" where
  "become_it isHideAndSeek before s =
     (case s of (i, m) \<Rightarrow>
        let i = i\<lparr>mIsPlayerIt := True\<rparr>
        in ((i, m\<lparr>mModeTimer := disableTimer (mModeTimer m),
                  hm_mModeLayout := showSeeking (hm_mModeLayout m)\<rparr>),
            before @ send_tag isHideAndSeek i))"

definition check_puppet ::
  "hns_frame \<Rightarrow> nat \<Rightarrow> PuppetInfo \<Rightarrow> HideAndSeekInfo \<times> hns_mode \<Rightarrow>
   (HideAndSeekInfo \<times> hns_mode) \<times> hns_effect list" where
  "check_puppet fr k curInfo s =
     (if isConnected curInfo \<and> isInSameStage curInfo \<and> isIt curInfo \<and> fr_player fr \<noteq> Yukimaru
      then if f32_lt (fr_dist fr k) (Fin 200) \<and> fr_is2DModel fr = is2D curInfo
           then if \<not> fr_isDead fr k then become_it (fr_isHideAndSeek fr) [TagDeath] s else (s, [])
           else if fr_isDead fr k then become_it (fr_isHideAndSeek fr) [] s else (s, [])
      else (s, []))"

fun check_puppets ::
  "hns_frame \<Rightarrow> nat \<Rightarrow> nat \<Rightarrow> puppet_table \<Rightarrow> HideAndSeekInfo \<times> hns_mode \<Rightarrow>
   ((HideAndSeekInfo \<times> hns_mode) \<times> hns_effect list) res" where
  "check_puppets fr 0 k tab s = Inr (s, [])"
| "check_puppets fr (Suc n) k tab s =
     rbind (getPuppetInfo (of_nat k) tab) (\<lambda>curInfo.
       case check_puppet fr k curInfo s of (s, es) \<Rightarrow>
         rbind (check_puppets fr n (k + 1) tab s) (\<lambda>(s, es'). Inr (s, es @ es')))"

section \<open>One frame\<close>

definition first_frame :: "HideAndSeekInfo \<Rightarrow> hns_mode \<Rightarrow> hns_mode \<times> hns_effect list" where
  "first_frame i m =
     (if hm_mIsFirstFrame m
      then (m\<lparr>hm_mIsFirstFrame := False\<rparr>,
            if hs_mIsUseGravityCam i \<and> hm_mTicket m then [StartCamera] else [])
      else (m, []))"

text \<open>The hiding part: tagging after five seconds, and the clock.\<close>

definition hiding ::
  "nat \<Rightarrow> hns_frame \<Rightarrow> puppet_table \<Rightarrow> HideAndSeekInfo \<times> hns_mode \<Rightarrow>
   ((HideAndSeekInfo \<times> hns_mode) \<times> hns_effect list) res" where
  "hiding puppets fr tab s =
     (case s of (i, m) \<Rightarrow>
        if \<not> mIsPlayerIt i
        then rbind (if f32_le (Fin 5) (hm_mInvulnTime m)
                    then check_puppets fr puppets 0 tab (i, m)
                    else Inr ((i, m\<lparr>hm_mInvulnTime := f32_add (hm_mInvulnTime m) (fr_deltaTime fr)\<rparr>), []))
               (\<lambda>((i, m), es).
                 Inr ((i, m\<lparr>mModeTimer := updateTimer (fr_timerPad fr) (fr_deltaTime fr) (mModeTimer m)\<rparr>), es))
        else Inr ((i, m), []))"

definition gravity ::
  "hns_frame \<Rightarrow> HideAndSeekInfo \<Rightarrow> hns_mode \<Rightarrow> HideAndSeekInfo \<times> hns_effect list" where
  "gravity fr i m =
     (if hs_mIsUseGravity i \<and> fr_player fr \<noteq> Yukimaru
      then let g = (if fr_onGround fr then [SetGravity] else [])
           in if fr_holdL fr
              then if fr_trigRight fr
                   then if fr_cameraActive fr
                        then (i\<lparr>hs_mIsUseGravityCam := False\<rparr>, g @ [EndCamera])
                        else (i\<lparr>hs_mIsUseGravityCam := True\<rparr>, g @ [StartCamera])
                   else (i, g)
              else if fr_trigZL fr \<and> fr_trigLeft fr then (i, g @ [KillMainPlayer])
              else (i, g)
      else (i, []))"

definition toggle_it ::
  "hns_frame \<Rightarrow> HideAndSeekInfo \<Rightarrow> hns_mode \<Rightarrow> (HideAndSeekInfo \<times> hns_mode) \<times> hns_effect list" where
  "toggle_it fr i m =
     (if fr_trigUp fr \<and> \<not> fr_holdZL fr
      then let i = i\<lparr>mIsPlayerIt := \<not> mIsPlayerIt i\<rparr>;
               m = m\<lparr>mModeTimer := toggleTimer (mModeTimer m)\<rparr>;
               m = (if \<not> mIsPlayerIt i
                    then m\<lparr>hm_mInvulnTime := Fin 0, hm_mModeLayout := showHiding (hm_mModeLayout m)\<rparr>
                    else m\<lparr>hm_mModeLayout := showSeeking (hm_mModeLayout m)\<rparr>)
           in ((i, m), send_tag (fr_isHideAndSeek fr) i)
      else ((i, m), []))"

text \<open>\<open>update\<close>; \<open>puppets\<close> is the size of the puppet holder. A missing player is read through first.\<close>

definition hns_update ::
  "nat \<Rightarrow> hns_frame \<Rightarrow> puppet_table \<Rightarrow> HideAndSeekInfo \<times> hns_mode \<Rightarrow>
   ((HideAndSeekInfo \<times> hns_mode) \<times> hns_effect list) res" where
  "hns_update puppets fr tab s =
     (if fr_player fr = NoPlayer then Inl NullDeref
      else case s of (i, m) \<Rightarrow>
        case first_frame i m of (m, e1) \<Rightarrow>
          rbind (hiding puppets fr tab (i, m)) (\<lambda>((i, m), e2).
            case gravity fr i m of (i, e3) \<Rightarrow>
              (case toggle_it fr i m of ((i, m), e4) \<Rightarrow>
                 Inr ((i\<lparr>mHidingTime := mTime (mModeTimer m)\<rparr>, m), e1 @ e2 @ e3 @ e4))))"

text \<open>\<open>HideAndSeekConfigMenu::updateMenu\<close>.\<close>

definition hns_updateMenu :: "bool \<Rightarrow> s32 \<Rightarrow> HideAndSeekInfo option \<Rightarrow> bool \<times> HideAndSeekInfo option" where
  "hns_updateMenu isHideAndSeek selectIndex curMode =
     (case curMode of
        None \<Rightarrow> (True, None)
      | Some i \<Rightarrow>
          if selectIndex = 0
          then (True, Some (if isHideAndSeek then i\<lparr>hs_mIsUseGravity := True\<rparr> else i))
          else if selectIndex = 1
          then (True, Some (if isHideAndSeek then i\<lparr>hs_mIsUseGravity := False\<rparr> else i))
          else (False, Some i))"

definition setPlayerTagState :: "bool \<Rightarrow> HideAndSeekInfo \<Rightarrow> HideAndSeekInfo" where
  "setPlayerTagState state i = i\<lparr>mIsPlayerIt := state\<rparr>"

text \<open>A run of frames; the players' table may change between them.\<close>

fun hns_run ::
  "nat \<Rightarrow> (hns_frame \<times> puppet_table) list \<Rightarrow> HideAndSeekInfo \<times> hns_mode \<Rightarrow> (HideAndSeekInfo \<times> hns_mode) res" where
  "hns_run puppets [] s = Inr s"
| "hns_run puppets ((fr, tab) # rest) s =
     rbind (hns_update puppets fr tab s) (\<lambda>(s, _). hns_run puppets rest s)"

section \<open>Who gets tagged\<close>

text \<open>Another player that is it makes the player it by touching, or when the player dies untouched.\<close>

definition tags :: "hns_frame \<Rightarrow> nat \<Rightarrow> PuppetInfo \<Rightarrow> bool" where
  "tags fr k p \<longleftrightarrow> isConnected p \<and> isInSameStage p \<and> isIt p \<and> fr_player fr \<noteq> Yukimaru \<and>
     ((f32_lt (fr_dist fr k) (Fin 200) \<and> fr_is2DModel fr = is2D p) \<noteq> fr_isDead fr k)"

lemma check_puppet_eq:
  "fst (check_puppet fr k p (i, m)) =
     (if tags fr k p
      then (i\<lparr>mIsPlayerIt := True\<rparr>,
            m\<lparr>mModeTimer := disableTimer (mModeTimer m), hm_mModeLayout := showSeeking (hm_mModeLayout m)\<rparr>)
      else (i, m))"
  by (auto simp: check_puppet_def tags_def become_it_def Let_def)

text \<open>What any number of tags does to the state: nothing, or once what one tag does.\<close>

definition tagged :: "bool \<Rightarrow> HideAndSeekInfo \<times> hns_mode \<Rightarrow> HideAndSeekInfo \<times> hns_mode" where
  "tagged t s =
     (case s of (i, m) \<Rightarrow>
        if t then (i\<lparr>mIsPlayerIt := True\<rparr>,
                   m\<lparr>mModeTimer := disableTimer (mModeTimer m), hm_mModeLayout := showSeeking (hm_mModeLayout m)\<rparr>)
        else (i, m))"

lemma tagged_tagged: "tagged b (tagged a s) = tagged (a \<or> b) s"
  by (cases s) (auto simp: tagged_def disableTimer_def showSeeking_def)

lemma check_puppet_tagged: "fst (check_puppet fr k p s) = tagged (tags fr k p) s"
  by (cases s) (simp add: check_puppet_eq tagged_def)

lemma check_puppets_eq:
  assumes "k + n \<le> length (mPuppetInfoArr tab)" and "length (mPuppetInfoArr tab) < 2 ^ 31"
  shows "\<exists>es. check_puppets fr n k tab s =
    Inr (tagged (\<exists>j < n. tags fr (k + j) (mPuppetInfoArr tab ! (k + j))) s, es)"
  using assms(1)
proof (induction n arbitrary: k s)
  case 0
  then show ?case by (cases s) (simp add: tagged_def)
next
  case (Suc n)
  let ?p = "mPuppetInfoArr tab ! k"
  obtain s1 es where c: "check_puppet fr k ?p s = (s1, es)" by fastforce
  then have s1: "s1 = tagged (tags fr k ?p) s" using check_puppet_tagged [of fr k ?p s] by simp
  obtain es' where rest: "check_puppets fr n (k + 1) tab s1 =
      Inr (tagged (\<exists>j < n. tags fr (k + 1 + j) (mPuppetInfoArr tab ! (k + 1 + j))) s1, es')"
    using Suc.IH [of "k + 1" s1] Suc.prems by auto
  have "(tags fr k ?p \<or> (\<exists>j < n. tags fr (k + 1 + j) (mPuppetInfoArr tab ! (k + 1 + j)))) =
      (\<exists>j < Suc n. tags fr (k + j) (mPuppetInfoArr tab ! (k + j)))"
    by (auto simp: less_Suc_eq_0_disj intro: exI [of _ "Suc _"])
  moreover have "getPuppetInfo (of_nat k) tab = Inr ?p"
    using Suc.prems assms(2) by (intro getPuppetInfo_nat) auto
  ultimately show ?case using c rest by (simp add: s1 tagged_tagged)
qed

definition tagged_now :: "nat \<Rightarrow> hns_frame \<Rightarrow> puppet_table \<Rightarrow> hns_mode \<Rightarrow> bool" where
  "tagged_now puppets fr tab m \<longleftrightarrow> f32_le (Fin 5) (hm_mInvulnTime m) \<and>
     (\<exists>k < puppets. tags fr k (mPuppetInfoArr tab ! k))"

text \<open>What the hiding part does: the tag, the protection time and the clock.\<close>

definition clock_tick :: "hns_frame \<Rightarrow> hns_mode \<Rightarrow> hns_mode" where
  "clock_tick fr m =
     m\<lparr>mModeTimer := updateTimer (fr_timerPad fr) (fr_deltaTime fr) (mModeTimer m)\<rparr>"

definition protect :: "hns_frame \<Rightarrow> hns_mode \<Rightarrow> hns_mode" where
  "protect fr m =
     (if f32_le (Fin 5) (hm_mInvulnTime m) then m
      else m\<lparr>hm_mInvulnTime := f32_add (hm_mInvulnTime m) (fr_deltaTime fr)\<rparr>)"

lemma hiding_eq:
  assumes "puppets \<le> length (mPuppetInfoArr tab)" and "length (mPuppetInfoArr tab) < 2 ^ 31"
  shows "\<exists>es. hiding puppets fr tab (i, m) =
    Inr (if mIsPlayerIt i then (i, m)
         else map_prod id (clock_tick fr) (tagged (tagged_now puppets fr tab m) (i, protect fr m)), es)"
proof -
  obtain es where "check_puppets fr puppets 0 tab (i, m) =
      Inr (tagged (\<exists>j < puppets. tags fr j (mPuppetInfoArr tab ! j)) (i, m), es)"
    using check_puppets_eq [of 0 puppets tab fr "(i, m)"] assms by auto
  then show ?thesis
    by (auto simp: hiding_def tagged_now_def protect_def clock_tick_def tagged_def rbind_def)
qed

lemma updateTimer_enabled: "mIsCountUp t \<Longrightarrow> mIsEnabled (updateTimer p d t) = mIsEnabled t"
  by (auto simp: updateTimer_def Let_def)

lemma updateTimer_countUp: "mIsCountUp (updateTimer p d t) = mIsCountUp t"
  by (auto simp: updateTimer_def Let_def split: prod.splits)

lemma updateTimer_idle:
  "\<not> mIsEnabled t \<Longrightarrow> timerControl p (mTime t) = mTime t \<Longrightarrow> mTime (updateTimer p d t) = mTime t"
  by (simp add: updateTimer_def)

lemma gravity_fields [simp]:
  "mIsPlayerIt (fst (gravity fr i m)) = mIsPlayerIt i"
  "mHidingTime (fst (gravity fr i m)) = mHidingTime i"
  by (simp_all add: gravity_def Let_def)

lemma first_frame_fields [simp]:
  "hm_mInvulnTime (fst (first_frame i m)) = hm_mInvulnTime m"
  "mModeTimer (fst (first_frame i m)) = mModeTimer m"
  by (simp_all add: first_frame_def)

lemma tagged_now_first_frame [simp]:
  "tagged_now puppets fr tab (fst (first_frame i m)) = tagged_now puppets fr tab m"
  by (simp add: tagged_now_def)

text \<open>One frame in terms of its parts.\<close>

lemma hns_update_eq:
  assumes "fr_player fr \<noteq> NoPlayer"
    and "puppets \<le> length (mPuppetInfoArr tab)" and "length (mPuppetInfoArr tab) < 2 ^ 31"
  obtains i1 m1 es where
    "(i1, m1) = (if mIsPlayerIt i then (i, fst (first_frame i m))
       else map_prod id (clock_tick fr)
              (tagged (tagged_now puppets fr tab m) (i, protect fr (fst (first_frame i m)))))"
    and "hns_update puppets fr tab (i, m) =
      Inr (case toggle_it fr (fst (gravity fr i1 m1)) m1 of
             ((i, m), _) \<Rightarrow> (i\<lparr>mHidingTime := mTime (mModeTimer m)\<rparr>, m), es)"
proof -
  obtain m0 e1 where f: "first_frame i m = (m0, e1)" by fastforce
  obtain e2 where h: "hiding puppets fr tab (i, m0) =
      Inr (if mIsPlayerIt i then (i, m0)
         else map_prod id (clock_tick fr) (tagged (tagged_now puppets fr tab m0) (i, protect fr m0)), e2)"
    using hiding_eq [OF assms(2,3)] by blast
  have t: "tagged_now puppets fr tab m0 = tagged_now puppets fr tab m"
    using tagged_now_first_frame [of puppets fr tab i m] f by simp
  obtain i1 m1 where im: "(i1, m1) = (if mIsPlayerIt i then (i, m0)
       else map_prod id (clock_tick fr) (tagged (tagged_now puppets fr tab m) (i, protect fr m0)))"
    by (metis surj_pair)
  with h t have h': "hiding puppets fr tab (i, m0) = Inr ((i1, m1), e2)" by simp
  obtain i2 e3 where g: "gravity fr i1 m1 = (i2, e3)" by fastforce
  obtain i3 m3 e4 where tg: "toggle_it fr i2 m1 = ((i3, m3), e4)" by (metis prod_cases3 surj_pair)
  have "hns_update puppets fr tab (i, m) =
      Inr ((i3\<lparr>mHidingTime := mTime (mModeTimer m3)\<rparr>, m3), e1 @ e2 @ e3 @ e4)"
    using assms(1) by (simp add: hns_update_def f h' g tg)
  then show ?thesis
    using that [of i1 m1 "e1 @ e2 @ e3 @ e4"] im f g tg by simp
qed

section \<open>Properties\<close>

text \<open>The inputs of a frame are sound: there is a player, and the holder is not larger than the table.\<close>

definition frame_ok :: "nat \<Rightarrow> hns_frame \<Rightarrow> puppet_table \<Rightarrow> bool" where
  "frame_ok puppets fr tab \<longleftrightarrow> fr_player fr \<noteq> NoPlayer \<and>
     puppets \<le> length (mPuppetInfoArr tab) \<and> length (mPuppetInfoArr tab) < 2 ^ 31"

text \<open>C26: After a frame the player is it exactly if, before the pad is read, it was it already or was
  tagged, and the pad did not turn the role over (the up button without ZL does). A tag needs five
  seconds of protection to be over, a player that is not Yukimaru, and a registered connected player
  of the same stage that is it and for which exactly one of two things holds: it touches the player (nearer
  than 200, in the same dimension), or the player is dead. A player that dies while it is touched is
  not tagged by that seeker.\<close>

theorem hns_tag_rule:
  assumes "frame_ok puppets fr tab"
  shows "\<exists>i' m' es. hns_update puppets fr tab (i, m) = Inr ((i', m'), es) \<and>
    (mIsPlayerIt i' \<longleftrightarrow>
       (mIsPlayerIt i \<or>
        f32_le (Fin 5) (hm_mInvulnTime m) \<and> fr_player fr \<noteq> Yukimaru \<and>
        (\<exists>k < puppets. case mPuppetInfoArr tab ! k of p \<Rightarrow>
           isConnected p \<and> isInSameStage p \<and> isIt p \<and>
           ((f32_lt (fr_dist fr k) (Fin 200) \<and> fr_is2DModel fr = is2D p) \<noteq> fr_isDead fr k)))
       \<noteq> (fr_trigUp fr \<and> \<not> fr_holdZL fr))"
proof -
  obtain i1 m1 es where im: "(i1, m1) = (if mIsPlayerIt i then (i, fst (first_frame i m))
       else map_prod id (clock_tick fr)
              (tagged (tagged_now puppets fr tab m) (i, protect fr (fst (first_frame i m)))))"
    and u: "hns_update puppets fr tab (i, m) =
      Inr (case toggle_it fr (fst (gravity fr i1 m1)) m1 of
             ((i, m), _) \<Rightarrow> (i\<lparr>mHidingTime := mTime (mModeTimer m)\<rparr>, m), es)"
    using hns_update_eq [of fr puppets tab i m] assms unfolding frame_ok_def by blast
  have it: "mIsPlayerIt i1 \<longleftrightarrow> mIsPlayerIt i \<or> tagged_now puppets fr tab m"
    using im by (auto simp: tagged_def split: if_splits)
  obtain i3 m3 e4 where t: "toggle_it fr (fst (gravity fr i1 m1)) m1 = ((i3, m3), e4)"
    by (metis surj_pair)
  then have "mIsPlayerIt i3 \<longleftrightarrow> mIsPlayerIt i1 \<noteq> (fr_trigUp fr \<and> \<not> fr_holdZL fr)"
    by (auto simp: toggle_it_def Let_def split: if_splits)
  moreover have "tagged_now puppets fr tab m \<longleftrightarrow>
      f32_le (Fin 5) (hm_mInvulnTime m) \<and> fr_player fr \<noteq> Yukimaru \<and>
        (\<exists>k < puppets. case mPuppetInfoArr tab ! k of p \<Rightarrow>
           isConnected p \<and> isInSameStage p \<and> isIt p \<and>
           ((f32_lt (fr_dist fr k) (Fin 200) \<and> fr_is2DModel fr = is2D p) \<noteq> fr_isDead fr k))"
    unfolding tagged_now_def tags_def by auto
  ultimately show ?thesis unfolding u t it by simp
qed

text \<open>The clock counts up and runs exactly while the player hides.\<close>

definition clock_synced :: "HideAndSeekInfo \<times> hns_mode \<Rightarrow> bool" where
  "clock_synced s \<longleftrightarrow> (case s of (i, m) \<Rightarrow>
     mIsCountUp (mModeTimer m) \<and> mIsEnabled (mModeTimer m) = (\<not> mIsPlayerIt i))"

definition clock_inverted :: "HideAndSeekInfo \<times> hns_mode \<Rightarrow> bool" where
  "clock_inverted s \<longleftrightarrow> (case s of (i, m) \<Rightarrow>
     mIsCountUp (mModeTimer m) \<and> mIsEnabled (mModeTimer m) = mIsPlayerIt i)"

lemma toggle_it_clock:
  assumes "toggle_it fr i m = ((i', m'), es)"
  shows "mIsCountUp (mModeTimer m') = mIsCountUp (mModeTimer m)"
    and "(mIsEnabled (mModeTimer m') = mIsPlayerIt i') = (mIsEnabled (mModeTimer m) = mIsPlayerIt i)"
    and "mTime (mModeTimer m') = mTime (mModeTimer m)"
  using assms by (auto simp: toggle_it_def Let_def toggleTimer_def split: if_splits)

lemma protect_timer [simp]: "mModeTimer (protect fr m) = mModeTimer m"
  by (simp add: protect_def)

lemma frame_clock:
  assumes "frame_ok puppets fr tab" and "mIsCountUp (mModeTimer m)"
  shows "\<exists>i' m' es. hns_update puppets fr tab (i, m) = Inr ((i', m'), es) \<and>
    mIsCountUp (mModeTimer m') \<and> mHidingTime i' = mTime (mModeTimer m') \<and>
    ((mIsEnabled (mModeTimer m') = mIsPlayerIt i') \<longleftrightarrow>
       (mIsEnabled (mModeTimer m) = mIsPlayerIt i) \<and>
       (mIsPlayerIt i \<or> \<not> tagged_now puppets fr tab m)) \<and>
    (mIsPlayerIt i \<or> \<not> tagged_now puppets fr tab m \<and> \<not> mIsEnabled (mModeTimer m) \<and>
       timerControl (fr_timerPad fr) (mTime (mModeTimer m)) = mTime (mModeTimer m) \<longrightarrow>
     mTime (mModeTimer m') = mTime (mModeTimer m))"
proof -
  obtain i1 m1 es where im: "(i1, m1) = (if mIsPlayerIt i then (i, fst (first_frame i m))
       else map_prod id (clock_tick fr)
              (tagged (tagged_now puppets fr tab m) (i, protect fr (fst (first_frame i m)))))"
    and u: "hns_update puppets fr tab (i, m) =
      Inr (case toggle_it fr (fst (gravity fr i1 m1)) m1 of
             ((i, m), _) \<Rightarrow> (i\<lparr>mHidingTime := mTime (mModeTimer m)\<rparr>, m), es)"
    using hns_update_eq [of fr puppets tab i m] assms(1) unfolding frame_ok_def by blast
  obtain i3 m3 e4 where tg: "toggle_it fr (fst (gravity fr i1 m1)) m1 = ((i3, m3), e4)"
    by (metis surj_pair)
  have m1: "mIsCountUp (mModeTimer m1)"
    "(mIsEnabled (mModeTimer m1) = mIsPlayerIt i1) \<longleftrightarrow>
       (mIsEnabled (mModeTimer m) = mIsPlayerIt i) \<and> (mIsPlayerIt i \<or> \<not> tagged_now puppets fr tab m)"
    "mIsPlayerIt i \<or> \<not> tagged_now puppets fr tab m \<and> \<not> mIsEnabled (mModeTimer m) \<and>
       timerControl (fr_timerPad fr) (mTime (mModeTimer m)) = mTime (mModeTimer m) \<longrightarrow>
     mTime (mModeTimer m1) = mTime (mModeTimer m)"
    using im assms(2)
    by (auto simp: tagged_def clock_tick_def updateTimer_enabled updateTimer_countUp disableTimer_def
        updateTimer_idle split: if_splits)
  show ?thesis
    using u tg toggle_it_clock [OF tg] m1 by simp
qed

text \<open>C27: Over any run of frames the clock keeps counting exactly while the player hides.\<close>

theorem hns_clock_synced:
  assumes "clock_synced s" and "\<forall>(fr, tab) \<in> set frames. frame_ok puppets fr tab"
  shows "\<exists>i' m'. hns_run puppets frames s = Inr (i', m') \<and> clock_synced (i', m')"
  using assms
proof (induction frames arbitrary: s)
  case Nil
  then show ?case by (cases s) simp
next
  case (Cons f frames)
  obtain fr tab where f: "f = (fr, tab)" by fastforce
  obtain i m where s: "s = (i, m)" by fastforce
  from Cons.prems f s have "frame_ok puppets fr tab" "mIsCountUp (mModeTimer m)"
    and sync: "mIsEnabled (mModeTimer m) = (\<not> mIsPlayerIt i)"
    by (simp_all add: clock_synced_def)
  from frame_clock [OF this(1,2), of i] sync obtain i1 m1 es where
    u: "hns_update puppets fr tab (i, m) = Inr ((i1, m1), es)" and "clock_synced (i1, m1)"
    by (auto simp: clock_synced_def)
  with Cons.IH [of "(i1, m1)"] Cons.prems(2) f s show ?case by simp
qed

text \<open>A tag message that changes the player's role does not touch the clock. From then on, as long
  as nobody tags the player, the clock runs only while the player is it, when it is not advanced:
  the hiding time stands still whatever roles the player takes with the pad.\<close>

theorem tag_message_stops_clock:
  assumes "clock_synced (i, m)"
    and "\<forall>(fr, tab) \<in> set frames. frame_ok puppets fr tab \<and> (\<forall>k < puppets. \<not> tags fr k (mPuppetInfoArr tab ! k)) \<and>
           timerControl (fr_timerPad fr) (mTime (mModeTimer m)) = mTime (mModeTimer m)"
  shows "\<exists>i' m'. hns_run puppets frames (setPlayerTagState (\<not> mIsPlayerIt i) i, m) = Inr (i', m') \<and>
    clock_inverted (i', m') \<and> mTime (mModeTimer m') = mTime (mModeTimer m)"
proof -
  have "\<exists>i' m'. hns_run puppets frames (j, n) = Inr (i', m') \<and> clock_inverted (i', m') \<and>
      mTime (mModeTimer m') = mTime (mModeTimer m)"
    if "clock_inverted (j, n)" and "mTime (mModeTimer n) = mTime (mModeTimer m)" for j n
    using that assms(2)
  proof (induction frames arbitrary: j n)
    case Nil
    then show ?case by simp
  next
    case (Cons f frames)
    obtain fr tab where f: "f = (fr, tab)" by fastforce
    from Cons.prems f have ok: "frame_ok puppets fr tab" "mIsCountUp (mModeTimer n)"
      and inv: "mIsEnabled (mModeTimer n) = mIsPlayerIt j"
      and "\<not> tagged_now puppets fr tab n"
      and "timerControl (fr_timerPad fr) (mTime (mModeTimer n)) = mTime (mModeTimer n)"
      by (auto simp: clock_inverted_def tagged_now_def)
    with frame_clock [OF ok, of j] obtain i1 m1 es where
      u: "hns_update puppets fr tab (j, n) = Inr ((i1, m1), es)" and "clock_inverted (i1, m1)"
      and "mTime (mModeTimer m1) = mTime (mModeTimer n)"
      by (auto simp: clock_inverted_def)
    with Cons.IH [of i1 m1] Cons.prems f show ?case by simp
  qed
  then show ?thesis
    using assms(1) by (simp add: clock_synced_def clock_inverted_def setPlayerTagState_def)
qed

section \<open>Witnesses\<close>

definition pad0 :: pad where
  "pad0 = \<lparr>isPadHoldL = False, isPadTriggerDown = False, isPadHoldRight = False, isPadTriggerLeft = False\<rparr>"

definition frame0 :: hns_frame where
  "frame0 =
     \<lparr>fr_player = Hakoniwa, fr_dist = (\<lambda>_. Fin 100), fr_is2DModel = False, fr_isDead = (\<lambda>_. False),
      fr_deltaTime = Fin (1 / 2), fr_onGround = True, fr_cameraActive = False, fr_holdL = False,
      fr_holdZL = False, fr_trigRight = False, fr_trigZL = False, fr_trigLeft = False, fr_trigUp = False,
      fr_timerPad = pad0, fr_isHideAndSeek = True\<rparr>"

definition seeker_table :: puppet_table where
  "seeker_table =
     \<lparr>mPuppetInfoArr = [PuppetInfo_new\<lparr>isConnected := True, isInSameStage := True, isIt := True\<rparr>],
      mConnectCount = 1, maxPuppets = 1\<rparr>"

lemma timerControl_pad0: "timerControl pad0 g = g"
  by (simp add: timerControl_def pad0_def)

lemma frame0_ok: "frame_ok 1 frame0 seeker_table"
  by (simp add: frame_ok_def frame0_def seeker_table_def)

theorem hns_tag_rule_witness:
  "\<exists>i' m' es. hns_update 1 frame0 seeker_table
      (HideAndSeekInfo_new, hns_new\<lparr>hm_mInvulnTime := Fin 5\<rparr>) = Inr ((i', m'), es) \<and> mIsPlayerIt i'"
    using hns_tag_rule [OF frame0_ok, of HideAndSeekInfo_new "hns_new\<lparr>hm_mInvulnTime := Fin 5\<rparr>"]
    by (simp add: frame0_def seeker_table_def PuppetInfo_new_def)

theorem hns_clock_synced_witness:
  "\<exists>i' m'. hns_run 1 [(frame0, seeker_table), (frame0, seeker_table)]
     (HideAndSeekInfo_new, fst (hns_begin \<lparr>coinCounter_alive = True, coinCollect_alive = True,
        compass_alive = True, playGuide_alive = True\<rparr> HideAndSeekInfo_new hns_new)) = Inr (i', m') \<and>
     clock_synced (i', m')"
  by (rule hns_clock_synced)
    (simp_all add: frame0_ok [unfolded One_nat_def] clock_synced_def hns_begin_def hns_new_def HideAndSeekInfo_new_def
      enableTimer_def GameModeTimer_default_def GameModeTimer_init_def resetTime_def setTime_def Let_def)

theorem tag_message_stops_clock_witness:
  "\<exists>i' m'. hns_run 0 [(frame0, seeker_table), (frame0\<lparr>fr_trigUp := True\<rparr>, seeker_table)]
     (setPlayerTagState (\<not> mIsPlayerIt HideAndSeekInfo_new) HideAndSeekInfo_new,
      hns_new\<lparr>mModeTimer := enableTimer GameModeTimer_default\<rparr>) = Inr (i', m') \<and>
     clock_inverted (i', m') \<and>
     mTime (mModeTimer m') = mTime (mModeTimer (hns_new\<lparr>mModeTimer := enableTimer GameModeTimer_default\<rparr>))"
  by (rule tag_message_stops_clock)
    (simp_all add: frame_ok_def frame0_def seeker_table_def timerControl_pad0 clock_synced_def
      HideAndSeekInfo_new_def enableTimer_def GameModeTimer_default_def GameModeTimer_init_def
      resetTime_def setTime_def Let_def)

end
