(* ===== verification/Capture_Flag.thy ===== *)
theory Capture_Flag
  imports Game_Mode Flag_Actor Stage_Manager Puppet_Table
begin

text \<open>
  Capture the flag (\<open>server/capturetheflag/CaptureTheFlagMode.cpp\<close>): one frame of the mode with the
  border, the flags, tagging, picking up, dropping and carrying flags, and the win message. The
  frame's inputs are what the engine answers; the result names the messages sent and the deaths
  ordered. \<open>Client::getPlayerTransformInSameStage\<close> is here because only the flags use it.
\<close>

section \<open>State and inputs\<close>

record ctf_mode =
  cm_mMode :: GameMode
  cm_mIsActive :: bool
  cm_mIsFirstFrame :: bool
  cm_mInvulnTime :: f32
  cm_mModeLayout :: mode_icon
  cm_mTicket :: bool
  m_teleportTimer :: f32

definition ctf_new :: ctf_mode where
  "ctf_new =
     \<lparr>cm_mMode = NONE, cm_mIsActive = False, cm_mIsFirstFrame = True, cm_mInvulnTime = Fin 0,
      cm_mModeLayout = icon_new False, cm_mTicket = False, m_teleportTimer = Fin 0\<rparr>"

record ctf_frame =
  cf_player :: player_kind
  cf_trans :: Vector3f
  cf_quat :: Quatf
  cf_calcQuat :: Quatf
  cf_stage :: StageData
  cf_dist :: "nat \<Rightarrow> f32"
  cf_flagDist :: "nat \<Rightarrow> f32"
  cf_is2DModel :: bool
  cf_isDead :: "nat \<Rightarrow> bool"
  cf_deltaTime :: f32
  cf_dropPressed :: bool
  cf_hasSceneInfo :: bool
  cf_modeActive :: bool
  cf_userID :: uid
  cf_borderRot :: Quatf

record ctf_world =
  cw_info :: CaptureTheFlagInfo
  cw_mode :: ctf_mode
  cw_flags :: flag_world
  cw_border :: "border_actor option"

datatype ctf_effect = CtfStartCamera | CtfDeath | SendCtf CTFPacket

section \<open>Scenes\<close>

definition ctf_init :: "GameMode \<Rightarrow> mode_info option \<Rightarrow> ctf_mode \<Rightarrow> (CaptureTheFlagInfo \<times> ctf_mode) res" where
  "ctf_init infoMode curGameInfo m =
     rbind (case curGameInfo of
              None \<Rightarrow> Inr CaptureTheFlagInfo_new
            | Some g \<Rightarrow>
                if info_mMode g = infoMode
                then (case g of Ctf_info i \<Rightarrow> Inr i | Hns_info _ \<Rightarrow> Inl WrongClass)
                else Inr CaptureTheFlagInfo_new)
       (\<lambda>i. Inr (i, m\<lparr>cm_mMode := infoMode, cm_mModeLayout := showTeam INVALID (icon_new False)\<rparr>))"

definition ctf_begin :: "scene_counters \<Rightarrow> CaptureTheFlagInfo \<Rightarrow> ctf_mode \<Rightarrow> ctf_mode \<times> counter_call list" where
  "ctf_begin scene i m =
     (m\<lparr>cm_mModeLayout := showTeam (mPlayerTeam i) (icon_appear (cm_mModeLayout m)),
        cm_mIsFirstFrame := True, cm_mInvulnTime := Fin 0, cm_mIsActive := True\<rparr>,
      hide_counters scene)"

definition ctf_end :: "scene_counters \<Rightarrow> ctf_mode \<Rightarrow> ctf_mode \<times> counter_call list" where
  "ctf_end scene m =
     (m\<lparr>cm_mModeLayout := snd (icon_tryEnd (cm_mModeLayout m)), cm_mInvulnTime := Fin 0,
        cm_mIsActive := False\<rparr>,
      show_counters scene)"

definition resetGameInfo :: "CaptureTheFlagInfo \<Rightarrow> CaptureTheFlagInfo" where
  "resetGameInfo i = CaptureTheFlagInfo_new"

section \<open>The player\<close>

text \<open>\<open>getLocalPlayer\<close> answers whether there is a normal player.\<close>

definition getLocalPlayer :: "ctf_frame \<Rightarrow> ctf_mode \<Rightarrow> bool" where
  "getLocalPlayer fr m \<longleftrightarrow> \<not> cm_mIsFirstFrame m \<and> cf_player fr = Hakoniwa"

definition getTeamSide :: "ctf_frame \<Rightarrow> ctf_mode \<Rightarrow> FlagTeam" where
  "getTeamSide fr m =
     (if getLocalPlayer fr m then side_in_stage (cf_trans fr) (cf_stage fr) else INVALID)"

definition isPlayerOnSelfTeamSide :: "ctf_frame \<Rightarrow> ctf_world \<Rightarrow> bool" where
  "isPlayerOnSelfTeamSide fr w \<longleftrightarrow> getTeamSide fr (cw_mode w) = mPlayerTeam (cw_info w)"

definition getOpposingTeam :: "FlagTeam \<Rightarrow> FlagTeam option" where
  "getOpposingTeam t = (if t = RED then Some BLUE else if t = BLUE then Some RED else None)"

definition isInvulnerable :: "ctf_mode \<Rightarrow> bool" where
  "isInvulnerable m \<longleftrightarrow> f32_le (Fin 5) (cm_mInvulnTime m)"

definition getPlayerTransformInSameStage ::
  "ctf_frame \<Rightarrow> ctf_mode \<Rightarrow> puppet_table \<Rightarrow> uid \<Rightarrow> (Vector3f \<times> Quatf) option res" where
  "getPlayerTransformInSameStage fr m tab userID =
     (if userID = cf_userID fr
      then Inr (if \<not> cf_hasSceneInfo fr then None
                else if \<not> cf_modeActive fr then None
                else if cm_mIsFirstFrame m then None
                else if cf_player fr = NoPlayer then None
                else Some (cf_trans fr, cf_calcQuat fr))
      else rbind (findPuppetInfo userID False tab) (\<lambda>r.
             case r of
               None \<Rightarrow> Inr None
             | Some k \<Rightarrow>
                 let curInfo = mPuppetInfoArr tab ! k
                 in Inr (if \<not> isInSameStage curInfo then None
                         else Some (playerPos curInfo, playerRot curInfo))))"

section \<open>Border and flags\<close>

text \<open>The rotation given to the border is never set: \<open>cf_borderRot\<close> is what the variable holds.\<close>

definition updateBorderPosition :: "ctf_frame \<Rightarrow> ctf_world \<Rightarrow> ctf_world res" where
  "updateBorderPosition fr w =
     (case cw_border w of
        None \<Rightarrow> Inl NullDeref
      | Some b \<Rightarrow>
          (case getBorderTransform (cf_stage fr) of
             None \<Rightarrow> Inr (w\<lparr>cw_border := Some (if \<not> ba_dead b then border_makeActorDead b else b)\<rparr>)
           | Some t \<Rightarrow>
               let b = (if ba_dead b then border_makeActorAlive b else b)
               in Inr (w\<lparr>cw_border := Some (border_setTransform (bt_position t) (cf_borderRot fr) b)\<rparr>)))"

definition updateFlag :: "ctf_frame \<Rightarrow> puppet_table \<Rightarrow> FlagTeam \<Rightarrow> ctf_world \<Rightarrow> ctf_world res" where
  "updateFlag fr tab flagTeam w =
     rbind (getFlagActorForTeam flagTeam (cw_flags w)) (\<lambda>r.
       case r of
         None \<Rightarrow> Inr w
       | Some f \<Rightarrow>
           (case getHeldPlayer f (cw_flags w) of
              None \<Rightarrow> Inr w
            | Some heldPlayer \<Rightarrow>
                rbind (getPlayerTransformInSameStage fr (cw_mode w) tab heldPlayer) (\<lambda>t.
                  case t of
                    None \<Rightarrow> Inr w
                  | Some (pos, rot) \<Rightarrow>
                      Inr (w\<lparr>cw_flags := setTransform pos rot (team_index flagTeam)
                                (flag_makeActorAlive f) (cw_flags w)\<rparr>))))"

definition updateFlags :: "ctf_frame \<Rightarrow> puppet_table \<Rightarrow> ctf_world \<Rightarrow> ctf_world res" where
  "updateFlags fr tab w =
     (if \<not> getLocalPlayer fr (cw_mode w) then Inr w
      else rbind (updateFlag fr tab RED w) (updateFlag fr tab BLUE))"

section \<open>Tagging\<close>

definition queueHomeTeleport :: "ctf_frame \<Rightarrow> ctf_world \<Rightarrow> ctf_effect list" where
  "queueHomeTeleport fr w = (if getLocalPlayer fr (cw_mode w) then [CtfDeath] else [])"

definition hold_message :: "bool \<Rightarrow> FlagTeam \<Rightarrow> CTFPacket" where
  "hold_message held flagTeam = Flag_hold_state \<lparr>is_held = Some held, fh_flag_team = flagTeam\<rparr>"

definition dropHeldFlag :: "ctf_world \<Rightarrow> ctf_world \<times> ctf_effect list" where
  "dropHeldFlag w =
     (if mHeldFlag (cw_info w) = INVALID then (w, [])
      else (w\<lparr>cw_info := (cw_info w)\<lparr>mHeldFlag := INVALID\<rparr>\<rparr>,
            [SendCtf (hold_message False (mHeldFlag (cw_info w)))]))"

definition respawnHeldFlag :: "ctf_world \<Rightarrow> ctf_world \<times> ctf_effect list" where
  "respawnHeldFlag w = (if mHeldFlag (cw_info w) = INVALID then (w, []) else dropHeldFlag w)"

text \<open>The second branch has the condition of the first one, as the source has it.\<close>

definition processPlayerTagged :: "ctf_frame \<Rightarrow> ctf_world \<Rightarrow> ctf_world \<times> ctf_effect list" where
  "processPlayerTagged fr w =
     (if Some (mHeldFlag (cw_info w)) = getOpposingTeam (mPlayerTeam (cw_info w)) then (w, [])
      else case (if Some (mHeldFlag (cw_info w)) = getOpposingTeam (mPlayerTeam (cw_info w))
                 then respawnHeldFlag w else (w, [])) of
             (w, es) \<Rightarrow> (w, es @ queueHomeTeleport fr w))"

text \<open>Whether a player of the table tags the local player.\<close>

definition ctf_touches :: "ctf_frame \<Rightarrow> CaptureTheFlagInfo \<Rightarrow> nat \<Rightarrow> PuppetInfo \<Rightarrow> bool" where
  "ctf_touches fr i k p \<longleftrightarrow>
     isConnected p \<and> isInSameStage p \<and> ctfTeam p \<noteq> mPlayerTeam i \<and> ctfTeam p \<noteq> INVALID \<and>
     f32_lt (cf_dist fr k) (Fin 200) \<and> cf_is2DModel fr = is2D p \<and> \<not> cf_isDead fr k"

fun tag_loop ::
  "ctf_frame \<Rightarrow> nat \<Rightarrow> nat \<Rightarrow> puppet_table \<Rightarrow> ctf_world \<Rightarrow> (ctf_world \<times> ctf_effect list) res" where
  "tag_loop fr 0 k tab w = Inr (w, [])"
| "tag_loop fr (Suc n) k tab w =
     rbind (getPuppetInfo (of_nat k) tab) (\<lambda>curInfo.
       case (if ctf_touches fr (cw_info w) k curInfo then processPlayerTagged fr w else (w, [])) of
         (w, es) \<Rightarrow> rbind (tag_loop fr n (k + 1) tab w) (\<lambda>(w, es'). Inr (w, es @ es')))"

definition checkTagged ::
  "nat \<Rightarrow> ctf_frame \<Rightarrow> puppet_table \<Rightarrow> ctf_world \<Rightarrow> (ctf_world \<times> ctf_effect list) res" where
  "checkTagged puppets fr tab w =
     (if isInvulnerable (cw_mode w)
      then Inr (w\<lparr>cw_mode := (cw_mode w)
                  \<lparr>cm_mInvulnTime := f32_add (cm_mInvulnTime (cw_mode w)) (cf_deltaTime fr)\<rparr>\<rparr>, [])
      else if getTeamSide fr (cw_mode w) = mPlayerTeam (cw_info w) then Inr (w, [])
      else tag_loop fr puppets 0 tab w)"

section \<open>Picking up, dropping, carrying\<close>

fun pickup_loop :: "ctf_frame \<Rightarrow> FlagTeam list \<Rightarrow> ctf_world \<Rightarrow> ctf_world res" where
  "pickup_loop fr [] w = Inr w"
| "pickup_loop fr (flagTeam # ts) w =
     (if flagTeam = INVALID \<or> flagTeam = mPlayerTeam (cw_info w) then pickup_loop fr ts w
      else rbind (getFlagActorForTeam flagTeam (cw_flags w)) (\<lambda>r.
             case r of
               None \<Rightarrow> pickup_loop fr ts w
             | Some flag \<Rightarrow>
                 if isHeld flag (cw_flags w) then pickup_loop fr ts w
                 else if f32_lt (cf_flagDist fr (team_index flagTeam)) (Fin 200)
                 then Inr (w\<lparr>cw_info := (cw_info w)\<lparr>mHeldFlag := flagTeam\<rparr>\<rparr>)
                 else pickup_loop fr ts w))"

definition checkPickUpOrDropFlag :: "ctf_frame \<Rightarrow> ctf_world \<Rightarrow> (ctf_world \<times> ctf_effect list) res" where
  "checkPickUpOrDropFlag fr w =
     (if \<not> cf_dropPressed fr then Inr (w, [])
      else if mHeldFlag (cw_info w) \<noteq> INVALID
      then if mHeldFlag (cw_info w) = mPlayerTeam (cw_info w) \<and> \<not> isPlayerOnSelfTeamSide fr w
           then Inr (w, []) else Inr (dropHeldFlag w)
      else rbind (pickup_loop fr [INVALID, RED, BLUE] w) (\<lambda>w. Inr (w, [])))"

definition sendFlagHoldStateUpdateIfHeld :: "ctf_frame \<Rightarrow> ctf_world \<Rightarrow> (ctf_world \<times> ctf_effect list) res" where
  "sendFlagHoldStateUpdateIfHeld fr w =
     (if mHeldFlag (cw_info w) = INVALID then Inr (w, [])
      else rbind (getFlagActorForTeam (mHeldFlag (cw_info w)) (cw_flags w)) (\<lambda>r.
             Inr (case r of
                    None \<Rightarrow> w
                  | Some f \<Rightarrow> w\<lparr>cw_flags := setTransform (cf_trans fr) (cf_quat fr)
                                  (team_index (mHeldFlag (cw_info w))) (flag_makeActorAlive f) (cw_flags w)\<rparr>,
                  [SendCtf (hold_message True (mHeldFlag (cw_info w)))])))"

definition checkWin :: "ctf_frame \<Rightarrow> ctf_world \<Rightarrow> ctf_effect list" where
  "checkWin fr w =
     (let i = cw_info w; side = getTeamSide fr (cw_mode w); opposingTeam = getOpposingTeam (mPlayerTeam i)
      in if mWinningTeam i \<noteq> INVALID then []
         else if side = INVALID then []
         else if side = mPlayerTeam i \<and> opposingTeam \<noteq> None \<and> Some (mHeldFlag i) = opposingTeam
         then [SendCtf (Ctf_win \<lparr>winning_team = mPlayerTeam i\<rparr>)] else [])"

section \<open>One frame\<close>

definition ctf_first_frame :: "ctf_world \<Rightarrow> ctf_world \<times> ctf_effect list" where
  "ctf_first_frame w =
     (if cm_mIsFirstFrame (cw_mode w)
      then (w\<lparr>cw_mode := (cw_mode w)\<lparr>cm_mIsFirstFrame := False\<rparr>\<rparr>,
            if ctf_mIsUseGravityCam (cw_info w) \<and> cm_mTicket (cw_mode w) then [CtfStartCamera] else [])
      else (w, []))"

definition ctf_play ::
  "nat \<Rightarrow> ctf_frame \<Rightarrow> puppet_table \<Rightarrow> ctf_world \<Rightarrow> (ctf_world \<times> ctf_effect list) res" where
  "ctf_play puppets fr tab w =
     rbind (updateBorderPosition fr w) (\<lambda>w.
     rbind (updateFlags fr tab w) (\<lambda>w.
     rbind (checkTagged puppets fr tab w) (\<lambda>(w, e1).
     rbind (checkPickUpOrDropFlag fr w) (\<lambda>(w, e2).
     rbind (sendFlagHoldStateUpdateIfHeld fr w) (\<lambda>(w, e3).
       Inr (w, e1 @ e2 @ e3 @ checkWin fr w))))))"

definition ctf_update ::
  "nat \<Rightarrow> ctf_frame \<Rightarrow> puppet_table \<Rightarrow> ctf_world \<Rightarrow> (ctf_world \<times> ctf_effect list) res" where
  "ctf_update puppets fr tab w =
     (let w = w\<lparr>cw_mode := (cw_mode w)
                 \<lparr>cm_mModeLayout := showTeam (mPlayerTeam (cw_info w)) (cm_mModeLayout (cw_mode w))\<rparr>\<rparr>
      in if f32_lt (Fin 0) (m_teleportTimer (cw_mode w))
         then Inr (w\<lparr>cw_mode := (cw_mode w)
                      \<lparr>m_teleportTimer := f32_sub (m_teleportTimer (cw_mode w)) (cf_deltaTime fr)\<rparr>\<rparr>, [])
         else case ctf_first_frame w of (w, e0) \<Rightarrow>
           if \<not> getLocalPlayer fr (cw_mode w) then Inr (w, e0)
           else rbind (ctf_play puppets fr tab w) (\<lambda>(w, es). Inr (w, e0 @ es)))"

text \<open>\<open>CaptureTheFlagConfigMenu::updateMenu\<close>.\<close>

definition ctf_updateMenu :: "bool \<Rightarrow> s32 \<Rightarrow> CaptureTheFlagInfo option \<Rightarrow> bool \<times> CaptureTheFlagInfo option" where
  "ctf_updateMenu isModeAndActive selectIndex curMode =
     (case curMode of
        None \<Rightarrow> (True, None)
      | Some i \<Rightarrow>
          if selectIndex = 0
          then (True, Some (if isModeAndActive then i\<lparr>ctf_mIsUseGravity := True\<rparr> else i))
          else if selectIndex = 1
          then (True, Some (if isModeAndActive then i\<lparr>ctf_mIsUseGravity := False\<rparr> else i))
          else (False, Some i))"

text \<open>A run of frames.\<close>

fun ctf_run ::
  "nat \<Rightarrow> (ctf_frame \<times> puppet_table) list \<Rightarrow> ctf_world \<Rightarrow> (ctf_world \<times> ctf_effect list) res" where
  "ctf_run puppets [] w = Inr (w, [])"
| "ctf_run puppets ((fr, tab) # rest) w =
     rbind (ctf_update puppets fr tab w) (\<lambda>(w, es).
     rbind (ctf_run puppets rest w) (\<lambda>(w, es'). Inr (w, es @ es')))"

section \<open>Sound worlds and frames\<close>

definition valid_team :: "FlagTeam \<Rightarrow> bool" where
  "valid_team t \<longleftrightarrow> t = INVALID \<or> t = RED \<or> t = BLUE"

definition ctf_ok :: "ctf_world \<Rightarrow> bool" where
  "ctf_ok w \<longleftrightarrow> flags_ok (cw_flags w) \<and> cw_border w \<noteq> None \<and> valid_team (mHeldFlag (cw_info w))"

definition ctf_table_ok :: "nat \<Rightarrow> puppet_table \<Rightarrow> bool" where
  "ctf_table_ok puppets tab \<longleftrightarrow> bound_ok tab \<and> puppets \<le> length (mPuppetInfoArr tab) \<and>
     length (mPuppetInfoArr tab) < 2 ^ 31"

text \<open>Which flags are held, what the frame's parts leave alone.\<close>

definition held_flags :: "flag_world \<Rightarrow> bool list" where
  "held_flags w = map fi_isHeld (flagInfos w)"

definition same_play :: "ctf_world \<Rightarrow> ctf_world \<Rightarrow> bool" where
  "same_play w v \<longleftrightarrow> cw_info v = cw_info w \<and> cw_mode v = cw_mode w \<and>
     map (map_option fa_info) (teamFlags (cw_flags v)) = map (map_option fa_info) (teamFlags (cw_flags w)) \<and>
     held_flags (cw_flags v) = held_flags (cw_flags w)"

lemma same_play_refl [simp]: "same_play w w"
  by (simp add: same_play_def)

lemma same_play_trans: "same_play u v \<Longrightarrow> same_play v w \<Longrightarrow> same_play u w"
  by (simp add: same_play_def)

lemma team_index_less: "valid_team t \<Longrightarrow> team_index t < 3"
  by (auto simp: valid_team_def)

lemma getFlagActor_ok:
  "flags_ok fw \<Longrightarrow> valid_team t \<Longrightarrow> getFlagActorForTeam t fw = Inr (teamFlags fw ! team_index t)"
  using flags_ok_lengths [of fw] team_index_less [of t] by (simp add: getFlagActorForTeam_def)

lemma setTransform_keeps:
  assumes "flags_ok fw" and "teamFlags fw ! i = Some f" and "i < 3" and "0 < i"
  shows "flags_ok (setTransform pos rot i (flag_makeActorAlive f) fw) \<and>
    map (map_option fa_info) (teamFlags (setTransform pos rot i (flag_makeActorAlive f) fw)) =
      map (map_option fa_info) (teamFlags fw) \<and>
    held_flags (setTransform pos rot i (flag_makeActorAlive f) fw) = held_flags fw"
proof -
  let ?f = "flag_makeActorAlive f"
  have fi: "fa_info ?f = Some i"
    using flags_ok_info [OF assms(1,3,2)] by (simp add: flag_makeActorAlive_def)
  have l: "length (teamFlags fw) = 3" "length (flagInfos fw) = 3" using flags_ok_lengths [OF assms(1)] by auto
  have ok: "flags_ok (flag_set i (?f\<lparr>fa_trans := pos\<rparr>) fw)"
    using assms fi by (intro flags_ok_flag_set) simp_all
  have h: "held_flags (setTransform pos rot i ?f fw) = held_flags fw"
    using fi l assms(3)
    by (simp add: setTransform_def info_update_def flag_set_def held_flags_def map_update)
      (metis length_map list_update_id nth_map)
  have t: "map (map_option fa_info) (teamFlags (setTransform pos rot i ?f fw)) =
      map (map_option fa_info) (teamFlags fw)"
    using fi l assms(2,3) flags_ok_info [OF assms(1,3,2)]
    by (simp add: setTransform_def flag_set_def map_update)
      (metis length_map list_update_id nth_map option.map(2))
  show ?thesis using ok h t by (simp add: setTransform_def)
qed

lemma teamFlags_INVALID: "flags_ok fw \<Longrightarrow> teamFlags fw ! 0 = None"
  by (simp add: flags_ok_def)

section \<open>The parts of a frame\<close>

lemma updateBorderPosition_ok:
  assumes "ctf_ok w"
  shows "\<exists>v. updateBorderPosition fr w = Inr v \<and> same_play w v \<and> ctf_ok v"
  using assms by (auto simp: updateBorderPosition_def same_play_def ctf_ok_def Let_def split: option.splits)

lemma getPlayerTransform_ok:
  "bound_ok tab \<Longrightarrow> \<exists>t. getPlayerTransformInSameStage fr m tab u = Inr t"
  using findPuppetInfo_ok [of tab u False]
  by (auto simp: getPlayerTransformInSameStage_def Let_def split: option.splits)

lemma updateFlag_ok:
  assumes "ctf_ok w" and "bound_ok tab" and "t = RED \<or> t = BLUE"
  shows "\<exists>v. updateFlag fr tab t w = Inr v \<and> same_play w v \<and> ctf_ok v"
proof -
  have fl: "flags_ok (cw_flags w)" and vt: "valid_team t" and i: "0 < team_index t" "team_index t < 3"
    using assms by (auto simp: ctf_ok_def valid_team_def)
  show ?thesis
  proof (cases "teamFlags (cw_flags w) ! team_index t")
    case None
    then show ?thesis using assms(1) by (simp add: updateFlag_def getFlagActor_ok [OF fl vt])
  next
    case (Some f)
    note keep = setTransform_keeps [OF fl Some i(2,1)]
    show ?thesis
    proof (cases "getHeldPlayer f (cw_flags w)")
      case None
      then show ?thesis using assms(1) Some by (simp add: updateFlag_def getFlagActor_ok [OF fl vt])
    next
      case (Some u)
      obtain tr where "getPlayerTransformInSameStage fr (cw_mode w) tab u = Inr tr"
        using getPlayerTransform_ok [OF assms(2)] by blast
      then show ?thesis
        using assms(1) keep Some \<open>teamFlags (cw_flags w) ! team_index t = Some f\<close>
        by (auto simp: updateFlag_def getFlagActor_ok [OF fl vt] ctf_ok_def same_play_def split: option.splits)
    qed
  qed
qed

lemma updateFlags_ok:
  assumes "ctf_ok w" and "bound_ok tab"
  shows "\<exists>v. updateFlags fr tab w = Inr v \<and> same_play w v \<and> ctf_ok v"
proof -
  obtain u where u: "updateFlag fr tab RED w = Inr u" "same_play w u" "ctf_ok u"
    using updateFlag_ok [OF assms, of RED fr] by blast
  obtain v where "updateFlag fr tab BLUE u = Inr v" "same_play u v" "ctf_ok v"
    using updateFlag_ok [OF u(3) assms(2), of BLUE fr] by blast
  then show ?thesis using assms(1) u by (auto simp: updateFlags_def intro: same_play_trans)
qed

lemma processPlayerTagged_eq:
  "processPlayerTagged fr w =
    (w, if Some (mHeldFlag (cw_info w)) = getOpposingTeam (mPlayerTeam (cw_info w)) then []
        else queueHomeTeleport fr w)"
  by (simp add: processPlayerTagged_def)

lemma tag_loop_eq:
  assumes "k + n \<le> length (mPuppetInfoArr tab)" and "length (mPuppetInfoArr tab) < 2 ^ 31"
  shows "tag_loop fr n k tab w =
    Inr (w, concat (map (\<lambda>j. if ctf_touches fr (cw_info w) j (mPuppetInfoArr tab ! j)
                             then snd (processPlayerTagged fr w) else []) [k..<k + n]))"
  using assms(1)
proof (induction n arbitrary: k)
  case 0
  then show ?case by simp
next
  case (Suc n)
  have "getPuppetInfo (of_nat k) tab = Inr (mPuppetInfoArr tab ! k)"
    using Suc.prems assms(2) by (intro getPuppetInfo_nat) auto
  moreover have "[k..<k + Suc n] = k # [k + 1..<(k + 1) + n]"
    by (simp add: upt_conv_Cons del: upt_Suc)
  ultimately show ?case
    using Suc.IH [of "k + 1"] Suc.prems by (simp add: processPlayerTagged_eq del: upt_Suc)
qed

text \<open>Whether the local player is tagged: it may be, it is not at home, and somebody touches it.\<close>

definition tagged_by :: "nat \<Rightarrow> ctf_frame \<Rightarrow> puppet_table \<Rightarrow> ctf_world \<Rightarrow> bool" where
  "tagged_by puppets fr tab w \<longleftrightarrow>
     \<not> isInvulnerable (cw_mode w) \<and>
     getTeamSide fr (cw_mode w) \<noteq> mPlayerTeam (cw_info w) \<and>
     (\<exists>k < puppets. ctf_touches fr (cw_info w) k (mPuppetInfoArr tab ! k))"

lemma checkTagged_ok:
  assumes "ctf_table_ok puppets tab" and "\<not> isInvulnerable (cw_mode w)" and "getLocalPlayer fr (cw_mode w)"
  shows "\<exists>es. checkTagged puppets fr tab w = Inr (w, es) \<and> set es \<subseteq> {CtfDeath} \<and>
    (CtfDeath \<in> set es \<longleftrightarrow> tagged_by puppets fr tab w \<and>
       Some (mHeldFlag (cw_info w)) \<noteq> getOpposingTeam (mPlayerTeam (cw_info w)))"
proof (cases "getTeamSide fr (cw_mode w) = mPlayerTeam (cw_info w)")
  case True
  then show ?thesis using assms(2) by (simp add: checkTagged_def tagged_by_def)
next
  case False
  have "tag_loop fr puppets 0 tab w =
    Inr (w, concat (map (\<lambda>j. if ctf_touches fr (cw_info w) j (mPuppetInfoArr tab ! j)
                             then snd (processPlayerTagged fr w) else []) [0..<puppets]))"
    using tag_loop_eq [of 0 puppets tab fr w] assms(1) by (simp add: ctf_table_ok_def)
  then show ?thesis
    using False assms(2,3)
    by (auto simp: checkTagged_def tagged_by_def processPlayerTagged_eq queueHomeTeleport_def split: if_splits)
qed

text \<open>A flag the player can pick up: of another team, with an actor that nobody holds, and near.\<close>

definition can_pick_up :: "ctf_frame \<Rightarrow> ctf_world \<Rightarrow> FlagTeam \<Rightarrow> bool" where
  "can_pick_up fr w t \<longleftrightarrow> t \<noteq> INVALID \<and> t \<noteq> mPlayerTeam (cw_info w) \<and>
     (\<exists>f. teamFlags (cw_flags w) ! team_index t = Some f \<and> \<not> isHeld f (cw_flags w)) \<and>
     f32_lt (cf_flagDist fr (team_index t)) (Fin 200)"

lemma pickup_loop_eq:
  assumes "flags_ok (cw_flags w)" and "\<forall>t \<in> set ts. valid_team t"
  shows "pickup_loop fr ts w =
    Inr (case find (can_pick_up fr w) ts of
           None \<Rightarrow> w
         | Some t \<Rightarrow> w\<lparr>cw_info := (cw_info w)\<lparr>mHeldFlag := t\<rparr>\<rparr>)"
  using assms(2)
proof (induction ts)
  case Nil
  then show ?case by simp
next
  case (Cons t ts)
  then have "getFlagActorForTeam t (cw_flags w) = Inr (teamFlags (cw_flags w) ! team_index t)"
    using getFlagActor_ok [OF assms(1)] by simp
  then show ?case using Cons by (auto simp: can_pick_up_def split: option.splits)
qed

text \<open>What the pad does to the flag the player holds.\<close>

definition held_after :: "ctf_frame \<Rightarrow> ctf_world \<Rightarrow> FlagTeam" where
  "held_after fr w =
     (let h = mHeldFlag (cw_info w)
      in if \<not> cf_dropPressed fr then h
         else if h \<noteq> INVALID
         then if h = mPlayerTeam (cw_info w) \<and> \<not> isPlayerOnSelfTeamSide fr w then h else INVALID
         else (case find (can_pick_up fr w) [RED, BLUE] of Some t \<Rightarrow> t | None \<Rightarrow> INVALID))"

definition with_held :: "FlagTeam \<Rightarrow> ctf_world \<Rightarrow> ctf_world" where
  "with_held h w = w\<lparr>cw_info := (cw_info w)\<lparr>mHeldFlag := h\<rparr>\<rparr>"

lemma with_held_same [simp]: "with_held (mHeldFlag (cw_info w)) w = w"
  by (simp add: with_held_def)

lemma can_pick_up_valid: "find (can_pick_up fr w) [RED, BLUE] = Some t \<Longrightarrow> valid_team t \<and> can_pick_up fr w t"
  by (auto simp: valid_team_def split: if_splits)

lemma not_pick_INVALID: "\<not> can_pick_up fr w INVALID"
  by (simp add: can_pick_up_def)

lemma checkPickUpOrDropFlag_ok:
  assumes "ctf_ok w"
  shows "checkPickUpOrDropFlag fr w =
      Inr (with_held (held_after fr w) w,
        if mHeldFlag (cw_info w) \<noteq> INVALID \<and> held_after fr w = INVALID
        then [SendCtf (hold_message False (mHeldFlag (cw_info w)))] else [])"
proof -
  have fl: "flags_ok (cw_flags w)" using assms by (simp add: ctf_ok_def)
  have p: "pickup_loop fr [INVALID, RED, BLUE] w =
    Inr (with_held (case find (can_pick_up fr w) [RED, BLUE] of Some t \<Rightarrow> t | None \<Rightarrow> mHeldFlag (cw_info w)) w)"
    using pickup_loop_eq [OF fl, of "[INVALID, RED, BLUE]" fr]
    by (simp add: valid_team_def not_pick_INVALID with_held_def del: pickup_loop.simps)
  have keep: "w\<lparr>cw_info := (cw_info w)\<lparr>mHeldFlag := mHeldFlag (cw_info w)\<rparr>\<rparr> = w" by simp
  show ?thesis
  proof (cases "cf_dropPressed fr \<and> mHeldFlag (cw_info w) = INVALID")
    case True
    then show ?thesis
      unfolding checkPickUpOrDropFlag_def held_after_def Let_def p
      by (cases "find (can_pick_up fr w) [RED, BLUE]") (simp_all del: find.simps)
  next
    case False
    then show ?thesis
      using keep
      by (auto simp: checkPickUpOrDropFlag_def held_after_def dropHeldFlag_def with_held_def Let_def)
  qed
qed

lemma held_after_valid: "ctf_ok w \<Longrightarrow> valid_team (held_after fr w)"
  by (auto simp: held_after_def Let_def ctf_ok_def valid_team_def split: option.splits if_splits
      dest: can_pick_up_valid)

lemma sendFlagHold_ok:
  assumes "ctf_ok w"
  shows "\<exists>v. sendFlagHoldStateUpdateIfHeld fr w =
      Inr (v, if mHeldFlag (cw_info w) = INVALID then []
              else [SendCtf (hold_message True (mHeldFlag (cw_info w)))]) \<and>
    same_play w v \<and> ctf_ok v"
proof (cases "mHeldFlag (cw_info w) = INVALID")
  case True
  then show ?thesis using assms by (simp add: sendFlagHoldStateUpdateIfHeld_def)
next
  case False
  let ?t = "mHeldFlag (cw_info w)"
  have fl: "flags_ok (cw_flags w)" and vt: "valid_team ?t" using assms by (simp_all add: ctf_ok_def)
  then have i: "0 < team_index ?t" "team_index ?t < 3" using False by (auto simp: valid_team_def)
  show ?thesis
    using False assms setTransform_keeps [OF fl _ i(2,1)]
    by (auto simp: sendFlagHoldStateUpdateIfHeld_def getFlagActor_ok [OF fl vt] ctf_ok_def same_play_def
        split: option.splits)
qed

lemma isHeld_slot:
  assumes "flags_ok fw" and "i < 3" and "teamFlags fw ! i = Some f"
  shows "isHeld f fw = held_flags fw ! i"
  using flags_ok_info [OF assms] flags_ok_lengths [OF assms(1)] assms(2)
  by (simp add: isHeld_def info_of_def held_flags_def)

lemma can_pick_up_cong:
  assumes "same_play w v" and "ctf_ok w" and "ctf_ok v" and "valid_team t"
  shows "can_pick_up fr v t = can_pick_up fr w t"
proof -
  let ?i = "team_index t"
  have i: "?i < 3" using assms(4) by (rule team_index_less)
  have fw: "flags_ok (cw_flags w)" "flags_ok (cw_flags v)" using assms(2,3) by (simp_all add: ctf_ok_def)
  have "map (map_option fa_info) (teamFlags (cw_flags v)) ! ?i = map (map_option fa_info) (teamFlags (cw_flags w)) ! ?i"
    using assms(1) by (simp only: same_play_def)
  then have "map_option fa_info (teamFlags (cw_flags v) ! ?i) = map_option fa_info (teamFlags (cw_flags w) ! ?i)"
    using i flags_ok_lengths [OF fw(1)] flags_ok_lengths [OF fw(2)] by simp
  then have "(teamFlags (cw_flags v) ! ?i = None) = (teamFlags (cw_flags w) ! ?i = None)"
    by (cases "teamFlags (cw_flags v) ! ?i"; cases "teamFlags (cw_flags w) ! ?i") simp_all
  moreover have "cw_info v = cw_info w" "held_flags (cw_flags v) = held_flags (cw_flags w)"
    using assms(1) by (simp_all add: same_play_def)
  moreover have "(\<exists>f. teamFlags fw ! ?i = Some f \<and> \<not> isHeld f fw) =
      (teamFlags fw ! ?i \<noteq> None \<and> \<not> held_flags fw ! ?i)" if "flags_ok fw" for fw
    using isHeld_slot [OF that i] by (cases "teamFlags fw ! ?i") simp_all
  ultimately show ?thesis using fw by (simp only: can_pick_up_def)
qed

lemma held_after_cong:
  assumes "same_play w v" and "ctf_ok w" and "ctf_ok v"
  shows "held_after fr v = held_after fr w"
proof -
  have "find (can_pick_up fr v) [RED, BLUE] = find (can_pick_up fr w) [RED, BLUE]"
    using can_pick_up_cong [OF assms, of RED fr] can_pick_up_cong [OF assms, of BLUE fr]
    by (simp add: valid_team_def)
  moreover have "cw_info v = cw_info w" "isPlayerOnSelfTeamSide fr v = isPlayerOnSelfTeamSide fr w"
    using assms(1) by (simp_all add: same_play_def isPlayerOnSelfTeamSide_def)
  ultimately show ?thesis by (simp only: held_after_def)
qed

section \<open>The frame as a whole\<close>

definition win_now :: "ctf_frame \<Rightarrow> ctf_mode \<Rightarrow> CaptureTheFlagInfo \<Rightarrow> bool" where
  "win_now fr m i \<longleftrightarrow> mWinningTeam i = INVALID \<and> getTeamSide fr m \<noteq> INVALID \<and>
     getTeamSide fr m = mPlayerTeam i \<and>
     (mPlayerTeam i = RED \<and> mHeldFlag i = BLUE \<or> mPlayerTeam i = BLUE \<and> mHeldFlag i = RED)"

lemma checkWin_eq:
  "checkWin fr w = (if win_now fr (cw_mode w) (cw_info w)
    then [SendCtf (Ctf_win \<lparr>winning_team = mPlayerTeam (cw_info w)\<rparr>)] else [])"
  by (auto simp: checkWin_def win_now_def Let_def getOpposingTeam_def)

lemma ctf_play_ok:
  assumes "ctf_ok w" and "ctf_table_ok puppets tab" and "\<not> isInvulnerable (cw_mode w)"
    and "getLocalPlayer fr (cw_mode w)"
  shows "\<exists>v deaths. ctf_play puppets fr tab w = Inr (v, deaths @
      (if mHeldFlag (cw_info w) \<noteq> INVALID \<and> held_after fr w = INVALID
       then [SendCtf (hold_message False (mHeldFlag (cw_info w)))] else []) @
      (if held_after fr w = INVALID then [] else [SendCtf (hold_message True (held_after fr w))]) @
      (if win_now fr (cw_mode w) ((cw_info w)\<lparr>mHeldFlag := held_after fr w\<rparr>)
       then [SendCtf (Ctf_win \<lparr>winning_team = mPlayerTeam (cw_info w)\<rparr>)] else [])) \<and>
    set deaths \<subseteq> {CtfDeath} \<and>
    (CtfDeath \<in> set deaths \<longleftrightarrow> tagged_by puppets fr tab w \<and>
       Some (mHeldFlag (cw_info w)) \<noteq> getOpposingTeam (mPlayerTeam (cw_info w))) \<and>
    cw_info v = (cw_info w)\<lparr>mHeldFlag := held_after fr w\<rparr> \<and> cw_mode v = cw_mode w \<and> ctf_ok v"
proof -
  obtain w1 where w1: "updateBorderPosition fr w = Inr w1" "same_play w w1" "ctf_ok w1"
    using updateBorderPosition_ok [OF assms(1)] by blast
  obtain w2 where w2: "updateFlags fr tab w1 = Inr w2" "same_play w1 w2" "ctf_ok w2"
    using updateFlags_ok [OF w1(3)] assms(2) unfolding ctf_table_ok_def by blast
  have s2: "same_play w w2" using w1(2) w2(2) by (rule same_play_trans)
  then have im: "cw_info w2 = cw_info w" "cw_mode w2 = cw_mode w" by (simp_all add: same_play_def)
  have h: "held_after fr w2 = held_after fr w" using s2 assms(1) w2(3) by (rule held_after_cong)
  obtain deaths where d: "checkTagged puppets fr tab w2 = Inr (w2, deaths)" "set deaths \<subseteq> {CtfDeath}"
    "CtfDeath \<in> set deaths \<longleftrightarrow> tagged_by puppets fr tab w2 \<and>
       Some (mHeldFlag (cw_info w)) \<noteq> getOpposingTeam (mPlayerTeam (cw_info w))"
    using checkTagged_ok [OF assms(2), of w2 fr] assms(3,4) im by auto
  let ?w3 = "with_held (held_after fr w) w2"
  have ok3: "ctf_ok ?w3"
    using w2(3) held_after_valid [OF assms(1), of fr] by (simp add: with_held_def ctf_ok_def)
  have i3: "cw_info ?w3 = (cw_info w)\<lparr>mHeldFlag := held_after fr w\<rparr>" "cw_mode ?w3 = cw_mode w"
    using im by (simp_all add: with_held_def)
  obtain v where v: "sendFlagHoldStateUpdateIfHeld fr ?w3 =
      Inr (v, if held_after fr w = INVALID then [] else [SendCtf (hold_message True (held_after fr w))])"
    "same_play ?w3 v" "ctf_ok v"
    using sendFlagHold_ok [OF ok3, of fr] i3 by auto
  have iv: "cw_info v = (cw_info w)\<lparr>mHeldFlag := held_after fr w\<rparr>" "cw_mode v = cw_mode w"
    using v(2) i3 by (simp_all add: same_play_def)
  have tag: "tagged_by puppets fr tab w2 = tagged_by puppets fr tab w"
    using im by (simp add: tagged_by_def)
  have pick: "checkPickUpOrDropFlag fr w2 = Inr (?w3,
      if mHeldFlag (cw_info w) \<noteq> INVALID \<and> held_after fr w = INVALID
      then [SendCtf (hold_message False (mHeldFlag (cw_info w)))] else [])"
    using checkPickUpOrDropFlag_ok [OF w2(3), of fr] unfolding h im(1) .
  have "ctf_play puppets fr tab w = Inr (v, deaths @
      (if mHeldFlag (cw_info w) \<noteq> INVALID \<and> held_after fr w = INVALID
       then [SendCtf (hold_message False (mHeldFlag (cw_info w)))] else []) @
      (if held_after fr w = INVALID then [] else [SendCtf (hold_message True (held_after fr w))]) @
      checkWin fr v)"
    unfolding ctf_play_def w1(1) w2(1) rbind_Inr d(1) prod.case pick v(1) by (rule refl)
  then have play: "ctf_play puppets fr tab w = Inr (v, deaths @
      (if mHeldFlag (cw_info w) \<noteq> INVALID \<and> held_after fr w = INVALID
       then [SendCtf (hold_message False (mHeldFlag (cw_info w)))] else []) @
      (if held_after fr w = INVALID then [] else [SendCtf (hold_message True (held_after fr w))]) @
      (if win_now fr (cw_mode w) ((cw_info w)\<lparr>mHeldFlag := held_after fr w\<rparr>)
       then [SendCtf (Ctf_win \<lparr>winning_team = mPlayerTeam (cw_info w)\<rparr>)] else []))"
    unfolding checkWin_eq iv by simp
  show ?thesis
    using d(2,3) unfolding tag
    by (intro exI [of _ v] exI [of _ deaths] conjI play iv v(3))
qed

section \<open>Properties\<close>

text \<open>The world a frame starts from after the timer check, the icon and the first-frame work.\<close>

definition ctf_ready :: "ctf_world \<Rightarrow> ctf_world" where
  "ctf_ready w =
     w\<lparr>cw_mode := (cw_mode w)
        \<lparr>cm_mModeLayout := showTeam (mPlayerTeam (cw_info w)) (cm_mModeLayout (cw_mode w)),
         cm_mIsFirstFrame := False\<rparr>\<rparr>"

lemma ctf_ready_fields [simp]:
  "cw_info (ctf_ready w) = cw_info w" "cw_flags (ctf_ready w) = cw_flags w"
  "cw_border (ctf_ready w) = cw_border w" "cm_mIsFirstFrame (cw_mode (ctf_ready w)) = False"
  "cm_mInvulnTime (cw_mode (ctf_ready w)) = cm_mInvulnTime (cw_mode w)"
  "m_teleportTimer (cw_mode (ctf_ready w)) = m_teleportTimer (cw_mode w)"
  by (simp_all add: ctf_ready_def)

lemma ctf_first_frame_ready:
  "fst (ctf_first_frame (w\<lparr>cw_mode := (cw_mode w)
     \<lparr>cm_mModeLayout := showTeam (mPlayerTeam (cw_info w)) (cm_mModeLayout (cw_mode w))\<rparr>\<rparr>)) = ctf_ready w"
  by (cases w; cases "cw_mode w") (simp add: ctf_first_frame_def ctf_ready_def)

lemma ctf_update_eq:
  assumes "\<not> f32_lt (Fin 0) (m_teleportTimer (cw_mode w))"
  shows "\<exists>e0. set e0 \<subseteq> {CtfStartCamera} \<and> ctf_update puppets fr tab w =
    (if cf_player fr = Hakoniwa
     then rbind (ctf_play puppets fr tab (ctf_ready w)) (\<lambda>(v, es). Inr (v, e0 @ es))
     else Inr (ctf_ready w, e0))"
proof -
  let ?e0 = "snd (ctf_first_frame (w\<lparr>cw_mode := (cw_mode w)
     \<lparr>cm_mModeLayout := showTeam (mPlayerTeam (cw_info w)) (cm_mModeLayout (cw_mode w))\<rparr>\<rparr>))"
  have "ctf_update puppets fr tab w =
    (if cf_player fr = Hakoniwa
     then rbind (ctf_play puppets fr tab (ctf_ready w)) (\<lambda>(v, es). Inr (v, ?e0 @ es))
     else Inr (ctf_ready w, ?e0))"
    using assms
    by (simp add: ctf_update_def ctf_first_frame_ready getLocalPlayer_def Let_def case_prod_beta)
  moreover have "set ?e0 \<subseteq> {CtfStartCamera}"
    by (auto simp: ctf_first_frame_def)
  ultimately show ?thesis by blast
qed

text \<open>The inputs of the properties: a sound world and table, and a frame in which the mode plays.\<close>

definition ctf_frame_ok :: "nat \<Rightarrow> ctf_frame \<Rightarrow> puppet_table \<Rightarrow> ctf_world \<Rightarrow> bool" where
  "ctf_frame_ok puppets fr tab w \<longleftrightarrow> ctf_ok w \<and> ctf_table_ok puppets tab \<and>
     m_teleportTimer (cw_mode w) = Fin 0 \<and> cm_mInvulnTime (cw_mode w) = Fin 0"

lemma ctf_update_ok:
  assumes "ctf_frame_ok puppets fr tab w" and "cf_player fr = Hakoniwa"
  shows "\<exists>v e0 deaths. ctf_update puppets fr tab w = Inr (v, e0 @ deaths @
      (if mHeldFlag (cw_info w) \<noteq> INVALID \<and> held_after fr (ctf_ready w) = INVALID
       then [SendCtf (hold_message False (mHeldFlag (cw_info w)))] else []) @
      (if held_after fr (ctf_ready w) = INVALID then []
       else [SendCtf (hold_message True (held_after fr (ctf_ready w)))]) @
      (if win_now fr (cw_mode (ctf_ready w)) ((cw_info w)\<lparr>mHeldFlag := held_after fr (ctf_ready w)\<rparr>)
       then [SendCtf (Ctf_win \<lparr>winning_team = mPlayerTeam (cw_info w)\<rparr>)] else [])) \<and>
    set (e0 @ deaths) \<subseteq> {CtfStartCamera, CtfDeath} \<and>
    (CtfDeath \<in> set (e0 @ deaths) \<longleftrightarrow> tagged_by puppets fr tab (ctf_ready w) \<and>
       Some (mHeldFlag (cw_info w)) \<noteq> getOpposingTeam (mPlayerTeam (cw_info w))) \<and>
    cw_info v = (cw_info w)\<lparr>mHeldFlag := held_after fr (ctf_ready w)\<rparr> \<and>
    cw_mode v = cw_mode (ctf_ready w) \<and> ctf_ok v"
proof -
  have ok: "ctf_ok (ctf_ready w)" "ctf_table_ok puppets tab" "\<not> isInvulnerable (cw_mode (ctf_ready w))"
    "getLocalPlayer fr (cw_mode (ctf_ready w))" "\<not> f32_lt (Fin 0) (m_teleportTimer (cw_mode w))"
    using assms by (simp_all add: ctf_frame_ok_def ctf_ok_def isInvulnerable_def getLocalPlayer_def)
  obtain e0 where e0: "set e0 \<subseteq> {CtfStartCamera}" "ctf_update puppets fr tab w =
      rbind (ctf_play puppets fr tab (ctf_ready w)) (\<lambda>(v, es). Inr (v, e0 @ es))"
    using ctf_update_eq [OF ok(5), of puppets fr tab] assms(2) by auto
  show ?thesis using ctf_play_ok [OF ok(1-4)] e0 by fastforce
qed

text \<open>C28: The player is killed by a tag exactly when it is not on its own side, it does not carry the
  opposing team's flag, and a connected player of the stage of another real team is nearer than 200 to it,
  in the same dimension, while it is not dead. A tag does not touch the held flag: whatever touches
  the player, without the two buttons it holds after the frame what it held before, and no message
  tells of a flag let go.\<close>

theorem ctf_tag_rule:
  assumes "ctf_frame_ok puppets fr tab w" and "cf_player fr = Hakoniwa"
  shows "\<exists>v es. ctf_update puppets fr tab w = Inr (v, es) \<and>
    (CtfDeath \<in> set es \<longleftrightarrow>
       side_in_stage (cf_trans fr) (cf_stage fr) \<noteq> mPlayerTeam (cw_info w) \<and>
       Some (mHeldFlag (cw_info w)) \<noteq> getOpposingTeam (mPlayerTeam (cw_info w)) \<and>
       (\<exists>k < puppets. case mPuppetInfoArr tab ! k of p \<Rightarrow>
          isConnected p \<and> isInSameStage p \<and> ctfTeam p \<noteq> mPlayerTeam (cw_info w) \<and> ctfTeam p \<noteq> INVALID \<and>
          f32_lt (cf_dist fr k) (Fin 200) \<and> cf_is2DModel fr = is2D p \<and> \<not> cf_isDead fr k)) \<and>
    (\<not> cf_dropPressed fr \<longrightarrow>
       mHeldFlag (cw_info v) = mHeldFlag (cw_info w) \<and> (\<forall>t. SendCtf (hold_message False t) \<notin> set es))"
proof -
  obtain v e0 deaths where u: "ctf_update puppets fr tab w = Inr (v, e0 @ deaths @
      (if mHeldFlag (cw_info w) \<noteq> INVALID \<and> held_after fr (ctf_ready w) = INVALID
       then [SendCtf (hold_message False (mHeldFlag (cw_info w)))] else []) @
      (if held_after fr (ctf_ready w) = INVALID then []
       else [SendCtf (hold_message True (held_after fr (ctf_ready w)))]) @
      (if win_now fr (cw_mode (ctf_ready w)) ((cw_info w)\<lparr>mHeldFlag := held_after fr (ctf_ready w)\<rparr>)
       then [SendCtf (Ctf_win \<lparr>winning_team = mPlayerTeam (cw_info w)\<rparr>)] else []))"
    and e0: "set (e0 @ deaths) \<subseteq> {CtfStartCamera, CtfDeath}"
    and d: "CtfDeath \<in> set (e0 @ deaths) \<longleftrightarrow> tagged_by puppets fr tab (ctf_ready w) \<and>
       Some (mHeldFlag (cw_info w)) \<noteq> getOpposingTeam (mPlayerTeam (cw_info w))"
    and v: "mHeldFlag (cw_info v) = held_after fr (ctf_ready w)"
    using ctf_update_ok [OF assms] by fastforce
  have tag: "tagged_by puppets fr tab (ctf_ready w) \<longleftrightarrow>
      side_in_stage (cf_trans fr) (cf_stage fr) \<noteq> mPlayerTeam (cw_info w) \<and>
      (\<exists>k < puppets. ctf_touches fr (cw_info w) k (mPuppetInfoArr tab ! k))"
    using assms by (simp add: tagged_by_def isInvulnerable_def getTeamSide_def getLocalPlayer_def ctf_frame_ok_def)
  have "held_after fr (ctf_ready w) = mHeldFlag (cw_info w)" if "\<not> cf_dropPressed fr"
    using that by (simp add: held_after_def)
  moreover have "SendCtf m \<notin> set (e0 @ deaths)" for m using e0 by blast
  ultimately show ?thesis
    using u d v unfolding tag ctf_touches_def by (auto simp: hold_message_def)
qed

text \<open>C29: A frame sends a win message exactly when no team has won yet, the player stands on its own
  side, and it holds the opposing team's flag after the pad was read; the message names its team.\<close>

theorem ctf_win_rule:
  assumes "ctf_frame_ok puppets fr tab w" and "cf_player fr = Hakoniwa"
  shows "\<exists>v es. ctf_update puppets fr tab w = Inr (v, es) \<and>
    (SendCtf (Ctf_win m) \<in> set es \<longleftrightarrow>
       winning_team m = mPlayerTeam (cw_info w) \<and> mWinningTeam (cw_info w) = INVALID \<and>
       side_in_stage (cf_trans fr) (cf_stage fr) = mPlayerTeam (cw_info w) \<and>
       Some (mHeldFlag (cw_info v)) = getOpposingTeam (mPlayerTeam (cw_info w)))"
proof -
  obtain v e0 deaths where u: "ctf_update puppets fr tab w = Inr (v, e0 @ deaths @
      (if mHeldFlag (cw_info w) \<noteq> INVALID \<and> held_after fr (ctf_ready w) = INVALID
       then [SendCtf (hold_message False (mHeldFlag (cw_info w)))] else []) @
      (if held_after fr (ctf_ready w) = INVALID then []
       else [SendCtf (hold_message True (held_after fr (ctf_ready w)))]) @
      (if win_now fr (cw_mode (ctf_ready w)) ((cw_info w)\<lparr>mHeldFlag := held_after fr (ctf_ready w)\<rparr>)
       then [SendCtf (Ctf_win \<lparr>winning_team = mPlayerTeam (cw_info w)\<rparr>)] else []))"
    and e0: "set (e0 @ deaths) \<subseteq> {CtfStartCamera, CtfDeath}"
    and v: "mHeldFlag (cw_info v) = held_after fr (ctf_ready w)"
    using ctf_update_ok [OF assms] by fastforce
  have "win_now fr (cw_mode (ctf_ready w)) ((cw_info w)\<lparr>mHeldFlag := mHeldFlag (cw_info v)\<rparr>) \<longleftrightarrow>
      mWinningTeam (cw_info w) = INVALID \<and>
      side_in_stage (cf_trans fr) (cf_stage fr) = mPlayerTeam (cw_info w) \<and>
      Some (mHeldFlag (cw_info v)) = getOpposingTeam (mPlayerTeam (cw_info w))"
    using assms(2)
    by (auto simp: win_now_def getTeamSide_def getLocalPlayer_def getOpposingTeam_def)
  moreover have "SendCtf (Ctf_win m) \<notin> set (e0 @ deaths)" using e0 by blast
  moreover have "(m = \<lparr>winning_team = t\<rparr>) = (winning_team m = t)" for t by (cases m) simp
  ultimately show ?thesis using u v by (auto simp: hold_message_def)
qed

text \<open>C30: Only the two buttons change the held flag. With them a carrier lets go of its flag, except that
  it keeps its own team's flag while it is not on its own side; an empty-handed player takes the red flag if
  it can be taken, else the blue one if that can be taken, else nothing. A flag can be taken if it is not
  the own team's, has an actor, is held by nobody and is nearer than 200. One message tells that the
  flag was let go, and every frame that ends with a flag tells that it is held.\<close>

theorem ctf_flag_rule:
  assumes "ctf_frame_ok puppets fr tab w" and "cf_player fr = Hakoniwa" and "h = mHeldFlag (cw_info w)"
    and "\<And>t. free t \<longleftrightarrow> t \<noteq> mPlayerTeam (cw_info w) \<and> f32_lt (cf_flagDist fr (team_index t)) (Fin 200) \<and>
      (\<exists>f. teamFlags (cw_flags w) ! team_index t = Some f \<and> \<not> isHeld f (cw_flags w))"
  shows "\<exists>v es. ctf_update puppets fr tab w = Inr (v, es) \<and>
    mHeldFlag (cw_info v) =
      (if \<not> cf_dropPressed fr then h
       else if h \<noteq> INVALID
       then if h = mPlayerTeam (cw_info w) \<and> side_in_stage (cf_trans fr) (cf_stage fr) \<noteq> mPlayerTeam (cw_info w)
            then h else INVALID
       else if free RED then RED else if free BLUE then BLUE else INVALID) \<and>
    count_list es (SendCtf (hold_message False t)) =
      (if t = h \<and> h \<noteq> INVALID \<and> mHeldFlag (cw_info v) = INVALID then 1 else 0) \<and>
    count_list es (SendCtf (hold_message True t)) =
      (if t = mHeldFlag (cw_info v) \<and> t \<noteq> INVALID then 1 else 0)"
proof -
  obtain v e0 deaths where u: "ctf_update puppets fr tab w = Inr (v, (e0 @ deaths) @
      (if h \<noteq> INVALID \<and> held_after fr (ctf_ready w) = INVALID
       then [SendCtf (hold_message False h)] else []) @
      (if held_after fr (ctf_ready w) = INVALID then []
       else [SendCtf (hold_message True (held_after fr (ctf_ready w)))]) @
      (if win_now fr (cw_mode (ctf_ready w)) ((cw_info w)\<lparr>mHeldFlag := held_after fr (ctf_ready w)\<rparr>)
       then [SendCtf (Ctf_win \<lparr>winning_team = mPlayerTeam (cw_info w)\<rparr>)] else []))"
    and e0: "set (e0 @ deaths) \<subseteq> {CtfStartCamera, CtfDeath}"
    and v: "mHeldFlag (cw_info v) = held_after fr (ctf_ready w)"
    using ctf_update_ok [OF assms(1,2)] unfolding assms(3) by fastforce
  have side: "isPlayerOnSelfTeamSide fr (ctf_ready w) \<longleftrightarrow>
      side_in_stage (cf_trans fr) (cf_stage fr) = mPlayerTeam (cw_info w)"
    using assms(2) by (simp add: isPlayerOnSelfTeamSide_def getTeamSide_def getLocalPlayer_def)
  have pick: "can_pick_up fr (ctf_ready w) t \<longleftrightarrow> free t" if "t \<noteq> INVALID" for t
    using that unfolding assms(4) by (auto simp: can_pick_up_def)
  have "held_after fr (ctf_ready w) =
      (if \<not> cf_dropPressed fr then h
       else if h \<noteq> INVALID
       then if h = mPlayerTeam (cw_info w) \<and> side_in_stage (cf_trans fr) (cf_stage fr) \<noteq> mPlayerTeam (cw_info w)
            then h else INVALID
       else if free RED then RED else if free BLUE then BLUE else INVALID)"
    using assms(3) by (simp add: held_after_def Let_def side pick)
  moreover have "count_list (e0 @ deaths) (SendCtf m) = 0" for m
    using e0 by (auto simp: count_list_0_iff)
  moreover have "hold_message b t = hold_message b' t' \<longleftrightarrow> b = b' \<and> t = t'"
    "Ctf_win m \<noteq> hold_message b t" "hold_message b t \<noteq> Ctf_win m" for b b' t t' m
    by (auto simp: hold_message_def)
  ultimately show ?thesis using u v by (intro exI conjI) (auto simp del: count_list_append simp: count_list_append)
qed

lemma ctf_update_sound:
  assumes "ctf_frame_ok puppets fr tab w"
  shows "\<exists>v es. ctf_update puppets fr tab w = Inr (v, es) \<and> ctf_frame_ok puppets fr tab v"
proof (cases "cf_player fr = Hakoniwa")
  case True
  show ?thesis using ctf_update_ok [OF assms True] assms by (auto simp: ctf_frame_ok_def)
next
  case False
  have "\<not> f32_lt (Fin 0) (m_teleportTimer (cw_mode w))" using assms by (simp add: ctf_frame_ok_def)
  from ctf_update_eq [OF this, of puppets fr tab] False assms show ?thesis
    by (auto simp: ctf_frame_ok_def ctf_ok_def)
qed

text \<open>From a started mode on, no frame ever faults, and the protection after a respawn never
  starts: the protection time stays zero, because it only grows once it has reached five seconds.\<close>

theorem ctf_never_protected:
  assumes "ctf_ok w" and "cw_mode w = fst (ctf_begin scene i ctf_new)"
    and "\<forall>(fr, tab) \<in> set frames. ctf_table_ok puppets tab"
  shows "\<exists>v es. ctf_run puppets frames w = Inr (v, es) \<and> ctf_ok v \<and>
    cm_mInvulnTime (cw_mode v) = Fin 0 \<and> \<not> isInvulnerable (cw_mode v)"
proof -
  have "\<exists>v es. ctf_run puppets frames u = Inr (v, es) \<and> ctf_ok v \<and> cm_mInvulnTime (cw_mode v) = Fin 0"
    if "ctf_ok u" and "m_teleportTimer (cw_mode u) = Fin 0" and "cm_mInvulnTime (cw_mode u) = Fin 0" for u
    using that assms(3)
  proof (induction frames arbitrary: u)
    case Nil
    then show ?case by simp
  next
    case (Cons f frames)
    obtain fr tab where f: "f = (fr, tab)" by fastforce
    then have "ctf_frame_ok puppets fr tab u" using Cons.prems by (simp add: ctf_frame_ok_def)
    from ctf_update_sound [OF this] obtain v es where
      v: "ctf_update puppets fr tab u = Inr (v, es)" "ctf_frame_ok puppets fr tab v" by blast
    with Cons.IH [of v] Cons.prems(4) f show ?case by (auto simp: ctf_frame_ok_def)
  qed
  from this [OF assms(1)] assms(2) show ?thesis
    by (auto simp: ctf_begin_def ctf_new_def isInvulnerable_def)
qed

section \<open>Witnesses\<close>

definition ctf_frame0 :: ctf_frame where
  "ctf_frame0 =
     \<lparr>cf_player = Hakoniwa, cf_trans = \<lparr>v_x = Fin 0, v_y = Fin 0, v_z = Fin 500\<rparr>, cf_quat = Quatf_unit,
      cf_calcQuat = Quatf_unit, cf_stage = \<lparr>sd_stageName = ''WaterfallWorldHomeStage'', sd_scenarioNum = 1\<rparr>,
      cf_dist = (\<lambda>_. Fin 100), cf_flagDist = (\<lambda>_. Fin 50), cf_is2DModel = False, cf_isDead = (\<lambda>_. False),
      cf_deltaTime = Fin 0, cf_dropPressed = False, cf_hasSceneInfo = True, cf_modeActive = True,
      cf_userID = EmptyId, cf_borderRot = Quatf_zero\<rparr>"

definition fresh_flag :: flag_actor where
  "fresh_flag = \<lparr>fa_dead = True, fa_trans = Vector3f_zero, fa_quat = Quatf_zero, fa_anim = [], fa_info = None\<rparr>"

definition ctf_world0 :: ctf_world where
  "ctf_world0 =
     \<lparr>cw_info = CaptureTheFlagInfo_new\<lparr>mPlayerTeam := BLUE\<rparr>, cw_mode = ctf_new,
      cw_flags = setTeam (\<lambda>_. True) BLUE 2 fresh_flag (setTeam (\<lambda>_. True) RED 1 fresh_flag flag_world_init),
      cw_border = Some \<lparr>ba_dead = True, ba_trans = Vector3f_zero, ba_quat = Quatf_zero, ba_info = None\<rparr>\<rparr>"

definition red_table :: puppet_table where
  "red_table =
     \<lparr>mPuppetInfoArr = [PuppetInfo_new\<lparr>isConnected := True, isInSameStage := True, ctfTeam := RED\<rparr>],
      mConnectCount = 1, maxPuppets = 1\<rparr>"

lemma red_table_ok: "ctf_table_ok (Suc 0) red_table"
  by (simp add: ctf_table_ok_def red_table_def bound_ok_def find_bound_def)

lemma ctf_world0_ok: "ctf_ok ctf_world0"
  using flags_ok_setTeam [OF flags_ok_setTeam [OF flags_ok_init, of RED "\<lambda>_. True" fresh_flag],
      of BLUE "\<lambda>_. True" fresh_flag]
  by (simp add: ctf_ok_def ctf_world0_def CaptureTheFlagInfo_new_def valid_team_def)

lemma ctf_world0_with_info: "ctf_ok (ctf_world0\<lparr>cw_info := i\<rparr>) \<longleftrightarrow> valid_team (mHeldFlag i)"
  using ctf_world0_ok by (simp add: ctf_ok_def)

lemma lit_border_x: "f32_lit (- (72083 / 50)) = Fin (- (11810079 / 8192))"
proof -
  have u: "f32_ulp (- (72083 / 50)) = 1 / 8192"
    using f32_ulp_eqI [of 135 "- (72083 / 50)"] by simp
  have "\<lfloor>- (295251968 / 25) :: rat\<rfloor> = - 11810079" by (rule floor_unique) simp_all
  then show ?thesis unfolding f32_lit_def f32_round_def u by (simp add: round_half_even_def Let_def)
qed

lemma lit_border_z: "f32_lit 440 = Fin 440"
proof -
  have u: "f32_ulp 440 = 1 / 32768"
    using f32_ulp_eqI [of 133 440] by simp
  show ?thesis unfolding f32_lit_def f32_round_def u by (simp add: round_half_even_def Let_def)
qed

lemma frame0_side: "side_in_stage (cf_trans ctf_frame0) (cf_stage ctf_frame0) = BLUE"
proof -
  have "searchForSubAreaData (cf_stage ctf_frame0) = None"
    by (simp add: searchForSubAreaData_def ctf_frame0_def getSubAreas_def sub_area_def StageData_eq_def)
  moreover have "team_side (cf_trans ctf_frame0) cascade_border = BLUE"
    by (rule team_side_blue [where bx = "-(11810079 / 8192)" and bz = 440 and px = 0 and pz = 500])
      (simp_all add: cascade_border_def BORDER_TRANSFORMS_def lit_border_x lit_border_z ctf_frame0_def)
  moreover have "getBorderTransform (cf_stage ctf_frame0) = Some cascade_border"
    by (simp add: getBorderTransform_def BORDER_TRANSFORMS_def cascade_border_def ctf_frame0_def)
  ultimately show ?thesis
    by (simp add: side_in_stage_def replacePosition_def getSubAreaEntranceLocation_def)
qed

theorem ctf_tag_rule_witness:
  "\<exists>v es. ctf_update (Suc 0) (ctf_frame0\<lparr>cf_stage := \<lparr>sd_stageName = ''CapWorldHomeStage'', sd_scenarioNum = 1\<rparr>\<rparr>)
      red_table ctf_world0 = Inr (v, es) \<and> CtfDeath \<in> set es"
proof -
  let ?fr = "ctf_frame0\<lparr>cf_stage := \<lparr>sd_stageName = ''CapWorldHomeStage'', sd_scenarioNum = 1\<rparr>\<rparr>"
  have ok: "ctf_frame_ok (Suc 0) ?fr red_table ctf_world0"
    using red_table_ok ctf_world0_ok by (simp add: ctf_frame_ok_def ctf_world0_def ctf_new_def)
  have "side_in_stage (cf_trans ?fr) (cf_stage ?fr) = INVALID"
    by (simp add: side_in_stage_def getBorderTransform_def BORDER_TRANSFORMS_def getParentStageName_def
        searchForSubAreaData_def getSubAreas_def sub_area_def StageData_eq_def)
  moreover have "\<exists>k < Suc 0. case mPuppetInfoArr red_table ! k of p \<Rightarrow>
      isConnected p \<and> isInSameStage p \<and> ctfTeam p \<noteq> mPlayerTeam (cw_info ctf_world0) \<and> ctfTeam p \<noteq> INVALID \<and>
      f32_lt (cf_dist ?fr k) (Fin 200) \<and> cf_is2DModel ?fr = is2D p \<and> \<not> cf_isDead ?fr k"
    by (simp add: red_table_def ctf_frame0_def ctf_world0_def PuppetInfo_new_def CaptureTheFlagInfo_new_def)
  moreover have "mPlayerTeam (cw_info ctf_world0) = BLUE" "mHeldFlag (cw_info ctf_world0) = INVALID"
    by (simp_all add: ctf_world0_def CaptureTheFlagInfo_new_def)
  ultimately show ?thesis
    using ctf_tag_rule [OF ok] by (auto simp: ctf_frame0_def getOpposingTeam_def)
qed

theorem ctf_win_rule_witness:
  "\<exists>v es. ctf_update (Suc 0) ctf_frame0 red_table
      (ctf_world0\<lparr>cw_info := (cw_info ctf_world0)\<lparr>mHeldFlag := RED\<rparr>\<rparr>) = Inr (v, es) \<and>
    SendCtf (Ctf_win \<lparr>winning_team = BLUE\<rparr>) \<in> set es"
proof -
  let ?w = "ctf_world0\<lparr>cw_info := (cw_info ctf_world0)\<lparr>mHeldFlag := RED\<rparr>\<rparr>"
  have ok: "ctf_frame_ok (Suc 0) ctf_frame0 red_table ?w"
    using red_table_ok ctf_world0_with_info [of "(cw_info ctf_world0)\<lparr>mHeldFlag := RED\<rparr>"]
    by (simp add: ctf_frame_ok_def valid_team_def) (simp add: ctf_world0_def ctf_new_def)
  have p: "cf_player ctf_frame0 = Hakoniwa" by (simp add: ctf_frame0_def)
  from ctf_update_ok [OF ok p] obtain v es where u: "ctf_update (Suc 0) ctf_frame0 red_table ?w = Inr (v, es)"
    and "mHeldFlag (cw_info v) = held_after ctf_frame0 (ctf_ready ?w)" by auto
  moreover have "held_after ctf_frame0 (ctf_ready ?w) = RED"
    by (simp add: held_after_def ctf_frame0_def)
  moreover have "mPlayerTeam (cw_info ?w) = BLUE" "mWinningTeam (cw_info ?w) = INVALID"
    by (simp_all add: ctf_world0_def CaptureTheFlagInfo_new_def)
  ultimately show ?thesis
    using ctf_win_rule [OF ok p, of "\<lparr>winning_team = BLUE\<rparr>"] frame0_side
    by (auto simp: getOpposingTeam_def)
qed

theorem ctf_flag_rule_witness:
  "\<exists>v es. ctf_update (Suc 0) (ctf_frame0\<lparr>cf_dropPressed := True\<rparr>) red_table
      (ctf_world0\<lparr>cw_info := (cw_info ctf_world0)\<lparr>mHeldFlag := RED\<rparr>\<rparr>) = Inr (v, es) \<and>
    mHeldFlag (cw_info v) = INVALID \<and> count_list es (SendCtf (hold_message False RED)) = 1"
proof -
  let ?w = "ctf_world0\<lparr>cw_info := (cw_info ctf_world0)\<lparr>mHeldFlag := RED\<rparr>\<rparr>"
  let ?fr = "ctf_frame0\<lparr>cf_dropPressed := True\<rparr>"
  have ok: "ctf_frame_ok (Suc 0) ?fr red_table ?w"
    using red_table_ok ctf_world0_with_info [of "(cw_info ctf_world0)\<lparr>mHeldFlag := RED\<rparr>"]
    by (simp add: ctf_frame_ok_def valid_team_def) (simp add: ctf_world0_def ctf_new_def)
  have p: "cf_player ?fr = Hakoniwa" by (simp add: ctf_frame0_def)
  have t: "mPlayerTeam (cw_info ?w) = BLUE" by (simp add: ctf_world0_def CaptureTheFlagInfo_new_def)
  have h: "RED = mHeldFlag (cw_info ?w)" by simp
  show ?thesis using ctf_flag_rule [OF ok p h refl, of RED] unfolding t by (auto split: if_splits)
qed

theorem ctf_never_protected_witness:
  "\<exists>v es. ctf_run (Suc 0) [(ctf_frame0, red_table), (ctf_frame0, red_table)]
      (ctf_world0\<lparr>cw_mode := fst (ctf_begin \<lparr>coinCounter_alive = True, coinCollect_alive = True,
         compass_alive = True, playGuide_alive = True\<rparr> CaptureTheFlagInfo_new ctf_new)\<rparr>) = Inr (v, es) \<and>
    ctf_ok v \<and> cm_mInvulnTime (cw_mode v) = Fin 0 \<and> \<not> isInvulnerable (cw_mode v)"
  by (rule ctf_never_protected) (use ctf_world0_ok red_table_ok in \<open>simp_all add: ctf_ok_def\<close>)

end
