(* ===== verification/Mode_Manager.thy ===== *)
theory Mode_Manager
  imports Hide_Seek Capture_Flag
begin

text \<open>
  The game mode manager (\<open>server/gamemode/GameModeManager.cpp\<close>): which mode is chosen, the mode object
  and its information, when a mode begins, ends and runs. A mode's \<open>mInfo\<close> is the manager's
  \<open>mModeInfo\<close>: \<open>init\<close> makes them the same object, so there is one copy here. Reading an object through
  a pointer of the other mode's class is the fault \<open>WrongClass\<close>.
\<close>

section \<open>State\<close>

datatype mode_obj = Hns_mode hns_mode | Ctf_mode ctf_mode

record mode_manager =
  mActive :: bool
  mPaused :: bool
  mWasSceneTrans :: bool
  mWasSetMode :: bool
  mCurMode :: GameMode
  mCurModeBase :: "mode_obj option"
  mModeInfo :: "mode_info option"

record mode_world =
  mw_manager :: mode_manager
  mw_flags :: flag_world
  mw_border :: "border_actor option"

text \<open>What the engine answers in one frame.\<close>

record mode_inputs =
  in_sceneHeap :: bool
  in_counters :: scene_counters
  in_hns :: hns_frame
  in_ctf :: ctf_frame
  in_puppets :: nat
  in_table :: puppet_table

datatype mode_effect =
    Counter counter_call
  | Hns_effect hns_effect
  | Ctf_effect ctf_effect

definition manager_empty :: mode_manager where
  "manager_empty =
     \<lparr>mActive = False, mPaused = False, mWasSceneTrans = False, mWasSetMode = False, mCurMode = NONE,
      mCurModeBase = None, mModeInfo = None\<rparr>"

section \<open>Operations\<close>

definition setMode :: "GameMode \<Rightarrow> mode_manager \<Rightarrow> mode_manager" where
  "setMode m s = s\<lparr>mCurMode := m, mWasSetMode := True\<rparr>"

definition GameModeManager_new :: mode_manager where
  "GameModeManager_new = setMode CAPTURE_THE_FLAG manager_empty"

definition toggleActive :: "mode_manager \<Rightarrow> mode_manager" where
  "toggleActive s = s\<lparr>mActive := \<not> mActive s\<rparr>"

definition setActive :: "bool \<Rightarrow> mode_manager \<Rightarrow> mode_manager" where
  "setActive active s = s\<lparr>mActive := active\<rparr>"

definition setPaused :: "bool \<Rightarrow> mode_manager \<Rightarrow> mode_manager" where
  "setPaused paused s = s\<lparr>mPaused := paused\<rparr>"

definition isMode :: "GameMode \<Rightarrow> mode_manager \<Rightarrow> bool" where
  "isMode m s \<longleftrightarrow> mCurMode s = m"

definition isModeAndActive :: "GameMode \<Rightarrow> mode_manager \<Rightarrow> bool" where
  "isModeAndActive m s \<longleftrightarrow> isMode m s \<and> mActive s"

definition mode_active :: "mode_obj \<Rightarrow> bool" where
  "mode_active m = (case m of Hns_mode h \<Rightarrow> hm_mIsActive h | Ctf_mode c \<Rightarrow> cm_mIsActive c)"

text \<open>\<open>getMode<T>\<close> and \<open>getInfo<T>\<close>, used: null and the other class are faults.\<close>

definition hns_of :: "mode_manager \<Rightarrow> hns_mode res" where
  "hns_of s = (case mCurModeBase s of
     None \<Rightarrow> Inl NullDeref | Some (Hns_mode h) \<Rightarrow> Inr h | Some (Ctf_mode _) \<Rightarrow> Inl WrongClass)"

definition ctf_of :: "mode_manager \<Rightarrow> ctf_mode res" where
  "ctf_of s = (case mCurModeBase s of
     None \<Rightarrow> Inl NullDeref | Some (Ctf_mode c) \<Rightarrow> Inr c | Some (Hns_mode _) \<Rightarrow> Inl WrongClass)"

definition hns_info_of :: "mode_manager \<Rightarrow> HideAndSeekInfo res" where
  "hns_info_of s = (case mModeInfo s of
     None \<Rightarrow> Inl NullDeref | Some (Hns_info i) \<Rightarrow> Inr i | Some (Ctf_info _) \<Rightarrow> Inl WrongClass)"

definition ctf_info_of :: "mode_manager \<Rightarrow> CaptureTheFlagInfo res" where
  "ctf_info_of s = (case mModeInfo s of
     None \<Rightarrow> Inl NullDeref | Some (Ctf_info i) \<Rightarrow> Inr i | Some (Hns_info _) \<Rightarrow> Inl WrongClass)"

text \<open>\<open>begin\<close> and \<open>end\<close> call the object's own function; it reads the information of its class.\<close>

definition mgr_begin :: "scene_counters \<Rightarrow> mode_manager \<Rightarrow> (mode_manager \<times> counter_call list) res" where
  "mgr_begin scene s =
     (case mCurModeBase s of
        None \<Rightarrow> Inr (s, [])
      | Some (Hns_mode h) \<Rightarrow>
          rbind (hns_info_of s) (\<lambda>i.
            case hns_begin scene i h of (h, cs) \<Rightarrow> Inr (s\<lparr>mCurModeBase := Some (Hns_mode h)\<rparr>, cs))
      | Some (Ctf_mode c) \<Rightarrow>
          rbind (ctf_info_of s) (\<lambda>i.
            case ctf_begin scene i c of (c, cs) \<Rightarrow> Inr (s\<lparr>mCurModeBase := Some (Ctf_mode c)\<rparr>, cs)))"

definition mgr_end :: "scene_counters \<Rightarrow> mode_manager \<Rightarrow> mode_manager \<times> counter_call list" where
  "mgr_end scene s =
     (case mCurModeBase s of
        None \<Rightarrow> (s, [])
      | Some (Hns_mode h) \<Rightarrow>
          (case hns_end scene h of (h, cs) \<Rightarrow> (s\<lparr>mCurModeBase := Some (Hns_mode h)\<rparr>, cs))
      | Some (Ctf_mode c) \<Rightarrow>
          (case ctf_end scene c of (c, cs) \<Rightarrow> (s\<lparr>mCurModeBase := Some (Ctf_mode c)\<rparr>, cs)))"

text \<open>The mode's own update; the manager tells it whether its mode is the chosen one.\<close>

definition mode_update :: "mode_inputs \<Rightarrow> mode_world \<Rightarrow> (mode_world \<times> mode_effect list) res" where
  "mode_update inp w =
     (let s = mw_manager w
      in case mCurModeBase s of
           None \<Rightarrow> Inr (w, [])
         | Some (Hns_mode h) \<Rightarrow>
             rbind (hns_info_of s) (\<lambda>i.
             rbind (hns_update (in_puppets inp)
                      ((in_hns inp)\<lparr>fr_isHideAndSeek := isMode HIDEANDSEEK s\<rparr>) (in_table inp) (i, h))
               (\<lambda>((i, h), es).
                  Inr (w\<lparr>mw_manager := s\<lparr>mCurModeBase := Some (Hns_mode h), mModeInfo := Some (Hns_info i)\<rparr>\<rparr>,
                       map Hns_effect es)))
         | Some (Ctf_mode c) \<Rightarrow>
             rbind (ctf_info_of s) (\<lambda>i.
             rbind (ctf_update (in_puppets inp)
                      ((in_ctf inp)\<lparr>cf_modeActive := isModeAndActive CAPTURE_THE_FLAG s\<rparr>) (in_table inp)
                      \<lparr>cw_info = i, cw_mode = c, cw_flags = mw_flags w, cw_border = mw_border w\<rparr>)
               (\<lambda>(v, es).
                  Inr (w\<lparr>mw_manager := s\<lparr>mCurModeBase := Some (Ctf_mode (cw_mode v)),
                                        mModeInfo := Some (Ctf_info (cw_info v))\<rparr>,
                         mw_flags := cw_flags v, mw_border := cw_border v\<rparr>,
                       map Ctf_effect es))))"

definition mgr_wants :: "mode_inputs \<Rightarrow> mode_manager \<Rightarrow> bool" where
  "mgr_wants inp s \<longleftrightarrow> mActive s \<and> in_sceneHeap inp \<and> \<not> mPaused s"

definition base_active :: "mode_manager \<Rightarrow> bool" where
  "base_active s \<longleftrightarrow> (case mCurModeBase s of None \<Rightarrow> False | Some m \<Rightarrow> mode_active m)"

definition mgr_update :: "mode_inputs \<Rightarrow> mode_world \<Rightarrow> (mode_world \<times> mode_effect list) res" where
  "mgr_update inp w =
     (let s = mw_manager w
      in if mCurModeBase s = None then Inr (w, [])
         else rbind (if mgr_wants inp s \<and> \<not> base_active s \<or> mWasSceneTrans s
                     then mgr_begin (in_counters inp) s else Inr (s, []))
                (\<lambda>(s, c1).
                  case (if \<not> mgr_wants inp s \<and> base_active s then mgr_end (in_counters inp) s else (s, [])) of
                    (s, c2) \<Rightarrow>
                      let s = s\<lparr>mWasSceneTrans := False\<rparr>;
                          w = w\<lparr>mw_manager := s\<rparr>;
                          cs = map Counter (c1 @ c2)
                      in if base_active s
                         then rbind (mode_update inp w) (\<lambda>(w, es). Inr (w, cs @ es))
                         else Inr (w, cs)))"

text \<open>
  \<open>initScene\<close> for the mode number in the scene's information. The factory makes an object of the
  class the name stands for; a mode without a name is looked up with a null name.
\<close>

definition create_mode :: "GameMode \<Rightarrow> mode_obj res" where
  "create_mode m =
     (case getModeString m of
        None \<Rightarrow> Inl NullDeref
      | Some name \<Rightarrow> Inr (if name = ''HideAndSeek'' then Hns_mode hns_new else Ctf_mode ctf_new))"

definition init_mode :: "GameMode \<Rightarrow> mode_manager \<Rightarrow> mode_manager res" where
  "init_mode infoMode s =
     (case mCurModeBase s of
        None \<Rightarrow> Inr s
      | Some (Hns_mode h) \<Rightarrow>
          rbind (hns_init infoMode (mModeInfo s) h) (\<lambda>(i, h).
             Inr (s\<lparr>mCurModeBase := Some (Hns_mode h), mModeInfo := Some (Hns_info i)\<rparr>))
      | Some (Ctf_mode c) \<Rightarrow>
          rbind (ctf_init infoMode (mModeInfo s) c) (\<lambda>(i, c).
             Inr (s\<lparr>mCurModeBase := Some (Ctf_mode c), mModeInfo := Some (Ctf_info i)\<rparr>)))"

definition initScene :: "GameMode \<Rightarrow> mode_manager \<Rightarrow> mode_manager res" where
  "initScene infoMode s =
     (let s = (if mCurModeBase s \<noteq> None \<and> mWasSetMode s then s\<lparr>mCurModeBase := None\<rparr> else s)
      in if mCurMode s = NONE then Inr (s\<lparr>mCurModeBase := None, mModeInfo := None\<rparr>)
         else rbind (if mWasSetMode s
                     then rbind (create_mode (mCurMode s))
                            (\<lambda>m. Inr (s\<lparr>mCurModeBase := Some m, mWasSetMode := False\<rparr>))
                     else Inr s)
                (\<lambda>s. rbind (init_mode infoMode s)
                  (\<lambda>s. Inr (if base_active s then s\<lparr>mWasSceneTrans := True\<rparr> else s))))"

text \<open>The stage hook of \<open>main.cpp\<close> calls \<open>initScene\<close> only while a mode is chosen.\<close>

definition stage_init :: "mode_manager \<Rightarrow> mode_manager res" where
  "stage_init s = (if mCurMode s \<noteq> NONE then initScene (mCurMode s) s else Inr s)"

section \<open>What an update keeps\<close>

text \<open>
  Neither mode changes its own active flag in an update, and no part of an update reads an object of
  the other class.
\<close>

definition class_ok :: "fault \<Rightarrow> bool" where
  "class_ok e \<longleftrightarrow> e \<noteq> WrongClass"

lemma class_ok_simps [simp]:
  "class_ok NullDeref" "class_ok OutOfBounds" "\<not> class_ok WrongClass"
  by (simp_all add: class_ok_def)

lemma res_spec_seq_eq:
  assumes "res_spec E (\<lambda>x. f x = a) r" and "\<And>x. res_spec E (\<lambda>y. g y = f x) (h x)"
  shows "res_spec E (\<lambda>y. g y = a) (rbind r h)"
  using assms by (cases r) (simp, metis rbind_Inr res_spec_Inr)

lemma getPuppetInfo_class: "res_spec class_ok (\<lambda>_. True) (getPuppetInfo k tab)"
  by (simp add: getPuppetInfo_def)

lemma findPuppetInfo_loop_class:
  "res_spec class_ok (\<lambda>_. True) (findPuppetInfo_loop who av n i ps first)"
  by (induction who av n i ps first rule: findPuppetInfo_loop.induct) simp_all

lemma findPuppetInfo_class: "res_spec class_ok (\<lambda>_. True) (findPuppetInfo who av tab)"
  by (simp add: findPuppetInfo_def findPuppetInfo_loop_class)

definition hns_keeps :: "bool \<Rightarrow> ((HideAndSeekInfo \<times> hns_mode) \<times> hns_effect list) res \<Rightarrow> bool" where
  "hns_keeps a = res_spec class_ok (\<lambda>t. hm_mIsActive (snd (fst t)) = a)"

lemma check_puppet_active: "hm_mIsActive (snd (fst (check_puppet fr k p s))) = hm_mIsActive (snd s)"
  unfolding check_puppet_tagged by (cases s) (simp add: tagged_def)

lemma check_puppets_keeps: "hns_keeps (hm_mIsActive (snd s)) (check_puppets fr n k tab s)"
proof (induction n arbitrary: k s)
  case 0
  then show ?case by (simp add: hns_keeps_def)
next
  case (Suc n)
  have "res_spec class_ok (\<lambda>t. hm_mIsActive (snd (fst t)) = hm_mIsActive (snd s))
      (case check_puppet fr k p s of (s, es) \<Rightarrow>
         rbind (check_puppets fr n (k + 1) tab s) (\<lambda>(s, es'). Inr (s, es @ es')))" for p
    using check_puppet_active [of fr k p s] Suc.IH [of "fst (check_puppet fr k p s)" "k + 1"]
    by (cases "check_puppet fr k p s") (auto simp: hns_keeps_def intro!: res_spec_seq)
  then show ?case
    unfolding hns_keeps_def check_puppets.simps by (rule res_spec_seq [OF getPuppetInfo_class])
qed

lemma hiding_keeps: "hns_keeps (hm_mIsActive m) (hiding puppets fr tab (i, m))"
  using check_puppets_keeps [of "(i, m)" fr puppets 0 tab]
  by (auto simp: hiding_def hns_keeps_def intro!: res_spec_seq)

lemma first_frame_active: "hm_mIsActive (fst (first_frame i m)) = hm_mIsActive m"
  by (simp add: first_frame_def)

lemma toggle_it_active: "hm_mIsActive (snd (fst (toggle_it fr i m))) = hm_mIsActive m"
  by (simp add: toggle_it_def Let_def)

definition rest_of_update ::
  "hns_frame \<Rightarrow> hns_effect list \<Rightarrow> (HideAndSeekInfo \<times> hns_mode) \<times> hns_effect list \<Rightarrow>
   ((HideAndSeekInfo \<times> hns_mode) \<times> hns_effect list) res" where
  "rest_of_update fr e1 x =
     (case x of ((i, m), e2) \<Rightarrow>
        case gravity fr i m of (i, e3) \<Rightarrow>
          (case toggle_it fr i m of ((i, m), e4) \<Rightarrow>
             Inr ((i\<lparr>mHidingTime := mTime (mModeTimer m)\<rparr>, m), e1 @ e2 @ e3 @ e4)))"

lemma hns_update_rest:
  "hns_update puppets fr tab (i, m) =
     (if fr_player fr = NoPlayer then Inl NullDeref
      else rbind (hiding puppets fr tab (i, fst (first_frame i m)))
             (rest_of_update fr (snd (first_frame i m))))"
  unfolding hns_update_def rest_of_update_def case_prod_beta fst_conv snd_conv by (rule refl)

lemma rest_of_update_keeps: "hns_keeps (hm_mIsActive (snd (fst x))) (rest_of_update fr e1 x)"
proof -
  obtain i m e2 where x: "x = ((i, m), e2)" by (metis prod.exhaust)
  obtain j e3 where g: "gravity fr i m = (j, e3)" by fastforce
  obtain k n e4 where t: "toggle_it fr j m = ((k, n), e4)" by (metis prod.exhaust)
  show ?thesis using toggle_it_active [of fr j m] by (simp add: rest_of_update_def hns_keeps_def x g t)
qed

lemma hns_update_keeps: "hns_keeps (hm_mIsActive m) (hns_update puppets fr tab (i, m))"
proof -
  have "hns_keeps (hm_mIsActive m) (rbind (hiding puppets fr tab (i, fst (first_frame i m)))
      (rest_of_update fr e1))" for e1
    using hiding_keeps [of "fst (first_frame i m)" puppets fr tab i] rest_of_update_keeps [of _ fr e1]
    unfolding hns_keeps_def first_frame_active by (rule res_spec_seq_eq)
  then show ?thesis by (simp add: hns_update_rest) (simp add: hns_keeps_def)
qed

definition ctf_keeps :: "bool \<Rightarrow> ctf_world res \<Rightarrow> bool" where
  "ctf_keeps a = res_spec class_ok (\<lambda>v. cm_mIsActive (cw_mode v) = a)"

definition ctf_keeps_out :: "bool \<Rightarrow> (ctf_world \<times> ctf_effect list) res \<Rightarrow> bool" where
  "ctf_keeps_out a = res_spec class_ok (\<lambda>t. cm_mIsActive (cw_mode (fst t)) = a)"

lemmas ctf_keeps_defs = ctf_keeps_def ctf_keeps_out_def

lemma getFlagActorForTeam_class: "res_spec class_ok (\<lambda>_. True) (getFlagActorForTeam t w)"
  by (simp add: getFlagActorForTeam_def)

lemma getPlayerTransform_class:
  "res_spec class_ok (\<lambda>_. True) (getPlayerTransformInSameStage fr m tab u)"
  unfolding getPlayerTransformInSameStage_def
  by (auto simp: Let_def split: option.split intro!: res_spec_seq [OF findPuppetInfo_class])

lemma updateBorderPosition_keeps: "ctf_keeps (cm_mIsActive (cw_mode w)) (updateBorderPosition fr w)"
  by (simp add: updateBorderPosition_def ctf_keeps_def Let_def split: option.split)

lemma updateFlag_keeps: "ctf_keeps (cm_mIsActive (cw_mode w)) (updateFlag fr tab t w)"
  unfolding updateFlag_def ctf_keeps_def
  by (auto split: option.split intro!: res_spec_seq [OF getFlagActorForTeam_class]
      res_spec_seq [OF getPlayerTransform_class])

lemma updateFlags_keeps: "ctf_keeps (cm_mIsActive (cw_mode w)) (updateFlags fr tab w)"
proof -
  have "ctf_keeps (cm_mIsActive (cw_mode w)) (rbind (updateFlag fr tab RED w) (updateFlag fr tab BLUE))"
    using updateFlag_keeps [of w fr tab RED] updateFlag_keeps [of _ fr tab BLUE]
    unfolding ctf_keeps_def by (rule res_spec_seq_eq)
  then show ?thesis by (simp add: updateFlags_def) (simp add: ctf_keeps_def)
qed

lemma tag_loop_keeps: "ctf_keeps_out (cm_mIsActive (cw_mode w)) (tag_loop fr n k tab w)"
proof (induction n arbitrary: k)
  case 0
  then show ?case by (simp add: ctf_keeps_out_def)
next
  case (Suc n)
  have "ctf_keeps_out (cm_mIsActive (cw_mode w))
      (rbind (tag_loop fr n (k + 1) tab w) (\<lambda>(w, es'). Inr (w, es @ es')))" for es
    unfolding ctf_keeps_out_def
    by (rule res_spec_seq [OF Suc.IH [of "k + 1", unfolded ctf_keeps_out_def]]) (simp add: case_prod_beta)
  then have "ctf_keeps_out (cm_mIsActive (cw_mode w))
      (case (if ctf_touches fr (cw_info w) k p then processPlayerTagged fr w else (w, [])) of
         (w, es) \<Rightarrow> rbind (tag_loop fr n (k + 1) tab w) (\<lambda>(w, es'). Inr (w, es @ es')))" for p
    unfolding processPlayerTagged_eq by (cases "ctf_touches fr (cw_info w) k p") (simp_all only: if_True if_False prod.case)
  then show ?case
    unfolding ctf_keeps_out_def tag_loop.simps by (intro res_spec_seq [OF getPuppetInfo_class])
qed

lemma checkTagged_keeps: "ctf_keeps_out (cm_mIsActive (cw_mode w)) (checkTagged puppets fr tab w)"
  using tag_loop_keeps [of w fr puppets 0 tab] by (simp add: checkTagged_def ctf_keeps_out_def)

lemma pickup_loop_keeps: "ctf_keeps (cm_mIsActive (cw_mode w)) (pickup_loop fr ts w)"
proof (induction ts)
  case Nil
  then show ?case by (simp add: ctf_keeps_def)
next
  case (Cons t ts)
  then show ?case
    by (auto simp: ctf_keeps_def split: option.split intro!: res_spec_seq [OF getFlagActorForTeam_class])
qed

lemma checkPickUp_keeps: "ctf_keeps_out (cm_mIsActive (cw_mode w)) (checkPickUpOrDropFlag fr w)"
proof -
  have pick: "res_spec class_ok (\<lambda>t. cm_mIsActive (cw_mode (fst t)) = cm_mIsActive (cw_mode w))
      (rbind (pickup_loop fr ts w) (\<lambda>w. Inr (w, [])))" for ts
    by (rule res_spec_seq [OF pickup_loop_keeps [unfolded ctf_keeps_def]]) simp
  show ?thesis
    by (simp add: checkPickUpOrDropFlag_def ctf_keeps_out_def dropHeldFlag_def pick del: pickup_loop.simps)
qed

lemma sendFlagHold_keeps: "ctf_keeps_out (cm_mIsActive (cw_mode w)) (sendFlagHoldStateUpdateIfHeld fr w)"
  unfolding sendFlagHoldStateUpdateIfHeld_def ctf_keeps_out_def
  by (auto split: option.split intro!: res_spec_seq [OF getFlagActorForTeam_class])

lemma ctf_play_keeps: "ctf_keeps_out (cm_mIsActive (cw_mode w)) (ctf_play puppets fr tab w)"
proof -
  have last: "ctf_keeps_out (cm_mIsActive (cw_mode v))
      (rbind (sendFlagHoldStateUpdateIfHeld fr v) (\<lambda>(w, e3). Inr (w, e1 @ e2 @ e3 @ checkWin fr w)))" for v e1 e2
    unfolding ctf_keeps_out_def
    by (rule res_spec_seq [OF sendFlagHold_keeps [unfolded ctf_keeps_out_def]]) (simp add: case_prod_beta)
  have pick: "ctf_keeps_out (cm_mIsActive (cw_mode v))
      (rbind (checkPickUpOrDropFlag fr v) (\<lambda>(w, e2).
         rbind (sendFlagHoldStateUpdateIfHeld fr w) (\<lambda>(w, e3). Inr (w, e1 @ e2 @ e3 @ checkWin fr w))))" for v e1
    unfolding ctf_keeps_out_def
    by (rule res_spec_seq_eq [OF checkPickUp_keeps [unfolded ctf_keeps_out_def]])
      (simp add: last [unfolded ctf_keeps_out_def] case_prod_beta del: res_spec_rbind)
  show ?thesis
    unfolding ctf_play_def ctf_keeps_out_def
    by (intro res_spec_seq_eq [OF updateBorderPosition_keeps [unfolded ctf_keeps_def]]
        res_spec_seq_eq [OF updateFlags_keeps [unfolded ctf_keeps_def]]
        res_spec_seq_eq [OF checkTagged_keeps [unfolded ctf_keeps_out_def]])
      (simp add: pick [unfolded ctf_keeps_out_def] split: prod.split)
qed

lemma ctf_first_frame_active: "cm_mIsActive (cw_mode (fst (ctf_first_frame w))) = cm_mIsActive (cw_mode w)"
  by (simp add: ctf_first_frame_def)

lemma ctf_update_keeps: "ctf_keeps_out (cm_mIsActive (cw_mode w)) (ctf_update puppets fr tab w)"
proof -
  let ?w = "w\<lparr>cw_mode := (cw_mode w)
    \<lparr>cm_mModeLayout := showTeam (mPlayerTeam (cw_info w)) (cm_mModeLayout (cw_mode w))\<rparr>\<rparr>"
  obtain v e0 where v: "ctf_first_frame ?w = (v, e0)" by fastforce
  then have a: "cm_mIsActive (cw_mode v) = cm_mIsActive (cw_mode w)"
    using ctf_first_frame_active [of ?w] by simp
  have "res_spec class_ok (\<lambda>t. cm_mIsActive (cw_mode (fst t)) = cm_mIsActive (cw_mode v))
      (rbind (ctf_play puppets fr tab v) (\<lambda>(w, es). Inr (w, e0 @ es)))"
    by (rule res_spec_seq [OF ctf_play_keeps [unfolded ctf_keeps_out_def]]) (simp add: case_prod_beta)
  then show ?thesis
    unfolding ctf_update_def ctf_keeps_out_def Let_def v prod.case
    by (simp add: a del: res_spec_rbind)
qed

section \<open>Classes\<close>

text \<open>
  The object and the information the manager holds are of one class, and it is the class of the chosen
  mode except between choosing another mode and the next stage.
\<close>

definition class_of :: "mode_obj \<Rightarrow> GameMode" where
  "class_of m = (case m of Hns_mode _ \<Rightarrow> HIDEANDSEEK | Ctf_mode _ \<Rightarrow> CAPTURE_THE_FLAG)"

definition mgr_ok :: "mode_manager \<Rightarrow> bool" where
  "mgr_ok s \<longleftrightarrow>
     mCurMode s \<in> {NONE, HIDEANDSEEK, CAPTURE_THE_FLAG} \<and>
     (case map_option class_of (mCurModeBase s) of
        None \<Rightarrow> mModeInfo s = None
      | Some c \<Rightarrow> map_option info_mMode (mModeInfo s) = Some c \<and> (\<not> mWasSetMode s \<longrightarrow> mCurMode s = c))"

lemma modes_differ [simp]: "HIDEANDSEEK \<noteq> CAPTURE_THE_FLAG" "CAPTURE_THE_FLAG \<noteq> HIDEANDSEEK"
  "NONE \<noteq> HIDEANDSEEK" "NONE \<noteq> CAPTURE_THE_FLAG" "HIDEANDSEEK \<noteq> NONE" "CAPTURE_THE_FLAG \<noteq> NONE"
  by (simp_all add: HIDEANDSEEK_def CAPTURE_THE_FLAG_def NONE_def)

lemma mgr_ok_new: "mgr_ok GameModeManager_new"
  by (simp add: mgr_ok_def GameModeManager_new_def setMode_def manager_empty_def)

lemma mgr_ok_ops:
  assumes "mgr_ok s"
  shows "m \<in> {NONE, HIDEANDSEEK, CAPTURE_THE_FLAG} \<Longrightarrow> mgr_ok (setMode m s)"
    and "mgr_ok (toggleActive s)" and "mgr_ok (setActive a s)" and "mgr_ok (setPaused a s)"
  using assms
  by (auto simp: mgr_ok_def setMode_def toggleActive_def setActive_def setPaused_def split: option.splits)

lemma base_cases:
  assumes "mgr_ok s"
  obtains (none) "mCurModeBase s = None"
    | (hns) h i where "mCurModeBase s = Some (Hns_mode h)" "mModeInfo s = Some (Hns_info i)"
    | (ctf) c i where "mCurModeBase s = Some (Ctf_mode c)" "mModeInfo s = Some (Ctf_info i)"
proof (cases "mCurModeBase s")
  case (Some m)
  with assms obtain i where "mModeInfo s = Some i" "info_mMode i = class_of m" by (auto simp: mgr_ok_def)
  with Some show ?thesis
    by (cases m; cases i) (auto simp: class_of_def info_mMode_def intro: hns ctf)
qed (rule none)

lemma mgr_ok_same:
  "mgr_ok s \<Longrightarrow> mCurMode t = mCurMode s \<Longrightarrow> mWasSetMode t = mWasSetMode s \<Longrightarrow>
   map_option class_of (mCurModeBase t) = map_option class_of (mCurModeBase s) \<Longrightarrow>
   map_option info_mMode (mModeInfo t) = map_option info_mMode (mModeInfo s) \<Longrightarrow> mgr_ok t"
  unfolding mgr_ok_def by (auto split: option.splits)

text \<open>What the mode calls leave alone in the manager.\<close>

definition mgr_same :: "mode_manager \<Rightarrow> mode_manager \<Rightarrow> bool" where
  "mgr_same s t \<longleftrightarrow> mActive t = mActive s \<and> mPaused t = mPaused s \<and> mCurMode t = mCurMode s \<and>
     mWasSetMode t = mWasSetMode s \<and>
     map_option class_of (mCurModeBase t) = map_option class_of (mCurModeBase s) \<and>
     map_option info_mMode (mModeInfo t) = map_option info_mMode (mModeInfo s)"

lemma mgr_same_refl [simp]: "mgr_same s s"
  by (simp add: mgr_same_def)

lemma mgr_same_trans: "mgr_same s t \<Longrightarrow> mgr_same t u \<Longrightarrow> mgr_same s u"
  by (simp add: mgr_same_def)

lemma mgr_same_ok: "mgr_same s t \<Longrightarrow> mgr_ok s \<Longrightarrow> mgr_ok t"
  unfolding mgr_same_def by (blast intro: mgr_ok_same)

lemma mgr_same_wants: "mgr_same s t \<Longrightarrow> mgr_wants inp t = mgr_wants inp s"
  by (simp add: mgr_same_def mgr_wants_def)

lemma mgr_same_none: "mgr_same s t \<Longrightarrow> mCurModeBase t = None \<longleftrightarrow> mCurModeBase s = None"
  by (auto simp: mgr_same_def)

lemma mgr_begin_spec:
  assumes "mgr_ok s"
  shows "\<exists>t cs. mgr_begin scene s = Inr (t, cs) \<and> mgr_same s t \<and> (base_active t \<longleftrightarrow> mCurModeBase s \<noteq> None)"
  using assms
proof (cases rule: base_cases)
  case none
  then show ?thesis by (simp add: mgr_begin_def base_active_def)
next
  case (hns h i)
  then show ?thesis
    by (simp add: mgr_begin_def base_active_def hns_info_of_def hns_begin_def Let_def mode_active_def
        mgr_same_def class_of_def)
next
  case (ctf c i)
  then show ?thesis
    by (simp add: mgr_begin_def base_active_def ctf_info_of_def ctf_begin_def mode_active_def
        mgr_same_def class_of_def)
qed

lemma mgr_end_spec: "mgr_same s (fst (mgr_end scene s)) \<and> \<not> base_active (fst (mgr_end scene s))"
  by (simp add: mgr_end_def base_active_def hns_end_def ctf_end_def mode_active_def mgr_same_def
      class_of_def split: option.split mode_obj.split)

lemma mode_update_spec:
  assumes "mgr_ok (mw_manager w)"
  shows "res_spec class_ok (\<lambda>t. mgr_same (mw_manager w) (mw_manager (fst t)) \<and>
    base_active (mw_manager (fst t)) = base_active (mw_manager w)) (mode_update inp w)"
  using assms
proof (cases rule: base_cases)
  case none
  then show ?thesis by (simp add: mode_update_def)
next
  case (hns h i)
  show ?thesis
    using hns hns_update_keeps [of h "in_puppets inp"
      "(in_hns inp)\<lparr>fr_isHideAndSeek := isMode HIDEANDSEEK (mw_manager w)\<rparr>" "in_table inp" i]
    by (auto simp: mode_update_def Let_def hns_info_of_def hns_keeps_def mgr_same_def class_of_def
        info_mMode_def base_active_def mode_active_def intro!: res_spec_seq)
next
  case (ctf c i)
  show ?thesis
    using ctf ctf_update_keeps [of "\<lparr>cw_info = i, cw_mode = c, cw_flags = mw_flags w, cw_border = mw_border w\<rparr>"
      "in_puppets inp" "(in_ctf inp)\<lparr>cf_modeActive := isModeAndActive CAPTURE_THE_FLAG (mw_manager w)\<rparr>"
      "in_table inp"]
    by (auto simp: mode_update_def Let_def ctf_info_of_def ctf_keeps_out_def mgr_same_def class_of_def
        info_mMode_def base_active_def mode_active_def intro!: res_spec_seq)
qed

text \<open>One frame of the manager: the mode runs afterwards exactly if it is wanted.\<close>

lemma mgr_update_spec:
  assumes ok: "mgr_ok (mw_manager w)"
  shows "res_spec class_ok (\<lambda>t. mgr_same (mw_manager w) (mw_manager (fst t)) \<and>
    (mCurModeBase (mw_manager w) \<noteq> None \<longrightarrow>
       base_active (mw_manager (fst t)) = mgr_wants inp (mw_manager w))) (mgr_update inp w)"
proof (cases "mCurModeBase (mw_manager w) = None")
  case True
  then show ?thesis by (simp add: mgr_update_def)
next
  case False
  let ?s = "mw_manager w"
  obtain s1 c1 where b: "(if mgr_wants inp ?s \<and> \<not> base_active ?s \<or> mWasSceneTrans ?s
      then mgr_begin (in_counters inp) ?s else Inr (?s, [])) = Inr (s1, c1)"
    and same1: "mgr_same ?s s1" and act1: "mgr_wants inp ?s \<Longrightarrow> base_active s1"
  proof (cases "mgr_wants inp ?s \<and> \<not> base_active ?s \<or> mWasSceneTrans ?s")
    case True
    with mgr_begin_spec [OF ok, of "in_counters inp"] False that show ?thesis by auto
  next
    case False
    then show ?thesis by (intro that [of ?s "[]"]) auto
  qed
  obtain s2 c2 where e: "(if \<not> mgr_wants inp s1 \<and> base_active s1 then mgr_end (in_counters inp) s1
      else (s1, [])) = (s2, c2)" by (metis prod.exhaust)
  have same2: "mgr_same s1 s2" using e mgr_end_spec [of s1 "in_counters inp"] by (auto split: if_splits)
  have act2: "base_active s2 = mgr_wants inp ?s"
    using e mgr_end_spec [of s1 "in_counters inp"] act1 mgr_same_wants [OF same1, of inp]
    by (auto split: if_splits)
  let ?s3 = "s2\<lparr>mWasSceneTrans := False\<rparr>"
  let ?w3 = "w\<lparr>mw_manager := ?s3\<rparr>"
  have same: "mgr_same ?s ?s3"
    using mgr_same_trans [OF same1 same2] by (simp add: mgr_same_def)
  have act3: "base_active ?s3 = base_active s2" by (simp add: base_active_def)
  have m: "res_spec class_ok (\<lambda>t. mgr_same ?s3 (mw_manager (fst t)) \<and>
      base_active (mw_manager (fst t)) = base_active ?s3) (mode_update inp ?w3)"
    using mode_update_spec [of ?w3 inp] mgr_same_ok [OF same ok] by simp
  have u: "mgr_update inp w = (if base_active ?s3
      then rbind (mode_update inp ?w3) (\<lambda>(w, es). Inr (w, map Counter (c1 @ c2) @ es))
      else Inr (?w3, map Counter (c1 @ c2)))"
    using False unfolding mgr_update_def Let_def b rbind_Inr prod.case e by (simp only: if_False)
  show ?thesis
    unfolding u using m same act2 act3
    by (auto intro!: res_spec_seq dest: mgr_same_trans)
qed

section \<open>Scenes\<close>

lemma create_mode_class:
  assumes "m = HIDEANDSEEK \<or> m = CAPTURE_THE_FLAG"
  shows "\<exists>b. create_mode m = Inr b \<and> class_of b = m"
  using assms by (auto simp: create_mode_def getModeString_def modeTable_def class_of_def
      HIDEANDSEEK_def CAPTURE_THE_FLAG_def)

lemma hns_init_total: "\<exists>i n. hns_init HIDEANDSEEK g h = Inr (i, n)"
  by (auto simp: hns_init_def info_mMode_def split: option.split mode_info.split)

lemma ctf_init_total: "\<exists>i n. ctf_init CAPTURE_THE_FLAG g c = Inr (i, n)"
  by (auto simp: ctf_init_def info_mMode_def split: option.split mode_info.split)

lemma init_mode_spec:
  assumes "mCurModeBase s = Some b" and "class_of b = m"
  shows "\<exists>c i. init_mode m s = Inr (s\<lparr>mCurModeBase := Some c, mModeInfo := Some i\<rparr>) \<and>
    class_of c = m \<and> info_mMode i = m"
proof (cases b)
  case (Hns_mode h)
  obtain i n where "hns_init HIDEANDSEEK (mModeInfo s) h = Inr (i, n)" using hns_init_total by blast
  with Hns_mode assms show ?thesis
    by (intro exI [of _ "Hns_mode n"] exI [of _ "Hns_info i"])
      (auto simp: init_mode_def class_of_def info_mMode_def)
next
  case (Ctf_mode c)
  obtain i n where "ctf_init CAPTURE_THE_FLAG (mModeInfo s) c = Inr (i, n)" using ctf_init_total by blast
  with Ctf_mode assms show ?thesis
    by (intro exI [of _ "Ctf_mode n"] exI [of _ "Ctf_info i"])
      (auto simp: init_mode_def class_of_def info_mMode_def)
qed

lemma stage_init_spec:
  assumes ok: "mgr_ok s"
  shows "\<exists>t. stage_init s = Inr t \<and> mgr_ok t \<and> mCurMode t = mCurMode s \<and>
    (mCurMode s \<noteq> NONE \<longrightarrow> map_option class_of (mCurModeBase t) = (if mWasSetMode s \<or> mCurModeBase s \<noteq> None
       then Some (mCurMode s) else None))"
proof (cases "mCurMode s = NONE")
  case True
  with ok show ?thesis by (simp add: stage_init_def)
next
  case False
  let ?m = "mCurMode s"
  from ok False have m: "?m = HIDEANDSEEK \<or> ?m = CAPTURE_THE_FLAG" by (auto simp: mgr_ok_def)
  show ?thesis
  proof (cases "mWasSetMode s \<or> mCurModeBase s \<noteq> None")
    case True
    have "\<exists>b u. initScene ?m s = rbind (init_mode ?m u)
        (\<lambda>s. Inr (if base_active s then s\<lparr>mWasSceneTrans := True\<rparr> else s)) \<and>
      mCurModeBase u = Some b \<and> class_of b = ?m \<and> mCurMode u = ?m"
    proof (cases "mWasSetMode s")
      case True
      from create_mode_class [OF m] obtain b where b: "create_mode ?m = Inr b" "class_of b = ?m" by blast
      let ?u = "s\<lparr>mCurModeBase := Some b, mWasSetMode := False\<rparr>"
      have "initScene ?m s = rbind (init_mode ?m ?u)
          (\<lambda>s. Inr (if base_active s then s\<lparr>mWasSceneTrans := True\<rparr> else s))"
        using True False b by (simp add: initScene_def Let_def)
      then show ?thesis by (rule exI [of _ b, OF exI [of _ ?u, OF conjI]]) (simp add: b)
    next
      case unset: False
      with \<open>mWasSetMode s \<or> mCurModeBase s \<noteq> None\<close> obtain b where "mCurModeBase s = Some b" by auto
      with unset ok False show ?thesis by (auto simp: initScene_def Let_def mgr_ok_def)
    qed
    then obtain b u where i: "initScene ?m s = rbind (init_mode ?m u)
        (\<lambda>s. Inr (if base_active s then s\<lparr>mWasSceneTrans := True\<rparr> else s))"
      and u: "mCurModeBase u = Some b" "class_of b = ?m" "mCurMode u = ?m" by blast
    from init_mode_spec [OF u(1,2)] obtain c j where
      c: "init_mode ?m u = Inr (u\<lparr>mCurModeBase := Some c, mModeInfo := Some j\<rparr>)" "class_of c = ?m" "info_mMode j = ?m"
      by blast
    show ?thesis
      using False True m unfolding stage_init_def i c(1) rbind_Inr
      by (auto simp: mgr_ok_def u(3) c(2,3))
  next
    case none: False
    with False show ?thesis
      using m ok by (auto simp: stage_init_def initScene_def Let_def init_mode_def base_active_def mgr_ok_def)
  qed
qed

end
