(* ===== verification/Client_Modes.thy ===== *)
theory Client_Modes
  imports Mode_Manager Shine_Sync Socket_Client
begin

text \<open>
  The read thread of the client (\<open>server/Client.cpp\<close>, \<open>readFunc\<close>): which handler a received packet
  reaches, the handlers that work on the game mode (tag, team, game state, flag and win messages), the
  messages sent again when another player connects, and what becomes of the packet itself. The
  handlers that only touch the table of the other players are in \<open>Puppet_Table\<close>.
\<close>

section \<open>State\<close>

record client =
  cl_userID :: uid
  cl_table :: puppet_table
  cl_modes :: mode_world
  cl_shines :: shine_sync
  cl_sceneHolder :: bool
  cl_sock :: sock

definition set_manager :: "mode_manager \<Rightarrow> client \<Rightarrow> client" where
  "set_manager s c = c\<lparr>cl_modes := (cl_modes c)\<lparr>mw_manager := s\<rparr>\<rparr>"

definition set_info :: "mode_info \<Rightarrow> client \<Rightarrow> client" where
  "set_info i c = set_manager ((mw_manager (cl_modes c))\<lparr>mModeInfo := Some i\<rparr>) c"

definition set_flags :: "flag_world \<Rightarrow> client \<Rightarrow> client" where
  "set_flags f c = c\<lparr>cl_modes := (cl_modes c)\<lparr>mw_flags := f\<rparr>\<rparr>"

definition on_table :: "(puppet_table \<Rightarrow> puppet_table res) \<Rightarrow> client \<Rightarrow> client res" where
  "on_table f c = rbind (f (cl_table c)) (\<lambda>t. Inr (c\<lparr>cl_table := t\<rparr>))"

abbreviation manager_of :: "client \<Rightarrow> mode_manager" where
  "manager_of c \<equiv> mw_manager (cl_modes c)"

section \<open>Hide and seek\<close>

text \<open>
  \<open>updateTagInfo\<close>. For the own player the mode object and the information are fetched first and used
  only in the branch of their flag; \<open>TIME\<close> is 0 as a flag, so its branch is never taken.
\<close>

definition updateTagInfo :: "uid \<Rightarrow> TagInf \<Rightarrow> client \<Rightarrow> client res" where
  "updateTagInfo who packet c =
     (if who = cl_userID c \<and> isMode HIDEANDSEEK (manager_of c)
      then rbind (if and (update_type packet) TagUpdate_STATE \<noteq> 0
                  then rbind (hns_of (manager_of c)) (\<lambda>_.
                       rbind (hns_info_of (manager_of c)) (\<lambda>i.
                         Inr (set_info (Hns_info (setPlayerTagState (bool_value (is_it packet)) i)) c)))
                  else Inr c) (\<lambda>c.
             if and (update_type packet) TagUpdate_TIME \<noteq> 0
             then rbind (hns_info_of (manager_of c)) (\<lambda>i.
                    Inr (set_info (Hns_info (i\<lparr>mHidingTime := (mHidingTime i)
                      \<lparr>mSeconds := ti_seconds packet, mMinutes := ti_minutes packet\<rparr>\<rparr>)) c))
             else Inr c)
      else on_table (updateTagInfo_puppet who packet) c)"

section \<open>Capture the flag\<close>

definition updateCTFPlayerTeamAssignment :: "uid \<Rightarrow> PlayerTeamAssignment \<Rightarrow> client \<Rightarrow> client res" where
  "updateCTFPlayerTeamAssignment who packet c =
     (if who \<noteq> cl_userID c then on_table (updateCTFTeam_puppet who packet) c
      else if \<not> isModeAndActive CAPTURE_THE_FLAG (manager_of c) then Inr c
      else rbind (ctf_info_of (manager_of c)) (\<lambda>i.
             let i = i\<lparr>mPlayerTeam := team packet\<rparr>;
                 i = (if bool_value (should_hold_team_flag packet) then i\<lparr>mHeldFlag := team packet\<rparr> else i)
             in Inr (set_info (Ctf_info i) c)))"

definition updateCTFGameState :: "GameState \<Rightarrow> client \<Rightarrow> client res" where
  "updateCTFGameState packet c =
     (if \<not> isModeAndActive CAPTURE_THE_FLAG (manager_of c) then Inr c
      else rbind (if bool_value (reset_game packet)
                  then rbind (ctf_of (manager_of c)) (\<lambda>_.
                       rbind (ctf_info_of (manager_of c)) (\<lambda>i.
                         Inr (set_info (Ctf_info (resetGameInfo i)) c)))
                  else Inr c) (\<lambda>c.
             rbind (ctf_info_of (manager_of c)) (\<lambda>i.
               Inr (set_info (Ctf_info (i\<lparr>mRoundTime := (mRoundTime i)
                      \<lparr>mSeconds := gs_seconds packet, mMinutes := gs_minutes packet\<rparr>\<rparr>)) c))))"

definition updateCTFFlagHoldState :: "uid \<Rightarrow> FlagHoldState \<Rightarrow> client \<Rightarrow> client res" where
  "updateCTFFlagHoldState who packet c =
     (let w = (mw_flags (cl_modes c))\<lparr>latestReceivedFlagTeam := fh_flag_team packet\<rparr>
      in rbind (getFlagActorForTeam (fh_flag_team packet) w) (\<lambda>r.
           case r of
             None \<Rightarrow> Inr (set_flags w c)
           | Some f \<Rightarrow>
               let held = bool_value (is_held packet)
               in Inr (set_flags (setIsHeld held f (setHeldPlayer (if held then who else EmptyId) f w)) c)))"

definition latestReceivedStage_size :: nat where
  "latestReceivedStage_size = 0x40"

definition updateCTFFlagDroppedPosition :: "FlagDroppedPosition \<Rightarrow> client \<Rightarrow> client res" where
  "updateCTFFlagDroppedPosition packet c =
     (if \<not> isModeAndActive CAPTURE_THE_FLAG (manager_of c) then Inr c
      else rbind (ctf_of (manager_of c)) (\<lambda>m.
        if cm_mIsFirstFrame m then Inr c
        else rbind (strcpy latestReceivedStage_size (fd_stage_name packet)) (\<lambda>stage.
          let w = (mw_flags (cl_modes c))
                    \<lparr>latestReceivedFlagTeam := fd_flag_team packet,
                     latestReceivedPosition := vec_of (fd_pos packet), latestReceivedStage := stage\<rparr>
          in rbind (getFlagActorForTeam (fd_flag_team packet) w) (\<lambda>r.
               case r of
                 None \<Rightarrow> Inr (set_flags w c)
               | Some f \<Rightarrow>
                   let f = flag_makeActorAlive f;
                       w = setIsHeld False f (setHeldPlayer EmptyId f w)
                   in Inr (set_flags (setTransform (vec_of (fd_pos packet)) (quat_of (fd_rot packet))
                              (team_index (fd_flag_team packet)) f w) c)))))"

definition updateCTFWinState :: "Win \<Rightarrow> client \<Rightarrow> client res" where
  "updateCTFWinState packet c =
     (if \<not> isModeAndActive CAPTURE_THE_FLAG (manager_of c) then Inr c
      else rbind (ctf_info_of (manager_of c)) (\<lambda>i.
             Inr (set_info (Ctf_info (i\<lparr>mWinningTeam := winning_team packet\<rparr>)) c)))"

definition ctf_step :: "uid \<Rightarrow> CTFPacket \<Rightarrow> client \<Rightarrow> client res" where
  "ctf_step who m c =
     (case m of
        Player_team_assignment p \<Rightarrow> updateCTFPlayerTeamAssignment who p c
      | Game_state p \<Rightarrow> updateCTFGameState p c
      | Flag_hold_state p \<Rightarrow> updateCTFFlagHoldState who p c
      | Flag_dropped_position p \<Rightarrow> updateCTFFlagDroppedPosition p c
      | Ctf_win p \<Rightarrow> updateCTFWinState p c)"

section \<open>The read loop\<close>

text \<open>\<open>sendToStage\<close> asks the game for another stage when a scene is there; the request is an output.\<close>

definition sendToStage :: "ChangeStage \<Rightarrow> client \<Rightarrow> ChangeStage list" where
  "sendToStage packet c = (if cl_sceneHolder c then [packet] else [])"

text \<open>A packet's handler; sending the own packets again after a connect is \<open>resend_to_new\<close>.\<close>

definition system_step :: "uid \<Rightarrow> SystemPacket \<Rightarrow> client \<Rightarrow> (client \<times> ChangeStage list) res" where
  "system_step who m c =
     (case m of
        Tag_inf p \<Rightarrow> rbind (updateTagInfo who p c) (\<lambda>c. Inr (c, []))
      | Shine_collect p \<Rightarrow> Inr (c\<lparr>cl_shines := updateShineInfo p (cl_shines c)\<rparr>, [])
      | Change_stage p \<Rightarrow> Inr (c, sendToStage p c)
      | _ \<Rightarrow> rbind (on_table (puppet_step who m) c) (\<lambda>c. Inr (c, [])))"

definition body_step :: "uid \<Rightarrow> packet_body option \<Rightarrow> client \<Rightarrow> (client \<times> ChangeStage list) res" where
  "body_step who b c =
     (case b of
        Some (System_packet (Some m)) \<Rightarrow> system_step who m c
      | Some (Ctf_packet (Some m)) \<Rightarrow> rbind (ctf_step who m c) (\<lambda>c. Inr (c, []))
      | _ \<Rightarrow> Inr (c, []))"

definition is_connect :: "Packet \<Rightarrow> bool" where
  "is_connect p \<longleftrightarrow> (case body p of Some (System_packet (Some (Player_connect _))) \<Rightarrow> True | _ \<Rightarrow> False)"

text \<open>The game packet gets the own user id if it has another one, and is sent unless it is empty.\<close>

definition own_game_packet :: "sock_cfg \<Rightarrow> sock \<Rightarrow> sock" where
  "own_game_packet cfg s =
     (if packet_uid (members s LastGameInf) \<noteq> my_uid cfg
      then s\<lparr>members := (members s)(LastGameInf := set_user (my_uid cfg) (members s LastGameInf))\<rparr>
      else s)"

definition send_member :: "sock_cfg \<Rightarrow> bool \<Rightarrow> member \<Rightarrow> sock \<Rightarrow> os_event list \<Rightarrow> unit os_result" where
  "send_member cfg wanted m s evs =
     (if wanted then os_bind (sock_send cfg (Member m) s evs) (\<lambda>_ s evs. Some (Inr ((), s, evs)))
      else Some (Inr ((), s, evs)))"

definition resend_to_new :: "sock_cfg \<Rightarrow> sock \<Rightarrow> os_event list \<Rightarrow> unit os_result" where
  "resend_to_new cfg s evs =
     os_bind (if \<not> msg_Equals cfg (members s LastGameInf) Packet_empty
              then send_member cfg True LastGameInf (own_game_packet cfg s) evs
              else Some (Inr ((), s, evs))) (\<lambda>_ s evs.
     os_bind (send_member cfg (packet_uid (members s LastPlayerInf) = my_uid cfg) LastPlayerInf s evs) (\<lambda>_ s evs.
       send_member cfg (packet_uid (members s LastCostumeInf) = my_uid cfg) LastCostumeInf s evs))"

text \<open>
  One round of the loop. Without a connection \<open>tryGetPacket\<close> answers null, which is only logged: the
  next line reads the packet's metadata through it. The packet is freed at the end.
\<close>

definition read_step :: "sock_cfg \<Rightarrow> client \<Rightarrow> os_event list \<Rightarrow> (client \<times> ChangeStage list \<times> os_event list) res option" where
  "read_step cfg c evs =
     (case tryGetPacket (cl_sock c) of
        None \<Rightarrow> None
      | Some (None, s) \<Rightarrow> Some (Inl NullDeref)
      | Some (Some curPacket, s) \<Rightarrow>
          (case packet_at curPacket s of
             Inl e \<Rightarrow> Some (Inl e)
           | Inr p \<Rightarrow>
               (case body_step (packet_uid p) (body p) (c\<lparr>cl_sock := s\<rparr>) of
                  Inl e \<Rightarrow> Some (Inl e)
                | Inr (c, out) \<Rightarrow>
                    (case (if is_connect p then resend_to_new cfg (cl_sock c) evs
                           else Some (Inr ((), cl_sock c, evs))) of
                       None \<Rightarrow> None
                     | Some (Inl e) \<Rightarrow> Some (Inl e)
                     | Some (Inr (_, s, evs)) \<Rightarrow>
                         (case heap_free curPacket s of
                            Inl e \<Rightarrow> Some (Inl e)
                          | Inr s \<Rightarrow> Some (Inr (c\<lparr>cl_sock := s\<rparr>, out, evs)))))))"

section \<open>What the messages keep\<close>

text \<open>A handler may read an object of the wrong class only while a chosen mode waits for its stage.\<close>

definition waiting_class :: "bool \<Rightarrow> fault \<Rightarrow> bool" where
  "waiting_class waiting e \<longleftrightarrow> (e = WrongClass \<longrightarrow> waiting)"

lemma waiting_class_simps [simp]:
  "waiting_class b NullDeref" "waiting_class b OutOfBounds" "waiting_class b BufferOverflow"
  "waiting_class b WrongClass \<longleftrightarrow> b" "waiting_class True e"
  by (simp_all add: waiting_class_def)

definition keeps_manager :: "client \<Rightarrow> client res \<Rightarrow> bool" where
  "keeps_manager c = res_spec (waiting_class (mWasSetMode (manager_of c)))
     (\<lambda>d. mgr_same (manager_of c) (manager_of d))"

lemma findPuppetInfo_waiting: "res_spec (waiting_class b) (\<lambda>_. True) (findPuppetInfo who av tab)"
  using findPuppetInfo_class [of who av tab]
  by (cases "findPuppetInfo who av tab") (auto simp: waiting_class_def class_ok_def)

lemma strcpy_waiting: "res_spec (waiting_class b) (\<lambda>_. True) (strcpy n cs)"
  by (simp add: strcpy_def)

lemma with_info_waiting:
  assumes "\<And>p. res_spec (waiting_class b) (\<lambda>_. True) (f p)"
  shows "res_spec (waiting_class b) (\<lambda>_. True) (with_info who f tab)"
  unfolding with_info_def
  by (auto split: option.split intro!: res_spec_seq [OF findPuppetInfo_waiting] res_spec_seq [OF assms])

lemma puppet_step_waiting: "res_spec (waiting_class b) (\<lambda>_. True) (puppet_step who m tab)"
proof (cases m)
  case (Player_inf p)
  have "res_spec (waiting_class b) (\<lambda>_. True) (set_playerInf p i)" for i
    unfolding set_playerInf_def Let_def
    by (auto intro!: res_spec_seq [where P = "\<lambda>_. True"] strcpy_waiting)
  with Player_inf show ?thesis by (simp add: puppet_step_def updatePlayerInfo_def with_info_waiting)
next
  case (Game_inf p)
  have "res_spec (waiting_class b) (\<lambda>_. True) (set_gameInf p i)" for i
    unfolding set_gameInf_def Let_def
    by (auto intro!: res_spec_seq [where P = "\<lambda>_. True"] strcpy_waiting)
  with Game_inf show ?thesis by (simp add: puppet_step_def updateGameInfo_def with_info_waiting)
next
  case (Hack_cap_inf p)
  have "res_spec (waiting_class b) (\<lambda>_. True) (set_hackCapInf p i)" for i
    unfolding set_hackCapInf_def by (auto intro!: res_spec_seq [OF strcpy_waiting])
  with Hack_cap_inf show ?thesis by (simp add: puppet_step_def updateHackCapInfo_def with_info_waiting)
next
  case (Capture_inf p)
  have "res_spec (waiting_class b) (\<lambda>_. True) (set_captureInf p i)" for i
    unfolding set_captureInf_def Let_def by (auto intro!: res_spec_seq [OF strcpy_waiting])
  with Capture_inf show ?thesis by (simp add: puppet_step_def updateCaptureInfo_def with_info_waiting)
next
  case (Costume_inf p)
  have "res_spec (waiting_class b) (\<lambda>_. True) (set_costumeInf p i)" for i
    unfolding set_costumeInf_def by (auto intro!: res_spec_seq [OF strcpy_waiting])
  with Costume_inf show ?thesis by (simp add: puppet_step_def updateCostumeInfo_def with_info_waiting)
next
  case (Player_connect p)
  then show ?thesis
    unfolding puppet_step_def updatePlayerConnect_def
    by (auto simp: Let_def split: option.split
        intro!: res_spec_seq [OF findPuppetInfo_waiting] res_spec_seq [OF strcpy_waiting])
next
  case Player_dc
  then show ?thesis
    unfolding puppet_step_def disconnectPlayer_def
    by (auto simp: Let_def split: option.split intro!: res_spec_seq [OF findPuppetInfo_waiting])
next
  case (Tag_inf p)
  then show ?thesis by (simp add: puppet_step_def updateTagInfo_puppet_def with_info_waiting set_tagInf_def)
qed (simp_all add: puppet_step_def)

lemma updateCTFTeam_puppet_waiting:
  "res_spec (waiting_class b) (\<lambda>_. True) (updateCTFTeam_puppet who p tab)"
  by (simp add: updateCTFTeam_puppet_def with_info_waiting set_ctfTeam_def)

lemma on_table_keeps:
  assumes "\<And>tab b. res_spec (waiting_class b) (\<lambda>_. True) (f tab)"
  shows "keeps_manager c (on_table f c)"
  unfolding keeps_manager_def on_table_def by (auto intro!: res_spec_seq [OF assms])

lemma hns_reads:
  assumes "mgr_ok s" and "mCurMode s = HIDEANDSEEK"
  shows "res_spec (waiting_class (mWasSetMode s)) (\<lambda>_. True) (hns_of s)"
    and "res_spec (waiting_class (mWasSetMode s)) (\<lambda>i. mModeInfo s = Some (Hns_info i)) (hns_info_of s)"
  using assms(1)
  by (cases rule: base_cases; use assms in \<open>auto simp: hns_of_def hns_info_of_def mgr_ok_def class_of_def
      split: option.splits\<close>)+

lemma ctf_reads:
  assumes "mgr_ok s" and "mCurMode s = CAPTURE_THE_FLAG"
  shows "res_spec (waiting_class (mWasSetMode s)) (\<lambda>_. True) (ctf_of s)"
    and "res_spec (waiting_class (mWasSetMode s)) (\<lambda>i. mModeInfo s = Some (Ctf_info i)) (ctf_info_of s)"
  using assms(1)
  by (cases rule: base_cases; use assms in \<open>auto simp: ctf_of_def ctf_info_of_def mgr_ok_def class_of_def
      split: option.splits\<close>)+

lemma manager_set_info [simp]: "manager_of (set_info i c) = (manager_of c)\<lparr>mModeInfo := Some i\<rparr>"
  by (simp add: set_info_def set_manager_def)

lemma manager_set_flags [simp]: "manager_of (set_flags w c) = manager_of c"
  by (simp add: set_flags_def)

lemma mgr_same_info:
  "mModeInfo s = Some j \<Longrightarrow> info_mMode i = info_mMode j \<Longrightarrow> mgr_same s (s\<lparr>mModeInfo := Some i\<rparr>)"
  by (simp add: mgr_same_def)

lemma info_mMode_simps [simp]:
  "info_mMode (Hns_info i) = HIDEANDSEEK" "info_mMode (Ctf_info j) = CAPTURE_THE_FLAG"
  by (simp_all add: info_mMode_def)

text \<open>A step that rewrites the information after reading it keeps the manager.\<close>

lemma keeps_hns_info:
  assumes "mgr_ok (manager_of c)" and "mCurMode (manager_of c) = HIDEANDSEEK"
  shows "keeps_manager c (rbind (hns_info_of (manager_of c)) (\<lambda>i. Inr (set_info (Hns_info (f i)) c)))"
  unfolding keeps_manager_def
  by (rule res_spec_seq [OF hns_reads(2) [OF assms]]) (simp add: mgr_same_info)

lemma keeps_ctf_info:
  assumes "mgr_ok (manager_of c)" and "mCurMode (manager_of c) = CAPTURE_THE_FLAG"
  shows "keeps_manager c (rbind (ctf_info_of (manager_of c)) (\<lambda>i. Inr (set_info (Ctf_info (f i)) c)))"
  unfolding keeps_manager_def
  by (rule res_spec_seq [OF ctf_reads(2) [OF assms]]) (simp add: mgr_same_info)

lemma keeps_manager_seq:
  assumes "keeps_manager c r" and "\<And>d. mgr_same (manager_of c) (manager_of d) \<Longrightarrow> keeps_manager d (f d)"
  shows "keeps_manager c (rbind r f)"
  unfolding keeps_manager_def
proof (rule res_spec_seq [OF assms(1) [unfolded keeps_manager_def]])
  fix d
  assume d: "mgr_same (manager_of c) (manager_of d)"
  then have w: "mWasSetMode (manager_of d) = mWasSetMode (manager_of c)" by (simp add: mgr_same_def)
  show "res_spec (waiting_class (mWasSetMode (manager_of c))) (\<lambda>e. mgr_same (manager_of c) (manager_of e)) (f d)"
    using assms(2) [OF d] unfolding keeps_manager_def w
    by (rule res_spec_mono) (rule mgr_same_trans [OF d])
qed

lemma keeps_manager_refl [simp]: "keeps_manager c (Inr c)"
  by (simp add: keeps_manager_def)

lemma updateTagInfo_keeps:
  assumes ok: "mgr_ok (manager_of c)"
  shows "keeps_manager c (updateTagInfo who p c)"
proof (cases "who = cl_userID c \<and> isMode HIDEANDSEEK (manager_of c)")
  case True
  then have m: "mCurMode (manager_of c) = HIDEANDSEEK" by (simp add: isMode_def)
  have state: "keeps_manager c (rbind (hns_of (manager_of c)) (\<lambda>_.
      rbind (hns_info_of (manager_of c)) (\<lambda>i. Inr (set_info (Hns_info (f i)) c))))" for f
    unfolding keeps_manager_def
    by (rule res_spec_seq [OF hns_reads(1) [OF ok m]])
      (rule keeps_hns_info [OF ok m, unfolded keeps_manager_def])
  have "keeps_manager d (rbind (hns_info_of (manager_of d)) (\<lambda>i. Inr (set_info (Hns_info (f i)) d)))"
    if "mgr_same (manager_of c) (manager_of d)" for d f
    using keeps_hns_info [of d f] mgr_same_ok [OF that ok] that m by (simp add: mgr_same_def)
  then show ?thesis
    unfolding updateTagInfo_def if_P [OF True]
    by (intro keeps_manager_seq) (simp_all add: state)
next
  case False
  have "res_spec (waiting_class b) (\<lambda>_. True) (updateTagInfo_puppet who p tab)" for b tab
    using puppet_step_waiting [of b who "Tag_inf p" tab] by (simp add: puppet_step_def)
  then show ?thesis unfolding updateTagInfo_def if_not_P [OF False] by (rule on_table_keeps)
qed

lemma updateCTFGameState_keeps:
  assumes ok: "mgr_ok (manager_of c)"
  shows "keeps_manager c (updateCTFGameState p c)"
proof (cases "isModeAndActive CAPTURE_THE_FLAG (manager_of c)")
  case True
  then have m: "mCurMode (manager_of c) = CAPTURE_THE_FLAG" by (simp add: isModeAndActive_def isMode_def)
  have reset: "keeps_manager c (rbind (ctf_of (manager_of c)) (\<lambda>_.
      rbind (ctf_info_of (manager_of c)) (\<lambda>i. Inr (set_info (Ctf_info (f i)) c))))" for f
    unfolding keeps_manager_def
    by (rule res_spec_seq [OF ctf_reads(1) [OF ok m]])
      (rule keeps_ctf_info [OF ok m, unfolded keeps_manager_def])
  have "keeps_manager d (rbind (ctf_info_of (manager_of d)) (\<lambda>i. Inr (set_info (Ctf_info (f i)) d)))"
    if "mgr_same (manager_of c) (manager_of d)" for d f
    using keeps_ctf_info [of d f] mgr_same_ok [OF that ok] that m by (simp add: mgr_same_def)
  with True show ?thesis
    unfolding updateCTFGameState_def
    by (simp only: not_True_eq_False if_False) (intro keeps_manager_seq, simp_all add: reset)
qed (simp add: updateCTFGameState_def)

lemma keeps_flags: "keeps_manager c (Inr (set_flags w c))"
  by (simp add: keeps_manager_def)

lemma getFlagActor_waiting: "res_spec (waiting_class b) (\<lambda>_. True) (getFlagActorForTeam t w)"
  by (simp add: getFlagActorForTeam_def)

lemma updateCTFFlagHoldState_keeps: "keeps_manager c (updateCTFFlagHoldState who p c)"
  unfolding updateCTFFlagHoldState_def Let_def keeps_manager_def
  by (rule res_spec_seq [OF getFlagActor_waiting]) (simp split: option.split)

lemma updateCTFFlagDroppedPosition_keeps:
  assumes ok: "mgr_ok (manager_of c)"
  shows "keeps_manager c (updateCTFFlagDroppedPosition p c)"
proof (cases "isModeAndActive CAPTURE_THE_FLAG (manager_of c)")
  case True
  then have m: "mCurMode (manager_of c) = CAPTURE_THE_FLAG" by (simp add: isModeAndActive_def isMode_def)
  show ?thesis
    using True unfolding updateCTFFlagDroppedPosition_def Let_def keeps_manager_def
    by (auto split: option.split intro!: res_spec_seq [OF ctf_reads(1) [OF ok m]]
        res_spec_seq [OF strcpy_waiting] res_spec_seq [OF getFlagActor_waiting])
qed (simp add: updateCTFFlagDroppedPosition_def)

lemma ctf_step_keeps:
  assumes ok: "mgr_ok (manager_of c)"
  shows "keeps_manager c (ctf_step who m c)"
proof (cases m)
  case (Game_state p)
  then show ?thesis by (simp add: ctf_step_def updateCTFGameState_keeps ok)
next
  case (Player_team_assignment p)
  have "keeps_manager c (updateCTFPlayerTeamAssignment who p c)"
  proof (cases "who = cl_userID c \<and> isModeAndActive CAPTURE_THE_FLAG (manager_of c)")
    case True
    then have "mCurMode (manager_of c) = CAPTURE_THE_FLAG" by (simp add: isModeAndActive_def isMode_def)
    with True keeps_ctf_info [OF ok] show ?thesis
      by (simp add: updateCTFPlayerTeamAssignment_def Let_def)
  next
    case False
    then show ?thesis
      using on_table_keeps [OF updateCTFTeam_puppet_waiting]
      by (auto simp: updateCTFPlayerTeamAssignment_def)
  qed
  with Player_team_assignment show ?thesis by (simp add: ctf_step_def)
next
  case (Ctf_win p)
  then show ?thesis
    using keeps_ctf_info [OF ok]
    by (simp add: ctf_step_def updateCTFWinState_def isModeAndActive_def isMode_def)
next
  case (Flag_hold_state p)
  then show ?thesis by (simp add: ctf_step_def updateCTFFlagHoldState_keeps)
next
  case (Flag_dropped_position p)
  then show ?thesis by (simp add: ctf_step_def updateCTFFlagDroppedPosition_keeps ok)
qed

lemma body_step_keeps:
  assumes ok: "mgr_ok (manager_of c)"
  shows "res_spec (waiting_class (mWasSetMode (manager_of c)))
    (\<lambda>t. mgr_same (manager_of c) (manager_of (fst t))) (body_step who b c)"
proof -
  have out: "res_spec (waiting_class (mWasSetMode (manager_of c)))
    (\<lambda>t. mgr_same (manager_of c) (manager_of (fst t))) (rbind r (\<lambda>c. Inr (c, [])))"
    if "keeps_manager c r" for r
    by (rule res_spec_seq [OF that [unfolded keeps_manager_def]]) simp
  have sys: "res_spec (waiting_class (mWasSetMode (manager_of c)))
    (\<lambda>t. mgr_same (manager_of c) (manager_of (fst t))) (system_step who m c)" for m
    by (cases m) (simp_all add: system_step_def out on_table_keeps [OF puppet_step_waiting]
        updateTagInfo_keeps [OF ok])
  show ?thesis
    unfolding body_step_def
    by (auto split: option.split packet_body.split simp: sys out ctf_step_keeps [OF ok])
qed

section \<open>Flags\<close>

abbreviation flags_of :: "client \<Rightarrow> flag_world" where
  "flags_of c \<equiv> mw_flags (cl_modes c)"

lemma flags_set_flags [simp]: "flags_of (set_flags w c) = w"
  by (simp add: set_flags_def)

definition flag_message :: "bool \<Rightarrow> FlagTeam \<Rightarrow> packet_body option" where
  "flag_message held t = Some (Ctf_packet (Some (hold_message held t)))"

text \<open>What a hold message does to the flags: the flag of the team is held by the sender, or by nobody.\<close>

lemma hold_step:
  assumes ok: "flags_ok (flags_of c)" and t: "valid_team t"
  shows "\<exists>d. body_step who (flag_message held t) c = Inr (d, []) \<and>
    teamFlags (flags_of d) = teamFlags (flags_of c) \<and> flags_ok (flags_of d) \<and>
    (\<forall>f. teamFlags (flags_of c) ! team_index t = Some f \<longrightarrow>
       isHeld f (flags_of d) = held \<and> getHeldPlayer f (flags_of d) = (if held then Some who else None)) \<and>
    (\<forall>k. k \<noteq> team_index t \<longrightarrow> flagInfos (flags_of d) ! k = flagInfos (flags_of c) ! k)"
proof -
  let ?w = "(flags_of c)\<lparr>latestReceivedFlagTeam := t\<rparr>"
  have okw: "flags_ok ?w" using ok by (simp add: flags_ok_def)
  have small: "team_index t < 3" using t by (auto simp: valid_team_def)
  have get: "getFlagActorForTeam t ?w = Inr (teamFlags (flags_of c) ! team_index t)"
    using small flags_ok_lengths [OF ok] by (simp add: getFlagActorForTeam_def)
  have step: "body_step who (flag_message held t) c = rbind (updateCTFFlagHoldState who
      \<lparr>is_held = Some held, fh_flag_team = t\<rparr> c) (\<lambda>c. Inr (c, []))"
    by (simp add: body_step_def flag_message_def hold_message_def ctf_step_def)
  show ?thesis
  proof (cases "teamFlags (flags_of c) ! team_index t")
    case None
    then show ?thesis
      unfolding step updateCTFFlagHoldState_def Let_def using get okw by simp
  next
    case (Some f)
    then have k: "fa_info f = Some (team_index t)" "team_index t < length (flagInfos (flags_of c))"
      using flags_ok_info [OF ok small] small flags_ok_lengths [OF ok] by simp_all
    let ?v = "setIsHeld held f (setHeldPlayer (if held then who else EmptyId) f ?w)"
    have v: "updateCTFFlagHoldState who \<lparr>is_held = Some held, fh_flag_team = t\<rparr> c = Inr (set_flags ?v c)"
      unfolding updateCTFFlagHoldState_def Let_def using get Some by (simp add: bool_value_def)
    have infos: "flagInfos ?v = (flagInfos (flags_of c))[team_index t :=
        (flagInfos (flags_of c) ! team_index t)
          \<lparr>holderUserId := (if held then who else EmptyId), fi_isHeld := held\<rparr>]"
      using k by (simp add: setIsHeld_def setHeldPlayer_def info_update_def)
    have "teamFlags ?v = teamFlags (flags_of c)" "flags_ok ?v"
      using okw by (simp_all add: setIsHeld_def setHeldPlayer_def)
    moreover have "info_of f ?v = Some ((flagInfos (flags_of c) ! team_index t)
        \<lparr>holderUserId := (if held then who else EmptyId), fi_isHeld := held\<rparr>)"
      unfolding info_of_def infos k(1) using k(2) by simp
    then have "isHeld f ?v = held" "getHeldPlayer f ?v = (if held then Some who else None)"
      unfolding isHeld_def getHeldPlayer_def by (cases held; simp)+
    ultimately show ?thesis
      unfolding step v using Some by (auto simp: infos)
  qed
qed

section \<open>Reachable clients\<close>

inductive client_reach :: "client \<Rightarrow> bool" where
  start: "cl_modes c = \<lparr>mw_manager = GameModeManager_new, mw_flags = flag_world_init, mw_border = b\<rparr> \<Longrightarrow>
    client_reach c"
| frame: "client_reach c \<Longrightarrow> mgr_update inp (cl_modes c) = Inr (w, es) \<Longrightarrow> client_reach (c\<lparr>cl_modes := w\<rparr>)"
| message: "client_reach c \<Longrightarrow> body_step who b c = Inr (d, out) \<Longrightarrow> client_reach d"
| choose: "client_reach c \<Longrightarrow> m \<in> {NONE, HIDEANDSEEK, CAPTURE_THE_FLAG} \<Longrightarrow>
    client_reach (set_manager (setMode m (manager_of c)) c)"
| toggle: "client_reach c \<Longrightarrow> client_reach (set_manager (toggleActive (manager_of c)) c)"
| pause: "client_reach c \<Longrightarrow> client_reach (set_manager (setPaused p (manager_of c)) c)"
| stage: "client_reach c \<Longrightarrow> stage_init (manager_of c) = Inr s \<Longrightarrow> client_reach (set_manager s c)"

lemma manager_set_manager [simp]: "manager_of (set_manager s c) = s"
  by (simp add: set_manager_def)

lemma reach_ok: "client_reach c \<Longrightarrow> mgr_ok (manager_of c)"
proof (induction rule: client_reach.induct)
  case (start c b)
  then show ?case by (simp add: mgr_ok_new)
next
  case (frame c inp w es)
  then show ?case
    using mgr_update_spec [of "cl_modes c" inp] by (auto intro: mgr_same_ok)
next
  case (message c who b d out)
  then show ?case using body_step_keeps [of c who b] by (auto intro: mgr_same_ok)
next
  case (stage c s)
  then show ?case using stage_init_spec [of "manager_of c"] by auto
qed (auto simp: mgr_ok_ops)

text \<open>Play without a choice of mode and without a new stage: frames, messages, switching on and off, pauses.\<close>

inductive client_play :: "client \<Rightarrow> client \<Rightarrow> bool" where
  start: "client_play c c"
| frame: "client_play c d \<Longrightarrow> mgr_update inp (cl_modes d) = Inr (w, es) \<Longrightarrow> client_play c (d\<lparr>cl_modes := w\<rparr>)"
| message: "client_play c d \<Longrightarrow> body_step who b d = Inr (e, out) \<Longrightarrow> client_play c e"
| toggle: "client_play c d \<Longrightarrow> client_play c (set_manager (toggleActive (manager_of d)) d)"
| pause: "client_play c d \<Longrightarrow> client_play c (set_manager (setPaused p (manager_of d)) d)"

definition same_classes :: "mode_manager \<Rightarrow> mode_manager \<Rightarrow> bool" where
  "same_classes s t \<longleftrightarrow> mCurMode t = mCurMode s \<and> mWasSetMode t = mWasSetMode s \<and>
     map_option class_of (mCurModeBase t) = map_option class_of (mCurModeBase s)"

lemma same_classes_mgr: "same_classes r s \<Longrightarrow> mgr_same s t \<Longrightarrow> same_classes r t"
  by (simp add: same_classes_def mgr_same_def)

lemma same_classes_ops [simp]:
  "same_classes r (toggleActive s) = same_classes r s" "same_classes r (setPaused p s) = same_classes r s"
  by (simp_all add: same_classes_def toggleActive_def setPaused_def)

lemma play_classes:
  "client_play c d \<Longrightarrow> mgr_ok (manager_of c) \<Longrightarrow> mgr_ok (manager_of d) \<and> same_classes (manager_of c) (manager_of d)"
proof (induction rule: client_play.induct)
  case (start c)
  then show ?case by (simp add: same_classes_def)
next
  case (frame c d inp w es)
  then show ?case
    using mgr_update_spec [of "cl_modes d" inp] by (auto intro: mgr_same_ok same_classes_mgr)
next
  case (message c d who b e out)
  then show ?case using body_step_keeps [of d who b] by (auto intro: mgr_same_ok same_classes_mgr)
qed (auto simp: mgr_ok_ops)

text \<open>A tag message about the own player, when the mode is hide and seek.\<close>

lemma own_tag_step:
  assumes "isMode HIDEANDSEEK (manager_of d)" and "and (update_type p) TagUpdate_STATE \<noteq> 0"
  shows "body_step (cl_userID d) (Some (System_packet (Some (Tag_inf p)))) d =
    rbind (hns_of (manager_of d)) (\<lambda>_. rbind (hns_info_of (manager_of d)) (\<lambda>i.
      Inr (set_info (Hns_info (setPlayerTagState (bool_value (is_it p)) i)) d, [])))"
  using assms
  by (simp add: body_step_def system_step_def updateTagInfo_def TagUpdate_TIME_def rbind_def split: sum.split)

section \<open>Properties\<close>

text \<open>C7: A client that plays capture the flag chooses hide and seek. From then on, whatever frames, messages,
  switches and pauses follow, a tag message about the own player with the state flag set is applied to
  the object of capture the flag through a pointer of the wrong class. The next stage ends
  this: it starts without a fault, and after it the same message sets the own player's role.\<close>

theorem own_tag_wrong_class:
  assumes "client_reach c" and "mCurModeBase (manager_of c) = Some (Ctf_mode m)"
    and "client_play (set_manager (setMode HIDEANDSEEK (manager_of c)) c) d"
    and "and (update_type p) TagUpdate_STATE \<noteq> 0"
    and "msg = Some (System_packet (Some (Tag_inf p)))"
  shows "body_step (cl_userID d) msg d = Inl WrongClass \<and>
    (\<exists>t e i. stage_init (manager_of d) = Inr t \<and>
       body_step (cl_userID d) msg (set_manager t d) = Inr (e, []) \<and>
       mModeInfo (manager_of e) = Some (Hns_info i) \<and> mIsPlayerIt i = bool_value (is_it p))"
proof -
  let ?s = "setMode HIDEANDSEEK (manager_of c)"
  have "mgr_ok ?s" using mgr_ok_ops(1) [OF reach_ok [OF assms(1)]] by simp
  then have ok: "mgr_ok (manager_of d)" and same: "same_classes ?s (manager_of d)"
    using play_classes [OF assms(3)] by simp_all
  then have mode: "mCurMode (manager_of d) = HIDEANDSEEK" and set: "mWasSetMode (manager_of d)"
    and "map_option class_of (mCurModeBase (manager_of d)) = Some CAPTURE_THE_FLAG"
    using assms(2) by (simp_all add: same_classes_def setMode_def class_of_def)
  then obtain z where z: "mCurModeBase (manager_of d) = Some z" "class_of z = CAPTURE_THE_FLAG" by auto
  then obtain m' where m': "mCurModeBase (manager_of d) = Some (Ctf_mode m')"
    by (cases z) (simp_all add: class_of_def)
  have wrong: "body_step (cl_userID d) msg d = Inl WrongClass"
    unfolding assms(5) using own_tag_step [OF _ assms(4), of d] mode m' by (simp add: isMode_def hns_of_def)
  obtain t where t: "stage_init (manager_of d) = Inr t" "mgr_ok t" "mCurMode t = HIDEANDSEEK"
    "map_option class_of (mCurModeBase t) = Some HIDEANDSEEK"
    using stage_init_spec [OF ok] mode set by auto
  obtain h i where h: "mCurModeBase t = Some (Hns_mode h)" "mModeInfo t = Some (Hns_info i)"
    using t(2) by (cases rule: base_cases) (use t(4) in \<open>auto simp: class_of_def\<close>)
  have "body_step (cl_userID d) msg (set_manager t d) =
      Inr (set_info (Hns_info (setPlayerTagState (bool_value (is_it p)) i)) (set_manager t d), [])"
    unfolding assms(5) using own_tag_step [OF _ assms(4), of "set_manager t d"] t(3) h
    by (simp add: isMode_def hns_of_def hns_info_of_def set_manager_def)
  with wrong t(1) show ?thesis by (simp add: setPlayerTagState_def)
qed

text \<open>C25: After a frame with a mode object the mode runs exactly if it is switched on, a scene is there and
  the game is not paused.\<close>

theorem mode_runs_iff_wanted:
  assumes "client_reach c" and "mCurModeBase (manager_of c) \<noteq> None"
    and "mgr_update inp (cl_modes c) = Inr (w, es)"
  shows "base_active (mw_manager w) \<longleftrightarrow>
    mActive (manager_of c) \<and> in_sceneHeap inp \<and> \<not> mPaused (manager_of c)"
  using mgr_update_spec [OF reach_ok [OF assms(1)], of inp] assms(2,3) by (simp add: mgr_wants_def)

text \<open>A hold message with a team number from the network faults exactly when its low byte is past the
  three teams.\<close>

theorem flag_message_bounds:
  assumes "flags_ok (flags_of c)"
  shows "body_step who (flag_message held t) c = Inl OutOfBounds \<longleftrightarrow> 3 \<le> unat (ucast t :: u8)"
  using flags_ok_lengths [OF assms]
  by (auto simp: body_step_def flag_message_def hold_message_def ctf_step_def updateCTFFlagHoldState_def
      getFlagActorForTeam_def team_index_def Let_def rbind_eq_Inl split: option.split)

text \<open>C31: A hold message makes its sender the holder of the flag, and nobody picks that flag up in its own
  frame afterwards; a message that it is not held frees it. The other flags keep their holders.\<close>

theorem one_carrier:
  assumes "flags_ok (flags_of c)" and "t = RED \<or> t = BLUE"
    and "teamFlags (flags_of c) ! team_index t = Some f"
  shows "\<exists>d. body_step who (flag_message held t) c = Inr (d, []) \<and>
    getHeldPlayer f (flags_of d) = (if held then Some who else None) \<and>
    (\<forall>k. k \<noteq> team_index t \<longrightarrow> flagInfos (flags_of d) ! k = flagInfos (flags_of c) ! k) \<and>
    (\<forall>puppets fr tab w. held \<and> cw_flags w = flags_of d \<and> ctf_frame_ok puppets fr tab w \<and>
       mHeldFlag (cw_info w) \<noteq> t \<longrightarrow>
       (\<exists>v es. ctf_update puppets fr tab w = Inr (v, es) \<and> mHeldFlag (cw_info v) \<noteq> t))"
proof -
  have t: "valid_team t" "t \<noteq> INVALID" using assms(2) by (auto simp: valid_team_def)
  obtain d where d: "body_step who (flag_message held t) c = Inr (d, [])"
    "teamFlags (flags_of d) = teamFlags (flags_of c)" "isHeld f (flags_of d) = held"
    "getHeldPlayer f (flags_of d) = (if held then Some who else None)"
    "\<forall>k. k \<noteq> team_index t \<longrightarrow> flagInfos (flags_of d) ! k = flagInfos (flags_of c) ! k"
    using hold_step [OF assms(1) t(1), of who held] assms(3) by blast
  have "\<exists>v es. ctf_update puppets fr tab w = Inr (v, es) \<and> mHeldFlag (cw_info v) \<noteq> t"
    if "held" "cw_flags w = flags_of d" "ctf_frame_ok puppets fr tab w" "mHeldFlag (cw_info w) \<noteq> t"
    for puppets fr tab w
  proof (cases "cf_player fr = Hakoniwa")
    case True
    have "\<not> can_pick_up fr (ctf_ready w) t"
      using that d assms(3) by (simp add: can_pick_up_def)
    then have "held_after fr (ctf_ready w) \<noteq> t"
      using that(4) t(2) can_pick_up_valid [of fr "ctf_ready w" t]
      by (auto simp: held_after_def Let_def split: option.split simp del: find.simps)
    with ctf_update_ok [OF that(3) True] show ?thesis by fastforce
  next
    case False
    then show ?thesis
      using ctf_update_eq [of w puppets fr tab] that(3,4) by (auto simp: ctf_frame_ok_def)
  qed
  with d show ?thesis by blast
qed

text \<open>C14: The read thread does not survive a broken connection: the null packet is read. While connected, a
  round that ends has handled the first received packet, and that packet's memory is freed.\<close>

theorem read_step_rounds:
  "(\<not> isConnected_sock (cl_sock c) \<longrightarrow> read_step cfg c evs = Some (Inl NullDeref)) \<and>
   (\<forall>d out rest. read_step cfg c evs = Some (Inr (d, out, rest)) \<longrightarrow>
      (\<exists>k p. mRecvQueue (cl_sock c) = Heap k # tl (mRecvQueue (cl_sock c)) \<and>
         heap (cl_sock c) k = Some p \<and> heap (cl_sock d) k = None \<and>
         (\<exists>e. body_step (packet_uid p) (body p)
            (c\<lparr>cl_sock := (cl_sock c)\<lparr>mRecvQueue := tl (mRecvQueue (cl_sock c))\<rparr>\<rparr>) = Inr (e, out) \<and>
            cl_table d = cl_table e \<and> cl_modes d = cl_modes e \<and> cl_shines d = cl_shines e)))"
proof -
  have "\<exists>k p. mRecvQueue (cl_sock c) = Heap k # tl (mRecvQueue (cl_sock c)) \<and>
      heap (cl_sock c) k = Some p \<and> heap (cl_sock d) k = None \<and>
      (\<exists>e. body_step (packet_uid p) (body p)
         (c\<lparr>cl_sock := (cl_sock c)\<lparr>mRecvQueue := tl (mRecvQueue (cl_sock c))\<rparr>\<rparr>) = Inr (e, out) \<and>
         cl_table d = cl_table e \<and> cl_modes d = cl_modes e \<and> cl_shines d = cl_shines e)"
    if r: "read_step cfg c evs = Some (Inr (d, out, rest))" for d out rest
  proof -
    from r obtain a q where q: "mRecvQueue (cl_sock c) = a # q"
      by (auto simp: read_step_def tryGetPacket_def split: if_splits list.splits)
    let ?s = "(cl_sock c)\<lparr>mRecvQueue := q\<rparr>"
    from r q obtain p where p: "packet_at a ?s = Inr p"
      by (auto simp: read_step_def tryGetPacket_def split: if_splits sum.splits)
    from r q p obtain e o' where b: "body_step (packet_uid p) (body p) (c\<lparr>cl_sock := ?s\<rparr>) = Inr (e, o')"
      by (auto simp: read_step_def tryGetPacket_def split: if_splits sum.splits)
    from r q p b obtain u rest' t where
      f: "heap_free a u = Inr t" and d: "d = e\<lparr>cl_sock := t\<rparr>" and o: "out = o'"
      by (auto simp: read_step_def tryGetPacket_def split: if_splits sum.splits option.splits prod.splits)
    from f obtain k where k: "a = Heap k" "heap t k = None"
      by (cases a) (auto simp: heap_free_def split: option.splits)
    with p have "heap (cl_sock c) k = Some p" by (simp add: packet_at_def split: option.splits)
    with k q b d o show ?thesis by auto
  qed
  moreover have "\<not> isConnected_sock (cl_sock c) \<Longrightarrow> read_step cfg c evs = Some (Inl NullDeref)"
    by (simp add: read_step_def tryGetPacket_def)
  ultimately show ?thesis by blast
qed

section \<open>Witnesses\<close>

definition client0 :: client where
  "client0 =
     \<lparr>cl_userID = EmptyId, cl_table = puppet_table_init,
      cl_modes = \<lparr>mw_manager = GameModeManager_new, mw_flags = flag_world_init, mw_border = None\<rparr>,
      cl_shines = shine_sync_init, cl_sceneHolder = True,
      cl_sock = \<lparr>socket_log_state = SOCKET_LOG_UNINITIALIZED, socket_errno = 0, socket_log_socket = 0,
        mIsFirstConnect = True, mSendQueue = [], mRecvQueue = [], heap = (\<lambda>_. None), next_addr = 0,
        members = (\<lambda>_. Packet_empty), threads_idle = True, wire = []\<rparr>\<rparr>"

text \<open>The first stage, in capture the flag, and the choice of hide and seek after it.\<close>

definition staged_manager :: mode_manager where
  "staged_manager = projr (stage_init GameModeManager_new)"

definition client_staged :: client where
  "client_staged = set_manager staged_manager client0"

definition client_chosen :: client where
  "client_chosen = set_manager (setMode HIDEANDSEEK staged_manager) client_staged"

lemma staged_mode: "stage_init GameModeManager_new = Inr staged_manager"
  "mCurModeBase staged_manager = Some (Ctf_mode (ctf_new\<lparr>cm_mMode := CAPTURE_THE_FLAG\<rparr>))"
proof -
  have n: "getModeString CAPTURE_THE_FLAG = Some ''CaptureTheFlag''"
    by (simp add: getModeString_def modeTable_def CAPTURE_THE_FLAG_def)
  have "\<exists>s. stage_init GameModeManager_new = Inr s \<and>
      mCurModeBase s = Some (Ctf_mode (ctf_new\<lparr>cm_mMode := CAPTURE_THE_FLAG\<rparr>))"
    by (simp add: stage_init_def GameModeManager_new_def setMode_def manager_empty_def initScene_def
        create_mode_def n init_mode_def ctf_init_def base_active_def mode_active_def ctf_new_def
        showTeam_def icon_new_def Let_def)
  then show "stage_init GameModeManager_new = Inr staged_manager"
    "mCurModeBase staged_manager = Some (Ctf_mode (ctf_new\<lparr>cm_mMode := CAPTURE_THE_FLAG\<rparr>))"
    by (auto simp: staged_manager_def)
qed

lemma client0_reach: "client_reach client0"
  by (rule client_reach.start [of _ None]) (simp add: client0_def)

lemma client_staged_reach: "client_reach client_staged"
proof -
  have "stage_init (manager_of client0) = Inr staged_manager"
    using staged_mode(1) by (simp add: client0_def)
  from client_reach.stage [OF client0_reach this] show ?thesis by (simp add: client_staged_def)
qed

lemma client_chosen_reach: "client_reach client_chosen"
  using client_reach.choose [OF client_staged_reach, of HIDEANDSEEK]
  by (simp add: client_chosen_def client_staged_def)

theorem own_tag_wrong_class_witness:
  "body_step (cl_userID client_chosen) (Some (System_packet (Some (Tag_inf (tag_message HideAndSeekInfo_new)))))
     client_chosen = Inl WrongClass"
proof -
  have "mCurModeBase (manager_of client_staged) = Some (Ctf_mode (ctf_new\<lparr>cm_mMode := CAPTURE_THE_FLAG\<rparr>))"
    using staged_mode(2) by (simp add: client_staged_def)
  moreover have "client_play (set_manager (setMode HIDEANDSEEK (manager_of client_staged)) client_staged) client_chosen"
    using client_play.start [of client_chosen] by (simp add: client_chosen_def client_staged_def set_manager_def)
  moreover have "and (update_type (tag_message HideAndSeekInfo_new)) TagUpdate_STATE \<noteq> 0"
    by (simp add: tag_message_def TagUpdate_STATE_def TagUpdate_TIME_def)
  ultimately show ?thesis using own_tag_wrong_class [OF client_staged_reach _ _ _ refl] by blast
qed

definition idle_inputs :: mode_inputs where
  "idle_inputs =
     \<lparr>in_sceneHeap = False,
      in_counters = \<lparr>coinCounter_alive = True, coinCollect_alive = True, compass_alive = True,
        playGuide_alive = True\<rparr>,
      in_hns = frame0, in_ctf = ctf_frame0, in_puppets = 0, in_table = puppet_table_init\<rparr>"

theorem mode_runs_iff_wanted_witness:
  "\<exists>w es. mgr_update idle_inputs (cl_modes client_staged) = Inr (w, es) \<and> \<not> base_active (mw_manager w)"
proof -
  have m: "mCurModeBase (manager_of client_staged) = Some (Ctf_mode (ctf_new\<lparr>cm_mMode := CAPTURE_THE_FLAG\<rparr>))"
    using staged_mode(2) by (simp add: client_staged_def)
  have "\<not> mWasSceneTrans (manager_of client_staged)"
    by (simp add: client_staged_def staged_manager_def stage_init_def GameModeManager_new_def setMode_def
        manager_empty_def initScene_def create_mode_def getModeString_def modeTable_def
        CAPTURE_THE_FLAG_def NONE_def init_mode_def ctf_init_def base_active_def mode_active_def ctf_new_def)
  then have "\<exists>w es. mgr_update idle_inputs (cl_modes client_staged) = Inr (w, es)"
    using m by (simp add: mgr_update_def mgr_wants_def idle_inputs_def base_active_def mode_active_def
        ctf_new_def Let_def)
  then obtain w es where u: "mgr_update idle_inputs (cl_modes client_staged) = Inr (w, es)" by blast
  then show ?thesis
    using mode_runs_iff_wanted [OF client_staged_reach _ u] m by (simp add: idle_inputs_def)
qed

definition client_flags :: client where
  "client_flags = set_flags (cw_flags ctf_world0) client0"

lemma client_flags_ok: "flags_ok (flags_of client_flags)"
  using ctf_world0_ok by (simp add: client_flags_def ctf_ok_def)

theorem flag_message_bounds_witness:
  "body_step EmptyId (flag_message True 3) client_flags = Inl OutOfBounds"
  using flag_message_bounds [OF client_flags_ok, of EmptyId True 3] by simp

theorem one_carrier_witness:
  "\<exists>f d. body_step ''A'' (flag_message True RED) client_flags = Inr (d, []) \<and>
     getHeldPlayer f (flags_of d) = Some ''A''"
proof -
  have "teamFlags (flags_of client_flags) ! team_index RED =
      Some (fresh_flag\<lparr>fa_info := Some 1, fa_anim := ''After''\<rparr>)"
    by (simp add: client_flags_def ctf_world0_def setTeam_def flag_set_def info_update_def
        flag_world_init_def team_count_def Let_def)
  from one_carrier [OF client_flags_ok _ this, of "''A''" True] show ?thesis by auto
qed

definition cfg0 :: sock_cfg where
  "cfg0 = \<lparr>to_json = (\<lambda>_. []), from_json = (\<lambda>_. Packet_empty), msg_Equals = (\<lambda>p q. p = q),
           my_uid = EmptyId, my_name = []\<rparr>"

theorem read_step_rounds_witness:
  "read_step cfg0 client0 [] = Some (Inl NullDeref)"
  using read_step_rounds [of client0 cfg0 "[]"] by (simp add: client0_def isConnected_sock_def)

end
