(* ===== verification/Client_Send.thy ===== *)
theory Client_Send
  imports Client_Modes Helpers
begin

text \<open>
  What the client sends (\<open>server/Client.cpp\<close>, the \<open>send...Packet\<close> functions), the frame counters that
  decide when (\<open>main.cpp\<close>, \<open>updatePlayerInfo\<close>), and starting and restarting the connection. What the
  functions read from the player and the game are their inputs. A null client instance or player is
  the caller's case; the sockets, the queues and the packets are those of \<open>Socket_Client\<close>.
\<close>

section \<open>State\<close>

record sender =
  sn_userID :: uid
  isClientCaptured :: bool
  isSentCaptureInf :: bool
  isSentHackInf :: bool
  lastCollectedShine :: s32
  sn_sock :: sock

definition sender_new :: "uid \<Rightarrow> sock \<Rightarrow> sender" where
  "sender_new u s =
     \<lparr>sn_userID = u, isClientCaptured = False, isSentCaptureInf = False, isSentHackInf = False,
      lastCollectedShine = -1, sn_sock = s\<rparr>"

text \<open>What a packet of the client is built from: a new packet on the heap that the socket takes over.\<close>

definition queue_new :: "Packet \<Rightarrow> sock \<Rightarrow> sock res" where
  "queue_new p s = (case heap_new p s of (a, s) \<Rightarrow> rbind (queuePacket a s) (\<lambda>(_, s). Inr s))"

definition on_sock :: "(sock \<Rightarrow> sock res) \<Rightarrow> sender \<Rightarrow> sender res" where
  "on_sock f c = rbind (f (sn_sock c)) (\<lambda>s. Inr (c\<lparr>sn_sock := s\<rparr>))"

definition send_system :: "SystemPacket \<Rightarrow> sender \<Rightarrow> sender res" where
  "send_system m c = on_sock (queue_new (system_packet_of (sn_userID c) m)) c"

text \<open>
  The functions that keep the last packet they sent: the new packet is compared first, and freed when
  it is not wanted.
\<close>

definition send_kept :: "member \<Rightarrow> (Packet \<Rightarrow> bool) \<Rightarrow> SystemPacket \<Rightarrow> sender \<Rightarrow> sender res" where
  "send_kept which wanted m c =
     (let p = system_packet_of (sn_userID c) m
      in on_sock (\<lambda>s.
           case heap_new p s of (a, s) \<Rightarrow>
             if wanted p
             then rbind (queuePacket a (s\<lparr>members := (members s)(which := p)\<rparr>)) (\<lambda>(_, s). Inr s)
             else heap_free a s) c)"

section \<open>Sending\<close>

record player_view =
  pl_trans :: Vector3f
  pl_rot :: Quatf
  pl_blendWeight :: "nat \<Rightarrow> f32"
  pl_hackName :: "string option"
  pl_hackAction :: "string option"
  pl_action :: string
  pl_subAction :: string

definition ANIM_BLEND_WEIGHT_COUNT :: nat where
  "ANIM_BLEND_WEIGHT_COUNT = 6"

text \<open>\<open>packets::convert\<close> of an action number: the \<open>s16\<close> enumeration widened to 32 bits.\<close>

definition convert_anim_to_pb :: "s16 \<Rightarrow> s32" where
  "convert_anim_to_pb t = scast t"

definition playerInf_of :: "bool \<Rightarrow> player_view \<Rightarrow> PlayerInf" where
  "playerInf_of isYukimaru v =
     (let unknown = convert_anim_to_pb anim_Unknown;
          weights = (if isYukimaru then replicate ANIM_BLEND_WEIGHT_COUNT (Fin 0)
                     else map (pl_blendWeight v) [0..<ANIM_BLEND_WEIGHT_COUNT]);
          (act, subAct) =
            (if isYukimaru then (unknown, unknown)
             else (case pl_hackName v of
                     Some _ \<Rightarrow> (case pl_hackAction v of
                                  Some actName \<Rightarrow> (convert_anim_to_pb (anim_FindType actName), unknown)
                                | None \<Rightarrow> (unknown, unknown))
                   | None \<Rightarrow> (convert_anim_to_pb (anim_FindType (pl_action v)),
                              convert_anim_to_pb (anim_FindType (pl_subAction v)))))
      in \<lparr>player_pos = Some (convert_vec_to_pb (pl_trans v)),
          player_rot = Some (convert_quat_to_pb (pl_rot v)),
          anim_blend_weights = weights, act_name = act, sub_act_name = subAct\<rparr>)"

definition sendPlayerInfPacket :: "sock_cfg \<Rightarrow> bool \<Rightarrow> player_view option \<Rightarrow> sender \<Rightarrow> sender res" where
  "sendPlayerInfPacket cfg isYukimaru player c =
     (case player of
        None \<Rightarrow> Inr c
      | Some v \<Rightarrow>
          let c = c\<lparr>isClientCaptured := \<not> isYukimaru \<and> pl_hackName v \<noteq> None\<rparr>
          in send_kept LastPlayerInf (\<lambda>p. \<not> msg_Equals cfg (members (sn_sock c) LastPlayerInf) p)
               (Player_inf (playerInf_of isYukimaru v)) c)"

record cap_view =
  cv_isFlying :: bool
  cv_trans :: Vector3f
  cv_jointRot :: Vector3f
  cv_skew :: f32
  cv_action :: string

definition hackCapInf_of :: "cap_view \<Rightarrow> HackCapInf" where
  "hackCapInf_of h =
     \<lparr>cap_pos = Some (convert_vec_to_pb (cv_trans h)),
      cap_quat = Some \<lparr>pq_x = v_x (cv_jointRot h), pq_y = v_y (cv_jointRot h), pq_z = v_z (cv_jointRot h),
                       pq_w = cv_skew h\<rparr>,
      is_cap_visible = Some (cv_isFlying h), cap_anim = cv_action h\<rparr>"

definition hackCapInf_reset :: HackCapInf where
  "hackCapInf_reset =
     \<lparr>cap_pos = Some (convert_vec_to_pb Vector3f_zero), cap_quat = Some (convert_quat_to_pb Quatf_unit),
      is_cap_visible = Some False, cap_anim = []\<rparr>"

definition sendHackCapInfPacket :: "cap_view \<Rightarrow> sender \<Rightarrow> sender res" where
  "sendHackCapInfPacket h c =
     (if cv_isFlying h
      then rbind (send_system (Hack_cap_inf (hackCapInf_of h)) c) (\<lambda>c. Inr (c\<lparr>isSentHackInf := True\<rparr>))
      else if isSentHackInf c
      then rbind (send_system (Hack_cap_inf hackCapInf_reset) c) (\<lambda>c. Inr (c\<lparr>isSentHackInf := False\<rparr>))
      else Inr c)"

definition gameInf_of :: "bool \<Rightarrow> s32 \<Rightarrow> string \<Rightarrow> GameInf" where
  "gameInf_of twoD scenario stage =
     \<lparr>gi_is_2d = Some twoD, gi_scenario_num = scenario, gi_stage_name = stage\<rparr>"

text \<open>The game packet with a player (its 2D flag, when there is a player), and without.\<close>

definition sendGameInfPacket_player ::
  "sock_cfg \<Rightarrow> bool option \<Rightarrow> s32 \<Rightarrow> string \<Rightarrow> sender \<Rightarrow> sender res" where
  "sendGameInfPacket_player cfg player scenario stage c =
     send_kept LastGameInf
       (\<lambda>p. \<not> msg_Equals cfg p (members (sn_sock c) LastGameInf) \<and> \<not> msg_Equals cfg p Packet_empty)
       (Game_inf (gameInf_of (player = Some True) scenario stage)) c"

definition sendGameInfPacket :: "sock_cfg \<Rightarrow> s32 \<Rightarrow> string \<Rightarrow> sender \<Rightarrow> sender res" where
  "sendGameInfPacket cfg scenario stage c =
     send_kept LastGameInf (\<lambda>p. \<not> msg_Equals cfg p Packet_empty) (Game_inf (gameInf_of False scenario stage)) c"

text \<open>\<open>sendTagInfPacket\<close>: nothing in another mode. The object and the information are read as the casts say.\<close>

definition sendTagInfPacket :: "mode_manager \<Rightarrow> sender \<Rightarrow> sender res" where
  "sendTagInfPacket s c =
     (if \<not> isMode HIDEANDSEEK s then Inr c
      else rbind (hns_of s) (\<lambda>_. rbind (hns_info_of s) (\<lambda>i. send_system (Tag_inf (tag_message i)) c)))"

definition sendCostumeInfPacket :: "string \<Rightarrow> string \<Rightarrow> sender \<Rightarrow> sender res" where
  "sendCostumeInfPacket bodyModel capModel c =
     (if c_str bodyModel = [] \<and> c_str capModel = [] then Inr c
      else send_kept LastCostumeInf (\<lambda>_. True)
             (Costume_inf \<lparr>body_model = c_str bodyModel, cap_model = c_str capModel\<rparr>) c)"

text \<open>The two capture the flag messages are built in the client object itself, and that address is queued.\<close>

definition send_own :: "member \<Rightarrow> CTFPacket \<Rightarrow> sender \<Rightarrow> sender res" where
  "send_own m p c =
     on_sock (\<lambda>s. rbind (queuePacket (Member m)
       (s\<lparr>members := (members s)(m := ctf_packet_of (sn_userID c) p)\<rparr>)) (\<lambda>(_, s). Inr s)) c"

definition sendFlagHoldStatePacket :: "FlagHoldState \<Rightarrow> sender \<Rightarrow> sender res" where
  "sendFlagHoldStatePacket p = send_own LastFlagHoldState (Flag_hold_state p)"

definition sendCTFWinPacket :: "Win \<Rightarrow> sender \<Rightarrow> sender res" where
  "sendCTFWinPacket p = send_own LastCTFWin (Ctf_win p)"

text \<open>A player that is captured has a capture with a name: \<open>hackName\<close> is the name the keeper answers.\<close>

definition sendCaptureInfPacket :: "string option \<Rightarrow> sender \<Rightarrow> sender res" where
  "sendCaptureInfPacket hackName c =
     (if isClientCaptured c \<and> \<not> isSentCaptureInf c
      then (case hackName of
              None \<Rightarrow> Inl NullDeref
            | Some n \<Rightarrow>
                rbind (send_system (Capture_inf \<lparr>hack_name = tryConvertName n\<rparr>) c)
                  (\<lambda>c. Inr (c\<lparr>isSentCaptureInf := True\<rparr>)))
      else if \<not> isClientCaptured c \<and> isSentCaptureInf c
      then rbind (send_system (Capture_inf \<lparr>hack_name = []\<rparr>) c) (\<lambda>c. Inr (c\<lparr>isSentCaptureInf := False\<rparr>))
      else Inr c)"

definition sendShineCollectPacket :: "s32 \<Rightarrow> sender \<Rightarrow> sender res" where
  "sendShineCollectPacket shineID c =
     (case sendShineCollect shineID (lastCollectedShine c) of
        (None, _) \<Rightarrow> Inr c
      | (Some m, v) \<Rightarrow> send_system (Shine_collect m) (c\<lparr>lastCollectedShine := v\<rparr>))"

section \<open>One frame of the player\<close>

record send_timers =
  pInfSendTimer :: s32
  gameInfSendTimer :: s32

record player_frame =
  pf_isYukimaru :: bool
  pf_player :: player_view
  pf_cap :: cap_view
  pf_is2D :: bool
  pf_scenario :: s32
  pf_stage :: string

definition send_player_part :: "sock_cfg \<Rightarrow> player_frame \<Rightarrow> sender \<Rightarrow> sender res" where
  "send_player_part cfg f c =
     rbind (sendPlayerInfPacket cfg (pf_isYukimaru f) (Some (pf_player f)) c) (\<lambda>c.
       if pf_isYukimaru f then Inr c
       else rbind (sendHackCapInfPacket (pf_cap f) c) (sendCaptureInfPacket (pl_hackName (pf_player f))))"

definition updatePlayerFrame :: "sock_cfg \<Rightarrow> player_frame \<Rightarrow> send_timers \<times> sender \<Rightarrow> (send_timers \<times> sender) res" where
  "updatePlayerFrame cfg f x =
     (case x of (t, c) \<Rightarrow>
        rbind (if 3 \<le> sint (pInfSendTimer t)
               then rbind (send_player_part cfg f c) (\<lambda>c. Inr (t\<lparr>pInfSendTimer := 0\<rparr>, c))
               else Inr (t, c)) (\<lambda>(t, c).
        rbind (if 60 \<le> sint (gameInfSendTimer t)
               then rbind (if pf_isYukimaru f then sendGameInfPacket cfg (pf_scenario f) (pf_stage f) c
                           else sendGameInfPacket_player cfg (Some (pf_is2D f)) (pf_scenario f) (pf_stage f) c)
                      (\<lambda>c. Inr (t\<lparr>gameInfSendTimer := 0\<rparr>, c))
               else Inr (t, c)) (\<lambda>(t, c).
          Inr (t\<lparr>pInfSendTimer := pInfSendTimer t + 1, gameInfSendTimer := gameInfSendTimer t + 1\<rparr>, c))))"

section \<open>Connecting\<close>

text \<open>
  Waiting for the init packet: every packet before it is freed unread. The recursion takes the packets
  that have arrived; with none left the thread blocks.
\<close>

fun wait_init :: "addr list \<Rightarrow> sock \<Rightarrow> puppet_table \<Rightarrow> (sock \<times> puppet_table) res option" where
  "wait_init [] s tab = None"
| "wait_init (a # q) s tab =
     (case packet_at a s of
        Inl e \<Rightarrow> Some (Inl e)
      | Inr p \<Rightarrow>
          (case heap_free a (s\<lparr>mRecvQueue := q\<rparr>) of
             Inl e \<Rightarrow> Some (Inl e)
           | Inr s \<Rightarrow>
               (case body p of
                  Some (System_packet (Some (Sys_init i))) \<Rightarrow> Some (Inr (s, updateMaxPuppets i tab))
                | _ \<Rightarrow> wait_init q s tab)))"

text \<open>\<open>startConnection\<close> after the server's address is known.\<close>

definition startConnection ::
  "sock_cfg \<Rightarrow> sock \<Rightarrow> puppet_table \<Rightarrow> os_event list \<Rightarrow> (bool \<times> puppet_table) os_result" where
  "startConnection cfg s tab evs =
     os_bind (sock_init cfg s evs) (\<lambda>ok s evs.
       if \<not> ok then Some (Inr ((False, tab), s, evs))
       else if \<not> isConnected_sock s then Some (Inr ((False, tab), s, evs))
       else (case wait_init (mRecvQueue s) s tab of
               None \<Rightarrow> None
             | Some (Inl e) \<Rightarrow> Some (Inl e)
             | Some (Inr (s, tab)) \<Rightarrow> Some (Inr ((True, tab), s, evs))))"

definition restartConnection ::
  "sock_cfg \<Rightarrow> sender \<Rightarrow> puppet_table \<Rightarrow> os_event list \<Rightarrow> (bool \<times> puppet_table) os_result" where
  "restartConnection cfg c tab evs =
     (case queue_new (system_packet_of (sn_userID c) Player_dc) (sn_sock c) of
        Inl e \<Rightarrow> Some (Inl e)
      | Inr s \<Rightarrow>
          os_bind (close_sock s evs) (\<lambda>_ s evs.
          os_bind (sock_init cfg s evs) (\<lambda>ok s evs.
            Some (Inr ((ok, tab\<lparr>mConnectCount := 0\<rparr>), s, evs)))))"

section \<open>Who owns the packets\<close>

text \<open>
  Every live packet of the heap is queued exactly once, and every queued heap address is live: nothing
  leaks and nothing is freed twice.
\<close>

fun heap_addrs :: "addr list \<Rightarrow> nat list" where
  "heap_addrs [] = []"
| "heap_addrs (Heap k # as) = k # heap_addrs as"
| "heap_addrs (Member m # as) = heap_addrs as"

lemma heap_addrs_append [simp]: "heap_addrs (as @ bs) = heap_addrs as @ heap_addrs bs"
  by (induction as rule: heap_addrs.induct) simp_all

definition owned :: "sock \<Rightarrow> bool" where
  "owned s \<longleftrightarrow> distinct (heap_addrs (mSendQueue s @ mRecvQueue s)) \<and>
     (\<forall>k. heap s k \<noteq> None \<longleftrightarrow> k \<in> set (heap_addrs (mSendQueue s @ mRecvQueue s))) \<and>
     (\<forall>k. heap s k \<noteq> None \<longrightarrow> k < next_addr s)"

lemma owned_new: "owned s \<Longrightarrow> next_addr s \<notin> set (heap_addrs (mSendQueue s @ mRecvQueue s)) \<and> heap s (next_addr s) = None"
  unfolding owned_def by (metis less_irrefl)

lemma owned_members [simp]: "owned (s\<lparr>members := m\<rparr>) = owned s"
  by (simp add: owned_def)

lemma queue_new_eq:
  "queue_new p s =
     Inr (if isConnected_sock s \<and> \<not> sendQueue_full s
          then s\<lparr>heap := (heap s)(next_addr s := Some p), next_addr := Suc (next_addr s),
                 mSendQueue := mSendQueue s @ [Heap (next_addr s)]\<rparr>
          else s\<lparr>heap := (heap s)(next_addr s := None), next_addr := Suc (next_addr s)\<rparr>)"
  by (simp add: queue_new_def heap_new_def queuePacket_def heap_free_def isConnected_sock_def
      sendQueue_full_def)

lemma owned_queued:
  assumes "owned s"
  shows "owned (s\<lparr>heap := (heap s)(next_addr s := Some p), next_addr := Suc (next_addr s),
                  mSendQueue := mSendQueue s @ [Heap (next_addr s)]\<rparr>)"
  using assms owned_new [OF assms] by (auto simp: owned_def less_Suc_eq)

lemma owned_freed:
  assumes "owned s"
  shows "owned (s\<lparr>heap := (heap s)(next_addr s := None), next_addr := Suc (next_addr s)\<rparr>)"
  using assms owned_new [OF assms] by (auto simp: owned_def less_Suc_eq)

lemma queue_new_owned: "owned s \<Longrightarrow> \<exists>t. queue_new p s = Inr t \<and> owned t"
  by (simp add: queue_new_eq owned_queued owned_freed)

lemma queue_new_members: "queue_new p (s\<lparr>members := m\<rparr>) = rbind (queue_new p s) (\<lambda>s. Inr (s\<lparr>members := m\<rparr>))"
  by (simp add: queue_new_eq isConnected_sock_def sendQueue_full_def)

text \<open>What a send function without a fault does: it keeps the ownership and the captured state.\<close>

definition sends :: "sender \<Rightarrow> sender res \<Rightarrow> bool" where
  "sends c r \<longleftrightarrow> (\<exists>d. r = Inr d \<and> owned (sn_sock d) \<and> isClientCaptured d = isClientCaptured c)"

lemma sends_Inr [simp]:
  "sends c (Inr d) \<longleftrightarrow> owned (sn_sock d) \<and> isClientCaptured d = isClientCaptured c"
  by (simp add: sends_def)

lemma sends_seq:
  "sends c r \<Longrightarrow> (\<And>d. owned (sn_sock d) \<Longrightarrow> isClientCaptured d = isClientCaptured c \<Longrightarrow> sends c (f d)) \<Longrightarrow>
   sends c (rbind r f)"
  by (auto simp: sends_def)

lemma send_system_sends: "owned (sn_sock c) \<Longrightarrow> sends c (send_system m c)"
  using queue_new_owned [of "sn_sock c" "system_packet_of (sn_userID c) m"]
  by (auto simp: send_system_def on_sock_def)

lemma send_kept_eq:
  "send_kept which wanted m c =
     on_sock (\<lambda>s. if wanted (system_packet_of (sn_userID c) m)
       then rbind (queue_new (system_packet_of (sn_userID c) m) s)
              (\<lambda>t. Inr (t\<lparr>members := (members s)(which := system_packet_of (sn_userID c) m)\<rparr>))
       else Inr (s\<lparr>heap := (heap s)(next_addr s := None), next_addr := Suc (next_addr s)\<rparr>)) c"
  by (auto simp: send_kept_def on_sock_def heap_new_def heap_free_def queue_new_eq Let_def queuePacket_def
      isConnected_sock_def sendQueue_full_def)

lemma send_kept_sends: "owned (sn_sock c) \<Longrightarrow> sends c (send_kept which wanted m c)"
  using queue_new_owned [of "sn_sock c" "system_packet_of (sn_userID c) m"]
  by (auto simp: send_kept_eq on_sock_def owned_freed)

lemma sendHackCapInf_sends: "owned (sn_sock c) \<Longrightarrow> sends c (sendHackCapInfPacket h c)"
  by (auto simp: sendHackCapInfPacket_def intro!: sends_seq send_system_sends)

lemma sendCaptureInf_sends:
  "owned (sn_sock c) \<Longrightarrow> isClientCaptured c \<Longrightarrow> hackName \<noteq> None \<Longrightarrow> sends c (sendCaptureInfPacket hackName c)"
  "owned (sn_sock c) \<Longrightarrow> \<not> isClientCaptured c \<Longrightarrow> sends c (sendCaptureInfPacket hackName c)"
  by (auto simp: sendCaptureInfPacket_def split: option.split intro!: sends_seq send_system_sends)

lemma sendGameInf_sends:
  "owned (sn_sock c) \<Longrightarrow> sends c (sendGameInfPacket cfg n st c)"
  "owned (sn_sock c) \<Longrightarrow> sends c (sendGameInfPacket_player cfg v n st c)"
  by (simp_all add: sendGameInfPacket_def sendGameInfPacket_player_def send_kept_sends)

lemma sendCostumeInf_sends: "owned (sn_sock c) \<Longrightarrow> sends c (sendCostumeInfPacket b h c)"
  by (simp add: sendCostumeInfPacket_def send_kept_sends)

lemma sendShineCollect_sends: "owned (sn_sock c) \<Longrightarrow> sends c (sendShineCollectPacket k c)"
  using send_system_sends [of "c\<lparr>lastCollectedShine := v\<rparr>" for v]
  by (auto simp: sendShineCollectPacket_def sendShineCollect_def sends_def)

lemma send_own_eq:
  "send_own m p c =
     (if isConnected_sock (sn_sock c) \<and> \<not> sendQueue_full (sn_sock c)
      then Inr (c\<lparr>sn_sock := (sn_sock c)\<lparr>members := (members (sn_sock c))(m := ctf_packet_of (sn_userID c) p),
                     mSendQueue := mSendQueue (sn_sock c) @ [Member m]\<rparr>\<rparr>)
      else Inl BadFree)"
  by (simp add: send_own_def on_sock_def queuePacket_def heap_free_def isConnected_sock_def sendQueue_full_def)

lemma owned_member: "owned s \<Longrightarrow> owned (s\<lparr>members := v, mSendQueue := mSendQueue s @ [Member m]\<rparr>)"
  by (simp add: owned_def)

text \<open>A frame never faults: a player in a capture with a name is the only one that is taken for captured.\<close>

lemma send_player_part_sends:
  assumes "owned (sn_sock c)"
  shows "\<exists>d. send_player_part cfg f c = Inr d \<and> owned (sn_sock d)"
proof -
  let ?b = "\<not> pf_isYukimaru f \<and> pl_hackName (pf_player f) \<noteq> None"
  let ?c = "c\<lparr>isClientCaptured := ?b\<rparr>"
  have "sends ?c (sendPlayerInfPacket cfg (pf_isYukimaru f) (Some (pf_player f)) c)"
    unfolding sendPlayerInfPacket_def option.case Let_def by (rule send_kept_sends) (simp add: assms)
  then have "sends ?c (send_player_part cfg f c)"
    unfolding send_player_part_def
  proof (rule sends_seq)
    fix d :: sender
    assume d: "owned (sn_sock d)" "isClientCaptured d = isClientCaptured ?c"
    have "sends d (sendCaptureInfPacket (pl_hackName (pf_player f)) e)"
      if "owned (sn_sock e)" "isClientCaptured e = isClientCaptured d" "\<not> pf_isYukimaru f" for e
      using sendCaptureInf_sends [OF that(1), of "pl_hackName (pf_player f)"] that d(2)
      by (cases "isClientCaptured e") (auto simp: sends_def)
    with d show "sends ?c (if pf_isYukimaru f then Inr d
        else rbind (sendHackCapInfPacket (pf_cap f) d) (sendCaptureInfPacket (pl_hackName (pf_player f))))"
      using sends_seq [OF sendHackCapInf_sends [OF d(1), of "pf_cap f"]] by (auto simp: sends_def)
  qed
  then show ?thesis by (auto simp: sends_def)
qed

definition sent_pair :: "(send_timers \<times> sender) res \<Rightarrow> bool" where
  "sent_pair r \<longleftrightarrow> (\<exists>y. r = Inr y \<and> owned (sn_sock (snd y)))"

lemma sent_pair_of: "\<exists>d. r = Inr d \<and> owned (sn_sock d) \<Longrightarrow> sent_pair (rbind r (\<lambda>c. Inr (t, c)))"
  by (auto simp: sent_pair_def)

lemma sent_pair_seq:
  "sent_pair r \<Longrightarrow> (\<And>t d. owned (sn_sock d) \<Longrightarrow> sent_pair (f (t, d))) \<Longrightarrow> sent_pair (rbind r f)"
  by (auto simp: sent_pair_def)

lemma sends_ex: "sends c r \<Longrightarrow> \<exists>d. r = Inr d \<and> owned (sn_sock d)"
  by (auto simp: sends_def)

lemma updatePlayerFrame_sent:
  assumes "owned (sn_sock (snd x))"
  shows "sent_pair (updatePlayerFrame cfg f x)"
proof -
  obtain t c where x: "x = (t, c)" by fastforce
  have game: "\<exists>e. (if pf_isYukimaru f then sendGameInfPacket cfg (pf_scenario f) (pf_stage f) d
      else sendGameInfPacket_player cfg (Some (pf_is2D f)) (pf_scenario f) (pf_stage f) d) = Inr e \<and> owned (sn_sock e)"
    if "owned (sn_sock d)" for d
    using sends_ex [OF sendGameInf_sends(1) [OF that]] sends_ex [OF sendGameInf_sends(2) [OF that]] by simp
  have own: "sent_pair (Inr (t, d)) \<longleftrightarrow> owned (sn_sock d)" for t d by (simp add: sent_pair_def)
  have player: "sent_pair (if 3 \<le> sint (pInfSendTimer t)
      then rbind (send_player_part cfg f c) (\<lambda>c. Inr (t\<lparr>pInfSendTimer := 0\<rparr>, c)) else Inr (t, c))"
    using sent_pair_of [OF send_player_part_sends] assms x by (simp add: own)
  have stage: "sent_pair (if 60 \<le> sint (gameInfSendTimer t)
      then rbind (if pf_isYukimaru f then sendGameInfPacket cfg (pf_scenario f) (pf_stage f) c
                  else sendGameInfPacket_player cfg (Some (pf_is2D f)) (pf_scenario f) (pf_stage f) c)
             (\<lambda>c. Inr (t\<lparr>gameInfSendTimer := 0\<rparr>, c))
      else Inr (t, c))" if "owned (sn_sock c)" for t c
    using sent_pair_of [OF game [OF that]] that by (simp add: own)
  show ?thesis
    unfolding updatePlayerFrame_def x prod.case
    by (rule sent_pair_seq [OF player], unfold prod.case, rule sent_pair_seq [OF stage], assumption, simp add: own)
qed

text \<open>The calls of the game, in any order.\<close>

datatype send_call =
    Call_frame player_frame
  | Call_game s32 string
  | Call_costume string string
  | Call_shine s32
  | Call_tag mode_manager
  | Call_hold FlagHoldState
  | Call_win Win

definition do_send :: "sock_cfg \<Rightarrow> send_call \<Rightarrow> send_timers \<times> sender \<Rightarrow> (send_timers \<times> sender) res" where
  "do_send cfg k x =
     (case k of
        Call_frame f \<Rightarrow> updatePlayerFrame cfg f x
      | Call_game n st \<Rightarrow> rbind (sendGameInfPacket cfg n st (snd x)) (\<lambda>c. Inr (fst x, c))
      | Call_costume b h \<Rightarrow> rbind (sendCostumeInfPacket b h (snd x)) (\<lambda>c. Inr (fst x, c))
      | Call_shine i \<Rightarrow> rbind (sendShineCollectPacket i (snd x)) (\<lambda>c. Inr (fst x, c))
      | Call_tag s \<Rightarrow> rbind (sendTagInfPacket s (snd x)) (\<lambda>c. Inr (fst x, c))
      | Call_hold p \<Rightarrow> rbind (sendFlagHoldStatePacket p (snd x)) (\<lambda>c. Inr (fst x, c))
      | Call_win p \<Rightarrow> rbind (sendCTFWinPacket p (snd x)) (\<lambda>c. Inr (fst x, c)))"

fun send_run :: "sock_cfg \<Rightarrow> send_call list \<Rightarrow> send_timers \<times> sender \<Rightarrow> (send_timers \<times> sender) res" where
  "send_run cfg [] x = Inr x"
| "send_run cfg (k # ks) x = rbind (do_send cfg k x) (send_run cfg ks)"

text \<open>The fault of a call: of a tag message by the mode object and its information, of a flag or win message by
  the socket; no other call has one.\<close>

definition call_fault :: "send_call \<Rightarrow> sender \<Rightarrow> fault option" where
  "call_fault k c =
     (case k of
        Call_tag s \<Rightarrow>
          if mCurMode s \<noteq> HIDEANDSEEK then None
          else (case (mCurModeBase s, mModeInfo s) of
                  (None, _) \<Rightarrow> Some NullDeref
                | (Some (Ctf_mode _), _) \<Rightarrow> Some WrongClass
                | (_, None) \<Rightarrow> Some NullDeref
                | (_, Some (Ctf_info _)) \<Rightarrow> Some WrongClass
                | _ \<Rightarrow> None)
      | Call_hold _ \<Rightarrow>
          if isConnected_sock (sn_sock c) \<and> \<not> sendQueue_full (sn_sock c) then None else Some BadFree
      | Call_win _ \<Rightarrow>
          if isConnected_sock (sn_sock c) \<and> \<not> sendQueue_full (sn_sock c) then None else Some BadFree
      | _ \<Rightarrow> None)"

lemma do_send_spec:
  assumes own: "owned (sn_sock (snd x))"
  shows "case call_fault k (snd x) of
    Some e \<Rightarrow> do_send cfg k x = Inl e | None \<Rightarrow> sent_pair (do_send cfg k x)"
proof (cases k)
  case (Call_tag s)
  show ?thesis
    using sent_pair_of [OF sends_ex [OF send_system_sends [OF own]], of _ "fst x"] own
    by (auto simp: Call_tag call_fault_def do_send_def sendTagInfPacket_def isMode_def hns_of_def hns_info_of_def
        sent_pair_def split: option.split mode_obj.split mode_info.split)
next
  case (Call_hold p)
  then show ?thesis
    using owned_member [OF own] by (simp add: call_fault_def do_send_def sendFlagHoldStatePacket_def send_own_eq sent_pair_def)
next
  case (Call_win p)
  then show ?thesis
    using owned_member [OF own] by (simp add: call_fault_def do_send_def sendCTFWinPacket_def send_own_eq sent_pair_def)
qed (simp_all add: call_fault_def do_send_def updatePlayerFrame_sent own
    sent_pair_of [OF sends_ex [OF sendGameInf_sends(1)]] sent_pair_of [OF sends_ex [OF sendCostumeInf_sends]]
    sent_pair_of [OF sends_ex [OF sendShineCollect_sends]])


section \<open>What is sent and what arrives\<close>

text \<open>The capture flag messages are kept in the client object. When the socket is not connected, or its
  queue is full, \<open>queuePacket\<close> frees the address it was given: an address the heap never gave out.\<close>

theorem ctf_send_fault:
  "(sendFlagHoldStatePacket p c = Inl BadFree \<longleftrightarrow>
      \<not> (isConnected_sock (sn_sock c) \<and> \<not> sendQueue_full (sn_sock c))) \<and>
   (sendCTFWinPacket v c = Inl BadFree \<longleftrightarrow>
      \<not> (isConnected_sock (sn_sock c) \<and> \<not> sendQueue_full (sn_sock c)))"
  by (simp add: sendFlagHoldStatePacket_def sendCTFWinPacket_def send_own_eq)

lemma sendCapture_flag: "sendCaptureInfPacket h c = Inr d \<Longrightarrow> isSentCaptureInf d = isClientCaptured d"
  by (auto simp: sendCaptureInfPacket_def send_system_def on_sock_def rbind_eq_Inr queue_new_eq
      split: if_splits option.splits)

text \<open>A capture that begins while the socket is not connected is never announced: the flag is set
  although nothing was queued, and as long as the player stays captured the function does nothing,
  whatever socket it then has.\<close>

theorem capture_message_lost:
  assumes "\<not> isConnected_sock (sn_sock c)" and "isClientCaptured c" and "\<not> isSentCaptureInf c"
  shows "\<exists>d. sendCaptureInfPacket (Some n) c = Inr d \<and>
    mSendQueue (sn_sock d) = mSendQueue (sn_sock c) \<and>
    (\<forall>s. sendCaptureInfPacket (Some n) (d\<lparr>sn_sock := s\<rparr>) = Inr (d\<lparr>sn_sock := s\<rparr>))"
  using assms by (simp add: sendCaptureInfPacket_def send_system_def on_sock_def queue_new_eq)


lemma convert_anim_roundtrip [simp]: "convert_anim (convert_anim_to_pb t) = t"
  unfolding convert_anim_def convert_anim_to_pb_def
  by transfer (simp add: take_bit_signed_take_bit min_def)

lemma uint_nonneg32:
  assumes "0 \<le> sint (w :: s32)"
  shows "uint w = sint w"
proof -
  have "uint w = take_bit 32 (sint w)" by transfer (simp add: take_bit_signed_take_bit min_def)
  also have "\<dots> = sint w" using assms sint_range32 [of w] by (intro take_bit_int_eq_self) simp_all
  finally show ?thesis .
qed

lemma uint_ucast_small:
  assumes "0 \<le> sint (w :: s32)" and "sint w < 2 ^ LENGTH('a::len)"
  shows "uint (ucast w :: 'a word) = sint w"
proof -
  have "uint (ucast w :: 'a word) = take_bit LENGTH('a) (uint w)" by transfer simp
  also have "\<dots> = sint w"
    unfolding uint_nonneg32 [OF assms(1)] using assms by (intro take_bit_int_eq_self)
  finally show ?thesis .
qed

text \<open>C8: What one player sends of its state arrives in the other player's table: position, the two
  animations and the captured state; a rotation that the receiver accepts; and weights between 0 and 1.\<close>

theorem player_message_roundtrip:
  assumes "set_playerInf (playerInf_of False v) p = Inr q" and "pl_hackName v = None"
    and "length (blendWeights p) = 6" and "\<And>i. f32_le (Fin 0) (pl_blendWeight v i) \<and> f32_le (pl_blendWeight v i) (Fin 1)"
  shows "isConnected q \<and> playerPos q = pl_trans v \<and>
    curAnim q = anim_FindType (pl_action v) \<and> curSubAnim q = anim_FindType (pl_subAction v) \<and>
    playerRot q = (if rot_accepted (pl_rot v) then pl_rot v else playerRot p) \<and>
    blendWeights q = map (pl_blendWeight v) [0..<6] \<and>
    capPos q = (if isCapThrow p then capPos p else pl_trans v)"
proof -
  have vec: "vec_of (Some (convert_vec_to_pb w)) = w" for w
    by (simp add: vec_of_def convert_vec_def convert_vec_to_pb_def)
  have quat: "quat_of (Some (convert_quat_to_pb w)) = w" for w
    by (simp add: quat_of_def convert_quat_def convert_quat_to_pb_def)
  have six: "[0..<6] = [0, 1, 2, 3, 4, 5 :: nat]" by (simp add: upt_rec)
  obtain a b c d e f where w: "blendWeights p = [a, b, c, d, e, f]"
    using assms(3) by (auto simp: numeral_eq_Suc length_Suc_conv)
  have weights: "copy_weights (blendWeights p) (map (pl_blendWeight v) [0..<6]) = map (pl_blendWeight v) [0..<6]"
    unfolding w six by (simp add: assms(4))
  show ?thesis
    using assms(1,2) weights
    by (auto simp: set_playerInf_def playerInf_of_def Let_def rbind_eq_Inr vec quat ANIM_BLEND_WEIGHT_COUNT_def)
qed

text \<open>The tag message of one player, in the other player's table: who is it and the hiding time, as far as
  the narrower fields hold it.\<close>

theorem tag_message_roundtrip:
  assumes "findPuppetInfo who False tab = Inr (Some k)" and "k < length (mPuppetInfoArr tab)"
  shows "\<exists>t. updateTagInfo_puppet who (tag_message i) tab = Inr t \<and>
    isIt (mPuppetInfoArr t ! k) = mIsPlayerIt i \<and>
    (0 \<le> sint (mSeconds (mHidingTime i)) \<and> sint (mSeconds (mHidingTime i)) < 256 \<longrightarrow>
       int (unat (seconds (mPuppetInfoArr t ! k))) = sint (mSeconds (mHidingTime i))) \<and>
    (0 \<le> sint (mMinutes (mHidingTime i)) \<and> sint (mMinutes (mHidingTime i)) < 65536 \<longrightarrow>
       int (unat (minutes (mPuppetInfoArr t ! k))) = sint (mMinutes (mHidingTime i)))"
  using assms
  by (auto simp: updateTagInfo_puppet_def with_info_def set_tagInf_def update_info_def tag_message_def
      bool_value_def uint_ucast_small)

section \<open>How often\<close>

definition timers_ok :: "send_timers \<Rightarrow> bool" where
  "timers_ok t \<longleftrightarrow> 0 \<le> sint (pInfSendTimer t) \<and> sint (pInfSendTimer t) \<le> 3 \<and>
     0 \<le> sint (gameInfSendTimer t) \<and> sint (gameInfSendTimer t) \<le> 60"

text \<open>The counters of the player's frames stay within their limits: the player's state goes out in every
  third frame and the stage in every sixtieth, however the packets fare.\<close>

theorem send_timers_period:
  assumes "timers_ok t" and "updatePlayerFrame cfg f (t, c) = Inr (t', d)"
  shows "timers_ok t' \<and>
    sint (pInfSendTimer t') = (if sint (pInfSendTimer t) = 3 then 1 else sint (pInfSendTimer t) + 1) \<and>
    sint (gameInfSendTimer t') = (if sint (gameInfSendTimer t) = 60 then 1 else sint (gameInfSendTimer t) + 1) \<and>
    (sint (pInfSendTimer t) \<noteq> 3 \<and> sint (gameInfSendTimer t) \<noteq> 60 \<longrightarrow> d = c)"
proof -
  define p g where "p = (if 3 \<le> sint (pInfSendTimer t) then 0 else pInfSendTimer t)"
    and "g = (if 60 \<le> sint (gameInfSendTimer t) then 0 else gameInfSendTimer t)"
  have part: "t1 = (if P then u else t0) \<and> (\<not> P \<longrightarrow> c1 = c0)"
    if "(if P then rbind r (\<lambda>c. Inr (u, c)) else Inr (t0, c0)) = (Inr (t1, c1) :: _ res)"
    for P r u t0 c0 t1 and c1 :: sender
    using that by (auto simp: rbind_eq_Inr split: if_splits)
  from assms(2) obtain t1 c1 t2 c2 where
    1: "(if 3 \<le> sint (pInfSendTimer t) then rbind (send_player_part cfg f c) (\<lambda>c. Inr (t\<lparr>pInfSendTimer := 0\<rparr>, c))
         else Inr (t, c)) = Inr (t1, c1)"
    and 2: "(if 60 \<le> sint (gameInfSendTimer t1)
         then rbind (if pf_isYukimaru f then sendGameInfPacket cfg (pf_scenario f) (pf_stage f) c1
                     else sendGameInfPacket_player cfg (Some (pf_is2D f)) (pf_scenario f) (pf_stage f) c1)
                (\<lambda>c. Inr (t1\<lparr>gameInfSendTimer := 0\<rparr>, c))
         else Inr (t1, c1)) = Inr (t2, c2)"
    and 3: "t' = t2\<lparr>pInfSendTimer := pInfSendTimer t2 + 1, gameInfSendTimer := gameInfSendTimer t2 + 1\<rparr>" "d = c2"
    unfolding updatePlayerFrame_def prod.case by (elim rbind_InrE) (auto elim!: rbind_InrE)
  have t': "pInfSendTimer t' = p + 1" "gameInfSendTimer t' = g + 1"
    and d: "\<not> 3 \<le> sint (pInfSendTimer t) \<Longrightarrow> \<not> 60 \<le> sint (gameInfSendTimer t) \<Longrightarrow> d = c"
    using part [OF 1] part [OF 2] 3 by (auto simp: p_def g_def)
  have p: "0 \<le> sint p" "sint p < 3" "sint p = (if sint (pInfSendTimer t) = 3 then 0 else sint (pInfSendTimer t))"
    and g: "0 \<le> sint g" "sint g < 60" "sint g = (if sint (gameInfSendTimer t) = 60 then 0 else sint (gameInfSendTimer t))"
    using assms(1) by (auto simp: p_def g_def timers_ok_def)
  have "sint (p + 1) = sint p + 1" "sint (g + 1) = sint g + 1"
    using p(2) g(2) by (intro sint_succ32; simp)+
  with p g t' show ?thesis using d assms(1) by (auto simp: timers_ok_def)
qed

text \<open>Packets that arrive before the init packet are thrown away unread.\<close>

lemma wait_init_drops:
  assumes "list_all (\<lambda>(k, p). heap s k = Some p \<and>
      (\<forall>i. body p \<noteq> Some (System_packet (Some (Sys_init i))))) early"
    and "distinct (map fst early)" and "heap s k = Some p" and "k \<notin> fst ` set early"
    and "body p = Some (System_packet (Some (Sys_init i)))"
  shows "\<exists>s'. wait_init (map (\<lambda>(k, p). Heap k) early @ Heap k # q) s tab = Some (Inr (s', updateMaxPuppets i tab)) \<and>
    mRecvQueue s' = q"
  using assms
proof (induction early arbitrary: s)
  case Nil
  then show ?case by (simp add: packet_at_def heap_free_def)
next
  case (Cons a early)
  obtain j m where a: "a = (j, m)" by fastforce
  let ?q = "map (\<lambda>(k, p). Heap k) early @ Heap k # q"
  let ?s = "s\<lparr>mRecvQueue := ?q, heap := (heap s)(j := None)\<rparr>"
  have j: "heap s j = Some m" "\<forall>i. body m \<noteq> Some (System_packet (Some (Sys_init i)))"
    "j \<notin> fst ` set early" "j \<noteq> k"
    using Cons.prems a by auto
  have "wait_init (Heap j # ?q) s tab = wait_init ?q ?s tab"
    using j(1,2) by (auto simp: packet_at_def heap_free_def split: option.split packet_body.split SystemPacket.split)
  moreover have "\<exists>s'. wait_init ?q ?s tab = Some (Inr (s', updateMaxPuppets i tab)) \<and> mRecvQueue s' = q"
    using Cons.prems a j(3,4)
    by (intro Cons.IH) (force simp: list_all_iff)+
  ultimately show ?case by (simp add: a)
qed

section \<open>Witnesses\<close>

definition sender0 :: sender where
  "sender0 = sender_new EmptyId (cl_sock client0)"

definition player0 :: player_view where
  "player0 =
     \<lparr>pl_trans = Vector3f_zero, pl_rot = Quatf_unit, pl_blendWeight = (\<lambda>_. Fin 0), pl_hackName = None,
      pl_hackAction = None, pl_action = ''Wait'', pl_subAction = []\<rparr>"

definition connected0 :: sock where
  "connected0 = (sn_sock sender0)\<lparr>socket_log_state := SOCKET_LOG_CONNECTED\<rparr>"

lemma sender0_owned: "owned (sn_sock sender0)"
  by (simp add: owned_def sender0_def sender_new_def client0_def)


theorem capture_message_lost_witness:
  "\<exists>d. sendCaptureInfPacket (Some ''Kuribo'') (sender0\<lparr>isClientCaptured := True\<rparr>) = Inr d \<and>
     mSendQueue (sn_sock d) = []"
  using capture_message_lost [of "sender0\<lparr>isClientCaptured := True\<rparr>" "''Kuribo''"]
  by (auto simp: sender0_def sender_new_def client0_def isConnected_sock_def)


theorem player_message_roundtrip_witness:
  "\<exists>q. set_playerInf (playerInf_of False player0) PuppetInfo_new = Inr q \<and>
     playerPos q = pl_trans player0 \<and> curAnim q = anim_FindType ''Wait''"
proof -
  have "strcpy 48 ''Wait'' = Inr ''Wait''" "strcpy 48 [] = Inr []"
    by (simp_all add: strcpy_def c_str_def nul_def)
  then have "\<exists>q. set_playerInf (playerInf_of False player0) PuppetInfo_new = Inr q"
    using strcpy_FindStr by (simp add: set_playerInf_def Let_def PACKBUFSIZE_def)
  then obtain q where q: "set_playerInf (playerInf_of False player0) PuppetInfo_new = Inr q" by blast
  from player_message_roundtrip [OF q] q show ?thesis
    by (auto simp: player0_def PuppetInfo_new_def)
qed

theorem tag_message_roundtrip_witness:
  "\<exists>t. updateTagInfo_puppet EmptyId (tag_message (HideAndSeekInfo_new\<lparr>mIsPlayerIt := True\<rparr>)) puppet_table_init = Inr t \<and>
     isIt (mPuppetInfoArr t ! 0) = True"
proof -
  have f: "findPuppetInfo EmptyId False puppet_table_init = Inr (Some 0)"
    by (simp add: findPuppetInfo_def find_bound_def puppet_table_init_def MAXPUPINDEX_def upt_rec PuppetInfo_new_def)
  have "0 < length (mPuppetInfoArr puppet_table_init)" by (simp add: puppet_table_init_def MAXPUPINDEX_def)
  from tag_message_roundtrip [OF f this, of "HideAndSeekInfo_new\<lparr>mIsPlayerIt := True\<rparr>"]
  show ?thesis by auto
qed

theorem send_timers_period_witness:
  "\<exists>t' d. updatePlayerFrame cfg0 \<lparr>pf_isYukimaru = True, pf_player = player0,
       pf_cap = \<lparr>cv_isFlying = False, cv_trans = Vector3f_zero, cv_jointRot = Vector3f_zero, cv_skew = Fin 0,
         cv_action = []\<rparr>, pf_is2D = False, pf_scenario = 1, pf_stage = ''CapWorldHomeStage''\<rparr>
       (\<lparr>pInfSendTimer = 2, gameInfSendTimer = 0\<rparr>, sender0) = Inr (t', d) \<and> sint (pInfSendTimer t') = 3"
proof -
  let ?f = "\<lparr>pf_isYukimaru = True, pf_player = player0,
       pf_cap = \<lparr>cv_isFlying = False, cv_trans = Vector3f_zero, cv_jointRot = Vector3f_zero, cv_skew = Fin 0,
         cv_action = []\<rparr>, pf_is2D = False, pf_scenario = 1, pf_stage = ''CapWorldHomeStage''\<rparr>"
  let ?t = "\<lparr>pInfSendTimer = 2, gameInfSendTimer = 0\<rparr> :: send_timers"
  have "\<exists>t' d. updatePlayerFrame cfg0 ?f (?t, sender0) = Inr (t', d)"
    by (simp add: updatePlayerFrame_def)
  then obtain t' d where u: "updatePlayerFrame cfg0 ?f (?t, sender0) = Inr (t', d)" by blast
  have "timers_ok ?t" by (simp add: timers_ok_def)
  from send_timers_period [OF this u] u show ?thesis by auto
qed

end
