(* ===== verification/Server_Config.thy ===== *)
theory Server_Config
  imports Mode_Manager
begin

text \<open>
  The server configuration page of the pause menu (\<open>states/StageSceneStateServerConfig.cpp\<close>), a state
  machine of nerves. The vertical lists are the engine's: their operations are the parameter
  \<open>ops\<close>. \<open>set_nerve\<close> takes effect at the start of the next frame and restarts the step count.
\<close>

section \<open>State\<close>

datatype config_nerve =
  Nrv_MainMenu | Nrv_OpenKeyboardIP | Nrv_OpenKeyboardPort | Nrv_RestartServer | Nrv_GamemodeConfig
| Nrv_GamemodeSelect | Nrv_SaveData | Nrv_ConnectError

datatype config_page = Main_page | Select_page | Config_page nat

text \<open>What the page uses of \<open>CommonVerticalList\<close>, an engine class.\<close>

record 'l list_ops =
  lo_activate :: "'l \<Rightarrow> 'l"
  lo_deactivate :: "'l \<Rightarrow> 'l"
  lo_appearCursor :: "'l \<Rightarrow> 'l"
  lo_endCursor :: "'l \<Rightarrow> 'l"
  lo_update :: "'l \<Rightarrow> 'l"
  lo_up :: "'l \<Rightarrow> 'l"
  lo_down :: "'l \<Rightarrow> 'l"
  lo_decide :: "'l \<Rightarrow> 'l"
  lo_isDecideEnd :: "'l \<Rightarrow> bool"
  lo_mCurSelected :: "'l \<Rightarrow> s32"

datatype config_reaction = Decide_reaction | Reset_reaction

datatype config_effect =
    MenuAppear config_page | MenuEnd config_page | MenuKill config_page
  | HitReaction config_page config_reaction
  | KeyboardIP | KeyboardPort
  | ShowConnect | HideConnect | ShowConnectError | RestartConnection
  | StartSave

record 'l server_config =
  c_nerve :: config_nerve
  c_step :: nat
  c_next :: "config_nerve option"
  c_dead :: bool
  mMainOptionsList :: 'l
  mModeSelectList :: 'l
  mGamemodeConfigMenus :: "'l list"
  c_page :: config_page
  mIsDecideConfig :: bool
  c_effects :: "config_effect list"
  c_manager :: mode_manager

text \<open>
  What a frame is given: the buttons, whether the keyboard changed the setting, whether the socket is
  connected and whether the save file is written.
\<close>

record config_inputs =
  ui_up :: bool
  ui_down :: bool
  ui_cancel :: bool
  ui_decide :: bool
  in_saved :: bool
  in_isSocketActive :: bool
  in_saveDone :: bool

text \<open>\<open>ServerConfigOption\<close>.\<close>

definition GAMEMODECONFIG :: s32 where "GAMEMODECONFIG = 0"
definition GAMEMODESWITCH :: s32 where "GAMEMODESWITCH = 1"
definition RECONNECT :: s32 where "RECONNECT = 2"
definition SETIP :: s32 where "SETIP = 3"
definition SETPORT :: s32 where "SETPORT = 4"

text \<open>\<open>GameModeConfigMenuFactory\<close>: one menu is registered.\<close>

definition menuTable :: "string list" where
  "menuTable = [''HideAndSeek'']"

definition getMenuName :: "s32 \<Rightarrow> string option" where
  "getMenuName idx =
     (if 0 \<le> sint idx \<and> unat idx < length menuTable then Some (menuTable ! unat idx) else None)"

definition getMenuCount :: nat where
  "getMenuCount = length menuTable"

text \<open>
  The page after its constructor and \<open>init\<close>: one configuration menu for each of the factory's, the
  lists in the engine's initial state \<open>l\<close>.
\<close>

definition config_init :: "'l \<Rightarrow> 'l \<Rightarrow> 'l \<Rightarrow> mode_manager \<Rightarrow> 'l server_config" where
  "config_init l l' l'' manager =
     \<lparr>c_nerve = Nrv_MainMenu, c_step = 0, c_next = None, c_dead = True, mMainOptionsList = l,
      mModeSelectList = l', mGamemodeConfigMenus = replicate getMenuCount l'', c_page = Main_page,
      mIsDecideConfig = False, c_effects = [], c_manager = manager\<rparr>"

section \<open>Operations\<close>

definition emit :: "config_effect \<Rightarrow> 'l server_config \<Rightarrow> 'l server_config" where
  "emit e s = s\<lparr>c_effects := c_effects s @ [e]\<rparr>"

definition set_nerve :: "config_nerve \<Rightarrow> 'l server_config \<Rightarrow> 'l server_config" where
  "set_nerve n s = s\<lparr>c_next := Some n\<rparr>"

text \<open>\<open>mCurrentList\<close>, read and changed in place.\<close>

definition mCurrentList :: "'l server_config \<Rightarrow> 'l" where
  "mCurrentList s =
     (case c_page s of Main_page \<Rightarrow> mMainOptionsList s | Select_page \<Rightarrow> mModeSelectList s
      | Config_page k \<Rightarrow> mGamemodeConfigMenus s ! k)"

definition on_list :: "('l \<Rightarrow> 'l) \<Rightarrow> 'l server_config \<Rightarrow> 'l server_config" where
  "on_list f s =
     (case c_page s of
        Main_page \<Rightarrow> s\<lparr>mMainOptionsList := f (mMainOptionsList s)\<rparr>
      | Select_page \<Rightarrow> s\<lparr>mModeSelectList := f (mModeSelectList s)\<rparr>
      | Config_page k \<Rightarrow>
          s\<lparr>mGamemodeConfigMenus := (mGamemodeConfigMenus s)[k := f (mGamemodeConfigMenus s ! k)]\<rparr>)"

definition config_appear :: "'l server_config \<Rightarrow> 'l server_config" where
  "config_appear s = (emit (MenuAppear (c_page s)) s)\<lparr>c_dead := False\<rparr>"

definition config_kill :: "'l server_config \<Rightarrow> 'l server_config" where
  "config_kill s = (emit (MenuEnd (c_page s)) s)\<lparr>c_dead := True\<rparr>"

definition reset_to :: "config_nerve \<Rightarrow> 'l server_config \<Rightarrow> 'l server_config" where
  "reset_to n s = set_nerve n (emit (HitReaction (c_page s) Reset_reaction) s)"

definition on_decide :: "'l list_ops \<Rightarrow> 'l server_config \<Rightarrow> 'l server_config" where
  "on_decide ops s =
     (on_list (lo_decide ops \<circ> lo_endCursor ops) (emit (HitReaction (c_page s) Decide_reaction) s))
       \<lparr>mIsDecideConfig := True\<rparr>"

definition move_cursor :: "'l list_ops \<Rightarrow> config_inputs \<Rightarrow> 'l server_config \<Rightarrow> 'l server_config" where
  "move_cursor ops i s =
     (let s = on_list (lo_update ops) s;
          s = (if ui_up i then on_list (lo_up ops) s else s)
      in if ui_down i then on_list (lo_down ops) s else s)"

definition endSubMenu :: "'l list_ops \<Rightarrow> 'l server_config \<Rightarrow> 'l server_config" where
  "endSubMenu ops s =
     (let s = on_list (lo_deactivate ops) s;
          s = emit (MenuKill (c_page s)) s;
          s = s\<lparr>c_page := Main_page\<rparr>;
          s = emit (MenuAppear (c_page s)) s
      in reset_to Nrv_MainMenu s)"

definition subMenuStart :: "'l list_ops \<Rightarrow> 'l server_config \<Rightarrow> 'l server_config" where
  "subMenuStart ops s =
     (let s = on_list (lo_deactivate ops) s;
          s = emit (MenuKill (c_page s)) s;
          s = on_list (lo_appearCursor ops \<circ> lo_activate ops) s;
          s = emit (MenuAppear (c_page s)) s
      in s\<lparr>mIsDecideConfig := False\<rparr>)"

definition subMenuUpdate :: "'l list_ops \<Rightarrow> config_inputs \<Rightarrow> 'l server_config \<Rightarrow> 'l server_config" where
  "subMenuUpdate ops i s =
     (let s = move_cursor ops i s;
          s = (if ui_cancel i then endSubMenu ops s else s)
      in if ui_decide i then on_decide ops s else s)"

definition decided :: "'l list_ops \<Rightarrow> 'l server_config \<Rightarrow> bool" where
  "decided ops s \<longleftrightarrow> mIsDecideConfig s \<and> lo_isDecideEnd ops (mCurrentList s)"

definition option_nerve :: "s32 \<Rightarrow> config_nerve option" where
  "option_nerve k =
     (if k = GAMEMODECONFIG then Some Nrv_GamemodeConfig
      else if k = GAMEMODESWITCH then Some Nrv_GamemodeSelect
      else if k = RECONNECT then Some Nrv_RestartServer
      else if k = SETIP then Some Nrv_OpenKeyboardIP
      else if k = SETPORT then Some Nrv_OpenKeyboardPort
      else None)"

definition main_menu_start :: "'l list_ops \<Rightarrow> 'l server_config \<Rightarrow> 'l server_config" where
  "main_menu_start ops s =
     (if c_step s = 0
      then (on_list (lo_appearCursor ops \<circ> lo_activate ops) s)\<lparr>mIsDecideConfig := False\<rparr>
      else s)"

definition exeMainMenu :: "'l list_ops \<Rightarrow> config_inputs \<Rightarrow> 'l server_config \<Rightarrow> 'l server_config" where
  "exeMainMenu ops i s =
     (let s = move_cursor ops i (main_menu_start ops s);
          s = (if ui_cancel i then config_kill s else s);
          s = (if ui_decide i then on_decide ops s else s)
      in if decided ops s
         then (case option_nerve (lo_mCurSelected ops (mCurrentList s)) of
                 Some n \<Rightarrow> set_nerve n s
               | None \<Rightarrow> config_kill s)
         else s)"

definition exeOpenKeyboard ::
  "'l list_ops \<Rightarrow> config_effect \<Rightarrow> config_inputs \<Rightarrow> 'l server_config \<Rightarrow> 'l server_config" where
  "exeOpenKeyboard ops keyboard i s =
     (if c_step s = 0
      then reset_to (if in_saved i then Nrv_SaveData else Nrv_MainMenu)
             (emit keyboard (on_list (lo_deactivate ops) s))
      else s)"

definition exeRestartServer :: "'l list_ops \<Rightarrow> config_inputs \<Rightarrow> 'l server_config \<Rightarrow> 'l server_config" where
  "exeRestartServer ops i s =
     (let s = (if c_step s = 0
               then emit RestartConnection (emit ShowConnect (on_list (lo_deactivate ops) s))
               else s)
      in if in_isSocketActive i then reset_to Nrv_MainMenu (emit HideConnect s)
         else set_nerve Nrv_ConnectError s)"

text \<open>\<open>mGamemodeConfigMenus[getGameMode()]\<close>: out of range, \<open>sead::SafeArray\<close> answers with its first element.\<close>

definition config_entry :: "GameMode \<Rightarrow> nat" where
  "config_entry m = (if unat (scast m :: s32) < getMenuCount then unat (scast m :: s32) else 0)"

text \<open>
  \<open>HideAndSeekConfigMenu::updateMenu\<close> of the one registered menu, on the manager's information:
  \<open>getInfo<HideAndSeekInfo>\<close> only casts the pointer; writing through it is a fault when the information
  is the other mode's.
\<close>

definition menu_updateMenu :: "s32 \<Rightarrow> mode_manager \<Rightarrow> (bool \<times> mode_manager) res" where
  "menu_updateMenu k g =
     (case mModeInfo g of
        None \<Rightarrow> Inr (fst (hns_updateMenu (isMode HIDEANDSEEK g) k None), g)
      | Some (Hns_info i) \<Rightarrow>
          (case hns_updateMenu (isMode HIDEANDSEEK g) k (Some i) of
             (r, i') \<Rightarrow> Inr (r, g\<lparr>mModeInfo := map_option Hns_info i'\<rparr>))
      | Some (Ctf_info i) \<Rightarrow>
          if isMode HIDEANDSEEK g \<and> (k = 0 \<or> k = 1) then Inl WrongClass
          else Inr (k = 0 \<or> k = 1, g))"

definition exeGamemodeConfig :: "'l list_ops \<Rightarrow> config_inputs \<Rightarrow> 'l server_config \<Rightarrow> 'l server_config res" where
  "exeGamemodeConfig ops i s =
     (let s = (if c_step s = 0
               then subMenuStart ops (s\<lparr>c_page := Config_page (config_entry (mCurMode (c_manager s)))\<rparr>)
               else s);
          s = subMenuUpdate ops i s
      in if decided ops s
         then rbind (menu_updateMenu (lo_mCurSelected ops (mCurrentList s)) (c_manager s)) (\<lambda>(done, g).
                let s = s\<lparr>c_manager := g\<rparr> in Inr (if done then endSubMenu ops s else s))
         else Inr s)"

definition exeGamemodeSelect :: "'l list_ops \<Rightarrow> config_inputs \<Rightarrow> 'l server_config \<Rightarrow> 'l server_config" where
  "exeGamemodeSelect ops i s =
     (let s = (if c_step s = 0 then subMenuStart ops (s\<lparr>c_page := Select_page\<rparr>) else s);
          s = subMenuUpdate ops i s
      in if decided ops s
         then endSubMenu ops
                (s\<lparr>c_manager := setMode (ucast (lo_mCurSelected ops (mCurrentList s))) (c_manager s)\<rparr>)
         else s)"

definition connect_error_steps :: nat where
  "connect_error_steps = 60"

definition exeConnectError :: "'l server_config \<Rightarrow> 'l server_config" where
  "exeConnectError s =
     (let s = (if c_step s = 0 then emit ShowConnectError s else s)
      in if connect_error_steps \<le> c_step s then reset_to Nrv_MainMenu (emit HideConnect s) else s)"

definition exeSaveData :: "config_inputs \<Rightarrow> 'l server_config \<Rightarrow> 'l server_config" where
  "exeSaveData i s =
     (let s = (if c_step s = 0 then emit StartSave s else s)
      in if in_saveDone i then reset_to Nrv_MainMenu s else s)"

definition exe_nerve :: "'l list_ops \<Rightarrow> config_inputs \<Rightarrow> 'l server_config \<Rightarrow> 'l server_config res" where
  "exe_nerve ops i s =
     (case c_nerve s of
        Nrv_MainMenu \<Rightarrow> Inr (exeMainMenu ops i s)
      | Nrv_OpenKeyboardIP \<Rightarrow> Inr (exeOpenKeyboard ops KeyboardIP i s)
      | Nrv_OpenKeyboardPort \<Rightarrow> Inr (exeOpenKeyboard ops KeyboardPort i s)
      | Nrv_RestartServer \<Rightarrow> Inr (exeRestartServer ops i s)
      | Nrv_GamemodeConfig \<Rightarrow> exeGamemodeConfig ops i s
      | Nrv_GamemodeSelect \<Rightarrow> Inr (exeGamemodeSelect ops i s)
      | Nrv_SaveData \<Rightarrow> Inr (exeSaveData i s)
      | Nrv_ConnectError \<Rightarrow> Inr (exeConnectError s))"

text \<open>One frame of the nerve keeper: a requested nerve begins, the nerve runs, its step count grows.\<close>

definition begin_nerve :: "'l server_config \<Rightarrow> 'l server_config" where
  "begin_nerve s =
     (case c_next s of None \<Rightarrow> s | Some n \<Rightarrow> s\<lparr>c_nerve := n, c_step := 0, c_next := None\<rparr>)"

definition config_frame :: "'l list_ops \<Rightarrow> config_inputs \<Rightarrow> 'l server_config \<Rightarrow> 'l server_config res" where
  "config_frame ops i s =
     rbind (exe_nerve ops i (begin_nerve s)) (\<lambda>s. Inr (s\<lparr>c_step := c_step s + 1\<rparr>))"

fun config_run :: "'l list_ops \<Rightarrow> config_inputs list \<Rightarrow> 'l server_config \<Rightarrow> 'l server_config res" where
  "config_run ops [] s = Inr s"
| "config_run ops (i # is) s = rbind (config_frame ops i s) (config_run ops is)"

section \<open>What the operations leave alone\<close>

named_theorems config_simps \<open>the fields of the page after its operations\<close>

lemma emit_fields [config_simps]:
  "c_nerve (emit e s) = c_nerve s"
  "c_step (emit e s) = c_step s"
  "c_next (emit e s) = c_next s"
  "c_dead (emit e s) = c_dead s"
  "mMainOptionsList (emit e s) = mMainOptionsList s"
  "mModeSelectList (emit e s) = mModeSelectList s"
  "mGamemodeConfigMenus (emit e s) = mGamemodeConfigMenus s"
  "c_page (emit e s) = c_page s"
  "mIsDecideConfig (emit e s) = mIsDecideConfig s"
  "c_manager (emit e s) = c_manager s"
  by (simp_all add: emit_def)

lemma set_nerve_fields [config_simps]:
  "c_nerve (set_nerve n s) = c_nerve s"
  "c_step (set_nerve n s) = c_step s"
  "c_dead (set_nerve n s) = c_dead s"
  "mMainOptionsList (set_nerve n s) = mMainOptionsList s"
  "mModeSelectList (set_nerve n s) = mModeSelectList s"
  "mGamemodeConfigMenus (set_nerve n s) = mGamemodeConfigMenus s"
  "c_page (set_nerve n s) = c_page s"
  "mIsDecideConfig (set_nerve n s) = mIsDecideConfig s"
  "c_manager (set_nerve n s) = c_manager s"
  "c_next (set_nerve n s) = Some n"
  by (simp_all add: set_nerve_def)

lemma on_list_fields [config_simps]:
  "c_nerve (on_list f s) = c_nerve s"
  "c_step (on_list f s) = c_step s"
  "c_next (on_list f s) = c_next s"
  "c_dead (on_list f s) = c_dead s"
  "c_page (on_list f s) = c_page s"
  "mIsDecideConfig (on_list f s) = mIsDecideConfig s"
  "c_manager (on_list f s) = c_manager s"
  "length (mGamemodeConfigMenus (on_list f s)) = length (mGamemodeConfigMenus s)"
  "c_page s \<noteq> Main_page \<Longrightarrow> mMainOptionsList (on_list f s) = mMainOptionsList s"
  by (simp_all add: on_list_def split: config_page.split)

lemma kill_fields [config_simps]:
  "c_nerve (config_kill s) = c_nerve s"
  "c_step (config_kill s) = c_step s"
  "c_next (config_kill s) = c_next s"
  "mMainOptionsList (config_kill s) = mMainOptionsList s"
  "mModeSelectList (config_kill s) = mModeSelectList s"
  "mGamemodeConfigMenus (config_kill s) = mGamemodeConfigMenus s"
  "c_page (config_kill s) = c_page s"
  "mIsDecideConfig (config_kill s) = mIsDecideConfig s"
  "c_manager (config_kill s) = c_manager s"
  by (simp_all add: config_kill_def emit_def)

lemma reset_to_fields [config_simps]:
  "c_nerve (reset_to n s) = c_nerve s"
  "c_step (reset_to n s) = c_step s"
  "c_dead (reset_to n s) = c_dead s"
  "mMainOptionsList (reset_to n s) = mMainOptionsList s"
  "mModeSelectList (reset_to n s) = mModeSelectList s"
  "mGamemodeConfigMenus (reset_to n s) = mGamemodeConfigMenus s"
  "c_page (reset_to n s) = c_page s"
  "mIsDecideConfig (reset_to n s) = mIsDecideConfig s"
  "c_manager (reset_to n s) = c_manager s"
  "c_next (reset_to n s) = Some n"
  by (simp_all add: reset_to_def config_simps)

lemma move_cursor_fields [config_simps]:
  "c_nerve (move_cursor ops i s) = c_nerve s"
  "c_step (move_cursor ops i s) = c_step s"
  "c_next (move_cursor ops i s) = c_next s"
  "c_dead (move_cursor ops i s) = c_dead s"
  "c_page (move_cursor ops i s) = c_page s"
  "mIsDecideConfig (move_cursor ops i s) = mIsDecideConfig s"
  "c_manager (move_cursor ops i s) = c_manager s"
  "length (mGamemodeConfigMenus (move_cursor ops i s)) = length (mGamemodeConfigMenus s)"
  "c_page s \<noteq> Main_page \<Longrightarrow> mMainOptionsList (move_cursor ops i s) = mMainOptionsList s"
  by (simp_all add: move_cursor_def Let_def config_simps)

lemma on_decide_fields [config_simps]:
  "c_nerve (on_decide ops s) = c_nerve s"
  "c_step (on_decide ops s) = c_step s"
  "c_next (on_decide ops s) = c_next s"
  "c_dead (on_decide ops s) = c_dead s"
  "c_page (on_decide ops s) = c_page s"
  "c_manager (on_decide ops s) = c_manager s"
  "mIsDecideConfig (on_decide ops s)"
  "length (mGamemodeConfigMenus (on_decide ops s)) = length (mGamemodeConfigMenus s)"
  "c_page s \<noteq> Main_page \<Longrightarrow> mMainOptionsList (on_decide ops s) = mMainOptionsList s"
  by (simp_all add: on_decide_def config_simps)

lemma endSubMenu_fields [config_simps]:
  "c_nerve (endSubMenu ops s) = c_nerve s"
  "c_step (endSubMenu ops s) = c_step s"
  "c_dead (endSubMenu ops s) = c_dead s"
  "mIsDecideConfig (endSubMenu ops s) = mIsDecideConfig s"
  "c_manager (endSubMenu ops s) = c_manager s"
  "c_page (endSubMenu ops s) = Main_page"
  "c_next (endSubMenu ops s) = Some Nrv_MainMenu"
  "length (mGamemodeConfigMenus (endSubMenu ops s)) = length (mGamemodeConfigMenus s)"
  "c_page s \<noteq> Main_page \<Longrightarrow> mMainOptionsList (endSubMenu ops s) = mMainOptionsList s"
  by (simp_all add: endSubMenu_def Let_def config_simps)

lemma subMenuStart_fields [config_simps]:
  "c_nerve (subMenuStart ops s) = c_nerve s"
  "c_step (subMenuStart ops s) = c_step s"
  "c_next (subMenuStart ops s) = c_next s"
  "c_dead (subMenuStart ops s) = c_dead s"
  "c_page (subMenuStart ops s) = c_page s"
  "c_manager (subMenuStart ops s) = c_manager s"
  "\<not> mIsDecideConfig (subMenuStart ops s)"
  "length (mGamemodeConfigMenus (subMenuStart ops s)) = length (mGamemodeConfigMenus s)"
  "c_page s \<noteq> Main_page \<Longrightarrow> mMainOptionsList (subMenuStart ops s) = mMainOptionsList s"
  by (simp_all add: subMenuStart_def Let_def config_simps)

lemma subMenuUpdate_fields [config_simps]:
  "c_nerve (subMenuUpdate ops i s) = c_nerve s"
  "c_step (subMenuUpdate ops i s) = c_step s"
  "c_dead (subMenuUpdate ops i s) = c_dead s"
  "c_manager (subMenuUpdate ops i s) = c_manager s"
  "c_next (subMenuUpdate ops i s) = (if ui_cancel i then Some Nrv_MainMenu else c_next s)"
  "c_page (subMenuUpdate ops i s) = (if ui_cancel i then Main_page else c_page s)"
  "mIsDecideConfig (subMenuUpdate ops i s) = (mIsDecideConfig s \<or> ui_decide i)"
  "length (mGamemodeConfigMenus (subMenuUpdate ops i s)) = length (mGamemodeConfigMenus s)"
  "c_page s \<noteq> Main_page \<Longrightarrow> \<not> (ui_cancel i \<and> ui_decide i)
   \<Longrightarrow> mMainOptionsList (subMenuUpdate ops i s) = mMainOptionsList s"
  by (simp_all add: subMenuUpdate_def Let_def config_simps)

lemma main_menu_start_fields [config_simps]:
  "c_nerve (main_menu_start ops s) = c_nerve s"
  "c_step (main_menu_start ops s) = c_step s"
  "c_next (main_menu_start ops s) = c_next s"
  "c_dead (main_menu_start ops s) = c_dead s"
  "c_page (main_menu_start ops s) = c_page s"
  "c_manager (main_menu_start ops s) = c_manager s"
  "length (mGamemodeConfigMenus (main_menu_start ops s)) = length (mGamemodeConfigMenus s)"
  by (simp_all add: main_menu_start_def config_simps)

lemma page_fields [config_simps]:
  "mCurrentList (s\<lparr>c_manager := g\<rparr>) = mCurrentList s"
  "c_page s = Main_page \<Longrightarrow> mCurrentList s = mMainOptionsList s"
  "c_page s = Select_page \<Longrightarrow> mCurrentList s = mModeSelectList s"
  by (simp_all add: mCurrentList_def split: config_page.split)

section \<open>Back to the main menu\<close>

text \<open>
  What is chosen in a submenu when it is cancelled while a choice is under way is read from the list
  of the main menu, because \<open>endSubMenu\<close> has already switched the current list.
\<close>

lemma exeConnectError_next:
  "c_next (exeConnectError s) = (if connect_error_steps \<le> c_step s then Some Nrv_MainMenu else c_next s)"
  "c_nerve (exeConnectError s) = c_nerve s" "c_step (exeConnectError s) = c_step s"
  by (simp_all add: exeConnectError_def Let_def config_simps)

lemma connect_error_run:
  "c_nerve s = Nrv_ConnectError \<Longrightarrow> c_next s = None \<Longrightarrow> c_step s + n = connect_error_steps
   \<Longrightarrow> n < length is
   \<Longrightarrow> \<exists>s'. config_run ops (take (Suc n) is) s = Inr s' \<and> c_next s' = Some Nrv_MainMenu"
proof (induction n arbitrary: s "is")
  case 0
  then show ?case
    by (cases "is") (simp_all add: config_frame_def begin_nerve_def exe_nerve_def exeConnectError_next)
next
  case (Suc n)
  then obtain i is' where i: "is = i # is'" by (cases "is") auto
  let ?s = "(exeConnectError s)\<lparr>c_step := c_step s + 1\<rparr>"
  have "\<exists>s'. config_run ops (take (Suc n) is') ?s = Inr s' \<and> c_next s' = Some Nrv_MainMenu"
    by (rule Suc.IH) (use Suc.prems in \<open>simp_all add: exeConnectError_next i\<close>)
  then show ?case
    using Suc.prems by (simp add: i config_frame_def begin_nerve_def exe_nerve_def exeConnectError_next)
qed

definition wrong_info :: "mode_manager \<Rightarrow> bool" where
  "wrong_info g \<longleftrightarrow>
     isMode HIDEANDSEEK g \<and> (case mModeInfo g of Some (Ctf_info _) \<Rightarrow> True | _ \<Rightarrow> False)"

lemma menu_updateMenu_ok: "\<not> wrong_info g \<Longrightarrow> \<exists>r. menu_updateMenu k g = Inr r"
  by (auto simp: menu_updateMenu_def wrong_info_def split: option.splits mode_info.splits prod.splits)

lemma config_cancel:
  assumes "\<not> wrong_info (c_manager s)" and "ui_cancel i"
  shows "\<exists>s'. exeGamemodeConfig ops i s = Inr s' \<and> c_next s' = Some Nrv_MainMenu"
proof -
  obtain s0 where s0: "subMenuUpdate ops i (if c_step s = 0
      then subMenuStart ops (s\<lparr>c_page := Config_page (config_entry (mCurMode (c_manager s)))\<rparr>) else s) = s0"
    "c_manager s0 = c_manager s" "c_next s0 = Some Nrv_MainMenu"
    using assms(2) by (simp add: config_simps)
  obtain d g where "menu_updateMenu (lo_mCurSelected ops (mCurrentList s0)) (c_manager s0) = Inr (d, g)"
    using menu_updateMenu_ok [of "c_manager s0"] assms(1) s0(2) by fastforce
  then show ?thesis
    using s0 by (simp add: exeGamemodeConfig_def Let_def config_simps)
qed

lemma run_first:
  assumes "config_frame ops i s = Inr s'" and "config_run ops (take k is) s' = Inr t"
  shows "config_run ops (take (Suc k) (i # is)) s = Inr t"
  using assms by simp

lemma restart_next:
  "c_next (exeRestartServer ops i s) =
     Some (if in_isSocketActive i then Nrv_MainMenu else Nrv_ConnectError)"
  "c_step (exeRestartServer ops i s) = c_step s" "c_manager (exeRestartServer ops i s) = c_manager s"
  by (simp_all add: exeRestartServer_def Let_def config_simps)

lemma keyboard_next:
  "c_step s = 0 \<Longrightarrow> c_next (exeOpenKeyboard ops e i s) = Some (if in_saved i then Nrv_SaveData else Nrv_MainMenu)"
  by (simp add: exeOpenKeyboard_def config_simps)

lemma saveData_next:
  "in_saveDone i \<Longrightarrow> c_next (exeSaveData i s) = Some Nrv_MainMenu"
  by (simp add: exeSaveData_def Let_def config_simps)

lemma select_next:
  "ui_cancel i \<Longrightarrow> c_next (exeGamemodeSelect ops i s) = Some Nrv_MainMenu"
  by (simp add: exeGamemodeSelect_def Let_def config_simps)

lemma begin_fields:
  "c_next s = Some n \<Longrightarrow> begin_nerve s = s\<lparr>c_nerve := n, c_step := 0, c_next := None\<rparr>"
  by (simp add: begin_nerve_def)

lemma back_at_once:
  assumes "exe_nerve ops i (begin_nerve s) = Inr s'" and "c_next s' = Some n"
  shows "\<exists>t. config_run ops (take 1 (i # is)) s = Inr t \<and> c_next t = Some n"
  using assms by (simp add: config_frame_def)

lemma connect_error_back:
  assumes "c_next s = Some Nrv_ConnectError" and "connect_error_steps < length is"
  shows "\<exists>s'. config_run ops (take 61 is) s = Inr s' \<and> c_next s' = Some Nrv_MainMenu"
proof -
  let ?s = "begin_nerve s"
  have "begin_nerve ?s = ?s" using assms(1) by (simp add: begin_nerve_def)
  then have eq: "config_run ops (take 61 is) s = config_run ops (take 61 is) ?s"
    using assms(2) by (cases "is") (simp_all add: config_frame_def connect_error_steps_def)
  show ?thesis
    using connect_error_run [of ?s 60 "is" ops] assms
    by (simp add: eq begin_fields connect_error_steps_def)
qed

lemma frame_then:
  assumes "\<exists>t. config_run ops (take k is) s = Inr t \<and> c_next t = n" and "k \<le> m"
    and "config_frame ops i s' = Inr s"
  shows "\<exists>k\<le>Suc m. \<exists>t. config_run ops (take k (i # is)) s' = Inr t \<and> c_next t = n"
  using assms by (intro exI [of _ "Suc k"]) auto

lemma config_cancel_returns:
  assumes "c_next s = Some n" and "n = Nrv_GamemodeConfig \<longrightarrow> \<not> wrong_info (c_manager s)" and "length is = 62"
    and "\<And>i. i \<in> set is \<Longrightarrow> ui_cancel i \<and> in_saveDone i"
  shows "\<exists>k\<le>62. \<exists>s'. config_run ops (take k is) s = Inr s' \<and> c_next s' = Some Nrv_MainMenu"
proof -
  obtain i js where i: "is = i # js" "ui_cancel i" "in_saveDone i" and js: "length js = 61"
    and j: "\<And>j. j \<in> set js \<Longrightarrow> in_saveDone j"
    using assms(3,4) by (cases "is") auto
  let ?s = "begin_nerve s"
  have b: "?s = s\<lparr>c_nerve := n, c_step := 0, c_next := None\<rparr>" using assms(1) by (rule begin_fields)
  have once: "\<exists>k\<le>62. \<exists>t. config_run ops (take k is) s = Inr t \<and> c_next t = Some Nrv_MainMenu"
    if "exe_nerve ops i ?s = Inr s'" "c_next s' = Some Nrv_MainMenu" for s'
    using back_at_once [OF that, of js] unfolding i(1) by (intro exI [of _ 1]) simp
  have then_back: "\<exists>k\<le>62. \<exists>t. config_run ops (take k is) s = Inr t \<and> c_next t = Some Nrv_MainMenu"
    if "exe_nerve ops i ?s = Inr s'" "k \<le> 61"
      "\<exists>t. config_run ops (take k js) (s'\<lparr>c_step := c_step s' + 1\<rparr>) = Inr t \<and> c_next t = Some Nrv_MainMenu"
    for s' k
    using frame_then [OF that(3) that(2), of i s] that(1) by (simp add: i(1) config_frame_def)
  have keyboard: "\<exists>k\<le>62. \<exists>t. config_run ops (take k is) s = Inr t \<and> c_next t = Some Nrv_MainMenu"
    if "exe_nerve ops i ?s = Inr (exeOpenKeyboard ops e i ?s)" for e
  proof (cases "in_saved i")
    case False
    then show ?thesis using once [OF that] by (simp add: keyboard_next b)
  next
    case True
    let ?t = "(exeOpenKeyboard ops e i ?s)\<lparr>c_step := c_step (exeOpenKeyboard ops e i ?s) + 1\<rparr>"
    obtain j' ks where k: "js = j' # ks" using js by (cases js) auto
    have t: "c_next ?t = Some Nrv_SaveData" using True by (simp add: keyboard_next b)
    have "\<exists>u. config_run ops (take 1 js) ?t = Inr u \<and> c_next u = Some Nrv_MainMenu"
      unfolding k by (rule back_at_once [of _ _ _ "exeSaveData j' (begin_nerve ?t)"])
        (use j t in \<open>simp_all add: k begin_fields exe_nerve_def saveData_next\<close>)
    then show ?thesis by (rule then_back [OF that, of 1, rotated]) simp
  qed
  show ?thesis
  proof (cases n)
    case Nrv_MainMenu
    then show ?thesis using assms(1) by (intro exI [of _ 0]) simp
  next
    case Nrv_OpenKeyboardIP
    then show ?thesis by (intro keyboard) (simp add: exe_nerve_def b)
  next
    case Nrv_OpenKeyboardPort
    then show ?thesis by (intro keyboard) (simp add: exe_nerve_def b)
  next
    case Nrv_RestartServer
    then have e: "exe_nerve ops i ?s = Inr (exeRestartServer ops i ?s)" by (simp add: exe_nerve_def b)
    show ?thesis
    proof (cases "in_isSocketActive i")
      case True
      then show ?thesis using once [OF e] by (simp add: restart_next)
    next
      case False
      show ?thesis
        by (rule then_back [OF e, of 61], simp, rule connect_error_back)
          (use False js in \<open>simp_all add: restart_next connect_error_steps_def\<close>)
    qed
  next
    case Nrv_GamemodeConfig
    then obtain s' where "exe_nerve ops i ?s = Inr s'" "c_next s' = Some Nrv_MainMenu"
      using config_cancel [of ?s i ops] assms(2) i(2) by (auto simp: exe_nerve_def b)
    then show ?thesis by (rule once)
  next
    case Nrv_GamemodeSelect
    then show ?thesis using i(2) once [of "exeGamemodeSelect ops i ?s"] by (simp add: exe_nerve_def b select_next)
  next
    case Nrv_SaveData
    then show ?thesis using i(3) once [of "exeSaveData i ?s"] by (simp add: exe_nerve_def b saveData_next)
  next
    case Nrv_ConnectError
    then show ?thesis
      using connect_error_back [of s "is" ops] assms(1,3) by (intro exI [of _ 61]) (simp add: connect_error_steps_def)
  qed
qed

text \<open>While the error is shown the page waits, whatever the player does.\<close>

lemma connect_error_waits:
  "c_nerve s = Nrv_ConnectError \<Longrightarrow> c_next s = None \<Longrightarrow> c_step s + k \<le> connect_error_steps \<Longrightarrow> k \<le> length is \<Longrightarrow>
   \<exists>t. config_run ops (take k is) s = Inr t \<and> c_nerve t = Nrv_ConnectError \<and> c_next t = None"
proof (induction k arbitrary: s "is")
  case 0
  then show ?case by simp
next
  case (Suc k)
  then obtain i is' where i: "is = i # is'" by (cases "is") auto
  let ?s = "(exeConnectError s)\<lparr>c_step := c_step s + 1\<rparr>"
  have "\<exists>t. config_run ops (take k is') ?s = Inr t \<and> c_nerve t = Nrv_ConnectError \<and> c_next t = None"
    by (rule Suc.IH) (use Suc.prems in \<open>simp_all add: exeConnectError_next i\<close>)
  then show ?case
    using Suc.prems by (simp add: i config_frame_def begin_nerve_def exe_nerve_def exeConnectError_next)
qed

lemma config_run_begin:
  "0 < k \<Longrightarrow> is \<noteq> [] \<Longrightarrow> config_run ops (take k is) s = config_run ops (take k is) (begin_nerve s)"
proof -
  assume "0 < k" "is \<noteq> []"
  then obtain i js n where "is = i # js" "k = Suc n" by (cases "is"; cases k) auto
  moreover have "begin_nerve (begin_nerve s) = begin_nerve s" by (simp add: begin_nerve_def split: option.split)
  ultimately show ?thesis by (simp add: config_frame_def)
qed

text \<open>
  C20: However the page is entered, a player who presses cancel in every frame is back in the main menu after
  at most 62 frames, if the save file is written at once and the menu of hide and seek is not opened on the other
  mode's information. The page of a failed reconnection needs no cancel: whatever the player presses in 61
  frames, it stays for 60 of them and asks for the main menu in the 61st.
\<close>

theorem config_returns:
  assumes "c_next s = Some n" and "n = Nrv_GamemodeConfig \<longrightarrow> \<not> wrong_info (c_manager s)" and "length is = 62"
    and "\<And>i. i \<in> set is \<Longrightarrow> ui_cancel i \<and> in_saveDone i"
  shows "(\<exists>k\<le>62. \<exists>s'. config_run ops (take k is) s = Inr s' \<and> c_next s' = Some Nrv_MainMenu) \<and>
    (n = Nrv_ConnectError \<longrightarrow> (\<forall>js. length js = 61 \<longrightarrow>
       (\<forall>k\<in>{1..60}. \<exists>t. config_run ops (take k js) s = Inr t \<and> c_nerve t = Nrv_ConnectError \<and> c_next t = None) \<and>
       (\<exists>t. config_run ops js s = Inr t \<and> c_next t = Some Nrv_MainMenu)))"
proof (intro conjI impI allI)
  show "\<exists>k\<le>62. \<exists>s'. config_run ops (take k is) s = Inr s' \<and> c_next s' = Some Nrv_MainMenu"
    using assms by (rule config_cancel_returns)
next
  fix js :: "config_inputs list"
  assume n: "n = Nrv_ConnectError" and js: "length js = 61"
  have b: "c_nerve (begin_nerve s) = Nrv_ConnectError" "c_next (begin_nerve s) = None" "c_step (begin_nerve s) = 0"
    using assms(1) n by (simp_all add: begin_nerve_def)
  show "\<forall>k\<in>{1..60}. \<exists>t. config_run ops (take k js) s = Inr t \<and> c_nerve t = Nrv_ConnectError \<and> c_next t = None"
  proof
    fix k :: nat
    assume k: "k \<in> {1..60}"
    then have "\<exists>t. config_run ops (take k js) (begin_nerve s) = Inr t \<and> c_nerve t = Nrv_ConnectError \<and> c_next t = None"
      using b js by (intro connect_error_waits) (simp_all add: connect_error_steps_def)
    moreover have "config_run ops (take k js) s = config_run ops (take k js) (begin_nerve s)"
      using k js by (intro config_run_begin) auto
    ultimately show "\<exists>t. config_run ops (take k js) s = Inr t \<and> c_nerve t = Nrv_ConnectError \<and> c_next t = None"
      by simp
  qed
  show "\<exists>t. config_run ops js s = Inr t \<and> c_next t = Some Nrv_MainMenu"
    using connect_error_back [of s js ops] assms(1) n js by (simp add: connect_error_steps_def)
qed

section \<open>What is chosen\<close>

text \<open>
  The page between frames: while a submenu is on, the list of the main menu still rests on the option
  that opened it.
\<close>

definition chosen :: "'l list_ops \<Rightarrow> s32 \<Rightarrow> 'l server_config \<Rightarrow> bool" where
  "chosen ops k s \<longleftrightarrow>
     lo_isDecideEnd ops (mMainOptionsList s) \<and> lo_mCurSelected ops (mMainOptionsList s) = k"

definition upcoming :: "'l server_config \<Rightarrow> config_nerve" where
  "upcoming s = (case c_next s of None \<Rightarrow> c_nerve s | Some n \<Rightarrow> n)"

definition config_inv :: "'l list_ops \<Rightarrow> 'l server_config \<Rightarrow> bool" where
  "config_inv ops s \<longleftrightarrow>
     length (mGamemodeConfigMenus s) = getMenuCount \<and>
     (upcoming s = Nrv_GamemodeSelect \<longrightarrow> chosen ops GAMEMODESWITCH s) \<and>
     (upcoming s = Nrv_GamemodeConfig \<longrightarrow> chosen ops GAMEMODECONFIG s) \<and>
     (if c_next s = None \<and> c_nerve s \<in> {Nrv_GamemodeSelect, Nrv_GamemodeConfig}
      then 0 < c_step s \<and> c_page s = (if c_nerve s = Nrv_GamemodeSelect then Select_page else Config_page 0)
      else c_page s = Main_page)"

lemma config_entry_0: "config_entry m = 0"
  by (simp add: config_entry_def getMenuCount_def menuTable_def)

lemma option_nerve_sub:
  "option_nerve k = Some Nrv_GamemodeSelect \<longleftrightarrow> k = GAMEMODESWITCH"
  "option_nerve k = Some Nrv_GamemodeConfig \<longleftrightarrow> k = GAMEMODECONFIG"
  by (auto simp: option_nerve_def GAMEMODECONFIG_def GAMEMODESWITCH_def)

lemma config_inv_init: "config_inv ops (config_init l l' l'' g)"
  by (simp add: config_inv_def config_init_def upcoming_def)

text \<open>Outside the submenus a frame leaves the page on the main menu.\<close>

definition at_main :: "'l list_ops \<Rightarrow> 'l server_config \<Rightarrow> bool" where
  "at_main ops s \<longleftrightarrow>
     length (mGamemodeConfigMenus s) = getMenuCount \<and> c_page s = Main_page \<and>
     (c_next s = None \<longrightarrow> c_nerve s \<notin> {Nrv_GamemodeSelect, Nrv_GamemodeConfig}) \<and>
     (c_next s = Some Nrv_GamemodeSelect \<longrightarrow> chosen ops GAMEMODESWITCH s) \<and>
     (c_next s = Some Nrv_GamemodeConfig \<longrightarrow> chosen ops GAMEMODECONFIG s)"

lemma at_main_inv: "at_main ops s \<Longrightarrow> config_inv ops s"
  by (cases "c_next s") (auto simp: at_main_def config_inv_def upcoming_def)

lemma exeMainMenu_main:
  assumes "at_main ops s" and "c_nerve s = Nrv_MainMenu" and "c_next s = None"
  shows "at_main ops (exeMainMenu ops i s)"
proof -
  obtain s0 where s0: "(let s = move_cursor ops i (main_menu_start ops s);
          s = (if ui_cancel i then config_kill s else s)
      in if ui_decide i then on_decide ops s else s) = s0" by simp
  then have f: "c_nerve s0 = Nrv_MainMenu" "c_next s0 = None" "c_page s0 = Main_page"
    "length (mGamemodeConfigMenus s0) = getMenuCount"
    using assms by (auto simp: Let_def config_simps at_main_def)
  have e: "exeMainMenu ops i s =
    (if decided ops s0
         then (case option_nerve (lo_mCurSelected ops (mCurrentList s0)) of
                 Some n \<Rightarrow> set_nerve n s0
               | None \<Rightarrow> config_kill s0)
         else s0)"
    by (simp only: exeMainMenu_def s0 [symmetric] Let_def)
  show ?thesis
    using f by (auto simp: e at_main_def config_simps decided_def chosen_def option_nerve_sub
        set_nerve_def option_nerve_def [of "lo_mCurSelected ops (mMainOptionsList s0)"]
        GAMEMODECONFIG_def GAMEMODESWITCH_def split: option.splits if_splits)
qed

lemma other_main:
  assumes "at_main ops s" and "c_next s = None"
    and "c_nerve s \<notin> {Nrv_MainMenu, Nrv_GamemodeConfig, Nrv_GamemodeSelect}"
    and "exe_nerve ops i s = Inr s'"
  shows "at_main ops s'"
  using assms
  by (cases "c_nerve s")
    (auto simp: exe_nerve_def exeOpenKeyboard_def exeRestartServer_def exeSaveData_def exeConnectError_def
      at_main_def config_simps Let_def split: if_splits)

text \<open>
  In a submenu: either it goes on, the main menu's list untouched, or the page is back on the main
  menu.
\<close>

definition in_sub :: "'l list_ops \<Rightarrow> s32 \<Rightarrow> config_page \<Rightarrow> 'l server_config \<Rightarrow> bool" where
  "in_sub ops k p s \<longleftrightarrow>
     length (mGamemodeConfigMenus s) = getMenuCount \<and>
     (if c_next s = None then c_page s = p \<and> chosen ops k s
      else c_page s = Main_page \<and> c_next s = Some Nrv_MainMenu)"

lemma subMenuUpdate_sub:
  assumes "c_page s = p" and "p \<noteq> Main_page" and "chosen ops k s" and "c_next s = None"
    and "length (mGamemodeConfigMenus s) = getMenuCount"
  shows "in_sub ops k p (subMenuUpdate ops i s)"
  using assms by (simp add: in_sub_def config_simps chosen_def)

lemma in_sub_manager: "in_sub ops k p (s\<lparr>c_manager := g\<rparr>) = in_sub ops k p s"
  by (simp add: in_sub_def chosen_def)

lemma endSubMenu_sub: "in_sub ops k p s \<Longrightarrow> in_sub ops k p (endSubMenu ops s)"
  by (auto simp: in_sub_def config_simps split: if_splits)

lemma chosen_sub [config_simps]:
  "c_page s \<noteq> Main_page \<Longrightarrow> chosen ops k (subMenuStart ops s) = chosen ops k s"
  by (simp add: chosen_def config_simps)

lemma select_sub:
  assumes "chosen ops GAMEMODESWITCH s" and "c_next s = None" and "0 < c_step s \<longrightarrow> c_page s = Select_page"
    and "length (mGamemodeConfigMenus s) = getMenuCount"
  shows "in_sub ops GAMEMODESWITCH Select_page (exeGamemodeSelect ops i s)"
proof -
  let ?s = "if c_step s = 0 then subMenuStart ops (s\<lparr>c_page := Select_page\<rparr>) else s"
  have "in_sub ops GAMEMODESWITCH Select_page (subMenuUpdate ops i ?s)"
    by (rule subMenuUpdate_sub) (use assms in \<open>auto simp: config_simps chosen_def\<close>)
  then show ?thesis
    unfolding exeGamemodeSelect_def Let_def
    by (simp only: endSubMenu_sub in_sub_manager split: if_split) simp
qed

lemma config_sub:
  assumes "chosen ops GAMEMODECONFIG s" and "c_next s = None" and "0 < c_step s \<longrightarrow> c_page s = Config_page 0"
    and "length (mGamemodeConfigMenus s) = getMenuCount" and "exeGamemodeConfig ops i s = Inr s'"
  shows "in_sub ops GAMEMODECONFIG (Config_page 0) s'"
proof -
  let ?s = "if c_step s = 0
     then subMenuStart ops (s\<lparr>c_page := Config_page (config_entry (mCurMode (c_manager s)))\<rparr>) else s"
  have u: "in_sub ops GAMEMODECONFIG (Config_page 0) (subMenuUpdate ops i ?s)"
    by (rule subMenuUpdate_sub) (use assms in \<open>auto simp: config_simps chosen_def config_entry_0\<close>)
  obtain t where t: "subMenuUpdate ops i ?s = t" by blast
  have e: "exeGamemodeConfig ops i s =
     (if decided ops t
      then rbind (menu_updateMenu (lo_mCurSelected ops (mCurrentList t)) (c_manager t)) (\<lambda>(done, g).
             Inr (if done then endSubMenu ops (t\<lparr>c_manager := g\<rparr>) else t\<lparr>c_manager := g\<rparr>))
      else Inr t)"
    by (simp only: exeGamemodeConfig_def t [symmetric] Let_def)
  have "in_sub ops GAMEMODECONFIG (Config_page 0) t" using u by (simp only: t)
  then show ?thesis
    using assms(5) unfolding e
    by (auto elim!: rbind_InrE intro!: endSubMenu_sub simp: in_sub_manager split: if_splits)
qed

lemma in_sub_inv:
  assumes "in_sub ops k p s" and "c_nerve s = n" and "0 < c_step s"
    and "(n, k, p) \<in> {(Nrv_GamemodeSelect, GAMEMODESWITCH, Select_page),
                      (Nrv_GamemodeConfig, GAMEMODECONFIG, Config_page 0)}"
  shows "config_inv ops s"
  using assms by (auto simp: in_sub_def config_inv_def upcoming_def split: if_splits)

lemma exe_fields:
  assumes "exe_nerve ops i s = Inr s'"
  shows "c_nerve s' = c_nerve s \<and> c_step s' = c_step s"
  using assms
  by (cases "c_nerve s")
    (auto simp: exe_nerve_def exeMainMenu_def exeOpenKeyboard_def exeRestartServer_def exeSaveData_def
      exeConnectError_def exeGamemodeSelect_def exeGamemodeConfig_def config_simps Let_def
      elim!: rbind_InrE split: if_splits option.splits)

lemma begin_inv:
  assumes "config_inv ops s"
  shows "c_next (begin_nerve s) = None"
    and "c_nerve (begin_nerve s) = Nrv_GamemodeSelect
         \<Longrightarrow> chosen ops GAMEMODESWITCH (begin_nerve s)
             \<and> (0 < c_step (begin_nerve s) \<longrightarrow> c_page (begin_nerve s) = Select_page)"
    and "c_nerve (begin_nerve s) = Nrv_GamemodeConfig
         \<Longrightarrow> chosen ops GAMEMODECONFIG (begin_nerve s)
             \<and> (0 < c_step (begin_nerve s) \<longrightarrow> c_page (begin_nerve s) = Config_page 0)"
    and "c_nerve (begin_nerve s) \<notin> {Nrv_GamemodeSelect, Nrv_GamemodeConfig} \<Longrightarrow> at_main ops (begin_nerve s)"
    and "length (mGamemodeConfigMenus (begin_nerve s)) = getMenuCount"
  using assms
  by (auto simp: begin_nerve_def config_inv_def at_main_def chosen_def upcoming_def split: option.splits if_splits)

lemma at_main_step: "at_main ops (s\<lparr>c_step := n\<rparr>) = at_main ops s"
  by (simp add: at_main_def chosen_def)

lemma in_sub_step: "in_sub ops k p (s\<lparr>c_step := n\<rparr>) = in_sub ops k p s"
  by (simp add: in_sub_def chosen_def)

lemma config_frame_inv:
  assumes "config_inv ops s" and "config_frame ops i s = Inr s'"
  shows "config_inv ops s'"
proof -
  let ?s = "begin_nerve s"
  note b = begin_inv [OF assms(1)]
  obtain t where t: "exe_nerve ops i ?s = Inr t" and s': "s' = t\<lparr>c_step := Suc (c_step t)\<rparr>"
    using assms(2) by (auto simp: config_frame_def elim!: rbind_InrE)
  have n: "c_nerve t = c_nerve ?s" using exe_fields [OF t] by simp
  consider (select) "c_nerve ?s = Nrv_GamemodeSelect" | (config) "c_nerve ?s = Nrv_GamemodeConfig"
    | (other) "c_nerve ?s \<notin> {Nrv_GamemodeSelect, Nrv_GamemodeConfig}" by blast
  then show ?thesis
  proof cases
    case select
    then have "in_sub ops GAMEMODESWITCH Select_page t"
      using select_sub [of ops ?s i] b t by (simp add: exe_nerve_def)
    then show ?thesis
      by (intro in_sub_inv [of ops GAMEMODESWITCH Select_page]) (use select n in \<open>simp_all add: s' in_sub_step\<close>)
  next
    case config
    then have "in_sub ops GAMEMODECONFIG (Config_page 0) t"
      using config_sub [of ops ?s i t] b t by (simp add: exe_nerve_def)
    then show ?thesis
      by (intro in_sub_inv [of ops GAMEMODECONFIG "Config_page 0"]) (use config n in \<open>simp_all add: s' in_sub_step\<close>)
  next
    case other
    then have m: "at_main ops ?s" by (rule b)
    have "at_main ops t"
    proof (cases "c_nerve ?s = Nrv_MainMenu")
      case True
      then show ?thesis using exeMainMenu_main [OF m True b(1), of i] t by (simp add: exe_nerve_def)
    next
      case False
      then show ?thesis using other_main [OF m b(1) _ t] other by auto
    qed
    then show ?thesis by (simp add: s' at_main_inv at_main_step)
  qed
qed

text \<open>
  The page in the game: its frames, the pause menu that shows and hides it, and whatever else changes
  the mode manager between its frames.
\<close>

inductive config_reach :: "'l list_ops \<Rightarrow> 'l server_config \<Rightarrow> bool" for ops where
  start: "config_reach ops (config_init l l' l'' g)"
| frame: "config_reach ops s \<Longrightarrow> config_frame ops i s = Inr s' \<Longrightarrow> config_reach ops s'"
| appear: "config_reach ops s \<Longrightarrow> config_reach ops (config_appear s)"
| kill: "config_reach ops s \<Longrightarrow> config_reach ops (config_kill s)"
| manager: "config_reach ops s \<Longrightarrow> config_reach ops (s\<lparr>c_manager := g\<rparr>)"

lemma config_inv_other:
  "config_inv ops s \<Longrightarrow> config_inv ops (config_appear s)"
  "config_inv ops s \<Longrightarrow> config_inv ops (config_kill s)"
  "config_inv ops s \<Longrightarrow> config_inv ops (s\<lparr>c_manager := g\<rparr>)"
  by (simp_all add: config_inv_def config_appear_def config_kill_def emit_def upcoming_def chosen_def
      cong: option.case_cong if_cong)

lemma config_reach_inv: "config_reach ops s \<Longrightarrow> config_inv ops s"
  by (induction rule: config_reach.induct)
    (auto intro: config_inv_init config_frame_inv config_inv_other)

text \<open>A list for the examples: a choice takes two frames to end.\<close>

definition example_ops :: "(nat \<times> s32) list_ops" where
  "example_ops =
     \<lparr>lo_activate = \<lambda>(d, k). (0, k), lo_deactivate = \<lambda>(d, k). (0, k), lo_appearCursor = id,
      lo_endCursor = id, lo_update = \<lambda>(d, k). (if 1 < d then d - 1 else d, k),
      lo_up = \<lambda>(d, k). (d, k - 1), lo_down = \<lambda>(d, k). (d, k + 1), lo_decide = \<lambda>(d, k). (3, k),
      lo_isDecideEnd = \<lambda>(d, k). d = 1, lo_mCurSelected = snd\<rparr>"

definition idle :: config_inputs where
  "idle =
     \<lparr>ui_up = False, ui_down = False, ui_cancel = False, ui_decide = False, in_saved = False,
      in_isSocketActive = False, in_saveDone = False\<rparr>"

definition page_start :: "(nat \<times> s32) server_config" where
  "page_start = config_init (0, 0) (0, 0) (0, 0) GameModeManager_new"

text \<open>The second option is chosen, and in the submenu the first mode.\<close>

definition select_steps :: "config_inputs list" where
  "select_steps = [idle\<lparr>ui_down := True, ui_decide := True\<rparr>, idle, idle, idle, idle\<lparr>ui_decide := True\<rparr>, idle]"

definition select_pending :: "(nat \<times> s32) server_config" where
  "select_pending = (case config_run example_ops (take 5 select_steps) page_start of Inr s \<Rightarrow> s | Inl _ \<Rightarrow> page_start)"

lemma config_run_reach: "config_reach ops s \<Longrightarrow> config_run ops is s = Inr s' \<Longrightarrow> config_reach ops s'"
  by (induction ops "is" s rule: config_run.induct) (auto elim!: rbind_InrE intro: config_reach.frame)

lemmas example_defs = select_steps_def page_start_def config_init_def idle_def example_ops_def
  config_frame_def begin_nerve_def exe_nerve_def exeMainMenu_def exeGamemodeSelect_def Let_def
  main_menu_start_def move_cursor_def on_list_def mCurrentList_def decided_def on_decide_def emit_def
  set_nerve_def option_nerve_def GAMEMODECONFIG_def GAMEMODESWITCH_def subMenuStart_def subMenuUpdate_def
  endSubMenu_def reset_to_def

lemma select_pending_run: "config_run example_ops (take 5 select_steps) page_start = Inr select_pending"
  by (simp add: select_pending_def example_defs)

lemma select_pending_fields:
  "c_nerve select_pending = Nrv_GamemodeSelect" "c_next select_pending = None"
  "mIsDecideConfig select_pending"
  by (simp_all add: select_pending_def example_defs)

lemma select_pending_reach: "config_reach example_ops select_pending"
  by (rule config_run_reach [OF _ select_pending_run]) (simp add: page_start_def config_reach.start)

theorem config_returns_witness:
  "(\<exists>k\<le>62. \<exists>s'. config_run example_ops (take k (replicate 62 (idle\<lparr>ui_cancel := True, in_saveDone := True\<rparr>)))
      (set_nerve Nrv_ConnectError page_start) = Inr s' \<and> c_next s' = Some Nrv_MainMenu) \<and>
   (\<exists>t. config_run example_ops (replicate 61 idle) (set_nerve Nrv_ConnectError page_start) = Inr t \<and>
      c_next t = Some Nrv_MainMenu)"
proof -
  let ?s = "set_nerve Nrv_ConnectError page_start" and ?i = "idle\<lparr>ui_cancel := True, in_saveDone := True\<rparr>"
  have "c_next ?s = Some Nrv_ConnectError" "length (replicate 62 ?i) = 62"
    "\<And>i. i \<in> set (replicate 62 ?i) \<Longrightarrow> ui_cancel i \<and> in_saveDone i"
    by (simp_all add: set_nerve_def)
  from config_returns [OF this(1) _ this(2,3), of example_ops] show ?thesis by simp
qed

text \<open>
  C21: Cancelling the mode selection while a choice is under way sets the mode to capture the flag, whatever
  mode is chosen: the choice is then read from the list of the main menu, which still rests on its second
  option.
\<close>

theorem cancel_sets_mode:
  assumes "config_reach ops s" and "c_nerve s = Nrv_GamemodeSelect" and "c_next s = None"
    and "mIsDecideConfig s" and "ui_cancel i" and "\<not> ui_decide i"
  shows "\<exists>s'. config_frame ops i s = Inr s' \<and>
              c_manager s' = setMode CAPTURE_THE_FLAG (c_manager s) \<and> c_next s' = Some Nrv_MainMenu"
proof -
  have inv: "config_inv ops s" by (rule config_reach_inv [OF assms(1)])
  then have "0 < c_step s" "c_page s = Select_page" "chosen ops GAMEMODESWITCH s"
    using assms(2,3) by (auto simp: config_inv_def upcoming_def)
  then show ?thesis
    using assms
    by (simp add: config_frame_def begin_nerve_def exe_nerve_def exeGamemodeSelect_def Let_def config_simps
        decided_def chosen_def GAMEMODESWITCH_def CAPTURE_THE_FLAG_def)
qed

theorem cancel_sets_mode_witness:
  "\<exists>s'. config_frame example_ops (idle\<lparr>ui_cancel := True\<rparr>) select_pending = Inr s' \<and>
        c_manager s' = setMode CAPTURE_THE_FLAG (c_manager select_pending) \<and> c_next s' = Some Nrv_MainMenu"
  by (rule cancel_sets_mode) (simp_all add: select_pending_fields select_pending_reach idle_def)

text \<open>
  Without cancel, the chosen mode becomes the mode in the frame in which the choice ends and the page
  returns to the main menu; before that frame the mode manager is left alone.
\<close>

theorem select_sets_mode:
  assumes "config_reach ops s" and "c_nerve s = Nrv_GamemodeSelect" and "c_next s = None"
    and "mIsDecideConfig s" and "\<not> ui_cancel i" and "\<not> ui_decide i"
  defines "l \<equiv> mModeSelectList (move_cursor ops i s)"
  shows "\<exists>s'. config_frame ops i s = Inr s' \<and>
           (if lo_isDecideEnd ops l
            then c_manager s' = setMode (ucast (lo_mCurSelected ops l)) (c_manager s) \<and>
                 c_next s' = Some Nrv_MainMenu
            else c_manager s' = c_manager s \<and> c_next s' = None)"
proof -
  have inv: "config_inv ops s" by (rule config_reach_inv [OF assms(1)])
  then have "0 < c_step s" "c_page s = Select_page"
    using assms(2,3) by (auto simp: config_inv_def upcoming_def)
  then show ?thesis
    using assms(2-6) unfolding l_def
    by (simp add: config_frame_def begin_nerve_def exe_nerve_def exeGamemodeSelect_def subMenuUpdate_def Let_def
        config_simps decided_def)
qed

theorem select_sets_mode_witness:
  "\<exists>s'. config_frame example_ops idle select_pending = Inr s' \<and>
     (if lo_isDecideEnd example_ops (mModeSelectList (move_cursor example_ops idle select_pending))
      then c_manager s' =
             setMode (ucast (lo_mCurSelected example_ops
               (mModeSelectList (move_cursor example_ops idle select_pending)))) (c_manager select_pending) \<and>
           c_next s' = Some Nrv_MainMenu
      else c_manager s' = c_manager select_pending \<and> c_next s' = None)"
  by (rule select_sets_mode) (simp_all add: select_pending_fields select_pending_reach idle_def)

lemma menu_updateMenu_ctf:
  "menu_updateMenu k g = Inr (r, g') \<Longrightarrow> mModeInfo g = Some (Ctf_info c) \<Longrightarrow> g' = g"
  by (auto simp: menu_updateMenu_def split: if_splits)

lemma exe_ctf_info:
  assumes "exe_nerve ops i s = Inr s'" and "mModeInfo (c_manager s) = Some (Ctf_info c)"
  shows "mModeInfo (c_manager s') = Some (Ctf_info c)"
  using assms
  by (cases "c_nerve s")
    (auto simp: exe_nerve_def exeMainMenu_def exeOpenKeyboard_def exeRestartServer_def exeSaveData_def
      exeConnectError_def exeGamemodeSelect_def exeGamemodeConfig_def config_simps Let_def setMode_def
      elim!: rbind_InrE dest!: menu_updateMenu_ctf split: if_splits option.splits)

text \<open>
  However the page is used, the information of capture the flag is never changed: the configuration menu
  of that mode cannot be reached.
\<close>

theorem ctf_gravity_unreachable:
  assumes "config_run ops is s = Inr s'" and "mModeInfo (c_manager s) = Some (Ctf_info c)"
  shows "mModeInfo (c_manager s') = Some (Ctf_info c)"
  using assms
proof (induction "is" arbitrary: s)
  case (Cons i "is")
  then obtain t where t: "config_frame ops i s = Inr t" "config_run ops is t = Inr s'"
    by (auto elim!: rbind_InrE)
  have "mModeInfo (c_manager t) = Some (Ctf_info c)"
    using t(1) Cons.prems(2) exe_ctf_info [of ops i "begin_nerve s"]
    by (auto simp: config_frame_def begin_nerve_def elim!: rbind_InrE split: option.splits)
  then show ?case using Cons.IH t(2) by blast
qed simp

theorem ctf_gravity_unreachable_witness:
  "\<exists>s'. config_run example_ops select_steps
          (page_start\<lparr>c_manager := GameModeManager_new\<lparr>mModeInfo := Some (Ctf_info CaptureTheFlagInfo_new)\<rparr>\<rparr>) = Inr s'
     \<and> mModeInfo (c_manager s') = Some (Ctf_info CaptureTheFlagInfo_new)"
proof -
  obtain s' where "config_run example_ops select_steps
     (page_start\<lparr>c_manager := GameModeManager_new\<lparr>mModeInfo := Some (Ctf_info CaptureTheFlagInfo_new)\<rparr>\<rparr>) = Inr s'"
    by (simp add: example_defs)
  with ctf_gravity_unreachable [OF this] show ?thesis by simp
qed

end
