(* ===== verification/Safe_String.thy ===== *)
theory Safe_String
  imports Prelude "HOL-Library.Sublist"
begin

text \<open>
  The engine library's string class, as far as it reads (\<open>sead/prim/seadSafeString.h\<close>,
  \<open>seadSafeString.hpp\<close>). A string is the memory from its first character on, a list of cells that
  contains a NUL; what it says is \<open>c_str\<close> of it. The assertions of the library are empty in the mod's
  build. Lengths and indices are \<open>s32\<close>, written as integers: no string is longer than \<open>cMaximumLength\<close>.
\<close>

section \<open>Operations\<close>

definition cMaximumLength :: nat where
  "cMaximumLength = 0x80000"

text \<open>The string object of a character array, as a literal or a buffer that ends there.\<close>

definition cells :: "string \<Rightarrow> char list" where
  "cells s = s @ [nul]"

definition string_ok :: "char list \<Rightarrow> bool" where
  "string_ok m \<longleftrightarrow> nul \<in> set m \<and> length m \<le> cMaximumLength"

text \<open>The loop of \<open>calcLength\<close>; it also stops, over-long, past the maximum.\<close>

fun calcLength_loop :: "nat \<Rightarrow> char list \<Rightarrow> nat" where
  "calcLength_loop len [] = len"
| "calcLength_loop len (c # m) =
     (if len > cMaximumLength \<or> c = nul then len else calcLength_loop (Suc len) m)"

definition calcLength :: "char list \<Rightarrow> nat" where
  "calcLength m = (let len = calcLength_loop 0 m in if len > cMaximumLength then 0 else len)"

definition string_at :: "int \<Rightarrow> char list \<Rightarrow> char" where
  "string_at idx m = (if idx < 0 \<or> idx > int (calcLength m) then nul else m ! nat idx)"

definition getPart :: "int \<Rightarrow> char list \<Rightarrow> char list" where
  "getPart at m = (if at < 0 \<or> at > int (calcLength m) then cells [] else drop (nat at) m)"

fun include_loop :: "nat \<Rightarrow> char \<Rightarrow> char list \<Rightarrow> bool" where
  "include_loop n c (d # m) =
     (if n = 0 then False
      else if d = nul then False else if d = c then True else include_loop (n - 1) c m)"
| "include_loop n c [] = False"

definition include_char :: "char \<Rightarrow> char list \<Rightarrow> bool" where
  "include_char c m = include_loop (cMaximumLength + 1) c m"

fun isEqual_loop :: "nat \<Rightarrow> char list \<Rightarrow> char list \<Rightarrow> bool" where
  "isEqual_loop n (a # m) (b # k) =
     (if n = 0 then False
      else if a \<noteq> b then False else if a = nul then True else isEqual_loop (n - 1) m k)"
| "isEqual_loop n _ _ = False"

definition isEqual :: "char list \<Rightarrow> char list \<Rightarrow> bool" where
  "isEqual m k = isEqual_loop (cMaximumLength + 1) m k"

text \<open>\<open>comparen\<close>: characters are unsigned on the platform.\<close>

fun comparen_loop :: "nat \<Rightarrow> char list \<Rightarrow> char list \<Rightarrow> int" where
  "comparen_loop n (a # m) (b # k) =
     (if n = 0 then 0
      else let cmp = of_char a - of_char b :: int
           in if cmp \<noteq> 0 then (if cmp < 0 then -1 else 1)
              else if a = nul then 0 else comparen_loop (n - 1) m k)"
| "comparen_loop n _ _ = 0"

definition comparen :: "int \<Rightarrow> char list \<Rightarrow> char list \<Rightarrow> int" where
  "comparen n m k = comparen_loop (nat (if n > int cMaximumLength then int cMaximumLength else n)) m k"

definition compare_string :: "char list \<Rightarrow> char list \<Rightarrow> int" where
  "compare_string m k = comparen (int cMaximumLength) m k"

text \<open>The searches, from a position on, upwards and downwards.\<close>

function findIndex_loop :: "int \<Rightarrow> int \<Rightarrow> int \<Rightarrow> char list \<Rightarrow> char list \<Rightarrow> int" where
  "findIndex_loop i hi sub m k =
     (if i \<le> hi
      then (if comparen sub (drop (nat i) m) k = 0 then i else findIndex_loop (i + 1) hi sub m k)
      else -1)"
  by pat_completeness auto
termination
  by (relation "measure (\<lambda>(i, hi, _). nat (hi + 1 - i))") auto

definition findIndex :: "char list \<Rightarrow> char list \<Rightarrow> int" where
  "findIndex m k =
     findIndex_loop 0 (int (calcLength m) - int (calcLength k)) (int (calcLength k)) m k"

definition findIndex_from :: "int \<Rightarrow> char list \<Rightarrow> char list \<Rightarrow> int" where
  "findIndex_from start m k =
     (if start < 0 \<or> start > int (calcLength m) then -1
      else findIndex_loop start (int (calcLength m) - int (calcLength k)) (int (calcLength k)) m k)"

fun rfindIndex_loop :: "nat \<Rightarrow> int \<Rightarrow> char list \<Rightarrow> char list \<Rightarrow> int" where
  "rfindIndex_loop n sub m k =
     (if comparen sub (drop n m) k = 0 then int n
      else case n of 0 \<Rightarrow> -1 | Suc n' \<Rightarrow> rfindIndex_loop n' sub m k)"

definition rfindIndex :: "char list \<Rightarrow> char list \<Rightarrow> int" where
  "rfindIndex m k =
     (let i = int (calcLength m) - int (calcLength k)
      in if i < 0 then -1 else rfindIndex_loop (nat i) (int (calcLength k)) m k)"

definition include_string :: "char list \<Rightarrow> char list \<Rightarrow> bool" where
  "include_string m k \<longleftrightarrow> findIndex m k \<noteq> -1"

definition string_isEmpty :: "char list \<Rightarrow> bool" where
  "string_isEmpty m \<longleftrightarrow> m ! 0 = nul"

fun startsWith_loop :: "char list \<Rightarrow> char list \<Rightarrow> bool" where
  "startsWith_loop m (p # pre) =
     (if p = nul then True
      else case m of [] \<Rightarrow> False | c # m \<Rightarrow> if c \<noteq> p then False else startsWith_loop m pre)"
| "startsWith_loop m [] = True"

definition startsWith :: "char list \<Rightarrow> char list \<Rightarrow> bool" where
  "startsWith m pre = startsWith_loop m pre"

definition endsWith :: "char list \<Rightarrow> char list \<Rightarrow> bool" where
  "endsWith m suf =
     (let sub = calcLength suf; len = calcLength m
      in if sub = 0 then True
         else if len < sub then False
         else list_all (\<lambda>i. m ! (len - sub + i) = suf ! i) [0..<sub])"

section \<open>What the operations say of the text\<close>

lemma c_str_cells: "no_nul s \<Longrightarrow> c_str (cells s) = s"
  by (induction s) (auto simp: c_str_def cells_def no_nul_def)

lemma cells_ok: "length s < cMaximumLength \<Longrightarrow> string_ok (cells s)"
  by (simp add: string_ok_def cells_def)

lemma length_c_str_less: "nul \<in> set m \<Longrightarrow> length (c_str m) < length m"
  by (induction m) (auto simp: c_str_def)

lemma nth_c_str_length: "nul \<in> set m \<Longrightarrow> m ! length (c_str m) = nul"
  by (induction m) (auto simp: c_str_def)

lemma nth_c_str: "i < length (c_str m) \<Longrightarrow> c_str m ! i = m ! i"
  unfolding c_str_def by (rule takeWhile_nth)

lemma calcLength_loop_c_str:
  "len + length m \<le> Suc cMaximumLength \<Longrightarrow> calcLength_loop len m = len + length (c_str m)"
  by (induction len m rule: calcLength_loop.induct) (auto simp: c_str_def)

lemma calcLength_c_str [simp]: "string_ok m \<Longrightarrow> calcLength m = length (c_str m)"
  using length_c_str_le [of m]
  by (simp add: calcLength_def calcLength_loop_c_str string_ok_def Let_def)

lemma drop_ok: "string_ok m \<Longrightarrow> n \<le> length (c_str m) \<Longrightarrow> string_ok (drop n m) \<and> c_str (drop n m) = drop n (c_str m)"
proof (induction n arbitrary: m)
  case (Suc n)
  then obtain a k where m: "m = a # k" "a \<noteq> nul" by (cases m) (auto simp: c_str_def split: if_splits)
  then have "string_ok k" "n \<le> length (c_str k)" "c_str m = a # c_str k"
    using Suc.prems by (auto simp: string_ok_def c_str_def)
  then show ?case using Suc.IH by (simp add: m)
qed simp

lemma getPart_text:
  assumes "string_ok m" and "0 \<le> at"
  shows "c_str (getPart at m) = drop (nat at) (c_str m)"
proof (cases "at \<le> int (length (c_str m))")
  case True
  then show ?thesis using assms drop_ok [of m "nat at"] by (simp add: getPart_def)
next
  case False
  then show ?thesis using assms by (simp add: getPart_def cells_def c_str_def)
qed

lemma include_loop_text:
  "length m \<le> n \<Longrightarrow> include_loop n c m \<longleftrightarrow> c \<noteq> nul \<and> c \<in> set (c_str m)"
  by (induction n c m rule: include_loop.induct) (auto simp: c_str_def)

lemma include_text: "string_ok m \<Longrightarrow> include_char c m \<longleftrightarrow> c \<in> set (c_str m)"
  using no_nul_c_str [of m] by (auto simp: include_char_def include_loop_text string_ok_def no_nul_def)

lemma isEqual_loop_text:
  "nul \<in> set m \<Longrightarrow> nul \<in> set k \<Longrightarrow> length m \<le> n \<Longrightarrow> isEqual_loop n m k \<longleftrightarrow> c_str m = c_str k"
  by (induction n m k rule: isEqual_loop.induct) (auto simp: c_str_def)

lemma isEqual_text: "string_ok m \<Longrightarrow> string_ok k \<Longrightarrow> isEqual m k \<longleftrightarrow> c_str m = c_str k"
  by (simp add: isEqual_def isEqual_loop_text string_ok_def)

lemma of_char_eq: "(of_char a - of_char b = (0 :: int)) \<longleftrightarrow> a = b"
  by simp

lemma comparen_loop_zero:
  "nul \<in> set m \<Longrightarrow> nul \<in> set k \<Longrightarrow>
   comparen_loop n m k = 0 \<longleftrightarrow> take n (c_str m) = take n (c_str k)"
proof (induction n m k rule: comparen_loop.induct)
  case (1 n a m b k)
  show ?case
  proof (cases "n = 0 \<or> a \<noteq> b \<or> a = nul")
    case True
    then show ?thesis by (cases n) (auto simp: c_str_def Let_def)
  next
    case False
    then have "comparen_loop (n - 1) m k = 0 \<longleftrightarrow> take (n - 1) (c_str m) = take (n - 1) (c_str k)"
      using 1 by (auto simp: Let_def)
    then show ?thesis using False by (cases n) (auto simp: c_str_def Let_def)
  qed
qed auto

lemma comparen_zero:
  assumes "string_ok m" and "string_ok k" and "n \<le> cMaximumLength"
  shows "comparen (int n) m k = 0 \<longleftrightarrow> take n (c_str m) = take n (c_str k)"
  using assms by (simp add: comparen_def comparen_loop_zero string_ok_def)

text \<open>\<open>compare\<close> is the lexicographic order of the texts.\<close>

lemma comparen_loop_less:
  "nul \<in> set m \<Longrightarrow> nul \<in> set k \<Longrightarrow> length m \<le> n \<Longrightarrow> length k \<le> n \<Longrightarrow>
   comparen_loop n m k = (if c_str m = c_str k then 0
     else if (c_str m, c_str k) \<in> lexord {(a, b). (of_char a :: nat) < of_char b} then -1 else 1)"
proof (induction n m k rule: comparen_loop.induct)
  case (1 n a m b k)
  have i: "(of_char c :: int) = int (of_char c)" for c :: char by (simp only: of_nat_of_char)
  have o: "(of_char a - of_char b < (0 :: int)) \<longleftrightarrow> (of_char a :: nat) < of_char b"
    unfolding i [of a] i [of b] by simp
  have z: "of_char nul = (0 :: nat)" by (simp add: nul_def)
  have p: "c \<noteq> nul \<Longrightarrow> 0 < (of_char c :: nat)" for c
    by (metis z gr0I of_char_eq_iff)
  show ?case
  proof (cases "a = b")
    case True
    then show ?thesis
      using 1 by (cases "a = nul") (auto simp: c_str_def Let_def o)
  next
    case False
    then show ?thesis
      using 1(4) o z p [of a] p [of b]
      by (cases "a = nul"; cases "b = nul") (auto simp: c_str_def Let_def)
  qed
qed auto

lemma compare_text:
  assumes "string_ok m" and "string_ok k"
  shows "compare_string m k = (if c_str m = c_str k then 0
     else if (c_str m, c_str k) \<in> lexord {(a, b). (of_char a :: nat) < of_char b} then -1 else 1)"
  using assms by (simp add: compare_string_def comparen_def comparen_loop_less string_ok_def)

section \<open>Searches\<close>

definition occurs :: "string \<Rightarrow> string \<Rightarrow> nat \<Rightarrow> bool" where
  "occurs u t i \<longleftrightarrow> i + length u \<le> length t \<and> prefix u (drop i t)"

lemma occurs_take: "occurs u t i \<longleftrightarrow> i + length u \<le> length t \<and> take (length u) (drop i t) = u"
  by (auto simp: occurs_def prefix_def) (metis append_take_drop_id)

lemma sublist_occurs: "sublist u t \<longleftrightarrow> (\<exists>i. occurs u t i)"
proof
  assume "sublist u t"
  then obtain a b where "t = a @ u @ b" by (auto simp: sublist_def)
  then have "occurs u t (length a)" by (auto simp: occurs_def)
  then show "\<exists>i. occurs u t i" ..
next
  assume "\<exists>i. occurs u t i"
  then show "sublist u t"
    by (auto simp: occurs_def) (metis append_take_drop_id prefix_def sublist_def)
qed

lemma comparen_occurs:
  assumes "string_ok m" and "string_ok k" and "i + length (c_str k) \<le> length (c_str m)"
  shows "comparen (int (length (c_str k))) (drop i m) k = 0 \<longleftrightarrow> occurs (c_str k) (c_str m) i"
proof -
  have "length (c_str k) \<le> cMaximumLength"
    using assms(2) length_c_str_le [of k] by (auto simp: string_ok_def)
  then show ?thesis
    using drop_ok [OF assms(1), of i] assms by (simp add: comparen_zero occurs_take)
qed

lemma findIndex_loop_occurs:
  assumes "string_ok m" and "string_ok k" and "0 \<le> i"
    and "hi = int (length (c_str m)) - int (length (c_str k))"
  shows "findIndex_loop i hi (int (length (c_str k))) m k =
    (if \<exists>j. nat i \<le> j \<and> occurs (c_str k) (c_str m) j
     then int (LEAST j. nat i \<le> j \<and> occurs (c_str k) (c_str m) j) else -1)"
  using assms
proof (induction i hi "int (length (c_str k))" m k rule: findIndex_loop.induct)
  case (1 i hi m k)
  let ?o = "occurs (c_str k) (c_str m)"
  show ?case
  proof (cases "i \<le> hi")
    case False
    then have "\<not> (\<exists>j. nat i \<le> j \<and> ?o j)" using 1(5) by (auto simp: occurs_def)
    then show ?thesis using False by (simp add: findIndex_loop.simps)
  next
    case le: True
    then have c: "comparen (int (length (c_str k))) (drop (nat i) m) k = 0 \<longleftrightarrow> ?o (nat i)"
      using 1(2-5) by (intro comparen_occurs) auto
    show ?thesis
    proof (cases "?o (nat i)")
      case True
      then have "(LEAST j. nat i \<le> j \<and> ?o j) = nat i" by (intro Least_equality) auto
      moreover have "\<exists>j. nat i \<le> j \<and> ?o j" using True by blast
      ultimately show ?thesis using le c True 1(4) by (simp add: findIndex_loop.simps)
    next
      case False
      then have e: "nat (i + 1) \<le> j \<and> ?o j \<longleftrightarrow> nat i \<le> j \<and> ?o j" for j
        using 1(4) by (metis Suc_nat_eq_nat_zadd1 add.commute le_SucI not_less_eq_eq le_antisym)
      have "findIndex_loop i hi (int (length (c_str k))) m k
        = findIndex_loop (i + 1) hi (int (length (c_str k))) m k"
        using le c False by (simp add: findIndex_loop.simps [of i])
      also have "\<dots> = (if \<exists>j. nat (i + 1) \<le> j \<and> ?o j then int (LEAST j. nat (i + 1) \<le> j \<and> ?o j) else -1)"
        using le c False 1 by (intro 1(1)) auto
      finally show ?thesis unfolding e .
    qed
  qed
qed

lemma findIndex_first:
  assumes "string_ok m" and "string_ok k"
  shows "findIndex m k =
    (if sublist (c_str k) (c_str m) then int (LEAST i. occurs (c_str k) (c_str m) i) else -1)"
  using findIndex_loop_occurs [OF assms, of 0] assms by (simp add: findIndex_def sublist_occurs)

lemma include_string_text:
  "string_ok m \<Longrightarrow> string_ok k \<Longrightarrow> include_string m k \<longleftrightarrow> sublist (c_str k) (c_str m)"
  by (simp add: include_string_def findIndex_first)

text \<open>
  \<open>findIndex\<close> answers the first position at which the string occurs in the other, and -1 if there is
  none; \<open>include\<close> decides whether there is one.
\<close>

theorem findIndex_text:
  assumes "string_ok m" and "string_ok k"
  shows "findIndex m k =
    (if sublist (c_str k) (c_str m) then int (LEAST i. occurs (c_str k) (c_str m) i) else -1)"
  using assms by (rule findIndex_first)

theorem findIndex_text_witness: "findIndex (cells ''ForestWorldHomeStage'') (cells ''World'') = 6"
proof -
  have o: "occurs ''World'' ''ForestWorldHomeStage'' 6" by (simp add: occurs_def)
  have "(LEAST i. occurs ''World'' ''ForestWorldHomeStage'' i) = 6"
  proof (rule Least_equality [of _ 6])
    show "occurs ''World'' ''ForestWorldHomeStage'' 6" by (rule o)
  next
    fix i assume i: "occurs ''World'' ''ForestWorldHomeStage'' i"
    show "6 \<le> i"
    proof (rule ccontr)
      assume "\<not> 6 \<le> i"
      then have "i \<in> {0, 1, 2, 3, 4, 5}" by auto
      with i show False by (auto simp: occurs_def)
    qed
  qed
  moreover have "sublist ''World'' ''ForestWorldHomeStage''" using o sublist_occurs by blast
  moreover have "string_ok (cells ''ForestWorldHomeStage'')" "string_ok (cells ''World'')"
    by (simp_all add: string_ok_def cells_def cMaximumLength_def)
  moreover have "no_nul ''ForestWorldHomeStage''" "no_nul ''World''" by (simp_all add: no_nul_def nul_def)
  ultimately show ?thesis
    using findIndex_text [of "cells ''ForestWorldHomeStage''" "cells ''World''"] by (simp add: c_str_cells)
qed

lemma rfindIndex_loop_occurs:
  assumes "string_ok m" and "string_ok k" and "n + length (c_str k) \<le> length (c_str m)"
  shows "rfindIndex_loop n (int (length (c_str k))) m k =
    (if \<exists>j\<le>n. occurs (c_str k) (c_str m) j
     then int (Max {j. j \<le> n \<and> occurs (c_str k) (c_str m) j}) else -1)"
  using assms(3)
proof (induction n)
  case 0
  have "{j. j = 0 \<and> occurs (c_str k) (c_str m) j} = {0}" if "occurs (c_str k) (c_str m) 0" using that by auto
  then show ?case using comparen_occurs [OF assms(1,2), of 0] 0 by auto
next
  case (Suc n)
  let ?o = "occurs (c_str k) (c_str m)"
  have c: "comparen (int (length (c_str k))) (drop (Suc n) m) k = 0 \<longleftrightarrow> ?o (Suc n)"
    using Suc.prems by (rule comparen_occurs [OF assms(1,2)])
  show ?case
  proof (cases "?o (Suc n)")
    case True
    then have "Max {j. j \<le> Suc n \<and> ?o j} = Suc n" by (intro Max_eqI) auto
    then show ?thesis using True c by auto
  next
    case False
    then have e: "j \<le> Suc n \<and> ?o j \<longleftrightarrow> j \<le> n \<and> ?o j" for j by (metis le_Suc_eq)
    show ?thesis
      using False c Suc by (simp add: e)
  qed
qed

lemma rfindIndex_text:
  assumes "string_ok m" and "string_ok k"
  shows "rfindIndex m k =
    (if sublist (c_str k) (c_str m) then int (Max {i. occurs (c_str k) (c_str m) i}) else -1)"
proof (cases "length (c_str k) \<le> length (c_str m)")
  case True
  let ?n = "length (c_str m) - length (c_str k)"
  have e: "j \<le> ?n \<and> occurs (c_str k) (c_str m) j \<longleftrightarrow> occurs (c_str k) (c_str m) j" for j
    using True by (auto simp: occurs_def)
  show ?thesis
    using True assms rfindIndex_loop_occurs [OF assms, of ?n]
    by (simp add: rfindIndex_def Let_def e sublist_occurs nat_diff_distrib flip: of_nat_diff)
next
  case False
  then have "\<not> sublist (c_str k) (c_str m)" using sublist_length_le by blast
  then show ?thesis using False assms by (simp add: rfindIndex_def Let_def)
qed

section \<open>Prefixes and suffixes\<close>

lemma startsWith_text:
  "nul \<in> set m \<Longrightarrow> nul \<in> set k \<Longrightarrow> startsWith m k \<longleftrightarrow> prefix (c_str k) (c_str m)"
  unfolding startsWith_def
  by (induction m k rule: startsWith_loop.induct) (auto simp: c_str_def split: list.splits)

lemma endsWith_text:
  assumes "string_ok m" and "string_ok k"
  shows "endsWith m k \<longleftrightarrow> suffix (c_str k) (c_str m)"
proof (cases "length (c_str k) \<le> length (c_str m)")
  case True
  let ?d = "length (c_str m) - length (c_str k)"
  have "endsWith m k \<longleftrightarrow> (\<forall>i < length (c_str k). c_str m ! (?d + i) = c_str k ! i)"
    using True assms by (auto simp: endsWith_def Let_def list_all_iff nth_c_str)
  also have "\<dots> \<longleftrightarrow> drop ?d (c_str m) = c_str k"
    using True by (auto simp: list_eq_iff_nth_eq)
  also have "\<dots> \<longleftrightarrow> suffix (c_str k) (c_str m)"
    using True by (metis append_take_drop_id length_drop diff_diff_cancel suffix_def append_eq_conv_conj suffixE length_append add_diff_cancel_right')
  finally show ?thesis .
next
  case False
  then show ?thesis using assms by (auto simp: endsWith_def Let_def dest: suffix_length_le)
qed

end
