(* ===== verification/Buffered_String.thy ===== *)
theory Buffered_String
  imports Safe_String
begin

text \<open>
  Strings in a buffer of fixed size (\<open>BufferedSafeStringBase\<close> in \<open>sead/prim/seadSafeString.hpp\<close>), the class
  behind \<open>FixedSafeString\<close>: the client's host name, user name and stage name, the layouts' texts. The
  buffer is the list of its cells. An operation that is given a length copies that many cells of the
  source without looking for its end; reading past the source's memory is a fault.
\<close>

section \<open>Operations\<close>

definition buffer_ok :: "char list \<Rightarrow> bool" where
  "buffer_ok b \<longleftrightarrow> string_ok b"

text \<open>\<open>MemUtil::copy\<close> of \<open>n\<close> cells of a source to a place in the buffer.\<close>

definition mem_copy :: "nat \<Rightarrow> char list \<Rightarrow> nat \<Rightarrow> char list \<Rightarrow> char list res" where
  "mem_copy at b n src =
     (if n \<le> length src \<and> at + n \<le> length b then Inr (take at b @ take n src @ drop (at + n) b)
      else Inl OutOfBounds)"

definition put :: "nat \<Rightarrow> char \<Rightarrow> char list \<Rightarrow> char list res" where
  "put i c b = (if i < length b then Inr (b[i := c]) else Inl OutOfBounds)"

definition source_length :: "int \<Rightarrow> char list \<Rightarrow> int" where
  "source_length n src = (if n < 0 then int (calcLength src) else n)"

definition string_copy :: "char list \<Rightarrow> int \<Rightarrow> char list \<Rightarrow> (char list \<times> int) res" where
  "string_copy src n b =
     (let n = source_length n src;
          n = (if n \<ge> int (length b) then int (length b) - 1 else n)
      in rbind (mem_copy 0 b (nat n) src) (\<lambda>b. rbind (put (nat n) nul b) (\<lambda>b. Inr (b, n))))"

text \<open>The place an index means: negative ones count from the end.\<close>

definition copy_place :: "int \<Rightarrow> char list \<Rightarrow> int" where
  "copy_place at b = (if at < 0 then max 0 (int (calcLength b) + at + 1) else at)"

definition string_copyAt :: "int \<Rightarrow> char list \<Rightarrow> int \<Rightarrow> char list \<Rightarrow> (char list \<times> int) res" where
  "string_copyAt at src n b =
     (let len = int (calcLength b);
          at = copy_place at b;
          n = source_length n src;
          n = (if n \<ge> int (length b) - at then int (length b) - at - 1 else n)
      in if n \<le> 0 then Inr (b, 0)
         else rbind (mem_copy (nat at) b (nat n) src) (\<lambda>b.
                rbind (if at + n > len then put (nat (at + n)) nul b else Inr b) (\<lambda>b. Inr (b, n))))"

definition string_copyAtWithTerminate :: "int \<Rightarrow> char list \<Rightarrow> int \<Rightarrow> char list \<Rightarrow> (char list \<times> int) res" where
  "string_copyAtWithTerminate at src n b =
     (let at = copy_place at b;
          n = source_length n src;
          n = (if n \<ge> int (length b) - at then int (length b) - at - 1 else n)
      in if n \<le> 0 then Inr (b, 0)
         else rbind (mem_copy (nat at) b (nat n) src) (\<lambda>b.
                rbind (put (nat (at + n)) nul b) (\<lambda>b. Inr (b, n))))"

definition string_cutOffCopy :: "char list \<Rightarrow> int \<Rightarrow> char list \<Rightarrow> (char list \<times> int) res" where
  "string_cutOffCopy src n b =
     (let n = source_length n src;
          n = (if n \<ge> int (length b) then int (length b) - 1 else n)
      in rbind (mem_copy 0 b (nat n) src) (\<lambda>b. rbind (put (nat n) nul b) (\<lambda>b. Inr (b, n))))"

definition string_cutOffCopyAt :: "int \<Rightarrow> char list \<Rightarrow> int \<Rightarrow> char list \<Rightarrow> (char list \<times> int) res" where
  "string_cutOffCopyAt at src n b =
     (let len = int (calcLength b);
          at = copy_place at b;
          n = source_length n src;
          n = (if n \<ge> int (length b) - at then int (length b) - at - 1 else n)
      in if n \<le> 0 then Inr (b, 0)
         else rbind (mem_copy (nat at) b (nat n) src) (\<lambda>b.
                rbind (if at + n > len then put (nat (at + n)) nul b else Inr b) (\<lambda>b. Inr (b, n))))"

definition string_append :: "char list \<Rightarrow> int \<Rightarrow> char list \<Rightarrow> (char list \<times> int) res" where
  "string_append src n b = string_copyAt (-1) src n b"

definition string_append_chars :: "char \<Rightarrow> int \<Rightarrow> char list \<Rightarrow> (char list \<times> int) res" where
  "string_append_chars c num b =
     (if num < 1 then Inr (b, 0)
      else let len = int (calcLength b);
               num = (if int (length b) - len \<le> num then int (length b) - len - 1 else num)
           in rbind (mem_copy (nat len) b (nat num) (replicate (nat num) c)) (\<lambda>b.
                rbind (put (nat (num + len)) nul b) (\<lambda>b. Inr (b, num))))"

text \<open>\<open>prepend\<close> moves the text up, dropping what does not fit, and copies the source below it.\<close>

definition string_prepend :: "char list \<Rightarrow> int \<Rightarrow> char list \<Rightarrow> (char list \<times> int) res" where
  "string_prepend src n b =
     (let n = (if n = -1 then int (calcLength src) else n);
          len = int (calcLength b);
          size = int (length b);
          (n, len) =
            (if n \<ge> size - len
             then (let n = (if n \<ge> size then size - 1 else n) in (n, size + (- n - 1)))
             else (n, len))
      in rbind (mem_copy (nat n) b (nat len) b) (\<lambda>b.
           rbind (mem_copy 0 b (nat n) src) (\<lambda>b.
             rbind (put (nat (len + n)) nul b) (\<lambda>b. Inr (b, len + n)))))"

definition string_chop :: "int \<Rightarrow> char list \<Rightarrow> char list \<times> int" where
  "string_chop num b =
     (let len = int (calcLength b)
      in if num < 0 then (b, 0)
         else let num = (if num > len then len else num) in (b[nat (len - num) := nul], num))"

definition chopMatchedChar :: "char \<Rightarrow> char list \<Rightarrow> char list \<times> int" where
  "chopMatchedChar c b =
     (let len = calcLength b
      in if len < 1 then (b, 0)
         else if b ! (len - 1) = c then (b[len - 1 := nul], 1) else (b, 0))"

definition chopMatchedChars :: "string \<Rightarrow> char list \<Rightarrow> char list \<times> int" where
  "chopMatchedChars characters b =
     (let len = calcLength b
      in if len < 1 then (b, 0)
         else if list_ex (\<lambda>c. b ! (len - 1) = c) characters then (b[len - 1 := nul], 1) else (b, 0))"

definition unprintable :: "char \<Rightarrow> bool" where
  "unprintable c \<longleftrightarrow> (of_char c :: nat) \<le> 0x20 \<or> c = CHR 0x7F"

definition chopUnprintableAsciiChar :: "char list \<Rightarrow> char list \<times> int" where
  "chopUnprintableAsciiChar b =
     (let len = calcLength b
      in if len < 1 then (b, 0)
         else if unprintable (b ! (len - 1)) then (b[len - 1 := nul], 1) else (b, 0))"

text \<open>The loop that \<open>rstrip\<close> and \<open>rstripUnprintableAsciiChars\<close> walk down with.\<close>

fun strip_loop :: "(char \<Rightarrow> bool) \<Rightarrow> char list \<Rightarrow> nat \<Rightarrow> nat" where
  "strip_loop p b 0 = 0"
| "strip_loop p b (Suc n) = (if p (b ! n) then strip_loop p b n else Suc n)"

definition strip_with :: "(char \<Rightarrow> bool) \<Rightarrow> char list \<Rightarrow> char list \<times> int" where
  "strip_with p b =
     (let len = calcLength b; new_length = strip_loop p b len
      in if len \<le> new_length then (b, 0)
         else (b[new_length := nul], int (len - new_length)))"

definition rstrip :: "string \<Rightarrow> char list \<Rightarrow> char list \<times> int" where
  "rstrip characters b =
     (if calcLength b \<le> 0 then (b, 0) else strip_with (\<lambda>c. list_ex (\<lambda>d. c = d) characters) b)"

definition rstripUnprintableAsciiChars :: "char list \<Rightarrow> char list \<times> int" where
  "rstripUnprintableAsciiChars b = (if calcLength b < 1 then (b, 0) else strip_with unprintable b)"

definition string_trim :: "int \<Rightarrow> char list \<Rightarrow> char list \<times> int" where
  "string_trim n b =
     (if n \<ge> int (length b) then (b, int (calcLength b))
      else let n = (if n < 0 then 0 else n) in (b[nat n := nul], n))"

definition trimMatchedString :: "char list \<Rightarrow> char list \<Rightarrow> char list \<times> int" where
  "trimMatchedString suf b =
     (let len = calcLength b; sub = calcLength suf
      in if len < sub then (b, int len)
         else if comparen (int sub) (drop (len - sub) b) suf \<noteq> 0 then (b, int len)
         else (b[len - sub := nul], int (len - sub)))"

definition replaceChar :: "char \<Rightarrow> char \<Rightarrow> char list \<Rightarrow> char list \<times> int" where
  "replaceChar old new b =
     (let len = calcLength b
      in (map (\<lambda>c. if c = old then new else c) (take len b) @ drop len b,
          int (length (filter (\<lambda>c. c = old) (take len b)))))"

text \<open>\<open>replaceCharList\<close>: the first of the old characters that matches is replaced.\<close>

fun replace_one :: "(char \<times> char) list \<Rightarrow> char \<Rightarrow> char" where
  "replace_one [] c = c"
| "replace_one ((old, new) # rs) c = (if c = old then new else replace_one rs c)"

definition replaceCharList :: "char list \<Rightarrow> char list \<Rightarrow> char list \<Rightarrow> char list \<times> int" where
  "replaceCharList old_chars new_chars b =
     (let len = calcLength b;
          rs = zip (take (calcLength old_chars) old_chars) (take (calcLength new_chars) new_chars)
      in (map (replace_one rs) (take len b) @ drop len b,
          int (length (filter (\<lambda>c. c \<in> fst ` set rs) (take len b)))))"

definition string_clear :: "char list \<Rightarrow> char list res" where
  "string_clear b = put 0 nul b"

text \<open>\<open>FixedSafeStringBase\<close>: a cleared buffer of \<open>size\<close> cells, and the assignments, which copy.\<close>

definition fixed_string_new :: "char list \<Rightarrow> char list res" where
  "fixed_string_new mem = string_clear mem"

definition string_assign :: "char list \<Rightarrow> char list \<Rightarrow> char list res" where
  "string_assign src b = rbind (string_copy src (-1) b) (\<lambda>(b, _). Inr b)"

section \<open>What a buffer says\<close>

text \<open>A text in a buffer: writing a NUL behind \<open>n\<close> known cells.\<close>

lemma c_str_append_nul [simp]: "no_nul s \<Longrightarrow> c_str (s @ nul # r) = s"
  by (induction s) (auto simp: c_str_def no_nul_def)

lemma no_nul_take [simp]: "no_nul s \<Longrightarrow> no_nul (take n s)"
  by (auto simp: no_nul_def dest: in_set_takeD)

lemma no_nul_drop [simp]: "no_nul s \<Longrightarrow> no_nul (drop n s)"
  by (auto simp: no_nul_def dest: in_set_dropD)

lemma no_nul_append [simp]: "no_nul (s @ t) \<longleftrightarrow> no_nul s \<and> no_nul t"
  by (auto simp: no_nul_def)

lemma buffer_split:
  assumes "buffer_ok b"
  obtains r where "b = c_str b @ nul # r" and "length b = Suc (length (c_str b) + length r)"
proof -
  have "nul \<in> set b" using assms by (simp add: buffer_ok_def string_ok_def)
  then have "\<exists>r. b = c_str b @ nul # r"
    by (induction b) (auto simp: c_str_def)
  then obtain r where r: "b = c_str b @ nul # r" ..
  then have "length b = length (c_str b @ nul # r)" by metis
  then have "length b = Suc (length (c_str b) + length r)" by simp
  with r show ?thesis by (rule that)
qed

lemma buffer_okI: "b' = s @ nul # r \<Longrightarrow> length b' \<le> cMaximumLength \<Longrightarrow> buffer_ok b'"
  by (simp add: buffer_ok_def string_ok_def)

lemma buffer_calcLength [simp]: "buffer_ok b \<Longrightarrow> calcLength b = length (c_str b)"
  by (simp add: buffer_ok_def)

lemma buffer_nonempty: "buffer_ok b \<Longrightarrow> 0 < length b"
  by (auto simp: buffer_ok_def string_ok_def)

lemma buffer_max: "buffer_ok b \<Longrightarrow> length b \<le> cMaximumLength"
  by (simp add: buffer_ok_def string_ok_def)

lemma take_c_str: "buffer_ok b \<Longrightarrow> n \<le> length (c_str b) \<Longrightarrow> take n b = take n (c_str b)"
  by (metis buffer_split take_append diff_is_0_eq append_Nil2 take_0)

text \<open>A buffer after the text \<open>s\<close> and a NUL are written at its beginning.\<close>

lemma put_take:
  "n < length b \<Longrightarrow> put n nul b = Inr (take n b @ nul # drop (Suc n) b)"
  by (simp add: put_def upd_conv_take_nth_drop)

lemma put_after: "length x = i \<Longrightarrow> put i nul (x @ c # r) = Inr (x @ nul # r)"
  by (auto simp: put_def)

definition says :: "char list \<Rightarrow> nat \<Rightarrow> string \<Rightarrow> bool" where
  "says b sz s \<longleftrightarrow> buffer_ok b \<and> length b = sz \<and> c_str b = s"

lemma says_write:
  assumes "no_nul s" and "b' = s @ nul # r" and "length b' = sz" and "sz \<le> cMaximumLength"
  shows "says b' sz s"
  using assms by (auto simp: says_def intro: buffer_okI)

text \<open>
  The source of a copy: a string of the given text.
\<close>

definition source :: "char list \<Rightarrow> string \<Rightarrow> bool" where
  "source src s \<longleftrightarrow> string_ok src \<and> c_str src = s"

lemma source_cells: "no_nul s \<Longrightarrow> length s < cMaximumLength \<Longrightarrow> source (cells s) s"
  by (simp add: source_def cells_ok c_str_cells)

lemma source_take: "source src s \<Longrightarrow> n \<le> length s \<Longrightarrow> take n src = take n s"
  by (metis buffer_ok_def source_def take_c_str)

lemma source_length_le: "source src s \<Longrightarrow> length s < length src"
  by (auto simp: source_def string_ok_def length_c_str_less)

lemma source_no_nul: "source src s \<Longrightarrow> no_nul s"
  by (auto simp: source_def)

lemma source_calcLength: "source src s \<Longrightarrow> calcLength src = length s"
  by (auto simp: source_def)

section \<open>Copying\<close>

text \<open>
  What the copies do to the text: a bounded string keeps what fits into the buffer in front of the NUL.
  \<open>k\<close> is the number of characters asked for, all of the source when the length is negative.
\<close>

definition asks :: "int \<Rightarrow> string \<Rightarrow> nat \<Rightarrow> bool" where
  "asks n s k \<longleftrightarrow> (if n < 0 then k = length s else n = int k \<and> k \<le> length s)"

lemma source_length_asks: "source src s \<Longrightarrow> asks n s k \<Longrightarrow> source_length n src = int k"
  by (auto simp: source_length_def asks_def source_calcLength split: if_splits)

lemma asks_le: "asks n s k \<Longrightarrow> k \<le> length s"
  by (auto simp: asks_def split: if_splits)

lemma mem_copy_source:
  assumes "source src s" and "n \<le> length s" and "at + n \<le> length b"
  shows "mem_copy at b n src = Inr (take at b @ take n s @ drop (at + n) b)"
  using assms source_length_le [OF assms(1)] source_take [OF assms(1,2)] by (simp add: mem_copy_def)

lemma copy_says:
  assumes "source src s" and "asks n s k" and "buffer_ok b"
  defines "m \<equiv> min k (length b - 1)"
  shows "\<exists>b'. string_copy src n b = Inr (b', int m) \<and> says b' (length b) (take m s)"
proof -
  have b: "0 < length b" by (rule buffer_nonempty [OF assms(3)])
  have k: "k \<le> length s" by (rule asks_le [OF assms(2)])
  have m: "(if int k \<ge> int (length b) then int (length b) - 1 else int k) = int m"
    using b by (cases b) (auto simp: m_def min_def)
  have c: "mem_copy 0 b m src = Inr (take m s @ drop m b)"
    using mem_copy_source [OF assms(1), of m 0 b] k b by (simp add: m_def)
  have l: "m < length (take m s @ drop m b)" using k b by (cases b) (simp_all add: m_def)
  have "string_copy src n b =
      rbind (mem_copy 0 b (nat (int m)) src) (\<lambda>b. rbind (put (nat (int m)) nul b) (\<lambda>b. Inr (b, int m)))"
    unfolding string_copy_def source_length_asks [OF assms(1,2)] Let_def m ..
  moreover have "put m nul (take m s @ drop m b) = Inr (take m s @ nul # drop (Suc m) b)"
  proof -
    have "m \<le> length s" "m < length b" using k b by (cases b; auto simp: m_def)+
    then show ?thesis
      using put_after [of "take m s" m "b ! m" "drop (Suc m) b"] by (simp add: Cons_nth_drop_Suc)
  qed
  ultimately have e: "string_copy src n b = Inr (take m s @ nul # drop (Suc m) b, int m)"
    by (simp only: nat_int c rbind_Inr)
  have "says (take m s @ nul # drop (Suc m) b) (length b) (take m s)"
    using k b buffer_max [OF assms(3)] source_no_nul [OF assms(1)] by (cases b) (auto simp: m_def intro!: says_write)
  then show ?thesis using e by blast
qed

lemma cutOffCopy_copy: "string_cutOffCopy = string_copy"
  by (intro ext) (simp add: string_cutOffCopy_def string_copy_def)

lemma cutOffCopyAt_copyAt: "string_cutOffCopyAt = string_copyAt"
  by (intro ext) (simp add: string_cutOffCopyAt_def string_copyAt_def)

lemma assign_says:
  assumes "source src s" and "buffer_ok b"
  shows "\<exists>b'. string_assign src b = Inr b' \<and> says b' (length b) (take (length b - 1) s)"
proof -
  have "asks (-1) s (length s)" by (simp add: asks_def)
  from copy_says [OF assms(1) this assms(2)] show ?thesis
    by (auto simp: string_assign_def min_def split: if_splits)
qed

text \<open>A copy into the text, at a place no further than its end.\<close>

lemma copyAt_says:
  assumes "source src s" and "asks n s k" and "buffer_ok b" and "copy_place at b = int p"
    and "p \<le> length (c_str b)"
  defines "m \<equiv> min k (length b - 1 - p)"
  shows "\<exists>b'. string_copyAt at src n b = Inr (b', int m) \<and>
           says b' (length b) (take p (c_str b) @ take m s @ drop (p + m) (c_str b))"
proof -
  obtain r where r: "b = c_str b @ nul # r" and lb: "length b = Suc (length (c_str b) + length r)"
    using buffer_split [OF assms(3)] .
  have k: "k \<le> length s" by (rule asks_le [OF assms(2)])
  have m: "(if int k \<ge> int (length b) - int p then int (length b) - int p - 1 else int k) = int m"
    using assms(5) lb by (auto simp: m_def)
  have max: "length b \<le> cMaximumLength" by (rule buffer_max [OF assms(3)])
  show ?thesis
  proof (cases "m = 0")
    case True
    then show ?thesis
      using assms(3,4) by (simp add: string_copyAt_def Let_def source_length_asks [OF assms(1,2)] m says_def)
  next
    case False
    let ?b = "take p b @ take m s @ drop (p + m) b"
    have c: "mem_copy p b m src = Inr ?b"
      using assms(5) lb k by (intro mem_copy_source [OF assms(1)]) (auto simp: m_def)
    have tp: "take p b = take p (c_str b)" by (rule take_c_str [OF assms(3,5)])
    have lm: "m \<le> length s" "p + m < length b" using k assms(5) lb by (auto simp: m_def)
    have l: "length ?b = length b" using lm assms(5) lb by simp
    show ?thesis
    proof (cases "length (c_str b) < p + m")
      case True
      have "put (p + m) nul ?b = Inr (take p (c_str b) @ take m s @ nul # drop (Suc (p + m)) b)"
        using lm assms(5) lb by (subst put_take) (simp_all add: tp)
      moreover have "says (take p (c_str b) @ take m s @ nul # drop (Suc (p + m)) b) (length b)
          (take p (c_str b) @ take m s)"
        using lm assms(5) lb max source_no_nul [OF assms(1)] by (intro says_write) auto
      ultimately show ?thesis
        using True False assms(3,4) c
        by (simp add: string_copyAt_def Let_def source_length_asks [OF assms(1,2)] m nat_add_distrib)
    next
      case inside: False
      have "drop (p + m) b = drop (p + m) (c_str b) @ nul # r"
        using inside by (subst r) simp
      then have "says ?b (length b) (take p (c_str b) @ take m s @ drop (p + m) (c_str b))"
        using l max source_no_nul [OF assms(1)] by (intro says_write) (auto simp: tp)
      then show ?thesis
        using inside False assms(3,4) c
        by (simp add: string_copyAt_def Let_def source_length_asks [OF assms(1,2)] m)
    qed
  qed
qed

lemma append_says:
  assumes "source src s" and "asks n s k" and "buffer_ok b"
  defines "m \<equiv> min k (length b - 1 - length (c_str b))"
  shows "\<exists>b'. string_append src n b = Inr (b', int m) \<and> says b' (length b) (c_str b @ take m s)"
  using copyAt_says [OF assms(1-3), of "-1" "length (c_str b)"] assms(3)
  by (simp add: string_append_def copy_place_def m_def)

lemma append_chars_says:
  fixes num :: int
  assumes "buffer_ok b" and "c \<noteq> nul"
  defines "m \<equiv> min (nat num) (length b - 1 - length (c_str b))"
  shows "\<exists>b'. string_append_chars c num b = Inr (b', int m) \<and>
           says b' (length b) (c_str b @ replicate m c)"
proof (cases "num < 1")
  case True
  then show ?thesis using assms by (simp add: string_append_chars_def says_def)
next
  case False
  obtain r where r: "b = c_str b @ nul # r" and lb: "length b = Suc (length (c_str b) + length r)"
    using buffer_split [OF assms(1)] .
  let ?l = "length (c_str b)"
  have m: "(if int (length b) - int ?l \<le> num then int (length b) - int ?l - 1 else num) = int m"
    using False lb by (auto simp: m_def)
  have lm: "?l + m < length b" using lb by (simp add: m_def)
  have c: "mem_copy ?l b m (replicate m c) = Inr (c_str b @ replicate m c @ drop (?l + m) b)"
    using lm take_c_str [OF assms(1), of ?l] by (simp add: mem_copy_def)
  have p: "put (m + ?l) nul (c_str b @ replicate m c @ drop (?l + m) b) =
      Inr (c_str b @ replicate m c @ nul # drop (Suc (?l + m)) b)"
    using lm by (subst put_take) (auto simp: add.commute)
  have "says (c_str b @ replicate m c @ nul # drop (Suc (?l + m)) b) (length b) (c_str b @ replicate m c)"
    using lm buffer_max [OF assms(1)] assms(2)
    by (intro says_write) (auto simp: no_nul_def dest: no_nul_c_str [unfolded no_nul_def, THEN notE])
  then show ?thesis
    using False assms(1) c p by (simp add: string_append_chars_def Let_def m nat_add_distrib)
qed

text \<open>\<open>prepend\<close>: the source in front of the text, cut to the buffer.\<close>

lemma prepend_says:
  assumes "source src s" and "buffer_ok b"
  defines "m \<equiv> min (length s + length (c_str b)) (length b - 1)"
  shows "\<exists>b'. string_prepend src (-1) b = Inr (b', int m) \<and>
           says b' (length b) (take (length b - 1) (s @ c_str b))"
proof -
  obtain r where r: "b = c_str b @ nul # r" and lb: "length b = Suc (length (c_str b) + length r)"
    using buffer_split [OF assms(2)] .
  let ?n = "min (length s) (length b - 1)" and ?l = "length (c_str b)"
  let ?k = "m - ?n"
  have k: "?k \<le> ?l" "?n + ?k = m" "m < length b" using lb by (auto simp: m_def)
  have e: "(if int (length s) \<ge> int (length b) - int ?l
      then (if int (length s) \<ge> int (length b) then int (length b) - 1 else int (length s),
            int (length b) + (- (if int (length s) \<ge> int (length b) then int (length b) - 1 else int (length s)) - 1))
      else (int (length s), int ?l)) = (int ?n, int ?k)"
    using lb by (auto simp: m_def of_nat_diff)
  let ?b1 = "take ?n b @ take ?k (c_str b) @ drop m b"
  have c1: "mem_copy ?n b ?k b = Inr ?b1"
    using k take_c_str [OF assms(2) k(1)] by (simp add: mem_copy_def)
  have c2: "mem_copy 0 ?b1 ?n src = Inr (take ?n s @ take ?k (c_str b) @ drop m b)"
  proof -
    have "mem_copy 0 ?b1 ?n src = Inr (take 0 ?b1 @ take ?n s @ drop (0 + ?n) ?b1)"
      using k by (intro mem_copy_source [OF assms(1)]) auto
    moreover have "drop ?n ?b1 = take ?k (c_str b) @ drop m b" using lb by simp
    ultimately show ?thesis by simp
  qed
  have c3: "put m nul (take ?n s @ take ?k (c_str b) @ drop m b) =
      Inr (take ?n s @ take ?k (c_str b) @ nul # drop (Suc m) b)"
  proof -
    have "drop m b = b ! m # drop (Suc m) b" using k(3) by (rule Cons_nth_drop_Suc [symmetric])
    moreover have "length (take ?n s @ take ?k (c_str b)) = m" using k(1,2) by simp
    ultimately show ?thesis using put_after [of "take ?n s @ take ?k (c_str b)" m] by simp
  qed
  have t: "take (length b - 1) (s @ c_str b) = take ?n s @ take ?k (c_str b)"
  proof (cases "length s \<le> length b - 1")
    case True
    then have "take ?n s = s" "take ?k (c_str b) = take (length b - 1 - length s) (c_str b)"
      using lb by (auto simp: m_def min_def)
    then show ?thesis using True by simp
  next
    case False
    then have "?n = length b - 1" "?k = 0" by (auto simp: m_def)
    then show ?thesis using False by simp
  qed
  have "says (take ?n s @ take ?k (c_str b) @ nul # drop (Suc m) b) (length b) (take (length b - 1) (s @ c_str b))"
    unfolding t using k buffer_max [OF assms(2)] source_no_nul [OF assms(1)]
    by (intro says_write [of _ _ "drop (Suc m) b"]) auto
  moreover have "string_prepend src (-1) b =
      Inr (take ?n s @ take ?k (c_str b) @ nul # drop (Suc m) b, int m)"
  proof -
    have "string_prepend src (-1) b =
      rbind (mem_copy (nat (int ?n)) b (nat (int ?k)) b) (\<lambda>b.
         rbind (mem_copy 0 b (nat (int ?n)) src) (\<lambda>b.
           rbind (put (nat (int ?k + int ?n)) nul b) (\<lambda>b. Inr (b, int ?k + int ?n))))"
      by (simp only: string_prepend_def Let_def source_calcLength [OF assms(1)] buffer_calcLength [OF assms(2)]
          if_True simp_thms e prod.case)
    moreover have "int ?k + int ?n = int m" using k(2) by linarith
    ultimately show ?thesis by (simp only: nat_int c1 c2 c3 rbind_Inr)
  qed
  ultimately show ?thesis by blast
qed

section \<open>Cutting\<close>

text \<open>A NUL written inside the text cuts it there.\<close>

lemma cut_says:
  assumes "buffer_ok b" and "n \<le> length (c_str b)"
  shows "says (b[n := nul]) (length b) (take n (c_str b))"
proof -
  have "n < length b" using assms length_c_str_less [of b] by (auto simp: buffer_ok_def string_ok_def)
  then have "b[n := nul] = take n (c_str b) @ nul # drop (Suc n) b"
    using take_c_str [OF assms] by (simp add: upd_conv_take_nth_drop)
  then show ?thesis using buffer_max [OF assms(1)] assms(2) \<open>n < length b\<close> by (intro says_write) auto
qed

lemma says_id: "buffer_ok b \<Longrightarrow> says b (length b) t \<longleftrightarrow> c_str b = t"
  by (auto simp: says_def)

lemma chop_says:
  assumes "buffer_ok b"
  shows "says (fst (string_chop num b)) (length b) (take (length (c_str b) - nat num) (c_str b))"
proof -
  have "nat (int (length (c_str b)) - num) = length (c_str b) - nat num" if "0 \<le> num" "num \<le> int (length (c_str b))"
    using that by linarith
  then show ?thesis
    using assms by (auto simp: string_chop_def Let_def says_id intro: cut_says dest: cut_says [of b 0])
qed

lemma last_cell:
  assumes "buffer_ok b" and "c_str b \<noteq> []"
  shows "b ! (length (c_str b) - 1) = last (c_str b)"
  using assms(2) nth_c_str [of "length (c_str b) - 1" b] by (simp add: last_conv_nth)

lemma chopMatchedChars_says:
  assumes "buffer_ok b"
  shows "says (fst (chopMatchedChars cs b)) (length b)
    (if c_str b \<noteq> [] \<and> last (c_str b) \<in> set cs then butlast (c_str b) else c_str b)"
  using assms last_cell [OF assms] cut_says [OF assms, of "length (c_str b) - 1"]
  by (auto simp: chopMatchedChars_def Let_def says_id list_ex_iff butlast_conv_take Suc_le_eq)

lemma chopMatchedChar_says:
  assumes "buffer_ok b"
  shows "says (fst (chopMatchedChar c b)) (length b)
    (if c_str b \<noteq> [] \<and> last (c_str b) = c then butlast (c_str b) else c_str b)"
  using assms last_cell [OF assms] cut_says [OF assms, of "length (c_str b) - 1"]
  by (auto simp: chopMatchedChar_def Let_def says_id butlast_conv_take Suc_le_eq)

lemma chopUnprintable_says:
  assumes "buffer_ok b"
  shows "says (fst (chopUnprintableAsciiChar b)) (length b)
    (if c_str b \<noteq> [] \<and> unprintable (last (c_str b)) then butlast (c_str b) else c_str b)"
  using assms last_cell [OF assms] cut_says [OF assms, of "length (c_str b) - 1"]
  by (auto simp: chopUnprintableAsciiChar_def Let_def says_id butlast_conv_take Suc_le_eq)

lemma strip_loop_text:
  "n \<le> length s \<Longrightarrow> take (strip_loop p s n) s = rev (dropWhile p (rev (take n s)))"
  by (induction n) (auto simp: take_Suc_conv_app_nth)

lemma strip_loop_le: "strip_loop p b n \<le> n"
  by (induction n) auto

lemma strip_loop_c_str: "n \<le> length (c_str b) \<Longrightarrow> strip_loop p b n = strip_loop p (c_str b) n"
  by (induction n) (auto simp: nth_c_str)

lemma strip_with_says:
  assumes "buffer_ok b"
  shows "says (fst (strip_with p b)) (length b) (rev (dropWhile p (rev (c_str b))))"
proof -
  let ?n = "strip_loop p b (length (c_str b))"
  have n: "?n \<le> length (c_str b)" by (rule strip_loop_le)
  have t: "take ?n (c_str b) = rev (dropWhile p (rev (c_str b)))"
    using strip_loop_text [of "length (c_str b)" "c_str b" p] strip_loop_c_str [of "length (c_str b)" b p]
    by simp
  have c: "says (b[?n := nul]) (length b) (rev (dropWhile p (rev (c_str b))))"
    using cut_says [OF assms n] by (simp only: t)
  show ?thesis
  proof (cases "?n = length (c_str b)")
    case True
    then have "c_str b = rev (dropWhile p (rev (c_str b)))" using t by simp
    then show ?thesis using True assms by (simp add: strip_with_def Let_def says_id)
  next
    case False
    then show ?thesis using c n assms by (simp add: strip_with_def Let_def)
  qed
qed

lemma rstrip_says:
  assumes "buffer_ok b"
  shows "says (fst (rstrip cs b)) (length b) (rev (dropWhile (\<lambda>c. c \<in> set cs) (rev (c_str b))))"
  using assms strip_with_says [OF assms, of "\<lambda>c. c \<in> set cs"]
  by (auto simp: rstrip_def list_ex_iff says_id)

lemma rstripUnprintable_says:
  assumes "buffer_ok b"
  shows "says (fst (rstripUnprintableAsciiChars b)) (length b) (rev (dropWhile unprintable (rev (c_str b))))"
  using assms strip_with_says [OF assms, of unprintable]
  by (auto simp: rstripUnprintableAsciiChars_def says_id Suc_le_eq)

lemma trim_says:
  assumes "buffer_ok b" and "n \<le> int (length (c_str b)) \<or> n \<ge> int (length b)"
  shows "says (fst (string_trim n b)) (length b) (take (nat n) (c_str b))"
proof -
  have "length (c_str b) < length b"
    using assms(1) length_c_str_less [of b] by (auto simp: buffer_ok_def string_ok_def)
  then show ?thesis
    using assms cut_says [OF assms(1), of "nat n"] cut_says [OF assms(1), of 0]
    by (auto simp: string_trim_def Let_def says_id)
qed

lemma trimMatchedString_says:
  assumes "buffer_ok b" and "source suf u"
  shows "says (fst (trimMatchedString suf b)) (length b)
    (if suffix u (c_str b) then take (length (c_str b) - length u) (c_str b) else c_str b)"
proof -
  let ?d = "length (c_str b) - length u"
  have ok: "string_ok b" "string_ok suf" "c_str suf = u" using assms by (auto simp: buffer_ok_def source_def)
  show ?thesis
  proof (cases "length u \<le> length (c_str b)")
    case True
    have "comparen (int (length u)) (drop ?d b) suf = 0 \<longleftrightarrow> occurs u (c_str b) ?d"
      using True comparen_occurs [OF ok(1,2), of ?d] by (simp add: ok(3))
    moreover have "occurs u (c_str b) ?d \<longleftrightarrow> suffix u (c_str b)"
      using True by (auto simp: occurs_take suffix_def) (metis append_take_drop_id)
    ultimately show ?thesis
      using True assms(1) cut_says [OF assms(1), of ?d]
      by (simp add: trimMatchedString_def Let_def source_calcLength [OF assms(2)] says_id)
  next
    case False
    then have "\<not> suffix u (c_str b)" using suffix_length_le by blast
    then show ?thesis
      using False assms(1) by (simp add: trimMatchedString_def Let_def source_calcLength [OF assms(2)] says_id)
  qed
qed

section \<open>Replacing\<close>

lemma map_cells_says:
  assumes "buffer_ok b" and "\<And>c. c \<noteq> nul \<Longrightarrow> f c \<noteq> nul"
  shows "says (map f (take (length (c_str b)) b) @ drop (length (c_str b)) b) (length b) (map f (c_str b))"
proof -
  obtain r where r: "b = c_str b @ nul # r" using buffer_split [OF assms(1)] .
  have "take (length (c_str b)) b = c_str b" using take_c_str [OF assms(1)] by simp
  moreover have "drop (length (c_str b)) b = nul # r" by (subst r) simp
  moreover have "length (map f (c_str b) @ nul # r) = length b" by (subst r) simp
  moreover have "no_nul (map f (c_str b))"
    using assms(2) no_nul_c_str [of b] unfolding no_nul_def by (metis (no_types, lifting) imageE list.set_map)
  ultimately show ?thesis using buffer_max [OF assms(1)] by (intro says_write) simp_all
qed

lemma replaceChar_says:
  assumes "buffer_ok b" and "new \<noteq> nul"
  shows "says (fst (replaceChar old new b)) (length b) (map (\<lambda>c. if c = old then new else c) (c_str b))"
  using assms map_cells_says [OF assms(1), of "\<lambda>c. if c = old then new else c"]
  by (simp add: replaceChar_def Let_def)

lemma replace_one_nul: "nul \<notin> snd ` set rs \<Longrightarrow> c \<noteq> nul \<Longrightarrow> replace_one rs c \<noteq> nul"
  by (induction rs c rule: replace_one.induct) auto

lemma replaceCharList_says:
  assumes "buffer_ok b" and "source olds os" and "source news ns"
  shows "says (fst (replaceCharList olds news b)) (length b) (map (replace_one (zip os ns)) (c_str b))"
proof -
  have t: "take (length os) olds = os" "take (length ns) news = ns"
    using source_take [OF assms(2)] source_take [OF assms(3)] by simp_all
  have "nul \<notin> snd ` set (zip os ns)"
    using source_no_nul [OF assms(3)] by (auto simp: no_nul_def dest: set_zip_rightD)
  from map_cells_says [OF assms(1) replace_one_nul [OF this]] show ?thesis
    using assms(1)
    by (simp add: replaceCharList_def Let_def source_calcLength [OF assms(2)] source_calcLength [OF assms(3)] t)
qed

section \<open>Refinement\<close>

text \<open>The edits of a buffered string, and what they do to a text that is cut to the buffer.\<close>

datatype string_edit =
    Edit_assign string | Edit_append string | Edit_prepend string | Edit_append_char char int
  | Edit_chop int | Edit_rstrip string | Edit_trim_suffix string | Edit_replace char char
  | Edit_replace_list string string | Edit_clear

definition edit_buffer :: "string_edit \<Rightarrow> char list \<Rightarrow> char list res" where
  "edit_buffer e b =
     (case e of
        Edit_assign s \<Rightarrow> string_assign (cells s) b
      | Edit_append s \<Rightarrow> rbind (string_append (cells s) (-1) b) (\<lambda>(b, _). Inr b)
      | Edit_prepend s \<Rightarrow> rbind (string_prepend (cells s) (-1) b) (\<lambda>(b, _). Inr b)
      | Edit_append_char c n \<Rightarrow> rbind (string_append_chars c n b) (\<lambda>(b, _). Inr b)
      | Edit_chop n \<Rightarrow> Inr (fst (string_chop n b))
      | Edit_rstrip cs \<Rightarrow> Inr (fst (rstrip cs b))
      | Edit_trim_suffix s \<Rightarrow> Inr (fst (trimMatchedString (cells s) b))
      | Edit_replace old new \<Rightarrow> Inr (fst (replaceChar old new b))
      | Edit_replace_list olds news \<Rightarrow> Inr (fst (replaceCharList (cells olds) (cells news) b))
      | Edit_clear \<Rightarrow> string_clear b)"

definition edit_text :: "nat \<Rightarrow> string_edit \<Rightarrow> string \<Rightarrow> string" where
  "edit_text sz e t =
     (case e of
        Edit_assign s \<Rightarrow> take (sz - 1) s
      | Edit_append s \<Rightarrow> take (sz - 1) (t @ s)
      | Edit_prepend s \<Rightarrow> take (sz - 1) (s @ t)
      | Edit_append_char c n \<Rightarrow> take (sz - 1) (t @ replicate (nat n) c)
      | Edit_chop n \<Rightarrow> take (length t - nat n) t
      | Edit_rstrip cs \<Rightarrow> rev (dropWhile (\<lambda>c. c \<in> set cs) (rev t))
      | Edit_trim_suffix s \<Rightarrow> if suffix s t then take (length t - length s) t else t
      | Edit_replace old new \<Rightarrow> map (\<lambda>c. if c = old then new else c) t
      | Edit_replace_list olds news \<Rightarrow> map (replace_one (zip olds news)) t
      | Edit_clear \<Rightarrow> [])"

definition text_ok :: "string \<Rightarrow> bool" where
  "text_ok s \<longleftrightarrow> no_nul s \<and> length s < cMaximumLength"

definition edit_ok :: "string_edit \<Rightarrow> bool" where
  "edit_ok e =
     (case e of
        Edit_assign s \<Rightarrow> text_ok s | Edit_append s \<Rightarrow> text_ok s | Edit_prepend s \<Rightarrow> text_ok s
      | Edit_append_char c n \<Rightarrow> c \<noteq> nul | Edit_trim_suffix s \<Rightarrow> text_ok s
      | Edit_replace old new \<Rightarrow> new \<noteq> nul
      | Edit_replace_list olds news \<Rightarrow> text_ok olds \<and> text_ok news | _ \<Rightarrow> True)"

lemma text_source: "text_ok s \<Longrightarrow> source (cells s) s"
  by (simp add: text_ok_def source_cells)

lemma clear_says: "buffer_ok b \<Longrightarrow> \<exists>b'. string_clear b = Inr b' \<and> says b' (length b) []"
  using cut_says [of b 0] buffer_nonempty [of b] by (simp add: string_clear_def put_def)

lemma says_length: "buffer_ok b \<Longrightarrow> length (c_str b) \<le> length b - 1"
  using length_c_str_less [of b] by (auto simp: buffer_ok_def string_ok_def)

lemma edit_says:
  assumes "buffer_ok b" and "edit_ok e"
  shows "\<exists>b'. edit_buffer e b = Inr b' \<and> says b' (length b) (edit_text (length b) e (c_str b))"
proof -
  have l: "length (c_str b) \<le> length b - 1" by (rule says_length [OF assms(1)])
  show ?thesis
  proof (cases e)
    case (Edit_assign s)
    then show ?thesis
      using assms assign_says [OF text_source [of s] assms(1)] by (simp add: edit_buffer_def edit_text_def edit_ok_def)
  next
    case (Edit_append s)
    then have s: "source (cells s) s" using assms by (simp add: edit_ok_def text_source)
    have "take (length b - 1) (c_str b @ s) =
      c_str b @ take (min (length s) (length b - 1 - length (c_str b))) s"
      using l by (auto simp: min_def)
    then show ?thesis
      using append_says [OF s _ assms(1), of "-1" "length s"]
      by (auto simp: Edit_append edit_buffer_def edit_text_def asks_def)
  next
    case (Edit_prepend s)
    then have s: "source (cells s) s" using assms by (simp add: edit_ok_def text_source)
    then show ?thesis
      using prepend_says [OF s assms(1)] by (auto simp: Edit_prepend edit_buffer_def edit_text_def)
  next
    case (Edit_append_char c n)
    have "take (length b - 1) (c_str b @ replicate (nat n) c) =
      c_str b @ replicate (min (nat n) (length b - 1 - length (c_str b))) c"
      using l by (simp add: min.commute)
    then show ?thesis
      using append_chars_says [OF assms(1), of c n] assms(2)
      by (auto simp: Edit_append_char edit_buffer_def edit_text_def edit_ok_def)
  next
    case (Edit_chop n)
    then show ?thesis using chop_says [OF assms(1)] by (simp add: edit_buffer_def edit_text_def)
  next
    case (Edit_rstrip cs)
    then show ?thesis using rstrip_says [OF assms(1)] by (simp add: edit_buffer_def edit_text_def)
  next
    case (Edit_trim_suffix s)
    then show ?thesis
      using assms trimMatchedString_says [OF assms(1) text_source [of s]]
      by (simp add: edit_buffer_def edit_text_def edit_ok_def)
  next
    case (Edit_replace old new)
    then show ?thesis
      using assms replaceChar_says [OF assms(1)] by (simp add: edit_buffer_def edit_text_def edit_ok_def)
  next
    case (Edit_replace_list olds news)
    then show ?thesis
      using assms replaceCharList_says [OF assms(1) text_source [of olds] text_source [of news]]
      by (simp add: edit_buffer_def edit_text_def edit_ok_def)
  next
    case Edit_clear
    then show ?thesis using clear_says [OF assms(1)] by (simp add: edit_buffer_def edit_text_def)
  qed
qed

fun edit_all :: "string_edit list \<Rightarrow> char list \<Rightarrow> char list res" where
  "edit_all [] b = Inr b"
| "edit_all (e # es) b = rbind (edit_buffer e b) (edit_all es)"

text \<open>
  C19: Whatever edits a buffered string goes through, none writes or reads outside its buffer, the buffer
  keeps its size and its NUL, and the text is what the same edits do to a text that is cut to the
  buffer's size less one after each step.
\<close>

theorem string_edits_refine:
  assumes "buffer_ok b" and "list_all edit_ok es"
  shows "\<exists>b'. edit_all es b = Inr b' \<and> says b' (length b) (fold (edit_text (length b)) es (c_str b))"
  using assms
proof (induction es arbitrary: b)
  case Nil
  then show ?case by (simp add: says_def)
next
  case (Cons e es)
  then obtain b' where b': "edit_buffer e b = Inr b'" "says b' (length b) (edit_text (length b) e (c_str b))"
    using edit_says by fastforce
  then show ?case using Cons.IH [of b'] Cons.prems by (auto simp: says_def)
qed

theorem string_edits_refine_witness:
  "\<exists>b'. edit_all [Edit_assign ''127.0.0.1'', Edit_append '':1027'', Edit_prepend ''at ''] (replicate 16 nul) = Inr b'
     \<and> c_str b' = ''at 127.0.0.1:10''"
proof -
  have b: "buffer_ok (replicate 16 nul)" by (simp add: buffer_ok_def string_ok_def cMaximumLength_def)
  have e: "list_all edit_ok [Edit_assign ''127.0.0.1'', Edit_append '':1027'', Edit_prepend ''at '']"
    by (simp add: edit_ok_def text_ok_def no_nul_def nul_def cMaximumLength_def)
  show ?thesis
    using string_edits_refine [OF b e] by (auto simp: says_def edit_text_def c_str_def)
qed

end
