(* ===== verification/String_Tokens.thy ===== *)
theory String_Tokens
  imports Buffered_String
begin

text \<open>
  Walking over a string as if it were split at delimiters: \<open>token_iterator\<close> of \<open>sead/prim/seadSafeString.hpp\<close>.
  An iterator is an index into the string; one past the end is the end of the walk.
\<close>

section \<open>Operations\<close>

definition tokenBegin :: int where
  "tokenBegin = 0"

definition tokenEnd :: "char list \<Rightarrow> int" where
  "tokenEnd m = int (calcLength m) + 1"

text \<open>The loop of \<open>operator++\<close>: on to the next NUL or delimiter.\<close>

fun skip_loop :: "char list \<Rightarrow> char list \<Rightarrow> nat" where
  "skip_loop delims [] = 0"
| "skip_loop delims (c # m) = (if c = nul \<or> include_char c delims then 0 else Suc (skip_loop delims m))"

definition token_next :: "char list \<Rightarrow> char list \<Rightarrow> int \<Rightarrow> int" where
  "token_next m delims index =
     (if 0 \<le> index \<and> index \<le> int (calcLength m)
      then index + int (skip_loop delims (drop (nat index) m)) + 1 else index)"

text \<open>The loop of \<open>operator--\<close>: back to the delimiter before.\<close>

fun back_loop :: "char list \<Rightarrow> char list \<Rightarrow> nat \<Rightarrow> int" where
  "back_loop m delims i =
     (if m ! i = nul \<or> include_char (m ! i) delims then int i
      else case i of 0 \<Rightarrow> -1 | Suc i' \<Rightarrow> back_loop m delims i')"

definition token_prev :: "char list \<Rightarrow> char list \<Rightarrow> int \<Rightarrow> int" where
  "token_prev m delims index =
     (if index = 0 then index
      else if index = 1 then 0
      else if 0 \<le> index \<and> index \<le> int (calcLength m) + 1
      then back_loop m delims (nat (index - 2)) + 1
      else index)"

definition token_get :: "char list \<Rightarrow> char list \<Rightarrow> int \<Rightarrow> char list \<Rightarrow> (char list \<times> int) res" where
  "token_get m delims index out =
     (let part_length = token_next m delims index - index - 1
      in string_copy (getPart index m) part_length out)"

definition token_cutOffGet :: "char list \<Rightarrow> char list \<Rightarrow> int \<Rightarrow> char list \<Rightarrow> (char list \<times> int) res" where
  "token_cutOffGet m delims index out =
     (let part_length = token_next m delims index - index - 1
      in string_cutOffCopy (getPart index m) part_length out)"

text \<open>
  The loop of \<open>getAndForward\<close> from the cell \<open>i\<close> of the output on: \<open>None\<close> when the token does not fit, the
  output then has no new NUL.
\<close>

fun getAndForward_loop :: "char list \<Rightarrow> char list \<Rightarrow> nat \<Rightarrow> char list \<Rightarrow> char list \<times> nat option" where
  "getAndForward_loop delims (c # m) i out =
     (if length out - 1 < i then (out, None)
      else if c = nul \<or> include_char c delims then (out[i := nul], Some i)
      else getAndForward_loop delims m (Suc i) (out[i := c]))"
| "getAndForward_loop delims [] i out = (out, None)"

definition getAndForward :: "char list \<Rightarrow> char list \<Rightarrow> int \<Rightarrow> char list \<Rightarrow> char list \<times> int \<times> int" where
  "getAndForward m delims index out =
     (if index < 0 \<or> index > int (calcLength m) then (out, 0, index)
      else case getAndForward_loop delims (drop (nat index) m) 0 out of
             (out, Some i) \<Rightarrow> (out, int i, index + int i + 1)
           | (out, None) \<Rightarrow> (out, 0, index))"

fun cutOffGetAndForward_loop :: "char list \<Rightarrow> char list \<Rightarrow> nat \<Rightarrow> char list \<Rightarrow> char list \<times> nat \<times> nat" where
  "cutOffGetAndForward_loop delims (c # m) i out =
     (if c = nul \<or> include_char c delims then (out[i := nul], i, 0)
      else if i < length out - 1
      then (case cutOffGetAndForward_loop delims m (Suc i) (out[i := c]) of (out, i, n) \<Rightarrow> (out, i, Suc n))
      else (case cutOffGetAndForward_loop delims m i out of (out, i, n) \<Rightarrow> (out, i, Suc n)))"
| "cutOffGetAndForward_loop delims [] i out = (out, i, 0)"

definition cutOffGetAndForward :: "char list \<Rightarrow> char list \<Rightarrow> int \<Rightarrow> char list \<Rightarrow> char list \<times> int \<times> int" where
  "cutOffGetAndForward m delims index out =
     (if index < 0 \<or> index > int (calcLength m) then (out, 0, index)
      else case cutOffGetAndForward_loop delims (drop (nat index) m) 0 out of
             (out, i, n) \<Rightarrow> (out, int i, index + int n + 1))"

section \<open>Tokens of a text\<close>

definition not_delim :: "char list \<Rightarrow> char \<Rightarrow> bool" where
  "not_delim delims c \<longleftrightarrow> c \<noteq> nul \<and> \<not> include_char c delims"

text \<open>The token at the head of a text, and the tokens it is made of.\<close>

definition token_of :: "char list \<Rightarrow> string \<Rightarrow> string" where
  "token_of delims t = takeWhile (not_delim delims) t"

lemma skip_loop_token:
  "skip_loop delims m = length (token_of delims m)"
  by (induction m) (auto simp: token_of_def not_delim_def)

lemma token_of_c_str: "token_of delims (c_str m) = token_of delims m"
  by (induction m) (auto simp: token_of_def c_str_def not_delim_def)

lemma token_next_text:
  assumes "string_ok m" and "0 \<le> index" and "index \<le> int (length (c_str m))"
  shows "token_next m delims index = index + int (length (token_of delims (drop (nat index) (c_str m)))) + 1"
  using assms drop_ok [OF assms(1), of "nat index"] token_of_c_str [of delims "drop (nat index) m"]
  by (simp add: token_next_def skip_loop_token)

text \<open>The walk always ends: a step from a place inside the string leads on, and at most one past the end.\<close>

lemma token_next_progress:
  assumes "string_ok m" and "0 \<le> index" and "index \<le> int (length (c_str m))"
  shows "index < token_next m delims index \<and> token_next m delims index \<le> tokenEnd m"
proof -
  have "length (token_of delims (drop (nat index) (c_str m))) \<le> length (c_str m) - nat index"
    unfolding token_of_def by (metis length_drop length_takeWhile_le)
  then show ?thesis using assms by (auto simp: token_next_text tokenEnd_def)
qed

lemma getAndForward_loop_fits:
  assumes "nul \<in> set m" and "i + length (token_of delims m) < length out"
  shows "getAndForward_loop delims m i out =
    (take i out @ token_of delims m @ nul # drop (Suc (i + length (token_of delims m))) out,
     Some (i + length (token_of delims m)))"
  using assms
proof (induction delims m i out rule: getAndForward_loop.induct)
  case (1 delims c m i out)
  show ?case
  proof (cases "c = nul \<or> include_char c delims")
    case True
    then have "token_of delims (c # m) = []" by (auto simp: token_of_def not_delim_def)
    then show ?thesis using True 1(3) by (auto simp: upd_conv_take_nth_drop)
  next
    case False
    then have t: "token_of delims (c # m) = c # token_of delims m" by (simp add: token_of_def not_delim_def)
    have i: "i < length out" using 1(3) by simp
    have "getAndForward_loop delims m (Suc i) (out[i := c]) =
      (take (Suc i) (out[i := c]) @ token_of delims m @ nul # drop (Suc (Suc i + length (token_of delims m))) (out[i := c]),
       Some (Suc i + length (token_of delims m)))"
      using False 1(2,3) i by (intro 1(1)) (auto simp: t)
    moreover have "take (Suc i) (out[i := c]) = take i out @ [c]"
      using i by (simp add: take_Suc_conv_app_nth)
    moreover have "\<not> length out - 1 < i" using i by simp
    ultimately show ?thesis using False i by (simp add: t)
  qed
qed auto

text \<open>
  A token that fits is copied with its NUL, and the iterator moves past its delimiter; a token as long as
  the output or longer fills every cell and leaves the output without a NUL.
\<close>

lemma getAndForward_says:
  fixes delims :: "char list"
  assumes "string_ok m" and "0 \<le> index" and "index \<le> int (length (c_str m))" and "buffer_ok out"
  defines "t \<equiv> token_of delims (drop (nat index) (c_str m))"
  assumes fits: "length t < length out"
  shows "\<exists>out'. getAndForward m delims index out = (out', int (length t), token_next m delims index) \<and>
           says out' (length out) t"
proof -
  have d: "string_ok (drop (nat index) m)" "c_str (drop (nat index) m) = drop (nat index) (c_str m)"
    using drop_ok [OF assms(1), of "nat index"] assms(2,3) by auto
  have t: "token_of delims (drop (nat index) m) = t"
    using token_of_c_str [of delims "drop (nat index) m"] by (simp add: d(2) t_def)
  have n: "nul \<in> set (drop (nat index) m)" using d(1) by (simp add: string_ok_def)
  have g: "getAndForward_loop delims (drop (nat index) m) 0 out = (t @ nul # drop (Suc (length t)) out, Some (length t))"
    using getAndForward_loop_fits [OF n, of 0 delims out] fits by (simp add: t)
  have "no_nul t" unfolding t_def token_of_def no_nul_def by (auto dest: set_takeWhileD simp: not_delim_def)
  then have "says (t @ nul # drop (Suc (length t)) out) (length out) t"
    using fits buffer_max [OF assms(4)] by (intro says_write) auto
  then show ?thesis
    using assms(1-3) g by (simp add: getAndForward_def token_next_text t_def)
qed

lemma getAndForward_loop_overlong:
  assumes "nul \<in> set m" and "i \<le> length out" and "length out \<le> i + length (token_of delims m)" and "out \<noteq> []"
  shows "getAndForward_loop delims m i out = (take i out @ take (length out - i) (token_of delims m), None)"
  using assms
proof (induction delims m i out rule: getAndForward_loop.induct)
  case (1 delims c m i out)
  show ?case
  proof (cases "i = length out")
    case True
    then show ?thesis using 1(5) by (cases out) auto
  next
    case False
    then have i: "i < length out" using 1(3) by simp
    then have c: "\<not> (c = nul \<or> include_char c delims)" using 1(4) by (auto simp: token_of_def not_delim_def)
    then have t: "token_of delims (c # m) = c # token_of delims m" by (simp add: token_of_def not_delim_def)
    have "getAndForward_loop delims m (Suc i) (out[i := c]) =
       (take (Suc i) (out[i := c]) @ take (length (out[i := c]) - Suc i) (token_of delims m), None)"
      using c i 1(2,4,5) by (intro 1(1)) (auto simp: t)
    moreover have "take (Suc i) (out[i := c]) = take i out @ [c]" using i by (simp add: take_Suc_conv_app_nth)
    moreover have "length out - i = Suc (length out - Suc i)" using i by simp
    moreover have "\<not> length out - 1 < i" using i by simp
    ultimately show ?thesis using c by (simp add: t)
  qed
qed auto

lemma getAndForward_unterminated:
  fixes delims :: "char list"
  assumes "string_ok m" and "0 \<le> index" and "index \<le> int (length (c_str m))" and "out \<noteq> []"
  defines "t \<equiv> token_of delims (drop (nat index) (c_str m))"
  assumes long: "length out \<le> length t"
  shows "getAndForward m delims index out = (take (length out) t, 0, index) \<and> nul \<notin> set (take (length out) t)"
proof -
  have d: "string_ok (drop (nat index) m)" "c_str (drop (nat index) m) = drop (nat index) (c_str m)"
    using drop_ok [OF assms(1), of "nat index"] assms(2,3) by auto
  have t: "token_of delims (drop (nat index) m) = t"
    using token_of_c_str [of delims "drop (nat index) m"] by (simp add: d(2) t_def)
  have n: "nul \<in> set (drop (nat index) m)" using d(1) by (simp add: string_ok_def)
  have "getAndForward_loop delims (drop (nat index) m) 0 out = (take (length out) t, None)"
    using getAndForward_loop_overlong [OF n, of 0 out delims] long assms(4) by (simp add: t)
  moreover have "nul \<notin> set t" unfolding t_def token_of_def by (auto dest: set_takeWhileD simp: not_delim_def)
  ultimately show ?thesis
    using assms(1-3) by (auto simp: getAndForward_def dest: in_set_takeD)
qed

lemma cutOff_loop_says:
  assumes "nul \<in> set m" and "i \<le> length out - 1" and "out \<noteq> []"
  shows "cutOffGetAndForward_loop delims m i out =
    (let k = min (length (token_of delims m)) (length out - 1 - i)
     in (take i out @ take k (token_of delims m) @ nul # drop (Suc (i + k)) out, i + k, length (token_of delims m)))"
  using assms
proof (induction delims m i out rule: cutOffGetAndForward_loop.induct)
  case (1 delims c m i out)
  show ?case
  proof (cases "c = nul \<or> include_char c delims")
    case True
    then have "token_of delims (c # m) = []" by (auto simp: token_of_def not_delim_def)
    moreover have "i < length out" using 1(4,5) by (cases out) auto
    ultimately show ?thesis using True by (simp add: upd_conv_take_nth_drop)
  next
    case c: False
    then have t: "token_of delims (c # m) = c # token_of delims m" by (simp add: token_of_def not_delim_def)
    show ?thesis
    proof (cases "i < length out - 1")
      case True
      let ?k = "min (length (token_of delims m)) (length out - 1 - Suc i)"
      have "cutOffGetAndForward_loop delims m (Suc i) (out[i := c]) =
         (take (Suc i) (out[i := c]) @ take ?k (token_of delims m) @ nul # drop (Suc (Suc i + ?k)) (out[i := c]),
          Suc i + ?k, length (token_of delims m))"
        using c True 1(1,3,5) by (auto simp: Let_def)
      moreover have "take (Suc i) (out[i := c]) = take i out @ [c]" using True by (simp add: take_Suc_conv_app_nth)
      moreover have "min (length (token_of delims (c # m))) (length out - 1 - i) = Suc ?k"
      proof -
        have "length out - 1 - i = Suc (length out - 1 - Suc i)" using True by arith
        then show ?thesis by (simp only: t list.size add_Suc_right add_0_right min_Suc_Suc)
      qed
      ultimately show ?thesis using c True by (simp add: t Let_def)
    next
      case False
      then have i: "length out - 1 - i = 0" "i < length out" using 1(4,5) by (cases out; simp)+
      have "cutOffGetAndForward_loop delims m i out =
         (take i out @ nul # drop (Suc i) out, i, length (token_of delims m))"
        using c False 1(2)[OF _ False] 1(3-5) i by (auto simp: Let_def)
      then show ?thesis using c False i by (simp add: t)
    qed
  qed
qed auto

lemma cutOffGetAndForward_says:
  fixes delims :: "char list"
  assumes "string_ok m" and "0 \<le> index" and "index \<le> int (length (c_str m))" and "buffer_ok out"
  defines "t \<equiv> token_of delims (drop (nat index) (c_str m))"
  shows "\<exists>out' i. cutOffGetAndForward m delims index out = (out', i, token_next m delims index) \<and>
           says out' (length out) (take (length out - 1) t)"
proof -
  have d: "string_ok (drop (nat index) m)" "c_str (drop (nat index) m) = drop (nat index) (c_str m)"
    using drop_ok [OF assms(1), of "nat index"] assms(2,3) by auto
  have t: "token_of delims (drop (nat index) m) = t"
    using token_of_c_str [of delims "drop (nat index) m"] by (simp add: d(2) t_def)
  have n: "nul \<in> set (drop (nat index) m)" using d(1) by (simp add: string_ok_def)
  have o: "out \<noteq> []" using buffer_nonempty [OF assms(4)] by simp
  let ?k = "min (length t) (length out - 1)"
  have g: "cutOffGetAndForward_loop delims (drop (nat index) m) 0 out =
      (take ?k t @ nul # drop (Suc ?k) out, ?k, length t)"
    using cutOff_loop_says [OF n, of 0 out delims] o by (simp add: t Let_def)
  have "no_nul t" unfolding t_def token_of_def no_nul_def by (auto dest: set_takeWhileD simp: not_delim_def)
  then have "says (take ?k t @ nul # drop (Suc ?k) out) (length out) (take ?k t)"
    using o buffer_max [OF assms(4)] by (intro says_write [OF _ refl]; cases out) auto
  moreover have "take ?k t = take (length out - 1) t" by (simp add: min_def)
  ultimately show ?thesis
    using assms(1-3) g by (auto simp: cutOffGetAndForward_def token_next_text t_def)
qed

end
