(* ===== verification/Name_Tag.thy ===== *)
theory Name_Tag
  imports Float32
begin

text \<open>
  The name over another player's head (\<open>layouts/NameTag.h\<close>, \<open>layouts/NameTag.cpp\<close>): a state machine that
  appears when the puppet comes nearer than one distance and goes when it is farther than another.
  \<open>isNerve\<close> sees the nerve that was set last. What the engine knows of the puppet's current model in a
  frame is the input.
\<close>

section \<open>State\<close>

datatype tag_nerve = TagAppear | TagWait | TagEnd | TagHide

datatype tag_action = Act_Appear | Act_Wait | Act_End

record name_tag =
  nt_nerve :: tag_nerve
  nt_first :: bool
  nt_mIsAlive :: bool
  nt_action :: "tag_action option"
  nt_text :: string
  nt_scale :: f32

text \<open>
  A frame: whether the puppet's model is nearer to the player than \<open>mStartDist\<close> and \<open>mEndDist\<close>, whether
  the engine draws it, its name, its distance normalised to 200 and \<open>mEndDist\<close>, and whether the layout's
  action has ended.
\<close>

record tag_frame =
  tf_near_start :: bool
  tf_near_end :: bool
  tf_isClipped :: bool
  tf_isDead :: bool
  tf_name :: string
  tf_normalized :: f32
  tf_isActionEnd :: bool

section \<open>Operations\<close>

definition tag_setNerve :: "tag_nerve \<Rightarrow> name_tag \<Rightarrow> name_tag" where
  "tag_setNerve n t = t\<lparr>nt_nerve := n, nt_first := True\<rparr>"

definition tag_going :: "name_tag \<Rightarrow> bool" where
  "tag_going t \<longleftrightarrow> nt_nerve t = TagEnd \<or> nt_nerve t = TagHide"

definition tag_end :: "name_tag \<Rightarrow> name_tag" where
  "tag_end t = (if nt_nerve t \<noteq> TagEnd \<and> nt_nerve t \<noteq> TagHide then tag_setNerve TagEnd t else t)"

definition tag_setText :: "string \<Rightarrow> name_tag \<Rightarrow> name_tag" where
  "tag_setText text t = t\<lparr>nt_text := text\<rparr>"

definition NameTag_new :: "string \<Rightarrow> name_tag" where
  "NameTag_new playerName =
     tag_end \<lparr>nt_nerve = TagWait, nt_first = True, nt_mIsAlive = False, nt_action = None,
              nt_text = playerName, nt_scale = Fin 0\<rparr>"

text \<open>\<open>appear\<close>: a tag that is already there, or a puppet too far away, hides it.\<close>

definition tag_hidden :: "name_tag \<Rightarrow> name_tag" where
  "tag_hidden t = tag_setNerve TagHide (t\<lparr>nt_mIsAlive := True, nt_action := Some Act_End\<rparr>)"

definition tag_appear :: "tag_frame \<Rightarrow> name_tag \<Rightarrow> name_tag" where
  "tag_appear f t =
     (if nt_nerve t \<noteq> TagEnd \<and> nt_nerve t \<noteq> TagHide \<and> nt_mIsAlive t then tag_hidden t
      else if \<not> tf_near_start f then tag_hidden t
      else tag_setNerve TagAppear ((tag_setText (tf_name f) t)\<lparr>nt_action := Some Act_Appear, nt_mIsAlive := True\<rparr>))"

definition tag_update :: "tag_frame \<Rightarrow> name_tag \<Rightarrow> name_tag" where
  "tag_update f t =
     (let t = (if nt_nerve t = TagEnd \<or> nt_nerve t = TagHide \<or> \<not> nt_mIsAlive t
               then (if tf_near_start f then tag_appear f t else t) else t)
      in if nt_nerve t \<noteq> TagEnd \<and> nt_nerve t \<noteq> TagHide \<and> nt_mIsAlive t
         then (if \<not> tf_near_end f then tag_setNerve TagEnd t else t) else t)"

definition tag_updateTrans :: "tag_frame \<Rightarrow> name_tag \<Rightarrow> name_tag" where
  "tag_updateTrans f t = t\<lparr>nt_scale := f32_sub (Fin 1) (tf_normalized f)\<rparr>"

definition tag_control :: "tag_frame \<Rightarrow> name_tag \<Rightarrow> name_tag" where
  "tag_control f t =
     (let t = tag_update f t
      in if nt_nerve t \<noteq> TagEnd \<and> nt_nerve t \<noteq> TagHide \<and> (tf_isClipped f \<or> tf_isDead f)
         then tag_setNerve TagEnd t else tag_updateTrans f t)"

definition tag_isVisible :: "tag_frame \<Rightarrow> bool" where
  "tag_isVisible f = tf_near_start f"

definition tag_getCurrentState :: "name_tag \<Rightarrow> string" where
  "tag_getCurrentState t =
     (case nt_nerve t of TagAppear \<Rightarrow> ''Appear'' | TagWait \<Rightarrow> ''Wait'' | TagEnd \<Rightarrow> ''End'' | TagHide \<Rightarrow> ''Hide'')"

text \<open>The nerves of one frame; after it the step is no longer the first.\<close>

definition tag_exeAppear :: "tag_frame \<Rightarrow> name_tag \<Rightarrow> name_tag" where
  "tag_exeAppear f t = (if tf_isActionEnd f then tag_setNerve TagWait t else t)"

definition tag_exeWait :: "tag_frame \<Rightarrow> name_tag \<Rightarrow> name_tag" where
  "tag_exeWait f t = (if nt_first t then t\<lparr>nt_action := Some Act_Wait\<rparr> else t)"

definition tag_exeEnd :: "tag_frame \<Rightarrow> name_tag \<Rightarrow> name_tag" where
  "tag_exeEnd f t =
     (let t = (if nt_first t then t\<lparr>nt_action := Some Act_End\<rparr> else t)
      in if tf_isActionEnd f then tag_setNerve TagHide t else t)"

definition tag_nerve_step :: "tag_frame \<Rightarrow> name_tag \<Rightarrow> name_tag" where
  "tag_nerve_step f t =
     (let t' = (case nt_nerve t of
                  TagAppear \<Rightarrow> tag_exeAppear f t | TagWait \<Rightarrow> tag_exeWait f t
                | TagEnd \<Rightarrow> tag_exeEnd f t | TagHide \<Rightarrow> t)
      in if nt_nerve t' = nt_nerve t then t'\<lparr>nt_first := False\<rparr> else t')"

text \<open>A frame of the layout: its nerve, then its control.\<close>

definition tag_step :: "tag_frame \<Rightarrow> name_tag \<Rightarrow> name_tag" where
  "tag_step f t = tag_control f (tag_nerve_step f t)"

section \<open>When a name is shown\<close>

definition tag_shown :: "name_tag \<Rightarrow> bool" where
  "tag_shown t \<longleftrightarrow> nt_mIsAlive t \<and> nt_nerve t \<noteq> TagEnd \<and> nt_nerve t \<noteq> TagHide"

definition tag_ok :: "name_tag \<Rightarrow> bool" where
  "tag_ok t \<longleftrightarrow> \<not> nt_mIsAlive t \<longrightarrow> tag_going t"

lemma tag_ok_new: "tag_ok (NameTag_new playerName)"
  by (simp add: tag_ok_def NameTag_new_def tag_end_def tag_going_def tag_setNerve_def)

lemma tag_nerve_step_facts:
  "tag_shown (tag_nerve_step f t) = tag_shown t" "tag_ok t \<Longrightarrow> tag_ok (tag_nerve_step f t)"
  "nt_mIsAlive (tag_nerve_step f t) = nt_mIsAlive t"
  by (cases "nt_nerve t"; auto simp: tag_nerve_step_def Let_def tag_exeAppear_def tag_exeWait_def tag_exeEnd_def
      tag_setNerve_def tag_shown_def tag_ok_def tag_going_def)+

lemma tag_ok_step: "tag_ok t \<Longrightarrow> tag_ok (tag_step f t)"
  using tag_nerve_step_facts(2) [of t f]
  by (auto simp: tag_step_def tag_control_def tag_update_def tag_appear_def tag_hidden_def tag_updateTrans_def
      tag_setText_def tag_setNerve_def tag_ok_def tag_going_def Let_def)

text \<open>
  The rule of the tag, for an end distance not below the start distance: a hidden tag is shown when the
  puppet comes nearer than the start distance, a shown one stays while it is nearer than the end
  distance, and none is shown of a puppet that is clipped or dead.
\<close>

theorem name_tag_rule:
  assumes "tf_near_start f \<longrightarrow> tf_near_end f"
  shows "tag_shown (tag_step f t) \<longleftrightarrow>
    (if tag_shown t then tf_near_end f else tf_near_start f) \<and> \<not> tf_isClipped f \<and> \<not> tf_isDead f"
proof -
  have "tag_shown (tag_control f t) \<longleftrightarrow>
    (if tag_shown t then tf_near_end f else tf_near_start f) \<and> \<not> tf_isClipped f \<and> \<not> tf_isDead f" for t
    using assms
    by (auto simp: tag_control_def tag_update_def tag_appear_def tag_hidden_def tag_updateTrans_def
        tag_setText_def tag_setNerve_def tag_shown_def Let_def)
  from this [of "tag_nerve_step f t"] show ?thesis by (simp add: tag_step_def tag_nerve_step_facts)
qed

definition near_frame :: tag_frame where
  "near_frame = \<lparr>tf_near_start = True, tf_near_end = True, tf_isClipped = False, tf_isDead = False,
     tf_name = ''Mario'', tf_normalized = Fin 0, tf_isActionEnd = False\<rparr>"

theorem name_tag_rule_witness:
  "tag_shown (tag_step near_frame (NameTag_new ''Puppet0''))"
  using name_tag_rule [of near_frame "NameTag_new ''Puppet0''"] by (simp add: near_frame_def)

text \<open>A tag that comes up shows the puppet's name of that frame.\<close>

lemma tag_shows_name:
  assumes "\<not> tag_shown t" and "tag_shown (tag_step f t)"
  shows "nt_text (tag_step f t) = tf_name f"
proof -
  have c: "\<not> tag_shown u \<Longrightarrow> tag_shown (tag_control f u) \<Longrightarrow> nt_text (tag_control f u) = tf_name f" for u
    by (auto simp: tag_control_def tag_update_def tag_appear_def tag_hidden_def tag_updateTrans_def
        tag_setText_def tag_setNerve_def tag_shown_def Let_def split: if_splits)
  show ?thesis using assms c by (simp add: tag_step_def tag_nerve_step_facts)
qed

text \<open>
  A tag that is on its way in is brought out again by a second \<open>appear\<close>, so the puppet's holder must not
  call it twice.
\<close>

lemma tag_appear_twice:
  "tf_near_start f \<Longrightarrow> \<not> tag_shown t \<Longrightarrow> tag_shown (tag_appear f t) \<and> \<not> tag_shown (tag_appear f (tag_appear f t))"
  by (auto simp: tag_appear_def tag_hidden_def tag_setText_def tag_setNerve_def tag_shown_def)

end
