(* ===== verification/Icon_Text.thy ===== *)
theory Icon_Text
  imports Game_Mode Puppet_Table
begin

text \<open>
  What the icons of the game modes write (\<open>layouts/HideAndSeekIcon.cpp\<close>, \<open>layouts/CaptureTheFlagIcon.cpp\<close>,
  \<open>exeWait\<close>): the time and the list of players. The list is built in an array of \<open>0x100\<close> characters
  that the string class takes for one of \<open>0x200\<close>.
\<close>

section \<open>The time\<close>

text \<open>\<open>printf\<close>'s \<open>%d\<close> and \<open>%02d\<close> of an \<open>int\<close>.\<close>

fun decimal :: "nat \<Rightarrow> string" where
  "decimal n = (if n < 10 then [digit n] else decimal (n div 10) @ [digit n])"

declare decimal.simps [simp del]

definition format_d :: "nat \<Rightarrow> s32 \<Rightarrow> string" where
  "format_d width n =
     (let sign = (if sint n < 0 then ''-'' else []);
          body = decimal (nat \<bar>sint n\<bar>)
      in sign @ replicate (width - length sign - length body) (CHR ''0'') @ body)"

definition icon_time :: "GameTime \<Rightarrow> string" where
  "icon_time t =
     (if sint (mHours t) > 0
      then format_d 1 (mHours t) @ '':'' @ format_d 2 (mMinutes t) @ '':'' @ format_d 2 (mSeconds t)
      else format_d 2 (mMinutes t) @ '':'' @ format_d 2 (mSeconds t))"

lemma decimal_small: "n < 100 \<Longrightarrow> decimal n = (if n < 10 then [digit n] else [digit (n div 10), digit n])"
  using less_mult_imp_div_less [of n 10 10] by (simp add: decimal.simps [of n] decimal.simps [of "n div 10"])

text \<open>A time of a running timer has two digits for minutes and seconds.\<close>

lemma icon_time_digits:
  assumes "0 \<le> sint (mMinutes t)" and "sint (mMinutes t) < 60" and "0 \<le> sint (mSeconds t)"
    and "sint (mSeconds t) < 60" and "sint (mHours t) \<le> 0"
  shows "icon_time t =
    [digit (nat (sint (mMinutes t)) div 10), digit (nat (sint (mMinutes t))), CHR '':'',
     digit (nat (sint (mSeconds t)) div 10), digit (nat (sint (mSeconds t)))]"
proof -
  have z: "digit 0 = CHR ''0''" by code_simp
  have f: "format_d 2 n = [digit (nat (sint n) div 10), digit (nat (sint n))]"
    if "0 \<le> sint n" "sint n < 60" for n
    using that by (auto simp: format_d_def Let_def decimal_small z [symmetric] numeral_2_eq_2)
  show ?thesis using assms by (simp add: icon_time_def f)
qed

section \<open>The list of players\<close>

definition playerNameBuf_size :: nat where
  "playerNameBuf_size = 0x100"

definition playerList_size :: nat where
  "playerList_size = 0x200"

text \<open>
  \<open>appendWithFormat("%s\n", name)\<close>, which keeps the text below the size the string was given; what does not
  fit into the array with its NUL is written behind it.
\<close>

definition append_name :: "string \<Rightarrow> string \<Rightarrow> string res" where
  "append_name name text =
     (let text = take (playerList_size - 1) (text @ name @ [CHR 10])
      in if length text < playerNameBuf_size then Inr text else Inl BufferOverflow)"

fun player_list_loop :: "(PuppetInfo \<Rightarrow> bool) \<Rightarrow> nat list \<Rightarrow> puppet_table \<Rightarrow> string \<Rightarrow> string res" where
  "player_list_loop mine [] tab text = Inr text"
| "player_list_loop mine (i # is) tab text =
     rbind (getPuppetInfo (of_nat i) tab) (\<lambda>p.
       rbind (if isConnected p \<and> mine p then append_name (puppetName p) text else Inr text) (\<lambda>text.
         player_list_loop mine is tab text))"

text \<open>\<open>getMaxPlayerCount\<close> is \<open>maxPuppets + 1\<close>; without players the pane is left alone.\<close>

definition player_list :: "(PuppetInfo \<Rightarrow> bool) \<Rightarrow> puppet_table \<Rightarrow> string option res" where
  "player_list mine tab =
     (let playerCount = maxPuppets tab + 1
      in if sint playerCount > 0
         then rbind (player_list_loop mine [0..<nat (sint playerCount)] tab []) (\<lambda>text. Inr (Some text))
         else Inr None)"

definition hns_player_list :: "HideAndSeekInfo \<Rightarrow> puppet_table \<Rightarrow> string option res" where
  "hns_player_list info tab = player_list (\<lambda>p. isIt p = mIsPlayerIt info) tab"

definition ctf_player_list :: "CaptureTheFlagInfo \<Rightarrow> puppet_table \<Rightarrow> string option res" where
  "ctf_player_list info tab = player_list (\<lambda>p. ctfTeam p = mPlayerTeam info) tab"

section \<open>What the list says\<close>

definition name_lines :: "(PuppetInfo \<Rightarrow> bool) \<Rightarrow> PuppetInfo list \<Rightarrow> string" where
  "name_lines mine ps = concat (map (\<lambda>p. puppetName p @ [CHR 10]) (filter (\<lambda>p. isConnected p \<and> mine p) ps))"

lemma append_name_small:
  "length name < puppetName_size \<Longrightarrow> length text < playerNameBuf_size \<Longrightarrow> append_name name text =
    (if length (text @ name @ [CHR 10]) < playerNameBuf_size then Inr (text @ name @ [CHR 10]) else Inl BufferOverflow)"
  by (simp add: append_name_def Let_def playerList_size_def playerNameBuf_size_def puppetName_size_def)

lemma length_name_lines_Cons:
  "length (name_lines mine ps) \<le> length (name_lines mine (p # ps))"
  by (simp add: name_lines_def)

lemma player_list_loop_lines:
  assumes "\<forall>i \<in> set is. i < length (mPuppetInfoArr tab) \<and> i < 2 ^ 31"
    and "\<forall>p \<in> set (mPuppetInfoArr tab). length (puppetName p) < puppetName_size"
    and "length text < playerNameBuf_size"
  shows "player_list_loop mine is tab text =
    (let t = text @ name_lines mine (map (\<lambda>i. mPuppetInfoArr tab ! i) is)
     in if length t < playerNameBuf_size then Inr t else Inl BufferOverflow)"
  using assms
proof (induction "is" arbitrary: "text")
  case Nil
  then show ?case by (simp add: name_lines_def)
next
  case (Cons i "is")
  let ?p = "mPuppetInfoArr tab ! i"
  have g: "getPuppetInfo (of_nat i) tab = Inr ?p"
  proof -
    have "sint (of_nat i :: s32) = int i"
      using Cons.prems(1) by (intro sint_small32 [THEN trans]) (auto simp: unat_of_nat take_bit_nat_eq_self)
    then show ?thesis using Cons.prems(1) by (simp add: getPuppetInfo_def)
  qed
  have n: "length (puppetName ?p) < puppetName_size" using Cons.prems(1,2) by simp
  show ?case
  proof (cases "isConnected ?p \<and> mine ?p")
    case False
    then show ?thesis using Cons by (auto simp: g name_lines_def)
  next
    case True
    then have l: "name_lines mine (map (\<lambda>i. mPuppetInfoArr tab ! i) (i # is)) =
        puppetName ?p @ [CHR 10] @ name_lines mine (map (\<lambda>i. mPuppetInfoArr tab ! i) is)"
      by (simp add: name_lines_def)
    show ?thesis
    proof (cases "length (text @ puppetName ?p @ [CHR 10]) < playerNameBuf_size")
      case small: True
      have "player_list_loop mine is tab (text @ puppetName ?p @ [CHR 10]) =
         (let t = (text @ puppetName ?p @ [CHR 10]) @ name_lines mine (map (\<lambda>i. mPuppetInfoArr tab ! i) is)
          in if length t < playerNameBuf_size then Inr t else Inl BufferOverflow)"
        by (rule Cons.IH) (use Cons.prems(1,2) small in auto)
      then show ?thesis
        using True small append_name_small [OF n Cons.prems(3)] unfolding l by (simp add: g Let_def)
    next
      case big: False
      then show ?thesis
        using True append_name_small [OF n Cons.prems(3)] unfolding l by (simp add: g Let_def)
    qed
  qed
qed

text \<open>
  C15: The list names the connected players of the own side, one a line, exactly when their names with the
  line ends are below 256 characters; otherwise the text is written past the end of the array.
\<close>

theorem player_list_lines:
  assumes "0 < sint (maxPuppets tab + 1)" and "nat (sint (maxPuppets tab + 1)) \<le> length (mPuppetInfoArr tab)"
    and "\<forall>p \<in> set (mPuppetInfoArr tab). length (puppetName p) < puppetName_size"
  shows "player_list mine tab =
    (let t = name_lines mine (take (nat (sint (maxPuppets tab + 1))) (mPuppetInfoArr tab))
     in if length t < 256 then Inr (Some t) else Inl BufferOverflow)"
proof -
  let ?n = "nat (sint (maxPuppets tab + 1))"
  have n: "?n < 2 ^ 31" using sint_range32 [of "maxPuppets tab + 1"] assms(1) by simp
  have m: "map (\<lambda>i. mPuppetInfoArr tab ! i) [0..<?n] = take ?n (mPuppetInfoArr tab)"
    using assms(2) by (intro nth_equalityI) auto
  have "player_list_loop mine [0..<?n] tab [] =
    (let t = [] @ name_lines mine (map (\<lambda>i. mPuppetInfoArr tab ! i) [0..<?n])
     in if length t < playerNameBuf_size then Inr t else Inl BufferOverflow)"
    by (rule player_list_loop_lines) (use assms(2,3) n in \<open>auto simp: playerNameBuf_size_def\<close>)
  then show ?thesis
    using assms(1) unfolding m by (simp add: player_list_def Let_def playerNameBuf_size_def)
qed

text \<open>Sixteen players with names of fifteen characters, the number the array is meant for.\<close>

definition sixteen_players :: puppet_table where
  "sixteen_players =
     \<lparr>mPuppetInfoArr = replicate 32 (PuppetInfo_new\<lparr>puppetName := replicate 15 CHR ''x'', isConnected := True\<rparr>),
      mConnectCount = 16, maxPuppets = 15\<rparr>"

theorem player_list_lines_witness: "player_list (\<lambda>p. True) sixteen_players = Inl BufferOverflow"
proof -
  have "player_list (\<lambda>p. True) sixteen_players =
    (let t = name_lines (\<lambda>p. True) (take (nat (sint (maxPuppets sixteen_players + 1))) (mPuppetInfoArr sixteen_players))
     in if length t < 256 then Inr (Some t) else Inl BufferOverflow)"
    by (rule player_list_lines) (auto simp: sixteen_players_def puppetName_size_def)
  then show ?thesis
    by (simp add: sixteen_players_def name_lines_def length_concat sum_list_replicate)
qed

end
