(* ===== verification/Client_Settings.thy ===== *)
theory Client_Settings
  imports Client_Send Icon_Text Buffered_String
begin

text \<open>
  The server's address: the two settings of the client (\<open>server/Client.cpp\<close>), the software keyboard that
  asks for them (\<open>Keyboard.cpp\<close>), and the two hooks that keep them in the save file (\<open>hooks.cpp\<close>). The
  keyboard runs in a thread of its own: when it is done and what the player typed are inputs. The host
  name is the text of its buffer (\<open>server/Hostname.hpp\<close>).
\<close>

section \<open>State\<close>

record settings =
  mServerIP :: string
  mServerPort :: s32
  first_conn :: bool

record keyboard =
  mInitialText :: string
  mResultString :: string
  mIsCancelled :: bool
  thread_done :: bool

text \<open>
  What the player does with the keyboard: at which of the client's looks the thread is done, the text, and
  the system's result code.
\<close>

record keyboard_input =
  ki_done :: "nat \<Rightarrow> bool"
  ki_result :: string
  ki_code :: u32

definition MAX_HOSTNAME_LENGTH :: nat where
  "MAX_HOSTNAME_LENGTH = 50"

text \<open>Assigning to a \<open>hostname\<close>, a string in a buffer of \<open>MAX_HOSTNAME_LENGTH + 1\<close> characters.\<close>

definition hostname_of :: "string \<Rightarrow> string" where
  "hostname_of s = take MAX_HOSTNAME_LENGTH (c_str s)"

section \<open>The keyboard\<close>

definition openKeyboard :: "string \<Rightarrow> keyboard \<Rightarrow> keyboard" where
  "openKeyboard initialText k = k\<lparr>mInitialText := hostname_of initialText, thread_done := False\<rparr>"

text \<open>The thread: the text it starts from is set only when there is one; 671 is the code of a cancel.\<close>

definition keyboard_shows :: "keyboard \<Rightarrow> string option" where
  "keyboard_shows k = (if length (mInitialText k) > 0 then Some (mInitialText k) else None)"

definition keyboardThread :: "keyboard_input \<Rightarrow> keyboard \<Rightarrow> keyboard" where
  "keyboardThread i k =
     k\<lparr>mResultString := ki_result i, mIsCancelled := (ki_code i = 671), thread_done := True\<rparr>"

definition getResult :: "keyboard \<Rightarrow> string option" where
  "getResult k = (if thread_done k then Some (mResultString k) else None)"

text \<open>The client looks until the thread is done; if it never is, the loop has no value.\<close>

partial_function (option) keyboard_wait :: "(nat \<Rightarrow> bool) \<Rightarrow> nat \<Rightarrow> nat option" where
  "keyboard_wait finished n = (if finished n then Some n else keyboard_wait finished (n + 1))"

text \<open>A dialog: opened with a text, waited for, and answered with a text or cancelled.\<close>

definition ask :: "string \<Rightarrow> keyboard_input \<Rightarrow> keyboard \<Rightarrow> (string option \<times> keyboard) option" where
  "ask initialText i k =
     (case keyboard_wait (ki_done i) 0 of
        None \<Rightarrow> None
      | Some _ \<Rightarrow>
          let k = keyboardThread i (openKeyboard initialText k)
          in Some (if \<not> mIsCancelled k then getResult k else None, k))"

section \<open>The settings\<close>

definition setLastUsedIP :: "string \<Rightarrow> settings \<Rightarrow> settings" where
  "setLastUsedIP ip s = s\<lparr>mServerIP := hostname_of ip\<rparr>"

definition setLastUsedPort :: "s32 \<Rightarrow> settings \<Rightarrow> settings" where
  "setLastUsedPort p s = s\<lparr>mServerPort := p\<rparr>"

definition openKeyboardIP ::
  "keyboard_input \<Rightarrow> settings \<times> keyboard \<Rightarrow> (bool \<times> settings \<times> keyboard) option" where
  "openKeyboardIP i x =
     (case x of (s, k) \<Rightarrow>
        case ask (mServerIP s) i k of
          None \<Rightarrow> None
        | Some (answer, k) \<Rightarrow>
            let prevIp = mServerIP s;
                s = (case answer of Some t \<Rightarrow> s\<lparr>mServerIP := hostname_of t\<rparr> | None \<Rightarrow> s);
                isFirstConnect = (prevIp \<noteq> mServerIP s)
            in Some (isFirstConnect, s\<lparr>first_conn := isFirstConnect\<rparr>, k))"

text \<open>\<open>atoi\<close>: blanks, a sign, digits up to the first other character.\<close>

definition is_digit :: "char \<Rightarrow> bool" where
  "is_digit c \<longleftrightarrow> 48 \<le> (of_char c :: nat) \<and> (of_char c :: nat) \<le> 57"

definition is_blank :: "char \<Rightarrow> bool" where
  "is_blank c \<longleftrightarrow> of_char c = (32 :: nat) \<or> (9 \<le> (of_char c :: nat) \<and> (of_char c :: nat) \<le> 13)"

definition digits_value :: "string \<Rightarrow> int" where
  "digits_value ds = foldl (\<lambda>n c. 10 * n + (of_char c - 48)) 0 ds"

definition atoi :: "string \<Rightarrow> s32" where
  "atoi text =
     (let t = dropWhile is_blank (c_str text)
      in word_of_int
           (case t of
              c # r \<Rightarrow> if c = CHR ''-'' then - digits_value (takeWhile is_digit r)
                       else if c = CHR ''+'' then digits_value (takeWhile is_digit r)
                       else digits_value (takeWhile is_digit t)
            | [] \<Rightarrow> 0))"

text \<open>The text the port dialog starts from: \<open>SNPrintf(buf, 6, "%u", mServerPort)\<close>.\<close>

definition port_text :: "s32 \<Rightarrow> string" where
  "port_text p = take 5 (decimal (unat p))"

definition openKeyboardPort ::
  "keyboard_input \<Rightarrow> settings \<times> keyboard \<Rightarrow> (bool \<times> settings \<times> keyboard) option" where
  "openKeyboardPort i x =
     (case x of (s, k) \<Rightarrow>
        case ask (port_text (mServerPort s)) i k of
          None \<Rightarrow> None
        | Some (answer, k) \<Rightarrow>
            let prevPort = mServerPort s;
                s = (case answer of Some t \<Rightarrow> s\<lparr>mServerPort := atoi t\<rparr> | None \<Rightarrow> s);
                isFirstConnect = (prevPort \<noteq> mServerPort s)
            in Some (isFirstConnect, s\<lparr>first_conn := isFirstConnect\<rparr>, k))"

text \<open>
  The beginning of \<open>startConnection\<close>: what is missing, or everything when ZL is held, is asked for, and
  the result says whether the save file has to be written.
\<close>

definition ask_ip :: "bool \<Rightarrow> keyboard_input \<Rightarrow> settings \<times> keyboard \<Rightarrow> (bool \<times> settings \<times> keyboard) option" where
  "ask_ip isOverride i x =
     (case x of (s, k) \<Rightarrow>
        if mServerIP s = [] \<or> isOverride
        then map_option (\<lambda>(_, x). (True, x)) (openKeyboardIP i (s\<lparr>mServerIP := ''127.0.0.1''\<rparr>, k))
        else Some (False, s, k))"

definition ask_port :: "bool \<Rightarrow> keyboard_input \<Rightarrow> settings \<times> keyboard \<Rightarrow> (bool \<times> settings \<times> keyboard) option" where
  "ask_port isOverride i x =
     (case x of (s, k) \<Rightarrow>
        if mServerPort s = 0 \<or> isOverride
        then map_option (\<lambda>(_, x). (True, x)) (openKeyboardPort i (s\<lparr>mServerPort := 1027\<rparr>, k))
        else Some (False, s, k))"

definition ask_settings ::
  "bool \<Rightarrow> keyboard_input \<Rightarrow> keyboard_input \<Rightarrow> settings \<times> keyboard \<Rightarrow> (bool \<times> settings \<times> keyboard) option" where
  "ask_settings isOverride i j x =
     (case ask_ip isOverride i x of
        None \<Rightarrow> None
      | Some (save1, x) \<Rightarrow>
          (case ask_port isOverride j x of
             None \<Rightarrow> None
           | Some (save2, x) \<Rightarrow> Some (save1 \<or> save2, x)))"

section \<open>The save file\<close>

text \<open>
  The engine's writer and reader of the save file, which the two hooks get from the game: their states and
  operations are parameters.
\<close>

record ('w, 'r) save_ops =
  so_addString :: "string \<Rightarrow> string \<Rightarrow> 'w \<Rightarrow> 'w"
  so_addInt :: "string \<Rightarrow> s32 \<Rightarrow> 'w \<Rightarrow> 'w"
  so_pop :: "'w \<Rightarrow> 'w"
  so_tryGetString :: "'r \<Rightarrow> string \<Rightarrow> string option"
  so_tryGetS32 :: "'r \<Rightarrow> string \<Rightarrow> s32 option"

text \<open>\<open>getCurrentIP\<close> and \<open>getCurrentPort\<close>; \<open>None\<close> is a client that does not exist yet.\<close>

definition getCurrentIP :: "settings option \<Rightarrow> string option" where
  "getCurrentIP c = map_option mServerIP c"

definition getCurrentPort :: "settings option \<Rightarrow> s32" where
  "getCurrentPort c = (case c of Some s \<Rightarrow> mServerPort s | None \<Rightarrow> -1)"

definition saveWriteHook :: "('w, 'r) save_ops \<Rightarrow> settings option \<Rightarrow> 'w \<Rightarrow> 'w" where
  "saveWriteHook ops c w =
     (let w = so_addString ops ''ServerIP''
                (case getCurrentIP c of Some ip \<Rightarrow> ip | None \<Rightarrow> ''127.0.0.1'') w;
          w = so_addInt ops ''ServerPort'' (if getCurrentPort c \<noteq> 0 then getCurrentPort c else 0) w
      in so_pop ops w)"

definition saveReadHook ::
  "('w, 'r) save_ops \<Rightarrow> string \<Rightarrow> 'r \<Rightarrow> settings option \<Rightarrow> s32 option \<times> settings option" where
  "saveReadHook ops padRumbleKey r c =
     (let c = (case so_tryGetString ops r ''ServerIP'' of
                 Some ip \<Rightarrow> map_option (setLastUsedIP ip) c | None \<Rightarrow> c);
          c = (case so_tryGetS32 ops r ''ServerPort'' of
                 Some p \<Rightarrow> map_option (setLastUsedPort p) c | None \<Rightarrow> c)
      in (so_tryGetS32 ops r padRumbleKey, c))"

section \<open>What is kept\<close>

definition hostname_ok :: "string \<Rightarrow> bool" where
  "hostname_ok s \<longleftrightarrow> no_nul s \<and> length s \<le> MAX_HOSTNAME_LENGTH"

lemma hostname_of_ok: "hostname_ok (hostname_of s)"
  by (simp add: hostname_ok_def hostname_of_def)

lemma hostname_of_id: "hostname_ok s \<Longrightarrow> hostname_of s = s"
  by (simp add: hostname_ok_def hostname_of_def)

text \<open>\<open>hostname_of\<close> is the assignment of the string class on a buffer of its size.\<close>

lemma hostname_assign:
  assumes "buffer_ok b" and "length b = MAX_HOSTNAME_LENGTH + 1" and "length s < cMaximumLength"
  shows "\<exists>b'. string_assign (cells (c_str s)) b = Inr b' \<and> says b' (MAX_HOSTNAME_LENGTH + 1) (hostname_of s)"
proof -
  have "source (cells (c_str s)) (c_str s)"
    using length_c_str_le [of s] assms(3) by (intro source_cells) auto
  from assign_says [OF this assms(1)] show ?thesis by (simp add: assms(2) hostname_of_def)
qed

lemma settings_ok_ops:
  "hostname_ok (mServerIP (setLastUsedIP ip s))"
  "hostname_ok (mServerIP s) \<Longrightarrow> hostname_ok (mServerIP (setLastUsedPort p s))"
  by (simp_all add: setLastUsedIP_def setLastUsedPort_def hostname_of_ok)

lemma keyboard_wait_done: "finished m \<Longrightarrow> n \<le> m \<Longrightarrow> \<exists>k. keyboard_wait finished n = Some k"
proof (induction "m - n" arbitrary: n)
  case 0
  then show ?case by (simp add: keyboard_wait.simps [of finished n])
next
  case (Suc d)
  then show ?case by (cases "finished n") (auto simp: keyboard_wait.simps [of finished n])
qed

lemma keyboard_wait_value: "keyboard_wait finished n = Some k \<Longrightarrow> n \<le> k \<and> finished k"
  by (induction rule: keyboard_wait.raw_induct [rotated -1, consumes 1])
    (fastforce split: if_splits dest: Suc_leD)

text \<open>The wait for the keyboard ends exactly when its thread is done at some time.\<close>

theorem keyboard_terminates:
  "(\<exists>k. keyboard_wait finished 0 = Some k) = (\<exists>n. finished n)"
  using keyboard_wait_done [of finished _ 0] keyboard_wait_value by blast

text \<open>
  What the hooks need of a save file: when a reader \<open>r\<close> finds under the two keys what was written under them,
  the settings survive.
\<close>

lemma settings_survive:
  assumes "so_tryGetString ops r ''ServerIP'' = Some (mServerIP s)"
    and "so_tryGetS32 ops r ''ServerPort'' = Some (mServerPort s)" and "hostname_ok (mServerIP s)"
  shows "snd (saveReadHook ops key r (Some t)) = Some (t\<lparr>mServerIP := mServerIP s, mServerPort := mServerPort s\<rparr>)"
  using assms by (simp add: saveReadHook_def setLastUsedIP_def setLastUsedPort_def hostname_of_id Let_def)

definition settings0 :: settings where
  "settings0 = \<lparr>mServerIP = [], mServerPort = 0, first_conn = True\<rparr>"

definition keyboard0 :: keyboard where
  "keyboard0 = \<lparr>mInitialText = [], mResultString = [], mIsCancelled = False, thread_done = True\<rparr>"

section \<open>The first connection\<close>

lemma ask_answer:
  assumes "ki_done i n"
  shows "ask t i k =
    Some (if ki_code i \<noteq> 671 then Some (ki_result i) else None, keyboardThread i (openKeyboard t k))"
  using keyboard_wait_done [of "ki_done i" n 0] assms
  by (auto simp: ask_def Let_def keyboardThread_def getResult_def)

text \<open>
  C23: On a start without settings, when both keyboards are finished at some time, both dialogs come up and the save
  file is to be written. The address is what the first dialog was answered, cut to 50 characters, or the local one when it was
  cancelled; the port is what the second was answered, or 1027. Whether the connection counts as a first one is
  decided by the port alone: with the port 1027, given or left, it is a reconnection, whatever address
  was typed.
\<close>

theorem first_start_reconnects:
  assumes "ki_done i n" and "ki_done j m" and "mServerIP s0 = []" and "mServerPort s0 = 0"
  shows "\<exists>s k. ask_settings isOverride i j (s0, k0) = Some (True, s, k) \<and>
    mServerIP s = (if ki_code i = 671 then ''127.0.0.1'' else take 50 (c_str (ki_result i))) \<and>
    mServerPort s = (if ki_code j = 671 then 1027 else atoi (ki_result j)) \<and>
    (first_conn s \<longleftrightarrow> mServerPort s \<noteq> 1027)"
  using assms ask_answer [OF assms(1)] ask_answer [OF assms(2)]
  by (auto simp: ask_settings_def ask_ip_def ask_port_def openKeyboardIP_def openKeyboardPort_def
      Let_def hostname_of_def MAX_HOSTNAME_LENGTH_def)

theorem first_start_reconnects_witness:
  "\<exists>s k. ask_settings False \<lparr>ki_done = \<lambda>n. n = 3, ki_result = ''10.0.0.2'', ki_code = 0\<rparr>
       \<lparr>ki_done = \<lambda>n. n = 5, ki_result = ''1027'', ki_code = 0\<rparr> (settings0, keyboard0) = Some (True, s, k) \<and>
     \<not> first_conn s"
proof -
  have "atoi ''1027'' = 1027" by code_simp
  then show ?thesis
    using first_start_reconnects [of "\<lparr>ki_done = \<lambda>n. n = 3, ki_result = ''10.0.0.2'', ki_code = 0\<rparr>" 3
        "\<lparr>ki_done = \<lambda>n. n = 5, ki_result = ''1027'', ki_code = 0\<rparr>" 5 settings0 False keyboard0]
    by (auto simp: settings0_def)
qed

text \<open>
  \<open>startConnection\<close> as a whole: the settings, then the connection, which the socket announces as a first
  one or a reconnection.
\<close>

definition connect_client ::
  "bool \<Rightarrow> keyboard_input \<Rightarrow> keyboard_input \<Rightarrow> settings \<times> keyboard \<Rightarrow> sock_cfg \<Rightarrow> sock \<Rightarrow> puppet_table \<Rightarrow> os_event list
   \<Rightarrow> ((bool \<times> puppet_table) os_result \<times> bool \<times> settings) option" where
  "connect_client isOverride i j x cfg s tab evs =
     (case ask_settings isOverride i j x of
        None \<Rightarrow> None
      | Some (isNeedSave, st, _) \<Rightarrow>
          Some (startConnection cfg (s\<lparr>mIsFirstConnect := first_conn st\<rparr>) tab evs, isNeedSave, st))"

end
