(* ===== verification/Game_Frame.thy ===== *)
theory Game_Frame
  imports Client_Settings Puppet_Holder Server_Config Name_Tag
begin

text \<open>
  One frame of the game as the mod hooks it (\<open>main.cpp\<close>, \<open>hakoniwaSequenceHook\<close>; \<open>Client::update\<close>), the other
  hooks on the game's own code (\<open>hooks.cpp\<close>, \<open>main.cpp\<close>), and the debug controls. What the game answers in
  a frame is the input; the moons of the save file are a parameter as in \<open>Shine_Sync\<close>.
\<close>

section \<open>State\<close>

record ('g, 'h) moons =
  mo_hint :: "s32 \<Rightarrow> 'h option"
  mo_isGot :: "'g \<Rightarrow> 'h \<Rightarrow> bool"
  mo_setGot :: "'h \<Rightarrow> 'g \<Rightarrow> 'g"
  mo_stageShine :: "s32 \<Rightarrow> nat option"

record 'g game =
  gm_client :: client
  gm_holder :: puppet_holder
  gm_puppets :: stage_puppets
  gm_sender :: sender
  gm_timers :: send_timers
  gm_debugInfo :: PuppetInfo
  gm_stageName :: string
  gm_scenario :: u8
  gm_data :: 'g
  debugMode :: bool
  pageIndex :: s32
  debugPuppetIndex :: s32
  isDisableMusic :: bool
  isInGame :: bool

record frame_pads =
  holdZR :: bool
  holdZL :: bool
  holdL :: bool
  trigUp :: bool
  trigLeft :: bool
  trigRight :: bool

text \<open>\<open>fi_hackKeeper\<close>: no hack keeper, one without a capture, or one with the capture's name.\<close>

record frame_input =
  fi_pads :: frame_pads
  fi_isPause :: bool
  fi_stage :: string
  fi_scenario :: u8
  fi_modes :: mode_inputs
  fi_player :: player_frame
  fi_hackKeeper :: "string option option"
  fi_playingBgm :: bool

datatype frame_effect = Fx_mode mode_effect | Fx_shine nat | Fx_stopBgm

section \<open>The client in a frame\<close>

definition client_setStageInfo :: "string \<Rightarrow> u8 \<Rightarrow> 'g game \<Rightarrow> 'g game" where
  "client_setStageInfo stage scenario g =
     (let g = g\<lparr>gm_stageName := take 63 stage, gm_scenario := scenario\<rparr>
      in g\<lparr>gm_holder := holder_setStageInfo (gm_stageName g) (gm_scenario g) (gm_holder g)\<rparr>)"

definition update_puppets :: "'g game \<Rightarrow> 'g game res" where
  "update_puppets g =
     rbind (holder_update (gm_holder g) ((gm_puppets g)\<lparr>sp_table := cl_table (gm_client g)\<rparr>)) (\<lambda>w.
       Inr (g\<lparr>gm_puppets := w, gm_client := (gm_client g)\<lparr>cl_table := sp_table w\<rparr>\<rparr>))"

definition update_shines :: "('g, 'h) moons \<Rightarrow> 'g game \<Rightarrow> 'g game \<times> nat list" where
  "update_shines mo g =
     (if isNeedUpdateShines (cl_shines (gm_client g))
      then (case updateShines (mo_hint mo) (mo_isGot mo) (mo_setGot mo) (mo_stageShine mo) (gm_stageName g)
                   (gm_scenario g) (cl_shines (gm_client g)) (gm_data g) of
              (s, d, taken) \<Rightarrow> (g\<lparr>gm_client := (gm_client g)\<lparr>cl_shines := s\<rparr>, gm_data := d\<rparr>, taken))
      else (g, []))"

definition update_mode :: "mode_inputs \<Rightarrow> 'g game \<Rightarrow> ('g game \<times> mode_effect list) res" where
  "update_mode inp g =
     rbind (mgr_update (inp\<lparr>in_table := cl_table (gm_client g)\<rparr>) (cl_modes (gm_client g))) (\<lambda>(m, es).
       Inr (g\<lparr>gm_client := (gm_client g)\<lparr>cl_modes := m\<rparr>\<rparr>, es))"

definition client_update :: "('g, 'h) moons \<Rightarrow> mode_inputs \<Rightarrow> 'g game \<Rightarrow> ('g game \<times> frame_effect list) res" where
  "client_update mo inp g =
     rbind (update_puppets g) (\<lambda>g.
       case update_shines mo g of (g, taken) \<Rightarrow>
         rbind (update_mode inp g) (\<lambda>(g, es). Inr (g, map Fx_shine taken @ map Fx_mode es)))"

definition send_frame :: "sock_cfg \<Rightarrow> player_frame \<Rightarrow> 'g game \<Rightarrow> 'g game res" where
  "send_frame cfg f g =
     rbind (updatePlayerFrame cfg f (gm_timers g, (gm_sender g)\<lparr>sn_sock := cl_sock (gm_client g)\<rparr>)) (\<lambda>(t, d).
       Inr (g\<lparr>gm_timers := t, gm_sender := d, gm_client := (gm_client g)\<lparr>cl_sock := sn_sock d\<rparr>\<rparr>))"

section \<open>The debug controls\<close>

definition maxPages :: s32 where
  "maxPages = 3"

definition wrap_low :: "s32 \<Rightarrow> s32 \<Rightarrow> s32" where
  "wrap_low hi i = (if sint i < 0 then hi else i)"

definition page_step :: "frame_pads \<Rightarrow> s32 \<Rightarrow> s32" where
  "page_step p i =
     (let i = (if trigLeft p then i - 1 else i);
          i = (if trigRight p then i + 1 else i);
          i = wrap_low (maxPages - 1) i
      in if sint i \<ge> sint maxPages then 0 else i)"

definition getMaxPlayerCount :: "puppet_table \<Rightarrow> s32" where
  "getMaxPlayerCount tab = maxPuppets tab + 1"

definition puppet_index_step :: "frame_pads \<Rightarrow> s32 \<Rightarrow> s32 \<Rightarrow> s32" where
  "puppet_index_step p count i =
     (let i = (if trigLeft p then i - 1 else i);
          i = (if trigRight p then i + 1 else i);
          i = wrap_low (count - 2) i
      in if sint i \<ge> sint (count - 1) then 0 else i)"

text \<open>The debug puppet takes the player's place, and its capture.\<close>

definition debug_follow :: "frame_input \<Rightarrow> PuppetInfo \<Rightarrow> PuppetInfo res" where
  "debug_follow f p =
     (let p = p\<lparr>playerPos := pl_trans (pf_player (fi_player f)), playerRot := pl_rot (pf_player (fi_player f))\<rparr>
      in case fi_hackKeeper f of
           None \<Rightarrow> Inr p
         | Some name \<Rightarrow>
             rbind (strcpy curHack_size (case name of Some n \<Rightarrow> n | None \<Rightarrow> [])) (\<lambda>n.
               Inr (p\<lparr>isCaptured := (name \<noteq> None), curHack := n\<rparr>)))"

definition debug_effect :: "'g game \<Rightarrow> 'g game" where
  "debug_effect g =
     (case getDebugPuppet (gm_holder g) of
        None \<Rightarrow> g
      | Some a \<Rightarrow>
          g\<lparr>gm_puppets := (gm_puppets g)\<lparr>sp_actors := (sp_actors (gm_puppets g))
              [a := emitJoinEffect (sp_actors (gm_puppets g) ! a)]\<rparr>\<rparr>)"

definition toggle_mode :: "'g game \<Rightarrow> 'g game" where
  "toggle_mode g = g\<lparr>gm_client := set_manager (toggleActive (manager_of (gm_client g))) (gm_client g)\<rparr>"

definition pads_ZR :: "frame_pads \<Rightarrow> 'g game \<Rightarrow> 'g game" where
  "pads_ZR p g =
     (if trigUp p then g\<lparr>debugMode := \<not> debugMode g\<rparr> else g)\<lparr>pageIndex := page_step p (pageIndex g)\<rparr>"

definition pads_ZL :: "frame_pads \<Rightarrow> 'g game \<Rightarrow> 'g game" where
  "pads_ZL p g =
     (if debugMode g
      then g\<lparr>debugPuppetIndex :=
               puppet_index_step p (getMaxPlayerCount (cl_table (gm_client g))) (debugPuppetIndex g)\<rparr>
      else g)"

definition pads_L :: "frame_input \<Rightarrow> 'g game \<Rightarrow> 'g game res" where
  "pads_L f g =
     (let p = fi_pads f;
          g = (if trigLeft p then toggle_mode g else g)
      in rbind (if trigRight p \<and> debugMode g
                then rbind (debug_follow f (gm_debugInfo g)) (\<lambda>d. Inr (g\<lparr>gm_debugInfo := d\<rparr>))
                else Inr g) (\<lambda>g.
           Inr (if trigUp p
                then (if debugMode g then debug_effect g else g\<lparr>isDisableMusic := \<not> isDisableMusic g\<rparr>)
                else g)))"

definition frame_pads_step :: "frame_input \<Rightarrow> 'g game \<Rightarrow> 'g game res" where
  "frame_pads_step f g =
     (if holdZR (fi_pads f) then Inr (pads_ZR (fi_pads f) g)
      else if holdZL (fi_pads f) then Inr (pads_ZL (fi_pads f) g)
      else if holdL (fi_pads f) then pads_L f g
      else Inr g)"

section \<open>The frame\<close>

definition set_paused :: "bool \<Rightarrow> 'g game \<Rightarrow> 'g game" where
  "set_paused b g = g\<lparr>gm_client := set_manager (setPaused b (manager_of (gm_client g))) (gm_client g)\<rparr>"

definition hakoniwaSequenceHook ::
  "('g, 'h) moons \<Rightarrow> sock_cfg \<Rightarrow> frame_input \<Rightarrow> 'g game \<Rightarrow> ('g game \<times> frame_effect list) res" where
  "hakoniwaSequenceHook mo cfg f g =
     (let g = g\<lparr>isInGame := \<not> fi_isPause f\<rparr>;
          g = set_paused (fi_isPause f) g;
          g = client_setStageInfo (fi_stage f) (fi_scenario f) g
      in rbind (client_update mo (fi_modes f) g) (\<lambda>(g, es).
         rbind (send_frame cfg (fi_player f) g) (\<lambda>g.
         rbind (frame_pads_step f g) (\<lambda>g.
           Inr (g, es @ (if isDisableMusic g \<and> fi_playingBgm f then [Fx_stopBgm] else []))))))"

text \<open>
  The stage hook: the puppets and the registered moons of the old stage are forgotten, the new scene's
  objects are kept, the mode is made, and the stage is sent. \<open>holder\<close>: the scene has an object holder.
\<close>

definition stageInitHook ::
  "sock_cfg \<Rightarrow> bool \<Rightarrow> s32 \<Rightarrow> string \<Rightarrow> 'g game \<Rightarrow> nat ptr_array \<Rightarrow> ('g game \<times> nat ptr_array) res" where
  "stageInitHook cfg holder scenario stage g mShineArray =
     (let g = g\<lparr>gm_holder := clearPuppets (gm_holder g)\<rparr>;
          arr = pa_clear mShineArray;
          g = g\<lparr>gm_client := (gm_client g)\<lparr>cl_sceneHolder := holder\<rparr>\<rparr>
      in rbind (stage_init (manager_of (gm_client g))) (\<lambda>s.
         let g = g\<lparr>gm_client := set_manager s (gm_client g)\<rparr>
         in rbind (sendGameInfPacket cfg scenario stage ((gm_sender g)\<lparr>sn_sock := cl_sock (gm_client g)\<rparr>)) (\<lambda>d.
              Inr (g\<lparr>gm_sender := d, gm_client := (gm_client g)\<lparr>cl_sock := sn_sock d\<rparr>\<rparr>, arr))))"

section \<open>Hooks on the game\<close>

definition comboBtnHook :: "bool \<Rightarrow> bool \<Rightarrow> mode_manager \<Rightarrow> bool" where
  "comboBtnHook hold_L trigger_down s = (if mActive s then \<not> hold_L \<and> trigger_down else trigger_down)"

definition registerShineToList ::
  "s32 \<Rightarrow> bool \<Rightarrow> nat \<Rightarrow> bool \<Rightarrow> nat ptr_array \<Rightarrow> (bool \<times> nat ptr_array) res" where
  "registerShineToList mShineIdx isAlive shine isGot arr =
     rbind (if sint mShineIdx \<ge> 0 then rbind (tryRegisterShine shine isGot arr) (\<lambda>(_, a). Inr a) else Inr arr)
       (\<lambda>a. Inr (isAlive, a))"

datatype 'n pause_nerve = ServerConfigNerve | GameNerve 'n

definition overrideNerveHook :: "bool \<Rightarrow> 'n \<Rightarrow> 'n pause_nerve" where
  "overrideNerveHook hold_ZL nrvSet = (if hold_ZL then ServerConfigNerve else GameNerve nrvSet)"

text \<open>Whether the coin counters start and the play guide ends, and the answer to the game's own question.\<close>

definition startCounterHook :: "mode_manager \<Rightarrow> bool" where
  "startCounterHook s = (\<not> mActive s)"

definition modeE3Hook :: "mode_manager \<Rightarrow> bool" where
  "modeE3Hook s = mActive s"

definition playGuideEndHook :: "mode_manager \<Rightarrow> bool" where
  "playGuideEndHook s = (\<not> mActive s)"

text \<open>\<open>camera\<close>: the scene has a camera director with a factory.\<close>

definition hns_ticket :: "bool \<Rightarrow> mode_manager \<Rightarrow> mode_manager res" where
  "hns_ticket camera s =
     (if isMode HIDEANDSEEK s \<and> camera
      then rbind (hns_of s) (\<lambda>m. Inr (s\<lparr>mCurModeBase := Some (Hns_mode (m\<lparr>hm_mTicket := True\<rparr>))\<rparr>))
      else Inr s)"

definition ctf_ticket :: "bool \<Rightarrow> mode_manager \<Rightarrow> mode_manager res" where
  "ctf_ticket camera s =
     (if isModeAndActive CAPTURE_THE_FLAG s \<and> camera
      then rbind (ctf_of s) (\<lambda>m. Inr (s\<lparr>mCurModeBase := Some (Ctf_mode (m\<lparr>cm_mTicket := True\<rparr>))\<rparr>))
      else Inr s)"

definition createTicketHook :: "bool \<Rightarrow> mode_manager \<Rightarrow> mode_manager res" where
  "createTicketHook camera s = rbind (hns_ticket camera s) (ctf_ticket camera)"

definition borderPullBackHook :: "bool \<Rightarrow> mode_manager \<Rightarrow> (bool \<times> bool) res" where
  "borderPullBackHook isFirstStep s =
     rbind (if isFirstStep \<and> isModeAndActive HIDEANDSEEK s
            then rbind (hns_of s) (\<lambda>_. rbind (hns_info_of s) (\<lambda>i. Inr (hs_mIsUseGravity i)))
            else Inr False)
       (\<lambda>killed. Inr (isFirstStep, killed))"

text \<open>\<open>ids\<close>: the unique ids of the save file's moons, by index; \<open>setGot\<close>: the game's own marking.\<close>

definition sendShinePacket ::
  "s32 list \<Rightarrow> ('g \<Rightarrow> 'g) \<Rightarrow> bool \<Rightarrow> s32 \<Rightarrow> sender \<times> 'g \<Rightarrow> (sender \<times> 'g) res" where
  "sendShinePacket ids setGot isGot mShineIdx x =
     rbind (if isGot then Inr (fst x)
            else if 0 \<le> sint mShineIdx \<and> nat (sint mShineIdx) < length ids
            then sendShineCollectPacket (ids ! nat (sint mShineIdx)) (fst x)
            else Inl OutOfBounds)
       (\<lambda>d. Inr (d, setGot (snd x)))"

definition setPlayerModel :: "string \<Rightarrow> string \<Rightarrow> sender \<Rightarrow> sender res" where
  "setPlayerModel bodyModel capModel d = sendCostumeInfPacket bodyModel capModel d"

section \<open>The debug controls stay in range\<close>

definition page_ok :: "'g game \<Rightarrow> bool" where
  "page_ok g \<longleftrightarrow> 0 \<le> sint (pageIndex g) \<and> sint (pageIndex g) < 3"

lemma sint_maxPages [simp]: "sint maxPages = 3" "sint (maxPages - 1) = 2"
  by (simp_all add: maxPages_def)

lemma page_step_ok:
  assumes "0 \<le> sint i" and "sint i < 3"
  shows "0 \<le> sint (page_step p i) \<and> sint (page_step p i) < 3"
proof -
  obtain j where j: "(if trigRight p then (if trigLeft p then i - 1 else i) + 1 else (if trigLeft p then i - 1 else i)) = j"
    "-1 \<le> sint j" "sint j \<le> 3"
    using assms sint_pred32 [of i] sint_succ32 [of i] by (cases "trigLeft p"; cases "trigRight p") auto
  then show ?thesis
    by (simp add: page_step_def Let_def wrap_low_def)
qed

lemma wrap_step:
  assumes "2 \<le> sint n" and "0 \<le> sint i" and "sint i < 2 ^ 31 - 1"
  shows "0 \<le> sint (puppet_index_step p n i) \<and> sint (puppet_index_step p n i) < sint n - 1"
proof -
  have n: "sint (n - 1) = sint n - 1" "sint (n - 2) = sint n - 2"
    using assms(1) sint_sub32 [of n 1] sint_sub32 [of n 2] sint_range32 [of n] by simp_all
  obtain j where j: "(if trigRight p then (if trigLeft p then i - 1 else i) + 1 else (if trigLeft p then i - 1 else i)) = j"
    "-1 \<le> sint j"
    using assms(2,3) sint_pred32 [of i] sint_succ32 [of i] by (cases "trigLeft p"; cases "trigRight p") auto
  then show ?thesis
    using assms(1) n by (simp add: puppet_index_step_def Let_def wrap_low_def)
qed

lemma frame_pads_page: "frame_pads_step f g = Inr g' \<Longrightarrow> page_ok g \<Longrightarrow> page_ok g'"
  using page_step_ok
  by (auto simp: frame_pads_step_def pads_ZR_def pads_ZL_def pads_L_def page_ok_def toggle_mode_def debug_effect_def
      Let_def elim!: rbind_InrE split: if_splits option.splits)

lemma client_update_page: "client_update mo inp g = Inr (g', es) \<Longrightarrow> pageIndex g' = pageIndex g"
  by (auto simp: client_update_def update_puppets_def update_mode_def update_shines_def elim!: rbind_InrE
      split: prod.splits if_splits)

lemma send_frame_page: "send_frame cfg f g = Inr g' \<Longrightarrow> pageIndex g' = pageIndex g"
  by (auto simp: send_frame_def elim!: rbind_InrE split: prod.splits)

lemma frame_page:
  assumes "hakoniwaSequenceHook mo cfg f g = Inr (g', es)" and "page_ok g"
  shows "page_ok g'"
proof -
  obtain g1 e1 g2 where "client_update mo (fi_modes f) (client_setStageInfo (fi_stage f) (fi_scenario f)
      (set_paused (fi_isPause f) (g\<lparr>isInGame := \<not> fi_isPause f\<rparr>))) = Inr (g1, e1)"
    "send_frame cfg (fi_player f) g1 = Inr g2" "frame_pads_step f g2 = Inr g'"
    using assms(1) by (auto simp: hakoniwaSequenceHook_def Let_def elim!: rbind_InrE)
  then show ?thesis
    using assms(2) client_update_page send_frame_page frame_pads_page
    by (fastforce simp: page_ok_def client_setStageInfo_def set_paused_def Let_def)
qed

section \<open>Puppets in a frame\<close>

text \<open>The puppets of the scene on the client's table.\<close>

definition scene_puppets :: "'g game \<Rightarrow> stage_puppets" where
  "scene_puppets g = (gm_puppets g)\<lparr>sp_table := cl_table (gm_client g)\<rparr>"

definition puppet_dead :: "'g game \<Rightarrow> nat \<Rightarrow> bool" where
  "puppet_dead g a = actor_dead (sp_actors (gm_puppets g) ! a)"

definition puppet_info :: "'g game \<Rightarrow> nat \<Rightarrow> PuppetInfo" where
  "puppet_info g a = info_at (scene_puppets g) a"

definition keeps_puppets :: "'g game \<Rightarrow> 'g game \<Rightarrow> bool" where
  "keeps_puppets g g' \<longleftrightarrow> puppet_dead g' = puppet_dead g \<and> puppet_info g' = puppet_info g"

lemma keeps_puppets_trans: "keeps_puppets g h \<Longrightarrow> keeps_puppets h k \<Longrightarrow> keeps_puppets g k"
  by (simp add: keeps_puppets_def)

lemma keeps_puppetsI:
  "gm_puppets g' = gm_puppets g \<Longrightarrow> cl_table (gm_client g') = cl_table (gm_client g) \<Longrightarrow> keeps_puppets g g'"
  by (simp add: keeps_puppets_def puppet_dead_def puppet_info_def scene_puppets_def fun_eq_iff)

lemma set_manager_table [simp]: "cl_table (set_manager s c) = cl_table c"
  by (simp add: set_manager_def)

lemma debug_effect_keeps: "keeps_puppets g (debug_effect g)"
proof (cases "getDebugPuppet (gm_holder g)")
  case None
  then show ?thesis by (simp add: debug_effect_def keeps_puppets_def)
next
  case (Some a)
  have "actor_dead ((sp_actors (gm_puppets g))[a := emitJoinEffect (sp_actors (gm_puppets g) ! a)] ! b)
      = actor_dead (sp_actors (gm_puppets g) ! b)" for b
    by (cases "a < length (sp_actors (gm_puppets g))"; cases "a = b") (simp_all add: emitJoinEffect_def not_less list_update_beyond)
  then show ?thesis
    using Some by (simp add: debug_effect_def keeps_puppets_def puppet_dead_def puppet_info_def scene_puppets_def
        slot_of_def fun_eq_iff)
qed

lemma frame_pads_keeps: "frame_pads_step f g = Inr g' \<Longrightarrow> keeps_puppets g g'"
proof -
  assume a: "frame_pads_step f g = Inr g'"
  show ?thesis
  proof (cases "\<not> holdZR (fi_pads f) \<and> \<not> holdZL (fi_pads f) \<and> holdL (fi_pads f)")
    case False
    then show ?thesis
      using a by (auto simp: frame_pads_step_def pads_ZR_def pads_ZL_def split: if_splits intro!: keeps_puppetsI)
  next
    case True
    let ?g = "if trigLeft (fi_pads f) then toggle_mode g else g"
    obtain g1 where g1: "(if trigRight (fi_pads f) \<and> debugMode ?g
        then rbind (debug_follow f (gm_debugInfo ?g)) (\<lambda>d. Inr (?g\<lparr>gm_debugInfo := d\<rparr>)) else Inr ?g) = Inr g1"
      and g': "g' = (if trigUp (fi_pads f)
        then (if debugMode g1 then debug_effect g1 else g1\<lparr>isDisableMusic := \<not> isDisableMusic g1\<rparr>) else g1)"
      using a True by (auto simp: frame_pads_step_def pads_L_def Let_def elim!: rbind_InrE)
    have "keeps_puppets g ?g" by (auto simp: toggle_mode_def intro!: keeps_puppetsI)
    moreover have "keeps_puppets ?g g1"
      using g1 by (auto elim!: rbind_InrE intro!: keeps_puppetsI split: if_splits)
    moreover have "keeps_puppets g1 g'"
      using debug_effect_keeps [of g1] by (auto simp: g' intro!: keeps_puppetsI)
    ultimately show ?thesis using keeps_puppets_trans by blast
  qed
qed

lemma send_frame_keeps: "send_frame cfg f g = Inr g' \<Longrightarrow> keeps_puppets g g'"
  by (auto simp: send_frame_def elim!: rbind_InrE split: prod.splits intro!: keeps_puppetsI)

lemma update_shines_keeps: "keeps_puppets g (fst (update_shines mo g))"
  by (auto simp: update_shines_def split: prod.splits intro!: keeps_puppetsI)

lemma update_mode_keeps: "update_mode inp g = Inr (g', es) \<Longrightarrow> keeps_puppets g g'"
  by (auto simp: update_mode_def elim!: rbind_InrE split: prod.splits intro!: keeps_puppetsI)

lemma update_puppets_presence:
  assumes "pa_ok (mPuppetArr (gm_holder g))" and "pa_list (mPuppetArr (gm_holder g)) = map Some ids"
    and "puppets_ok ids (scene_puppets g)" and "update_puppets g = Inr g'"
  shows "\<forall>a \<in> set ids.
      isInSameStage (puppet_info g' a) = checkInfoIsInStage (gm_holder g) (puppet_info g a) \<and>
      puppet_dead g' a = (\<not> checkInfoIsInStage (gm_holder g) (puppet_info g a))"
proof -
  obtain w where w: "update_all (gm_holder g) (map Some ids) (scene_puppets g) = Inr w"
    "\<forall>a \<in> set ids. updated (gm_holder g) (scene_puppets g) w a"
    using update_all_spec [OF assms(3), of "gm_holder g"] by blast
  have "holder_update (gm_holder g) (scene_puppets g) = Inr w"
    using holder_update_all [OF assms(1)] assms(2) w(1) by simp
  then have g': "g' = g\<lparr>gm_puppets := w, gm_client := (gm_client g)\<lparr>cl_table := sp_table w\<rparr>\<rparr>"
    using assms(4) by (simp add: update_puppets_def scene_puppets_def)
  have i: "puppet_info g' a = info_at w a" "puppet_dead g' a = actor_dead (sp_actors w ! a)" for a
    by (simp_all add: g' puppet_info_def puppet_dead_def scene_puppets_def)
  show ?thesis
    using w(2) by (simp add: i updated_def Let_def appear_or_leave_dead puppet_info_def [of g])
qed

lemma frame_puppets_cut:
  assumes "pa_ok (mPuppetArr (gm_holder g))" and "pa_list (mPuppetArr (gm_holder g)) = map Some ids"
    and "puppets_ok ids (scene_puppets g)" and "hakoniwaSequenceHook mo cfg f g = Inr (g', es)"
  shows "\<forall>a \<in> set ids.
    let here = checkInfoIsInStage ((gm_holder g)\<lparr>ph_stageName := take 63 (fi_stage f), ph_scenarioNo := fi_scenario f\<rparr>)
                 (puppet_info g a)
    in isInSameStage (puppet_info g' a) = here \<and> puppet_dead g' a = (\<not> here)"
proof -
  let ?g = "client_setStageInfo (fi_stage f) (fi_scenario f)
      (set_paused (fi_isPause f) (g\<lparr>isInGame := \<not> fi_isPause f\<rparr>))"
  have h: "gm_holder ?g = (gm_holder g)\<lparr>ph_stageName := take 63 (fi_stage f), ph_scenarioNo := fi_scenario f\<rparr>"
    by (simp add: client_setStageInfo_def set_paused_def holder_setStageInfo_def Let_def)
  have k: "keeps_puppets g ?g"
    by (rule keeps_puppetsI) (simp_all add: client_setStageInfo_def set_paused_def Let_def)
  have s: "scene_puppets ?g = scene_puppets g"
    by (simp add: scene_puppets_def client_setStageInfo_def set_paused_def Let_def)
  obtain g1 g2 g3 g4 e1 e2 where u: "update_puppets ?g = Inr g1" "update_shines mo g1 = (g2, e1)"
    "update_mode (fi_modes f) g2 = Inr (g3, e2)" "send_frame cfg (fi_player f) g3 = Inr g4"
    "frame_pads_step f g4 = Inr g'"
    using assms(4)
    by (auto simp: hakoniwaSequenceHook_def client_update_def Let_def elim!: rbind_InrE split: prod.splits)
  have "keeps_puppets g1 g'"
    using update_shines_keeps [of g1 mo] update_mode_keeps [OF u(3)] send_frame_keeps [OF u(4)]
      frame_pads_keeps [OF u(5)] keeps_puppets_trans u(2) by (metis fst_conv)
  moreover have "\<forall>a \<in> set ids.
      isInSameStage (puppet_info g1 a) = checkInfoIsInStage (gm_holder ?g) (puppet_info ?g a) \<and>
      puppet_dead g1 a = (\<not> checkInfoIsInStage (gm_holder ?g) (puppet_info ?g a))"
    by (rule update_puppets_presence [OF _ _ _ u(1)]) (use assms(1-3) in \<open>simp_all add: h s\<close>)
  moreover have "puppet_info ?g = puppet_info g" using k by (simp add: keeps_puppets_def)
  ultimately show ?thesis by (simp add: keeps_puppets_def h Let_def)
qed

lemmas frame_puppets = frame_puppets_cut [unfolded Let_def]

text \<open>
  C4: After a frame of the game every registered puppet is there exactly if its player is connected, its stage is
  the one the game is in during this frame (cut to 63 characters), and its scenario is that of this frame or one
  of the first fifteen, which are not compared. Its slot says so, too. The stage is set before the puppets are
  updated; nothing later in the frame, the collected moons, the game mode, the sending or the debug controls,
  changes it.
\<close>

theorem frame_presence:
  assumes "pa_ok (mPuppetArr (gm_holder g))" and "pa_list (mPuppetArr (gm_holder g)) = map Some ids"
    and "puppets_ok ids (scene_puppets g)" and "hakoniwaSequenceHook mo cfg f g = Inr (g', es)"
    and "a \<in> set ids"
  shows "(\<not> puppet_dead g' a \<longleftrightarrow> isConnected (puppet_info g a) \<and>
      stageName (puppet_info g a) = take 63 (fi_stage f) \<and>
      (scenarioNo (puppet_info g a) < 15 \<or> scenarioNo (puppet_info g a) = fi_scenario f)) \<and>
    (isInSameStage (puppet_info g' a) \<longleftrightarrow> \<not> puppet_dead g' a)"
  using bspec [OF frame_puppets [OF assms(1-4)] assms(5)] by (auto simp: checkInfoIsInStage_def)

definition idle_frame :: frame_input where
  "idle_frame =
     \<lparr>fi_pads = \<lparr>holdZR = False, holdZL = False, holdL = False, trigUp = False, trigLeft = False, trigRight = False\<rparr>,
      fi_isPause = False, fi_stage = [], fi_scenario = 255,
      fi_modes = idle_inputs,
      fi_player = \<lparr>pf_isYukimaru = True, pf_player = player0,
        pf_cap = \<lparr>cv_isFlying = False, cv_trans = Vector3f_zero, cv_jointRot = Vector3f_zero, cv_skew = Fin 0,
          cv_action = []\<rparr>, pf_is2D = False, pf_scenario = 1, pf_stage = ''CapWorldHomeStage''\<rparr>,
      fi_hackKeeper = None, fi_playingBgm = False\<rparr>"

definition two_game :: "unit game" where
  "two_game =
     \<lparr>gm_client = client0\<lparr>cl_table := sp_table two_puppets\<rparr>, gm_holder = two_holder, gm_puppets = two_puppets,
      gm_sender = sender0, gm_timers = \<lparr>pInfSendTimer = 0, gameInfSendTimer = 0\<rparr>, gm_debugInfo = PuppetInfo_new,
      gm_stageName = [], gm_scenario = 0, gm_data = (), debugMode = False, pageIndex = 0, debugPuppetIndex = 0,
      isDisableMusic = False, isInGame = False\<rparr>"

text \<open>The table of one connected player who has sent no stage yet.\<close>

abbreviation mario_table :: puppet_table where
  "mario_table \<equiv> run_state [(uid_a, hello ''Mario'')]"

lemma mario_table_info:
  "maxPuppets mario_table = 9" "isConnected (mPuppetInfoArr mario_table ! 0)"
  "stageName (mPuppetInfoArr mario_table ! 0) = []" "scenarioNo (mPuppetInfoArr mario_table ! 0) = 255"
  "\<not> isConnected (mPuppetInfoArr mario_table ! 1)" "length (mPuppetInfoArr mario_table) = MAXPUPINDEX"
proof -
  have "maxPuppets mario_table = 9 \<and> map (\<lambda>p. (isConnected p, stageName p, scenarioNo p)) (take 2 (mPuppetInfoArr mario_table)) =
      [(True, [], 255), (False, [], 255)]" by code_simp
  then show "maxPuppets mario_table = 9" "isConnected (mPuppetInfoArr mario_table ! 0)"
    "stageName (mPuppetInfoArr mario_table ! 0) = []" "scenarioNo (mPuppetInfoArr mario_table ! 0) = 255"
    "\<not> isConnected (mPuppetInfoArr mario_table ! 1)"
    by (cases "mPuppetInfoArr mario_table"; cases "tl (mPuppetInfoArr mario_table)"; auto)+
  show "length (mPuppetInfoArr mario_table) = MAXPUPINDEX"
    by (rule table_inv_length) (simp add: run_state_inv)
qed

definition no_moons :: "(unit, unit) moons" where
  "no_moons = \<lparr>mo_hint = (\<lambda>_. None), mo_isGot = (\<lambda>_ _. False), mo_setGot = (\<lambda>_ d. d), mo_stageShine = (\<lambda>_. None)\<rparr>"

lemma two_game_setup:
  "pa_ok (mPuppetArr (gm_holder two_game))" "pa_list (mPuppetArr (gm_holder two_game)) = map Some [0, 1]"
  "puppets_ok [0, 1] (scene_puppets two_game)" "length (fi_stage idle_frame) < 64"
proof -
  have l: "length (mPuppetInfoArr (run_state [(uid_a, hello ''Mario'')])) = MAXPUPINDEX"
    by (rule table_inv_length) (simp add: run_state_inv)
  have "scene_puppets two_game = two_puppets"
    by (simp add: scene_puppets_def two_game_def)
  then show "pa_ok (mPuppetArr (gm_holder two_game))" "pa_list (mPuppetArr (gm_holder two_game)) = map Some [0, 1]"
    "puppets_ok [0, 1] (scene_puppets two_game)" "length (fi_stage idle_frame) < 64"
    by (simp_all add: pa_ok_def pa_list_def two_game_def two_holder_def puppets_ok_def two_puppets_def slot_of_def
        l MAXPUPINDEX_def idle_frame_def)
qed

lemma idle_frame_runs:
  assumes "pa_ok (mPuppetArr (gm_holder g))" and "pa_list (mPuppetArr (gm_holder g)) = map Some ids"
    and "puppets_ok ids (scene_puppets g)" and "mCurModeBase (manager_of (gm_client g)) = None"
    and "\<not> isNeedUpdateShines (cl_shines (gm_client g))" and "gm_timers g = \<lparr>pInfSendTimer = 0, gameInfSendTimer = 0\<rparr>"
  shows "\<exists>g' es. hakoniwaSequenceHook mo cfg idle_frame g = Inr (g', es)"
proof -
  let ?g = "client_setStageInfo (fi_stage idle_frame) (fi_scenario idle_frame)
      (set_paused (fi_isPause idle_frame) (g\<lparr>isInGame := \<not> fi_isPause idle_frame\<rparr>))"
  have "scene_puppets ?g = scene_puppets g" "mPuppetArr (gm_holder ?g) = mPuppetArr (gm_holder g)"
    by (simp_all add: scene_puppets_def client_setStageInfo_def set_paused_def holder_setStageInfo_def Let_def)
  then obtain w where "holder_update (gm_holder ?g) (scene_puppets ?g) = Inr w"
    using update_all_spec [OF assms(3), of "gm_holder ?g"] holder_update_all [of "gm_holder ?g"] assms(1,2) by auto
  then obtain g1 where u: "update_puppets ?g = Inr g1" "cl_modes (gm_client g1) = cl_modes (gm_client ?g)"
    "cl_shines (gm_client g1) = cl_shines (gm_client ?g)" "gm_timers g1 = gm_timers ?g"
    by (simp add: update_puppets_def flip: scene_puppets_def)
  have q: "mCurModeBase (mw_manager (cl_modes (gm_client ?g))) = None" "\<not> isNeedUpdateShines (cl_shines (gm_client ?g))"
    "gm_timers ?g = \<lparr>pInfSendTimer = 0, gameInfSendTimer = 0\<rparr>"
    using assms(4-6) by (simp_all add: client_setStageInfo_def set_paused_def setPaused_def set_manager_def Let_def)
  have "\<exists>w es. mgr_update (inp\<lparr>in_table := t\<rparr>) (cl_modes (gm_client g1)) = Inr (w, es)" for inp t
    using q(1) u(2) by (simp add: mgr_update_def Let_def)
  then obtain w es where m: "mgr_update ((fi_modes idle_frame)\<lparr>in_table := cl_table (gm_client g1)\<rparr>)
      (cl_modes (gm_client g1)) = Inr (w, es)" by blast
  have "updatePlayerFrame cfg (fi_player idle_frame) (\<lparr>pInfSendTimer = 0, gameInfSendTimer = 0\<rparr>, d) =
      Inr (\<lparr>pInfSendTimer = 1, gameInfSendTimer = 1\<rparr>, d)" for d
    by (simp add: updatePlayerFrame_def)
  moreover have "frame_pads_step idle_frame x = Inr x" for x :: "'a game"
    by (simp add: frame_pads_step_def idle_frame_def)
  ultimately show ?thesis
    using u m q by (simp add: hakoniwaSequenceHook_def client_update_def update_shines_def update_mode_def
        send_frame_def Let_def)
qed

lemma two_game_frame: "\<exists>g' es. hakoniwaSequenceHook no_moons cfg0 idle_frame two_game = Inr (g', es)"
  by (rule idle_frame_runs [OF two_game_setup(1-3)])
    (simp_all add: two_game_def client0_def GameModeManager_new_def setMode_def manager_empty_def
      shine_sync_init_def isNeedUpdateShines_def)

theorem frame_presence_witness:
  "\<exists>g' es. hakoniwaSequenceHook no_moons cfg0 idle_frame two_game = Inr (g', es) \<and>
     \<not> puppet_dead g' 0 \<and> puppet_dead g' 1"
proof -
  obtain g' es where h: "hakoniwaSequenceHook no_moons cfg0 idle_frame two_game = Inr (g', es)"
    using two_game_frame by blast
  have "(isConnected (puppet_info two_game a) \<and> stageName (puppet_info two_game a) = take 63 (fi_stage idle_frame) \<and>
      (scenarioNo (puppet_info two_game a) < 15 \<or> scenarioNo (puppet_info two_game a) = fi_scenario idle_frame)) \<longleftrightarrow>
      a = 0" if "a = 0 \<or> a = 1" for a
    using that by (auto simp: puppet_info_def scene_puppets_def slot_of_def two_game_def
        two_puppets_def idle_frame_def mario_table_info [simplified])
  from frame_presence [OF two_game_setup(1-3) h, of 0] frame_presence [OF two_game_setup(1-3) h, of 1] this [of 0] this [of 1]
  show ?thesis using h by auto
qed

end
