(* ===== verification/Stage_Puppets.thy ===== *)
theory Stage_Puppets
  imports Game_Frame
begin

text \<open>
  Making the actors of a stage (\<open>puppets/PuppetMain.cpp\<close>, the client's registration functions in
  \<open>server/Client.cpp\<close>): which puppet is registered, which slot of the player table it shows, and what that
  gives for the frames of the stage. The engine's actor factory is a parameter: it has a creator for an
  actor or none.
\<close>

section \<open>Registration\<close>

text \<open>\<open>None\<close> is a client that does not exist yet.\<close>

definition tryAddPuppet :: "nat option \<Rightarrow> puppet_holder option \<Rightarrow> (bool \<times> puppet_holder option) res" where
  "tryAddPuppet puppet c =
     (case c of
        None \<Rightarrow> Inr (False, None)
      | Some h \<Rightarrow> rbind (tryRegisterPuppet puppet h) (\<lambda>(b, h). Inr (b, Some h)))"

definition tryAddDebugPuppet :: "nat option \<Rightarrow> puppet_holder option \<Rightarrow> bool \<times> puppet_holder option" where
  "tryAddDebugPuppet puppet c =
     (case c of
        None \<Rightarrow> (False, None)
      | Some h \<Rightarrow> (case tryRegisterDebugPuppet puppet h of (b, h) \<Rightarrow> (b, Some h)))"

definition getPuppet :: "int \<Rightarrow> puppet_holder option \<Rightarrow> nat option res" where
  "getPuppet idx c = (case c of None \<Rightarrow> Inr None | Some h \<Rightarrow> getPuppetActor idx h)"

text \<open>The slot itself, by its number; the array is read unchecked.\<close>

definition puppetInfo_slot :: "int \<Rightarrow> puppet_table option \<Rightarrow> nat option res" where
  "puppetInfo_slot idx c =
     (case c of
        None \<Rightarrow> Inr None
      | Some tab \<Rightarrow>
          if 0 \<le> idx \<and> nat idx < length (mPuppetInfoArr tab) then Inr (Some (nat idx)) else Inl OutOfBounds)"

definition getLatestInfo :: "(puppet_holder \<times> puppet_table) option \<Rightarrow> nat option res" where
  "getLatestInfo c =
     (case c of None \<Rightarrow> Inr None | Some (h, tab) \<Rightarrow> puppetInfo_slot (holder_getSize h - 1) (Some tab))"

section \<open>Making the puppets\<close>

text \<open>
  A puppet's \<open>initOnline\<close> and \<open>init\<close>: the slot it shows, and, when it shows one, a name tag with the name the
  slot has now. A puppet that was not registered is left as its constructor made it.
\<close>

definition puppet_initOnline :: "nat \<Rightarrow> nat option \<Rightarrow> stage_puppets \<Rightarrow> stage_puppets" where
  "puppet_initOnline a slot w = w\<lparr>sp_info := (sp_info w)[a := slot]\<rparr>"

definition puppet_init :: "nat \<Rightarrow> stage_puppets \<Rightarrow> stage_puppets" where
  "puppet_init a w =
     (let p = sp_actors w ! a;
          p = (case sp_info w ! a of
                 Some i \<Rightarrow> p\<lparr>name_tag := Some (puppetName (mPuppetInfoArr (sp_table w) ! i), False)\<rparr>
               | None \<Rightarrow> p)
      in w\<lparr>sp_actors := (sp_actors w)[a := p\<lparr>currentModel := Normal\<rparr>]\<rparr>)"

definition new_puppet :: "stage_puppets \<Rightarrow> nat \<times> stage_puppets" where
  "new_puppet w =
     (length (sp_actors w), w\<lparr>sp_actors := sp_actors w @ [puppet_actor_new], sp_info := sp_info w @ [None]\<rparr>)"

text \<open>\<open>createPuppetActorFromFactory\<close> for a puppet of a player, the only one the code makes.\<close>

definition createPuppetActorFromFactory ::
  "bool \<Rightarrow> puppet_holder \<times> stage_puppets \<Rightarrow> (nat option \<times> puppet_holder \<times> stage_puppets) res" where
  "createPuppetActorFromFactory creator x =
     (case x of (h, w) \<Rightarrow>
        if \<not> creator then Inr (None, h, w)
        else (case new_puppet w of (a, w) \<Rightarrow>
               rbind (tryAddPuppet (Some a) (Some h)) (\<lambda>(added, c).
                 case c of
                   None \<Rightarrow> Inr (Some a, h, w)
                 | Some h \<Rightarrow>
                     if \<not> added then Inr (Some a, h, w)
                     else rbind (getLatestInfo (Some (h, sp_table w))) (\<lambda>curInfo.
                            case curInfo of
                              None \<Rightarrow> Inr (Some a, h, w)
                            | Some i \<Rightarrow> Inr (Some a, h, puppet_init a (puppet_initOnline a (Some i) w))))))"

fun create_loop :: "nat \<Rightarrow> bool \<Rightarrow> puppet_holder \<times> stage_puppets \<Rightarrow> (puppet_holder \<times> stage_puppets) res" where
  "create_loop 0 creator x = Inr x"
| "create_loop (Suc n) creator x =
     rbind (createPuppetActorFromFactory creator x) (\<lambda>(_, x). create_loop n creator x)"

text \<open>The loop's counter is a \<open>size_t\<close>: a negative number of players is a huge number of turns.\<close>

definition loop_count :: "s32 \<Rightarrow> nat" where
  "loop_count n = nat (sint n mod 2 ^ 64)"

text \<open>\<open>initPuppetActors\<close>: with a placement for the player, the puppets, the two flags and the border.\<close>

record creators =
  cr_puppet :: bool
  cr_flag :: "flag_actor option"
  cr_flagAnim :: "string \<Rightarrow> bool"
  cr_border :: "border_actor option"

definition initPuppetActors :: "creators \<Rightarrow> s32 \<Rightarrow> 'g game \<Rightarrow> 'g game res" where
  "initPuppetActors cr placementCount g =
     (if sint placementCount > 0
      then rbind (create_loop (loop_count (getMaxPlayerCount (cl_table (gm_client g)))) (cr_puppet cr)
                    (gm_holder g, (gm_puppets g)\<lparr>sp_table := cl_table (gm_client g)\<rparr>)) (\<lambda>(h, w).
           let g = g\<lparr>gm_holder := h, gm_puppets := w\<rparr>
           in rbind (initFlagActors (cr_flagAnim cr) (cr_flag cr) (mw_flags (cl_modes (gm_client g)))) (\<lambda>fl.
                let c = set_flags fl (gm_client g)
                in Inr (g\<lparr>gm_client := c\<lparr>cl_modes := (cl_modes c)\<lparr>mw_border := border_create (cr_border cr)\<rparr>\<rparr>\<rparr>)))
      else Inr g)"

section \<open>Which puppet shows which slot\<close>

text \<open>
  Half way through the loop: \<open>k\<close> puppets made since the array was empty, the actors numbered from \<open>n\<close> on,
  as many of them registered as fit, the one at place \<open>j\<close> showing slot \<open>j\<close>.
\<close>

definition made :: "nat \<Rightarrow> nat \<Rightarrow> nat \<Rightarrow> puppet_table \<Rightarrow> puppet_holder \<times> stage_puppets \<Rightarrow> bool" where
  "made n cap k tab x \<longleftrightarrow>
     pa_ok (mPuppetArr (fst x)) \<and> pa_cap (mPuppetArr (fst x)) = cap \<and>
     pa_list (mPuppetArr (fst x)) = map (\<lambda>j. Some (n + j)) [0..<min cap k] \<and>
     length (sp_actors (snd x)) = n + k \<and> length (sp_info (snd x)) = n + k \<and> sp_table (snd x) = tab \<and>
     (\<forall>j < min cap k. sp_info (snd x) ! (n + j) = Some j \<and>
        actor_dead (sp_actors (snd x) ! (n + j)))"

lemma init_puppet:
  assumes "a < length (sp_actors w)" and "length (sp_info w) = length (sp_actors w)"
  shows "sp_table (puppet_init a (puppet_initOnline a (Some i) w)) = sp_table w"
    "length (sp_actors (puppet_init a (puppet_initOnline a (Some i) w))) = length (sp_actors w)"
    "sp_info (puppet_init a (puppet_initOnline a (Some i) w)) = (sp_info w)[a := Some i]"
    "actor_dead (sp_actors (puppet_init a (puppet_initOnline a (Some i) w)) ! b) = actor_dead (sp_actors w ! b)"
  using assms by (simp_all add: puppet_init_def puppet_initOnline_def Let_def nth_list_update)

lemma made_create:
  assumes "made n cap k tab x" and "cap \<le> length (mPuppetInfoArr tab)"
  shows "\<exists>p y. createPuppetActorFromFactory True x = Inr (p, y) \<and> made n cap (Suc k) tab y"
proof -
  obtain h w where x: "x = (h, w)" by fastforce
  note m = assms(1) [unfolded made_def x fst_conv snd_conv]
  obtain h' where r: "tryRegisterPuppet (Some (n + k)) h = Inr (min cap k < cap, h')" "pa_ok (mPuppetArr h')"
    "pa_cap (mPuppetArr h') = cap"
    "pa_list (mPuppetArr h') = take cap (map (\<lambda>j. Some (n + j)) [0..<min cap k] @ [Some (n + k)])"
    using tryRegisterPuppet_spec [of h "Some (n + k)"] m by auto
  define v where "v = snd (new_puppet w)"
  have nv: "new_puppet w = (n + k, v)" "sp_actors v = sp_actors w @ [puppet_actor_new]"
    "sp_info v = sp_info w @ [None]" "sp_table v = tab"
    using m by (simp_all add: new_puppet_def v_def)
  have v: "new_puppet w = (n + k, v)" "length (sp_actors v) = n + Suc k" "length (sp_info v) = n + Suc k"
    "sp_table v = tab" using m nv by simp_all
  have old: "sp_info v ! (n + j) = Some j" "actor_dead (sp_actors v ! (n + j))" if "j < min cap k" for j
    using m that by (simp_all add: nv nth_append)
  show ?thesis
  proof (cases "k < cap")
    case True
    then have l: "pa_list (mPuppetArr h') = map (\<lambda>j. Some (n + j)) [0..<Suc k]" using r(4) by (simp add: min_def)
    then have "holder_getSize h' - 1 = int k"
      using length_pa_list [OF r(2)] by (simp add: holder_getSize_def pa_size_def)
    then have s: "getLatestInfo (Some (h', sp_table v)) = Inr (Some k)"
      using True assms(2) v(4) by (simp add: getLatestInfo_def puppetInfo_slot_def)
    have c: "createPuppetActorFromFactory True x =
        Inr (Some (n + k), h', puppet_init (n + k) (puppet_initOnline (n + k) (Some k) v))"
      using r(1) True s by (simp add: createPuppetActorFromFactory_def x v(1) tryAddPuppet_def)
    have "made n cap (Suc k) tab (h', puppet_init (n + k) (puppet_initOnline (n + k) (Some k) v))"
    proof -
      have a: "n + k < length (sp_actors v)" "length (sp_info v) = length (sp_actors v)" using v by simp_all
      have d: "actor_dead (sp_actors v ! (n + k))"
        using m by (simp add: nv nth_append puppet_actor_new_def)
      have "(sp_info v)[n + k := Some k] ! (n + j) = Some j \<and> actor_dead (sp_actors v ! (n + j))"
        if "j < Suc k" for j
        using old [of j] d v(3) True that by (cases "j = k") (simp_all add: min_def)
      then show ?thesis
        using r(2,3) l True v by (simp add: made_def init_puppet [OF a] min_absorb2 del: upt_Suc)
    qed
    then show ?thesis using c by blast
  next
    case False
    then have l: "pa_list (mPuppetArr h') = map (\<lambda>j. Some (n + j)) [0..<cap]" using r(4) by (simp add: min_def)
    have c: "createPuppetActorFromFactory True x = Inr (Some (n + k), h', v)"
      using r(1) False by (simp add: createPuppetActorFromFactory_def x v(1) tryAddPuppet_def)
    have "made n cap (Suc k) tab (h', v)"
      using r(2,3) l False v old by (simp add: made_def min_def)
    then show ?thesis using c by blast
  qed
qed

lemma made_loop:
  "made n cap k tab x \<Longrightarrow> cap \<le> length (mPuppetInfoArr tab) \<Longrightarrow>
     \<exists>y. create_loop m True x = Inr y \<and> made n cap (k + m) tab y"
proof (induction m arbitrary: k x)
  case 0
  then show ?case by simp
next
  case (Suc m)
  obtain p y where y: "createPuppetActorFromFactory True x = Inr (p, y)" "made n cap (Suc k) tab y"
    using made_create [OF Suc.prems] by blast
  from Suc.IH [OF y(2) Suc.prems(2)] show ?case by (simp add: y(1))
qed

lemma made_puppets_ok:
  assumes "made n cap k tab (h, w)" and "cap \<le> length (mPuppetInfoArr tab)"
  shows "pa_list (mPuppetArr h) = map Some (map ((+) n) [0..<min cap k])"
    "puppets_ok (map ((+) n) [0..<min cap k]) w" "\<And>j. j < min cap k \<Longrightarrow> slot_of w (n + j) = j"
proof -
  show s: "\<And>j. j < min cap k \<Longrightarrow> slot_of w (n + j) = j"
    using assms(1) by (simp add: made_def slot_of_def)
  show "pa_list (mPuppetArr h) = map Some (map ((+) n) [0..<min cap k])"
    using assms(1) by (simp add: made_def)
  have "map (slot_of w) (map ((+) n) [0..<min cap k]) = [0..<min cap k]"
    using s by (simp add: list_eq_iff_nth_eq)
  then show "puppets_ok (map ((+) n) [0..<min cap k]) w"
    unfolding puppets_ok_def
  proof (intro conjI ballI)
    show "distinct (map ((+) n) [0..<min cap k])" by (simp add: distinct_map)
    fix a
    assume "a \<in> set (map ((+) n) [0..<min cap k])"
    then have "a = n + (a - n)" "a - n < min cap k" by auto
    then obtain j where "a = n + j" "j < min cap k" by blast
    then show "a < length (sp_actors w)" "sp_info w ! a \<noteq> None"
      "slot_of w a < length (mPuppetInfoArr (sp_table w))"
      using assms s [of j] by (auto simp: made_def)
  qed simp
qed

section \<open>A stage from its beginning\<close>

lemma pa_clear_ok: "pa_ok pa \<Longrightarrow> pa_ok (pa_clear pa) \<and> pa_list (pa_clear pa) = [] \<and> pa_cap (pa_clear pa) = pa_cap pa"
  by (auto simp: pa_ok_def pa_clear_def pa_list_def pa_cap_def split: option.splits)

lemma stageInitHook_keeps:
  assumes "stageInitHook cfg holder scenario stage g arr = Inr (g', arr')"
  shows "gm_holder g' = clearPuppets (gm_holder g)" "gm_puppets g' = gm_puppets g"
    "cl_table (gm_client g') = cl_table (gm_client g)"
  using assms by (auto simp: stageInitHook_def Let_def elim!: rbind_InrE)

definition shown_count :: "'g game \<Rightarrow> nat" where
  "shown_count g = min (pa_cap (mPuppetArr (gm_holder g))) (loop_count (getMaxPlayerCount (cl_table (gm_client g))))"

lemma made_from_empty:
  assumes "pa_ok (mPuppetArr (gm_holder g))" and "pa_list (mPuppetArr (gm_holder g)) = []"
    and "pa_cap (mPuppetArr (gm_holder g)) \<le> length (mPuppetInfoArr (cl_table (gm_client g)))"
    and "length (sp_info (gm_puppets g)) = length (sp_actors (gm_puppets g))"
  shows "\<exists>y. create_loop m True (gm_holder g, (gm_puppets g)\<lparr>sp_table := cl_table (gm_client g)\<rparr>) = Inr y \<and>
    made (length (sp_actors (gm_puppets g))) (pa_cap (mPuppetArr (gm_holder g))) m (cl_table (gm_client g)) y"
proof -
  have "made (length (sp_actors (gm_puppets g))) (pa_cap (mPuppetArr (gm_holder g))) 0 (cl_table (gm_client g))
      (gm_holder g, (gm_puppets g)\<lparr>sp_table := cl_table (gm_client g)\<rparr>)"
    using assms(1,2,4) by (simp add: made_def)
  from made_loop [OF this assms(3), of m] show ?thesis by simp
qed

lemma initPuppetActors_slots:
  assumes "pa_ok (mPuppetArr (gm_holder g))" and "pa_list (mPuppetArr (gm_holder g)) = []"
    and "pa_cap (mPuppetArr (gm_holder g)) \<le> length (mPuppetInfoArr (cl_table (gm_client g)))"
    and "length (sp_info (gm_puppets g)) = length (sp_actors (gm_puppets g))"
    and "initPuppetActors cr placementCount g = Inr g'" and "cr_puppet cr" and "0 < sint placementCount"
  shows "cl_table (gm_client g') = cl_table (gm_client g) \<and> pa_ok (mPuppetArr (gm_holder g')) \<and>
    pa_list (mPuppetArr (gm_holder g')) =
      map Some (map ((+) (length (sp_actors (gm_puppets g)))) [0..<shown_count g]) \<and>
    puppets_ok (map ((+) (length (sp_actors (gm_puppets g)))) [0..<shown_count g]) (scene_puppets g') \<and>
    (\<forall>j < shown_count g. slot_of (scene_puppets g') (length (sp_actors (gm_puppets g)) + j) = j)"
proof -
  let ?n = "length (sp_actors (gm_puppets g))" and ?tab = "cl_table (gm_client g)"
    and ?cap = "pa_cap (mPuppetArr (gm_holder g))" and ?k = "loop_count (getMaxPlayerCount (cl_table (gm_client g)))"
  let ?x = "(gm_holder g, (gm_puppets g)\<lparr>sp_table := ?tab\<rparr>)"
  from made_from_empty [OF assms(1-4), of ?k] obtain h w where
    l: "create_loop ?k True ?x = Inr (h, w)" "made ?n ?cap ?k ?tab (h, w)" by auto
  have g': "gm_holder g' = h" "gm_puppets g' = w" "cl_table (gm_client g') = ?tab"
    using assms(5,6,7) l(1) by (auto simp: initPuppetActors_def set_flags_def Let_def elim!: rbind_InrE)
  have t: "sp_table w = ?tab" "pa_ok (mPuppetArr h)" using l(2) by (simp_all add: made_def)
  have s: "scene_puppets g' = w" using t(1) by (simp add: scene_puppets_def g' flip: t(1))
  show ?thesis
    using made_puppets_ok [OF l(2) assms(3)] t(2) by (simp add: s g' shown_count_def)
qed

text \<open>
  C2: A stage from its beginning to its first frame: after the stage hook and the making of the actors, the
  puppets are the new actors, one per slot of the table in the table's order, as many as the number of
  players and the holder's array allow; and after the first frame the puppet of each such slot is there
  exactly if the player of that slot is in the stage and scenario. The players of the slots behind them have
  no puppet, in whatever stage they are.
\<close>

theorem stage_shows_slots:
  assumes "pa_ok (mPuppetArr (gm_holder g))" and "table_inv (cl_table (gm_client g))"
    and "pa_cap (mPuppetArr (gm_holder g)) \<le> MAXPUPINDEX"
    and "length (sp_info (gm_puppets g)) = length (sp_actors (gm_puppets g))"
    and "stageInitHook cfg holder scenario stage g arr = Inr (g1, arr1)"
    and "initPuppetActors cr placementCount g1 = Inr g2" and "cr_puppet cr" and "0 < sint placementCount"
    and "hakoniwaSequenceHook mo cfg f g2 = Inr (g3, es)" and "length (fi_stage f) < 64"
  shows "pa_list (mPuppetArr (gm_holder g2)) =
      map (\<lambda>j. Some (length (sp_actors (gm_puppets g)) + j)) [0..<shown_count g] \<and>
    (\<forall>j < shown_count g. puppet_dead g3 (length (sp_actors (gm_puppets g)) + j) =
      (\<not> checkInfoIsInStage ((gm_holder g2)\<lparr>ph_stageName := fi_stage f, ph_scenarioNo := fi_scenario f\<rparr>)
           (mPuppetInfoArr (cl_table (gm_client g)) ! j)))"
proof -
  note k = stageInitHook_keeps [OF assms(5)]
  note c = pa_clear_ok [OF assms(1)]
  have h: "mPuppetArr (gm_holder g1) = pa_clear (mPuppetArr (gm_holder g))" by (simp add: k(1) clearPuppets_def)
  have n: "shown_count g1 = shown_count g" using c by (simp add: shown_count_def h k(3))
  have s: "cl_table (gm_client g2) = cl_table (gm_client g1) \<and> pa_ok (mPuppetArr (gm_holder g2)) \<and>
    pa_list (mPuppetArr (gm_holder g2)) =
      map Some (map ((+) (length (sp_actors (gm_puppets g1)))) [0..<shown_count g1]) \<and>
    puppets_ok (map ((+) (length (sp_actors (gm_puppets g1)))) [0..<shown_count g1]) (scene_puppets g2) \<and>
    (\<forall>j < shown_count g1. slot_of (scene_puppets g2) (length (sp_actors (gm_puppets g1)) + j) = j)"
    by (rule initPuppetActors_slots [OF _ _ _ _ assms(6-8)])
      (use c assms(3,4) in \<open>simp_all add: h k(2,3) table_inv_length [OF assms(2)]\<close>)
  have p: "puppet_info g2 (length (sp_actors (gm_puppets g)) + j) = mPuppetInfoArr (cl_table (gm_client g)) ! j"
    if "j < shown_count g" for j
    using s that n k by (simp add: puppet_info_def) (simp add: scene_puppets_def)
  let ?ids = "map ((+) (length (sp_actors (gm_puppets g)))) [0..<shown_count g]"
  have f: "\<forall>a \<in> set ?ids.
    let here = checkInfoIsInStage ((gm_holder g2)\<lparr>ph_stageName := fi_stage f, ph_scenarioNo := fi_scenario f\<rparr>)
                 (puppet_info g2 a)
    in isInSameStage (puppet_info g3 a) = here \<and> puppet_dead g3 a = (\<not> here)"
    using frame_puppets_cut [OF _ _ _ assms(9), of ?ids] s assms(10) by (simp add: n k(2))
  have "puppet_dead g3 (length (sp_actors (gm_puppets g)) + j) =
      (\<not> checkInfoIsInStage ((gm_holder g2)\<lparr>ph_stageName := fi_stage f, ph_scenarioNo := fi_scenario f\<rparr>)
           (mPuppetInfoArr (cl_table (gm_client g)) ! j))" if "j < shown_count g" for j
    using bspec [OF f, of "length (sp_actors (gm_puppets g)) + j"] that p [OF that] by (simp add: Let_def)
  moreover have "pa_list (mPuppetArr (gm_holder g2)) =
      map (\<lambda>j. Some (length (sp_actors (gm_puppets g)) + j)) [0..<shown_count g]"
    using s by (simp add: n k(2) comp_def)
  ultimately show ?thesis by blast
qed

text \<open>A stage of two players with the cleared holder of another stage.\<close>

definition new_stage :: "unit game" where
  "new_stage = two_game\<lparr>gm_client := set_manager ((manager_of client0)\<lparr>mCurMode := NONE\<rparr>) (gm_client two_game)\<rparr>"

definition all_creators :: creators where
  "all_creators = \<lparr>cr_puppet = True, cr_flag = Some fresh_flag, cr_flagAnim = (\<lambda>_. True), cr_border = None\<rparr>"

lemma new_stage_sends: "\<exists>d. sendGameInfPacket cfg scenario st (sender0\<lparr>sn_sock := cl_sock client0\<rparr>) = Inr d"
  by (simp add: sendGameInfPacket_def send_kept_def on_sock_def heap_new_def heap_free_def queuePacket_def
      isConnected_sock_def client0_def Let_def)

lemma new_stage_hook:
  "\<exists>g1 arr1. stageInitHook cfg0 True 1 ''CapWorldHomeStage'' new_stage PtrArray_empty = Inr (g1, arr1) \<and>
     cl_modes (gm_client g1) = cl_modes (gm_client new_stage) \<and> cl_shines (gm_client g1) = shine_sync_init \<and>
     gm_timers g1 = gm_timers new_stage"
proof -
  obtain d where "sendGameInfPacket cfg0 1 ''CapWorldHomeStage'' (sender0\<lparr>sn_sock := cl_sock client0\<rparr>) = Inr d"
    using new_stage_sends by blast
  then show ?thesis
    by (simp add: stageInitHook_def new_stage_def two_game_def stage_init_def set_manager_def client0_def)
qed

lemma new_stage_setup:
  "pa_ok (mPuppetArr (gm_holder new_stage))" "table_inv (cl_table (gm_client new_stage))"
  "pa_cap (mPuppetArr (gm_holder new_stage)) \<le> MAXPUPINDEX"
  "length (sp_info (gm_puppets new_stage)) = length (sp_actors (gm_puppets new_stage))"
  "length (sp_actors (gm_puppets new_stage)) = 2"
  by (simp_all add: new_stage_def two_game_def two_holder_def two_puppets_def pa_ok_def pa_cap_def MAXPUPINDEX_def
      run_state_inv)

theorem stage_shows_slots_witness:
  "\<exists>g1 arr1 g2 g3 es. stageInitHook cfg0 True 1 ''CapWorldHomeStage'' new_stage PtrArray_empty = Inr (g1, arr1) \<and>
     initPuppetActors all_creators 1 g1 = Inr g2 \<and>
     hakoniwaSequenceHook no_moons cfg0 idle_frame g2 = Inr (g3, es) \<and>
     length (pa_list (mPuppetArr (gm_holder g2))) = 9 \<and> \<not> puppet_dead g3 2 \<and> puppet_dead g3 3"
proof -
  note base = new_stage_setup
  obtain g1 arr1 where h: "stageInitHook cfg0 True 1 ''CapWorldHomeStage'' new_stage PtrArray_empty = Inr (g1, arr1)"
    "cl_modes (gm_client g1) = cl_modes (gm_client new_stage)" "cl_shines (gm_client g1) = shine_sync_init"
    "gm_timers g1 = gm_timers new_stage"
    using new_stage_hook by blast
  note k = stageInitHook_keeps [OF h(1)]
  note c = pa_clear_ok [OF base(1)]
  have m: "mPuppetArr (gm_holder g1) = pa_clear (mPuppetArr (gm_holder new_stage))"
    by (simp add: k(1) clearPuppets_def)
  have "pa_ok (mPuppetArr (gm_holder g1))" "pa_list (mPuppetArr (gm_holder g1)) = []"
    "pa_cap (mPuppetArr (gm_holder g1)) \<le> length (mPuppetInfoArr (cl_table (gm_client g1)))"
    "length (sp_info (gm_puppets g1)) = length (sp_actors (gm_puppets g1))"
    using c base by (simp_all add: k clearPuppets_def table_inv_length)
  note start = this
  obtain g2 where i: "initPuppetActors all_creators 1 g1 = Inr g2"
    "mw_manager (cl_modes (gm_client g2)) = mw_manager (cl_modes (gm_client g1))"
    "cl_shines (gm_client g2) = cl_shines (gm_client g1)" "gm_timers g2 = gm_timers g1"
    using made_from_empty [OF start, of "loop_count (getMaxPlayerCount (cl_table (gm_client g1)))"]
    by (auto simp: initPuppetActors_def all_creators_def initFlagActors_Some set_flags_def Let_def)
  have one: "cr_puppet all_creators" "0 < sint (1 :: s32)" by (simp_all add: all_creators_def)
  have t: "cl_table (gm_client new_stage) = mario_table"
    by (simp add: new_stage_def two_game_def two_puppets_def)
  have n: "shown_count new_stage = 9"
    by (simp add: shown_count_def t getMaxPlayerCount_def loop_count_def mario_table_info)
      (simp add: new_stage_def two_game_def two_holder_def pa_cap_def)
  note s = initPuppetActors_slots [OF start i(1) one]
  obtain g3 es where f: "hakoniwaSequenceHook no_moons cfg0 idle_frame g2 = Inr (g3, es)"
  proof -
    have "mCurModeBase (manager_of (gm_client g2)) = None" "\<not> isNeedUpdateShines (cl_shines (gm_client g2))"
      "gm_timers g2 = \<lparr>pInfSendTimer = 0, gameInfSendTimer = 0\<rparr>"
      unfolding i(2-4) h(2-4)
      by (simp_all add: new_stage_def two_game_def set_manager_def client0_def GameModeManager_new_def setMode_def
          manager_empty_def shine_sync_init_def isNeedUpdateShines_def)
    with s show ?thesis using idle_frame_runs that by blast
  qed
  have p: "length (pa_list (mPuppetArr (gm_holder g2))) = 9"
    "\<And>j. j < 9 \<Longrightarrow> puppet_dead g3 (2 + j) = (\<not> checkInfoIsInStage ((gm_holder g2)\<lparr>ph_stageName := [],
       ph_scenarioNo := 255\<rparr>) (mPuppetInfoArr (cl_table (gm_client new_stage)) ! j))"
    using stage_shows_slots [OF base(1-4) h(1) i(1) one f]
    by (simp_all add: n base(5) idle_frame_def)
  have "checkInfoIsInStage (x\<lparr>ph_stageName := [], ph_scenarioNo := 255\<rparr>) (mPuppetInfoArr mario_table ! 0)"
    "\<not> checkInfoIsInStage (x\<lparr>ph_stageName := [], ph_scenarioNo := 255\<rparr>) (mPuppetInfoArr mario_table ! 1)" for x
    using mario_table_info by (simp_all add: checkInfoIsInStage_def)
  then show ?thesis using h(1) i(1) f p(1) p(2) [of 0] p(2) [of 1] by (simp add: t)
qed

end
