(* ===== verification/Float_Order.thy ===== *)
theory Float_Order
  imports Float_Vec
begin

text \<open>
  Rounding keeps the order: the rounded value of a smaller number is not above that of a larger one. With
  it the order of two \<open>f32\<close> results follows from the order of the exact values. The operations of
  \<open>sead/math/seadMathCalcCommon.hpp\<close> that compare (\<open>min\<close>, \<open>max\<close>) and the division by a positive value.
\<close>

section \<open>Rounding to the nearest integer\<close>

lemma round_half_even_between: "\<lfloor>x\<rfloor> \<le> round_half_even x" "round_half_even x \<le> \<lfloor>x\<rfloor> + 1"
  by (simp_all add: round_half_even_def Let_def)

lemma round_half_even_mono: "x \<le> y \<Longrightarrow> round_half_even x \<le> round_half_even y"
proof -
  assume le: "x \<le> y"
  then have f: "\<lfloor>x\<rfloor> \<le> \<lfloor>y\<rfloor>" by (rule floor_mono)
  show ?thesis
  proof (cases "\<lfloor>x\<rfloor> = \<lfloor>y\<rfloor>")
    case True
    with le show ?thesis by (simp add: round_half_even_def Let_def)
  next
    case False
    with f have "\<lfloor>x\<rfloor> + 1 \<le> \<lfloor>y\<rfloor>" by simp
    then show ?thesis using round_half_even_between(2) [of x] round_half_even_between(1) [of y] by linarith
  qed
qed

lemma round_half_even_minus: "round_half_even (- x) = - round_half_even x"
proof (cases "x = of_int \<lfloor>x\<rfloor>")
  case True
  then obtain k where "x = of_int k" by blast
  then show ?thesis using round_half_even_of_int [of "- k"] by simp
next
  case False
  have l: "of_int \<lfloor>x\<rfloor> < x" using False of_int_floor_le [of x] by linarith
  have u: "x < of_int \<lfloor>x\<rfloor> + 1" by linarith
  have "\<lfloor>- x\<rfloor> = - \<lfloor>x\<rfloor> - 1"
    by (rule floor_unique) (use l u in simp_all)
  then show ?thesis by (auto simp: round_half_even_def Let_def)
qed

section \<open>Rounding to a float\<close>

text \<open>The rounded value before the overflow to an infinity.\<close>

definition f32_grid :: "rat \<Rightarrow> rat" where
  "f32_grid a = of_int (round_half_even (a / f32_ulp a)) * f32_ulp a"

lemma f32_round_grid:
  "f32_round a = (if f32_grid a \<ge> 2 ^ 128 then PosInf else if f32_grid a \<le> - (2 ^ 128) then NegInf
     else Fin (f32_grid a))"
  by (simp add: f32_round_def f32_grid_def Let_def)

lemma f32_grid_minus: "f32_grid (- a) = - f32_grid a"
proof -
  have "f32_ulp (- a) = f32_ulp a" by (simp add: f32_ulp_def)
  then show ?thesis using round_half_even_minus [of "a / f32_ulp a"] by (simp add: f32_grid_def)
qed

lemma f32_grid_le: "a \<le> of_int k * f32_ulp a \<Longrightarrow> f32_grid a \<le> of_int k * f32_ulp a"
  by (simp add: f32_grid_def pos_divide_le_eq round_half_even_le)

lemma f32_grid_ge: "of_int k * f32_ulp a \<le> a \<Longrightarrow> of_int k * f32_ulp a \<le> f32_grid a"
  by (simp add: f32_grid_def pos_le_divide_eq round_half_even_ge)

lemma f32_binade_mono: "a \<le> b \<Longrightarrow> f32_binade n a \<le> f32_binade n b"
  by (induction n) (auto intro: le_SucI f32_binade_le)

lemma f32_grid_mono_pos:
  assumes "0 \<le> a" and "a \<le> b"
  shows "f32_grid a \<le> f32_grid b"
proof (cases "f32_binade 253 a = f32_binade 253 b")
  case True
  then have u: "f32_ulp a = f32_ulp b" using assms by (simp add: f32_ulp_def)
  have "a / f32_ulp b \<le> b / f32_ulp b" using assms(2) by (simp add: divide_right_mono less_imp_le)
  then show ?thesis
    using round_half_even_mono by (simp add: f32_grid_def u)
next
  case False
  let ?m = "f32_binade 253 a" and ?n = "f32_binade 253 b"
  have mn: "Suc ?m \<le> ?n" using f32_binade_mono [OF assms(2), of 253] False by simp
  have ua: "f32_ulp a = 2 ^ ?m / 2 ^ 149" and ub: "f32_ulp b = 2 ^ ?n / 2 ^ 149"
    using assms by (simp_all add: f32_ulp_def)
  have "?m < 253" using mn f32_binade_le [of 253 b] by linarith
  have "a < 2 ^ Suc ?m / 2 ^ 126"
  proof (rule f32_binade_upper)
    have "\<not> 2 ^ Suc 252 / 2 ^ 126 \<le> a"
      using \<open>?m < 253\<close> f32_binade.simps(2) [of 252 a] by (auto simp del: f32_binade.simps power_Suc)
    then show "a < 2 ^ Suc 253 / 2 ^ 126" by simp
  qed
  moreover have "(2::rat) ^ Suc ?m / 2 ^ 126 = of_int (2 ^ 24) * f32_ulp a" by (simp add: ua)
  ultimately have "f32_grid a \<le> of_int (2 ^ 24) * f32_ulp a" by (intro f32_grid_le) simp
  also have "\<dots> = 2 ^ Suc ?m / 2 ^ 126" by (simp add: ua)
  also have "\<dots> \<le> 2 ^ ?n / 2 ^ 126"
    using mn by (intro divide_right_mono power_increasing) simp_all
  also have "\<dots> = of_int (2 ^ 23) * f32_ulp b" by (simp add: ub)
  also have "\<dots> \<le> f32_grid b"
  proof (rule f32_grid_ge)
    have "2 ^ ?n / 2 ^ 126 \<le> b" using mn by (intro f32_binade_lower) simp
    then show "of_int (2 ^ 23) * f32_ulp b \<le> b" by (simp add: ub)
  qed
  finally show ?thesis .
qed

lemma f32_grid_mono: "a \<le> b \<Longrightarrow> f32_grid a \<le> f32_grid b"
proof -
  assume le: "a \<le> b"
  have z: "f32_grid 0 = 0" using round_half_even_of_int [of 0] by (simp add: f32_grid_def)
  show ?thesis
  proof (cases "0 \<le> a")
    case True
    with le show ?thesis by (rule f32_grid_mono_pos [rotated])
  next
    case False
    then have a: "f32_grid a \<le> 0"
      using f32_grid_mono_pos [of 0 "- a"] z by (simp add: f32_grid_minus)
    show ?thesis
    proof (cases "0 \<le> b")
      case True
      then show ?thesis using a f32_grid_mono_pos [of 0 b] z by simp
    next
      case False
      then show ?thesis
        using le f32_grid_mono_pos [of "- b" "- a"] by (simp add: f32_grid_minus)
    qed
  qed
qed

lemma f32_round_mono: "a \<le> b \<Longrightarrow> f32_le (f32_round a) (f32_round b)"
  using f32_grid_mono [of a b] by (auto simp: f32_round_grid f32_le_def)

lemma f32_grid_zero [simp]: "f32_grid 0 = 0"
  using round_half_even_of_int [of 0] by (simp add: f32_grid_def)

lemma f32_round_zero [simp]: "f32_round 0 = Fin 0"
  by (simp add: f32_round_grid)

text \<open>A rounded value is a float: rounding it again changes nothing.\<close>

lemma f32_grid_idem_pos:
  assumes "0 \<le> a" and "f32_grid a < 2 ^ 128"
  shows "\<exists>k. f32_grid a = of_int k * f32_ulp (f32_grid a)"
proof -
  let ?g = "f32_grid a" and ?n = "f32_binade 253 a"
  have g: "0 \<le> ?g" using f32_grid_mono_pos [of 0 a] assms(1) by simp
  have u: "f32_ulp a = 2 ^ ?n / 2 ^ 149" using assms(1) by (simp add: f32_ulp_def)
  have ub: "f32_ulp ?g = 2 ^ f32_binade 253 ?g / 2 ^ 149" using g by (simp add: f32_ulp_def)
  show ?thesis
  proof (cases "f32_binade 253 ?g \<le> ?n")
    case True
    then have "f32_ulp a = of_int (2 ^ (?n - f32_binade 253 ?g)) * f32_ulp ?g"
      by (simp add: u ub flip: power_add)
    then have "?g = of_int (round_half_even (a / f32_ulp a) * 2 ^ (?n - f32_binade 253 ?g)) * f32_ulp ?g"
      by (simp add: f32_grid_def)
    then show ?thesis by blast
  next
    case False
    then have lt: "Suc ?n \<le> f32_binade 253 ?g" by simp
    have "?n < 253" using lt f32_binade_le [of 253 ?g] by linarith
    have "a < 2 ^ Suc ?n / 2 ^ 126"
    proof (rule f32_binade_upper)
      have "\<not> 2 ^ Suc 252 / 2 ^ 126 \<le> a"
        using \<open>?n < 253\<close> f32_binade.simps(2) [of 252 a] by (auto simp del: f32_binade.simps power_Suc)
      then show "a < 2 ^ Suc 253 / 2 ^ 126" by simp
    qed
    then have "?g \<le> of_int (2 ^ 24) * f32_ulp a" by (intro f32_grid_le) (simp add: u)
    then have up: "?g \<le> 2 ^ Suc ?n / 2 ^ 126" by (simp add: u)
    have "2 ^ f32_binade 253 ?g / 2 ^ 126 \<le> ?g" using lt by (intro f32_binade_lower) simp
    moreover have "(2::rat) ^ Suc ?n / 2 ^ 126 \<le> 2 ^ f32_binade 253 ?g / 2 ^ 126"
      using lt by (intro divide_right_mono power_increasing) simp_all
    ultimately have "?g = 2 ^ f32_binade 253 ?g / 2 ^ 126" using up by linarith
    also have "\<dots> = of_int (2 ^ 23) * f32_ulp ?g" by (simp add: ub)
    finally show ?thesis by blast
  qed
qed

lemma f32_round_ok: "f32_round a = Fin r \<Longrightarrow> f32_round r = Fin r"
proof -
  assume r: "f32_round a = Fin r"
  then have g: "r = f32_grid a" "f32_grid a < 2 ^ 128" "- (2 ^ 128) < f32_grid a"
    by (auto simp: f32_round_grid split: if_splits)
  have "\<exists>k. r = of_int k * f32_ulp r"
  proof (cases "0 \<le> a")
    case True
    then show ?thesis using f32_grid_idem_pos g by simp
  next
    case False
    then obtain k where "f32_grid (- a) = of_int k * f32_ulp (f32_grid (- a))"
      using f32_grid_idem_pos [of "- a"] g by (auto simp: f32_grid_minus)
    then have "r = of_int (- k) * f32_ulp r"
      using g(1) by (simp add: f32_grid_minus f32_ulp_def)
    then show ?thesis by blast
  qed
  then show ?thesis using g f32_round_exact [of r] by auto
qed

section \<open>Comparison and division\<close>

definition f32_max :: "f32 \<Rightarrow> f32 \<Rightarrow> f32" where
  "f32_max a b = (if f32_lt a b then b else a)"

definition f32_min :: "f32 \<Rightarrow> f32 \<Rightarrow> f32" where
  "f32_min a b = (if f32_lt a b then a else b)"

text \<open>Division by a value that is not a negative zero.\<close>

fun f32_div :: "f32 \<Rightarrow> f32 \<Rightarrow> f32" where
  "f32_div (Fin a) (Fin b) = (if b = 0 then f32_inf a else f32_round (a / b))"
| "f32_div NaN _ = NaN"
| "f32_div _ NaN = NaN"
| "f32_div (Fin a) _ = Fin 0"
| "f32_div a (Fin b) = f32_inf (f32_sgn a * (if b < 0 then -1 else 1))"
| "f32_div _ _ = NaN"

text \<open>\<open>y\<close> lies between \<open>x\<close> and \<open>z\<close>, whichever is the greater.\<close>

definition f32_between :: "f32 \<Rightarrow> f32 \<Rightarrow> f32 \<Rightarrow> bool" where
  "f32_between x y z \<longleftrightarrow> f32_le x y \<and> f32_le y z \<or> f32_le z y \<and> f32_le y x"

lemma f32_max_nonneg: "f32_nonneg a \<Longrightarrow> f32_nonneg (f32_max a b)"
  by (cases a; cases b) (auto simp: f32_max_def)

text \<open>The smaller of a value that is not negative and a positive one, as a share of the latter.\<close>

lemma f32_div_unit:
  assumes "0 \<le> a" and "a \<le> b" and "0 < b"
  shows "\<exists>r. f32_div (Fin a) (Fin b) = Fin r \<and> 0 \<le> r \<and> r \<le> 1"
proof -
  have "0 \<le> a / b" "a / b \<le> 1" using assms by (simp_all add: divide_le_eq)
  then have "f32_le (f32_round 0) (f32_round (a / b))" "f32_le (f32_round (a / b)) (f32_round 1)"
    by (simp_all only: f32_round_mono)
  then show ?thesis
    using assms(3) f32_between_Fin [of 0 "f32_round (a / b)" 1] by (simp add: f32_round_one)
qed

lemma f32_min_share:
  assumes "f32_nonneg a" and "0 < m"
  shows "\<exists>r. f32_div (f32_min a (Fin m)) (Fin m) = Fin r \<and> 0 \<le> r \<and> r \<le> 1"
proof (cases "f32_lt a (Fin m)")
  case True
  with assms(1) obtain x where "a = Fin x" "0 \<le> x" "x < m" by (cases a) auto
  then show ?thesis using True f32_div_unit [of x m] by (simp add: f32_min_def)
next
  case False
  then show ?thesis using assms(2) f32_div_unit [of m m] by (simp add: f32_min_def)
qed

text \<open>A float scaled by a factor of at most one, and added: never past adding the float itself.\<close>

lemma f32_scaled_add_between:
  assumes "f32_ok (Fin p)" and "f32_ok (Fin d)" and "0 \<le> r" and "r \<le> 1"
  shows "f32_between (Fin p) (f32_add (Fin p) (f32_mul (Fin d) (Fin r))) (f32_add (Fin p) (Fin d))"
proof -
  have p: "f32_round p = Fin p" and d: "f32_round d = Fin d" using assms(1,2) by simp_all
  show ?thesis
  proof (cases "0 \<le> d")
    case True
    then have "0 \<le> d * r" "d * r \<le> d" using assms(3,4) by (simp_all add: mult_left_le)
    then have "f32_le (f32_round 0) (f32_round (d * r))" "f32_le (f32_round (d * r)) (f32_round d)"
      by (simp_all only: f32_round_mono)
    then obtain e where e: "f32_round (d * r) = Fin e" "0 \<le> e" "e \<le> d"
      using f32_between_Fin [of 0 "f32_round (d * r)" d] d by auto
    then show ?thesis
      using f32_round_mono [of p "p + e"] f32_round_mono [of "p + e" "p + d"] p by (simp add: f32_between_def)
  next
    case False
    then have "d * r \<le> 0" "d \<le> d * r"
      using assms(3,4) mult_left_mono_neg [of r 1 d] by (simp_all add: mult_nonpos_nonneg)
    then have "f32_le (f32_round (d * r)) (f32_round 0)" "f32_le (f32_round d) (f32_round (d * r))"
      by (simp_all only: f32_round_mono)
    then obtain e where e: "f32_round (d * r) = Fin e" "e \<le> 0" "d \<le> e"
      using f32_between_Fin [of d "f32_round (d * r)" 0] d by auto
    then show ?thesis
      using f32_round_mono [of "p + e" p] f32_round_mono [of "p + d" "p + e"] p by (simp add: f32_between_def)
  qed
qed

end
