(* ===== verification/Puppet_Motion.thy ===== *)
theory Puppet_Motion
  imports Float_Order Puppet_Actor
begin

text \<open>
  What a puppet does in a frame besides choosing its model (\<open>puppets/PuppetActor.cpp\<close>,
  \<open>puppets/PuppetCapActor.cpp\<close>, \<open>puppets/PuppetHackActor.cpp\<close>, \<open>VisualUtils::SmoothMove\<close> of
  \<open>helpers.cpp\<close>): it moves towards the position its slot has, plays the slot's actions on the current model
  and its parts, moves the cap, and hands its pose to the model. The engine's animations are a parameter with
  a state of its own, as are its interpolations and the trigonometry of rotations.
\<close>

section \<open>Smooth movement\<close>

definition k_MinSmoothSpeed :: f32 where
  "k_MinSmoothSpeed = f32_lit (1 / 10)"

definition k_TargetCatchupTime :: f32 where
  "k_TargetCatchupTime = f32_lit (2 / 10)"

definition vec_add :: "Vector3f \<Rightarrow> Vector3f \<Rightarrow> Vector3f" where
  "vec_add a b =
     \<lparr>v_x = f32_add (v_x a) (v_x b), v_y = f32_add (v_y a) (v_y b), v_z = f32_add (v_z a) (v_z b)\<rparr>"

definition vec_scale :: "Vector3f \<Rightarrow> f32 \<Rightarrow> Vector3f" where
  "vec_scale v t = \<lparr>v_x = f32_mul (v_x v) t, v_y = f32_mul (v_y v) t, v_z = f32_mul (v_z v) t\<rparr>"

text \<open>The position: \<open>posDiffMag\<close> is the square of the distance.\<close>

definition smooth_dist :: "f32 \<Rightarrow> f32 \<Rightarrow> f32 \<Rightarrow> f32 \<times> f32" where
  "smooth_dist timeDelta closingSpeed posDiffMag =
     (let diffSpeed = f32_max k_MinSmoothSpeed (f32_div posDiffMag k_TargetCatchupTime);
          closingSpeed = f32_max closingSpeed diffSpeed;
          maxMove = f32_mul timeDelta closingSpeed
      in (f32_min maxMove posDiffMag, closingSpeed))"

definition smooth_position :: "f32 \<Rightarrow> f32 \<Rightarrow> Vector3f \<Rightarrow> Vector3f \<Rightarrow> Vector3f \<times> f32" where
  "smooth_position timeDelta closingSpeed target pos =
     (let posDiff = vec_sub target pos;
          posDiffMag = vec_dot posDiff posDiff
      in if f32_lt (Fin 0) posDiffMag
         then (case smooth_dist timeDelta closingSpeed posDiffMag of (moveDist, closingSpeed) \<Rightarrow>
                 (vec_add pos (vec_scale posDiff (f32_div moveDist posDiffMag)),
                  if f32_eq moveDist posDiffMag then Fin 0 else closingSpeed))
         else (pos, Fin 0))"

text \<open>The rotation: \<open>quatAngle\<close> and \<open>slerpTo\<close> rest on the trigonometry of the C library.\<close>

record quat_ops =
  qo_angle :: "Quatf \<Rightarrow> Quatf \<Rightarrow> f32"
  qo_slerp :: "Quatf \<Rightarrow> Quatf \<Rightarrow> f32 \<Rightarrow> Quatf"

definition smooth_rotation :: "quat_ops \<Rightarrow> f32 \<Rightarrow> f32 \<Rightarrow> Quatf \<Rightarrow> Quatf \<Rightarrow> Quatf" where
  "smooth_rotation q timeDelta maxAngularSpeed target rot =
     (let angleDiff = qo_angle q target rot
      in if f32_lt (Fin 0) angleDiff
         then let maxAngleMove = f32_mul timeDelta maxAngularSpeed;
                  angleMove = f32_min maxAngleMove angleDiff
              in qo_slerp q rot target (f32_div angleMove angleDiff)
         else rot)"

definition SmoothMove ::
  "quat_ops \<Rightarrow> Vector3f \<times> Quatf \<Rightarrow> Vector3f \<times> Quatf \<Rightarrow> f32 \<Rightarrow> f32 \<Rightarrow> f32 \<Rightarrow> (Vector3f \<times> Quatf) \<times> f32" where
  "SmoothMove q move target timeDelta closingSpeed maxAngularSpeed =
     (case smooth_position timeDelta closingSpeed (fst target) (fst move) of (pos, closingSpeed) \<Rightarrow>
        ((pos, smooth_rotation q timeDelta maxAngularSpeed (snd target) (snd move)), closingSpeed))"

section \<open>Smooth movement never goes past its target\<close>

lemma smooth_dist_unit:
  assumes "f32_nonneg timeDelta" and "f32_nonneg closingSpeed" and "0 < m"
  shows "\<exists>r. f32_div (fst (smooth_dist timeDelta closingSpeed (Fin m))) (Fin m) = Fin r \<and> 0 \<le> r \<and> r \<le> 1"
  unfolding smooth_dist_def Let_def fst_conv
  by (intro f32_min_share f32_mul_nonneg f32_max_nonneg assms)

text \<open>A vector of floats, and one that is finite.\<close>

definition vec_ok :: "Vector3f \<Rightarrow> bool" where
  "vec_ok v \<longleftrightarrow> f32_ok (v_x v) \<and> f32_ok (v_y v) \<and> f32_ok (v_z v)"

definition vec_finite :: "Vector3f \<Rightarrow> bool" where
  "vec_finite v \<longleftrightarrow> v_x v \<in> range Fin \<and> v_y v \<in> range Fin \<and> v_z v \<in> range Fin"

definition vec_between :: "Vector3f \<Rightarrow> Vector3f \<Rightarrow> Vector3f \<Rightarrow> bool" where
  "vec_between a b c \<longleftrightarrow>
     f32_between (v_x a) (v_x b) (v_x c) \<and> f32_between (v_y a) (v_y b) (v_y c) \<and> f32_between (v_z a) (v_z b) (v_z c)"

lemma f32_sub_ok: "f32_sub a b = Fin d \<Longrightarrow> f32_ok (Fin d)"
  by (cases a; cases b) (auto simp: f32_sub_def dest: f32_round_ok)

lemma scaled_component:
  assumes "f32_ok p" and "p \<in> range Fin" and "f32_sub t p \<in> range Fin" and "0 \<le> r" and "r \<le> 1"
  shows "f32_between p (f32_add p (f32_mul (f32_sub t p) (Fin r))) (f32_add p (f32_sub t p))"
proof -
  obtain x d where x: "p = Fin x" "f32_sub t p = Fin d" using assms(2,3) by auto
  show ?thesis
    unfolding x(2) unfolding x(1)
    using assms(1) f32_sub_ok [OF x(2)] assms(4,5) by (intro f32_scaled_add_between) (simp_all add: x(1))
qed

lemma still_component:
  assumes "p \<in> range Fin" and "f32_sub t p \<in> range Fin"
  shows "f32_between p p (f32_add p (f32_sub t p))"
proof -
  obtain x d where x: "p = Fin x" "f32_sub t p = Fin d" using assms by auto
  show ?thesis unfolding x(2) unfolding x(1) by (auto simp: f32_between_def f32_round_grid)
qed

lemma f32_lt_trans_Fin: "f32_lt (Fin a) b \<Longrightarrow> 0 \<le> a \<Longrightarrow> f32_lt (Fin 0) b"
  by (cases b) auto

lemma k_MinSmoothSpeed_pos: "\<exists>k. k_MinSmoothSpeed = Fin k \<and> 0 < k"
proof -
  have "f32_ulp (1 / 16) = 1 / 2 ^ 27" using f32_ulp_eqI [of 121 "1 / 16"] by simp
  then have "f32_round (1 / 16) = Fin (1 / 16)" using f32_round_exact [of "1 / 16" "2 ^ 23"] by simp
  then have "f32_le (Fin (1 / 16)) k_MinSmoothSpeed" "f32_le k_MinSmoothSpeed (Fin 1)"
    using f32_round_mono [of "1 / 16" "1 / 10"] f32_round_mono [of "1 / 10" 1]
    by (simp_all add: k_MinSmoothSpeed_def f32_lit_def f32_round_one)
  from f32_between_Fin [OF this] show ?thesis by force
qed

lemma smooth_speed_pos: "snd (smooth_dist timeDelta closingSpeed m) \<noteq> Fin 0"
proof -
  obtain k where k: "k_MinSmoothSpeed = Fin k" "0 < k" using k_MinSmoothSpeed_pos by blast
  have p: "f32_lt (Fin 0) (f32_max k_MinSmoothSpeed x)" for x
    using f32_lt_trans_Fin [of k x] k(2) by (auto simp: f32_max_def k(1))
  have "f32_max c y \<noteq> Fin 0" if "f32_lt (Fin 0) y" for c y
    using that by (cases "f32_lt c y") (auto simp: f32_max_def)
  then show ?thesis using p by (simp add: smooth_dist_def Let_def)
qed

lemma f32_mul_one: "f32_ok (Fin d) \<Longrightarrow> f32_mul (Fin d) (Fin 1) = Fin d"
  by simp

lemma vec_scale_one: "vec_finite (vec_sub a b) \<Longrightarrow> vec_scale (vec_sub a b) (Fin 1) = vec_sub a b"
  using f32_sub_ok f32_mul_one by (auto simp: vec_scale_def vec_sub_def vec_finite_def)

lemma smooth_position_between:
  assumes "vec_ok pos" and "vec_finite pos" and "vec_finite (vec_sub target pos)"
    and "vec_dot (vec_sub target pos) (vec_sub target pos) = Fin m"
    and "f32_nonneg timeDelta" and "f32_nonneg closingSpeed"
  shows "vec_between pos (fst (smooth_position timeDelta closingSpeed target pos)) (vec_add pos (vec_sub target pos))"
    and "0 < m \<Longrightarrow> snd (smooth_position timeDelta closingSpeed target pos) = Fin 0 \<Longrightarrow>
       fst (smooth_position timeDelta closingSpeed target pos) = vec_add pos (vec_sub target pos)"
proof -
  let ?d = "vec_sub target pos"
  let ?move = "smooth_dist timeDelta closingSpeed (Fin m)"
  let ?new = "smooth_position timeDelta closingSpeed target pos"
  have "vec_between pos (fst ?new) (vec_add pos ?d) \<and> (0 < m \<and> snd ?new = Fin 0 \<longrightarrow> fst ?new = vec_add pos ?d)"
  proof (cases "0 < m")
    case True
    obtain r where r: "f32_div (fst ?move) (Fin m) = Fin r" "0 \<le> r" "r \<le> 1"
      using smooth_dist_unit [OF assms(5,6) True] by blast
    have new: "?new = (vec_add pos (vec_scale ?d (Fin r)), if f32_eq (fst ?move) (Fin m) then Fin 0 else snd ?move)"
      using True assms(4) r(1) by (simp add: smooth_position_def Let_def case_prod_beta)
    have "vec_between pos (vec_add pos (vec_scale ?d (Fin r))) (vec_add pos ?d)"
      using assms(1-3) scaled_component [OF _ _ _ r(2,3)]
      by (simp add: vec_between_def vec_add_def vec_scale_def vec_sub_def vec_ok_def vec_finite_def)
    moreover have "vec_scale ?d (Fin r) = ?d" if "f32_eq (fst ?move) (Fin m)"
    proof -
      have "fst ?move = Fin m" using that by (cases "fst ?move") auto
      then have "r = 1" using r(1) True by (simp add: f32_round_one)
      then show ?thesis using vec_scale_one [OF assms(3)] by simp
    qed
    ultimately show ?thesis using smooth_speed_pos by (simp add: new)
  next
    case False
    then have "fst ?new = pos" using assms(4) by (simp add: smooth_position_def Let_def)
    then show ?thesis
      using assms(2,3) still_component False
      by (simp add: vec_between_def vec_add_def vec_sub_def vec_finite_def)
  qed
  then show "vec_between pos (fst ?new) (vec_add pos ?d)"
    and "0 < m \<Longrightarrow> snd ?new = Fin 0 \<Longrightarrow> fst ?new = vec_add pos ?d" by blast+
qed



text \<open>A step that ends past its target: from \<open>-2 ^ 24\<close> towards \<open>1.5\<close> it can end at \<open>2\<close>.\<close>

lemma f32_round_2_24: "f32_round (16777216 + 3 / 2) = Fin 16777218"
proof -
  have "f32_ulp (16777216 + 3 / 2) = 2" by (subst f32_ulp_eqI [of 149]) simp_all
  moreover have "\<lfloor>33554435 / 4 :: rat\<rfloor> = 8388608" by (rule floor_unique) simp_all
  ultimately show ?thesis by (simp add: f32_round_def round_half_even_def Let_def)
qed

theorem smooth_can_pass_target:
  "f32_add (Fin (- (2 ^ 24))) (f32_sub (Fin (3 / 2)) (Fin (- (2 ^ 24)))) = Fin 2"
proof -
  have "f32_ulp 2 = 1 / 4194304" by (subst f32_ulp_eqI [of 126]) simp_all
  then have "f32_round 2 = Fin 2" using f32_round_exact [of 2 "2 ^ 23"] by simp
  then show ?thesis using f32_round_2_24 by (simp add: add.commute)
qed

section \<open>Actions\<close>

text \<open>The parts of a puppet that play actions: a model, a part of a model, the cap.\<close>

datatype sub_name = Face | Eye | Head | Left_Hand | Right_Hand

datatype part = Whole model | Sub model sub_name | Cap_model

record 's anim_ops =
  ao_isPlaying :: "part \<Rightarrow> string \<Rightarrow> 's \<Rightarrow> bool"
  ao_isEnd :: "part \<Rightarrow> 's \<Rightarrow> bool"
  ao_tryStart :: "part \<Rightarrow> string \<Rightarrow> 's \<Rightarrow> bool \<times> 's"
  ao_actionName :: "part \<Rightarrow> 's \<Rightarrow> string option"
  ao_sklExists :: "part \<Rightarrow> string \<Rightarrow> 's \<Rightarrow> bool"
  ao_clearSkl :: "part \<Rightarrow> 's \<Rightarrow> 's"
  ao_blendWeight :: "model \<Rightarrow> nat \<Rightarrow> f32 \<Rightarrow> 's \<Rightarrow> 's"
  ao_visCapOn :: "model \<Rightarrow> 's \<Rightarrow> 's"
  ao_hasSub :: "model \<Rightarrow> sub_name \<Rightarrow> bool"
  ao_isSubString :: "string \<Rightarrow> string \<Rightarrow> bool"

definition subActorNames :: "sub_name list" where
  "subActorNames = [Face, Eye, Head, Left_Hand, Right_Hand]"

text \<open>The shape all three actors share: an action that starts without a blend from the one before.\<close>

definition play :: "'s anim_ops \<Rightarrow> part \<Rightarrow> string \<Rightarrow> 's \<Rightarrow> 's" where
  "play ops p act s =
     (case ao_tryStart ops p act s of
        (False, s) \<Rightarrow> s
      | (True, s) \<Rightarrow>
          (case ao_actionName ops p s of
             Some n \<Rightarrow> if ao_sklExists ops p n s then ao_clearSkl ops p s else s
           | None \<Rightarrow> s))"

definition play_sub :: "'s anim_ops \<Rightarrow> model \<Rightarrow> sub_name \<Rightarrow> 's \<Rightarrow> 's" where
  "play_sub ops m k s =
     (case ao_actionName ops (Whole m) s of
        None \<Rightarrow> s
      | Some n \<Rightarrow>
          if ao_hasSub ops m k
          then (case ao_tryStart ops (Sub m k) n s of
                  (False, s) \<Rightarrow> s
                | (True, s) \<Rightarrow> if ao_sklExists ops (Whole m) n s then ao_clearSkl ops (Whole m) s else s)
          else s)"

definition play_face :: "'s anim_ops \<Rightarrow> model \<Rightarrow> string \<Rightarrow> 's \<Rightarrow> 's" where
  "play_face ops m act s =
     (if ao_hasSub ops m Face
      then let faceAnim = take 127 (act @ ''FullFace'')
           in (case ao_tryStart ops (Sub m Face) faceAnim s of
                 (False, s) \<Rightarrow> s
               | (True, s) \<Rightarrow>
                   if ao_sklExists ops (Sub m Face) faceAnim s then ao_clearSkl ops (Sub m Face) s else s)
      else s)"

definition startAction :: "'s anim_ops \<Rightarrow> model \<Rightarrow> string \<Rightarrow> 's \<Rightarrow> 's" where
  "startAction ops m act s =
     play_face ops m act (fold (play_sub ops m) subActorNames (play ops (Whole m) act s))"

definition isNeedBlending :: "'s anim_ops \<Rightarrow> model \<Rightarrow> 's \<Rightarrow> bool" where
  "isNeedBlending ops m s =
     (case ao_actionName ops (Whole m) s of
        Some n \<Rightarrow> ao_isSubString ops n ''Move'' \<or> ao_isSubString ops n ''Sand'' \<or> ao_isSubString ops n ''MotorcycleRide''
      | None \<Rightarrow> False)"

definition control_anim :: "'s anim_ops \<Rightarrow> PuppetInfo \<Rightarrow> model \<Rightarrow> 's \<Rightarrow> 's" where
  "control_anim ops info m s =
     (if \<not> ao_isPlaying ops (Whole m) (curSubAnimStr info) s \<or> ao_isEnd ops (Whole m) s
      then startAction ops m (curAnimStr info) s else s)"

definition control_blend :: "'s anim_ops \<Rightarrow> PuppetInfo \<Rightarrow> model \<Rightarrow> 's \<Rightarrow> 's" where
  "control_blend ops info m s =
     (if isNeedBlending ops m s
      then fold (\<lambda>i. ao_blendWeight ops m i (blendWeights info ! i)) [0..<6] s else s)"

text \<open>The visibility animations of a captured enemy: the first of two names that it has, of each kind.\<close>

datatype anim_kind = Vis_anim | Mtp_anim | Mcl_anim

definition startHackAnim :: "(anim_kind \<Rightarrow> string \<Rightarrow> bool) \<Rightarrow> bool \<Rightarrow> (anim_kind \<times> string) list" where
  "startHackAnim has isOn =
     (let animName = (if isOn then ''HackOn'' else ''HackOff'');
          capOffName = (if isOn then ''HackOnCapOff'' else ''HackOffCapOff'')
      in concat (map (\<lambda>k. if has k animName then [(k, animName)]
                          else if has k capOffName then [(k, capOffName)] else [])
           [Vis_anim, Mtp_anim, Mcl_anim]))"

section \<open>A frame of a puppet\<close>

record 's frame_env =
  fe_anim :: "'s anim_ops"
  fe_quat :: quat_ops
  fe_lerpVec :: "Vector3f \<Rightarrow> Vector3f \<Rightarrow> f32 \<Rightarrow> Vector3f"
  fe_lerpValue :: "f32 \<Rightarrow> f32 \<Rightarrow> f32 \<Rightarrow> f32"
  fe_deltaTime :: f32
  fe_tag :: tag_mode
  fe_capControls :: bool

record 's puppet_view =
  pv_puppet :: puppet_actor
  pv_trans :: Vector3f
  pv_quat :: Quatf
  mClosingSpeed :: f32
  mJointRot :: Vector3f
  mSkew :: f32
  pv_pose :: "model \<Rightarrow> Vector3f \<times> Quatf"
  pv_anim :: 's

definition vec_differs :: "Vector3f \<Rightarrow> Vector3f \<Rightarrow> bool" where
  "vec_differs a b \<longleftrightarrow> \<not> (f32_eq (v_x a) (v_x b) \<and> f32_eq (v_y a) (v_y b) \<and> f32_eq (v_z a) (v_z b))"

definition maxAngularSpeed :: f32 where
  "maxAngularSpeed = Fin 1440"

definition control_move :: "'s frame_env \<Rightarrow> PuppetInfo \<Rightarrow> 's puppet_view \<Rightarrow> 's puppet_view" where
  "control_move e info v =
     (if \<not> mIs2DModel (pv_puppet v)
      then (case SmoothMove (fe_quat e) (pv_trans v, pv_quat v) (playerPos info, playerRot info) (fe_deltaTime e)
                   (mClosingSpeed v) maxAngularSpeed of
              ((t, q), speed) \<Rightarrow> v\<lparr>pv_trans := t, pv_quat := q, mClosingSpeed := speed\<rparr>)
      else let t = (if vec_differs (pv_trans v) (playerPos info)
                    then fe_lerpVec e (pv_trans v) (playerPos info) (Fin (1 / 4)) else pv_trans v)
           in v\<lparr>pv_trans := t, pv_quat := playerRot info\<rparr>)"

text \<open>The cap comes back: its actor goes, the sub action starts and the head of the model puts it on.\<close>

definition control_cap_view :: "'s frame_env \<Rightarrow> model \<Rightarrow> PuppetInfo \<Rightarrow> 's puppet_view \<Rightarrow> 's puppet_view" where
  "control_cap_view e curModel info v =
     (let back = (\<not> isCapThrow info \<and> \<not> cap_dead (pv_puppet v));
          v = v\<lparr>pv_puppet := control_cap info (pv_puppet v)\<rparr>
      in if back
         then let s = startAction (fe_anim e) (getCurrentModel (pv_puppet v)) (curSubAnimStr info) (pv_anim v)
              in v\<lparr>pv_anim := (if ao_hasSub (fe_anim e) curModel Head
                               then ao_visCapOn (fe_anim e) curModel s else s)\<rparr>
         else v)"

definition cap_rate :: f32 where
  "cap_rate = f32_lit (45 / 100)"

definition cap_rot_rate :: f32 where
  "cap_rot_rate = f32_lit (85 / 100)"

definition cap_control :: "'s frame_env \<Rightarrow> PuppetInfo \<Rightarrow> 's puppet_view \<Rightarrow> 's puppet_view" where
  "cap_control e info v =
     (let v = v\<lparr>pv_anim := play (fe_anim e) Cap_model (capAnim info) (pv_anim v)\<rparr>;
          t = cap_trans (pv_puppet v);
          t = (if vec_differs t (PuppetInfo.capPos info) then fe_lerpVec e t (PuppetInfo.capPos info) cap_rate else t);
          r = PuppetInfo.capRot info
      in v\<lparr>pv_puppet := (pv_puppet v)\<lparr>cap_trans := t\<rparr>,
           mJointRot := \<lparr>v_x = fe_lerpValue e (v_x (mJointRot v)) (q_x r) cap_rot_rate,
                         v_y = fe_lerpValue e (v_y (mJointRot v)) (q_y r) cap_rot_rate,
                         v_z = fe_lerpValue e (v_z (mJointRot v)) (q_z r) cap_rot_rate\<rparr>,
           mSkew := fe_lerpValue e (mSkew v) (q_w r) cap_rot_rate\<rparr>)"

definition syncPose :: "'s puppet_view \<Rightarrow> 's puppet_view" where
  "syncPose v = v\<lparr>pv_pose := (pv_pose v)(getCurrentModel (pv_puppet v) := (pv_trans v, pv_quat v))\<rparr>"

definition puppet_frame :: "'s frame_env \<Rightarrow> PuppetInfo option \<Rightarrow> 's puppet_view \<Rightarrow> 's puppet_view" where
  "puppet_frame e mInfo v =
     (case mInfo of
        None \<Rightarrow> v
      | Some info \<Rightarrow>
          let curModel = getCurrentModel (pv_puppet v);
              v = v\<lparr>pv_anim := control_anim (fe_anim e) info curModel (pv_anim v)\<rparr>;
              v = v\<lparr>pv_anim := control_blend (fe_anim e) info curModel (pv_anim v)\<rparr>;
              v = control_move e info v;
              v = v\<lparr>pv_puppet := control_model info (pv_puppet v)\<rparr>;
              v = v\<lparr>pv_puppet := control_capture info (pv_puppet v)\<rparr>;
              v = control_cap_view e curModel info v;
              v = v\<lparr>pv_puppet := control_tag (fe_tag e) info (pv_puppet v)\<rparr>;
              v = (if fe_capControls e then cap_control e info v else v)
          in syncPose v)"

section \<open>What a frame leaves\<close>

lemma control_move_puppet [simp]: "pv_puppet (control_move e info v) = pv_puppet v"
  by (simp add: control_move_def Let_def split: prod.splits)

lemma control_cap_view_puppet [simp]:
  "pv_puppet (control_cap_view e m info v) = control_cap info (pv_puppet v)"
  "pv_trans (control_cap_view e m info v) = pv_trans v" "pv_quat (control_cap_view e m info v) = pv_quat v"
  by (simp_all add: control_cap_view_def Let_def)

text \<open>Two actors that differ at most in where the cap is.\<close>

definition same_but_cap :: "puppet_actor \<Rightarrow> puppet_actor \<Rightarrow> bool" where
  "same_but_cap a b \<longleftrightarrow> a\<lparr>cap_trans := cap_trans b\<rparr> = b"

lemma same_but_cap_refl: "same_but_cap a a"
  by (simp add: same_but_cap_def)

lemma cap_control_puppet:
  "same_but_cap (pv_puppet v) (pv_puppet (cap_control e info v))"
  "pv_trans (cap_control e info v) = pv_trans v" "pv_quat (cap_control e info v) = pv_quat v"
  "pv_pose (cap_control e info v) = pv_pose v"
  by (simp_all add: same_but_cap_def cap_control_def Let_def)

lemma pv_pose_steps [simp]:
  "pv_pose (control_move e info v) = pv_pose v" "pv_pose (control_cap_view e m info v) = pv_pose v"
  by (simp_all add: control_move_def control_cap_view_def Let_def split: prod.splits)

lemma getCurrentModel_cap_trans [simp]: "getCurrentModel (a\<lparr>cap_trans := t\<rparr>) = getCurrentModel a"
  by (simp add: getCurrentModel_def split: option.splits)

lemma same_but_cap_model: "same_but_cap a b \<Longrightarrow> getCurrentModel b = getCurrentModel a"
  by (metis getCurrentModel_cap_trans same_but_cap_def)

text \<open>The frame up to the pose: everything but the last step.\<close>

definition before_pose :: "'s frame_env \<Rightarrow> PuppetInfo \<Rightarrow> 's puppet_view \<Rightarrow> 's puppet_view" where
  "before_pose e info v =
     (let curModel = getCurrentModel (pv_puppet v);
          v = v\<lparr>pv_anim := control_blend (fe_anim e) info curModel (control_anim (fe_anim e) info curModel (pv_anim v))\<rparr>;
          v = control_move e info v;
          v = v\<lparr>pv_puppet := control_capture info (control_model info (pv_puppet v))\<rparr>;
          v = control_cap_view e curModel info v;
          v = v\<lparr>pv_puppet := control_tag (fe_tag e) info (pv_puppet v)\<rparr>
      in if fe_capControls e then cap_control e info v else v)"

lemma puppet_frame_before: "puppet_frame e (Some info) v = syncPose (before_pose e info v)"
  by (simp add: puppet_frame_def before_pose_def Let_def)

lemma control_move_anim [simp]:
  "pv_trans (control_move e info (v\<lparr>pv_anim := s\<rparr>)) = pv_trans (control_move e info v)"
  "pv_quat (control_move e info (v\<lparr>pv_anim := s\<rparr>)) = pv_quat (control_move e info v)"
  by (simp_all add: control_move_def Let_def split: prod.splits)

lemma before_pose_spec:
  "same_but_cap (puppet_control (fe_tag e) (Some info) (pv_puppet v)) (pv_puppet (before_pose e info v))"
  "pv_trans (before_pose e info v) = pv_trans (control_move e info v)"
  "pv_quat (before_pose e info v) = pv_quat (control_move e info v)"
  "pv_pose (before_pose e info v) = pv_pose v"
proof -
  let ?w = "control_cap_view e (getCurrentModel (pv_puppet v)) info
    ((control_move e info (v\<lparr>pv_anim := control_blend (fe_anim e) info (getCurrentModel (pv_puppet v))
        (control_anim (fe_anim e) info (getCurrentModel (pv_puppet v)) (pv_anim v))\<rparr>))
     \<lparr>pv_puppet := control_capture info (control_model info (pv_puppet v))\<rparr>)"
  let ?u = "?w\<lparr>pv_puppet := control_tag (fe_tag e) info (pv_puppet ?w)\<rparr>"
  have b: "before_pose e info v = (if fe_capControls e then cap_control e info ?u else ?u)"
    by (simp add: before_pose_def Let_def)
  have u: "pv_puppet ?u = puppet_control (fe_tag e) (Some info) (pv_puppet v)"
    "pv_trans ?u = pv_trans (control_move e info v)" "pv_quat ?u = pv_quat (control_move e info v)"
    "pv_pose ?u = pv_pose v"
    by (simp_all add: puppet_control_def)
  show "same_but_cap (puppet_control (fe_tag e) (Some info) (pv_puppet v)) (pv_puppet (before_pose e info v))"
    using cap_control_puppet(1) [of ?u e info] by (simp only: b u split: if_split) (simp add: same_but_cap_refl)
  show "pv_trans (before_pose e info v) = pv_trans (control_move e info v)"
    "pv_quat (before_pose e info v) = pv_quat (control_move e info v)" "pv_pose (before_pose e info v) = pv_pose v"
    unfolding b by (cases "fe_capControls e"; simp only: cap_control_puppet(2-4) u(2-4) if_True if_False)+
qed

lemma control_move_trans:
  "pv_trans (control_move e info v) =
     (if mIs2DModel (pv_puppet v)
      then if vec_differs (pv_trans v) (playerPos info)
           then fe_lerpVec e (pv_trans v) (playerPos info) (Fin (1 / 4)) else pv_trans v
      else fst (smooth_position (fe_deltaTime e) (mClosingSpeed v) (playerPos info) (pv_trans v)))"
  "pv_quat (control_move e info v) =
     (if mIs2DModel (pv_puppet v) then playerRot info
      else smooth_rotation (fe_quat e) (fe_deltaTime e) maxAngularSpeed (playerRot info) (pv_quat v))"
  by (simp_all add: control_move_def SmoothMove_def Let_def split: prod.splits)

text \<open>The rotation turns by a share of the angle: all of it when the time allows.\<close>

lemma smooth_rotation_share:
  assumes "qo_angle q target rot = Fin angle" and "0 < angle" and "f32_nonneg timeDelta"
  shows "\<exists>r. 0 \<le> r \<and> r \<le> 1 \<and>
    smooth_rotation q timeDelta maxAngularSpeed target rot = qo_slerp q rot target (Fin r) \<and>
    (f32_le (Fin angle) (f32_mul timeDelta (Fin 1440)) \<longrightarrow> r = 1)"
proof -
  let ?move = "f32_mul timeDelta (Fin 1440)"
  have "f32_nonneg ?move" using assms(3) by (intro f32_mul_nonneg) simp_all
  from f32_min_share [OF this assms(2)] obtain r where
    r: "f32_div (f32_min ?move (Fin angle)) (Fin angle) = Fin r" "0 \<le> r" "r \<le> 1" by blast
  have "r = 1" if "f32_le (Fin angle) ?move"
  proof -
    have "f32_min ?move (Fin angle) = Fin angle" using that by (cases ?move) (auto simp: f32_min_def)
    then show ?thesis using r(1) assms(2) by (simp add: f32_round_one)
  qed
  moreover have "smooth_rotation q timeDelta maxAngularSpeed target rot = qo_slerp q rot target (Fin r)"
    using assms(1,2) r(1) by (simp add: smooth_rotation_def maxAngularSpeed_def Let_def)
  ultimately show ?thesis using r by blast
qed

text \<open>
  C13: What a whole frame of a puppet leaves, whatever its animations do. It shows at most one model; capture, 2D
  and cap are as its slot says. That model, and no other, is given the puppet's own position and rotation.
  A puppet that was not in 2D moved, from a position of finite floats, in each coordinate at most by the rounded
  difference to the slot's position, and turned by a share between zero and one of the angle to the slot's
  rotation, all of it when 1440 times the time of the frame reaches the angle. One that was in 2D takes the
  slot's rotation at once and a quarter of the way to its position.
\<close>

theorem puppet_frame_refines:
  assumes "one_model (pv_puppet v)" and "w = puppet_frame e (Some info) v"
    and "vec_ok (pv_trans v)" and "vec_finite (pv_trans v)" and "vec_finite (vec_sub (playerPos info) (pv_trans v))"
    and "vec_dot (vec_sub (playerPos info) (pv_trans v)) (vec_sub (playerPos info) (pv_trans v)) = Fin m"
    and "f32_nonneg (fe_deltaTime e)" and "f32_nonneg (mClosingSpeed v)"
    and "qo_angle (fe_quat e) (playerRot info) (pv_quat v) = Fin angle"
  shows "alive (pv_puppet w) \<subseteq> {getCurrentModel (pv_puppet w)} \<and>
    mIsCaptureModel (pv_puppet w) = isCaptured info \<and> mIs2DModel (pv_puppet w) = is2D info \<and>
    cap_dead (pv_puppet w) = (\<not> isCapThrow info) \<and>
    pv_pose w (getCurrentModel (pv_puppet w)) = (pv_trans w, pv_quat w) \<and>
    (\<forall>k. k \<noteq> getCurrentModel (pv_puppet w) \<longrightarrow> pv_pose w k = pv_pose v k) \<and>
    (\<not> mIs2DModel (pv_puppet v) \<longrightarrow>
       vec_between (pv_trans v) (pv_trans w) (vec_add (pv_trans v) (vec_sub (playerPos info) (pv_trans v))) \<and>
       (if angle \<le> 0 then pv_quat w = pv_quat v
        else \<exists>r. 0 \<le> r \<and> r \<le> 1 \<and> pv_quat w = qo_slerp (fe_quat e) (pv_quat v) (playerRot info) (Fin r) \<and>
               (f32_le (Fin angle) (f32_mul (fe_deltaTime e) (Fin 1440)) \<longrightarrow> r = 1))) \<and>
    (mIs2DModel (pv_puppet v) \<longrightarrow> pv_quat w = playerRot info \<and>
       pv_trans w = (if vec_differs (pv_trans v) (playerPos info)
                     then fe_lerpVec e (pv_trans v) (playerPos info) (Fin (1 / 4)) else pv_trans v))"
proof -
  let ?c = "puppet_control (fe_tag e) (Some info) (pv_puppet v)"
  note b = before_pose_spec [of e info v]
  have w: "w = syncPose (before_pose e info v)" using assms(2) by (simp add: puppet_frame_before)
  have cap: "pv_puppet (before_pose e info v) = ?c\<lparr>cap_trans := cap_trans (pv_puppet (before_pose e info v))\<rparr>"
    using b(1) by (simp add: same_but_cap_def)
  have fields: "pv_puppet w = pv_puppet (before_pose e info v)" "pv_trans w = pv_trans (control_move e info v)"
    "pv_quat w = pv_quat (control_move e info v)"
    "pv_pose w = (pv_pose v)(getCurrentModel (pv_puppet w) := (pv_trans w, pv_quat w))"
    using b(2-4) by (simp_all add: w syncPose_def)
  have puppet: "alive (pv_puppet w) = alive ?c" "getCurrentModel (pv_puppet w) = getCurrentModel ?c"
    "mIsCaptureModel (pv_puppet w) = mIsCaptureModel ?c" "mIs2DModel (pv_puppet w) = mIs2DModel ?c"
    "cap_dead (pv_puppet w) = cap_dead ?c"
    unfolding fields(1) by (subst cap; simp)+
  have one: "one_model ?c" using control_one [OF assms(1)] .
  have flags: "mIsCaptureModel ?c = isCaptured info" "mIs2DModel ?c = is2D info" "cap_dead ?c = (\<not> isCapThrow info)"
    by (simp_all add: puppet_control_def control_tail control_flags)
  have still: "smooth_rotation q t s target rot = rot" if "qo_angle q target rot = Fin angle" "angle \<le> 0" for q t s target rot
    using that by (simp add: smooth_rotation_def)
  show ?thesis
    using one flags puppet fields smooth_position_between(1) [OF assms(3-8)] still [OF assms(9)]
      smooth_rotation_share [OF assms(9) _ assms(7)]
    by (auto simp: one_model_def control_move_trans not_le)
qed

text \<open>A puppet that starts at the origin, with an engine that does nothing, moves towards a slot one unit away.\<close>

definition still_env :: "unit frame_env" where
  "still_env =
     \<lparr>fe_anim = \<lparr>ao_isPlaying = \<lambda>_ _ _. True, ao_isEnd = \<lambda>_ _. False, ao_tryStart = \<lambda>_ _ s. (False, s),
        ao_actionName = \<lambda>_ _. None, ao_sklExists = \<lambda>_ _ _. False, ao_clearSkl = \<lambda>_ s. s,
        ao_blendWeight = \<lambda>_ _ _ s. s, ao_visCapOn = \<lambda>_ s. s, ao_hasSub = \<lambda>_ _. False,
        ao_isSubString = \<lambda>_ _. False\<rparr>,
      fe_quat = \<lparr>qo_angle = \<lambda>_ _. Fin 0, qo_slerp = \<lambda>a _ _. a\<rparr>, fe_lerpVec = \<lambda>a _ _. a,
      fe_lerpValue = \<lambda>a _ _. a, fe_deltaTime = Fin (1 / 2), fe_tag = Tag_other, fe_capControls = False\<rparr>"

definition view0 :: "unit puppet_view" where
  "view0 =
     \<lparr>pv_puppet = puppet_actor_new, pv_trans = Vector3f_zero, pv_quat = Quatf_unit, mClosingSpeed = Fin 0,
      mJointRot = Vector3f_zero, mSkew = Fin 0, pv_pose = (\<lambda>_. (Vector3f_zero, Quatf_unit)), pv_anim = ()\<rparr>"

theorem puppet_frame_refines_witness:
  "\<exists>w. w = puppet_frame still_env (Some (PuppetInfo_new\<lparr>playerPos := \<lparr>v_x = Fin 1, v_y = Fin 0, v_z = Fin 0\<rparr>\<rparr>)) view0 \<and>
     pv_pose w (getCurrentModel (pv_puppet w)) = (pv_trans w, Quatf_unit) \<and>
     f32_between (Fin 0) (v_x (pv_trans w)) (Fin 1)"
proof -
  let ?t = "\<lparr>v_x = Fin 1, v_y = Fin 0, v_z = Fin 0\<rparr>"
  let ?info = "PuppetInfo_new\<lparr>playerPos := ?t\<rparr>"
  have one: "one_model (pv_puppet view0)" by (simp add: view0_def one_model_def puppet_actor_new_def)
  have d: "vec_sub (playerPos ?info) (pv_trans view0) = ?t" "vec_dot ?t ?t = Fin 1"
    by (simp_all add: view0_def vec_sub_def vec_dot_def Vector3f_zero_def f32_round_one)
  have "vec_ok (pv_trans view0)" "vec_finite (pv_trans view0)" "vec_finite ?t"
    by (simp_all add: view0_def vec_ok_def vec_finite_def Vector3f_zero_def)
  moreover have "f32_nonneg (fe_deltaTime still_env)" "f32_nonneg (mClosingSpeed view0)"
    "qo_angle (fe_quat still_env) (playerRot ?info) (pv_quat view0) = Fin 0"
    by (simp_all add: still_env_def view0_def)
  moreover have "\<not> mIs2DModel (pv_puppet view0)" "pv_quat view0 = Quatf_unit"
    "v_x (pv_trans view0) = Fin 0" "v_x (vec_add (pv_trans view0) ?t) = Fin 1"
    by (simp_all add: view0_def puppet_actor_new_def vec_add_def Vector3f_zero_def f32_round_one)
  ultimately show ?thesis
    using puppet_frame_refines [OF one refl, of ?info 1 still_env 0] unfolding d by (simp add: vec_between_def)
qed

end
