(* ===== verification/Tree_Nodes.thy ===== *)
theory Tree_Nodes
  imports Prelude
begin

text \<open>
  \<open>sead/container/seadTreeMap.h\<close>: the sorted map of the engine's library, a left-leaning red-black tree
  whose nodes live in the blocks of a free list (\<open>seadFreeList.h\<close>). The tree is modelled with its colours
  and its rotations; a null pointer is \<open>Null\<close>, and every place where the source goes through a pointer
  without a test is a possible fault. A node's payload is the block it lives in and its value.
\<close>

section \<open>Nodes\<close>

datatype color = Red | Black

datatype ('k, 'p) tnode = Null | TNode color "('k, 'p) tnode" 'k 'p "('k, 'p) tnode"

definition isRed :: "('k, 'p) tnode \<Rightarrow> bool" where
  "isRed t = (case t of Null \<Rightarrow> False | TNode c l k p r \<Rightarrow> c = Red)"

lemma isRed_simps [simp]: "\<not> isRed Null" "isRed (TNode c l k p r) = (c = Red)"
  by (simp_all add: isRed_def)

definition nleft :: "('k, 'p) tnode \<Rightarrow> ('k, 'p) tnode res" where
  "nleft t = (case t of Null \<Rightarrow> Inl NullDeref | TNode c l k p r \<Rightarrow> Inr l)"

definition nright :: "('k, 'p) tnode \<Rightarrow> ('k, 'p) tnode res" where
  "nright t = (case t of Null \<Rightarrow> Inl NullDeref | TNode c l k p r \<Rightarrow> Inr r)"

lemma nleft_simps [simp]: "nleft Null = Inl NullDeref" "nleft (TNode c l k p r) = Inr l"
  by (simp_all add: nleft_def)

lemma nright_simps [simp]: "nright Null = Inl NullDeref" "nright (TNode c l k p r) = Inr r"
  by (simp_all add: nright_def)

text \<open>\<open>TreeMapKeyImpl::compare\<close>.\<close>

definition compare :: "'k::linorder \<Rightarrow> 'k \<Rightarrow> int" where
  "compare lhs rhs = (if lhs < rhs then -1 else if rhs < lhs then 1 else 0)"

lemma compare_simps [simp]:
  "compare a b < 0 \<longleftrightarrow> a < b" "0 < compare a b \<longleftrightarrow> b < a" "compare a b = 0 \<longleftrightarrow> a = b"
  by (auto simp: compare_def)

definition flip :: "color \<Rightarrow> color" where
  "flip c = (case c of Red \<Rightarrow> Black | Black \<Rightarrow> Red)"

definition flipColor :: "('k, 'p) tnode \<Rightarrow> ('k, 'p) tnode res" where
  "flipColor t = (case t of Null \<Rightarrow> Inl NullDeref | TNode c l k p r \<Rightarrow> Inr (TNode (flip c) l k p r))"

definition setColor :: "color \<Rightarrow> ('k, 'p) tnode \<Rightarrow> ('k, 'p) tnode res" where
  "setColor c t = (case t of Null \<Rightarrow> Inl NullDeref | TNode c' l k p r \<Rightarrow> Inr (TNode c l k p r))"

section \<open>Rotations\<close>

definition flipColors :: "('k, 'p) tnode \<Rightarrow> ('k, 'p) tnode res" where
  "flipColors t =
     (case t of
        Null \<Rightarrow> Inl NullDeref
      | TNode c l k p r \<Rightarrow>
          rbind (flipColor l) (\<lambda>l. rbind (flipColor r) (\<lambda>r. Inr (TNode (flip c) l k p r))))"

definition rotateLeft :: "('k, 'p) tnode \<Rightarrow> ('k, 'p) tnode res" where
  "rotateLeft t =
     (case t of
        Null \<Rightarrow> Inl NullDeref
      | TNode c l k p r \<Rightarrow>
          (case r of
             Null \<Rightarrow> Inl NullDeref
           | TNode rc rl rk rp rr \<Rightarrow> Inr (TNode c (TNode Red l k p rl) rk rp rr)))"

definition rotateRight :: "('k, 'p) tnode \<Rightarrow> ('k, 'p) tnode res" where
  "rotateRight t =
     (case t of
        Null \<Rightarrow> Inl NullDeref
      | TNode c l k p r \<Rightarrow>
          (case l of
             Null \<Rightarrow> Inl NullDeref
           | TNode lc ll lk lp lr \<Rightarrow> Inr (TNode c ll lk lp (TNode Red lr k p r))))"

definition moveRedLeft :: "('k, 'p) tnode \<Rightarrow> ('k, 'p) tnode res" where
  "moveRedLeft t =
     rbind (flipColors t) (\<lambda>t.
       case t of
         Null \<Rightarrow> Inl NullDeref
       | TNode c l k p r \<Rightarrow>
           rbind (nleft r) (\<lambda>rl.
             if isRed rl
             then rbind (rotateRight r) (\<lambda>r. rbind (rotateLeft (TNode c l k p r)) flipColors)
             else Inr t))"

definition moveRedRight :: "('k, 'p) tnode \<Rightarrow> ('k, 'p) tnode res" where
  "moveRedRight t =
     rbind (flipColors t) (\<lambda>t.
       rbind (nleft t) (\<lambda>l. rbind (nleft l) (\<lambda>ll.
         if isRed ll then rbind (rotateRight t) flipColors else Inr t)))"

text \<open>What insertion and \<open>fixUp\<close> share: the right rotation and the flip.\<close>

definition left_left_red :: "('k, 'p) tnode \<Rightarrow> bool res" where
  "left_left_red t =
     rbind (nleft t) (\<lambda>l. if isRed l then rbind (nleft l) (\<lambda>ll. Inr (isRed ll)) else Inr False)"

definition flip_if_red :: "('k, 'p) tnode \<Rightarrow> ('k, 'p) tnode res" where
  "flip_if_red t =
     rbind (nleft t) (\<lambda>l. rbind (nright t) (\<lambda>r. if isRed l \<and> isRed r then flipColors t else Inr t))"

definition fix_tail :: "('k, 'p) tnode \<Rightarrow> ('k, 'p) tnode res" where
  "fix_tail t = rbind (left_left_red t) (\<lambda>b. rbind (if b then rotateRight t else Inr t) flip_if_red)"

definition insert_fix :: "('k, 'p) tnode \<Rightarrow> ('k, 'p) tnode res" where
  "insert_fix t =
     rbind (nright t) (\<lambda>r. rbind (if isRed r then nleft t else Inr Null) (\<lambda>l.
       rbind (if isRed r \<and> \<not> isRed l then rotateLeft t else Inr t) fix_tail))"

definition fixUp :: "('k, 'p) tnode \<Rightarrow> ('k, 'p) tnode res" where
  "fixUp t = rbind (nright t) (\<lambda>r. rbind (if isRed r then rotateLeft t else Inr t) fix_tail)"

section \<open>Operations of the tree\<close>

text \<open>Insertion gives the tree and the payload of the node it replaced, if there was one with the key.\<close>

fun insert_node :: "'k::linorder \<Rightarrow> 'p \<Rightarrow> ('k, 'p) tnode \<Rightarrow> (('k, 'p) tnode \<times> 'p list) res" where
  "insert_node k p Null = Inr (TNode Red Null k p Null, [])"
| "insert_node k p (TNode c l x y r) =
     rbind (if compare k x < 0
            then rbind (insert_node k p l) (\<lambda>(l, es). Inr (TNode c l x y r, es))
            else if compare k x > 0
            then rbind (insert_node k p r) (\<lambda>(r, es). Inr (TNode c l x y r, es))
            else Inr (TNode c l k p r, [y]))
       (\<lambda>(t, es). rbind (insert_fix t) (\<lambda>t. Inr (t, es)))"

definition tree_insert :: "'k::linorder \<Rightarrow> 'p \<Rightarrow> ('k, 'p) tnode \<Rightarrow> (('k, 'p) tnode \<times> 'p list) res" where
  "tree_insert k p root =
     rbind (insert_node k p root) (\<lambda>(t, es). rbind (setColor Black t) (\<lambda>t. Inr (t, es)))"

fun tree_find :: "'k::linorder \<Rightarrow> ('k, 'p) tnode \<Rightarrow> ('k \<times> 'p) option" where
  "tree_find k Null = None"
| "tree_find k (TNode c l x y r) =
     (if compare k x < 0 then tree_find k l else if compare k x > 0 then tree_find k r else Some (x, y))"

fun findMin :: "('k, 'p) tnode \<Rightarrow> ('k \<times> 'p) res" where
  "findMin Null = Inl NullDeref"
| "findMin (TNode c l x y r) = (if l \<noteq> Null then findMin l else Inr (x, y))"

fun forEach :: "('k, 'p) tnode \<Rightarrow> ('k \<times> 'p) list" where
  "forEach Null = []"
| "forEach (TNode c l x y r) = forEach l @ (x, y) # forEach r"

text \<open>The rotations keep the number of nodes, which ends the recursions below.\<close>

lemma flipColor_size: "flipColor t = Inr t' \<Longrightarrow> size t' = size t"
  by (auto simp: flipColor_def split: tnode.splits)

lemma flipColors_size: "flipColors t = Inr t' \<Longrightarrow> size t' = size t"
  by (auto simp: flipColors_def flipColor_size elim!: rbind_InrE split: tnode.splits)

lemma rotateLeft_size: "rotateLeft t = Inr t' \<Longrightarrow> size t' = size t"
  by (auto simp: rotateLeft_def split: tnode.splits)

lemma rotateRight_size: "rotateRight t = Inr t' \<Longrightarrow> size t' = size t"
  by (auto simp: rotateRight_def split: tnode.splits)

lemma moveRedLeft_size: "moveRedLeft t = Inr t' \<Longrightarrow> size t' = size t"
  by (auto simp: moveRedLeft_def elim!: rbind_InrE split: tnode.splits if_splits
      dest!: flipColors_size rotateLeft_size rotateRight_size)

lemma moveRedRight_size: "moveRedRight t = Inr t' \<Longrightarrow> size t' = size t"
  by (auto simp: moveRedRight_def elim!: rbind_InrE split: tnode.splits if_splits
      dest!: flipColors_size rotateLeft_size rotateRight_size)

text \<open>The two tests that make a child red before the recursion goes into it.\<close>

definition red_left :: "('k, 'p) tnode \<Rightarrow> ('k, 'p) tnode res" where
  "red_left t =
     rbind (nleft t) (\<lambda>l. if isRed l then Inr t
       else rbind (nleft l) (\<lambda>ll. if isRed ll then Inr t else moveRedLeft t))"

definition red_right :: "('k, 'p) tnode \<Rightarrow> ('k, 'p) tnode res" where
  "red_right t =
     rbind (nright t) (\<lambda>r. if isRed r then Inr t
       else rbind (nleft r) (\<lambda>rl. if isRed rl then Inr t else moveRedRight t))"

lemma red_left_size: "red_left t = Inr t' \<Longrightarrow> size t' = size t"
  by (auto simp: red_left_def moveRedLeft_size elim!: rbind_InrE split: if_splits)

lemma red_right_size: "red_right t = Inr t' \<Longrightarrow> size t' = size t"
  by (auto simp: red_right_def moveRedRight_size elim!: rbind_InrE split: if_splits)

definition lean_right :: "('k, 'p) tnode \<Rightarrow> ('k, 'p) tnode res" where
  "lean_right t = rbind (nleft t) (\<lambda>l. if isRed l then rotateRight t else Inr t)"

lemma lean_right_size: "lean_right t = Inr t' \<Longrightarrow> size t' = size t"
  by (auto simp: lean_right_def rotateRight_size elim!: rbind_InrE split: if_splits)

function eraseMin :: "('k, 'p) tnode \<Rightarrow> ('k, 'p) tnode res" where
  "eraseMin t =
     (case t of
        Null \<Rightarrow> Inl NullDeref
      | TNode c l x y r \<Rightarrow>
          if l = Null then Inr Null
          else (case red_left t of
                  Inl e \<Rightarrow> Inl e
                | Inr t \<Rightarrow>
                    (case t of
                       Null \<Rightarrow> Inl NullDeref
                     | TNode c l x y r \<Rightarrow> rbind (eraseMin l) (\<lambda>l. fixUp (TNode c l x y r)))))"
  by pat_completeness auto
termination
  by (relation "measure size") (auto dest: red_left_size)

function erase_node :: "'k::linorder \<Rightarrow> ('k, 'p) tnode \<Rightarrow> (('k, 'p) tnode \<times> 'p list) res" where
  "erase_node k t =
     (case t of
        Null \<Rightarrow> Inl NullDeref
      | TNode c l x y r \<Rightarrow>
          if compare k x < 0
          then (case red_left t of
                  Inl e \<Rightarrow> Inl e
                | Inr t \<Rightarrow>
                    (case t of
                       Null \<Rightarrow> Inl NullDeref
                     | TNode c l x y r \<Rightarrow>
                         rbind (erase_node k l) (\<lambda>(l, es).
                         rbind (fixUp (TNode c l x y r)) (\<lambda>t. Inr (t, es)))))
          else (case lean_right t of
                  Inl e \<Rightarrow> Inl e
                | Inr t \<Rightarrow>
                    (case t of
                       Null \<Rightarrow> Inl NullDeref
                     | TNode c l x y r \<Rightarrow>
                         if compare k x = 0 \<and> r = Null then Inr (Null, [y])
                         else (case red_right t of
                                 Inl e \<Rightarrow> Inl e
                               | Inr t \<Rightarrow>
                                   (case t of
                                      Null \<Rightarrow> Inl NullDeref
                                    | TNode c l x y r \<Rightarrow>
                                        if compare k x = 0
                                        then rbind (findMin r) (\<lambda>(mk, _).
                                          (case tree_find mk r of
                                             None \<Rightarrow> Inl NullDeref
                                           | Some (tk, tp) \<Rightarrow>
                                               rbind (eraseMin r) (\<lambda>r.
                                               rbind (fixUp (TNode c l tk tp r)) (\<lambda>t. Inr (t, [y])))))
                                        else rbind (erase_node k r) (\<lambda>(r, es).
                                          rbind (fixUp (TNode c l x y r)) (\<lambda>t. Inr (t, es))))))))"
  by pat_completeness auto
termination
  by (relation "measure (\<lambda>(k, t). size t)") (auto dest!: red_left_size red_right_size lean_right_size)

declare eraseMin.simps [simp del] erase_node.simps [simp del]

definition tree_erase :: "'k::linorder \<Rightarrow> ('k, 'p) tnode \<Rightarrow> (('k, 'p) tnode \<times> 'p list) res" where
  "tree_erase k root =
     rbind (erase_node k root) (\<lambda>(t, es).
       if t \<noteq> Null then rbind (setColor Black t) (\<lambda>t. Inr (t, es)) else Inr (t, es))"

section \<open>The invariant\<close>

fun bheight :: "('k, 'p) tnode \<Rightarrow> nat" where
  "bheight Null = 0"
| "bheight (TNode c l k p r) = bheight l + (if c = Black then 1 else 0)"

text \<open>The same number of black nodes on every way down, no red node on the right, no two red in a row.\<close>

fun llrb :: "('k, 'p) tnode \<Rightarrow> bool" where
  "llrb Null \<longleftrightarrow> True"
| "llrb (TNode c l k p r) \<longleftrightarrow>
     llrb l \<and> llrb r \<and> bheight l = bheight r \<and> \<not> isRed r \<and> (c = Red \<longrightarrow> \<not> isRed l)"

lemma neq_Black [simp]: "c \<noteq> Black \<longleftrightarrow> c = Red" "c \<noteq> Red \<longleftrightarrow> c = Black"
  by (cases c; simp)+

lemma flip_simps [simp]: "flip Red = Black" "flip Black = Red"
  by (simp_all add: flip_def)

lemma bheight_0: "llrb t \<Longrightarrow> bheight t = 0 \<Longrightarrow> \<not> isRed t \<Longrightarrow> t = Null"
  by (cases t) auto

lemma bheight_pos: "bheight t \<noteq> 0 \<Longrightarrow> t \<noteq> Null"
  by auto

named_theorems tree_defs \<open>the steps of the tree, unfolded\<close>

lemmas [tree_defs] = flipColor_def setColor_def flipColors_def rotateLeft_def rotateRight_def
  left_left_red_def flip_if_red_def fix_tail_def insert_fix_def fixUp_def

section \<open>Insertion\<close>

text \<open>A red node may have a red left child after an insertion below it: its parent repairs that.\<close>

definition nearly :: "('k, 'p) tnode \<Rightarrow> bool" where
  "nearly t \<longleftrightarrow> (case t of Null \<Rightarrow> True | TNode c l k p r \<Rightarrow>
     llrb l \<and> llrb r \<and> bheight l = bheight r \<and> \<not> isRed r)"

lemma insert_fix_left:
  assumes "llrb r" and "\<not> isRed r" and "bheight l = bheight r" and "nearly l" and "isRed l \<or> llrb l"
    and "c = Red \<Longrightarrow> llrb l"
  shows "\<exists>t. insert_fix (TNode c l k p r) = Inr t \<and> bheight t = bheight l + (if c = Black then 1 else 0) \<and>
    nearly t \<and> (c = Black \<longrightarrow> llrb t) \<and> (isRed t \<or> llrb t) \<and> t \<noteq> Null"
  using assms
  by (cases l; cases "case l of Null \<Rightarrow> Null | TNode _ a _ _ _ \<Rightarrow> a"; cases c; cases r)
    (auto simp: tree_defs nearly_def split: if_splits color.splits)

lemma insert_fix_right:
  assumes "llrb l" and "bheight l = bheight r" and "llrb r" and "c = Red \<Longrightarrow> \<not> isRed l"
  shows "\<exists>t. insert_fix (TNode c l k p r) = Inr t \<and> bheight t = bheight l + (if c = Black then 1 else 0) \<and>
    nearly t \<and> (c = Black \<longrightarrow> llrb t) \<and> (isRed t \<or> llrb t) \<and> t \<noteq> Null"
  using assms
  by (cases r; cases "case r of Null \<Rightarrow> Null | TNode _ a _ _ _ \<Rightarrow> a"; cases c; cases l)
    (auto simp: tree_defs nearly_def split: if_splits color.splits)

lemma llrb_nearly: "llrb t \<Longrightarrow> nearly t"
  by (cases t) (auto simp: nearly_def)

lemma insert_node_inv:
  "llrb t \<Longrightarrow> \<exists>t' es. insert_node k p t = Inr (t', es) \<and> bheight t' = bheight t \<and> t' \<noteq> Null \<and>
     nearly t' \<and> (\<not> isRed t \<longrightarrow> llrb t') \<and> (isRed t' \<or> llrb t')"
proof (induction t)
  case Null
  then show ?case by (simp add: nearly_def)
next
  case (TNode c l x y r)
  note inv = TNode.prems
  consider "k < x" | "x < k" | "k = x" by fastforce
  then show ?case
  proof cases
    case 1
    obtain l' es where l: "insert_node k p l = Inr (l', es)" "bheight l' = bheight l" "nearly l'"
      "\<not> isRed l \<longrightarrow> llrb l'" "isRed l' \<or> llrb l'"
      using TNode.IH(1) inv by auto
    obtain t where "insert_fix (TNode c l' x y r) = Inr t" "bheight t = bheight l' + (if c = Black then 1 else 0)"
      "nearly t" "c = Black \<longrightarrow> llrb t" "isRed t \<or> llrb t" "t \<noteq> Null"
      using insert_fix_left [of r l' c x y] inv l by auto
    then show ?thesis
      using 1 l inv by simp
  next
    case 2
    obtain r' es where r: "insert_node k p r = Inr (r', es)" "bheight r' = bheight r" "llrb r'"
      using TNode.IH(2) inv by auto
    obtain t where "insert_fix (TNode c l x y r') = Inr t" "bheight t = bheight l + (if c = Black then 1 else 0)"
      "nearly t" "c = Black \<longrightarrow> llrb t" "isRed t \<or> llrb t" "t \<noteq> Null"
      using insert_fix_right [of l r' c x y] inv r by auto
    moreover have "\<not> k < x" using 2 by simp
    ultimately show ?thesis
      using 2 r inv by simp
  next
    case 3
    obtain t where "insert_fix (TNode c l k p r) = Inr t" "bheight t = bheight l + (if c = Black then 1 else 0)"
      "nearly t" "c = Black \<longrightarrow> llrb t" "isRed t \<or> llrb t" "t \<noteq> Null"
      using insert_fix_right [of l r c k p] inv by auto
    then show ?thesis
      using 3 inv by simp
  qed
qed

section \<open>Contents\<close>

text \<open>No rotation changes the list of the entries.\<close>

lemma flipColors_forEach: "flipColors t = Inr t' \<Longrightarrow> forEach t' = forEach t"
  by (auto simp: flipColors_def flipColor_def elim!: rbind_InrE split: tnode.splits)

lemma rotateLeft_forEach: "rotateLeft t = Inr t' \<Longrightarrow> forEach t' = forEach t"
  by (auto simp: rotateLeft_def split: tnode.splits)

lemma rotateRight_forEach: "rotateRight t = Inr t' \<Longrightarrow> forEach t' = forEach t"
  by (auto simp: rotateRight_def split: tnode.splits)

lemmas rot_forEach = flipColors_forEach rotateLeft_forEach rotateRight_forEach

lemma moveRedLeft_forEach: "moveRedLeft t = Inr t' \<Longrightarrow> forEach t' = forEach t"
  by (auto simp: moveRedLeft_def elim!: rbind_InrE split: tnode.splits if_splits dest!: rot_forEach)

lemma moveRedRight_forEach: "moveRedRight t = Inr t' \<Longrightarrow> forEach t' = forEach t"
  by (auto simp: moveRedRight_def elim!: rbind_InrE split: if_splits dest!: rot_forEach)

lemma fix_tail_forEach: "fix_tail t = Inr t' \<Longrightarrow> forEach t' = forEach t"
  by (auto simp: fix_tail_def flip_if_red_def elim!: rbind_InrE split: if_splits dest!: rot_forEach)

lemma insert_fix_forEach: "insert_fix t = Inr t' \<Longrightarrow> forEach t' = forEach t"
  by (auto simp: insert_fix_def elim!: rbind_InrE split: if_splits
      dest!: rotateLeft_forEach fix_tail_forEach)

lemma fixUp_forEach: "fixUp t = Inr t' \<Longrightarrow> forEach t' = forEach t"
  by (auto simp: fixUp_def elim!: rbind_InrE split: if_splits dest!: rotateLeft_forEach fix_tail_forEach)

lemma setColor_forEach: "setColor c t = Inr t' \<Longrightarrow> forEach t' = forEach t"
  by (auto simp: setColor_def split: tnode.splits)

lemma red_left_forEach: "red_left t = Inr t' \<Longrightarrow> forEach t' = forEach t"
  by (auto simp: red_left_def moveRedLeft_forEach elim!: rbind_InrE split: if_splits)

lemma red_right_forEach: "red_right t = Inr t' \<Longrightarrow> forEach t' = forEach t"
  by (auto simp: red_right_def moveRedRight_forEach elim!: rbind_InrE split: if_splits)

lemma lean_right_forEach: "lean_right t = Inr t' \<Longrightarrow> forEach t' = forEach t"
  by (auto simp: lean_right_def rotateRight_forEach elim!: rbind_InrE split: if_splits)

text \<open>The keys in order, and what an insertion and an erasure are on the list of the entries.\<close>

definition sorted_keys :: "('k::linorder \<times> 'p) list \<Rightarrow> bool" where
  "sorted_keys es \<longleftrightarrow> sorted_wrt (<) (map fst es)"

definition put_entry :: "'k::linorder \<Rightarrow> 'p \<Rightarrow> ('k \<times> 'p) list \<Rightarrow> ('k \<times> 'p) list" where
  "put_entry k p es = filter (\<lambda>e. fst e < k) es @ (k, p) # filter (\<lambda>e. k < fst e) es"

definition del_entry :: "'k::linorder \<Rightarrow> ('k \<times> 'p) list \<Rightarrow> ('k \<times> 'p) list" where
  "del_entry k es = filter (\<lambda>e. fst e \<noteq> k) es"

definition entry_of :: "'k \<Rightarrow> ('k \<times> 'p) list \<Rightarrow> 'p list" where
  "entry_of k es = map snd (filter (\<lambda>e. fst e = k) es)"

lemma sorted_keys_node [simp]:
  "sorted_keys (as @ (x, y) # bs) \<longleftrightarrow>
     sorted_keys as \<and> sorted_keys bs \<and> (\<forall>e\<in>set as. fst e < x) \<and> (\<forall>e\<in>set bs. x < fst e)"
  by (force simp: sorted_keys_def sorted_wrt_append)

lemma sorted_keys_filter: "sorted_keys es \<Longrightarrow> sorted_keys (filter P es)"
  unfolding sorted_keys_def by (induction es) auto

lemma sorted_put: "sorted_keys es \<Longrightarrow> sorted_keys (put_entry k p es)"
  by (simp add: put_entry_def sorted_keys_filter)

lemma sorted_del: "sorted_keys es \<Longrightarrow> sorted_keys (del_entry k es)"
  by (simp add: del_entry_def sorted_keys_filter)

lemma filter_all: "\<forall>e\<in>set es. P e \<Longrightarrow> filter P es = es"
  by simp

lemma filter_no: "\<forall>e\<in>set es. \<not> P e \<Longrightarrow> filter P es = []"
  by simp

text \<open>In the left part of a sorted list, at its middle entry, and in the right part.\<close>

lemma entries_left:
  assumes "sorted_keys (as @ (x, y) # bs)" and "k < x"
  shows "put_entry k p (as @ (x, y) # bs) = put_entry k p as @ (x, y) # bs"
    and "del_entry k (as @ (x, y) # bs) = del_entry k as @ (x, y) # bs"
    and "entry_of k (as @ (x, y) # bs) = entry_of k as"
proof -
  have b: "k < fst e" "\<not> fst e < k" "fst e \<noteq> k" if "e \<in> set bs" for e
    using assms that by fastforce+
  show "put_entry k p (as @ (x, y) # bs) = put_entry k p as @ (x, y) # bs"
    using assms(2) b by (simp add: put_entry_def less_asym)
  show "del_entry k (as @ (x, y) # bs) = del_entry k as @ (x, y) # bs"
    using assms(2) b by (auto simp: del_entry_def)
  show "entry_of k (as @ (x, y) # bs) = entry_of k as"
    using assms(2) b by (auto simp: entry_of_def)
qed

lemma entries_right:
  assumes "sorted_keys (as @ (x, y) # bs)" and "x < k"
  shows "put_entry k p (as @ (x, y) # bs) = as @ (x, y) # put_entry k p bs"
    and "del_entry k (as @ (x, y) # bs) = as @ (x, y) # del_entry k bs"
    and "entry_of k (as @ (x, y) # bs) = entry_of k bs"
proof -
  have a: "fst e < k" "\<not> k < fst e" "fst e \<noteq> k" if "e \<in> set as" for e
    using assms that by fastforce+
  show "put_entry k p (as @ (x, y) # bs) = as @ (x, y) # put_entry k p bs"
    using assms(2) a by (simp add: put_entry_def less_asym)
  show "del_entry k (as @ (x, y) # bs) = as @ (x, y) # del_entry k bs"
    using assms(2) a by (auto simp: del_entry_def)
  show "entry_of k (as @ (x, y) # bs) = entry_of k bs"
    using assms(2) a by (auto simp: entry_of_def)
qed

lemma entries_here:
  assumes "sorted_keys (as @ (k, y) # bs)"
  shows "put_entry k p (as @ (k, y) # bs) = as @ (k, p) # bs"
    and "del_entry k (as @ (k, y) # bs) = as @ bs"
    and "entry_of k (as @ (k, y) # bs) = [y]"
proof -
  have a: "fst e < k" "\<not> k < fst e" "fst e \<noteq> k" if "e \<in> set as" for e
    using assms that by fastforce+
  have b: "k < fst e" "\<not> fst e < k" "fst e \<noteq> k" if "e \<in> set bs" for e
    using assms that by fastforce+
  show "put_entry k p (as @ (k, y) # bs) = as @ (k, p) # bs"
    using a b by (simp add: put_entry_def)
  show "del_entry k (as @ (k, y) # bs) = as @ bs"
    using a b by (simp add: del_entry_def)
  show "entry_of k (as @ (k, y) # bs) = [y]"
    using a b by (simp add: entry_of_def)
qed

definition keys :: "('k, 'p) tnode \<Rightarrow> 'k set" where
  "keys t = fst ` set (forEach t)"

lemma keys_simps [simp]: "keys Null = {}" "keys (TNode c l x y r) = insert x (keys l \<union> keys r)"
  by (simp_all add: keys_def image_Un)

definition keys_ordered :: "('k::linorder, 'p) tnode \<Rightarrow> bool" where
  "keys_ordered t \<longleftrightarrow> sorted_keys (forEach t)"

lemma keys_ordered_simps [simp]:
  "keys_ordered Null"
  "keys_ordered (TNode c l x y r) \<longleftrightarrow>
     keys_ordered l \<and> keys_ordered r \<and> (\<forall>a\<in>keys l. a < x) \<and> (\<forall>b\<in>keys r. x < b)"
  by (auto simp: keys_ordered_def keys_def sorted_keys_def [of "[]"])

lemma same_entries: "forEach t' = forEach t \<Longrightarrow> keys t' = keys t \<and> keys_ordered t' = keys_ordered t"
  by (simp add: keys_def keys_ordered_def)

lemma entry_of_keys: "entry_of k (forEach t) \<noteq> [] \<longleftrightarrow> k \<in> keys t"
  by (force simp: entry_of_def keys_def filter_empty_conv)

lemma insert_node_contents:
  "sorted_keys (forEach t) \<Longrightarrow> insert_node k p t = Inr (t', es) \<Longrightarrow>
     forEach t' = put_entry k p (forEach t) \<and> es = entry_of k (forEach t)"
proof (induction t arbitrary: t' es)
  case Null
  then show ?case by (auto simp: put_entry_def entry_of_def)
next
  case (TNode c l x y r)
  note s = TNode.prems(1)
  consider "k < x" | "x < k" | "k = x" by fastforce
  then show ?case
  proof cases
    case 1
    obtain l' where "insert_node k p l = Inr (l', es)" "insert_fix (TNode c l' x y r) = Inr t'"
      using TNode.prems(2) 1 by (auto elim!: rbind_InrE)
    then show ?thesis
      using TNode.IH(1) [of l' es] insert_fix_forEach [of "TNode c l' x y r" t'] s
        entries_left [OF s [simplified forEach.simps] 1] by simp
  next
    case 2
    obtain r' where "insert_node k p r = Inr (r', es)" "insert_fix (TNode c l x y r') = Inr t'"
      using TNode.prems(2) 2 less_not_sym [OF 2] by (auto elim!: rbind_InrE)
    then show ?thesis
      using TNode.IH(2) [of r' es] insert_fix_forEach [of "TNode c l x y r'" t'] s
        entries_right [OF s [simplified forEach.simps] 2] by simp
  next
    case 3
    have "insert_fix (TNode c l k p r) = Inr t'" "es = [y]"
      using TNode.prems(2) 3 by (auto elim!: rbind_InrE)
    then show ?thesis
      using insert_fix_forEach [of "TNode c l k p r" t'] s
        entries_here [of "forEach l" k y "forEach r"] 3 by simp
  qed
qed

lemma tree_find_contents:
  "sorted_keys (forEach t) \<Longrightarrow>
     (case tree_find k t of None \<Rightarrow> entry_of k (forEach t) = []
      | Some (k', p) \<Rightarrow> k' = k \<and> entry_of k (forEach t) = [p])"
proof (induction t)
  case Null
  then show ?case by (simp add: entry_of_def)
next
  case (TNode c l x y r)
  note s = TNode.prems(1)
  consider "k < x" | "x < k" | "k = x" by fastforce
  then show ?case
  proof cases
    case 1
    then show ?thesis
      using TNode.IH(1) s entries_left(3) [OF s [simplified forEach.simps] 1] 1
      by (auto split: option.splits)
  next
    case 2
    then show ?thesis
      using TNode.IH(2) s less_not_sym [OF 2] entries_right(3) [OF s [simplified forEach.simps] 2] 2
      by (auto split: option.splits)
  next
    case 3
    then show ?thesis
      using s entries_here(3) [of "forEach l" k y "forEach r"] by simp
  qed
qed

section \<open>Erasure\<close>

text \<open>
  The recursion goes into a tree that is red or has a red left child (\<open>pre\<close>); on the right there is one
  more shape, a black node whose only red child is its right one (\<open>leaning\<close>), which \<open>moveRedRight\<close> leaves.
  What comes back is a tree of the same height, not redder than before (\<open>post\<close>).
\<close>

definition pre :: "('k, 'p) tnode \<Rightarrow> bool" where
  "pre t \<longleftrightarrow> llrb t \<and> (case t of Null \<Rightarrow> False | TNode c l x y r \<Rightarrow> c = Red \<or> isRed l)"

definition leaning :: "('k, 'p) tnode \<Rightarrow> bool" where
  "leaning t \<longleftrightarrow> (case t of Null \<Rightarrow> False | TNode c l x y r \<Rightarrow>
     c = Black \<and> llrb l \<and> llrb r \<and> bheight l = bheight r \<and> \<not> isRed l \<and> isRed r)"

definition post :: "('k, 'p) tnode \<Rightarrow> ('k, 'p) tnode \<Rightarrow> bool" where
  "post t t' \<longleftrightarrow> llrb t' \<and> bheight t' = bheight t \<and> (isRed t' \<longrightarrow> isRed t)"

lemma pre_red: "llrb t \<Longrightarrow> isRed t \<Longrightarrow> pre t"
  by (cases t) (auto simp: pre_def)

text \<open>What a child must give back for the parent's \<open>fixUp\<close> to succeed.\<close>

definition fixes_left :: "('k, 'p) tnode \<Rightarrow> ('k, 'p) tnode \<Rightarrow> bool" where
  "fixes_left t u \<longleftrightarrow> (case u of Null \<Rightarrow> False | TNode c l x y r \<Rightarrow>
     \<forall>l'. post l l' \<longrightarrow> (\<exists>t'. fixUp (TNode c l' x y r) = Inr t' \<and> post t t'))"

definition fixes_right :: "('k, 'p) tnode \<Rightarrow> ('k, 'p) tnode \<Rightarrow> bool" where
  "fixes_right t u \<longleftrightarrow> (case u of Null \<Rightarrow> False | TNode c l x y r \<Rightarrow>
     \<forall>r' x y. post r r' \<longrightarrow> (\<exists>t'. fixUp (TNode c l x y r') = Inr t' \<and> post t t'))"

text \<open>\<open>fixUp\<close> over a pair of black children, a red left child, a red right child and two red children.\<close>

lemma fixUp_plain:
  assumes "\<not> isRed r" and "l \<noteq> Null \<longrightarrow> c = Red \<longrightarrow> \<not> isRed l" and "llrb l"
  shows "fixUp (TNode c l x y r) = Inr (TNode c l x y r)"
  using assms by (cases l; cases "case l of Null \<Rightarrow> Null | TNode _ a _ _ _ \<Rightarrow> a") (auto simp: tree_defs)

lemma fixUp_right_red:
  assumes "llrb l" and "llrb r" and "bheight l = bheight r" and "\<not> isRed l" and "isRed r"
  shows "\<exists>t'. fixUp (TNode Black l x y r) = Inr t' \<and> llrb t' \<and> bheight t' = bheight l + 1 \<and> \<not> isRed t'"
  using assms by (cases r) (auto simp: tree_defs)

lemma fixUp_both_red:
  assumes "llrb l" and "llrb r" and "bheight l = bheight r" and "isRed l" and "isRed r"
  shows "\<exists>t'. fixUp (TNode Black l x y r) = Inr t' \<and> llrb t' \<and> bheight t' = bheight l + 1"
  using assms by (cases l; cases r) (auto simp: tree_defs)

lemma fixUp_black:
  assumes "llrb l" and "llrb r" and "bheight l = bheight r"
  shows "\<exists>t'. fixUp (TNode Black l x y r) = Inr t' \<and> llrb t' \<and> bheight t' = bheight l + 1 \<and>
    (isRed t' \<longrightarrow> isRed l \<and> isRed r)"
proof (cases "isRed r")
  case True
  then show ?thesis
    using fixUp_right_red [of l r x y] fixUp_both_red [of l r x y] assms by (cases "isRed l") auto
next
  case False
  then show ?thesis
    using fixUp_plain [of r l Black x y] assms by simp
qed

lemma fixUp_red:
  assumes "llrb l" and "llrb r" and "bheight l = bheight r" and "\<not> isRed l" and "\<not> isRed r"
  shows "fixUp (TNode Red l x y r) = Inr (TNode Red l x y r)"
  using fixUp_plain [of r l Red x y] assms by simp

lemma fixes_left_black:
  assumes "llrb r" and "bheight l = bheight r" and "bheight t = bheight l + 1" and "isRed t \<or> \<not> isRed r"
  shows "fixes_left t (TNode Black l x y r)"
proof -
  have "\<exists>t'. fixUp (TNode Black l' x y r) = Inr t' \<and> post t t'" if "post l l'" for l'
    using fixUp_black [of l' r x y] assms that by (auto simp: post_def)
  then show ?thesis by (simp add: fixes_left_def)
qed

lemma fixes_left_red:
  assumes "llrb r" and "bheight l = bheight r" and "bheight t = bheight l" and "\<not> isRed l" and "\<not> isRed r"
    and "isRed t"
  shows "fixes_left t (TNode Red l x y r)"
proof -
  have "\<exists>t'. fixUp (TNode Red l' x y r) = Inr t' \<and> post t t'" if "post l l'" for l'
    using fixUp_red [of l' r x y] assms that by (auto simp: post_def)
  then show ?thesis by (simp add: fixes_left_def)
qed

lemma fixes_rightE:
  assumes "fixes_right t (TNode c l x y r)" and "post r r'"
  obtains t' where "fixUp (TNode c l x' y' r') = Inr t'" and "post t t'"
  using assms unfolding fixes_right_def tnode.case by blast

lemma fixes_right_black:
  assumes "llrb l" and "bheight l = bheight r" and "bheight t = bheight l + 1" and "isRed t \<or> \<not> isRed l"
  shows "fixes_right t (TNode Black l x y r)"
proof -
  have "\<exists>t'. fixUp (TNode Black l x y r') = Inr t' \<and> post t t'" if "post r r'" for r' x y
    using fixUp_black [of l r' x y] assms that by (auto simp: post_def)
  then show ?thesis by (simp add: fixes_right_def)
qed

lemma fixes_right_red:
  assumes "llrb l" and "bheight l = bheight r" and "bheight t = bheight l" and "\<not> isRed l" and "\<not> isRed r"
    and "isRed t"
  shows "fixes_right t (TNode Red l x y r)"
proof -
  have "\<exists>t'. fixUp (TNode Red l x y r') = Inr t' \<and> post t t'" if "post r r'" for r' x y
    using fixUp_red [of l r' x y] assms that by (auto simp: post_def)
  then show ?thesis by (simp add: fixes_right_def)
qed

lemma black_node:
  assumes "llrb t" and "\<not> isRed t" and "bheight t \<noteq> 0"
  obtains l x y r where "t = TNode Black l x y r" and "llrb l" and "llrb r" and "bheight l = bheight r"
    and "\<not> isRed r"
  using assms by (cases t) auto

lemma red_left_spec:
  assumes "pre (TNode c l x y r)" and "l \<noteq> Null"
  obtains c2 l2 x2 y2 r2 where "red_left (TNode c l x y r) = Inr (TNode c2 l2 x2 y2 r2)" and "pre l2"
    and "fixes_left (TNode c l x y r) (TNode c2 l2 x2 y2 r2)" and "set (forEach l) \<subseteq> set (forEach l2)"
proof (cases "isRed l")
  case True
  then have c: "c = Black" "llrb l" "llrb r" "bheight l = bheight r" "\<not> isRed r"
    using assms by (auto simp: pre_def)
  show ?thesis
    by (rule that [of c l x y r]) (use True c pre_red [of l] in \<open>simp_all add: red_left_def fixes_left_black\<close>)
next
  case False
  then have c: "c = Red" "llrb l" "llrb r" "bheight l = bheight r" "\<not> isRed r"
    using assms by (auto simp: pre_def)
  then have h: "bheight l \<noteq> 0" "bheight r \<noteq> 0"
    using bheight_0 [of l] False assms(2) by auto
  obtain ll lx ly lr where l: "l = TNode Black ll lx ly lr" "llrb ll" "llrb lr" "bheight ll = bheight lr" "\<not> isRed lr"
    using black_node [of l] False c h by blast
  obtain rl rx ry rr where r: "r = TNode Black rl rx ry rr" "llrb rl" "llrb rr" "bheight rl = bheight rr" "\<not> isRed rr"
    using black_node [of r] c h by blast
  have rlr: "bheight rl = bheight lr" using c(4) l r by simp
  show ?thesis
  proof (cases "isRed ll")
    case True
    show ?thesis
      by (rule that [of c l x y r])
        (use True c l r rlr in \<open>simp_all add: red_left_def pre_def fixes_left_red\<close>)
  next
    case ll: False
    show ?thesis
    proof (cases "isRed rl")
      case True
      then obtain rll rlx rly rlr where rl: "rl = TNode Red rll rlx rly rlr" by (cases rl) auto
      have e: "red_left (TNode c l x y r) =
          Inr (TNode Red (TNode Black (TNode Red ll lx ly lr) x y rll) rlx rly (TNode Black rlr rx ry rr))"
        using c(1) l r rl ll by (simp add: red_left_def moveRedLeft_def tree_defs)
      have i: "set (forEach l) \<subseteq> set (forEach (TNode Black (TNode Red ll lx ly lr) x y rll))"
        using l(1) by auto
      show ?thesis
        by (rule that [OF e _ _ i]) (use c l r rl rlr ll in \<open>simp_all add: pre_def fixes_left_red\<close>)
    next
      case False
      have e: "red_left (TNode c l x y r) = Inr (TNode Black (TNode Red ll lx ly lr) x y (TNode Red rl rx ry rr))"
        using c(1) l r ll False by (simp add: red_left_def moveRedLeft_def tree_defs)
      show ?thesis
        by (rule that [OF e]) (use c l r rlr ll False in \<open>simp_all add: pre_def fixes_left_black\<close>)
    qed
  qed
qed

text \<open>
  The right side: after \<open>lean_right\<close> a right child that is not red sits below a red node with a black
  left child, so that \<open>moveRedRight\<close> finds what it needs.
\<close>

lemma lean_right_spec:
  assumes "pre (TNode c l x y r) \<or> leaning (TNode c l x y r)"
  obtains (red) l2 x2 y2 r2 where "lean_right (TNode c l x y r) = Inr (TNode Black l2 x2 y2 r2)" and "pre r2"
      and "isRed r2" and "fixes_right (TNode c l x y r) (TNode Black l2 x2 y2 r2)"
      and "x = x2 \<or> x \<in> keys r2"
    | (plain) "lean_right (TNode c l x y r) = Inr (TNode c l x y r)" and "c = Red" and "llrb l" and "llrb r"
      and "bheight l = bheight r" and "\<not> isRed l" and "\<not> isRed r"
proof (cases "isRed l")
  case True
  then have c: "c = Black" "llrb l" "llrb r" "bheight l = bheight r" "\<not> isRed r"
    using assms by (auto simp: pre_def leaning_def)
  obtain ll lx ly lr where l: "l = TNode Red ll lx ly lr" "llrb ll" "llrb lr" "bheight ll = bheight lr"
      "\<not> isRed lr" "\<not> isRed ll" "bheight lr = bheight r"
    using True c by (cases l) auto
  have e: "lean_right (TNode c l x y r) = Inr (TNode Black ll lx ly (TNode Red lr x y r))"
    using l c by (simp add: lean_right_def tree_defs)
  show ?thesis
    by (rule red [OF e]) (use l c in \<open>simp_all add: pre_def fixes_right_black\<close>)
next
  case False
  then have e: "lean_right (TNode c l x y r) = Inr (TNode c l x y r)" by (simp add: lean_right_def)
  show ?thesis
  proof (cases "c = Red")
    case True
    show ?thesis
      by (rule plain [OF e True]) (use True False assms in \<open>auto simp: pre_def leaning_def\<close>)
  next
    case n: False
    then have c: "c = Black" "llrb l" "llrb r" "bheight l = bheight r" "isRed r"
      using False assms by (auto simp: pre_def leaning_def)
    show ?thesis
      by (rule red [of l x y r]) (use e c False pre_red [of r] in \<open>simp_all add: fixes_right_black\<close>)
  qed
qed

lemma red_right_spec:
  assumes "llrb l" and "llrb r" and "bheight l = bheight r" and "\<not> isRed l" and "\<not> isRed r" and "r \<noteq> Null"
  obtains (same) c2 l2 r2 where "red_right (TNode Red l x y r) = Inr (TNode c2 l2 x y r2)"
      and "fixes_right (TNode Red l x y r) (TNode c2 l2 x y r2)" and "pre r2"
    | (turned) l2 x2 y2 l3 r3 where
        "red_right (TNode Red l x y r) = Inr (TNode Red l2 x2 y2 (TNode Black l3 x y r3))"
      and "fixes_right (TNode Red l x y r) (TNode Red l2 x2 y2 (TNode Black l3 x y r3))"
      and "leaning (TNode Black l3 x y r3)"
proof -
  have h: "bheight l \<noteq> 0" "bheight r \<noteq> 0"
    using bheight_0 [of r] assms by auto
  obtain ll lx ly lr where l: "l = TNode Black ll lx ly lr" "llrb ll" "llrb lr" "bheight ll = bheight lr" "\<not> isRed lr"
    using black_node [of l] assms h by blast
  obtain rl rx ry rr where r: "r = TNode Black rl rx ry rr" "llrb rl" "llrb rr" "bheight rl = bheight rr" "\<not> isRed rr"
    using black_node [of r] assms h by blast
  have rlr: "bheight rl = bheight lr" using assms l r by simp
  show ?thesis
  proof (cases "isRed rl")
    case True
    show ?thesis
      by (rule same [of Red l r]) (use True assms l r in \<open>simp_all add: red_right_def pre_def fixes_right_red\<close>)
  next
    case rl: False
    show ?thesis
    proof (cases "isRed ll")
      case False
      have e: "red_right (TNode Red l x y r) = Inr (TNode Black (TNode Red ll lx ly lr) x y (TNode Red rl rx ry rr))"
        using l r rl False by (simp add: red_right_def moveRedRight_def tree_defs)
      show ?thesis
        by (rule same [OF e]) (use l r rl rlr False in \<open>simp_all add: pre_def fixes_right_black\<close>)
    next
      case True
      then obtain lll llx lly llr where ll: "ll = TNode Red lll llx lly llr" by (cases ll) auto
      have e: "red_right (TNode Red l x y r) = Inr (TNode Red (TNode Black lll llx lly llr) lx ly
          (TNode Black lr x y (TNode Red rl rx ry rr)))"
        using l r rl ll by (simp add: red_right_def moveRedRight_def tree_defs)
      show ?thesis
        by (rule turned [OF e]) (use l r rl rlr ll in \<open>simp_all add: leaning_def fixes_right_red\<close>)
    qed
  qed
qed

section \<open>Erasing the minimum\<close>

lemma findMin_hd: "t \<noteq> Null \<Longrightarrow> findMin t = Inr (hd (forEach t))"
proof (induction t)
  case (TNode c l x y r)
  then show ?case by (cases l) (auto simp: hd_append split: list.splits)
qed simp

lemma eraseMin_spec: "pre t \<Longrightarrow> \<exists>t'. eraseMin t = Inr t' \<and> post t t' \<and> forEach t' = tl (forEach t)"
proof (induction "size t" arbitrary: t rule: less_induct)
  case less
  obtain c l x y r where t: "t = TNode c l x y r"
    using less.prems by (cases t) (auto simp: pre_def)
  show ?case
  proof (cases "l = Null")
    case True
    then have "r = Null" "c = Red"
      using less.prems t bheight_0 [of r] by (auto simp: pre_def)
    then show ?thesis
      using True t by (simp add: eraseMin.simps post_def)
  next
    case False
    obtain c2 l2 x2 y2 r2 where rl: "red_left t = Inr (TNode c2 l2 x2 y2 r2)" "pre l2"
      "fixes_left t (TNode c2 l2 x2 y2 r2)"
      using red_left_spec less.prems t False by metis
    obtain l' where l': "eraseMin l2 = Inr l'" "post l2 l'" "forEach l' = tl (forEach l2)"
      using less.hyps [of l2] rl red_left_size [OF rl(1)] by auto
    obtain t' where t': "fixUp (TNode c2 l' x2 y2 r2) = Inr t'" "post t t'"
      using rl(3) l'(2) by (auto simp: fixes_left_def)
    have "eraseMin t = Inr t'"
      unfolding t eraseMin.simps [of "TNode c l x y r"] using False rl(1) l'(1) t'(1) t by simp
    moreover have "forEach l2 \<noteq> []"
      using rl(2) by (cases l2) (auto simp: pre_def)
    then have "forEach t' = tl (forEach t)"
      using fixUp_forEach [OF t'(1)] red_left_forEach [OF rl(1), symmetric] l'(3)
      by (cases "forEach l2") auto
    ultimately show ?thesis
      using t'(2) by simp
  qed
qed

section \<open>Erasing a key\<close>

text \<open>The list facts, as facts of a node.\<close>

lemma node_left:
  assumes "keys_ordered (TNode c l x y r)" and "k < x"
  shows "del_entry k (forEach (TNode c l x y r)) = del_entry k (forEach l) @ (x, y) # forEach r"
    and "entry_of k (forEach (TNode c l x y r)) = entry_of k (forEach l)"
  using entries_left(2,3) [of "forEach l" x y "forEach r" k] assms
  by (simp_all only: keys_ordered_def forEach.simps)

lemma node_right:
  assumes "keys_ordered (TNode c l x y r)" and "x < k"
  shows "del_entry k (forEach (TNode c l x y r)) = forEach l @ (x, y) # del_entry k (forEach r)"
    and "entry_of k (forEach (TNode c l x y r)) = entry_of k (forEach r)"
  using entries_right(2,3) [of "forEach l" x y "forEach r" k] assms
  by (simp_all only: keys_ordered_def forEach.simps)

lemma node_here:
  assumes "keys_ordered (TNode c l k y r)"
  shows "del_entry k (forEach (TNode c l k y r)) = forEach l @ forEach r"
    and "entry_of k (forEach (TNode c l k y r)) = [y]"
  using entries_here(2,3) [of "forEach l" k y "forEach r"] assms
  by (simp_all only: keys_ordered_def forEach.simps)

lemma find_min:
  assumes "keys_ordered r" and "r \<noteq> Null"
  obtains mk mp where "findMin r = Inr (mk, mp)" and "tree_find mk r = Some (mk, mp)"
    and "(mk, mp) # tl (forEach r) = forEach r"
proof -
  have n: "forEach r \<noteq> []" using assms(2) by (cases r) auto
  obtain mk mp where m: "hd (forEach r) = (mk, mp)" by (cases "hd (forEach r)") auto
  have e: "(mk, mp) # tl (forEach r) = forEach r"
    using n m by (metis list.collapse)
  have "entry_of mk (forEach r) = [mp]"
    using entries_here(3) [of "[]" mk mp "tl (forEach r)"] assms(1) e by (simp add: keys_ordered_def)
  then have "tree_find mk r = Some (mk, mp)"
    using tree_find_contents [of r mk] assms(1) by (auto simp: keys_ordered_def split: option.splits)
  then show ?thesis
    using that findMin_hd [OF assms(2)] m e by simp
qed

text \<open>The last step on the right, once the right child is one the recursion may go into.\<close>

definition erase_right :: "'k::linorder \<Rightarrow> ('k, 'p) tnode \<Rightarrow> (('k, 'p) tnode \<times> 'p list) res" where
  "erase_right k t =
     (case t of
        Null \<Rightarrow> Inl NullDeref
      | TNode c l x y r \<Rightarrow>
          if compare k x = 0
          then rbind (findMin r) (\<lambda>(mk, _).
            (case tree_find mk r of
               None \<Rightarrow> Inl NullDeref
             | Some (tk, tp) \<Rightarrow>
                 rbind (eraseMin r) (\<lambda>r.
                 rbind (fixUp (TNode c l tk tp r)) (\<lambda>t. Inr (t, [y])))))
          else rbind (erase_node k r) (\<lambda>(r, es).
            rbind (fixUp (TNode c l x y r)) (\<lambda>t. Inr (t, es))))"

lemma erase_right_min:
  assumes "fixes_right t (TNode c l k y r)" and "pre r" and "keys_ordered (TNode c l k y r)"
  shows "\<exists>t'. erase_right k (TNode c l k y r) = Inr (t', entry_of k (forEach (TNode c l k y r))) \<and>
    post t t' \<and> forEach t' = del_entry k (forEach (TNode c l k y r))"
proof -
  have n: "r \<noteq> Null" using assms(2) by (auto simp: pre_def)
  obtain mk mp where m: "findMin r = Inr (mk, mp)" "tree_find mk r = Some (mk, mp)"
      "(mk, mp) # tl (forEach r) = forEach r"
    using find_min [of r] assms(3) n by auto
  obtain r' where r': "eraseMin r = Inr r'" "post r r'" "forEach r' = tl (forEach r)"
    using eraseMin_spec [OF assms(2)] by blast
  obtain t' where t': "fixUp (TNode c l mk mp r') = Inr t'" "post t t'"
    using assms(1) r'(2) by (rule fixes_rightE)
  have "forEach t' = forEach l @ forEach r"
    using fixUp_forEach [OF t'(1)] r'(3) m(3) by simp
  then show ?thesis
    using m(1,2) r'(1) t' node_here [OF assms(3)] by (simp add: erase_right_def)
qed

lemma erase_right_below:
  assumes "fixes_right t (TNode c l x y r)" and "x < k" and "keys_ordered (TNode c l x y r)"
    and "\<exists>r'. erase_node k r = Inr (r', entry_of k (forEach r)) \<and> post r r' \<and> forEach r' = del_entry k (forEach r)"
  shows "\<exists>t'. erase_right k (TNode c l x y r) = Inr (t', entry_of k (forEach (TNode c l x y r))) \<and>
    post t t' \<and> forEach t' = del_entry k (forEach (TNode c l x y r))"
proof -
  obtain r' where r': "erase_node k r = Inr (r', entry_of k (forEach r))" "post r r'"
      "forEach r' = del_entry k (forEach r)"
    using assms(4) by blast
  obtain t' where t': "fixUp (TNode c l x y r') = Inr t'" "post t t'"
    using assms(1) r'(2) by (rule fixes_rightE)
  have "k \<noteq> x" using assms(2) by simp
  then show ?thesis
    using t' r' fixUp_forEach [OF t'(1)] node_right [OF assms(3,2)] by (simp add: erase_right_def)
qed

lemma erase_node_left:
  assumes "k < x" and "red_left (TNode c l x y r) = Inr (TNode c2 l2 x2 y2 r2)"
    and "erase_node k l2 = Inr (l', es)" and "fixUp (TNode c2 l' x2 y2 r2) = Inr t'"
  shows "erase_node k (TNode c l x y r) = Inr (t', es)"
  using assms by (simp add: erase_node.simps [of k "TNode c l x y r"])

lemma erase_node_right:
  assumes "\<not> k < x" and "lean_right (TNode c l x y r) = Inr (TNode c1 l1 x1 y1 r1)" and "r1 \<noteq> Null"
    and "red_right (TNode c1 l1 x1 y1 r1) = Inr t2"
  shows "erase_node k (TNode c l x y r) = erase_right k t2"
  using assms by (cases t2) (simp_all add: erase_node.simps [of k "TNode c l x y r"] erase_right_def)

lemma erase_node_spec:
  "pre t \<or> leaning t \<and> (\<exists>l x y r. t = TNode Black l x y r \<and> x \<le> k) \<Longrightarrow> keys_ordered t \<Longrightarrow> k \<in> keys t \<Longrightarrow>
   \<exists>t'. erase_node k t = Inr (t', entry_of k (forEach t)) \<and> post t t' \<and> forEach t' = del_entry k (forEach t)"
proof (induction "size t" arbitrary: t rule: less_induct)
  case less
  obtain c l x y r where t: "t = TNode c l x y r"
    using less.prems by (cases t) auto
  have o: "keys_ordered (TNode c l x y r)" using less.prems(2) t by simp
  show ?case
  proof (cases "k < x")
    case True
    then have "pre t" and kl: "k \<in> keys l"
      using less.prems t by auto
    then have "l \<noteq> Null" by auto
    then obtain c2 l2 x2 y2 r2 where rl: "red_left t = Inr (TNode c2 l2 x2 y2 r2)" "pre l2"
        "fixes_left t (TNode c2 l2 x2 y2 r2)" "set (forEach l) \<subseteq> set (forEach l2)"
      using red_left_spec \<open>pre t\<close> t by metis
    have e: "forEach (TNode c2 l2 x2 y2 r2) = forEach t" by (rule red_left_forEach [OF rl(1)])
    then have o2: "keys_ordered (TNode c2 l2 x2 y2 r2)" using o t same_entries by metis
    have k2: "k \<in> keys l2" using kl rl(4) by (auto simp: keys_def)
    then have "k < x2" using o2 by simp
    obtain l' where l': "erase_node k l2 = Inr (l', entry_of k (forEach l2))" "post l2 l'"
        "forEach l' = del_entry k (forEach l2)"
      using less.hyps [of l2] rl(2) o2 k2 red_left_size [OF rl(1)] by auto
    obtain t' where t': "fixUp (TNode c2 l' x2 y2 r2) = Inr t'" "post t t'"
      using rl(3) l'(2) by (auto simp: fixes_left_def)
    have "erase_node k t = Inr (t', entry_of k (forEach l2))"
      unfolding t by (rule erase_node_left [OF True rl(1) [unfolded t] l'(1) t'(1)])
    then show ?thesis
      using t'(2) fixUp_forEach [OF t'(1)] l'(3) node_left [OF o2 \<open>k < x2\<close>] e by simp
  next
    case False
    have "pre (TNode c l x y r) \<or> leaning (TNode c l x y r)" using less.prems(1) t by blast
    then show ?thesis
    proof (cases rule: lean_right_spec)
      case (red l2 x2 y2 r2)
      have e: "forEach (TNode Black l2 x2 y2 r2) = forEach t"
        using lean_right_forEach [OF red(1)] t by simp
      have o2: "keys_ordered (TNode Black l2 x2 y2 r2)"
        using less.prems(2) same_entries [OF e] by simp
      have kt: "k \<in> keys (TNode Black l2 x2 y2 r2)"
        using less.prems(3) same_entries [OF e] by simp
      have "r2 \<noteq> Null" using red(3) by auto
      then have er: "erase_node k t = erase_right k (TNode Black l2 x2 y2 r2)"
        unfolding t by (rule erase_node_right [OF False red(1)]) (simp_all add: red_right_def red(3))
      have "x2 \<le> k"
        using red(5) o2 False by fastforce
      then consider "k = x2" | "x2 < k" by fastforce
      then show ?thesis
      proof cases
        case 1
        show ?thesis
          using erase_right_min [of t Black l2 k y2 r2] red(2,4) o2 1 t er e by simp
      next
        case 2
        have "k \<in> keys r2" using kt o2 2 by fastforce
        moreover have "size r2 < size t" using lean_right_size [OF red(1)] t by simp
        ultimately have "\<exists>r'. erase_node k r2 = Inr (r', entry_of k (forEach r2)) \<and> post r2 r' \<and>
            forEach r' = del_entry k (forEach r2)"
          using less.hyps [of r2] red(2) o2 by simp
        then show ?thesis
          using erase_right_below [of t Black l2 x2 y2 r2 k] red(4) o2 2 t er e by simp
      qed
    next
      case plain
      have kr: "k = x \<or> x < k \<and> k \<in> keys r"
        using False less.prems(3) o t by fastforce
      show ?thesis
      proof (cases "r = Null")
        case True
        then have "k = x" "l = Null"
          using kr plain bheight_0 [of l] by auto
        then show ?thesis
          using True plain(1,2) t
          by (simp add: erase_node.simps [of x "TNode Red Null x y Null"] post_def del_entry_def entry_of_def)
      next
        case rn: False
        have er: "erase_node k t = erase_right k t2" if "red_right (TNode Red l x y r) = Inr t2" for t2
          unfolding t using erase_node_right [OF False plain(1) rn] plain(2) that by simp
        show ?thesis
        proof (cases rule: red_right_spec [OF plain(3,4,5,6,7) rn, of x y, consumes 0, case_names same turned])
          case (same c2 l2 r2)
          have e: "forEach (TNode c2 l2 x y r2) = forEach t"
            using red_right_forEach [OF same(1)] t by simp
          have o2: "keys_ordered (TNode c2 l2 x y r2)"
            using less.prems(2) same_entries [OF e] by simp
          have kt: "k \<in> keys (TNode c2 l2 x y r2)"
            using less.prems(3) same_entries [OF e] by simp
          from kr consider "k = x" | "x < k" by blast
          then show ?thesis
          proof cases
            case 1
            show ?thesis
              using erase_right_min [of t c2 l2 k y r2] same o2 1 t er [OF same(1)] e plain(2) by simp
          next
            case 2
            have "k \<in> keys r2" using kt o2 2 by fastforce
            moreover have "size r2 < size t" using red_right_size [OF same(1)] t by simp
            ultimately have "\<exists>r'. erase_node k r2 = Inr (r', entry_of k (forEach r2)) \<and> post r2 r' \<and>
                forEach r' = del_entry k (forEach r2)"
              using less.hyps [of r2] same(3) o2 by simp
            then show ?thesis
              using erase_right_below [of t c2 l2 x y r2 k] same(2) o2 2 t er [OF same(1)] e plain(2) by simp
          qed
        next
          case (turned l2 x2 y2 l3 r3)
          let ?r = "TNode Black l3 x y r3"
          have e: "forEach (TNode Red l2 x2 y2 ?r) = forEach t"
            using red_right_forEach [OF turned(1)] t by (simp only: forEach.simps)
          have o2: "keys_ordered (TNode Red l2 x2 y2 ?r)"
            using less.prems(2) same_entries [OF e] by simp
          have kt: "k \<in> keys (TNode Red l2 x2 y2 ?r)"
            using less.prems(3) same_entries [OF e] by simp
          have xk: "x2 < x" "x \<le> k" using o2 kr by auto
          then have "x2 < k" by (rule less_le_trans)
          then have "k \<in> keys ?r" using kt o2 by fastforce
          moreover have "size ?r < size t" using red_right_size [OF turned(1)] t by simp
          moreover have "\<exists>l' x' y' r'. ?r = TNode Black l' x' y' r' \<and> x' \<le> k" using xk by blast
          moreover have "keys_ordered ?r" using o2 unfolding keys_ordered_simps by blast
          ultimately have "\<exists>r'. erase_node k ?r = Inr (r', entry_of k (forEach ?r)) \<and> post ?r r' \<and>
              forEach r' = del_entry k (forEach ?r)"
            using less.hyps [of ?r] turned(3) by blast
          then show ?thesis
            using erase_right_below [of t Red l2 x2 y2 ?r k] turned(2) o2 \<open>x2 < k\<close> t er [OF turned(1)] e plain(2)
            by (simp only:)
        qed
      qed
    qed
  qed
qed

text \<open>No step looks at the colour of the node it starts from: the colour only moves along.\<close>

definition toggle :: "('k, 'p) tnode \<Rightarrow> ('k, 'p) tnode" where
  "toggle t = (case t of Null \<Rightarrow> Null | TNode c l x y r \<Rightarrow> TNode (flip c) l x y r)"

definition rtoggle :: "('k, 'p) tnode res \<Rightarrow> ('k, 'p) tnode res" where
  "rtoggle t = rbind t (\<lambda>t. Inr (toggle t))"

lemma flip_flip [simp]: "flip (flip c) = c"
  by (cases c) simp_all

lemma toggle_simps [simp]: "toggle Null = Null" "toggle (TNode c l x y r) = TNode (flip c) l x y r"
  by (simp_all add: toggle_def)

lemma toggle_inv: "toggle (toggle t) = t" "forEach (toggle t) = forEach t" "toggle t = Null \<longleftrightarrow> t = Null"
  by (cases t; simp)+

lemma toggle_child [simp]: "nleft (toggle t) = nleft t" "nright (toggle t) = nright t"
  by (cases t; simp)+

lemma rtoggle_simps [simp]: "rtoggle (Inr t) = Inr (toggle t)" "rtoggle (Inl e) = Inl e"
  by (simp_all add: rtoggle_def)

lemma rtoggle_bind: "rtoggle (rbind a f) = rbind a (\<lambda>x. rtoggle (f x))"
  by (cases a) (simp_all add: rtoggle_def)

lemma rbind_toggle: "rbind (rtoggle a) f = rbind a (\<lambda>x. f (toggle x))"
  by (cases a) (simp_all add: rtoggle_def)

lemma flipColors_toggle: "flipColors (toggle t) = rtoggle (flipColors t)"
  by (cases t) (simp_all add: flipColors_def rtoggle_bind)

lemma rotate_toggle: "rotateLeft (toggle t) = rtoggle (rotateLeft t)" "rotateRight (toggle t) = rtoggle (rotateRight t)"
  by (cases t; simp add: rotateLeft_def rotateRight_def split: tnode.split)+

lemma if_toggle:
  "(if b then rtoggle u else Inr (toggle t)) = rtoggle (if b then u else Inr t)"
  "(if b then Inr (toggle t) else rtoggle u) = rtoggle (if b then Inr t else u)"
  by simp_all

lemma flip_if_red_toggle: "flip_if_red (toggle t) = rtoggle (flip_if_red t)"
  by (simp add: flip_if_red_def flipColors_toggle rtoggle_bind if_toggle cong: if_cong)

lemma fix_tail_toggle: "fix_tail (toggle t) = rtoggle (fix_tail t)"
  by (simp add: fix_tail_def left_left_red_def rotate_toggle rtoggle_bind if_toggle rbind_toggle flip_if_red_toggle cong: if_cong)

lemma fixUp_toggle: "fixUp (toggle t) = rtoggle (fixUp t)"
  by (simp add: fixUp_def rotate_toggle rtoggle_bind if_toggle rbind_toggle fix_tail_toggle cong: if_cong)

lemma moveRed_toggle:
  "moveRedLeft (toggle t) = rtoggle (moveRedLeft t)" "moveRedRight (toggle t) = rtoggle (moveRedRight t)"
proof -
  have a: "rotateLeft (TNode (flip c) l x y r) = rtoggle (rotateLeft (TNode c l x y r))"
    for c x y and l r :: "('a, 'b) tnode"
    using rotate_toggle(1) [of "TNode c l x y r"] by simp
  have g: "(case toggle u of
         Null \<Rightarrow> Inl NullDeref
       | TNode c l k p r \<Rightarrow>
           rbind (nleft r) (\<lambda>rl.
             if isRed rl
             then rbind (rotateRight r) (\<lambda>r. rbind (rotateLeft (TNode c l k p r)) flipColors)
             else Inr (toggle u))) = rtoggle (case u of
         Null \<Rightarrow> Inl NullDeref
       | TNode c l k p r \<Rightarrow>
           rbind (nleft r) (\<lambda>rl.
             if isRed rl
             then rbind (rotateRight r) (\<lambda>r. rbind (rotateLeft (TNode c l k p r)) flipColors)
             else Inr u))" for u :: "('a, 'b) tnode"
    by (cases u) (simp_all add: rtoggle_bind rbind_toggle a flipColors_toggle if_distrib [of rtoggle] cong: if_cong)
  show "moveRedLeft (toggle t) = rtoggle (moveRedLeft t)"
    unfolding moveRedLeft_def flipColors_toggle rbind_toggle g rtoggle_bind ..
  show "moveRedRight (toggle t) = rtoggle (moveRedRight t)"
    by (simp add: moveRedRight_def flipColors_toggle rotate_toggle rtoggle_bind rbind_toggle
        if_distrib [of rtoggle] cong: if_cong)
qed

lemma red_left_toggle: "red_left (toggle t) = rtoggle (red_left t)"
  by (simp add: red_left_def rtoggle_bind moveRed_toggle if_distrib [of rtoggle] cong: if_cong)

lemma red_right_toggle: "red_right (toggle t) = rtoggle (red_right t)"
  by (simp add: red_right_def rtoggle_bind moveRed_toggle if_distrib [of rtoggle] cong: if_cong)

lemma lean_right_toggle: "lean_right (toggle t) = rtoggle (lean_right t)"
  by (simp add: lean_right_def rtoggle_bind rotate_toggle if_toggle cong: if_cong)

definition etoggle :: "(('k, 'p) tnode \<times> 'p list) res \<Rightarrow> (('k, 'p) tnode \<times> 'p list) res" where
  "etoggle e = rbind e (\<lambda>(t, es). Inr (toggle t, es))"

lemma etoggle_simps [simp]: "etoggle (Inr (t, es)) = Inr (toggle t, es)" "etoggle (Inl e) = Inl e"
  by (simp_all add: etoggle_def)

lemma etoggle_bind: "etoggle (rbind a f) = rbind a (\<lambda>x. etoggle (f x))"
  by (cases a) (simp_all add: etoggle_def)

lemma fixUp_etoggle:
  "rbind (fixUp (TNode (flip c) l x y r)) (\<lambda>t. Inr (t, es)) =
   etoggle (rbind (fixUp (TNode c l x y r)) (\<lambda>t. Inr (t, es)))"
  using fixUp_toggle [of "TNode c l x y r"] by (simp add: etoggle_bind rbind_toggle)

definition erase_left :: "'k::linorder \<Rightarrow> ('k, 'p) tnode \<Rightarrow> (('k, 'p) tnode \<times> 'p list) res" where
  "erase_left k t =
     (case t of
        Null \<Rightarrow> Inl NullDeref
      | TNode c l x y r \<Rightarrow> rbind (erase_node k l) (\<lambda>(l, es).
          rbind (fixUp (TNode c l x y r)) (\<lambda>t. Inr (t, es))))"

definition erase_lean :: "'k::linorder \<Rightarrow> ('k, 'p) tnode \<Rightarrow> (('k, 'p) tnode \<times> 'p list) res" where
  "erase_lean k t =
     (case t of
        Null \<Rightarrow> Inl NullDeref
      | TNode c l x y r \<Rightarrow>
          if compare k x = 0 \<and> r = Null then Inr (Null, [y]) else rbind (red_right t) (erase_right k))"

lemma erase_left_toggle: "erase_left k (toggle t) = etoggle (erase_left k t)"
  by (cases t) (simp_all add: erase_left_def etoggle_bind fixUp_etoggle case_prod_unfold)

lemma erase_right_toggle: "erase_right k (toggle t) = etoggle (erase_right k t)"
  by (cases t) (simp_all add: erase_right_def etoggle_bind fixUp_etoggle case_prod_unfold
      if_distrib [of etoggle] option.case_distrib [of etoggle] cong: if_cong option.case_cong)

lemma erase_lean_toggle: "erase_lean k (toggle t) = etoggle (erase_lean k t)"
  using red_right_toggle [of t]
  by (cases t) (auto simp: erase_lean_def etoggle_bind rbind_toggle erase_right_toggle)

lemma erase_node_eq:
  "erase_node k (TNode c l x y r) =
     (if k < x then rbind (red_left (TNode c l x y r)) (erase_left k)
      else rbind (lean_right (TNode c l x y r)) (erase_lean k))"
proof (cases "k < x")
  case True
  then show ?thesis
    by (cases "red_left (TNode c l x y r)")
      (auto simp: erase_node.simps [of k "TNode c l x y r"] erase_left_def split: tnode.split)
next
  case False
  then show ?thesis
    by (cases "lean_right (TNode c l x y r)")
      (auto simp: erase_node.simps [of k "TNode c l x y r"] erase_lean_def erase_right_def rbind_def
        split: tnode.split sum.split)
qed

lemma erase_node_toggle: "erase_node k (toggle t) = etoggle (erase_node k t)"
proof (cases t)
  case Null
  then show ?thesis by (simp add: erase_node.simps)
next
  case (TNode c l x y r)
  then show ?thesis
    using red_left_toggle [of t] lean_right_toggle [of t]
    by (simp add: erase_node_eq etoggle_bind rbind_toggle erase_left_toggle erase_lean_toggle)
qed

section \<open>The operations from the root\<close>

text \<open>What the map keeps: a black root over a proper tree with its keys in order.\<close>

definition tree_ok :: "('k::linorder, 'p) tnode \<Rightarrow> bool" where
  "tree_ok t \<longleftrightarrow> llrb t \<and> \<not> isRed t \<and> keys_ordered t"

lemma setColor_ok:
  assumes "llrb t" and "keys_ordered t" and "t \<noteq> Null"
  obtains t' where "setColor Black t = Inr t'" and "tree_ok t'" and "forEach t' = forEach t"
  using assms by (cases t) (auto simp: setColor_def tree_ok_def)

lemma tree_insert_spec:
  assumes "tree_ok t"
  shows "\<exists>t'. tree_insert k p t = Inr (t', entry_of k (forEach t)) \<and> tree_ok t' \<and>
    forEach t' = put_entry k p (forEach t)"
proof -
  obtain t1 es where n: "insert_node k p t = Inr (t1, es)" "t1 \<noteq> Null" "llrb t1"
    using insert_node_inv [of t k p] assms by (auto simp: tree_ok_def)
  have c: "forEach t1 = put_entry k p (forEach t)" "es = entry_of k (forEach t)"
    using insert_node_contents [OF _ n(1)] assms by (simp_all add: tree_ok_def keys_ordered_def)
  have "keys_ordered t1"
    using assms by (simp add: tree_ok_def keys_ordered_def c(1) sorted_put)
  then obtain t2 where "setColor Black t1 = Inr t2" "tree_ok t2" "forEach t2 = forEach t1"
    using setColor_ok n by metis
  then show ?thesis
    using n(1) c by (simp add: tree_insert_def)
qed

lemma setColor_toggle: "setColor c (toggle t) = setColor c t"
  by (cases t) (simp_all add: setColor_def)

text \<open>A black root with two black children is erased from as if it were red, up to the colour.\<close>

lemma erase_root:
  assumes "tree_ok t" and "k \<in> keys t"
  obtains t' u where "erase_node k t = Inr (t', entry_of k (forEach t))" and "t' = u \<or> t' = toggle u"
    and "llrb u" and "forEach u = del_entry k (forEach t)"
proof -
  obtain l x y r where t: "t = TNode Black l x y r"
    using assms by (cases t) (auto simp: tree_ok_def)
  show ?thesis
  proof (cases "isRed l")
    case True
    then have "pre t" using assms t by (simp add: tree_ok_def pre_def)
    then show ?thesis
      using erase_node_spec [of t k] assms that by (auto simp: tree_ok_def post_def)
  next
    case False
    let ?u = "TNode Red l x y r"
    have "pre ?u" "keys_ordered ?u" "k \<in> keys ?u" "forEach ?u = forEach t"
      using False assms t by (simp_all add: tree_ok_def pre_def)
    then obtain u' where u: "erase_node k ?u = Inr (u', entry_of k (forEach t))" "post ?u u'"
        "forEach u' = del_entry k (forEach t)"
      using erase_node_spec [of ?u k] by auto
    have "erase_node k t = Inr (toggle u', entry_of k (forEach t))"
      using erase_node_toggle [of k ?u] u(1) t by simp
    then show ?thesis
      using that u(2,3) by (auto simp: post_def)
  qed
qed

lemma tree_erase_spec:
  assumes "tree_ok t" and "k \<in> keys t"
  shows "\<exists>t'. tree_erase k t = Inr (t', entry_of k (forEach t)) \<and> tree_ok t' \<and>
    forEach t' = del_entry k (forEach t)"
proof -
  obtain t1 u where e: "erase_node k t = Inr (t1, entry_of k (forEach t))" "t1 = u \<or> t1 = toggle u"
      "llrb u" "forEach u = del_entry k (forEach t)"
    using erase_root [OF assms] by blast
  have o: "keys_ordered u"
    using assms(1) by (simp add: tree_ok_def keys_ordered_def e(4) sorted_del)
  show ?thesis
  proof (cases "u = Null")
    case True
    then show ?thesis
      using e by (auto simp: tree_erase_def tree_ok_def)
  next
    case False
    then obtain t2 where t2: "setColor Black u = Inr t2" "tree_ok t2" "forEach t2 = forEach u"
      using setColor_ok e(3) o by metis
    have "setColor Black t1 = Inr t2" "t1 \<noteq> Null"
      using e(2) t2(1) False toggle_inv(3) [of u] by (auto simp: setColor_toggle)
    then show ?thesis
      using e(1,4) t2 by (simp add: tree_erase_def)
  qed
qed

text \<open>A key that is not there: the recursion runs into a null pointer.\<close>

lemma erase_node_found: "erase_node k t = Inr (t', es) \<Longrightarrow> k \<in> keys t"
proof (induction "size t" arbitrary: t t' es rule: less_induct)
  case less
  obtain c l x y r where t: "t = TNode c l x y r"
    using less.prems by (cases t) (auto simp: erase_node.simps)
  show ?case
  proof (cases "k < x")
    case True
    then obtain u where u: "red_left t = Inr u" "erase_left k u = Inr (t', es)"
      using less.prems t by (auto simp: erase_node_eq elim: rbind_InrE)
    then obtain c2 l2 x2 y2 r2 l' where n: "u = TNode c2 l2 x2 y2 r2" "erase_node k l2 = Inr (l', es)"
      by (cases u) (auto simp: erase_left_def elim!: rbind_InrE)
    then have "k \<in> keys l2" using less.hyps [of l2 l' es] red_left_size [OF u(1)] by simp
    moreover have "keys u = keys t" using same_entries [OF red_left_forEach [OF u(1)]] by (rule conjunct1)
    ultimately show ?thesis using n(1) by auto
  next
    case False
    then obtain u where u: "lean_right t = Inr u" "erase_lean k u = Inr (t', es)"
      using less.prems t by (auto simp: erase_node_eq elim: rbind_InrE)
    have ku: "keys u = keys t" using same_entries [OF lean_right_forEach [OF u(1)]] by simp
    obtain c2 l2 x2 y2 r2 where n: "u = TNode c2 l2 x2 y2 r2"
      using u(2) by (cases u) (auto simp: erase_lean_def)
    show ?thesis
    proof (cases "k = x2")
      case True
      then show ?thesis using ku n by auto
    next
      case kn: False
      then obtain w where w: "red_right u = Inr w" "erase_right k w = Inr (t', es)"
        using u(2) n by (auto simp: erase_lean_def elim: rbind_InrE)
      then obtain c3 l3 x3 y3 r3 where n3: "w = TNode c3 l3 x3 y3 r3"
        by (cases w) (auto simp: erase_right_def)
      have kw: "keys w = keys t" using same_entries [OF red_right_forEach [OF w(1)]] ku by simp
      show ?thesis
      proof (cases "k = x3")
        case True
        then show ?thesis using kw n3 by auto
      next
        case False
        then obtain r' where "erase_node k r3 = Inr (r', es)"
          using w(2) n3 by (auto simp: erase_right_def elim!: rbind_InrE)
        then have "k \<in> keys r3"
          using less.hyps [of r3 r' es] red_right_size [OF w(1)] lean_right_size [OF u(1)] n3 by simp
        then show ?thesis using kw n3 by auto
      qed
    qed
  qed
qed

lemma tree_erase_found: "tree_erase k t = Inr (t', es) \<Longrightarrow> k \<in> keys t"
  by (auto simp: tree_erase_def split: if_splits elim!: rbind_InrE dest: erase_node_found)

section \<open>The tree as a map\<close>

lemma map_of_keys: "map_of es k = None \<longleftrightarrow> k \<notin> fst ` set es"
  by (rule map_of_eq_None_iff)

lemma map_of_put: "map_of (put_entry k p es) = (map_of es)(k \<mapsto> p)"
proof
  fix a
  have lt: "map_of (filter (\<lambda>e. fst e < k) es) a = (if a < k then map_of es a else None)"
    by (induction es) auto
  have gt: "map_of (filter (\<lambda>e. k < fst e) es) a = (if k < a then map_of es a else None)"
    by (induction es) auto
  show "map_of (put_entry k p es) a = ((map_of es)(k \<mapsto> p)) a"
    by (auto simp: put_entry_def map_add_def lt gt split: option.split)
qed

lemma map_of_del: "map_of (del_entry k es) = (map_of es)(k := None)"
  by (induction es) (auto simp: del_entry_def)

lemma entry_of_map: "sorted_keys es \<Longrightarrow> entry_of k es = (case map_of es k of None \<Rightarrow> [] | Some p \<Rightarrow> [p])"
proof (induction es)
  case Nil
  then show ?case by (simp add: entry_of_def)
next
  case (Cons e es)
  then have "sorted_keys es" "\<forall>d\<in>set es. fst e < fst d"
    by (simp_all add: sorted_keys_def)
  then show ?case
    using Cons.IH by (force simp: entry_of_def filter_empty_conv split: option.splits)
qed

lemma tree_find_map:
  assumes "tree_ok t"
  shows "tree_find k t = map_option (Pair k) (map_of (forEach t) k)"
  using tree_find_contents [of t k] entry_of_map [of "forEach t" k] assms
  by (auto simp: tree_ok_def keys_ordered_def split: option.splits)

text \<open>The ways down: at most twice the black height, and the black height is at most logarithmic.\<close>

fun depth :: "('k, 'p) tnode \<Rightarrow> nat" where
  "depth Null = 0"
| "depth (TNode c l k p r) = Suc (max (depth l) (depth r))"

lemma depth_bheight: "llrb t \<Longrightarrow> depth t \<le> 2 * bheight t + (if isRed t then 1 else 0)"
  by (induction t) (auto split: if_splits)

lemma bheight_size: "llrb t \<Longrightarrow> 2 ^ bheight t \<le> size t + 1"
  by (induction t) auto

lemma depth_size:
  assumes "tree_ok t"
  shows "2 ^ depth t \<le> (size t + 1)\<^sup>2"
proof -
  have "(2::nat) ^ depth t \<le> 2 ^ (2 * bheight t)"
    using depth_bheight [of t] assms by (intro power_increasing) (simp_all add: tree_ok_def)
  also have "\<dots> = (2 ^ bheight t)\<^sup>2"
    by (simp add: power_mult [symmetric] mult.commute)
  also have "\<dots> \<le> (size t + 1)\<^sup>2"
    using bheight_size [of t] assms by (intro power_mono) (simp_all add: tree_ok_def)
  finally show ?thesis .
qed

end
