(* ===== verification/Tree_Map.thy ===== *)
theory Tree_Map
  imports Tree_Nodes "HOL-Library.Multiset"
begin

text \<open>
  The map over the tree of \<open>Tree_Nodes\<close> (\<open>sead/container/seadTreeMap.h\<close>) with the free list that gives its
  nodes (\<open>seadFreeList.h\<close>). The buffer is an array of equal blocks, named by their numbers; a node's
  payload is its block and its value. The locale \<open>bounded_map\<close> states what a client relies on, a finite
  map with a bound on its keys, and the map is shown to provide it.
\<close>

section \<open>The free list\<close>

record free_list =
  mFree :: "nat list"
  mWork :: bool

definition FreeList_empty :: free_list where
  "FreeList_empty = \<lparr>mFree = [], mWork = False\<rparr>"

text \<open>Linking \<open>num\<close> blocks; with none, the last store is before the buffer.\<close>

definition setWork :: "int \<Rightarrow> free_list \<Rightarrow> free_list res" where
  "setWork num fl = (if num \<le> 0 then Inl OutOfBounds else Inr (fl\<lparr>mFree := [0..<nat num], mWork := True\<rparr>))"

definition fl_reset :: "free_list \<Rightarrow> free_list" where
  "fl_reset fl = fl\<lparr>mFree := [], mWork := False\<rparr>"

definition fl_alloc :: "free_list \<Rightarrow> nat option \<times> free_list" where
  "fl_alloc fl = (case mFree fl of [] \<Rightarrow> (None, fl) | b # bs \<Rightarrow> (Some b, fl\<lparr>mFree := bs\<rparr>))"

definition fl_free :: "nat \<Rightarrow> free_list \<Rightarrow> free_list" where
  "fl_free b fl = fl\<lparr>mFree := b # mFree fl\<rparr>"

section \<open>The map\<close>

record ('k, 'v) tree_map =
  mRoot :: "('k, nat \<times> 'v) tnode"
  mFreeList :: free_list
  mSize :: int
  mCapacity :: int

definition TreeMap_empty :: "('k, 'v) tree_map" where
  "TreeMap_empty = \<lparr>mRoot = Null, mFreeList = FreeList_empty, mSize = 0, mCapacity = 0\<rparr>"

definition tm_setBuffer :: "int \<Rightarrow> ('k, 'v) tree_map \<Rightarrow> ('k, 'v) tree_map res" where
  "tm_setBuffer node_max m =
     rbind (setWork node_max (mFreeList m)) (\<lambda>fl. Inr (m\<lparr>mCapacity := node_max, mFreeList := fl\<rparr>))"

text \<open>Whether the heap has the memory is an argument.\<close>

definition tm_allocBuffer :: "bool \<Rightarrow> int \<Rightarrow> ('k, 'v) tree_map \<Rightarrow> ('k, 'v) tree_map res" where
  "tm_allocBuffer got node_max m = (if got then tm_setBuffer node_max m else Inr m)"

definition tm_freeBuffer :: "('k, 'v) tree_map \<Rightarrow> ('k, 'v) tree_map" where
  "tm_freeBuffer m =
     (if \<not> mWork (mFreeList m) then m else m\<lparr>mCapacity := 0, mFreeList := fl_reset (mFreeList m)\<rparr>)"

definition node_erase :: "nat \<Rightarrow> ('k, 'v) tree_map \<Rightarrow> ('k, 'v) tree_map" where
  "node_erase b m = m\<lparr>mFreeList := fl_free b (mFreeList m), mSize := mSize m - 1\<rparr>"

definition tm_find :: "'k::linorder \<Rightarrow> ('k, 'v) tree_map \<Rightarrow> (nat \<times> 'v) option" where
  "tm_find k m = map_option snd (tree_find k (mRoot m))"

text \<open>Writing through the pointer to a node that \<open>find\<close> gave.\<close>

fun set_value :: "'k::linorder \<Rightarrow> 'v \<Rightarrow> ('k, nat \<times> 'v) tnode \<Rightarrow> ('k, nat \<times> 'v) tnode" where
  "set_value k v Null = Null"
| "set_value k v (TNode c l x y r) =
     (if k < x then TNode c (set_value k v l) x y r
      else if x < k then TNode c l x y (set_value k v r)
      else TNode c l x (fst y, v) r)"

definition tm_insert :: "'k::linorder \<Rightarrow> 'v \<Rightarrow> ('k, 'v) tree_map \<Rightarrow> (nat option \<times> ('k, 'v) tree_map) res" where
  "tm_insert k v m =
     (if mSize m \<ge> mCapacity m
      then (case tm_find k m of
              Some (b, old) \<Rightarrow> Inr (Some b, m\<lparr>mRoot := set_value k v (mRoot m)\<rparr>)
            | None \<Rightarrow> Inr (None, m))
      else (case fl_alloc (mFreeList m) of
              (None, fl) \<Rightarrow> Inl NullDeref
            | (Some b, fl) \<Rightarrow>
                let m = m\<lparr>mFreeList := fl, mSize := mSize m + 1\<rparr> in
                rbind (tree_insert k (b, v) (mRoot m)) (\<lambda>(t, es).
                  Inr (Some b, fold node_erase (map fst es) (m\<lparr>mRoot := t\<rparr>)))))"

definition tm_erase :: "'k::linorder \<Rightarrow> ('k, 'v) tree_map \<Rightarrow> ('k, 'v) tree_map res" where
  "tm_erase k m =
     rbind (tree_erase k (mRoot m)) (\<lambda>(t, es). Inr (fold node_erase (map fst es) (m\<lparr>mRoot := t\<rparr>)))"

definition eraseNodeForClear :: "nat \<Rightarrow> ('k, 'v) tree_map \<Rightarrow> ('k, 'v) tree_map" where
  "eraseNodeForClear b m = m\<lparr>mFreeList := fl_free b (mFreeList m)\<rparr>"

definition tm_clear :: "('k, 'v) tree_map \<Rightarrow> ('k, 'v) tree_map" where
  "tm_clear m =
     (fold eraseNodeForClear (map (fst \<circ> snd) (forEach (mRoot m))) m)\<lparr>mSize := 0, mRoot := Null\<rparr>"

definition TreeMap_destroy :: "('k, 'v) tree_map \<Rightarrow> ('k, 'v) tree_map" where
  "TreeMap_destroy m = (if \<not> mWork (mFreeList m) then m else tm_freeBuffer (tm_clear m))"

definition tm_forEach :: "('k, 'v) tree_map \<Rightarrow> ('k \<times> 'v) list" where
  "tm_forEach m = map (\<lambda>(k, b, v). (k, v)) (forEach (mRoot m))"

section \<open>The invariant\<close>

definition blocks :: "('k, 'v) tree_map \<Rightarrow> nat list" where
  "blocks m = map (fst \<circ> snd) (forEach (mRoot m))"

text \<open>Every block is in the free list or in the tree, once.\<close>

definition tm_ok :: "('k::linorder, 'v) tree_map \<Rightarrow> bool" where
  "tm_ok m \<longleftrightarrow> tree_ok (mRoot m) \<and>
     mset (mFree (mFreeList m)) + mset (blocks m) = mset [0..<nat (mCapacity m)] \<and>
     mSize m = int (length (forEach (mRoot m))) \<and> 0 \<le> mCapacity m"

definition lookup_of :: "('k::linorder, 'v) tree_map \<Rightarrow> 'k \<Rightarrow> 'v option" where
  "lookup_of m k = map_option snd (tm_find k m)"

lemma tm_find_map: "tree_ok (mRoot m) \<Longrightarrow> tm_find k m = map_of (forEach (mRoot m)) k"
  by (simp add: tm_find_def tree_find_map option.map_comp comp_def map_option.identity [unfolded id_def])

lemma lookup_map: "tree_ok (mRoot m) \<Longrightarrow> lookup_of m = map_option snd \<circ> map_of (forEach (mRoot m))"
  by (simp add: lookup_of_def tm_find_map fun_eq_iff)

lemma node_erase_fields [simp]:
  "mRoot (node_erase b m) = mRoot m" "mFree (mFreeList (node_erase b m)) = b # mFree (mFreeList m)"
  "mSize (node_erase b m) = mSize m - 1" "mCapacity (node_erase b m) = mCapacity m"
  by (simp_all add: node_erase_def fl_free_def)


lemma fold_erase [simp]:
  "mRoot (fold node_erase bs m) = mRoot m" "mFree (mFreeList (fold node_erase bs m)) = rev bs @ mFree (mFreeList m)"
  "mSize (fold node_erase bs m) = mSize m - int (length bs)" "mCapacity (fold node_erase bs m) = mCapacity m"
  by (induction bs arbitrary: m) simp_all

text \<open>An insertion and an erasure keep the entries of the other keys.\<close>

lemma entries_split:
  assumes "sorted_keys es"
  shows "es = filter (\<lambda>e. fst e < k) es @ map (Pair k) (entry_of k es) @ filter (\<lambda>e. k < fst e) es"
  using assms
proof (induction es)
  case Nil
  then show ?case by (simp add: entry_of_def)
next
  case (Cons e es)
  obtain x y where e: "e = (x, y)" by (cases e)
  have s: "sorted_keys es" "\<forall>d\<in>set es. x < fst d"
    using Cons.prems e by (simp_all add: sorted_keys_def)
  consider "x < k" | "k < x" | "x = k" by fastforce
  then show ?case
  proof cases
    case 1
    then show ?thesis using Cons.IH [OF s(1)] e less_not_sym [OF 1] by (simp add: entry_of_def)
  next
    case 2
    have "k < fst d" "\<not> fst d < k" "fst d \<noteq> k" if "d \<in> set es" for d
      using s(2) 2 that less_trans by fastforce+
    then show ?thesis using e 2 less_not_sym [OF 2] by (simp add: entry_of_def)
  next
    case 3
    have "k < fst d" "\<not> fst d < k" "fst d \<noteq> k" if "d \<in> set es" for d
      using s(2) 3 that by fastforce+
    then show ?thesis using e 3 by (simp add: entry_of_def)
  qed
qed

lemma put_parts:
  assumes "sorted_keys es"
  shows "mset (put_entry k p es) + mset (map (Pair k) (entry_of k es)) = add_mset (k, p) (mset es)"
  using arg_cong [OF entries_split [OF assms, of k], of mset, symmetric]
  by (simp add: put_entry_def ac_simps)

lemma del_parts:
  assumes "sorted_keys es"
  shows "mset (del_entry k es) + mset (map (Pair k) (entry_of k es)) = mset es"
proof -
  have "mset (map (Pair k) (entry_of k es)) = mset (filter (\<lambda>e. fst e = k) es)"
    by (induction es) (auto simp: entry_of_def)
  then show ?thesis
    by (simp add: del_entry_def union_commute)
qed

lemma entry_of_length: "sorted_keys es \<Longrightarrow> length (entry_of k es) = (if map_of es k = None then 0 else 1)"
  by (simp add: entry_of_map split: option.split)

section \<open>Insertion\<close>

lemma tm_ok_sorted: "tm_ok m \<Longrightarrow> sorted_keys (forEach (mRoot m))"
  by (simp add: tm_ok_def tree_ok_def keys_ordered_def)

lemma tm_room:
  assumes "tm_ok m" and "mSize m < mCapacity m"
  obtains b bs where "mFree (mFreeList m) = b # bs"
proof -
  have "size (mset (mFree (mFreeList m)) + mset (blocks m)) = nat (mCapacity m)"
    using assms(1) by (simp add: tm_ok_def del: size_union)
  then have "mFree (mFreeList m) \<noteq> []"
    using assms by (auto simp: tm_ok_def blocks_def split: if_splits)
  then show ?thesis using that by (cases "mFree (mFreeList m)") auto
qed

text \<open>What happens to the blocks when entries leave the tree.\<close>

definition block_of :: "'k \<times> nat \<times> 'v \<Rightarrow> nat" where
  "block_of e = fst (snd e)"

lemma blocks_of: "blocks m = map block_of (forEach (mRoot m))"
  by (simp add: blocks_def block_of_def comp_def)

lemma block_of_entries [simp]:
  "image_mset block_of (image_mset (Pair k) A) = image_mset fst A" "block_of (k, b, v) = b"
  by (simp_all add: block_of_def multiset.map_comp comp_def)

lemma tm_insert_room:
  assumes "tm_ok m" and "mSize m < mCapacity m"
  shows "\<exists>b m'. tm_insert k v m = Inr (Some b, m') \<and> tm_ok m' \<and> mCapacity m' = mCapacity m \<and>
    forEach (mRoot m') = put_entry k (b, v) (forEach (mRoot m))"
proof -
  let ?es = "entry_of k (forEach (mRoot m))"
  obtain b bs where f: "mFree (mFreeList m) = b # bs"
    using tm_room assms by metis
  obtain t where t: "tree_insert k (b, v) (mRoot m) = Inr (t, ?es)" "tree_ok t"
      "forEach t = put_entry k (b, v) (forEach (mRoot m))"
    using tree_insert_spec [of "mRoot m" k "(b, v)"] assms(1) by (auto simp: tm_ok_def)
  define m1 where "m1 = m\<lparr>mFreeList := (mFreeList m)\<lparr>mFree := bs\<rparr>, mSize := mSize m + 1, mRoot := t\<rparr>"
  define m' where "m' = fold node_erase (map fst ?es) m1"
  have e: "tm_insert k v m = Inr (Some b, m')"
    using assms(2) f t(1) by (simp add: tm_insert_def fl_alloc_def m'_def m1_def)
  have parts: "mset (forEach t) + mset (map (Pair k) ?es) = add_mset (k, b, v) (mset (forEach (mRoot m)))"
    using put_parts [OF tm_ok_sorted [OF assms(1)]] t(3) by simp
  have "mset (mFree (mFreeList m')) + mset (blocks m') = mset (mFree (mFreeList m)) + mset (blocks m)"
    using arg_cong [OF parts, of "image_mset block_of"] f
    by (simp add: m'_def m1_def blocks_of ac_simps)
  moreover have "mSize m' = int (length (forEach (mRoot m')))"
    using arg_cong [OF parts, of size] assms(1) by (simp add: m'_def m1_def tm_ok_def)
  ultimately have "tm_ok m'"
    using assms(1) t(2) by (simp add: tm_ok_def m'_def m1_def)
  then show ?thesis
    using e t(3) by (simp add: m'_def m1_def)
qed

lemma set_value_tree:
  "bheight (set_value k v t) = bheight t \<and> isRed (set_value k v t) = isRed t"
  by (induction t) auto

lemma set_value_llrb: "llrb t \<Longrightarrow> llrb (set_value k v t)"
  by (induction t) (auto simp: set_value_tree)

lemma set_value_contents:
  "keys_ordered t \<Longrightarrow> tree_find k t = Some (k, b, old) \<Longrightarrow> forEach (set_value k v t) = put_entry k (b, v) (forEach t)"
proof (induction t)
  case (TNode c l x y r)
  note s = TNode.prems(1) [unfolded keys_ordered_def forEach.simps]
  consider "k < x" | "x < k" | "k = x" by fastforce
  then show ?case
  proof cases
    case 1
    then show ?thesis
      using TNode.IH(1) TNode.prems entries_left(1) [OF s 1] by simp
  next
    case 2
    then show ?thesis
      using TNode.IH(2) TNode.prems entries_right(1) [OF s 2] less_not_sym [OF 2] by simp
  next
    case 3
    then show ?thesis
      using TNode.prems(2) entries_here(1) [of "forEach l" k y "forEach r"] s by simp
  qed
qed simp

lemma put_present:
  assumes "sorted_keys es" and "entry_of k es = [(b, old)]"
  shows "map fst (put_entry k (b, v) es) = map fst es" and "map block_of (put_entry k (b, v) es) = map block_of es"
proof -
  have e: "es = filter (\<lambda>e. fst e < k) es @ (k, b, old) # filter (\<lambda>e. k < fst e) es"
    using entries_split [OF assms(1), of k] assms(2) by simp
  show "map fst (put_entry k (b, v) es) = map fst es"
    using arg_cong [OF e, of "map fst"] by (simp add: put_entry_def)
  show "map block_of (put_entry k (b, v) es) = map block_of es"
    using arg_cong [OF e, of "map block_of"] by (simp add: put_entry_def)
qed

lemma tm_insert_full:
  assumes "tm_ok m" and "\<not> mSize m < mCapacity m"
  shows "(case map_of (forEach (mRoot m)) k of
      None \<Rightarrow> tm_insert k v m = Inr (None, m)
    | Some (b, old) \<Rightarrow> \<exists>m'. tm_insert k v m = Inr (Some b, m') \<and> tm_ok m' \<and> mCapacity m' = mCapacity m \<and>
        forEach (mRoot m') = put_entry k (b, v) (forEach (mRoot m)))"
proof (cases "map_of (forEach (mRoot m)) k")
  case None
  then show ?thesis
    using assms by (simp add: tm_insert_def tm_find_map tm_ok_def)
next
  case (Some y)
  obtain b old where y: "y = (b, old)" by (cases y)
  define m' where "m' = m\<lparr>mRoot := set_value k v (mRoot m)\<rparr>"
  have f: "tree_find k (mRoot m) = Some (k, b, old)"
    using Some y assms(1) by (simp add: tree_find_map tm_ok_def)
  have c: "forEach (mRoot m') = put_entry k (b, v) (forEach (mRoot m))"
    using set_value_contents [OF _ f] assms(1) by (simp add: m'_def tm_ok_def tree_ok_def)
  have s: "sorted_keys (forEach (mRoot m))" by (rule tm_ok_sorted [OF assms(1)])
  have o: "entry_of k (forEach (mRoot m)) = [(b, old)]"
    using entry_of_map [OF s, of k] Some y by simp
  have "keys_ordered (mRoot m')"
    using s by (simp add: keys_ordered_def c sorted_put)
  then have "tree_ok (mRoot m')"
    using assms(1) by (simp add: m'_def tm_ok_def tree_ok_def set_value_llrb set_value_tree)
  moreover have "blocks m' = blocks m" "length (forEach (mRoot m')) = length (forEach (mRoot m))"
    using put_present [OF s o, of v] c by (simp_all add: blocks_of) (metis length_map)
  ultimately have "tm_ok m'"
    using assms(1) by (simp add: tm_ok_def m'_def)
  moreover have "tm_insert k v m = Inr (Some b, m')"
    using assms Some y by (simp add: tm_insert_def tm_find_map tm_ok_def m'_def)
  ultimately show ?thesis
    using Some y c by (simp add: m'_def)
qed

section \<open>Erasure and clearing\<close>

lemma tm_erase_present:
  assumes "tm_ok m" and "map_of (forEach (mRoot m)) k = Some (b, v)"
  shows "\<exists>m'. tm_erase k m = Inr m' \<and> tm_ok m' \<and> mCapacity m' = mCapacity m \<and>
    forEach (mRoot m') = del_entry k (forEach (mRoot m)) \<and> mFree (mFreeList m') = b # mFree (mFreeList m)"
proof -
  let ?es = "entry_of k (forEach (mRoot m))"
  note s = tm_ok_sorted [OF assms(1)]
  have o: "?es = [(b, v)]" using entry_of_map [OF s, of k] assms(2) by simp
  have "k \<in> keys (mRoot m)" using entry_of_keys [of k "mRoot m"] o by simp
  then obtain t where t: "tree_erase k (mRoot m) = Inr (t, ?es)" "tree_ok t"
      "forEach t = del_entry k (forEach (mRoot m))"
    using tree_erase_spec [of "mRoot m" k] assms(1) by (auto simp: tm_ok_def)
  define m' where "m' = node_erase b (m\<lparr>mRoot := t\<rparr>)"
  have e: "tm_erase k m = Inr m'"
    using t(1) o by (simp add: tm_erase_def m'_def)
  have parts: "mset (forEach t) + mset (map (Pair k) ?es) = mset (forEach (mRoot m))"
    using del_parts [OF s] t(3) by simp
  have "mset (mFree (mFreeList m')) + mset (blocks m') = mset (mFree (mFreeList m)) + mset (blocks m)"
    using arg_cong [OF parts, of "image_mset block_of"] o by (simp add: m'_def blocks_of ac_simps)
  also have "\<dots> = mset [0..<nat (mCapacity m)]"
    using assms(1) by (simp only: tm_ok_def)
  finally have "mset (mFree (mFreeList m')) + mset (blocks m') = mset [0..<nat (mCapacity m')]"
    by (simp add: m'_def)
  moreover have "mSize m' = int (length (forEach (mRoot m')))"
    using arg_cong [OF parts, of size] assms(1) o by (simp add: m'_def tm_ok_def)
  moreover have "0 \<le> mCapacity m'" "tree_ok (mRoot m')"
    using assms(1) t(2) by (simp_all add: tm_ok_def m'_def)
  ultimately have "tm_ok m'"
    by (simp only: tm_ok_def)
  then show ?thesis
    using e t(3) by (simp add: m'_def)
qed

lemma tm_erase_absent:
  assumes "map_of (forEach (mRoot m)) k = None"
  shows "tm_erase k m \<noteq> Inr m'"
proof
  assume "tm_erase k m = Inr m'"
  then have "k \<in> keys (mRoot m)"
    by (auto simp: tm_erase_def elim!: rbind_InrE dest: tree_erase_found)
  then show False
    using assms by (simp add: keys_def map_of_keys)
qed

lemma fold_clear [simp]:
  "mFree (mFreeList (fold eraseNodeForClear bs m)) = rev bs @ mFree (mFreeList m)"
  "mCapacity (fold eraseNodeForClear bs m) = mCapacity m"
  by (induction bs arbitrary: m) (simp_all add: eraseNodeForClear_def fl_free_def)

lemma tm_clear_ok:
  assumes "tm_ok m"
  shows "tm_ok (tm_clear m)" and "mCapacity (tm_clear m) = mCapacity m" and "forEach (mRoot (tm_clear m)) = []"
  using assms by (simp_all add: tm_ok_def tm_clear_def blocks_def tree_ok_def union_commute)

lemma tm_setBuffer_ok:
  assumes "0 < n"
  shows "\<exists>m. tm_setBuffer n TreeMap_empty = Inr m \<and> tm_ok m \<and> mCapacity m = n \<and> forEach (mRoot m) = []"
  using assms by (simp add: tm_setBuffer_def setWork_def TreeMap_empty_def tm_ok_def tree_ok_def blocks_def)

section \<open>As a bounded map\<close>

locale bounded_map =
  fixes ok :: "'m \<Rightarrow> bool"
    and lookup :: "'m \<Rightarrow> 'k \<Rightarrow> 'v option"
    and room :: "'m \<Rightarrow> nat"
    and put :: "'k \<Rightarrow> 'v \<Rightarrow> 'm \<Rightarrow> (nat option \<times> 'm) res"
    and rem :: "'k \<Rightarrow> 'm \<Rightarrow> 'm res"
  assumes finite_keys: "ok m \<Longrightarrow> finite (dom (lookup m))"
    and put_ok: "ok m \<Longrightarrow> k \<in> dom (lookup m) \<or> card (dom (lookup m)) < room m \<Longrightarrow>
      \<exists>b m'. put k v m = Inr (Some b, m') \<and> ok m' \<and> room m' = room m \<and> lookup m' = (lookup m)(k \<mapsto> v)"
    and put_full: "ok m \<Longrightarrow> k \<notin> dom (lookup m) \<Longrightarrow> room m \<le> card (dom (lookup m)) \<Longrightarrow> put k v m = Inr (None, m)"
    and rem_ok: "ok m \<Longrightarrow> k \<in> dom (lookup m) \<Longrightarrow>
      \<exists>m'. rem k m = Inr m' \<and> ok m' \<and> room m' = room m \<and> lookup m' = (lookup m)(k := None)"
    and rem_absent: "ok m \<Longrightarrow> k \<notin> dom (lookup m) \<Longrightarrow> rem k m \<noteq> Inr m'"
begin

text \<open>A run of insertions and what it gives.\<close>

fun put_all :: "('k \<times> 'v) list \<Rightarrow> 'm \<Rightarrow> 'm res" where
  "put_all [] m = Inr m"
| "put_all ((k, v) # es) m = rbind (put k v m) (\<lambda>(b, m). put_all es m)"

lemma put_all_lookup:
  "ok m \<Longrightarrow> card (dom (lookup m) \<union> fst ` set es) \<le> room m \<Longrightarrow>
   \<exists>m'. put_all es m = Inr m' \<and> ok m' \<and> room m' = room m \<and> lookup m' = lookup m ++ map_of (rev es)"
proof (induction es arbitrary: m)
  case Nil
  then show ?case by simp
next
  case (Cons e es)
  obtain k v where e: "e = (k, v)" by (cases e)
  let ?D = "dom (lookup m)"
  have fin: "finite ?D" using finite_keys Cons.prems(1) by blast
  have "card (insert k ?D) \<le> card (?D \<union> fst ` set (e # es))"
    using fin e by (intro card_mono) auto
  then have "k \<in> ?D \<or> card ?D < room m"
    using Cons.prems(2) fin by (cases "k \<in> ?D") (auto simp: card_insert_if)
  then obtain b m1 where m1: "put k v m = Inr (Some b, m1)" "ok m1" "room m1 = room m"
      "lookup m1 = (lookup m)(k \<mapsto> v)"
    using put_ok Cons.prems(1) by blast
  have "dom (lookup m1) \<union> fst ` set es = ?D \<union> fst ` set (e # es)"
    using m1(4) e by auto
  then obtain m' where "put_all es m1 = Inr m'" "ok m'" "room m' = room m1"
      "lookup m' = lookup m1 ++ map_of (rev es)"
    using Cons.IH [OF m1(2)] Cons.prems(2) m1(3) by auto
  then show ?case
    using m1 e by (simp add: map_add_upd_left [symmetric] map_add_assoc [symmetric])
qed

end

lemma dom_lookup: "tm_ok m \<Longrightarrow> dom (lookup_of m) = keys (mRoot m)"
  by (force simp: lookup_map tm_ok_def keys_def dom_map_of_conv_image_fst [symmetric] dom_def)

lemma card_keys:
  assumes "tm_ok m"
  shows "int (card (dom (lookup_of m))) = mSize m"
proof -
  have "distinct (map fst (forEach (mRoot m)))"
    using tm_ok_sorted [OF assms] by (simp add: sorted_keys_def strict_sorted_iff)
  then have "card (keys (mRoot m)) = length (forEach (mRoot m))"
    using distinct_card [of "map fst (forEach (mRoot m))"] by (simp add: keys_def)
  then show ?thesis
    using assms by (simp add: dom_lookup tm_ok_def)
qed

lemma lookup_put: "forEach (mRoot m') = put_entry k (b, v) (forEach (mRoot m)) \<Longrightarrow> tm_ok m \<Longrightarrow> tm_ok m' \<Longrightarrow>
   lookup_of m' = (lookup_of m)(k \<mapsto> v)"
  by (simp add: lookup_map tm_ok_def map_of_put fun_eq_iff)

lemma lookup_del: "forEach (mRoot m') = del_entry k (forEach (mRoot m)) \<Longrightarrow> tm_ok m \<Longrightarrow> tm_ok m' \<Longrightarrow>
   lookup_of m' = (lookup_of m)(k := None)"
  by (simp add: lookup_map tm_ok_def map_of_del fun_eq_iff)

lemma dom_lookup_map: "tm_ok m \<Longrightarrow> k \<in> dom (lookup_of m) \<longleftrightarrow> map_of (forEach (mRoot m)) k \<noteq> None"
  by (simp add: lookup_map tm_ok_def domIff)

lemma tm_put:
  assumes "tm_ok m" and "k \<in> dom (lookup_of m) \<or> mSize m < mCapacity m"
  shows "\<exists>b m'. tm_insert k v m = Inr (Some b, m') \<and> tm_ok m' \<and> mCapacity m' = mCapacity m \<and>
    lookup_of m' = (lookup_of m)(k \<mapsto> v)"
proof (cases "mSize m < mCapacity m")
  case True
  then show ?thesis
    using tm_insert_room [OF assms(1) True, of k v] lookup_put assms(1) by metis
next
  case False
  then obtain b old where "map_of (forEach (mRoot m)) k = Some (b, old)"
    using assms dom_lookup_map by fastforce
  then have "\<exists>m'. tm_insert k v m = Inr (Some b, m') \<and> tm_ok m' \<and> mCapacity m' = mCapacity m \<and>
      forEach (mRoot m') = put_entry k (b, v) (forEach (mRoot m))"
    using tm_insert_full [OF assms(1) False, of k v] by simp
  then show ?thesis
    using lookup_put assms(1) by metis
qed

lemma tm_put_full:
  assumes "tm_ok m" and "k \<notin> dom (lookup_of m)" and "\<not> mSize m < mCapacity m"
  shows "tm_insert k v m = Inr (None, m)"
proof -
  have "map_of (forEach (mRoot m)) k = None"
    using dom_lookup_map [OF assms(1), of k] assms(2) by blast
  then show ?thesis
    using tm_insert_full [OF assms(1,3), of k v] by simp
qed

lemma tm_rem:
  assumes "tm_ok m" and "k \<in> dom (lookup_of m)"
  shows "\<exists>m'. tm_erase k m = Inr m' \<and> tm_ok m' \<and> mCapacity m' = mCapacity m \<and>
    lookup_of m' = (lookup_of m)(k := None)"
proof -
  obtain b v where "map_of (forEach (mRoot m)) k = Some (b, v)"
    using assms dom_lookup_map by fastforce
  then show ?thesis
    using tm_erase_present [OF assms(1)] lookup_del assms(1) by metis
qed

lemma tm_rem_absent:
  assumes "tm_ok m" and "k \<notin> dom (lookup_of m)"
  shows "tm_erase k m \<noteq> Inr m'"
  using tm_erase_absent [of m k] dom_lookup_map [OF assms(1), of k] assms(2) by blast

definition capacity_of :: "('k, 'v) tree_map \<Rightarrow> nat" where
  "capacity_of m = nat (mCapacity m)"

lemma room_iff:
  assumes "tm_ok m"
  shows "card (dom (lookup_of m)) < capacity_of m \<longleftrightarrow> mSize m < mCapacity m"
  using card_keys [OF assms] assms by (auto simp: capacity_of_def tm_ok_def)

interpretation tm: bounded_map tm_ok lookup_of capacity_of tm_insert tm_erase
proof
  fix m :: "('a, 'b) tree_map" and k v m'
  show "tm_ok m \<Longrightarrow> finite (dom (lookup_of m))"
    by (simp add: dom_lookup keys_def)
  show "\<exists>b m'. tm_insert k v m = Inr (Some b, m') \<and> tm_ok m' \<and> capacity_of m' = capacity_of m \<and>
      lookup_of m' = (lookup_of m)(k \<mapsto> v)"
    if "tm_ok m" and "k \<in> dom (lookup_of m) \<or> card (dom (lookup_of m)) < capacity_of m"
  proof -
    have "k \<in> dom (lookup_of m) \<or> mSize m < mCapacity m"
      using that by (simp only: room_iff)
    then show ?thesis
      using tm_put [OF that(1), of k v] by (metis capacity_of_def)
  qed
  show "tm_insert k v m = Inr (None, m)"
    if "tm_ok m" and "k \<notin> dom (lookup_of m)" and "capacity_of m \<le> card (dom (lookup_of m))"
    using tm_put_full [OF that(1,2)] room_iff [OF that(1)] that(3) by simp
  show "\<exists>m'. tm_erase k m = Inr m' \<and> tm_ok m' \<and> capacity_of m' = capacity_of m \<and>
      lookup_of m' = (lookup_of m)(k := None)" if "tm_ok m" and "k \<in> dom (lookup_of m)"
    using tm_rem [OF that] by (metis capacity_of_def)
  show "tm_erase k m \<noteq> Inr m'" if "tm_ok m" and "k \<notin> dom (lookup_of m)"
    using tm_rem_absent [OF that] .
qed

section \<open>Runs\<close>

datatype ('k, 'v) tm_op = Put 'k 'v | Rem 'k | Clear

definition tm_step :: "('k::linorder, 'v) tm_op \<Rightarrow> ('k, 'v) tree_map \<Rightarrow> ('k, 'v) tree_map res" where
  "tm_step op m =
     (case op of
        Put k v \<Rightarrow> rbind (tm_insert k v m) (\<lambda>(b, m). Inr m)
      | Rem k \<Rightarrow> tm_erase k m
      | Clear \<Rightarrow> Inr (tm_clear m))"

fun tm_run :: "('k::linorder, 'v) tm_op list \<Rightarrow> ('k, 'v) tree_map \<Rightarrow> ('k, 'v) tree_map res" where
  "tm_run [] m = Inr m"
| "tm_run (op # ops) m = rbind (tm_step op m) (tm_run ops)"

text \<open>The same on a finite map of at most \<open>n\<close> keys; there an erasure needs its key.\<close>

definition spec_step :: "nat \<Rightarrow> ('k, 'v) tm_op \<Rightarrow> ('k \<rightharpoonup> 'v) \<Rightarrow> ('k \<rightharpoonup> 'v) option" where
  "spec_step n op f =
     (case op of
        Put k v \<Rightarrow> Some (if k \<in> dom f \<or> card (dom f) < n then f(k \<mapsto> v) else f)
      | Rem k \<Rightarrow> if k \<in> dom f then Some (f(k := None)) else None
      | Clear \<Rightarrow> Some Map.empty)"

fun spec_run :: "nat \<Rightarrow> ('k, 'v) tm_op list \<Rightarrow> ('k \<rightharpoonup> 'v) \<Rightarrow> ('k \<rightharpoonup> 'v) option" where
  "spec_run n [] f = Some f"
| "spec_run n (op # ops) f = (case spec_step n op f of None \<Rightarrow> None | Some f \<Rightarrow> spec_run n ops f)"

lemma tm_step_refines:
  assumes "tm_ok m"
  shows "(case spec_step (capacity_of m) op (lookup_of m) of
      None \<Rightarrow> \<forall>m'. tm_step op m \<noteq> Inr m'
    | Some f \<Rightarrow> \<exists>m'. tm_step op m = Inr m' \<and> tm_ok m' \<and> capacity_of m' = capacity_of m \<and> lookup_of m' = f)"
proof (cases op)
  case (Put k v)
  show ?thesis
  proof (cases "k \<in> dom (lookup_of m) \<or> card (dom (lookup_of m)) < capacity_of m")
    case True
    then show ?thesis
      using tm.put_ok [OF assms True, of v] Put by (auto simp: spec_step_def tm_step_def)
  next
    case False
    then show ?thesis
      using tm.put_full [OF assms, of k v] Put assms by (auto simp: spec_step_def tm_step_def)
  qed
next
  case (Rem k)
  then show ?thesis
    using tm.rem_ok [OF assms, of k] tm.rem_absent [OF assms, of k]
    by (cases "k \<in> dom (lookup_of m)") (auto simp: spec_step_def tm_step_def)
next
  case Clear
  have "lookup_of (tm_clear m) = Map.empty"
    using tm_clear_ok [OF assms] by (simp add: lookup_map tm_ok_def fun_eq_iff)
  then show ?thesis
    using tm_clear_ok [OF assms] Clear by (simp add: spec_step_def tm_step_def capacity_of_def)
qed

lemma tm_run_refines:
  "tm_ok m \<Longrightarrow>
   (case spec_run (capacity_of m) ops (lookup_of m) of
      None \<Rightarrow> \<forall>m'. tm_run ops m \<noteq> Inr m'
    | Some f \<Rightarrow> \<exists>m'. tm_run ops m = Inr m' \<and> tm_ok m' \<and> capacity_of m' = capacity_of m \<and> lookup_of m' = f)"
proof (induction ops arbitrary: m)
  case Nil
  then show ?case by simp
next
  case (Cons op ops)
  show ?case
  proof (cases "spec_step (capacity_of m) op (lookup_of m)")
    case None
    then show ?thesis
      using tm_step_refines [OF Cons.prems, of op] by (auto elim!: rbind_InrE)
  next
    case (Some f)
    then obtain m1 where m1: "tm_step op m = Inr m1" "tm_ok m1" "capacity_of m1 = capacity_of m" "lookup_of m1 = f"
      using tm_step_refines [OF Cons.prems, of op] by auto
    then show ?thesis
      using Cons.IH [OF m1(2)] Some by (cases "spec_run (capacity_of m) ops f") simp_all
  qed
qed

text \<open>The ways down stay short.\<close>

lemma size_entries: "size t = length (forEach t)"
  by (induction t) simp_all

lemma tm_depth:
  assumes "tm_ok m"
  shows "2 ^ depth (mRoot m) \<le> (capacity_of m + 1)\<^sup>2"
proof -
  have "size (mset (mFree (mFreeList m)) + mset (blocks m)) = capacity_of m"
    using assms by (simp add: tm_ok_def capacity_of_def del: size_union)
  then have "size (mRoot m) \<le> capacity_of m"
    by (simp add: size_entries blocks_def)
  then have "(size (mRoot m) + 1)\<^sup>2 \<le> (capacity_of m + 1)\<^sup>2"
    by (intro power_mono) simp_all
  moreover have "2 ^ depth (mRoot m) \<le> (size (mRoot m) + 1)\<^sup>2"
    using depth_size [of "mRoot m"] assms by (simp only: tm_ok_def)
  ultimately show ?thesis by (rule order_trans [rotated])
qed

text \<open>
  C34: the sorted map (\<open>seadTreeMap.h\<close>), given a buffer of any positive number of nodes, behaves under
  every sequence of insertions, erasures and clearings like a finite map that holds at most that many
  keys: an insertion that finds no room is dropped unless its key is there (then the value is replaced),
  an erasure of a key that is not there never returns a map (it follows a null pointer), and nothing else
  fails. At every moment the tree is a left-leaning red-black tree whose nodes and the free list share
  the blocks of the buffer between them, and a search goes down at most twice the logarithm of the
  number of blocks.
\<close>
theorem treemap_refines:
  assumes "0 < n"
  shows "\<exists>m :: ('k::linorder, 'v) tree_map. tm_setBuffer n TreeMap_empty = Inr m \<and>
    (case spec_run (nat n) ops Map.empty of
       None \<Rightarrow> \<forall>m'. tm_run ops m \<noteq> Inr m'
     | Some f \<Rightarrow> \<exists>m'. tm_run ops m = Inr m' \<and> tm_ok m' \<and> lookup_of m' = f \<and>
         2 ^ depth (mRoot m') \<le> (nat n + 1)\<^sup>2)"
proof -
  obtain m :: "('k, 'v) tree_map" where m: "tm_setBuffer n TreeMap_empty = Inr m" "tm_ok m" "mCapacity m = n" "forEach (mRoot m) = []"
    using tm_setBuffer_ok [OF assms] by blast
  then have "lookup_of m = Map.empty" "capacity_of m = nat n"
    by (simp_all add: lookup_map tm_ok_def fun_eq_iff capacity_of_def)
  then show ?thesis
    using m(1) tm_run_refines [OF m(2), of ops] tm_depth
    by (cases "spec_run (nat n) ops Map.empty") fastforce+
qed

theorem treemap_refines_witness:
  "\<exists>m m'. tm_setBuffer 2 TreeMap_empty = Inr m \<and>
     tm_run [Put 5 True, Put 3 False, Put (1::nat) True, Put 3 True, Rem 5, Put 7 False] m = Inr m' \<and>
     tm_ok m' \<and> lookup_of m' = [3 \<mapsto> True, 7 \<mapsto> False] \<and>
     (\<forall>m2. tm_run [Put 4 True, Rem (1::nat)] m \<noteq> Inr m2)"
proof -
  have a: "spec_run (nat 2) [Put 5 True, Put 3 False, Put (1::nat) True, Put 3 True, Rem 5, Put 7 False] Map.empty =
      Some [3 \<mapsto> True, 7 \<mapsto> False]"
    by (auto simp: spec_step_def fun_eq_iff)
  have b: "spec_run (nat 2) [Put 4 True, Rem (1::nat)] Map.empty = None"
    by (simp add: spec_step_def)
  obtain m :: "(nat, bool) tree_map" and m' where m: "tm_setBuffer 2 TreeMap_empty = Inr m"
    "tm_run [Put 5 True, Put 3 False, Put 1 True, Put 3 True, Rem 5, Put 7 False] m = Inr m'"
    "tm_ok m'" "lookup_of m' = [3 \<mapsto> True, 7 \<mapsto> False]"
    using treemap_refines [of 2 "[Put 5 True, Put 3 False, Put (1::nat) True, Put 3 True, Rem 5, Put 7 False]"]
    unfolding a option.case by (auto simp del: tm_run.simps)
  moreover have "\<forall>m2. tm_run [Put 4 True, Rem (1::nat)] m \<noteq> Inr m2"
    using treemap_refines [of 2 "[Put 4 True, Rem (1::nat)]"] m(1) unfolding b option.case by (auto simp del: tm_run.simps)
  ultimately show ?thesis by blast
qed

end
