(* ===== verification/Calendar.thy ===== *)
theory Calendar
  imports Prelude
begin

text \<open>
  Dates and times (\<open>sead/time\<close>): calendar dates and the days and seconds since 1970 (\<open>seadCalendarTime\<close>,
  \<open>seadDateTime\<close>, \<open>seadDateUtil\<close>), spans of time (\<open>seadCalendarSpan.h\<close>, \<open>seadDateSpan\<close>). The arithmetic is
  that of the source, 32-bit where it is 32-bit. The asserts of the source are empty in a release build.
\<close>

section \<open>Calendar values\<close>

record Date =
  mYear :: u32
  mMonth :: s32
  mDay :: u32
  mWeek :: int

record Time =
  mHour :: u32
  mMinute :: u32
  mSecond :: u32

record CalendarTime =
  mDate :: Date
  mTime :: Time

definition isLeapYear :: "u32 \<Rightarrow> bool" where
  "isLeapYear year \<longleftrightarrow> (year mod 4 = 0 \<and> year mod 100 \<noteq> 0) \<or> year mod 400 = 0"

text \<open>The sums are of \<open>int\<close>s and exact for every year below a thousand million.\<close>

definition calcWeekDay :: "u32 \<Rightarrow> s32 \<Rightarrow> u32 \<Rightarrow> int" where
  "calcWeekDay year month day =
     (let y = sint year;
          m = sint month;
          d = sint day;
          (y, m) = (if m < 3 then (y - 1, m + 12) else (y, m));
          d = d + (y + cdiv y 4 - cdiv y 100 + cdiv y 400);
          d = d + cdiv (26 * m + 16) 10
      in cmod d 7)"

definition make_Date :: "u32 \<Rightarrow> s32 \<Rightarrow> u32 \<Rightarrow> Date" where
  "make_Date y m d = \<lparr>mYear = y, mMonth = m, mDay = d, mWeek = calcWeekDay y m d\<rparr>"

definition calcWeek :: "Date \<Rightarrow> Date" where
  "calcWeek date = date\<lparr>mWeek := calcWeekDay (mYear date) (mMonth date) (mDay date)\<rparr>"

definition make_CalendarTime :: "u32 \<Rightarrow> s32 \<Rightarrow> u32 \<Rightarrow> u32 \<Rightarrow> u32 \<Rightarrow> u32 \<Rightarrow> CalendarTime" where
  "make_CalendarTime y m d hour minute second =
     \<lparr>mDate = make_Date y m d, mTime = \<lparr>mHour = hour, mMinute = minute, mSecond = second\<rparr>\<rparr>"

definition ct_setDate :: "Date \<Rightarrow> CalendarTime \<Rightarrow> CalendarTime" where
  "ct_setDate date c = c\<lparr>mDate := calcWeek date\<rparr>"

definition ct_setTime :: "Time \<Rightarrow> CalendarTime \<Rightarrow> CalendarTime" where
  "ct_setTime time c = c\<lparr>mTime := time\<rparr>"

definition CalendarTime_default :: CalendarTime where
  "CalendarTime_default = make_CalendarTime 1970 1 1 0 0 0"

text \<open>Months: adding and taking away, with the wrap at the year's end.\<close>

definition month_addSelf :: "u32 \<Rightarrow> s32 \<Rightarrow> s32 \<times> s32" where
  "month_addSelf rhs month =
     (let val = word_of_int (cmod (sint rhs + sint month - 1) 12) in (val + 1, val))"

definition month_subSelf :: "u32 \<Rightarrow> s32 \<Rightarrow> s32 \<times> s32" where
  "month_subSelf rhs month =
     (let val = (word_of_int (sint month - cmod (sint rhs) 12 + 12 - 1) :: s32) mod 12 in (val + 1, val))"

definition month_sub :: "s32 \<Rightarrow> s32 \<Rightarrow> int" where
  "month_sub rhs month = sint month - sint rhs"

definition makeStringOneOrigin :: "u32 \<Rightarrow> string" where
  "makeStringOneOrigin m =
     (if m = 1 then ''Jan'' else if m = 2 then ''Feb'' else if m = 3 then ''Mar'' else if m = 4 then ''Apr''
      else if m = 5 then ''May'' else if m = 6 then ''Jun'' else if m = 7 then ''Jul'' else if m = 8 then ''Aug''
      else if m = 9 then ''Sep'' else if m = 10 then ''Oct'' else if m = 11 then ''Nov'' else ''Dec'')"

section \<open>Days and seconds\<close>

definition sDaysOfMonth :: "u32 list" where
  "sDaysOfMonth = [31, 28, 31, 30, 31, 30, 31, 31, 30, 31, 30, 31]"

definition sDaysSinceJan1 :: "u32 list" where
  "sDaysSinceJan1 = [0, 31, 59, 90, 120, 151, 181, 212, 243, 273, 304, 334]"

definition sCumulativeNumberOfDays :: "u32 list" where
  "sCumulativeNumberOfDays = [0, 31, 59, 90, 120, 151, 181, 212, 243, 273, 304, 334]"

definition table_at :: "u32 list \<Rightarrow> u32 \<Rightarrow> u32 res" where
  "table_at xs i = (if unat i < length xs then Inr (xs ! unat i) else Inl OutOfBounds)"

definition getYearDays :: "CalendarTime \<Rightarrow> u32 res" where
  "getYearDays c =
     (let m = mMonth (mDate c) in
      rbind (table_at sCumulativeNumberOfDays (m - 1)) (\<lambda>n.
        let num_days = mDay (mDate c) + n in
        Inr (if m \<ge> 3 then num_days + (if isLeapYear (mYear (mDate c)) then 1 else 0) else num_days)))"

lemma unat_succ: "(a :: u32) < b \<Longrightarrow> unat (a + 1) = unat a + 1"
proof -
  assume a: "a < b"
  have "unat b < 2 ^ 32" by (rule order_less_le_trans [OF unsigned_less]) simp
  then show ?thesis using a by (simp add: word_less_nat_alt unat_plus_if')
qed

text \<open>The loop over the years from 1970 that counts their leap days.\<close>

function leap_loop :: "u32 \<Rightarrow> u32 \<Rightarrow> u32 \<Rightarrow> u32" where
  "leap_loop year y n =
     (if year < y then leap_loop (year + 1) y (n + (if isLeapYear year then 1 else 0)) else n)"
  by pat_completeness auto
termination
  by (relation "measure (\<lambda>(year, y, n). unat y - unat year)")
    (auto simp: unat_succ word_less_nat_alt)

declare leap_loop.simps [simp del]

definition convertCalendarDateToDaysSince1970 :: "Date \<Rightarrow> u32 res" where
  "convertCalendarDateToDaysSince1970 date =
     (let d0 = mDay date - 1;
          m = mMonth date;
          y = mYear date
      in rbind (table_at sDaysSinceJan1 (m - 1)) (\<lambda>days_since_jan1.
        let num_days = d0 + days_since_jan1;
            num_days = (if m \<ge> 3 \<and> isLeapYear y then d0 + days_since_jan1 + 1 else num_days);
            num_days_since_1970 = num_days + 365 * (y - 1970)
        in Inr (if y > 1970 then leap_loop 1970 y num_days_since_1970 else num_days_since_1970)))"

definition convertCalendarTimeToSeconds :: "Time \<Rightarrow> u64" where
  "convertCalendarTimeToSeconds time = ucast (60 * (60 * mHour time + mMinute time) + mSecond time)"

text \<open>The days are multiplied as 32-bit numbers, then widened.\<close>

definition convertCalendarDateTimeToSeconds :: "Date \<Rightarrow> Time \<Rightarrow> u64 res" where
  "convertCalendarDateTimeToSeconds date time =
     rbind (table_at sDaysOfMonth (mMonth date - 1)) (\<lambda>num_days.
     rbind (convertCalendarDateToDaysSince1970 date) (\<lambda>days_since_1970.
       Inr (ucast (3600 * 24 * days_since_1970) + convertCalendarTimeToSeconds time)))"

definition setUnixTime :: "CalendarTime \<Rightarrow> u64 res" where
  "setUnixTime c = convertCalendarDateTimeToSeconds (mDate c) (mTime c)"

text \<open>The search for the year; it ends when the days of the years no longer fit below the number.\<close>

partial_function (option) years_loop :: "u32 \<Rightarrow> u32 \<Rightarrow> u32 \<Rightarrow> (u32 \<times> u32) option" where
  "years_loop days i year =
     (let year = year + 1;
          days_to_remove = i;
          i = i + (if isLeapYear year then 366 else 365)
      in if i \<le> days then years_loop days i year else Some (days - days_to_remove, year))"

definition convertDaysToYears :: "u32 \<Rightarrow> (u32 \<times> u32) option" where
  "convertDaysToYears days = years_loop days 0 1969"

function month_loop :: "u32 \<Rightarrow> u32 \<Rightarrow> nat \<Rightarrow> u32 \<Rightarrow> u32 \<times> nat" where
  "month_loop days year month_idx i =
     (let days_to_remove = i;
          i = i + (if month_idx = 1 \<and> isLeapYear year then 29 else sDaysOfMonth ! month_idx)
      in if days < i then (days_to_remove, month_idx)
         else if month_idx + 1 < 12 then month_loop days year (month_idx + 1) i
         else (days_to_remove, month_idx + 1))"
  by pat_completeness auto
termination
  by (relation "measure (\<lambda>(days, year, month_idx, i). 12 - month_idx)") auto

declare month_loop.simps [simp del]

definition convertDaysToMonth :: "u32 \<Rightarrow> u32 \<Rightarrow> u32 \<times> s32" where
  "convertDaysToMonth days year =
     (case month_loop days year 0 0 of
        (days_to_remove, month_idx) \<Rightarrow> (days - (days_to_remove - 1), 1 + of_nat month_idx))"

definition getCalendarTime :: "u64 \<Rightarrow> CalendarTime option" where
  "getCalendarTime mUnixTime =
     (case convertDaysToYears (ucast (mUnixTime div (3600 * 24))) of
        None \<Rightarrow> None
      | Some (d, y) \<Rightarrow>
          (case convertDaysToMonth d y of
             (d, m) \<Rightarrow>
               let reduced_time = mUnixTime mod (3600 * 24);
                   time = \<lparr>mHour = ucast (reduced_time div 3600),
                     mMinute = ucast ((reduced_time mod 3600) div 60), mSecond = ucast (reduced_time mod 60)\<rparr>
               in Some (ct_setTime time (ct_setDate (make_Date y m d) CalendarTime_default))))"

section \<open>Spans\<close>

record CalendarSpan =
  cs_mDay :: s32
  cs_mHour :: s32
  cs_mMinute :: s32
  cs_mSecond :: s32

definition calcSecondToCalendarSpan :: "u64 \<Rightarrow> CalendarSpan" where
  "calcSecondToCalendarSpan sec =
     \<lparr>cs_mDay = ucast (sec div (3600 * 24)), cs_mHour = ucast ((sec mod (3600 * 24)) div 3600),
      cs_mMinute = ucast ((sec mod 3600) div 60), cs_mSecond = ucast (sec mod 60)\<rparr>"

definition setTimeImpl :: "s32 \<Rightarrow> s32 \<Rightarrow> s32 \<Rightarrow> s32 \<Rightarrow> s64" where
  "setTimeImpl d h m s = 86400 * scast d + 3600 * scast h + 60 * scast m + scast s"

definition DateSpan_set :: "CalendarSpan \<Rightarrow> s64" where
  "DateSpan_set span = setTimeImpl (cs_mDay span) (cs_mHour span) (cs_mMinute span) (cs_mSecond span)"

definition getCalendarSpan :: "s64 \<Rightarrow> CalendarSpan" where
  "getCalendarSpan mSpan = calcSecondToCalendarSpan mSpan"

definition DateTime_diff :: "u64 \<Rightarrow> u64 \<Rightarrow> s64" where
  "DateTime_diff mUnixTime time = mUnixTime - time"

definition DateTime_plus :: "u64 \<Rightarrow> s64 \<Rightarrow> u64" where
  "DateTime_plus time span = time + span"

definition DateTime_minus :: "u64 \<Rightarrow> s64 \<Rightarrow> u64" where
  "DateTime_minus time span = time - span"

section \<open>The calendar in natural numbers\<close>

definition leap :: "nat \<Rightarrow> bool" where
  "leap y \<longleftrightarrow> (y mod 4 = 0 \<and> y mod 100 \<noteq> 0) \<or> y mod 400 = 0"

definition year_length :: "nat \<Rightarrow> nat" where
  "year_length y = (if leap y then 366 else 365)"

text \<open>The days from the start of 1970 to the start of the year \<open>1970 + n\<close>.\<close>

fun years_days :: "nat \<Rightarrow> nat" where
  "years_days 0 = 0"
| "years_days (Suc n) = years_days n + year_length (1970 + n)"

definition month_length :: "nat \<Rightarrow> nat \<Rightarrow> nat" where
  "month_length y m =
     (if m = 2 then (if leap y then 29 else 28) else if m \<in> {4, 6, 9, 11} then 30 else 31)"

text \<open>The days from the start of a year to the start of the month of index \<open>m\<close> (from 0).\<close>

fun months_days :: "nat \<Rightarrow> nat \<Rightarrow> nat" where
  "months_days y 0 = 0"
| "months_days y (Suc m) = months_days y m + month_length y (Suc m)"

definition day_number :: "nat \<Rightarrow> nat \<Rightarrow> nat \<Rightarrow> nat" where
  "day_number y m d = years_days (y - 1970) + months_days y (m - 1) + (d - 1)"

lemma unat_mod_leap: "isLeapYear y \<longleftrightarrow> leap (unat y)"
proof -
  have m: "y mod n = 0 \<longleftrightarrow> unat y mod unat n = 0" for n :: u32
    using unat_mod [of y n] by (metis unat_0 unat_eq_zero)
  show ?thesis
    unfolding isLeapYear_def leap_def by (simp add: m)
qed

lemma leap_of_nat: "n < 2 ^ 32 \<Longrightarrow> isLeapYear (of_nat n) \<longleftrightarrow> leap n"
  by (simp add: unat_mod_leap unat_of_nat take_bit_eq_mod)


text \<open>Leap days of a range of years.\<close>

definition leap_days :: "nat \<Rightarrow> nat \<Rightarrow> nat" where
  "leap_days a b = (\<Sum>y = a..<b. if leap y then 1 else 0)"

lemma leap_days_step: "a < b \<Longrightarrow> leap_days a b = (if leap a then 1 else 0) + leap_days (Suc a) b"
  by (simp add: leap_days_def sum.atLeast_Suc_lessThan)

lemma leap_days_none [simp]: "leap_days a a = 0"
  by (simp add: leap_days_def)

lemma leap_days_last: "a \<le> b \<Longrightarrow> leap_days a (Suc b) = leap_days a b + (if leap b then 1 else 0)"
  by (simp add: leap_days_def sum.op_ivl_Suc)

lemma years_days_leap: "years_days n = 365 * n + leap_days 1970 (1970 + n)"
proof (induction n)
  case (Suc n)
  then show ?case
    using leap_days_last [of 1970 "1970 + n"] by (simp add: year_length_def)
qed simp

lemma years_days_mono: "m \<le> n \<Longrightarrow> years_days m \<le> years_days n"
  by (rule lift_Suc_mono_le [of years_days]) simp_all

lemma years_days_ge: "365 * n \<le> years_days n"
  by (simp add: years_days_leap)

lemma of_nat_less32: "a < 2 ^ 32 \<Longrightarrow> b < 2 ^ 32 \<Longrightarrow> (of_nat a :: u32) < of_nat b \<longleftrightarrow> a < b"
  by (simp add: word_less_nat_alt unat_of_nat take_bit_eq_mod)

lemma of_nat_le32: "a < 2 ^ 32 \<Longrightarrow> b < 2 ^ 32 \<Longrightarrow> (of_nat a :: u32) \<le> of_nat b \<longleftrightarrow> a \<le> b"
  by (simp add: word_le_nat_alt unat_of_nat take_bit_eq_mod)

lemma leap_loop_days:
  "a \<le> b \<Longrightarrow> b < 2 ^ 32 \<Longrightarrow> leap_loop (of_nat a) (of_nat b) n = n + of_nat (leap_days a b)"
proof (induction "b - a" arbitrary: a n)
  case 0
  then show ?case by (simp add: leap_loop.simps)
next
  case (Suc k)
  then have "a < b" by simp
  have "leap_loop (of_nat a) (of_nat b) n = leap_loop (of_nat (Suc a)) (of_nat b) (n + (if leap a then 1 else 0))"
    using Suc.prems \<open>a < b\<close> by (simp add: leap_loop.simps [of "of_nat a"] of_nat_less32 leap_of_nat ac_simps)
  also have "\<dots> = n + (if leap a then 1 else 0) + of_nat (leap_days (Suc a) b)"
    using Suc by (intro Suc.hyps(1)) auto
  finally show ?case
    using \<open>a < b\<close> by (simp add: leap_days_step)
qed

text \<open>The tables are the sums of the months of a common year.\<close>

lemma month_cases:
  assumes "1 \<le> m" and "m \<le> (12 :: nat)"
  shows "m = 1 \<or> m = 2 \<or> m = 3 \<or> m = 4 \<or> m = 5 \<or> m = 6 \<or> m = 7 \<or> m = 8 \<or> m = 9 \<or> m = 10 \<or> m = 11 \<or> m = 12"
  using assms by presburger

lemma months_table:
  "months_days y 0 = 0" "months_days y 1 = 31"
  "2 \<le> i \<Longrightarrow> i < 12 \<Longrightarrow> months_days y i = [0, 31, 59, 90, 120, 151, 181, 212, 243, 273, 304, 334] ! i +
    (if leap y then 1 else 0)"
proof -
  have m: "months_days y 2 = 59 + (if leap y then 1 else 0)" "months_days y 3 = 31 + months_days y 2"
    "months_days y 4 = 30 + months_days y 3" "months_days y 5 = 31 + months_days y 4"
    "months_days y 6 = 30 + months_days y 5" "months_days y 7 = 31 + months_days y 6"
    "months_days y 8 = 31 + months_days y 7" "months_days y 9 = 30 + months_days y 8"
    "months_days y 10 = 31 + months_days y 9" "months_days y 11 = 30 + months_days y 10"
    by (simp_all add: eval_nat_numeral month_length_def)
  assume "2 \<le> i" "i < 12"
  then have "i = 2 \<or> i = 3 \<or> i = 4 \<or> i = 5 \<or> i = 6 \<or> i = 7 \<or> i = 8 \<or> i = 9 \<or> i = 10 \<or> i = 11"
    by presburger
  then show "months_days y i = [0, 31, 59, 90, 120, 151, 181, 212, 243, 273, 304, 334] ! i +
    (if leap y then 1 else 0)"
    by (elim disjE) (simp_all add: m)
qed (simp_all add: month_length_def)

lemma since_table:
  assumes "1 \<le> m" and "m \<le> 12"
  obtains n where "table_at sDaysSinceJan1 (of_nat m - 1) = Inr (of_nat n)"
    and "months_days y (m - 1) = n + (if 3 \<le> m \<and> leap y then 1 else 0)"
proof -
  let ?t = "[0, 31, 59, 90, 120, 151, 181, 212, 243, 273, 304, 334] :: nat list"
  have "table_at sDaysSinceJan1 (of_nat m - 1) = Inr (of_nat (?t ! (m - 1)))"
    using month_cases [OF assms] by (elim disjE) (simp_all add: table_at_def sDaysSinceJan1_def)
  moreover have "months_days y (m - 1) = ?t ! (m - 1) + (if 3 \<le> m \<and> leap y then 1 else 0)"
    using months_table(3) [of "m - 1" y] assms
    by (cases "m = 1"; cases "m = 2") (simp_all add: month_length_def)
  ultimately show ?thesis using that by blast
qed

lemma month_table:
  assumes "1 \<le> m" and "m \<le> 12"
  shows "\<exists>n. table_at sDaysOfMonth (of_nat m - 1) = Inr n"
  using month_cases [OF assms] by (elim disjE) (simp_all add: table_at_def sDaysOfMonth_def)

lemma month_step:
  assumes "i < 12" and "y < 2 ^ 32"
  shows "(if i = 1 \<and> isLeapYear (of_nat y) then 29 else sDaysOfMonth ! i) = of_nat (month_length y (Suc i))"
proof -
  have "i = 0 \<or> i = 1 \<or> i = 2 \<or> i = 3 \<or> i = 4 \<or> i = 5 \<or> i = 6 \<or> i = 7 \<or> i = 8 \<or> i = 9 \<or> i = 10 \<or> i = 11"
    using assms(1) by presburger
  then show ?thesis
    by (elim disjE) (simp_all add: sDaysOfMonth_def month_length_def leap_of_nat [OF assms(2)])
qed

lemma months_days_year: "months_days y 12 = year_length y"
  by (simp add: eval_nat_numeral month_length_def year_length_def)

lemma months_days_mono: "i \<le> j \<Longrightarrow> months_days y i \<le> months_days y j"
  by (rule lift_Suc_mono_le [of "months_days y"]) simp_all

section \<open>From a date to the days\<close>

lemma days_of_date:
  assumes "1970 \<le> y" and "y < 2 ^ 32" and "1 \<le> m" and "m \<le> 12" and "1 \<le> d"
  shows "convertCalendarDateToDaysSince1970 \<lparr>mYear = of_nat y, mMonth = of_nat m, mDay = of_nat d, mWeek = w\<rparr> =
    Inr (of_nat (day_number y m d))"
proof -
  obtain n where n: "table_at sDaysSinceJan1 (of_nat m - 1) = Inr (of_nat n)"
      "months_days y (m - 1) = n + (if 3 \<le> m \<and> leap y then 1 else 0)"
    using since_table [OF assms(3,4)] by blast
  obtain k where k: "y = 1970 + k" using assms(1) by (auto simp: le_iff_add)
  obtain d' where d: "d = Suc d'" using assms(5) by (cases d) auto
  have m3: "(3 :: u32) \<le> of_nat m \<longleftrightarrow> 3 \<le> m"
    using of_nat_le32 [of 3 m] assms(4) by simp
  have gt: "(1970 :: u32) < of_nat y \<longleftrightarrow> 1970 < y"
    using of_nat_less32 [of 1970 y] assms(2) by simp
  have loop: "leap_loop 1970 (of_nat y) z = z + of_nat (leap_days 1970 y)" for z
    using leap_loop_days [of 1970 y z] assms(1,2) by simp
  have yd: "years_days (y - 1970) = 365 * k + leap_days 1970 y"
    using years_days_leap [of k] k by simp
  have y: "(of_nat y :: u32) - 1970 = of_nat k" using k by simp
  have yk: "(of_nat y :: u32) = 1970 + of_nat k" using k by simp
  have none: "\<not> 1970 < y \<Longrightarrow> leap_days 1970 y = 0" using assms(1) by simp
  have num: "day_number y m d = 365 * k + leap_days 1970 y + (n + (if 3 \<le> m \<and> leap y then 1 else 0)) + d'"
    unfolding day_number_def yd n(2) using d by simp
  show ?thesis
    unfolding convertCalendarDateToDaysSince1970_def num
    using none n(1) d
    by (auto simp: Let_def m3 leap_of_nat [OF assms(2)] gt loop y algebra_simps) (simp_all add: yk algebra_simps)
qed

section \<open>From the days to a date\<close>

lemma years_loop_step:
  assumes "i' = i + (if isLeapYear (year + 1) then 366 else 365)"
  shows "years_loop days i year = (if i' \<le> days then years_loop days i' (year + 1) else Some (days - i, year + 1))"
  unfolding assms by (subst years_loop.simps) (simp add: Let_def)

lemma years_loop_year:
  assumes "1970 + k < 2 ^ 32"
  shows "years_loop days (of_nat (years_days k)) (of_nat (1969 + k)) =
    (if of_nat (years_days (Suc k)) \<le> days then years_loop days (of_nat (years_days (Suc k))) (of_nat (1969 + Suc k))
     else Some (days - of_nat (years_days k), of_nat (1970 + k)))"
proof -
  have y: "(of_nat (1969 + k) :: u32) + 1 = of_nat (1970 + k)" by simp
  show ?thesis
    using years_loop_step [of "of_nat (years_days (Suc k))" "of_nat (years_days k)" "of_nat (1969 + k)" days]
      leap_of_nat [OF assms] unfolding y by (simp add: year_length_def)
qed

lemma years_loop_days:
  "k \<le> n \<Longrightarrow> years_days n \<le> days \<Longrightarrow> days < years_days (Suc n) \<Longrightarrow> years_days (Suc n) < 2 ^ 32 \<Longrightarrow>
   years_loop (of_nat days) (of_nat (years_days k)) (of_nat (1969 + k)) =
     Some (of_nat (days - years_days n), of_nat (1970 + n))"
proof (induction "n - k" arbitrary: k)
  case (0 k)
  then have "k = n" by simp
  have n: "1970 + n < 2 ^ 32" using 0 years_days_ge [of "Suc n"] by simp
  have "\<not> (of_nat (years_days (Suc n)) :: u32) \<le> of_nat days"
    using 0 by (subst of_nat_le32) auto
  then show ?case
    using years_loop_year [OF n, of "of_nat days"] \<open>k = n\<close> 0 by (simp only: if_False of_nat_diff)
next
  case (Suc j k)
  then have "k < n" by simp
  have n: "1970 + k < 2 ^ 32" using Suc \<open>k < n\<close> years_days_ge [of "Suc n"] by simp
  have "years_days (Suc k) \<le> days"
    using Suc years_days_mono [of "Suc k" n] \<open>k < n\<close> by simp
  then have "(of_nat (years_days (Suc k)) :: u32) \<le> of_nat days"
    using Suc by (subst of_nat_le32) auto
  then have "years_loop (of_nat days) (of_nat (years_days k)) (of_nat (1969 + k)) =
      years_loop (of_nat days) (of_nat (years_days (Suc k))) (of_nat (1969 + Suc k))"
    using years_loop_year [OF n, of "of_nat days"] by (simp only: if_True)
  moreover have "j = n - Suc k" "Suc k \<le> n" using Suc.hyps(2) \<open>k < n\<close> by simp_all
  ultimately show ?case
    using Suc.hyps(1) [of "Suc k"] Suc.prems by (simp only:)
qed

text \<open>Every number of days lies in a year and, less the days of the years before, in a month.\<close>

lemma step_between:
  fixes f :: "nat \<Rightarrow> nat"
  assumes "f 0 \<le> x" and "x < f n"
  obtains k where "k < n" and "f k \<le> x" and "x < f (Suc k)"
proof -
  have "\<exists>k < n. f k \<le> x \<and> x < f (Suc k)"
    using assms by (induction n) (force simp: not_less less_Suc_eq)+
  then show ?thesis using that by blast
qed

lemma year_of_days:
  obtains n where "years_days n \<le> days" and "days < years_days (Suc n)"
proof -
  have "days < years_days (Suc days)"
    using years_days_ge [of "Suc days"] by (simp del: years_days.simps)
  then show ?thesis
    using step_between [of years_days days "Suc days"] that by auto
qed

lemma month_loop_month:
  assumes "i < 12" and "y < 2 ^ 32"
  shows "month_loop days (of_nat y) i (of_nat (months_days y i)) =
    (if days < of_nat (months_days y (Suc i)) then (of_nat (months_days y i), i)
     else if i + 1 < 12 then month_loop days (of_nat y) (Suc i) (of_nat (months_days y (Suc i)))
     else (of_nat (months_days y i), i + 1))"
  by (subst month_loop.simps) (simp only: month_step [OF assms] Let_def of_nat_add Suc_eq_plus1
      months_days.simps(2) [of y i, unfolded Suc_eq_plus1])

lemma months_bound:
  assumes "i < 12"
  shows "months_days y (Suc i) \<le> 366"
  using months_days_mono [of "Suc i" 12 y] assms by (simp add: months_days_year year_length_def split: if_splits)

lemma month_loop_days:
  "j \<le> i \<Longrightarrow> i < 12 \<Longrightarrow> y < 2 ^ 32 \<Longrightarrow> months_days y i \<le> days \<Longrightarrow> days < months_days y (Suc i) \<Longrightarrow>
   month_loop (of_nat days) (of_nat y) j (of_nat (months_days y j)) = (of_nat (months_days y i), i)"
proof (induction "i - j" arbitrary: j)
  case (0 j)
  then have "j = i" by simp
  have "(of_nat days :: u32) < of_nat (months_days y (Suc i))"
    using 0 months_bound [of i y] by (subst of_nat_less32) auto
  then show ?case
    using \<open>j = i\<close> month_loop_month [OF 0(3,4), of "of_nat days"] by (simp only: if_True)
next
  case (Suc l j)
  then have "j < i" by simp
  have "months_days y (Suc j) \<le> days"
    using months_days_mono [of "Suc j" i y] Suc.prems(4) \<open>j < i\<close> by simp
  then have "\<not> (of_nat days :: u32) < of_nat (months_days y (Suc j))"
    using months_bound [OF Suc.prems(2), of y] Suc.prems(5) by (subst of_nat_less32) auto
  moreover have "j < 12" "j + 1 < 12" using \<open>j < i\<close> Suc.prems(2) by simp_all
  ultimately have "month_loop (of_nat days) (of_nat y) j (of_nat (months_days y j)) =
      month_loop (of_nat days) (of_nat y) (Suc j) (of_nat (months_days y (Suc j)))"
    using month_loop_month [of j y "of_nat days"] Suc.prems(3) by (simp only: if_True if_False)
  moreover have "l = i - Suc j" "Suc j \<le> i" using Suc.hyps(2) \<open>j < i\<close> by simp_all
  ultimately show ?case
    using Suc.hyps(1) [of "Suc j"] Suc.prems by (simp only:)
qed

text \<open>A date that exists, from 1970 on: where the count of the days begins.\<close>

definition date_since_1970 :: "nat \<Rightarrow> nat \<Rightarrow> nat \<Rightarrow> bool" where
  "date_since_1970 y m d \<longleftrightarrow> 1970 \<le> y \<and> 1 \<le> m \<and> m \<le> 12 \<and> 1 \<le> d \<and> d \<le> month_length y m"

lemma date_of_days:
  assumes "date_since_1970 y m d" and "years_days (Suc (y - 1970)) < 2 ^ 32"
  shows "\<exists>r. convertDaysToYears (of_nat (day_number y m d)) = Some (r, of_nat y) \<and>
    convertDaysToMonth r (of_nat y) = (of_nat d, of_nat m)"
proof -
  let ?n = "y - 1970" and ?r = "months_days y (m - 1) + (d - 1)"
  have y: "y = 1970 + ?n" using assms(1) by (simp add: date_since_1970_def)
  have m: "m - 1 < 12" "Suc (m - 1) = m" using assms(1) by (auto simp: date_since_1970_def)
  have r: "months_days y (m - 1) \<le> ?r" "?r < months_days y (Suc (m - 1))"
    using assms(1) m(2) months_days.simps(2) [of y "m - 1"] by (auto simp: date_since_1970_def)
  have "?r < year_length y"
    using r(2) months_days_mono [of "Suc (m - 1)" 12 y] m(1) by (simp add: months_days_year)
  then have "years_days ?n \<le> day_number y m d" "day_number y m d < years_days (Suc ?n)"
    using y by (simp_all add: day_number_def)
  then have "convertDaysToYears (of_nat (day_number y m d)) =
      Some (of_nat (day_number y m d - years_days ?n), of_nat y)"
    using years_loop_days [of 0 ?n "day_number y m d"] assms(2) y by (simp add: convertDaysToYears_def)
  moreover have "day_number y m d - years_days ?n = ?r" by (simp add: day_number_def)
  moreover have "365 * Suc ?n < 2 ^ 32"
    using assms(2) years_days_ge [of "Suc ?n"] by (rule order_le_less_trans [rotated])
  then have "y < 2 ^ 32" using y by simp
  then have "month_loop (of_nat ?r) (of_nat y) 0 (of_nat (months_days y 0)) = (of_nat (months_days y (m - 1)), m - 1)"
    using month_loop_days [of 0 "m - 1" y ?r] m(1) r by simp
  then have loop: "month_loop (of_nat ?r) (of_nat y) 0 0 = (of_nat (months_days y (m - 1)), m - 1)"
    by (simp only: months_days.simps semiring_1_class.of_nat_0)
  have "(of_nat ?r :: u32) - (of_nat (months_days y (m - 1)) - 1) = of_nat d" "1 + of_nat (m - 1) = (of_nat m :: s32)"
    using assms(1) by (simp_all add: date_since_1970_def of_nat_diff)
  then have "convertDaysToMonth (of_nat ?r) (of_nat y) = (of_nat d, of_nat m)"
    by (simp only: convertDaysToMonth_def loop prod.case)
  ultimately show ?thesis by metis
qed

lemma days_have_date:
  obtains y m d where "date_since_1970 y m d" and "day_number y m d = days"
proof -
  obtain n where n: "years_days n \<le> days" "days < years_days (Suc n)" by (rule year_of_days)
  let ?y = "1970 + n" and ?r = "days - years_days n"
  have "?r < months_days ?y 12" using n by (simp add: months_days_year)
  then obtain i where i: "i < 12" "months_days ?y i \<le> ?r" "?r < months_days ?y (Suc i)"
    using step_between [of "months_days ?y" ?r 12] by auto
  have "date_since_1970 ?y (Suc i) (Suc (?r - months_days ?y i))"
    using i by (auto simp: date_since_1970_def)
  moreover have "day_number ?y (Suc i) (Suc (?r - months_days ?y i)) = days"
    using n i by (simp add: day_number_def)
  ultimately show ?thesis by (rule that)
qed


section \<open>Times and dates\<close>

definition time_ok :: "Time \<Rightarrow> bool" where
  "time_ok t \<longleftrightarrow> unat (mHour t) < 24 \<and> unat (mMinute t) < 60 \<and> unat (mSecond t) < 60"

definition date_ok :: "Date \<Rightarrow> bool" where
  "date_ok d \<longleftrightarrow> date_since_1970 (unat (mYear d)) (unat (mMonth d)) (unat (mDay d)) \<and>
     mWeek d = calcWeekDay (mYear d) (mMonth d) (mDay d)"

definition date_number :: "Date \<Rightarrow> nat" where
  "date_number d = day_number (unat (mYear d)) (unat (mMonth d)) (unat (mDay d))"

definition time_seconds :: "Time \<Rightarrow> nat" where
  "time_seconds t = 3600 * unat (mHour t) + 60 * unat (mMinute t) + unat (mSecond t)"

lemma time_seconds_less: "time_ok t \<Longrightarrow> time_seconds t < 86400"
  by (simp add: time_ok_def time_seconds_def)

lemma ucast32_64: "(ucast (w :: u32) :: u64) = of_nat (unat w)"
  by simp

lemma narrow: "unat (w :: u64) = n \<Longrightarrow> (ucast w :: u32) = of_nat n"
  by (metis of_nat_unat)

lemma time_to_seconds:
  assumes "time_ok t"
  shows "convertCalendarTimeToSeconds t = of_nat (time_seconds t)"
proof -
  have "60 * (60 * mHour t + mMinute t) + mSecond t = (of_nat (time_seconds t) :: u32)"
    by (simp add: time_seconds_def algebra_simps)
  moreover have "unat (of_nat (time_seconds t) :: u32) = time_seconds t"
    using time_seconds_less [OF assms] by (simp add: unat_of_nat take_bit_nat_eq_self)
  ultimately show ?thesis
    unfolding convertCalendarTimeToSeconds_def ucast32_64 by simp
qed

text \<open>The seconds of a date and a time: the days count modulo \<open>2 ^ 32\<close> seconds.\<close>

lemma seconds_of_date:
  assumes "date_ok d" and "time_ok t"
  shows "convertCalendarDateTimeToSeconds d t =
    Inr (of_nat (86400 * date_number d mod 2 ^ 32 + time_seconds t))"
proof -
  let ?y = "unat (mYear d)" and ?m = "unat (mMonth d)" and ?d = "unat (mDay d)"
  have e: "1970 \<le> ?y" "1 \<le> ?m" "?m \<le> 12" "1 \<le> ?d"
    using assms(1) by (simp_all add: date_ok_def date_since_1970_def)
  have "?y < 2 ^ 32" by (rule order_less_le_trans [OF unsigned_less]) simp
  then have "convertCalendarDateToDaysSince1970 d = Inr (of_nat (date_number d))"
    using days_of_date [OF e(1) _ e(2,3,4), of "mWeek d"] by (cases d) (simp add: date_number_def)
  moreover obtain n where "table_at sDaysOfMonth (mMonth d - 1) = Inr n"
    using month_table [OF e(2,3)] by auto
  moreover have "(3600 * 24 * of_nat (date_number d) :: u32) = of_nat (86400 * date_number d)" by simp
  then have "(ucast (3600 * 24 * of_nat (date_number d) :: u32) :: u64) = of_nat (86400 * date_number d mod 2 ^ 32)"
    unfolding ucast32_64 by (simp only: unat_of_nat) (simp add: take_bit_eq_mod)
  ultimately show ?thesis
    using time_to_seconds [OF assms(2)] by (simp add: convertCalendarDateTimeToSeconds_def)
qed

lemma unat_small64: "n < 2 ^ 64 \<Longrightarrow> unat (of_nat n :: u64) = n"
  by (simp add: unat_of_nat take_bit_nat_eq_self)

text \<open>And back: a number of seconds as a date and a time.\<close>

definition time_of :: "nat \<Rightarrow> Time" where
  "time_of n = \<lparr>mHour = of_nat (n div 3600), mMinute = of_nat (n mod 3600 div 60), mSecond = of_nat (n mod 60)\<rparr>"

lemma unat_small32: "n < 2 ^ 32 \<Longrightarrow> unat (of_nat n :: u32) = n"
  by (simp add: unat_of_nat take_bit_nat_eq_self)

lemma time_of_ok:
  assumes "n < 86400"
  shows "time_ok (time_of n)" and "time_seconds (time_of n) = n"
proof -
  have u: "unat (mHour (time_of n)) = n div 3600" "unat (mMinute (time_of n)) = n mod 3600 div 60"
    "unat (mSecond (time_of n)) = n mod 60"
    using assms by (simp_all add: time_of_def unat_small32)
  show "time_ok (time_of n)" using assms by (simp add: time_ok_def u div_less_iff_less_mult)
  have "n = 3600 * (n div 3600) + 60 * (n mod 3600 div 60) + n mod 3600 mod 60"
    by simp
  moreover have "n mod 3600 mod 60 = n mod 60" by (simp add: mod_mod_cancel)
  ultimately show "time_seconds (time_of n) = n" by (simp add: time_seconds_def u)
qed

lemma time_of_seconds:
  assumes "time_ok t"
  shows "time_of (time_seconds t) = t"
proof -
  let ?h = "unat (mHour t)" and ?m = "unat (mMinute t)" and ?s = "unat (mSecond t)"
  have o: "60 * ?m + ?s < 3600" "?s < 60" using assms by (simp_all add: time_ok_def)
  have "time_seconds t div 3600 = ?h"
    by (rule div_nat_eqI) (use o in \<open>simp_all add: time_seconds_def\<close>)
  moreover have "time_seconds t mod 3600 = 60 * ?m + ?s"
    using o(1) by (simp add: time_seconds_def add.assoc)
  then have "time_seconds t mod 3600 div 60 = ?m"
    using o(2) by simp
  moreover have e: "time_seconds t = (60 * ?h + ?m) * 60 + ?s" by (simp add: time_seconds_def)
  have "time_seconds t mod 60 = ?s" using o(2) by (simp only: e mod_mult_self3 mod_less)
  ultimately show ?thesis by (cases t) (simp add: time_of_def)
qed

text \<open>The bound is the largest number of days whose year the search still finds.\<close>

lemma date_number_year:
  assumes "date_since_1970 y m d"
  shows "day_number y m d < years_days (Suc (y - 1970))"
proof -
  have "months_days y (m - 1) + month_length y m = months_days y m"
    using assms months_days.simps(2) [of y "m - 1"] by (simp add: date_since_1970_def)
  also have "\<dots> \<le> year_length y"
    using assms months_days_mono [of m 12 y] by (simp add: date_since_1970_def months_days_year)
  finally show ?thesis
    using assms by (auto simp: day_number_def date_since_1970_def)
qed

lemma calendar_of_seconds:
  assumes "date_ok d" and "n < 86400" and "years_days (Suc (unat (mYear d) - 1970)) < 2 ^ 32"
  shows "getCalendarTime (of_nat (86400 * date_number d + n)) = Some \<lparr>mDate = d, mTime = time_of n\<rparr>"
proof -
  let ?y = "unat (mYear d)" and ?m = "unat (mMonth d)" and ?d = "unat (mDay d)"
  let ?t = "86400 * date_number d + n"
  have e: "date_since_1970 ?y ?m ?d" using assms(1) by (simp add: date_ok_def)
  have "date_number d < 2 ^ 32"
    using date_number_year [OF e] assms(3) by (simp only: date_number_def)
  then have "?t < 2 ^ 64" using assms(2) by simp
  then have u: "unat (of_nat ?t :: u64) = ?t" by (rule unat_small64)
  have "unat ((of_nat ?t :: u64) div 86400) = date_number d"
    unfolding unat_div u using assms(2) by simp
  then have q: "(ucast ((of_nat ?t :: u64) div 86400) :: u32) = of_nat (date_number d)"
    by (metis of_nat_unat)
  have "unat ((of_nat ?t :: u64) mod 86400) = n"
    unfolding unat_mod u using assms(2) by simp
  then have r: "(of_nat ?t :: u64) mod 86400 = of_nat n"
    by (metis of_nat_unat ucast_id)
  have un: "unat (of_nat n :: u64) = n" using assms(2) by (simp add: unat_small64)
  have h: "(ucast ((of_nat n :: u64) div 3600) :: u32) = of_nat (n div 3600)"
    "(ucast ((of_nat n :: u64) mod 3600 div 60) :: u32) = of_nat (n mod 3600 div 60)"
    "(ucast ((of_nat n :: u64) mod 60) :: u32) = of_nat (n mod 60)"
    by (rule narrow, simp add: unat_div unat_mod un)+
  have d: "(of_nat ?y :: u32) = mYear d" "(of_nat ?m :: s32) = mMonth d" "(of_nat ?d :: u32) = mDay d" by simp_all
  obtain rest where days: "convertDaysToYears (of_nat (date_number d)) = Some (rest, mYear d)"
      "convertDaysToMonth rest (mYear d) = (mDay d, mMonth d)"
    using date_of_days [OF e assms(3)] unfolding d date_number_def by blast
  have "make_Date (mYear d) (mMonth d) (mDay d) = d"
    using assms(1) by (cases d) (simp add: make_Date_def date_ok_def)
  moreover have "calcWeek d = d"
    using assms(1) by (cases d) (simp add: calcWeek_def date_ok_def)
  ultimately show ?thesis
    using days by (simp add: getCalendarTime_def q r h Let_def ct_setDate_def ct_setTime_def time_of_def
        CalendarTime_default_def make_CalendarTime_def del: of_nat_add of_nat_mult)
qed

text \<open>
  From the number of seconds and back: exact below \<open>2 ^ 32\<close> seconds (the 7th of February 2106), modulo
  \<open>2 ^ 32\<close> in the days after that.
\<close>

lemma year_in_range: "n < 2 ^ 32 - 366 \<Longrightarrow> years_days k \<le> n \<Longrightarrow> years_days (Suc k) < 2 ^ 32"
  by (simp add: year_length_def split: if_splits)

lemma date_of_number:
  assumes "n < 2 ^ 32 - 366"
  obtains d where "date_ok d" and "date_number d = n" and "years_days (Suc (unat (mYear d) - 1970)) < 2 ^ 32"
proof -
  obtain y m k where e: "date_since_1970 y m k" "day_number y m k = n" by (rule days_have_date)
  have y: "years_days (y - 1970) \<le> n" using e(2) by (simp add: day_number_def)
  then have b: "years_days (Suc (y - 1970)) < 2 ^ 32" using year_in_range [OF assms] by blast
  have "365 * Suc (y - 1970) < 2 ^ 32"
    using b years_days_ge [of "Suc (y - 1970)"] by (rule order_le_less_trans [rotated])
  then have "y < 2 ^ 32" using e(1) by (simp add: date_since_1970_def)
  moreover have "m < 2 ^ 32" "k < 2 ^ 32"
    using e(1) by (auto simp: date_since_1970_def month_length_def split: if_splits)
  ultimately have u: "unat (of_nat y :: u32) = y" "unat (of_nat m :: s32) = m" "unat (of_nat k :: u32) = k"
    by (simp_all add: unat_small32)
  show ?thesis
    by (rule that [of "make_Date (of_nat y) (of_nat m) (of_nat k)"])
      (use e b u in \<open>simp_all add: make_Date_def date_ok_def date_number_def\<close>)
qed

section \<open>Days of the week\<close>

definition leaps_to :: "nat \<Rightarrow> nat" where
  "leaps_to y = y div 4 - y div 100 + y div 400"

lemma leaps_to_int: "int (leaps_to y) = int y div 4 - int y div 100 + int y div 400"
proof -
  have "y div 100 \<le> y div 4" by (rule div_le_mono2) simp_all
  then show ?thesis by (simp add: leaps_to_def of_nat_diff zdiv_int)
qed

lemma leaps_to_Suc: "leaps_to (Suc y) = leaps_to y + (if leap (Suc y) then 1 else 0)"
proof -
  have "y div 100 \<le> y div 4" by (rule div_le_mono2) simp_all
  moreover have "Suc y mod 100 = 0 \<Longrightarrow> Suc y mod 4 = 0" "Suc y mod 400 = 0 \<Longrightarrow> Suc y mod 100 = 0"
    using dvd_trans [of 4 100 "Suc y"] dvd_trans [of 100 400 "Suc y"] by (simp_all add: dvd_eq_mod_eq_0)
  moreover have "Suc y mod 100 = 0 \<Longrightarrow> Suc (y div 100) \<le> Suc (y div 4)"
    using \<open>y div 100 \<le> y div 4\<close> by simp
  ultimately show ?thesis
    by (auto simp: leaps_to_def leap_def div_Suc)
qed

lemma leap_days_closed: "leap_days 1970 (1970 + n) + 477 = leaps_to (1969 + n)"
proof (induction n)
  case 0
  then show ?case by (simp add: leaps_to_def)
next
  case (Suc n)
  then show ?case
    using leap_days_last [of 1970 "1970 + n"] leaps_to_Suc [of "1969 + n"] by simp
qed

lemma years_days_closed:
  assumes "1970 \<le> y"
  shows "int (years_days (y - 1970)) = 365 * int y + int (leaps_to (y - 1)) - 719527"
proof -
  obtain n where n: "y = 1970 + n" using assms by (auto simp: le_iff_add)
  show ?thesis
    using leap_days_closed [of n] n by (simp add: years_days_leap)
qed

lemma cdiv_nonneg: "0 \<le> a \<Longrightarrow> 0 < b \<Longrightarrow> cdiv a b = a div b"
  by (cases "a = 0") (simp_all add: cdiv_def)

lemma cmod_nonneg: "0 \<le> a \<Longrightarrow> 0 < b \<Longrightarrow> cmod a b = a mod b"
  by (simp add: cmod_def cdiv_nonneg minus_div_mult_eq_mod)

lemma zeller_sum:
  "cmod (int d + (int y + cdiv (int y) 4 - cdiv (int y) 100 + cdiv (int y) 400) + cdiv (26 * int m + 16) 10) 7 =
   (int d + (int y + int (leaps_to y)) + (26 * int m + 16) div 10) mod 7"
proof -
  have c: "cdiv (int y) 4 = int y div 4" "cdiv (int y) 100 = int y div 100" "cdiv (int y) 400 = int y div 400"
    "cdiv (26 * int m + 16) 10 = (26 * int m + 16) div 10"
    by (rule cdiv_nonneg; simp)+
  have e: "int y + int y div 4 - int y div 100 + int y div 400 = int y + int (leaps_to y)"
    by (simp add: leaps_to_int)
  have "0 \<le> int d + (int y + int (leaps_to y)) + (26 * int m + 16) div 10" by simp
  then show ?thesis
    unfolding c e by (rule cmod_nonneg) simp
qed

lemma week_day:
  assumes "date_since_1970 y m d" and "y < 2 ^ 31"
  shows "calcWeekDay (of_nat y) (of_nat m) (of_nat d) = int ((day_number y m d + 4) mod 7)"
proof -
  have e: "1970 \<le> y" "1 \<le> m" "m \<le> 12" "1 \<le> d" "d \<le> 31"
    using assms(1) by (auto simp: date_since_1970_def month_length_def split: if_splits)
  have s: "sint (of_nat n :: s32) = int n" if "n < 2 ^ 31" for n
  proof -
    have "unat (of_nat n :: s32) = n" using that by (intro unat_small32) simp
    then show ?thesis using sint_small32 [of "of_nat n"] that by (simp only:)
  qed
  have sy: "sint (of_nat y :: u32) = int y" "sint (of_nat m :: s32) = int m" "sint (of_nat d :: u32) = int d"
    using s assms(2) e by simp_all
  have l: "int (leaps_to y) = int (leaps_to (y - 1)) + (if leap y then 1 else 0)"
    using leaps_to_Suc [of "y - 1"] e(1) by simp
  have n: "int (day_number y m d) = 365 * int y + int (leaps_to (y - 1)) - 719527 + int (months_days y (m - 1)) + int d - 1"
    using years_days_closed [OF e(1)] e(4) by (simp add: day_number_def)
  show ?thesis
  proof (cases "m < 3")
    case True
    have "calcWeekDay (of_nat y) (of_nat m) (of_nat d) =
        (int d + (int (y - 1) + int (leaps_to (y - 1))) + (26 * int (m + 12) + 16) div 10) mod 7"
      using True e(1) zeller_sum [of d "y - 1" "m + 12"] by (simp add: calcWeekDay_def sy of_nat_diff)
    moreover have "m = 1 \<or> m = 2" using True e(2) by presburger
    then have "months_days y (m - 1) = 31 * (m - 1)" "(26 * int (m + 12) + 16) div 10 = 3 * int m + 32"
      by (auto simp: month_length_def)
    moreover have "int (day_number y m d + 4) =
        int d + (int (y - 1) + int (leaps_to (y - 1))) + (3 * int m + 32) + 7 * (52 * int y + 4 * int m - 102798)"
      using n e(1,2) calculation(2) by (simp add: of_nat_diff)
    ultimately show ?thesis
      by (simp only: zmod_int mod_mult_self2 of_nat_numeral)
  next
    case False
    have c: "calcWeekDay (of_nat y) (of_nat m) (of_nat d) =
        (int d + (int y + int (leaps_to y)) + (26 * int m + 16) div 10) mod 7"
      using False zeller_sum [of d y m] by (simp add: calcWeekDay_def sy)
    have "m = 3 \<or> m = 4 \<or> m = 5 \<or> m = 6 \<or> m = 7 \<or> m = 8 \<or> m = 9 \<or> m = 10 \<or> m = 11 \<or> m = 12"
      using False e(3) by presburger
    then have "[0, 31, 59, 90, 120, 151, 181, 212, 243, 273, 304, 334] ! (m - 1) = (26 * int m + 16) div 10 + 7 * (4 * int m - 5) + 1"
      by (elim disjE) simp_all
    moreover have "[0, 31, 59, 90, 120, 151, 181, 212, 243, 273, 304, 334] ! (m - 1) =
        int ([0, 31, 59, 90, 120, 151, 181, 212, 243, 273, 304, 334] ! (m - 1))"
      using nth_map [of "m - 1" "[0, 31, 59, 90, 120, 151, 181, 212, 243, 273, 304, 334]" int] e(2,3) by simp
    ultimately have "int (months_days y (m - 1)) = (26 * int m + 16) div 10 + 7 * (4 * int m - 5) + 1 + (if leap y then 1 else 0)"
      using months_table(3) [of "m - 1" y] False e(3) by simp
    then have "int (day_number y m d + 4) =
        int d + (int y + int (leaps_to y)) + (26 * int m + 16) div 10 + 7 * (52 * int y + (4 * int m - 5) - 102789)"
      using n l by simp
    then show ?thesis
      using c by (simp only: zmod_int mod_mult_self2 of_nat_numeral)
  qed
qed


lemma date_week:
  assumes "date_ok d" and "unat (mYear d) < 2 ^ 31"
  shows "mWeek d = int ((date_number d + 4) mod 7)"
  using week_day [of "unat (mYear d)" "unat (mMonth d)" "unat (mDay d)"] assms
  by (simp add: date_ok_def date_number_def)

section \<open>Other operations\<close>

lemma getYearDays_count:
  assumes "date_since_1970 y m d" and "y < 2 ^ 32"
  shows "getYearDays (make_CalendarTime (of_nat y) (of_nat m) (of_nat d) hour minute second) =
    Inr (of_nat (months_days y (m - 1) + d))"
proof -
  have e: "1 \<le> m" "m \<le> 12" using assms(1) by (simp_all add: date_since_1970_def)
  obtain n where n: "table_at sDaysSinceJan1 (of_nat m - 1) = Inr (of_nat n)"
      "months_days y (m - 1) = n + (if 3 \<le> m \<and> leap y then 1 else 0)"
    using since_table [OF e] by blast
  have t: "sCumulativeNumberOfDays = sDaysSinceJan1" by (simp add: sCumulativeNumberOfDays_def sDaysSinceJan1_def)
  have m3: "(3 :: u32) \<le> of_nat m \<longleftrightarrow> 3 \<le> m"
    using of_nat_le32 [of 3 m] e(2) by simp
  show ?thesis
    using n by (auto simp: getYearDays_def make_CalendarTime_def make_Date_def t m3 leap_of_nat [OF assms(2)] Let_def)
qed

text \<open>Adding months and taking them away again.\<close>

lemma sint_of_nat32:
  assumes "n < 2 ^ 31"
  shows "sint (of_nat n :: s32) = int n"
proof -
  have "unat (of_nat n :: s32) = n" using assms by (intro unat_small32) simp
  then show ?thesis using sint_small32 [of "of_nat n"] assms by (simp only:)
qed

lemma month_add_sub:
  assumes "1 \<le> m" and "m \<le> 12" and "n < 2 ^ 31 - 12"
  shows "fst (month_subSelf (of_nat n) (fst (month_addSelf (of_nat n) (of_nat m)))) = of_nat m"
proof -
  let ?a = "(n + m - 1) mod 12" and ?b = "n mod 12"
  have "cmod (int n + int m - 1) 12 = int ?a"
    using assms(1) by (simp add: cmod_nonneg zmod_int of_nat_diff)
  then have a: "fst (month_addSelf (of_nat n) (of_nat m)) = of_nat (?a + 1)"
    using assms by (simp add: month_addSelf_def sint_of_nat32 Let_def)
  have s: "sint (of_nat (?a + 1) :: s32) = int (?a + 1)" by (rule sint_of_nat32) (simp add: order_less_trans [of _ 12])
  have "int (?a + 1) - cmod (int n) 12 + 12 - 1 = int (?a + (12 - ?b))"
    by (simp add: cmod_nonneg zmod_int of_nat_diff)
  then have b: "(word_of_int (int (?a + 1) - cmod (int n) 12 + 12 - 1) :: s32) = of_nat (?a + (12 - ?b))"
    by (simp only: of_int_of_nat_eq)
  have "(?a + (12 - ?b)) mod 12 = (n + m - 1 + (12 - ?b)) mod 12" by (rule mod_add_left_eq)
  also have "n + m - 1 + (12 - ?b) = m - 1 + 12 * (n div 12 + 1)"
  proof -
    have "12 * q + b + m - 1 + (12 - b) = m - 1 + 12 * (q + 1)" if "b < 12" for q b
      using assms(1) that by auto
    from this [of ?b "n div 12"] show ?thesis by simp
  qed
  also have "(m - 1 + 12 * (n div 12 + 1)) mod 12 = m - 1"
    using assms(2) by (simp only: mod_mult_self2) simp
  finally have e: "(?a + (12 - ?b)) mod 12 = m - 1" .
  have "?a < 12" by simp
  then have "?a + (12 - ?b) < 24" by simp
  then have "?a + (12 - ?b) < 2 ^ 32" by (rule order_less_trans) simp
  then have u: "unat (of_nat (?a + (12 - ?b)) :: s32) = ?a + (12 - ?b)" by (rule unat_small32)
  have "unat ((of_nat (?a + (12 - ?b)) :: s32) mod 12) = m - 1"
    unfolding unat_mod u using e by simp
  then have c: "(of_nat (?a + (12 - ?b)) :: s32) mod 12 = of_nat (m - 1)"
    by (metis of_nat_unat ucast_id)
  have sn: "sint (of_nat n :: s32) = int n" using assms(3) by (intro sint_of_nat32) simp
  show ?thesis
    unfolding a month_subSelf_def Let_def fst_conv s sn b c using assms(1) by (simp add: of_nat_diff)
qed

text \<open>A span of time that is not negative comes back from its days, hours, minutes and seconds.\<close>

lemma scast_ucast_small:
  assumes "unat (w :: u64) < 2 ^ 31"
  shows "(scast (ucast w :: s32) :: s64) = w"
proof -
  have u: "(ucast w :: s32) = of_nat (unat w)" by (rule narrow) simp
  have "sint (ucast w :: s32) = int (unat w)"
    unfolding u by (rule sint_of_nat32 [OF assms])
  then show ?thesis
    by (simp add: scast_eq)
qed

lemma unat_of_small64: "unat (w :: u64) = n \<Longrightarrow> w = of_nat n"
  by (metis of_nat_unat ucast_id)

lemma span_roundtrip:
  assumes "unat (span :: s64) < 86400 * 2 ^ 31"
  shows "DateSpan_set (getCalendarSpan span) = span"
proof -
  let ?n = "unat span"
  have small: "n mod k div j < 2 ^ 31" if "0 < k" "k \<le> 86400" for n k j :: nat
  proof -
    have "n mod k div j \<le> n mod k" by (rule div_le_dividend)
    also have "\<dots> < k" using that(1) by (rule mod_less_divisor)
    finally show ?thesis using that(2) by simp
  qed
  have u: "unat (span div 86400) = ?n div 86400" "unat (span mod 86400 div 3600) = ?n mod 86400 div 3600"
    "unat (span mod 3600 div 60) = ?n mod 3600 div 60" "unat (span mod 60) = ?n mod 60"
    by (simp_all add: unat_div unat_mod)
  have "?n div 86400 < 2 ^ 31" using assms by (simp add: div_less_iff_less_mult)
  moreover have "?n mod 86400 div 3600 < 2 ^ 31" "?n mod 3600 div 60 < 2 ^ 31" "?n mod 60 < 2 ^ 31"
    using small [of 86400 ?n 3600] small [of 3600 ?n 60] small [of 60 ?n 1] by simp_all
  ultimately have s: "(scast (ucast (span div 86400) :: s32) :: s64) = of_nat (?n div 86400)"
    "(scast (ucast (span mod 86400 div 3600) :: s32) :: s64) = of_nat (?n mod 86400 div 3600)"
    "(scast (ucast (span mod 3600 div 60) :: s32) :: s64) = of_nat (?n mod 3600 div 60)"
    "(scast (ucast (span mod 60) :: s32) :: s64) = of_nat (?n mod 60)"
    using u by (simp_all add: scast_ucast_small unat_of_small64)
  have "86400 * a + 3600 * b + 60 * c + d = n"
    if "n = 86400 * a + r" "r = 3600 * b + r'" "r' = 60 * c + d" for n a b c d r r' :: nat
    using that by simp
  moreover have "?n = 86400 * (?n div 86400) + ?n mod 86400" by simp
  moreover have "?n mod 86400 mod 3600 = ?n mod 3600" "?n mod 3600 mod 60 = ?n mod 60" by (simp_all add: mod_mod_cancel)
  then have "?n mod 86400 = 3600 * (?n mod 86400 div 3600) + ?n mod 3600"
    "?n mod 3600 = 60 * (?n mod 3600 div 60) + ?n mod 60"
    using mult_div_mod_eq [of 3600 "?n mod 86400"] mult_div_mod_eq [of 60 "?n mod 3600"] by simp_all
  ultimately have "86400 * (?n div 86400) + 3600 * (?n mod 86400 div 3600) + 60 * (?n mod 3600 div 60) + ?n mod 60 = ?n"
    by blast
  from arg_cong [OF this, of "of_nat :: nat \<Rightarrow> s64"]
  show ?thesis
    by (simp add: DateSpan_set_def getCalendarSpan_def calcSecondToCalendarSpan_def setTimeImpl_def s)
qed

text \<open>A negative one does not: it is read as a number of seconds near \<open>2 ^ 64\<close>.\<close>

lemma span_negative:
  "cs_mHour (getCalendarSpan (-1)) = 7 \<and> cs_mMinute (getCalendarSpan (-1)) = 0 \<and> cs_mSecond (getCalendarSpan (-1)) = 15"
  by code_simp

section \<open>The search for the year does not always end\<close>

lemma years_loop_diverges: "years_loop (- 1) i year = None"
proof (cases "years_loop (- 1) i year")
  case (Some r)
  have "(days :: u32) \<noteq> - 1" if "years_loop days i year = Some r" for days i year r
    by (rule years_loop.raw_induct [OF _ that]) (auto simp: Let_def split: if_splits)
  then show ?thesis using Some by blast
qed simp


text \<open>
  C35: a number of seconds since 1970 turned into a calendar date and back (\<open>DateTime::getCalendarTime\<close>,
  \<open>DateTime::setUnixTime\<close>). For every number of seconds of the first \<open>2 ^ 32 - 366\<close> days the search for the
  year ends, the date exists, has the right day of the week and lies exactly that many days and seconds
  after the start of 1970. Going back, the days are multiplied by 86400 in 32 bits: the result is the
  number itself exactly before day 49711, the 8th of February 2106, from which on the seconds of the whole days are
  only right modulo \<open>2 ^ 32\<close>.
\<close>
theorem unix_time_roundtrip:
  assumes "unat t < 86400 * (2 ^ 32 - 366)"
  shows "\<exists>c t'. getCalendarTime t = Some c \<and> date_ok (mDate c) \<and> time_ok (mTime c) \<and>
    date_number (mDate c) = unat t div 86400 \<and> time_seconds (mTime c) = unat t mod 86400 \<and>
    mWeek (mDate c) = int ((unat t div 86400 + 4) mod 7) \<and>
    setUnixTime c = Inr t' \<and> unat t' = 86400 * (unat t div 86400) mod 2 ^ 32 + unat t mod 86400 \<and>
    (t' = t \<longleftrightarrow> unat t < 86400 * 49711)"
proof -
  let ?n = "unat t div 86400" and ?r = "unat t mod 86400"
  have r: "?r < 86400" by simp
  have "?n < 2 ^ 32 - 366" using assms by (simp add: div_less_iff_less_mult)
  then obtain d where d: "date_ok d" "date_number d = ?n" "years_days (Suc (unat (mYear d) - 1970)) < 2 ^ 32"
    by (rule date_of_number)
  have "t = of_nat (86400 * ?n + ?r)" by simp
  then have c: "getCalendarTime t = Some \<lparr>mDate = d, mTime = time_of ?r\<rparr>"
    using calendar_of_seconds [OF d(1) r d(3)] d(2) by (simp only:)
  define t' where "t' = (of_nat (86400 * ?n mod 2 ^ 32 + ?r) :: u64)"
  have s: "setUnixTime \<lparr>mDate = d, mTime = time_of ?r\<rparr> = Inr t'"
    using seconds_of_date [OF d(1) time_of_ok(1) [OF r]] time_of_ok(2) [OF r] d(2)
    by (simp add: setUnixTime_def t'_def del: of_nat_add)
  have u: "unat t' = 86400 * ?n mod 2 ^ 32 + ?r"
  proof -
    have "86400 * ?n mod 2 ^ 32 < 2 ^ 32" by simp
    then have "86400 * ?n mod 2 ^ 32 + ?r < 2 ^ 64" using r by simp
    then show ?thesis unfolding t'_def by (rule unat_small64)
  qed
  have whole: "86400 * ?n + ?r = unat t" by simp
  have small: "t' = t \<longleftrightarrow> unat t < 86400 * 49711"
  proof (cases "?n < 49711")
    case True
    then have "unat t' = unat t" using u whole by simp
    moreover have "unat t < 86400 * 49711" using True r whole by linarith
    ultimately show ?thesis by (metis unat_of_small64)
  next
    case False
    have "86400 * ?n mod 2 ^ 32 < 2 ^ 32" by simp
    moreover have "2 ^ 32 \<le> 86400 * ?n" and "\<not> unat t < 86400 * 49711" using False whole by simp_all
    moreover have "unat t' < unat t" using u whole calculation(1,2) by linarith
    ultimately show ?thesis by auto
  qed
  have "365 * Suc (unat (mYear d) - 1970) < 2 ^ 32"
    using d(3) years_days_ge [of "Suc (unat (mYear d) - 1970)"] by (rule order_le_less_trans [rotated])
  then have "mWeek d = int ((?n + 4) mod 7)"
    using date_week [OF d(1)] d(2) by simp
  then show ?thesis
    using c s u small d time_of_ok [OF r] by auto
qed

theorem unix_time_roundtrip_witness:
  "\<exists>c. getCalendarTime 951782399 = Some c \<and> setUnixTime c = Inr 951782399 \<and> mWeek (mDate c) = 1 \<and>
     (\<exists>c. getCalendarTime (2 ^ 32 + 10 ^ 6) = Some c \<and> setUnixTime c \<noteq> Inr (2 ^ 32 + 10 ^ 6))"
proof -
  have u: "unat (2 ^ 32 + 10 ^ 6 :: u64) = 4295967296" by simp
  obtain c where c: "getCalendarTime 951782399 = Some c" "setUnixTime c = Inr 951782399" "mWeek (mDate c) = 1"
    using unix_time_roundtrip [of 951782399] by auto
  obtain c2 t2 where c2: "getCalendarTime (2 ^ 32 + 10 ^ 6) = Some c2" "setUnixTime c2 = Inr t2"
      "unat t2 = 86400 * (4295967296 div 86400) mod 2 ^ 32 + 4295967296 mod 86400"
    using unix_time_roundtrip [of "2 ^ 32 + 10 ^ 6"] unfolding u by auto
  have "t2 \<noteq> 2 ^ 32 + 10 ^ 6" using c2(3) by auto
  then show ?thesis using c c2 by auto
qed

text \<open>
  a calendar date and a time of the years 1970 to 2105 turned into seconds since 1970 and back gives
  the same date and time, the day of the week included.
\<close>
theorem calendar_roundtrip:
  assumes "date_ok (mDate c)" and "time_ok (mTime c)" and "unat (mYear (mDate c)) < 2106"
  shows "\<exists>t. setUnixTime c = Inr t \<and> unat t = 86400 * date_number (mDate c) + time_seconds (mTime c) \<and>
    getCalendarTime t = Some c"
proof -
  let ?d = "mDate c" and ?t = "86400 * date_number (mDate c) + time_seconds (mTime c)"
  have "years_days (Suc (unat (mYear ?d) - 1970)) \<le> years_days 136"
    by (rule years_days_mono) (use assms(3) in simp)
  moreover have "leap_days 1970 2106 = 33"
    using leap_days_closed [of 136] by (simp add: leaps_to_def)
  then have "years_days 136 = 49673"
    by (simp add: years_days_leap)
  ultimately have y: "years_days (Suc (unat (mYear ?d) - 1970)) \<le> 49673" by (simp only:)
  have n: "date_number ?d < 49673"
    using date_number_year assms(1) y by (fastforce simp: date_ok_def date_number_def)
  have s: "time_seconds (mTime c) < 86400" by (rule time_seconds_less [OF assms(2)])
  have "setUnixTime c = Inr (of_nat ?t)"
    using seconds_of_date [OF assms(1,2)] n by (simp add: setUnixTime_def del: of_nat_add of_nat_mult)
  moreover have "unat (of_nat ?t :: u64) = ?t"
    by (rule unat_small64) (use n s in simp)
  moreover have "getCalendarTime (of_nat ?t) = Some c"
    using calendar_of_seconds [OF assms(1) s] y time_of_seconds [OF assms(2)] by simp
  ultimately show ?thesis by blast
qed

theorem calendar_roundtrip_witness:
  "\<exists>t. setUnixTime (make_CalendarTime 2020 2 29 12 30 59) = Inr t \<and>
     getCalendarTime t = Some (make_CalendarTime 2020 2 29 12 30 59)"
proof -
  let ?c = "make_CalendarTime 2020 2 29 12 30 59"
  have "date_ok (mDate ?c)" "time_ok (mTime ?c)" "unat (mYear (mDate ?c)) < 2106"
    by (simp_all add: make_CalendarTime_def make_Date_def date_ok_def date_since_1970_def month_length_def leap_def time_ok_def)
  then show ?thesis using calendar_roundtrip [of ?c] by auto
qed

end
