(* ===== verification/Date_Parse.thy ===== *)
theory Date_Parse
  imports Calendar String_Tokens
begin

text \<open>
  Reading a date in the W3C format (\<open>DateUtil::parseW3CDTFString\<close> of \<open>sead/time/seadDateUtil.cpp\<close>) over the
  strings of \<open>Safe_String\<close>. \<open>StringUtil::tryParseU32\<close>, which has no body in the sources, is a parameter: the
  number a text stands for in base 10, if it does.
\<close>

section \<open>One number\<close>

text \<open>
  \<open>parseW3CDTFSubString\<close>: failed; the last number of the string; or a number, the rest of the string with
  its length, and the separator in between.
\<close>

datatype sub_result = Sub_fail | Sub_end u32 | Sub_more u32 "char list" int char

definition parseW3CDTFSubString ::
    "(string \<Rightarrow> u32 option) \<Rightarrow> char list \<Rightarrow> int \<Rightarrow> int \<Rightarrow> string \<Rightarrow> bool \<Rightarrow> u32 \<Rightarrow> u32 \<Rightarrow> sub_result res" where
  "parseW3CDTFSubString tryParseU32 str str_length parse_length separators allow_null value_min value_max =
     (if str_length < parse_length then Inr Sub_fail
      else let c = string_at parse_length str in
           if \<not> include_char c (cells separators) \<and> (\<not> allow_null \<or> c \<noteq> nul) then Inr Sub_fail
           else rbind (string_copy str parse_length (replicate 8 nul)) (\<lambda>(buffer, n).
             (case tryParseU32 (c_str buffer) of
                None \<Rightarrow> Inr Sub_fail
              | Some v \<Rightarrow>
                  if v < value_min \<or> v > value_max then Inr Sub_fail
                  else if c = nul then Inr (Sub_end v)
                  else Inr (Sub_more v (getPart (parse_length + 1) str) (str_length - (parse_length + 1)) c))))"

section \<open>The whole string\<close>

record w3c =
  w_year :: u32
  w_month :: u32
  w_day :: u32
  w_hour :: u32
  w_minute :: u32
  w_second :: u32
  w_tz_hour :: s32
  w_tz_minute :: s32

definition w3c_new :: w3c where
  "w3c_new = \<lparr>w_year = 1970, w_month = 1, w_day = 1, w_hour = 0, w_minute = 0, w_second = 0,
     w_tz_hour = 0, w_tz_minute = 0\<rparr>"

text \<open>An early return gives what was read so far, or \<open>None\<close> when the string is refused.\<close>

definition sub_then :: "sub_result res \<Rightarrow> (u32 \<Rightarrow> w3c) \<Rightarrow> (w3c \<Rightarrow> char list \<Rightarrow> int \<Rightarrow> char \<Rightarrow> w3c option res) \<Rightarrow> w3c option res" where
  "sub_then r upd k =
     rbind r (\<lambda>r. case r of
        Sub_fail \<Rightarrow> Inr None
      | Sub_end v \<Rightarrow> Inr (Some (upd v))
      | Sub_more v str len separator \<Rightarrow> k (upd v) str len separator)"

text \<open>The offset of the time zone; the second number must end the string.\<close>

definition parse_tz_minute :: "(string \<Rightarrow> u32 option) \<Rightarrow> char \<Rightarrow> w3c \<Rightarrow> char list \<Rightarrow> int \<Rightarrow> w3c option res" where
  "parse_tz_minute tryParseU32 separator w str len =
     rbind (parseW3CDTFSubString tryParseU32 str len 2 [] True 0 59) (\<lambda>r.
       (case r of
          Sub_fail \<Rightarrow> Inr None
        | Sub_end v \<Rightarrow>
            Inr (if len - 2 = 0 then Some (w\<lparr>w_tz_minute := (if separator = CHR ''-'' then - v else v)\<rparr>) else None)
        | Sub_more v str len c \<Rightarrow> Inr None))"

definition parse_tz :: "(string \<Rightarrow> u32 option) \<Rightarrow> w3c \<Rightarrow> char list \<Rightarrow> int \<Rightarrow> char \<Rightarrow> w3c option res" where
  "parse_tz tryParseU32 w str len separator =
     (if separator \<noteq> CHR ''+'' \<and> separator \<noteq> CHR ''-'' then Inr (if len = 0 then Some w else None)
      else sub_then (parseW3CDTFSubString tryParseU32 str len 2 '':'' False 0 11)
             (\<lambda>v. w\<lparr>w_tz_hour := (if separator = CHR ''-'' then - v else v)\<rparr>)
             (\<lambda>w str len c. parse_tz_minute tryParseU32 separator w str len))"

text \<open>A fraction of a second is skipped up to the time zone.\<close>

definition parse_fraction :: "(string \<Rightarrow> u32 option) \<Rightarrow> w3c \<Rightarrow> char list \<Rightarrow> int \<Rightarrow> char \<Rightarrow> w3c option res" where
  "parse_fraction tryParseU32 w str len separator =
     (if separator = CHR ''.''
      then if len = 0 then Inr None
           else let it = token_next str (cells ''+-Z'') tokenBegin in
                if it = tokenEnd str then Inr (Some (w\<lparr>w_tz_hour := 0, w_tz_minute := 0\<rparr>))
                else parse_tz tryParseU32 w (getPart it str) (len - it) (string_at (it - 1) str)
      else parse_tz tryParseU32 w str len separator)"

definition parse_seconds :: "(string \<Rightarrow> u32 option) \<Rightarrow> w3c \<Rightarrow> char list \<Rightarrow> int \<Rightarrow> char \<Rightarrow> w3c option res" where
  "parse_seconds tryParseU32 w str len separator =
     (if separator = CHR '':''
      then sub_then (parseW3CDTFSubString tryParseU32 str len 2 ''.+-Z'' True 0 59)
             (\<lambda>v. w\<lparr>w_second := v\<rparr>) (parse_fraction tryParseU32)
      else parse_tz tryParseU32 w str len separator)"

definition parseW3CDTFStringImpl :: "(string \<Rightarrow> u32 option) \<Rightarrow> char list \<Rightarrow> w3c option res" where
  "parseW3CDTFStringImpl tryParseU32 string =
     sub_then (parseW3CDTFSubString tryParseU32 string (int (calcLength string)) 4 ''-'' True 0 0xFFFFFFFF)
       (\<lambda>v. w3c_new\<lparr>w_year := v\<rparr>) (\<lambda>w str len c.
     sub_then (parseW3CDTFSubString tryParseU32 str len 2 ''-'' True 1 12) (\<lambda>v. w\<lparr>w_month := v\<rparr>) (\<lambda>w str len c.
     sub_then (parseW3CDTFSubString tryParseU32 str len 2 ''T'' True 1 31) (\<lambda>v. w\<lparr>w_day := v\<rparr>) (\<lambda>w str len c.
     sub_then (parseW3CDTFSubString tryParseU32 str len 2 '':'' False 0 23) (\<lambda>v. w\<lparr>w_hour := v\<rparr>) (\<lambda>w str len c.
     sub_then (parseW3CDTFSubString tryParseU32 str len 2 '':+-Z'' True 0 59) (\<lambda>v. w\<lparr>w_minute := v\<rparr>)
       (parse_seconds tryParseU32)))))"

definition parseW3CDTFString ::
    "(string \<Rightarrow> u32 option) \<Rightarrow> char list \<Rightarrow> CalendarTime \<times> CalendarSpan \<Rightarrow> (bool \<times> CalendarTime \<times> CalendarSpan) res" where
  "parseW3CDTFString tryParseU32 string out =
     (case out of (out_time, time_zone) \<Rightarrow>
       rbind (parseW3CDTFStringImpl tryParseU32 string) (\<lambda>ret.
         (case ret of
            None \<Rightarrow> Inr (False, out_time, time_zone)
          | Some w \<Rightarrow>
              let out_time = ct_setDate (make_Date (w_year w) (w_month w) (w_day w)) out_time;
                  out_time = ct_setTime \<lparr>mHour = w_hour w, mMinute = w_minute w, mSecond = w_second w\<rparr> out_time
              in Inr (True, out_time, time_zone\<lparr>cs_mDay := 0, cs_mHour := w_tz_hour w,
                   cs_mMinute := w_tz_minute w, cs_mSecond := 0\<rparr>))))"

section \<open>What a number reads as\<close>

definition reads :: "(string \<Rightarrow> u32 option) \<Rightarrow> string \<Rightarrow> nat \<Rightarrow> bool" where
  "reads P ds n \<longleftrightarrow> no_nul ds \<and> P ds = Some (of_nat n)"

lemma getPart_cells:
  assumes "no_nul s" and "n \<le> length s" and "length s < cMaximumLength"
  shows "getPart (int n) (cells s) = cells (drop n s)"
  using assms by (simp add: getPart_def cells_ok c_str_cells) (simp add: cells_def)

lemma at_cells:
  assumes "no_nul s" and "n \<le> length s" and "length s < cMaximumLength"
  shows "string_at (int n) (cells s) = (if n < length s then s ! n else nul)"
  using assms by (simp add: string_at_def cells_ok c_str_cells) (simp add: cells_def nth_append)

lemma copy_number:
  assumes "no_nul s" and "n \<le> length s" and "n < 8" and "length s < cMaximumLength"
  obtains b m where "string_copy (cells s) (int n) (replicate 8 nul) = Inr (b, m)" and "c_str b = take n s"
proof -
  have b: "buffer_ok (replicate 8 nul)"
    by (simp add: buffer_ok_def string_ok_def cMaximumLength_def)
  have a: "asks (int n) s n" using assms(2) by (simp add: asks_def)
  show ?thesis
    using copy_says [OF source_cells [OF assms(1,4)] a b] assms(3) that by (auto simp: says_def)
qed

lemma no_nul_Cons [simp]: "no_nul (c # s) \<longleftrightarrow> c \<noteq> nul \<and> no_nul s"
  by (auto simp: no_nul_def)

lemma no_nul_Nil [simp]: "no_nul []"
  by (simp add: no_nul_def)

lemma separators_not_nul [simp]:
  "CHR '':'' \<noteq> nul" "CHR ''-'' \<noteq> nul" "CHR ''+'' \<noteq> nul" "CHR ''T'' \<noteq> nul" "CHR ''Z'' \<noteq> nul" "CHR ''.'' \<noteq> nul"
  by (simp_all add: nul_def)

lemma include_loop_nul: "\<not> include_loop n nul m"
  by (induction n nul m rule: include_loop.induct) auto

lemma sub_number:
  assumes "reads P ds v" and "length ds = n" and "n < 8" and "length (ds @ r) < cMaximumLength" and "no_nul r"
    and "vmin \<le> of_nat v" and "of_nat v \<le> vmax"
  shows "parseW3CDTFSubString P (cells (ds @ r)) (int (length (ds @ r))) (int n) seps allow vmin vmax =
    Inr (case r of
           [] \<Rightarrow> if allow then Sub_end (of_nat v) else Sub_fail
         | c # r \<Rightarrow> if include_char c (cells seps) then Sub_more (of_nat v) (cells r) (int (length r)) c else Sub_fail)"
proof -
  have nn: "no_nul (ds @ r)" using assms(1,5) by (simp add: reads_def)
  obtain b m where b: "string_copy (cells (ds @ r)) (int n) (replicate 8 nul) = Inr (b, m)" "c_str b = take n (ds @ r)"
    using copy_number [OF nn _ assms(3,4)] assms(2) by auto
  have t: "take n (ds @ r) = ds" using assms(2) by simp
  have p: "P ds = Some (of_nat v)" using assms(1) by (simp add: reads_def)
  show ?thesis
  proof (cases r)
    case Nil
    have c: "string_at (int n) (cells (ds @ r)) = nul"
      using at_cells [OF nn _ assms(4)] assms(2) Nil by simp
    have "\<not> include_char nul (cells seps)"
      by (simp add: include_char_def include_loop_nul)
    then show ?thesis
      using b t p c assms(2,6,7) Nil by (auto simp: parseW3CDTFSubString_def Let_def)
  next
    case (Cons c r')
    have c: "string_at (int n) (cells (ds @ r)) = c" "c \<noteq> nul"
      using at_cells [OF nn _ assms(4), of n] assms(2,5) Cons by (auto simp: nth_append no_nul_def)
    have g: "getPart (int n + 1) (cells (ds @ r)) = cells r'"
      using getPart_cells [OF nn _ assms(4), of "n + 1"] assms(2) Cons by (simp add: add.commute)
    show ?thesis
      using b t p c g assms(2,6,7) Cons by (auto simp: parseW3CDTFSubString_def Let_def)
  qed
qed


lemma include_cells: "no_nul s \<Longrightarrow> length s < cMaximumLength \<Longrightarrow> include_char c (cells s) \<longleftrightarrow> c \<in> set s"
  by (simp add: include_text cells_ok c_str_cells)

section \<open>A date as a text\<close>

definition is_digit :: "char \<Rightarrow> bool" where
  "is_digit c \<longleftrightarrow> 48 \<le> (of_char c :: nat) \<and> (of_char c :: nat) \<le> 57"

definition dec_value :: "string \<Rightarrow> nat" where
  "dec_value ds = foldl (\<lambda>n c. 10 * n + (of_char c - 48)) 0 ds"

text \<open>What the code relies on of \<open>tryParseU32\<close>: short texts of digits are read in base 10.\<close>

definition decimal_reader :: "(string \<Rightarrow> u32 option) \<Rightarrow> bool" where
  "decimal_reader P \<longleftrightarrow>
     (\<forall>ds. ds \<noteq> [] \<longrightarrow> length ds \<le> 4 \<longrightarrow> list_all is_digit ds \<longrightarrow> P ds = Some (of_nat (dec_value ds)))"

definition dec_digit :: "nat \<Rightarrow> char" where
  "dec_digit n = char_of (48 + n mod 10)"

definition two :: "nat \<Rightarrow> string" where
  "two n = [dec_digit (n div 10), dec_digit n]"

definition four :: "nat \<Rightarrow> string" where
  "four n = [dec_digit (n div 1000), dec_digit (n div 100), dec_digit (n div 10), dec_digit n]"

lemma digit_char: "(of_char (dec_digit n) :: nat) = 48 + n mod 10"
proof -
  have "48 + n mod 10 < 256" by (rule order_less_trans [of _ 58]) simp_all
  then show ?thesis by (simp add: dec_digit_def)
qed

lemma is_digit_digit [simp]: "is_digit (dec_digit n)"
  using mod_less_divisor [of 10 n] by (simp add: is_digit_def digit_char del: mod_less_divisor)

lemma digit_not_nul [simp]: "dec_digit n \<noteq> nul"
  using digit_char [of n] by (auto simp: nul_def)

lemma no_nul_digits [simp]: "no_nul (two n)" "no_nul (four n)"
  using digit_not_nul [symmetric] by (auto simp: no_nul_def two_def four_def)

lemma length_digits [simp]: "length (two n) = 2" "length (four n) = 4"
  by (simp_all add: two_def four_def)

lemma dec_value_two:
  assumes "n < 100"
  shows "dec_value (two n) = n"
proof -
  have "n div 10 mod 10 = n div 10" using assms by simp
  moreover have "n = 10 * (n div 10) + n mod 10" by simp
  ultimately show ?thesis by (simp add: dec_value_def two_def digit_char)
qed

lemma dec_value_four:
  assumes "n < 10000"
  shows "dec_value (four n) = n"
proof -
  have "n = 10 * (n div 10) + n mod 10" by simp
  moreover have "n div 10 = 10 * (n div 100) + n div 10 mod 10" "n div 100 = 10 * (n div 1000) + n div 100 mod 10"
    using mult_div_mod_eq [of 10 "n div 10"] mult_div_mod_eq [of 10 "n div 100"]
    by (simp_all add: div_mult2_eq [symmetric])
  moreover have "n div 1000 mod 10 = n div 1000" using assms by simp
  ultimately show ?thesis
    by (simp add: dec_value_def four_def digit_char)
qed

lemma decimal_readerD:
  assumes "decimal_reader P" and "ds \<noteq> []" and "length ds \<le> 4" and "list_all is_digit ds" and "no_nul ds"
  shows "reads P ds (dec_value ds)"
  using assms unfolding decimal_reader_def reads_def by blast

lemma digits_read [simp]:
  "two n \<noteq> []" "four n \<noteq> []" "list_all is_digit (two n)" "list_all is_digit (four n)"
  by (simp_all add: two_def four_def)

lemma reads_two: "decimal_reader P \<Longrightarrow> n < 100 \<Longrightarrow> reads P (two n) n"
  using decimal_readerD [of P "two n"] dec_value_two [of n] by simp

lemma reads_four: "decimal_reader P \<Longrightarrow> n < 10000 \<Longrightarrow> reads P (four n) n"
  using decimal_readerD [of P "four n"] dec_value_four [of n] by simp

datatype zone = Zulu | Offset bool nat nat

definition zone_text :: "zone \<Rightarrow> string" where
  "zone_text z = (case z of Zulu \<Rightarrow> ''Z''
     | Offset west h m \<Rightarrow> (if west then CHR ''-'' else CHR ''+'') # two h @ CHR '':'' # two m)"

definition zone_ok :: "zone \<Rightarrow> bool" where
  "zone_ok z \<longleftrightarrow> (case z of Zulu \<Rightarrow> True | Offset west h m \<Rightarrow> h < 12 \<and> m < 60)"

definition zone_span :: "zone \<Rightarrow> CalendarSpan" where
  "zone_span z = (case z of
     Zulu \<Rightarrow> \<lparr>cs_mDay = 0, cs_mHour = 0, cs_mMinute = 0, cs_mSecond = 0\<rparr>
   | Offset west h m \<Rightarrow>
       \<lparr>cs_mDay = 0, cs_mHour = (if west then - of_nat h else of_nat h),
        cs_mMinute = (if west then - of_nat m else of_nat m), cs_mSecond = 0\<rparr>)"

definition w3c_text :: "nat \<Rightarrow> nat \<Rightarrow> nat \<Rightarrow> nat \<Rightarrow> nat \<Rightarrow> nat \<Rightarrow> zone \<Rightarrow> string" where
  "w3c_text y m d hour minute second z =
     four y @ CHR ''-'' # two m @ CHR ''-'' # two d @ CHR ''T'' # two hour @ CHR '':'' # two minute @
       CHR '':'' # two second @ zone_text z"


section \<open>Reading back what was written\<close>

text \<open>A step over a number that is followed by its separator, and over one that ends the string.\<close>

lemma then_more:
  assumes "reads P ds v" and "int (length ds) = n" and "n < 8" and "length ds + length r < 100" and "no_nul (c # r)"
    and "c \<in> set seps" and "no_nul seps" and "length seps < 10" and "vmin \<le> of_nat v" and "of_nat v \<le> vmax"
    and "len = int (length ds + length r) + 1"
  shows "sub_then (parseW3CDTFSubString P (cells (ds @ c # r)) len n seps allow vmin vmax) upd k =
    k (upd (of_nat v)) (cells r) (int (length r)) c"
proof -
  have "c \<in> set seps \<longleftrightarrow> include_char c (cells seps)"
    using include_cells [OF assms(7), of c] assms(8) by (simp add: cMaximumLength_def)
  moreover have "int (length (ds @ c # r)) = len" using assms(11) by simp
  ultimately have "parseW3CDTFSubString P (cells (ds @ c # r)) len n seps allow vmin vmax =
      Inr (Sub_more (of_nat v) (cells r) (int (length r)) c)"
    using sub_number [of P ds v "length ds" "c # r" vmin vmax seps allow] assms(1-10) by (simp add: cMaximumLength_def)
  then show ?thesis
    by (simp add: sub_then_def)
qed

lemma tz_text:
  assumes "decimal_reader P" and "zone_ok z"
  shows "parse_tz P w (cells (tl (zone_text z))) (int (length (tl (zone_text z)))) (hd (zone_text z)) =
    Inr (Some (case z of Zulu \<Rightarrow> w
      | Offset west h m \<Rightarrow> w\<lparr>w_tz_hour := (if west then - of_nat h else of_nat h),
          w_tz_minute := (if west then - of_nat m else of_nat m)\<rparr>))"
proof (cases z)
  case Zulu
  then show ?thesis by (simp add: zone_text_def parse_tz_def)
next
  case (Offset west h m)
  have b: "h < 12" "m < 60" using assms(2) Offset by (simp_all add: zone_ok_def)
  have bw: "(of_nat h :: u32) \<le> 11" "(of_nat m :: u32) \<le> 59"
    using of_nat_le32 [of h 11] of_nat_le32 [of m 59] b by simp_all
  have rh: "reads P (two h) h" and rm: "reads P (two m) m"
    using reads_two [OF assms(1)] b by simp_all
  have hour: "sub_then (parseW3CDTFSubString P (cells (two h @ CHR '':'' # two m)) 5 2 '':'' False 0 11) upd k =
      k (upd (of_nat h)) (cells (two m)) 2 CHR '':''" for upd k
    using then_more [OF rh, of 2 "two m" "CHR '':''" "'':''" 0 11 5 False upd k] bw by simp
  have minute: "parseW3CDTFSubString P (cells (two m)) 2 2 [] True 0 59 = Inr (Sub_end (of_nat m))"
    using sub_number [OF rm, of 2 "[]" 0 59 "[]" True] bw by (simp add: cMaximumLength_def)
  show ?thesis
    using Offset hour minute by (simp add: zone_text_def parse_tz_def parse_tz_minute_def)
qed


lemma zone_text_split: "zone_text z = hd (zone_text z) # tl (zone_text z)"
  by (cases z) (simp_all add: zone_text_def)

lemma zone_text_facts:
  "no_nul (zone_text z)" "length (zone_text z) < 10" "hd (zone_text z) \<in> set ''.+-Z''" "hd (zone_text z) \<noteq> CHR ''.''"
  by (cases z; simp add: zone_text_def)+

lemma word_le_numeral: "n \<le> b \<Longrightarrow> b < 2 ^ 32 \<Longrightarrow> (of_nat n :: u32) \<le> of_nat b"
  by (simp add: of_nat_le32)

definition w3c_value :: "nat \<Rightarrow> nat \<Rightarrow> nat \<Rightarrow> nat \<Rightarrow> nat \<Rightarrow> nat \<Rightarrow> zone \<Rightarrow> w3c" where
  "w3c_value y m d hour minute second z =
     \<lparr>w_year = of_nat y, w_month = of_nat m, w_day = of_nat d, w_hour = of_nat hour, w_minute = of_nat minute,
      w_second = of_nat second, w_tz_hour = cs_mHour (zone_span z), w_tz_minute = cs_mMinute (zone_span z)\<rparr>"

lemma impl_reads:
  assumes P: "decimal_reader P" and md: "1 \<le> m" "m \<le> 12" "1 \<le> d" "d \<le> 31" and date: "y < 10000"
    and time: "hour < 24" "minute < 60" "second < 60" and z: "zone_ok z"
  shows "parseW3CDTFStringImpl P (cells (w3c_text y m d hour minute second z)) =
    Inr (Some (w3c_value y m d hour minute second z))"
proof -
  obtain c zr where c: "zone_text z = c # zr" "c \<noteq> nul" "no_nul zr" "length zr < 9" "c \<in> set ''.+-Z''" "c \<noteq> CHR ''.''"
    using zone_text_facts [of z] zone_text_split [of z] by (cases "zone_text z") auto
  let ?s = "two second @ c # zr"
  let ?mi = "two minute @ CHR '':'' # ?s"
  let ?h = "two hour @ CHR '':'' # ?mi"
  let ?d = "two d @ CHR ''T'' # ?h"
  let ?m = "two m @ CHR ''-'' # ?d"
  let ?y = "four y @ CHR ''-'' # ?m"
  have whole: "w3c_text y m d hour minute second z = ?y"
    by (simp add: w3c_text_def c(1))
  have len: "calcLength (cells ?y) = length ?y"
    using c(2-4) by (simp add: cells_ok c_str_cells cMaximumLength_def)
  note r = reads_four [OF P date] reads_two [OF P, of m] reads_two [OF P, of d] reads_two [OF P, of hour]
    reads_two [OF P, of minute] reads_two [OF P, of second]
  have b: "(of_nat m :: u32) \<le> 12" "(of_nat d :: u32) \<le> 31" "(of_nat hour :: u32) \<le> 23"
    "(of_nat minute :: u32) \<le> 59" "(of_nat second :: u32) \<le> 59" "(1 :: u32) \<le> of_nat m" "(1 :: u32) \<le> of_nat d"
    "(of_nat y :: u32) \<le> 0xFFFFFFFF"
    using of_nat_le32 [of m 12] of_nat_le32 [of d 31] of_nat_le32 [of hour 23] of_nat_le32 [of minute 59]
      of_nat_le32 [of second 59] of_nat_le32 [of 1 m] of_nat_le32 [of 1 d] of_nat_le32 [of y "0xFFFFFFFF"] md time date
    by simp_all
  have year: "sub_then (parseW3CDTFSubString P (cells ?y) (int (length ?y)) 4 ''-'' True 0 0xFFFFFFFF) upd k =
      k (upd (of_nat y)) (cells ?m) (int (length ?m)) CHR ''-''" for upd k
    by (rule then_more [OF r(1)]) (use b c in simp_all)
  have month: "sub_then (parseW3CDTFSubString P (cells ?m) (int (length ?m)) 2 ''-'' True 1 12) upd k =
      k (upd (of_nat m)) (cells ?d) (int (length ?d)) CHR ''-''" for upd k
    by (rule then_more [OF r(2)]) (use md b c in simp_all)
  have day: "sub_then (parseW3CDTFSubString P (cells ?d) (int (length ?d)) 2 ''T'' True 1 31) upd k =
      k (upd (of_nat d)) (cells ?h) (int (length ?h)) CHR ''T''" for upd k
    by (rule then_more [OF r(3)]) (use md b c in simp_all)
  have hour: "sub_then (parseW3CDTFSubString P (cells ?h) (int (length ?h)) 2 '':'' False 0 23) upd k =
      k (upd (of_nat hour)) (cells ?mi) (int (length ?mi)) CHR '':''" for upd k
    by (rule then_more [OF r(4)]) (use time b c in simp_all)
  have minute: "sub_then (parseW3CDTFSubString P (cells ?mi) (int (length ?mi)) 2 '':+-Z'' True 0 59) upd k =
      k (upd (of_nat minute)) (cells ?s) (int (length ?s)) CHR '':''" for upd k
    by (rule then_more [OF r(5)]) (use time b c in simp_all)
  have second: "sub_then (parseW3CDTFSubString P (cells ?s) (int (length ?s)) 2 ''.+-Z'' True 0 59) upd k =
      k (upd (of_nat second)) (cells zr) (int (length zr)) c" for upd k
    by (rule then_more [OF r(6)]) (use time b c in simp_all)
  have zone: "parse_tz P w (cells zr) (int (length zr)) c = Inr (Some (case z of Zulu \<Rightarrow> w
      | Offset west h m \<Rightarrow> w\<lparr>w_tz_hour := (if west then - of_nat h else of_nat h),
          w_tz_minute := (if west then - of_nat m else of_nat m)\<rparr>))" for w
    using tz_text [OF P z, of w] by (simp add: c(1))
  show ?thesis
    unfolding parseW3CDTFStringImpl_def whole len year month day hour minute
    by (simp only: parse_seconds_def if_True refl second parse_fraction_def c(6) if_False zone)
      (simp add: w3c_value_def w3c_new_def zone_span_def split: zone.split)
qed

text \<open>
  C36: reading a date in the W3C format (\<open>DateUtil::parseW3CDTFString\<close>). Whatever year of four digits, month, day up to
  31, time of day and time zone of less than twelve hours is written as \<open>YYYY-MM-DDThh:mm:ss\<close> with \<open>Z\<close> or an
  offset, the parser accepts the text and gives back that year, month, day and time, and the zone's hours and
  minutes with its sign; no read or write leaves a buffer. For a date that exists from 1970 on, the day of the
  week it adds is the right one: the days since the Thursday of 1970-01-01, modulo seven, from Sunday.
\<close>
theorem w3c_roundtrip:
  assumes "decimal_reader P" and "1 \<le> m" and "m \<le> 12" and "1 \<le> d" and "d \<le> 31" and "y < 10000"
    and "hour < 24" and "minute < 60" and "second < 60" and "zone_ok z"
  shows "\<exists>t. parseW3CDTFString P (cells (w3c_text y m d hour minute second z)) out = Inr (True, t, zone_span z) \<and>
    mYear (mDate t) = of_nat y \<and> mMonth (mDate t) = of_nat m \<and> mDay (mDate t) = of_nat d \<and>
    mTime t = \<lparr>mHour = of_nat hour, mMinute = of_nat minute, mSecond = of_nat second\<rparr> \<and>
    (1970 \<le> y \<and> d \<le> month_length y m \<longrightarrow> mWeek (mDate t) = int ((day_number y m d + 4) mod 7))"
proof -
  let ?t = "make_CalendarTime (of_nat y) (of_nat m) (of_nat d) (of_nat hour) (of_nat minute) (of_nat second)"
  have "zone_span z = (snd out)\<lparr>cs_mDay := 0, cs_mHour := cs_mHour (zone_span z),
      cs_mMinute := cs_mMinute (zone_span z), cs_mSecond := 0\<rparr>"
    by (cases z; cases "snd out") (simp_all add: zone_span_def)
  moreover have "ct_setTime t (ct_setDate (make_Date a b c) (fst out)) = \<lparr>mDate = make_Date a b c, mTime = t\<rparr>"
    for t a b c
    by (cases "fst out") (simp add: ct_setTime_def ct_setDate_def calcWeek_def make_Date_def)
  ultimately have "parseW3CDTFString P (cells (w3c_text y m d hour minute second z)) out = Inr (True, ?t, zone_span z)"
    using impl_reads [OF assms]
    by (cases out) (simp add: parseW3CDTFString_def w3c_value_def make_CalendarTime_def)
  moreover have "mWeek (mDate ?t) = int ((day_number y m d + 4) mod 7)" if "1970 \<le> y" "d \<le> month_length y m"
    using week_day [of y m d] assms(2-6) that
    by (simp add: make_CalendarTime_def make_Date_def date_since_1970_def)
  ultimately show ?thesis by (simp add: make_CalendarTime_def make_Date_def)
qed

text \<open>A reader of decimal numbers.\<close>

definition read_decimal :: "string \<Rightarrow> u32 option" where
  "read_decimal ds = (if ds \<noteq> [] \<and> list_all is_digit ds then Some (of_nat (dec_value ds)) else None)"

lemma read_decimal_reads: "decimal_reader read_decimal"
  by (simp add: decimal_reader_def read_decimal_def)

theorem w3c_roundtrip_witness:
  "\<exists>t. parseW3CDTFString read_decimal (cells (w3c_text 2022 8 4 23 59 58 (Offset True 9 30)))
      (CalendarTime_default, zone_span Zulu) =
     Inr (True, t, \<lparr>cs_mDay = 0, cs_mHour = - 9, cs_mMinute = - 30, cs_mSecond = 0\<rparr>) \<and>
   mDay (mDate t) = 4 \<and> mWeek (mDate t) = 4"
proof -
  have "years_days (2022 - 1970) = 18993"
    using years_days_closed [of 2022] by (simp add: leaps_to_def)
  moreover have "(7::nat) = Suc (Suc (Suc (Suc (Suc (Suc (Suc 0))))))" by simp
  then have "months_days 2022 7 = 212"
    by (simp only: months_days.simps) (simp add: month_length_def leap_def)
  ultimately have week: "int ((day_number 2022 8 4 + 4) mod 7) = 4"
    by (simp add: day_number_def)
  have long: "4 \<le> month_length 2022 8" by (simp add: month_length_def)
  have z: "zone_ok (Offset True 9 30)" "zone_span (Offset True 9 30) =
      \<lparr>cs_mDay = 0, cs_mHour = - 9, cs_mMinute = - 30, cs_mSecond = 0\<rparr>"
    by (simp_all add: zone_ok_def zone_span_def)
  have "(1::nat) \<le> 8" "(8::nat) \<le> 12" "(1::nat) \<le> 4" "(4::nat) \<le> 31" "(2022::nat) < 10000"
    "(23::nat) < 24" "(59::nat) < 60" "(58::nat) < 60" by simp_all
  from w3c_roundtrip [OF read_decimal_reads this z(1), of "(CalendarTime_default, zone_span Zulu)"] obtain t where
    t: "parseW3CDTFString read_decimal (cells (w3c_text 2022 8 4 23 59 58 (Offset True 9 30)))
      (CalendarTime_default, zone_span Zulu) = Inr (True, t, zone_span (Offset True 9 30))"
    "mDay (mDate t) = of_nat 4"
    "1970 \<le> (2022::nat) \<and> 4 \<le> month_length 2022 8 \<longrightarrow> mWeek (mDate t) = int ((day_number 2022 8 4 + 4) mod 7)"
    by blast
  have "mWeek (mDate t) = 4" using t(3) long unfolding week by simp
  moreover have "mDay (mDate t) = 4" using t(2) by simp
  ultimately show ?thesis using t(1) unfolding z(2) by blast
qed

section \<open>What the parser does not check\<close>

text \<open>A day is only checked against 31: the 30th of February is accepted.\<close>

lemma date_only_accepted:
  assumes P: "decimal_reader P" and "y < 10000" and md: "1 \<le> m" "m \<le> 12" "1 \<le> d" "d \<le> 31"
  shows "parseW3CDTFStringImpl P (cells (four y @ CHR ''-'' # two m @ CHR ''-'' # two d)) =
    Inr (Some (w3c_new\<lparr>w_year := of_nat y, w_month := of_nat m, w_day := of_nat d\<rparr>))"
proof -
  let ?m = "two m @ CHR ''-'' # two d"
  let ?y = "four y @ CHR ''-'' # ?m"
  have len: "calcLength (cells ?y) = length ?y"
    by (simp add: cells_ok c_str_cells cMaximumLength_def)
  note r = reads_four [OF P assms(2)] reads_two [OF P, of m] reads_two [OF P, of d]
  have b: "(of_nat m :: u32) \<le> 12" "(of_nat d :: u32) \<le> 31" "(1 :: u32) \<le> of_nat m" "(1 :: u32) \<le> of_nat d"
    "(of_nat y :: u32) \<le> 0xFFFFFFFF"
    using of_nat_le32 [of m 12] of_nat_le32 [of d 31] of_nat_le32 [of 1 m] of_nat_le32 [of 1 d]
      of_nat_le32 [of y "0xFFFFFFFF"] md assms(2) by simp_all
  have year: "sub_then (parseW3CDTFSubString P (cells ?y) (int (length ?y)) 4 ''-'' True 0 0xFFFFFFFF) upd k =
      k (upd (of_nat y)) (cells ?m) (int (length ?m)) CHR ''-''" for upd k
    by (rule then_more [OF r(1)]) (use b in simp_all)
  have month: "sub_then (parseW3CDTFSubString P (cells ?m) (int (length ?m)) 2 ''-'' True 1 12) upd k =
      k (upd (of_nat m)) (cells (two d)) (int (length (two d))) CHR ''-''" for upd k
    by (rule then_more [OF r(2)]) (use md b in simp_all)
  have "reads P (two d) d" using r(3) md by simp
  then have "parseW3CDTFSubString P (cells (two d)) 2 2 ''T'' True 1 31 = Inr (Sub_end (of_nat d))"
    using sub_number [of P "two d" d 2 "[]" 1 31 "''T''" True] b by (simp add: cMaximumLength_def)
  then have day: "sub_then (parseW3CDTFSubString P (cells (two d)) 2 2 ''T'' True 1 31) upd k =
      Inr (Some (upd (of_nat d)))" for upd k
    by (simp add: sub_then_def)
  show ?thesis
    unfolding parseW3CDTFStringImpl_def len year month length_digits of_nat_numeral day
    by (simp add: w3c_new_def)
qed

text \<open>A time zone of twelve hours or more is refused, although there are some.\<close>

lemma far_zone_refused:
  assumes "decimal_reader P" and "12 \<le> h" and "h < 100" and "no_nul r" and "length r < 50"
  shows "parse_tz P w (cells (two h @ CHR '':'' # r)) (int (length (two h @ CHR '':'' # r))) CHR ''+'' = Inr None"
proof -
  have "reads P (two h) h" using reads_two [OF assms(1,3)] .
  then have p: "P (two h) = Some (of_nat h)" by (simp add: reads_def)
  have nn: "no_nul (two h @ CHR '':'' # r)" using assms(4) by simp
  have l: "length (two h @ CHR '':'' # r) < cMaximumLength" using assms(5) by (simp add: cMaximumLength_def)
  obtain b n where "string_copy (cells (two h @ CHR '':'' # r)) (int 2) (replicate 8 nul) = Inr (b, n)" "c_str b = two h"
    using copy_number [OF nn _ _ l, of 2] by (auto simp: two_def numeral_2_eq_2)
  moreover have "(11 :: u32) < of_nat h" using of_nat_less32 [of 11 h] assms(2,3) by simp
  ultimately have "parseW3CDTFSubString P (cells (two h @ CHR '':'' # r)) (int (length (two h @ CHR '':'' # r))) 2 '':'' False 0 11 =
      Inr Sub_fail"
    using p by (simp add: parseW3CDTFSubString_def Let_def)
  then show ?thesis
    by (simp add: parse_tz_def sub_then_def)
qed

end
