(* ===== verification/Tick_Span.thy ===== *)
theory Tick_Span
  imports Calendar
begin

text \<open>
  The clocks of \<open>sead/time\<close>: spans of ticks and their milliseconds (\<open>seadTickSpan.h\<close>), instants
  (\<open>seadTickTime.h\<close>), and dates in universal time (\<open>seadDateTimeUtc.cpp\<close>, \<open>DateTime::setNow\<close>). The number of
  ticks of a second and the functions of the system's clock are parameters. Signed 64-bit arithmetic wraps
  here; the lemmas say when it does not.
\<close>

section \<open>Spans of ticks\<close>

definition wrap64 :: "int \<Rightarrow> int" where
  "wrap64 i = sint (word_of_int i :: s64)"

definition LLONG_MAX :: int where "LLONG_MAX = 2 ^ 63 - 1"
definition ULLONG_MAX :: int where "ULLONG_MAX = 2 ^ 64 - 1"

definition toMilliSeconds :: "int \<Rightarrow> int \<Rightarrow> int" where
  "toMilliSeconds cFrequency mSpan =
     (if (word_of_int mSpan :: u64) + word_of_int (LLONG_MAX div 1000) < word_of_int (ULLONG_MAX div 1000) - 1
      then cdiv (wrap64 (1000 * mSpan)) cFrequency
      else wrap64 (1000 * cdiv mSpan cFrequency))"

definition toSeconds :: "int \<Rightarrow> int \<Rightarrow> int" where
  "toSeconds cFrequency mSpan = cdiv (toMilliSeconds cFrequency mSpan) 1000"

definition setMicroSeconds :: "int \<Rightarrow> int \<Rightarrow> int" where
  "setMicroSeconds cFrequency usec = cdiv (cdiv (wrap64 (usec * cFrequency)) 1000) 1000"

definition setMilliSeconds :: "int \<Rightarrow> int \<Rightarrow> int" where
  "setMilliSeconds cFrequency msec = cdiv (wrap64 (msec * cFrequency)) 1000"

definition setSeconds :: "int \<Rightarrow> int \<Rightarrow> int" where
  "setSeconds cFrequency sec = wrap64 (sec * cFrequency)"

definition span_add :: "int \<Rightarrow> int \<Rightarrow> int" where
  "span_add a b = wrap64 (a + b)"

definition span_sub :: "int \<Rightarrow> int \<Rightarrow> int" where
  "span_sub a b = wrap64 (a - b)"

text \<open>Instants count ticks from the start of the machine.\<close>

definition tick_diff :: "u64 \<Rightarrow> u64 \<Rightarrow> int" where
  "tick_diff mTick other = sint (mTick - other)"

definition tick_plus :: "int \<Rightarrow> u64 \<Rightarrow> u64" where
  "tick_plus span mTick = mTick + word_of_int span"

definition tick_minus :: "int \<Rightarrow> u64 \<Rightarrow> u64" where
  "tick_minus span mTick = mTick - word_of_int span"

section \<open>Dates of the system's clock\<close>

text \<open>The fields of \<open>nn::time::CalendarTime\<close>.\<close>

record nn_time =
  nn_year :: u32
  nn_month :: u32
  nn_day :: u32
  nn_hour :: u32
  nn_minute :: u32
  nn_second :: u32

definition calendar_of_nn :: "nn_time \<Rightarrow> CalendarTime" where
  "calendar_of_nn t =
     make_CalendarTime (nn_year t) (nn_month t) (nn_day t) (nn_hour t) (nn_minute t) (nn_second t)"

definition nn_of_calendar :: "CalendarTime \<Rightarrow> nn_time" where
  "nn_of_calendar c =
     \<lparr>nn_year = mYear (mDate c), nn_month = mMonth (mDate c), nn_day = mDay (mDate c),
      nn_hour = mHour (mTime c), nn_minute = mMinute (mTime c), nn_second = mSecond (mTime c)\<rparr>"

definition DateTime_setNow :: "nn_time \<Rightarrow> u64 res" where
  "DateTime_setNow now = setUnixTime (calendar_of_nn now)"

definition DateTime_diffToNow :: "nn_time \<Rightarrow> u64 \<Rightarrow> s64 res" where
  "DateTime_diffToNow now mUnixTime = rbind (DateTime_setNow now) (\<lambda>now. Inr (DateTime_diff now mUnixTime))"

definition utc_setUnixTime :: "(nn_time \<Rightarrow> u64) \<Rightarrow> CalendarTime \<Rightarrow> u64" where
  "utc_setUnixTime ToPosixTimeFromUtc c = ToPosixTimeFromUtc (nn_of_calendar c)"

definition utc_getCalendarTime :: "(u64 \<Rightarrow> nn_time) \<Rightarrow> u64 \<Rightarrow> CalendarTime" where
  "utc_getCalendarTime ToCalendarTimeInUtc mUnixTime =
     (let ctime = ToCalendarTimeInUtc mUnixTime;
          c = calendar_of_nn ctime
      in ct_setTime (mTime c) (ct_setDate (mDate c) CalendarTime_default))"

text \<open>From a \<open>DateTime\<close>: its calendar date is handed to the system as it is; \<open>None\<close> when the search for the year does not end.\<close>

definition utc_of_DateTime :: "(nn_time \<Rightarrow> u64) \<Rightarrow> u64 \<Rightarrow> u64 option" where
  "utc_of_DateTime ToPosixTime date_time =
     map_option (\<lambda>c. ToPosixTime (nn_of_calendar c)) (getCalendarTime date_time)"

definition utc_diff :: "u64 \<Rightarrow> u64 \<Rightarrow> s64" where
  "utc_diff mUnixTime time = mUnixTime - time"

section \<open>Milliseconds\<close>

lemma wrap64_small: "- (2 ^ 63) \<le> i \<Longrightarrow> i < 2 ^ 63 \<Longrightarrow> wrap64 i = i"
  by (simp add: wrap64_def sint_sbintrunc' signed_take_bit_int_eq_self)

text \<open>The test keeps the multiplication in range, and leaves out one span that would be in range too.\<close>

lemma milli_guard:
  assumes "- (2 ^ 63) \<le> s" and "s < 2 ^ 63"
  shows "(word_of_int s :: u64) + word_of_int (LLONG_MAX div 1000) < word_of_int (ULLONG_MAX div 1000) - 1 \<longleftrightarrow>
    - (LLONG_MAX div 1000) \<le> s \<and> s < ULLONG_MAX div 1000 - 1 - LLONG_MAX div 1000"
proof -
  have u64: "uint (word_of_int i :: u64) = i mod 2 ^ 64" for i
    by (simp add: uint_word_of_int)
  have l: "LLONG_MAX div 1000 = 9223372036854775" "ULLONG_MAX div 1000 = 18446744073709551"
    by (simp_all add: LLONG_MAX_def ULLONG_MAX_def)
  have "(word_of_int s :: u64) + word_of_int 9223372036854775 = word_of_int (s + 9223372036854775)" by simp
  moreover have "uint (word_of_int (s + 9223372036854775) :: u64) =
      (if s + 9223372036854775 < 0 then s + 9223372036854775 + 2 ^ 64 else s + 9223372036854775)"
  proof (cases "s + 9223372036854775 < 0")
    case True
    have "(s + 9223372036854775) mod 2 ^ 64 = (s + 9223372036854775 + 2 ^ 64) mod 2 ^ 64"
      by (rule mod_add_self2 [symmetric])
    also have "\<dots> = s + 9223372036854775 + 2 ^ 64"
      using True assms(1) by (intro mod_pos_pos_trivial) simp_all
    finally show ?thesis using True by (simp only: u64 if_True)
  next
    case False
    then have "(s + 9223372036854775) mod 2 ^ 64 = s + 9223372036854775"
      using assms(2) by (intro mod_pos_pos_trivial) simp_all
    then show ?thesis using False by (simp only: u64 if_False)
  qed
  moreover have "uint (18446744073709551 - 1 :: u64) = 18446744073709550" by simp
  ultimately show ?thesis
    unfolding l using assms by (auto simp: word_less_def split: if_splits)
qed

text \<open>So the milliseconds are the exact quotient, or that of whole seconds for a span of millions of years.\<close>

lemma toMilliSeconds_exact:
  assumes "\<bar>s\<bar> < 9223372036854775"
  shows "toMilliSeconds f s = cdiv (1000 * s) f"
proof -
  have b: "- (2 ^ 63) \<le> s" "s < 2 ^ 63" using assms by simp_all
  have "(word_of_int s :: u64) + word_of_int (LLONG_MAX div 1000) < word_of_int (ULLONG_MAX div 1000) - 1"
    unfolding milli_guard [OF b] using assms by (auto simp: LLONG_MAX_def ULLONG_MAX_def abs_less_iff)
  moreover have "wrap64 (1000 * s) = 1000 * s"
    using assms by (intro wrap64_small) simp_all
  ultimately show ?thesis by (simp only: toMilliSeconds_def if_True)
qed

lemma cdiv_exact: "0 < b \<Longrightarrow> cdiv (a * b) b = a"
  by (simp add: cdiv_def abs_mult sgn_mult sgn_mult_abs)

text \<open>Milliseconds come back when the ticks of a millisecond are a whole number and the product fits.\<close>

lemma milliseconds_roundtrip:
  assumes "0 < g" and "\<bar>m * g\<bar> < 9223372036854775"
  shows "toMilliSeconds (1000 * g) (setMilliSeconds (1000 * g) m) = m"
proof -
  have "wrap64 (m * (1000 * g)) = m * g * 1000"
    using assms(2) by (subst wrap64_small) (simp_all add: ac_simps)
  then have s: "setMilliSeconds (1000 * g) m = m * g"
    using cdiv_exact [of 1000 "m * g"] by (simp add: setMilliSeconds_def)
  have "cdiv (1000 * (m * g)) (1000 * g) = m"
    using cdiv_exact [of "1000 * g" m] assms(1) by (simp add: ac_simps)
  then show ?thesis
    using toMilliSeconds_exact [OF assms(2)] s by simp
qed

end
