(* ===== verification/Log_Socket.thy ===== *)
theory Log_Socket
  imports Socket_Client
begin

text \<open>
  The socket the log goes through (\<open>server/SocketBase.cpp\<close>, \<open>logger.hpp\<close>, \<open>server/logger.cpp\<close>): the raw
  sending and reading of the base class, the connection with its further ports, the prefix of a line, and
  the name the client gives the log. What the operating system answers is an argument. \<open>ls_sent\<close> lists the
  texts handed to \<open>nn::socket::Send\<close>. The logger exists only in builds with \<open>DEBUGLOG\<close>: the instance is an
  option, and every static function of the class does nothing without it.
\<close>

section \<open>The base class\<close>

text \<open>\<open>isDisableName\<close> is the field of \<open>Logger\<close>; no constructor sets it, so its first value is an argument.\<close>

record log_sock =
  sockName :: string
  ls_port :: u16
  ls_state :: sock_state
  ls_fd :: s32
  ls_flags :: s32
  isDisableName :: bool
  ls_sent :: "string list"

definition SocketBase_new :: "bool \<Rightarrow> bool \<Rightarrow> string \<Rightarrow> log_sock res" where
  "SocketBase_new emu garbage name =
     rbind (strcpy 0x10 name) (\<lambda>n.
       Inr \<lparr>sockName = n, ls_port = 0, ls_state = SOCKET_LOG_UNINITIALIZED, ls_fd = 0,
            ls_flags = (if emu then 0x80 else 0), isDisableName = garbage, ls_sent = []\<rparr>)"

definition log_setName :: "string \<Rightarrow> log_sock \<Rightarrow> log_sock res" where
  "log_setName name s = rbind (strcpy 0x10 name) (\<lambda>n. Inr (s\<lparr>sockName := n\<rparr>))"

definition set_sock_flags :: "s32 \<Rightarrow> log_sock \<Rightarrow> log_sock" where
  "set_sock_flags flags s = s\<lparr>ls_flags := flags\<rparr>"

text \<open>The state is a \<open>u8\<close> with the values of the enumeration.\<close>

fun log_state_code :: "sock_state \<Rightarrow> u8" where
  "log_state_code SOCKET_LOG_UNINITIALIZED = 0"
| "log_state_code SOCKET_LOG_CONNECTED = 1"
| "log_state_code SOCKET_LOG_UNAVAILABLE = 2"
| "log_state_code SOCKET_LOG_DISCONNECTED = 3"

definition log_getLogState :: "log_sock \<Rightarrow> u8" where
  "log_getLogState s = log_state_code (ls_state s)"

definition log_getStateChar :: "u8 \<Rightarrow> string" where
  "log_getStateChar st =
     (if st = log_state_code SOCKET_LOG_CONNECTED then ''Socket Connected''
      else if st = log_state_code SOCKET_LOG_UNAVAILABLE then ''Socket Unavailable''
      else if st = log_state_code SOCKET_LOG_UNINITIALIZED then ''Socket Unitialized''
      else if st = log_state_code SOCKET_LOG_DISCONNECTED then ''Socket Disconnected''
      else ''Unknown State'')"

definition socket_log :: "int \<Rightarrow> string \<Rightarrow> log_sock \<Rightarrow> int \<times> log_sock" where
  "socket_log answer str s =
     (if ls_state s \<noteq> SOCKET_LOG_CONNECTED then (-1, s)
      else (answer, s\<lparr>ls_sent := ls_sent s @ [c_str str]\<rparr>))"

text \<open>
  \<open>strncat (out, buf, n)\<close> into an array of \<open>cap\<close> characters: at most \<open>n\<close> characters of \<open>buf\<close> up to its first
  NUL; without a NUL among them and with fewer than \<open>n\<close> characters in \<open>buf\<close> it reads past the end.
\<close>

definition strncat :: "nat \<Rightarrow> string \<Rightarrow> string \<Rightarrow> nat \<Rightarrow> string res" where
  "strncat cap dst buf n =
     (if length buf < n \<and> no_nul buf then Inl OutOfBounds
      else if length dst + length (c_str (take n buf)) < cap then Inr (dst @ c_str (take n buf))
      else Inl BufferOverflow)"

text \<open>
  The buffer on the stack holds 4096 characters of \<open>junk\<close> before \<open>Recv\<close> writes \<open>bytes\<close> over its start;
  \<open>valread\<close> is the answer of \<open>Recv\<close>, which is negative on an error and becomes a large \<open>size_t\<close> then.
\<close>

definition size_of_int :: "int \<Rightarrow> nat" where
  "size_of_int v = nat (v mod 2 ^ 64)"

definition socket_read_char ::
  "nat \<Rightarrow> string \<Rightarrow> string \<Rightarrow> int \<Rightarrow> string \<Rightarrow> log_sock \<Rightarrow> (int \<times> string) res" where
  "socket_read_char cap junk bytes valread dst s =
     (if ls_state s \<noteq> SOCKET_LOG_CONNECTED then Inr (-2, dst)
      else let buf = bytes @ drop (length bytes) junk
           in rbind (if valread > 0
                     then if nat valread < 0x1000 then Inr (buf[nat valread := nul]) else Inl BufferOverflow
                     else Inr buf) (\<lambda>buf.
              rbind (strncat cap dst buf (size_of_int valread)) (\<lambda>dst. Inr (valread, dst))))"

definition log_getFd :: "log_sock \<Rightarrow> s32" where
  "log_getFd s = (if ls_state s = SOCKET_LOG_CONNECTED then ls_fd s else -1)"

definition log_closeSocket :: "u32 \<Rightarrow> log_sock \<Rightarrow> bool \<times> log_sock" where
  "log_closeSocket result s = (result = 0, s\<lparr>ls_state := SOCKET_LOG_DISCONNECTED\<rparr>)"

section \<open>The logger\<close>

definition ADDITIONAL_LOG_PORT_COUNT :: nat where
  "ADDITIONAL_LOG_PORT_COUNT = 2"

text \<open>
  The answers of the system during \<open>Logger::init\<close>: whether the network request is on hold at the n-th look,
  whether the network is there, the socket, and the result of the i-th \<open>Connect\<close>, which goes to a port.
\<close>

record log_answers =
  la_hold :: "nat \<Rightarrow> bool"
  la_online :: bool
  la_socket :: s32
  la_connect :: "nat \<Rightarrow> u16 \<Rightarrow> u32"

partial_function (option) hold_loop :: "(nat \<Rightarrow> bool) \<Rightarrow> nat \<Rightarrow> nat option" where
  "hold_loop onHold n = (if onHold n then hold_loop onHold (n + 1) else Some n)"

fun connect_loop :: "(nat \<Rightarrow> u16 \<Rightarrow> u32) \<Rightarrow> nat \<Rightarrow> nat \<Rightarrow> u32 \<Rightarrow> u16 \<Rightarrow> bool \<times> u32 \<times> u16" where
  "connect_loop conn i 0 result port = (False, result, port)"
| "connect_loop conn i (Suc n) result port =
     (let result = conn i port
      in if result = 0 then (True, result, port) else connect_loop conn (Suc i) n result (port + 1))"

definition logger_open :: "bool \<Rightarrow> log_answers \<Rightarrow> log_sock \<Rightarrow> u32 \<times> log_sock" where
  "logger_open emu w s =
     (if \<not> emu \<and> \<not> la_online w then (- 1, s\<lparr>ls_state := SOCKET_LOG_UNAVAILABLE\<rparr>)
      else let s = s\<lparr>ls_fd := la_socket w\<rparr>
           in if sint (la_socket w) < 0 then (- 1, s\<lparr>ls_state := SOCKET_LOG_UNAVAILABLE\<rparr>)
              else (case connect_loop (la_connect w) 0 (ADDITIONAL_LOG_PORT_COUNT + 1) 0 (ls_port s) of
                      (ok, result, port) \<Rightarrow>
                        let s = s\<lparr>ls_port := port\<rparr>
                        in if ok
                           then (0, s\<lparr>ls_state := SOCKET_LOG_CONNECTED, isDisableName := False\<rparr>)
                           else (result, s\<lparr>ls_state := SOCKET_LOG_UNAVAILABLE\<rparr>)))"

definition logger_init :: "bool \<Rightarrow> log_answers \<Rightarrow> u16 \<Rightarrow> log_sock \<Rightarrow> (u32 \<times> log_sock) option" where
  "logger_init emu w port s =
     (let s = s\<lparr>ls_port := port\<rparr>
      in if ls_state s \<noteq> SOCKET_LOG_UNINITIALIZED then Some (- 1, s)
         else (case hold_loop (la_hold w) 0 of
                 None \<Rightarrow> None
               | Some _ \<Rightarrow> Some (logger_open emu w s)))"

definition Logger_new :: "bool \<Rightarrow> bool \<Rightarrow> log_answers \<Rightarrow> u16 \<Rightarrow> string \<Rightarrow> log_sock option res" where
  "Logger_new emu garbage w port name =
     rbind (SocketBase_new emu garbage name) (\<lambda>s. Inr (map_option snd (logger_init emu w port s)))"

definition logger_createInstance :: "bool \<Rightarrow> bool \<Rightarrow> log_answers \<Rightarrow> log_sock option res" where
  "logger_createInstance emu garbage w = Logger_new emu garbage w 3080 ''MainLogger''"

text \<open>
  \<open>VSNPrintf\<close> into an array of \<open>n\<close> characters keeps the first \<open>n - 1\<close>; its answer is positive exactly if the
  formatted text is not empty. \<open>None\<close> is a text that cannot be formatted.
\<close>

definition vsnprintf :: "nat \<Rightarrow> string \<Rightarrow> string" where
  "vsnprintf n t = take (n - 1) (c_str t)"

definition log_line :: "log_sock \<Rightarrow> string \<Rightarrow> string" where
  "log_line s buf =
     (if \<not> isDisableName s then vsnprintf 0x510 (''['' @ sockName s @ ''] '' @ buf) else buf)"

definition logger_log :: "int \<Rightarrow> string option \<Rightarrow> log_sock option \<Rightarrow> log_sock option" where
  "logger_log answer formatted inst =
     (case (inst, formatted) of
        (Some s, Some t) \<Rightarrow>
          let buf = vsnprintf 0x500 t
          in if buf \<noteq> [] then Some (snd (socket_log answer (log_line s buf) s)) else inst
      | _ \<Rightarrow> inst)"

definition logger_log_va :: "int \<Rightarrow> string option \<Rightarrow> log_sock option \<Rightarrow> log_sock option" where
  "logger_log_va answer formatted inst =
     (case (inst, formatted) of
        (Some s, Some t) \<Rightarrow>
          let buf = vsnprintf 0x500 t
          in if buf \<noteq> [] then Some (snd (socket_log answer buf s)) else inst
      | _ \<Rightarrow> inst)"

definition logger_setLogName :: "string \<Rightarrow> log_sock option \<Rightarrow> log_sock option res" where
  "logger_setLogName name inst =
     (case inst of None \<Rightarrow> Inr None | Some s \<Rightarrow> rbind (log_setName name s) (\<lambda>s. Inr (Some s)))"

definition logger_enableName :: "log_sock option \<Rightarrow> log_sock option" where
  "logger_enableName = map_option (\<lambda>s. s\<lparr>isDisableName := False\<rparr>)"

definition logger_disableName :: "log_sock option \<Rightarrow> log_sock option" where
  "logger_disableName = map_option (\<lambda>s. s\<lparr>isDisableName := True\<rparr>)"

definition logger_pingSocket :: "int \<Rightarrow> log_sock \<Rightarrow> bool \<times> log_sock" where
  "logger_pingSocket answer s = (case socket_log answer ''ping'' s of (r, s) \<Rightarrow> (r > 0, s))"

section \<open>The connection\<close>

lemma hold_loop_returns: "\<not> onHold n \<Longrightarrow> k \<le> n \<Longrightarrow> \<exists>m. hold_loop onHold k = Some m \<and> \<not> onHold m"
proof (induction "n - k" arbitrary: k)
  case 0
  then show ?case by (subst hold_loop.simps) auto
next
  case (Suc d)
  then show ?case
    by (cases "onHold k") (auto simp: hold_loop.simps [of onHold k] intro!: Suc.hyps)
qed

text \<open>The ports that are tried, in order, and the first of them that answers.\<close>

lemma connect_loop_first:
  assumes "conn (i + k) (port + of_nat k) = 0" and "\<forall>j < k. conn (i + j) (port + of_nat j) \<noteq> 0" and "k < n"
  shows "connect_loop conn i n r port = (True, 0, port + of_nat k)"
  using assms
proof (induction n arbitrary: i k r port)
  case 0
  then show ?case by simp
next
  case (Suc n)
  show ?case
  proof (cases k)
    case 0
    with Suc.prems show ?thesis by simp
  next
    case (Suc m)
    from Suc.prems(2) Suc have first: "conn i port \<noteq> 0" by (metis add.right_neutral semiring_1_class.of_nat_0 zero_less_Suc)
    have "connect_loop conn (Suc i) n (conn i port) (port + 1) = (True, 0, (port + 1) + of_nat m)"
    proof (rule Suc.IH)
      show "conn (Suc i + m) (port + 1 + of_nat m) = 0"
        using Suc.prems(1) \<open>k = Suc m\<close> by (simp add: ac_simps)
      show "\<forall>j < m. conn (Suc i + j) (port + 1 + of_nat j) \<noteq> 0"
      proof (intro allI impI)
        fix j assume "j < m"
        then have "conn (i + Suc j) (port + of_nat (Suc j)) \<noteq> 0"
          using Suc.prems(2) \<open>k = Suc m\<close> by blast
        then show "conn (Suc i + j) (port + 1 + of_nat j) \<noteq> 0" by (simp add: ac_simps)
      qed
      show "m < n" using Suc.prems(3) \<open>k = Suc m\<close> by simp
    qed
    then show ?thesis using first \<open>k = Suc m\<close> by (simp add: ac_simps Let_def)
  qed
qed

lemma connect_loop_none:
  assumes "\<forall>j < n. conn (i + j) (port + of_nat j) \<noteq> 0" and "0 < n"
  shows "connect_loop conn i n r port = (False, conn (i + n - 1) (port + of_nat (n - 1)), port + of_nat n)"
  using assms
proof (induction n arbitrary: i r port)
  case 0
  then show ?case by simp
next
  case (Suc n)
  from Suc.prems(1) have first: "conn i port \<noteq> 0"
    by (metis add.right_neutral semiring_1_class.of_nat_0 zero_less_Suc)
  show ?case
  proof (cases "n = 0")
    case True
    with first show ?thesis by (simp add: Let_def)
  next
    case False
    have "\<forall>j < n. conn (Suc i + j) (port + 1 + of_nat j) \<noteq> 0"
    proof (intro allI impI)
      fix j assume "j < n"
      then have "conn (i + Suc j) (port + of_nat (Suc j)) \<noteq> 0" using Suc.prems(1) by blast
      then show "conn (Suc i + j) (port + 1 + of_nat j) \<noteq> 0" by (simp add: ac_simps)
    qed
    then have "connect_loop conn (Suc i) n (conn i port) (port + 1) =
               (False, conn (Suc i + n - 1) (port + 1 + of_nat (n - 1)), port + 1 + of_nat n)"
      using False by (intro Suc.IH) auto
    moreover have "port + 1 + of_nat (n - 1) = port + of_nat n" "Suc i + n - 1 = i + n"
      using False by (simp_all add: of_nat_diff)
    ultimately show ?thesis using first by (simp add: Let_def add.assoc)
  qed
qed

text \<open>
  The log connects exactly if one of the three ports from the given one on answers, and then the logger
  keeps the first of them; otherwise it gives up for good, with a port that was never tried.
\<close>

theorem logger_init_outcome:
  assumes "ls_state s = SOCKET_LOG_UNINITIALIZED" and "\<not> la_hold w n"
    and "emu \<or> la_online w" and "0 \<le> sint (la_socket w)"
  shows "\<exists>r t. logger_init emu w port s = Some (r, t) \<and>
           (ls_state t = SOCKET_LOG_CONNECTED \<longleftrightarrow> (\<exists>k < 3. la_connect w k (port + of_nat k) = 0)) \<and>
           (\<forall>k < 3. la_connect w k (port + of_nat k) = 0 \<and>
                    (\<forall>j < k. la_connect w j (port + of_nat j) \<noteq> 0) \<longrightarrow>
                    r = 0 \<and> ls_port t = port + of_nat k \<and> \<not> isDisableName t) \<and>
           ((\<forall>k < 3. la_connect w k (port + of_nat k) \<noteq> 0) \<longrightarrow>
                    r \<noteq> 0 \<and> ls_port t = port + 3 \<and> ls_state t = SOCKET_LOG_UNAVAILABLE)"
proof -
  let ?c = "la_connect w" and ?s = "s\<lparr>ls_port := port\<rparr>"
  obtain m where "hold_loop (la_hold w) 0 = Some m"
    using hold_loop_returns [of "la_hold w" n 0] assms(2) by blast
  then have init: "logger_init emu w port s = Some (logger_open emu w ?s)"
    by (simp add: logger_init_def assms(1) Let_def)
  have open_s: "logger_open emu w ?s =
      (case connect_loop ?c 0 3 0 port of
         (ok, result, p) \<Rightarrow>
           let s = ?s\<lparr>ls_fd := la_socket w, ls_port := p\<rparr>
           in if ok then (0, s\<lparr>ls_state := SOCKET_LOG_CONNECTED, isDisableName := False\<rparr>)
              else (result, s\<lparr>ls_state := SOCKET_LOG_UNAVAILABLE\<rparr>))"
    using assms(3,4)
    by (auto simp: logger_open_def ADDITIONAL_LOG_PORT_COUNT_def Let_def split: prod.split simp del: connect_loop.simps)
  show ?thesis
  proof (cases "\<exists>k < 3. ?c k (port + of_nat k) = 0")
    case True
    then obtain i where i: "i < 3" "?c i (port + of_nat i) = 0" by blast
    define k where "k = (LEAST k. ?c k (port + of_nat k) = 0)"
    have k: "k < 3" "?c k (port + of_nat k) = 0" "\<forall>j < k. ?c j (port + of_nat j) \<noteq> 0"
      using Least_le [of "\<lambda>k. ?c k (port + of_nat k) = 0", OF i(2)] i(1)
        LeastI [of "\<lambda>k. ?c k (port + of_nat k) = 0", OF i(2)] not_less_Least
      unfolding k_def by (linarith, blast, blast)
    have "connect_loop ?c 0 3 0 port = (True, 0, port + of_nat k)"
      using k by (intro connect_loop_first) auto
    then have "logger_open emu w ?s =
        (0, ?s\<lparr>ls_fd := la_socket w, ls_port := port + of_nat k, ls_state := SOCKET_LOG_CONNECTED,
              isDisableName := False\<rparr>)"
      using assms(4) by (simp add: open_s Let_def)
    moreover have "j = k" if "?c j (port + of_nat j) = 0 \<and> (\<forall>i < j. ?c i (port + of_nat i) \<noteq> 0)" for j
      using that k(2,3) by (meson linorder_neqE_nat)
    ultimately show ?thesis using True init by auto
  next
    case False
    then have "connect_loop ?c 0 3 0 port = (False, ?c 2 (port + of_nat 2), port + of_nat 3)"
      using connect_loop_none [of 3 ?c 0 port] by simp
    then have "logger_open emu w ?s =
        (?c 2 (port + 2), ?s\<lparr>ls_fd := la_socket w, ls_port := port + 3, ls_state := SOCKET_LOG_UNAVAILABLE\<rparr>)"
      using assms(4) by (simp add: open_s Let_def)
    moreover have "?c 2 (port + 2) \<noteq> 0" using False by (metis lessI numeral_3_eq_3 numeral_2_eq_2 of_nat_numeral)
    ultimately show ?thesis using False init by auto
  qed
qed

theorem logger_init_outcome_witness:
  "\<exists>s w t. logger_init False w 3080 s = Some (0, t) \<and> ls_port t = 3081 \<and> ls_state t = SOCKET_LOG_CONNECTED"
proof -
  define w where "w = \<lparr>la_hold = (\<lambda>n. n < 5), la_online = True, la_socket = 7,
                       la_connect = (\<lambda>i p. if p = 3081 then 0 else 111)\<rparr>"
  define s where "s = \<lparr>sockName = ''MainLogger'', ls_port = 0, ls_state = SOCKET_LOG_UNINITIALIZED, ls_fd = 0,
                       ls_flags = 0, isDisableName = True, ls_sent = []\<rparr>"
  have "\<exists>r t. logger_init False w 3080 s = Some (r, t) \<and>
           (ls_state t = SOCKET_LOG_CONNECTED \<longleftrightarrow> (\<exists>k < 3. la_connect w k (3080 + of_nat k) = 0)) \<and>
           (\<forall>k < 3. la_connect w k (3080 + of_nat k) = 0 \<and>
                    (\<forall>j < k. la_connect w j (3080 + of_nat j) \<noteq> 0) \<longrightarrow>
                    r = 0 \<and> ls_port t = 3080 + of_nat k \<and> \<not> isDisableName t) \<and>
           ((\<forall>k < 3. la_connect w k (3080 + of_nat k) \<noteq> 0) \<longrightarrow>
                    r \<noteq> 0 \<and> ls_port t = 3080 + 3 \<and> ls_state t = SOCKET_LOG_UNAVAILABLE)"
    by (rule logger_init_outcome [where n = 5]) (simp_all add: w_def s_def)
  then obtain r t where init: "logger_init False w 3080 s = Some (r, t)"
      and conn: "ls_state t = SOCKET_LOG_CONNECTED \<longleftrightarrow> (\<exists>k < 3. la_connect w k (3080 + of_nat k) = 0)"
      and port: "\<forall>k < 3. la_connect w k (3080 + of_nat k) = 0 \<and>
          (\<forall>j < k. la_connect w j (3080 + of_nat j) \<noteq> 0) \<longrightarrow> r = 0 \<and> ls_port t = 3080 + of_nat k \<and> \<not> isDisableName t"
    by blast
  have "la_connect w 1 (3080 + of_nat 1) = 0" "\<forall>j < 1. la_connect w j (3080 + of_nat j) \<noteq> 0" "(1::nat) < 3"
    by (simp_all add: w_def)
  then have "ls_state t = SOCKET_LOG_CONNECTED" "r = 0" "ls_port t = 3080 + of_nat 1" using conn port by blast+
  then show ?thesis using init by (intro exI [of _ s] exI [of _ w] exI [of _ t]) simp
qed

section \<open>Lines\<close>

text \<open>The array for the prefix is 16 characters longer than the one for the text: at most two are cut off.\<close>

lemma log_line_whole:
  "length (c_str t) + length (sockName s) \<le> 0x50C \<Longrightarrow> length (c_str t) < 0x500 \<Longrightarrow> no_nul (sockName s) \<Longrightarrow>
   \<not> isDisableName s \<Longrightarrow>
   log_line s (vsnprintf 0x500 t) = ''['' @ sockName s @ ''] '' @ c_str t"
  using no_nul_c_str [of t] by (simp add: log_line_def vsnprintf_def no_nul_def nul_def c_str_def takeWhile_append)

lemma log_line_lost:
  assumes "length (sockName s) < 0x10" and "no_nul (sockName s)" and "\<not> isDisableName s"
  shows "length (vsnprintf 0x500 t) + length (sockName s) + 3 \<le> length (log_line s (vsnprintf 0x500 t)) + 2"
proof -
  let ?l = "''['' @ sockName s @ ''] '' @ vsnprintf 0x500 t"
  have "no_nul ?l"
    using assms(2) no_nul_c_str [of t]
    by (auto simp: no_nul_def nul_def vsnprintf_def dest: in_set_takeD)
  then have "log_line s (vsnprintf 0x500 t) = take 0x50F ?l"
    using assms(3) by (simp add: log_line_def vsnprintf_def)
  moreover have "length (vsnprintf 0x500 t) \<le> 0x4FF" by (simp add: vsnprintf_def)
  ultimately show ?thesis using assms(1) by simp
qed

text \<open>Without a connection nothing is sent, and a ping does not notice a lost one: the state stays.\<close>

lemma logger_log_unconnected: "ls_state s \<noteq> SOCKET_LOG_CONNECTED \<Longrightarrow> logger_log ans f (Some s) = Some s"
  by (cases f) (simp_all add: logger_log_def socket_log_def Let_def)

lemma ping_keeps_state: "ls_state (snd (logger_pingSocket ans s)) = ls_state s"
  by (simp add: logger_pingSocket_def socket_log_def)

section \<open>Faults\<close>

text \<open>
  The client names the log after the player's nickname, which has up to 32 characters, and the log keeps
  its name in 16: a nickname of 16 characters or more is written past the end of the array.
\<close>

lemma setLogName_faults:
  "logger_setLogName name (Some s) = Inl BufferOverflow \<longleftrightarrow> 16 \<le> length (c_str name)"
  by (simp add: logger_setLogName_def log_setName_def strcpy_def)

lemma setLogName_without_log: "logger_setLogName name None = Inr None"
  by (simp add: logger_setLogName_def)

lemma size_of_int_pos: "0 \<le> v \<Longrightarrow> v \<le> 0x1000 \<Longrightarrow> size_of_int v = nat v"
  by (simp add: size_of_int_def)

lemma size_of_int_neg: "v < 0 \<Longrightarrow> - (2 ^ 31) \<le> v \<Longrightarrow> 0x1000 < size_of_int v"
proof -
  assume "v < 0" "- (2 ^ 31) \<le> v"
  then have "(v + 2 ^ 64) mod 2 ^ 64 = v + 2 ^ 64" by (intro mod_pos_pos_trivial) simp_all
  then have "v mod 2 ^ 64 = v + 2 ^ 64" by simp
  with \<open>- (2 ^ 31) \<le> v\<close> show ?thesis by (simp add: size_of_int_def)
qed

text \<open>
  Reading for the log writes past its buffer exactly when a read fills it: the terminator goes one place too
  far. After a failed read \<open>strncat\<close> takes the error code for a length and appends what was on the stack,
  to the first NUL or beyond the buffer.
\<close>

lemma read_char_full:
  "ls_state s = SOCKET_LOG_CONNECTED \<Longrightarrow> socket_read_char cap junk bytes 0x1000 dst s = Inl BufferOverflow"
  by (simp add: socket_read_char_def)

lemma read_char_ok:
  assumes "ls_state s = SOCKET_LOG_CONNECTED" and "length junk = 0x1000" and "no_nul bytes"
    and "bytes \<noteq> []" and "length bytes < 0x1000" and "length dst + length bytes < cap"
  shows "socket_read_char cap junk bytes (int (length bytes)) dst s = Inr (int (length bytes), dst @ bytes)"
proof -
  let ?n = "length bytes" and ?buf = "(bytes @ drop (length bytes) junk)[length bytes := nul]"
  have "take ?n ?buf = bytes" by simp
  moreover have "?n < length ?buf" using assms(2,5) by simp
  ultimately have "strncat cap dst ?buf ?n = Inr (dst @ bytes)"
    using assms(3,6) by (simp add: strncat_def)
  then show ?thesis using assms(1,4,5) by (simp add: socket_read_char_def size_of_int_pos)
qed

lemma read_char_error:
  assumes "ls_state s = SOCKET_LOG_CONNECTED" and "v < 0" and "- (2 ^ 31) \<le> v" and "length junk = 0x1000"
  shows "socket_read_char cap junk [] v dst s =
           (if no_nul junk then Inl OutOfBounds
            else if length dst + length (c_str junk) < cap then Inr (v, dst @ c_str junk)
            else Inl BufferOverflow)"
  using assms size_of_int_neg [OF assms(2,3)]
  by (simp add: socket_read_char_def strncat_def)

end
