(* ===== verification/Puppet_Models.thy ===== *)
theory Puppet_Models
  imports Stage_Puppets Puppet_Motion
begin

text \<open>
  How a puppet gets its models (\<open>puppets/PuppetActor.cpp\<close>: \<open>init\<close>, \<open>initMarioModelPuppet\<close>,
  \<open>initMarioHeadCostumeInfo\<close>, \<open>hairControl\<close>; \<open>PuppetCapActor::init\<close>, \<open>PuppetHackActor::init\<close>). The engine builds
  the models; what the code decides is which archives it asks for, in which order, and which parts follow
  which. An operation returns the list of its calls to the engine. What the engine answers (the costume
  records it reads from the archives, whether there is a keeper for sub actors) is an argument.
\<close>

section \<open>Costumes\<close>

text \<open>The fields of \<open>PlayerBodyCostumeInfo\<close> and \<open>PlayerHeadCostumeInfo\<close> the code reads.\<close>

record body_info =
  bi_costumeName :: string
  mIsUseHeadSuffix :: bool
  mIsUseShortHead :: bool

record head_info =
  hi_costumeName :: string

record costume_info =
  mBodyInfo :: body_info
  mHeadInfo :: head_info

definition costume_init :: "body_info \<Rightarrow> head_info \<Rightarrow> costume_info" where
  "costume_init b h = \<lparr>mBodyInfo = b, mHeadInfo = h\<rparr>"

text \<open>
  What the engine answers: the costume records, the effect keeper's name in the archive, whether a sub actor
  keeper was created, for each sub actor whether it is the silhouette, and its predicates on costumes.
\<close>

record setup_env =
  se_body :: "string \<Rightarrow> body_info"
  se_head :: "string \<Rightarrow> head_info"
  se_effect :: "string \<Rightarrow> string option"
  se_keeper :: bool
  se_silhouette :: "bool list"
  se_isSubString :: "string \<Rightarrow> string \<Rightarrow> bool"
  se_capModelName :: "string \<Rightarrow> string"
  isNeedBodyHair :: "costume_info \<Rightarrow> bool"
  isEnableHairNoCap :: "costume_info \<Rightarrow> bool"
  isNeedSyncBodyHair :: "costume_info \<Rightarrow> bool"
  isSyncFaceBeard :: "costume_info \<Rightarrow> bool"
  isSyncStrap :: "costume_info \<Rightarrow> bool"
  isNeedHairControl :: "body_info \<Rightarrow> string \<Rightarrow> bool"
  isInvisibleCap :: "costume_info \<Rightarrow> bool"

section \<open>Calls\<close>

datatype piece =
    Puppet_root
  | Normal_model
  | Flat_model
  | Head_parts
  | Cap_eyes
  | Hair_parts
  | Sub_actor nat
  | Cap_actor
  | Hack_actor

datatype setup_call =
    Archive piece string
  | Name_tag_for string
  | Load_resource string string
  | Body_info string
  | Scene_info piece
  | Pose piece
  | Srt piece
  | Model_keeper piece string string
  | Material_category piece
  | Partial_anim piece string
  | Executor_update piece
  | Executor_draw piece
  | Executor_model_update piece
  | Effect_keeper piece string
  | Audio piece
  | Action_keeper piece string
  | Material_programmable piece
  | Sub_keeper piece
  | Clipping piece
  | Invalidate_clipping piece
  | Validate_clipping piece
  | Parts_file piece piece string string
  | Make_dead piece
  | Sync_appear piece piece
  | Sync_clipping piece piece
  | Sync_alpha piece piece
  | Sync_hide piece piece
  | Depth_model piece
  | Retarget piece
  | No_rumble piece
  | Register_model piece
  | Flat_archive piece string bool
  | Far_clipping piece
  | Hide_silhouette piece
  | Kill_piece piece
  | Vis_anim_cap_on piece
  | Change_model piece
  | Start_action piece string
  | Joint_control piece
  | Off_dither piece
  | Off_collision piece
  | Off_sensors piece
  | Off_collide piece
  | Start_hack_anim piece

text \<open>\<open>StringTmp<n>\<close> and \<open>FixedSafeString<n>::format\<close> keep \<open>n - 1\<close> characters of the formatted text.\<close>

definition string_tmp :: "nat \<Rightarrow> string \<Rightarrow> string" where
  "string_tmp n t = take (n - 1) t"

definition executor :: "piece \<Rightarrow> setup_call list" where
  "executor p = [Executor_update p, Executor_draw p]"

definition sync_sub :: "piece \<Rightarrow> piece \<Rightarrow> setup_call list" where
  "sync_sub actor sub = [Sync_appear actor sub, Sync_clipping actor sub, Sync_alpha actor sub, Sync_hide actor sub]"

section \<open>The model of a costume\<close>

definition cap_suffix :: "body_info \<Rightarrow> string \<Rightarrow> string" where
  "cap_suffix b capName =
     (if mIsUseHeadSuffix b then (if bi_costumeName b = capName then [] else capName) else [])"

definition head_type :: "(string \<Rightarrow> string \<Rightarrow> bool) \<Rightarrow> body_info \<Rightarrow> string \<Rightarrow> string" where
  "head_type isSub b capName =
     (if \<not> isSub capName ''Mario64''
      then (if mIsUseShortHead b \<and> capName = ''MarioPeach'' then ''Short'' else [])
      else if bi_costumeName b = ''Mario64'' then []
      else if bi_costumeName b = ''Mario64Metal'' then ''Metal''
      else ''Other'')"

definition initMarioHeadCostumeInfo ::
  "setup_env \<Rightarrow> string \<Rightarrow> string \<Rightarrow> string option \<Rightarrow> setup_call list \<times> head_info" where
  "initMarioHeadCostumeInfo env capModelName headType headSuffix =
     (let headArcName = string_tmp 0x80 (capModelName @ ''Head'' @ headType);
          arcSuffix = string_tmp 0x100 (case headSuffix of Some s \<Rightarrow> ''Head'' @ s | None \<Rightarrow> ''Head'')
      in ([Parts_file Head_parts Normal_model headArcName arcSuffix, Material_programmable Head_parts] @
          executor Head_parts @ [Make_dead Head_parts] @ sync_sub Normal_model Head_parts @
          [Parts_file Cap_eyes Head_parts ''CapManHeroEyes'' [], Sync_clipping Head_parts Cap_eyes,
           Sync_alpha Head_parts Cap_eyes, Sync_hide Head_parts Cap_eyes,
           Material_programmable Head_parts, Make_dead Head_parts],
          se_head env capModelName))"

definition init_subs :: "bool list \<Rightarrow> setup_call list" where
  "init_subs silhouettes =
     concat (map (\<lambda>(i, silhouette).
       if silhouette then [] else executor (Sub_actor i) @ [Material_programmable (Sub_actor i)])
       (enumerate 0 silhouettes))"

definition hair_parts :: "setup_env \<Rightarrow> string \<Rightarrow> costume_info \<Rightarrow> setup_call list" where
  "hair_parts env bodyName c =
     (if isNeedBodyHair env c
      then [Parts_file Hair_parts Normal_model
              (string_tmp 0x100 (bodyName @ ''Hair'' @ (if isEnableHairNoCap env c then ''NoCap'' else []))) ''Hair''] @
           executor Hair_parts @ [Material_programmable Hair_parts, Make_dead Hair_parts] @
           sync_sub Normal_model Hair_parts
      else [])"

text \<open>The sub actor keeper is used without the check that guards the line before it.\<close>

definition initMarioModelPuppet ::
  "setup_env \<Rightarrow> string \<Rightarrow> string \<Rightarrow> (setup_call list \<times> costume_info) res" where
  "initMarioModelPuppet env bodyName capName =
     (let bodyArc = string_tmp 0x100 (''ObjectData/'' @ bodyName);
          animArc = string_tmp 0x100 (''ObjectData/'' @ ''PlayerAnimation'');
          bodyInfo = se_body env bodyName;
          m = Normal_model
      in if \<not> se_keeper env then Inl NullDeref
         else (case initMarioHeadCostumeInfo env capName
                      (head_type (se_isSubString env) bodyInfo capName) (Some (cap_suffix bodyInfo capName)) of
                 (headCalls, headInfo) \<Rightarrow>
                   let c = costume_init bodyInfo headInfo
                   in Inr ([Load_resource bodyArc animArc, Body_info bodyName, Scene_info m, Pose m, Srt m,
                            Model_keeper m bodyArc animArc, Material_category m, Partial_anim m ''Spine1''] @
                           executor m @ [Executor_model_update m] @
                           (case se_effect env bodyName of Some n \<Rightarrow> [Effect_keeper m n] | None \<Rightarrow> []) @
                           [Audio m, Action_keeper m bodyName, Material_programmable m, Sub_keeper m] @
                           init_subs (se_silhouette env) @ [Clipping m, Invalidate_clipping m] @ headCalls @
                           hair_parts env bodyName c @ [Depth_model m, Retarget m, Make_dead m],
                           c)))"

section \<open>The actors of a puppet\<close>

text \<open>The cap's archive name is cut to its buffer of 32 characters by the engine's function that writes it.\<close>

definition cap_init :: "setup_env \<Rightarrow> PuppetInfo \<Rightarrow> setup_call list" where
  "cap_init env info =
     [Archive Cap_actor (string_tmp 0x20 (se_capModelName env (tryGetPuppetCapName info))),
      Hide_silhouette Cap_actor, Executor_model_update Cap_actor, Joint_control Cap_actor, Make_dead Cap_actor]"

text \<open>
  \<open>PuppetActor::init\<close>: without an info the puppet is a plain Mario without a name tag, but the cap, which is
  built first, has already read the info.
\<close>

definition puppet_actor_init ::
  "setup_env \<Rightarrow> PuppetInfo option \<Rightarrow> (setup_call list \<times> costume_info) res" where
  "puppet_actor_init env mInfo =
     (case mInfo of
        None \<Rightarrow> Inl NullDeref
      | Some info \<Rightarrow>
          let bodyName = tryGetPuppetBodyName info; capName = tryGetPuppetCapName info
          in rbind (initMarioModelPuppet env bodyName capName) (\<lambda>(calls, c).
               Inr (cap_init env info @ [Archive Puppet_root ''PuppetActor'', Name_tag_for (puppetName info)] @
                    calls @
                    [No_rumble Normal_model, Register_model Normal_model,
                     Flat_archive Flat_model (string_tmp 0x40 (bi_costumeName (mBodyInfo c) @ ''2D''))
                       (isInvisibleCap env c),
                     Register_model Flat_model, Far_clipping Normal_model, Hide_silhouette Normal_model,
                     Kill_piece Cap_eyes, Vis_anim_cap_on Head_parts, Change_model Normal_model,
                     Start_action Normal_model ''Wait'', Validate_clipping Normal_model,
                     Validate_clipping Flat_model], c)))"

definition hack_init :: "bool \<Rightarrow> bool \<Rightarrow> string \<Rightarrow> setup_call list" where
  "hack_init existDither existCollision hackType =
     [Archive Hack_actor hackType, Hide_silhouette Hack_actor] @
     (if existDither then [Off_dither Hack_actor] else []) @
     (if existCollision then [Off_collision Hack_actor] else []) @
     [Off_sensors Hack_actor, Invalidate_clipping Hack_actor, Off_collide Hack_actor, Make_dead Hack_actor,
      Start_hack_anim Hack_actor, Start_action Hack_actor ''Wait'']"

datatype hair_call = Sync_body_hair | Sync_face_beard | Sync_head_strap | Hide_hair

definition hairControl :: "setup_env \<Rightarrow> costume_info \<Rightarrow> hair_call list" where
  "hairControl env c =
     (if isNeedSyncBodyHair env c then [Sync_body_hair] else []) @
     (if isSyncFaceBeard env c then [Sync_face_beard] else []) @
     (if isSyncStrap env c then [Sync_head_strap] else []) @
     (if isNeedHairControl env (mBodyInfo c) (hi_costumeName (mHeadInfo c)) then [Hide_hair] else [])"

text \<open>Both debug functions move captures to the shown model; the position they are given is not used.\<close>

definition debugTeleportCapture ::
  "Vector3f \<Rightarrow> int \<Rightarrow> Vector3f \<Rightarrow> puppet_actor \<Rightarrow> (nat \<Rightarrow> Vector3f) \<Rightarrow> (nat \<Rightarrow> Vector3f) res" where
  "debugTeleportCapture pos i modelTrans a places =
     rbind (getCapture_at i (mCaptures a)) (\<lambda>capture.
       Inr (case capture of Some c \<Rightarrow> places(c := modelTrans) | None \<Rightarrow> places))"

fun debugTeleportCaptures_loop ::
  "int list \<Rightarrow> Vector3f \<Rightarrow> puppet_actor \<Rightarrow> (nat \<Rightarrow> Vector3f) \<Rightarrow> (nat \<Rightarrow> Vector3f) res" where
  "debugTeleportCaptures_loop [] modelTrans a places = Inr places"
| "debugTeleportCaptures_loop (i # is) modelTrans a places =
     rbind (debugTeleportCapture modelTrans i modelTrans a places) (\<lambda>places.
       debugTeleportCaptures_loop is modelTrans a places)"

definition debugTeleportCaptures ::
  "Vector3f \<Rightarrow> Vector3f \<Rightarrow> puppet_actor \<Rightarrow> (nat \<Rightarrow> Vector3f) \<Rightarrow> (nat \<Rightarrow> Vector3f) res" where
  "debugTeleportCaptures pos modelTrans a places =
     debugTeleportCaptures_loop (map int [0..<nat (mCaptureCount (mCaptures a))]) modelTrans a places"

section \<open>Names\<close>

text \<open>The names of costumes are far below the sizes of the buffers, so no archive name is cut.\<close>

lemma costume_length: "isInCostumeList n \<Longrightarrow> length n \<le> 17"
  by (auto simp: isInCostumeList_def costumeNames_def)

lemma string_tmp_whole [simp]: "length t < n \<Longrightarrow> string_tmp n t = t"
  by (simp add: string_tmp_def)

lemma head_type_length: "length (head_type isSub b capName) \<le> 5"
  by (simp add: head_type_def)

lemma cap_suffix_length: "length (cap_suffix b capName) \<le> length capName"
  by (simp add: cap_suffix_def)

text \<open>
  For the caps of the list the search for \<open>Mario64\<close> hits the two caps of that name; any other cap asks for
  the plain head, except the one cap that exists in a short form.
\<close>

definition contains :: "string \<Rightarrow> string \<Rightarrow> bool" where
  "contains s t \<longleftrightarrow> (\<exists>pre post. s = pre @ t @ post)"

lemma contains_Mario64:
  assumes "isInCostumeList n"
  shows "contains n ''Mario64'' \<longleftrightarrow> n = ''Mario64'' \<or> n = ''Mario64Metal''"
proof
  assume "n = ''Mario64'' \<or> n = ''Mario64Metal''"
  then have "n = [] @ ''Mario64'' @ [] \<or> n = [] @ ''Mario64'' @ ''Metal''" by simp
  then show "contains n ''Mario64''" unfolding contains_def by blast
next
  assume "contains n ''Mario64''"
  then obtain pre post where "n = pre @ ''Mario64'' @ post" by (auto simp: contains_def)
  then have "CHR ''6'' \<in> set n" by simp
  moreover have "\<forall>n \<in> set costumeNames. CHR ''6'' \<in> set n \<longrightarrow> n = ''Mario64'' \<or> n = ''Mario64Metal''"
    by (simp add: costumeNames_def)
  ultimately show "n = ''Mario64'' \<or> n = ''Mario64Metal''" using assms by (auto simp: isInCostumeList_def)
qed

theorem head_archive_rule:
  assumes "isInCostumeList capName"
  shows "head_type contains b capName =
           (if capName = ''Mario64'' \<or> capName = ''Mario64Metal''
            then (if bi_costumeName b = ''Mario64'' then [] else
                  if bi_costumeName b = ''Mario64Metal'' then ''Metal'' else ''Other'')
            else if capName = ''MarioPeach'' \<and> mIsUseShortHead b then ''Short'' else [])"
  using contains_Mario64 [OF assms] by (auto simp: head_type_def)

text \<open>
  C37: Which archives a puppet asks for, when its sub actor keeper was made. The body is the player's costume if it is in
  the list and Mario otherwise, and the same for the cap; the body's name is used whole, and the flat model takes
  the name in the costume's record with \<open>2D\<close>, cut to 63 characters. The head is that of the cap: for a
  cap in whose name the engine finds \<open>Mario64\<close> the plain, the metal or the other form by the body's
  record, for Peach's cap on a body with a short head the short one, and the plain one otherwise; a body whose
  head has a suffix asks for the file of the cap's name, unless it is its own.
\<close>

theorem puppet_archives:
  assumes "se_keeper env"
    and "bodyName = (if costumeBody info \<in> set costumeNames then costumeBody info else ''Mario'')"
    and "capName = (if costumeHead info \<in> set costumeNames then costumeHead info else ''Mario'')"
    and "b = se_body env bodyName"
  shows "\<exists>calls c. puppet_actor_init env (Some info) = Inr (calls, c) \<and>
    Load_resource (''ObjectData/'' @ bodyName) ''ObjectData/PlayerAnimation'' \<in> set calls \<and>
    Flat_archive Flat_model (take 63 (bi_costumeName b @ ''2D'')) (isInvisibleCap env c) \<in> set calls \<and>
    Parts_file Head_parts Normal_model
      (capName @ ''Head'' @
        (if se_isSubString env capName ''Mario64''
         then if bi_costumeName b = ''Mario64'' then []
              else if bi_costumeName b = ''Mario64Metal'' then ''Metal'' else ''Other''
         else if capName = ''MarioPeach'' \<and> mIsUseShortHead b then ''Short'' else []))
      (''Head'' @ (if mIsUseHeadSuffix b \<and> bi_costumeName b \<noteq> capName then capName else [])) \<in> set calls"
proof -
  have names: "bodyName = tryGetPuppetBodyName info" "capName = tryGetPuppetCapName info"
    using assms(2,3) by (simp_all add: tryGetPuppetBodyName_def tryGetPuppetCapName_def isInCostumeList_def)
  have "isInCostumeList ''Mario''" by (simp add: isInCostumeList_def costumeNames_def)
  then have costume: "isInCostumeList bodyName" "isInCostumeList capName"
    unfolding names by (simp_all add: tryGetPuppetBodyName_def tryGetPuppetCapName_def)
  note len = costume [THEN costume_length]
  let ?head = "capName @ ''Head'' @ head_type (se_isSubString env) b capName"
  let ?suffix = "''Head'' @ cap_suffix b capName"
  have whole: "string_tmp 0x100 (''ObjectData/'' @ bodyName) = ''ObjectData/'' @ bodyName"
      "string_tmp 0x80 ?head = ?head" "string_tmp 0x100 ?suffix = ?suffix"
    using len head_type_length [of "se_isSubString env" b capName] cap_suffix_length [of b capName]
    by (auto intro!: string_tmp_whole simp del: string_tmp_whole)
  have flat: "string_tmp 0x40 t = take 63 t" for t by (simp add: string_tmp_def)
  obtain calls c where init: "puppet_actor_init env (Some info) = Inr (calls, c)"
    using assms(1)
    by (simp add: puppet_actor_init_def initMarioModelPuppet_def Let_def split_beta)
  then have c: "mBodyInfo c = b"
    using assms(1,4) unfolding names
    by (auto simp: puppet_actor_init_def initMarioModelPuppet_def Let_def split_beta costume_init_def)
  from init have "Load_resource (''ObjectData/'' @ bodyName) ''ObjectData/PlayerAnimation'' \<in> set calls"
    using assms(1) whole(1) unfolding names
    by (auto simp: puppet_actor_init_def initMarioModelPuppet_def Let_def split_beta)
  moreover from init have "Flat_archive Flat_model (take 63 (bi_costumeName b @ ''2D'')) (isInvisibleCap env c) \<in> set calls"
    using assms(1) c flat
    by (auto simp: puppet_actor_init_def initMarioModelPuppet_def Let_def split_beta)
  moreover from init have "Parts_file Head_parts Normal_model ?head ?suffix \<in> set calls"
    using assms(1,4) whole(2,3) unfolding names
    by (auto simp: puppet_actor_init_def initMarioModelPuppet_def initMarioHeadCostumeInfo_def Let_def split_beta)
  moreover have "head_type (se_isSubString env) b capName =
      (if se_isSubString env capName ''Mario64''
       then if bi_costumeName b = ''Mario64'' then []
            else if bi_costumeName b = ''Mario64Metal'' then ''Metal'' else ''Other''
       else if capName = ''MarioPeach'' \<and> mIsUseShortHead b then ''Short'' else [])"
    "cap_suffix b capName = (if mIsUseHeadSuffix b \<and> bi_costumeName b \<noteq> capName then capName else [])"
    by (auto simp: head_type_def cap_suffix_def)
  ultimately show ?thesis using init by auto
qed

theorem puppet_archives_witness:
  "\<exists>env calls c. puppet_actor_init env (Some (PuppetInfo_new\<lparr>costumeBody := ''MarioKing'', costumeHead := ''Luigi''\<rparr>)) = Inr (calls, c) \<and>
     Load_resource ''ObjectData/MarioKing'' ''ObjectData/PlayerAnimation'' \<in> set calls"
proof -
  define env where "env = \<lparr>se_body = (\<lambda>n. \<lparr>bi_costumeName = n, mIsUseHeadSuffix = True, mIsUseShortHead = False\<rparr>),
    se_head = (\<lambda>n. \<lparr>hi_costumeName = n\<rparr>), se_effect = (\<lambda>n. None), se_keeper = True, se_silhouette = [True, False],
    se_isSubString = contains, se_capModelName = (\<lambda>n. n @ ''Cap''), isNeedBodyHair = (\<lambda>c. False),
    isEnableHairNoCap = (\<lambda>c. False), isNeedSyncBodyHair = (\<lambda>c. False), isSyncFaceBeard = (\<lambda>c. False),
    isSyncStrap = (\<lambda>c. False), isNeedHairControl = (\<lambda>b n. False), isInvisibleCap = (\<lambda>c. False)\<rparr>"
  let ?info = "PuppetInfo_new\<lparr>costumeBody := ''MarioKing'', costumeHead := ''Luigi''\<rparr>"
  have "''MarioKing'' = (if costumeBody ?info \<in> set costumeNames then costumeBody ?info else ''Mario'')"
    "''Mario'' = (if costumeHead ?info \<in> set costumeNames then costumeHead ?info else ''Mario'')"
    by (simp_all add: costumeNames_def)
  moreover have "se_keeper env" by (simp add: env_def)
  ultimately obtain calls c where "puppet_actor_init env (Some ?info) = Inr (calls, c)"
      "Load_resource (''ObjectData/'' @ ''MarioKing'') ''ObjectData/PlayerAnimation'' \<in> set calls"
    using puppet_archives [of env "''MarioKing''" ?info "''Mario''", OF _ _ _ refl] by blast
  then show ?thesis by auto
qed

text \<open>
  A puppet without an info cannot be built, although the code provides for it, and neither can one whose
  sub actor keeper was not made.
\<close>

lemma puppet_init_faults:
  "puppet_actor_init env mInfo = Inl e \<longleftrightarrow> e = NullDeref \<and> (mInfo = None \<or> \<not> se_keeper env)"
  by (cases mInfo) (auto simp: puppet_actor_init_def initMarioModelPuppet_def Let_def split_beta)

section \<open>Captures\<close>

lemma teleport_loop:
  assumes "\<forall>i \<in> set is. 0 \<le> i \<and> i \<le> mCaptureCount (mCaptures a) \<and> i < int (length (mOnlineCaptures (mCaptures a)))"
  shows "debugTeleportCaptures_loop is mt a places =
           Inr (\<lambda>x. if \<exists>i \<in> set is. ce_actor (mOnlineCaptures (mCaptures a) ! nat i) = Some x then mt else places x)"
  using assms
proof (induction "is" arbitrary: places)
  case Nil
  then show ?case by simp
next
  case (Cons i "is")
  let ?c = "ce_actor (mOnlineCaptures (mCaptures a) ! nat i)"
  have "debugTeleportCapture mt i mt a places = Inr (\<lambda>x. if ?c = Some x then mt else places x)"
    using Cons.prems
    by (auto simp: debugTeleportCapture_def getCapture_at_def entry_at_def fun_upd_def split: option.split)
  then show ?case using Cons by (auto intro!: ext)
qed

text \<open>After the debug command every capture of the puppet stands where its model does, and nothing else moved.\<close>

lemma teleport_all:
  assumes "mCaptureCount (mCaptures a) \<le> int (length (mOnlineCaptures (mCaptures a)))"
  shows "debugTeleportCaptures pos mt a places =
           Inr (\<lambda>x. if \<exists>i < nat (mCaptureCount (mCaptures a)). ce_actor (mOnlineCaptures (mCaptures a) ! i) = Some x
                    then mt else places x)"
  using assms by (subst debugTeleportCaptures_def, subst teleport_loop) (auto intro!: ext)

end
