(* ===== verification/Math_Calc.thy ===== *)
theory Math_Calc
  imports Float_Order "HOL-Library.Signed_Division"
begin

unbundle bit_operations_syntax

text \<open>
  Scalar functions of the engine's library (\<open>sead/math/seadMathCalcCommon.h\<close>, \<open>.hpp\<close>): the sine and cosine
  tables, the inverse functions by octants, clamping, rounding to multiples and the step towards a target.
  The templates are over a type \<open>T\<close>: their models are over a type with the arithmetic of \<open>T\<close>, and \<open>f32\<close> is
  made such a type here, with every operation rounded. The tables are data of the game that the sources
  only declare; they are parameters, with the number of entries the sources declare.
\<close>

section \<open>Floats as an arithmetic type\<close>

instantiation f32 :: "{zero, one, plus, minus, uminus, times, inverse, ord}"
begin

definition "0 = Fin 0"

definition "1 = Fin 1"

definition "a + b = f32_add a b" for a b :: f32

definition "a - b = f32_sub a b" for a b :: f32

definition "- a = f32_neg a" for a :: f32

definition "a * b = f32_mul a b" for a b :: f32

definition "a div b = f32_div a b" for a b :: f32

definition "inverse a = f32_div (Fin 1) a" for a :: f32

definition "a < b \<longleftrightarrow> f32_lt a b" for a b :: f32

definition "a \<le> b \<longleftrightarrow> f32_le a b" for a b :: f32

instance ..

end

lemmas f32_ops = zero_f32_def one_f32_def plus_f32_def minus_f32_def uminus_f32_def times_f32_def
  divide_f32_def inverse_f32_def less_f32_def less_eq_f32_def

text \<open>The literals 2 and 0.5 of a type with arithmetic.\<close>

definition two :: "'a::{one, plus}" where
  "two = 1 + 1"

definition half :: "'a::{one, plus, inverse}" where
  "half = 1 / two"

lemma f32_round_two: "f32_round 2 = Fin 2"
proof -
  have "f32_ulp 2 = 1 / 2 ^ 22" using f32_ulp_eqI [of 126 2] by simp
  then show ?thesis using f32_round_exact [of 2 "2 ^ 23"] by simp
qed

lemma two_f32: "(two :: f32) = Fin 2"
  by (simp add: two_def f32_ops f32_round_two)

lemma half_f32: "(half :: f32) = Fin (1 / 2)"
  by (simp add: half_def two_f32 f32_ops f32_round_half)

section \<open>The bits of a float\<close>

text \<open>
  What the 32 bits of a float stand for: the sign, eight bits of exponent and 23 of significand. The float of the
  model has one zero; the bits have two.
\<close>

definition bits_neg :: "u32 \<Rightarrow> bool" where
  "bits_neg w \<longleftrightarrow> 2 ^ 31 \<le> unat w"

definition bits_mag :: "nat \<Rightarrow> nat \<Rightarrow> rat" where
  "bits_mag e m = of_nat ((if e = 0 then m else 2 ^ 23 + m) * 2 ^ (e - 1)) / 2 ^ 149"

definition f32_of_bits :: "u32 \<Rightarrow> f32" where
  "f32_of_bits w =
     (let e = unat w div 2 ^ 23 mod 2 ^ 8; m = unat w mod 2 ^ 23
      in if e = 255 then (if m \<noteq> 0 then NaN else if bits_neg w then NegInf else PosInf)
         else Fin (if bits_neg w then - bits_mag e m else bits_mag e m))"

section \<open>Sine and cosine\<close>

record sincos_sample =
  sin_val :: f32
  sin_delta :: f32
  cos_val :: f32
  cos_delta :: f32

definition sincos_table :: "sincos_sample list \<Rightarrow> bool" where
  "sincos_table tbl \<longleftrightarrow> length tbl = 257"

definition sample_at :: "sincos_sample list \<Rightarrow> nat \<Rightarrow> sincos_sample res" where
  "sample_at tbl i = (if i < length tbl then Inr (tbl ! i) else Inl OutOfBounds)"

definition f32_of_u32 :: "u32 \<Rightarrow> f32" where
  "f32_of_u32 u = f32_round (of_nat (unat u))"

definition idx_index :: "u32 \<Rightarrow> nat" where
  "idx_index idx = unat (drop_bit 24 idx AND 0xFF)"

definition idx_rest :: "u32 \<Rightarrow> u32" where
  "idx_rest idx = idx AND 0xFFFFFF"

definition sinIdx :: "sincos_sample list \<Rightarrow> u32 \<Rightarrow> f32 res" where
  "sinIdx tbl idx =
     rbind (sample_at tbl (idx_index idx)) (\<lambda>s.
       Inr (sin_val s + sin_delta s * f32_of_u32 (idx_rest idx) / f32_of_u32 0x1000000))"

definition cosIdx :: "sincos_sample list \<Rightarrow> u32 \<Rightarrow> f32 res" where
  "cosIdx tbl idx =
     rbind (sample_at tbl (idx_index idx)) (\<lambda>s.
       Inr (cos_val s + cos_delta s * f32_of_u32 (idx_rest idx) / f32_of_u32 0x1000000))"

definition sinCosIdx :: "sincos_sample list \<Rightarrow> u32 \<Rightarrow> (f32 \<times> f32) res" where
  "sinCosIdx tbl idx =
     (let rest = f32_of_u32 (idx_rest idx) / f32_of_u32 0x1000000
      in rbind (sample_at tbl (idx_index idx)) (\<lambda>s.
           Inr (sin_val s + sin_delta s * rest, cos_val s + cos_delta s * rest)))"

definition tanIdx :: "sincos_sample list \<Rightarrow> u32 \<Rightarrow> f32 res" where
  "tanIdx tbl idx = rbind (sinCosIdx tbl idx) (\<lambda>(s, c). Inr (s / c))"

text \<open>
  \<open>sin\<close> and \<open>cos\<close> take the bits of their argument for an index: here they are given the bits,
  \<open>BitUtil::bitCast<u32>(t)\<close>.
\<close>

definition mathf_sin :: "sincos_sample list \<Rightarrow> u32 \<Rightarrow> f32 res" where
  "mathf_sin tbl as_int =
     rbind (sample_at tbl (unat (drop_bit 18 as_int))) (\<lambda>s.
       Inr (sin_val s + sin_delta s * f32_of_u32 (as_int AND 0xFFFFFF) * Fin (1 / 2 ^ 24)))"

definition mathf_cos :: "sincos_sample list \<Rightarrow> u32 \<Rightarrow> f32 res" where
  "mathf_cos tbl as_int =
     rbind (sample_at tbl (unat (drop_bit 18 as_int))) (\<lambda>s.
       Inr (cos_val s + cos_delta s * f32_of_u32 (as_int AND 0xFFFFFF) * Fin (1 / 2 ^ 24)))"

section \<open>The inverse functions\<close>

text \<open>\<open>atanIdx_\<close> has no body in the sources: it is the parameter \<open>arc\<close>.\<close>

definition mathf_asinIdx :: "(f32 \<Rightarrow> u32) \<Rightarrow> f32 \<Rightarrow> u32" where
  "mathf_asinIdx arc s =
     (let rsqrt_2 = f32_lit (7071067690849304 / 10000000000000000); root = f32_sqrt (1 - s * s)
      in if 0 \<le> s
         then (if rsqrt_2 < s then 0x40000000 - arc (root / s) else arc (s / root))
         else (if s < - rsqrt_2 then 0xC0000000 + arc (- root / s) else - arc (- s / root)))"

definition mathf_acosIdx :: "(f32 \<Rightarrow> u32) \<Rightarrow> f32 \<Rightarrow> u32" where
  "mathf_acosIdx arc c =
     (let rsqrt_2 = f32_lit (7071067690849304 / 10000000000000000); root = f32_sqrt (1 - c * c)
      in if 0 \<le> c
         then (if rsqrt_2 < c then arc (root / c) else 0x40000000 - arc (c / root))
         else (if c < - rsqrt_2 then 0x80000000 - arc (- root / c) else 0x40000000 + arc (- c / root)))"

definition mathf_atanIdx :: "(f32 \<Rightarrow> u32) \<Rightarrow> f32 \<Rightarrow> u32" where
  "mathf_atanIdx arc t =
     (if 0 \<le> t then (if 1 < t then 0x40000000 - arc (1 / t) else arc t)
      else (if t < - 1 then 0xC0000000 + arc (- 1 / t) else - arc (- t)))"

definition mathf_atan2Idx :: "(f32 \<Rightarrow> u32) \<Rightarrow> f32 \<Rightarrow> f32 \<Rightarrow> u32" where
  "mathf_atan2Idx arc y x =
     (if x = 0 \<and> y = 0 then 0
      else if 0 \<le> x
      then (if 0 \<le> y
            then (if y \<le> x then arc (y / x) else 0x40000000 - arc (x / y))
            else (if - y \<le> x then - arc (- y / x) else 0xC0000000 + arc (x / - y)))
      else (if 0 \<le> y
            then (if y \<le> - x then 0x80000000 - arc (y / - x) else 0x40000000 + arc (- x / y))
            else (if x \<le> y then 0x80000000 + arc (y / x) else 0xC0000000 - arc (x / y))))"

section \<open>Small functions\<close>

definition math_sign :: "'a::{zero, one, uminus, ord} \<Rightarrow> 'a" where
  "math_sign v = (if v < 0 then - 1 else 1)"

definition math_abs :: "'a::{zero, uminus, ord} \<Rightarrow> 'a" where
  "math_abs x = (if 0 < x then x else - x)"

definition math_fitSign :: "'a::{zero, one, uminus, times, ord} \<Rightarrow> 'a \<Rightarrow> 'a" where
  "math_fitSign v sv = math_abs v * math_sign sv"

definition math_square :: "'a::times \<Rightarrow> 'a" where
  "math_square t = t * t"

definition math_max :: "'a::ord \<Rightarrow> 'a \<Rightarrow> 'a" where
  "math_max a b = (if a < b then b else a)"

definition math_min :: "'a::ord \<Rightarrow> 'a \<Rightarrow> 'a" where
  "math_min a b = (if a < b then a else b)"

definition math_max3 :: "'a::ord \<Rightarrow> 'a \<Rightarrow> 'a \<Rightarrow> 'a" where
  "math_max3 a b c = math_max (math_max a b) c"

definition math_min3 :: "'a::ord \<Rightarrow> 'a \<Rightarrow> 'a \<Rightarrow> 'a" where
  "math_min3 a b c = math_min (math_min a b) c"

definition math_clampMax :: "'a::ord \<Rightarrow> 'a \<Rightarrow> 'a" where
  "math_clampMax v hi = math_min v hi"

definition math_clampMin :: "'a::ord \<Rightarrow> 'a \<Rightarrow> 'a" where
  "math_clampMin v lo = math_max v lo"

definition math_clamp :: "'a::ord \<Rightarrow> 'a \<Rightarrow> 'a \<Rightarrow> 'a" where
  "math_clamp v low high = (if v < low then low else if high < v then high else v)"

definition math_equalsEpsilon :: "'a::{minus, uminus, ord} \<Rightarrow> 'a \<Rightarrow> 'a \<Rightarrow> bool" where
  "math_equalsEpsilon lhs rhs eps = (let diff = lhs - rhs in - eps \<le> diff \<and> diff \<le> eps)"

definition math_lerp :: "'a::{plus, minus, times} \<Rightarrow> 'a \<Rightarrow> 'a \<Rightarrow> 'a" where
  "math_lerp a b t = a + (b - a) * t"

text \<open>The step towards a target, and whether it is reached.\<close>

definition math_chase :: "'a::{plus, minus, ord} \<Rightarrow> 'a \<Rightarrow> 'a \<Rightarrow> bool \<times> 'a" where
  "math_chase current target step =
     (if current < target
      then let new_value = current + step
           in if target \<le> new_value \<or> new_value < current then (True, target) else (False, new_value)
      else if target < current
      then let new_value = current - step
           in if new_value \<le> target \<or> current < new_value then (True, target) else (False, new_value)
      else (True, current))"

text \<open>Integers: the absolute value by the sign mask, and multiples.\<close>

definition mathi_abs :: "s32 \<Rightarrow> s32" where
  "mathi_abs x = (x XOR signed_drop_bit 31 x) - signed_drop_bit 31 x"

definition mathu_roundUp :: "u32 \<Rightarrow> u32 \<Rightarrow> u32" where
  "mathu_roundUp x multNumber = (x + multNumber - 1) div multNumber * multNumber"

definition mathu_roundUpPow2 :: "u32 \<Rightarrow> u32 \<Rightarrow> u32" where
  "mathu_roundUpPow2 v base = (v + base - 1) AND (- base)"

text \<open>
  A float made an integer: the value without its fraction, undefined (\<open>None\<close>) if it does not fit.
\<close>

fun f32_to_int :: "int \<Rightarrow> int \<Rightarrow> f32 \<Rightarrow> int option" where
  "f32_to_int lo hi (Fin a) =
     (let k = (if 0 \<le> a then \<lfloor>a\<rfloor> else \<lceil>a\<rceil>) in if lo \<le> k \<and> k \<le> hi then Some k else None)"
| "f32_to_int lo hi _ = None"

definition mathf_floor :: "f32 \<Rightarrow> s32 option" where
  "mathf_floor v =
     map_option word_of_int
       (f32_to_int (- (2 ^ 31)) (2 ^ 31 - 1) (case v of Fin a \<Rightarrow> Fin (of_int \<lfloor>a\<rfloor>) | _ \<Rightarrow> v))"

definition mathf_ceil :: "f32 \<Rightarrow> s32 option" where
  "mathf_ceil v =
     map_option word_of_int
       (f32_to_int (- (2 ^ 31)) (2 ^ 31 - 1) (case v of Fin a \<Rightarrow> Fin (of_int \<lceil>a\<rceil>) | _ \<Rightarrow> v))"

definition mathf_roundOff :: "f32 \<Rightarrow> s32 option" where
  "mathf_roundOff v = mathf_floor (v + Fin (1 / 2))"

definition cHalfRoundIdx :: u32 where
  "cHalfRoundIdx = 0x80000000"

definition f32_pi :: f32 where
  "f32_pi = f32_lit (3141592653589793238462643383279502 / 10 ^ 33)"

definition mathf_deg2rad :: "f32 \<Rightarrow> f32" where
  "mathf_deg2rad deg = deg * (f32_pi / f32_lit 180)"

definition mathf_rad2deg :: "f32 \<Rightarrow> f32" where
  "mathf_rad2deg rad = rad * (f32_lit 180 / f32_pi)"

definition mathf_deg2idx :: "f32 \<Rightarrow> u32 option" where
  "mathf_deg2idx a =
     map_option word_of_int (f32_to_int 0 (2 ^ 32 - 1) (a * (f32_of_u32 cHalfRoundIdx / f32_lit 180)))"

definition mathf_rad2idx :: "f32 \<Rightarrow> u32 option" where
  "mathf_rad2idx a =
     map_option word_of_int (f32_to_int 0 (2 ^ 32 - 1) (a * (f32_of_u32 cHalfRoundIdx / f32_pi)))"

definition mathf_idx2deg :: "u32 \<Rightarrow> f32" where
  "mathf_idx2deg a = f32_of_u32 a * (f32_lit 180 / f32_of_u32 cHalfRoundIdx)"

definition mathf_idx2rad :: "u32 \<Rightarrow> f32" where
  "mathf_idx2rad a = f32_of_u32 a * (f32_pi / f32_of_u32 cHalfRoundIdx)"

section \<open>Where the tables are read\<close>

text \<open>The tables of the indexed functions are read inside, for every angle.\<close>

lemma idx_index_less: "idx_index idx < 256"
proof -
  have "drop_bit 24 idx AND 0xFF \<le> (0xFF :: u32)" by (rule word_and_le1)
  then have "unat (drop_bit 24 idx AND 0xFF) \<le> unat (0xFF :: u32)" by (rule word_le_nat_alt [THEN iffD1])
  then show ?thesis by (simp add: idx_index_def)
qed

lemma indexed_functions_defined:
  assumes "sincos_table tbl"
  shows "\<exists>r. sinIdx tbl idx = Inr r" and "\<exists>r. cosIdx tbl idx = Inr r"
    and "\<exists>r. sinCosIdx tbl idx = Inr r" and "\<exists>r. tanIdx tbl idx = Inr r"
  using assms idx_index_less [of idx]
  by (simp_all add: sinIdx_def cosIdx_def sinCosIdx_def tanIdx_def sample_at_def sincos_table_def Let_def)

lemma unat_drop18: "unat (drop_bit 18 w) = unat w div 2 ^ 18" for w :: u32
  by (metis unat_drop_bit_eq drop_bit_eq_div)

text \<open>The numbers of the bits below those of 33 / 2^124, by their exponents.\<close>

lemma bits_mag_less:
  assumes "m < 2 ^ 23"
  shows "bits_mag e m < 33 / 2 ^ 124 \<longleftrightarrow> e * 2 ^ 23 + m < 257 * 2 ^ 18"
proof -
  let ?sig = "if e = 0 then m else 2 ^ 23 + m"
  have "bits_mag e m < 33 / 2 ^ 124 \<longleftrightarrow> (of_nat (?sig * 2 ^ (e - 1)) :: rat) < of_nat (33 * 2 ^ 25)"
    by (simp add: bits_mag_def field_simps del: of_nat_mult of_nat_power)
  also have "\<dots> \<longleftrightarrow> ?sig * 2 ^ (e - 1) < 33 * 2 ^ 25" by (rule of_nat_less_iff)
  also have "\<dots> \<longleftrightarrow> e * 2 ^ 23 + m < 257 * 2 ^ 18"
  proof -
    consider "e \<le> 7" | "e = 8" | "9 \<le> e" by linarith
    then show ?thesis
    proof cases
      case 1
      then have "(2::nat) ^ (e - 1) \<le> 2 ^ 6" by (intro power_increasing) simp_all
      then have "?sig * 2 ^ (e - 1) \<le> ?sig * 2 ^ 6" by (rule mult_left_mono) simp
      also have "\<dots> < 33 * 2 ^ 25" using assms by simp
      finally show ?thesis using 1 assms by simp
    next
      case 2
      then show ?thesis by simp
    next
      case 3
      then have "(2::nat) ^ 8 \<le> 2 ^ (e - 1)" by (intro power_increasing) simp_all
      then have "2 ^ 23 * 2 ^ 8 \<le> ?sig * 2 ^ (e - 1)" using 3 by (intro mult_mono) simp_all
      then show ?thesis using 3 by simp
    qed
  qed
  finally show ?thesis .
qed

lemma bits_index:
  "unat (drop_bit 18 w) < 257 \<longleftrightarrow> \<not> bits_neg w \<and> f32_lt (f32_of_bits w) (Fin (33 / 2 ^ 124))" for w :: u32
proof -
  let ?e = "unat w div 2 ^ 23" and ?m = "unat w mod 2 ^ 23"
  have index: "unat (drop_bit 18 w) < 257 \<longleftrightarrow> unat w < 257 * 2 ^ 18"
    by (simp only: unat_drop18 div_less_iff_less_mult zero_less_numeral zero_less_power)
  have number: "?e * 2 ^ 23 + ?m = unat w" by (rule div_mult_mod_eq)
  show ?thesis
  proof (cases "bits_neg w")
    case True
    then show ?thesis unfolding index by (simp add: bits_neg_def)
  next
    case False
    then have e: "?e mod 2 ^ 8 = ?e"
      by (intro mod_less) (simp add: bits_neg_def div_less_iff_less_mult)
    show ?thesis
    proof (cases "?e = 255")
      case True
      then show ?thesis using False number unfolding index f32_of_bits_def e by (simp add: Let_def)
    next
      case fin: False
      have "f32_lt (f32_of_bits w) (Fin (33 / 2 ^ 124)) \<longleftrightarrow> bits_mag ?e ?m < 33 / 2 ^ 124"
        using fin False unfolding f32_of_bits_def e by (simp add: Let_def)
      then show ?thesis using False bits_mag_less [of ?m ?e] unfolding index number by simp
    qed
  qed
qed

text \<open>
  C38: Sine and cosine of a float take its bits for an index. They read inside the table of 257 entries exactly when
  the sign bit is clear and the float is below 33 / 2^124 (about 1.6e-36): any other angle is out of bounds, the
  infinities, a value that is no number and every negative one among them, and so is the negative zero.
\<close>

theorem mathf_sin_cos_bounds:
  assumes "sincos_table tbl"
  shows "((\<exists>r. mathf_sin tbl w = Inr r) \<longleftrightarrow> \<not> bits_neg w \<and> f32_lt (f32_of_bits w) (Fin (33 / 2 ^ 124))) \<and>
         ((\<exists>r. mathf_cos tbl w = Inr r) \<longleftrightarrow> \<not> bits_neg w \<and> f32_lt (f32_of_bits w) (Fin (33 / 2 ^ 124))) \<and>
         mathf_sin tbl 0x80000000 = Inl OutOfBounds \<and> mathf_cos tbl 0x80000000 = Inl OutOfBounds \<and>
         f32_of_bits 0x80000000 = Fin 0"
  using assms bits_index [of w] unat_drop18 [of "0x80000000"]
  by (simp add: mathf_sin_def mathf_cos_def sample_at_def sincos_table_def f32_of_bits_def bits_mag_def)

theorem mathf_sin_cos_bounds_witness:
  "let tbl = replicate 257 \<lparr>sin_val = Fin 0, sin_delta = Fin 0, cos_val = Fin 1, cos_delta = Fin 0\<rparr>
   in f32_of_bits 0x3F800000 = Fin 1 \<and> \<not> (\<exists>r. mathf_sin tbl 0x3F800000 = Inr r) \<and> (\<exists>r. mathf_cos tbl 0 = Inr r)"
proof -
  have tbl: "sincos_table (replicate 257 s)" for s by (simp add: sincos_table_def)
  have "f32_of_bits 0x3F800000 = Fin 1" "f32_of_bits 0 = Fin 0"
    by (simp_all add: f32_of_bits_def bits_neg_def bits_mag_def)
  then show ?thesis
    unfolding Let_def
    using mathf_sin_cos_bounds [OF tbl, where w = "0x3F800000"] mathf_sin_cos_bounds [OF tbl, where w = 0]
    by (simp add: bits_neg_def)
qed

section \<open>Octants\<close>

lemma f32_div_neg: "f32_div (Fin (- a)) (Fin (- b)) = f32_div (Fin a) (Fin b)" if "b \<noteq> 0"
  using that by simp

text \<open>
  Arc tangents only ask for arguments from 0 to 1: two tables that agree there give the same angles.
\<close>

definition unit_agree :: "(f32 \<Rightarrow> u32) \<Rightarrow> (f32 \<Rightarrow> u32) \<Rightarrow> bool" where
  "unit_agree arc arc' \<longleftrightarrow> (\<forall>r. 0 \<le> r \<and> r \<le> 1 \<longrightarrow> arc (Fin r) = arc' (Fin r))"

lemma unit_agree_div:
  "unit_agree arc arc' \<Longrightarrow> 0 \<le> a \<Longrightarrow> a \<le> b \<Longrightarrow> 0 < b \<Longrightarrow> arc (f32_div (Fin a) (Fin b)) = arc' (f32_div (Fin a) (Fin b))"
  unfolding unit_agree_def using f32_div_unit [of a b] by metis

theorem atan2Idx_octants:
  assumes "unit_agree arc arc'"
  shows "mathf_atan2Idx arc (Fin y) (Fin x) = mathf_atan2Idx arc' (Fin y) (Fin x)"
proof -
  note agree = unit_agree_div [OF assms]
  consider "x = 0 \<and> y = 0" | "0 \<le> x \<and> 0 \<le> y \<and> (x \<noteq> 0 \<or> y \<noteq> 0)" | "0 \<le> x \<and> y < 0"
    | "x < 0 \<and> 0 \<le> y" | "x < 0 \<and> y < 0" by linarith
  then show ?thesis
  proof cases
    case 1
    then show ?thesis by (simp add: mathf_atan2Idx_def f32_ops)
  next
    case 2
    then show ?thesis
      using agree [of y x] agree [of x y]
      by (auto simp: mathf_atan2Idx_def f32_ops simp del: f32_div.simps)
  next
    case 3
    then show ?thesis
      using agree [of "- y" x] agree [of x "- y"]
      by (auto simp: mathf_atan2Idx_def f32_ops simp del: f32_div.simps)
  next
    case 4
    then show ?thesis
      using agree [of y "- x"] agree [of "- x" y]
      by (auto simp: mathf_atan2Idx_def f32_ops simp del: f32_div.simps)
  next
    case 5
    then show ?thesis
      using agree [of "- y" "- x"] agree [of "- x" "- y"] f32_div_neg [of x y] f32_div_neg [of y x]
      by (auto simp: mathf_atan2Idx_def f32_ops simp del: f32_div.simps)
  qed
qed

text \<open>The angle of the mirrored point is the angle with the opposite sign.\<close>

lemma atan2Idx_odd:
  assumes "y \<noteq> 0"
  shows "mathf_atan2Idx arc (Fin (- y)) (Fin x) = - mathf_atan2Idx arc (Fin y) (Fin x)"
proof -
  consider "0 \<le> x \<and> 0 < y" | "0 \<le> x \<and> y < 0" | "x < 0 \<and> 0 < y" | "x < 0 \<and> y < 0"
    using assms by linarith
  then show ?thesis
    using f32_div_neg [of x y] f32_div_neg [of y x] f32_div_neg [of x "- y"] f32_div_neg [of y "- x"] assms
    by cases (auto simp: mathf_atan2Idx_def f32_ops simp del: f32_div.simps)
qed

section \<open>The step towards a target\<close>

text \<open>
  On unsigned integers, with the wrap-around of the addition: the distance shrinks by the step, and the value
  stays between where it was and the target.
\<close>

definition chase_dist :: "u32 \<Rightarrow> u32 \<Rightarrow> nat" where
  "chase_dist v target = (if v < target then unat target - unat v else unat v - unat target)"

definition chase_value :: "u32 \<Rightarrow> u32 \<Rightarrow> u32 \<Rightarrow> u32" where
  "chase_value target step v = snd (math_chase v target step)"

lemma chase_dist_zero: "chase_dist v target = 0 \<longleftrightarrow> v = target"
  by (auto simp: chase_dist_def word_less_nat_alt word_unat_eq_iff)

lemma unat_bound32: "unat w < 2 ^ 32" for w :: u32
  using unsigned_less [of w] by simp

lemma unat_plus_cases:
  "unat (a + b :: u32) = (if unat a + unat b < 2 ^ 32 then unat a + unat b else unat a + unat b - 2 ^ 32)"
  using unat_bound32 [of a] unat_bound32 [of b] by (auto simp: unat_word_ariths mod_if)

lemma unat_minus_cases:
  "unat (a - b :: u32) = (if unat b \<le> unat a then unat a - unat b else 2 ^ 32 + unat a - unat b)"
  using unat_bound32 [of a] unat_bound32 [of b] by (simp add: unat_sub_if_size word_size) arith

lemma chase_value_step:
  shows "chase_dist (chase_value target step v) target = chase_dist v target - unat step"
  and "v \<le> target \<Longrightarrow> v \<le> chase_value target step v \<and> chase_value target step v \<le> target"
  and "target \<le> v \<Longrightarrow> target \<le> chase_value target step v \<and> chase_value target step v \<le> v"
  using unat_bound32 [of v] unat_bound32 [of target] unat_bound32 [of step]
  by (auto simp: chase_dist_def chase_value_def math_chase_def Let_def word_less_nat_alt word_le_nat_alt
      unat_plus_cases unat_minus_cases split: if_splits)

text \<open>
  Repeated, it arrives after as many steps as the distance holds the step, and not before; it never passes
  the target.
\<close>

theorem chase_arrives:
  "((chase_value target step ^^ n) v = target \<longleftrightarrow> chase_dist v target \<le> n * unat step) \<and>
   (v \<le> target \<longrightarrow> v \<le> (chase_value target step ^^ n) v \<and> (chase_value target step ^^ n) v \<le> target) \<and>
   (target \<le> v \<longrightarrow> target \<le> (chase_value target step ^^ n) v \<and> (chase_value target step ^^ n) v \<le> v)"
proof -
  let ?w = "\<lambda>n. (chase_value target step ^^ n) v"
  have "chase_dist (?w n) target = chase_dist v target - n * unat step \<and>
        (v \<le> target \<longrightarrow> v \<le> ?w n \<and> ?w n \<le> target) \<and> (target \<le> v \<longrightarrow> target \<le> ?w n \<and> ?w n \<le> v)"
  proof (induction n)
    case 0
    then show ?case by simp
  next
    case (Suc n)
    note step = chase_value_step [where target = target and step = step and v = "?w n"]
    have next_value: "?w (Suc n) = chase_value target step (?w n)" by simp
    have "chase_dist (?w (Suc n)) target = chase_dist v target - Suc n * unat step"
      using Suc step(1) unfolding next_value by simp
    moreover have "v \<le> target \<longrightarrow> v \<le> ?w (Suc n) \<and> ?w (Suc n) \<le> target"
      using Suc step(2) order_trans [of v "?w n" "?w (Suc n)"] unfolding next_value by blast
    moreover have "target \<le> v \<longrightarrow> target \<le> ?w (Suc n) \<and> ?w (Suc n) \<le> v"
      using Suc step(3) order_trans [of "?w (Suc n)" "?w n" v] unfolding next_value by blast
    ultimately show ?case by blast
  qed
  then show ?thesis using chase_dist_zero [of "?w n" target] by auto
qed

theorem chase_arrives_witness: "(chase_value 20 6 ^^ 3) 3 = 20 \<and> (chase_value 20 6 ^^ 2) 3 \<noteq> 20"
  using chase_arrives [where target = 20 and step = 6 and n = 3 and v = 3]
    chase_arrives [where target = 20 and step = 6 and n = 2 and v = 3]
  by (simp add: chase_dist_def word_less_nat_alt)

text \<open>On floats a step that rounding swallows never arrives.\<close>

lemma chase_stuck:
  "math_chase (Fin (2 ^ 24)) (Fin (2 ^ 24 + 2)) (Fin 1 :: f32) = (False, Fin (2 ^ 24))"
proof -
  have "f32_ulp (2 ^ 24 + 1) = 2" using f32_ulp_eqI [of 149 "2 ^ 24 + 1"] by simp
  moreover have "\<lfloor>16777217 / 2 :: rat\<rfloor> = 8388608" by (simp add: floor_eq_iff)
  ultimately have "f32_round (2 ^ 24 + 1) = Fin (2 ^ 24)"
    by (simp add: f32_round_def Let_def round_half_even_def)
  then show ?thesis by (simp add: math_chase_def f32_ops f32_le_def)
qed

section \<open>Integers\<close>

text \<open>The absolute value is right except at the smallest number, which is its own.\<close>

lemma mathi_abs_value: "mathi_abs x = (if 0 \<le> sint x then x else - x)"
proof -
  have "sint (signed_drop_bit 31 x) = sint x div 2 ^ 31"
    by (simp add: sint_signed_drop_bit_eq drop_bit_eq_div)
  also have "\<dots> = (if 0 \<le> sint x then 0 else - 1)"
  proof (cases "0 \<le> sint x")
    case True
    then show ?thesis using sint_range32 [of x] by (simp add: div_pos_pos_trivial)
  next
    case False
    then have "sint x div 2 ^ 31 = - 1"
      using sint_range32 [of x] by (intro int_div_pos_eq [where r = "sint x + 2 ^ 31"]) simp_all
    then show ?thesis using False by simp
  qed
  also have "\<dots> = sint (if 0 \<le> sint x then 0 else - 1 :: s32)" by simp
  finally have "signed_drop_bit 31 x = (if 0 \<le> sint x then 0 else - 1)" by (rule signed_word_eqI)
  then show ?thesis by (simp add: mathi_abs_def flip: minus_eq_not_plus_1)
qed

lemma mathi_abs_smallest: "mathi_abs (- (2 ^ 31)) = - (2 ^ 31)"
  by (simp add: mathi_abs_value)

text \<open>Rounding up to a multiple of a power of two: the least one from the value on.\<close>

lemma roundUpPow2_value:
  assumes "unat v + 2 ^ k \<le> 2 ^ 32" and "k < 32"
  shows "unat (mathu_roundUpPow2 v (2 ^ k)) = (unat v + 2 ^ k - 1) div 2 ^ k * 2 ^ k"
proof -
  have pow: "unat (2 ^ k :: u32) = 2 ^ k" using power_strict_increasing [OF assms(2), of 2] by (intro of_nat_inverse) simp_all
  have "unat (v + 2 ^ k - 1) = unat v + 2 ^ k - 1"
  proof (cases "unat v + 2 ^ k = 2 ^ 32")
    case True
    then have "unat (v + 2 ^ k) = 0" using unat_plus_cases [of v "2 ^ k"] pow by simp
    then show ?thesis using True unat_minus_cases [of "v + 2 ^ k" 1] by simp
  next
    case False
    then have "unat (v + 2 ^ k) = unat v + 2 ^ k" using unat_plus_cases [of v "2 ^ k"] pow assms(1) by simp
    moreover have "1 \<le> unat v + 2 ^ k" by (simp add: Suc_le_eq)
    ultimately show ?thesis using unat_minus_cases [of "v + 2 ^ k" 1] by simp
  qed
  moreover have "unat (w AND - (2 ^ k)) = unat w div 2 ^ k * 2 ^ k" for w :: u32
  proof -
    have "w AND - (2 ^ k) = push_bit k (drop_bit k w)"
      by (rule bit_word_eqI) (auto simp: minus_exp_eq_not_mask bit_simps)
    moreover have "unat w div 2 ^ k * 2 ^ k < 2 ^ 32"
      using unat_bound32 [of w] by (rule le_less_trans [OF div_times_less_eq_dividend])
    moreover have "unat (push_bit k (drop_bit k w)) = take_bit 32 (push_bit k (drop_bit k (unat w)))"
      by (simp only: unsigned_push_bit_eq unat_drop_bit_eq) simp
    ultimately show ?thesis
      by (simp add: push_bit_eq_mult drop_bit_eq_div take_bit_nat_eq_self)
  qed
  ultimately show ?thesis
    by (simp add: mathu_roundUpPow2_def)
qed

end
