(* ===== verification/Matrix33.thy ===== *)
theory Matrix33
  imports Math_Calc Complex_Main
begin

text \<open>
  Matrices of two and three rows and quaternions of the engine's library
  (\<open>sead/math/seadMatrixCalcCommon.hpp\<close>, \<open>seadQuatCalcCommon.hpp\<close>, \<open>seadQuat.hpp\<close>). The source has templates
  over a type \<open>T\<close>; the models are over any type with the operations the template uses. On \<open>f32\<close> every
  operation is then the rounded one, in the order the source writes them; what is shown over a field holds
  for exact arithmetic. Every function reads its arguments before it writes the result, so a result that
  is also an argument makes no difference; \<open>transposeTo\<close> asserts that it is not.
\<close>

section \<open>Data\<close>

datatype 'a vec3 = V3 'a 'a 'a

datatype 'a vec4 = V4 'a 'a 'a 'a

datatype 'a quat = Qt 'a 'a 'a 'a

datatype 'a mtx22 = M22 'a 'a 'a 'a

datatype 'a mtx33 = M33 'a 'a 'a 'a 'a 'a 'a 'a 'a

text \<open>The order of a quaternion is \<open>w\<close>, \<open>x\<close>, \<open>y\<close>, \<open>z\<close>, that of a matrix is by rows.\<close>

section \<open>Two rows\<close>

definition mtx22_makeIdentity :: "'a::{zero, one} mtx22" where
  "mtx22_makeIdentity = M22 1 0 0 1"

definition mtx22_makeZero :: "'a::zero mtx22" where
  "mtx22_makeZero = M22 0 0 0 0"

fun mtx22_det :: "'a::{minus, times} mtx22 \<Rightarrow> 'a" where
  "mtx22_det (M22 a11 a12 a21 a22) = a11 * a22 - a12 * a21"

fun mtx22_inverse :: "'a::{zero, one, minus, uminus, times, inverse} mtx22 \<Rightarrow> 'a mtx22" where
  "mtx22_inverse (M22 a11 a12 a21 a22) =
     (let det = mtx22_det (M22 a11 a12 a21 a22)
      in if det = 0 then mtx22_makeIdentity
         else let det = 1 / det in M22 (a22 * det) (- a12 * det) (- a21 * det) (a11 * det))"

fun mtx22_inverseTranspose :: "'a::{zero, one, minus, uminus, times, inverse} mtx22 \<Rightarrow> 'a mtx22" where
  "mtx22_inverseTranspose (M22 a11 a12 a21 a22) =
     (let det = mtx22_det (M22 a11 a12 a21 a22)
      in if det = 0 then mtx22_makeIdentity
         else let det = 1 / det in M22 (a22 * det) (- a21 * det) (- a12 * det) (a11 * det))"

fun mtx22_multiply :: "'a::{plus, times} mtx22 \<Rightarrow> 'a mtx22 \<Rightarrow> 'a mtx22" where
  "mtx22_multiply (M22 a11 a12 a21 a22) (M22 b11 b12 b21 b22) =
     M22 (a11 * b11 + a12 * b21) (a11 * b12 + a12 * b22)
         (a21 * b11 + a22 * b21) (a21 * b12 + a22 * b22)"

fun mtx22_transpose :: "'a mtx22 \<Rightarrow> 'a mtx22" where
  "mtx22_transpose (M22 a11 a12 a21 a22) = M22 a11 a21 a12 a22"

fun mtx22_transposeTo :: "'a mtx22 \<Rightarrow> 'a mtx22" where
  "mtx22_transposeTo (M22 n11 n12 n21 n22) = M22 n11 n21 n12 n22"

section \<open>Three rows\<close>

definition mtx33_makeIdentity :: "'a::{zero, one} mtx33" where
  "mtx33_makeIdentity = M33 1 0 0 0 1 0 0 0 1"

definition mtx33_makeZero :: "'a::zero mtx33" where
  "mtx33_makeZero = M33 0 0 0 0 0 0 0 0 0"

fun mtx33_det :: "'a::{plus, minus, times} mtx33 \<Rightarrow> 'a" where
  "mtx33_det (M33 a11 a12 a13 a21 a22 a23 a31 a32 a33) =
     (a11 * a22 * a33 - a31 * a22 * a13) + (a12 * a23 * a31 - a21 * a12 * a33) +
     (a13 * a21 * a32 - a11 * a32 * a23)"

fun mtx33_inverse :: "'a::{zero, one, plus, minus, times, inverse} mtx33 \<Rightarrow> 'a mtx33" where
  "mtx33_inverse (M33 a11 a12 a13 a21 a22 a23 a31 a32 a33) =
     (let det = mtx33_det (M33 a11 a12 a13 a21 a22 a23 a31 a32 a33)
      in if det = 0 then mtx33_makeIdentity
         else let det = 1 / det
              in M33 ((a22 * a33 - a32 * a23) * det) ((a32 * a13 - a12 * a33) * det) ((a12 * a23 - a22 * a13) * det)
                     ((a31 * a23 - a21 * a33) * det) ((a11 * a33 - a31 * a13) * det) ((a21 * a13 - a11 * a23) * det)
                     ((a21 * a32 - a31 * a22) * det) ((a31 * a12 - a11 * a32) * det) ((a11 * a22 - a21 * a12) * det))"

fun mtx33_inverseTranspose :: "'a::{zero, one, plus, minus, times, inverse} mtx33 \<Rightarrow> 'a mtx33" where
  "mtx33_inverseTranspose (M33 a11 a12 a13 a21 a22 a23 a31 a32 a33) =
     (let det = mtx33_det (M33 a11 a12 a13 a21 a22 a23 a31 a32 a33)
      in if det = 0 then mtx33_makeIdentity
         else let det = 1 / det
              in M33 ((a22 * a33 - a32 * a23) * det) ((a31 * a23 - a21 * a33) * det) ((a21 * a32 - a31 * a22) * det)
                     ((a32 * a13 - a12 * a33) * det) ((a11 * a33 - a31 * a13) * det) ((a31 * a12 - a11 * a32) * det)
                     ((a12 * a23 - a22 * a13) * det) ((a21 * a13 - a11 * a23) * det) ((a11 * a22 - a21 * a12) * det))"

fun mtx33_multiply :: "'a::{plus, times} mtx33 \<Rightarrow> 'a mtx33 \<Rightarrow> 'a mtx33" where
  "mtx33_multiply (M33 a11 a12 a13 a21 a22 a23 a31 a32 a33) (M33 b11 b12 b13 b21 b22 b23 b31 b32 b33) =
     M33 (a11 * b11 + a12 * b21 + a13 * b31) (a11 * b12 + a12 * b22 + a13 * b32) (a11 * b13 + a12 * b23 + a13 * b33)
         (a21 * b11 + a22 * b21 + a23 * b31) (a21 * b12 + a22 * b22 + a23 * b32) (a21 * b13 + a22 * b23 + a23 * b33)
         (a31 * b11 + a32 * b21 + a33 * b31) (a31 * b12 + a32 * b22 + a33 * b32) (a31 * b13 + a32 * b23 + a33 * b33)"

fun mtx33_transpose :: "'a mtx33 \<Rightarrow> 'a mtx33" where
  "mtx33_transpose (M33 a11 a12 a13 a21 a22 a23 a31 a32 a33) = M33 a11 a21 a31 a12 a22 a32 a13 a23 a33"

fun mtx33_transposeTo :: "'a mtx33 \<Rightarrow> 'a mtx33" where
  "mtx33_transposeTo (M33 n11 n12 n13 n21 n22 n23 n31 n32 n33) = M33 n11 n21 n31 n12 n22 n32 n13 n23 n33"

fun mtx33_makeS :: "'a::zero vec3 \<Rightarrow> 'a mtx33" where
  "mtx33_makeS (V3 sx sy sz) = M33 sx 0 0 0 sy 0 0 0 sz"

section \<open>Quaternions\<close>

fun quat_dot :: "'a::{plus, times} quat \<Rightarrow> 'a quat \<Rightarrow> 'a" where
  "quat_dot (Qt uw ux uy uz) (Qt vw vx vy vz) = uw * vw + ux * vx + uy * vy + uz * vz"

definition quat_length :: "('a \<Rightarrow> 'a) \<Rightarrow> 'a::{plus, times} quat \<Rightarrow> 'a" where
  "quat_length sqrt_fn v = sqrt_fn (quat_dot v v)"

fun quat_scale :: "'a::times quat \<Rightarrow> 'a \<Rightarrow> 'a quat" where
  "quat_scale (Qt w x y z) t = Qt (w * t) (x * t) (y * t) (z * t)"

definition quat_normalize ::
  "('a \<Rightarrow> 'a) \<Rightarrow> 'a::{zero, one, plus, times, inverse, ord} quat \<Rightarrow> 'a \<times> 'a quat" where
  "quat_normalize sqrt_fn v =
     (let len = quat_length sqrt_fn v in (len, if 0 < len then quat_scale v (1 / len) else v))"

fun quat_setMul :: "'a::{plus, minus, times} quat \<Rightarrow> 'a quat \<Rightarrow> 'a quat" where
  "quat_setMul (Qt uw ux uy uz) (Qt vw vx vy vz) =
     Qt (uw * vw - ux * vx - uy * vy - uz * vz)
        (uw * vx + ux * vw + uy * vz - uz * vy)
        (uw * vy - ux * vz + uy * vw + uz * vx)
        (uw * vz + ux * vy - uy * vx + uz * vw)"

definition quat_unit :: "'a::{zero, one} quat" where
  "quat_unit = Qt 1 0 0 0"

text \<open>\<open>Quat::inverse\<close>: divided by the square of the length, unless that is at most the epsilon of the type.\<close>

fun quat_inverse ::
  "'a \<Rightarrow> 'a::{one, plus, uminus, times, inverse, ord} quat \<Rightarrow> 'a quat" where
  "quat_inverse eps (Qt w x y z) =
     (let prod = quat_dot (Qt w x y z) (Qt w x y z)
      in if eps < prod
         then let inv = 1 / prod in Qt (inv * w) (inv * - x) (inv * - y) (inv * - z)
         else Qt w (- x) (- y) (- z))"

text \<open>
  \<open>slerpTo\<close> with the functions of the library it calls: arc cosine, sine, and the epsilon.
\<close>

fun quat_slerpTo ::
  "('a \<Rightarrow> 'a) \<Rightarrow> ('a \<Rightarrow> 'a) \<Rightarrow> 'a \<Rightarrow> 'a::{zero, one, plus, minus, uminus, times, inverse, ord} quat \<Rightarrow> 'a quat \<Rightarrow>
   'a \<Rightarrow> 'a quat" where
  "quat_slerpTo acos_fn sin_fn eps (Qt w1 x1 y1 z1) (Qt w2 x2 y2 z2) t =
     (let dot = x1 * x2 + y1 * y2 + z1 * z2 + w1 * w2;
          dot = (if 1 < dot then 1 else if dot < - 1 then - 1 else dot);
          dot_0 = dot;
          dot = (if dot < 0 then - dot else dot);
          theta_0 = acos_fn dot;
          sin_theta_0 = sin_fn theta_0;
          (a, b) = (if math_abs sin_theta_0 < eps then (1 - t, t)
                    else let theta = theta_0 * t; sin_theta_0_inv = 1 / sin_theta_0
                         in (sin_theta_0_inv * sin_fn (theta_0 - theta), sin_theta_0_inv * sin_fn theta));
          b = (if dot_0 < 0 then - b else b)
      in Qt (a * w1 + b * w2) (a * x1 + b * x2) (a * y1 + b * y2) (a * z1 + b * z2))"

fun vec3_cross :: "'a::{minus, times} vec3 \<Rightarrow> 'a vec3 \<Rightarrow> 'a vec3" where
  "vec3_cross (V3 ax ay az) (V3 bx b_y bz) = V3 (ay * bz - az * b_y) (az * bx - ax * bz) (ax * b_y - ay * bx)"

fun vec3_dot :: "'a::{plus, times} vec3 \<Rightarrow> 'a vec3 \<Rightarrow> 'a" where
  "vec3_dot (V3 ax ay az) (V3 bx b_y bz) = ax * bx + ay * b_y + az * bz"

definition quat_makeVectorRotation ::
  "('a \<Rightarrow> 'a) \<Rightarrow> 'a \<Rightarrow> 'a::{zero, one, plus, minus, times, inverse, ord} vec3 \<Rightarrow> 'a vec3 \<Rightarrow> bool \<times> 'a quat" where
  "quat_makeVectorRotation sqrt_fn eps u v =
     (let dot = vec3_dot u v + 1
      in if dot \<le> eps then (False, quat_unit)
         else let s = sqrt_fn (two * dot); rs = 1 / s
              in case vec3_cross u v of V3 cx cy cz \<Rightarrow> (True, Qt (s * half) (cx * rs) (cy * rs) (cz * rs)))"

definition quat_setRPY ::
  "('a \<Rightarrow> 'a) \<Rightarrow> ('a \<Rightarrow> 'a) \<Rightarrow> 'a::{one, plus, minus, times, inverse} \<Rightarrow> 'a \<Rightarrow> 'a \<Rightarrow> 'a quat" where
  "quat_setRPY sin_fn cos_fn roll pitch yaw =
     (let cy = cos_fn (yaw / two); cp = cos_fn (pitch / two); cr = cos_fn (roll / two);
          sy = sin_fn (yaw / two); sp = sin_fn (pitch / two); sr = sin_fn (roll / two);
          cy_cp = cy * cp; sy_sp = sy * sp; cy_sp = cy * sp; sy_cp = sy * cp
      in Qt (cy_cp * cr + sy_sp * sr) (cy_cp * sr - sy_sp * cr) (cy_sp * cr + sy_cp * sr) (sy_cp * cr - cy_sp * sr))"

section \<open>Rotations\<close>

fun mtx33_makeQ :: "'a::{one, plus, minus, times} quat \<Rightarrow> 'a mtx33" where
  "mtx33_makeQ (Qt w x y z) =
     (let yy = two * y * y; zz = two * z * z; xx = two * x * x; xy = two * x * y; xz = two * x * z;
          yz = two * y * z; wz = two * w * z; wx = two * w * x; wy = two * w * y
      in M33 (1 - yy - zz) (xy - wz) (xz + wy) (xy + wz) (1 - xx - zz) (yz - wx) (xz - wy) (yz + wx) (1 - xx - yy))"

text \<open>The entries from the sines and cosines of the three angles.\<close>

fun angles_xyz :: "'a::{plus, minus, uminus, times} vec3 \<Rightarrow> 'a vec3 \<Rightarrow> 'a mtx33" where
  "angles_xyz (V3 s0 s1 s2) (V3 c0 c1 c2) =
     M33 (c1 * c2) (s0 * s1 * c2 - c0 * s2) (c0 * c2 * s1 + s0 * s2)
         (c1 * s2) (s0 * s1 * s2 + c0 * c2) (c0 * s2 * s1 - s0 * c2)
         (- s1) (s0 * c1) (c0 * c1)"

fun angles_zxy :: "'a::{plus, minus, uminus, times} vec3 \<Rightarrow> 'a vec3 \<Rightarrow> 'a mtx33" where
  "angles_zxy (V3 s0 s1 s2) (V3 c0 c1 c2) =
     M33 (c1 * c2 + s0 * s1 * s2) (c1 * s2 - s0 * s1 * c2) (c0 * s1)
         (c0 * s2) (c0 * c2) (- s0)
         (s1 * c2 - s0 * c1 * s2) (s1 * s2 + s0 * c1 * c2) (c0 * c1)"

text \<open>Each column times the component of a scale.\<close>

fun scale_columns :: "'a::times vec3 \<Rightarrow> 'a mtx33 \<Rightarrow> 'a mtx33" where
  "scale_columns (V3 sx sy sz) (M33 a11 a12 a13 a21 a22 a23 a31 a32 a33) =
     M33 (sx * a11) (sy * a12) (sz * a13) (sx * a21) (sy * a22) (sz * a23) (sx * a31) (sy * a32) (sz * a33)"

text \<open>
  The sines and cosines, from the library's functions, which may read outside their table, or from the
  functions on angle indices.
\<close>

fun sines_of :: "('a \<Rightarrow> 'a res) \<Rightarrow> ('a \<Rightarrow> 'a res) \<Rightarrow> 'a vec3 \<Rightarrow> ('a vec3 \<times> 'a vec3) res" where
  "sines_of sn cs (V3 x y z) =
     rbind (sn x) (\<lambda>s0. rbind (sn y) (\<lambda>s1. rbind (sn z) (\<lambda>s2.
     rbind (cs x) (\<lambda>c0. rbind (cs y) (\<lambda>c1. rbind (cs z) (\<lambda>c2. Inr (V3 s0 s1 s2, V3 c0 c1 c2)))))))"

fun sines_idx :: "(u32 \<Rightarrow> ('a \<times> 'a) res) \<Rightarrow> u32 vec3 \<Rightarrow> ('a vec3 \<times> 'a vec3) res" where
  "sines_idx sc (V3 x y z) =
     rbind (sc x) (\<lambda>(s0, c0). rbind (sc y) (\<lambda>(s1, c1). rbind (sc z) (\<lambda>(s2, c2).
       Inr (V3 s0 s1 s2, V3 c0 c1 c2))))"

definition mtx33_makeR ::
  "('a \<Rightarrow> 'a res) \<Rightarrow> ('a \<Rightarrow> 'a res) \<Rightarrow> 'a::{plus, minus, uminus, times} vec3 \<Rightarrow> 'a mtx33 res" where
  "mtx33_makeR sn cs r = rbind (sines_of sn cs r) (\<lambda>(s, c). Inr (angles_xyz s c))"

definition mtx33_makeRIdx ::
  "(u32 \<Rightarrow> ('a \<times> 'a) res) \<Rightarrow> u32 \<Rightarrow> u32 \<Rightarrow> u32 \<Rightarrow> 'a::{plus, minus, uminus, times} mtx33 res" where
  "mtx33_makeRIdx sc xr yr zr = rbind (sines_idx sc (V3 xr yr zr)) (\<lambda>(s, c). Inr (angles_xyz s c))"

definition mtx33_makeRzxyIdx ::
  "(u32 \<Rightarrow> ('a \<times> 'a) res) \<Rightarrow> u32 \<Rightarrow> u32 \<Rightarrow> u32 \<Rightarrow> 'a::{plus, minus, uminus, times} mtx33 res" where
  "mtx33_makeRzxyIdx sc xr yr zr = rbind (sines_idx sc (V3 xr yr zr)) (\<lambda>(s, c). Inr (angles_zxy s c))"

definition mtx33_makeSR ::
  "('a \<Rightarrow> 'a res) \<Rightarrow> ('a \<Rightarrow> 'a res) \<Rightarrow> 'a::{plus, minus, uminus, times} vec3 \<Rightarrow> 'a vec3 \<Rightarrow> 'a mtx33 res" where
  "mtx33_makeSR sn cs sv r = rbind (sines_of sn cs r) (\<lambda>(s, c). Inr (scale_columns sv (angles_xyz s c)))"

definition mtx33_makeSRIdx ::
  "(u32 \<Rightarrow> ('a \<times> 'a) res) \<Rightarrow> 'a::{plus, minus, uminus, times} vec3 \<Rightarrow> u32 vec3 \<Rightarrow> 'a mtx33 res" where
  "mtx33_makeSRIdx sc sv r = rbind (sines_idx sc r) (\<lambda>(s, c). Inr (scale_columns sv (angles_xyz s c)))"

definition mtx33_makeSRzxyIdx ::
  "(u32 \<Rightarrow> ('a \<times> 'a) res) \<Rightarrow> 'a::{plus, minus, uminus, times} vec3 \<Rightarrow> u32 vec3 \<Rightarrow> 'a mtx33 res" where
  "mtx33_makeSRzxyIdx sc sv r = rbind (sines_idx sc r) (\<lambda>(s, c). Inr (scale_columns sv (angles_zxy s c)))"

text \<open>
  The quaternion of a rotation. In the branches after the first a zero root is not divided by.
\<close>

fun mtx33_toQuat ::
  "('a \<Rightarrow> 'a) \<Rightarrow> 'a::{zero, one, plus, minus, times, inverse, ord} mtx33 \<Rightarrow> 'a quat" where
  "mtx33_toQuat sqrt_fn (M33 a11 a12 a13 a21 a22 a23 a31 a32 a33) =
     (let t = a11 + a22 + a33
      in if 0 < t
         then let r = sqrt_fn (t + 1); s = half / r
              in Qt (r * half) ((a32 - a23) * s) ((a13 - a31) * s) ((a21 - a12) * s)
         else if a11 < a22 \<and> a33 \<le> a22
         then let r = sqrt_fn (a22 - (a33 + a11) + 1); s = (if r \<noteq> 0 then half / r else r)
              in Qt ((a13 - a31) * s) ((a21 + a12) * s) (r * half) ((a23 + a32) * s)
         else if a11 < a22 \<or> a11 < a33
         then let r = sqrt_fn (a33 - (a11 + a22) + 1); s = (if r \<noteq> 0 then half / r else r)
              in Qt ((a21 - a12) * s) ((a31 + a13) * s) ((a32 + a23) * s) (r * half)
         else let r = sqrt_fn (a11 - (a22 + a33) + 1); s = (if r \<noteq> 0 then half / r else r)
              in Qt ((a32 - a23) * s) (r * half) ((a12 + a21) * s) ((a13 + a31) * s))"

section \<open>Products and inverses\<close>

lemma mtx22_eqI: "a = e \<Longrightarrow> b = f \<Longrightarrow> c = g \<Longrightarrow> d = h \<Longrightarrow> M22 a b c d = M22 e f g h"
  by simp

lemma mtx22_inverse_right:
  fixes m :: "'a::field mtx22"
  assumes "mtx22_det m \<noteq> 0"
  shows "mtx22_multiply m (mtx22_inverse m) = mtx22_makeIdentity"
  and "mtx22_multiply (mtx22_inverse m) m = mtx22_makeIdentity"
proof -
  obtain a b c d where m: "m = M22 a b c d" by (cases m)
  let ?t = "1 / (a * d - b * c)"
  have "a * d - b * c \<noteq> 0" using assms by (simp add: m)
  then have t: "(a * d - b * c) * ?t = 1" by simp
  have inv: "mtx22_inverse m = M22 (d * ?t) (- b * ?t) (- c * ?t) (a * ?t)"
    using assms by (simp add: m Let_def)
  have "a * (d * ?t) - b * (c * ?t) = 1" and "d * ?t * a - b * ?t * c = 1" and "a * ?t * d - c * ?t * b = 1"
    using t by algebra+
  then show "mtx22_multiply m (mtx22_inverse m) = mtx22_makeIdentity"
    and "mtx22_multiply (mtx22_inverse m) m = mtx22_makeIdentity"
    unfolding inv by (simp_all add: m mtx22_makeIdentity_def mult_ac)
qed

lemma mtx22_inverseTranspose_eq: "mtx22_inverseTranspose m = mtx22_transpose (mtx22_inverse m)"
  by (cases m) (simp add: Let_def mtx22_makeIdentity_def)

lemma mtx33_multiply_assoc:
  fixes a :: "'a::comm_ring_1 mtx33"
  shows "mtx33_multiply (mtx33_multiply a b) c = mtx33_multiply a (mtx33_multiply b c)"
  by (cases a; cases b; cases c; simp add: algebra_simps)

lemma mtx33_multiply_identity [simp]:
  fixes m :: "'a::comm_ring_1 mtx33"
  shows "mtx33_multiply mtx33_makeIdentity m = m" and "mtx33_multiply m mtx33_makeIdentity = m"
  by (cases m; simp add: mtx33_makeIdentity_def)+

lemma mtx33_transpose_multiply:
  fixes a :: "'a::comm_ring_1 mtx33"
  shows "mtx33_transpose (mtx33_multiply a b) = mtx33_multiply (mtx33_transpose b) (mtx33_transpose a)"
  by (cases a; cases b; simp add: algebra_simps)

lemma mtx33_det_multiply:
  fixes a :: "'a::idom mtx33"
  shows "mtx33_det (mtx33_multiply a b) = mtx33_det a * mtx33_det b"
proof (cases a, cases b, hypsubst)
  fix a1 a2 a3 a4 a5 a6 a7 a8 a9 b1 b2 b3 b4 b5 b6 b7 b8 b9 :: 'a
  show "mtx33_det (mtx33_multiply (M33 a1 a2 a3 a4 a5 a6 a7 a8 a9) (M33 b1 b2 b3 b4 b5 b6 b7 b8 b9)) =
        mtx33_det (M33 a1 a2 a3 a4 a5 a6 a7 a8 a9) * mtx33_det (M33 b1 b2 b3 b4 b5 b6 b7 b8 b9)"
    by (simp only: mtx33_multiply.simps mtx33_det.simps) algebra
qed

text \<open>The adjugate: the matrix the inverse divides by the determinant.\<close>

fun adjugate33 :: "'a::{minus, times} mtx33 \<Rightarrow> 'a mtx33" where
  "adjugate33 (M33 a11 a12 a13 a21 a22 a23 a31 a32 a33) =
     M33 (a22 * a33 - a32 * a23) (a32 * a13 - a12 * a33) (a12 * a23 - a22 * a13)
         (a31 * a23 - a21 * a33) (a11 * a33 - a31 * a13) (a21 * a13 - a11 * a23)
         (a21 * a32 - a31 * a22) (a31 * a12 - a11 * a32) (a11 * a22 - a21 * a12)"

fun scale33 :: "'a::times mtx33 \<Rightarrow> 'a \<Rightarrow> 'a mtx33" where
  "scale33 (M33 a b c d e f g h i) t = M33 (a * t) (b * t) (c * t) (d * t) (e * t) (f * t) (g * t) (h * t) (i * t)"

lemma mtx33_inverse_adjugate:
  "mtx33_det m \<noteq> 0 \<Longrightarrow> mtx33_inverse m = scale33 (adjugate33 m) (1 / mtx33_det m)"
  by (cases m) (simp add: Let_def)

lemma adjugate33_product:
  fixes m :: "'a::comm_ring_1 mtx33"
  shows "mtx33_multiply m (adjugate33 m) = scale33 mtx33_makeIdentity (mtx33_det m)"
  and "mtx33_multiply (adjugate33 m) m = scale33 mtx33_makeIdentity (mtx33_det m)"
  by (cases m; simp add: mtx33_makeIdentity_def algebra_simps)+

lemma scale33_multiply:
  fixes a :: "'a::comm_ring_1 mtx33"
  shows "mtx33_multiply a (scale33 b t) = scale33 (mtx33_multiply a b) t"
  and "mtx33_multiply (scale33 a t) b = scale33 (mtx33_multiply a b) t"
  by (cases a; cases b; simp add: algebra_simps)+

lemma scale33_scale33: "scale33 (scale33 m s) t = scale33 m (s * t)" for m :: "'a::comm_ring_1 mtx33"
  by (cases m) (simp add: mult.assoc)

lemma scale33_one [simp]: "scale33 m 1 = m" for m :: "'a::comm_ring_1 mtx33"
  by (cases m) simp

lemma mtx33_inverses:
  fixes m :: "'a::field mtx33"
  assumes "mtx33_det m \<noteq> 0"
  shows "mtx33_multiply m (mtx33_inverse m) = mtx33_makeIdentity"
  and "mtx33_multiply (mtx33_inverse m) m = mtx33_makeIdentity"
  using assms by (simp_all add: mtx33_inverse_adjugate scale33_multiply adjugate33_product scale33_scale33)

lemma mtx33_inverse_singular: "mtx33_det m = 0 \<Longrightarrow> mtx33_inverse m = mtx33_makeIdentity"
  by (cases m) (simp add: Let_def)

lemma mtx33_inverseTranspose_eq: "mtx33_inverseTranspose m = mtx33_transpose (mtx33_inverse m)"
  by (cases m) (simp add: Let_def mtx33_makeIdentity_def)

section \<open>Quaternions and rotations\<close>

text \<open>A quaternion of length 1, and the rotation of a product.\<close>

definition unit_quat :: "'a::comm_ring_1 quat \<Rightarrow> bool" where
  "unit_quat q \<longleftrightarrow> quat_dot q q = 1"

lemma quat_dot_mul: "quat_dot (quat_setMul p q) (quat_setMul p q) = quat_dot p p * quat_dot q q"
  for p :: "'a::idom quat"
proof (cases p, cases q, hypsubst)
  fix w x y z w' x' y' z' :: 'a
  show "quat_dot (quat_setMul (Qt w x y z) (Qt w' x' y' z')) (quat_setMul (Qt w x y z) (Qt w' x' y' z')) =
        quat_dot (Qt w x y z) (Qt w x y z) * quat_dot (Qt w' x' y' z') (Qt w' x' y' z')"
    by (simp only: quat_setMul.simps quat_dot.simps) algebra
qed

lemma unit_quat_mul: "unit_quat p \<Longrightarrow> unit_quat q \<Longrightarrow> unit_quat (quat_setMul p q)" for p :: "'a::idom quat"
  by (simp add: unit_quat_def quat_dot_mul)

lemma quat_setMul_assoc: "quat_setMul (quat_setMul p q) r = quat_setMul p (quat_setMul q r)"
  for p :: "'a::comm_ring_1 quat"
  by (cases p; cases q; cases r; simp add: algebra_simps)

lemma quat_unit_mul [simp]:
  fixes q :: "'a::comm_ring_1 quat"
  shows "quat_setMul quat_unit q = q" and "quat_setMul q quat_unit = q"
  by (cases q; simp add: quat_unit_def)+

text \<open>On unit quaternions the rotation is homogeneous in the components.\<close>

fun rotation_form :: "'a::comm_ring_1 quat \<Rightarrow> 'a mtx33" where
  "rotation_form (Qt w x y z) =
     M33 (w * w + x * x - y * y - z * z) (2 * (x * y - w * z)) (2 * (x * z + w * y))
         (2 * (x * y + w * z)) (w * w - x * x + y * y - z * z) (2 * (y * z - w * x))
         (2 * (x * z - w * y)) (2 * (y * z + w * x)) (w * w - x * x - y * y + z * z)"

lemma two_ring: "(two :: 'a::comm_ring_1) = 2"
  by (simp add: two_def)

lemma makeQ_form: "unit_quat q \<Longrightarrow> mtx33_makeQ q = rotation_form q" for q :: "'a::idom quat"
proof (cases q)
  case (Qt w x y z)
  assume "unit_quat q"
  then have u: "w * w + x * x + y * y + z * z = 1" by (simp add: unit_quat_def Qt)
  have diag: "1 - 2 * y * y - 2 * z * z = w * w + x * x - y * y - z * z"
    "1 - 2 * x * x - 2 * z * z = w * w - x * x + y * y - z * z"
    "1 - 2 * x * x - 2 * y * y = w * w - x * x - y * y + z * z"
    using u by algebra+
  show ?thesis
    unfolding Qt mtx33_makeQ.simps rotation_form.simps Let_def two_ring mtx33.inject
    using diag by (simp add: algebra_simps)
qed

lemma rotation_form_mul: "rotation_form (quat_setMul p q) = mtx33_multiply (rotation_form p) (rotation_form q)"
  for p :: "'a::idom quat"
proof (cases p, cases q, hypsubst)
  fix w x y z w' x' y' z' :: 'a
  show "rotation_form (quat_setMul (Qt w x y z) (Qt w' x' y' z')) =
        mtx33_multiply (rotation_form (Qt w x y z)) (rotation_form (Qt w' x' y' z'))"
    unfolding quat_setMul.simps rotation_form.simps mtx33_multiply.simps mtx33.inject
    by (intro conjI) algebra+
qed

text \<open>
  The rotation of a product of quaternions of length 1 is the product of the rotations.
\<close>

theorem makeQ_product:
  fixes p :: "'a::idom quat"
  assumes "unit_quat p" and "unit_quat q"
  shows "mtx33_makeQ (quat_setMul p q) = mtx33_multiply (mtx33_makeQ p) (mtx33_makeQ q)"
  using assms by (simp add: makeQ_form unit_quat_mul rotation_form_mul)

theorem makeQ_product_witness:
  "mtx33_makeQ (quat_setMul (Qt 0 1 0 0) (Qt (3 / 5) 0 (4 / 5) 0)) =
   mtx33_multiply (mtx33_makeQ (Qt 0 1 0 0)) (mtx33_makeQ (Qt (3 / 5) 0 (4 / 5) 0 :: rat quat))"
  using makeQ_product [of "Qt 0 1 0 0" "Qt (3 / 5) 0 (4 / 5) 0 :: rat quat"] by (simp add: unit_quat_def)

section \<open>Rotations by angles\<close>

definition unit_pair :: "'a::comm_ring_1 \<times> 'a \<Rightarrow> bool" where
  "unit_pair p \<longleftrightarrow> fst p * fst p + snd p * snd p = 1"

definition rotation33 :: "'a::comm_ring_1 mtx33 \<Rightarrow> bool" where
  "rotation33 m \<longleftrightarrow> mtx33_multiply m (mtx33_transpose m) = mtx33_makeIdentity \<and> mtx33_det m = 1"

lemma angles_xyz_rotation:
  fixes s0 :: "'a::idom"
  assumes u: "s0 * s0 + c0 * c0 = 1" "s1 * s1 + c1 * c1 = 1" "s2 * s2 + c2 * c2 = 1"
  shows "rotation33 (angles_xyz (V3 s0 s1 s2) (V3 c0 c1 c2))"
proof -
  let ?m = "angles_xyz (V3 s0 s1 s2) (V3 c0 c1 c2)"
  have "c1 * c2 * (c1 * c2) + (s0 * s1 * c2 - c0 * s2) * (s0 * s1 * c2 - c0 * s2) +
      (c0 * c2 * s1 + s0 * s2) * (c0 * c2 * s1 + s0 * s2) = 1"
    "c1 * c2 * (c1 * s2) + (s0 * s1 * c2 - c0 * s2) * (s0 * s1 * s2 + c0 * c2) +
      (c0 * c2 * s1 + s0 * s2) * (c0 * s2 * s1 - s0 * c2) = 0"
    "c1 * c2 * (- s1) + (s0 * s1 * c2 - c0 * s2) * (s0 * c1) + (c0 * c2 * s1 + s0 * s2) * (c0 * c1) = 0"
    "c1 * s2 * (c1 * s2) + (s0 * s1 * s2 + c0 * c2) * (s0 * s1 * s2 + c0 * c2) +
      (c0 * s2 * s1 - s0 * c2) * (c0 * s2 * s1 - s0 * c2) = 1"
    "c1 * s2 * (- s1) + (s0 * s1 * s2 + c0 * c2) * (s0 * c1) + (c0 * s2 * s1 - s0 * c2) * (c0 * c1) = 0"
    "(- s1) * (- s1) + s0 * c1 * (s0 * c1) + c0 * c1 * (c0 * c1) = 1"
    using u by algebra+
  then have "mtx33_multiply ?m (mtx33_transpose ?m) = mtx33_makeIdentity"
    unfolding angles_xyz.simps mtx33_transpose.simps mtx33_multiply.simps mtx33_makeIdentity_def mtx33.inject
    by (simp add: mult.commute)
  moreover have "mtx33_det ?m = 1"
    unfolding angles_xyz.simps mtx33_det.simps using u by algebra
  ultimately show ?thesis by (simp add: rotation33_def)
qed

text \<open>The product of the matrix for the order z, x, y and its transpose is not the identity.\<close>

lemma angles_zxy_gram:
  fixes s0 :: "'a::idom"
  assumes u: "s0 * s0 + c0 * c0 = 1" "s1 * s1 + c1 * c1 = 1" "s2 * s2 + c2 * c2 = 1"
  defines "m \<equiv> angles_zxy (V3 s0 s1 s2) (V3 c0 c1 c2)"
  shows "mtx33_multiply m (mtx33_transpose m) =
    M33 1 (2 * (c1 * s2 - s0 * s1 * c2) * (c0 * c2)) (2 * (c0 * c0) * (s1 * c1))
        (2 * (c1 * s2 - s0 * s1 * c2) * (c0 * c2)) 1 (2 * (s1 * c2 - s0 * c1 * s2) * (c0 * s2))
        (2 * (c0 * c0) * (s1 * c1)) (2 * (s1 * c2 - s0 * c1 * s2) * (c0 * s2)) 1"
proof -
  have "(c1 * c2 + s0 * s1 * s2) * (c1 * c2 + s0 * s1 * s2) + (c1 * s2 - s0 * s1 * c2) * (c1 * s2 - s0 * s1 * c2) +
      c0 * s1 * (c0 * s1) = 1"
    "(c1 * c2 + s0 * s1 * s2) * (c0 * s2) + (c1 * s2 - s0 * s1 * c2) * (c0 * c2) + c0 * s1 * (- s0) =
      2 * (c1 * s2 - s0 * s1 * c2) * (c0 * c2)"
    "(c1 * c2 + s0 * s1 * s2) * (s1 * c2 - s0 * c1 * s2) + (c1 * s2 - s0 * s1 * c2) * (s1 * s2 + s0 * c1 * c2) +
      c0 * s1 * (c0 * c1) = 2 * (c0 * c0) * (s1 * c1)"
    "c0 * s2 * (c0 * s2) + c0 * c2 * (c0 * c2) + (- s0) * (- s0) = 1"
    "c0 * s2 * (s1 * c2 - s0 * c1 * s2) + c0 * c2 * (s1 * s2 + s0 * c1 * c2) + (- s0) * (c0 * c1) =
      2 * (s1 * c2 - s0 * c1 * s2) * (c0 * s2)"
    "(s1 * c2 - s0 * c1 * s2) * (s1 * c2 - s0 * c1 * s2) + (s1 * s2 + s0 * c1 * c2) * (s1 * s2 + s0 * c1 * c2) +
      c0 * c1 * (c0 * c1) = 1"
    using u by algebra+
  then show ?thesis
    unfolding m_def angles_zxy.simps mtx33_transpose.simps mtx33_multiply.simps mtx33.inject
    by (simp add: mult.commute)
qed

section \<open>The quaternion of a rotation\<close>

fun quat_neg :: "'a::uminus quat \<Rightarrow> 'a quat" where
  "quat_neg (Qt w x y z) = Qt (- w) (- x) (- y) (- z)"

lemma sqrt_four: "sqrt (4 * (a * a)) = 2 * \<bar>a\<bar>"
  by (simp add: real_sqrt_mult)

lemma over_abs: "a * b / \<bar>a\<bar> = b * sgn a" "b * a / \<bar>a\<bar> = b * sgn a" for a :: real
  by (cases "a = 0"; simp add: sgn_if abs_if)+

text \<open>
  The quaternion taken from the rotation of a quaternion of length 1 is that quaternion or its negative, which
  is the same rotation: in each of the four branches, which differ in the component that is divided by.
\<close>

theorem toQuat_makeQ:
  assumes "unit_quat q"
  shows "mtx33_toQuat sqrt (mtx33_makeQ q) = q \<or> mtx33_toQuat sqrt (mtx33_makeQ q) = quat_neg q"
proof (cases q)
  case (Qt w x y z)
  have u: "w * w + x * x + y * y + z * z = 1" using assms by (simp add: unit_quat_def Qt)
  define a11 where "a11 = w * w + x * x - y * y - z * z"
  define a22 where "a22 = w * w - x * x + y * y - z * z"
  define a33 where "a33 = w * w - x * x - y * y + z * z"
  have tr: "a11 + a22 + a33 + 1 = 4 * (w * w)" "a22 - (a33 + a11) + 1 = 4 * (y * y)"
    "a33 - (a11 + a22) + 1 = 4 * (z * z)" "a11 - (a22 + a33) + 1 = 4 * (x * x)"
    using u unfolding a11_def a22_def a33_def by algebra+
  have m: "mtx33_makeQ q = M33 a11 (2 * (x * y - w * z)) (2 * (x * z + w * y))
         (2 * (x * y + w * z)) a22 (2 * (y * z - w * x)) (2 * (x * z - w * y)) (2 * (y * z + w * x)) a33"
    using makeQ_form [OF assms] by (simp add: Qt a11_def a22_def a33_def)
  have half: "(half :: real) = 1 / 2" by (simp add: half_def two_def)
  have ord: "a11 < a22 \<longleftrightarrow> x * x < y * y" "a33 \<le> a22 \<longleftrightarrow> z * z \<le> y * y" "a11 < a33 \<longleftrightarrow> x * x < z * z"
    by (auto simp: a11_def a22_def a33_def)
  have sg: "a \<noteq> 0 \<Longrightarrow> sgn a = 1 \<or> sgn a = - 1" for a :: real by (simp add: sgn_if)
  have roots: "sqrt (a11 + a22 + a33 + 1) = 2 * \<bar>w\<bar>" "sqrt (a22 - (a33 + a11) + 1) = 2 * \<bar>y\<bar>"
    "sqrt (a33 - (a11 + a22) + 1) = 2 * \<bar>z\<bar>" "sqrt (a11 - (a22 + a33) + 1) = 2 * \<bar>x\<bar>"
    unfolding tr by (rule sqrt_four)+
  have diff: "2 * (y * z + w * x) - 2 * (y * z - w * x) = 4 * w * x"
    "2 * (x * z + w * y) - 2 * (x * z - w * y) = 4 * w * y"
    "2 * (x * y + w * z) - 2 * (x * y - w * z) = 4 * w * z"
    "2 * (x * y + w * z) + 2 * (x * y - w * z) = 4 * x * y"
    "2 * (x * y - w * z) + 2 * (x * y + w * z) = 4 * x * y"
    "2 * (x * z - w * y) + 2 * (x * z + w * y) = 4 * x * z"
    "2 * (x * z + w * y) + 2 * (x * z - w * y) = 4 * x * z"
    "2 * (y * z - w * x) + 2 * (y * z + w * x) = 4 * y * z"
    "2 * (y * z + w * x) + 2 * (y * z - w * x) = 4 * y * z"
    by algebra+
  note entries = m half mtx33_toQuat.simps Let_def roots diff over_abs
  show ?thesis
  proof (cases "0 < a11 + a22 + a33")
    case True
    then have "w \<noteq> 0" using tr(1) by auto
    have "mtx33_toQuat sqrt (mtx33_makeQ q) = Qt \<bar>w\<bar> (x * sgn w) (y * sgn w) (z * sgn w)"
      using True by (simp add: entries)
    then show ?thesis using Qt \<open>w \<noteq> 0\<close> by (auto simp: sgn_if abs_if)
  next
    case False
    note not_first = this
    show ?thesis
    proof (cases "a11 < a22 \<and> a33 \<le> a22")
      case True
      then have "y \<noteq> 0" using ord by (auto simp: not_less)
      have "mtx33_toQuat sqrt (mtx33_makeQ q) = Qt (w * sgn y) (x * sgn y) \<bar>y\<bar> (z * sgn y)"
        using True not_first \<open>y \<noteq> 0\<close> by (simp add: entries)
      then show ?thesis using Qt \<open>y \<noteq> 0\<close> by (auto simp: sgn_if abs_if)
    next
      case False
      note not_second = this
      then have second: "(a11 < a22 \<and> a33 \<le> a22) = False" by simp
      show ?thesis
      proof (cases "a11 < a22 \<or> a11 < a33")
        case True
        have "x * x < z * z"
          using True not_second ord by (meson less_trans not_le)
        then have "z \<noteq> 0" by (auto simp: not_less)
        have "mtx33_toQuat sqrt (mtx33_makeQ q) = Qt (w * sgn z) (x * sgn z) (y * sgn z) \<bar>z\<bar>"
          using True not_first second \<open>z \<noteq> 0\<close> 
         by (simp add: entries second del: not_le)
        then show ?thesis using Qt \<open>z \<noteq> 0\<close> by (auto simp: sgn_if abs_if)
      next
        case False
        have "x \<noteq> 0"
        proof
          assume "x = 0"
          then have "y * y = 0" and "z * z = 0" using False ord by (auto simp: not_less mult_le_0_iff)
          then have "w * w = 1" using u \<open>x = 0\<close> by simp
          then show False using not_first tr(1) by simp
        qed
        have "mtx33_toQuat sqrt (mtx33_makeQ q) = Qt (w * sgn x) \<bar>x\<bar> (y * sgn x) (z * sgn x)"
          using False not_first second \<open>x \<noteq> 0\<close> 
         by (simp add: entries second del: not_le)
        then show ?thesis using Qt \<open>x \<noteq> 0\<close> by (auto simp: sgn_if abs_if)
      qed
    qed
  qed
qed

theorem toQuat_makeQ_witness:
  "mtx33_toQuat sqrt (mtx33_makeQ (Qt 0 (- 1) 0 0)) = Qt 0 (- 1) 0 0 \<or>
   mtx33_toQuat sqrt (mtx33_makeQ (Qt 0 (- 1) 0 0)) = Qt 0 1 0 0"
  using toQuat_makeQ [of "Qt 0 (- 1) 0 0"] by (simp add: unit_quat_def)

section \<open>The functions on angle indices\<close>

definition sin_cos_law :: "(u32 \<Rightarrow> ('a::comm_ring_1 \<times> 'a) res) \<Rightarrow> bool" where
  "sin_cos_law sc \<longleftrightarrow> (\<forall>i s c. sc i = Inr (s, c) \<longrightarrow> s * s + c * c = 1)"

lemma sines_idx_Inr:
  "sines_idx sc (V3 x y z) = Inr p \<longleftrightarrow>
   (\<exists>s0 c0 s1 c1 s2 c2. sc x = Inr (s0, c0) \<and> sc y = Inr (s1, c1) \<and> sc z = Inr (s2, c2) \<and>
      p = (V3 s0 s1 s2, V3 c0 c1 c2))"
  by (auto simp: rbind_eq_Inr)

text \<open>
  With sines and cosines on the unit circle the matrix of three angles is a rotation: its transpose is its
  inverse and its determinant is 1.
\<close>

theorem makeRIdx_rotation:
  fixes sc :: "u32 \<Rightarrow> ('a::idom \<times> 'a) res"
  assumes "sin_cos_law sc" and "mtx33_makeRIdx sc xr yr zr = Inr m"
  shows "rotation33 m"
  using assms
  by (auto simp: mtx33_makeRIdx_def rbind_eq_Inr sines_idx_Inr sin_cos_law_def simp del: sines_idx.simps angles_xyz.simps
      intro!: angles_xyz_rotation)


theorem makeRIdx_rotation_witness:
  "\<exists>m :: rat mtx33. mtx33_makeRIdx (\<lambda>i. if i = 0 then Inr (0, 1) else Inr (3 / 5, 4 / 5)) 0 1 2 = Inr m \<and> rotation33 m"
proof -
  let ?sc = "\<lambda>i :: u32. if i = 0 then Inr (0, 1) else (Inr (3 / 5, 4 / 5) :: (rat \<times> rat) res)"
  have "s * s + c * c = 1" if "s * 5 = 3" and "c * 5 = 4" for s c :: rat
  proof -
    have v: "s = 3 / 5" "c = 4 / 5" using that by simp_all
    show ?thesis unfolding v by simp
  qed
  then have law: "sin_cos_law ?sc" by (auto simp: sin_cos_law_def)
  obtain m where m: "mtx33_makeRIdx ?sc 0 1 2 = Inr m" by (simp add: mtx33_makeRIdx_def)
  then show ?thesis using makeRIdx_rotation [OF law m] by blast
qed

text \<open>
  The matrix for the order z, x, y is not one: two of its entries have the wrong sign. About the second axis
  alone its determinant is \<open>c * c - s * s\<close>.
\<close>

lemma makeRzxyIdx_not_rotation:
  fixes sc :: "u32 \<Rightarrow> ('a::{idom, ring_char_0} \<times> 'a) res"
  assumes "sc 0 = Inr (0, 1)" and "sc yr = Inr (s, c)" and "s * c \<noteq> 0"
  shows "\<exists>m. mtx33_makeRzxyIdx sc 0 yr 0 = Inr m \<and> mtx33_det m = c * c - s * s \<and> \<not> rotation33 m"
  using assms by (simp add: mtx33_makeRzxyIdx_def rotation33_def mtx33_makeIdentity_def mult.commute)

end
