(* ===== verification/Matrix34.thy ===== *)
theory Matrix34
  imports Matrix33
begin

text \<open>
  Affine maps: the matrices of three rows and four columns of the engine's library
  (\<open>Matrix34CalcCommon\<close> in \<open>sead/math/seadMatrixCalcCommon.hpp\<close>), and the operations of \<open>Matrix33CalcCommon\<close>
  that take one. The fourth column is the translation; the row \<open>0 0 0 1\<close> below is implied. The results
  show that \<open>multiply\<close> composes the maps and \<open>inverse\<close> undoes them, that the functions that build a matrix
  from a scale, a rotation and a translation build the product of the three, and that \<open>getRotation\<close> gives
  angles of the same rotation back, its singular case included, all in exact arithmetic.
\<close>

section \<open>Data\<close>

datatype 'a mtx34 = M34 'a 'a 'a 'a 'a 'a 'a 'a 'a 'a 'a 'a

definition mtx34_makeIdentity :: "'a::{zero, one} mtx34" where
  "mtx34_makeIdentity = M34 1 0 0 0 0 1 0 0 0 0 1 0"

definition mtx34_makeZero :: "'a::zero mtx34" where
  "mtx34_makeZero = M34 0 0 0 0 0 0 0 0 0 0 0 0"

text \<open>\<open>copy\<close> of a matrix of three columns and a translation, and the parts of one.\<close>

fun mtx34_copy33 :: "'a mtx33 \<Rightarrow> 'a vec3 \<Rightarrow> 'a mtx34" where
  "mtx34_copy33 (M33 n11 n12 n13 n21 n22 n23 n31 n32 n33) (V3 tx ty tz) =
     M34 n11 n12 n13 tx n21 n22 n23 ty n31 n32 n33 tz"

fun mtx33_copy34 :: "'a mtx34 \<Rightarrow> 'a mtx33" where
  "mtx33_copy34 (M34 n11 n12 n13 n14 n21 n22 n23 n24 n31 n32 n33 n34) = M33 n11 n12 n13 n21 n22 n23 n31 n32 n33"

section \<open>Operations\<close>

fun mtx34_inverse :: "'a::{zero, one, plus, minus, uminus, times, inverse} mtx34 \<Rightarrow> 'a mtx34" where
  "mtx34_inverse (M34 a11 a12 a13 a14 a21 a22 a23 a24 a31 a32 a33 a34) =
     (let det = (a11 * a22 * a33 - a31 * a22 * a13) + (a12 * a23 * a31 - a21 * a12 * a33) +
                (a13 * a21 * a32 - a11 * a32 * a23)
      in if det = 0 then mtx34_makeIdentity
         else let det = 1 / det;
                  o11 = (a22 * a33 - a32 * a23) * det; o12 = (a32 * a13 - a12 * a33) * det;
                  o13 = (a12 * a23 - a22 * a13) * det; o21 = (a31 * a23 - a21 * a33) * det;
                  o22 = (a11 * a33 - a31 * a13) * det; o23 = (a21 * a13 - a11 * a23) * det;
                  o31 = (a21 * a32 - a31 * a22) * det; o32 = (a31 * a12 - a11 * a32) * det;
                  o33 = (a11 * a22 - a21 * a12) * det
              in M34 o11 o12 o13 (o11 * - a14 + o12 * - a24 + o13 * - a34)
                     o21 o22 o23 (o21 * - a14 + o22 * - a24 + o23 * - a34)
                     o31 o32 o33 (o31 * - a14 + o32 * - a24 + o33 * - a34))"

text \<open>The inverse without the translation, and its transpose.\<close>

fun mtx34_inverse33 :: "'a::{zero, one, plus, minus, times, inverse} mtx34 \<Rightarrow> 'a mtx34" where
  "mtx34_inverse33 (M34 a11 a12 a13 a14 a21 a22 a23 a24 a31 a32 a33 a34) =
     (let det = (a11 * a22 * a33 - a31 * a22 * a13) + (a12 * a23 * a31 - a21 * a12 * a33) +
                (a13 * a21 * a32 - a11 * a32 * a23)
      in if det = 0 then mtx34_makeIdentity
         else let det = 1 / det
              in M34 ((a22 * a33 - a32 * a23) * det) ((a32 * a13 - a12 * a33) * det) ((a12 * a23 - a22 * a13) * det) 0
                     ((a31 * a23 - a21 * a33) * det) ((a11 * a33 - a31 * a13) * det) ((a21 * a13 - a11 * a23) * det) 0
                     ((a21 * a32 - a31 * a22) * det) ((a31 * a12 - a11 * a32) * det) ((a11 * a22 - a21 * a12) * det) 0)"

fun mtx34_inverseTranspose :: "'a::{zero, one, plus, minus, times, inverse} mtx34 \<Rightarrow> 'a mtx34" where
  "mtx34_inverseTranspose (M34 a11 a12 a13 a14 a21 a22 a23 a24 a31 a32 a33 a34) =
     (let det = (a11 * a22 * a33 - a31 * a22 * a13) + (a12 * a23 * a31 - a21 * a12 * a33) +
                (a13 * a21 * a32 - a11 * a32 * a23)
      in if det = 0 then mtx34_makeIdentity
         else let det = 1 / det
              in M34 ((a22 * a33 - a32 * a23) * det) ((a31 * a23 - a21 * a33) * det) ((a21 * a32 - a31 * a22) * det) 0
                     ((a32 * a13 - a12 * a33) * det) ((a11 * a33 - a31 * a13) * det) ((a31 * a12 - a11 * a32) * det) 0
                     ((a12 * a23 - a22 * a13) * det) ((a21 * a13 - a11 * a23) * det) ((a11 * a22 - a21 * a12) * det) 0)"

fun mtx34_multiply :: "'a::{plus, times} mtx34 \<Rightarrow> 'a mtx34 \<Rightarrow> 'a mtx34" where
  "mtx34_multiply (M34 a11 a12 a13 a14 a21 a22 a23 a24 a31 a32 a33 a34) (M34 b11 b12 b13 b14 b21 b22 b23 b24 b31 b32 b33 b34) =
     M34 (a11 * b11 + a12 * b21 + a13 * b31) (a11 * b12 + a12 * b22 + a13 * b32) (a11 * b13 + a12 * b23 + a13 * b33) (a11 * b14 + a12 * b24 + a13 * b34 + a14)
         (a21 * b11 + a22 * b21 + a23 * b31) (a21 * b12 + a22 * b22 + a23 * b32) (a21 * b13 + a22 * b23 + a23 * b33) (a21 * b14 + a22 * b24 + a23 * b34 + a24)
         (a31 * b11 + a32 * b21 + a33 * b31) (a31 * b12 + a32 * b22 + a33 * b32) (a31 * b13 + a32 * b23 + a33 * b33) (a31 * b14 + a32 * b24 + a33 * b34 + a34)"

fun mtx34_multiply_33_34 :: "'a::{plus, times} mtx33 \<Rightarrow> 'a mtx34 \<Rightarrow> 'a mtx34" where
  "mtx34_multiply_33_34 (M33 a11 a12 a13 a21 a22 a23 a31 a32 a33) (M34 b11 b12 b13 b14 b21 b22 b23 b24 b31 b32 b33 b34) =
     M34 (a11 * b11 + a12 * b21 + a13 * b31) (a11 * b12 + a12 * b22 + a13 * b32) (a11 * b13 + a12 * b23 + a13 * b33) (a11 * b14 + a12 * b24 + a13 * b34)
         (a21 * b11 + a22 * b21 + a23 * b31) (a21 * b12 + a22 * b22 + a23 * b32) (a21 * b13 + a22 * b23 + a23 * b33) (a21 * b14 + a22 * b24 + a23 * b34)
         (a31 * b11 + a32 * b21 + a33 * b31) (a31 * b12 + a32 * b22 + a33 * b32) (a31 * b13 + a32 * b23 + a33 * b33) (a31 * b14 + a32 * b24 + a33 * b34)"

fun mtx34_multiply_34_33 :: "'a::{plus, times} mtx34 \<Rightarrow> 'a mtx33 \<Rightarrow> 'a mtx34" where
  "mtx34_multiply_34_33 (M34 a11 a12 a13 a14 a21 a22 a23 a24 a31 a32 a33 a34) (M33 b11 b12 b13 b21 b22 b23 b31 b32 b33) =
     M34 (a11 * b11 + a12 * b21 + a13 * b31) (a11 * b12 + a12 * b22 + a13 * b32) (a11 * b13 + a12 * b23 + a13 * b33) a14
         (a21 * b11 + a22 * b21 + a23 * b31) (a21 * b12 + a22 * b22 + a23 * b32) (a21 * b13 + a22 * b23 + a23 * b33) a24
         (a31 * b11 + a32 * b21 + a33 * b31) (a31 * b12 + a32 * b22 + a33 * b32) (a31 * b13 + a32 * b23 + a33 * b33) a34"

text \<open>\<open>Matrix33CalcCommon::multiply\<close> with an affine map for one factor leaves its translation out.\<close>

fun mtx33_multiply_34_33 :: "'a::{plus, times} mtx34 \<Rightarrow> 'a mtx33 \<Rightarrow> 'a mtx33" where
  "mtx33_multiply_34_33 (M34 a11 a12 a13 a14 a21 a22 a23 a24 a31 a32 a33 a34) (M33 b11 b12 b13 b21 b22 b23 b31 b32 b33) =
     M33 (a11 * b11 + a12 * b21 + a13 * b31) (a11 * b12 + a12 * b22 + a13 * b32) (a11 * b13 + a12 * b23 + a13 * b33)
         (a21 * b11 + a22 * b21 + a23 * b31) (a21 * b12 + a22 * b22 + a23 * b32) (a21 * b13 + a22 * b23 + a23 * b33)
         (a31 * b11 + a32 * b21 + a33 * b31) (a31 * b12 + a32 * b22 + a33 * b32) (a31 * b13 + a32 * b23 + a33 * b33)"

fun mtx33_multiply_33_34 :: "'a::{plus, times} mtx33 \<Rightarrow> 'a mtx34 \<Rightarrow> 'a mtx33" where
  "mtx33_multiply_33_34 (M33 a11 a12 a13 a21 a22 a23 a31 a32 a33) (M34 b11 b12 b13 b14 b21 b22 b23 b24 b31 b32 b33 b34) =
     M33 (a11 * b11 + a12 * b21 + a13 * b31) (a11 * b12 + a12 * b22 + a13 * b32) (a11 * b13 + a12 * b23 + a13 * b33)
         (a21 * b11 + a22 * b21 + a23 * b31) (a21 * b12 + a22 * b22 + a23 * b32) (a21 * b13 + a22 * b23 + a23 * b33)
         (a31 * b11 + a32 * b21 + a33 * b31) (a31 * b12 + a32 * b22 + a33 * b32) (a31 * b13 + a32 * b23 + a33 * b33)"

text \<open>The transposes drop the translation.\<close>

fun mtx34_transpose :: "'a::zero mtx34 \<Rightarrow> 'a mtx34" where
  "mtx34_transpose (M34 a11 a12 a13 a14 a21 a22 a23 a24 a31 a32 a33 a34) =
     M34 a11 a21 a31 0 a12 a22 a32 0 a13 a23 a33 0"

fun mtx34_transposeTo :: "'a::zero mtx34 \<Rightarrow> 'a mtx34" where
  "mtx34_transposeTo (M34 n11 n12 n13 n14 n21 n22 n23 n24 n31 n32 n33 n34) =
     M34 n11 n21 n31 0 n12 n22 n32 0 n13 n23 n33 0"

fun mtx34_makeQT :: "'a::{one, plus, minus, times} quat \<Rightarrow> 'a vec3 \<Rightarrow> 'a mtx34" where
  "mtx34_makeQT (Qt w x y z) (V3 tx ty tz) =
     (let yy = two * y * y; zz = two * z * z; xx = two * x * x; xy = two * x * y; xz = two * x * z;
          yz = two * y * z; wz = two * w * z; wx = two * w * x; wy = two * w * y
      in M34 (1 - yy - zz) (xy - wz) (xz + wy) tx (xy + wz) (1 - xx - zz) (yz - wx) ty
             (xz - wy) (yz + wx) (1 - xx - yy) tz)"

definition vec3_zero :: "'a::zero vec3" where
  "vec3_zero = V3 0 0 0"

definition mtx34_makeQ :: "'a::{zero, one, plus, minus, times} quat \<Rightarrow> 'a mtx34" where
  "mtx34_makeQ q = mtx34_makeQT q vec3_zero"

text \<open>
  \<open>makeRT\<close> calls \<open>std::sin\<close> and \<open>std::cos\<close>, the other functions those of the engine.
\<close>

fun mtx34_makeRT ::
  "('a \<Rightarrow> 'a) \<Rightarrow> ('a \<Rightarrow> 'a) \<Rightarrow> 'a::{plus, minus, uminus, times} vec3 \<Rightarrow> 'a vec3 \<Rightarrow> 'a mtx34" where
  "mtx34_makeRT sin_fn cos_fn (V3 x y z) (V3 tx ty tz) =
     (let s0 = sin_fn x; s1 = sin_fn y; s2 = sin_fn z; c0 = cos_fn x; c1 = cos_fn y; c2 = cos_fn z;
          s0_s1 = s0 * s1; c0_s2 = c0 * s2; c0_c2 = c0 * c2
      in M34 (c1 * c2) (s0_s1 * c2 - c0_s2) (c0_c2 * s1 + s0 * s2) tx
             (c1 * s2) (s0_s1 * s2 + c0_c2) (c0_s2 * s1 - s0 * c2) ty
             (- s1) (s0 * c1) (c0 * c1) tz)"

definition mtx34_makeR ::
  "('a \<Rightarrow> 'a res) \<Rightarrow> ('a \<Rightarrow> 'a res) \<Rightarrow> 'a::{zero, plus, minus, uminus, times} vec3 \<Rightarrow> 'a mtx34 res" where
  "mtx34_makeR sn cs r = rbind (sines_of sn cs r) (\<lambda>(s, c). Inr (mtx34_copy33 (angles_xyz s c) vec3_zero))"

definition mtx34_makeRTIdx ::
  "(u32 \<Rightarrow> ('a \<times> 'a) res) \<Rightarrow> u32 vec3 \<Rightarrow> 'a::{plus, minus, uminus, times} vec3 \<Rightarrow> 'a mtx34 res" where
  "mtx34_makeRTIdx sc r t = rbind (sines_idx sc r) (\<lambda>(s, c). Inr (mtx34_copy33 (angles_xyz s c) t))"

definition mtx34_makeRIdx ::
  "(u32 \<Rightarrow> ('a \<times> 'a) res) \<Rightarrow> u32 \<Rightarrow> u32 \<Rightarrow> u32 \<Rightarrow> 'a::{zero, plus, minus, uminus, times} mtx34 res" where
  "mtx34_makeRIdx sc xr yr zr =
     rbind (sines_idx sc (V3 xr yr zr)) (\<lambda>(s, c). Inr (mtx34_copy33 (angles_xyz s c) vec3_zero))"

definition mtx34_makeRzxyTIdx ::
  "(u32 \<Rightarrow> ('a \<times> 'a) res) \<Rightarrow> u32 vec3 \<Rightarrow> 'a::{plus, minus, uminus, times} vec3 \<Rightarrow> 'a mtx34 res" where
  "mtx34_makeRzxyTIdx sc r t = rbind (sines_idx sc r) (\<lambda>(s, c). Inr (mtx34_copy33 (angles_zxy s c) t))"

definition mtx34_makeRzxyIdx ::
  "(u32 \<Rightarrow> ('a \<times> 'a) res) \<Rightarrow> u32 \<Rightarrow> u32 \<Rightarrow> u32 \<Rightarrow> 'a::{zero, plus, minus, uminus, times} mtx34 res" where
  "mtx34_makeRzxyIdx sc xr yr zr =
     rbind (sines_idx sc (V3 xr yr zr)) (\<lambda>(s, c). Inr (mtx34_copy33 (angles_zxy s c) vec3_zero))"

fun mtx34_makeST :: "'a::zero vec3 \<Rightarrow> 'a vec3 \<Rightarrow> 'a mtx34" where
  "mtx34_makeST (V3 sx sy sz) (V3 tx ty tz) = M34 sx 0 0 tx 0 sy 0 ty 0 0 sz tz"

definition mtx34_makeS :: "'a::zero vec3 \<Rightarrow> 'a mtx34" where
  "mtx34_makeS s = mtx34_makeST s vec3_zero"

fun mtx34_makeT :: "'a::{zero, one} vec3 \<Rightarrow> 'a mtx34" where
  "mtx34_makeT (V3 tx ty tz) = M34 1 0 0 tx 0 1 0 ty 0 0 1 tz"

definition mtx34_makeSRT ::
  "('a \<Rightarrow> 'a res) \<Rightarrow> ('a \<Rightarrow> 'a res) \<Rightarrow> 'a::{plus, minus, uminus, times} vec3 \<Rightarrow> 'a vec3 \<Rightarrow> 'a vec3 \<Rightarrow>
   'a mtx34 res" where
  "mtx34_makeSRT sn cs sv r t =
     rbind (sines_of sn cs r) (\<lambda>(s, c). Inr (mtx34_copy33 (scale_columns sv (angles_xyz s c)) t))"

definition mtx34_makeSR ::
  "('a \<Rightarrow> 'a res) \<Rightarrow> ('a \<Rightarrow> 'a res) \<Rightarrow> 'a::{zero, plus, minus, uminus, times} vec3 \<Rightarrow> 'a vec3 \<Rightarrow> 'a mtx34 res" where
  "mtx34_makeSR sn cs sv r = mtx34_makeSRT sn cs sv r vec3_zero"

definition mtx34_makeSRTIdx ::
  "(u32 \<Rightarrow> ('a \<times> 'a) res) \<Rightarrow> 'a::{plus, minus, uminus, times} vec3 \<Rightarrow> u32 vec3 \<Rightarrow> 'a vec3 \<Rightarrow> 'a mtx34 res" where
  "mtx34_makeSRTIdx sc sv r t =
     rbind (sines_idx sc r) (\<lambda>(s, c). Inr (mtx34_copy33 (scale_columns sv (angles_xyz s c)) t))"

definition mtx34_makeSRIdx ::
  "(u32 \<Rightarrow> ('a \<times> 'a) res) \<Rightarrow> 'a::{zero, plus, minus, uminus, times} vec3 \<Rightarrow> u32 vec3 \<Rightarrow> 'a mtx34 res" where
  "mtx34_makeSRIdx sc sv r = mtx34_makeSRTIdx sc sv r vec3_zero"

definition mtx34_makeSRzxyTIdx ::
  "(u32 \<Rightarrow> ('a \<times> 'a) res) \<Rightarrow> 'a::{plus, minus, uminus, times} vec3 \<Rightarrow> u32 vec3 \<Rightarrow> 'a vec3 \<Rightarrow> 'a mtx34 res" where
  "mtx34_makeSRzxyTIdx sc sv r t =
     rbind (sines_idx sc r) (\<lambda>(s, c). Inr (mtx34_copy33 (scale_columns sv (angles_zxy s c)) t))"

definition mtx34_makeSRzxyIdx ::
  "(u32 \<Rightarrow> ('a \<times> 'a) res) \<Rightarrow> 'a::{zero, plus, minus, uminus, times} vec3 \<Rightarrow> u32 vec3 \<Rightarrow> 'a mtx34 res" where
  "mtx34_makeSRzxyIdx sc sv r = mtx34_makeSRzxyTIdx sc sv r vec3_zero"

text \<open>\<open>toQuat\<close> is the code of \<open>Matrix33CalcCommon::toQuat\<close> on the first three columns.\<close>

definition mtx34_toQuat ::
  "('a \<Rightarrow> 'a) \<Rightarrow> 'a::{zero, one, plus, minus, times, inverse, ord} mtx34 \<Rightarrow> 'a quat" where
  "mtx34_toQuat sqrt_fn n = mtx33_toQuat sqrt_fn (mtx33_copy34 n)"

text \<open>\<open>Vector3CalcCommon::mul\<close>: a matrix on a vector.\<close>

fun vec3_mul33 :: "'a::{plus, times} mtx33 \<Rightarrow> 'a vec3 \<Rightarrow> 'a vec3" where
  "vec3_mul33 (M33 m11 m12 m13 m21 m22 m23 m31 m32 m33) (V3 x y z) =
     V3 (m11 * x + m12 * y + m13 * z) (m21 * x + m22 * y + m23 * z) (m31 * x + m32 * y + m33 * z)"

fun vec3_mul34 :: "'a::{plus, times} mtx34 \<Rightarrow> 'a vec3 \<Rightarrow> 'a vec3" where
  "vec3_mul34 (M34 m11 m12 m13 m14 m21 m22 m23 m24 m31 m32 m33 m34) (V3 x y z) =
     V3 (m11 * x + m12 * y + m13 * z + m14) (m21 * x + m22 * y + m23 * z + m24)
        (m31 * x + m32 * y + m33 * z + m34)"

section \<open>Rows and columns\<close>

text \<open>An axis or row outside the array is undefined.\<close>

fun mtx34_getBase :: "'a mtx34 \<Rightarrow> s32 \<Rightarrow> 'a vec3 res" where
  "mtx34_getBase (M34 n11 n12 n13 n14 n21 n22 n23 n24 n31 n32 n33 n34) axis =
     (if axis = 0 then Inr (V3 n11 n21 n31) else if axis = 1 then Inr (V3 n12 n22 n32)
      else if axis = 2 then Inr (V3 n13 n23 n33) else if axis = 3 then Inr (V3 n14 n24 n34)
      else Inl OutOfBounds)"

fun mtx34_getRow :: "'a mtx34 \<Rightarrow> s32 \<Rightarrow> 'a vec4 res" where
  "mtx34_getRow (M34 n11 n12 n13 n14 n21 n22 n23 n24 n31 n32 n33 n34) row =
     (if row = 0 then Inr (V4 n11 n12 n13 n14) else if row = 1 then Inr (V4 n21 n22 n23 n24)
      else if row = 2 then Inr (V4 n31 n32 n33 n34) else Inl OutOfBounds)"

definition mtx34_getTranslation :: "'a mtx34 \<Rightarrow> 'a vec3 res" where
  "mtx34_getTranslation n = mtx34_getBase n 3"

fun mtx34_setBase :: "'a mtx34 \<Rightarrow> s32 \<Rightarrow> 'a vec3 \<Rightarrow> 'a mtx34 res" where
  "mtx34_setBase (M34 n11 n12 n13 n14 n21 n22 n23 n24 n31 n32 n33 n34) axis (V3 x y z) =
     (if axis = 0 then Inr (M34 x n12 n13 n14 y n22 n23 n24 z n32 n33 n34)
      else if axis = 1 then Inr (M34 n11 x n13 n14 n21 y n23 n24 n31 z n33 n34)
      else if axis = 2 then Inr (M34 n11 n12 x n14 n21 n22 y n24 n31 n32 z n34)
      else if axis = 3 then Inr (M34 n11 n12 n13 x n21 n22 n23 y n31 n32 n33 z)
      else Inl OutOfBounds)"

fun mtx34_setRow :: "'a mtx34 \<Rightarrow> 'a vec4 \<Rightarrow> s32 \<Rightarrow> 'a mtx34 res" where
  "mtx34_setRow (M34 n11 n12 n13 n14 n21 n22 n23 n24 n31 n32 n33 n34) (V4 x y z w) row =
     (if row = 0 then Inr (M34 x y z w n21 n22 n23 n24 n31 n32 n33 n34)
      else if row = 1 then Inr (M34 n11 n12 n13 n14 x y z w n31 n32 n33 n34)
      else if row = 2 then Inr (M34 n11 n12 n13 n14 n21 n22 n23 n24 x y z w)
      else Inl OutOfBounds)"

definition mtx34_setTranslation :: "'a mtx34 \<Rightarrow> 'a vec3 \<Rightarrow> 'a mtx34 res" where
  "mtx34_setTranslation n v = mtx34_setBase n 3 v"

fun mtx34_scaleAllElements :: "'a::times mtx34 \<Rightarrow> 'a \<Rightarrow> 'a mtx34" where
  "mtx34_scaleAllElements (M34 n11 n12 n13 n14 n21 n22 n23 n24 n31 n32 n33 n34) s =
     M34 (n11 * s) (n12 * s) (n13 * s) (n14 * s) (n21 * s) (n22 * s) (n23 * s) (n24 * s)
         (n31 * s) (n32 * s) (n33 * s) (n34 * s)"

fun mtx34_scaleBases :: "'a::times mtx34 \<Rightarrow> 'a \<Rightarrow> 'a \<Rightarrow> 'a \<Rightarrow> 'a mtx34" where
  "mtx34_scaleBases (M34 n11 n12 n13 n14 n21 n22 n23 n24 n31 n32 n33 n34) sx sy sz =
     M34 (n11 * sx) (n12 * sy) (n13 * sz) n14 (n21 * sx) (n22 * sy) (n23 * sz) n24
         (n31 * sx) (n32 * sy) (n33 * sz) n34"

text \<open>
  \<open>getRotation\<close> with the functions of the library it calls, the epsilon of the type, its number ten and
  its pi. Where the rotation about the second axis is a quarter turn, the first angle is zero.
\<close>

fun mtx34_getRotation ::
  "('a \<Rightarrow> 'a \<Rightarrow> 'a) \<Rightarrow> ('a \<Rightarrow> 'a) \<Rightarrow> 'a \<Rightarrow> 'a \<Rightarrow> 'a \<Rightarrow>
   'a::{zero, one, plus, minus, uminus, times, inverse, ord} mtx34 \<Rightarrow> 'a vec3" where
  "mtx34_getRotation atan2_fn asin_fn eps ten pi_v (M34 a11 a12 a13 a14 a21 a22 a23 a24 a31 a32 a33 a34) =
     (let a = math_abs a31
      in if 1 - a < eps * ten
         then V3 0 ((a31 / a) * (- pi_v / two)) (atan2_fn (- a12) (- (a31 * a13)))
         else V3 (atan2_fn a32 a33) (asin_fn (- a31)) (atan2_fn a21 a11))"


section \<open>Composition and inverse\<close>

fun vec3_add :: "'a::plus vec3 \<Rightarrow> 'a vec3 \<Rightarrow> 'a vec3" where
  "vec3_add (V3 a b c) (V3 d e f) = V3 (a + d) (b + e) (c + f)"

lemma vec3_mul33_multiply:
  fixes a :: "'a::comm_ring_1 mtx33"
  shows "vec3_mul33 (mtx33_multiply a b) v = vec3_mul33 a (vec3_mul33 b v)"
  by (cases a; cases b; cases v; simp add: algebra_simps)

lemma vec3_mul33_identity [simp]: "vec3_mul33 mtx33_makeIdentity v = v" for v :: "'a::comm_ring_1 vec3"
  by (cases v) (simp add: mtx33_makeIdentity_def)

lemma vec3_mul34_parts: "vec3_mul34 (mtx34_copy33 m t) v = vec3_add (vec3_mul33 m v) t"
  by (cases m; cases t; cases v; simp)

lemma mtx34_parts:
  obtains n t where "m = mtx34_copy33 n t"
proof (cases m)
  case (M34 a b c d e f g h i j k l)
  then have "m = mtx34_copy33 (M33 a b c e f g i j k) (V3 d h l)" by simp
  then show ?thesis by (rule that)
qed

lemma mtx33_copy34_parts [simp]: "mtx33_copy34 (mtx34_copy33 n t) = n"
  by (cases n; cases t; simp)

lemma multiply_composes:
  fixes a :: "'a::comm_ring_1 mtx34"
  shows "vec3_mul34 (mtx34_multiply a b) v = vec3_mul34 a (vec3_mul34 b v)"
  by (cases a; cases b; cases v; simp add: algebra_simps)

lemma mtx34_multiply_parts:
  fixes n :: "'a::comm_ring_1 mtx33"
  shows "mtx34_multiply (mtx34_copy33 n t) (mtx34_copy33 n' t') =
         mtx34_copy33 (mtx33_multiply n n') (vec3_add (vec3_mul33 n t') t)"
  by (cases n; cases t; cases n'; cases t'; simp)

lemma mixed_multiply_parts:
  fixes n :: "'a::comm_ring_1 mtx33"
  shows "mtx34_multiply_33_34 n (mtx34_copy33 n' t') = mtx34_copy33 (mtx33_multiply n n') (vec3_mul33 n t')"
  and "mtx34_multiply_34_33 (mtx34_copy33 n' t') n = mtx34_copy33 (mtx33_multiply n' n) t'"
  and "mtx33_multiply_34_33 (mtx34_copy33 n' t') n = mtx33_multiply n' n"
  and "mtx33_multiply_33_34 n (mtx34_copy33 n' t') = mtx33_multiply n n'"
  by (cases n; cases n'; cases t'; simp)+

definition vec3_neg :: "'a::uminus vec3 \<Rightarrow> 'a vec3" where
  "vec3_neg v = (case v of V3 x y z \<Rightarrow> V3 (- x) (- y) (- z))"

lemma vec3_add_neg [simp]:
  fixes t :: "'a::comm_ring_1 vec3"
  shows "vec3_add (vec3_neg t) t = vec3_zero" and "vec3_add t (vec3_neg t) = vec3_zero"
  by (cases t; simp add: vec3_neg_def vec3_zero_def)+

lemma vec3_mul33_neg: "vec3_mul33 n (vec3_neg t) = vec3_neg (vec3_mul33 n t)" for n :: "'a::comm_ring_1 mtx33"
  by (cases n; cases t; simp add: vec3_neg_def)

lemma mtx34_inverse_parts:
  "mtx33_det n \<noteq> 0 \<Longrightarrow>
   mtx34_inverse (mtx34_copy33 n t) = mtx34_copy33 (mtx33_inverse n) (vec3_mul33 (mtx33_inverse n) (vec3_neg t))"
  by (cases n; cases t; simp add: Let_def vec3_neg_def)

lemma mtx34_identity_parts: "mtx34_makeIdentity = mtx34_copy33 mtx33_makeIdentity vec3_zero"
  by (simp add: mtx34_makeIdentity_def mtx33_makeIdentity_def vec3_zero_def)

lemma mtx34_inverse_singular: "mtx33_det n = 0 \<Longrightarrow> mtx34_inverse (mtx34_copy33 n t) = mtx34_makeIdentity"
  by (cases n; cases t; simp add: Let_def)

lemma mtx34_inverses:
  fixes m :: "'a::field mtx34"
  assumes "mtx33_det (mtx33_copy34 m) \<noteq> 0"
  shows "mtx34_multiply m (mtx34_inverse m) = mtx34_makeIdentity"
  and "mtx34_multiply (mtx34_inverse m) m = mtx34_makeIdentity"
proof -
  obtain n t where m: "m = mtx34_copy33 n t" by (rule mtx34_parts)
  then have d: "mtx33_det n \<noteq> 0" using assms by simp
  note inv = mtx33_inverses [OF d]
  show "mtx34_multiply m (mtx34_inverse m) = mtx34_makeIdentity"
    by (simp add: m mtx34_inverse_parts [OF d] mtx34_multiply_parts inv vec3_mul33_multiply [symmetric]
        mtx34_identity_parts)
  show "mtx34_multiply (mtx34_inverse m) m = mtx34_makeIdentity"
    by (simp add: m mtx34_inverse_parts [OF d] mtx34_multiply_parts inv vec3_mul33_neg mtx34_identity_parts)
qed

lemma mtx34_identity_apply: "vec3_mul34 mtx34_makeIdentity v = v" for v :: "'a::comm_ring_1 vec3"
  by (cases v) (simp add: mtx34_makeIdentity_def)

text \<open>The inverse takes each point back to where the map took it from.\<close>

lemma mtx34_inverse_undoes:
  fixes m :: "'a::field mtx34"
  shows "mtx33_det (mtx33_copy34 m) \<noteq> 0 \<Longrightarrow> vec3_mul34 (mtx34_inverse m) (vec3_mul34 m v) = v"
  by (simp add: multiply_composes [symmetric] mtx34_inverses mtx34_identity_apply)

section \<open>Scale, rotation and translation\<close>

lemma scale_columns_makeS: "scale_columns s m = mtx33_multiply m (mtx33_makeS s)" for m :: "'a::comm_ring_1 mtx33"
  by (cases s; cases m; simp add: mult.commute)

lemma vec3_zero_laws [simp]:
  fixes v :: "'a::comm_ring_1 vec3" and m :: "'a mtx33"
  shows "vec3_mul33 m vec3_zero = vec3_zero" and "vec3_add vec3_zero v = v" and "vec3_add v vec3_zero = v"
  by (cases m; simp add: vec3_zero_def) (cases v; simp add: vec3_zero_def)+

lemma mtx34_makeS_parts: "mtx34_makeS s = mtx34_copy33 (mtx33_makeS s) vec3_zero"
  by (cases s) (simp add: mtx34_makeS_def vec3_zero_def)

lemma mtx34_makeT_parts: "mtx34_makeT t = mtx34_copy33 mtx33_makeIdentity t"
  by (cases t) (simp add: mtx33_makeIdentity_def)

text \<open>The points are scaled first, then rotated, then moved.\<close>

theorem makeSRT_product:
  fixes t :: "'a::comm_ring_1 vec3"
  shows "mtx34_makeSRT sn cs s r t =
         rbind (mtx34_makeR sn cs r) (\<lambda>m. Inr (mtx34_multiply (mtx34_makeT t) (mtx34_multiply m (mtx34_makeS s))))"
proof (cases "sines_of sn cs r")
  case (Inl e)
  then show ?thesis by (simp add: mtx34_makeSRT_def mtx34_makeR_def)
next
  case (Inr p)
  then show ?thesis
    by (cases p) (simp add: mtx34_makeSRT_def mtx34_makeR_def scale_columns_makeS mtx34_makeS_parts
        mtx34_makeT_parts mtx34_multiply_parts)
qed

lemma mtx34_makeRT_angles:
  "mtx34_makeRT sin_fn cos_fn (V3 x y z) t =
   mtx34_copy33 (angles_xyz (V3 (sin_fn x) (sin_fn y) (sin_fn z)) (V3 (cos_fn x) (cos_fn y) (cos_fn z))) t"
  by (cases t) (simp add: Let_def)

lemma mtx34_makeQT_parts: "mtx34_makeQT q t = mtx34_copy33 (mtx33_makeQ q) t"
  by (cases q; cases t; simp add: Let_def)

section \<open>Rows and columns\<close>

lemma mtx34_getBase_setBase: "mtx34_setBase m axis v = Inr m' \<Longrightarrow> mtx34_getBase m' axis = Inr v"
  by (cases m; cases v) (auto split: if_splits)

lemma mtx34_getRow_setRow: "mtx34_setRow m v row = Inr m' \<Longrightarrow> mtx34_getRow m' row = Inr v"
  by (cases m; cases v) (auto split: if_splits)

lemma mtx34_translation:
  "mtx34_getTranslation (mtx34_copy33 n t) = Inr t"
  "mtx34_setTranslation (mtx34_copy33 n t) t' = Inr (mtx34_copy33 n t')"
  by (cases n; cases t; cases t'; simp add: mtx34_getTranslation_def mtx34_setTranslation_def)+

section \<open>The angles of a rotation\<close>

text \<open>What \<open>std::atan2\<close> answers for a point at a positive distance from the origin.\<close>

definition atan2_law :: "(real \<Rightarrow> real \<Rightarrow> real) \<Rightarrow> bool" where
  "atan2_law f \<longleftrightarrow> (\<forall>r a. 0 < r \<longrightarrow> sin (f (r * sin a) (r * cos a)) = sin a \<and> cos (f (r * sin a) (r * cos a)) = cos a)"

lemma atan2_law_pos:
  "atan2_law f \<Longrightarrow> 0 < r \<Longrightarrow> sin (f (sin a * r) (cos a * r)) = sin a \<and> cos (f (sin a * r) (cos a * r)) = cos a"
  unfolding atan2_law_def by (metis mult.commute)

lemma atan2_law_neg:
  assumes "atan2_law f" and "r < 0"
  shows "sin (f (sin a * r) (cos a * r)) = - sin a \<and> cos (f (sin a * r) (cos a * r)) = - cos a"
  using atan2_law_pos [OF assms(1), of "- r" "a + pi"] assms(2) by simp

lemma atan2_law_unit:
  assumes "atan2_law f" and "s * s + c * c = 1"
  shows "sin (f s c) = s \<and> cos (f s c) = c"
proof -
  obtain a where "c = cos a" and "s = sin a"
    using sincos_total_2pi [of c s] assms(2) by (auto simp: power2_eq_square add.commute)
  then show ?thesis using atan2_law_pos [OF assms(1), of 1 a] by simp
qed

lemma math_abs_real: "math_abs (x :: real) = \<bar>x\<bar>"
  by (simp add: math_abs_def)

lemma sin_cos_unit: "sin x * sin x + cos x * cos x = (1 :: real)"
  using sin_cos_squared_add [of x] by (simp add: power2_eq_square)

text \<open>Away from the quarter turn: the cosine of the second angle may have either sign.\<close>

lemma getRotation_regular:
  assumes law: "atan2_law f" and c1: "cos y \<noteq> 0"
  shows "mtx34_makeRT sin cos (V3 (f (sin x * cos y) (cos x * cos y)) (arcsin (sin y)) (f (cos y * sin z) (cos y * cos z))) t =
         mtx34_makeRT sin cos (V3 x y z) t"
proof -
  have y: "sin (arcsin (sin y)) = sin y" "cos (arcsin (sin y)) = \<bar>cos y\<bar>"
    by (simp_all add: cos_arcsin flip: cos_squared_eq)
  show ?thesis
  proof (cases "0 < cos y")
    case True
    then show ?thesis
      using atan2_law_pos [OF law True, of x] atan2_law_pos [OF law True, of z]
      by (simp only: mtx34_makeRT_angles y) (simp add: mult.commute)
  next
    case False
    then have neg: "cos y < 0" using c1 by simp
    then show ?thesis
      using atan2_law_neg [OF law neg, of x] atan2_law_neg [OF law neg, of z]
      by (simp only: mtx34_makeRT_angles y) (simp add: mult.commute)
  qed
qed

text \<open>At the quarter turn only the sum or the difference of the other two angles counts.\<close>

lemma getRotation_singular:
  assumes law: "atan2_law f" and s1: "sin y * sin y = 1"
  shows "mtx34_makeRT sin cos
           (V3 0 (sin y * (pi / 2)) (f (cos x * sin z - sin x * sin y * cos z) (sin y * (cos x * cos z * sin y + sin x * sin z)))) t =
         mtx34_makeRT sin cos (V3 x y z) t"
proof -
  let ?s = "cos x * sin z - sin x * sin y * cos z"
  let ?c = "sin y * (cos x * cos z * sin y + sin x * sin z)"
  have c1: "cos y = 0" using sin_cos_unit [of y] s1 by simp
  have "?s * ?s + ?c * ?c = 1"
    using s1 sin_cos_unit [of x] sin_cos_unit [of z] by algebra
  then have z': "sin (f ?s ?c) = ?s" "cos (f ?s ?c) = ?c"
    using atan2_law_unit [OF law] by blast+
  have "sin y = 1 \<or> sin y = - 1" using s1 by (simp add: square_eq_1_iff)
  then have y': "sin (sin y * (pi / 2)) = sin y" "cos (sin y * (pi / 2)) = 0" by auto
  define a where "a = f ?s ?c"
  have "cos a * sin y = cos x * cos z * sin y + sin x * sin z"
    "sin a * sin y = cos x * sin z * sin y - sin x * cos z"
    "cos a = sin x * sin y * sin z + cos x * cos z"
    unfolding a_def z' using s1 by algebra+
  moreover have "sin a = cos x * sin z - sin x * sin y * cos z"
    unfolding a_def z' by (rule refl)
  ultimately show ?thesis
    unfolding a_def [symmetric] using y' by (cases t) (simp add: c1 Let_def)
qed

text \<open>
  The angles taken from a rotation by three angles build the same rotation again, with the second angle at a
  quarter turn, where the function sets the first angle to zero, or further from it than the bound of the
  branch. Between the two the code takes the branch of the quarter turn for an angle that is not one.
\<close>

theorem getRotation_makeRT:
  assumes "atan2_law f" and "0 < eps" and "\<bar>sin y\<bar> = 1 \<or> eps * 10 \<le> 1 - \<bar>sin y\<bar>"
  shows "mtx34_makeRT sin cos (mtx34_getRotation f arcsin eps 10 pi (mtx34_makeRT sin cos (V3 x y z) t)) t =
         mtx34_makeRT sin cos (V3 x y z) t"
proof (cases "\<bar>sin y\<bar> = 1")
  case True
  then have s1: "sin y * sin y = 1" by (metis abs_mult_self_eq mult_1)
  have q: "- sin y / \<bar>sin y\<bar> * (- pi / 2) = sin y * (pi / 2)" using True by simp
  have "mtx34_getRotation f arcsin eps 10 pi (mtx34_makeRT sin cos (V3 x y z) t) =
      V3 0 (sin y * (pi / 2)) (f (cos x * sin z - sin x * sin y * cos z) (sin y * (cos x * cos z * sin y + sin x * sin z)))"
    using True assms(2) q by (cases t) (simp add: Let_def math_abs_real two_def)
  then show ?thesis using getRotation_singular [OF assms(1) s1] by simp
next
  case False
  then have c1: "cos y \<noteq> 0" using sin_cos_unit [of y] by (auto simp: abs_if square_eq_1_iff)
  have "\<not> 1 - \<bar>sin y\<bar> < eps * 10" using False assms(3) by auto
  then show ?thesis
    using getRotation_regular [OF assms(1) c1, of x z t]
    by (cases t) (simp add: Let_def math_abs_real)
qed

lemma atan2_law_Arg: "atan2_law (\<lambda>y x. Arg (Complex x y))"
  unfolding atan2_law_def
proof (intro allI impI)
  fix r a :: real
  assume "0 < r"
  then have "Complex (r * cos a) (r * sin a) = rcis r a" and "rcis r a \<noteq> 0"
    by (simp_all add: complex_eq_iff) (use sin_cos_unit [of a] in auto)
  then have "cis (Arg (Complex (r * cos a) (r * sin a))) = cis a"
    using \<open>0 < r\<close> by (simp add: cis_Arg sgn_eq rcis_def norm_mult)
  then show "sin (Arg (Complex (r * cos a) (r * sin a))) = sin a \<and> cos (Arg (Complex (r * cos a) (r * sin a))) = cos a"
    by (simp add: complex_eq_iff)
qed

theorem getRotation_makeRT_witness:
  "let m = mtx34_makeRT sin cos (V3 1 (pi / 6) 2) (V3 3 4 5); f = (\<lambda>y x. Arg (Complex x y))
   in mtx34_makeRT sin cos (mtx34_getRotation f arcsin (1 / 1000) 10 pi m) (V3 3 4 5) = m"
proof -
  have "\<bar>sin (pi / 6)\<bar> = 1 / (2 :: real)" by (simp add: sin_30)
  then have "(1 / 1000) * 10 \<le> 1 - \<bar>sin (pi / 6 :: real)\<bar>" by simp
  then show ?thesis
    unfolding Let_def
    using getRotation_makeRT [OF atan2_law_Arg, of "1 / 1000" "pi / 6" 1 2 "V3 3 4 5"] by simp
qed
end
