(* ===== verification/Matrix44.thy ===== *)
theory Matrix44
  imports Matrix34
begin

text \<open>
  The matrices of four rows (\<open>Matrix44CalcCommon\<close> in \<open>sead/math/seadMatrixCalcCommon.hpp\<close>). An affine map is
  the matrix with the row \<open>0 0 0 1\<close> below it; the results show that products and inverses of the larger
  matrices are then those of the affine maps, and that \<open>inverse\<close> is the inverse of every matrix with a
  determinant that is not zero. They are about exact arithmetic, not about the rounded one of \<open>f32\<close>.
\<close>

section \<open>Data\<close>

datatype 'a mtx44 = M44 'a 'a 'a 'a 'a 'a 'a 'a 'a 'a 'a 'a 'a 'a 'a 'a

definition mtx44_makeIdentity :: "'a::{zero, one} mtx44" where
  "mtx44_makeIdentity = M44 1 0 0 0 0 1 0 0 0 0 1 0 0 0 0 1"

definition mtx44_makeZero :: "'a::zero mtx44" where
  "mtx44_makeZero = M44 0 0 0 0 0 0 0 0 0 0 0 0 0 0 0 0"

fun mtx44_copy34 :: "'a mtx34 \<Rightarrow> 'a vec4 \<Rightarrow> 'a mtx44" where
  "mtx44_copy34 (M34 n11 n12 n13 n14 n21 n22 n23 n24 n31 n32 n33 n34) (V4 vx vy vz vw) =
     M44 n11 n12 n13 n14 n21 n22 n23 n24 n31 n32 n33 n34 vx vy vz vw"

fun mtx44_copy33 :: "'a mtx33 \<Rightarrow> 'a vec3 \<Rightarrow> 'a vec4 \<Rightarrow> 'a mtx44" where
  "mtx44_copy33 (M33 n11 n12 n13 n21 n22 n23 n31 n32 n33) (V3 tx ty tz) (V4 vx vy vz vw) =
     M44 n11 n12 n13 tx n21 n22 n23 ty n31 n32 n33 tz vx vy vz vw"

fun mtx34_copy44 :: "'a mtx44 \<Rightarrow> 'a mtx34" where
  "mtx34_copy44 (M44 n11 n12 n13 n14 n21 n22 n23 n24 n31 n32 n33 n34 n41 n42 n43 n44) =
     M34 n11 n12 n13 n14 n21 n22 n23 n24 n31 n32 n33 n34"

section \<open>Operations\<close>

fun mtx44_det :: "'a::{plus, minus, times} mtx44 \<Rightarrow> 'a" where
  "mtx44_det (M44 a11 a12 a13 a14 a21 a22 a23 a24 a31 a32 a33 a34 a41 a42 a43 a44) =
            a11 * (a22 * a33 * a44 + a23 * a34 * a42 + a24 * a32 * a43) +
            a12 * (a21 * a34 * a43 + a23 * a31 * a44 + a24 * a33 * a41) +
            a13 * (a21 * a32 * a44 + a22 * a34 * a41 + a24 * a31 * a42) +
            a14 * (a21 * a33 * a42 + a22 * a31 * a43 + a23 * a32 * a41) -
            a11 * (a22 * a34 * a43 + a23 * a32 * a44 + a24 * a33 * a42) -
            a12 * (a21 * a33 * a44 + a23 * a34 * a41 + a24 * a31 * a43) -
            a13 * (a21 * a34 * a42 + a22 * a31 * a44 + a24 * a32 * a41) -
            a14 * (a21 * a32 * a43 + a22 * a33 * a41 + a23 * a31 * a42)"

fun mtx44_inverse :: "'a::{zero, one, plus, minus, uminus, times, inverse} mtx44 \<Rightarrow> 'a mtx44" where
  "mtx44_inverse (M44 a11 a12 a13 a14 a21 a22 a23 a24 a31 a32 a33 a34 a41 a42 a43 a44) =
     (let det = mtx44_det (M44 a11 a12 a13 a14 a21 a22 a23 a24 a31 a32 a33 a34 a41 a42 a43 a44)
      in if det = 0 then mtx44_makeIdentity
         else let det = 1 / det;
             a33xa44_a34xa43 = a33 * a44 - a34 * a43;
             a32xa44_a34xa42 = a32 * a44 - a34 * a42;
             a33xa42_a32xa43 = a33 * a42 - a32 * a43;
             a33xa41_a31xa43 = a33 * a41 - a31 * a43;
             a31xa44_a34xa41 = a31 * a44 - a34 * a41;
             a32xa41_a31xa42 = a32 * a41 - a31 * a42;
             a23xa44_a24xa43 = a23 * a44 - a24 * a43;
             a24xa33_a23xa34 = a24 * a33 - a23 * a34;
             a24xa42_a22xa44 = a24 * a42 - a22 * a44;
             a22xa43_a23xa42 = a22 * a43 - a23 * a42;
             a22xa34_a24xa32 = a22 * a34 - a24 * a32;
             a23xa32_a22xa33 = a23 * a32 - a22 * a33;
             a21xa44_a24xa41 = a21 * a44 - a24 * a41;
             a23xa41_a21xa43 = a23 * a41 - a21 * a43;
             a24xa31_a21xa34 = a24 * a31 - a21 * a34;
             a21xa33_a23xa31 = a21 * a33 - a23 * a31;
             a21xa42_a22xa41 = a21 * a42 - a22 * a41;
             a22xa31_a21xa32 = a22 * a31 - a21 * a32
              in M44
                 ((a22 * a33xa44_a34xa43 - a23 * a32xa44_a34xa42 - a24 * a33xa42_a32xa43) * det)
                 ((a13 * a32xa44_a34xa42 + a14 * a33xa42_a32xa43 - a12 * a33xa44_a34xa43) * det)
                 ((a12 * a23xa44_a24xa43 + a13 * a24xa42_a22xa44 + a14 * a22xa43_a23xa42) * det)
                 ((a12 * a24xa33_a23xa34 + a13 * a22xa34_a24xa32 + a14 * a23xa32_a22xa33) * det)
                 ((a23 * a31xa44_a34xa41 + a24 * a33xa41_a31xa43 - a21 * a33xa44_a34xa43) * det)
                 ((a11 * a33xa44_a34xa43 - a13 * a31xa44_a34xa41 - a14 * a33xa41_a31xa43) * det)
                 ((a13 * a21xa44_a24xa41 + a14 * a23xa41_a21xa43 - a11 * a23xa44_a24xa43) * det)
                 ((a13 * a24xa31_a21xa34 + a14 * a21xa33_a23xa31 - a11 * a24xa33_a23xa34) * det)
                 ((a21 * a32xa44_a34xa42 - a22 * a31xa44_a34xa41 - a24 * a32xa41_a31xa42) * det)
                 ((a12 * a31xa44_a34xa41 + a14 * a32xa41_a31xa42 - a11 * a32xa44_a34xa42) * det)
                 ((a14 * a21xa42_a22xa41 - a11 * a24xa42_a22xa44 - a12 * a21xa44_a24xa41) * det)
                 ((a14 * a22xa31_a21xa32 - a11 * a22xa34_a24xa32 - a12 * a24xa31_a21xa34) * det)
                 ((a21 * a33xa42_a32xa43 - a22 * a33xa41_a31xa43 + a23 * a32xa41_a31xa42) * det)
                 ((a12 * a33xa41_a31xa43 - a13 * a32xa41_a31xa42 - a11 * a33xa42_a32xa43) * det)
                 ((-a13 * a21xa42_a22xa41 - a11 * a22xa43_a23xa42 - a12 * a23xa41_a21xa43) * det)
                 ((-a13 * a22xa31_a21xa32 - a11 * a23xa32_a22xa33 - a12 * a21xa33_a23xa31) * det))"

fun mtx44_inverseTranspose :: "'a::{zero, one, plus, minus, uminus, times, inverse} mtx44 \<Rightarrow> 'a mtx44" where
  "mtx44_inverseTranspose (M44 a11 a12 a13 a14 a21 a22 a23 a24 a31 a32 a33 a34 a41 a42 a43 a44) =
     (let det = mtx44_det (M44 a11 a12 a13 a14 a21 a22 a23 a24 a31 a32 a33 a34 a41 a42 a43 a44)
      in if det = 0 then mtx44_makeIdentity
         else let det = 1 / det;
             a33xa44_a34xa43 = a33 * a44 - a34 * a43;
             a32xa44_a34xa42 = a32 * a44 - a34 * a42;
             a33xa42_a32xa43 = a33 * a42 - a32 * a43;
             a33xa41_a31xa43 = a33 * a41 - a31 * a43;
             a31xa44_a34xa41 = a31 * a44 - a34 * a41;
             a32xa41_a31xa42 = a32 * a41 - a31 * a42;
             a23xa44_a24xa43 = a23 * a44 - a24 * a43;
             a24xa33_a23xa34 = a24 * a33 - a23 * a34;
             a24xa42_a22xa44 = a24 * a42 - a22 * a44;
             a22xa43_a23xa42 = a22 * a43 - a23 * a42;
             a22xa34_a24xa32 = a22 * a34 - a24 * a32;
             a23xa32_a22xa33 = a23 * a32 - a22 * a33;
             a21xa44_a24xa41 = a21 * a44 - a24 * a41;
             a23xa41_a21xa43 = a23 * a41 - a21 * a43;
             a24xa31_a21xa34 = a24 * a31 - a21 * a34;
             a21xa33_a23xa31 = a21 * a33 - a23 * a31;
             a21xa42_a22xa41 = a21 * a42 - a22 * a41;
             a22xa31_a21xa32 = a22 * a31 - a21 * a32
              in M44
                 ((a22 * a33xa44_a34xa43 - a23 * a32xa44_a34xa42 - a24 * a33xa42_a32xa43) * det)
                 ((a23 * a31xa44_a34xa41 + a24 * a33xa41_a31xa43 - a21 * a33xa44_a34xa43) * det)
                 ((a21 * a32xa44_a34xa42 - a22 * a31xa44_a34xa41 - a24 * a32xa41_a31xa42) * det)
                 ((a21 * a33xa42_a32xa43 - a22 * a33xa41_a31xa43 + a23 * a32xa41_a31xa42) * det)
                 ((a13 * a32xa44_a34xa42 + a14 * a33xa42_a32xa43 - a12 * a33xa44_a34xa43) * det)
                 ((a11 * a33xa44_a34xa43 - a13 * a31xa44_a34xa41 - a14 * a33xa41_a31xa43) * det)
                 ((a12 * a31xa44_a34xa41 + a14 * a32xa41_a31xa42 - a11 * a32xa44_a34xa42) * det)
                 ((a12 * a33xa41_a31xa43 - a13 * a32xa41_a31xa42 - a11 * a33xa42_a32xa43) * det)
                 ((a12 * a23xa44_a24xa43 + a13 * a24xa42_a22xa44 + a14 * a22xa43_a23xa42) * det)
                 ((a13 * a21xa44_a24xa41 + a14 * a23xa41_a21xa43 - a11 * a23xa44_a24xa43) * det)
                 ((a14 * a21xa42_a22xa41 - a11 * a24xa42_a22xa44 - a12 * a21xa44_a24xa41) * det)
                 ((-a13 * a21xa42_a22xa41 - a11 * a22xa43_a23xa42 - a12 * a23xa41_a21xa43) * det)
                 ((a12 * a24xa33_a23xa34 + a13 * a22xa34_a24xa32 + a14 * a23xa32_a22xa33) * det)
                 ((a13 * a24xa31_a21xa34 + a14 * a21xa33_a23xa31 - a11 * a24xa33_a23xa34) * det)
                 ((a14 * a22xa31_a21xa32 - a11 * a22xa34_a24xa32 - a12 * a24xa31_a21xa34) * det)
                 ((-a13 * a22xa31_a21xa32 - a11 * a23xa32_a22xa33 - a12 * a21xa33_a23xa31) * det))"

fun mtx44_multiply :: "'a::{plus, times} mtx44 \<Rightarrow> 'a mtx44 \<Rightarrow> 'a mtx44" where
  "mtx44_multiply (M44 a11 a12 a13 a14 a21 a22 a23 a24 a31 a32 a33 a34 a41 a42 a43 a44) (M44 b11 b12 b13 b14 b21 b22 b23 b24 b31 b32 b33 b34 b41 b42 b43 b44) =
     M44 (a11 * b11 + a12 * b21 + a13 * b31 + a14 * b41) (a11 * b12 + a12 * b22 + a13 * b32 + a14 * b42)
         (a11 * b13 + a12 * b23 + a13 * b33 + a14 * b43) (a11 * b14 + a12 * b24 + a13 * b34 + a14 * b44)
         (a21 * b11 + a22 * b21 + a23 * b31 + a24 * b41) (a21 * b12 + a22 * b22 + a23 * b32 + a24 * b42)
         (a21 * b13 + a22 * b23 + a23 * b33 + a24 * b43) (a21 * b14 + a22 * b24 + a23 * b34 + a24 * b44)
         (a31 * b11 + a32 * b21 + a33 * b31 + a34 * b41) (a31 * b12 + a32 * b22 + a33 * b32 + a34 * b42)
         (a31 * b13 + a32 * b23 + a33 * b33 + a34 * b43) (a31 * b14 + a32 * b24 + a33 * b34 + a34 * b44)
         (a41 * b11 + a42 * b21 + a43 * b31 + a44 * b41) (a41 * b12 + a42 * b22 + a43 * b32 + a44 * b42)
         (a41 * b13 + a42 * b23 + a43 * b33 + a44 * b43) (a41 * b14 + a42 * b24 + a43 * b34 + a44 * b44)"

fun mtx44_multiply_34_44 :: "'a::{plus, times} mtx34 \<Rightarrow> 'a mtx44 \<Rightarrow> 'a mtx44" where
  "mtx44_multiply_34_44 (M34 a11 a12 a13 a14 a21 a22 a23 a24 a31 a32 a33 a34) (M44 b11 b12 b13 b14 b21 b22 b23 b24 b31 b32 b33 b34 b41 b42 b43 b44) =
     M44 (a11 * b11 + a12 * b21 + a13 * b31 + a14 * b41) (a11 * b12 + a12 * b22 + a13 * b32 + a14 * b42)
         (a11 * b13 + a12 * b23 + a13 * b33 + a14 * b43) (a11 * b14 + a12 * b24 + a13 * b34 + a14 * b44)
         (a21 * b11 + a22 * b21 + a23 * b31 + a24 * b41) (a21 * b12 + a22 * b22 + a23 * b32 + a24 * b42)
         (a21 * b13 + a22 * b23 + a23 * b33 + a24 * b43) (a21 * b14 + a22 * b24 + a23 * b34 + a24 * b44)
         (a31 * b11 + a32 * b21 + a33 * b31 + a34 * b41) (a31 * b12 + a32 * b22 + a33 * b32 + a34 * b42)
         (a31 * b13 + a32 * b23 + a33 * b33 + a34 * b43) (a31 * b14 + a32 * b24 + a33 * b34 + a34 * b44)
         b41 b42
         b43 b44"

fun mtx44_multiply_44_34 :: "'a::{plus, times} mtx44 \<Rightarrow> 'a mtx34 \<Rightarrow> 'a mtx44" where
  "mtx44_multiply_44_34 (M44 a11 a12 a13 a14 a21 a22 a23 a24 a31 a32 a33 a34 a41 a42 a43 a44) (M34 b11 b12 b13 b14 b21 b22 b23 b24 b31 b32 b33 b34) =
     M44 (a11 * b11 + a12 * b21 + a13 * b31) (a11 * b12 + a12 * b22 + a13 * b32)
         (a11 * b13 + a12 * b23 + a13 * b33) (a11 * b14 + a12 * b24 + a13 * b34 + a14)
         (a21 * b11 + a22 * b21 + a23 * b31) (a21 * b12 + a22 * b22 + a23 * b32)
         (a21 * b13 + a22 * b23 + a23 * b33) (a21 * b14 + a22 * b24 + a23 * b34 + a24)
         (a31 * b11 + a32 * b21 + a33 * b31) (a31 * b12 + a32 * b22 + a33 * b32)
         (a31 * b13 + a32 * b23 + a33 * b33) (a31 * b14 + a32 * b24 + a33 * b34 + a34)
         (a41 * b11 + a42 * b21 + a43 * b31) (a41 * b12 + a42 * b22 + a43 * b32)
         (a41 * b13 + a42 * b23 + a43 * b33) (a41 * b14 + a42 * b24 + a43 * b34 + a44)"

fun mtx44_transpose :: "'a mtx44 \<Rightarrow> 'a mtx44" where
  "mtx44_transpose (M44 a11 a12 a13 a14 a21 a22 a23 a24 a31 a32 a33 a34 a41 a42 a43 a44) =
     M44 a11 a21 a31 a41 a12 a22 a32 a42 a13 a23 a33 a43 a14 a24 a34 a44"

fun mtx44_transposeTo :: "'a mtx44 \<Rightarrow> 'a mtx44" where
  "mtx44_transposeTo (M44 n11 n12 n13 n14 n21 n22 n23 n24 n31 n32 n33 n34 n41 n42 n43 n44) =
     M44 n11 n21 n31 n41 n12 n22 n32 n42 n13 n23 n33 n43 n14 n24 n34 n44"

text \<open>The row below an affine map.\<close>

definition affine_row :: "'a::{zero, one} vec4" where
  "affine_row = V4 0 0 0 1"

definition mtx44_makeQ :: "'a::{zero, one, plus, minus, times} quat \<Rightarrow> 'a mtx44" where
  "mtx44_makeQ q = mtx44_copy33 (mtx33_makeQ q) vec3_zero affine_row"

definition mtx44_makeR ::
  "('a \<Rightarrow> 'a res) \<Rightarrow> ('a \<Rightarrow> 'a res) \<Rightarrow> 'a::{zero, one, plus, minus, uminus, times} vec3 \<Rightarrow> 'a mtx44 res" where
  "mtx44_makeR sn cs r = rbind (sines_of sn cs r) (\<lambda>(s, c). Inr (mtx44_copy33 (angles_xyz s c) vec3_zero affine_row))"

definition mtx44_makeRIdx ::
  "(u32 \<Rightarrow> ('a \<times> 'a) res) \<Rightarrow> u32 \<Rightarrow> u32 \<Rightarrow> u32 \<Rightarrow> 'a::{zero, one, plus, minus, uminus, times} mtx44 res" where
  "mtx44_makeRIdx sc xr yr zr =
     rbind (sines_idx sc (V3 xr yr zr)) (\<lambda>(s, c). Inr (mtx44_copy33 (angles_xyz s c) vec3_zero affine_row))"

definition mtx44_makeRzxyIdx ::
  "(u32 \<Rightarrow> ('a \<times> 'a) res) \<Rightarrow> u32 \<Rightarrow> u32 \<Rightarrow> u32 \<Rightarrow> 'a::{zero, one, plus, minus, uminus, times} mtx44 res" where
  "mtx44_makeRzxyIdx sc xr yr zr =
     rbind (sines_idx sc (V3 xr yr zr)) (\<lambda>(s, c). Inr (mtx44_copy33 (angles_zxy s c) vec3_zero affine_row))"

definition mtx44_toQuat ::
  "('a \<Rightarrow> 'a) \<Rightarrow> 'a::{zero, one, plus, minus, times, inverse, ord} mtx44 \<Rightarrow> 'a quat" where
  "mtx44_toQuat sqrt_fn n = mtx33_toQuat sqrt_fn (mtx33_copy34 (mtx34_copy44 n))"

section \<open>Rows and columns\<close>

fun mtx44_getCol :: "'a mtx44 \<Rightarrow> s32 \<Rightarrow> 'a vec4 res" where
  "mtx44_getCol (M44 n11 n12 n13 n14 n21 n22 n23 n24 n31 n32 n33 n34 n41 n42 n43 n44) axis =
     (if axis = 0 then Inr (V4 n11 n21 n31 n41) else if axis = 1 then Inr (V4 n12 n22 n32 n42)
      else if axis = 2 then Inr (V4 n13 n23 n33 n43) else if axis = 3 then Inr (V4 n14 n24 n34 n44)
      else Inl OutOfBounds)"

fun mtx44_getRow :: "'a mtx44 \<Rightarrow> s32 \<Rightarrow> 'a vec4 res" where
  "mtx44_getRow (M44 n11 n12 n13 n14 n21 n22 n23 n24 n31 n32 n33 n34 n41 n42 n43 n44) row =
     (if row = 0 then Inr (V4 n11 n12 n13 n14) else if row = 1 then Inr (V4 n21 n22 n23 n24)
      else if row = 2 then Inr (V4 n31 n32 n33 n34) else if row = 3 then Inr (V4 n41 n42 n43 n44)
      else Inl OutOfBounds)"

fun mtx44_setCol :: "'a mtx44 \<Rightarrow> s32 \<Rightarrow> 'a vec4 \<Rightarrow> 'a mtx44 res" where
  "mtx44_setCol (M44 n11 n12 n13 n14 n21 n22 n23 n24 n31 n32 n33 n34 n41 n42 n43 n44) axis (V4 x y z w) =
     (if axis = 0 then Inr (M44 x n12 n13 n14 y n22 n23 n24 z n32 n33 n34 w n42 n43 n44)
      else if axis = 1 then Inr (M44 n11 x n13 n14 n21 y n23 n24 n31 z n33 n34 n41 w n43 n44)
      else if axis = 2 then Inr (M44 n11 n12 x n14 n21 n22 y n24 n31 n32 z n34 n41 n42 w n44)
      else if axis = 3 then Inr (M44 n11 n12 n13 x n21 n22 n23 y n31 n32 n33 z n41 n42 n43 w)
      else Inl OutOfBounds)"

fun mtx44_setRow :: "'a mtx44 \<Rightarrow> 'a vec4 \<Rightarrow> s32 \<Rightarrow> 'a mtx44 res" where
  "mtx44_setRow (M44 n11 n12 n13 n14 n21 n22 n23 n24 n31 n32 n33 n34 n41 n42 n43 n44) (V4 x y z w) row =
     (if row = 0 then Inr (M44 x y z w n21 n22 n23 n24 n31 n32 n33 n34 n41 n42 n43 n44)
      else if row = 1 then Inr (M44 n11 n12 n13 n14 x y z w n31 n32 n33 n34 n41 n42 n43 n44)
      else if row = 2 then Inr (M44 n11 n12 n13 n14 n21 n22 n23 n24 x y z w n41 n42 n43 n44)
      else if row = 3 then Inr (M44 n11 n12 n13 n14 n21 n22 n23 n24 n31 n32 n33 n34 x y z w)
      else Inl OutOfBounds)"

fun mtx44_scaleAllElements :: "'a::times mtx44 \<Rightarrow> 'a \<Rightarrow> 'a mtx44" where
  "mtx44_scaleAllElements (M44 n11 n12 n13 n14 n21 n22 n23 n24 n31 n32 n33 n34 n41 n42 n43 n44) s =
     M44 (n11 * s) (n12 * s) (n13 * s) (n14 * s) (n21 * s) (n22 * s) (n23 * s) (n24 * s)
         (n31 * s) (n32 * s) (n33 * s) (n34 * s) (n41 * s) (n42 * s) (n43 * s) (n44 * s)"

fun mtx44_scaleBases :: "'a::times mtx44 \<Rightarrow> 'a \<Rightarrow> 'a \<Rightarrow> 'a \<Rightarrow> 'a \<Rightarrow> 'a mtx44" where
  "mtx44_scaleBases (M44 n11 n12 n13 n14 n21 n22 n23 n24 n31 n32 n33 n34 n41 n42 n43 n44) sx sy sz sw =
     M44 (n11 * sx) (n12 * sy) (n13 * sz) (n14 * sw) (n21 * sx) (n22 * sy) (n23 * sz) (n24 * sw)
         (n31 * sx) (n32 * sy) (n33 * sz) (n34 * sw) (n41 * sx) (n42 * sy) (n43 * sz) (n44 * sw)"

section \<open>Products and inverses\<close>

text \<open>The matrix that the inverse divides by the determinant.\<close>

fun adjugate44 :: "'a::{minus, uminus, plus, times} mtx44 \<Rightarrow> 'a mtx44" where
  "adjugate44 (M44 a11 a12 a13 a14 a21 a22 a23 a24 a31 a32 a33 a34 a41 a42 a43 a44) =
     M44
       (a22 * (a33 * a44 - a34 * a43) - a23 * (a32 * a44 - a34 * a42) - a24 * (a33 * a42 - a32 * a43))
       (a13 * (a32 * a44 - a34 * a42) + a14 * (a33 * a42 - a32 * a43) - a12 * (a33 * a44 - a34 * a43))
       (a12 * (a23 * a44 - a24 * a43) + a13 * (a24 * a42 - a22 * a44) + a14 * (a22 * a43 - a23 * a42))
       (a12 * (a24 * a33 - a23 * a34) + a13 * (a22 * a34 - a24 * a32) + a14 * (a23 * a32 - a22 * a33))
       (a23 * (a31 * a44 - a34 * a41) + a24 * (a33 * a41 - a31 * a43) - a21 * (a33 * a44 - a34 * a43))
       (a11 * (a33 * a44 - a34 * a43) - a13 * (a31 * a44 - a34 * a41) - a14 * (a33 * a41 - a31 * a43))
       (a13 * (a21 * a44 - a24 * a41) + a14 * (a23 * a41 - a21 * a43) - a11 * (a23 * a44 - a24 * a43))
       (a13 * (a24 * a31 - a21 * a34) + a14 * (a21 * a33 - a23 * a31) - a11 * (a24 * a33 - a23 * a34))
       (a21 * (a32 * a44 - a34 * a42) - a22 * (a31 * a44 - a34 * a41) - a24 * (a32 * a41 - a31 * a42))
       (a12 * (a31 * a44 - a34 * a41) + a14 * (a32 * a41 - a31 * a42) - a11 * (a32 * a44 - a34 * a42))
       (a14 * (a21 * a42 - a22 * a41) - a11 * (a24 * a42 - a22 * a44) - a12 * (a21 * a44 - a24 * a41))
       (a14 * (a22 * a31 - a21 * a32) - a11 * (a22 * a34 - a24 * a32) - a12 * (a24 * a31 - a21 * a34))
       (a21 * (a33 * a42 - a32 * a43) - a22 * (a33 * a41 - a31 * a43) + a23 * (a32 * a41 - a31 * a42))
       (a12 * (a33 * a41 - a31 * a43) - a13 * (a32 * a41 - a31 * a42) - a11 * (a33 * a42 - a32 * a43))
       (-a13 * (a21 * a42 - a22 * a41) - a11 * (a22 * a43 - a23 * a42) - a12 * (a23 * a41 - a21 * a43))
       (-a13 * (a22 * a31 - a21 * a32) - a11 * (a23 * a32 - a22 * a33) - a12 * (a21 * a33 - a23 * a31))"

lemma adjugate44_right: "mtx44_multiply m (adjugate44 m) = mtx44_scaleAllElements mtx44_makeIdentity (mtx44_det m)"
  for m :: "'a::comm_ring_1 mtx44"
  by (cases m) (simp add: mtx44_makeIdentity_def algebra_simps)

lemma adjugate44_left: "mtx44_multiply (adjugate44 m) m = mtx44_scaleAllElements mtx44_makeIdentity (mtx44_det m)"
  for m :: "'a::comm_ring_1 mtx44"
  by (cases m) (simp add: mtx44_makeIdentity_def algebra_simps)

lemma mtx44_inverse_adjugate:
  "mtx44_det m \<noteq> 0 \<Longrightarrow> mtx44_inverse m = mtx44_scaleAllElements (adjugate44 m) (1 / mtx44_det m)"
  by (cases m) (simp add: Let_def del: mtx44_det.simps)

lemma mtx44_inverseTranspose_eq: "mtx44_inverseTranspose m = mtx44_transpose (mtx44_inverse m)"
  by (cases m) (simp add: Let_def mtx44_makeIdentity_def del: mtx44_det.simps)

lemma mtx44_inverse_singular:
  "mtx44_det m = 0 \<Longrightarrow> mtx44_inverse m = mtx44_makeIdentity"
  "mtx44_det m = 0 \<Longrightarrow> mtx44_inverseTranspose m = mtx44_makeIdentity"
  by (cases m; simp add: Let_def del: mtx44_det.simps)+

lemma mtx44_multiply_scale:
  fixes a :: "'a::comm_ring_1 mtx44"
  shows "mtx44_multiply a (mtx44_scaleAllElements b t) = mtx44_scaleAllElements (mtx44_multiply a b) t"
  and "mtx44_multiply (mtx44_scaleAllElements a t) b = mtx44_scaleAllElements (mtx44_multiply a b) t"
  by (cases a; cases b; simp add: algebra_simps)+

lemma mtx44_scale_scale:
  "mtx44_scaleAllElements (mtx44_scaleAllElements m s) t = mtx44_scaleAllElements m (s * t)" for m :: "'a::comm_ring_1 mtx44"
  by (cases m) (simp add: mult.assoc)

lemma mtx44_scale_one [simp]: "mtx44_scaleAllElements m 1 = m" for m :: "'a::comm_ring_1 mtx44"
  by (cases m) simp

lemma mtx44_inverses:
  fixes m :: "'a::field mtx44"
  assumes "mtx44_det m \<noteq> 0"
  shows "mtx44_multiply m (mtx44_inverse m) = mtx44_makeIdentity"
  and "mtx44_multiply (mtx44_inverse m) m = mtx44_makeIdentity"
  using assms
  by (simp_all add: mtx44_inverse_adjugate mtx44_multiply_scale adjugate44_right adjugate44_left mtx44_scale_scale)

section \<open>Affine maps\<close>

text \<open>Each affine map as a matrix of four rows.\<close>

abbreviation lift44 :: "'a::{zero, one} mtx34 \<Rightarrow> 'a mtx44" where
  "lift44 m \<equiv> mtx44_copy34 m affine_row"

lemma lift44_multiply:
  fixes a :: "'a::comm_ring_1 mtx34"
  shows "lift44 (mtx34_multiply a b) = mtx44_multiply (lift44 a) (lift44 b)"
  by (cases a; cases b; simp add: affine_row_def)

lemma mixed44_multiply:
  fixes a :: "'a::comm_ring_1 mtx34"
  shows "mtx44_multiply_34_44 a m = mtx44_multiply (lift44 a) m"
  and "mtx44_multiply_44_34 m a = mtx44_multiply m (lift44 a)"
  by (cases a; cases m; simp add: affine_row_def)+

lemma lift44_det: "mtx44_det (lift44 m) = mtx33_det (mtx33_copy34 m)" for m :: "'a::comm_ring_1 mtx34"
  by (cases m) (simp add: affine_row_def algebra_simps)

lemma lift44_identity: "lift44 mtx34_makeIdentity = mtx44_makeIdentity"
  by (simp add: affine_row_def mtx34_makeIdentity_def mtx44_makeIdentity_def)

lemma mtx44_multiply_assoc: "mtx44_multiply (mtx44_multiply a b) c = mtx44_multiply a (mtx44_multiply b c)"
  for a :: "'a::comm_ring_1 mtx44"
  by (cases a; cases b; cases c; simp add: algebra_simps)

lemma mtx44_multiply_identity [simp]:
  fixes m :: "'a::comm_ring_1 mtx44"
  shows "mtx44_multiply mtx44_makeIdentity m = m" and "mtx44_multiply m mtx44_makeIdentity = m"
  by (cases m; simp add: mtx44_makeIdentity_def)+

lemma copy44_lift [simp]: "mtx34_copy44 (mtx44_copy34 m v) = m"
  by (cases m; cases v; simp)

lemma mtx44_makeQ_lift: "mtx44_makeQ q = lift44 (mtx34_makeQ q)"
  by (cases q) (simp add: mtx44_makeQ_def mtx34_makeQ_def vec3_zero_def affine_row_def Let_def)

lemma mtx44_toQuat_lift: "mtx44_toQuat f (lift44 m) = mtx34_toQuat f m"
  by (simp add: mtx44_toQuat_def mtx34_toQuat_def)

lemma mtx44_getCol_setCol: "mtx44_setCol m axis v = Inr m' \<Longrightarrow> mtx44_getCol m' axis = Inr v"
  by (cases m; cases v) (auto split: if_splits)

lemma mtx44_getRow_setRow: "mtx44_setRow m v row = Inr m' \<Longrightarrow> mtx44_getRow m' row = Inr v"
  by (cases m; cases v) (auto split: if_splits)

lemma mtx44_inverse_unique:
  fixes m :: "'a::field mtx44"
  assumes "mtx44_det m \<noteq> 0" and "mtx44_multiply n m = mtx44_makeIdentity"
  shows "n = mtx44_inverse m"
  by (metis assms mtx44_inverses(1) mtx44_multiply_assoc mtx44_multiply_identity)

text \<open>
  The matrices of four rows implement the affine maps: the lift takes products to products and inverses to
  inverses, the map without an inverse, for which both give the identity, included; and any matrix with a
  determinant that is not zero has exactly one inverse, the one computed.
\<close>

theorem affine_refinement:
  fixes a :: "'a::field mtx34"
  shows "mtx44_multiply (lift44 a) (lift44 b) = lift44 (mtx34_multiply a b) \<and>
         mtx44_inverse (lift44 a) = lift44 (mtx34_inverse a) \<and>
         mtx34_copy44 (mtx44_inverse (lift44 a)) = mtx34_inverse a"
proof -
  have "mtx44_inverse (lift44 a) = lift44 (mtx34_inverse a)"
  proof (cases "mtx33_det (mtx33_copy34 a) = 0")
    case True
    then have "mtx34_inverse a = mtx34_makeIdentity"
      by (metis mtx33_copy34_parts mtx34_inverse_singular mtx34_parts)
    then show ?thesis using True by (simp add: mtx44_inverse_singular lift44_det lift44_identity)
  next
    case False
    then have "mtx44_multiply (lift44 (mtx34_inverse a)) (lift44 a) = mtx44_makeIdentity"
      by (simp add: lift44_multiply [symmetric] mtx34_inverses lift44_identity)
    then show ?thesis
      using False mtx44_inverse_unique [of "lift44 a"] by (simp add: lift44_det)
  qed
  then show ?thesis by (simp add: lift44_multiply)
qed

end
