(* ===== verification/Ring_Buffer.thy ===== *)
theory Ring_Buffer
  imports Ptr_Array
begin

text \<open>
  \<open>sead/container/seadRingBuffer.h\<close>: a queue open at both ends in a fixed array, whose first element wanders.
  The fields are the \<open>s32\<close> values as integers, the array a list of its cells. The buffer refines a bounded
  queue: the locale \<open>bounded_deque\<close> extends \<open>bounded_seq\<close> by the operations at the front, and a run of
  operations is a run on lists. \<open>forcePushBackwards\<close> alone, which checks nothing, breaks the invariant.
  Allocation answers with the cells of the new array or none.
\<close>

section \<open>The buffer\<close>

record 'a ring =
  rb_cells :: "'a list option"
  rb_cap :: int
  rb_head :: int
  rb_size :: int

definition rb_new :: "'a ring" where
  "rb_new = \<lparr>rb_cells = None, rb_cap = 0, rb_head = 0, rb_size = 0\<rparr>"

definition rb_setBuffer :: "int \<Rightarrow> 'a list option \<Rightarrow> 'a ring \<Rightarrow> 'a ring" where
  "rb_setBuffer capacity bufferptr r =
     (if capacity < 1 then r
      else case bufferptr of
             None \<Rightarrow> r
           | Some cells \<Rightarrow> r\<lparr>rb_cells := Some cells, rb_head := 0, rb_size := 0, rb_cap := capacity\<rparr>)"

definition rb_of_array :: "'a list \<Rightarrow> 'a ring" where
  "rb_of_array array = rb_setBuffer (int (length array)) (Some array) rb_new"

definition rb_tryAllocBuffer :: "int \<Rightarrow> 'a list option \<Rightarrow> 'a ring \<Rightarrow> bool \<times> 'a ring" where
  "rb_tryAllocBuffer capacity answer r =
     (if 0 < capacity
      then case answer of
             Some cells \<Rightarrow> (True, r\<lparr>rb_cells := Some cells, rb_head := 0, rb_size := 0, rb_cap := capacity\<rparr>)
           | None \<Rightarrow> (False, r)
      else (False, r))"

definition rb_allocBuffer :: "int \<Rightarrow> 'a list option \<Rightarrow> 'a ring \<Rightarrow> 'a ring" where
  "rb_allocBuffer capacity answer r = snd (rb_tryAllocBuffer capacity answer r)"

definition rb_freeBuffer :: "'a ring \<Rightarrow> 'a ring" where
  "rb_freeBuffer r = (if rb_cells r \<noteq> None then r\<lparr>rb_cells := None, rb_cap := 0, rb_head := 0, rb_size := 0\<rparr> else r)"

definition rb_isBufferReady :: "'a ring \<Rightarrow> bool" where
  "rb_isBufferReady r \<longleftrightarrow> rb_cells r \<noteq> None"

definition rb_empty :: "'a ring \<Rightarrow> bool" where
  "rb_empty r \<longleftrightarrow> rb_size r = 0"

definition rb_clear :: "'a ring \<Rightarrow> 'a ring" where
  "rb_clear r = r\<lparr>rb_head := 0, rb_size := 0\<rparr>"

section \<open>Reading and writing\<close>

definition rb_calcRealIdx :: "'a ring \<Rightarrow> int \<Rightarrow> int" where
  "rb_calcRealIdx r idx =
     (let real_idx = rb_head r + idx in if rb_cap r \<le> real_idx then real_idx - rb_cap r else real_idx)"

text \<open>A cell of the array, unchecked.\<close>

definition cell_get :: "'a ring \<Rightarrow> int \<Rightarrow> 'a res" where
  "cell_get r i =
     (case rb_cells r of
        None \<Rightarrow> Inl NullDeref
      | Some cells \<Rightarrow> if 0 \<le> i \<and> i < int (length cells) then Inr (cells ! nat i) else Inl OutOfBounds)"

definition cell_set :: "'a ring \<Rightarrow> int \<Rightarrow> 'a \<Rightarrow> 'a ring res" where
  "cell_set r i x =
     (case rb_cells r of
        None \<Rightarrow> Inl NullDeref
      | Some cells \<Rightarrow> if 0 \<le> i \<and> i < int (length cells) then Inr (r\<lparr>rb_cells := Some (cells[nat i := x])\<rparr>)
                      else Inl OutOfBounds)"

definition rb_unsafeGet :: "'a ring \<Rightarrow> int \<Rightarrow> 'a res" where
  "rb_unsafeGet r idx = cell_get r (rb_calcRealIdx r idx)"

definition rb_unsafeSet :: "'a ring \<Rightarrow> int \<Rightarrow> 'a \<Rightarrow> 'a ring res" where
  "rb_unsafeSet r idx x = cell_set r (rb_calcRealIdx r idx) x"

text \<open>The operator answers the first cell of the array for an index that is too large.\<close>

definition rb_index :: "'a ring \<Rightarrow> int \<Rightarrow> 'a res" where
  "rb_index r idx = (if u32_of (rb_size r) \<le> u32_of idx then cell_get r 0 else rb_unsafeGet r idx)"

definition rb_get :: "'a ring \<Rightarrow> int \<Rightarrow> 'a option res" where
  "rb_get r idx =
     (if u32_of (rb_size r) \<le> u32_of idx then Inr None else rbind (rb_unsafeGet r idx) (\<lambda>x. Inr (Some x)))"

definition rb_front :: "'a ring \<Rightarrow> 'a res" where
  "rb_front r = rb_unsafeGet r 0"

definition rb_back :: "'a ring \<Rightarrow> 'a res" where
  "rb_back r = (if rb_size r < 1 then cell_get r 0 else rb_unsafeGet r (rb_size r - 1))"

definition rb_pushBack :: "'a \<Rightarrow> 'a ring \<Rightarrow> (bool \<times> 'a ring) res" where
  "rb_pushBack item r =
     (if rb_cap r \<le> rb_size r then Inr (False, r)
      else rbind (rb_unsafeSet (r\<lparr>rb_size := rb_size r + 1\<rparr>) (rb_size r) item) (\<lambda>r. Inr (True, r)))"

definition s32_of :: "int \<Rightarrow> int" where
  "s32_of i = (i + 2 ^ 31) mod 2 ^ 32 - 2 ^ 31"

definition rb_forcePushBackwards :: "'a \<Rightarrow> int \<Rightarrow> 'a ring \<Rightarrow> 'a ring res" where
  "rb_forcePushBackwards item offset r =
     (let head = s32_of ((if rb_head r < 1 then rb_cap r else rb_head r) - offset);
          r = r\<lparr>rb_head := head, rb_size := rb_size r + 1\<rparr>
      in rb_unsafeSet r 0 item)"

definition rb_pushBackwards :: "'a \<Rightarrow> 'a ring \<Rightarrow> (bool \<times> 'a ring) res" where
  "rb_pushBackwards item r =
     (if rb_cap r \<le> rb_size r then Inr (False, r)
      else rbind (rb_forcePushBackwards item 1 r) (\<lambda>r. Inr (True, r)))"

text \<open>Without an element, the value-initialised one is the answer.\<close>

definition rb_popFront :: "'a \<Rightarrow> 'a ring \<Rightarrow> ('a \<times> 'a ring) res" where
  "rb_popFront dflt r =
     (if 1 \<le> rb_size r
      then rbind (rb_unsafeGet r 0) (\<lambda>item.
             Inr (item, r\<lparr>rb_head := (if rb_head r + 1 < rb_cap r then rb_head r + 1 else 0), rb_size := rb_size r - 1\<rparr>))
      else Inr (dflt, r))"

definition rb_forcePushBack :: "'a \<Rightarrow> 'a \<Rightarrow> 'a ring \<Rightarrow> 'a ring res" where
  "rb_forcePushBack dflt item r =
     (if rb_size r < rb_cap r then rbind (rb_pushBack item r) (\<lambda>(_, r). Inr r)
      else rbind (if 1 \<le> rb_size r then rb_popFront dflt r else Inr (dflt, r)) (\<lambda>(_, r).
           rbind (rb_pushBack item r) (\<lambda>(_, r). Inr r)))"

text \<open>An iterator is the buffer and an index; from an index behind the end it starts at the front.\<close>

definition rb_wrapIndex :: "'a ring \<Rightarrow> int \<Rightarrow> int" where
  "rb_wrapIndex r idx = (if u32_of (rb_size r) < u32_of idx then 0 else idx)"

fun rb_iterate :: "nat \<Rightarrow> 'a ring \<Rightarrow> int \<Rightarrow> 'a list res" where
  "rb_iterate 0 r i = Inr []"
| "rb_iterate (Suc n) r i =
     rbind (rb_unsafeGet r i) (\<lambda>x. rbind (rb_iterate n r (i + 1)) (\<lambda>xs. Inr (x # xs)))"

definition rb_elements_from :: "'a ring \<Rightarrow> int \<Rightarrow> 'a list res" where
  "rb_elements_from r idx = (let i = rb_wrapIndex r idx in rb_iterate (nat (rb_size r - i)) r i)"

section \<open>The buffer as a list\<close>

text \<open>
  The array has the announced number of cells, the first element is one of them. The bound of the capacity
  keeps the sum of two indices below \<open>2 ^ 31\<close>.
\<close>

definition rb_ok :: "'a ring \<Rightarrow> bool" where
  "rb_ok r \<longleftrightarrow> 0 \<le> rb_size r \<and> rb_size r \<le> rb_cap r \<and> rb_cap r < 2 ^ 30 \<and>
     (case rb_cells r of
        None \<Rightarrow> rb_cap r = 0
      | Some cells \<Rightarrow> int (length cells) = rb_cap r \<and> 0 \<le> rb_head r \<and> rb_head r < rb_cap r)"

definition real_at :: "'a ring \<Rightarrow> nat \<Rightarrow> nat" where
  "real_at r k = (nat (rb_head r) + k) mod nat (rb_cap r)"

definition rb_list :: "'a ring \<Rightarrow> 'a list" where
  "rb_list r =
     (case rb_cells r of
        None \<Rightarrow> []
      | Some cells \<Rightarrow> map (\<lambda>k. cells ! real_at r k) [0..<nat (rb_size r)])"

lemma rb_ok_new: "rb_ok rb_new \<and> rb_list rb_new = []"
  by (simp add: rb_ok_def rb_new_def rb_list_def)

lemma rb_ok_of_array:
  "0 < length a \<Longrightarrow> int (length a) < 2 ^ 30 \<Longrightarrow> rb_ok (rb_of_array a) \<and> rb_list (rb_of_array a) = []"
  by (simp add: rb_ok_def rb_of_array_def rb_setBuffer_def rb_new_def rb_list_def)

lemma length_rb_list: "rb_ok r \<Longrightarrow> int (length (rb_list r)) = rb_size r"
  by (auto simp: rb_ok_def rb_list_def split: option.splits)

text \<open>A buffer with room or an element has cells.\<close>

lemma rb_ok_cells:
  assumes "rb_ok r" and "0 < rb_cap r"
  obtains cells where "rb_cells r = Some cells" and "length cells = nat (rb_cap r)"
    and "nat (rb_head r) < length cells" and "0 \<le> rb_head r"
  using assms by (auto simp: rb_ok_def split: option.splits)

lemma calcRealIdx_mod:
  assumes "rb_ok r" and "0 < rb_cap r" and "0 \<le> k" and "k < rb_cap r"
  shows "rb_calcRealIdx r k = int (real_at r (nat k))"
proof -
  have h: "0 \<le> rb_head r" "rb_head r < rb_cap r" using assms by (auto simp: rb_ok_def split: option.splits)
  have "int (real_at r (nat k)) = (rb_head r + k) mod rb_cap r"
    using assms h by (simp add: real_at_def zmod_int)
  also have "\<dots> = rb_calcRealIdx r k"
  proof (cases "rb_cap r \<le> rb_head r + k")
    case True
    then have "(rb_head r + k) mod rb_cap r = (rb_head r + k - rb_cap r) mod rb_cap r" by simp
    also have "\<dots> = rb_head r + k - rb_cap r" using h assms True by (intro mod_pos_pos_trivial) simp_all
    finally show ?thesis using True by (simp add: rb_calcRealIdx_def Let_def)
  next
    case False
    then show ?thesis using h assms by (simp add: rb_calcRealIdx_def Let_def)
  qed
  finally show ?thesis by simp
qed

lemma real_at_less: "0 < rb_cap r \<Longrightarrow> real_at r k < nat (rb_cap r)"
  by (simp add: real_at_def)

lemma unsafeGet_list:
  assumes "rb_ok r" and "k < length (rb_list r)"
  shows "rb_unsafeGet r (int k) = Inr (rb_list r ! k)"
proof -
  have k: "int k < rb_size r" using assms length_rb_list [OF assms(1)] by simp
  then have c: "0 < rb_cap r" "int k < rb_cap r" using assms(1) by (auto simp: rb_ok_def)
  obtain cells where cells: "rb_cells r = Some cells" "length cells = nat (rb_cap r)"
    using rb_ok_cells [OF assms(1) c(1)] by blast
  have "rb_calcRealIdx r (int k) = int (real_at r k)"
    using calcRealIdx_mod [OF assms(1) c(1), of "int k"] c(2) by simp
  then show ?thesis
    using cells k c(1) real_at_less [OF c(1), of k] by (auto simp: rb_unsafeGet_def cell_get_def rb_list_def)
qed


lemma real_at_inj:
  assumes "k < nat (rb_cap r)" and "j < nat (rb_cap r)" and "real_at r k = real_at r j"
  shows "k = j"
proof -
  have "k mod nat (rb_cap r) = j mod nat (rb_cap r)"
    using assms(3) by (simp add: real_at_def nat_mod_eq_iff)
  then show ?thesis using assms by simp
qed

section \<open>The operations on lists\<close>

lemma pushBack_full: "rb_ok r \<Longrightarrow> \<not> rb_size r < rb_cap r \<Longrightarrow> rb_pushBack x r = Inr (False, r)"
  by (simp add: rb_pushBack_def)

lemma pushBack_room:
  assumes "rb_ok r" and room: "rb_size r < rb_cap r"
  shows "\<exists>r'. rb_pushBack x r = Inr (True, r') \<and> rb_ok r' \<and> rb_list r' = rb_list r @ [x] \<and> rb_cap r' = rb_cap r"
proof -
  have n: "0 \<le> rb_size r" "0 < rb_cap r" using assms by (auto simp: rb_ok_def)
  obtain cells where cells: "rb_cells r = Some cells" "length cells = nat (rb_cap r)"
    using rb_ok_cells [OF assms(1) n(2)] by blast
  let ?k = "nat (rb_size r)"
  let ?r = "r\<lparr>rb_cells := Some (cells[real_at r ?k := x]), rb_size := rb_size r + 1\<rparr>"
  have at: "real_at ?r k = real_at r k" for k by (simp add: real_at_def)
  have "rb_calcRealIdx (r\<lparr>rb_size := rb_size r + 1\<rparr>) (rb_size r) = int (real_at r ?k)"
    using calcRealIdx_mod [OF assms(1) n(2) n(1) room] by (simp add: rb_calcRealIdx_def Let_def split: if_splits)
  then have push: "rb_pushBack x r = Inr (True, ?r)"
    using room n cells real_at_less [OF n(2), of ?k]
    by (auto simp: rb_pushBack_def rb_unsafeSet_def cell_set_def)
  have "real_at r ?k \<noteq> real_at r k" if "k < ?k" for k
    using real_at_inj [of k r ?k] that room n by auto
  moreover have "nat (rb_size r + 1) = Suc ?k" using n by simp
  ultimately have "rb_list ?r = rb_list r @ [x]"
    using cells real_at_less [OF n(2), of ?k] by (simp add: rb_list_def at)
  moreover have "rb_ok ?r" using assms room cells by (simp add: rb_ok_def)
  ultimately show ?thesis using push by auto
qed

lemma forcePushBackwards_room:
  assumes "rb_ok r" and room: "rb_size r < rb_cap r"
  shows "\<exists>r'. rb_forcePushBackwards x 1 r = Inr r' \<and> rb_ok r' \<and> rb_list r' = x # rb_list r \<and> rb_cap r' = rb_cap r"
proof -
  have n: "0 \<le> rb_size r" "0 < rb_cap r" "rb_cap r < 2 ^ 30" using assms by (auto simp: rb_ok_def)
  obtain cells where cells: "rb_cells r = Some cells" "length cells = nat (rb_cap r)"
      "nat (rb_head r) < length cells" "0 \<le> rb_head r"
    using rb_ok_cells [OF assms(1) n(2)] by blast
  define h where "h = (if rb_head r < 1 then rb_cap r else rb_head r) - 1"
  have h: "0 \<le> h" "h < rb_cap r" using cells n by (auto simp: h_def)
  have wrap: "s32_of h = h" using h n by (simp add: s32_of_def)
  let ?q = "r\<lparr>rb_head := h, rb_size := rb_size r + 1\<rparr>"
  let ?r = "?q\<lparr>rb_cells := Some (cells[nat h := x])\<rparr>"
  have "rb_calcRealIdx ?q 0 = h" using h by (simp add: rb_calcRealIdx_def)
  then have push: "rb_forcePushBackwards x 1 r = Inr ?r"
    using h cells wrap by (simp add: rb_forcePushBackwards_def h_def [symmetric] rb_unsafeSet_def cell_set_def)
  have zero: "real_at ?r 0 = nat h" using h by (simp add: real_at_def)
  have suc: "real_at ?r (Suc k) = real_at r k" for k
  proof (cases "rb_head r < 1")
    case True
    then have "nat h + Suc k = nat (rb_cap r) + k" "nat (rb_head r) = 0" using n by (simp_all add: h_def)
    moreover have "real_at ?r (Suc k) = (nat h + Suc k) mod nat (rb_cap r)" by (simp add: real_at_def)
    ultimately show ?thesis by (simp only: real_at_def add_0 mod_add_self1)
  next
    case False
    then have "nat h + Suc k = nat (rb_head r) + k" by (simp add: h_def)
    moreover have "real_at ?r (Suc k) = (nat h + Suc k) mod nat (rb_cap r)" by (simp add: real_at_def)
    ultimately show ?thesis by (simp only: real_at_def)
  qed
  have diff: "nat h \<noteq> real_at r k" if "k < nat (rb_size r)" for k
  proof
    assume eq: "nat h = real_at r k"
    have "Suc k < nat (rb_cap ?r)" using that room by simp
    moreover have "real_at ?r (Suc k) = real_at ?r 0" using eq suc [of k] zero by (simp only:)
    ultimately show False using real_at_inj [of "Suc k" ?r 0] n(2) by simp
  qed
  have "nat (rb_size r + 1) = Suc (nat (rb_size r))" using n by simp
  then have "rb_list ?r = map (\<lambda>k. cells[nat h := x] ! real_at ?r k) (0 # map Suc [0..<nat (rb_size r)])"
    by (simp add: rb_list_def map_Suc_upt upt_conv_Cons del: upt_Suc)
  also have "\<dots> = x # rb_list r"
    using diff h cells by (simp add: zero suc rb_list_def)
  finally have "rb_list ?r = x # rb_list r" .
  moreover have "rb_ok ?r" using assms room cells h by (simp add: rb_ok_def)
  ultimately show ?thesis using push by auto
qed

lemma pushBackwards_full: "rb_ok r \<Longrightarrow> \<not> rb_size r < rb_cap r \<Longrightarrow> rb_pushBackwards x r = Inr (False, r)"
  by (simp add: rb_pushBackwards_def)

lemma pushBackwards_room:
  assumes "rb_ok r" and "rb_size r < rb_cap r"
  shows "\<exists>r'. rb_pushBackwards x r = Inr (True, r') \<and> rb_ok r' \<and> rb_list r' = x # rb_list r \<and> rb_cap r' = rb_cap r"
  using forcePushBackwards_room [OF assms, of x] assms(2) by (auto simp: rb_pushBackwards_def)

lemma popFront_empty: "rb_ok r \<Longrightarrow> rb_list r = [] \<Longrightarrow> rb_popFront d r = Inr (d, r)"
  using length_rb_list [of r] by (simp add: rb_popFront_def)

lemma popFront_Cons:
  assumes "rb_ok r" and l: "rb_list r = x # xs"
  shows "\<exists>r'. rb_popFront d r = Inr (x, r') \<and> rb_ok r' \<and> rb_list r' = xs \<and> rb_cap r' = rb_cap r"
proof -
  have size: "1 \<le> rb_size r" using length_rb_list [OF assms(1)] l by simp
  then have n: "0 < rb_cap r" using assms(1) by (simp add: rb_ok_def)
  obtain cells where cells: "rb_cells r = Some cells" "length cells = nat (rb_cap r)"
      "nat (rb_head r) < length cells" "0 \<le> rb_head r"
    using rb_ok_cells [OF assms(1) n] by blast
  define h where "h = (if rb_head r + 1 < rb_cap r then rb_head r + 1 else 0)"
  let ?r = "r\<lparr>rb_head := h, rb_size := rb_size r - 1\<rparr>"
  have pop: "rb_popFront d r = Inr (x, ?r)"
    using unsafeGet_list [OF assms(1), of 0] size l by (simp add: rb_popFront_def h_def)
  have at: "real_at ?r k = real_at r (Suc k)" for k
  proof (cases "rb_head r + 1 < rb_cap r")
    case True
    then have "nat h + k = nat (rb_head r) + Suc k" using cells by (simp add: h_def)
    then show ?thesis by (simp add: real_at_def)
  next
    case False
    then have "rb_head r + 1 = rb_cap r" using cells n by linarith
    then have "nat (rb_head r) + Suc k = nat (rb_cap r) + k" "nat h = 0" using cells(4) by (simp_all add: h_def)
    moreover have "real_at ?r k = (nat h + k) mod nat (rb_cap r)" by (simp add: real_at_def)
    ultimately show ?thesis by (simp only: real_at_def add_0 mod_add_self1)
  qed
  have "nat (rb_size r) = Suc (nat (rb_size r - 1))" using size by simp
  then have "rb_list r = map (\<lambda>k. cells ! real_at r k) (0 # map Suc [0..<nat (rb_size r - 1)])"
    using cells by (simp add: rb_list_def map_Suc_upt upt_conv_Cons del: upt_Suc)
  then have "rb_list ?r = xs" using l cells by (simp add: rb_list_def at comp_def)
  moreover have "rb_ok ?r" using assms(1) size cells by (auto simp: rb_ok_def h_def)
  ultimately show ?thesis using pop by auto
qed

lemma forcePushBack_list:
  assumes "rb_ok r"
  shows "\<exists>r'. rb_forcePushBack d x r = Inr r' \<and> rb_ok r' \<and> rb_cap r' = rb_cap r \<and>
    rb_list r' = (if rb_size r < rb_cap r then rb_list r @ [x]
                  else if rb_list r = [] then [] else tl (rb_list r) @ [x])"
proof (cases "rb_size r < rb_cap r")
  case True
  then show ?thesis using pushBack_room [OF assms True, of x] by (auto simp: rb_forcePushBack_def)
next
  case False
  show ?thesis
  proof (cases "rb_list r")
    case Nil
    then have "rb_size r = 0" using length_rb_list [OF assms] by simp
    then show ?thesis using False Nil assms by (auto simp: rb_forcePushBack_def pushBack_full)
  next
    case (Cons y ys)
    then obtain r' where r': "rb_popFront d r = Inr (y, r')" "rb_ok r'" "rb_list r' = ys" "rb_cap r' = rb_cap r"
      using popFront_Cons [OF assms Cons] by blast
    have size: "1 \<le> rb_size r" using length_rb_list [OF assms] Cons by simp
    then have "rb_size r' < rb_cap r'"
      using length_rb_list [OF r'(2)] length_rb_list [OF assms] r' Cons False assms by (simp add: rb_ok_def)
    then show ?thesis
      using pushBack_room [OF r'(2), of x] r' Cons False size by (auto simp: rb_forcePushBack_def)
  qed
qed

lemma rb_clear_list: "rb_ok r \<Longrightarrow> rb_ok (rb_clear r) \<and> rb_list (rb_clear r) = [] \<and> rb_cap (rb_clear r) = rb_cap r"
  by (auto simp: rb_ok_def rb_clear_def rb_list_def split: option.splits)

text \<open>Reading: the front, the back, by index, and in order.\<close>

lemma rb_front_list: "rb_ok r \<Longrightarrow> rb_list r = x # xs \<Longrightarrow> rb_front r = Inr x"
  using unsafeGet_list [of r 0] by (simp add: rb_front_def)

lemma rb_back_list: "rb_ok r \<Longrightarrow> rb_list r \<noteq> [] \<Longrightarrow> rb_back r = Inr (last (rb_list r))"
proof -
  assume ok: "rb_ok r" and ne: "rb_list r \<noteq> []"
  then have "rb_size r - 1 = int (length (rb_list r) - 1)" "1 \<le> rb_size r"
    using length_rb_list [OF ok] by (cases "rb_list r"; simp)+
  then show ?thesis
    using unsafeGet_list [OF ok, of "length (rb_list r) - 1"] ne by (simp add: rb_back_def last_conv_nth)
qed

lemma rb_get_list:
  assumes "rb_ok r" and "- (2 ^ 31) \<le> i" and "i < 2 ^ 31"
  shows "rb_get r i = Inr (if 0 \<le> i \<and> nat i < length (rb_list r) then Some (rb_list r ! nat i) else None)"
proof (cases "0 \<le> i")
  case True
  then have u: "u32_of i = i" "u32_of (rb_size r) = rb_size r"
    using assms u32_of_small [of "rb_size r"] by (auto simp: u32_of_small rb_ok_def)
  show ?thesis
  proof (cases "i < rb_size r")
    case less: True
    then have "nat i < length (rb_list r)" using True length_rb_list [OF assms(1)] by simp
    then show ?thesis using unsafeGet_list [OF assms(1), of "nat i"] True less u by (simp add: rb_get_def)
  next
    case False
    then have "\<not> nat i < length (rb_list r)" using True length_rb_list [OF assms(1)] by simp
    then show ?thesis using False u by (simp add: rb_get_def)
  qed
next
  case False
  then have "2 ^ 31 \<le> u32_of i" using u32_of_negative [OF assms(2)] by simp
  moreover have "u32_of (rb_size r) = rb_size r" "rb_size r < 2 ^ 31"
    using assms(1) by (auto simp: rb_ok_def intro!: u32_of_small)
  ultimately show ?thesis using False by (simp add: rb_get_def)
qed

lemma rb_iterate_list:
  "rb_ok r \<Longrightarrow> k + n \<le> length (rb_list r) \<Longrightarrow> rb_iterate n r (int k) = Inr (take n (drop k (rb_list r)))"
proof (induction n arbitrary: k)
  case 0
  then show ?case by simp
next
  case (Suc n)
  then have "rb_iterate n r (int (Suc k)) = Inr (take n (drop (Suc k) (rb_list r)))" by (intro Suc.IH) simp_all
  then have "rb_iterate n r (int k + 1) = Inr (take n (drop (Suc k) (rb_list r)))" by (simp add: add.commute)
  moreover have "drop k (rb_list r) = rb_list r ! k # drop (Suc k) (rb_list r)"
    using Suc.prems by (simp add: Cons_nth_drop_Suc)
  ultimately show ?case using unsafeGet_list [OF Suc.prems(1), of k] Suc.prems by simp
qed

lemma rb_elements_list: "rb_ok r \<Longrightarrow> rb_elements_from r 0 = Inr (rb_list r)"
proof -
  assume ok: "rb_ok r"
  have "rb_wrapIndex r 0 = 0" by (simp add: rb_wrapIndex_def)
  then show ?thesis
    using rb_iterate_list [OF ok, of 0 "nat (rb_size r)"] length_rb_list [OF ok] by (simp add: rb_elements_from_def)
qed


section \<open>A queue open at both ends\<close>

text \<open>What a client relies on: a bounded sequence that also grows and shrinks at its front.\<close>

datatype 'e deque_op = PushBack 'e | PushFront 'e | PopFront | ForceBack 'e | ClearAll

datatype 'e deque_answer = Done bool | Popped 'e | Nothing

fun deque_step :: "nat \<Rightarrow> 'e \<Rightarrow> 'e deque_op \<Rightarrow> 'e list \<Rightarrow> 'e deque_answer \<times> 'e list" where
  "deque_step c d (PushBack x) xs = (if length xs < c then (Done True, xs @ [x]) else (Done False, xs))"
| "deque_step c d (PushFront x) xs = (if length xs < c then (Done True, x # xs) else (Done False, xs))"
| "deque_step c d PopFront xs = (case xs of [] \<Rightarrow> (Popped d, []) | y # ys \<Rightarrow> (Popped y, ys))"
| "deque_step c d (ForceBack x) xs =
     (Nothing, if length xs < c then xs @ [x] else if xs = [] then [] else tl xs @ [x])"
| "deque_step c d ClearAll xs = (Nothing, [])"

fun deque_run :: "nat \<Rightarrow> 'e \<Rightarrow> 'e deque_op list \<Rightarrow> 'e list \<Rightarrow> 'e deque_answer list \<times> 'e list" where
  "deque_run c d [] xs = ([], xs)"
| "deque_run c d (a # as) xs =
     (let (r, ys) = deque_step c d a xs; (rs, zs) = deque_run c d as ys in (r # rs, zs))"

lemma deque_step_bounded: "length xs \<le> c \<Longrightarrow> length (snd (deque_step c d a xs)) \<le> c"
  by (cases a) (auto split: list.splits)

text \<open>A run of the concrete operations, up to the first fault.\<close>

fun run_ops :: "('a \<Rightarrow> 's \<Rightarrow> ('r \<times> 's) res) \<Rightarrow> 'a list \<Rightarrow> 's \<Rightarrow> ('r list \<times> 's) res" where
  "run_ops step [] s = Inr ([], s)"
| "run_ops step (a # as) s =
     rbind (step a s) (\<lambda>(r, s). rbind (run_ops step as s) (\<lambda>(rs, s). Inr (r # rs, s)))"

locale bounded_deque = bounded_seq inv elems cap full push
  for inv :: "'s \<Rightarrow> bool" and elems :: "'s \<Rightarrow> 'e list" and cap :: "'s \<Rightarrow> nat" and full :: "'s \<Rightarrow> bool"
    and push :: "'e \<Rightarrow> 's \<Rightarrow> 's res" +
  fixes step :: "'e deque_op \<Rightarrow> 's \<Rightarrow> ('e deque_answer \<times> 's) res"
    and dflt :: 'e
  assumes step_ok: "inv s \<Longrightarrow>
    \<exists>s'. step a s = Inr (fst (deque_step (cap s) dflt a (elems s)), s') \<and> inv s' \<and> cap s' = cap s \<and>
      elems s' = snd (deque_step (cap s) dflt a (elems s))"
begin

lemma run_refines:
  "inv s \<Longrightarrow>
   \<exists>s'. run_ops step as s = Inr (fst (deque_run (cap s) dflt as (elems s)), s') \<and> inv s' \<and> cap s' = cap s \<and>
     elems s' = snd (deque_run (cap s) dflt as (elems s))"
proof (induction as arbitrary: s)
  case Nil
  then show ?case by simp
next
  case (Cons a as)
  obtain t where t: "step a s = Inr (fst (deque_step (cap s) dflt a (elems s)), t)" "inv t" "cap t = cap s"
      "elems t = snd (deque_step (cap s) dflt a (elems s))"
    using step_ok [OF Cons.prems] by blast
  from Cons.IH [OF t(2)] show ?case by (auto simp: t split: prod.splits)
qed

lemma run_bounded: "inv s \<Longrightarrow> length (snd (deque_run (cap s) dflt as (elems s))) \<le> cap s"
  using run_refines [of s as] cap_ok by (metis)

end

text \<open>The operations of the ring buffer as steps.\<close>

fun rb_step :: "'a \<Rightarrow> 'a deque_op \<Rightarrow> 'a ring \<Rightarrow> ('a deque_answer \<times> 'a ring) res" where
  "rb_step d (PushBack x) r = rbind (rb_pushBack x r) (\<lambda>(b, r). Inr (Done b, r))"
| "rb_step d (PushFront x) r = rbind (rb_pushBackwards x r) (\<lambda>(b, r). Inr (Done b, r))"
| "rb_step d PopFront r = rbind (rb_popFront d r) (\<lambda>(x, r). Inr (Popped x, r))"
| "rb_step d (ForceBack x) r = rbind (rb_forcePushBack d x r) (\<lambda>r. Inr (Nothing, r))"
| "rb_step d ClearAll r = Inr (Nothing, rb_clear r)"

definition rb_capacity :: "'a ring \<Rightarrow> nat" where
  "rb_capacity r = nat (rb_cap r)"

definition rb_full :: "'a ring \<Rightarrow> bool" where
  "rb_full r \<longleftrightarrow> rb_cap r \<le> rb_size r"

definition rb_push :: "'a \<Rightarrow> 'a ring \<Rightarrow> 'a ring res" where
  "rb_push x r = rbind (rb_pushBack x r) (\<lambda>(_, r). Inr r)"

lemma rb_room_iff: "rb_ok r \<Longrightarrow> length (rb_list r) < rb_capacity r \<longleftrightarrow> rb_size r < rb_cap r"
  using length_rb_list [of r] by (auto simp: rb_capacity_def)

lemma rb_step_ok:
  assumes "rb_ok r"
  shows "\<exists>r'. rb_step d a r = Inr (fst (deque_step (rb_capacity r) d a (rb_list r)), r') \<and> rb_ok r' \<and>
    rb_capacity r' = rb_capacity r \<and> rb_list r' = snd (deque_step (rb_capacity r) d a (rb_list r))"
proof (cases a)
  case (PushBack x)
  then show ?thesis
    using pushBack_room [OF assms, of x] pushBack_full [OF assms, of x] rb_room_iff [OF assms] assms
    by (cases "rb_size r < rb_cap r") (auto simp: rb_capacity_def)
next
  case (PushFront x)
  then show ?thesis
    using pushBackwards_room [OF assms, of x] pushBackwards_full [OF assms, of x] rb_room_iff [OF assms] assms
    by (cases "rb_size r < rb_cap r") (auto simp: rb_capacity_def)
next
  case PopFront
  then show ?thesis
    using popFront_empty [OF assms, of d] popFront_Cons [OF assms, of _ _ d] assms
    by (cases "rb_list r") (auto simp: rb_capacity_def)
next
  case (ForceBack x)
  then show ?thesis
    using forcePushBack_list [OF assms, of d x] rb_room_iff [OF assms] by (auto simp: rb_capacity_def)
next
  case ClearAll
  then show ?thesis using rb_clear_list [OF assms] by (auto simp: rb_capacity_def)
qed

interpretation rb: bounded_deque rb_ok rb_list rb_capacity rb_full rb_push "rb_step d" d for d
proof
  fix r :: "'a ring" and x
  assume ok: "rb_ok r"
  show "rb_full r \<longleftrightarrow> rb_capacity r \<le> length (rb_list r)"
    using rb_room_iff [OF ok] by (auto simp: rb_full_def)
  show "length (rb_list r) \<le> rb_capacity r"
    using length_rb_list [OF ok] ok by (simp add: rb_capacity_def rb_ok_def nat_le_iff [symmetric] le_nat_iff)
  show "\<exists>r'. rb_push x r = Inr r' \<and> rb_ok r' \<and> rb_list r' = rb_list r @ [x] \<and> rb_capacity r' = rb_capacity r"
    if "\<not> rb_full r"
    using pushBack_room [OF ok, of x] that by (auto simp: rb_full_def rb_push_def rb_capacity_def)
qed (rule rb_step_ok)

text \<open>
  C39: From an array of any positive length below 2^30 every sequence of operations of the ring buffer runs without
  a fault and answers what the same operations answer on a list bounded by that length, and reading the buffer
  in order gives that list.
\<close>

theorem ring_refines_deque:
  assumes "array \<noteq> []" and "int (length array) < 2 ^ 30"
  shows "\<exists>r. run_ops (rb_step d) ops (rb_of_array array) = Inr (fst (deque_run (length array) d ops []), r) \<and>
    rb_elements_from r 0 = Inr (snd (deque_run (length array) d ops [])) \<and>
    length (snd (deque_run (length array) d ops [])) \<le> length array"
proof -
  have ok: "rb_ok (rb_of_array array)" and nil: "rb_list (rb_of_array array) = []"
    using rb_ok_of_array [of array] assms by simp_all
  have c: "rb_capacity (rb_of_array array) = length array"
    using assms(1) by (cases array) (simp_all add: rb_capacity_def rb_of_array_def rb_setBuffer_def)
  show ?thesis
    using rb.run_refines [OF ok, of d ops] rb.run_bounded [OF ok, of d ops]
    by (auto simp: nil c rb_elements_list)
qed

theorem ring_refines_deque_witness:
  "\<exists>r. run_ops (rb_step 0) [PushBack 1, PushFront 2, PushBack 3, PushBack 4, ForceBack 5, PopFront]
        (rb_of_array [0, 0, 0 :: int]) =
      Inr ([Done True, Done True, Done True, Done False, Nothing, Popped 1], r) \<and>
    rb_elements_from r 0 = Inr [3, 5]"
  using ring_refines_deque [of "[0, 0, 0 :: int]" 0
    "[PushBack 1, PushFront 2, PushBack 3, PushBack 4, ForceBack 5, PopFront]"]
  by simp

text \<open>
  On a full buffer the forced push at the front counts one element more than the buffer holds: the last place
  and the first are then the same cell, and the last element is lost.
\<close>

lemma forcePushBackwards_full:
  "rbind (rb_pushBack 1 (rb_of_array [0, 0 :: int])) (\<lambda>(_, r).
   rbind (rb_pushBack 2 r) (\<lambda>(_, r).
   rbind (rb_forcePushBackwards 3 1 r) (\<lambda>r.
   rbind (rb_elements_from r 0) (\<lambda>xs. Inr (xs, rb_size r, rb_cap r, rb_ok r))))) =
   Inr ([3, 1, 3], 3, 2, False)"
  by code_simp

text \<open>With an offset above the first index it writes in front of the array.\<close>

lemma forcePushBackwards_offset:
  assumes "rb_ok r" and "rb_cells r \<noteq> None" and "0 < rb_head r" and "rb_head r < offset" and "offset < 2 ^ 30"
  shows "rb_forcePushBackwards x offset r = Inl OutOfBounds"
proof -
  have n: "0 < rb_cap r" using assms(1,2) by (auto simp: rb_ok_def)
  then obtain cells where "rb_cells r = Some cells" using rb_ok_cells [OF assms(1) n] by blast
  moreover have "s32_of (rb_head r - offset) = rb_head r - offset" using assms by (simp add: s32_of_def)
  ultimately show ?thesis
    using assms n by (simp add: rb_forcePushBackwards_def rb_unsafeSet_def cell_set_def rb_calcRealIdx_def)
qed

end
