(* ===== verification/Buffers.thy ===== *)
theory Buffers
  imports Ptr_Array "HOL-Library.Multiset"
begin

text \<open>
  \<open>sead/container/seadBuffer.h\<close>: an array with its size. Allocation answers with the cells of the new array
  or none. Binary search is the loop of the pointer array (\<open>Ptr_Array\<close>) on pointers to the cells; the sort
  is that of the standard library, a parameter with the law that it sorts.
\<close>

section \<open>The buffer\<close>

record 'a buffer =
  bf_size :: int
  bf_cells :: "'a list option"

definition bf_new :: "'a buffer" where
  "bf_new = \<lparr>bf_size = 0, bf_cells = None\<rparr>"

definition bf_of :: "int \<Rightarrow> 'a list option \<Rightarrow> 'a buffer" where
  "bf_of n p = \<lparr>bf_size = n, bf_cells = p\<rparr>"

definition bf_of_array :: "'a list \<Rightarrow> 'a buffer" where
  "bf_of_array array = bf_of (int (length array)) (Some array)"

text \<open>Assignment copies the size and the pointer: both buffers then have the same cells.\<close>

definition bf_assign :: "'a buffer \<Rightarrow> 'a buffer \<Rightarrow> 'a buffer" where
  "bf_assign other b = b\<lparr>bf_size := bf_size other, bf_cells := bf_cells other\<rparr>"

definition bf_tryAllocBuffer :: "int \<Rightarrow> 'a list option \<Rightarrow> 'a buffer \<Rightarrow> bool \<times> 'a buffer" where
  "bf_tryAllocBuffer n answer b =
     (if 0 < n
      then case answer of
             Some cells \<Rightarrow> (True, b\<lparr>bf_size := n, bf_cells := Some cells\<rparr>)
           | None \<Rightarrow> (False, b)
      else (False, b))"

definition bf_allocBuffer :: "int \<Rightarrow> 'a list option \<Rightarrow> 'a buffer \<Rightarrow> 'a buffer" where
  "bf_allocBuffer n answer b =
     (if 0 < n
      then case answer of Some cells \<Rightarrow> b\<lparr>bf_size := n, bf_cells := Some cells\<rparr> | None \<Rightarrow> b
      else b)"

definition bf_allocBufferAssert :: "int \<Rightarrow> 'a list option \<Rightarrow> 'a buffer \<Rightarrow> bool \<times> 'a buffer" where
  "bf_allocBufferAssert n answer b = bf_tryAllocBuffer n answer b"

definition bf_freeBuffer :: "'a buffer \<Rightarrow> 'a buffer" where
  "bf_freeBuffer b = (if bf_cells b \<noteq> None then b\<lparr>bf_cells := None, bf_size := 0\<rparr> else b)"

definition bf_setBuffer :: "int \<Rightarrow> 'a list option \<Rightarrow> 'a buffer \<Rightarrow> 'a buffer" where
  "bf_setBuffer n bufferptr b =
     (if n < 1 then b
      else case bufferptr of None \<Rightarrow> b | Some cells \<Rightarrow> b\<lparr>bf_size := n, bf_cells := Some cells\<rparr>)"

definition bf_isBufferReady :: "'a buffer \<Rightarrow> bool" where
  "bf_isBufferReady b \<longleftrightarrow> bf_cells b \<noteq> None"

definition bf_isIndexValid :: "'a buffer \<Rightarrow> int \<Rightarrow> bool" where
  "bf_isIndexValid b idx \<longleftrightarrow> u32_of idx < u32_of (bf_size b)"

section \<open>Reading and writing\<close>

text \<open>A cell, unchecked: \<open>operator()\<close> and \<open>unsafeGet\<close>.\<close>

definition bf_unsafeGet :: "'a buffer \<Rightarrow> int \<Rightarrow> 'a res" where
  "bf_unsafeGet b i =
     (case bf_cells b of
        None \<Rightarrow> Inl NullDeref
      | Some cells \<Rightarrow> if 0 \<le> i \<and> i < int (length cells) then Inr (cells ! nat i) else Inl OutOfBounds)"

definition bf_unsafeSet :: "'a buffer \<Rightarrow> int \<Rightarrow> 'a \<Rightarrow> 'a buffer res" where
  "bf_unsafeSet b i x =
     (case bf_cells b of
        None \<Rightarrow> Inl NullDeref
      | Some cells \<Rightarrow> if 0 \<le> i \<and> i < int (length cells) then Inr (b\<lparr>bf_cells := Some (cells[nat i := x])\<rparr>)
                      else Inl OutOfBounds)"

definition bf_index :: "'a buffer \<Rightarrow> int \<Rightarrow> 'a res" where
  "bf_index b idx = (if u32_of (bf_size b) \<le> u32_of idx then bf_unsafeGet b 0 else bf_unsafeGet b idx)"

definition bf_get :: "'a buffer \<Rightarrow> int \<Rightarrow> 'a option res" where
  "bf_get b idx =
     (if u32_of (bf_size b) \<le> u32_of idx then Inr None else rbind (bf_unsafeGet b idx) (\<lambda>x. Inr (Some x)))"

definition bf_front :: "'a buffer \<Rightarrow> 'a res" where
  "bf_front b = bf_unsafeGet b 0"

definition bf_back :: "'a buffer \<Rightarrow> 'a res" where
  "bf_back b = bf_unsafeGet b (bf_size b - 1)"

fun fill_loop :: "nat \<Rightarrow> int \<Rightarrow> 'a \<Rightarrow> 'a buffer \<Rightarrow> 'a buffer res" where
  "fill_loop 0 i v b = Inr b"
| "fill_loop (Suc n) i v b = rbind (bf_unsafeSet b i v) (fill_loop n (i + 1) v)"

definition bf_fill :: "'a \<Rightarrow> 'a buffer \<Rightarrow> 'a buffer res" where
  "bf_fill v b = fill_loop (nat (bf_size b)) 0 v b"

text \<open>Iterators: the index they start with, and the cells read on the way to the end.\<close>

definition bf_begin :: "'a buffer \<Rightarrow> int \<Rightarrow> int" where
  "bf_begin b idx = (if u32_of (bf_size b) < u32_of idx then bf_size b else idx)"

fun bf_walk :: "nat \<Rightarrow> int \<Rightarrow> int \<Rightarrow> 'a buffer \<Rightarrow> 'a list res" where
  "bf_walk 0 dir i b = Inr []"
| "bf_walk (Suc n) dir i b =
     rbind (bf_unsafeGet b i) (\<lambda>x. rbind (bf_walk n dir (i + dir) b) (\<lambda>xs. Inr (x # xs)))"

definition bf_forward :: "'a buffer \<Rightarrow> int \<Rightarrow> 'a list res" where
  "bf_forward b idx = (let i = bf_begin b idx in bf_walk (nat (bf_size b - i)) 1 i b)"

definition bf_reverse :: "'a buffer \<Rightarrow> 'a list res" where
  "bf_reverse b = bf_walk (nat (bf_size b)) (- 1) (bf_size b - 1) b"

section \<open>Searching and sorting\<close>

definition bf_compareT :: "'a::ord \<Rightarrow> 'a \<Rightarrow> int" where
  "bf_compareT lhs rhs = (if lhs < rhs then - 1 else if rhs < lhs then 1 else 0)"

text \<open>The three searches differ in how the comparison gets its second argument.\<close>

function bf_search_loop :: "('a \<Rightarrow> int) \<Rightarrow> 'a buffer \<Rightarrow> nat \<Rightarrow> nat \<Rightarrow> int res" where
  "bf_search_loop cmp bf a b =
     (if a < b
      then let m = (a + b) div 2
           in (case bf_unsafeGet bf (int m) of
                 Inl e \<Rightarrow> Inl e
               | Inr p \<Rightarrow>
                   let c = cmp p
                   in if c = 0 then Inr (int m)
                      else if c < 0 then bf_search_loop cmp bf (m + 1) b
                      else bf_search_loop cmp bf a m)
      else rbind (bf_unsafeGet bf (int a)) (\<lambda>p. if cmp p = 0 then Inr (int a) else Inr (- 1)))"
  by pat_completeness auto
termination
  by (relation "measure (\<lambda>(cmp, bf, a, b). b - a)") auto

declare bf_search_loop.simps [simp del]

definition bf_binarySearchC :: "('a \<Rightarrow> int) \<Rightarrow> 'a buffer \<Rightarrow> int res" where
  "bf_binarySearchC cmp b =
     (if bf_size b = 0 then Inr (- 1) else bf_search_loop cmp b 0 (nat (bf_size b - 1)))"

definition bf_binarySearch_cmp :: "('a \<Rightarrow> 'k \<Rightarrow> int) \<Rightarrow> 'k \<Rightarrow> 'a buffer \<Rightarrow> int res" where
  "bf_binarySearch_cmp cmp key b =
     (if bf_size b = 0 then Inr (- 1) else bf_search_loop (\<lambda>x. cmp x key) b 0 (nat (bf_size b - 1)))"

definition bf_binarySearch :: "'a::ord \<Rightarrow> 'a buffer \<Rightarrow> int res" where
  "bf_binarySearch item b = bf_binarySearch_cmp bf_compareT item b"

text \<open>The library sorts the cells from the first index up to, not including, the second.\<close>

definition bf_heapSort :: "('a list \<Rightarrow> 'a list) \<Rightarrow> int \<Rightarrow> int \<Rightarrow> 'a buffer \<Rightarrow> 'a buffer res" where
  "bf_heapSort sorter start_idx end_idx b =
     (if bf_size b \<le> start_idx \<or> bf_size b \<le> end_idx \<or> end_idx - start_idx < 1 then Inr b
      else case bf_cells b of
             None \<Rightarrow> Inl NullDeref
           | Some cells \<Rightarrow>
               if start_idx < 0 \<or> int (length cells) < end_idx then Inl OutOfBounds
               else let s = nat start_idx; e = nat end_idx
                    in Inr (b\<lparr>bf_cells := Some (take s cells @ sorter (take (e - s) (drop s cells)) @ drop e cells)\<rparr>))"

section \<open>The buffer as a list\<close>

definition bf_ok :: "'a buffer \<Rightarrow> bool" where
  "bf_ok b \<longleftrightarrow> 0 \<le> bf_size b \<and> bf_size b < 2 ^ 31 \<and>
     (case bf_cells b of None \<Rightarrow> bf_size b = 0 | Some cells \<Rightarrow> int (length cells) = bf_size b)"

definition bf_list :: "'a buffer \<Rightarrow> 'a list" where
  "bf_list b = (case bf_cells b of None \<Rightarrow> [] | Some cells \<Rightarrow> cells)"

lemma length_bf_list: "bf_ok b \<Longrightarrow> int (length (bf_list b)) = bf_size b"
  by (auto simp: bf_ok_def bf_list_def split: option.splits)

lemma bf_ok_of_array: "int (length a) < 2 ^ 31 \<Longrightarrow> bf_ok (bf_of_array a) \<and> bf_list (bf_of_array a) = a"
  by (simp add: bf_ok_def bf_list_def bf_of_array_def bf_of_def)

lemma bf_unsafeGet_list: "bf_ok b \<Longrightarrow> k < length (bf_list b) \<Longrightarrow> bf_unsafeGet b (int k) = Inr (bf_list b ! k)"
  by (auto simp: bf_unsafeGet_def bf_ok_def bf_list_def split: option.splits)

lemma bf_unsafeSet_list:
  "bf_ok b \<Longrightarrow> k < length (bf_list b) \<Longrightarrow>
   \<exists>b'. bf_unsafeSet b (int k) x = Inr b' \<and> bf_ok b' \<and> bf_list b' = (bf_list b)[k := x] \<and> bf_size b' = bf_size b"
  by (auto simp: bf_unsafeSet_def bf_ok_def bf_list_def split: option.splits)

lemma fill_loop_list:
  "bf_ok b \<Longrightarrow> k + n = length (bf_list b) \<Longrightarrow>
   \<exists>b'. fill_loop n (int k) v b = Inr b' \<and> bf_ok b' \<and> bf_list b' = take k (bf_list b) @ replicate n v"
proof (induction n arbitrary: k b)
  case 0
  then show ?case by simp
next
  case (Suc n)
  then obtain b' where b': "bf_unsafeSet b (int k) v = Inr b'" "bf_ok b'" "bf_list b' = (bf_list b)[k := v]"
    using bf_unsafeSet_list [of b k v] by auto
  have "Suc k + n = length (bf_list b')" using Suc.prems b' by simp
  from Suc.IH [OF b'(2) this] obtain b'' where
    "fill_loop n (int k + 1) v b' = Inr b''" "bf_ok b''" "bf_list b'' = take (Suc k) (bf_list b') @ replicate n v"
    by (auto simp: add.commute)
  moreover have "take (Suc k) (bf_list b') = take k (bf_list b) @ [v]"
    using Suc.prems b'(3) by (simp add: take_Suc_conv_app_nth)
  ultimately show ?case using b' by simp
qed

lemma bf_fill_list:
  assumes "bf_ok b"
  shows "\<exists>b'. bf_fill v b = Inr b' \<and> bf_list b' = replicate (length (bf_list b)) v"
proof -
  have "nat (bf_size b) = length (bf_list b)" using length_bf_list [OF assms] by simp
  then show ?thesis using fill_loop_list [OF assms, of 0 "length (bf_list b)" v] by (auto simp: bf_fill_def)
qed

lemma bf_walk_forward:
  "bf_ok b \<Longrightarrow> k + n \<le> length (bf_list b) \<Longrightarrow> bf_walk n 1 (int k) b = Inr (take n (drop k (bf_list b)))"
proof (induction n arbitrary: k)
  case 0
  then show ?case by simp
next
  case (Suc n)
  then have "bf_walk n 1 (int (Suc k)) b = Inr (take n (drop (Suc k) (bf_list b)))" by (intro Suc.IH) simp_all
  moreover have "drop k (bf_list b) = bf_list b ! k # drop (Suc k) (bf_list b)"
    using Suc.prems by (simp add: Cons_nth_drop_Suc)
  ultimately show ?case using bf_unsafeGet_list [OF Suc.prems(1), of k] Suc.prems by (simp add: add.commute)
qed

lemma bf_walk_backward:
  "bf_ok b \<Longrightarrow> n \<le> length (bf_list b) \<Longrightarrow> bf_walk n (- 1) (int n - 1) b = Inr (rev (take n (bf_list b)))"
proof (induction n)
  case 0
  then show ?case by simp
next
  case (Suc n)
  then show ?case using bf_unsafeGet_list [OF Suc.prems(1), of n] by (simp add: take_Suc_conv_app_nth)
qed

lemma bf_iterators:
  assumes "bf_ok b"
  shows "bf_forward b 0 = Inr (bf_list b)" and "bf_reverse b = Inr (rev (bf_list b))"
proof -
  have n: "nat (bf_size b) = length (bf_list b)" "bf_size b = int (length (bf_list b))"
    using length_bf_list [OF assms] by simp_all
  have "\<not> u32_of (bf_size b) < u32_of 0" by (simp add: u32_of_def not_less)
  then have "bf_begin b 0 = 0" by (simp add: bf_begin_def)
  then show "bf_forward b 0 = Inr (bf_list b)"
    using bf_walk_forward [OF assms, of 0 "length (bf_list b)"]
    by (simp add: bf_forward_def n)
  show "bf_reverse b = Inr (rev (bf_list b))"
    using bf_walk_backward [OF assms, of "length (bf_list b)"] by (simp add: bf_reverse_def n)
qed

section \<open>Binary search\<close>

text \<open>The pointer array of the cells, and the comparison on pointers.\<close>

definition as_ptrs :: "'a buffer \<Rightarrow> 'a ptr_array" where
  "as_ptrs b = \<lparr>mPtrNum = bf_size b, mPtrNumMax = bf_size b, mPtrs = map_option (map Some) (bf_cells b)\<rparr>"

lemma as_ptrs_ok: "bf_ok b \<Longrightarrow> pa_ok (as_ptrs b) \<and> pa_list (as_ptrs b) = map Some (bf_list b)"
  by (auto simp: bf_ok_def pa_ok_def as_ptrs_def pa_list_def bf_list_def split: option.splits)

lemma as_ptrs_get: "ptr_get (as_ptrs b) i = rbind (bf_unsafeGet b i) (\<lambda>x. Inr (Some x))"
  by (auto simp: ptr_get_def bf_unsafeGet_def as_ptrs_def split: option.splits)

lemma bf_search_ptrs:
  "bf_search_loop cmp bf a b = bsearch_loop (\<lambda>p. case p of None \<Rightarrow> 0 | Some x \<Rightarrow> cmp x) (as_ptrs bf) a b"
proof (induction cmp bf a b rule: bf_search_loop.induct)
  case (1 cmp bf a b)
  show ?case
  proof (cases "a < b")
    case False
    then show ?thesis
      by (subst bf_search_loop.simps, subst bsearch_loop.simps) (auto simp: as_ptrs_get rbind_def split: sum.splits)
  next
    case True
    note IH = 1 [OF True refl]
    show ?thesis
    proof (cases "bf_unsafeGet bf (int ((a + b) div 2))")
      case (Inl e)
      then show ?thesis
        using True by (subst bf_search_loop.simps, subst bsearch_loop.simps) (simp add: as_ptrs_get Let_def)
    next
      case (Inr x)
      then show ?thesis
        using True IH(1) [OF Inr refl] IH(2) [OF Inr refl]
        by (subst bf_search_loop.simps, subst bsearch_loop.simps) (simp add: as_ptrs_get Let_def)
    qed
  qed
qed

lemma bf_search_spec:
  assumes "bf_ok b" and "sorted_wrt (\<lambda>x y. (cmp y < 0 \<longrightarrow> cmp x < 0) \<and> (0 < cmp x \<longrightarrow> 0 < (cmp y :: int))) (bf_list b)"
  shows "\<exists>r. bf_binarySearchC cmp b = Inr r \<and>
    (if r = - 1 then \<forall>x \<in> set (bf_list b). cmp x \<noteq> 0
     else \<exists>k < length (bf_list b). r = int k \<and> cmp (bf_list b ! k) = 0)"
proof (cases "bf_list b = []")
  case True
  then have "bf_size b = 0" using length_bf_list [OF assms(1)] by simp
  then show ?thesis using True by (simp add: bf_binarySearchC_def)
next
  case False
  let ?c = "\<lambda>p. case p of None \<Rightarrow> 0 | Some x \<Rightarrow> cmp x"
  have n: "bf_size b \<noteq> 0" "nat (bf_size b - 1) = length (bf_list b) - 1"
    using False length_bf_list [OF assms(1)] by (cases "bf_list b"; simp)+
  have ptrs: "pa_ok (as_ptrs b)" "pa_list (as_ptrs b) = map Some (bf_list b)"
    using as_ptrs_ok [OF assms(1)] by simp_all
  have "cmp_sorted ?c (pa_list (as_ptrs b))"
    unfolding cmp_sorted_def ptrs(2) using assms(2) by (auto simp: sorted_wrt_iff_nth_less)
  moreover have "length (bf_list b) - 1 < length (pa_list (as_ptrs b))"
    "\<forall>k < length (pa_list (as_ptrs b)). ?c (pa_list (as_ptrs b) ! k) = 0 \<longrightarrow> 0 \<le> k \<and> k \<le> length (bf_list b) - 1"
    using False by (auto simp: ptrs(2))
  ultimately obtain r where r: "bsearch_loop ?c (as_ptrs b) 0 (length (bf_list b) - 1) = Inr r"
    "if r = - 1 then \<forall>k < length (pa_list (as_ptrs b)). ?c (pa_list (as_ptrs b) ! k) \<noteq> 0
     else \<exists>k < length (pa_list (as_ptrs b)). r = int k \<and> ?c (pa_list (as_ptrs b) ! k) = 0"
    using bsearch_loop_spec [OF ptrs(1), of ?c 0 "length (bf_list b) - 1"] by blast
  moreover have "bf_binarySearchC cmp b = Inr r"
    using r(1) n by (simp add: bf_binarySearchC_def bf_search_ptrs)
  ultimately show ?thesis by (auto simp: ptrs(2) in_set_conv_nth split: if_splits)
qed


text \<open>The search with the order of the type, on a sorted array.\<close>

lemma compareT_zero: "bf_compareT x y = 0 \<longleftrightarrow> x = y" for x :: "'a::linorder"
  by (auto simp: bf_compareT_def)

lemma sorted_compareT:
  "sorted xs \<Longrightarrow> sorted_wrt (\<lambda>x y. (bf_compareT y z < 0 \<longrightarrow> bf_compareT x z < 0) \<and> (0 < bf_compareT x z \<longrightarrow> 0 < bf_compareT y z)) xs"
  for z :: "'a::linorder"
  by (rule sorted_wrt_mono_rel [of xs "(\<le>)"]) (auto simp: bf_compareT_def)

lemma bf_binarySearch_C: "bf_binarySearch item b = bf_binarySearchC (\<lambda>x. bf_compareT x item) b"
  by (simp add: bf_binarySearch_def bf_binarySearch_cmp_def bf_binarySearchC_def)

text \<open>
  On an array in ascending order the search finds an index of the item exactly if the item is there, and
  answers -1 otherwise; it reads no cell outside the array, the empty one included.
\<close>

theorem buffer_search:
  fixes array :: "'a::linorder list"
  assumes "sorted array" and "int (length array) < 2 ^ 31"
  shows "\<exists>r. bf_binarySearch item (bf_of_array array) = Inr r \<and>
    (if item \<in> set array then 0 \<le> r \<and> nat r < length array \<and> array ! nat r = item else r = - 1)"
proof -
  have ok: "bf_ok (bf_of_array array)" "bf_list (bf_of_array array) = array"
    using bf_ok_of_array [of array] assms(2) by simp_all
  obtain r where r: "bf_binarySearchC (\<lambda>x. bf_compareT x item) (bf_of_array array) = Inr r"
    "if r = - 1 then \<forall>x \<in> set array. x \<noteq> item else \<exists>k < length array. r = int k \<and> array ! k = item"
    using bf_search_spec [OF ok(1), of "\<lambda>x. bf_compareT x item"] sorted_compareT [OF assms(1), of item]
    unfolding ok compareT_zero by blast
  then show ?thesis by (auto simp: bf_binarySearch_C split: if_splits)
qed

theorem buffer_search_witness:
  "(\<exists>r. bf_binarySearch 7 (bf_of_array [2, 3, 5, 7, 11 :: int]) = Inr r \<and> [2, 3, 5, 7, 11 :: int] ! nat r = 7) \<and>
   bf_binarySearch 4 (bf_of_array [2, 3, 5, 7, 11 :: int]) = Inr (- 1)"
proof -
  have "sorted [2, 3, 5, 7, 11 :: int]" by simp
  from buffer_search [OF this, of 7] buffer_search [OF this, of 4] show ?thesis by auto
qed

section \<open>Sorting\<close>

text \<open>
  The comment of \<open>heapSort\<close> promises the cells from the first to the second index, the second included; the
  code leaves the second out. With the last index of the buffer the last cell stays where it is, and no call
  moves it.
\<close>

definition sorts :: "('a::linorder list \<Rightarrow> 'a list) \<Rightarrow> bool" where
  "sorts f \<longleftrightarrow> (\<forall>xs. sorted (f xs) \<and> mset (f xs) = mset xs)"

lemma sorts_sort: "sorts f \<Longrightarrow> f xs = sort xs"
  unfolding sorts_def by (metis properties_for_sort)

theorem heapSort_leaves_last:
  fixes b :: "'a::linorder buffer"
  assumes "sorts sorter" and "bf_ok b" and "0 \<le> s"
  shows "\<exists>b'. bf_heapSort sorter s e b = Inr b' \<and> bf_ok b' \<and> length (bf_list b') = length (bf_list b) \<and>
    (bf_list b \<noteq> [] \<longrightarrow> last (bf_list b') = last (bf_list b)) \<and>
    (s = 0 \<and> e = bf_size b - 1 \<longrightarrow> bf_list b' = (if bf_list b = [] then [] else sort (butlast (bf_list b)) @ [last (bf_list b)]))"
proof (cases "bf_size b \<le> s \<or> bf_size b \<le> e \<or> e - s < 1")
  case True
  have "bf_list b = (if bf_list b = [] then [] else sort (butlast (bf_list b)) @ [last (bf_list b)])"
    if "s = 0 \<and> e = bf_size b - 1"
  proof (cases "bf_list b")
    case (Cons x xs)
    then have "bf_size b = 1" using True that length_bf_list [OF assms(2)] by auto
    then have "xs = []" using Cons length_bf_list [OF assms(2)] by simp
    then show ?thesis using Cons by simp
  qed simp
  then show ?thesis using True assms(2) by (auto simp: bf_heapSort_def)
next
  case False
  then obtain cells where cells: "bf_cells b = Some cells" "int (length cells) = bf_size b"
    using assms(2,3) by (auto simp: bf_ok_def split: option.splits)
  let ?s = "nat s" and ?e = "nat e"
  let ?out = "take ?s cells @ sorter (take (?e - ?s) (drop ?s cells)) @ drop ?e cells"
  have n: "?s < ?e" "?e < length cells" "\<not> int (length cells) < e" "\<not> s < 0"
    using False cells assms(3) by linarith+
  have len: "length (sorter xs) = length xs" for xs
    using assms(1) by (simp add: sorts_sort)
  have run: "bf_heapSort sorter s e b = Inr (b\<lparr>bf_cells := Some ?out\<rparr>)"
    using False cells n by (simp add: bf_heapSort_def Let_def)
  have "length ?out = length cells"
  proof -
    have "min l p = p" "min (l - p) (q - p) = q - p" "p + ((q - p) + (l - q)) = l" if "p < q" "q < l" for p q l :: nat
      using that by simp_all
    note m = this [OF n(1,2)]
    have "length ?out = ?s + ((?e - ?s) + (length cells - ?e))"
      unfolding length_append len length_take length_drop m(1,2) by (rule refl)
    also have "\<dots> = length cells" by (rule m(3))
    finally show ?thesis .
  qed
  moreover have "last ?out = last cells" using n by (simp add: last_drop)
  moreover have "?out = sort (butlast cells) @ [last cells]" if "s = 0" "e = bf_size b - 1"
  proof -
    have "?s = 0" "?e = length cells - 1" using that cells by simp_all
    moreover have "cells \<noteq> []" using n by auto
    then have "drop (length cells - 1) cells = [last cells]"
      by (metis append_butlast_last_id append_eq_conv_conj length_butlast)
    ultimately show ?thesis using assms(1) by (simp add: sorts_sort butlast_conv_take)
  qed
  moreover have "cells \<noteq> []" using n by auto
  ultimately show ?thesis
    using run cells assms(2) by (auto simp: bf_list_def bf_ok_def)
qed

theorem heapSort_leaves_last_witness:
  "\<exists>b. bf_heapSort sort 0 3 (bf_of_array [9, 4, 7, 1 :: int]) = Inr b \<and> bf_list b = [4, 7, 9, 1]"
proof -
  have "sorts (sort :: int list \<Rightarrow> int list)" by (simp add: sorts_def)
  moreover have "bf_ok (bf_of_array [9, 4, 7, 1 :: int])" using bf_ok_of_array [of "[9, 4, 7, 1 :: int]"] by simp
  ultimately obtain b where "bf_heapSort sort 0 3 (bf_of_array [9, 4, 7, 1 :: int]) = Inr b"
    "bf_list b = sort (butlast [9, 4, 7, 1]) @ [1]"
    using heapSort_leaves_last [of sort "bf_of_array [9, 4, 7, 1 :: int]" 0 3]
    by (auto simp: bf_of_array_def bf_of_def bf_list_def)
  then show ?thesis by simp
qed

end
