(* ===== verification/Bit_Flags.thy ===== *)
theory Bit_Flags
  imports Prelude
begin

unbundle bit_operations_syntax

text \<open>
  Flags in words: \<open>sead/prim/seadBitFlag.h\<close>, \<open>seadTypedBitFlag.h\<close>, \<open>seadLongBitFlag.h\<close>, \<open>seadTypedLongBitFlag.h\<close>. A flag is
  a word or an array of words; what it means is a set of bit numbers, and the operations refine those of
  sets. \<open>BitFlagUtil::countOnBit\<close> has no body in the sources: it is the parameter \<open>pop\<close>, whose law is its
  documentation (the number of bits).
\<close>

section \<open>A flag in one word\<close>

type_synonym 'w bit_flag = "'w word"

definition bflag_makeAllZero :: "'w::len bit_flag" where
  "bflag_makeAllZero = 0"

definition bflag_makeAllOne :: "'w::len bit_flag" where
  "bflag_makeAllOne = NOT 0"

definition bflag_set :: "'w::len word \<Rightarrow> 'w bit_flag \<Rightarrow> 'w bit_flag" where
  "bflag_set v mBits = mBits OR v"

definition bflag_reset :: "'w::len word \<Rightarrow> 'w bit_flag \<Rightarrow> 'w bit_flag" where
  "bflag_reset v mBits = mBits AND NOT v"

definition bflag_toggle :: "'w::len word \<Rightarrow> 'w bit_flag \<Rightarrow> 'w bit_flag" where
  "bflag_toggle v mBits = mBits XOR v"

definition bflag_change :: "'w::len word \<Rightarrow> bool \<Rightarrow> 'w bit_flag \<Rightarrow> 'w bit_flag" where
  "bflag_change v on mBits = (if on then bflag_set v mBits else bflag_reset v mBits)"

definition bflag_isZero :: "'w::len bit_flag \<Rightarrow> bool" where
  "bflag_isZero mBits \<longleftrightarrow> mBits = 0"

definition bflag_isOn :: "'w::len word \<Rightarrow> 'w bit_flag \<Rightarrow> bool" where
  "bflag_isOn v mBits \<longleftrightarrow> mBits AND v \<noteq> 0"

definition bflag_isOnAll :: "'w::len word \<Rightarrow> 'w bit_flag \<Rightarrow> bool" where
  "bflag_isOnAll v mBits \<longleftrightarrow> mBits AND v = v"

definition bflag_isOff :: "'w::len word \<Rightarrow> 'w bit_flag \<Rightarrow> bool" where
  "bflag_isOff v mBits \<longleftrightarrow> \<not> bflag_isOn v mBits"

definition bflag_testAndClear :: "'w::len word \<Rightarrow> 'w bit_flag \<Rightarrow> bool \<times> 'w bit_flag" where
  "bflag_testAndClear v mBits = (if \<not> bflag_isOn v mBits then (False, mBits) else (True, bflag_reset v mBits))"

text \<open>A shift by at least the width, or by a negative number, is undefined.\<close>

definition bflag_makeMask :: "int \<Rightarrow> 'w::len word option" where
  "bflag_makeMask n = (if 0 \<le> n \<and> n < int LENGTH('w) then Some (push_bit (nat n) 1) else None)"

definition bflag_setBit :: "int \<Rightarrow> 'w::len bit_flag \<Rightarrow> 'w bit_flag option" where
  "bflag_setBit n mBits = map_option (\<lambda>m. bflag_set m mBits) (bflag_makeMask n)"

definition bflag_resetBit :: "int \<Rightarrow> 'w::len bit_flag \<Rightarrow> 'w bit_flag option" where
  "bflag_resetBit n mBits = map_option (\<lambda>m. bflag_reset m mBits) (bflag_makeMask n)"

definition bflag_changeBit :: "int \<Rightarrow> bool \<Rightarrow> 'w::len bit_flag \<Rightarrow> 'w bit_flag option" where
  "bflag_changeBit n on mBits = map_option (\<lambda>m. bflag_change m on mBits) (bflag_makeMask n)"

definition bflag_toggleBit :: "int \<Rightarrow> 'w::len bit_flag \<Rightarrow> 'w bit_flag option" where
  "bflag_toggleBit n mBits = map_option (\<lambda>m. bflag_toggle m mBits) (bflag_makeMask n)"

definition bflag_isOnBit :: "int \<Rightarrow> 'w::len bit_flag \<Rightarrow> bool option" where
  "bflag_isOnBit n mBits = map_option (\<lambda>m. bflag_isOn m mBits) (bflag_makeMask n)"

definition bflag_isOffBit :: "int \<Rightarrow> 'w::len bit_flag \<Rightarrow> bool option" where
  "bflag_isOffBit n mBits = map_option (\<lambda>m. bflag_isOff m mBits) (bflag_makeMask n)"

definition bflag_testAndClearBit :: "int \<Rightarrow> 'w::len bit_flag \<Rightarrow> (bool \<times> 'w bit_flag) option" where
  "bflag_testAndClearBit n mBits = map_option (\<lambda>m. bflag_testAndClear m mBits) (bflag_makeMask n)"

text \<open>Counting, for 32 and 64 bits.\<close>

definition countContinuousOffBitFromRight :: "(u32 \<Rightarrow> nat) \<Rightarrow> u32 \<Rightarrow> nat" where
  "countContinuousOffBitFromRight pop x = pop ((x AND - x) - 1)"

definition countOnBit64 :: "(u32 \<Rightarrow> nat) \<Rightarrow> u64 \<Rightarrow> nat" where
  "countOnBit64 pop x = pop (ucast x) + pop (ucast (drop_bit 32 x))"

definition countContinuousOffBitFromRight64 :: "(u32 \<Rightarrow> nat) \<Rightarrow> u64 \<Rightarrow> nat" where
  "countContinuousOffBitFromRight64 pop x = countOnBit64 pop ((x AND - x) - 1)"

text \<open>
  The typed flag: as the flag above, but \<open>set\<close> and \<open>reset\<close> have an answer. \<open>toggle\<close> has a result type and no
  return statement: its answer is undefined (\<open>None\<close>).
\<close>

definition tflag_set :: "'w::len word \<Rightarrow> 'w bit_flag \<Rightarrow> bool \<times> 'w bit_flag" where
  "tflag_set msk mBits = (let mBits = mBits OR msk in (mBits AND msk = 0, mBits))"

definition tflag_reset :: "'w::len word \<Rightarrow> 'w bit_flag \<Rightarrow> bool \<times> 'w bit_flag" where
  "tflag_reset msk mBits = (let mBits = mBits AND NOT msk in (mBits AND msk \<noteq> 0, mBits))"

definition tflag_toggle :: "'w::len word \<Rightarrow> 'w bit_flag \<Rightarrow> 'w word option \<times> 'w bit_flag" where
  "tflag_toggle msk mBits = (None, mBits XOR msk)"

definition tflag_change :: "'w::len word \<Rightarrow> bool \<Rightarrow> 'w bit_flag \<Rightarrow> bool \<times> 'w bit_flag" where
  "tflag_change msk on mBits = (if on then tflag_set msk mBits else tflag_reset msk mBits)"

definition tflag_isAnyOn :: "'w::len word list \<Rightarrow> 'w bit_flag \<Rightarrow> bool" where
  "tflag_isAnyOn l mBits \<longleftrightarrow> mBits AND foldl (OR) 0 l \<noteq> 0"

definition tflag_testAndClear :: "'w::len word \<Rightarrow> 'w bit_flag \<Rightarrow> bool \<times> 'w bit_flag" where
  "tflag_testAndClear msk mBits =
     (if mBits AND msk = 0 then (False, mBits) else (True, snd (tflag_reset msk mBits)))"

section \<open>A flag in an array of words\<close>

type_synonym long_flag = "u32 list"

definition lflag_new :: "nat \<Rightarrow> long_flag" where
  "lflag_new n = replicate (n div 32) 0"

definition lflag_makeAllZero :: "long_flag \<Rightarrow> long_flag" where
  "lflag_makeAllZero mStorage = map (\<lambda>_. 0) mStorage"

definition lflag_makeAllOne :: "long_flag \<Rightarrow> long_flag" where
  "lflag_makeAllOne mStorage = map (\<lambda>_. NOT 0) mStorage"

definition lflag_getWord :: "int \<Rightarrow> long_flag \<Rightarrow> u32 res" where
  "lflag_getWord n mStorage =
     (let i = drop_bit 5 n
      in if 0 \<le> i \<and> i < int (length mStorage) then Inr (mStorage ! nat i) else Inl OutOfBounds)"

definition lflag_makeMask :: "int \<Rightarrow> u32" where
  "lflag_makeMask n = push_bit (nat (n mod 32)) 1"

text \<open>An operator on the word of a bit.\<close>

definition lflag_modify :: "(u32 \<Rightarrow> u32) \<Rightarrow> int \<Rightarrow> long_flag \<Rightarrow> long_flag res" where
  "lflag_modify f n mStorage =
     rbind (lflag_getWord n mStorage) (\<lambda>w. Inr (mStorage[nat (drop_bit 5 n) := f w]))"

definition lflag_setBit :: "int \<Rightarrow> long_flag \<Rightarrow> long_flag res" where
  "lflag_setBit n = lflag_modify (\<lambda>w. w OR lflag_makeMask n) n"

definition lflag_resetBit :: "int \<Rightarrow> long_flag \<Rightarrow> long_flag res" where
  "lflag_resetBit n = lflag_modify (\<lambda>w. w AND NOT (lflag_makeMask n)) n"

definition lflag_changeBit :: "int \<Rightarrow> bool \<Rightarrow> long_flag \<Rightarrow> long_flag res" where
  "lflag_changeBit n on = (if on then lflag_setBit n else lflag_resetBit n)"

definition lflag_toggleBit :: "int \<Rightarrow> long_flag \<Rightarrow> long_flag res" where
  "lflag_toggleBit n = lflag_modify (\<lambda>w. w XOR lflag_makeMask n) n"

definition lflag_isOnBit :: "int \<Rightarrow> long_flag \<Rightarrow> bool res" where
  "lflag_isOnBit n mStorage = rbind (lflag_getWord n mStorage) (\<lambda>w. Inr (w AND lflag_makeMask n \<noteq> 0))"

definition lflag_isOffBit :: "int \<Rightarrow> long_flag \<Rightarrow> bool res" where
  "lflag_isOffBit n mStorage = rbind (lflag_isOnBit n mStorage) (\<lambda>b. Inr (\<not> b))"

fun lflag_isZero :: "long_flag \<Rightarrow> bool" where
  "lflag_isZero [] = True"
| "lflag_isZero (word # words) = (if word \<noteq> 0 then False else lflag_isZero words)"

fun count_loop :: "nat \<Rightarrow> int \<Rightarrow> int \<Rightarrow> long_flag \<Rightarrow> int res" where
  "count_loop 0 i count mStorage = Inr count"
| "count_loop (Suc n) i count mStorage =
     rbind (lflag_isOnBit i mStorage) (\<lambda>b. count_loop n (i + 1) (if b then count + 1 else count) mStorage)"

definition lflag_countOnBit :: "long_flag \<Rightarrow> int res" where
  "lflag_countOnBit mStorage = count_loop (32 * length mStorage) 0 0 mStorage"

section \<open>A typed flag in words of 64 bits\<close>

text \<open>
  The msk is \<open>1 << b\<close> with a literal of 32 bits. A shift by 32 or more is undefined; by 31 it gives the
  smallest \<open>int\<close>, which keeps its sign when it is made a word of 64 bits.
\<close>

definition typed_mask64 :: "nat \<Rightarrow> u64 option" where
  "typed_mask64 b = (if b < 32 then Some (scast (push_bit b 1 :: s32)) else None)"

definition tlflag_modify :: "(u64 \<Rightarrow> u64 \<Rightarrow> u64) \<Rightarrow> nat \<Rightarrow> u64 list \<Rightarrow> u64 list option" where
  "tlflag_modify f n mStorage =
     (if n div 64 < length mStorage
      then map_option (\<lambda>m. mStorage[n div 64 := f (mStorage ! (n div 64)) m]) (typed_mask64 (n mod 64))
      else None)"

definition tlflag_setBit :: "nat \<Rightarrow> u64 list \<Rightarrow> u64 list option" where
  "tlflag_setBit = tlflag_modify (\<lambda>word m. word OR m)"

definition tlflag_resetBit :: "nat \<Rightarrow> u64 list \<Rightarrow> u64 list option" where
  "tlflag_resetBit = tlflag_modify (\<lambda>word m. word AND NOT m)"

definition tlflag_toggleBit :: "nat \<Rightarrow> u64 list \<Rightarrow> u64 list option" where
  "tlflag_toggleBit = tlflag_modify (\<lambda>word m. word XOR m)"

definition tlflag_isOnBit :: "nat \<Rightarrow> u64 list \<Rightarrow> bool option" where
  "tlflag_isOnBit n mStorage =
     (if n div 64 < length mStorage
      then map_option (\<lambda>m. mStorage ! (n div 64) AND m \<noteq> 0) (typed_mask64 (n mod 64))
      else None)"

section \<open>Sets of bits\<close>

definition bits_of :: "'w::len word \<Rightarrow> nat set" where
  "bits_of w = {i. bit w i}"

lemma bits_of_ops:
  "bits_of (bflag_set v w) = bits_of w \<union> bits_of v"
  "bits_of (bflag_reset v w) = bits_of w - bits_of v"
  "bits_of (bflag_toggle v w) = (bits_of w - bits_of v) \<union> (bits_of v - bits_of w)"
  by (auto simp: bits_of_def bflag_set_def bflag_reset_def bflag_toggle_def bit_simps dest: bit_imp_le_length)

lemma bits_of_zero: "w = 0 \<longleftrightarrow> bits_of w = {}"
  by (auto simp: bits_of_def intro: bit_word_eqI)

lemma bits_of_eq: "v = w \<longleftrightarrow> bits_of v = bits_of w"
  by (auto simp: bits_of_def intro!: bit_word_eqI)

lemma bits_of_and: "bits_of (v AND w) = bits_of v \<inter> bits_of w"
  by (auto simp: bits_of_def bit_simps)

lemma bflag_tests:
  "bflag_isOn v w \<longleftrightarrow> bits_of w \<inter> bits_of v \<noteq> {}"
  "bflag_isOnAll v w \<longleftrightarrow> bits_of v \<subseteq> bits_of w"
  "bflag_isOff v w \<longleftrightarrow> bits_of w \<inter> bits_of v = {}"
  "bflag_isZero w \<longleftrightarrow> bits_of w = {}"
  by (auto simp: bflag_isOn_def bflag_isOnAll_def bflag_isOff_def bflag_isZero_def bits_of_zero bits_of_eq [of _ v]
      bits_of_and)

lemma bflag_testAndClear_bits:
  "fst (bflag_testAndClear v w) \<longleftrightarrow> bits_of w \<inter> bits_of v \<noteq> {}"
  "bits_of (snd (bflag_testAndClear v w)) = bits_of w - bits_of v"
  by (auto simp: bflag_testAndClear_def bflag_tests bits_of_ops)

lemma bflag_makeMask_bits: "bflag_makeMask n = Some (m :: 'w::len word) \<Longrightarrow> bits_of m = {nat n}"
  by (auto simp: bflag_makeMask_def bits_of_def bit_simps nat_less_iff split: if_splits)

text \<open>The answer of the typed \<open>set\<close> and \<open>reset\<close> is the same whatever was set.\<close>

lemma tflag_answers:
  "msk \<noteq> 0 \<Longrightarrow> \<not> fst (tflag_set msk w)"
  "\<not> fst (tflag_reset msk w)"
proof -
  show "\<not> fst (tflag_set msk w)" if "msk \<noteq> 0"
  proof -
    have "(w OR msk) AND msk = msk" by (rule bit_word_eqI) (auto simp: bit_simps)
    then show ?thesis using that by (simp add: tflag_set_def Let_def)
  qed
  have "(w AND NOT msk) AND msk = 0" by (rule bit_word_eqI) (auto simp: bit_simps)
  then show "\<not> fst (tflag_reset msk w)" by (simp add: tflag_reset_def Let_def)
qed


section \<open>Counting\<close>

text \<open>The documentation of \<open>countOnBit\<close>: the number of bits.\<close>

definition popcount_law :: "(u32 \<Rightarrow> nat) \<Rightarrow> bool" where
  "popcount_law pop \<longleftrightarrow> (\<forall>x. pop x = card (bits_of x))"

definition lowest_bit :: "'w::len word \<Rightarrow> nat" where
  "lowest_bit x = (LEAST i. bit x i)"

lemma lowest_bit_props:
  assumes "x \<noteq> (0 :: 'w::len word)"
  shows "bit x (lowest_bit x)" and "\<And>i. i < lowest_bit x \<Longrightarrow> \<not> bit x i" and "lowest_bit x < LENGTH('w)"
proof -
  have "\<exists>i. bit x i" using assms by (auto simp: bits_of_zero bits_of_def)
  then show b: "bit x (lowest_bit x)" unfolding lowest_bit_def by (rule LeastI_ex)
  show "\<not> bit x i" if "i < lowest_bit x" for i using that not_less_Least unfolding lowest_bit_def by blast
  show "lowest_bit x < LENGTH('w)" using b bit_imp_le_length by blast
qed

text \<open>One less than a word clears its lowest bit and sets those below.\<close>

lemma pred_word:
  assumes "x \<noteq> (0 :: 'w::len word)"
  shows "x - 1 = (x AND NOT (2 ^ lowest_bit x)) OR mask (lowest_bit x)"
proof -
  let ?k = "lowest_bit x" and ?y = "x AND NOT (2 ^ lowest_bit x)"
  note k = lowest_bit_props [OF assms]
  have "?y + 2 ^ ?k = ?y OR 2 ^ ?k"
    by (rule disjunctive_add_eq_or) (rule bit_word_eqI, auto simp: bit_simps)
  also have "\<dots> = x" using k by (intro bit_word_eqI) (auto simp: bit_simps)
  finally have "x - 1 = ?y + (2 ^ ?k - 1)" by (simp add: algebra_simps)
  also have "\<dots> = ?y + mask ?k" by (simp add: mask_eq_exp_minus_1)
  also have "\<dots> = ?y OR mask ?k"
    using k(2) by (intro disjunctive_add_eq_or bit_word_eqI) (auto simp: bit_simps)
  finally show ?thesis .
qed

lemma lowest_bit_word: "x \<noteq> 0 \<Longrightarrow> x AND - x = 2 ^ lowest_bit x" for x :: "'w::len word"
proof -
  assume nz: "x \<noteq> 0"
  note k = lowest_bit_props [OF nz]
  have "- x = NOT (x - 1)" by (simp add: minus_eq_not_minus_1 [of x])
  then have "- x = NOT ((x AND NOT (2 ^ lowest_bit x)) OR mask (lowest_bit x))" by (simp only: pred_word [OF nz])
  then show ?thesis using k by (intro bit_word_eqI) (auto simp: bit_simps)
qed

lemma card_bits_mask: "n \<le> LENGTH('w) \<Longrightarrow> card (bits_of (mask n :: 'w::len word)) = n"
proof -
  assume "n \<le> LENGTH('w)"
  then have "bits_of (mask n :: 'w word) = {..<n}" by (auto simp: bits_of_def bit_simps)
  then show ?thesis by simp
qed

lemma below_lowest: "(x AND - x) - 1 = (if x = 0 then mask LENGTH('w) else mask (lowest_bit x))" for x :: "'w::len word"
  by (simp add: lowest_bit_word mask_eq_exp_minus_1)

lemma card_bits_lowest: "w \<noteq> 0 \<Longrightarrow> card (bits_of (mask (lowest_bit w) :: 'w word)) = lowest_bit w"
  for w :: "'w::len word"
  using lowest_bit_props(3) [of w] by (intro card_bits_mask) simp

text \<open>The word of 64 bits is counted by halves.\<close>

lemma countOnBit64_card: "popcount_law pop \<Longrightarrow> countOnBit64 pop x = card (bits_of x)"
proof -
  assume "popcount_law pop"
  then have c: "countOnBit64 pop x = card (bits_of (ucast x :: u32)) + card (bits_of (ucast (drop_bit 32 x) :: u32))"
    by (simp add: countOnBit64_def popcount_law_def)
  have lo: "bits_of (ucast x :: u32) = bits_of x \<inter> {..<32}"
    by (auto simp: bits_of_def bit_simps)
  have hi: "(+) 32 ` bits_of (ucast (drop_bit 32 x) :: u32) = bits_of x \<inter> {32..<64}"
  proof (intro set_eqI iffI)
    fix i assume "i \<in> bits_of x \<inter> {32..<64}"
    then have "i - 32 \<in> bits_of (ucast (drop_bit 32 x) :: u32)" "i = 32 + (i - 32)"
      by (auto simp: bits_of_def bit_simps)
    then show "i \<in> (+) 32 ` bits_of (ucast (drop_bit 32 x) :: u32)" by blast
  qed (auto simp: bits_of_def bit_simps)
  have "bits_of x = (bits_of x \<inter> {..<32}) \<union> (bits_of x \<inter> {32..<64})"
    by (auto simp: bits_of_def dest: bit_imp_le_length)
  then have "card (bits_of x) = card ((bits_of x \<inter> {..<32}) \<union> (bits_of x \<inter> {32..<64}))" by (rule arg_cong)
  also have "\<dots> = card (bits_of x \<inter> {..<32}) + card (bits_of x \<inter> {32..<64})"
    by (rule card_Un_disjoint) auto
  finally have "card (bits_of x) = card (bits_of x \<inter> {..<32}) + card (bits_of x \<inter> {32..<64})" .
  moreover have "card (bits_of x \<inter> {32..<64}) = card (bits_of (ucast (drop_bit 32 x) :: u32))"
    unfolding hi [symmetric] by (rule card_image) simp
  ultimately show ?thesis using c lo by simp
qed

text \<open>
  With the number of bits for \<open>countOnBit\<close>, \<open>countContinuousOffBitFromRight\<close> of 32 and of 64 bits is the number
  of the lowest bit that is set, and the width of the word when there is none.
\<close>

theorem trailing_zeros:
  assumes "popcount_law pop"
  shows "countContinuousOffBitFromRight pop x = (if x = 0 then 32 else lowest_bit x)"
    and "countContinuousOffBitFromRight64 pop y = (if y = 0 then 64 else lowest_bit y)"
proof -
  note m = card_bits_lowest
  show "countContinuousOffBitFromRight pop x = (if x = 0 then 32 else lowest_bit x)"
    using assms m [of x] card_bits_mask [of 32, where 'w = 32]
    by (simp add: countContinuousOffBitFromRight_def below_lowest popcount_law_def)
  show "countContinuousOffBitFromRight64 pop y = (if y = 0 then 64 else lowest_bit y)"
    using m [of y] card_bits_mask [of 64, where 'w = 64]
    by (simp add: countContinuousOffBitFromRight64_def below_lowest countOnBit64_card [OF assms])
qed

section \<open>The array of words as a set\<close>

definition lbits :: "long_flag \<Rightarrow> nat set" where
  "lbits ws = {i. i div 32 < length ws \<and> bit (ws ! (i div 32)) (i mod 32)}"

lemma lbits_new: "lbits (lflag_new n) = {}" and lbits_zero: "lbits (lflag_makeAllZero ws) = {}"
  by (auto simp: lbits_def lflag_new_def lflag_makeAllZero_def)

lemma lbits_one: "lbits (lflag_makeAllOne ws) = {..<32 * length ws}"
  by (auto simp: lbits_def lflag_makeAllOne_def bit_simps less_mult_imp_div_less mult.commute
      div_less_iff_less_mult)

lemma word_index: "drop_bit 5 (int n) = int (n div 32)"
  by (simp add: drop_bit_eq_div zdiv_int)

lemma word_index_less: "n < 32 * k \<Longrightarrow> n div 32 < k" for n k :: nat
  by (simp add: less_mult_imp_div_less mult.commute)

lemma getWord_in: "n < 32 * length ws \<Longrightarrow> lflag_getWord (int n) ws = Inr (ws ! (n div 32))"
  using word_index_less [of n "length ws"] by (simp add: lflag_getWord_def word_index)

lemma getWord_out: "n < 0 \<or> 32 * int (length ws) \<le> n \<Longrightarrow> lflag_getWord n ws = Inl OutOfBounds"
  by (auto simp: lflag_getWord_def drop_bit_eq_div Let_def pos_imp_zdiv_neg_iff div_less_iff_less_mult)

lemma makeMask_bit: "bit (lflag_makeMask (int n)) i \<longleftrightarrow> i = n mod 32"
  by (auto simp: lflag_makeMask_def bit_simps nat_mod_distrib simp flip: zmod_int)

lemma lflag_modify_in:
  assumes "n < 32 * length ws"
  shows "lflag_modify f (int n) ws = Inr (ws[n div 32 := f (ws ! (n div 32))])"
  by (simp only: lflag_modify_def getWord_in [OF assms] rbind_Inr word_index nat_int)

lemma lbits_update:
  assumes "n < 32 * length ws" and "\<And>i. i < 32 \<Longrightarrow> bit w i \<longleftrightarrow> (if i = n mod 32 then b else bit (ws ! (n div 32)) i)"
  shows "lbits (ws[n div 32 := w]) = (if b then insert n (lbits ws) else lbits ws - {n})"
proof -
  have l: "n div 32 < length ws" using assms(1) by (rule word_index_less)
  have "i \<in> lbits (ws[n div 32 := w]) \<longleftrightarrow> (if i = n then b else i \<in> lbits ws)" for i
  proof (cases "i div 32 = n div 32")
    case True
    have "i = n \<longleftrightarrow> i mod 32 = n mod 32" using True by (metis div_mult_mod_eq)
    moreover have "i \<in> lbits (ws[n div 32 := w]) \<longleftrightarrow> bit w (i mod 32)"
      unfolding lbits_def mem_Collect_eq True using l by simp
    moreover have "i \<in> lbits ws \<longleftrightarrow> bit (ws ! (n div 32)) (i mod 32)"
      unfolding lbits_def mem_Collect_eq True using l by simp
    ultimately show ?thesis using assms(2) [of "i mod 32"] by simp
  next
    case False
    then have "i \<noteq> n" by blast
    moreover have "ws[n div 32 := w] ! (i div 32) = ws ! (i div 32)" using False by simp
    ultimately show ?thesis by (simp only: lbits_def mem_Collect_eq length_list_update if_False)
  qed
  then show ?thesis by (intro set_eqI) simp
qed

lemma lflag_isOnBit_in: "n < 32 * length ws \<Longrightarrow> lflag_isOnBit (int n) ws = Inr (n \<in> lbits ws)"
proof -
  assume n: "n < 32 * length ws"
  then have l: "n div 32 < length ws" by (rule word_index_less)
  have "ws ! (n div 32) AND lflag_makeMask (int n) \<noteq> 0 \<longleftrightarrow> bit (ws ! (n div 32)) (n mod 32)"
    by (auto simp: bits_of_zero bits_of_def bit_simps makeMask_bit)
  then show ?thesis using l by (simp add: lflag_isOnBit_def getWord_in [OF n] lbits_def)
qed


text \<open>A bit that is changed, and every other word as it was.\<close>

datatype flag_op = SetBit int | ResetBit int | ToggleBit int | ChangeBit int bool

fun op_bit :: "flag_op \<Rightarrow> int" where
  "op_bit (SetBit n) = n"
| "op_bit (ResetBit n) = n"
| "op_bit (ToggleBit n) = n"
| "op_bit (ChangeBit n _) = n"

fun lflag_step :: "flag_op \<Rightarrow> long_flag \<Rightarrow> long_flag res" where
  "lflag_step (SetBit n) ws = lflag_setBit n ws"
| "lflag_step (ResetBit n) ws = lflag_resetBit n ws"
| "lflag_step (ToggleBit n) ws = lflag_toggleBit n ws"
| "lflag_step (ChangeBit n on) ws = lflag_changeBit n on ws"

fun set_step :: "flag_op \<Rightarrow> nat set \<Rightarrow> nat set" where
  "set_step (SetBit n) A = insert (nat n) A"
| "set_step (ResetBit n) A = A - {nat n}"
| "set_step (ToggleBit n) A = (if nat n \<in> A then A - {nat n} else insert (nat n) A)"
| "set_step (ChangeBit n on) A = (if on then insert (nat n) A else A - {nat n})"

lemma lflag_step_in:
  assumes "0 \<le> op_bit a" and "op_bit a < 32 * int (length ws)"
  shows "\<exists>ws'. lflag_step a ws = Inr ws' \<and> length ws' = length ws \<and> lbits ws' = set_step a (lbits ws)"
proof -
  define n where "n = nat (op_bit a)"
  have n: "op_bit a = int n" "n < 32 * length ws" using assms by (auto simp: n_def)
  note upd = lbits_update [OF n(2)] and run = lflag_modify_in [OF n(2)]
  let ?w = "ws ! (n div 32)" and ?m = "lflag_makeMask (int n)"
  have l: "n div 32 < length ws" using n(2) by (rule word_index_less)
  have member: "bit ?w (n mod 32) \<longleftrightarrow> n \<in> lbits ws" using l by (simp add: lbits_def)
  have set: "lbits (ws[n div 32 := ?w OR ?m]) = insert n (lbits ws)"
    by (subst upd [where b = True]) (auto simp: bit_simps makeMask_bit)
  have reset: "lbits (ws[n div 32 := ?w AND NOT ?m]) = lbits ws - {n}"
    by (subst upd [where b = False]) (auto simp: bit_simps makeMask_bit)
  have toggle: "lbits (ws[n div 32 := ?w XOR ?m]) = (if n \<in> lbits ws then lbits ws - {n} else insert n (lbits ws))"
    by (subst upd [where b = "n \<notin> lbits ws"]) (auto simp: bit_simps makeMask_bit member)
  show ?thesis
    using n(1)
    by (cases a) (auto simp: lflag_setBit_def lflag_resetBit_def lflag_toggleBit_def lflag_changeBit_def run
        set reset toggle)
qed

lemma lflag_step_out:
  "op_bit a < 0 \<or> 32 * int (length ws) \<le> op_bit a \<Longrightarrow> lflag_step a ws = Inl OutOfBounds"
  by (cases a) (auto simp: lflag_setBit_def lflag_resetBit_def lflag_toggleBit_def lflag_changeBit_def
      lflag_modify_def getWord_out)

lemma count_loop_card:
  "k + n = 32 * length ws \<Longrightarrow> count_loop n (int k) c ws = Inr (c + int (card (lbits ws \<inter> {k..<32 * length ws})))"
proof (induction n arbitrary: k c)
  case 0
  then show ?case by simp
next
  case (Suc n)
  then have k: "k < 32 * length ws" by simp
  have e: "{k..<32 * length ws} = insert k {Suc k..<32 * length ws}" using k by auto
  have "count_loop n (int k + 1) c' ws = Inr (c' + int (card (lbits ws \<inter> {Suc k..<32 * length ws})))" for c'
    using Suc.IH [of "Suc k" c'] Suc.prems by (simp add: add.commute)
  then show ?case by (simp add: lflag_isOnBit_in [OF k] e Int_insert_right)
qed

lemma lflag_countOnBit_card: "lflag_countOnBit ws = Inr (int (card (lbits ws)))"
proof -
  have "lbits ws \<inter> {0..<32 * length ws} = lbits ws"
    by (auto simp: lbits_def div_less_iff_less_mult mult.commute)
  then show ?thesis using count_loop_card [of 0 "32 * length ws" ws 0] by (simp add: lflag_countOnBit_def)
qed

lemma lflag_isZero_iff: "lflag_isZero ws \<longleftrightarrow> lbits ws = {}"
proof -
  have "lflag_isZero ws \<longleftrightarrow> (\<forall>w \<in> set ws. w = 0)" by (induction ws) auto
  also have "\<dots> \<longleftrightarrow> lbits ws = {}"
  proof (intro iffI)
    assume "\<forall>w \<in> set ws. w = 0"
    then have "ws ! j = 0" if "j < length ws" for j using that by simp
    then show "lbits ws = {}" by (auto simp: lbits_def)
  next
    assume none: "lbits ws = {}"
    show "\<forall>w \<in> set ws. w = 0"
    proof
      fix w assume "w \<in> set ws"
      then obtain j where j: "j < length ws" "w = ws ! j" by (auto simp: in_set_conv_nth)
      have "\<not> bit w i" if "i < 32" for i
      proof
        assume "bit w i"
        then have "32 * j + i \<in> lbits ws" using j that by (simp add: lbits_def)
        then show False using none by simp
      qed
      then show "w = 0" by (intro bit_word_eqI) simp
    qed
  qed
  finally show ?thesis .
qed

fun lflag_run :: "flag_op list \<Rightarrow> long_flag \<Rightarrow> long_flag res" where
  "lflag_run [] ws = Inr ws"
| "lflag_run (a # as) ws = rbind (lflag_step a ws) (lflag_run as)"

lemma lflag_run_in:
  "\<forall>a \<in> set as. 0 \<le> op_bit a \<and> op_bit a < 32 * int (length ws) \<Longrightarrow>
   \<exists>ws'. lflag_run as ws = Inr ws' \<and> length ws' = length ws \<and> lbits ws' = fold set_step as (lbits ws)"
proof (induction as arbitrary: ws)
  case (Cons a as)
  then obtain t where t: "lflag_step a ws = Inr t" "length t = length ws" "lbits t = set_step a (lbits ws)"
    using lflag_step_in [of a ws] by auto
  from Cons.IH [of t] Cons.prems show ?case by (simp add: t)
qed simp

text \<open>
  C40: A flag of n bits, n a multiple of 32, is a set of numbers below n: any sequence of operations on such bits
  runs without a fault and is the same sequence on the set; each bit then reads as it is in the set, the
  count is the size of the set, and the flag is zero exactly if the set is empty.
\<close>

theorem long_flag_refines_set:
  assumes "32 dvd n" and "\<forall>a \<in> set ops. 0 \<le> op_bit a \<and> op_bit a < int n" and "i < n"
  shows "\<exists>ws. lflag_run ops (lflag_new n) = Inr ws \<and>
    lflag_isOnBit (int i) ws = Inr (i \<in> fold set_step ops {}) \<and>
    lflag_countOnBit ws = Inr (int (card (fold set_step ops {}))) \<and>
    (lflag_isZero ws \<longleftrightarrow> fold set_step ops {} = {})"
proof -
  have l: "32 * length (lflag_new n) = n" using assms(1) by (simp add: lflag_new_def)
  then have "\<forall>a \<in> set ops. 0 \<le> op_bit a \<and> op_bit a < 32 * int (length (lflag_new n))"
    using assms(2) by (metis of_nat_mult of_nat_numeral)
  from lflag_run_in [OF this] obtain ws where ws: "lflag_run ops (lflag_new n) = Inr ws"
    "length ws = length (lflag_new n)" "lbits ws = fold set_step ops {}"
    by (auto simp: lbits_new)
  then have "i < 32 * length ws" using l assms(3) by simp
  then show ?thesis
    using ws by (auto simp: lflag_isOnBit_in lflag_countOnBit_card lflag_isZero_iff)
qed

theorem long_flag_refines_set_witness:
  "\<exists>ws. lflag_run [SetBit 3, SetBit 40, ToggleBit 40, ToggleBit 63, ChangeBit 3 False] (lflag_new 64) = Inr ws \<and>
    lflag_isOnBit 63 ws = Inr True \<and> lflag_countOnBit ws = Inr 1"
  using long_flag_refines_set [of 64 "[SetBit 3, SetBit 40, ToggleBit 40, ToggleBit 63, ChangeBit 3 False]" 63]
  by auto

text \<open>In words of 64 bits the bit 31 of a word takes the 32 bits above it along; those above have no mask.\<close>

lemma typed_flag_sign:
  "tlflag_setBit 31 [0] = Some [0xFFFFFFFF80000000]"
  "32 \<le> n mod 64 \<Longrightarrow> tlflag_setBit n ws = None"
proof -
  show "tlflag_setBit 31 [0] = Some [0xFFFFFFFF80000000]"
    by (simp add: tlflag_setBit_def tlflag_modify_def typed_mask64_def)
  show "32 \<le> n mod 64 \<Longrightarrow> tlflag_setBit n ws = None"
    by (simp add: tlflag_setBit_def tlflag_modify_def typed_mask64_def)
qed

end
