(* ===== verification/Byte_Order.thy ===== *)
theory Byte_Order
  imports Prelude
begin

unbundle bit_operations_syntax

text \<open>
  \<open>sead/prim/seadEndian.h\<close>: the order of bytes. The table of conversion functions and the order of the host
  are declared without a value in the sources; they are parameters, the law of the table is that its first
  functions change nothing and its second ones swap the bytes, so that twice is nothing.
\<close>

section \<open>Orders and marks\<close>

datatype endian = cBig | cLittle

fun endian_index :: "endian \<Rightarrow> nat" where
  "endian_index cBig = 0"
| "endian_index cLittle = 1"

text \<open>The two bytes of a mark as they lie in the memory of the host.\<close>

definition mark_bytes :: "endian \<Rightarrow> u16 \<Rightarrow> u8 \<times> u8" where
  "mark_bytes host bom =
     (case host of cLittle \<Rightarrow> (ucast bom, ucast (drop_bit 8 bom)) | cBig \<Rightarrow> (ucast (drop_bit 8 bom), ucast bom))"

definition markToEndian :: "endian \<Rightarrow> u16 \<Rightarrow> endian" where
  "markToEndian host bom =
     (case mark_bytes host bom of
        (b0, b1) \<Rightarrow> if b0 = 0xff \<and> b1 = 0xfe then cLittle
                    else if b0 = 0xfe \<and> b1 = 0xff then cBig
                    else cLittle)"

definition endianToMark :: "endian \<Rightarrow> u16" where
  "endianToMark e = (if e = cBig then 0xFEFF else 0xFFFE)"

section \<open>Conversions\<close>

record conv_table =
  conv8 :: "(u8 \<Rightarrow> u8) list"
  conv16 :: "(u16 \<Rightarrow> u16) list"
  conv32 :: "(u32 \<Rightarrow> u32) list"
  conv64 :: "(u64 \<Rightarrow> u64) list"

definition conv_index :: "endian \<Rightarrow> endian \<Rightarrow> nat" where
  "conv_index src dst = endian_index src XOR endian_index dst"

definition swapU16 :: "conv_table \<Rightarrow> u16 \<Rightarrow> u16" where
  "swapU16 t v = (conv16 t ! 1) v"

definition swapU32 :: "conv_table \<Rightarrow> u32 \<Rightarrow> u32" where
  "swapU32 t v = (conv32 t ! 1) v"

definition swapU64 :: "conv_table \<Rightarrow> u64 \<Rightarrow> u64" where
  "swapU64 t v = (conv64 t ! 1) v"

definition convertU8 :: "conv_table \<Rightarrow> endian \<Rightarrow> endian \<Rightarrow> u8 \<Rightarrow> u8" where
  "convertU8 t src dst v = (conv8 t ! conv_index src dst) v"

definition convertU16 :: "conv_table \<Rightarrow> endian \<Rightarrow> endian \<Rightarrow> u16 \<Rightarrow> u16" where
  "convertU16 t src dst v = (conv16 t ! conv_index src dst) v"

definition convertU32 :: "conv_table \<Rightarrow> endian \<Rightarrow> endian \<Rightarrow> u32 \<Rightarrow> u32" where
  "convertU32 t src dst v = (conv32 t ! conv_index src dst) v"

definition convertU64 :: "conv_table \<Rightarrow> endian \<Rightarrow> endian \<Rightarrow> u64 \<Rightarrow> u64" where
  "convertU64 t src dst v = (conv64 t ! conv_index src dst) v"

definition toHostU8 :: "conv_table \<Rightarrow> endian \<Rightarrow> endian \<Rightarrow> u8 \<Rightarrow> u8" where
  "toHostU8 t host src v = convertU8 t src host v"

definition toHostU16 :: "conv_table \<Rightarrow> endian \<Rightarrow> endian \<Rightarrow> u16 \<Rightarrow> u16" where
  "toHostU16 t host src v = convertU16 t src host v"

definition toHostU32 :: "conv_table \<Rightarrow> endian \<Rightarrow> endian \<Rightarrow> u32 \<Rightarrow> u32" where
  "toHostU32 t host src v = convertU32 t src host v"

definition toHostU64 :: "conv_table \<Rightarrow> endian \<Rightarrow> endian \<Rightarrow> u64 \<Rightarrow> u64" where
  "toHostU64 t host src v = convertU64 t src host v"

definition fromHostU8 :: "conv_table \<Rightarrow> endian \<Rightarrow> endian \<Rightarrow> u8 \<Rightarrow> u8" where
  "fromHostU8 t host dst v = convertU8 t host dst v"

definition fromHostU16 :: "conv_table \<Rightarrow> endian \<Rightarrow> endian \<Rightarrow> u16 \<Rightarrow> u16" where
  "fromHostU16 t host dst v = convertU16 t host dst v"

definition fromHostU32 :: "conv_table \<Rightarrow> endian \<Rightarrow> endian \<Rightarrow> u32 \<Rightarrow> u32" where
  "fromHostU32 t host dst v = convertU32 t host dst v"

definition fromHostU64 :: "conv_table \<Rightarrow> endian \<Rightarrow> endian \<Rightarrow> u64 \<Rightarrow> u64" where
  "fromHostU64 t host dst v = convertU64 t host dst v"

text \<open>The signed ones convert the value to the unsigned type of the function they call, and back.\<close>

definition toHostS16 :: "conv_table \<Rightarrow> endian \<Rightarrow> endian \<Rightarrow> s16 \<Rightarrow> s16" where
  "toHostS16 t host src v = toHostU16 t host src v"

definition toHostS32 :: "conv_table \<Rightarrow> endian \<Rightarrow> endian \<Rightarrow> s32 \<Rightarrow> s32" where
  "toHostS32 t host src v = toHostU32 t host src v"

definition toHostS64 :: "conv_table \<Rightarrow> endian \<Rightarrow> endian \<Rightarrow> s64 \<Rightarrow> s64" where
  "toHostS64 t host src v = toHostU64 t host src v"

definition fromHostS16 :: "conv_table \<Rightarrow> endian \<Rightarrow> endian \<Rightarrow> s16 \<Rightarrow> s16" where
  "fromHostS16 t host dst v = ucast (fromHostU8 t host dst (ucast v))"

definition fromHostS32 :: "conv_table \<Rightarrow> endian \<Rightarrow> endian \<Rightarrow> s32 \<Rightarrow> s32" where
  "fromHostS32 t host dst v = ucast (fromHostU8 t host dst (ucast v))"

definition fromHostS64 :: "conv_table \<Rightarrow> endian \<Rightarrow> endian \<Rightarrow> s64 \<Rightarrow> s64" where
  "fromHostS64 t host dst v = ucast (fromHostU8 t host dst (ucast v))"

section \<open>Results\<close>

lemma conv_index_cases: "conv_index src dst = (if src = dst then 0 else 1)"
  by (cases src; cases dst; simp add: conv_index_def)

text \<open>The mark of an order, read back, is that order only on a host that puts the high byte first.\<close>

lemma mark_roundtrip: "markToEndian host (endianToMark e) = e \<longleftrightarrow> host = cBig"
  by (cases host; cases e; simp add: markToEndian_def endianToMark_def mark_bytes_def)

text \<open>What the table holds: nothing to do, and a swap of bytes, which is its own inverse.\<close>

definition swap_pair :: "('w \<Rightarrow> 'w) list \<Rightarrow> bool" where
  "swap_pair fs \<longleftrightarrow> length fs = 2 \<and> (\<forall>v. (fs ! 0) v = v \<and> (fs ! 1) ((fs ! 1) v) = v)"

definition table_law :: "conv_table \<Rightarrow> bool" where
  "table_law t \<longleftrightarrow> swap_pair (conv8 t) \<and> (\<forall>v. (conv8 t ! 1) v = v) \<and> swap_pair (conv16 t) \<and>
     swap_pair (conv32 t) \<and> swap_pair (conv64 t)"

text \<open>
  With a table that swaps bytes, what goes out in an order and comes back from it is the same value for the
  unsigned types, whatever the order and the host; for the signed types of more than a byte it is not: every
  value is cut to its low byte on the way out, in the order of the host too.
\<close>

theorem byte_order_roundtrip:
  assumes "table_law t"
  shows "toHostU8 t host e (fromHostU8 t host e v8) = v8 \<and>
         toHostU16 t host e (fromHostU16 t host e v16) = v16 \<and>
         toHostU32 t host e (fromHostU32 t host e v32) = v32 \<and>
         toHostU64 t host e (fromHostU64 t host e v64) = v64 \<and>
         fromHostS16 t host e v16 = v16 AND 0xFF \<and>
         fromHostS32 t host e v32 = v32 AND 0xFF \<and>
         fromHostS64 t host e v64 = v64 AND 0xFF"
proof -
  have byte: "fromHostU8 t host e v = v" for v
    using assms by (simp add: fromHostU8_def convertU8_def conv_index_cases table_law_def swap_pair_def)
  have low: "ucast (ucast v :: u8) = v AND 0xFF" if "8 \<le> LENGTH('w)" for v :: "'w::len word"
  proof (rule bit_word_eqI)
    fix i assume "i < LENGTH('w)"
    have ff: "(0xFF :: 'w word) = mask 8" by (simp add: mask_eq_exp_minus_1)
    show "bit (ucast (ucast v :: u8) :: 'w word) i \<longleftrightarrow> bit (v AND 0xFF) i"
      unfolding ff using that by (auto simp: bit_simps)
  qed
  show ?thesis
    using assms
    by (simp add: fromHostS16_def fromHostS32_def fromHostS64_def byte low toHostU8_def toHostU16_def toHostU32_def
        toHostU64_def fromHostU16_def fromHostU32_def fromHostU64_def convertU8_def convertU16_def
        convertU32_def convertU64_def conv_index_cases table_law_def swap_pair_def)
qed

theorem byte_order_roundtrip_witness:
  "let t = \<lparr>conv8 = [\<lambda>v. v, \<lambda>v. v], conv16 = [\<lambda>v. v, word_rotr 8], conv32 = [\<lambda>v. v, \<lambda>v. v], conv64 = [\<lambda>v. v, \<lambda>v. v]\<rparr>
   in toHostU16 t cLittle cBig (fromHostU16 t cLittle cBig 0x1234) = 0x1234 \<and>
      fromHostS32 t cLittle cLittle (- 1) = 0xFF"
proof -
  let ?t = "\<lparr>conv8 = [\<lambda>v. v, \<lambda>v. v], conv16 = [\<lambda>v. v, word_rotr 8], conv32 = [\<lambda>v. v, \<lambda>v. v], conv64 = [\<lambda>v. v, \<lambda>v. v]\<rparr>"
  have "word_rotr 8 (word_rotr 8 v) = v" for v :: u16
    by (rule bit_word_eqI) (simp add: bit_word_rotr_iff mod_simps)
  then have "table_law ?t" by (simp add: table_law_def swap_pair_def)
  from byte_order_roundtrip [OF this, of cLittle cBig 0 "0x1234" 0 0]
    byte_order_roundtrip [OF this, of cLittle cLittle 0 0 "- 1" 0]
  show ?thesis by simp
qed

end
