(* ===== verification/Debug_Draw.thy ===== *)
theory Debug_Draw
  imports Stage_Puppets
begin

text \<open>
  What the mod draws (\<open>main.cpp\<close>, \<open>drawDebugMode\<close>, \<open>drawMainHook\<close>): with the debug mode on, a page of texts about
  the client and two spheres at the shown puppet. A drawing is the list of calls to the text writer and the
  renderer; what the texts say comes from the state of the frame. The rest of the scene, and what
  the engine computes from it, is the input \<open>draw_view\<close>.
\<close>

section \<open>The calls\<close>

datatype draw_arg = Num int | Real f32 | Txt string

datatype draw_call =
    DrawBackground
  | BeginDraw
  | CursorFromTopLeft f32 f32
  | ScaleFromFontHeight f32
  | Printf string "draw_arg list"
  | SetDrawContext
  | SetCamera
  | SetProjection
  | BeginShapes
  | ModelMatrixIdent
  | Sphere4x8 Vector3f f32 "f32 list"
  | EndShapes
  | EndDraw

definition vec_args :: "Vector3f \<Rightarrow> draw_arg list" where
  "vec_args v = [Real (v_x v), Real (v_y v), Real (v_z v)]"

definition quat_args :: "Quatf \<Rightarrow> draw_arg list" where
  "quat_args q = [Real (q_x q), Real (q_y q), Real (q_z q), Real (q_w q)]"

definition BTOC :: "bool \<Rightarrow> string" where
  "BTOC b = (if b then ''True'' else ''False'')"

text \<open>
  The scene: whether it is a stage (then with the stage's name and scenario), and its player. The
  page about a capture: no hack keeper, a capture with its animation, name, pose and computed rotation, or the
  player's own two animations and the cap.
\<close>

datatype hack_page = Hacking string string Quatf Quatf | Own_body string string cap_view

record scene_view =
  sv_stage :: "(string \<times> s32) option"
  sv_player :: "Vector3f option"
  sv_hack :: "hack_page option"

record draw_view =
  dv_height :: s32
  dv_fps :: s32
  dv_clientHeap :: "(nat \<times> nat) option"
  dv_modeHeap :: "nat \<times> nat"
  dv_scene :: "scene_view option"
  dv_frontDir :: "border_actor \<Rightarrow> Vector3f"
  dv_rpy :: "Quatf \<Rightarrow> Vector3f"
  dv_action :: "nat \<Rightarrow> string"
  dv_trans :: "nat \<Rightarrow> Vector3f"

text \<open>Parts of a drawing that may fault, one after the other.\<close>

fun draw_seq :: "draw_call list res list \<Rightarrow> draw_call list res" where
  "draw_seq [] = Inr []"
| "draw_seq (r # rs) = rbind r (\<lambda>cs. rbind (draw_seq rs) (\<lambda>ds. Inr (cs @ ds)))"

definition null_check :: "'a option \<Rightarrow> 'a res" where
  "null_check p = (case p of None \<Rightarrow> Inl NullDeref | Some x \<Rightarrow> Inr x)"

section \<open>The head of the page\<close>

definition kilo :: "nat \<Rightarrow> f32" where
  "kilo n = f32_mul (f32_round (of_nat n)) (f32_lit (1 / 1000))"

definition draw_top :: "draw_view \<Rightarrow> draw_call list" where
  "draw_top v =
     [DrawBackground, BeginDraw, CursorFromTopLeft (Fin 10) (Fin 10), ScaleFromFontHeight (Fin 20),
      Printf ''FPS: %d'' [Num (sint (dv_fps v))],
      CursorFromTopLeft (Fin 10)
        (f32_add (f32_round (of_int (sgn (sint (dv_height v)) * (\<bar>sint (dv_height v)\<bar> div 3)))) (Fin 30))]"

definition draw_heaps :: "draw_view \<Rightarrow> draw_call list" where
  "draw_heaps v =
     (case dv_clientHeap v of
        None \<Rightarrow> []
      | Some (free, whole) \<Rightarrow>
          [Printf ''Client Heap Free Size: %f/%f'' [Real (kilo free), Real (kilo whole)],
           Printf ''Gamemode Heap Free Size: %f/%f''
             [Real (kilo (fst (dv_modeHeap v))), Real (kilo (snd (dv_modeHeap v)))]])"

text \<open>The player and the border: the scene is read before any test of it, the border without one.\<close>

definition draw_places :: "draw_view \<Rightarrow> mode_world \<Rightarrow> draw_call list res" where
  "draw_places v w =
     rbind (null_check (dv_scene v)) (\<lambda>scene.
     rbind (null_check (sv_player scene)) (\<lambda>p.
     rbind (null_check (mw_border w)) (\<lambda>b.
       Inr [Printf ''Player pos: %.2f, %.2f, %.2f'' (vec_args p),
            Printf ''Border: P(%.2f, %.2f, %.2f), Dir(%.2f, %.2f, %.2f), RPY(%.2f, %.2f, %.2f)''
              (vec_args (ba_trans b) @ vec_args (dv_frontDir v b) @ vec_args (dv_rpy v (ba_quat b)))])))"

text \<open>The current scene is taken for a stage without a test.\<close>

definition draw_stage :: "draw_view \<Rightarrow> draw_call list res" where
  "draw_stage v =
     rbind (null_check (dv_scene v)) (\<lambda>scene.
       case sv_stage scene of
         None \<Rightarrow> Inl WrongClass
       | Some (stage, scenario) \<Rightarrow> Inr [Printf ''Stage Info: %s, %d'' [Txt stage, Num (sint scenario)]])"

definition draw_hns :: "mode_manager \<Rightarrow> draw_call list res" where
  "draw_hns s =
     (if isMode HIDEANDSEEK s
      then rbind (hns_info_of s) (\<lambda>i.
             Inr [Printf ''H&S IsIt: %d'' [Num (if mIsPlayerIt i then 1 else 0)],
                  Printf ''H&S Hiding Time Seconds: %d'' [Num (sint (mSeconds (mHidingTime i)))]])
      else Inr [])"

text \<open>\<open>value()\<close> of an empty optional ends the program.\<close>

definition flag_trans :: "FlagTeam \<Rightarrow> flag_world \<Rightarrow> Vector3f res" where
  "flag_trans t w = rbind (getFlagActorForTeam t w) (\<lambda>f. rbind (null_check f) (\<lambda>f. Inr (fa_trans f)))"

definition draw_ctf :: "mode_world \<Rightarrow> draw_call list res" where
  "draw_ctf w =
     (if isModeAndActive CAPTURE_THE_FLAG (mw_manager w)
      then rbind (ctf_info_of (mw_manager w)) (\<lambda>i.
           rbind (flag_trans RED (mw_flags w)) (\<lambda>redPos.
           rbind (flag_trans BLUE (mw_flags w)) (\<lambda>bluePos.
             Inr [Printf ''CTF HeldFlag: %d'' [Num (sint (mHeldFlag i))],
                  Printf ''CTF Received Held Flag Team: %d'' [Num (sint (latestReceivedFlagTeam (mw_flags w)))],
                  Printf ''CTF Received Held Flag Pos: (%.2f, %.2f, %.2f)''
                    (vec_args (latestReceivedPosition (mw_flags w))),
                  Printf ''CTF Red Pos: (%.2f, %.2f, %.2f)'' (vec_args redPos),
                  Printf ''CTF Blue Pos: (%.2f, %.2f, %.2f)'' (vec_args bluePos),
                  Printf ''CTF Time: %02d:%02d''
                    [Num (sint (mMinutes (mRoundTime i))), Num (sint (mSeconds (mRoundTime i)))],
                  Printf ''Flag Stage: %s'' [Txt (latestReceivedStage (mw_flags w))]])))
      else Inr [])"

definition draw_client :: "client \<Rightarrow> draw_call list" where
  "draw_client c =
     (let s = cl_sock c
      in [Printf ''Client Socket Connection Status: %s'' [Txt (getStateChar s)],
          Printf ''Connected Players: %d/%d''
            [Num (sint (mConnectCount (cl_table c) + 1)), Num (sint (getMaxPlayerCount (cl_table c)))],
          Printf ''Send Queue Count: %d/%d'' [Num (int (length (mSendQueue s))), Num (int maxBufSize)],
          Printf ''Recv Queue Count: %d/%d'' [Num (int (length (mRecvQueue s))), Num (int maxBufSize)]])"

section \<open>The three pages\<close>

definition NL :: string where
  "NL = [CHR 0x0A]"

text \<open>The puppet a page is about: the debug puppet if there is one, or that of the chosen index.\<close>

definition shown_puppet :: "'g game \<Rightarrow> nat option res" where
  "shown_puppet g =
     rbind (getPuppet (sint (debugPuppetIndex g)) (Some (gm_holder g))) (\<lambda>curPuppet.
       Inr (case getDebugPuppet (gm_holder g) of Some a \<Rightarrow> Some a | None \<Rightarrow> curPuppet))"

definition puppet_getInfo :: "'g game \<Rightarrow> nat \<Rightarrow> PuppetInfo option" where
  "puppet_getInfo g a = map_option (\<lambda>i. mPuppetInfoArr (cl_table (gm_client g)) ! i) (sp_info (gm_puppets g) ! a)"

definition page_puppet :: "draw_view \<Rightarrow> 'g game \<Rightarrow> nat option \<Rightarrow> draw_call list" where
  "page_puppet v g curPuppet =
     (case curPuppet of
        None \<Rightarrow> []
      | Some a \<Rightarrow>
          (case puppet_getInfo g a of
             None \<Rightarrow> []
           | Some p \<Rightarrow>
               [Printf ''Puppet Index: %d'' [Num (sint (debugPuppetIndex g))],
                Printf ''Player Name: %s'' [Txt (puppetName p)],
                Printf ''Connection Status: %s'' [Txt (if isConnected p then ''Online'' else ''Offline'')],
                Printf ''Is in Same Stage: %s'' [Txt (BTOC (isInSameStage p))],
                Printf ''Is in Capture: %s'' [Txt (BTOC (isCaptured p))],
                Printf ''Puppet Stage: %s'' [Txt (stageName p)],
                Printf ''Puppet Scenario: %u'' [Num (uint (scenarioNo p))],
                Printf ''Puppet Costume: H: %s B: %s'' [Txt (costumeHead p), Txt (costumeBody p)]] @
               (if isCaptured p
                then [Printf ''Current Capture: %s'' [Txt (curHack p)],
                      Printf ''Current Packet Animation: %s'' [Txt (curAnimStr p)],
                      Printf ''Animation Index: %d'' [Num (sint (curAnim p))]]
                else [Printf ''Current Packet Animation: %s'' [Txt (curAnimStr p)],
                      Printf ''Animation Index: %d'' [Num (sint (curAnim p))],
                      Printf ''Current Animation: %s'' [Txt (dv_action v a)]])))"

definition page_debug :: "'g game \<Rightarrow> draw_call list" where
  "page_debug g =
     (case getDebugPuppet (gm_holder g) of
        None \<Rightarrow> []
      | Some _ \<Rightarrow> [Printf ''Is Debug Puppet Tagged: %s'' [Txt (BTOC (isIt (gm_debugInfo g)))]])"

definition page_hack :: "hack_page option \<Rightarrow> draw_call list" where
  "page_hack h =
     (case h of
        None \<Rightarrow> []
      | Some (Hacking action name captureRot calcRot) \<Rightarrow>
          [Printf ''Current Hack Animation: %s'' [Txt action],
           Printf ''Current Hack Name: %s'' [Txt name],
           Printf ''Current Hack Rot: %f %f %f %f'' (quat_args captureRot),
           Printf ''Calc Hack Rot: %f %f %f %f'' (quat_args calcRot)]
      | Some (Own_body action sub cap) \<Rightarrow>
          [Printf ''Cur Action: %s'' [Txt action],
           Printf ''Cur Sub Action: %s'' [Txt sub],
           Printf ''Is Cappy Flying? %s'' [Txt (BTOC (cv_isFlying cap))]] @
          (if cv_isFlying cap
           then [Printf ''Cappy Action: %s'' [Txt (cv_action cap)],
                 Printf (''Cap Coords:'' @ NL @ ''X: %f'' @ NL @ ''Y: %f'' @ NL @ ''Z: %f'') (vec_args (cv_trans cap)),
                 Printf (''Cap Rot:'' @ NL @ ''X: %f'' @ NL @ ''Y: %f'' @ NL @ ''Z: %f'') (vec_args (cv_jointRot cap)),
                 Printf ''Cap Skew: %f'' [Real (cv_skew cap)]]
           else []))"

definition draw_page :: "draw_view \<Rightarrow> 'g game \<Rightarrow> nat option \<Rightarrow> scene_view \<Rightarrow> draw_call list" where
  "draw_page v g curPuppet scene =
     (if pageIndex g = 0 then page_puppet v g curPuppet
      else if pageIndex g = 1 then page_debug g
      else if pageIndex g = 2 then page_hack (sv_hack scene)
      else [])"

text \<open>Two spheres, at the place the slot says and at the puppet's own; here the information is not tested.\<close>

definition draw_spheres :: "draw_view \<Rightarrow> 'g game \<Rightarrow> nat option \<Rightarrow> draw_call list res" where
  "draw_spheres v g curPuppet =
     (case curPuppet of
        None \<Rightarrow> Inr []
      | Some a \<Rightarrow>
          rbind (null_check (puppet_getInfo g a)) (\<lambda>p.
            Inr [Sphere4x8 (playerPos p) (Fin 20) [Fin 1, Fin 0, Fin 0, Fin (1 / 4)],
                 Sphere4x8 (dv_trans v a) (Fin 20) [Fin 0, Fin 0, Fin 1, Fin (1 / 4)]]))"

definition draw_in_game :: "draw_view \<Rightarrow> 'g game \<Rightarrow> draw_call list res" where
  "draw_in_game v g =
     (case dv_scene v of
        None \<Rightarrow> Inr []
      | Some scene \<Rightarrow>
          if \<not> isInGame g then Inr []
          else rbind (shown_puppet g) (\<lambda>curPuppet. draw_seq
                 [Inr [SetDrawContext, SetCamera, SetProjection,
                       Printf ''----------- Page %d ------------'' [Num (sint (pageIndex g))]],
                  Inr (draw_page v g curPuppet scene),
                  Inr [BeginShapes, ModelMatrixIdent],
                  draw_spheres v g curPuppet,
                  Inr [EndShapes]]))"

text \<open>A drawing in the game also forgets that the game is running, until the next frame hook says so.\<close>

definition drawDebugMode :: "draw_view \<Rightarrow> 'g game \<Rightarrow> (draw_call list \<times> 'g game) res" where
  "drawDebugMode v g =
     (let w = cl_modes (gm_client g)
      in rbind (draw_seq
           [Inr (draw_top v), Inr (draw_heaps v),
            Inr [Printf ''GameMode: %d'' [Num (sint (mCurMode (mw_manager w)))]],
            draw_places v w, draw_stage v, draw_hns (mw_manager w), draw_ctf w,
            Inr (draw_client (gm_client g)), draw_in_game v g, Inr [EndDraw]]) (\<lambda>cs.
           Inr (cs, if dv_scene v \<noteq> None \<and> isInGame g then g\<lparr>isInGame := False\<rparr> else g)))"

text \<open>\<open>drawMainHook\<close>; the game's own layer is drawn after it by the engine. The clock it also sets is not part of the state here.\<close>

definition drawMainHook :: "draw_view \<Rightarrow> 'g game \<Rightarrow> (draw_call list \<times> 'g game) res" where
  "drawMainHook v g = (if debugMode g then drawDebugMode v g else Inr ([], g))"

section \<open>When a page can be drawn\<close>

definition drawn :: "'a res \<Rightarrow> bool" where
  "drawn r \<longleftrightarrow> (case r of Inl _ \<Rightarrow> False | Inr _ \<Rightarrow> True)"

lemma drawn_simps [simp]:
  "drawn (Inr x)" "\<not> drawn (Inl e)" "drawn (rbind r f) \<longleftrightarrow> (\<exists>x. r = Inr x \<and> drawn (f x))"
  "drawn (if b then r else s) \<longleftrightarrow> (if b then drawn r else drawn s)"
  by (auto simp: drawn_def rbind_def split: sum.splits)

lemma drawn_exists: "drawn r \<longleftrightarrow> (\<exists>x. r = Inr x)"
  by (auto simp: drawn_def split: sum.splits)

lemma draw_seq_drawn: "drawn (draw_seq rs) \<longleftrightarrow> (\<forall>r \<in> set rs. drawn r)"
proof (induction rs)
  case (Cons r rs)
  have "drawn (draw_seq (r # rs)) \<longleftrightarrow> drawn r \<and> drawn (draw_seq rs)" by (auto simp: drawn_exists rbind_eq_Inr)
  then show ?case using Cons by simp
qed simp

declare draw_seq.simps [simp del]

lemma null_check_Inr [simp]: "null_check p = Inr x \<longleftrightarrow> p = Some x"
  by (auto simp: null_check_def split: option.splits)

lemma drawn_case_option:
  "drawn (case p of None \<Rightarrow> r | Some x \<Rightarrow> f x) \<longleftrightarrow> (case p of None \<Rightarrow> drawn r | Some x \<Rightarrow> drawn (f x))"
  by (cases p) simp_all

lemma places_drawn: "drawn (draw_places v w) \<longleftrightarrow>
    (\<exists>scene. dv_scene v = Some scene \<and> sv_player scene \<noteq> None) \<and> mw_border w \<noteq> None"
  by (auto simp: draw_places_def)

lemma stage_drawn: "drawn (draw_stage v) \<longleftrightarrow> (\<exists>scene. dv_scene v = Some scene \<and> sv_stage scene \<noteq> None)"
  by (auto simp: draw_stage_def split: option.splits)

lemma hns_drawn: "drawn (draw_hns s) \<longleftrightarrow> (mCurMode s = HIDEANDSEEK \<longrightarrow> (\<exists>i. mModeInfo s = Some (Hns_info i)))"
  by (auto simp: draw_hns_def isMode_def hns_info_of_def split: option.splits mode_info.splits)

lemma flag_trans_drawn: "team_index t < length (teamFlags w) \<Longrightarrow>
    (\<exists>p. flag_trans t w = Inr p) \<longleftrightarrow> teamFlags w ! team_index t \<noteq> None"
  by (auto simp: flag_trans_def getFlagActorForTeam_def rbind_eq_Inr)

lemma ctf_drawn:
  assumes "length (teamFlags (mw_flags w)) = team_count"
  shows "drawn (draw_ctf w) \<longleftrightarrow> (isModeAndActive CAPTURE_THE_FLAG (mw_manager w) \<longrightarrow>
    (\<exists>i. mModeInfo (mw_manager w) = Some (Ctf_info i)) \<and>
    teamFlags (mw_flags w) ! team_index RED \<noteq> None \<and> teamFlags (mw_flags w) ! team_index BLUE \<noteq> None)"
proof -
  have t: "team_index RED < length (teamFlags (mw_flags w))" "team_index BLUE < length (teamFlags (mw_flags w))"
    using assms by (simp_all add: team_index_def RED_def BLUE_def team_count_def)
  show ?thesis
    by (auto simp: draw_ctf_def ctf_info_of_def flag_trans_drawn [OF t(1)] flag_trans_drawn [OF t(2)]
        split: option.splits mode_info.splits)
qed

lemma shown_puppet_ok:
  assumes "pa_ok (mPuppetArr (gm_holder g))"
  shows "\<exists>q. shown_puppet g = Inr q"
proof -
  have "- (2 ^ 31) \<le> sint (debugPuppetIndex g)" "sint (debugPuppetIndex g) < 2 ^ 31"
    using sint_range32 [of "debugPuppetIndex g"] by simp_all
  from pa_at_spec [OF assms this] show ?thesis
    by (auto simp: shown_puppet_def getPuppet_def getPuppetActor_def)
qed

lemma in_game_drawn:
  assumes "shown_puppet g = Inr q"
  shows "drawn (draw_in_game v g) \<longleftrightarrow>
    (dv_scene v \<noteq> None \<and> isInGame g \<longrightarrow> (\<forall>a. q = Some a \<longrightarrow> sp_info (gm_puppets g) ! a \<noteq> None))"
  using assms
  by (cases q) (auto simp: draw_in_game_def draw_spheres_def draw_seq_drawn puppet_getInfo_def
      drawn_case_option split: option.splits)

lemma page_drawn: "drawn (drawDebugMode v g) \<longleftrightarrow>
    drawn (draw_places v (cl_modes (gm_client g))) \<and> drawn (draw_stage v) \<and>
    drawn (draw_hns (manager_of (gm_client g))) \<and> drawn (draw_ctf (cl_modes (gm_client g))) \<and> drawn (draw_in_game v g)"
proof -
  have "drawn (drawDebugMode v g) \<longleftrightarrow> (\<exists>cs. draw_seq
         [Inr (draw_top v), Inr (draw_heaps v),
          Inr [Printf ''GameMode: %d'' [Num (sint (mCurMode (manager_of (gm_client g))))]],
          draw_places v (cl_modes (gm_client g)), draw_stage v, draw_hns (manager_of (gm_client g)),
          draw_ctf (cl_modes (gm_client g)), Inr (draw_client (gm_client g)), draw_in_game v g, Inr [EndDraw]] = Inr cs)"
    by (simp add: drawDebugMode_def Let_def)
  then show ?thesis by (simp only: draw_seq_drawn list.set ball_simps drawn_simps flip: drawn_exists) simp
qed

text \<open>
  C10: The debug page is drawn without a fault exactly if there is a scene, it is a stage with a player, and the border
  actor has been made; if hide and seek is the chosen mode, active or not, the information is that of hide and seek;
  if capture the flag is chosen and active, the information is that of capture the flag and both flags have been made;
  and, while the game runs, the puppet the page is about, if there is one, has a slot of the player table.
\<close>

theorem debug_page_drawn:
  assumes "pa_ok (mPuppetArr (gm_holder g))" and "length (teamFlags (mw_flags (cl_modes (gm_client g)))) = team_count"
    and "shown_puppet g = Inr q"
  shows "(\<exists>cs g'. drawDebugMode v g = Inr (cs, g')) \<longleftrightarrow>
    (\<exists>scene. dv_scene v = Some scene \<and> sv_player scene \<noteq> None \<and> sv_stage scene \<noteq> None) \<and>
    mw_border (cl_modes (gm_client g)) \<noteq> None \<and>
    (mCurMode (manager_of (gm_client g)) = HIDEANDSEEK \<longrightarrow> (\<exists>i. mModeInfo (manager_of (gm_client g)) = Some (Hns_info i))) \<and>
    (isModeAndActive CAPTURE_THE_FLAG (manager_of (gm_client g)) \<longrightarrow>
       (\<exists>i. mModeInfo (manager_of (gm_client g)) = Some (Ctf_info i)) \<and>
       teamFlags (mw_flags (cl_modes (gm_client g))) ! team_index RED \<noteq> None \<and>
       teamFlags (mw_flags (cl_modes (gm_client g))) ! team_index BLUE \<noteq> None) \<and>
    (isInGame g \<longrightarrow> (\<forall>a. q = Some a \<longrightarrow> sp_info (gm_puppets g) ! a \<noteq> None))"
    (is "_ \<longleftrightarrow> ?rhs")
proof -
  have "(\<exists>cs g'. drawDebugMode v g = Inr (cs, g')) \<longleftrightarrow> drawn (drawDebugMode v g)" by (auto simp: drawn_exists)
  also have "\<dots> \<longleftrightarrow> ?rhs"
    unfolding page_drawn places_drawn stage_drawn hns_drawn ctf_drawn [OF assms(2)] in_game_drawn [OF assms(3)]
    by (cases "dv_scene v") (simp_all add: conj_ac)
  finally show ?thesis .
qed

definition view0 :: draw_view where
  "view0 =
     \<lparr>dv_height = 720, dv_fps = 60, dv_clientHeap = Some (1000, 2000), dv_modeHeap = (1000, 2000),
      dv_scene = Some \<lparr>sv_stage = Some (''CapWorldHomeStage'', 1), sv_player = Some Vector3f_zero, sv_hack = None\<rparr>,
      dv_frontDir = ba_trans, dv_rpy = (\<lambda>_. Vector3f_zero), dv_action = (\<lambda>_. []), dv_trans = (\<lambda>_. Vector3f_zero)\<rparr>"

text \<open>The game of the frame, in the game, with the border actor or without it.\<close>

definition border_game :: "border_actor option \<Rightarrow> unit game" where
  "border_game b =
     two_game\<lparr>isInGame := True, gm_client := (gm_client two_game)
       \<lparr>cl_modes := (cl_modes (gm_client two_game))\<lparr>mw_border := b\<rparr>\<rparr>\<rparr>"

lemma border_game_setup:
  "pa_ok (mPuppetArr (gm_holder (border_game b)))"
  "length (teamFlags (mw_flags (cl_modes (gm_client (border_game b))))) = team_count"
  "shown_puppet (border_game b) = Inr (Some 0)"
proof -
  show ok: "pa_ok (mPuppetArr (gm_holder (border_game b)))"
    using two_game_setup(1) by (simp add: border_game_def)
  show "length (teamFlags (mw_flags (cl_modes (gm_client (border_game b))))) = team_count"
    by (simp add: border_game_def two_game_def client0_def flag_world_init_def)
  have "pa_list (mPuppetArr (gm_holder (border_game b))) = [Some 0, Some 1]"
    using two_game_setup(2) by (simp add: border_game_def)
  then have "pa_at (mPuppetArr (gm_holder (border_game b))) 0 = Inr (Some 0)"
    using pa_at_spec [OF ok, of 0] by simp
  moreover have "debugPuppetIndex (border_game b) = 0" "getDebugPuppet (gm_holder (border_game b)) = None"
    by (simp_all add: border_game_def two_game_def two_holder_def getDebugPuppet_def)
  ultimately show "shown_puppet (border_game b) = Inr (Some 0)"
    by (simp add: shown_puppet_def getPuppet_def getPuppetActor_def)
qed

theorem debug_page_drawn_witness:
  "(\<exists>cs g'. drawDebugMode view0 (border_game (Some (border_actor.make False Vector3f_zero Quatf_zero None))) = Inr (cs, g')) \<and>
   \<not> (\<exists>cs g'. drawDebugMode view0 (border_game None) = Inr (cs, g'))"
proof
  show "\<exists>cs g'. drawDebugMode view0 (border_game (Some (border_actor.make False Vector3f_zero Quatf_zero None))) = Inr (cs, g')"
    unfolding debug_page_drawn [OF border_game_setup]
    by (simp add: view0_def border_game_def two_game_def client0_def two_puppets_def GameModeManager_new_def setMode_def
        manager_empty_def isModeAndActive_def CAPTURE_THE_FLAG_def HIDEANDSEEK_def)
  show "\<not> (\<exists>cs g'. drawDebugMode view0 (border_game None) = Inr (cs, g'))"
    unfolding debug_page_drawn [OF border_game_setup] by (simp add: border_game_def)
qed

text \<open>A chosen mode whose information is still that of the other mode, as after the choice and before the next stage.\<close>

lemma debug_page_wrong_info:
  assumes "isMode HIDEANDSEEK (manager_of (gm_client g))" and "mModeInfo (manager_of (gm_client g)) = Some (Ctf_info i)"
  shows "\<not> drawn (drawDebugMode v g)"
  using assms by (simp add: page_drawn hns_drawn isMode_def)

text \<open>Without the debug mode nothing is drawn and nothing can fault; a drawn page in the game ends the game's turn.\<close>

lemma drawMainHook_off: "\<not> debugMode g \<Longrightarrow> drawMainHook v g = Inr ([], g)"
  by (simp add: drawMainHook_def)

lemma drawDebugMode_state:
  "drawDebugMode v g = Inr (cs, g') \<Longrightarrow> g' = g\<lparr>isInGame := isInGame g \<and> dv_scene v = None\<rparr>"
  by (auto simp: drawDebugMode_def Let_def rbind_eq_Inr)

end
