(* ===== verification/Client_Life.thy ===== *)
theory Client_Life
  imports Stage_Puppets
begin

text \<open>
  The client around its handlers (\<open>server/Client.cpp\<close>): how the read thread is started, what its function
  does from the first line to the last, the windows that tell the player about the connection, and the accessors
  that pass a part of the client on. The rounds of the read loop are \<open>Client_Modes.read_step\<close>, the connection is
  \<open>Client_Settings.connect_client\<close>. What another thread changes between two rounds is an input of the round.
\<close>

section \<open>The read thread\<close>

text \<open>\<open>isDone\<close> of the thread object: it is not running.\<close>

definition startThread :: "bool \<Rightarrow> bool \<times> bool" where
  "startThread isDone = (if isDone then (True, False) else (False, isDone))"

datatype thread_call = YieldThread | SleepThread nat | StatusAppear | StatusAction string string | StatusEnd

text \<open>
  What a round meets: the other threads' changes to the client before it, and whether the flag
  \<open>mIsConnectionActive\<close> is still set when the loop looks at it (a restart may clear it).
\<close>

record round =
  rd_others :: "client \<Rightarrow> client"
  rd_active :: bool

text \<open>How far a run has come: the function returned, a fault, a wait without an end, or the inputs are used up.\<close>

datatype run_end = Returned client | Faulted fault | Waits | Running client

fun read_rounds :: "sock_cfg \<Rightarrow> round list \<Rightarrow> client \<Rightarrow> os_event list \<Rightarrow> ChangeStage list \<times> run_end" where
  "read_rounds cfg [] c evs = ([], Running c)"
| "read_rounds cfg (r # rs) c evs =
     (let c = rd_others r c
      in if \<not> rd_active r then ([], Returned c)
         else (case read_step cfg c evs of
                 None \<Rightarrow> ([], Waits)
               | Some (Inl e) \<Rightarrow> ([], Faulted e)
               | Some (Inr (c, out, evs)) \<Rightarrow>
                   (case read_rounds cfg rs c evs of (outs, e) \<Rightarrow> (out @ outs, e))))"

text \<open>The beginning: the first run waits for the game, then the layout says that the client connects.\<close>

definition read_intro :: "bool \<Rightarrow> thread_call list" where
  "read_intro waitForGameInit =
     (if waitForGameInit then [YieldThread, SleepThread 2000000000] else []) @
     [StatusAppear, StatusAction ''Loop'' ''Loop'']"

record read_result =
  rr_calls :: "thread_call list"
  rr_wait :: bool
  rr_save :: bool
  rr_settings :: settings
  rr_stages :: "ChangeStage list"
  rr_end :: run_end

definition readFunc ::
  "bool \<Rightarrow> bool \<Rightarrow> keyboard_input \<Rightarrow> keyboard_input \<Rightarrow> settings \<times> keyboard \<Rightarrow> sock_cfg \<Rightarrow> round list \<Rightarrow> client
   \<Rightarrow> os_event list \<Rightarrow> read_result" where
  "readFunc waitForGameInit isOverride i j x cfg rs c evs =
     (let calls = read_intro waitForGameInit
      in case connect_client isOverride i j x cfg (cl_sock c) (cl_table c) evs of
           None \<Rightarrow> \<lparr>rr_calls = calls, rr_wait = False, rr_save = False, rr_settings = fst x, rr_stages = [],
                    rr_end = Waits\<rparr>
         | Some (res, isNeedSave, st) \<Rightarrow>
             (case res of
                None \<Rightarrow> \<lparr>rr_calls = calls, rr_wait = False, rr_save = isNeedSave, rr_settings = st, rr_stages = [],
                         rr_end = Waits\<rparr>
              | Some (Inl e) \<Rightarrow> \<lparr>rr_calls = calls, rr_wait = False, rr_save = isNeedSave, rr_settings = st,
                         rr_stages = [], rr_end = Faulted e\<rparr>
              | Some (Inr ((ok, tab), s, evs)) \<Rightarrow>
                  let c = c\<lparr>cl_sock := s, cl_table := tab\<rparr>
                  in if \<not> ok
                     then \<lparr>rr_calls = calls @ [SleepThread 250000000, StatusEnd], rr_wait = False, rr_save = isNeedSave,
                            rr_settings = st, rr_stages = [], rr_end = Returned c\<rparr>
                     else (case read_rounds cfg rs c evs of
                             (outs, e) \<Rightarrow>
                               \<lparr>rr_calls = calls @ [SleepThread 500000000, StatusEnd], rr_wait = False,
                                rr_save = isNeedSave, rr_settings = st, rr_stages = outs, rr_end = e\<rparr>)))"

section \<open>The windows\<close>

text \<open>
  The client's calls on its two windows; what they do is the engine's. That a window is up is an input
  (\<open>mIsAlive\<close>), and \<open>exists\<close> that there is a client at all.
\<close>

datatype window_call =
    SetTxtMessage string
  | SetTxtMessageConfirm string
  | SetPaneString string string
  | HidePane string
  | Appear
  | PlayLoop
  | StartAction string string
  | TryEnd

text \<open>\<open>Client::init\<close>: the texts, then the read thread is started.\<close>

definition client_init :: "bool \<Rightarrow> window_call list \<times> bool \<times> bool" where
  "client_init isDone =
     ([SetTxtMessage ''Connecting to Server.'', SetTxtMessageConfirm ''Failed to Connect!'',
       SetPaneString ''TxtSave'' ''Connecting to Server.'', SetPaneString ''TxtSaveSh'' ''Connecting to Server.''],
      startThread isDone)"

definition showConnectError :: "bool \<Rightarrow> bool \<Rightarrow> string \<Rightarrow> window_call list" where
  "showConnectError exists mIsAlive msg =
     (if \<not> exists then []
      else [SetTxtMessageConfirm msg, HidePane ''Page01''] @ (if \<not> mIsAlive then [Appear, PlayLoop] else []) @
           [StartAction ''Confirm'' ''State''])"

definition showConnect :: "bool \<Rightarrow> window_call list" where
  "showConnect exists = (if \<not> exists then [] else [Appear, PlayLoop])"

definition hideConnect :: "bool \<Rightarrow> window_call list" where
  "hideConnect exists = (if \<not> exists then [] else [TryEnd])"

section \<open>Parts of the client\<close>

definition clearArrays :: "(puppet_holder \<times> nat ptr_array) option \<Rightarrow> (puppet_holder \<times> nat ptr_array) option" where
  "clearArrays c = map_option (\<lambda>(h, shines). (clearPuppets h, pa_clear shines)) c"

definition getDebugPuppetInfo :: "'g game option \<Rightarrow> PuppetInfo option" where
  "getDebugPuppetInfo c = map_option gm_debugInfo c"

definition client_getDebugPuppet :: "puppet_holder option \<Rightarrow> nat option" where
  "client_getDebugPuppet c = (case c of Some h \<Rightarrow> getDebugPuppet h | None \<Rightarrow> None)"

definition getKeyboard :: "keyboard option \<Rightarrow> keyboard option" where
  "getKeyboard c = (case c of Some k \<Rightarrow> Some k | None \<Rightarrow> None)"

text \<open>A copy of the scene's information, made anew for every scene; the one before is not freed.\<close>

record 'i scene_info =
  mSceneInfo :: "'i option"
  mCurStageScene :: "nat option"
  si_copies :: nat

definition setSceneInfo :: "'i \<Rightarrow> nat \<Rightarrow> 'i scene_info option \<Rightarrow> 'i scene_info option" where
  "setSceneInfo initInfo stageScene c =
     map_option (\<lambda>s. s\<lparr>mSceneInfo := Some initInfo, mCurStageScene := Some stageScene, si_copies := si_copies s + 1\<rparr>) c"

section \<open>How the thread ends\<close>

lemma read_rounds_returned:
  "read_rounds cfg rs c evs = (outs, Returned d) \<Longrightarrow>
   \<exists>k < length rs. \<not> rd_active (rs ! k) \<and> (\<forall>m < k. rd_active (rs ! m))"
proof (induction rs arbitrary: c evs outs)
  case (Cons r rs)
  show ?case
  proof (cases "rd_active r")
    case False
    then show ?thesis by (intro exI [of _ 0]) simp
  next
    case True
    then obtain c' out evs' outs' where "read_rounds cfg rs c' evs' = (outs', Returned d)"
      using Cons.prems by (auto simp: Let_def split: option.splits sum.splits prod.splits)
    from Cons.IH [OF this] obtain k where k: "k < length rs" "\<not> rd_active (rs ! k)" "\<forall>m < k. rd_active (rs ! m)"
      by blast
    have "\<forall>m < Suc k. rd_active ((r # rs) ! m)" using k(3) True by (auto simp: less_Suc_eq_0_disj)
    then show ?thesis using k(1,2) by (intro exI [of _ "Suc k"]) simp
  qed
qed simp

text \<open>A round without a connection reads through the null pointer that it has just logged.\<close>

lemma read_rounds_lost:
  "rd_active r \<Longrightarrow> \<not> isConnected_sock (cl_sock (rd_others r c)) \<Longrightarrow> read_rounds cfg (r # rs) c evs = ([], Faulted NullDeref)"
  by (simp add: read_step_def tryGetPacket_def)

text \<open>
  C32: The function of the read thread returns only if the connection could not be made, or in the first round that
  finds the flag cleared by another thread; a lost connection does not end it. When it returns, the
  layout it has shown once has been ended once, and the wait for the game will not be done again.
\<close>

theorem read_thread_returns:
  assumes "rr_end (readFunc wait isOverride i j x cfg rs c evs) = Returned d"
  shows "((\<exists>tab s rest save st. connect_client isOverride i j x cfg (cl_sock c) (cl_table c) evs =
             Some (Some (Inr ((False, tab), s, rest)), save, st)) \<or>
          (\<exists>k < length rs. \<not> rd_active (rs ! k) \<and> (\<forall>m < k. rd_active (rs ! m)))) \<and>
    (\<exists>ns. rr_calls (readFunc wait isOverride i j x cfg rs c evs) = read_intro wait @ [SleepThread ns, StatusEnd]) \<and>
    count_list (rr_calls (readFunc wait isOverride i j x cfg rs c evs)) StatusAppear = 1 \<and>
    count_list (rr_calls (readFunc wait isOverride i j x cfg rs c evs)) StatusEnd = 1 \<and>
    \<not> rr_wait (readFunc wait isOverride i j x cfg rs c evs)"
proof -
  obtain ok tab s rest save st where
    r: "connect_client isOverride i j x cfg (cl_sock c) (cl_table c) evs = Some (Some (Inr ((ok, tab), s, rest)), save, st)"
    using assms by (auto simp: readFunc_def Let_def split: option.splits sum.splits)
  obtain outs e where l: "read_rounds cfg rs (c\<lparr>cl_sock := s, cl_table := tab\<rparr>) rest = (outs, e)" by fastforce
  have "ok \<Longrightarrow> e = Returned d" using assms l by (simp add: readFunc_def Let_def r)
  then have "ok \<Longrightarrow> \<exists>k < length rs. \<not> rd_active (rs ! k) \<and> (\<forall>m < k. rd_active (rs ! m))"
    using read_rounds_returned [of cfg rs "c\<lparr>cl_sock := s, cl_table := tab\<rparr>" rest outs d] l by simp
  then show ?thesis by (cases ok) (auto simp: readFunc_def Let_def r l read_intro_def)
qed

definition known_settings :: settings where
  "known_settings = \<lparr>mServerIP = ''10.0.0.2'', mServerPort = 1027, first_conn = True\<rparr>"

definition no_typing :: keyboard_input where
  "no_typing = \<lparr>ki_done = (\<lambda>_. True), ki_result = [], ki_code = 0\<rparr>"

text \<open>A start without a network.\<close>

abbreviation offline_run :: read_result where
  "offline_run \<equiv>
     readFunc True False no_typing no_typing (known_settings, keyboard0) cfg0 [] client0 [Ev_network False 5]"

lemma offline_run_ends: "\<exists>d. rr_end offline_run = Returned d"
  using sock_init.simps [of cfg0 "cl_sock client0\<lparr>mIsFirstConnect := True\<rparr>" "[Ev_network False 5]"]
  by (simp add: readFunc_def connect_client_def ask_settings_def ask_ip_def ask_port_def known_settings_def
      startConnection_def os_bind_def open_sock_def Let_def)

theorem read_thread_returns_witness:
  "count_list (rr_calls offline_run) StatusAppear = 1 \<and> count_list (rr_calls offline_run) StatusEnd = 1 \<and>
   (\<exists>tab s rest save st. connect_client False no_typing no_typing (known_settings, keyboard0) cfg0 (cl_sock client0)
      (cl_table client0) [Ev_network False 5] = Some (Some (Inr ((False, tab), s, rest)), save, st))"
proof -
  from offline_run_ends obtain d where "rr_end offline_run = Returned d" ..
  from read_thread_returns [OF this] show ?thesis by simp
qed

end
