(* ===== verification/Tree_Variants.thy ===== *)
theory Tree_Variants
  imports Tree_Map Buffered_String
begin

text \<open>
  The two other containers over the tree of \<open>Tree_Nodes\<close>: the ordered set (\<open>sead/container/seadOrderedSet.h\<close>) and the
  map with strings of bounded length as keys (\<open>seadStrTreeMap.h\<close>). The source repeats the map's operations in
  both; here each is written from its own file and then related to the map's, whose laws carry over.
\<close>

section \<open>The ordered set\<close>

text \<open>The same fields as the map's; a node has its block and no value.\<close>

type_synonym 'a ordered_set = "('a, unit) tree_map"

definition os_compare :: "'a::ord \<Rightarrow> 'a \<Rightarrow> int" where
  "os_compare x y = (if x < y then -1 else if y < x then 1 else 0)"

definition os_setBuffer :: "int \<Rightarrow> 'a ordered_set \<Rightarrow> 'a ordered_set res" where
  "os_setBuffer node_max s =
     rbind (setWork node_max (mFreeList s)) (\<lambda>fl. Inr (s\<lparr>mCapacity := node_max, mFreeList := fl\<rparr>))"

definition os_allocBuffer :: "bool \<Rightarrow> int \<Rightarrow> 'a ordered_set \<Rightarrow> (bool \<times> 'a ordered_set) res" where
  "os_allocBuffer got node_max s =
     (if \<not> got then Inr (False, s) else rbind (os_setBuffer node_max s) (\<lambda>s. Inr (True, s)))"

definition os_freeBuffer :: "'a ordered_set \<Rightarrow> 'a ordered_set" where
  "os_freeBuffer s =
     (if \<not> mWork (mFreeList s) then s
      else s\<lparr>mSize := 0, mRoot := Null, mCapacity := 0, mFreeList := fl_reset (mFreeList s)\<rparr>)"

definition os_node_erase :: "nat \<Rightarrow> 'a ordered_set \<Rightarrow> 'a ordered_set" where
  "os_node_erase b s = s\<lparr>mFreeList := fl_free b (mFreeList s), mSize := mSize s - 1\<rparr>"

definition os_find :: "'a::linorder \<Rightarrow> 'a ordered_set \<Rightarrow> nat option" where
  "os_find x s = map_option (fst \<circ> snd) (tree_find x (mRoot s))"

text \<open>Assigning the key of the node that \<open>find\<close> gave.\<close>

fun set_key :: "'a::linorder \<Rightarrow> ('a, nat \<times> unit) tnode \<Rightarrow> ('a, nat \<times> unit) tnode" where
  "set_key k Null = Null"
| "set_key k (TNode c l x p r) =
     (if os_compare k x < 0 then TNode c (set_key k l) x p r
      else if os_compare k x > 0 then TNode c l x p (set_key k r)
      else TNode c l k p r)"

definition os_insert :: "'a::linorder \<Rightarrow> 'a ordered_set \<Rightarrow> (nat option \<times> 'a ordered_set) res" where
  "os_insert x s =
     (if mSize s \<ge> mCapacity s
      then (case os_find x s of
              Some b \<Rightarrow> Inr (Some b, s\<lparr>mRoot := set_key x (mRoot s)\<rparr>)
            | None \<Rightarrow> Inr (None, s))
      else (case fl_alloc (mFreeList s) of
              (None, fl) \<Rightarrow> Inl NullDeref
            | (Some b, fl) \<Rightarrow>
                let s = s\<lparr>mFreeList := fl, mSize := mSize s + 1\<rparr> in
                rbind (tree_insert x (b, ()) (mRoot s)) (\<lambda>(t, es).
                  Inr (Some b, fold os_node_erase (map fst es) (s\<lparr>mRoot := t\<rparr>)))))"

definition os_erase :: "'a::linorder \<Rightarrow> 'a ordered_set \<Rightarrow> 'a ordered_set res" where
  "os_erase x s =
     rbind (tree_erase x (mRoot s)) (\<lambda>(t, es). Inr (fold os_node_erase (map fst es) (s\<lparr>mRoot := t\<rparr>)))"

definition os_eraseNodeForClear :: "nat \<Rightarrow> 'a ordered_set \<Rightarrow> 'a ordered_set" where
  "os_eraseNodeForClear b s = s\<lparr>mFreeList := fl_free b (mFreeList s)\<rparr>"

definition os_clear :: "'a ordered_set \<Rightarrow> 'a ordered_set" where
  "os_clear s =
     (fold os_eraseNodeForClear (map (fst \<circ> snd) (forEach (mRoot s))) s)\<lparr>mSize := 0, mRoot := Null\<rparr>"

definition os_finalize :: "'a ordered_set \<Rightarrow> 'a ordered_set" where
  "os_finalize s = os_freeBuffer (os_clear s)"

definition os_forEach :: "'a ordered_set \<Rightarrow> 'a list" where
  "os_forEach s = map fst (forEach (mRoot s))"

section \<open>The set as a map without values\<close>

lemma os_compare_compare: "os_compare = (compare :: 'a::linorder \<Rightarrow> 'a \<Rightarrow> int)"
  by (auto simp: os_compare_def compare_def fun_eq_iff)

lemma os_node_erase_map: "os_node_erase = node_erase"
  by (simp add: fun_eq_iff os_node_erase_def node_erase_def)

lemma set_key_value: "set_key k t = set_value k () t"
  by (induction t) (auto simp: os_compare_def)

lemma os_find_map: "os_find x s = map_option fst (tm_find x s)"
  by (simp add: os_find_def tm_find_def option.map_comp comp_def)

lemma os_insert_map: "os_insert x s = tm_insert x () s"
  by (auto simp: os_insert_def tm_insert_def os_find_map set_key_value os_node_erase_map Let_def
      split: option.splits prod.splits)

lemma os_erase_map: "os_erase x s = tm_erase x s"
  by (simp add: os_erase_def tm_erase_def os_node_erase_map)

lemma os_eraseNode_map: "os_eraseNodeForClear = eraseNodeForClear"
  by (simp add: fun_eq_iff os_eraseNodeForClear_def eraseNodeForClear_def)

lemma os_clear_map: "os_clear s = tm_clear s"
  by (simp add: os_clear_def tm_clear_def os_eraseNode_map)

lemma os_setBuffer_map: "os_setBuffer n s = tm_setBuffer n s"
  by (simp add: os_setBuffer_def tm_setBuffer_def)

datatype 'a set_op = Ins 'a | Del 'a | Clr

definition os_step :: "'a::linorder set_op \<Rightarrow> 'a ordered_set \<Rightarrow> 'a ordered_set res" where
  "os_step op s =
     (case op of
        Ins x \<Rightarrow> rbind (os_insert x s) (\<lambda>(b, s). Inr s)
      | Del x \<Rightarrow> os_erase x s
      | Clr \<Rightarrow> Inr (os_clear s))"

fun os_run :: "'a::linorder set_op list \<Rightarrow> 'a ordered_set \<Rightarrow> 'a ordered_set res" where
  "os_run [] s = Inr s"
| "os_run (op # ops) s = rbind (os_step op s) (os_run ops)"

text \<open>A set of at most \<open>n\<close> values.\<close>

definition bset_step :: "nat \<Rightarrow> 'a set_op \<Rightarrow> 'a set \<Rightarrow> 'a set option" where
  "bset_step n op A =
     (case op of
        Ins x \<Rightarrow> Some (if x \<in> A \<or> card A < n then insert x A else A)
      | Del x \<Rightarrow> if x \<in> A then Some (A - {x}) else None
      | Clr \<Rightarrow> Some {})"

fun bset_run :: "nat \<Rightarrow> 'a set_op list \<Rightarrow> 'a set \<Rightarrow> 'a set option" where
  "bset_run n [] A = Some A"
| "bset_run n (op # ops) A = (case bset_step n op A of None \<Rightarrow> None | Some A \<Rightarrow> bset_run n ops A)"

fun map_op :: "'a set_op \<Rightarrow> ('a, unit) tm_op" where
  "map_op (Ins x) = Put x ()"
| "map_op (Del x) = Rem x"
| "map_op Clr = Clear"

lemma os_step_map: "os_step op s = tm_step (map_op op) s"
  by (cases op) (simp_all add: os_step_def tm_step_def os_insert_map os_erase_map os_clear_map)

lemma os_run_map: "os_run ops s = tm_run (map map_op ops) s"
proof (induction ops arbitrary: s)
  case (Cons op ops)
  then have "os_run ops = tm_run (map map_op ops)" by blast
  then show ?case by (simp add: os_step_map)
qed simp

lemma bset_step_spec: "bset_step n op (dom f) = map_option dom (spec_step n (map_op op) f)"
  by (cases op) (auto simp: bset_step_def spec_step_def)

lemma bset_run_spec: "bset_run n ops (dom f) = map_option dom (spec_run n (map map_op ops) f)"
proof (induction ops arbitrary: f)
  case (Cons op ops)
  then show ?case by (cases "spec_step n (map_op op) f") (simp_all add: bset_step_spec)
qed simp

lemma os_forEach_set:
  assumes "tm_ok s"
  shows "os_forEach s = sorted_list_of_set (dom (lookup_of s))"
proof -
  have "sorted_wrt (<) (os_forEach s)"
    using tm_ok_sorted [OF assms] by (simp add: os_forEach_def sorted_keys_def)
  moreover have "set (os_forEach s) = dom (lookup_of s)"
    using assms by (simp add: os_forEach_def dom_lookup keys_def)
  ultimately show ?thesis
    by (metis strict_sorted_equal sorted_list_of_set.strict_sorted_key_list_of_set
        sorted_list_of_set.set_sorted_key_list_of_set List.finite_set)
qed

text \<open>
  The ordered set, given a buffer of any positive number of nodes, behaves under every sequence of insertions,
  erasures and clearings like a set of at most that many values: an insertion without room is dropped, an
  erasure of a value that is not there never returns, and the iteration lists the values in their order.
\<close>

theorem ordered_set_refines:
  assumes "0 < n"
  shows "\<exists>s :: 'a::linorder ordered_set. os_setBuffer n TreeMap_empty = Inr s \<and>
    (case bset_run (nat n) ops {} of
       None \<Rightarrow> \<forall>s'. os_run ops s \<noteq> Inr s'
     | Some A \<Rightarrow> \<exists>s'. os_run ops s = Inr s' \<and> os_forEach s' = sorted_list_of_set A \<and> mSize s' = int (card A))"
proof -
  obtain s :: "'a ordered_set" where s: "tm_setBuffer n TreeMap_empty = Inr s" "tm_ok s" "mCapacity s = n"
    "forEach (mRoot s) = []"
    using tm_setBuffer_ok [OF assms] by blast
  then have e: "lookup_of s = Map.empty" "capacity_of s = nat n"
    by (simp_all add: lookup_map tm_ok_def fun_eq_iff capacity_of_def)
  have b: "bset_run (nat n) ops {} = map_option dom (spec_run (nat n) (map map_op ops) Map.empty)"
    using bset_run_spec [of "nat n" ops Map.empty] by simp
  show ?thesis
  proof (cases "spec_run (nat n) (map map_op ops) Map.empty")
    case None
    then have "\<forall>s'. os_run ops s \<noteq> Inr s'"
      using tm_run_refines [OF s(2), of "map map_op ops"] e by (simp add: os_run_map)
    then show ?thesis using None s(1) b by (simp add: os_setBuffer_map)
  next
    case (Some f)
    then obtain s' where s': "os_run ops s = Inr s'" "tm_ok s'" "lookup_of s' = f"
      using tm_run_refines [OF s(2), of "map map_op ops"] e by (auto simp: os_run_map)
    then show ?thesis
      using Some s(1) b card_keys [OF s'(2)] os_forEach_set [OF s'(2)] by (auto simp: os_setBuffer_map)
  qed
qed

theorem ordered_set_refines_witness:
  "\<exists>s s'. os_setBuffer 2 TreeMap_empty = Inr s \<and> os_run [Ins 5, Ins 3, Ins (1::nat), Ins 3, Del 5, Ins 7] s = Inr s' \<and>
     os_forEach s' = [3, 7]"
proof -
  have "bset_run (nat 2) [Ins 5, Ins 3, Ins (1::nat), Ins 3, Del 5, Ins 7] {} = Some {3, 7}"
    by (auto simp: bset_step_def)
  then show ?thesis
    using ordered_set_refines [of 2 "[Ins 5, Ins 3, Ins (1::nat), Ins 3, Del 5, Ins 7]"] by auto
qed

text \<open>
  Freeing the set's buffer empties it; freeing the map's keeps the tree, whose nodes are then in memory that is
  gone, and its size.
\<close>

lemma os_freeBuffer_empty: "mWork (mFreeList s) \<Longrightarrow> os_forEach (os_freeBuffer s) = [] \<and> mSize (os_freeBuffer s) = 0"
  by (simp add: os_freeBuffer_def os_forEach_def)

lemma tm_freeBuffer_dangles: "mRoot (tm_freeBuffer m) = mRoot m \<and> mSize (tm_freeBuffer m) = mSize m"
  by (simp add: tm_freeBuffer_def)

lemma os_reuse:
  assumes "mWork (mFreeList s)" and "0 < n"
  shows "\<exists>s'. os_setBuffer n (os_freeBuffer s) = Inr s' \<and> tm_ok s' \<and> os_forEach s' = []"
  using assms by (simp add: os_setBuffer_def os_freeBuffer_def setWork_def fl_reset_def tm_ok_def tree_ok_def blocks_def
      os_forEach_def)

section \<open>String keys\<close>

text \<open>
  A key is the text of a string object, in the order of its \<open>compare\<close> (\<open>Safe_String.compare_text\<close>): the
  characters as unsigned numbers, a shorter text before a longer one.
\<close>

datatype skey = SKey (key_text: string)

fun text_less :: "string \<Rightarrow> string \<Rightarrow> bool" where
  "text_less _ [] = False"
| "text_less [] (_ # _) = True"
| "text_less (a # s) (b # t) \<longleftrightarrow> (of_char a :: nat) < of_char b \<or> a = b \<and> text_less s t"

lemma text_less_lexord: "text_less s t \<longleftrightarrow> (s, t) \<in> lexord {(a, b). (of_char a :: nat) < of_char b}"
  by (induction s t rule: text_less.induct) auto

lemma text_less_irrefl: "\<not> text_less s s"
  by (induction s) auto

lemma text_less_trans: "text_less s t \<Longrightarrow> text_less t u \<Longrightarrow> text_less s u"
  unfolding text_less_lexord by (rule lexord_trans) (auto intro: transI)

lemma text_less_total: "s = t \<or> text_less s t \<or> text_less t s"
proof (induction s t rule: text_less.induct)
  case (3 a s b t)
  then show ?case by (metis linorder_neqE_nat of_char_eq_iff text_less.simps(3))
qed (auto simp: neq_Nil_conv split: list.splits | metis text_less.simps(2) neq_Nil_conv)+

instantiation skey :: linorder
begin

definition less_skey :: "skey \<Rightarrow> skey \<Rightarrow> bool" where
  "less_skey x y = text_less (key_text x) (key_text y)"

definition less_eq_skey :: "skey \<Rightarrow> skey \<Rightarrow> bool" where
  "less_eq_skey x y \<longleftrightarrow> x = y \<or> text_less (key_text x) (key_text y)"

instance
proof
  fix x y z :: skey
  show "x < y \<longleftrightarrow> x \<le> y \<and> \<not> y \<le> x"
    by (auto simp: less_skey_def less_eq_skey_def text_less_irrefl dest: text_less_trans)
  show "x \<le> x" by (simp add: less_eq_skey_def)
  show "x \<le> y \<Longrightarrow> y \<le> z \<Longrightarrow> x \<le> z" by (auto simp: less_eq_skey_def dest: text_less_trans)
  show "x \<le> y \<Longrightarrow> y \<le> x \<Longrightarrow> x = y" using text_less_trans text_less_irrefl by (auto simp: less_eq_skey_def)
  show "x \<le> y \<or> y \<le> x"
    using text_less_total [of "key_text x" "key_text y"] by (auto simp: less_eq_skey_def intro: skey.expand)
qed

end

text \<open>The order is that of the string's own comparison.\<close>

lemma skey_compare:
  "string_ok m \<Longrightarrow> string_ok k \<Longrightarrow> compare (SKey (c_str m)) (SKey (c_str k)) = compare_string m k"
  using text_less_total [of "c_str m" "c_str k"] text_less_irrefl text_less_trans
  by (auto simp: compare_text compare_def less_skey_def text_less_lexord [symmetric])

section \<open>The map with string keys\<close>

type_synonym 'v str_map = "(skey, 'v) tree_map"

text \<open>
  A node copies its key into an array of its own, of one character more than the bound, which the buffer object
  has closed with a NUL. \<open>mem\<close>: what is in the array before.
\<close>

definition node_key :: "nat \<Rightarrow> char list \<Rightarrow> char list \<Rightarrow> skey res" where
  "node_key n mem key =
     rbind (put n nul mem) (\<lambda>buffer. rbind (string_copy key (-1) buffer) (\<lambda>(buffer, _). Inr (SKey (c_str buffer))))"

definition sm_setBuffer :: "int \<Rightarrow> 'v str_map \<Rightarrow> 'v str_map res" where
  "sm_setBuffer node_max m =
     rbind (setWork node_max (mFreeList m)) (\<lambda>fl. Inr (m\<lparr>mCapacity := node_max, mFreeList := fl\<rparr>))"

definition sm_allocBuffer :: "bool \<Rightarrow> int \<Rightarrow> 'v str_map \<Rightarrow> 'v str_map res" where
  "sm_allocBuffer got node_max m = (if got then sm_setBuffer node_max m else Inr m)"

definition sm_freeBuffer :: "'v str_map \<Rightarrow> 'v str_map" where
  "sm_freeBuffer m =
     (if \<not> mWork (mFreeList m) then m else m\<lparr>mCapacity := 0, mFreeList := fl_reset (mFreeList m)\<rparr>)"

definition sm_node_erase :: "nat \<Rightarrow> 'v str_map \<Rightarrow> 'v str_map" where
  "sm_node_erase b m = m\<lparr>mFreeList := fl_free b (mFreeList m), mSize := mSize m - 1\<rparr>"

definition sm_find :: "char list \<Rightarrow> 'v str_map \<Rightarrow> (nat \<times> 'v) option" where
  "sm_find key m = map_option snd (tree_find (SKey (c_str key)) (mRoot m))"

definition sm_insert ::
  "nat \<Rightarrow> char list \<Rightarrow> char list \<Rightarrow> 'v \<Rightarrow> 'v str_map \<Rightarrow> (nat option \<times> 'v str_map) res" where
  "sm_insert n mem key v m =
     (if mSize m \<ge> mCapacity m
      then (case sm_find key m of
              Some (b, old) \<Rightarrow> Inr (Some b, m\<lparr>mRoot := set_value (SKey (c_str key)) v (mRoot m)\<rparr>)
            | None \<Rightarrow> Inr (None, m))
      else (case fl_alloc (mFreeList m) of
              (None, fl) \<Rightarrow> Inl NullDeref
            | (Some b, fl) \<Rightarrow>
                rbind (node_key n mem key) (\<lambda>k.
                let m = m\<lparr>mFreeList := fl, mSize := mSize m + 1\<rparr> in
                rbind (tree_insert k (b, v) (mRoot m)) (\<lambda>(t, es).
                  Inr (Some b, fold sm_node_erase (map fst es) (m\<lparr>mRoot := t\<rparr>))))))"

definition sm_erase :: "char list \<Rightarrow> 'v str_map \<Rightarrow> 'v str_map res" where
  "sm_erase key m =
     rbind (tree_erase (SKey (c_str key)) (mRoot m)) (\<lambda>(t, es).
       Inr (fold sm_node_erase (map fst es) (m\<lparr>mRoot := t\<rparr>)))"

definition sm_eraseNodeForClear :: "nat \<Rightarrow> 'v str_map \<Rightarrow> 'v str_map" where
  "sm_eraseNodeForClear b m = m\<lparr>mFreeList := fl_free b (mFreeList m)\<rparr>"

definition sm_clear :: "'v str_map \<Rightarrow> 'v str_map" where
  "sm_clear m =
     (fold sm_eraseNodeForClear (map (fst \<circ> snd) (forEach (mRoot m))) m)\<lparr>mSize := 0, mRoot := Null\<rparr>"

definition sm_destroy :: "'v str_map \<Rightarrow> 'v str_map" where
  "sm_destroy m = (if \<not> mWork (mFreeList m) then m else sm_freeBuffer (sm_clear m))"

definition sm_forEach :: "'v str_map \<Rightarrow> (string \<times> 'v) list" where
  "sm_forEach m = map (\<lambda>(k, b, v). (key_text k, v)) (forEach (mRoot m))"

text \<open>A node's key is what fits of the text.\<close>

lemma node_key_take:
  assumes "string_ok key" and "length mem = Suc n" and "n < cMaximumLength"
  shows "node_key n mem key = Inr (SKey (take n (c_str key)))"
proof -
  have b: "buffer_ok (mem[n := nul])"
    using assms(2,3) by (auto simp: buffer_ok_def string_ok_def in_set_conv_nth intro!: exI [of _ n])
  have s: "source key (c_str key)" using assms(1) by (simp add: source_def)
  have "asks (-1) (c_str key) (length (c_str key))" by (simp add: asks_def)
  from copy_says [OF s this b] obtain b' where
    "string_copy key (-1) (mem[n := nul]) = Inr (b', int (min (length (c_str key)) n))"
    "says b' (Suc n) (take (min (length (c_str key)) n) (c_str key))"
    using assms(2) by auto
  moreover have "take (min (length (c_str key)) n) (c_str key) = take n (c_str key)"
    by (cases "length (c_str key) \<le> n") simp_all
  ultimately show ?thesis
    using assms(2) by (simp add: node_key_def put_def says_def)
qed

section \<open>As the map on its keys\<close>

lemma sm_find_map: "sm_find key m = tm_find (SKey (c_str key)) m"
  by (simp add: sm_find_def tm_find_def)

lemma sm_node_erase_map: "sm_node_erase = node_erase"
  by (simp add: fun_eq_iff sm_node_erase_def node_erase_def)

lemma sm_eraseNode_map: "sm_eraseNodeForClear = eraseNodeForClear"
  by (simp add: fun_eq_iff sm_eraseNodeForClear_def eraseNodeForClear_def)

lemma sm_clear_map: "sm_clear m = tm_clear m"
  by (simp add: sm_clear_def tm_clear_def sm_eraseNode_map)

lemma sm_erase_map: "sm_erase key m = tm_erase (SKey (c_str key)) m"
  by (simp add: sm_erase_def tm_erase_def sm_node_erase_map)

lemma sm_setBuffer_map: "sm_setBuffer n m = tm_setBuffer n m"
  by (simp add: sm_setBuffer_def tm_setBuffer_def)

text \<open>What a key needs: a string object; and the node's array has one character more than the bound.\<close>

definition node_ok :: "nat \<Rightarrow> char list \<Rightarrow> char list \<Rightarrow> bool" where
  "node_ok n mem key \<longleftrightarrow> string_ok key \<and> length mem = Suc n \<and> n < cMaximumLength"

lemma sm_insert_map:
  assumes "node_ok n mem key"
  shows "sm_insert n mem key v m = tm_insert
    (SKey (if mSize m \<ge> mCapacity m then c_str key else take n (c_str key))) v m"
  using node_key_take [of key mem n] assms
  by (auto simp: sm_insert_def tm_insert_def sm_find_map sm_node_erase_map node_ok_def split: option.splits prod.splits)

datatype 'v sm_op = SPut "char list" "char list" 'v | SRem "char list" | SClear

definition sm_step :: "nat \<Rightarrow> 'v sm_op \<Rightarrow> 'v str_map \<Rightarrow> 'v str_map res" where
  "sm_step n op m =
     (case op of
        SPut mem key v \<Rightarrow> rbind (sm_insert n mem key v m) (\<lambda>(b, m). Inr m)
      | SRem key \<Rightarrow> sm_erase key m
      | SClear \<Rightarrow> Inr (sm_clear m))"

fun sm_run :: "nat \<Rightarrow> 'v sm_op list \<Rightarrow> 'v str_map \<Rightarrow> 'v str_map res" where
  "sm_run n [] m = Inr m"
| "sm_run n (op # ops) m = rbind (sm_step n op m) (sm_run n ops)"

text \<open>The operation on texts, and the operations whose keys fit.\<close>

fun text_op :: "'v sm_op \<Rightarrow> (skey, 'v) tm_op" where
  "text_op (SPut mem key v) = Put (SKey (c_str key)) v"
| "text_op (SRem key) = Rem (SKey (c_str key))"
| "text_op SClear = Clear"

fun fits :: "nat \<Rightarrow> 'v sm_op \<Rightarrow> bool" where
  "fits n (SPut mem key v) \<longleftrightarrow> node_ok n mem key \<and> length (c_str key) \<le> n"
| "fits n _ \<longleftrightarrow> True"

lemma sm_step_map: "fits n op \<Longrightarrow> sm_step n op m = tm_step (text_op op) m"
  by (cases op) (simp_all add: sm_step_def tm_step_def sm_insert_map sm_erase_map sm_clear_map)

lemma sm_run_map: "\<forall>op \<in> set ops. fits n op \<Longrightarrow> sm_run n ops m = tm_run (map text_op ops) m"
proof (induction ops arbitrary: m)
  case (Cons op ops)
  then have "sm_run n ops = tm_run (map text_op ops)" by (simp add: fun_eq_iff)
  then show ?case using Cons.prems by (simp add: sm_step_map)
qed simp

text \<open>
  With keys of at most \<open>n\<close> characters, the map with string keys behaves under every sequence of operations like a
  finite map from texts that holds at most as many keys as its buffer has nodes, and \<open>find\<close> reads that map.
\<close>

theorem str_map_refines:
  assumes "0 < nodes" and "\<forall>op \<in> set ops. fits n op"
  shows "\<exists>m :: 'v str_map. sm_setBuffer nodes TreeMap_empty = Inr m \<and>
    (case spec_run (nat nodes) (map text_op ops) Map.empty of
       None \<Rightarrow> \<forall>m'. sm_run n ops m \<noteq> Inr m'
     | Some f \<Rightarrow> \<exists>m'. sm_run n ops m = Inr m' \<and> (\<forall>key. map_option snd (sm_find key m') = f (SKey (c_str key))))"
proof -
  obtain m :: "'v str_map" where m: "tm_setBuffer nodes TreeMap_empty = Inr m" "tm_ok m" "mCapacity m = nodes"
    "forEach (mRoot m) = []"
    using tm_setBuffer_ok [OF assms(1)] by blast
  then have e: "lookup_of m = Map.empty" "capacity_of m = nat nodes"
    by (simp_all add: lookup_map tm_ok_def fun_eq_iff capacity_of_def)
  have "map_option snd (sm_find key m') = lookup_of m' (SKey (c_str key))" for key and m' :: "'v str_map"
    by (simp add: sm_find_map lookup_of_def)
  then show ?thesis
    using tm_run_refines [OF m(2), of "map text_op ops"] e m(1)
    by (cases "spec_run (nat nodes) (map text_op ops) Map.empty")
      (auto simp: sm_setBuffer_map sm_run_map [OF assms(2)])
qed

theorem str_map_refines_witness:
  "\<exists>m m'. sm_setBuffer 2 TreeMap_empty = Inr m \<and>
     sm_run 4 [SPut (replicate 5 (CHR ''?'')) (cells ''cap'') (1::nat), SPut (replicate 5 (CHR ''?'')) (cells ''body'') 2,
       SRem (cells ''cap'')] m = Inr m' \<and>
     map_option snd (sm_find (cells ''body'') m') = Some 2 \<and> map_option snd (sm_find (cells ''cap'') m') = None"
proof -
  let ?ops = "[SPut (replicate 5 (CHR ''?'')) (cells ''cap'') (1::nat), SPut (replicate 5 (CHR ''?'')) (cells ''body'') 2,
       SRem (cells ''cap'')]"
  have c: "c_str (cells ''cap'') = ''cap''" "c_str (cells ''body'') = ''body''"
    by (simp_all add: c_str_def cells_def nul_def)
  have k: "string_ok (cells ''cap'')" "string_ok (cells ''body'')"
    by (simp_all add: string_ok_def cells_def cMaximumLength_def)
  have f: "\<forall>op \<in> set ?ops. fits 4 op"
    using k by (simp add: node_ok_def c cMaximumLength_def)
  have s: "spec_run (nat 2) (map text_op ?ops) Map.empty = Some [SKey ''body'' \<mapsto> 2]"
    by (auto simp: spec_step_def c fun_eq_iff)
  have n: "(0::int) < 2" by simp
  obtain m m' where "sm_setBuffer 2 TreeMap_empty = Inr m" "sm_run 4 ?ops m = Inr m'"
    "\<forall>key. map_option snd (sm_find key m') = [SKey ''body'' \<mapsto> 2] (SKey (c_str key))"
    using str_map_refines [OF n f] unfolding s option.case by blast
  moreover from this(3) have "map_option snd (sm_find (cells ''body'') m') = Some 2"
    "map_option snd (sm_find (cells ''cap'') m') = None"
    by (simp_all add: c)
  ultimately show ?thesis by blast
qed

text \<open>
  A longer key is cut when it is stored, and searched for in full: what was inserted under it is
  never found again under it.
\<close>

lemma str_map_long_key:
  assumes "tm_ok m" and "mSize m < mCapacity m" and "node_ok n mem key" and "n < length (c_str key)"
    and "sm_find key m = None"
  shows "\<exists>b m'. sm_insert n mem key v m = Inr (Some b, m') \<and> tm_ok m' \<and> sm_find key m' = None \<and>
    lookup_of m' (SKey (take n (c_str key))) = Some v"
proof -
  obtain b m' where m': "tm_insert (SKey (take n (c_str key))) v m = Inr (Some b, m')" "tm_ok m'"
    "lookup_of m' = (lookup_of m)(SKey (take n (c_str key)) \<mapsto> v)"
    using tm_put [OF assms(1)] assms(2) by blast
  have "c_str key \<noteq> take n (c_str key)" using assms(4) by (metis length_take min.absorb4 nat_neq_iff)
  moreover have "lookup_of m (SKey (c_str key)) = None" using assms(5) by (simp add: sm_find_map lookup_of_def)
  ultimately have "lookup_of m' (SKey (c_str key)) = None" by (simp add: m'(3))
  then have "sm_find key m' = None" by (simp add: sm_find_map lookup_of_def)
  then show ?thesis using m' assms(2) by (auto simp: sm_insert_map [OF assms(3)])
qed

end
