(* ===== verification/String_Builder.thy ===== *)
theory String_Builder
  imports Buffered_String
begin

text \<open>
  The string builder (\<open>sead/prim/seadStringBuilder.h\<close>): a buffer that keeps the length of its text beside it, as
  far as it has bodies. The searches compare with the string class of \<open>Safe_String\<close>; the formatter has no
  body in the sources and is the parameter of the two operations that use it. What a builder means is the text
  \<open>builder_text\<close>, and the operations are stated over it.
\<close>

section \<open>Operations\<close>

record builder =
  sb_buffer :: "char list"
  sb_length :: int
  sb_bufferSize :: int

definition builder_new :: "char list \<Rightarrow> int \<Rightarrow> builder res" where
  "builder_new mem buffer_size =
     rbind (put 0 nul mem) (\<lambda>m. Inr \<lparr>sb_buffer = m, sb_length = 0, sb_bufferSize = buffer_size\<rparr>)"

definition builder_isEmpty :: "builder \<Rightarrow> bool" where
  "builder_isEmpty b \<longleftrightarrow> sb_length b = 0"

definition builder_at :: "int \<Rightarrow> builder \<Rightarrow> char res" where
  "builder_at idx b =
     (if idx < 0 \<or> idx > sb_length b then Inr nul
      else if nat idx < length (sb_buffer b) then Inr (sb_buffer b ! nat idx) else Inl OutOfBounds)"

definition builder_getPart :: "int \<Rightarrow> builder \<Rightarrow> char list" where
  "builder_getPart at b = (if at < 0 \<or> at > sb_length b then cells [] else drop (nat at) (sb_buffer b))"

text \<open>The iterators: the characters from \<open>begin\<close> to \<open>end\<close>.\<close>

fun builder_walk :: "nat \<Rightarrow> int \<Rightarrow> builder \<Rightarrow> string res" where
  "builder_walk 0 i b = Inr []"
| "builder_walk (Suc n) i b = rbind (builder_at i b) (\<lambda>c. rbind (builder_walk n (i + 1) b) (\<lambda>s. Inr (c # s)))"

definition builder_iterate :: "builder \<Rightarrow> string res" where
  "builder_iterate b = builder_walk (nat (sb_length b)) 0 b"

fun has_char :: "nat \<Rightarrow> char \<Rightarrow> char list \<Rightarrow> bool" where
  "has_char 0 c m = False"
| "has_char (Suc n) c [] = False"
| "has_char (Suc n) c (d # m) = (if d = c then True else has_char n c m)"

definition builder_include :: "char \<Rightarrow> builder \<Rightarrow> bool" where
  "builder_include c b = has_char (nat (sb_length b)) c (sb_buffer b)"

definition builder_findIndex :: "char list \<Rightarrow> int \<Rightarrow> builder \<Rightarrow> int" where
  "builder_findIndex str start_pos b =
     (let len = sb_length b
      in if start_pos < 0 \<or> start_pos > len then -1
         else findIndex_loop start_pos (len - int (calcLength str)) (int (calcLength str)) (sb_buffer b) str)"

definition builder_include_string :: "char list \<Rightarrow> builder \<Rightarrow> bool" where
  "builder_include_string str b \<longleftrightarrow> builder_findIndex str 0 b \<noteq> -1"

definition builder_rfindIndex :: "char list \<Rightarrow> builder \<Rightarrow> int" where
  "builder_rfindIndex str b =
     (let i = sb_length b - int (calcLength str)
      in if i < 0 then -1 else rfindIndex_loop (nat i) (int (calcLength str)) (sb_buffer b) str)"

definition builder_startsWith :: "char list \<Rightarrow> builder \<Rightarrow> bool" where
  "builder_startsWith pre b \<longleftrightarrow> builder_findIndex pre 0 b = 0"

fun builder_equal_loop :: "nat \<Rightarrow> char list \<Rightarrow> char list \<Rightarrow> bool" where
  "builder_equal_loop 0 m k = True"
| "builder_equal_loop (Suc n) (a # m) (b # k) = (if b = nul then False else if a \<noteq> b then False else builder_equal_loop n m k)"
| "builder_equal_loop (Suc n) _ _ = False"

definition builder_isEqual :: "char list \<Rightarrow> builder \<Rightarrow> bool" where
  "builder_isEqual str b = builder_equal_loop (nat (sb_length b)) (sb_buffer b) str"

fun builder_comparen_loop :: "nat \<Rightarrow> char list \<Rightarrow> char list \<Rightarrow> int" where
  "builder_comparen_loop 0 m k = 0"
| "builder_comparen_loop (Suc n) (a # m) (b # k) =
     (if (of_char a :: nat) < of_char b then -1
      else if (of_char b :: nat) < of_char a then 1
      else if b = nul then 1
      else builder_comparen_loop n m k)"
| "builder_comparen_loop (Suc n) _ _ = 0"

definition builder_comparen :: "char list \<Rightarrow> int \<Rightarrow> builder \<Rightarrow> int" where
  "builder_comparen str n b =
     builder_comparen_loop (nat (if n > sb_length b then sb_length b else n)) (sb_buffer b) str"

definition builder_clear :: "builder \<Rightarrow> builder res" where
  "builder_clear b = rbind (put 0 nul (sb_buffer b)) (\<lambda>m. Inr (b\<lparr>sb_buffer := m, sb_length := 0\<rparr>))"

text \<open>\<open>fmt\<close>: what the formatter writes into the given memory of the given size, and its answer.\<close>

definition builder_formatV :: "(char list \<Rightarrow> int \<Rightarrow> char list \<times> int) \<Rightarrow> builder \<Rightarrow> int \<times> builder" where
  "builder_formatV fmt b =
     (case fmt (sb_buffer b) (sb_bufferSize b) of (m, n) \<Rightarrow> (n, b\<lparr>sb_buffer := m, sb_length := n\<rparr>))"

definition builder_appendWithFormatV :: "(char list \<Rightarrow> int \<Rightarrow> char list \<times> int) \<Rightarrow> builder \<Rightarrow> int \<times> builder" where
  "builder_appendWithFormatV fmt b =
     (case fmt (drop (nat (sb_length b)) (sb_buffer b)) (sb_bufferSize b - sb_length b) of
        (m, n) \<Rightarrow>
          (n, b\<lparr>sb_buffer := take (nat (sb_length b)) (sb_buffer b) @ m, sb_length := sb_length b + n\<rparr>))"

section \<open>The text of a builder\<close>

definition builder_ok :: "builder \<Rightarrow> bool" where
  "builder_ok b \<longleftrightarrow> string_ok (sb_buffer b) \<and> sb_length b = int (length (c_str (sb_buffer b))) \<and>
     sb_bufferSize b = int (length (sb_buffer b))"

definition builder_text :: "builder \<Rightarrow> string" where
  "builder_text b = c_str (sb_buffer b)"

lemma builder_new_ok:
  assumes "mem \<noteq> []" and "length mem \<le> cMaximumLength"
  shows "\<exists>b. builder_new mem (int (length mem)) = Inr b \<and> builder_ok b \<and> builder_text b = []"
  using assms by (cases mem) (auto simp: builder_new_def put_def builder_ok_def builder_text_def string_ok_def c_str_def)

lemma builder_clear_ok:
  assumes "builder_ok b"
  shows "\<exists>b'. builder_clear b = Inr b' \<and> builder_ok b' \<and> builder_text b' = []"
  using assms by (cases "sb_buffer b")
    (auto simp: builder_clear_def put_def builder_ok_def builder_text_def string_ok_def c_str_def)

lemma builder_at_text:
  assumes "builder_ok b" and "i < length (builder_text b)"
  shows "builder_at (int i) b = Inr (builder_text b ! i)"
  using assms length_c_str_le [of "sb_buffer b"]
  by (simp add: builder_at_def builder_ok_def builder_text_def nth_c_str)

lemma builder_walk_text:
  "builder_ok b \<Longrightarrow> k + n = length (builder_text b) \<Longrightarrow> builder_walk n (int k) b = Inr (drop k (builder_text b))"
proof (induction n arbitrary: k)
  case (Suc n)
  then have k: "k < length (builder_text b)" by simp
  have "builder_walk n (int k + 1) b = Inr (drop (Suc k) (builder_text b))"
    using Suc.IH [of "Suc k"] Suc.prems by (simp add: add.commute)
  then show ?case using builder_at_text [OF Suc.prems(1) k] k by (simp add: Cons_nth_drop_Suc)
qed simp

lemma builder_iterate_text: "builder_ok b \<Longrightarrow> builder_iterate b = Inr (builder_text b)"
  using builder_walk_text [of b 0 "length (builder_text b)"]
  by (simp add: builder_iterate_def builder_ok_def builder_text_def)

lemma has_char_take: "n \<le> length m \<Longrightarrow> has_char n c m \<longleftrightarrow> c \<in> set (take n m)"
  by (induction n c m rule: has_char.induct) auto

lemma take_text: "take (length (c_str m)) m = c_str m"
  by (simp add: c_str_def takeWhile_eq_take [symmetric])

lemma builder_include_text: "builder_ok b \<Longrightarrow> builder_include c b \<longleftrightarrow> c \<in> set (builder_text b)"
  using length_c_str_le [of "sb_buffer b"]
  by (simp add: builder_include_def builder_ok_def builder_text_def has_char_take take_text)

text \<open>The searches answer as those of the string class on the builder's text.\<close>

lemma builder_searches:
  assumes "builder_ok b" and "string_ok str"
  shows "builder_findIndex str start b = findIndex_from start (sb_buffer b) str"
    and "builder_rfindIndex str b = rfindIndex (sb_buffer b) str"
    and "builder_include_string str b \<longleftrightarrow> sublist (c_str str) (builder_text b)"
    and "builder_startsWith str b \<longleftrightarrow> prefix (c_str str) (builder_text b)"
proof -
  have b: "string_ok (sb_buffer b)" "sb_length b = int (calcLength (sb_buffer b))"
    using assms(1) by (simp_all add: builder_ok_def)
  show f: "builder_findIndex str start b = findIndex_from start (sb_buffer b) str" for start
    by (simp add: builder_findIndex_def findIndex_from_def b(2) Let_def)
  show "builder_rfindIndex str b = rfindIndex (sb_buffer b) str"
    by (simp add: builder_rfindIndex_def rfindIndex_def b(2))
  have z: "findIndex_from 0 (sb_buffer b) str = findIndex (sb_buffer b) str"
    by (simp add: findIndex_from_def findIndex_def)
  show "builder_include_string str b \<longleftrightarrow> sublist (c_str str) (builder_text b)"
    using include_string_text [OF b(1) assms(2)]
    by (simp add: builder_include_string_def f z include_string_def builder_text_def)
  let ?o = "occurs (c_str str) (builder_text b)"
  have i: "findIndex (sb_buffer b) str = (if sublist (c_str str) (builder_text b) then int (LEAST i. ?o i) else -1)"
    using findIndex_first [OF b(1) assms(2)] by (simp add: builder_text_def)
  have "prefix (c_str str) (builder_text b) \<longleftrightarrow> ?o 0"
    by (auto simp: occurs_def prefix_length_le)
  moreover have "?o 0 \<Longrightarrow> (LEAST i. ?o i) = 0" by (rule Least_eq_0)
  moreover have "(LEAST i. ?o i) = 0 \<Longrightarrow> ?o 0" if "sublist (c_str str) (builder_text b)"
    using that LeastI_ex [of ?o] by (auto simp: sublist_occurs)
  ultimately show "builder_startsWith str b \<longleftrightarrow> prefix (c_str str) (builder_text b)"
    using prefix_imp_sublist by (auto simp: builder_startsWith_def f z i)
qed

text \<open>
  \<open>isEqual\<close> stops at the end of the builder's text without looking whether the other string ends there too:
  it decides whether the text is a prefix.
\<close>

lemma builder_equal_loop_prefix:
  "n = length (c_str m) \<Longrightarrow> nul \<in> set m \<Longrightarrow> nul \<in> set k \<Longrightarrow> builder_equal_loop n m k \<longleftrightarrow> prefix (c_str m) (c_str k)"
  by (induction n m k rule: builder_equal_loop.induct) (auto simp: c_str_def split: if_splits)

lemma builder_isEqual_prefix:
  assumes "builder_ok b" and "string_ok str"
  shows "builder_isEqual str b \<longleftrightarrow> prefix (builder_text b) (c_str str)"
  using assms builder_equal_loop_prefix [of "length (builder_text b)" "sb_buffer b" str]
  by (simp add: builder_isEqual_def builder_ok_def builder_text_def string_ok_def)

lemma isEqual_not_equal: "\<exists>b. builder_ok b \<and> builder_text b = ''Cap'' \<and> builder_isEqual (cells ''CapWorldHomeStage'') b"
proof -
  let ?b = "\<lparr>sb_buffer = cells ''Cap'', sb_length = 3, sb_bufferSize = 4\<rparr>"
  have "builder_ok ?b" "builder_text ?b = ''Cap''"
    by (simp_all add: builder_ok_def builder_text_def cells_def c_str_def nul_def string_ok_def cMaximumLength_def)
  moreover have "builder_isEqual (cells ''CapWorldHomeStage'') ?b"
    by (simp add: builder_isEqual_def cells_def nul_def eval_nat_numeral)
  ultimately show ?thesis by blast
qed

lemma builder_comparen_zero:
  "n \<le> length (c_str m) \<Longrightarrow> nul \<in> set k \<Longrightarrow> builder_comparen_loop n m k = 0 \<longleftrightarrow> take n (c_str m) = take n (c_str k)"
proof (induction n m k rule: builder_comparen_loop.induct)
  case (2 n a m b k)
  have neq: "a \<noteq> b \<Longrightarrow> (of_char a :: nat) < of_char b \<or> (of_char b :: nat) < of_char a"
    by (metis linorder_neqE_nat of_char_eq_iff)
  show ?case using 2 neq by (auto simp: c_str_def split: if_splits)
qed (auto simp: c_str_def)

lemma builder_comparen_text:
  assumes "builder_ok b" and "string_ok str" and "0 \<le> n"
  shows "builder_comparen str n b = 0 \<longleftrightarrow>
    take (min (nat n) (length (builder_text b))) (c_str str) = take (nat n) (builder_text b)"
proof -
  have e: "nat (if n > sb_length b then sb_length b else n) = min (nat n) (length (builder_text b))"
    using assms(1,3) by (auto simp: builder_ok_def builder_text_def)
  show ?thesis
    using builder_comparen_zero [of "min (nat n) (length (builder_text b))" "sb_buffer b" str] assms(2)
    by (auto simp: builder_comparen_def e string_ok_def builder_text_def min_def)
qed

end
