(* ===== verification/Camera.thy ===== *)
theory Camera
  imports Matrix33
begin

text \<open>
  The mod's camera (\<open>cameras/CameraPoserCustom.cpp\<close>). The computations are over any type with the arithmetic
  of \<open>float\<close>, in the order of the source; what the engine answers in a frame (the target, gravity, the
  stick) is an input, and its functions on vectors are parameters. That the camera stays at its distance
  is shown for exact numbers.
\<close>

section \<open>Vectors\<close>

fun cvec_add :: "'a::plus vec3 \<Rightarrow> 'a vec3 \<Rightarrow> 'a vec3" where
  "cvec_add (V3 ax ay az) (V3 bx b_y bz) = V3 (ax + bx) (ay + b_y) (az + bz)"

fun cvec_diff :: "'a::minus vec3 \<Rightarrow> 'a vec3 \<Rightarrow> 'a vec3" where
  "cvec_diff (V3 ax ay az) (V3 bx b_y bz) = V3 (ax - bx) (ay - b_y) (az - bz)"

fun cvec_scale :: "'a::times \<Rightarrow> 'a vec3 \<Rightarrow> 'a vec3" where
  "cvec_scale t (V3 x y z) = V3 (x * t) (y * t) (z * t)"

fun cvec_neg :: "'a::uminus vec3 \<Rightarrow> 'a vec3" where
  "cvec_neg (V3 x y z) = V3 (- x) (- y) (- z)"

fun cvec_raise :: "'a::plus \<Rightarrow> 'a vec3 \<Rightarrow> 'a vec3" where
  "cvec_raise h (V3 x y z) = V3 x (y + h) z"

fun cvec_flat :: "'a::{zero, minus} vec3 \<Rightarrow> 'a vec3 \<Rightarrow> 'a vec3" where
  "cvec_flat (V3 px p_y pz) (V3 ax a_y az) = V3 (px - ax) 0 (pz - az)"

definition vec3_ey :: "'a::{zero, one} vec3" where
  "vec3_ey = V3 0 1 0"

section \<open>The camera\<close>

text \<open>The members of the class and those it inherits and writes.\<close>

record 'a camera_poser =
  mOffsetY :: 'a
  mDist :: 'a
  mAngleV :: 'a
  mAngleH :: 'a
  mPrevH :: 'a
  mPrevV :: 'a
  mSnapSpeed :: 'a
  mIsResetAngleIfSwitchTarget :: bool
  mPrevTargetDir :: "'a vec3"
  mPosition :: "'a vec3"
  mTargetTrans :: "'a vec3"
  mCameraUp :: "'a vec3"

text \<open>The engine's functions on vectors, and its answers in a frame.\<close>

record 'a camera_engine =
  ce_lerpVec :: "'a vec3 \<Rightarrow> 'a vec3 \<Rightarrow> 'a \<Rightarrow> 'a vec3"
  ce_normalizeOrDirZ :: "'a vec3 \<Rightarrow> 'a vec3"
  ce_rotateDegree :: "'a vec3 \<Rightarrow> 'a vec3 \<Rightarrow> 'a \<Rightarrow> 'a vec3"
  ce_angleOnPlane :: "'a vec3 \<Rightarrow> 'a vec3 \<Rightarrow> 'a vec3 \<Rightarrow> 'a"

record 'a camera_frame =
  cf_isFirstCalc :: bool
  cf_targetTrans :: "'a vec3"
  cf_targetFront :: "'a vec3"
  cf_lookPos :: "'a vec3"
  cf_lookAt :: "'a vec3"
  cf_isChangeSubTarget :: bool
  cf_gravity :: "'a vec3 \<Rightarrow> 'a vec3"
  cf_stick :: "'a \<times> 'a"
  cf_stickScale :: 'a
  cf_stickLevel :: 'a

text \<open>The entries of the camera's parameters; a missing one leaves the member as it is.\<close>

record 'a camera_param =
  cp_OffsetY :: "'a option"
  cp_Distance :: "'a option"
  cp_GravitySnapSpeed :: "'a option"
  cp_IsReset :: "bool option"

definition keep :: "'b \<Rightarrow> 'b option \<Rightarrow> 'b" where
  "keep x p = (case p of None \<Rightarrow> x | Some y \<Rightarrow> y)"

definition camera_loadParam :: "'a camera_param \<Rightarrow> 'a camera_poser \<Rightarrow> 'a camera_poser" where
  "camera_loadParam p c =
     c\<lparr>mOffsetY := keep (mOffsetY c) (cp_OffsetY p), mDist := keep (mDist c) (cp_Distance p),
       mSnapSpeed := keep (mSnapSpeed c) (cp_GravitySnapSpeed p),
       mIsResetAngleIfSwitchTarget := keep (mIsResetAngleIfSwitchTarget c) (cp_IsReset p)\<rparr>"

text \<open>Without a first calculation the target is the one the camera had before.\<close>

definition camera_start ::
  "'a::{zero, plus, minus, times} camera_engine \<Rightarrow> 'a camera_frame \<Rightarrow> 'a camera_poser \<Rightarrow> 'a camera_poser" where
  "camera_start e f c =
     (if cf_isFirstCalc f
      then let c = c\<lparr>mTargetTrans := cvec_raise (mOffsetY c) (cf_targetTrans f)\<rparr>
           in c\<lparr>mPosition := cvec_diff (mTargetTrans c) (cvec_scale (mDist c) (cf_targetFront f))\<rparr>
      else let targetFront = ce_normalizeOrDirZ e (cvec_flat (cf_lookPos f) (cf_lookAt f))
           in c\<lparr>mPosition := cvec_add (cvec_scale (mDist c) targetFront) (mTargetTrans c)\<rparr>)"

definition camera_switch :: "'a::{plus, minus, times} camera_frame \<Rightarrow> 'a camera_poser \<Rightarrow> 'a camera_poser" where
  "camera_switch f c =
     (if cf_isChangeSubTarget f \<and> mIsResetAngleIfSwitchTarget c
      then let c = c\<lparr>mTargetTrans := cvec_raise (mOffsetY c) (cf_targetTrans f)\<rparr>
           in c\<lparr>mPosition := cvec_diff (mTargetTrans c) (cvec_scale (mDist c) (cf_targetFront f))\<rparr>
      else c)"

text \<open>The up direction follows gravity, and the target is above the player in that direction.\<close>

definition camera_follow ::
  "'a::{zero, one, plus, minus, uminus, times} camera_engine \<Rightarrow> 'a camera_frame \<Rightarrow> 'a camera_poser \<Rightarrow> 'a camera_poser" where
  "camera_follow e f c =
     (let up = ce_lerpVec e (mCameraUp c) (cvec_neg (cf_gravity f vec3_ey)) (mSnapSpeed c)
      in c\<lparr>mCameraUp := up, mTargetTrans := cvec_add (cf_targetTrans f) (cvec_scale (mOffsetY c) up)\<rparr>)"

definition camera_turn ::
  "'a::{zero, one, plus, minus, uminus, times} camera_engine \<Rightarrow> 'a camera_frame \<Rightarrow> 'a camera_poser \<Rightarrow> 'a camera_poser" where
  "camera_turn e f c =
     (let targetDir = ce_normalizeOrDirZ e (cvec_diff (mPosition c) (mTargetTrans c));
          rightAxis = vec3_cross targetDir (mCameraUp c);
          stickSpeed = cf_stickScale f * cf_stickLevel f;
          rotatedVec = ce_rotateDegree e targetDir (mCameraUp c) (fst (cf_stick f) * - stickSpeed);
          rotatedVec = ce_rotateDegree e rotatedVec rightAxis (snd (cf_stick f) * - stickSpeed)
      in c\<lparr>mAngleH := ce_angleOnPlane e rotatedVec (mPrevTargetDir c) (mCameraUp c),
           mAngleV := ce_angleOnPlane e rotatedVec (mPrevTargetDir c) rightAxis,
           mPosition := cvec_add (mTargetTrans c) (cvec_scale (mDist c) rotatedVec),
           mPrevTargetDir := rotatedVec\<rparr>)"

definition camera_update ::
  "'a::{zero, one, plus, minus, uminus, times} camera_engine \<Rightarrow> 'a camera_frame \<Rightarrow> 'a camera_poser \<Rightarrow> 'a camera_poser" where
  "camera_update e f c = camera_turn e f (camera_follow e f (camera_switch f c))"

section \<open>The distance\<close>

definition squared :: "'a::{plus, times} vec3 \<Rightarrow> 'a" where
  "squared v = vec3_dot v v"

definition camera_distance2 :: "'a::{plus, minus, times} camera_poser \<Rightarrow> 'a" where
  "camera_distance2 c = squared (cvec_diff (mPosition c) (mTargetTrans c))"

text \<open>What the names of the engine's functions promise: a direction has length one, a rotation keeps the length.\<close>

definition engine_law :: "'a::field camera_engine \<Rightarrow> bool" where
  "engine_law e \<longleftrightarrow> (\<forall>v. squared (ce_normalizeOrDirZ e v) = 1) \<and>
     (\<forall>v a d. squared (ce_rotateDegree e v a d) = squared v)"

lemma squared_scale: "squared (cvec_scale t v) = t\<^sup>2 * squared v" for t :: "'a::field"
  by (cases v) (simp add: squared_def power2_eq_square algebra_simps)

lemma vec3_back:
  "cvec_diff (cvec_add a v) a = v" "cvec_diff (cvec_add v a) a = v" for v :: "'a::field vec3"
  by (cases a; cases v; simp)+

lemma vec3_back_neg: "cvec_diff (cvec_diff a v) a = cvec_neg v" for v :: "'a::field vec3"
  by (cases a; cases v) simp

lemma squared_neg: "squared (cvec_neg v) = squared v" for v :: "'a::field vec3"
  by (cases v) (simp add: squared_def)

lemma update_fields [simp]:
  "mDist (camera_switch f c) = mDist c" "mDist (camera_follow e f c) = mDist c" "mDist (camera_turn e f c) = mDist c"
  "mOffsetY (camera_switch f c) = mOffsetY c" "mSnapSpeed (camera_switch f c) = mSnapSpeed c"
  "mCameraUp (camera_switch f c) = mCameraUp c" "mTargetTrans (camera_turn e f c) = mTargetTrans c"
  by (simp_all add: camera_switch_def camera_follow_def camera_turn_def Let_def)

text \<open>
  After every frame the camera is at its distance from the target, whatever the player, the stick and
  gravity did, and from wherever it was; the target is the player's place moved by the offset along the
  new up direction.
\<close>

theorem camera_keeps_distance:
  fixes c :: "'a::field camera_poser"
  assumes "engine_law e"
  shows "camera_distance2 (camera_update e f c) = (mDist c)\<^sup>2 \<and>
    mTargetTrans (camera_update e f c) = cvec_add (cf_targetTrans f)
      (cvec_scale (mOffsetY c) (ce_lerpVec e (mCameraUp c) (cvec_neg (cf_gravity f vec3_ey)) (mSnapSpeed c)))"
proof
  let ?c = "camera_follow e f (camera_switch f c)"
  have "camera_distance2 (camera_turn e f ?c) = (mDist ?c)\<^sup>2"
    using assms by (simp add: camera_distance2_def camera_turn_def Let_def vec3_back squared_scale engine_law_def)
  then show "camera_distance2 (camera_update e f c) = (mDist c)\<^sup>2" by (simp add: camera_update_def)
  have "mTargetTrans ?c = cvec_add (cf_targetTrans f)
      (cvec_scale (mOffsetY c) (ce_lerpVec e (mCameraUp c) (cvec_neg (cf_gravity f vec3_ey)) (mSnapSpeed c)))"
    by (simp add: camera_follow_def Let_def)
  then show "mTargetTrans (camera_update e f c) = cvec_add (cf_targetTrans f)
      (cvec_scale (mOffsetY c) (ce_lerpVec e (mCameraUp c) (cvec_neg (cf_gravity f vec3_ey)) (mSnapSpeed c)))"
    by (simp add: camera_update_def)
qed

lemma camera_start_distance:
  fixes c :: "'a::field camera_poser"
  assumes "engine_law e" and "squared (cf_targetFront f) = 1"
  shows "camera_distance2 (camera_start e f c) = (mDist c)\<^sup>2"
  using assms by (simp add: camera_distance2_def camera_start_def Let_def vec3_back vec3_back_neg squared_neg
      squared_scale engine_law_def)

text \<open>An engine that only knows half turns about the second axis, on a camera one unit above its target.\<close>

definition flat_engine :: "rat camera_engine" where
  "flat_engine =
     \<lparr>ce_lerpVec = (\<lambda>a b t. cvec_add a (cvec_scale t (cvec_diff b a))), ce_normalizeOrDirZ = (\<lambda>_. V3 0 0 1),
      ce_rotateDegree = (\<lambda>v _ d. if d = 180 then cvec_neg v else v), ce_angleOnPlane = (\<lambda>_ _ _. 0)\<rparr>"

definition camera0 :: "rat camera_poser" where
  "camera0 =
     \<lparr>mOffsetY = 120, mDist = 1600, mAngleV = 0, mAngleH = 0, mPrevH = 0, mPrevV = 0, mSnapSpeed = 3 / 20, mIsResetAngleIfSwitchTarget = False,
      mPrevTargetDir = vec3_ey, mPosition = V3 0 0 0, mTargetTrans = V3 0 0 0, mCameraUp = vec3_ey\<rparr>"

definition camera_frame0 :: "rat camera_frame" where
  "camera_frame0 =
     \<lparr>cf_isFirstCalc = True, cf_targetTrans = V3 10 20 30, cf_targetFront = V3 0 0 1, cf_lookPos = V3 0 0 0,
      cf_lookAt = V3 0 0 0, cf_isChangeSubTarget = False, cf_gravity = cvec_neg, cf_stick = (-1, 0), cf_stickScale = 180,
      cf_stickLevel = 1\<rparr>"

theorem camera_keeps_distance_witness:
  "camera_distance2 (camera_update flat_engine camera_frame0 camera0) = 1600\<^sup>2"
proof -
  have "engine_law flat_engine" by (auto simp: engine_law_def flat_engine_def squared_neg) (simp add: squared_def)
  from camera_keeps_distance [OF this, of camera_frame0 camera0] show ?thesis by (simp add: camera0_def)
qed

end
