(* ===== verification/Bound_Box.thy ===== *)
theory Bound_Box
  imports Camera
begin

text \<open>
  The boxes of the engine's library (\<open>sead/math/seadBoundBox.h\<close>, \<open>seadBoundBox.hpp\<close>) in two and three
  dimensions, over any type with the arithmetic of the template. A box stands for a set of points; what the
  operations do to that set is shown for exact numbers.
\<close>

section \<open>One dimension\<close>

text \<open>Every operation of the source treats the axes one by one, each as a pair of a lower and an upper end.\<close>

definition span_set :: "'a::ord \<Rightarrow> 'a \<Rightarrow> 'a \<times> 'a" where
  "span_set x0 x1 = (if x0 < x1 then (x0, x1) else (x1, x0))"

definition span_center :: "'a::{one, plus, inverse} \<times> 'a \<Rightarrow> 'a" where
  "span_center s = (fst s + snd s) / two"

definition span_scale :: "'a::{one, plus, minus, times, inverse} \<Rightarrow> 'a \<times> 'a \<Rightarrow> 'a \<times> 'a" where
  "span_scale sx s =
     (let siz = (snd s - fst s) * (sx / two); center = (fst s + snd s) / two
      in (center - siz, center + siz))"

definition span_offset :: "'a::plus \<Rightarrow> 'a \<times> 'a \<Rightarrow> 'a \<times> 'a" where
  "span_offset d s = (fst s + d, snd s + d)"

section \<open>Two dimensions\<close>

datatype 'a vec2 = V2 (v2_x: 'a) (v2_y: 'a)

record 'a box2 =
  b2_min :: "'a vec2"
  b2_max :: "'a vec2"

definition box2_x :: "'a box2 \<Rightarrow> 'a \<times> 'a" where
  "box2_x b = (v2_x (b2_min b), v2_x (b2_max b))"

definition box2_y :: "'a box2 \<Rightarrow> 'a \<times> 'a" where
  "box2_y b = (v2_y (b2_min b), v2_y (b2_max b))"

definition box2_of :: "'a \<times> 'a \<Rightarrow> 'a \<times> 'a \<Rightarrow> 'a box2" where
  "box2_of x y = \<lparr>b2_min = V2 (fst x) (fst y), b2_max = V2 (snd x) (snd y)\<rparr>"

text \<open>\<open>lo\<close> and \<open>hi\<close>: the smallest and the largest number of the type.\<close>

definition box2_setUndef :: "'a \<Rightarrow> 'a \<Rightarrow> 'a box2" where
  "box2_setUndef lo hi = \<lparr>b2_min = V2 hi hi, b2_max = V2 lo lo\<rparr>"

definition box2_set :: "'a::ord \<Rightarrow> 'a \<Rightarrow> 'a \<Rightarrow> 'a \<Rightarrow> 'a box2" where
  "box2_set x0 y0 x1 y1 = box2_of (span_set x0 x1) (span_set y0 y1)"

definition box2_set_points :: "'a vec2 \<Rightarrow> 'a vec2 \<Rightarrow> 'a box2" where
  "box2_set_points mn mx = \<lparr>b2_min = mn, b2_max = mx\<rparr>"

definition box2_setMin :: "'a vec2 \<Rightarrow> 'a box2 \<Rightarrow> 'a box2" where
  "box2_setMin mn b = b\<lparr>b2_min := mn\<rparr>"

definition box2_setMax :: "'a vec2 \<Rightarrow> 'a box2 \<Rightarrow> 'a box2" where
  "box2_setMax mx b = b\<lparr>b2_max := mx\<rparr>"

definition box2_isUndef :: "'a::ord box2 \<Rightarrow> bool" where
  "box2_isUndef b \<longleftrightarrow> v2_x (b2_max b) < v2_x (b2_min b) \<or> v2_y (b2_max b) < v2_y (b2_min b)"

definition box2_isInside :: "'a::ord vec2 \<Rightarrow> 'a box2 \<Rightarrow> bool" where
  "box2_isInside p b \<longleftrightarrow> v2_x (b2_min b) \<le> v2_x p \<and> v2_x p \<le> v2_x (b2_max b) \<and>
     v2_y (b2_min b) \<le> v2_y p \<and> v2_y p \<le> v2_y (b2_max b)"

definition box2_getCenter :: "'a::{one, plus, inverse} box2 \<Rightarrow> 'a vec2" where
  "box2_getCenter b = V2 (span_center (box2_x b)) (span_center (box2_y b))"

definition box2_getSizeX :: "'a::minus box2 \<Rightarrow> 'a" where
  "box2_getSizeX b = v2_x (b2_max b) - v2_x (b2_min b)"

definition box2_getSizeY :: "'a::minus box2 \<Rightarrow> 'a" where
  "box2_getSizeY b = v2_y (b2_max b) - v2_y (b2_min b)"

definition box2_getHalfSizeX :: "'a::{one, plus, minus, inverse} box2 \<Rightarrow> 'a" where
  "box2_getHalfSizeX b = (v2_x (b2_max b) - v2_x (b2_min b)) / two"

definition box2_getHalfSizeY :: "'a::{one, plus, minus, inverse} box2 \<Rightarrow> 'a" where
  "box2_getHalfSizeY b = (v2_y (b2_max b) - v2_y (b2_min b)) / two"

definition box2_getTR :: "'a box2 \<Rightarrow> 'a vec2" where
  "box2_getTR b = V2 (v2_x (b2_max b)) (v2_y (b2_min b))"

definition box2_getBL :: "'a box2 \<Rightarrow> 'a vec2" where
  "box2_getBL b = V2 (v2_x (b2_min b)) (v2_y (b2_max b))"

definition box2_setFromCenterAndXY :: "'a::{one, plus, minus, inverse} vec2 \<Rightarrow> 'a \<Rightarrow> 'a \<Rightarrow> 'a box2" where
  "box2_setFromCenterAndXY c sizeX sizeY =
     \<lparr>b2_min = V2 (v2_x c - sizeX / two) (v2_y c - sizeY / two),
      b2_max = V2 (v2_x c + sizeX / two) (v2_y c + sizeY / two)\<rparr>"

definition box2_setFromCornerAndXY :: "'a::plus vec2 \<Rightarrow> 'a \<Rightarrow> 'a \<Rightarrow> 'a box2" where
  "box2_setFromCornerAndXY c sizeX sizeY =
     \<lparr>b2_min = c, b2_max = V2 (v2_x c + sizeX) (v2_y c + sizeY)\<rparr>"

definition box2_offset :: "'a::plus \<Rightarrow> 'a \<Rightarrow> 'a box2 \<Rightarrow> 'a box2" where
  "box2_offset dx dy b = box2_of (span_offset dx (box2_x b)) (span_offset dy (box2_y b))"

definition box2_scaleX :: "'a::{one, plus, minus, times, inverse} \<Rightarrow> 'a box2 \<Rightarrow> 'a box2" where
  "box2_scaleX sx b = box2_of (span_scale sx (box2_x b)) (box2_y b)"

definition box2_scaleY :: "'a::{one, plus, minus, times, inverse} \<Rightarrow> 'a box2 \<Rightarrow> 'a box2" where
  "box2_scaleY sy b = box2_of (box2_x b) (span_scale sy (box2_y b))"

section \<open>Three dimensions\<close>

record 'a box3 =
  b3_min :: "'a vec3"
  b3_max :: "'a vec3"

definition box3_of :: "'a \<times> 'a \<Rightarrow> 'a \<times> 'a \<Rightarrow> 'a \<times> 'a \<Rightarrow> 'a box3" where
  "box3_of x y z = \<lparr>b3_min = V3 (fst x) (fst y) (fst z), b3_max = V3 (snd x) (snd y) (snd z)\<rparr>"

fun v3_x :: "'a vec3 \<Rightarrow> 'a" where "v3_x (V3 x y z) = x"

fun v3_y :: "'a vec3 \<Rightarrow> 'a" where "v3_y (V3 x y z) = y"

fun v3_z :: "'a vec3 \<Rightarrow> 'a" where "v3_z (V3 x y z) = z"

definition b3_x :: "'a box3 \<Rightarrow> 'a \<times> 'a" where
  "b3_x b = (v3_x (b3_min b), v3_x (b3_max b))"

definition b3_y :: "'a box3 \<Rightarrow> 'a \<times> 'a" where
  "b3_y b = (v3_y (b3_min b), v3_y (b3_max b))"

definition b3_z :: "'a box3 \<Rightarrow> 'a \<times> 'a" where
  "b3_z b = (v3_z (b3_min b), v3_z (b3_max b))"

lemma box3_of_spans [simp]:
  "b3_x (box3_of x y z) = x" "b3_y (box3_of x y z) = y" "b3_z (box3_of x y z) = z"
  by (simp_all add: box3_of_def b3_x_def b3_y_def b3_z_def)

definition box3_setUndef :: "'a \<Rightarrow> 'a \<Rightarrow> 'a box3" where
  "box3_setUndef lo hi = \<lparr>b3_min = V3 hi hi hi, b3_max = V3 lo lo lo\<rparr>"

definition box3_set :: "'a::ord \<Rightarrow> 'a \<Rightarrow> 'a \<Rightarrow> 'a \<Rightarrow> 'a \<Rightarrow> 'a \<Rightarrow> 'a box3" where
  "box3_set x0 y0 z0 x1 y1 z1 = box3_of (span_set x0 x1) (span_set y0 y1) (span_set z0 z1)"

definition box3_set_points :: "'a vec3 \<Rightarrow> 'a vec3 \<Rightarrow> 'a box3" where
  "box3_set_points mn mx = \<lparr>b3_min = mn, b3_max = mx\<rparr>"

definition box3_setMin :: "'a vec3 \<Rightarrow> 'a box3 \<Rightarrow> 'a box3" where
  "box3_setMin mn b = b\<lparr>b3_min := mn\<rparr>"

definition box3_setMax :: "'a vec3 \<Rightarrow> 'a box3 \<Rightarrow> 'a box3" where
  "box3_setMax mx b = b\<lparr>b3_max := mx\<rparr>"

definition span_undef :: "'a::ord \<times> 'a \<Rightarrow> bool" where
  "span_undef s \<longleftrightarrow> snd s < fst s"

definition span_inside :: "'a::ord \<Rightarrow> 'a \<times> 'a \<Rightarrow> bool" where
  "span_inside x s \<longleftrightarrow> fst s \<le> x \<and> x \<le> snd s"

definition box3_isUndef :: "'a::ord box3 \<Rightarrow> bool" where
  "box3_isUndef b \<longleftrightarrow> span_undef (b3_x b) \<or> span_undef (b3_y b) \<or> span_undef (b3_z b)"

fun box3_isInside :: "'a::ord vec3 \<Rightarrow> 'a box3 \<Rightarrow> bool" where
  "box3_isInside (V3 x y z) b \<longleftrightarrow> span_inside x (b3_x b) \<and> span_inside y (b3_y b) \<and> span_inside z (b3_z b)"

definition box3_getCenter :: "'a::{one, plus, inverse} box3 \<Rightarrow> 'a vec3" where
  "box3_getCenter b = V3 (span_center (b3_x b)) (span_center (b3_y b)) (span_center (b3_z b))"

definition box3_offset :: "'a::plus \<Rightarrow> 'a \<Rightarrow> 'a \<Rightarrow> 'a box3 \<Rightarrow> 'a box3" where
  "box3_offset dx dy dz b =
     box3_of (span_offset dx (b3_x b)) (span_offset dy (b3_y b)) (span_offset dz (b3_z b))"

definition box3_scaleX :: "'a::{one, plus, minus, times, inverse} \<Rightarrow> 'a box3 \<Rightarrow> 'a box3" where
  "box3_scaleX sx b = box3_of (span_scale sx (b3_x b)) (b3_y b) (b3_z b)"

definition box3_scaleY :: "'a::{one, plus, minus, times, inverse} \<Rightarrow> 'a box3 \<Rightarrow> 'a box3" where
  "box3_scaleY sy b = box3_of (b3_x b) (span_scale sy (b3_y b)) (b3_z b)"

definition box3_scaleZ :: "'a::{one, plus, minus, times, inverse} \<Rightarrow> 'a box3 \<Rightarrow> 'a box3" where
  "box3_scaleZ sz b = box3_of (b3_x b) (b3_y b) (span_scale sz (b3_z b))"

section \<open>As sets of points\<close>

lemmas span_defs = span_set_def span_center_def span_scale_def span_offset_def span_undef_def span_inside_def two_def

lemmas box2_defs = box2_of_def box2_x_def box2_y_def box2_isInside_def box2_isUndef_def box2_set_def
  box2_offset_def box2_scaleX_def box2_scaleY_def box2_getCenter_def

text \<open>A box set from any two opposite corners is defined and holds both.\<close>

lemma box2_set_corners:
  "\<not> box2_isUndef (box2_set x0 y0 x1 y1) \<and> box2_isInside (V2 x0 y0) (box2_set x0 y0 x1 y1) \<and>
   box2_isInside (V2 x1 y1) (box2_set x0 y0 x1 y1)" for x0 :: "'a::linorder"
  by (auto simp: box2_defs span_defs)

lemma box3_set_corners:
  "\<not> box3_isUndef (box3_set x0 y0 z0 x1 y1 z1) \<and> box3_isInside (V3 x0 y0 z0) (box3_set x0 y0 z0 x1 y1 z1) \<and>
   box3_isInside (V3 x1 y1 z1) (box3_set x0 y0 z0 x1 y1 z1)" for x0 :: "'a::linorder"
  by (auto simp: box3_set_def box3_isUndef_def span_defs)

text \<open>Setting from two points does not order them: the box may be undefined.\<close>

lemma box3_set_points_undef: "box3_isUndef (box3_set_points (V3 1 0 0) (V3 (0::int) 1 1))"
  by (simp add: box3_isUndef_def box3_set_points_def b3_x_def span_defs)

text \<open>An undefined box holds no point, and a defined one its centre.\<close>

lemma box3_undef_empty: "box3_isUndef b \<Longrightarrow> \<not> box3_isInside p b" for b :: "'a::linorder box3"
  by (cases p) (auto simp: box3_isUndef_def span_defs)

lemma span_center_inside: "\<not> span_undef s \<Longrightarrow> span_inside (span_center s) s" for s :: "'a::linordered_field \<times> 'a"
  by (auto simp: span_defs field_simps)

lemma box3_center_inside: "\<not> box3_isUndef b \<Longrightarrow> box3_isInside (box3_getCenter b) b" for b :: "'a::linordered_field box3"
  by (auto simp: box3_isUndef_def box3_getCenter_def intro: span_center_inside)

text \<open>
  Moving a box moves its points; scaling an axis by a positive factor keeps the centre and stretches the
  distances to it by that factor.
\<close>

lemma span_offset_inside: "span_inside (x + d) (span_offset d s) \<longleftrightarrow> span_inside x s" for x :: "'a::linordered_field"
  by (simp add: span_defs)

lemma span_scale_center: "span_center (span_scale t s) = span_center s" for t :: "'a::linordered_field"
  by (simp add: span_defs Let_def field_simps)

lemma span_scale_inside:
  fixes t :: "'a::linordered_field"
  assumes "0 < t"
  shows "span_inside (span_center s + t * d) (span_scale t s) \<longleftrightarrow> span_inside (span_center s + d) s"
proof -
  obtain a b where s: "s = (a, b)" by (cases s)
  define m where "m = (a + b) / 2"
  define h where "h = (b - a) / 2"
  have c: "a = m - h" "b = m + h" by (simp_all add: m_def h_def field_simps)
  have "span_scale t s = (m - t * h, m + t * h)" by (simp add: s span_scale_def two_def c Let_def)
  moreover have "span_center s = m" by (simp add: s span_center_def two_def m_def)
  moreover have "- (t * h) \<le> t * d \<longleftrightarrow> - h \<le> d"
    using mult_le_cancel_left_pos [OF assms, of "- h" d] by simp
  moreover have "t * d \<le> t * h \<longleftrightarrow> d \<le> h" using mult_le_cancel_left_pos [OF assms] by blast
  ultimately show ?thesis by (auto simp: span_inside_def s c)
qed

theorem box3_moves:
  fixes b :: "'a::linordered_field box3"
  assumes "0 < t" and "box3_getCenter b = V3 cx cy cz"
  shows "box3_isInside (V3 (x + dx) (y + dy) (z + dz)) (box3_offset dx dy dz b) = box3_isInside (V3 x y z) b \<and>
    box3_getCenter (box3_scaleX t b) = V3 cx cy cz \<and>
    box3_isInside (V3 (cx + t * x) y z) (box3_scaleX t b) = box3_isInside (V3 (cx + x) y z) b"
  using assms span_scale_inside [OF assms(1), of "b3_x b" x]
  by (simp add: box3_offset_def box3_scaleX_def box3_getCenter_def span_offset_inside span_scale_center)

theorem box3_moves_witness:
  "box3_isInside (V3 (1 + 3 * 1) 0 (0::rat)) (box3_scaleX 3 (box3_set 0 0 0 2 2 2))"
proof -
  have c: "box3_getCenter (box3_set 0 0 0 2 2 2) = V3 1 1 (1::rat)" by (simp add: box3_getCenter_def box3_set_def span_defs)
  have "box3_isInside (V3 (1 + 3 * 1) 0 (0::rat)) (box3_scaleX 3 (box3_set 0 0 0 2 2 2)) =
      box3_isInside (V3 (1 + 1) 0 (0::rat)) (box3_set 0 0 0 2 2 2)"
    using box3_moves [OF _ c, of 3 1 0 0 0 0 0] by simp
  also have "\<dots>" by (simp add: box3_set_def span_defs)
  finally show ?thesis .
qed

text \<open>A negative factor turns a box inside out.\<close>

lemma box2_scale_negative: "box2_isUndef (box2_scaleX (- 1) (box2_set 0 0 2 (2::rat)))"
  by (simp add: box2_defs span_defs Let_def)

lemma box2_center_corner:
  "box2_setFromCenterAndXY (box2_getCenter b) (box2_getSizeX b) (box2_getSizeY b) = b" for b :: "'a::linordered_field box2"
  by (cases b; cases "b2_min b"; cases "b2_max b")
    (simp add: box2_setFromCenterAndXY_def box2_getSizeX_def box2_getSizeY_def box2_defs span_defs field_simps)

end
