(* ===== verification/Obj_Array.thy ===== *)
theory Obj_Array
  imports Ptr_Array Tree_Map
begin

text \<open>
  The array of objects (\<open>sead/container/seadObjArray.h\<close>): the objects live in the blocks of a free list
  (\<open>Tree_Map\<close>), a pointer array (\<open>Ptr_Array\<close>) lists them in their order. \<open>PtrArrayImpl::setBuffer\<close> and
  \<open>erase\<close> have no body in the sources: the first is a parameter, the erasure in the middle is left out.
  The array provides the interface \<open>bounded_seq\<close>.
\<close>

section \<open>Operations\<close>

text \<open>A block is named by its number; \<open>oa_objects\<close> is what lives in the blocks.\<close>

record 'a obj_array =
  oa_ptrs :: "nat ptr_array"
  oa_free :: free_list
  oa_objects :: "nat \<Rightarrow> 'a option"

definition oa_new :: "'a obj_array" where
  "oa_new = \<lparr>oa_ptrs = PtrArray_empty, oa_free = FreeList_empty, oa_objects = (\<lambda>_. None)\<rparr>"

text \<open>\<open>pset\<close>: the pointer array's own \<open>setBuffer\<close>. \<open>got\<close>: the heap has the memory.\<close>

definition oa_setBuffer :: "(int \<Rightarrow> nat ptr_array \<Rightarrow> nat ptr_array) \<Rightarrow> bool \<Rightarrow> int \<Rightarrow> 'a obj_array \<Rightarrow> 'a obj_array res" where
  "oa_setBuffer pset got max_num a =
     (if \<not> got then Inr a
      else rbind (setWork max_num (oa_free a)) (\<lambda>fl.
             Inr (a\<lparr>oa_free := fl, oa_ptrs := pset max_num (oa_ptrs a)\<rparr>)))"

definition oa_allocBuffer :: "(int \<Rightarrow> nat ptr_array \<Rightarrow> nat ptr_array) \<Rightarrow> bool \<Rightarrow> int \<Rightarrow> 'a obj_array \<Rightarrow> 'a obj_array res" where
  "oa_allocBuffer pset got capacity a = (if capacity < 1 then Inr a else oa_setBuffer pset got capacity a)"

definition oa_tryAllocBuffer ::
  "(int \<Rightarrow> nat ptr_array \<Rightarrow> nat ptr_array) \<Rightarrow> bool \<Rightarrow> int \<Rightarrow> 'a obj_array \<Rightarrow> (bool \<times> 'a obj_array) res" where
  "oa_tryAllocBuffer pset got capacity a =
     (if capacity < 1 then Inr (False, a)
      else if \<not> got then Inr (False, a)
      else rbind (oa_setBuffer pset got capacity a) (\<lambda>a. Inr (True, a)))"

definition oa_alloc :: "'a \<Rightarrow> 'a obj_array \<Rightarrow> nat option \<times> 'a obj_array" where
  "oa_alloc item a =
     (case fl_alloc (oa_free a) of
        (None, fl) \<Rightarrow> (None, a\<lparr>oa_free := fl\<rparr>)
      | (Some b, fl) \<Rightarrow> (Some b, a\<lparr>oa_free := fl, oa_objects := (oa_objects a)(b := Some item)\<rparr>))"

definition oa_isFull :: "'a obj_array \<Rightarrow> bool" where
  "oa_isFull a = pa_isFull (oa_ptrs a)"

definition oa_pushBack :: "'a \<Rightarrow> 'a obj_array \<Rightarrow> 'a obj_array res" where
  "oa_pushBack item a =
     (if oa_isFull a then Inr a
      else case oa_alloc item a of
        (p, a) \<Rightarrow> rbind (pa_pushBack p (oa_ptrs a)) (\<lambda>ptrs. Inr (a\<lparr>oa_ptrs := ptrs\<rparr>)))"

text \<open>Here the object is made in the block without a look whether there is one.\<close>

definition oa_emplaceBack :: "'a \<Rightarrow> 'a obj_array \<Rightarrow> (nat option \<times> 'a obj_array) res" where
  "oa_emplaceBack item a =
     (if oa_isFull a then Inr (None, a)
      else case oa_alloc item a of
        (None, a) \<Rightarrow> Inl NullDeref
      | (Some b, a) \<Rightarrow> rbind (pa_pushBack (Some b) (oa_ptrs a)) (\<lambda>ptrs. Inr (Some b, a\<lparr>oa_ptrs := ptrs\<rparr>)))"

definition oa_at :: "int \<Rightarrow> 'a obj_array \<Rightarrow> nat option res" where
  "oa_at pos a = pa_at (oa_ptrs a) pos"

definition oa_unsafeAt :: "int \<Rightarrow> 'a obj_array \<Rightarrow> nat option res" where
  "oa_unsafeAt pos a = ptr_get (oa_ptrs a) pos"

definition oa_front :: "'a obj_array \<Rightarrow> nat option res" where
  "oa_front a = oa_at 0 a"

definition oa_back :: "'a obj_array \<Rightarrow> nat option res" where
  "oa_back a = oa_at (mPtrNum (oa_ptrs a) - 1) a"

text \<open>The destructor of a null pointer is a fault; a block that is given back is first in the list.\<close>

definition oa_destroy :: "nat option \<Rightarrow> 'a obj_array \<Rightarrow> 'a obj_array res" where
  "oa_destroy p a =
     (case p of
        None \<Rightarrow> Inl NullDeref
      | Some b \<Rightarrow> Inr (a\<lparr>oa_objects := (oa_objects a)(b := None), oa_free := fl_free b (oa_free a)\<rparr>))"

fun clear_loop :: "nat \<Rightarrow> int \<Rightarrow> 'a obj_array \<Rightarrow> 'a obj_array res" where
  "clear_loop 0 i a = Inr a"
| "clear_loop (Suc n) i a = rbind (oa_unsafeAt i a) (\<lambda>p. rbind (oa_destroy p a) (clear_loop n (i + 1)))"

definition oa_clear :: "'a obj_array \<Rightarrow> 'a obj_array res" where
  "oa_clear a =
     rbind (clear_loop (nat (mPtrNum (oa_ptrs a))) 0 a) (\<lambda>a. Inr (a\<lparr>oa_ptrs := (oa_ptrs a)\<lparr>mPtrNum := 0\<rparr>\<rparr>))"

definition oa_freeBuffer :: "'a obj_array \<Rightarrow> 'a obj_array res" where
  "oa_freeBuffer a =
     (if \<not> pa_isBufferReady (oa_ptrs a) then Inr a
      else rbind (oa_clear a) (\<lambda>a.
             Inr (a\<lparr>oa_free := fl_reset (oa_free a), oa_ptrs := (oa_ptrs a)\<lparr>mPtrs := None, mPtrNumMax := 0\<rparr>\<rparr>)))"

definition oa_compareT :: "'a::ord \<Rightarrow> 'a \<Rightarrow> int" where
  "oa_compareT a b = (if a < b then -1 else if b < a then 1 else 0)"

section \<open>The array as a list of objects\<close>

text \<open>
  Every block is in the free list or pointed at, once; no pointer is null; an object lives exactly in the blocks
  that are pointed at.
\<close>

definition oa_blocks :: "'a obj_array \<Rightarrow> nat list" where
  "oa_blocks a = map the (pa_list (oa_ptrs a))"

definition oa_ok :: "'a obj_array \<Rightarrow> bool" where
  "oa_ok a \<longleftrightarrow> pa_ok (oa_ptrs a) \<and> (\<forall>p \<in> set (pa_list (oa_ptrs a)). p \<noteq> None) \<and>
     mset (mFree (oa_free a)) + mset (oa_blocks a) = mset [0..<nat (mPtrNumMax (oa_ptrs a))] \<and>
     (\<forall>b. oa_objects a b \<noteq> None \<longleftrightarrow> b \<in> set (oa_blocks a))"

definition oa_list :: "'a obj_array \<Rightarrow> 'a list" where
  "oa_list a = map (\<lambda>b. the (oa_objects a b)) (oa_blocks a)"

definition oa_cap :: "'a obj_array \<Rightarrow> nat" where
  "oa_cap a = nat (mPtrNumMax (oa_ptrs a))"

lemma length_blocks: "oa_ok a \<Longrightarrow> int (length (oa_blocks a)) = mPtrNum (oa_ptrs a)"
  using length_pa_list [of "oa_ptrs a"] by (simp add: oa_ok_def oa_blocks_def)

lemma length_oa_list [simp]: "length (oa_list a) = length (oa_blocks a)"
  by (simp add: oa_list_def)

lemma blocks_pointers: "oa_ok a \<Longrightarrow> pa_list (oa_ptrs a) = map Some (oa_blocks a)"
  unfolding oa_ok_def oa_blocks_def by (simp add: map_idI)

lemma blocks_distinct: "oa_ok a \<Longrightarrow> distinct (mFree (oa_free a) @ oa_blocks a)"
proof -
  assume "oa_ok a"
  then have "mset (mFree (oa_free a) @ oa_blocks a) = mset [0..<nat (mPtrNumMax (oa_ptrs a))]"
    by (simp add: oa_ok_def)
  then show ?thesis by (metis distinct_upt mset_eq_imp_distinct_iff)
qed

lemma oa_full_iff: "oa_ok a \<Longrightarrow> oa_isFull a \<longleftrightarrow> oa_cap a \<le> length (oa_list a)"
  using length_blocks [of a] by (auto simp: oa_isFull_def pa_isFull_def oa_cap_def)

lemma oa_room:
  assumes "oa_ok a" and "\<not> oa_isFull a"
  obtains b bs where "mFree (oa_free a) = b # bs" and "b \<notin> set (oa_blocks a)"
proof -
  have "length (mFree (oa_free a) @ oa_blocks a) = nat (mPtrNumMax (oa_ptrs a))"
    using assms(1) by (metis diff_zero length_upt mset_append oa_ok_def size_mset)
  then have "mFree (oa_free a) \<noteq> []" using oa_full_iff [OF assms(1)] assms(2) by (auto simp: oa_cap_def)
  then obtain b bs where b: "mFree (oa_free a) = b # bs" by (cases "mFree (oa_free a)") auto
  moreover have "b \<notin> set (oa_blocks a)" using blocks_distinct [OF assms(1)] b by simp
  ultimately show ?thesis by (rule that)
qed

lemma oa_push_ok:
  assumes "oa_ok a" and "\<not> oa_isFull a"
  shows "\<exists>a'. oa_pushBack x a = Inr a' \<and> oa_ok a' \<and> oa_list a' = oa_list a @ [x] \<and> oa_cap a' = oa_cap a"
proof -
  obtain b bs where b: "mFree (oa_free a) = b # bs" "b \<notin> set (oa_blocks a)" by (rule oa_room [OF assms])
  have ok: "pa_ok (oa_ptrs a)" using assms(1) by (simp add: oa_ok_def)
  have "int (length (pa_list (oa_ptrs a))) < mPtrNumMax (oa_ptrs a)"
    using assms(2) length_pa_list [OF ok] by (simp add: oa_isFull_def pa_isFull_def)
  then obtain ptrs where p: "pa_pushBack (Some b) (oa_ptrs a) = Inr ptrs" "pa_ok ptrs"
    "mPtrNumMax ptrs = mPtrNumMax (oa_ptrs a)" "pa_list ptrs = pa_list (oa_ptrs a) @ [Some b]"
    using pa_pushBack_spec [OF ok, of "Some b"] by auto
  let ?a = "a\<lparr>oa_free := (oa_free a)\<lparr>mFree := bs\<rparr>, oa_objects := (oa_objects a)(b := Some x), oa_ptrs := ptrs\<rparr>"
  have "oa_pushBack x a = Inr ?a"
    using assms(2) b(1) p(1) by (simp add: oa_pushBack_def oa_alloc_def fl_alloc_def)
  moreover have "oa_blocks ?a = oa_blocks a @ [b]" using p(4) by (simp add: oa_blocks_def)
  moreover have "oa_ok ?a"
    using assms(1) b p(2-4) calculation(2) by (auto simp: oa_ok_def add_ac)
  moreover have "oa_list ?a = oa_list a @ [x]"
    using b(2) calculation(2) by (auto simp: oa_list_def)
  ultimately show ?thesis using p(3) by (auto simp: oa_cap_def)
qed

interpretation oa: bounded_seq oa_ok oa_list oa_cap oa_isFull oa_pushBack
proof
  fix a :: "'a obj_array" and x
  assume ok: "oa_ok a"
  show "oa_isFull a \<longleftrightarrow> oa_cap a \<le> length (oa_list a)" by (rule oa_full_iff [OF ok])
  have "mPtrNum (oa_ptrs a) \<le> mPtrNumMax (oa_ptrs a)" using ok by (simp add: oa_ok_def pa_ok_def)
  then show "length (oa_list a) \<le> oa_cap a" using length_blocks [OF ok] by (simp add: oa_cap_def)
  show "\<exists>a'. oa_pushBack x a = Inr a' \<and> oa_ok a' \<and> oa_list a' = oa_list a @ [x] \<and> oa_cap a' = oa_cap a"
    if "\<not> oa_isFull a" using oa_push_ok [OF ok that] .
qed

text \<open>With the invariant the two ways to add an object are the same, and emplacing never lacks its block.\<close>

lemma oa_emplace_push:
  assumes "oa_ok a" and "\<not> oa_isFull a"
  shows "\<exists>b a'. oa_emplaceBack x a = Inr (Some b, a') \<and> oa_pushBack x a = Inr a' \<and> oa_objects a' b = Some x"
proof -
  obtain b bs where b: "mFree (oa_free a) = b # bs" "b \<notin> set (oa_blocks a)" by (rule oa_room [OF assms])
  have ok: "pa_ok (oa_ptrs a)" using assms(1) by (simp add: oa_ok_def)
  obtain ptrs where "pa_pushBack (Some b) (oa_ptrs a) = Inr ptrs"
    using pa_pushBack_spec [OF ok, of "Some b"] by auto
  then show ?thesis using assms(2) b(1) by (simp add: oa_emplaceBack_def oa_pushBack_def oa_alloc_def fl_alloc_def)
qed

section \<open>Clearing\<close>

text \<open>What the loop has done after giving back the objects of the pointers \<open>qs\<close>, from the one at \<open>k\<close> on.\<close>

lemma clear_loop_blocks:
  "pa_ok (oa_ptrs a) \<Longrightarrow> drop k (pa_list (oa_ptrs a)) = map Some qs \<Longrightarrow>
   \<exists>a'. clear_loop (length qs) (int k) a = Inr a' \<and> oa_ptrs a' = oa_ptrs a \<and>
     mFree (oa_free a') = rev qs @ mFree (oa_free a) \<and>
     oa_objects a' = (\<lambda>b. if b \<in> set qs then None else oa_objects a b)"
proof (induction qs arbitrary: k a)
  case (Cons q qs)
  have k: "k < length (pa_list (oa_ptrs a))" using Cons.prems(2) by (metis drop_all length_map linorder_not_le list.distinct(1) list.simps(9))
  have q: "pa_list (oa_ptrs a) ! k = Some q" "drop (Suc k) (pa_list (oa_ptrs a)) = map Some qs"
    using Cons.prems(2) k by (simp_all add: Cons_nth_drop_Suc [symmetric])
  let ?a = "a\<lparr>oa_objects := (oa_objects a)(q := None), oa_free := fl_free q (oa_free a)\<rparr>"
  have "oa_unsafeAt (int k) a = Inr (Some q)"
    using ptr_get_list [OF Cons.prems(1) k] q(1) by (simp add: oa_unsafeAt_def)
  then have step: "clear_loop (length (q # qs)) (int k) a = clear_loop (length qs) (int (Suc k)) ?a"
    by (simp add: oa_destroy_def add.commute)
  have "pa_ok (oa_ptrs ?a)" "drop (Suc k) (pa_list (oa_ptrs ?a)) = map Some qs" using Cons.prems(1) q(2) by simp_all
  from Cons.IH [OF this] obtain a' where "clear_loop (length qs) (int (Suc k)) ?a = Inr a'" "oa_ptrs a' = oa_ptrs ?a"
    "mFree (oa_free a') = rev qs @ mFree (oa_free ?a)"
    "oa_objects a' = (\<lambda>b. if b \<in> set qs then None else oa_objects ?a b)" by blast
  then show ?case unfolding step by (auto simp: fun_eq_iff fl_free_def)
qed simp

lemma oa_clear_ok:
  assumes "oa_ok a"
  shows "\<exists>a'. oa_clear a = Inr a' \<and> oa_ok a' \<and> oa_list a' = [] \<and> oa_cap a' = oa_cap a"
proof -
  have ok: "pa_ok (oa_ptrs a)" using assms by (simp add: oa_ok_def)
  have n: "nat (mPtrNum (oa_ptrs a)) = length (oa_blocks a)" using length_blocks [OF assms] by simp
  obtain a' where a': "clear_loop (length (oa_blocks a)) 0 a = Inr a'" "oa_ptrs a' = oa_ptrs a"
    "mFree (oa_free a') = rev (oa_blocks a) @ mFree (oa_free a)"
    "oa_objects a' = (\<lambda>b. if b \<in> set (oa_blocks a) then None else oa_objects a b)"
    using clear_loop_blocks [OF ok, of 0 "oa_blocks a"] blocks_pointers [OF assms] by auto
  let ?a = "a'\<lparr>oa_ptrs := (oa_ptrs a')\<lparr>mPtrNum := 0\<rparr>\<rparr>"
  have l: "pa_list (oa_ptrs ?a) = []" by (simp add: pa_list_def split: option.splits)
  have "oa_blocks ?a = []" unfolding oa_blocks_def l by simp
  moreover have "oa_ok ?a"
    unfolding oa_ok_def l calculation
  proof (intro conjI)
    have "0 \<le> mPtrNum (oa_ptrs a)" "mPtrNum (oa_ptrs a) \<le> mPtrNumMax (oa_ptrs a)" using ok by (simp_all add: pa_ok_def)
    then show "pa_ok (oa_ptrs ?a)" using ok a'(2) by (simp add: pa_ok_def split: option.splits)
    show "mset (mFree (oa_free ?a)) + mset [] = mset [0..<nat (mPtrNumMax (oa_ptrs ?a))]"
      using assms a'(2,3) by (simp add: oa_ok_def add.commute)
    have "oa_objects a b = None" if "b \<notin> set (oa_blocks a)" for b using assms that unfolding oa_ok_def by blast
    then show "\<forall>b. oa_objects ?a b \<noteq> None \<longleftrightarrow> b \<in> set []" by (simp add: a'(4))
  qed simp
  ultimately show ?thesis using a'(1,2) by (simp add: oa_clear_def n oa_list_def oa_cap_def)
qed

lemma oa_freeBuffer_ok:
  assumes "oa_ok a"
  shows "\<exists>a'. oa_freeBuffer a = Inr a' \<and> oa_list a' = [] \<and> (\<forall>b. oa_objects a' b = None)"
proof (cases "pa_isBufferReady (oa_ptrs a)")
  case True
  obtain a' where a': "oa_clear a = Inr a'" "oa_ok a'" "oa_list a' = []" using oa_clear_ok [OF assms] by blast
  then have "oa_blocks a' = []" by (simp add: oa_list_def)
  then have "\<forall>b. oa_objects a' b = None" using a'(2) by (auto simp: oa_ok_def)
  then show ?thesis using True a'(1) by (auto simp: oa_freeBuffer_def oa_list_def oa_blocks_def pa_list_def)
next
  case False
  then have "oa_blocks a = []" by (simp add: oa_blocks_def pa_list_def pa_isBufferReady_def)
  then show ?thesis using False assms by (auto simp: oa_freeBuffer_def oa_list_def oa_ok_def)
qed

text \<open>What \<open>PtrArrayImpl::setBuffer\<close> does by its declaration: an empty array over a buffer of that many pointers.\<close>

definition pset_law :: "(int \<Rightarrow> nat ptr_array \<Rightarrow> nat ptr_array) \<Rightarrow> bool" where
  "pset_law pset \<longleftrightarrow> (\<forall>n p. 0 < n \<and> n < 2 ^ 31 \<longrightarrow> mPtrNum (pset n p) = 0 \<and> mPtrNumMax (pset n p) = n \<and>
     (\<exists>buf. mPtrs (pset n p) = Some buf \<and> int (length buf) = n))"

lemma oa_alloc_buffer_ok:
  assumes "pset_law pset" and "0 < n" and "n < 2 ^ 31"
  shows "\<exists>a. oa_allocBuffer pset True n (oa_new :: 'a obj_array) = Inr a \<and> oa_ok a \<and> oa_list a = [] \<and> oa_cap a = nat n"
proof -
  obtain buf where p: "mPtrNum (pset n PtrArray_empty) = 0" "mPtrNumMax (pset n PtrArray_empty) = n"
    "mPtrs (pset n PtrArray_empty) = Some buf" "int (length buf) = n"
    using assms unfolding pset_law_def by blast
  then show ?thesis
    using assms(2,3) by (simp add: oa_allocBuffer_def oa_setBuffer_def oa_new_def setWork_def oa_ok_def pa_ok_def oa_list_def
        oa_blocks_def pa_list_def oa_cap_def)
qed

section \<open>Runs\<close>

fun push_all :: "'a list \<Rightarrow> 'a obj_array \<Rightarrow> 'a obj_array res" where
  "push_all [] a = Inr a"
| "push_all (x # xs) a = rbind (oa_pushBack x a) (push_all xs)"

lemma push_all_ok:
  "oa_ok a \<Longrightarrow> \<exists>a'. push_all xs a = Inr a' \<and> oa_ok a' \<and> oa_cap a' = oa_cap a \<and>
     oa_list a' = take (oa_cap a) (oa_list a @ xs)"
proof (induction xs arbitrary: a)
  case Nil
  then show ?case using oa.cap_ok [OF Nil] by simp
next
  case (Cons x xs)
  show ?case
  proof (cases "oa_isFull a")
    case True
    then have "oa_pushBack x a = Inr a" by (simp add: oa_pushBack_def)
    moreover have "take (oa_cap a) (oa_list a @ ys) = oa_list a" for ys
      using oa.full_iff [OF Cons.prems] oa.cap_ok [OF Cons.prems] True by simp
    ultimately show ?thesis using Cons.IH [OF Cons.prems] by simp
  next
    case False
    then obtain a1 where "oa_pushBack x a = Inr a1" "oa_ok a1" "oa_list a1 = oa_list a @ [x]" "oa_cap a1 = oa_cap a"
      using oa.push_ok [OF Cons.prems] by blast
    then show ?thesis using Cons.IH [of a1] by simp
  qed
qed

text \<open>
  An array with a buffer for \<open>n\<close> objects keeps the first \<open>n\<close> of the objects that are pushed, in their order, and
  can be cleared and filled again: no block is lost and none is used twice.
\<close>

theorem obj_array_refills:
  assumes "pset_law pset" and "0 < n" and "n < 2 ^ 31"
  shows "\<exists>a b c d. oa_allocBuffer pset True n oa_new = Inr a \<and> push_all xs a = Inr b \<and> oa_list b = take (nat n) xs \<and>
    oa_clear b = Inr c \<and> oa_list c = [] \<and> push_all ys c = Inr d \<and> oa_list d = take (nat n) ys \<and> oa_ok d"
proof -
  obtain a :: "'a obj_array" where a: "oa_allocBuffer pset True n oa_new = Inr a" "oa_ok a" "oa_list a = []" "oa_cap a = nat n"
    using oa_alloc_buffer_ok [OF assms] by blast
  obtain b where b: "push_all xs a = Inr b" "oa_ok b" "oa_cap b = nat n" "oa_list b = take (nat n) xs"
    using push_all_ok [OF a(2), of xs] a(3,4) by auto
  obtain c where c: "oa_clear b = Inr c" "oa_ok c" "oa_list c = []" "oa_cap c = nat n"
    using oa_clear_ok [OF b(2)] b(3) by auto
  obtain d where "push_all ys c = Inr d" "oa_ok d" "oa_list d = take (nat n) ys"
    using push_all_ok [OF c(2), of ys] c(3,4) by auto
  then show ?thesis using a(1) b(1,4) c(1,3) by blast
qed

definition plain_pset :: "int \<Rightarrow> nat ptr_array \<Rightarrow> nat ptr_array" where
  "plain_pset n p = \<lparr>mPtrNum = 0, mPtrNumMax = n, mPtrs = Some (replicate (nat n) None)\<rparr>"

theorem obj_array_refills_witness:
  "\<exists>a b c d. oa_allocBuffer plain_pset True 2 oa_new = Inr a \<and> push_all [''Cappy'', ''Mario'', ''Luigi''] a = Inr b \<and>
     oa_list b = [''Cappy'', ''Mario''] \<and> oa_clear b = Inr c \<and> push_all [''Peach''] c = Inr d \<and> oa_list d = [''Peach'']"
proof -
  have l: "pset_law plain_pset" by (simp add: pset_law_def plain_pset_def)
  from obj_array_refills [OF l, of 2 "[''Cappy'', ''Mario'', ''Luigi'']" "[''Peach'']"] show ?thesis
    by (simp add: eval_nat_numeral) metis
qed

end
