(* ===== verification/Mode_Readers.thy ===== *)
theory Mode_Readers
  imports Debug_Draw
begin

text \<open>
  Who reads the mode object and its information outside the mode's own frames: the handlers of messages
  (\<open>server/Client.cpp\<close>), the sending of the tag message, the two hooks of the gravity camera and of the world's
  border (\<open>hooks.cpp\<close>), the debug page (\<open>main.cpp\<close>), the mode's menu and the name tag of a puppet
  (\<open>PuppetActor::control\<close>). Each asks the manager for the chosen mode and then casts the object in place. This
  theory adds the reading of the name tag and shows, for all of them together, when the cast is wrong.
\<close>

section \<open>The name tag\<close>

text \<open>
  What \<open>control\<close> reads for a puppet with a name tag, as the argument of \<open>control_tag\<close>. \<open>isPlayerIt\<close> reads the
  information through the mode object.
\<close>

definition tag_mode_of :: "mode_manager \<Rightarrow> tag_mode res" where
  "tag_mode_of s =
     (if isModeAndActive HIDEANDSEEK s
      then rbind (hns_of s) (\<lambda>_. rbind (hns_info_of s) (\<lambda>i. Inr (Tag_hide_and_seek (mIsPlayerIt i))))
      else if isModeAndActive CAPTURE_THE_FLAG s
      then rbind (ctf_info_of s) (\<lambda>i. Inr (Tag_capture_the_flag (mPlayerTeam i)))
      else Inr Tag_other)"

section \<open>The classes the readers find\<close>

lemma isModeAndActive_mode: "isModeAndActive m s \<Longrightarrow> mCurMode s = m"
  by (simp add: isModeAndActive_def isMode_def)

text \<open>Outside the window between a choice and the next stage no read finds the other class.\<close>

lemma hns_settled:
  assumes "mgr_ok s" and "\<not> mWasSetMode s" and "mCurMode s = HIDEANDSEEK"
  shows "hns_of s \<noteq> Inl WrongClass" and "hns_info_of s \<noteq> Inl WrongClass"
  using hns_reads [OF assms(1,3)] assms(2) by (auto dest: res_specD_Inl)

lemma ctf_settled:
  assumes "mgr_ok s" and "\<not> mWasSetMode s" and "mCurMode s = CAPTURE_THE_FLAG"
  shows "ctf_of s \<noteq> Inl WrongClass" and "ctf_info_of s \<noteq> Inl WrongClass"
  using ctf_reads [OF assms(1,3)] assms(2) by (auto dest: res_specD_Inl)

lemma send_system_class: "send_system m x \<noteq> Inl WrongClass"
  by (simp add: send_system_def on_sock_def queue_new_eq)

lemma flag_trans_class: "flag_trans t w \<noteq> Inl WrongClass"
  by (auto simp: flag_trans_def getFlagActorForTeam_def null_check_def rbind_eq_Inl split: option.splits)

lemma settled_ticket:
  assumes "mgr_ok s" and "\<not> mWasSetMode s"
  shows "createTicketHook camera s \<noteq> Inl WrongClass"
proof -
  have "hns_ticket camera s \<noteq> Inl WrongClass"
    using hns_settled [OF assms] by (auto simp: hns_ticket_def isMode_def rbind_eq_Inl)
  moreover have "ctf_ticket camera t \<noteq> Inl WrongClass" if t: "hns_ticket camera s = Inr t" for t
  proof (cases "isModeAndActive CAPTURE_THE_FLAG t")
    case True
    have same: "mCurMode t = mCurMode s"
      using t by (auto simp: hns_ticket_def rbind_eq_Inr split: if_splits)
    with True have "mCurMode s = CAPTURE_THE_FLAG" by (simp add: isModeAndActive_def isMode_def)
    moreover from this t have "t = s" by (simp add: hns_ticket_def isMode_def)
    ultimately show ?thesis using ctf_settled [OF assms] by (auto simp: ctf_ticket_def rbind_eq_Inl)
  qed (simp add: ctf_ticket_def)
  ultimately show ?thesis by (auto simp: createTicketHook_def rbind_eq_Inl)
qed

lemma settled_border:
  assumes "mgr_ok s" and "\<not> mWasSetMode s"
  shows "borderPullBackHook first s \<noteq> Inl WrongClass"
  using hns_settled [OF assms] isModeAndActive_mode [of HIDEANDSEEK s]
  by (auto simp: borderPullBackHook_def rbind_eq_Inl)

lemma settled_send:
  assumes "mgr_ok s" and "\<not> mWasSetMode s"
  shows "sendTagInfPacket s x \<noteq> Inl WrongClass"
  using hns_settled [OF assms] send_system_class
  by (auto simp: sendTagInfPacket_def isMode_def rbind_eq_Inl)

lemma settled_tag:
  assumes "mgr_ok s" and "\<not> mWasSetMode s"
  shows "tag_mode_of s \<noteq> Inl WrongClass"
  using hns_settled [OF assms] ctf_settled [OF assms]
  by (auto simp: tag_mode_of_def rbind_eq_Inl dest: isModeAndActive_mode)

lemma settled_page:
  assumes "mgr_ok (mw_manager w)" and "\<not> mWasSetMode (mw_manager w)"
  shows "draw_hns (mw_manager w) \<noteq> Inl WrongClass" and "draw_ctf w \<noteq> Inl WrongClass"
  using hns_settled [OF assms] ctf_settled [OF assms] flag_trans_class
  by (auto simp: draw_hns_def draw_ctf_def isMode_def rbind_eq_Inl dest: isModeAndActive_mode)

lemma settled_menu:
  assumes "mgr_ok s" and "\<not> mWasSetMode s"
  shows "menu_updateMenu k s \<noteq> Inl WrongClass"
  using hns_settled(2) [OF assms]
  by (auto simp: menu_updateMenu_def isMode_def hns_info_of_def split: option.splits mode_info.splits prod.splits)

text \<open>An object of the other class stands only in the window, with its own information.\<close>

lemma other_class:
  assumes "mgr_ok s"
  shows "mCurModeBase s = Some (Ctf_mode m) \<Longrightarrow> mCurMode s = HIDEANDSEEK \<Longrightarrow>
      mWasSetMode s \<and> (\<exists>i. mModeInfo s = Some (Ctf_info i))"
    and "mCurModeBase s = Some (Hns_mode h) \<Longrightarrow> mCurMode s = CAPTURE_THE_FLAG \<Longrightarrow>
      mWasSetMode s \<and> (\<exists>i. mModeInfo s = Some (Hns_info i))"
  using assms by (cases rule: base_cases; auto simp: mgr_ok_def class_of_def)+

section \<open>Property\<close>

text \<open>C6: Whatever sequence of frames, messages, menu choices and stages has happened: a frame of the mode never
  reads an object of the other class, and starting a stage succeeds. Unless a mode was chosen and no stage
  started since, nobody else does either: no message, neither of the two hooks, not the sending of the
  own tag, not a name tag, not the debug page and not the mode's menu. In that window they all do: with capture the
  flag's object in place and hide and seek chosen and active, both hooks, the tag message, the name tags, the
  page and the menu's two entries go through a pointer of the wrong class, and the other way round the
  camera hook, the name tags and the page do.\<close>

theorem client_classes:
  assumes "client_reach c" and "s = manager_of c"
  shows "(\<forall>inp. mgr_update inp (cl_modes c) \<noteq> Inl WrongClass) \<and>
    (\<exists>t. stage_init s = Inr t) \<and>
    (\<not> mWasSetMode s \<longrightarrow>
       body_step who b c \<noteq> Inl WrongClass \<and> createTicketHook camera s \<noteq> Inl WrongClass \<and>
       borderPullBackHook first s \<noteq> Inl WrongClass \<and> sendTagInfPacket s x \<noteq> Inl WrongClass \<and>
       tag_mode_of s \<noteq> Inl WrongClass \<and> draw_hns s \<noteq> Inl WrongClass \<and>
       draw_ctf (cl_modes c) \<noteq> Inl WrongClass \<and> menu_updateMenu k s \<noteq> Inl WrongClass) \<and>
    (\<forall>m. mCurModeBase s = Some (Ctf_mode m) \<and> isModeAndActive HIDEANDSEEK s \<longrightarrow>
       mWasSetMode s \<and> createTicketHook True s = Inl WrongClass \<and> borderPullBackHook True s = Inl WrongClass \<and>
       sendTagInfPacket s x = Inl WrongClass \<and> tag_mode_of s = Inl WrongClass \<and>
       draw_hns s = Inl WrongClass \<and> menu_updateMenu 0 s = Inl WrongClass \<and> menu_updateMenu 1 s = Inl WrongClass) \<and>
    (\<forall>h. mCurModeBase s = Some (Hns_mode h) \<and> isModeAndActive CAPTURE_THE_FLAG s \<longrightarrow>
       mWasSetMode s \<and> createTicketHook True s = Inl WrongClass \<and> tag_mode_of s = Inl WrongClass \<and>
       draw_ctf (cl_modes c) = Inl WrongClass)"
proof -
  have ok: "mgr_ok s" using reach_ok [OF assms(1)] assms(2) by simp
  have frame: "mgr_update inp (cl_modes c) \<noteq> Inl WrongClass" for inp
    using mgr_update_spec [of "cl_modes c" inp] ok assms(2) by (auto dest: res_specD_Inl)
  have message: "body_step who b c \<noteq> Inl WrongClass" if "\<not> mWasSetMode s"
    using body_step_keeps [of c who b] ok that assms(2) by auto
  have hns: "mWasSetMode s \<and> createTicketHook True s = Inl WrongClass \<and> borderPullBackHook True s = Inl WrongClass \<and>
      sendTagInfPacket s x = Inl WrongClass \<and> tag_mode_of s = Inl WrongClass \<and>
      draw_hns s = Inl WrongClass \<and> menu_updateMenu 0 s = Inl WrongClass \<and> menu_updateMenu 1 s = Inl WrongClass"
    if b: "mCurModeBase s = Some (Ctf_mode m)" and a: "isModeAndActive HIDEANDSEEK s" for m
  proof -
    obtain i where "mWasSetMode s" "mModeInfo s = Some (Ctf_info i)"
      using other_class(1) [OF ok b isModeAndActive_mode [OF a]] by blast
    moreover have "isMode HIDEANDSEEK s" using a by (simp add: isModeAndActive_def)
    ultimately show ?thesis
      using a b by (simp add: createTicketHook_def hns_ticket_def borderPullBackHook_def sendTagInfPacket_def
          tag_mode_of_def draw_hns_def menu_updateMenu_def hns_of_def hns_info_of_def)
  qed
  have ctf: "mWasSetMode s \<and> createTicketHook True s = Inl WrongClass \<and> tag_mode_of s = Inl WrongClass \<and>
      draw_ctf (cl_modes c) = Inl WrongClass"
    if b: "mCurModeBase s = Some (Hns_mode h)" and a: "isModeAndActive CAPTURE_THE_FLAG s" for h
  proof -
    obtain i where "mWasSetMode s" "mModeInfo s = Some (Hns_info i)"
      using other_class(2) [OF ok b isModeAndActive_mode [OF a]] by blast
    moreover have "\<not> isMode HIDEANDSEEK s" "\<not> isModeAndActive HIDEANDSEEK s"
      using isModeAndActive_mode [OF a] by (simp_all add: isModeAndActive_def isMode_def)
    ultimately show ?thesis
      using a b assms(2) by (simp add: createTicketHook_def hns_ticket_def ctf_ticket_def tag_mode_of_def
          draw_ctf_def ctf_of_def ctf_info_of_def)
  qed
  show ?thesis
    using frame message stage_init_spec [OF ok] settled_ticket [OF ok] settled_border [OF ok]
      settled_send [OF ok] settled_tag [OF ok] settled_page [of "cl_modes c"] settled_menu [OF ok] hns ctf ok assms(2)
    by blast
qed

section \<open>Witness\<close>

lemma client_chosen_active: "isModeAndActive HIDEANDSEEK (toggleActive (manager_of client_chosen)) \<or>
    isModeAndActive HIDEANDSEEK (manager_of client_chosen)"
  by (simp add: client_chosen_def setMode_def isModeAndActive_def isMode_def toggleActive_def)

theorem client_classes_witness:
  "(\<forall>inp. mgr_update inp (cl_modes client_staged) \<noteq> Inl WrongClass) \<and>
   tag_mode_of (manager_of client_staged) \<noteq> Inl WrongClass \<and>
   (\<exists>c. client_reach c \<and> borderPullBackHook True (manager_of c) = Inl WrongClass)"
proof -
  let ?d = "set_manager (toggleActive (manager_of client_chosen)) client_chosen"
  have base: "mCurModeBase (manager_of client_chosen) = Some (Ctf_mode (ctf_new\<lparr>cm_mMode := CAPTURE_THE_FLAG\<rparr>))"
    "mCurModeBase (manager_of ?d) = Some (Ctf_mode (ctf_new\<lparr>cm_mMode := CAPTURE_THE_FLAG\<rparr>))"
    using staged_mode(2) by (simp_all add: client_chosen_def setMode_def toggleActive_def)
  have "\<exists>c. client_reach c \<and> borderPullBackHook True (manager_of c) = Inl WrongClass"
  proof (cases "isModeAndActive HIDEANDSEEK (manager_of client_chosen)")
    case True
    with base(1) client_classes [OF client_chosen_reach refl] client_chosen_reach show ?thesis by blast
  next
    case False
    then have "isModeAndActive HIDEANDSEEK (manager_of ?d)" using client_chosen_active by simp
    with base(2) client_classes [OF client_reach.toggle [OF client_chosen_reach] refl]
      client_reach.toggle [OF client_chosen_reach] show ?thesis by blast
  qed
  moreover have "\<not> mWasSetMode (manager_of client_staged)"
    by (simp add: client_staged_def staged_manager_def stage_init_def GameModeManager_new_def setMode_def
        manager_empty_def initScene_def create_mode_def getModeString_def modeTable_def
        CAPTURE_THE_FLAG_def NONE_def init_mode_def ctf_init_def base_active_def mode_active_def ctf_new_def)
  ultimately show ?thesis using client_classes [OF client_staged_reach refl] by blast
qed

end
