(* ===== verification/Spec2Isabelle.thy ===== *)
theory Spec2Isabelle
  imports Prelude Crc32 Capture_Types Player_Anims Float32 Timer Packets Puppet_Table
    Ptr_Array Helpers Hack_Models Puppet_Actor Puppet_Holder Shine_Sync Socket_Client
    Float_Vec Stage_Manager Flag_Actor Game_Mode Hide_Seek Capture_Flag Mode_Manager Client_Modes
    Client_Send Server_Config Anim_Enums
    Safe_String Buffered_String String_Tokens Name_Tag Icon_Text Client_Settings Game_Frame Stage_Puppets
    Float_Order Puppet_Motion Tree_Nodes Tree_Map Calendar Date_Parse Tick_Span Log_Socket Puppet_Models
    Math_Calc Matrix33 Matrix34 Matrix44 Ring_Buffer Buffers Bit_Flags Byte_Order
    Debug_Draw Client_Life Tree_Variants String_Builder
    Camera Bound_Box Obj_Array Mode_Readers
begin

text \<open>
  Verification of the client mod: the code that is loaded into the game and keeps every player's copy of it
  in step with a server (\<open>src/mod/src\<close>), with the parts of the engine's library it brings along in source
  (\<open>src/mod/src/sead\<close>). Paths below are relative to \<open>src/mod/src\<close>.

  \<^bold>\<open>The program.\<close> A frame hook (\<open>main.cpp\<close>) runs once per frame of the game. It updates the puppets, the actors
  that stand for the other players, and the game mode, and it sends what the own player did. A read thread
  (\<open>server/Client.cpp\<close>, \<open>readFunc\<close>) receives the messages of the others and writes them into a table of
  \<open>PuppetInfo\<close>, one slot per player; the puppets read that table. A send thread takes the packets off a
  queue. The two game modes, hide and seek and capture the flag, hang on the same table and on messages of
  their own. A page of the pause menu configures server and mode.

  \<^bold>\<open>How the theories follow the code.\<close>

  \<^item> \<open>Prelude\<close>: machine integers, the faults of C++ as values (\<open>fault\<close>, \<open>'a res\<close>, \<open>rbind\<close>), C strings, and
    \<open>res_spec\<close>, the rule by which an operation is verified from what is known of its parts. An operation that
    leaves the defined behaviour of C++ (a write past an array, a null pointer, a freed address, a pointer of
    the wrong class) has the fault as its result.
  \<^item> Numbers: \<open>Float32\<close> (single precision with its rounding), \<open>Float_Vec\<close> (\<open>sead/math\<close> as far as it is used),
    \<open>Float_Order\<close> (rounding is monotone), \<open>Math_Calc\<close> (\<open>sead/math/seadMathCalcCommon\<close>), \<open>Matrix33\<close>, \<open>Matrix34\<close>,
    \<open>Matrix44\<close> (\<open>seadMatrixCalcCommon.hpp\<close>, the quaternions), \<open>Bound_Box\<close> (\<open>seadBoundBox\<close>). The last five are over any type
    with the operations of the template: single precision is one instance. What is shown of the matrices holds in exact
    arithmetic; with the rounding of \<open>f32\<close> it holds approximately at most, and nothing is claimed.
  \<^item> Tables: \<open>Crc32\<close> (\<open>algorithms/crc32.h\<close>), \<open>Capture_Types\<close>, \<open>Player_Anims\<close>, \<open>Anim_Enums\<close> (the name tables of
    \<open>algorithms\<close>), \<open>Helpers\<close> (\<open>helpers.cpp\<close>).
  \<^item> Messages and the network: \<open>Packets\<close> (\<open>packets/Packet.cpp\<close> and the proto files), \<open>Socket_Client\<close>
    (\<open>server/SocketClient.cpp\<close>, \<open>SocketBase\<close>: framing, reconnecting, the queues, who owns a packet),
    \<open>Client_Send\<close> (every send function of \<open>server/Client.cpp\<close>, the restart), \<open>Client_Settings\<close> (the address
    and port, the dialogs, the save file, \<open>startConnection\<close>), \<open>Client_Life\<close> (the read thread from its first line to its last, the
    windows about the connection), \<open>Log_Socket\<close> (\<open>server/SocketBase.cpp\<close>,
    \<open>logger.cpp\<close>).
  \<^item> The other players: \<open>Puppet_Table\<close> (the handlers that write \<open>PuppetInfo\<close>), \<open>Puppet_Actor\<close> (which model a
    puppet shows), \<open>Puppet_Motion\<close> (what else \<open>PuppetActor::control\<close> does, the cap, the animations),
    \<open>Puppet_Models\<close> (the archives a costume asks for, the making of a puppet),
    \<open>Hack_Models\<close> (capture models), \<open>Puppet_Holder\<close> over \<open>Ptr_Array\<close> (\<open>sead/container/seadPtrArray.h\<close>),
    \<open>Stage_Puppets\<close> (the making of the actors of a stage), \<open>Name_Tag\<close> (\<open>layouts/NameTag.cpp\<close>), \<open>Shine_Sync\<close>
    (collected moons).
  \<^item> Game modes: \<open>Timer\<close>, \<open>Game_Mode\<close> (tables, icons), \<open>Hide_Seek\<close>, \<open>Capture_Flag\<close> with \<open>Flag_Actor\<close> and
    \<open>Stage_Manager\<close>, \<open>Mode_Manager\<close> (which mode object lives), \<open>Client_Modes\<close> (one round of the read thread with
    every handler), \<open>Mode_Readers\<close> (everybody else who casts the mode object or its information), \<open>Icon_Text\<close> (what the
    icons write).
  \<^item> The whole: \<open>Game_Frame\<close> (the hooks of \<open>main.cpp\<close> and a frame over all components), \<open>Server_Config\<close>
    (\<open>states/StageSceneStateServerConfig.cpp\<close>), \<open>Debug_Draw\<close> (the debug page of \<open>main.cpp\<close>), \<open>Camera\<close>
    (\<open>cameras/CameraPoserCustom.cpp\<close>).
  \<^item> The engine's library: \<open>Safe_String\<close>, \<open>Buffered_String\<close>, \<open>String_Tokens\<close> (\<open>sead/prim/seadSafeString\<close>),
    \<open>Tree_Nodes\<close> and \<open>Tree_Map\<close> (\<open>seadTreeMap.h\<close>, \<open>seadFreeList.h\<close>), \<open>Calendar\<close>, \<open>Date_Parse\<close>, \<open>Tick_Span\<close>
    (\<open>sead/time\<close>), \<open>Ring_Buffer\<close>, \<open>Buffers\<close> and \<open>Obj_Array\<close> (\<open>sead/container\<close>), \<open>Bit_Flags\<close> and \<open>Byte_Order\<close> (\<open>sead/prim\<close>),
    \<open>Tree_Variants\<close> (\<open>seadOrderedSet.h\<close>, \<open>seadStrTreeMap.h\<close>), \<open>String_Builder\<close> (\<open>seadStringBuilder.h\<close>).

  State is a record with the fields of the class, an operation a function on it with the name of the
  source. What the operating system, the engine or the player decide (whether memory is there, distances
  in the scene, buttons, answers of the socket) is an argument or a list of events; the JSON text of a
  message and the functions the sources only declare are parameters, with the behaviour the code relies on
  as a named hypothesis.

  \<^bold>\<open>What is shown.\<close>

  \<^item> The table of players: the invariant of every reachable table (bounded strings, and one slot per id as long as the
    announced player count never shrinks), isolation of the slots, the count of the connected, and the two faults: a
    string past its buffer and a search past the table when more than 33 players are announced; a frame then
    shows in every puppet what its slot says (\<open>Puppet_Table\<close>, \<open>Stage_Puppets\<close>, \<open>Game_Frame\<close>).
  \<^item> Packets: what is sent is what is received, each queued packet is sent once and freed once, and where the
    code breaks this rule (\<open>Socket_Client\<close>, \<open>Client_Send\<close>).
  \<^item> Modes: the rules of both games as functions of the frame, the clocks and flags as invariants, the class of
    the mode object against the chosen mode for everybody who casts it (\<open>Hide_Seek\<close>, \<open>Capture_Flag\<close>,
    \<open>Client_Modes\<close>, \<open>Mode_Readers\<close>).
  \<^item> The read thread and the debug page: when the thread's function returns, and exactly when the page can be
    drawn (\<open>Client_Life\<close>, \<open>Debug_Draw\<close>).
  \<^item> The configuration page: who keeps pressing cancel is back in its menu after 62 frames, and what each choice sets (\<open>Server_Config\<close>).
  \<^item> Movement: a step of a puppet ends between its place and that place plus the rounded difference to the
    target, which is the target when the difference is exact; with rounding it can pass it (\<open>Puppet_Motion\<close>).
  \<^item> The library: strings refine operations on texts, the sorted map refines a bounded finite map, dates and
    seconds are inverse to each other until the 8th of February 2106, a ring buffer refines a bounded list, a long flag a set, the
    ordered set a bounded set and the map with string keys a bounded map while its keys are short enough; an array of
    objects loses no block when it is cleared and filled again.
  \<^item> The camera is, in exact arithmetic, at its distance from the target after every frame (\<open>Camera\<close>).
  \<^item> Matrices, in exact arithmetic: products compose and inverses undo, at every size; angles and quaternions taken
    from a rotation build it again; which rotation is none. On the bits of a float: where sine and cosine leave their
    table.

  Locales state the interfaces: \<open>bounded_seq\<close> (\<open>Ptr_Array\<close>) and \<open>bounded_map\<close> (\<open>Tree_Map\<close>), each interpreted on
  the code's own structure, the first also on the array of objects; \<open>bounded_deque\<close> (\<open>Ring_Buffer\<close>) extends the first.

  \<^bold>\<open>Loops and bounds.\<close> Loops are structural or have a measure. A loop that may not end is a partial function:
  the search for the year (\<open>Calendar.years_loop\<close>), \<open>FlagActor::makeActorDead\<close>, the wait for the keyboard and
  for the network; \<open>PuppetHolder::resizeHolder\<close> has fuel. That a loop ends, or does not, is a theorem. The read and send threads are runs over finite lists of events
  of any length.

  \<^bold>\<open>Not modelled.\<close> The engine and the system are declarations without bodies (\<open>al\<close>, \<open>game\<close>, \<open>rs\<close>, \<open>nn\<close>, \<open>agl\<close>,
  most of \<open>sead\<close>); they are parameters where the mod calls them. The drawing of the engine and the fonts
  of the debug menu have no state the rest depends on. Building the models of an archive, positions on the screen and
  sounds are calls of the engine. The heaps are modelled by ownership of packets only. Threads are
  sequences of whole handler calls: interleaving inside a handler (the source has no locks) is outside the
  model. Data without code (\<open>romfs\<close>), the build files and the server, which is in C#, are left out.
\<close>

end
